(* ===== verification/Prelude.thy ===== *)
theory Prelude
  imports Main
begin

text \<open>
  What every component of the model shares: JavaScript strings and the string methods the
  code calls, association-list tables, and the fact collections the component proofs draw on.

  A JavaScript string is a list of UTF-16 code units. The model's \<open>string\<close> holds code units
  below 256, so a theorem about all strings is a theorem about every text of Latin-1
  characters: all of ASCII and the accented letters whose only role in the code is to be
  "a character above 127". \<open>js_upper\<close> is exact on them but for the two letters whose upper
  case lies outside Latin-1 (units 181 and 255), which it leaves alone.
\<close>

named_theorems js_defs \<open>definitions of the JavaScript string helpers\<close>
named_theorems lex_facts \<open>facts on the scanners of the lexer\<close>
named_theorems guard_defs \<open>definitions of the statement classifier\<close>
named_theorems row_facts \<open>lookup and update of table rows\<close>

subsection \<open>Characters\<close>

definition unit_of :: "char \<Rightarrow> nat" where
  "unit_of c = of_char c"

definition is_ws :: "char \<Rightarrow> bool" where
  \<comment> \<open>the class \<open>\\s\<close> of a regular expression, below unit 256\<close>
  "is_ws c = (unit_of c \<in> {9, 10, 11, 12, 13, 32, 160})"

definition is_digit :: "char \<Rightarrow> bool" where
  "is_digit c = (48 \<le> unit_of c \<and> unit_of c \<le> 57)"

definition is_lower :: "char \<Rightarrow> bool" where
  "is_lower c = (97 \<le> unit_of c \<and> unit_of c \<le> 122)"

definition is_upper :: "char \<Rightarrow> bool" where
  "is_upper c = (65 \<le> unit_of c \<and> unit_of c \<le> 90)"

definition is_alpha :: "char \<Rightarrow> bool" where
  "is_alpha c = (is_lower c \<or> is_upper c)"

definition is_alnum :: "char \<Rightarrow> bool" where
  "is_alnum c = (is_alpha c \<or> is_digit c)"

lemmas char_class_defs = unit_of_def is_ws_def is_digit_def is_lower_def is_upper_def
  is_alpha_def is_alnum_def

subsection \<open>String methods\<close>

definition upper_char :: "char \<Rightarrow> string" where
  "upper_char c =
     (let n = unit_of c in
      if 97 \<le> n \<and> n \<le> 122 then [char_of (n - 32)]
      else if n = 223 then ''SS''
      else if 224 \<le> n \<and> n \<le> 254 \<and> n \<noteq> 247 then [char_of (n - 32)]
      else [c])"

definition js_upper :: "string \<Rightarrow> string" where
  "js_upper s = concat (map upper_char s)"

definition lower_char :: "char \<Rightarrow> char" where
  "lower_char c =
     (let n = unit_of c in
      if (65 \<le> n \<and> n \<le> 90) \<or> (192 \<le> n \<and> n \<le> 222 \<and> n \<noteq> 215) then char_of (n + 32) else c)"

definition js_lower :: "string \<Rightarrow> string" where
  "js_lower s = map lower_char s"

definition js_trim :: "string \<Rightarrow> string" where
  "js_trim s = rev (dropWhile is_ws (rev (dropWhile is_ws s)))"

definition js_slice :: "string \<Rightarrow> nat \<Rightarrow> nat \<Rightarrow> string" where
  "js_slice s a b = take (b - a) (drop a s)"

fun starts_with :: "string \<Rightarrow> string \<Rightarrow> bool" where
  "starts_with [] s = True"
| "starts_with (p # ps) [] = False"
| "starts_with (p # ps) (c # s) = (p = c \<and> starts_with ps s)"

definition ends_with :: "string \<Rightarrow> string \<Rightarrow> bool" where
  "ends_with p s = starts_with (rev p) (rev s)"

fun index_of :: "string \<Rightarrow> string \<Rightarrow> nat option" where
  \<comment> \<open>\<open>s.indexOf(p)\<close>, with \<open>None\<close> for -1\<close>
  "index_of p [] = (if p = [] then Some 0 else None)"
| "index_of p (c # s) =
     (if starts_with p (c # s) then Some 0 else map_option Suc (index_of p s))"

fun js_join :: "string \<Rightarrow> string list \<Rightarrow> string" where
  "js_join sep [] = []"
| "js_join sep [x] = x"
| "js_join sep (x # y # xs) = x @ sep @ js_join sep (y # xs)"

fun js_split :: "char \<Rightarrow> string \<Rightarrow> string list" where
  \<comment> \<open>\<open>s.split(c)\<close> for a one-character separator\<close>
  "js_split d [] = [[]]"
| "js_split d (c # s) =
     (if c = d then [] # js_split d s
      else (case js_split d s of [] \<Rightarrow> [[c]] | w # ws \<Rightarrow> (c # w) # ws))"

fun string_of_nat :: "nat \<Rightarrow> string" where
  "string_of_nat n =
     (if n < 10 then [char_of (48 + n)] else string_of_nat (n div 10) @ [char_of (48 + n mod 10)])"

definition ci_eq :: "string \<Rightarrow> string \<Rightarrow> bool" where
  \<comment> \<open>equality of \<open>citext\<close> values\<close>
  "ci_eq a b = (js_lower a = js_lower b)"

definition em_dash :: string where
  \<comment> \<open>the em dash of the messages, at its Windows-1252 place: it is outside Latin-1\<close>
  "em_dash = [CHR 0x97]"

declare string_of_nat.simps [simp del]

lemmas js_string_defs [js_defs] = js_upper_def js_lower_def js_trim_def js_slice_def ends_with_def

lemma starts_with_append [simp]: "starts_with p (p @ s)"
  by (induction p) auto

lemma starts_with_iff: "starts_with p s \<longleftrightarrow> (\<exists>t. s = p @ t)"
  by (induction p s rule: starts_with.induct) auto

lemma starts_with_length: "starts_with p s \<Longrightarrow> length p \<le> length s"
  by (auto simp: starts_with_iff)

lemma ends_with_iff: "ends_with p s \<longleftrightarrow> (\<exists>t. s = t @ p)"
  unfolding ends_with_def starts_with_iff
  by (metis rev_append rev_rev_ident)

lemma index_of_Some_le: "index_of p s = Some k \<Longrightarrow> k + length p \<le> length s"
  by (induction s arbitrary: k) (auto split: if_splits dest: starts_with_length)

lemma js_upper_Nil [simp]: "js_upper [] = []"
  by (simp add: js_upper_def)

lemma js_upper_append [simp]: "js_upper (s @ t) = js_upper s @ js_upper t"
  by (simp add: js_upper_def)

lemma js_lower_append [simp]: "js_lower (s @ t) = js_lower s @ js_lower t"
  by (simp add: js_lower_def)

lemma length_js_lower [simp]: "length (js_lower s) = length s"
  by (simp add: js_lower_def)

lemma js_split_not_Nil [simp]: "js_split d s \<noteq> []"
  by (induction s) (auto split: list.splits)

lemma js_split_no_sep: "w \<in> set (js_split d s) \<Longrightarrow> d \<notin> set w"
proof (induction s arbitrary: w)
  case Nil
  then show ?case by simp
next
  case (Cons c s)
  show ?case
  proof (cases "js_split d s")
    case Nil
    then show ?thesis by simp
  next
    case (Cons v vs)
    with Cons.IH Cons.prems show ?thesis by (auto split: if_splits)
  qed
qed

lemma js_split_join: "js_join [d] (js_split d s) = s"
proof (induction s)
  case Nil
  show ?case by simp
next
  case (Cons c s)
  obtain w ws where w: "js_split d s = w # ws"
    by (cases "js_split d s") auto
  with Cons show ?case by (cases ws) auto
qed

lemma unit_of_bound: "unit_of c < 256"
  by (simp add: unit_of_def)

subsection \<open>Effects\<close>

text \<open>
  Asynchronous code that may throw: a function from the state to a result or an error, and the
  state. \<open>and_then m f\<close> is \<open>const x = await m; ...\<close>: an error of \<open>m\<close> skips the rest.
\<close>

type_synonym ('s, 'e, 'a) eff = "'s \<Rightarrow> ('e + 'a) \<times> 's"

definition ret :: "'a \<Rightarrow> ('s, 'e, 'a) eff" where
  "ret a s = (Inr a, s)"

definition throw :: "'e \<Rightarrow> ('s, 'e, 'a) eff" where
  "throw e s = (Inl e, s)"

definition and_then :: "('s, 'e, 'a) eff \<Rightarrow> ('a \<Rightarrow> ('s, 'e, 'b) eff) \<Rightarrow> ('s, 'e, 'b) eff" where
  "and_then m f s = (case m s of (Inl e, s') \<Rightarrow> (Inl e, s') | (Inr a, s') \<Rightarrow> f a s')"

definition on_error :: "('s, 'e, 'a) eff \<Rightarrow> ('s \<Rightarrow> 's) \<Rightarrow> ('s, 'e, 'a) eff" where
  \<comment> \<open>\<open>try m catch (err) cleanup; throw err\<close>\<close>
  "on_error m cleanup s = (case m s of (Inl e, s') \<Rightarrow> (Inl e, cleanup s') | (Inr a, s') \<Rightarrow> (Inr a, s'))"

lemma and_then_ret [simp]: "and_then (ret a) f = f a"
  by (simp add: and_then_def ret_def fun_eq_iff)

lemma and_then_throw [simp]: "and_then (throw e) f = throw e"
  by (simp add: and_then_def throw_def fun_eq_iff)

definition lift_error :: "('e \<Rightarrow> 'f) \<Rightarrow> ('s, 'e, 'a) eff \<Rightarrow> ('s, 'f, 'a) eff" where
  \<comment> \<open>\<open>catch (err) throw f(err)\<close>\<close>
  "lift_error f m s = (case m s of (Inl e, s') \<Rightarrow> (Inl (f e), s') | (Inr a, s') \<Rightarrow> (Inr a, s'))"

definition transaction :: "('s, 'e, 'a) eff \<Rightarrow> ('s, 'e, 'a) eff" where
  \<comment> \<open>\<open>BEGIN\<close> ... \<open>COMMIT\<close>, and \<open>ROLLBACK\<close> when the body throws\<close>
  "transaction m s = (case m s of (Inl e, _) \<Rightarrow> (Inl e, s) | (Inr a, s') \<Rightarrow> (Inr a, s'))"

definition gets :: "('s \<Rightarrow> 'a) \<Rightarrow> ('s, 'e, 'a) eff" where
  "gets f s = (Inr (f s), s)"

definition modifies :: "('s \<Rightarrow> 's) \<Rightarrow> ('s, 'e, unit) eff" where
  "modifies f s = (Inr (), f s)"

definition guard :: "bool \<Rightarrow> 'e \<Rightarrow> ('s, 'e, unit) eff" where
  \<comment> \<open>\<open>if (!b) throw e\<close>\<close>
  "guard b e = (if b then ret () else throw e)"

lemmas eff_defs = ret_def throw_def and_then_def lift_error_def transaction_def gets_def modifies_def guard_def

lemma transaction_Inl: "transaction m s = (Inl e, s') \<Longrightarrow> s' = s"
  by (auto simp: transaction_def split: prod.splits sum.splits)

definition read_only :: "('s, 'e, 'a) eff \<Rightarrow> bool" where
  "read_only m = (\<forall>s. snd (m s) = s)"

lemma read_only_basic [intro!]:
  "read_only (ret a)" "read_only (throw e)" "read_only (gets f)" "read_only (guard b e)"
  by (simp_all add: read_only_def eff_defs)

lemma and_then_read_only: "read_only m \<Longrightarrow>
    and_then m f s = (case fst (m s) of Inl e \<Rightarrow> (Inl e, s) | Inr a \<Rightarrow> f a s)"
  by (cases "m s") (auto simp: read_only_def and_then_def split: sum.splits dest: spec[of _ s])

lemma read_only_and_then [intro!]: "read_only m \<Longrightarrow> (\<And>a. read_only (f a)) \<Longrightarrow> read_only (and_then m f)"
  unfolding read_only_def[of "and_then m f"] by (auto simp: and_then_read_only read_only_def split: sum.splits)

lemma find_update:
  "(\<And>x. P (f x) = P x) \<Longrightarrow> List.find P (map f xs) = map_option f (List.find P xs)"
  by (induction xs) auto

lemma find_filter: "List.find P (filter Q xs) = List.find (\<lambda>x. P x \<and> Q x) xs"
  by (induction xs) auto

lemma find_none: "(\<And>x. \<not> P x) \<Longrightarrow> List.find P xs = None"
  by (induction xs) auto

lemma find_append: "List.find P (xs @ ys) = (case List.find P xs of None \<Rightarrow> List.find P ys | Some x \<Rightarrow> Some x)"
  by (induction xs) auto

lemma distinct_key_filter: "distinct (map f xs) \<Longrightarrow> length (filter (\<lambda>x. f x = k) xs) \<le> 1"
proof (induction xs)
  case (Cons x xs)
  then have "filter (\<lambda>y. f y = k) xs = []" if "f x = k"
    using that by (auto simp: filter_empty_conv image_iff)
  then show ?case using Cons by auto
qed simp

lemma snd_lift_error [simp]: "snd (lift_error f m s) = snd (m s)"
  by (auto simp: lift_error_def split: prod.splits sum.splits)

lemma snd_and_then_ret: "(\<And>a. read_only (f a)) \<Longrightarrow> snd (and_then m f s) = snd (m s)"
  by (cases "m s") (auto simp: and_then_def read_only_def split: sum.splits)

lemma and_then_InrE:
  assumes "fst (and_then m f s) = Inr x" "read_only m"
  obtains a where "fst (m s) = Inr a" "fst (f a s) = Inr x"
  using assms by (auto simp: and_then_read_only split: sum.splits)

definition uniq :: "'a list \<Rightarrow> 'a list" where
  \<comment> \<open>\<open>[...new Set(xs)]\<close>: first occurrences, in order\<close>
  "uniq xs = rev (remdups (rev xs))"

lemma set_uniq [simp]: "set (uniq xs) = set xs" by (simp add: uniq_def)
lemma distinct_uniq [simp]: "distinct (uniq xs)" by (simp add: uniq_def)

lemma uniq_Nil [simp]: "uniq [] = []"
  by (simp add: uniq_def)

lemma remdups_snoc: "remdups (xs @ [x]) = filter (\<lambda>y. y \<noteq> x) (remdups xs) @ [x]"
  by (induction xs) auto

lemma uniq_Cons [simp]: "uniq (x # xs) = x # filter (\<lambda>y. y \<noteq> x) (uniq xs)"
  by (simp add: uniq_def remdups_snoc rev_filter)

lemma uniq_distinct: "distinct xs \<Longrightarrow> uniq xs = xs"
  by (simp add: uniq_def distinct_remdups_id)

subsection \<open>Rows\<close>

definition upd_where :: "('a \<Rightarrow> bool) \<Rightarrow> ('a \<Rightarrow> 'a) \<Rightarrow> 'a list \<Rightarrow> 'a list" where
  \<comment> \<open>\<open>UPDATE ... SET f WHERE p\<close>\<close>
  "upd_where p f xs = map (\<lambda>x. if p x then f x else x) xs"

lemma upd_where_simps [simp]:
  "upd_where p f [] = []"
  "upd_where p f (x # xs) = (if p x then f x else x) # upd_where p f xs"
  "upd_where p f (xs @ ys) = upd_where p f xs @ upd_where p f ys"
  "length (upd_where p f xs) = length xs"
  by (simp_all add: upd_where_def)

lemma upd_where_set [row_facts]: "set (upd_where p f xs) = (\<lambda>x. if p x then f x else x) ` set xs"
  by (simp add: upd_where_def)

lemma upd_where_key [row_facts]: "(\<And>x. k (f x) = k x) \<Longrightarrow> map k (upd_where p f xs) = map k xs"
  by (induction xs) auto

lemma upd_where_none: "(\<And>x. x \<in> set xs \<Longrightarrow> \<not> p x) \<Longrightarrow> upd_where p f xs = xs"
  by (induction xs) auto

lemma bex_upd_where:
  "x \<in> set xs \<Longrightarrow> (p x \<Longrightarrow> P (f x)) \<Longrightarrow> (\<not> p x \<Longrightarrow> P x) \<Longrightarrow> \<exists>y \<in> set (upd_where p f xs). P y"
  by (rule bexI[of _ "if p x then f x else x"]) (auto simp: upd_where_set)

lemma find_upd_where [row_facts]:
  "(\<And>x. q (f x) = q x) \<Longrightarrow>
    List.find q (upd_where p f xs) = map_option (\<lambda>x. if p x then f x else x) (List.find q xs)"
  by (induction xs) auto

lemma find_SomeD: "List.find q xs = Some x \<Longrightarrow> x \<in> set xs \<and> q x"
  by (auto simp: find_Some_iff)

lemma find_key:
  "distinct (map k xs) \<Longrightarrow> x \<in> set xs \<Longrightarrow> List.find (\<lambda>y. k y = k x) xs = Some x"
  by (induction xs) (auto simp: image_iff)

lemma unique_key: "distinct (map k xs) \<Longrightarrow> x \<in> set xs \<Longrightarrow> y \<in> set xs \<Longrightarrow> k x = k y \<Longrightarrow> x = y"
  by (metis find_key option.inject)

end
