(* ===== verification/SqlLex.thy ===== *)
theory SqlLex
  imports Prelude
begin

text \<open>
  \<open>packages/sql-guard/src/lex.ts\<close>: the SQL lexer and the statement splitter.

  The source loop keeps an index \<open>i\<close> into \<open>sql\<close>; here an iteration sees the rest of the input
  (\<open>drop i sql\<close>) and the index. Every inner \<open>while\<close> of the source is a scanner that returns how
  far it moves \<open>i\<close>; \<open>lex_step\<close> is one iteration of the outer loop. An escape at the very end of
  an \<open>E'...'\<close> string moves \<open>i\<close> one past the end, as the source's \<open>i += 2\<close> does.

  Proved: every token covers exactly the text it names and tokens follow one another
  (\<open>lex_tokens_follow\<close>), quoting by doubling makes any text one token (\<open>lex_literal\<close>),
  comments leave no token, and splitting only removes top-level semicolons.
\<close>

datatype token_kind = Word | Punct | Str | Ident | Number

record token =
  tk_kind :: token_kind
  tk_value :: string
  tk_start :: nat
  tk_end :: nat

definition is_word_start :: "char \<Rightarrow> bool" where
  "is_word_start c = (is_alpha c \<or> c = CHR ''_'' \<or> unit_of c > 127)"

definition is_word_char :: "char \<Rightarrow> bool" where
  "is_word_char c = (is_alnum c \<or> c = CHR ''_'' \<or> c = CHR ''$'' \<or> unit_of c > 127)"

definition is_number_char :: "char \<Rightarrow> bool" where
  "is_number_char c = (is_digit c \<or> c = CHR ''.'' \<or> c = CHR ''_'')"

abbreviation squote :: char where "squote \<equiv> CHR 0x27"
abbreviation dquote :: char where "dquote \<equiv> CHR 0x22"
abbreviation backslash :: char where "backslash \<equiv> CHR 0x5C"
abbreviation newline :: char where "newline \<equiv> CHR 0x0A"
abbreviation return :: char where "return \<equiv> CHR 0x0D"

subsection \<open>Scanners\<close>

definition scan_line :: "string \<Rightarrow> nat" where
  "scan_line s = length (takeWhile (\<lambda>c. c \<noteq> newline) s)"

fun scan_block :: "int \<Rightarrow> string \<Rightarrow> nat" where
  "scan_block d [] = 0"
| "scan_block d [c] = 1"
| "scan_block d (c # e # s) =
     (if c = CHR ''/'' \<and> e = CHR ''*'' then 2 + scan_block (d + 1) s
      else if c = CHR ''*'' \<and> e = CHR ''/''
      then (if d - 1 = 0 then 2 else 2 + scan_block (d - 1) s)
      else 1 + scan_block d (e # s))"

fun scan_quoted :: "char \<Rightarrow> string \<Rightarrow> nat" where
  "scan_quoted q [] = 0"
| "scan_quoted q [c] = 1"
| "scan_quoted q (c # e # s) =
     (if c = q then (if e = q then 2 + scan_quoted q s else 1) else 1 + scan_quoted q (e # s))"

fun scan_escaped :: "string \<Rightarrow> nat" where
  "scan_escaped [] = 0"
| "scan_escaped [c] = (if c = backslash then 2 else 1)"
| "scan_escaped (c # e # s) =
     (if c = backslash then 2 + scan_escaped s
      else if c = squote then (if e = squote then 2 + scan_escaped s else 1)
      else 1 + scan_escaped (e # s))"

definition tag_start :: "char \<Rightarrow> bool" where
  "tag_start c = (is_alpha c \<or> c = CHR ''_'')"

definition tag_char :: "char \<Rightarrow> bool" where
  "tag_char c = (is_alnum c \<or> c = CHR ''_'')"

definition dollar_tag :: "string \<Rightarrow> string option" where
  \<comment> \<open>the match of \<open>/^\\$([A-Za-z_][A-Za-z0-9_]*)?\\$/\<close> on the text from a dollar sign on\<close>
  "dollar_tag s =
     (case s of
        c # d # rest \<Rightarrow>
          if c \<noteq> CHR ''$'' then None
          else if d = CHR ''$'' then Some ''$$''
          else if tag_start d then
            (let tag = takeWhile tag_char (d # rest) in
             case dropWhile tag_char (d # rest) of
               e # _ \<Rightarrow> if e = CHR ''$'' then Some (CHR ''$'' # tag @ ''$'') else None
             | [] \<Rightarrow> None)
          else None
      | _ \<Rightarrow> None)"

definition scan_dollar :: "string \<Rightarrow> string \<Rightarrow> nat" where
  \<comment> \<open>how far \<open>i\<close> moves over a dollar-quoted body opened by \<open>tag\<close>\<close>
  "scan_dollar tag s =
     (case index_of tag (drop (length tag) s) of
        None \<Rightarrow> length s
      | Some k \<Rightarrow> length tag + k + length tag)"

subsection \<open>The lexer\<close>

definition lex_step :: "char \<Rightarrow> string \<Rightarrow> nat \<times> token_kind option" where
  \<comment> \<open>one iteration of the loop at the text \<open>c # s\<close>: how far it moves, and the token it pushes\<close>
  "lex_step c s =
     (if is_ws c then (1, None)
      else if c = CHR ''-'' \<and> starts_with ''-'' s then (scan_line (c # s), None)
      else if c = CHR ''/'' \<and> starts_with ''*'' s then (scan_block 0 (c # s), None)
      else if c = CHR ''$'' \<and> dollar_tag (c # s) \<noteq> None
      then (scan_dollar (the (dollar_tag (c # s))) (c # s), Some Str)
      else if (c = CHR ''E'' \<or> c = CHR ''e'') \<and> starts_with [squote] s
      then (2 + scan_escaped (tl s), Some Str)
      else if c = squote then (1 + scan_quoted squote s, Some Str)
      else if c = dquote then (1 + scan_quoted dquote s, Some Ident)
      else if is_digit c then (1 + length (takeWhile is_number_char s), Some Number)
      else if is_word_start c then (length (takeWhile is_word_char (c # s)), Some Word)
      else (1, Some Punct))"

definition mk_token :: "token_kind \<Rightarrow> nat \<Rightarrow> nat \<Rightarrow> string \<Rightarrow> token" where
  "mk_token kd i k rest =
     \<lparr>tk_kind = kd,
      tk_value = (if kd = Word then js_upper (take k rest) else take k rest),
      tk_start = i, tk_end = i + k\<rparr>"

lemma scan_block_pos: "s \<noteq> [] \<Longrightarrow> 0 < scan_block d s"
  by (cases "(d, s)" rule: scan_block.cases) auto

lemma word_start_char: "is_word_start c \<Longrightarrow> is_word_char c"
  by (auto simp: is_word_start_def is_word_char_def is_alnum_def)

lemma dollar_tag_length: "dollar_tag s = Some t \<Longrightarrow> 2 \<le> length t \<and> 2 \<le> length s"
  by (auto simp: dollar_tag_def Let_def split: list.splits if_splits)

lemma lex_step_pos: "0 < fst (lex_step c s)"
  using scan_block_pos[of "c # s" 0] dollar_tag_length[of "c # s"] word_start_char[of c]
  by (auto simp: lex_step_def scan_line_def scan_dollar_def split: option.splits)

lemma lex_step_advances: "(k, r) = lex_step c s \<Longrightarrow> 0 < k"
  by (metis fst_conv lex_step_pos)

function lex_from :: "nat \<Rightarrow> string \<Rightarrow> token list" where
  "lex_from i [] = []"
| "lex_from i (c # s) =
     (case lex_step c s of
        (k, None) \<Rightarrow> lex_from (i + k) (drop k (c # s))
      | (k, Some kd) \<Rightarrow> mk_token kd i k (c # s) # lex_from (i + k) (drop k (c # s)))"
  by pat_completeness auto
termination
  by (relation "measure (\<lambda>(i, s). length s)") (auto dest: lex_step_advances)

definition lex :: "string \<Rightarrow> token list" where
  "lex sql = lex_from 0 sql"

subsection \<open>Statements\<close>

record statement =
  st_sql :: string
  st_tokens :: "token list"
  st_start :: nat
  st_end :: nat

definition is_punct :: "char \<Rightarrow> token \<Rightarrow> bool" where
  "is_punct c t = (tk_kind t = Punct \<and> tk_value t = [c])"

definition push_statement :: "string \<Rightarrow> token list \<Rightarrow> nat \<Rightarrow> statement list" where
  \<comment> \<open>the closure \<open>push\<close>: the statements it appends, none or one\<close>
  "push_statement sql toks end_char =
     (case toks of
        [] \<Rightarrow> []
      | t # _ \<Rightarrow>
          let txt = js_trim (js_slice sql (tk_start t) end_char) in
          if txt = [] then []
          else [\<lparr>st_sql = txt, st_tokens = toks, st_start = tk_start t, st_end = end_char\<rparr>])"

definition next_depth :: "token \<Rightarrow> nat \<Rightarrow> nat" where
  \<comment> \<open>the parenthesis counter every scan of the guard keeps: \<open>depth++\<close>, \<open>Math.max(0, depth - 1)\<close>\<close>
  "next_depth t d = (if is_punct CHR ''('' t then d + 1
                     else if is_punct CHR '')'' t then d - 1 else d)"

fun split_loop :: "string \<Rightarrow> token list \<Rightarrow> nat \<Rightarrow> token list \<Rightarrow> statement list" where
  \<comment> \<open>\<open>cur\<close> is \<open>tokens.slice(from, k)\<close>\<close>
  "split_loop sql cur d [] = (if cur = [] then [] else push_statement sql cur (length sql))"
| "split_loop sql cur d (t # ts) =
     (if is_punct CHR '';'' t \<and> d = 0
      then push_statement sql cur (tk_start t) @ split_loop sql [] d ts
      else split_loop sql (cur @ [t]) (next_depth t d) ts)"

definition split_sql :: "string \<Rightarrow> statement list" where
  "split_sql sql = split_loop sql [] 0 (lex sql)"

subsection \<open>Tokens cover the text they name\<close>

definition token_covers :: "string \<Rightarrow> token \<Rightarrow> bool" where
  "token_covers sql t =
     (tk_start t < tk_end t \<and> tk_start t < length sql \<and> \<not> is_ws (sql ! tk_start t) \<and>
      tk_value t = (if tk_kind t = Word then js_upper else id) (js_slice sql (tk_start t) (tk_end t)))"

definition token_before :: "token \<Rightarrow> token \<Rightarrow> bool" where
  "token_before t u = (tk_end t \<le> tk_start u)"

lemma lex_from_starts: "t \<in> set (lex_from i s) \<Longrightarrow> i \<le> tk_start t"
proof (induction i s rule: lex_from.induct)
  case (2 i c s)
  then show ?case
    by (fastforce split: prod.splits option.splits simp: mk_token_def)
qed simp

lemma lex_step_ws: "is_ws c \<Longrightarrow> lex_step c s = (1, None)"
  by (simp add: lex_step_def)

lemma lex_from_cover:
  "drop i sql = s \<Longrightarrow> i \<le> length sql \<Longrightarrow> list_all (token_covers sql) (lex_from i s)"
proof (induction i s rule: lex_from.induct)
  case (2 i c s)
  obtain k r where kr: "lex_step c s = (k, r)" by force
  then have k: "0 < k" using lex_step_advances[of k r c s] by simp
  have more: "drop (i + k) sql = drop k (c # s)" using "2.prems"(1) by (metis add.commute drop_drop)
  have i: "i < length sql" using "2.prems"(1) by (metis drop_all leI list.distinct(1))
  have rest: "list_all (token_covers sql) (lex_from (i + k) (drop k (c # s)))"
  proof (cases "i + k \<le> length sql")
    case True
    then show ?thesis using "2.IH" kr more by (cases r) auto
  next
    case False
    then show ?thesis using more by (simp add: drop_all)
  qed
  have c: "sql ! i = c" using "2.prems"(1) i by (metis nth_via_drop)
  have "token_covers sql (mk_token kd i k (c # s))" if "r = Some kd" for kd
    using k i c kr that "2.prems"(1) lex_step_ws[of c s]
    by (auto simp: mk_token_def token_covers_def js_slice_def)
  then show ?case using kr rest by (auto split: option.splits)
qed simp

lemma lex_from_ordered: "sorted_wrt token_before (lex_from i s)"
proof (induction i s rule: lex_from.induct)
  case (2 i c s)
  then show ?case
    by (auto split: prod.splits option.splits simp: mk_token_def token_before_def
          dest: lex_from_starts)
qed simp

subsection \<open>Quoted text and comments\<close>

fun double :: "char \<Rightarrow> string \<Rightarrow> string" where
  "double q [] = []"
| "double q (c # s) = (if c = q then q # q # double q s else c # double q s)"

definition quote_with :: "char \<Rightarrow> string \<Rightarrow> string" where
  "quote_with q s = q # double q s @ [q]"

definition not_next :: "(char \<Rightarrow> bool) \<Rightarrow> string \<Rightarrow> bool" where
  "not_next P s = (case s of [] \<Rightarrow> True | c # _ \<Rightarrow> \<not> P c)"

lemma scan_quoted_double:
  "not_next (\<lambda>c. c = q) rest \<Longrightarrow> scan_quoted q (double q s @ q # rest) = length (double q s) + 1"
proof (induction s)
  case Nil
  then show ?case by (cases rest) (auto simp: not_next_def)
next
  case (Cons c s)
  then have IH: "scan_quoted q (double q s @ q # rest) = length (double q s) + 1" by simp
  show ?case
  proof (cases "c = q")
    case True
    then show ?thesis using IH by simp
  next
    case False
    obtain d ds where d: "double q s @ q # rest = d # ds" by (cases "double q s @ q # rest") auto
    then have "scan_quoted q (c # double q s @ q # rest) = 1 + scan_quoted q (double q s @ q # rest)"
      using False by simp
    then show ?thesis using False IH by simp
  qed
qed

lemma lex_from_literal:
  assumes "not_next (\<lambda>c. c = squote) rest"
  shows "lex_from i (quote_with squote s @ rest) =
    mk_token Str i (length (quote_with squote s)) (quote_with squote s @ rest)
      # lex_from (i + length (quote_with squote s)) rest"
proof -
  have "lex_step squote (double squote s @ squote # rest) = (length (quote_with squote s), Some Str)"
    using scan_quoted_double[OF assms, of s]
    by (simp add: lex_step_def quote_with_def char_class_defs)
  then show ?thesis by (simp add: quote_with_def)
qed

lemma lex_from_quoted_ident:
  assumes "not_next (\<lambda>c. c = dquote) rest"
  shows "lex_from i (quote_with dquote s @ rest) =
    mk_token Ident i (length (quote_with dquote s)) (quote_with dquote s @ rest)
      # lex_from (i + length (quote_with dquote s)) rest"
proof -
  have "lex_step dquote (double dquote s @ dquote # rest) = (length (quote_with dquote s), Some Ident)"
    using scan_quoted_double[OF assms, of s]
    by (simp add: lex_step_def quote_with_def char_class_defs)
  then show ?thesis by (simp add: quote_with_def)
qed

lemma lex_from_word:
  assumes "list_all is_word_char (c # w)" "is_word_start c" "\<not> is_ws c" "not_next is_word_char rest"
    "w \<noteq> [] \<or> not_next (\<lambda>d. d = squote) rest" 
  shows "lex_from i (c # w @ rest) =
    mk_token Word i (length (c # w)) (c # w @ rest) # lex_from (i + length (c # w)) rest"
proof -
  have tw: "takeWhile is_word_char (c # w @ rest) = c # w"
    using assms(1,4) by (cases rest) (auto simp: list_all_iff not_next_def takeWhile_append2)
  have c: "\<not> is_digit c" "c \<noteq> CHR ''-''" "c \<noteq> CHR ''/''" "c \<noteq> CHR ''$''" "c \<noteq> squote" "c \<noteq> dquote"
    using assms(2) by (auto simp: is_word_start_def char_class_defs)
  have e: "\<not> starts_with [squote] (w @ rest)"
  proof (cases w)
    case Nil
    then show ?thesis using assms(5) by (cases rest) (auto simp: not_next_def)
  next
    case (Cons d ds)
    then have "is_word_char d" using assms(1) by simp
    then have "d \<noteq> squote" by (auto simp: is_word_char_def char_class_defs)
    then show ?thesis using Cons by simp
  qed
  have "lex_step c (w @ rest) = (length (c # w), Some Word)"
    using c e tw assms(2,3) by (simp add: lex_step_def)
  then show ?thesis by simp
qed

lemma lex_from_space: "is_ws c \<Longrightarrow> lex_from i (c # s) = lex_from (i + 1) s"
  by (simp add: lex_step_def)

lemma lex_from_comment:
  assumes "newline \<notin> set w"
  shows "lex_from i (''--'' @ w @ newline # rest) = lex_from (i + length w + 3) rest"
proof -
  have "takeWhile (\<lambda>c. c \<noteq> newline) (w @ newline # rest) = w"
    using assms by (auto simp: takeWhile_append2 takeWhile_append)
  then have "lex_step CHR ''-'' (CHR ''-'' # w @ newline # rest) = (length w + 2, None)"
    by (simp add: lex_step_def scan_line_def char_class_defs)
  moreover have "lex_step newline rest = (1, None)"
    by (simp add: lex_step_def char_class_defs)
  ultimately show ?thesis by (simp add: eval_nat_numeral)
qed

lemma lex_from_comment_end:
  assumes "newline \<notin> set w"
  shows "lex_from i (''--'' @ w) = []"
proof -
  have "takeWhile (\<lambda>c. c \<noteq> newline) w = w"
    using assms by (simp add: takeWhile_eq_all_conv) blast
  then have "lex_step CHR ''-'' (CHR ''-'' # w) = (length w + 2, None)"
    unfolding lex_step_def scan_line_def
    by (simp add: char_class_defs del: takeWhile_eq_all_conv)
  then show ?thesis by simp
qed
subsection \<open>Splitting removes top-level semicolons and nothing else\<close>

fun drop_separators :: "nat \<Rightarrow> token list \<Rightarrow> token list" where
  "drop_separators d [] = []"
| "drop_separators d (t # ts) =
     (if is_punct CHR '';'' t \<and> d = 0 then drop_separators d ts
      else t # drop_separators (next_depth t d) ts)"

fun depth_after :: "nat \<Rightarrow> token list \<Rightarrow> nat" where
  "depth_after d [] = d"
| "depth_after d (t # ts) = depth_after (next_depth t d) ts"

lemma drop_separators_length: "length (drop_separators d ts) \<le> length ts"
  by (induction d ts rule: drop_separators.induct) auto

lemma drop_separators_append:
  "drop_separators d ts = ts \<Longrightarrow>
   drop_separators d (ts @ us) = ts @ drop_separators (depth_after d ts) us"
proof (induction ts arbitrary: d)
  case (Cons t ts)
  then show ?case using drop_separators_length[of d ts] by (auto split: if_splits)
qed simp

lemma js_trim_nonempty: "\<not> is_ws c \<Longrightarrow> js_trim (c # s) \<noteq> []"
  by (simp add: js_trim_def dropWhile_eq_Nil_conv)

lemma push_statement_tokens:
  assumes "list_all (token_covers sql) ts" "ts \<noteq> []" "tk_start (hd ts) < e"
  shows "\<exists>st. push_statement sql ts e = [st] \<and> st_tokens st = ts"
proof -
  obtain t us where ts: "ts = t # us" using assms(2) by (cases ts) auto
  then have t: "tk_start t < length sql" "\<not> is_ws (sql ! tk_start t)" "tk_start t < e"
    using assms(1,3) by (auto simp: token_covers_def)
  then have "js_slice sql (tk_start t) e = sql ! tk_start t # take (e - tk_start t - 1) (drop (Suc (tk_start t)) sql)"
    by (simp add: js_slice_def Cons_nth_drop_Suc[symmetric] take_Cons')
  then have "js_trim (js_slice sql (tk_start t) e) \<noteq> []"
    using t(2) by (simp add: js_trim_nonempty)
  then show ?thesis using ts by (simp add: push_statement_def Let_def)
qed

lemma split_loop_tokens:
  "list_all (token_covers sql) (cur @ ts) \<Longrightarrow> sorted_wrt token_before (cur @ ts) \<Longrightarrow>
   concat (map st_tokens (split_loop sql cur d ts)) = cur @ drop_separators d ts"
proof (induction ts arbitrary: cur d)
  case Nil
  show ?case
  proof (cases "cur = []")
    case False
    then have "tk_start (hd cur) < length sql" using Nil by (cases cur) (auto simp: token_covers_def)
    then show ?thesis using push_statement_tokens[of sql cur "length sql"] Nil False by auto
  qed simp
next
  case (Cons t ts)
  show ?case
  proof (cases "is_punct CHR '';'' t \<and> d = 0")
    case True
    have "concat (map st_tokens (push_statement sql cur (tk_start t))) = cur"
    proof (cases "cur = []")
      case False
      then have "tk_start (hd cur) < tk_start t"
        using Cons.prems by (cases cur) (auto simp: token_covers_def token_before_def)
      then show ?thesis using push_statement_tokens[of sql cur "tk_start t"] Cons.prems False by auto
    qed (simp add: push_statement_def)
    then show ?thesis using True Cons.IH[of "[]" d] Cons.prems by (simp add: sorted_wrt_append)
  next
    case False
    then show ?thesis using Cons.IH[of "cur @ [t]" "next_depth t d"] Cons.prems by auto
  qed
qed

lemma push_statement_atomic:
  "drop_separators 0 cur = cur \<Longrightarrow>
   list_all (\<lambda>st. drop_separators 0 (st_tokens st) = st_tokens st) (push_statement sql cur e)"
  by (simp add: push_statement_def Let_def split: list.splits)

lemma depth_after_append: "depth_after d (ts @ us) = depth_after (depth_after d ts) us"
  by (induction ts arbitrary: d) auto

lemma split_loop_atomic:
  "drop_separators 0 cur = cur \<Longrightarrow> depth_after 0 cur = d \<Longrightarrow>
   list_all (\<lambda>st. drop_separators 0 (st_tokens st) = st_tokens st) (split_loop sql cur d ts)"
proof (induction ts arbitrary: cur d)
  case (Cons t ts)
  then show ?case
    using push_statement_atomic[of cur sql "tk_start t"] drop_separators_append[of 0 cur "[t]"]
      depth_after_append[of 0 cur "[t]"]
    by (auto simp: list_all_append)
qed (simp add: push_statement_atomic)

subsection \<open>Properties\<close>

lemma lex_tokens_follow_aux:
  "list_all (token_covers sql) (lex sql)" "sorted_wrt token_before (lex sql)"
  unfolding lex_def using lex_from_cover[of 0 sql sql] lex_from_ordered by simp_all

text \<open>
  Every token of \<open>lex sql\<close> starts on a non-space character inside the text, is not empty,
  and its value is exactly the slice of the source between its start and end (upper-cased for a
  word); tokens come in order and never overlap. So nothing the guard reads was made up, and no
  character is read twice.
\<close>

theorem lex_tokens_follow:
  "list_all (token_covers sql) (lex sql) \<and> sorted_wrt token_before (lex sql)"
  by (simp add: lex_tokens_follow_aux)

text \<open>
  Any text at all, quoted by doubling its single quotes, lexes as one string token, whatever
  semicolons, comment openers or keywords it contains, and the lexer goes on right after it.
\<close>

theorem lex_literal:
  assumes "not_next (\<lambda>c. c = squote) rest"
  shows "lex (quote_with squote s @ rest) =
    mk_token Str 0 (length (quote_with squote s)) (quote_with squote s)
      # lex_from (length (quote_with squote s)) rest"
  unfolding lex_def using lex_from_literal[OF assms, of 0 s] by (simp add: mk_token_def)

theorem lex_literal_witness:
  "lex (quote_with squote ''; DROP'' @ '';'') =
    mk_token Str 0 8 (quote_with squote ''; DROP'') # lex_from 8 '';''"
  using lex_literal[of "'';''" "''; DROP''"] 
  by (simp add: not_next_def quote_with_def eval_nat_numeral)

text \<open>
  Splitting keeps every token: the statements' tokens, in order, are the tokens of the text
  without its top-level semicolons, and no statement has a top-level semicolon left in it.
\<close>

theorem split_keeps_tokens:
  "concat (map st_tokens (split_sql sql)) = drop_separators 0 (lex sql) \<and>
   list_all (\<lambda>st. drop_separators 0 (st_tokens st) = st_tokens st) (split_sql sql)"
  unfolding split_sql_def
  using split_loop_tokens[of sql "[]" "lex sql" 0] lex_tokens_follow_aux[of sql]
    split_loop_atomic[of "[]" 0 sql "lex sql"] by simp

end
