(* ===== verification/SqlGuard.thy ===== *)
theory SqlGuard
  imports SqlLex
begin

text \<open>
  \<open>packages/sql-guard/src/index.ts\<close>: the destructive-statement guard (rail 2) and the row-limit
  rewrite (rail 4) over the tokens of \<open>SqlLex\<close>.

  Token indices of the source are kept; reading past the end (\<open>toks[i]\<close> undefined) is \<open>None\<close> of
  \<open>tok_at\<close>. The messages are the source's, with its em dash, which is no Latin-1 character,
  written as unit 0x97.

  Proved: the ladder is consistent (names to type exactly on the top rung), a script is as
  dangerous as its worst statement, unqualified \<open>DELETE\<close> and \<open>UPDATE\<close> and \<open>DROP TABLE\<close> never
  pass as safe, quoted text cannot change a verdict, and the two ways in which the lexer and the
  database disagree about where a comment or a body ends.
\<close>

datatype danger = Safe | Confirm | TypeName

record classified =
  cl_sql :: string
  cl_command :: string
  cl_danger :: danger
  cl_reason :: string
  cl_object :: "string option"
  cl_names :: "string list"
  cl_limitable :: bool
  cl_tx :: bool

record verdict =
  vd_danger :: danger
  vd_reason :: string
  vd_object :: "string option"
  vd_names :: "string list"

definition is_word :: "string \<Rightarrow> token \<Rightarrow> bool" where
  "is_word w t = (tk_kind t = Word \<and> tk_value t = w)"

definition is_name :: "token \<Rightarrow> bool" where
  "is_name t = (tk_kind t = Word \<or> tk_kind t = Ident)"

definition tok_at :: "statement \<Rightarrow> nat \<Rightarrow> token option" where
  "tok_at s i = (if i < length (st_tokens s) then Some (st_tokens s ! i) else None)"

definition tok_is :: "statement \<Rightarrow> nat \<Rightarrow> (token \<Rightarrow> bool) \<Rightarrow> bool" where
  \<comment> \<open>\<open>toks[i]?.kind === ... && toks[i]!.value === ...\<close>\<close>
  "tok_is s i P = (case tok_at s i of None \<Rightarrow> False | Some t \<Rightarrow> P t)"

definition lead :: "statement \<Rightarrow> string" where
  "lead s = (case st_tokens s of [] \<Rightarrow> '''' | t # _ \<Rightarrow> if tk_kind t = Word then tk_value t else '''')"

fun where_scan :: "nat \<Rightarrow> token list \<Rightarrow> bool" where
  "where_scan d [] = False"
| "where_scan d (t # ts) =
     (if is_punct CHR ''('' t \<or> is_punct CHR '')'' t then where_scan (next_depth t d) ts
      else if d = 0 \<and> is_word ''WHERE'' t then True
      else where_scan d ts)"

definition has_top_level_where :: "statement \<Rightarrow> bool" where
  "has_top_level_where s = where_scan 0 (st_tokens s)"

definition SKIP :: "string list" where
  "SKIP = [''TABLE'', ''SCHEMA'', ''VIEW'', ''MATERIALIZED'', ''INDEX'', ''SEQUENCE'', ''FUNCTION'',
     ''PROCEDURE'', ''TRIGGER'', ''TYPE'', ''DOMAIN'', ''EXTENSION'', ''DATABASE'', ''ROLE'',
     ''USER'', ''POLICY'', ''PUBLICATION'', ''SUBSCRIPTION'', ''CONCURRENTLY'',
     ''IF'', ''EXISTS'', ''NOT'', ''ONLY'', ''FROM'']"

subsection \<open>Names\<close>

definition bare_start :: "char \<Rightarrow> bool" where
  "bare_start c = (is_lower c \<or> c = CHR ''_'')"

definition bare_char :: "char \<Rightarrow> bool" where
  "bare_char c = (is_lower c \<or> is_digit c \<or> c = CHR ''_'' \<or> c = CHR ''$'')"

definition redundantly_quoted :: "string \<Rightarrow> string option" where
  "redundantly_quoted v =
     (case v of
        c # d # rest \<Rightarrow>
          if c = dquote \<and> rest \<noteq> [] \<and> last rest = dquote \<and> bare_start d
             \<and> list_all bare_char (butlast rest)
          then Some (d # butlast rest) else None
      | _ \<Rightarrow> None)"

definition token_text :: "statement \<Rightarrow> token \<Rightarrow> string" where
  "token_text s t =
     (if tk_kind t = Ident
      then (case redundantly_quoted (tk_value t) of Some bare \<Rightarrow> bare | None \<Rightarrow> tk_value t)
      else js_slice (st_sql s) (tk_start t - st_start s) (tk_end t - st_start s))"

function dotted_parts :: "statement \<Rightarrow> nat \<Rightarrow> string list \<times> nat" where
  \<comment> \<open>the \<open>while\<close> loop: the parts it pushes and the index it stops at\<close>
  "dotted_parts s j =
     (if j + 1 < length (st_tokens s) \<and> is_punct CHR ''.'' (st_tokens s ! j)
         \<and> is_name (st_tokens s ! (j + 1))
      then (let (ps, nxt) = dotted_parts s (j + 2) in (token_text s (st_tokens s ! (j + 1)) # ps, nxt))
      else ([], j))"
  by pat_completeness auto
termination by (relation "measure (\<lambda>(s, j). length (st_tokens s) - j)") auto

declare dotted_parts.simps [simp del]

definition dotted_name :: "statement \<Rightarrow> nat \<Rightarrow> (string \<times> nat) option" where
  "dotted_name s i =
     (case tok_at s i of
        None \<Rightarrow> None
      | Some head \<Rightarrow>
          if \<not> is_name head then None
          else (let (ps, nxt) = dotted_parts s (i + 1)
                in Some (js_join ''.'' (token_text s head # ps), nxt)))"

definition name_list_start :: "statement \<Rightarrow> nat" where
  "name_list_start s =
     1 + length (takeWhile (\<lambda>t. tk_kind t = Word \<and> tk_value t \<in> set SKIP) (drop 1 (st_tokens s)))"

lemma dotted_parts_le: "j \<le> snd (dotted_parts s j)"
proof (induction s j rule: dotted_parts.induct)
  case (1 s j)
  then show ?case by (subst dotted_parts.simps) (auto split: prod.splits)
qed

lemma dotted_name_advances: "dotted_name s i = Some (n, j) \<Longrightarrow> i < j \<and> i < length (st_tokens s)"
  using dotted_parts_le[of "Suc i" s]
  by (auto simp: dotted_name_def tok_at_def split: option.splits if_splits prod.splits)

function names_from :: "statement \<Rightarrow> nat \<Rightarrow> string list" where
  "names_from s i =
     (case dotted_name s i of
        None \<Rightarrow> []
      | Some (n, j) \<Rightarrow>
          if tok_is s j (is_punct CHR '','') then n # names_from s (j + 1) else [n])"
  by pat_completeness auto
termination
  by (relation "measure (\<lambda>(s, i). length (st_tokens s) - i)")
    (auto dest!: dotted_name_advances)

declare names_from.simps [simp del]

definition object_names :: "statement \<Rightarrow> string list" where
  "object_names s = names_from s (name_list_start s)"

definition object_name :: "statement \<Rightarrow> string option" where
  "object_name s = (case object_names s of [] \<Rightarrow> None | n # _ \<Rightarrow> Some n)"

subsection \<open>The actions of an \<open>ALTER\<close>\<close>

fun action_starts :: "nat \<Rightarrow> nat \<Rightarrow> token list \<Rightarrow> nat list" where
  "action_starts d j [] = []"
| "action_starts d j (t # ts) =
     (if is_punct CHR ''('' t \<or> is_punct CHR '')'' t then action_starts (next_depth t d) (j + 1) ts
      else if d = 0 \<and> is_punct CHR '','' t then (j + 1) # action_starts d (j + 1) ts
      else action_starts d (j + 1) ts)"

definition alter_actions :: "statement \<Rightarrow> nat list" where
  "alter_actions s =
     (case dotted_name s (name_list_start s) of
        None \<Rightarrow> []
      | Some (_, nxt) \<Rightarrow> nxt # action_starts 0 nxt (drop nxt (st_tokens s)))"

definition DROP_NOT_COLUMN :: "string list" where
  "DROP_NOT_COLUMN = [''DEFAULT'', ''NOT'', ''IDENTITY'', ''EXPRESSION'', ''GENERATED'',
     ''CLUSTER'', ''OIDS'', ''STATISTICS'']"

datatype alter_drop = DropColumn "string option" | DropConstraint "string option" | DropOther

definition alter_drop :: "statement \<Rightarrow> nat \<Rightarrow> alter_drop" where
  "alter_drop s at =
     (let m = at + 1;
          other = tok_is s m (\<lambda>t. tk_kind t = Word \<and> tk_value t \<noteq> ''COLUMN''
                    \<and> tk_value t \<noteq> ''CONSTRAINT'' \<and> tk_value t \<in> set DROP_NOT_COLUMN);
          constraint = tok_is s m (is_word ''CONSTRAINT'');
          m = (if tok_is s m (is_word ''COLUMN'') \<or> constraint then m + 1 else m);
          m = (if tok_is s m (is_word ''IF'') then m + 1 else m);
          m = (if tok_is s m (is_word ''EXISTS'') then m + 1 else m);
          name = map_option fst (dotted_name s m)
      in if other then DropOther else if constraint then DropConstraint name else DropColumn name)"

subsection \<open>Whether a \<open>LIMIT\<close> may be appended\<close>

fun limit_scan :: "nat \<Rightarrow> token list \<Rightarrow> bool" where
  "limit_scan d [] = True"
| "limit_scan d (t # ts) =
     (if is_punct CHR ''('' t \<or> is_punct CHR '')'' t then limit_scan (next_depth t d) ts
      else if d = 0 \<and> tk_kind t = Word
              \<and> tk_value t \<in> {''LIMIT'', ''FETCH'', ''OFFSET'', ''UNION'', ''INTERSECT'', ''EXCEPT'', ''INTO''}
      then False else limit_scan d ts)"

definition is_limitable :: "statement \<Rightarrow> bool" where
  "is_limitable s = (lead s = ''SELECT'' \<and> limit_scan 0 (st_tokens s))"

definition name_list :: "string list \<Rightarrow> string option" where
  "name_list names =
     (let quoted = map (\<lambda>n. [dquote] @ n @ [dquote]) names in
      case quoted of
        [] \<Rightarrow> None
      | [q] \<Rightarrow> Some q
      | _ \<Rightarrow> Some (js_join '', '' (butlast quoted) @ '' and '' @ last quoted))"

subsection \<open>The ladder\<close>

definition named :: "statement \<Rightarrow> string" where
  "named s = (case object_name s of Some n \<Rightarrow> n | None \<Rightarrow> ''the object'')"

definition safe_verdict :: "statement \<Rightarrow> verdict" where
  "safe_verdict s = \<lparr>vd_danger = Safe, vd_reason = [], vd_object = object_name s, vd_names = []\<rparr>"

definition danger_drop :: "statement \<Rightarrow> verdict" where
  "danger_drop s =
     (if tok_is s 1 (is_word ''TABLE'') \<or> tok_is s 1 (is_word ''SCHEMA'')
      then (let names = object_names s; it = (if length names > 1 then ''them'' else ''it'') in
        \<lparr>vd_danger = (if names = [] then Confirm else TypeName),
         vd_reason = ''Dropping '' @ (case name_list names of Some l \<Rightarrow> l | None \<Rightarrow> named s)
           @ '' deletes '' @ it @ '' and everything in '' @ it @ ''. Only a backup restore brings ''
           @ it @ '' back.'',
         vd_object = object_name s, vd_names = names\<rparr>)
      else
        \<lparr>vd_danger = Confirm,
         vd_reason = ''Dropping '' @ named s @ '' cannot be undone from here.'',
         vd_object = object_name s, vd_names = []\<rparr>)"

text \<open>The loop over the actions: the columns, the constraints, and whether a target was unreadable.\<close>

definition alter_collect ::
  "statement \<Rightarrow> nat \<Rightarrow> string list \<times> string list \<times> bool \<Rightarrow> string list \<times> string list \<times> bool" where
  "alter_collect s at acc =
     (case acc of (columns, constraints, unnamed) \<Rightarrow>
        if \<not> tok_is s at (is_word ''DROP'') then acc
        else (case alter_drop s at of
                DropOther \<Rightarrow> acc
              | DropColumn None \<Rightarrow> (columns, constraints, True)
              | DropConstraint None \<Rightarrow> (columns, constraints, True)
              | DropColumn (Some n) \<Rightarrow> (columns @ [n], constraints, unnamed)
              | DropConstraint (Some n) \<Rightarrow> (columns, constraints @ [n], unnamed)))"

definition alter_drops :: "statement \<Rightarrow> string list \<times> string list \<times> bool" where
  "alter_drops s = foldl (\<lambda>acc at. alter_collect s at acc) ([], [], False) (alter_actions s)"

definition constraint_sentence :: "statement \<Rightarrow> string list \<Rightarrow> string" where
  "constraint_sentence s constraints =
     (case name_list constraints of
        None \<Rightarrow> []
      | Some cons \<Rightarrow>
          '' Dropping '' @ (if length constraints > 1 then ''the constraints'' else ''the constraint'')
          @ '' '' @ cons @ '' stops '' @ named s @ '' enforcing ''
          @ (if length constraints > 1 then ''them'' else ''it'')
          @ '', so rows that would have been rejected can be written from now on.'')"

definition danger_alter :: "statement \<Rightarrow> verdict" where
  "danger_alter s =
     (case alter_drops s of (columns, constraints, unnamed) \<Rightarrow>
        let many = length columns > 1; it = (if many then ''them'' else ''it'') in
        if columns \<noteq> [] then
          \<lparr>vd_danger = TypeName,
           vd_reason = ''Dropping '' @ (if many then ''the columns'' else ''the column'') @ '' ''
             @ the (name_list columns) @ '' from '' @ named s @ '' deletes the data in '' @ it
             @ ''. Only a backup restore brings '' @ it @ '' back.''
             @ constraint_sentence s constraints,
           vd_object = object_name s, vd_names = columns\<rparr>
        else if constraints \<noteq> [] then
          \<lparr>vd_danger = Confirm, vd_reason = js_trim (constraint_sentence s constraints),
           vd_object = object_name s, vd_names = []\<rparr>
        else if unnamed then
          \<lparr>vd_danger = Confirm,
           vd_reason = ''This statement drops part of '' @ named s @ '', and what it drops could ''
             @ ''not be read from the text. Check it before running it.'',
           vd_object = object_name s, vd_names = []\<rparr>
        else safe_verdict s)"

subsection \<open>Grants\<close>

definition GRANT_NOISE :: "string list" where
  "GRANT_NOISE = [''ALL'', ''TABLES'', ''SEQUENCES'', ''FUNCTIONS'', ''ROUTINES'', ''IN'']"

definition grant_noise_end :: "statement \<Rightarrow> nat \<Rightarrow> nat" where
  "grant_noise_end s j =
     j + length (takeWhile (\<lambda>t. tk_kind t = Word \<and> (tk_value t \<in> set SKIP \<or> tk_value t \<in> set GRANT_NOISE))
                  (drop j (st_tokens s)))"

fun grant_target_scan :: "statement \<Rightarrow> nat \<Rightarrow> nat \<Rightarrow> token list \<Rightarrow> string option" where
  "grant_target_scan s d i [] = None"
| "grant_target_scan s d i (t # ts) =
     (if is_punct CHR ''('' t \<or> is_punct CHR '')'' t then grant_target_scan s (next_depth t d) (i + 1) ts
      else if d = 0 \<and> is_word ''ON'' t then
        (let plural = tok_is s (i + 1) (is_word ''ALL'') in
         case dotted_name s (grant_noise_end s (i + 1)) of
           None \<Rightarrow> None
         | Some (n, _) \<Rightarrow> Some (if plural then ''everything in '' @ n else n))
      else grant_target_scan s d (i + 1) ts)"

definition grant_target :: "statement \<Rightarrow> string option" where
  "grant_target s = grant_target_scan s 0 0 (st_tokens s)"

datatype exposed = Anon | Public

fun on_schema :: "token list \<Rightarrow> bool" where
  "on_schema (t # u # ts) = ((is_word ''ON'' t \<and> is_word ''SCHEMA'' u) \<or> on_schema (u # ts))"
| "on_schema ts = False"

fun grantee_scan :: "nat \<Rightarrow> bool \<Rightarrow> token list \<Rightarrow> exposed option" where
  "grantee_scan d after_to [] = None"
| "grantee_scan d after_to (t # ts) =
     (if is_punct CHR ''('' t \<or> is_punct CHR '')'' t then grantee_scan (next_depth t d) after_to ts
      else if d = 0 \<and> tk_kind t = Word then
        (if tk_value t = ''TO'' then grantee_scan d True ts
         else if after_to \<and> tk_value t = ''PUBLIC'' then Some Public
         else if after_to \<and> tk_value t = ''ANON'' then Some Anon
         else grantee_scan d after_to ts)
      else if d = 0 \<and> after_to \<and> tk_kind t = Ident \<and> tk_value t = [dquote] @ ''anon'' @ [dquote]
      then Some Anon
      else grantee_scan d after_to ts)"

definition grantee :: "statement \<Rightarrow> exposed option" where
  "grantee s = (if on_schema (st_tokens s) then None else grantee_scan 0 False (st_tokens s))"

definition danger_grant :: "statement \<Rightarrow> verdict" where
  "danger_grant s =
     (case grantee s of
        None \<Rightarrow> safe_verdict s
      | Some who \<Rightarrow>
          \<lparr>vd_danger = Confirm,
           vd_reason = ''This grants '' @ (case who of Public \<Rightarrow> ''every role'' | Anon \<Rightarrow> ''anonymous callers'')
             @ '' access to '' @ (case grant_target s of Some n \<Rightarrow> n | None \<Rightarrow> ''this object'')
             @ ''. Anyone holding your project'' @ [squote] @ ''s ''
             @ ''anon key can then reach the rows your policies allow '' @ em_dash @ '' which is the ''
             @ ''point, and is worth being sure about.'',
           vd_object = grant_target s, vd_names = []\<rparr>)"

subsection \<open>One statement, one script\<close>

definition danger_of :: "statement \<Rightarrow> verdict" where
  "danger_of s =
     (let cmd = lead s in
      if cmd = ''DROP'' then danger_drop s
      else if cmd = ''ALTER'' then danger_alter s
      else if cmd = ''GRANT'' then danger_grant s
      else if cmd = ''TRUNCATE'' then
        \<lparr>vd_danger = Confirm,
         vd_reason = ''Truncating '' @ named s @ '' deletes every row. It is not logged row by ''
           @ ''row, so there is nothing to roll back to afterwards.'',
         vd_object = object_name s, vd_names = []\<rparr>
      else if cmd = ''DELETE'' then
        (if has_top_level_where s then safe_verdict s
         else \<lparr>vd_danger = Confirm,
           vd_reason = ''This DELETE has no WHERE clause, so it removes every row in '' @ named s @ ''.'',
           vd_object = object_name s, vd_names = []\<rparr>)
      else if cmd = ''UPDATE'' then
        (if has_top_level_where s then safe_verdict s
         else \<lparr>vd_danger = Confirm,
           vd_reason = ''This UPDATE has no WHERE clause, so it rewrites every row in '' @ named s @ ''.'',
           vd_object = object_name s, vd_names = []\<rparr>)
      else safe_verdict s)"

definition TX :: "string list" where
  "TX = [''BEGIN'', ''COMMIT'', ''ROLLBACK'', ''START'', ''END'', ''SAVEPOINT'']"

definition classify_one :: "statement \<Rightarrow> classified" where
  "classify_one s =
     (let v = danger_of s in
      \<lparr>cl_sql = st_sql s, cl_command = lead s, cl_danger = vd_danger v, cl_reason = vd_reason v,
       cl_object = vd_object v, cl_names = vd_names v, cl_limitable = is_limitable s,
       cl_tx = (lead s \<in> set TX)\<rparr>)"

record script =
  sc_statements :: "classified list"
  sc_danger :: danger
  sc_dangerous :: "classified list"
  sc_names :: "string list"
  sc_owns_tx :: bool
  sc_limitable :: "classified option"

fun RANK :: "danger \<Rightarrow> nat" where
  "RANK Safe = 0" | "RANK Confirm = 1" | "RANK TypeName = 2"

definition worse :: "danger \<Rightarrow> classified \<Rightarrow> danger" where
  "worse acc c = (if RANK (cl_danger c) > RANK acc then cl_danger c else acc)"

definition worst_of :: "classified list \<Rightarrow> danger" where
  "worst_of cs = foldl worse Safe cs"

definition classify :: "string \<Rightarrow> script" where
  "classify sql =
     (let statements = map classify_one (split_sql sql) in
      \<lparr>sc_statements = statements,
       sc_danger = worst_of statements,
       sc_dangerous = filter (\<lambda>c. cl_danger c \<noteq> Safe) statements,
       sc_names = uniq (concat (map cl_names statements)),
       sc_owns_tx = list_ex cl_tx statements,
       sc_limitable = (case statements of [c] \<Rightarrow> if cl_limitable c then Some c else None | _ \<Rightarrow> None)\<rparr>)"

definition strip_semicolon :: "string \<Rightarrow> string" where
  \<comment> \<open>\<open>sql.replace(...)\<close> of a semicolon and the spaces after it at the end of the text\<close>
  "strip_semicolon sql =
     (case dropWhile is_ws (rev sql) of
        c # rest \<Rightarrow> if c = CHR '';'' then rev rest else sql
      | [] \<Rightarrow> sql)"

definition with_limit :: "string \<Rightarrow> nat \<Rightarrow> string" where
  "with_limit sql limit = strip_semicolon sql @ '' LIMIT '' @ string_of_nat limit"

subsection \<open>Facts about the ladder\<close>

lemma name_list_None: "name_list ns = None \<longleftrightarrow> ns = []"
  by (auto simp: name_list_def Let_def split: list.splits)

lemma js_trim_space: "js_trim (CHR '' '' # s) = js_trim s"
  by (simp add: js_trim_def char_class_defs)

lemma constraint_sentence_trim: "cs \<noteq> [] \<Longrightarrow> js_trim (constraint_sentence s cs) \<noteq> []"
  using name_list_None[of cs]
  by (auto simp: constraint_sentence_def js_trim_space js_trim_nonempty char_class_defs)

lemmas verdict_defs = danger_of_def danger_drop_def danger_alter_def danger_grant_def
  safe_verdict_def

lemma danger_of_names: "vd_danger (danger_of s) = TypeName \<longleftrightarrow> vd_names (danger_of s) \<noteq> []"
  by (auto simp: verdict_defs Let_def split: prod.splits option.splits)

lemma danger_of_reason: "vd_danger (danger_of s) = Safe \<longleftrightarrow> vd_reason (danger_of s) = []"
  by (auto simp: verdict_defs Let_def constraint_sentence_trim split: prod.splits option.splits)

lemma RANK_le: "RANK d \<le> 2" by (cases d) auto
lemma RANK_inject: "RANK d = RANK e \<longleftrightarrow> d = e" by (cases d; cases e) auto

lemma RANK_worse: "RANK (worse acc c) = max (RANK acc) (RANK (cl_danger c))"
  by (auto simp: worse_def)

lemma RANK_foldl_worse:
  "RANK (foldl worse acc cs) = foldl max (RANK acc) (map (RANK \<circ> cl_danger) cs)"
  by (induction cs arbitrary: acc) (auto simp: RANK_worse)

lemma foldl_max_ge: "(m :: nat) \<le> foldl max m ns \<and> (\<forall>n \<in> set ns. n \<le> foldl max m ns)"
  by (induction ns arbitrary: m) (auto, meson le_trans max.cobounded1 , meson le_trans max.cobounded2)

lemma foldl_worse_attained: "foldl worse acc cs = acc \<or> (\<exists>c \<in> set cs. cl_danger c = foldl worse acc cs)"
proof (induction cs arbitrary: acc)
  case (Cons c cs)
  have "worse acc c = acc \<or> worse acc c = cl_danger c" by (simp add: worse_def)
  then show ?case using Cons[of "worse acc c"] by auto
qed simp

lemma worst_of_upper: "c \<in> set cs \<Longrightarrow> RANK (cl_danger c) \<le> RANK (worst_of cs)"
  using foldl_max_ge[of 0 "map (RANK \<circ> cl_danger) cs"]
  by (auto simp: worst_of_def RANK_foldl_worse)

lemma worst_of_attained: "worst_of cs = Safe \<or> (\<exists>c \<in> set cs. cl_danger c = worst_of cs)"
  unfolding worst_of_def by (rule foldl_worse_attained)

lemma worst_of_Safe: "worst_of cs = Safe \<longleftrightarrow> (\<forall>c \<in> set cs. cl_danger c = Safe)"
proof
  assume w: "worst_of cs = Safe"
  show "\<forall>c \<in> set cs. cl_danger c = Safe"
  proof
    fix c assume "c \<in> set cs"
    then have "RANK (cl_danger c) \<le> RANK Safe" using worst_of_upper w by metis
    then show "cl_danger c = Safe" by (cases "cl_danger c") auto
  qed
next
  assume "\<forall>c \<in> set cs. cl_danger c = Safe"
  then show "worst_of cs = Safe" using worst_of_attained[of cs] by auto
qed

lemma worst_of_TypeName: "worst_of cs = TypeName \<longleftrightarrow> (\<exists>c \<in> set cs. cl_danger c = TypeName)"
proof
  assume "worst_of cs = TypeName"
  then show "\<exists>c \<in> set cs. cl_danger c = TypeName" using worst_of_attained[of cs] by auto
next
  assume "\<exists>c \<in> set cs. cl_danger c = TypeName"
  then have "RANK TypeName \<le> RANK (worst_of cs)" using worst_of_upper by fastforce
  then show "worst_of cs = TypeName" by (cases "worst_of cs") auto
qed


lemma where_scan_spec:
  "where_scan d ts \<longleftrightarrow>
    (\<exists>pre t post. ts = pre @ t # post \<and> is_word ''WHERE'' t \<and> depth_after d pre = 0)"
proof (induction d ts rule: where_scan.induct)
  case (2 d t ts)
  have not_paren: "is_word ''WHERE'' t \<Longrightarrow> \<not> is_punct c t" for c
    by (auto simp: is_word_def is_punct_def)
  have nd: "\<not> (is_punct CHR ''('' t \<or> is_punct CHR '')'' t) \<Longrightarrow> next_depth t d = d"
    by (simp add: next_depth_def)
  have "(\<exists>pre u post. t # ts = pre @ u # post \<and> is_word ''WHERE'' u \<and> depth_after d pre = 0) \<longleftrightarrow>
     (is_word ''WHERE'' t \<and> d = 0) \<or>
     (\<exists>pre u post. ts = pre @ u # post \<and> is_word ''WHERE'' u \<and> depth_after (next_depth t d) pre = 0)"
    (is "?L = ?R")
  proof
    assume ?L
    then obtain pre u post where *: "t # ts = pre @ u # post" "is_word ''WHERE'' u" "depth_after d pre = 0"
      by blast
    then show ?R by (cases pre) auto
  next
    assume ?R
    then show ?L
    proof
      assume "is_word ''WHERE'' t \<and> d = 0"
      then have "t # ts = [] @ t # ts \<and> is_word ''WHERE'' t \<and> depth_after d [] = 0" by simp
      then show ?L by blast
    next
      assume "\<exists>pre u post. ts = pre @ u # post \<and> is_word ''WHERE'' u \<and> depth_after (next_depth t d) pre = 0"
      then obtain pre u post where "ts = pre @ u # post" "is_word ''WHERE'' u" "depth_after (next_depth t d) pre = 0"
        by blast
      then have "t # ts = (t # pre) @ u # post \<and> is_word ''WHERE'' u \<and> depth_after d (t # pre) = 0" by simp
      then show ?L by blast
    qed
  qed
  then show ?case using 2 not_paren nd by auto
qed simp


subsection \<open>Text-level facts\<close>

lemma split_sql_single:
  assumes "lex sql = ts" "ts \<noteq> []" "drop_separators 0 ts = ts"
  shows "\<exists>st. split_sql sql = [st] \<and> st_tokens st = ts"
proof -
  have aux: "split_loop sql cur d us = push_statement sql (cur @ us) (length sql)"
    if "drop_separators d us = us" "cur @ us \<noteq> []" for cur d us
    using that
  proof (induction us arbitrary: cur d)
    case (Cons t us)
    have n: "\<not> (is_punct CHR '';'' t \<and> d = 0)"
      using Cons.prems(1) drop_separators_length[of d us] by (auto split: if_splits)
    then have "drop_separators (next_depth t d) us = us" using Cons.prems(1) by (auto split: if_splits)
    then show ?case using Cons.IH[of "next_depth t d" "cur @ [t]"] n by auto
  qed simp
  have "tk_start (hd ts) < length sql"
    using lex_tokens_follow_aux(1)[of sql] assms(1,2) by (cases ts) (auto simp: token_covers_def)
  then show ?thesis
    using push_statement_tokens[of sql ts "length sql"] lex_tokens_follow_aux(1)[of sql] assms
      aux[of 0 ts "[]"] by (simp add: split_sql_def)
qed

lemma lex_select_literal:
  "lex (''SELECT '' @ quote_with squote s) =
    [mk_token Word 0 6 (''SELECT '' @ quote_with squote s),
     mk_token Str 7 (length (quote_with squote s)) (quote_with squote s)]"
proof -
  have "lex_from 0 (CHR ''S'' # ''ELECT'' @ '' '' @ quote_with squote s)
    = mk_token Word 0 6 (''SELECT '' @ quote_with squote s) # lex_from 6 ('' '' @ quote_with squote s)"
    using lex_from_word[of "CHR ''S''" "''ELECT''" "'' '' @ quote_with squote s" 0]
    by (simp add: is_word_char_def is_word_start_def char_class_defs not_next_def eval_nat_numeral)
  moreover have "lex_from 6 ('' '' @ quote_with squote s)
    = [mk_token Str 7 (length (quote_with squote s)) (quote_with squote s)]"
    using lex_from_literal[of "[]" 7 s] lex_from_space[of "CHR '' ''" 6 "quote_with squote s"]
    by (simp add: not_next_def char_class_defs)
  ultimately show ?thesis by (simp add: lex_def)
qed

lemma classify_single:
  assumes "split_sql sql = [st]"
  shows "sc_statements (classify sql) = [classify_one st]" "sc_danger (classify sql) = vd_danger (danger_of st)"
    "sc_limitable (classify sql) = (if is_limitable st then Some (classify_one st) else None)"
    "sc_names (classify sql) = uniq (vd_names (danger_of st))"
  using assms by (auto simp: classify_def Let_def classify_one_def worst_of_def worse_def)
    (cases "vd_danger (danger_of st)"; simp)

lemma danger_select_literal:
  "\<exists>st. split_sql (''SELECT '' @ quote_with squote s) = [st] \<and> vd_danger (danger_of st) = Safe
     \<and> is_limitable st"
proof -
  have "\<exists>st. split_sql (''SELECT '' @ quote_with squote s) = [st] \<and> st_tokens st =
    [mk_token Word 0 6 (''SELECT '' @ quote_with squote s),
     mk_token Str 7 (length (quote_with squote s)) (quote_with squote s)]"
    by (rule split_sql_single[OF lex_select_literal]) (simp_all add: is_punct_def mk_token_def)
  then obtain st where st: "split_sql (''SELECT '' @ quote_with squote s) = [st]"
    "st_tokens st = [mk_token Word 0 6 (''SELECT '' @ quote_with squote s),
     mk_token Str 7 (length (quote_with squote s)) (quote_with squote s)]" by blast
  have "lead st = ''SELECT''"
    by (simp add: lead_def st(2) mk_token_def js_upper_def upper_char_def char_class_defs)
  then have "vd_danger (danger_of st) = Safe" by (simp add: danger_of_def safe_verdict_def)
  moreover have "is_limitable st"
    using \<open>lead st = ''SELECT''\<close>
    by (simp add: is_limitable_def st(2) mk_token_def is_punct_def js_upper_def upper_char_def char_class_defs)
  ultimately show ?thesis using st(1) by blast
qed

subsection \<open>Dropping a list of quoted names\<close>

fun name_tokens :: "nat \<Rightarrow> string list \<Rightarrow> token list" where
  "name_tokens i [] = []"
| "name_tokens i [n] = [mk_token Ident i (length (quote_with dquote n)) (quote_with dquote n)]"
| "name_tokens i (n # m # ns) =
     mk_token Ident i (length (quote_with dquote n)) (quote_with dquote n)
       # mk_token Punct (i + length (quote_with dquote n)) 1 '',''
       # name_tokens (i + length (quote_with dquote n) + 1) (m # ns)"

definition typed_name :: "string \<Rightarrow> string" where
  \<comment> \<open>what the guard asks to type back for a quoted name\<close>
  "typed_name n =
     (case redundantly_quoted (quote_with dquote n) of Some bare \<Rightarrow> bare | None \<Rightarrow> quote_with dquote n)"

lemma mk_token_prefix: "k \<le> length s \<Longrightarrow> mk_token kd i k (s @ rest) = mk_token kd i k s"
  by (simp add: mk_token_def)

lemma lex_from_comma: "lex_from i (CHR '','' # s) = mk_token Punct i 1 '','' # lex_from (i + 1) s"
  by (simp add: lex_step_def char_class_defs is_word_start_def mk_token_def)

lemma lex_from_names:
  "lex_from i (js_join '','' (map (quote_with dquote) ns)) = name_tokens i ns"
proof (induction i ns rule: name_tokens.induct)
  case (2 i n)
  then show ?case using lex_from_quoted_ident[of "[]" i n] by (simp add: not_next_def)
next
  case (3 i n m ns)
  let ?rest = "js_join '','' (map (quote_with dquote) (m # ns))"
  have "lex_from i (quote_with dquote n @ CHR '','' # ?rest) =
    mk_token Ident i (length (quote_with dquote n)) (quote_with dquote n)
      # lex_from (i + length (quote_with dquote n)) (CHR '','' # ?rest)"
    using lex_from_quoted_ident[of "CHR '','' # ?rest" i n]
    by (simp add: not_next_def mk_token_prefix)
  also have "lex_from (i + length (quote_with dquote n)) (CHR '','' # ?rest) =
    mk_token Punct (i + length (quote_with dquote n)) 1 '','' # name_tokens (i + length (quote_with dquote n) + 1) (m # ns)"
    using 3 by (simp only: lex_from_comma)
  finally show ?case by simp
qed simp

lemma tok_at_drop: "drop i (st_tokens s) = t # ts \<Longrightarrow> tok_at s i = Some t \<and> drop (i + 1) (st_tokens s) = ts"
  by (metis Suc_eq_plus1 drop_Suc drop_all leI list.distinct(1) nth_via_drop tl_drop list.sel(3) tok_at_def)

lemma dotted_name_single:
  assumes "drop i (st_tokens s) = t # ts" "is_name t" "case ts of [] \<Rightarrow> True | u # _ \<Rightarrow> \<not> is_punct CHR ''.'' u"
  shows "dotted_name s i = Some (token_text s t, i + 1)"
proof -
  have "dotted_parts s (i + 1) = ([], i + 1)"
  proof (cases ts)
    case Nil
    then have "length (st_tokens s) \<le> i + 1" using tok_at_drop[OF assms(1)] by simp
    then show ?thesis by (subst dotted_parts.simps) simp
  next
    case (Cons u us)
    then have "i + 1 < length (st_tokens s)" "st_tokens s ! (i + 1) = u"
      using tok_at_drop[OF assms(1)] tok_at_drop[of "i + 1" s u us] by (auto simp: tok_at_def split: if_splits)
    then show ?thesis using assms(3) Cons by (subst dotted_parts.simps) simp
  qed
  then show ?thesis using tok_at_drop[OF assms(1)] assms(2) by (simp add: dotted_name_def)
qed

lemma token_text_ident: "token_text s (mk_token Ident i (length (quote_with dquote n)) (quote_with dquote n)) = typed_name n"
  by (simp add: token_text_def mk_token_def typed_name_def split: option.split)

lemma names_from_tokens:
  "ns \<noteq> [] \<Longrightarrow> drop k (st_tokens s) = name_tokens i ns \<Longrightarrow> names_from s k = map typed_name ns"
proof (induction i ns arbitrary: k rule: name_tokens.induct)
  case (2 i n)
  then have d: "dotted_name s k = Some (typed_name n, k + 1)"
    using dotted_name_single[of k s _ "[]"] by (simp add: is_name_def mk_token_def flip: token_text_ident[of s i])
  have "tok_at s (k + 1) = None" using 2 tok_at_drop[of k s] by (fastforce simp: tok_at_def)
  then show ?case using d by (subst names_from.simps) (simp add: tok_is_def)
next
  case (3 i n m ns)
  let ?l = "length (quote_with dquote n)"
  have k1: "drop (k + 1) (st_tokens s) = mk_token Punct (i + ?l) 1 '','' # name_tokens (i + ?l + 1) (m # ns)"
    using tok_at_drop[of k s] "3.prems"(2) by simp
  then have k2: "drop (k + 2) (st_tokens s) = name_tokens (i + ?l + 1) (m # ns)"
    using tok_at_drop[of "k + 1" s] by simp
  have d: "dotted_name s k = Some (typed_name n, k + 1)"
    using dotted_name_single[of k s] "3.prems"(2)
    by (simp add: is_name_def is_punct_def mk_token_def flip: token_text_ident[of s i])
  have "tok_is s (k + 1) (is_punct CHR '','')"
    using tok_at_drop[OF k1] by (simp add: tok_is_def is_punct_def mk_token_def)
  then show ?case using d "3.IH"[of "k + 2"] k2 by (subst names_from.simps) simp
qed simp


subsection \<open>Texts for the properties\<close>

lemma foldl_max_foldr: "foldl max (m :: nat) ns = max m (foldr max ns 0)"
  by (induction ns arbitrary: m) (auto simp: max.assoc)

lemma drop_separators_names: "drop_separators d (name_tokens i ns) = name_tokens i ns"
  by (induction i ns arbitrary: d rule: name_tokens.induct) (simp_all add: is_punct_def mk_token_def)

lemma danger_of_drop_names:
  assumes "st_tokens st = t1 # t2 # name_tokens i ns" "ns \<noteq> []" "is_word ''DROP'' t1" "is_word ''TABLE'' t2"
  shows "vd_danger (danger_of st) = TypeName" "vd_names (danger_of st) = map typed_name ns"
proof -
  obtain t ts where t: "name_tokens i ns = t # ts" "tk_kind t = Ident"
    using assms(2) by (cases "(i, ns)" rule: name_tokens.cases) (auto simp: mk_token_def)
  then have "name_list_start st = 2"
    using assms(1,4) by (simp add: name_list_start_def is_word_def SKIP_def)
  then have "object_names st = map typed_name ns"
    unfolding object_names_def using names_from_tokens[of ns 2 st i] assms(1,2) by simp
  moreover have "lead st = ''DROP''" using assms(1,3) by (simp add: lead_def is_word_def)
  moreover have "tok_is st 1 (is_word ''TABLE'')" using assms(1,4) by (simp add: tok_is_def tok_at_def)
  ultimately show "vd_danger (danger_of st) = TypeName" "vd_names (danger_of st) = map typed_name ns"
    using assms(2) by (simp_all add: danger_of_def danger_drop_def Let_def)
qed

lemma lex_drop_table:
  "\<exists>t1 t2. lex (''DROP TABLE '' @ js_join '','' (map (quote_with dquote) ns)) = t1 # t2 # name_tokens 11 ns
     \<and> is_word ''DROP'' t1 \<and> is_word ''TABLE'' t2"
proof -
  let ?r = "js_join '','' (map (quote_with dquote) ns)"
  let ?t1 = "mk_token Word 0 4 (''DROP TABLE '' @ ?r)" and ?t2 = "mk_token Word 5 5 (''TABLE '' @ ?r)"
  have "lex_from 0 (CHR ''D'' # ''ROP'' @ '' TABLE '' @ ?r) = ?t1 # lex_from 4 ('' TABLE '' @ ?r)"
    using lex_from_word[of "CHR ''D''" "''ROP''" "'' TABLE '' @ ?r" 0]
    by (simp add: is_word_char_def is_word_start_def char_class_defs not_next_def eval_nat_numeral)
  moreover have "lex_from 4 ('' TABLE '' @ ?r) = lex_from 5 (''TABLE '' @ ?r)"
    using lex_from_space[of "CHR '' ''" 4] by (simp add: char_class_defs)
  moreover have "lex_from 5 (CHR ''T'' # ''ABLE'' @ '' '' @ ?r) = ?t2 # lex_from 10 ('' '' @ ?r)"
    using lex_from_word[of "CHR ''T''" "''ABLE''" "'' '' @ ?r" 5]
    by (simp add: is_word_char_def is_word_start_def char_class_defs not_next_def eval_nat_numeral)
  moreover have "lex_from 10 ('' '' @ ?r) = name_tokens 11 ns"
    using lex_from_space[of "CHR '' ''" 10 ?r] lex_from_names[of 11 ns] by (simp add: char_class_defs)
  moreover have "is_word ''DROP'' ?t1" "is_word ''TABLE'' ?t2"
    by (simp_all add: is_word_def mk_token_def js_upper_def upper_char_def char_class_defs eval_nat_numeral)
  ultimately show ?thesis by (simp add: lex_def)
qed

lemma classify_drop_table:
  assumes "ns \<noteq> []"
  shows "sc_danger (classify (''DROP TABLE '' @ js_join '','' (map (quote_with dquote) ns))) = TypeName \<and>
    sc_names (classify (''DROP TABLE '' @ js_join '','' (map (quote_with dquote) ns))) = uniq (map typed_name ns) \<and>
    length (sc_statements (classify (''DROP TABLE '' @ js_join '','' (map (quote_with dquote) ns)))) = 1"
proof -
  obtain t1 t2 where lex: "lex (''DROP TABLE '' @ js_join '','' (map (quote_with dquote) ns))
      = t1 # t2 # name_tokens 11 ns" "is_word ''DROP'' t1" "is_word ''TABLE'' t2"
    using lex_drop_table by blast
  then obtain st where "split_sql (''DROP TABLE '' @ js_join '','' (map (quote_with dquote) ns)) = [st]"
    "st_tokens st = t1 # t2 # name_tokens 11 ns"
    using split_sql_single[OF lex(1)]
    by (auto simp: drop_separators_names is_word_def is_punct_def)
  then show ?thesis
    using classify_single danger_of_drop_names[of st t1 t2 11 ns] lex(2,3) assms by simp
qed

lemma lex_select:
  assumes "is_ws c"  "\<not> is_word_char c"
  shows "lex (''SELECT'' @ c # rest) = mk_token Word 0 6 ''SELECT'' # lex_from 7 rest"
proof -
  have "lex_from 0 (CHR ''S'' # ''ELECT'' @ c # rest) = mk_token Word 0 6 (''SELECT'' @ c # rest) # lex_from 6 (c # rest)"
    using lex_from_word[of "CHR ''S''" "''ELECT''" "c # rest" 0] assms
    by (simp add: is_word_char_def is_word_start_def char_class_defs not_next_def eval_nat_numeral)
  then show ?thesis
    using lex_from_space[OF assms(1), of 6 rest] by (simp add: lex_def mk_token_def)
qed

lemma lex_select_text: "lex (''SELECT '' @ rest) = mk_token Word 0 6 ''SELECT'' # lex_from 7 rest"
  using lex_select[of "CHR '' ''" rest] by (simp add: char_class_defs is_word_char_def)

lemma select_statement:
  assumes "lex sql = mk_token Word 0 6 ''SELECT'' # ts" "drop_separators 0 ts = ts"
  shows "\<exists>st. split_sql sql = [st] \<and> lead st = ''SELECT'' \<and> st_tokens st = lex sql \<and>
    vd_danger (danger_of st) = Safe"
proof -
  obtain st where st: "split_sql sql = [st]" "st_tokens st = mk_token Word 0 6 ''SELECT'' # ts"
    using split_sql_single[OF assms(1)] assms(2) by (auto simp: is_punct_def mk_token_def next_depth_def)
  have "lead st = ''SELECT''"
    by (simp add: lead_def st(2) mk_token_def js_upper_def upper_char_def char_class_defs)
  then show ?thesis using st assms(1) by (auto simp: danger_of_def safe_verdict_def)
qed

lemma lex_select_one: "lex ''SELECT 1'' = [mk_token Word 0 6 ''SELECT'', mk_token Number 7 1 ''1'']"
  using lex_select_text[of "''1''"] by (simp add: lex_step_def char_class_defs mk_token_def)

lemma lex_select_comment:
  assumes "newline \<notin> set w"
  shows "lex (''SELECT 1 --'' @ w) = [mk_token Word 0 6 ''SELECT'', mk_token Number 7 1 ''1'']"
    "sc_danger (classify (''SELECT 1 --'' @ w)) = Safe"
    "sc_limitable (classify (''SELECT 1 --'' @ w)) \<noteq> None"
proof -
  have "lex_step CHR ''1'' ('' --'' @ w) = (1, Some Number)"
    by (simp add: lex_step_def char_class_defs is_number_char_def)
  then have "lex_from 7 (''1 --'' @ w) = mk_token Number 7 1 ''1'' # lex_from 8 ('' --'' @ w)"
    by (simp add: mk_token_def)
  also have "lex_from 8 ('' --'' @ w) = []"
    using lex_from_comment_end[OF assms, of 9] lex_from_space[of "CHR '' ''" 8] by (simp add: char_class_defs)
  finally show lex: "lex (''SELECT 1 --'' @ w) = [mk_token Word 0 6 ''SELECT'', mk_token Number 7 1 ''1'']"
    using lex_select_text[of "''1 --'' @ w"] by simp
  then obtain st where st: "split_sql (''SELECT 1 --'' @ w) = [st]" "lead st = ''SELECT''"
    "vd_danger (danger_of st) = Safe" "st_tokens st = [mk_token Word 0 6 ''SELECT'', mk_token Number 7 1 ''1'']"
    using select_statement[OF lex] by (auto simp: is_punct_def mk_token_def)
  show "sc_danger (classify (''SELECT 1 --'' @ w)) = Safe"
    using classify_single[OF st(1)] st(3) by simp
  have "is_limitable st"
    by (simp add: is_limitable_def st mk_token_def is_punct_def js_upper_def upper_char_def char_class_defs)
  then show "sc_limitable (classify (''SELECT 1 --'' @ w)) \<noteq> None"
    using classify_single[OF st(1)] by simp
qed

lemma digits_string_of_nat: "c \<in> set (string_of_nat n) \<Longrightarrow> c \<noteq> newline"
proof (induction n rule: string_of_nat.induct)
  case (1 n)
  have digit: "char_of (48 + m) \<noteq> newline" if "m < 10" for m :: nat
  proof
    assume "char_of (48 + m) = newline"
    then have "(of_char (char_of (48 + m) :: char) :: nat) = of_char newline" by simp
    then show False using that by simp
  qed
  show ?case using "1.IH" "1.prems" string_of_nat.simps[of n] digit[of n] digit[of "n mod 10"]
    by (auto split: if_splits)
qed

lemma dropWhile_Cons_append: "dropWhile P xs = c # v \<Longrightarrow> dropWhile P (xs @ ys) = c # v @ ys"
  by (induction xs) (auto split: if_splits)

lemma with_limit_comment:
  assumes "newline \<notin> set w"
  shows "lex (with_limit (''SELECT 1 --'' @ w) n) = [mk_token Word 0 6 ''SELECT'', mk_token Number 7 1 ''1'']"
proof -
  have "\<exists>v. strip_semicolon (''SELECT 1 --'' @ w) = ''SELECT 1 --'' @ v \<and> newline \<notin> set v"
  proof (cases "dropWhile is_ws (rev w)")
    case Nil
    then have "dropWhile is_ws (rev w @ rev ''SELECT 1 --'') = rev ''SELECT 1 --''"
      by (simp add: dropWhile_append char_class_defs)
    then show ?thesis using assms by (auto simp: strip_semicolon_def)
  next
    case (Cons c v)
    then have d: "dropWhile is_ws (rev w @ rev ''SELECT 1 --'') = c # v @ rev ''SELECT 1 --''"
      by (rule dropWhile_Cons_append)
    have "set v \<subseteq> set w" using Cons set_dropWhileD[of _ is_ws "rev w"]
      by (metis list.set_intros(2) set_rev subsetI)
    then have "newline \<notin> set (rev v)" using assms by auto
    then show ?thesis using d assms by (cases "c = CHR '';''") (auto simp: strip_semicolon_def)
  qed
  then obtain v where v: "strip_semicolon (''SELECT 1 --'' @ w) = ''SELECT 1 --'' @ v" "newline \<notin> set v"
    by blast
  have "newline \<notin> set (v @ '' LIMIT '' @ string_of_nat n)"
    using v(2) digits_string_of_nat by auto
  from lex_select_comment(1)[OF this] show ?thesis
    unfolding with_limit_def v(1) by simp
qed

lemma danger_accented_tag:
  "\<exists>st. split_sql (''SELECT $'' @ [CHR 0xE9] @ ''$'' @ quote_with squote s) = [st] \<and> vd_danger (danger_of st) = Safe"
proof -
  let ?q = "quote_with squote s"
  have q: "?q = squote # double squote s @ [squote]" by (simp add: quote_with_def)
  have "lex_step CHR ''$'' (CHR 0xE9 # ''$'' @ ?q) = (1, Some Punct)"
    by (simp add: lex_step_def dollar_tag_def tag_start_def char_class_defs is_word_start_def)
  then have "lex_from 7 (''$'' @ CHR 0xE9 # ''$'' @ ?q) = mk_token Punct 7 1 ''$'' # lex_from 8 (CHR 0xE9 # ''$'' @ ?q)"
    by (simp add: mk_token_def)
  also have "lex_from 8 (CHR 0xE9 # ''$'' @ ?q) = mk_token Word 8 2 (CHR 0xE9 # ''$'') # lex_from 10 ?q"
    using lex_from_word[of "CHR 0xE9" "''$''" ?q 8]
    by (simp add: q is_word_char_def is_word_start_def char_class_defs not_next_def mk_token_def)
  also have "lex_from 10 ?q = [mk_token Str 10 (length ?q) ?q]"
    using lex_from_literal[of "[]" 10 s] by (simp add: not_next_def)
  finally have "lex (''SELECT $'' @ [CHR 0xE9] @ ''$'' @ ?q) = mk_token Word 0 6 ''SELECT'' #
     [mk_token Punct 7 1 ''$'', mk_token Word 8 2 (CHR 0xE9 # ''$''), mk_token Str 10 (length ?q) ?q]"
    using lex_select_text[of "''$'' @ [CHR 0xE9] @ ''$'' @ ?q"] by simp
  from select_statement[OF this] show ?thesis
    by (auto simp: is_punct_def mk_token_def next_depth_def)
qed

subsection \<open>Properties\<close>

text \<open>
  The ladder is consistent for every statement: names have to be typed exactly on the top
  rung, and a reason is given exactly when the statement is not safe, so a dialog never asks for
  an empty list of names and never refuses without a sentence.
\<close>

theorem ladder_consistent:
  "(cl_danger (classify_one s) = TypeName) = (cl_names (classify_one s) \<noteq> []) \<and>
   (cl_danger (classify_one s) = Safe) = (cl_reason (classify_one s) = [])"
  by (simp add: classify_one_def Let_def danger_of_names danger_of_reason)

text \<open>
  A script is exactly as dangerous as its worst statement, wherever that statement sits: its
  rung is the greatest of its statements' rungs; names have to be typed exactly if some statement
  is on the top rung; the list of dangerous statements is empty exactly for a safe script; and the
  names to type are those of the statements, each once.
\<close>

theorem script_is_its_worst_statement:
  "RANK (sc_danger (classify sql)) = foldr max (map (RANK \<circ> cl_danger) (sc_statements (classify sql))) 0 \<and>
   (sc_names (classify sql) \<noteq> []) = (sc_danger (classify sql) = TypeName) \<and>
   (sc_dangerous (classify sql) = []) = (sc_danger (classify sql) = Safe) \<and>
   distinct (sc_names (classify sql)) \<and>
   set (sc_names (classify sql)) = (\<Union>c \<in> set (sc_statements (classify sql)). set (cl_names c))"
proof -
  let ?cs = "map classify_one (split_sql sql)"
  have rank: "RANK (worst_of ?cs) = foldr max (map (RANK \<circ> cl_danger) ?cs) 0"
    unfolding worst_of_def RANK_foldl_worse
    by (simp add: foldl_max_foldr)
  have names: "(\<exists>c \<in> set ?cs. cl_names c \<noteq> []) = (worst_of ?cs = TypeName)"
    unfolding worst_of_TypeName
    by (auto simp: classify_one_def Let_def danger_of_names)
  have "uniq (concat (map cl_names ?cs)) \<noteq> [] \<longleftrightarrow> (\<exists>c \<in> set ?cs. cl_names c \<noteq> [])"
    using set_uniq[of "concat (map cl_names ?cs)"] by (simp flip: set_empty)
  moreover have "filter (\<lambda>c. cl_danger c \<noteq> Safe) ?cs = [] \<longleftrightarrow> worst_of ?cs = Safe"
    by (simp add: worst_of_Safe filter_empty_conv)
  ultimately show ?thesis using rank names by (simp add: classify_def Let_def)
qed

text \<open>
  A \<open>DELETE\<close> or \<open>UPDATE\<close> passes as safe exactly if one of its tokens is the word \<open>WHERE\<close> at
  parenthesis depth zero; a \<open>WHERE\<close> inside parentheses, a string or a comment does not count.
\<close>

theorem unqualified_write_is_caught:
  assumes "lead s = ''DELETE'' \<or> lead s = ''UPDATE''"
  shows "cl_danger (classify_one s) =
    (if \<exists>pre t post. st_tokens s = pre @ t # post \<and> is_word ''WHERE'' t \<and> depth_after 0 pre = 0
     then Safe else Confirm)"
  using assms where_scan_spec[of 0 "st_tokens s"]
  by (auto simp: classify_one_def Let_def danger_of_def safe_verdict_def has_top_level_where_def)

theorem unqualified_write_is_caught_witness:
  "cl_danger (classify_one
     \<lparr>st_sql = ''DELETE FROM t'',
      st_tokens = [\<lparr>tk_kind = Word, tk_value = ''DELETE'', tk_start = 0, tk_end = 6\<rparr>,
        \<lparr>tk_kind = Word, tk_value = ''FROM'', tk_start = 7, tk_end = 11\<rparr>,
        \<lparr>tk_kind = Word, tk_value = ''t'', tk_start = 12, tk_end = 13\<rparr>],
      st_start = 0, st_end = 13\<rparr>) = Confirm"
  (is "cl_danger (classify_one ?s) = Confirm")
proof -
  have "lead ?s = ''DELETE''" by (simp add: lead_def)
  moreover have "list_all (\<lambda>t. \<not> is_word ''WHERE'' t) (st_tokens ?s)"
    by (simp add: is_word_def js_upper_def upper_char_def unit_of_def)
  then have "\<not> (\<exists>pre t post. st_tokens ?s = pre @ t # post \<and> is_word ''WHERE'' t \<and> depth_after 0 pre = 0)"
    by (metis list_all_append list.pred_inject(2))
  ultimately show ?thesis
    using unqualified_write_is_caught[of ?s] by (simp only: if_False) simp
qed

text \<open>
  \<open>DROP TABLE\<close> over any non-empty list of quoted names reaches the top rung and asks for
  every one of them, whatever characters the names contain, spelled without the quotes only where
  the quotes mean nothing.
\<close>

theorem drop_table_asks_for_every_name:
  assumes "ns \<noteq> []"
  shows "sc_danger (classify (''DROP TABLE '' @ js_join '','' (map (quote_with dquote) ns))) = TypeName \<and>
    sc_names (classify (''DROP TABLE '' @ js_join '','' (map (quote_with dquote) ns))) = uniq (map typed_name ns)"
  using classify_drop_table[OF assms] by simp

theorem drop_table_asks_for_every_name_witness:
  "sc_names (classify (''DROP TABLE '' @ js_join '','' (map (quote_with dquote) [''posts'', ''A;b''])))
    = [''posts'', quote_with dquote ''A;b'']"
  using drop_table_asks_for_every_name[of "[''posts'', ''A;b'']"]
  by (simp add: typed_name_def redundantly_quoted_def quote_with_def bare_start_def bare_char_def
      char_class_defs uniq_def del: js_join.simps)

text \<open>
  C21. The example of the lexer's header, for every text: \<open>SELECT\<close> followed by a quoted string is
  one safe statement that may take a row limit, whatever the string contains.
\<close>

theorem quoted_text_is_data:
  "sc_danger (classify (''SELECT '' @ quote_with squote s)) = Safe \<and>
   length (sc_statements (classify (''SELECT '' @ quote_with squote s))) = 1 \<and>
   sc_limitable (classify (''SELECT '' @ quote_with squote s)) \<noteq> None"
  using danger_select_literal[of s] by (auto simp: classify_single)

text \<open>
  The lexer ends a line comment at a line feed only, where PostgreSQL's also ends it at a
  carriage return: whatever follows a carriage return inside a comment is invisible to the guard,
  so a script whose second line is any statement at all is one safe \<open>SELECT\<close>.
\<close>

theorem carriage_return_hides_text:
  assumes "newline \<notin> set w"
  shows "lex (''SELECT 1 --'' @ return # w) = lex ''SELECT 1'' \<and>
    sc_danger (classify (''SELECT 1 --'' @ return # w)) = Safe"
  using lex_select_comment[of "return # w"] assms by (auto simp: lex_select_one)

theorem carriage_return_hides_text_witness:
  "sc_danger (classify (''SELECT 1 --'' @ return # ''DROP TABLE users'')) = Safe"
  using carriage_return_hides_text[of "''DROP TABLE users''"] by simp

text \<open>
  PostgreSQL allows letters above 127 in a dollar-quote tag; the lexer's tag class is ASCII.
  A body opened by such a tag is therefore read as ordinary text, and a quote inside it opens a
  string that hides the rest: for every text \<open>s\<close> the script is one safe \<open>SELECT\<close>.
\<close>

theorem accented_dollar_tag_hides_text:
  "sc_danger (classify (''SELECT $'' @ [CHR 0xE9] @ ''$'' @ quote_with squote s)) = Safe \<and>
   length (sc_statements (classify (''SELECT $'' @ [CHR 0xE9] @ ''$'' @ quote_with squote s))) = 1"
  using danger_accented_tag[of s] by (auto simp: classify_single)

text \<open>
  A limitable statement that ends in a line comment keeps its comment when the row limit is
  appended, so the appended \<open>LIMIT\<close> is inside the comment: the statement that runs has the same
  tokens as the one without a limit.
\<close>

theorem limit_swallowed_by_comment:
  assumes "newline \<notin> set w"
  shows "sc_limitable (classify (''SELECT 1 --'' @ w)) \<noteq> None \<and>
    lex (with_limit (''SELECT 1 --'' @ w) n) = lex (''SELECT 1 --'' @ w)"
  using lex_select_comment[of w] assms with_limit_comment[of w n] by auto

theorem limit_swallowed_by_comment_witness:
  "lex (with_limit ''SELECT 1 --x'' 501) = lex ''SELECT 1 --x''"
  using limit_swallowed_by_comment[of "''x''" 501] by simp

text \<open>
  Only the leading keyword decides whether a statement is looked at: a statement led by
  anything but the six keywords is safe and asks for no name, whatever it contains. A \<open>WITH\<close>
  whose body is an unqualified \<open>DELETE\<close> is such a statement.
\<close>

theorem other_leads_are_safe:
  assumes "lead s \<notin> set [''DROP'', ''ALTER'', ''GRANT'', ''TRUNCATE'', ''DELETE'', ''UPDATE'']"
  shows "cl_danger (classify_one s) = Safe \<and> cl_names (classify_one s) = []"
  using assms by (simp add: classify_one_def Let_def danger_of_def safe_verdict_def)

theorem other_leads_are_safe_witness:
  "cl_danger (classify_one
     \<lparr>st_sql = ''WITH d AS (DELETE FROM t) SELECT 1'',
      st_tokens = lex ''WITH d AS (DELETE FROM t) SELECT 1'', st_start = 0, st_end = 34\<rparr>) = Safe"
proof -
  have "lex_from 0 (CHR ''W'' # ''ITH'' @ '' d AS (DELETE FROM t) SELECT 1'') =
    mk_token Word 0 4 (''WITH d AS (DELETE FROM t) SELECT 1'')
      # lex_from 4 '' d AS (DELETE FROM t) SELECT 1''"
    using lex_from_word[of "CHR ''W''" "''ITH''" "'' d AS (DELETE FROM t) SELECT 1''" 0]
    by (simp add: is_word_char_def is_word_start_def char_class_defs not_next_def eval_nat_numeral
        del: lex_from.simps)
  then have "lead \<lparr>st_sql = ''WITH d AS (DELETE FROM t) SELECT 1'',
      st_tokens = lex ''WITH d AS (DELETE FROM t) SELECT 1'', st_start = 0, st_end = 34\<rparr> = ''WITH''"
    by (simp add: lead_def lex_def mk_token_def js_upper_def upper_char_def char_class_defs
        eval_nat_numeral del: lex_from.simps)
  then show ?thesis using other_leads_are_safe by simp
qed

end
