(* ===== verification/SqlRun.thy ===== *)
theory SqlRun
  imports SqlGuard
begin

text \<open>
  \<open>services/api/src/modules/db/run.ts\<close>: how a classified script reaches the customer's database.

  The PostgreSQL client is a parameter \<open>db\<close>: a function from its state, the text of a query and
  its bound values to a result or an error. Every query sent is appended to a trace, so the order
  of the rails is a statement about lists. \<open>process.hrtime\<close> is the parameter \<open>now\<close>, read from the
  client's state, and a duration is kept in hundredths of a millisecond, the unit the code rounds
  to. A message is the source's text.

  Proved: which runs are admitted, that a refused run sends nothing, the exact order of the rails
  around a script without transaction control, and that a script with transaction control runs with
  none of them.
\<close>

datatype console_role = AdminRole | AnonRole | AuthenticatedRole

fun DB_ROLE :: "console_role \<Rightarrow> string" where
  "DB_ROLE AdminRole = ''developer''"
| "DB_ROLE AnonRole = ''anon''"
| "DB_ROLE AuthenticatedRole = ''authenticated''"

definition DEFAULT_TIMEOUT_MS :: nat where "DEFAULT_TIMEOUT_MS = 60000"
definition MAX_TIMEOUT_MS :: nat where "MAX_TIMEOUT_MS = 600000"
definition ROW_LIMIT :: nat where "ROW_LIMIT = 501"

record run_request =
  rq_sql :: string
  rq_params :: "string list"
  rq_role :: "console_role option"
  rq_claims :: "string option"
  rq_read_only :: bool
  rq_confirm :: bool
  rq_names :: "string list"
  rq_timeout :: "nat option"

record 'row query_result =
  qr_rows :: "'row list option"
  qr_count :: "nat option"
  qr_fields :: "(string \<times> nat) list"

record 'row statement_result =
  sr_rows :: "'row list"
  sr_count :: nat
  sr_fields :: "(string \<times> nat) list"
  sr_duration :: nat
  sr_sql :: string
  sr_truncated :: bool
  sr_command :: string

datatype 'e run_error =
    ApiRefusal nat string
  | UnexpectedRole string
  | DbError 'e

type_synonym sent = "string \<times> string list"
type_synonym ('s, 'e, 'row) client = "'s \<Rightarrow> string \<Rightarrow> string list \<Rightarrow> ('e + 'row query_result) \<times> 's"
type_synonym ('s, 'e, 'a) session = "('s \<times> sent list, 'e run_error, 'a) eff"

definition missing_names :: "script \<Rightarrow> run_request \<Rightarrow> string list" where
  "missing_names sc rq = filter (\<lambda>n. n \<notin> set (map js_trim (rq_names rq))) (sc_names sc)"

definition check_request :: "script \<Rightarrow> run_request \<Rightarrow> 'e run_error + unit" where
  "check_request sc rq =
     (if sc_statements sc = [] then Inl (ApiRefusal 400 ''There is no statement to run.'')
      else if rq_params rq \<noteq> [] \<and> length (sc_statements sc) > 1
      then Inl (ApiRefusal 400 (''Bound parameters apply to a single statement. Send one statement per run, ''
        @ ''or inline the values.''))
      else if sc_danger sc = Safe then Inr ()
      else if \<not> rq_confirm rq
      then Inl (ApiRefusal 409 (js_join '' '' (map cl_reason (sc_dangerous sc))
        @ '' Re-send with confirm_destructive to run it.''))
      else if sc_names sc \<noteq> [] \<and> missing_names sc rq \<noteq> []
      then Inl (ApiRefusal 409 (''Type ''
        @ js_join '' and '' (map (\<lambda>m. [dquote] @ m @ [dquote]) (missing_names sc rq))
        @ '' to confirm dropping it. This cannot be undone from here.''))
      else Inr ())"

definition role_char :: "char \<Rightarrow> bool" where
  "role_char c = (is_lower c \<or> c = CHR ''_'')"

definition role_literal :: "console_role \<Rightarrow> 'e run_error + string" where
  "role_literal r =
     (if DB_ROLE r \<noteq> [] \<and> list_all role_char (DB_ROLE r) then Inr ([dquote] @ DB_ROLE r @ [dquote])
      else Inl (UnexpectedRole (DB_ROLE r)))"

definition effective_timeout :: "run_request \<Rightarrow> nat" where
  "effective_timeout rq =
     min (case rq_timeout rq of None \<Rightarrow> DEFAULT_TIMEOUT_MS | Some t \<Rightarrow> t) MAX_TIMEOUT_MS"

definition settings_before_role :: "run_request \<Rightarrow> sent list" where
  "settings_before_role rq =
     (''SET LOCAL statement_timeout = '' @ string_of_nat (effective_timeout rq), [])
       # (if rq_read_only rq then [(''SET TRANSACTION READ ONLY'', [])] else [])"

definition claims_setting :: "run_request \<Rightarrow> console_role \<Rightarrow> sent list" where
  "claims_setting rq role =
     (case rq_claims rq of
        Some c \<Rightarrow> (if role = AuthenticatedRole
          then [(''SELECT set_config('' @ [squote] @ ''request.jwt.claims'' @ [squote] @ '', $1, true)'', [c])]
          else [])
      | None \<Rightarrow> [])"

definition role_of_request :: "run_request \<Rightarrow> console_role" where
  "role_of_request rq = (case rq_role rq of None \<Rightarrow> AdminRole | Some r \<Rightarrow> r)"

fun send :: "('s, 'e, 'row) client \<Rightarrow> string \<Rightarrow> string list \<Rightarrow> ('s, 'e, 'row query_result) session" where
  \<comment> \<open>\<open>client.query\<close>\<close>
  "send db q vs (s, log) =
     (case db s q vs of
        (Inl e, s') \<Rightarrow> (Inl (DbError e), s', log @ [(q, vs)])
      | (Inr r, s') \<Rightarrow> (Inr r, s', log @ [(q, vs)]))"

fun send_all :: "('s, 'e, 'row) client \<Rightarrow> sent list \<Rightarrow> ('s, 'e, unit) session" where
  "send_all db [] = ret ()"
| "send_all db ((q, vs) # qs) = and_then (send db q vs) (\<lambda>_. send_all db qs)"

definition apply_settings :: "('s, 'e, 'row) client \<Rightarrow> run_request \<Rightarrow> ('s, 'e, unit) session" where
  "apply_settings db rq =
     and_then (send_all db (settings_before_role rq)) (\<lambda>_.
       (case role_literal (role_of_request rq) of
          Inl e \<Rightarrow> throw e
        | Inr lit \<Rightarrow>
            and_then (send db (''SET LOCAL ROLE '' @ lit) []) (\<lambda>_.
              send_all db (claims_setting rq (role_of_request rq)))))"

definition limits :: "script \<Rightarrow> classified \<Rightarrow> bool" where
  \<comment> \<open>\<open>script.limitable !== null && script.limitable.sql === stmt.sql\<close>\<close>
  "limits sc c = (case sc_limitable sc of None \<Rightarrow> False | Some l \<Rightarrow> cl_sql l = cl_sql c)"

definition executed_sql :: "script \<Rightarrow> classified \<Rightarrow> string" where
  "executed_sql sc c = (if limits sc c then with_limit (cl_sql c) ROW_LIMIT else cl_sql c)"

definition statement_result :: "script \<Rightarrow> classified \<Rightarrow> 'row query_result \<Rightarrow> nat \<Rightarrow> 'row statement_result" where
  "statement_result sc c r duration_ns =
     (let rows = (case qr_rows r of None \<Rightarrow> [] | Some xs \<Rightarrow> xs);
          truncated = (limits sc c \<and> length rows = ROW_LIMIT)
      in \<lparr>sr_rows = (if truncated then take (ROW_LIMIT - 1) rows else rows),
          sr_count = (if truncated then ROW_LIMIT - 1
            else (case qr_count r of None \<Rightarrow> length rows | Some n \<Rightarrow> n)),
          sr_fields = qr_fields r,
          sr_duration = (duration_ns + 5000) div 10000,
          sr_sql = executed_sql sc c,
          sr_truncated = truncated,
          sr_command = cl_command c\<rparr>)"

definition run_statement :: "('s, 'e, 'row) client \<Rightarrow> ('s \<Rightarrow> nat) \<Rightarrow> script \<Rightarrow> run_request \<Rightarrow> classified
    \<Rightarrow> ('s, 'e, 'row statement_result) session" where
  "run_statement db now sc rq c st =
     (case send db (executed_sql sc c) (rq_params rq) st of
        (Inl e, st') \<Rightarrow> (Inl e, st')
      | (Inr r, st') \<Rightarrow> (Inr (statement_result sc c r (now (fst st') - now (fst st))), st'))"

fun run_statements :: "('s, 'e, 'row) client \<Rightarrow> ('s \<Rightarrow> nat) \<Rightarrow> script \<Rightarrow> run_request \<Rightarrow> classified list
    \<Rightarrow> ('s, 'e, 'row statement_result list) session" where
  "run_statements db now sc rq [] = ret []"
| "run_statements db now sc rq (c # cs) =
     and_then (run_statement db now sc rq c) (\<lambda>r.
       and_then (run_statements db now sc rq cs) (\<lambda>rs. ret (r # rs)))"

definition run_body :: "('s, 'e, 'row) client \<Rightarrow> ('s \<Rightarrow> nat) \<Rightarrow> script \<Rightarrow> run_request
    \<Rightarrow> ('s, 'e, 'row statement_result list) session" where
  \<comment> \<open>the \<open>try\<close> block\<close>
  "run_body db now sc rq =
     and_then (if sc_owns_tx sc then ret () else apply_settings db rq) (\<lambda>_.
       and_then (run_statements db now sc rq (sc_statements sc)) (\<lambda>rs.
         and_then (if sc_owns_tx sc then ret () else send_all db [(''COMMIT'', [])]) (\<lambda>_.
           ret rs)))"

definition run_script :: "('s, 'e, 'row) client \<Rightarrow> ('s \<Rightarrow> nat) \<Rightarrow> run_request
    \<Rightarrow> ('s, 'e, 'row statement_result list \<times> script) session" where
  "run_script db now rq =
     (let sc = classify (rq_sql rq) in
      case check_request sc rq of
        Inl e \<Rightarrow> throw e
      | Inr _ \<Rightarrow>
          and_then (if sc_owns_tx sc then ret () else send_all db [(''BEGIN'', [])]) (\<lambda>_.
            and_then
              (on_error (run_body db now sc rq)
                (\<lambda>st. if sc_owns_tx sc then st else snd (send db ''ROLLBACK'' [] st)))
              (\<lambda>rs. ret (rs, sc))))"

subsection \<open>The queries a run sends\<close>

definition rails_before :: "script \<Rightarrow> run_request \<Rightarrow> sent list" where
  "rails_before sc rq =
     settings_before_role rq
        @ (''SET LOCAL ROLE '' @ [dquote] @ DB_ROLE (role_of_request rq) @ [dquote], [])
        # claims_setting rq (role_of_request rq)"

definition statements_sent :: "script \<Rightarrow> run_request \<Rightarrow> classified list \<Rightarrow> sent list" where
  "statements_sent sc rq cs = map (\<lambda>c. (executed_sql sc c, rq_params rq)) cs"

definition rails :: "script \<Rightarrow> run_request \<Rightarrow> sent list" where
  \<comment> \<open>the queries of the \<open>try\<close> block, in order\<close>
  "rails sc rq =
     (if sc_owns_tx sc then statements_sent sc rq (sc_statements sc)
      else rails_before sc rq @ statements_sent sc rq (sc_statements sc) @ [(''COMMIT'', [])])"

definition sends :: "sent list \<Rightarrow> ('s, 'e, 'a) session \<Rightarrow> bool" where
  \<comment> \<open>the session appends \<open>qs\<close> to the trace; when it fails, a non-empty prefix of it\<close>
  "sends qs m = (\<forall>s log. case m (s, log) of
     (res, s', log') \<Rightarrow> \<exists>k. log' = log @ take k qs \<and>
       (if isl res then 0 < k \<and> k \<le> length qs else length qs \<le> k))"

lemma sends_ret [intro!, simp]: "sends [] (ret x)"
  by (simp add: sends_def ret_def)

lemma sends_send [intro!, simp]: "sends [(q, vs)] (send db q vs)"
proof -
  have "\<exists>k. log @ [(q, vs)] = log @ take k [(q, vs)] \<and> 0 < k \<and> k \<le> 1 \<and> 1 \<le> k" for log
    by (rule exI[of _ 1]) simp
  then show ?thesis
    by (auto simp: sends_def split: prod.splits sum.splits)
qed

lemma sends_step:
  assumes "sends qs m" "m (s, log) = (res, s', log')"
  obtains k where "log' = log @ take k qs"
    "if isl res then 0 < k \<and> k \<le> length qs else length qs \<le> k"
proof -
  show thesis
    using assms(1)[unfolded sends_def, THEN spec, of s, THEN spec, of log] assms(2) that by auto
qed

lemma sends_and_then:
  assumes m: "sends qs m" and f: "\<And>a. sends qs' (f a)"
  shows "sends (qs @ qs') (and_then m f)"
proof -
  have "case and_then m f (s, log) of (res, s', log') \<Rightarrow> \<exists>k. log' = log @ take k (qs @ qs') \<and>
       (if isl res then 0 < k \<and> k \<le> length (qs @ qs') else length (qs @ qs') \<le> k)" for s log
  proof -
    obtain r1 s1 log1 where m1: "m (s, log) = (r1, s1, log1)" by (metis prod_cases3)
    then obtain k where r1: "log1 = log @ take k qs"
      "if isl r1 then 0 < k \<and> k \<le> length qs else length qs \<le> k"
      by (rule sends_step[OF m])
    show ?thesis
    proof (cases r1)
      case (Inl e)
      then show ?thesis using r1 m1 by (auto simp: and_then_def intro!: exI[of _ k])
    next
      case (Inr a)
      obtain r2 s2 log2 where m2: "f a (s1, log1) = (r2, s2, log2)" by (metis prod_cases3)
      then obtain k2 where r2: "log2 = log1 @ take k2 qs'"
        "if isl r2 then 0 < k2 \<and> k2 \<le> length qs' else length qs' \<le> k2"
        by (rule sends_step[OF f])
      have le: "length qs \<le> k" using r1(2) Inr by simp
      have eq: "and_then m f (s, log) = (r2, s2, log2)" using m1 m2 Inr by (simp add: and_then_def)
      have "log2 = log @ take (length qs + k2) (qs @ qs')" using r1(1) r2(1) le by simp
      then show ?thesis using r2(2) by (auto simp: eq intro!: exI[of _ "length qs + k2"])
    qed
  qed
  then show ?thesis by (simp add: sends_def)
qed

lemma sends_send_all [intro!, simp]: "sends qs (send_all db qs)"
proof (induction qs)
  case (Cons q qs)
  then show ?case using sends_and_then[of "[q]" _ qs] by (cases q) (fastforce simp del: send.simps)
qed simp

lemma role_literal_ok [simp]: "role_literal r = Inr ([dquote] @ DB_ROLE r @ [dquote])"
  by (cases r) (simp_all add: role_literal_def role_char_def char_class_defs)

lemma sends_settings [intro!, simp]: "sends (rails_before sc rq) (apply_settings db rq)"
  unfolding apply_settings_def rails_before_def role_literal_ok sum.case
  by (intro sends_and_then sends_send_all)
     (use sends_and_then[OF sends_send sends_send_all] in fastforce)

lemma sends_statement [intro!, simp]: "sends (statements_sent sc rq [c]) (run_statement db now sc rq c)"
  using sends_send[of "executed_sql sc c" "rq_params rq" db]
  unfolding sends_def statements_sent_def run_statement_def
  by (fastforce split: prod.splits sum.splits simp del: send.simps)

lemma sends_statements [intro!, simp]: "sends (statements_sent sc rq cs) (run_statements db now sc rq cs)"
proof (induction cs)
  case (Cons c cs)
  have "sends (statements_sent sc rq [c] @ statements_sent sc rq cs @ []) (run_statements db now sc rq (c # cs))"
    unfolding run_statements.simps using Cons by (intro sends_and_then) auto
  then show ?case by (simp add: statements_sent_def)
qed (simp add: statements_sent_def)

lemma sends_body [intro!, simp]: "sends (rails sc rq) (run_body db now sc rq)"
proof (cases "sc_owns_tx sc")
  case True
  have "sends ([] @ statements_sent sc rq (sc_statements sc) @ [] @ []) (run_body db now sc rq)"
    unfolding run_body_def using True by (intro sends_and_then) auto
  then show ?thesis using True by (simp add: rails_def)
next
  case False
  have "sends (rails_before sc rq @ statements_sent sc rq (sc_statements sc) @ [(''COMMIT'', [])] @ [])
    (run_body db now sc rq)"
    unfolding run_body_def using False by (intro sends_and_then) (auto simp del: send_all.simps)
  then show ?thesis using False by (simp add: rails_def)
qed


definition admitted :: "script \<Rightarrow> run_request \<Rightarrow> bool" where
  \<comment> \<open>what the rails promise: something to run, parameters for one statement only, and for a
    destructive script the flag and every name typed back\<close>
  "admitted sc rq =
     (sc_statements sc \<noteq> [] \<and> (rq_params rq = [] \<or> length (sc_statements sc) = 1) \<and>
      (sc_danger sc = Safe \<or> rq_confirm rq \<and> set (sc_names sc) \<subseteq> js_trim ` set (rq_names rq)))"

lemma check_request_admitted: "check_request sc rq = Inr () \<longleftrightarrow> admitted sc rq"
proof -
  have "missing_names sc rq = [] \<longleftrightarrow> set (sc_names sc) \<subseteq> js_trim ` set (rq_names rq)"
    by (auto simp: missing_names_def filter_empty_conv)
  moreover have "sc_names sc \<noteq> [] \<or> set (sc_names sc) \<subseteq> X" for X by auto
  moreover have "sc_statements sc \<noteq> [] \<Longrightarrow> \<not> length (sc_statements sc) > 1 \<longleftrightarrow> length (sc_statements sc) = 1"
    by (cases "sc_statements sc") auto
  ultimately show ?thesis
    by (auto simp: check_request_def admitted_def split: if_splits)
qed

lemma check_request_refused:
  "\<not> admitted sc rq \<Longrightarrow> \<exists>e. (check_request sc rq :: 'e run_error + unit) = Inl e"
  using check_request_admitted[of sc rq, where 'a = 'e] by (cases "check_request sc rq :: 'e run_error + unit") auto

lemma sends_begin:
  "send_all db [(''BEGIN'', [])] (s, log) = (res, s', log') \<Longrightarrow> log' = log @ [(''BEGIN'', [])]"
  by (auto simp: and_then_def ret_def split: prod.splits sum.splits)

lemma run_script_refused:
  fixes db :: "('s, 'e, 'row) client"
  assumes "\<not> admitted (classify (rq_sql rq)) rq"
  shows "\<exists>e. run_script db now rq = throw e"
  using check_request_refused[OF assms, where 'e = 'e] by (auto simp: run_script_def Let_def)

lemma send_log: "snd (snd (send db q vs (s, log))) = log @ [(q, vs)]"
  by (auto split: prod.splits sum.splits)

lemma rails_nonempty: "admitted sc rq \<Longrightarrow> rails sc rq \<noteq> []"
  by (auto simp: rails_def rails_before_def admitted_def statements_sent_def)

lemma rails_in_order_aux:
  "let sc = classify (rq_sql rq); (res, s', log') = run_script db now rq (s, log) in
   if \<not> admitted sc rq then isl res \<and> s' = s \<and> log' = log
   else if sc_owns_tx sc
   then if isl res then \<exists>k. 0 < k \<and> log' = log @ take k (rails sc rq) else log' = log @ rails sc rq
   else if isl res
   then log' = log @ [(''BEGIN'', [])] \<or>
     (\<exists>k. 0 < k \<and> log' = log @ (''BEGIN'', []) # take k (rails sc rq) @ [(''ROLLBACK'', [])])
   else log' = log @ (''BEGIN'', []) # rails sc rq"
proof -
  define sc where "sc = classify (rq_sql rq)"
  obtain res s' log' where r: "run_script db now rq (s, log) = (res, s', log')" by (metis prod_cases3)
  have body: thesis if b: "run_body db now sc rq (s1, log1) = (r1, s2, log2)" and 
     k: "\<And>k. isl r1 \<Longrightarrow> 0 < k \<Longrightarrow> log2 = log1 @ take k (rails sc rq) \<Longrightarrow> thesis"
        "\<not> isl r1 \<Longrightarrow> log2 = log1 @ rails sc rq \<Longrightarrow> thesis" for s1 log1 r1 s2 log2 thesis
    by (rule sends_step[OF sends_body b]) (cases "isl r1"; use k in \<open>auto\<close>)
  consider (refused) "\<not> admitted sc rq" | (own) "admitted sc rq" "sc_owns_tx sc"
    | (wrapped) "admitted sc rq" "\<not> sc_owns_tx sc" by blast
  then show ?thesis
  proof cases
    case refused
    then obtain e where "run_script db now rq = throw e" using run_script_refused sc_def by blast
    then show ?thesis using refused r by (auto simp: Let_def throw_def simp flip: sc_def)
  next
    case own
    obtain r1 s2 log2 where b: "run_body db now sc rq (s, log) = (r1, s2, log2)" by (metis prod_cases3)
    have "(isl res \<longleftrightarrow> isl r1) \<and> log' = log2"
      using own r b by (auto simp: run_script_def check_request_admitted[THEN iffD2] Let_def and_then_def ret_def
          on_error_def split: sum.splits prod.splits simp flip: sc_def)
    then show ?thesis using own body[OF b] by (simp add: r Let_def flip: sc_def) blast
  next
    case wrapped
    obtain r0 s1 log1 where b0: "send_all db [(''BEGIN'', [])] (s, log) = (r0, s1, log1)" by (metis prod_cases3)
    obtain r1 s2 log2 where b: "run_body db now sc rq (s1, log1) = (r1, s2, log2)" by (metis prod_cases3)
    have l1: "log1 = log @ [(''BEGIN'', [])]" by (rule sends_begin[OF b0])
    have "if isl r0 then isl res \<and> log' = log1 else if isl r1 then isl res \<and> log' = log2 @ [(''ROLLBACK'', [])]
      else \<not> isl res \<and> log' = log2"
      using wrapped r b0 b send_log[of db "''ROLLBACK''" "[]" s2 log2]
      by (auto simp: run_script_def check_request_admitted[THEN iffD2] Let_def and_then_def ret_def
          on_error_def simp del: send_all.simps send.simps split: sum.splits prod.splits simp flip: sc_def)
    then show ?thesis using wrapped body[OF b] l1
      by (simp add: r Let_def flip: sc_def split: if_splits) (metis append.assoc append_Cons append_Nil)
  qed
qed

lemma lex_begin: "lex (''BEGIN;'' @ w) = mk_token Word 0 5 ''BEGIN'' # mk_token Punct 5 1 '';'' # lex_from 6 w"
proof -
  have "lex_from 0 (CHR ''B'' # ''EGIN'' @ '';'' @ w) = mk_token Word 0 5 (''BEGIN'' @ '';'' @ w) # lex_from 5 ('';'' @ w)"
    using lex_from_word[of "CHR ''B''" "''EGIN''" "'';'' @ w" 0]
    by (simp add: is_word_char_def is_word_start_def char_class_defs not_next_def eval_nat_numeral)
  moreover have "lex_from 5 ('';'' @ w) = mk_token Punct 5 1 '';'' # lex_from 6 w"
    by (simp add: lex_step_def char_class_defs mk_token_def is_word_start_def)
  ultimately show ?thesis by (simp add: lex_def mk_token_def)
qed

lemma begin_owns_tx: "sc_owns_tx (classify (''BEGIN;'' @ w))"
proof -
  let ?b = "mk_token Word 0 5 ''BEGIN''"
  obtain st where "push_statement (''BEGIN;'' @ w) [?b] 5 = [st]" "st_tokens st = [?b]"
    by (auto simp: push_statement_def Let_def mk_token_def js_slice_def js_trim_def char_class_defs eval_nat_numeral)
  then have "st \<in> set (split_sql (''BEGIN;'' @ w))" "lead st = ''BEGIN''"
    by (auto simp: split_sql_def lex_begin[simplified] is_punct_def mk_token_def next_depth_def lead_def
        js_upper_def upper_char_def char_class_defs)
  then show ?thesis
    by (auto simp: classify_def Let_def list_ex_iff classify_one_def TX_def)
qed

lemma on_error_id: "on_error m (\<lambda>st. st) = m"
  by (auto simp: on_error_def fun_eq_iff split: prod.splits sum.splits)

lemma and_then_ret_right: "and_then m ret = m"
  by (auto simp: and_then_def ret_def fun_eq_iff split: prod.splits sum.splits)

lemma run_script_own:
  assumes "sc_owns_tx (classify (rq_sql rq))"
  shows "run_script db now rq =
    (case check_request (classify (rq_sql rq)) rq of
       Inl e \<Rightarrow> throw e
     | Inr _ \<Rightarrow> and_then (run_statements db now (classify (rq_sql rq)) rq (sc_statements (classify (rq_sql rq))))
         (\<lambda>rs. ret (rs, classify (rq_sql rq))))"
  using assms by (simp add: run_script_def run_body_def Let_def on_error_id and_then_ret_right cong: sum.case_cong)

lemma run_statements_cong:
  assumes "rq_params rq = rq_params rq'"
  shows "run_statements db now sc rq cs = run_statements db now sc rq' cs"
proof (induction cs)
  case (Cons c cs)
  have "run_statement db now sc rq c = run_statement db now sc rq' c"
    using assms by (simp add: run_statement_def fun_eq_iff del: send.simps)
  then show ?case using Cons by simp
qed simp

lemma check_request_cong:
  "rq_params rq = rq_params rq' \<Longrightarrow> rq_confirm rq = rq_confirm rq' \<Longrightarrow> rq_names rq = rq_names rq' \<Longrightarrow>
   check_request sc rq = check_request sc rq'"
  by (simp add: check_request_def missing_names_def)

subsection \<open>Properties\<close>

text \<open>
  C1. The rails, in order. A run that is not admitted leaves the client and the trace untouched. An
  admitted script without transaction control sends \<open>BEGIN\<close>, the timeout, \<open>READ ONLY\<close> when asked
  for, the role, the claims, every statement and \<open>COMMIT\<close>, in this order; when a query fails, a
  prefix of that and then \<open>ROLLBACK\<close>. A script with transaction control sends its statements alone.
\<close>

theorem rails_in_order:
  "let sc = classify (rq_sql rq); (res, s', log') = run_script db now rq (s, log) in
   if \<not> admitted sc rq then isl res \<and> s' = s \<and> log' = log
   else if sc_owns_tx sc
   then if isl res then \<exists>k. 0 < k \<and> log' = log @ take k (rails sc rq) else log' = log @ rails sc rq
   else if isl res
   then log' = log @ [(''BEGIN'', [])] \<or>
     (\<exists>k. 0 < k \<and> log' = log @ (''BEGIN'', []) # take k (rails sc rq) @ [(''ROLLBACK'', [])])
   else log' = log @ (''BEGIN'', []) # rails sc rq"
  by (rule rails_in_order_aux)

text \<open>
  A script led by \<open>BEGIN\<close> runs outside every rail: its run is the same whatever role, claims,
  timeout and read-only flag the request carries, for every text after the \<open>BEGIN\<close>.
\<close>

theorem own_transaction_drops_every_rail:
  fixes db :: "('s, 'e, 'row) client"
  shows "run_script db now (rq\<lparr>rq_sql := ''BEGIN;'' @ w, rq_role := role, rq_read_only := ro, rq_timeout := t, rq_claims := c\<rparr>)
   = run_script db now (rq\<lparr>rq_sql := ''BEGIN;'' @ w\<rparr>)"
proof -
  let ?r1 = "rq\<lparr>rq_sql := ''BEGIN;'' @ w, rq_role := role, rq_read_only := ro, rq_timeout := t, rq_claims := c\<rparr>"
  let ?r2 = "rq\<lparr>rq_sql := ''BEGIN;'' @ w\<rparr>"
  have "rq_sql ?r1 = ''BEGIN;'' @ w" "rq_sql ?r2 = ''BEGIN;'' @ w" by (simp_all del: append_Cons)
  moreover have "run_statements db now sc ?r1 cs = run_statements db now sc ?r2 cs" for sc cs
    by (rule run_statements_cong) simp
  ultimately show ?thesis
    using run_script_own[of ?r1 db now] run_script_own[of ?r2 db now] begin_owns_tx[of w]
      check_request_cong[of ?r1 ?r2, where 'a = 'e]
    by (simp del: append_Cons cong: sum.case_cong)
qed



end
