(* ===== verification/Authz.thy ===== *)
theory Authz
  imports Prelude
begin

text \<open>
  The role matrix of \<open>packages/types/src/authz.ts\<close>, the guard \<open>require_\<close> (here \<open>require_cap\<close>) of
  \<open>services/api/src/kernel/permissions.ts\<close>, and the error that every module of the API throws
  (\<open>kernel/errors.ts\<close>): its status and its code. Message texts are not modelled here.

  Roles are ordered by the source's \<open>RANK\<close>, as an instance of \<open>linorder\<close>. Proved: authority grows
  with the rank, and what a role may assign or act on is exactly what lies at or below it.
\<close>

datatype error_code =
    VALIDATION_FAILED | UNAUTHORIZED | PROJECT_NOT_FOUND | PROJECT_NAME_TAKEN
  | IDEMPOTENCY_KEY_REQUIRED | CAPACITY_UNAVAILABLE | PROJECT_PURGED | LAST_OWNER | SQL_ERROR
  | CSRF_REQUIRED | RESOURCE_NOT_FOUND | INTERNAL

datatype api_error = ApiError nat error_code

definition not_found :: api_error where "not_found = ApiError 404 PROJECT_NOT_FOUND"
definition validation :: api_error where "validation = ApiError 400 VALIDATION_FAILED"
definition unauthorized :: api_error where "unauthorized = ApiError 401 UNAUTHORIZED"

datatype role = Owner | Admin | Member

datatype capability =
    OrgRead | OrgUpdate | OrgDelete | OrgBilling
  | MemberRead | MemberInvite | MemberRoleChange | MemberRoleGrantOwner | MemberRemove
  | ProjectRead | ProjectCreate | ProjectLifecycle | ProjectDelete
  | KeyManage | SecretManage | DbQuery | AuthuserRead | AuthuserManage

definition CAPABILITIES :: "capability list" where
  "CAPABILITIES =
     [OrgRead, OrgUpdate, OrgDelete, OrgBilling, MemberRead, MemberInvite, MemberRoleChange,
      MemberRoleGrantOwner, MemberRemove, ProjectRead, ProjectCreate, ProjectLifecycle,
      ProjectDelete, KeyManage, SecretManage, DbQuery, AuthuserRead, AuthuserManage]"

definition MEMBER :: "capability list" where
  "MEMBER = [OrgRead, MemberRead, ProjectRead, ProjectCreate, ProjectLifecycle, DbQuery]"

definition ADMIN :: "capability list" where
  "ADMIN = MEMBER @
     [OrgUpdate, MemberInvite, MemberRoleChange, MemberRemove, ProjectDelete, KeyManage,
      SecretManage, AuthuserRead, AuthuserManage]"

definition OWNER :: "capability list" where
  "OWNER = ADMIN @ [OrgDelete, OrgBilling, MemberRoleGrantOwner]"

fun ROLE_CAPABILITIES :: "role \<Rightarrow> capability set" where
  "ROLE_CAPABILITIES Member = set MEMBER"
| "ROLE_CAPABILITIES Admin = set ADMIN"
| "ROLE_CAPABILITIES Owner = set OWNER"

definition can :: "role \<Rightarrow> capability \<Rightarrow> bool" where
  "can r c = (c \<in> ROLE_CAPABILITIES r)"

definition canAssignRole :: "role \<Rightarrow> role \<Rightarrow> bool" where
  "canAssignRole actor target =
     (if \<not> can actor MemberRoleChange then False
      else if target = Owner then can actor MemberRoleGrantOwner
      else True)"

fun ROLE_RANK :: "role \<Rightarrow> nat" where
  "ROLE_RANK Member = 1"
| "ROLE_RANK Admin = 2"
| "ROLE_RANK Owner = 3"

definition canActOn :: "role \<Rightarrow> role \<Rightarrow> bool" where
  "canActOn actor subject = (ROLE_RANK actor \<ge> ROLE_RANK subject)"

definition require_cap :: "role option \<Rightarrow> capability \<Rightarrow> api_error + unit" where
  "require_cap r c =
     (case r of
        None \<Rightarrow> Inl (ApiError 404 PROJECT_NOT_FOUND)
      | Some r \<Rightarrow> if \<not> can r c then Inl (ApiError 403 UNAUTHORIZED) else Inr ())"

lemma ROLE_RANK_inject: "ROLE_RANK a = ROLE_RANK b \<longleftrightarrow> a = b"
  by (cases a; cases b) auto

instantiation role :: linorder
begin

definition less_eq_role :: "role \<Rightarrow> role \<Rightarrow> bool" where
  "less_eq_role a b = (ROLE_RANK a \<le> ROLE_RANK b)"

definition less_role :: "role \<Rightarrow> role \<Rightarrow> bool" where
  "less_role a b = (ROLE_RANK a < ROLE_RANK b)"

instance
  by standard (auto simp: less_eq_role_def less_role_def ROLE_RANK_inject)

end

lemmas capability_defs = can_def MEMBER_def ADMIN_def OWNER_def

lemma can_simps [simp]:
  "can Member c \<longleftrightarrow> c \<in> {OrgRead, MemberRead, ProjectRead, ProjectCreate, ProjectLifecycle, DbQuery}"
  "can Admin c \<longleftrightarrow> c \<notin> {OrgDelete, OrgBilling, MemberRoleGrantOwner}"
  "can Owner c"
  by (cases c; simp add: capability_defs)+

lemma role_order_simps [simp]:
  "Member \<le> r" "r \<le> Owner" "Admin \<le> r \<longleftrightarrow> r \<noteq> Member" "r \<le> Admin \<longleftrightarrow> r \<noteq> Owner" "Owner \<le> r \<longleftrightarrow> r = Owner"
  "r \<le> Member \<longleftrightarrow> r = Member"
  by (cases r; simp add: less_eq_role_def)+

lemma canActOn_le [simp]: "canActOn a s \<longleftrightarrow> s \<le> a"
  by (simp add: canActOn_def less_eq_role_def)

lemma canAssignRole_le: "canAssignRole a t \<longleftrightarrow> a \<noteq> Member \<and> t \<le> a"
  by (cases a; cases t) (auto simp: canAssignRole_def)

subsection \<open>Properties\<close>

text \<open>
  The matrix is a ladder: one role's capabilities contain another's exactly if it ranks at
  least as high, every capability is somebody's, and an owner has them all; a role assigns exactly the
  roles at or below its own, but that a member assigns none, so nobody makes a peer above them.
\<close>

theorem authority_is_a_ladder:
  "(ROLE_CAPABILITIES a \<subseteq> ROLE_CAPABILITIES b) = (a \<le> b) \<and>
   ROLE_CAPABILITIES Owner = set CAPABILITIES \<and>
   {t. canAssignRole a t} = (if a = Member then {} else {t. t \<le> a}) \<and>
   {s. canActOn a s} = {s. s \<le> a}"
proof (intro conjI)
  have c: "ROLE_CAPABILITIES r = Collect (can r)" for r by (auto simp: can_def)
  show "(ROLE_CAPABILITIES a \<subseteq> ROLE_CAPABILITIES b) = (a \<le> b)"
    unfolding c by (cases a; cases b) (auto intro: exI[of _ OrgDelete] exI[of _ OrgUpdate])
  show "ROLE_CAPABILITIES Owner = set CAPABILITIES"
    unfolding c by (auto simp: CAPABILITIES_def) (metis capability.exhaust)
  show "{t. canAssignRole a t} = (if a = Member then {} else {t. t \<le> a})"
    by (auto simp: canAssignRole_le)
qed simp

end
