(* ===== verification/Sessions.thy ===== *)
theory Sessions
  imports Prelude "HOL-Library.AList"
begin

text \<open>
  Who is calling: the session store of \<open>services/api/src/kernel/sessions.ts\<close>, the personal access
  tokens of \<open>kernel/tokens.ts\<close> and \<open>resolvePrincipal\<close> of \<open>kernel/principal.ts\<close>.

  Redis is its key space, an association list of keys with a value and the second they expire at,
  and a clock; \<open>None\<close> as a value stands for text that is not a session record. SHA-256 is a
  parameter \<open>sha\<close>, and so are the random ids a store hands out. \<open>touch\<close> is one \<open>GET\<close> followed by
  one \<open>SET\<close>; the two halves are operations of their own, since other requests run between them.
\<close>

subsection \<open>Redis\<close>

record session_record =
  sr_user :: string
  sr_csrf :: string
  sr_created :: nat
  sr_seen :: nat

record redis_db =
  rd_keys :: "(string \<times> session_record option \<times> nat) list"
  rd_now :: nat

definition redis_get :: "string \<Rightarrow> redis_db \<Rightarrow> session_record option option" where
  "redis_get k db =
     (case map_of (rd_keys db) k of
        None \<Rightarrow> None
      | Some (v, e) \<Rightarrow> if rd_now db < e then Some v else None)"

definition redis_set :: "string \<Rightarrow> session_record option \<Rightarrow> nat \<Rightarrow> redis_db \<Rightarrow> redis_db" where
  "redis_set k v ttl db = db\<lparr>rd_keys := AList.update k (v, rd_now db + ttl) (rd_keys db)\<rparr>"

definition redis_del :: "string \<Rightarrow> redis_db \<Rightarrow> redis_db" where
  "redis_del k db = db\<lparr>rd_keys := AList.delete k (rd_keys db)\<rparr>"

subsection \<open>The session store\<close>

definition IDLE_TTL_SECONDS :: nat where
  "IDLE_TTL_SECONDS = 7 * 24 * 60 * 60"

definition ABSOLUTE_TTL_SECONDS :: nat where
  "ABSOLUTE_TTL_SECONDS = 30 * 24 * 60 * 60"

definition KEY_PREFIX :: string where
  "KEY_PREFIX = ''sh:session:''"

definition session_key :: "(string \<Rightarrow> string) \<Rightarrow> string \<Rightarrow> string" where
  "session_key sha i = KEY_PREFIX @ sha i"

definition session_create :: "(string \<Rightarrow> string) \<Rightarrow> string \<Rightarrow> string \<Rightarrow> string \<Rightarrow> redis_db
    \<Rightarrow> session_record \<times> redis_db" where
  \<comment> \<open>\<open>i\<close> and \<open>csrf\<close> are the random id and token\<close>
  "session_create sha i csrf user db =
     (let r = \<lparr>sr_user = user, sr_csrf = csrf, sr_created = rd_now db, sr_seen = rd_now db\<rparr> in
      (r, redis_set (session_key sha i) (Some r) IDLE_TTL_SECONDS db))"

definition bad_session_id :: "string \<Rightarrow> bool" where
  "bad_session_id i = (i = [] \<or> length i > 128)"

definition touch_read :: "(string \<Rightarrow> string) \<Rightarrow> string \<Rightarrow> redis_db \<Rightarrow> session_record option \<times> redis_db" where
  "touch_read sha i db =
     (if bad_session_id i then (None, db)
      else (case redis_get (session_key sha i) db of
              None \<Rightarrow> (None, db)
            | Some None \<Rightarrow> (None, db)
            | Some (Some r) \<Rightarrow>
                if rd_now db - sr_created r > ABSOLUTE_TTL_SECONDS
                then (None, redis_del (session_key sha i) db)
                else (Some (r\<lparr>sr_seen := rd_now db\<rparr>), db)))"

definition touch_write :: "(string \<Rightarrow> string) \<Rightarrow> string \<Rightarrow> session_record \<Rightarrow> redis_db \<Rightarrow> redis_db" where
  "touch_write sha i r db = redis_set (session_key sha i) (Some r) IDLE_TTL_SECONDS db"

definition touch :: "(string \<Rightarrow> string) \<Rightarrow> string \<Rightarrow> redis_db \<Rightarrow> session_record option \<times> redis_db" where
  "touch sha i db =
     (case touch_read sha i db of
        (None, db') \<Rightarrow> (None, db')
      | (Some r, db') \<Rightarrow> (Some r, touch_write sha i r db'))"

definition destroy :: "(string \<Rightarrow> string) \<Rightarrow> string \<Rightarrow> redis_db \<Rightarrow> redis_db" where
  "destroy sha i db = (if i = [] then db else redis_del (session_key sha i) db)"

definition belongs_to :: "string \<Rightarrow> nat \<Rightarrow> string \<times> session_record option \<times> nat \<Rightarrow> bool" where
  "belongs_to user now = (\<lambda>(k, v, e). starts_with KEY_PREFIX k \<and> now < e \<and>
     (case v of None \<Rightarrow> False | Some r \<Rightarrow> sr_user r = user))"

definition destroy_all_for :: "string \<Rightarrow> redis_db \<Rightarrow> nat \<times> redis_db" where
  \<comment> \<open>the \<open>SCAN\<close> visits every key\<close>
  "destroy_all_for user db =
     (length (filter (belongs_to user (rd_now db)) (rd_keys db)),
      db\<lparr>rd_keys := filter (\<lambda>x. \<not> belongs_to user (rd_now db) x) (rd_keys db)\<rparr>)"

subsection \<open>The memory store\<close>

type_synonym memory_sessions = "(string \<times> session_record) list"

definition mem_create :: "(string \<Rightarrow> string) \<Rightarrow> string \<Rightarrow> string \<Rightarrow> string \<Rightarrow> nat \<Rightarrow> memory_sessions
    \<Rightarrow> session_record \<times> memory_sessions" where
  "mem_create sha i csrf user now d =
     (let r = \<lparr>sr_user = user, sr_csrf = csrf, sr_created = now, sr_seen = now\<rparr> in
      (r, AList.update (session_key sha i) r d))"

definition mem_touch :: "(string \<Rightarrow> string) \<Rightarrow> string \<Rightarrow> nat \<Rightarrow> memory_sessions
    \<Rightarrow> session_record option \<times> memory_sessions" where
  "mem_touch sha i now d =
     (if bad_session_id i then (None, d)
      else (case map_of d (session_key sha i) of
              None \<Rightarrow> (None, d)
            | Some r \<Rightarrow>
                if now - sr_created r > ABSOLUTE_TTL_SECONDS then (None, AList.delete (session_key sha i) d)
                else (let r' = r\<lparr>sr_seen := now\<rparr> in (Some r', AList.update (session_key sha i) r' d))))"

definition mem_destroy :: "(string \<Rightarrow> string) \<Rightarrow> string \<Rightarrow> memory_sessions \<Rightarrow> memory_sessions" where
  "mem_destroy sha i d = AList.delete (session_key sha i) d"

definition mem_destroy_all_for :: "string \<Rightarrow> memory_sessions \<Rightarrow> nat \<times> memory_sessions" where
  "mem_destroy_all_for user d =
     (length (filter (\<lambda>(k, r). sr_user r = user) d), filter (\<lambda>(k, r). sr_user r \<noteq> user) d)"

subsection \<open>Cookies and the CSRF check\<close>

definition csrf_ok :: "session_record \<Rightarrow> string option \<Rightarrow> bool" where
  "csrf_ok r header = (case header of None \<Rightarrow> False | Some h \<Rightarrow> h \<noteq> [] \<and> sr_csrf r = h)"

definition session_cookie :: "string \<Rightarrow> bool \<Rightarrow> string" where
  "session_cookie i secure =
     js_join ''; '' ([''sh_session='' @ i, ''Path=/'', ''HttpOnly'', ''SameSite=Lax'',
       ''Max-Age='' @ string_of_nat IDLE_TTL_SECONDS] @ (if secure then [''Secure''] else []))"

definition cleared_session_cookie :: string where
  "cleared_session_cookie = ''sh_session=; Path=/; HttpOnly; SameSite=Lax; Max-Age=0''"

fun cookie_in :: "string list \<Rightarrow> string \<Rightarrow> string option" where
  "cookie_in [] name = None"
| "cookie_in (part # parts) name =
     (case index_of ''='' part of
        None \<Rightarrow> cookie_in parts name
      | Some eq \<Rightarrow>
          if js_trim (take eq part) = name then Some (js_trim (drop (eq + 1) part))
          else cookie_in parts name)"

definition read_cookie :: "string option \<Rightarrow> string \<Rightarrow> string option" where
  "read_cookie header name =
     (case header of None \<Rightarrow> None | Some h \<Rightarrow> cookie_in (js_split CHR '';'' h) name)"

subsection \<open>Personal access tokens\<close>

definition TOKEN_PREFIX :: string where
  "TOKEN_PREFIX = ''shp_''"

record token_row =
  tk_id :: string
  tk_user :: string
  tk_name :: string
  tk_hash :: string
  tk_prefix :: string
  tk_scopes :: "string list"
  tk_expires :: "nat option"
  tk_last_used :: "nat option"
  tk_created :: nat
  tk_revoked :: "nat option"

record token_db =
  td_rows :: "token_row list"
  td_users :: "(string \<times> nat option) list"
  td_now :: nat

definition user_disabled :: "string \<Rightarrow> token_db \<Rightarrow> bool" where
  "user_disabled u db = list_ex (\<lambda>(i, d). i = u \<and> d \<noteq> None) (td_users db)"

definition token_issue :: "(string \<Rightarrow> string) \<Rightarrow> string \<Rightarrow> string \<Rightarrow> string \<Rightarrow> string \<Rightarrow> string list \<Rightarrow> nat option
    \<Rightarrow> token_db \<Rightarrow> (string \<times> string \<times> string) \<times> token_db" where
  \<comment> \<open>\<open>rnd\<close> is the random part, \<open>i\<close> the id of the row\<close>
  "token_issue sha rnd i user name scopes expires db =
     (let token = TOKEN_PREFIX @ rnd;
          prefix = take (length TOKEN_PREFIX + 8) token in
      ((token, i, prefix), db\<lparr>td_rows := td_rows db @
         [\<lparr>tk_id = i, tk_user = user, tk_name = name, tk_hash = sha token, tk_prefix = prefix,
           tk_scopes = scopes, tk_expires = expires, tk_last_used = None, tk_created = td_now db,
           tk_revoked = None\<rparr>]\<rparr>))"

definition token_live :: "(string \<Rightarrow> string) \<Rightarrow> string \<Rightarrow> token_db \<Rightarrow> token_row \<Rightarrow> bool" where
  "token_live sha token db t =
     (tk_hash t = sha token \<and> tk_revoked t = None
      \<and> (case tk_expires t of None \<Rightarrow> True | Some e \<Rightarrow> td_now db < e)
      \<and> \<not> user_disabled (tk_user t) db)"

definition token_resolve :: "(string \<Rightarrow> string) \<Rightarrow> string \<Rightarrow> token_db \<Rightarrow> token_row option \<times> token_db" where
  "token_resolve sha token db =
     (if \<not> starts_with TOKEN_PREFIX token then (None, db)
      else (List.find (token_live sha token db) (td_rows db),
            db\<lparr>td_rows := map (\<lambda>t. if token_live sha token db t then t\<lparr>tk_last_used := Some (td_now db)\<rparr> else t)
                 (td_rows db)\<rparr>))"

definition token_list :: "string \<Rightarrow> token_db \<Rightarrow> token_row list" where
  "token_list user db = rev (sort_key tk_created
     (rev (filter (\<lambda>t. tk_user t = user \<and> tk_revoked t = None) (td_rows db))))"

definition token_revoke :: "string \<Rightarrow> string \<Rightarrow> token_db \<Rightarrow> bool \<times> token_db" where
  "token_revoke user i db =
     (let hit = (\<lambda>t. tk_id t = i \<and> tk_user t = user \<and> tk_revoked t = None) in
      (list_ex hit (td_rows db),
       db\<lparr>td_rows := map (\<lambda>t. if hit t then t\<lparr>tk_revoked := Some (td_now db)\<rparr> else t) (td_rows db)\<rparr>))"

subsection \<open>Resolving the caller\<close>

datatype principal_kind = SessionKind | TokenKind | StaticKind

datatype auth_error = CsrfRequired | Unauthorized

record principal =
  pr_user :: "string option"
  pr_kind :: principal_kind
  pr_session :: "(string \<times> session_record) option"
  pr_token :: "string option"
  pr_scopes :: "string list"

record auth_deps =
  ad_sessions :: bool
  ad_tokens :: bool
  ad_static :: "string option"
  ad_static_user :: "string option"

record http_request =
  rq_method :: string
  rq_cookie :: "string option"
  rq_csrf :: "string option"
  rq_auth :: "string option"

definition MUTATING :: "string list" where
  "MUTATING = [''POST'', ''PUT'', ''PATCH'', ''DELETE'']"

definition bearer_of :: "http_request \<Rightarrow> string option" where
  "bearer_of rq =
     (case rq_auth rq of
        None \<Rightarrow> None
      | Some a \<Rightarrow> if starts_with ''Bearer '' a then Some (js_trim (drop 7 a)) else None)"

definition resolve_bearer :: "(string \<Rightarrow> string) \<Rightarrow> auth_deps \<Rightarrow> http_request
    \<Rightarrow> (token_db, auth_error, principal) eff" where
  "resolve_bearer sha deps rq tdb =
     (case bearer_of rq of
        None \<Rightarrow> (Inl Unauthorized, tdb)
      | Some b \<Rightarrow>
          if b \<noteq> [] \<and> ad_tokens deps \<and> starts_with TOKEN_PREFIX b then
            (case token_resolve sha b tdb of
               (None, tdb') \<Rightarrow> (Inl Unauthorized, tdb')
             | (Some t, tdb') \<Rightarrow>
                 (Inr \<lparr>pr_user = Some (tk_user t), pr_kind = TokenKind, pr_session = None,
                       pr_token = Some (tk_id t), pr_scopes = tk_scopes t\<rparr>, tdb'))
          else if b \<noteq> [] \<and> ad_static deps \<noteq> Some [] \<and> ad_static deps = Some b then
            (Inr \<lparr>pr_user = ad_static_user deps, pr_kind = StaticKind, pr_session = None,
                  pr_token = None, pr_scopes = []\<rparr>, tdb)
          else (Inl Unauthorized, tdb))"

definition cookie_session :: "(string \<Rightarrow> string) \<Rightarrow> auth_deps \<Rightarrow> http_request \<Rightarrow> redis_db
    \<Rightarrow> (string \<times> session_record) option \<times> redis_db" where
  "cookie_session sha deps rq rdb =
     (case read_cookie (rq_cookie rq) ''sh_session'' of
        None \<Rightarrow> (None, rdb)
      | Some i \<Rightarrow>
          if i \<noteq> [] \<and> ad_sessions deps then map_prod (map_option (Pair i)) id (touch sha i rdb)
          else (None, rdb))"

definition resolve_principal :: "(string \<Rightarrow> string) \<Rightarrow> auth_deps \<Rightarrow> http_request
    \<Rightarrow> (redis_db \<times> token_db, auth_error, principal) eff" where
  "resolve_principal sha deps rq = (\<lambda>(rdb, tdb).
     (case cookie_session sha deps rq rdb of
        (Some (i, s), rdb') \<Rightarrow>
          if rq_method rq \<in> set MUTATING \<and> \<not> csrf_ok s (rq_csrf rq) then (Inl CsrfRequired, rdb', tdb)
          else (Inr \<lparr>pr_user = Some (sr_user s), pr_kind = SessionKind, pr_session = Some (i, s),
                      pr_token = None, pr_scopes = []\<rparr>, rdb', tdb)
      | (None, rdb') \<Rightarrow> map_prod id (Pair rdb') (resolve_bearer sha deps rq tdb)))"

subsection \<open>Facts\<close>

lemma redis_get_set [simp]: "redis_get k (redis_set k v ttl db) = (if 0 < ttl then Some v else None)"
  by (simp add: redis_get_def redis_set_def update_conv')

lemma redis_get_del [simp]: "redis_get k (redis_del k db) = None"
  by (simp add: redis_get_def redis_del_def delete_conv')

lemma redis_now [simp]: "rd_now (redis_set k v ttl db) = rd_now db" "rd_now (redis_del k db) = rd_now db"
  by (simp_all add: redis_set_def redis_del_def)

lemma idle_positive [simp]: "0 < IDLE_TTL_SECONDS"
  by (simp add: IDLE_TTL_SECONDS_def)

text \<open>What Redis holds of the session store: every key expires one idle window after the record was
  last seen.\<close>

definition session_entry_ok :: "nat \<Rightarrow> string \<times> session_record option \<times> nat \<Rightarrow> bool" where
  "session_entry_ok now = (\<lambda>(k, v, e). case v of None \<Rightarrow> True
     | Some r \<Rightarrow> sr_created r \<le> sr_seen r \<and> sr_seen r \<le> now \<and> e = sr_seen r + IDLE_TTL_SECONDS)"

definition sessions_ok :: "redis_db \<Rightarrow> bool" where
  "sessions_ok db = (distinct (map fst (rd_keys db)) \<and> list_all (session_entry_ok (rd_now db)) (rd_keys db))"

lemma set_AList_update: "x \<in> set (AList.update k v xs) \<Longrightarrow> x \<in> set xs \<or> x = (k, v)"
  by (induction xs) (auto split: if_splits)

lemma sessions_ok_set:
  assumes "sessions_ok db" "sr_seen r = rd_now db" "sr_created r \<le> rd_now db"
  shows "sessions_ok (redis_set k (Some r) IDLE_TTL_SECONDS db)"
proof -
  have "distinct (map fst (AList.update k (Some r, rd_now db + IDLE_TTL_SECONDS) (rd_keys db)))"
    using assms(1) by (simp add: sessions_ok_def distinct_update)
  moreover have "list_all (session_entry_ok (rd_now db)) (AList.update k (Some r, rd_now db + IDLE_TTL_SECONDS) (rd_keys db))"
    using assms set_AList_update[of _ k "(Some r, rd_now db + IDLE_TTL_SECONDS)" "rd_keys db"]
    unfolding list_all_iff by (fastforce simp: sessions_ok_def list_all_iff session_entry_ok_def)
  ultimately show ?thesis by (simp add: sessions_ok_def redis_set_def)
qed

lemma sessions_ok_filter: "sessions_ok db \<Longrightarrow> sessions_ok (db\<lparr>rd_keys := filter P (rd_keys db)\<rparr>)"
  by (auto simp: sessions_ok_def list_all_iff distinct_map_filter)

lemma sessions_ok_del: "sessions_ok db \<Longrightarrow> sessions_ok (redis_del k db)"
  unfolding redis_del_def AList.delete_eq by (rule sessions_ok_filter)

lemma redis_get_SomeD:
  "redis_get k db = Some v \<Longrightarrow> \<exists>e. (k, v, e) \<in> set (rd_keys db) \<and> rd_now db < e"
  by (fastforce simp: redis_get_def dest: map_of_SomeD split: option.splits if_splits)

lemma sessions_ok_getD:
  "sessions_ok db \<Longrightarrow> redis_get k db = Some (Some r) \<Longrightarrow> sr_created r \<le> sr_seen r \<and> sr_seen r \<le> rd_now db"
  by (auto simp: sessions_ok_def list_all_iff session_entry_ok_def dest!: redis_get_SomeD)

lemma touch_readE:
  assumes "touch_read sha i db = (x, db')"
  obtains "x = None" "db' = db" | "x = None" "db' = redis_del (session_key sha i) db"
  | r where "redis_get (session_key sha i) db = Some (Some r)" "x = Some (r\<lparr>sr_seen := rd_now db\<rparr>)" "db' = db"
      "rd_now db \<le> sr_created r + ABSOLUTE_TTL_SECONDS" "\<not> bad_session_id i"
proof (cases "bad_session_id i")
  case True
  with assms that(1) show ?thesis by (simp add: touch_read_def)
next
  case good: False
  show ?thesis
  proof (cases "redis_get (session_key sha i) db")
    case None
    with good assms that(1) show ?thesis by (simp add: touch_read_def)
  next
    case v: (Some v)
    show ?thesis
    proof (cases v)
      case None
      with good v assms that(1) show ?thesis by (simp add: touch_read_def)
    next
      case (Some r)
      show ?thesis
      proof (cases "rd_now db - sr_created r > ABSOLUTE_TTL_SECONDS")
        case True
        with good v Some assms that(2) show ?thesis by (simp add: touch_read_def)
      next
        case False
        then have "x = Some (r\<lparr>sr_seen := rd_now db\<rparr>)" "db' = db" using good v Some assms by (auto simp: touch_read_def)
        with that(3) v Some good False show ?thesis by simp
      qed
    qed
  qed
qed

lemma sessions_ok_touch:
  assumes "sessions_ok db"
  shows "sessions_ok (snd (touch sha i db))"
proof (cases "touch_read sha i db")
  case (Pair x db')
  then show ?thesis
  proof (cases rule: touch_readE)
    case (3 r)
    from sessions_ok_getD[OF assms 3(1)] Pair 3 show ?thesis
      by (auto simp: touch_def touch_write_def intro!: sessions_ok_set[OF assms])
  qed (use assms Pair in \<open>auto simp: touch_def sessions_ok_del\<close>)
qed

inductive session_step :: "(string \<Rightarrow> string) \<Rightarrow> redis_db \<Rightarrow> redis_db \<Rightarrow> bool" for sha where
  logged_in: "session_step sha db (snd (session_create sha i csrf user db))"
| used: "session_step sha db (snd (touch sha i db))"
| logged_out: "session_step sha db (destroy sha i db)"
| logged_out_everywhere: "session_step sha db (snd (destroy_all_for user db))"
| waited: "session_step sha db (db\<lparr>rd_now := rd_now db + k\<rparr>)"

definition empty_redis :: redis_db where
  "empty_redis = \<lparr>rd_keys = [], rd_now = 0\<rparr>"

lemma sessions_ok_step: "session_step sha db db' \<Longrightarrow> sessions_ok db \<Longrightarrow> sessions_ok db'"
proof (induction rule: session_step.induct)
  case (logged_in db i csrf user)
  then show ?case by (auto simp: session_create_def Let_def intro!: sessions_ok_set)
next
  case (used db i)
  then show ?case by (rule sessions_ok_touch)
next
  case (logged_out db i)
  then show ?case by (simp add: destroy_def sessions_ok_del)
next
  case (logged_out_everywhere db user)
  then show ?case by (simp add: destroy_all_for_def sessions_ok_filter)
next
  case (waited db k)
  then show ?case by (auto simp: sessions_ok_def list_all_iff session_entry_ok_def split: option.splits)
qed

lemma sessions_ok_reached: "(session_step sha)\<^sup>*\<^sup>* empty_redis db \<Longrightarrow> sessions_ok db"
proof (induction rule: rtranclp_induct)
  case base
  show ?case by (simp add: empty_redis_def sessions_ok_def)
next
  case (step y z)
  then show ?case by (blast intro: sessions_ok_step)
qed

lemma touch_live:
  assumes "sessions_ok db" "map_of (rd_keys db) (session_key sha i) = Some (Some r, e)" "\<not> bad_session_id i"
  shows "fst (touch sha i db) =
    (if rd_now db < sr_seen r + IDLE_TTL_SECONDS \<and> rd_now db \<le> sr_created r + ABSOLUTE_TTL_SECONDS
     then Some (r\<lparr>sr_seen := rd_now db\<rparr>) else None)"
proof -
  have e: "e = sr_seen r + IDLE_TTL_SECONDS"
    using assms(1,2) map_of_SomeD[OF assms(2)] by (auto simp: sessions_ok_def list_all_iff session_entry_ok_def)
  show ?thesis using assms(2,3) by (auto simp: touch_def touch_read_def redis_get_def e)
qed

lemma touch_absent:
  "redis_get (session_key sha i) db = None \<Longrightarrow> fst (touch sha i db) = None"
  by (simp add: touch_def touch_read_def)

text \<open>
  A session lives exactly as long as its two clocks say. In every reachable store a record is
  usable while less than seven days have passed since it was last seen and at most thirty since it
  was created, a use moves the first clock and not the second, and neither a logout nor a logout
  everywhere leaves anything to use.
\<close>

theorem session_lifetime:
  assumes "(session_step sha)\<^sup>*\<^sup>* empty_redis db" "\<not> bad_session_id i"
    "map_of (rd_keys db) (session_key sha i) = Some (Some r, e)"
  shows "sr_created r \<le> sr_seen r \<and> sr_seen r \<le> rd_now db
    \<and> fst (touch sha i db) =
        (if rd_now db < sr_seen r + IDLE_TTL_SECONDS \<and> rd_now db \<le> sr_created r + ABSOLUTE_TTL_SECONDS
         then Some (r\<lparr>sr_seen := rd_now db\<rparr>) else None)
    \<and> fst (touch sha i (destroy sha i db)) = None
    \<and> fst (touch sha i (snd (destroy_all_for (sr_user r) db))) = None"
proof -
  note ok = sessions_ok_reached[OF assms(1)]
  have rng: "sr_created r \<le> sr_seen r \<and> sr_seen r \<le> rd_now db"
    using ok map_of_SomeD[OF assms(3)] by (auto simp: sessions_ok_def list_all_iff session_entry_ok_def)
  have i: "i \<noteq> []" using assms(2) by (simp add: bad_session_id_def)
  have gone: "fst (touch sha i (destroy sha i db)) = None"
    using i by (intro touch_absent) (simp add: destroy_def)
  let ?d = "snd (destroy_all_for (sr_user r) db)"
  have dist: "distinct (map fst (rd_keys db))" using ok by (simp add: sessions_ok_def)
  have key: "starts_with KEY_PREFIX (session_key sha i)" by (simp add: session_key_def)
  have "redis_get (session_key sha i) ?d = None"
  proof (rule ccontr)
    assume "redis_get (session_key sha i) ?d \<noteq> None"
    then obtain v where v: "redis_get (session_key sha i) ?d = Some v" by auto
    from redis_get_SomeD[OF v] obtain x where x: "(session_key sha i, v, x) \<in> set (rd_keys ?d)" "rd_now ?d < x" by blast
    then have "(session_key sha i, v, x) \<in> set (rd_keys db)" by (simp add: destroy_all_for_def)
    with map_of_is_SomeI[OF dist this] assms(3) have "v = Some r" "x = e" by auto
    with x key show False by (simp add: destroy_all_for_def belongs_to_def)
  qed
  then have "fst (touch sha i ?d) = None" by (rule touch_absent)
  with rng gone touch_live[OF ok assms(3,2)] show ?thesis by simp
qed

text \<open>
  A logout can be undone by a request in flight. \<open>touch\<close> reads the record and then writes it
  back with a plain \<open>SET\<close>: when the logout, or the logout everywhere, runs between the two, the
  write stores the session again and the cookie that was logged out works as before.
\<close>

theorem logout_can_be_undone:
  assumes "touch_read sha i db = (Some r, db')"
  shows "fst (touch sha i (destroy sha i db')) = None
    \<and> fst (touch sha i (touch_write sha i r (destroy sha i db'))) = Some r
    \<and> fst (touch sha i (touch_write sha i r (snd (destroy_all_for (sr_user r) db')))) = Some r"
  using assms
proof (cases rule: touch_readE)
  case (3 s)
  then have i: "i \<noteq> []" by (simp add: bad_session_id_def)
  have again: "fst (touch sha i (touch_write sha i r d)) = Some r" if "rd_now d = rd_now db" for d
    using 3 that by (simp add: touch_def touch_read_def touch_write_def)
  have "redis_get (session_key sha i) (destroy sha i db') = None" using i by (simp add: destroy_def)
  then show ?thesis
    using again[of "destroy sha i db'"] again[of "snd (destroy_all_for (sr_user r) db')"] 3 touch_absent
    by (simp add: destroy_def destroy_all_for_def)
qed simp_all


lemma cookie_sessionE:
  assumes "cookie_session sha deps rq rdb = (x, rdb')"
  obtains "x = None" | i s where "x = Some (i, s)" "read_cookie (rq_cookie rq) ''sh_session'' = Some i"
    "i \<noteq> []" "ad_sessions deps" "touch sha i rdb = (Some s, rdb')"
proof (cases "read_cookie (rq_cookie rq) ''sh_session''")
  case None
  with assms that(1) show ?thesis by (simp add: cookie_session_def)
next
  case (Some i)
  show ?thesis
  proof (cases "i \<noteq> [] \<and> ad_sessions deps")
    case True
    with assms Some that show ?thesis
      by (cases "touch sha i rdb"; cases "fst (touch sha i rdb)") (auto simp: cookie_session_def)
  next
    case False
    with assms Some that(1) show ?thesis by (simp add: cookie_session_def)
  qed
qed

lemma resolve_bearerE:
  assumes "resolve_bearer sha deps rq tdb = (Inr p, tdb')"
  obtains b t where "bearer_of rq = Some b" "starts_with TOKEN_PREFIX b" "ad_tokens deps" "t \<in> set (td_rows tdb)"
      "token_live sha b tdb t" "pr_kind p = TokenKind" "pr_user p = Some (tk_user t)" "pr_scopes p = tk_scopes t"
  | b where "bearer_of rq = Some b" "b \<noteq> []" "ad_static deps = Some b" "pr_kind p = StaticKind"
      "pr_user p = ad_static_user deps"
proof (cases "bearer_of rq")
  case None
  with assms show ?thesis by (simp add: resolve_bearer_def)
next
  case (Some b)
  show ?thesis
  proof (cases "b \<noteq> [] \<and> ad_tokens deps \<and> starts_with TOKEN_PREFIX b")
    case True
    with assms Some obtain t where t: "fst (token_resolve sha b tdb) = Some t"
      "p = \<lparr>pr_user = Some (tk_user t), pr_kind = TokenKind, pr_session = None, pr_token = Some (tk_id t), pr_scopes = tk_scopes t\<rparr>"
      by (cases "token_resolve sha b tdb"; cases "fst (token_resolve sha b tdb)") (auto simp: resolve_bearer_def)
    from t(1) True have "t \<in> set (td_rows tdb)" "token_live sha b tdb t"
      by (auto simp: token_resolve_def dest: find_SomeD)
    with that(1) Some True t(2) show ?thesis by simp
  next
    case no: False
    then have "b \<noteq> [] \<and> ad_static deps = Some b" "p = \<lparr>pr_user = ad_static_user deps, pr_kind = StaticKind,
       pr_session = None, pr_token = None, pr_scopes = []\<rparr>"
      using assms Some by (auto simp: resolve_bearer_def split: if_splits)
    with that(2) Some show ?thesis by simp
  qed
qed

text \<open>
  Whoever is let in has proven who they are. A caller resolved from a cookie holds a live
  session, and on a mutating method has sent that session's own non-empty CSRF token; one resolved
  from a token presented the secret of a row that is not revoked, not expired and whose owner is not
  disabled; the static token is only ever matched by itself.
\<close>

theorem caller_is_proven:
  assumes "resolve_principal sha deps rq (rdb, tdb) = (Inr p, st)"
  shows "case pr_kind p of
      SessionKind \<Rightarrow> (\<exists>i s. read_cookie (rq_cookie rq) ''sh_session'' = Some i \<and> fst (touch sha i rdb) = Some s
        \<and> pr_user p = Some (sr_user s)
        \<and> (rq_method rq \<in> {''POST'', ''PUT'', ''PATCH'', ''DELETE''} \<longrightarrow> rq_csrf rq = Some (sr_csrf s) \<and> sr_csrf s \<noteq> []))
    | TokenKind \<Rightarrow> (\<exists>b t. bearer_of rq = Some b \<and> starts_with ''shp_'' b \<and> t \<in> set (td_rows tdb)
        \<and> tk_hash t = sha b \<and> tk_revoked t = None \<and> (\<forall>e. tk_expires t = Some e \<longrightarrow> td_now tdb < e)
        \<and> \<not> user_disabled (tk_user t) tdb \<and> pr_user p = Some (tk_user t))
    | StaticKind \<Rightarrow> (\<exists>b. bearer_of rq = Some b \<and> b \<noteq> [] \<and> ad_static deps = Some b \<and> pr_user p = ad_static_user deps)"
proof -
  obtain x rdb' where c: "cookie_session sha deps rq rdb = (x, rdb')" by fastforce
  then show ?thesis
  proof (cases rule: cookie_sessionE)
    case 1
    with c assms have "resolve_bearer sha deps rq tdb = (Inr p, snd (resolve_bearer sha deps rq tdb))"
      by (cases "resolve_bearer sha deps rq tdb") (auto simp: resolve_principal_def)
    then show ?thesis
    proof (cases rule: resolve_bearerE)
      case (1 b t)
      then show ?thesis unfolding 1(6) principal_kind.case token_live_def TOKEN_PREFIX_def
        by (intro exI[of _ b] exI[of _ t]) auto
    next
      case (2 b)
      then show ?thesis by simp
    qed
  next
    case (2 i s)
    then have ok: "\<not> (rq_method rq \<in> set MUTATING \<and> \<not> csrf_ok s (rq_csrf rq))" and
      p: "pr_kind p = SessionKind" "pr_user p = Some (sr_user s)"
      using c assms by (auto simp: resolve_principal_def split: if_splits)
    have "rq_csrf rq = Some (sr_csrf s) \<and> sr_csrf s \<noteq> []" if "rq_method rq \<in> {''POST'', ''PUT'', ''PATCH'', ''DELETE''}"
      using ok that by (auto simp: MUTATING_def csrf_ok_def split: option.splits)
    with 2 p show ?thesis by auto
  qed
qed

text \<open>
  Disabling an account ends its tokens and not its sessions. No token of a disabled user
  resolves, and a live session of that user is still answered as that user, on every method its
  CSRF token is sent with.
\<close>

theorem disabling_ends_tokens_not_sessions:
  assumes "user_disabled u tdb" "read_cookie (rq_cookie rq) ''sh_session'' = Some i" "ad_sessions deps"
    "fst (touch sha i rdb) = Some s" "sr_user s = u" "rq_method rq = ''GET'' \<or> rq_csrf rq = Some (sr_csrf s)" "sr_csrf s \<noteq> []"
  shows "(\<forall>token t. tk_user t = u \<longrightarrow> fst (token_resolve sha token tdb) \<noteq> Some t)
    \<and> (\<exists>p. fst (resolve_principal sha deps rq (rdb, tdb)) = Inr p \<and> pr_user p = Some u \<and> pr_kind p = SessionKind)"
proof
  show "\<forall>token t. tk_user t = u \<longrightarrow> fst (token_resolve sha token tdb) \<noteq> Some t"
  proof (intro allI impI notI)
    fix token t
    assume u: "tk_user t = u" and "fst (token_resolve sha token tdb) = Some t"
    then have "token_live sha token tdb t"
      by (auto simp: token_resolve_def dest: find_SomeD split: if_splits)
    with u assms(1) show False by (simp add: token_live_def)
  qed
next
  have i: "i \<noteq> []" using assms(4) by (auto simp: touch_def touch_read_def bad_session_id_def)
  obtain rdb' where t: "touch sha i rdb = (Some s, rdb')" using assms(4) by (cases "touch sha i rdb") auto
  have "csrf_ok s (rq_csrf rq) \<or> rq_method rq \<notin> set MUTATING"
    using assms(6,7) by (auto simp: csrf_ok_def MUTATING_def)
  then have "fst (resolve_principal sha deps rq (rdb, tdb)) = Inr \<lparr>pr_user = Some (sr_user s), pr_kind = SessionKind,
      pr_session = Some (i, s), pr_token = None, pr_scopes = []\<rparr>"
    using assms(2,3) i t by (auto simp: resolve_principal_def cookie_session_def)
  then show "\<exists>p. fst (resolve_principal sha deps rq (rdb, tdb)) = Inr p \<and> pr_user p = Some u \<and> pr_kind p = SessionKind"
    using assms(5) by simp
qed

lemma memory_store_has_no_idle_clock:
  assumes "map_of d (session_key sha i) = Some r" "\<not> bad_session_id i" "now \<le> sr_created r + ABSOLUTE_TTL_SECONDS"
  shows "fst (mem_touch sha i now d) = Some (r\<lparr>sr_seen := now\<rparr>)"
  using assms by (simp add: mem_touch_def Let_def)

subsection \<open>Concrete sessions\<close>

definition sample_redis :: redis_db where
  "sample_redis = snd (session_create id ''sid'' ''csrf'' ''ada'' empty_redis)"

definition sample_record :: session_record where
  "sample_record = \<lparr>sr_user = ''ada'', sr_csrf = ''csrf'', sr_created = 0, sr_seen = 0\<rparr>"

definition sample_tokens :: token_db where
  "sample_tokens = \<lparr>td_rows = [], td_users = [(''ada'', Some 5)], td_now = 9\<rparr>"

definition sample_deps :: auth_deps where
  "sample_deps = \<lparr>ad_sessions = True, ad_tokens = True, ad_static = None, ad_static_user = None\<rparr>"

definition sample_post :: http_request where
  "sample_post = \<lparr>rq_method = ''POST'', rq_cookie = Some ''a=b; sh_session=sid'', rq_csrf = Some ''csrf'', rq_auth = None\<rparr>"

lemma sample_redis_eq: "sample_redis = \<lparr>rd_keys = [(session_key id ''sid'', Some sample_record, 604800)], rd_now = 0\<rparr>"
  by (simp add: sample_redis_def session_create_def redis_set_def empty_redis_def sample_record_def IDLE_TTL_SECONDS_def Let_def)

lemma sample_stored:
  "map_of (rd_keys sample_redis) (session_key id ''sid'') = Some (Some sample_record, 604800)"
  by (simp add: sample_redis_eq)

lemma sample_read: "touch_read id ''sid'' sample_redis = (Some sample_record, sample_redis)"
  by (simp add: touch_read_def bad_session_id_def redis_get_def sample_redis_eq) (simp add: sample_record_def)

lemma sample_touch: "fst (touch id ''sid'' sample_redis) = Some sample_record"
  by (simp add: touch_def sample_read)

lemma sample_cookie: "read_cookie (rq_cookie sample_post) ''sh_session'' = Some ''sid''"
  by code_simp

theorem session_lifetime_witness:
  "fst (touch id ''sid'' sample_redis) = Some sample_record \<and> fst (touch id ''sid'' (destroy id ''sid'' sample_redis)) = None"
proof -
  have "(session_step id)\<^sup>*\<^sup>* empty_redis sample_redis"
    unfolding sample_redis_def using logged_in by (rule r_into_rtranclp)
  moreover have "\<not> bad_session_id ''sid''" by (simp add: bad_session_id_def)
  ultimately show ?thesis using session_lifetime[OF _ _ sample_stored] sample_touch by simp
qed

theorem logout_can_be_undone_witness:
  "fst (touch id ''sid'' (touch_write id ''sid'' sample_record (destroy id ''sid'' sample_redis))) = Some sample_record"
  using logout_can_be_undone[OF sample_read] by simp

lemma sample_resolved: "fst (resolve_principal id sample_deps sample_post (sample_redis, sample_tokens)) =
   Inr \<lparr>pr_user = Some ''ada'', pr_kind = SessionKind, pr_session = Some (''sid'', sample_record), pr_token = None, pr_scopes = []\<rparr>"
proof -
  obtain rdb' where t: "touch id ''sid'' sample_redis = (Some sample_record, rdb')"
    using sample_touch by (cases "touch id ''sid'' sample_redis") auto
  have "csrf_ok sample_record (rq_csrf sample_post)" "ad_sessions sample_deps" by code_simp+
  then show ?thesis using sample_cookie t by (simp add: resolve_principal_def cookie_session_def sample_record_def)
qed

theorem caller_is_proven_witness:
  "\<exists>i s. read_cookie (rq_cookie sample_post) ''sh_session'' = Some i \<and> fst (touch id i sample_redis) = Some s
     \<and> rq_csrf sample_post = Some (sr_csrf s)"
proof -
  have m: "rq_method sample_post = ''POST''" by (simp add: sample_post_def)
  obtain p st where r: "resolve_principal id sample_deps sample_post (sample_redis, sample_tokens) = (Inr p, st)"
    and "pr_kind p = SessionKind"
    using sample_resolved by (cases "resolve_principal id sample_deps sample_post (sample_redis, sample_tokens)") auto
  with caller_is_proven[OF r] m show ?thesis by auto
qed

theorem disabling_ends_tokens_not_sessions_witness:
  "user_disabled ''ada'' sample_tokens
   \<and> (\<exists>p. fst (resolve_principal id sample_deps sample_post (sample_redis, sample_tokens)) = Inr p \<and> pr_user p = Some ''ada'')"
proof -
  have d: "user_disabled ''ada'' sample_tokens" "ad_sessions sample_deps" "sr_user sample_record = ''ada''"
    "rq_csrf sample_post = Some (sr_csrf sample_record)" "sr_csrf sample_record \<noteq> []"
    by code_simp+
  with disabling_ends_tokens_not_sessions[OF d(1) sample_cookie d(2) sample_touch d(3) disjI2[OF d(4)] d(5)]
  show ?thesis by blast
qed

end
