(* ===== verification/Counters.thy ===== *)
theory Counters
  imports Prelude
begin

text \<open>
  The fixed-window counters of \<open>services/api/src/kernel/rate-limit.ts\<close>, with the options that
  \<open>services/api/src/main.ts\<close> gives the login and sign-up routes.

  The clock of a counter is in milliseconds. A counter is used through the interface
  \<open>RateLimiter\<close>; the locale \<open>rate_limiter\<close> states what a hit does, is interpreted on the Redis and
  on the memory implementation, and holds the bound on what either lets through.
\<close>

subsection \<open>Counters\<close>

record limit_options =
  lo_limit :: nat
  lo_window :: nat \<comment> \<open>seconds\<close>

record hit_result =
  hr_allowed :: bool
  hr_remaining :: nat
  hr_retry_after :: nat

record counters =
  co_keys :: "string \<Rightarrow> (nat \<times> nat) option"
  co_now :: nat

definition redis_hit :: "bool \<Rightarrow> string \<Rightarrow> limit_options \<Rightarrow> string \<Rightarrow> counters \<Rightarrow> hit_result \<times> counters" where
  \<comment> \<open>\<open>up\<close>: the transaction was executed. A key with its count is gone once it expires; \<open>INCR\<close>
      keeps the expiry, \<open>EXPIRE NX\<close> sets it where there is none; \<open>TTL\<close> rounds to seconds\<close>
  "redis_hit up prefix opts key st =
     (let k = prefix @ key in
      if \<not> up then (\<lparr>hr_allowed = True, hr_remaining = lo_limit opts, hr_retry_after = lo_window opts\<rparr>, st)
      else
        (let (count, expiry) =
           (case co_keys st k of
              Some (c, e) \<Rightarrow> if co_now st < e then (c + 1, e) else (1, co_now st + lo_window opts * 1000)
            | None \<Rightarrow> (1, co_now st + lo_window opts * 1000));
             ttl = (expiry - co_now st + 500) div 1000 in
         (\<lparr>hr_allowed = (count \<le> lo_limit opts), hr_remaining = lo_limit opts - count,
           hr_retry_after = (if ttl > 0 then ttl else lo_window opts)\<rparr>,
          st\<lparr>co_keys := (co_keys st)(k := Some (count, expiry))\<rparr>)))"

definition redis_reset :: "string \<Rightarrow> string \<Rightarrow> counters \<Rightarrow> counters" where
  "redis_reset prefix key st = st\<lparr>co_keys := (co_keys st)(prefix @ key := None)\<rparr>"

definition memory_hit :: "limit_options \<Rightarrow> string \<Rightarrow> counters \<Rightarrow> hit_result \<times> counters" where
  "memory_hit opts key st =
     (let start = (\<lparr>hr_allowed = True, hr_remaining = lo_limit opts - 1, hr_retry_after = lo_window opts\<rparr>,
          st\<lparr>co_keys := (co_keys st)(key := Some (1, co_now st + lo_window opts * 1000))\<rparr>) in
      case co_keys st key of
        None \<Rightarrow> start
      | Some (c, e) \<Rightarrow>
          if e \<le> co_now st then start
          else (\<lparr>hr_allowed = (c + 1 \<le> lo_limit opts), hr_remaining = lo_limit opts - (c + 1),
                  hr_retry_after = (e - co_now st + 999) div 1000\<rparr>,
                st\<lparr>co_keys := (co_keys st)(key := Some (c + 1, e))\<rparr>))"

definition memory_reset :: "string \<Rightarrow> counters \<Rightarrow> counters" where
  "memory_reset key st = st\<lparr>co_keys := (co_keys st)(key := None)\<rparr>"

definition key_char :: "char \<Rightarrow> char" where
  "key_char c = (if is_lower c \<or> is_digit c \<or> c \<in> set ''@._-'' then c else CHR ''_'')"

definition clean_part :: "string \<Rightarrow> string" where
  "clean_part p = take 100 (map key_char (js_lower p))"

definition rate_limit_key :: "string list \<Rightarrow> string" where
  "rate_limit_key parts = js_join '':'' (map clean_part parts)"

subsection \<open>What a counter lets through\<close>

fun hits_at :: "(string \<Rightarrow> counters \<Rightarrow> hit_result \<times> counters) \<Rightarrow> string \<Rightarrow> nat list \<Rightarrow> counters \<Rightarrow> bool list" where
  \<comment> \<open>one hit at each of the given times\<close>
  "hits_at hit key [] st = []"
| "hits_at hit key (t # ts) st =
     (case hit key (st\<lparr>co_now := t\<rparr>) of (r, st') \<Rightarrow> hr_allowed r # hits_at hit key ts st')"

definition let_through :: "bool list \<Rightarrow> nat" where
  "let_through bs = length (filter id bs)"

locale rate_limiter =
  fixes hit :: "string \<Rightarrow> counters \<Rightarrow> hit_result \<times> counters"
    and slot :: "string \<Rightarrow> string"
    and limit window :: nat
  assumes live: "co_keys st (slot key) = Some (c, e) \<Longrightarrow> co_now st < e \<Longrightarrow>
      hr_allowed (fst (hit key st)) = (c + 1 \<le> limit) \<and> co_keys (snd (hit key st)) (slot key) = Some (c + 1, e)"
    and fresh: "(case co_keys st (slot key) of None \<Rightarrow> True | Some (c, e) \<Rightarrow> e \<le> co_now st) \<Longrightarrow>
      co_keys (snd (hit key st)) (slot key) = Some (1, co_now st + window)"
    and positive: "0 < limit"
begin

lemma within_window:
  assumes "co_keys st (slot key) = Some (c, e)" "\<forall>t\<in>set ts. t < e"
  shows "let_through (hits_at hit key ts st) \<le> limit - c"
  using assms
proof (induction ts arbitrary: c st)
  case Nil
  then show ?case by (simp add: let_through_def)
next
  case (Cons t ts)
  obtain r st' where h: "hit key (st\<lparr>co_now := t\<rparr>) = (r, st')" by fastforce
  with live[of "st\<lparr>co_now := t\<rparr>" key c e] Cons.prems
  have "hr_allowed r = (c + 1 \<le> limit)" "co_keys st' (slot key) = Some (c + 1, e)" by auto
  with Cons.IH[of st' "c + 1"] Cons.prems(2) h show ?case by (auto simp: let_through_def)
qed

lemma twice_the_limit:
  assumes "sorted ts" "\<forall>t\<in>set ts. \<forall>u\<in>set ts. u < t + window"
  shows "let_through (hits_at hit key ts st) \<le> 2 * limit"
proof -
  have fresh_start: "let_through (hits_at hit key (t # ts) st) \<le> limit"
    if "case co_keys st (slot key) of None \<Rightarrow> True | Some (c, e) \<Rightarrow> e \<le> t" "\<forall>u\<in>set ts. u < t + window" for t ts st
  proof -
    obtain r st' where h: "hit key (st\<lparr>co_now := t\<rparr>) = (r, st')" by fastforce
    have "case co_keys (st\<lparr>co_now := t\<rparr>) (slot key) of None \<Rightarrow> True | Some (c, e) \<Rightarrow> e \<le> co_now (st\<lparr>co_now := t\<rparr>)"
      using that(1) by (auto split: option.splits)
    from fresh[OF this] h have e: "co_keys st' (slot key) = Some (1, t + window)" by simp
    from within_window[OF e that(2)] positive h show ?thesis by (auto simp: let_through_def)
  qed
  have step: "let_through (hits_at hit key ts st) \<le> (limit - c) + limit"
    if "sorted ts" "\<forall>t\<in>set ts. \<forall>u\<in>set ts. u < t + window" "co_keys st (slot key) = Some (c, e)" for c e ts st
    using that
  proof (induction ts arbitrary: c st)
    case Nil
    then show ?case by (simp add: let_through_def)
  next
    case (Cons t ts)
    show ?case
    proof (cases "t < e")
      case True
      obtain r st' where h: "hit key (st\<lparr>co_now := t\<rparr>) = (r, st')" by fastforce
      with live[of "st\<lparr>co_now := t\<rparr>" key c e] Cons.prems(3) True
      have "hr_allowed r = (c + 1 \<le> limit)" "co_keys st' (slot key) = Some (c + 1, e)" by auto
      with Cons.IH[of st' "c + 1"] Cons.prems h show ?thesis by (auto simp: let_through_def)
    next
      case False
      with fresh_start[where st = st and t = t and ts = ts] Cons.prems(2,3) show ?thesis by auto
    qed
  qed
  show "let_through (hits_at hit key ts st) \<le> 2 * limit"
  proof (cases "co_keys st (slot key)")
    case None
    show ?thesis
    proof (cases ts)
      case (Cons t us)
      with fresh_start[where st = st and t = t and ts = us] None assms(2) show ?thesis by auto
    qed (simp add: let_through_def)
  next
    case (Some ce)
    then obtain c e where "co_keys st (slot key) = Some (c, e)" by (cases ce) auto
    from step[OF assms this] show ?thesis by simp
  qed
qed

end


lemma redis_live:
  "co_keys st (prefix @ key) = Some (c, e) \<Longrightarrow> co_now st < e \<Longrightarrow>
     hr_allowed (fst (redis_hit True prefix opts key st)) = (c + 1 \<le> lo_limit opts)
     \<and> co_keys (snd (redis_hit True prefix opts key st)) (prefix @ key) = Some (c + 1, e)"
  by (simp add: redis_hit_def Let_def)

lemma redis_fresh:
  "(case co_keys st (prefix @ key) of None \<Rightarrow> True | Some (c, e) \<Rightarrow> e \<le> co_now st) \<Longrightarrow>
     hr_allowed (fst (redis_hit True prefix opts key st)) = (1 \<le> lo_limit opts)
     \<and> co_keys (snd (redis_hit True prefix opts key st)) (prefix @ key) = Some (1, co_now st + lo_window opts * 1000)"
  by (auto simp: redis_hit_def Let_def split: option.splits)

lemma memory_live:
  "co_keys st key = Some (c, e) \<Longrightarrow> co_now st < e \<Longrightarrow>
     hr_allowed (fst (memory_hit opts key st)) = (c + 1 \<le> lo_limit opts)
     \<and> co_keys (snd (memory_hit opts key st)) key = Some (c + 1, e)"
  by (simp add: memory_hit_def Let_def)

lemma memory_fresh:
  "(case co_keys st key of None \<Rightarrow> True | Some (c, e) \<Rightarrow> e \<le> co_now st) \<Longrightarrow>
     hr_allowed (fst (memory_hit opts key st))
     \<and> co_keys (snd (memory_hit opts key st)) key = Some (1, co_now st + lo_window opts * 1000)"
  by (auto simp: memory_hit_def Let_def split: option.splits)

definition login_limit :: limit_options where
  "login_limit = \<lparr>lo_limit = 10, lo_window = 300\<rparr>"

definition signup_limit :: limit_options where
  "signup_limit = \<lparr>lo_limit = 5, lo_window = 300\<rparr>"

lemma limiter_laws:
  assumes "0 < lo_limit opts"
  shows "rate_limiter (redis_hit True prefix opts) (\<lambda>k. prefix @ k) (lo_limit opts) (lo_window opts * 1000)"
    "rate_limiter (memory_hit opts) id (lo_limit opts) (lo_window opts * 1000)"
  using assms by (unfold_locales; simp add: redis_live redis_fresh memory_live memory_fresh)+

interpretation login: rate_limiter "redis_hit True ''sh:rl:'' login_limit" "\<lambda>k. ''sh:rl:'' @ k" 10 300000
  using limiter_laws(1)[of login_limit "''sh:rl:''"] by (simp add: login_limit_def)

interpretation login_memory: rate_limiter "memory_hit login_limit" id 10 300000
  using limiter_laws(2)[of login_limit] by (simp add: login_limit_def)

lemma clean_no_colon: "CHR '':'' \<notin> set (clean_part p)"
proof
  assume "CHR '':'' \<in> set (clean_part p)"
  then have "CHR '':'' \<in> key_char ` set (js_lower p)" unfolding clean_part_def using in_set_takeD by fastforce
  then obtain c where "CHR '':'' = key_char c" by blast
  then show False by (auto simp: key_char_def char_class_defs split: if_splits)
qed

lemma join_inj:
  assumes "\<forall>p\<in>set ps. d \<notin> set p" "\<forall>q\<in>set qs. d \<notin> set q" "ps \<noteq> []" "qs \<noteq> []"
    "js_join [d] ps = js_join [d] qs"
  shows "ps = qs"
  using assms
proof (induction ps arbitrary: qs)
  case (Cons p ps)
  obtain q qs' where q: "qs = q # qs'" using Cons.prems(4) by (cases qs) auto
  have dp: "d \<notin> set p" "d \<notin> set q" using Cons.prems q by auto
  have cut: "takeWhile (\<lambda>c. c \<noteq> d) (x @ d # y) = x" "dropWhile (\<lambda>c. c \<noteq> d) (x @ d # y) = d # y"
    if "d \<notin> set x" for x y using that by (auto simp: takeWhile_append dropWhile_append)
  have j: "js_join [d] (x # xs) = (if xs = [] then x else x @ d # js_join [d] xs)" for x xs by (cases xs) auto
  show ?case
  proof (cases "ps = []"; cases "qs' = []")
    assume "ps = []" "qs' = []"
    with Cons.prems(5) q show ?thesis by simp
  next
    assume a: "ps = []" "qs' \<noteq> []"
    then have "p = q @ d # js_join [d] qs'" using Cons.prems(5) unfolding q j by simp
    with dp(1) show ?thesis by simp
  next
    assume a: "ps \<noteq> []" "qs' = []"
    then have "q = p @ d # js_join [d] ps" using Cons.prems(5) unfolding q j by simp
    with dp(2) show ?thesis by simp
  next
    assume a: "ps \<noteq> []" "qs' \<noteq> []"
    then have e: "p @ d # js_join [d] ps = q @ d # js_join [d] qs'" using Cons.prems(5) unfolding q j by simp
    from arg_cong[OF e, of "takeWhile (\<lambda>c. c \<noteq> d)"] have pq: "p = q" by (simp only: cut dp not_False_eq_True)
    with e have "js_join [d] ps = js_join [d] qs'" by simp
    with Cons.IH[of qs'] Cons.prems a q have "ps = qs'" by auto
    with pq q show ?thesis by simp
  qed
qed simp

lemma buckets_apart:
  assumes "rate_limit_key ps = rate_limit_key qs" "ps \<noteq> []" "qs \<noteq> []"
  shows "map clean_part ps = map clean_part qs"
  using assms clean_no_colon by (intro join_inj[of _ "CHR '':''"]) (auto simp: rate_limit_key_def)

subsection \<open>Properties\<close>

text \<open>
  However the attempts are timed, no five minutes let more than twenty of them through for one
  identifier, twice the limit, since a window can be straddled once; on Redis and in memory alike,
  from any earlier state of the counter.
\<close>

theorem login_attempts_are_bounded:
  assumes "sorted ts" "\<forall>t\<in>set ts. \<forall>u\<in>set ts. u < t + 300 * 1000"
  shows "let_through (hits_at (redis_hit True ''sh:rl:'' login_limit) key ts st) \<le> 20
    \<and> let_through (hits_at (memory_hit login_limit) key ts st) \<le> 20"
  using login.twice_the_limit[of ts] login_memory.twice_the_limit[of ts] assms by simp

theorem login_attempts_are_bounded_witness:
  "let_through (hits_at (redis_hit True ''sh:rl:'' login_limit) ''k'' [0, 1, 2, 200000] \<lparr>co_keys = Map.empty, co_now = 0\<rparr>) \<le> 20"
proof -
  have "\<forall>t\<in>set [0, 1, 2, 200000::nat]. \<forall>u\<in>set [0, 1, 2, 200000::nat]. u < t + 300 * 1000" "sorted [0, 1, 2, 200000::nat]"
    by simp_all
  from login_attempts_are_bounded[OF this(2,1)] show ?thesis by blast
qed

end
