(* ===== verification/Console.thy ===== *)
theory Console
  imports SqlRun Authz Sessions Counters
begin

text \<open>
  The SQL console: the query route of \<open>services/api/src/modules/db/routes.ts\<close> and
  \<open>db/context.ts\<close>, from the resolved caller to the outcome row of the audit log.

  What happens outside the API is a trace of events, in order: audit rows, the connection, the
  queries sent on it, its end. The project database is the client of \<open>SqlRun\<close>; that a connection
  can be opened and that an audit row can be written are parameters, each an error or none, and
  \<open>code_of\<close> reads the \<open>code\<close> field of an error. Durations are left out of the audit rows.
\<close>

datatype 'e route_error =
    Refused api_error
  | Rail nat string \<comment> \<open>an \<open>ApiError\<close> of \<open>run.ts\<close>\<close>
  | Crashed 'e
  | CrashedRole string

datatype audit_event =
    QueryAttempted string string bool nat danger bool
  | QuerySucceeded nat nat
  | QueryUnreachable string
  | QueryFailed "string option"

datatype console_event =
    Audited audit_event
  | Dialled string nat
  | Sent sent
  | Closed

record 's console =
  cn_db :: 's
  cn_counters :: counters
  cn_trace :: "console_event list"

record console_project =
  cp_id :: string
  cp_ref :: string
  cp_org :: string
  cp_status :: string
  cp_host :: "string option"
  cp_port :: "nat option"

record console_env =
  ce_projects :: "console_project list"
  ce_role_of :: "string \<Rightarrow> string \<Rightarrow> role option"
  ce_secret :: "string \<Rightarrow> string option"
  ce_limiter :: "(string \<Rightarrow> counters \<Rightarrow> hit_result \<times> counters) option"

record console_context =
  cc_project :: string
  cc_ref :: string
  cc_org :: string
  cc_host :: string
  cc_port :: nat
  cc_password :: string

definition console_context :: "console_env \<Rightarrow> string \<Rightarrow> api_error + console_context" where
  "console_context env ref =
     (case List.find (\<lambda>p. cp_ref p = ref) (ce_projects env) of
        None \<Rightarrow> Inl not_found
      | Some p \<Rightarrow>
          if cp_status p \<noteq> ''ready'' then Inl (ApiError 409 VALIDATION_FAILED)
          else
            (case (cp_host p, cp_port p, ce_secret env (cp_id p)) of
               (Some h, Some port, secret) \<Rightarrow>
                 if h = [] then Inl (ApiError 409 VALIDATION_FAILED)
                 else
                   (case secret of
                      None \<Rightarrow> Inl (ApiError 409 VALIDATION_FAILED)
                    | Some pw \<Rightarrow>
                        if pw = [] then Inl (ApiError 409 VALIDATION_FAILED)
                        else Inr \<lparr>cc_project = cp_id p, cc_ref = ref, cc_org = cp_org p, cc_host = h,
                                  cc_port = port, cc_password = pw\<rparr>)
             | _ \<Rightarrow> Inl (ApiError 409 VALIDATION_FAILED)))"

definition require_person :: "auth_error + string option \<Rightarrow> api_error + string" where
  \<comment> \<open>the caller as \<open>resolvePrincipal\<close> answers it\<close>
  "require_person caller =
     (case caller of
        Inl CsrfRequired \<Rightarrow> Inl (ApiError 403 CSRF_REQUIRED)
      | Inl Unauthorized \<Rightarrow> Inl unauthorized
      | Inr None \<Rightarrow> Inl (ApiError 403 UNAUTHORIZED)
      | Inr (Some u) \<Rightarrow> Inr u)"

definition require_member_role :: "console_env \<Rightarrow> string \<Rightarrow> string \<Rightarrow> api_error + role" where
  "require_member_role env user org =
     (case ce_role_of env user org of
        None \<Rightarrow> Inl not_found
      | Some r \<Rightarrow> map_sum id (\<lambda>_. r) (require_cap (Some r) DbQuery))"

definition body_ok :: "run_request \<Rightarrow> bool" where
  \<comment> \<open>\<open>RunBody\<close>, on a body whose fields have the right types\<close>
  "body_ok b =
     (1 \<le> length (rq_sql b) \<and> length (rq_sql b) \<le> 100000 \<and> length (rq_params b) \<le> 64
      \<and> length (rq_names b) \<le> 20 \<and> list_all (\<lambda>n. 1 \<le> length n \<and> length n \<le> 200) (rq_names b)
      \<and> (case rq_timeout b of None \<Rightarrow> True | Some t \<Rightarrow> 100 \<le> t \<and> t \<le> MAX_TIMEOUT_MS))"

definition sqlstate_of :: "string option \<Rightarrow> string option" where
  \<comment> \<open>\<open>pgDetail\<close>\<close>
  "sqlstate_of code =
     (case code of
        None \<Rightarrow> None
      | Some c \<Rightarrow> if length c = 5 \<and> list_all (\<lambda>x. is_digit x \<or> is_upper x) c then Some c else None)"

definition NET_CODES :: "string list" where
  "NET_CODES = [''ECONNREFUSED'', ''ETIMEDOUT'', ''ENOTFOUND'', ''EHOSTUNREACH'', ''ENETUNREACH'']"

definition role_name :: "console_role option \<Rightarrow> string" where
  "role_name r = (case r of None \<Rightarrow> ''admin'' | Some AdminRole \<Rightarrow> ''admin'' | Some AnonRole \<Rightarrow> ''anon''
     | Some AuthenticatedRole \<Rightarrow> ''authenticated'')"

definition emit :: "console_event list \<Rightarrow> 's console \<Rightarrow> 's console" where
  "emit es st = st\<lparr>cn_trace := cn_trace st @ es\<rparr>"

definition write_audit :: "(audit_event \<Rightarrow> 'e option) \<Rightarrow> audit_event \<Rightarrow> ('s console, 'e run_error, unit) eff" where
  "write_audit audit a st =
     (case audit a of Some e \<Rightarrow> (Inl (DbError e), st) | None \<Rightarrow> (Inr (), emit [Audited a] st))"

definition with_console_db :: "('s \<Rightarrow> 'e option) \<Rightarrow> console_context \<Rightarrow> ('s, 'e, 'a) session
    \<Rightarrow> ('s console, 'e run_error, 'a) eff" where
  "with_console_db connect cx m st =
     (case connect (cn_db st) of
        Some e \<Rightarrow> (Inl (DbError e), emit [Dialled (cc_host cx) (cc_port cx)] st)
      | None \<Rightarrow>
          (case m (cn_db st, []) of
             (r, s', log) \<Rightarrow>
               (r, (emit (Dialled (cc_host cx) (cc_port cx) # map Sent log @ [Closed]) st)\<lparr>cn_db := s'\<rparr>)))"

definition limit_step :: "console_env \<Rightarrow> string \<Rightarrow> ('s console, 'e route_error, unit) eff" where
  "limit_step env user st =
     (case ce_limiter env of
        None \<Rightarrow> (Inr (), st)
      | Some hit \<Rightarrow>
          (case hit (rate_limit_key [''db-query'', user]) (cn_counters st) of
             (r, co) \<Rightarrow>
               (if hr_allowed r then Inr () else Inl (Refused (ApiError 429 VALIDATION_FAILED)),
                st\<lparr>cn_counters := co\<rparr>)))"

definition total_rows :: "'row statement_result list \<Rightarrow> nat" where
  "total_rows rs = sum_list (map sr_count rs)"

definition run_and_record :: "('s \<Rightarrow> 'e option) \<Rightarrow> (audit_event \<Rightarrow> 'e option) \<Rightarrow> ('s, 'e, 'row) client \<Rightarrow> ('s \<Rightarrow> nat)
    \<Rightarrow> console_context \<Rightarrow> run_request \<Rightarrow> ('s console, 'e run_error, 'row statement_result list) eff" where
  \<comment> \<open>the \<open>try\<close> block\<close>
  "run_and_record connect audit db now cx body =
     and_then (with_console_db connect cx (run_script db now body)) (\<lambda>(results, _).
     and_then (write_audit audit (QuerySucceeded (length results) (total_rows results))) (\<lambda>_.
     ret results))"

definition explain_failure :: "(audit_event \<Rightarrow> 'e option) \<Rightarrow> ('e \<Rightarrow> string option) \<Rightarrow> 'e run_error
    \<Rightarrow> ('s console, 'e route_error, 'a) eff" where
  \<comment> \<open>the \<open>catch\<close> block\<close>
  "explain_failure audit code_of err st =
     (case err of
        ApiRefusal n msg \<Rightarrow> (Inl (Rail n msg), st)
      | UnexpectedRole r \<Rightarrow>
          (case audit (QueryFailed None) of
             Some e \<Rightarrow> (Inl (Crashed e), st)
           | None \<Rightarrow> (Inl (CrashedRole r), emit [Audited (QueryFailed None)] st))
      | DbError e \<Rightarrow>
          (case code_of e of
             Some c \<Rightarrow>
               if c \<in> set NET_CODES then
                 (case audit (QueryUnreachable c) of
                    Some e' \<Rightarrow> (Inl (Crashed e'), st)
                  | None \<Rightarrow> (Inl (Refused (ApiError 503 INTERNAL)), emit [Audited (QueryUnreachable c)] st))
               else
                 (case audit (QueryFailed (sqlstate_of (Some c))) of
                    Some e' \<Rightarrow> (Inl (Crashed e'), st)
                  | None \<Rightarrow>
                      (Inl (if sqlstate_of (Some c) = None then Crashed e else Refused (ApiError 400 SQL_ERROR)),
                       emit [Audited (QueryFailed (sqlstate_of (Some c)))] st))
           | None \<Rightarrow>
               (case audit (QueryFailed None) of
                  Some e' \<Rightarrow> (Inl (Crashed e'), st)
                | None \<Rightarrow> (Inl (Crashed e), emit [Audited (QueryFailed None)] st))))"

definition refuse_if :: "bool \<Rightarrow> api_error \<Rightarrow> ('s, 'e route_error, unit) eff" where
  "refuse_if b e = guard (\<not> b) (Refused e)"

definition from_api :: "api_error + 'a \<Rightarrow> ('s, 'e route_error, 'a) eff" where
  "from_api r = (case r of Inl e \<Rightarrow> throw (Refused e) | Inr a \<Rightarrow> ret a)"

definition from_rails :: "'e run_error + 'a \<Rightarrow> ('s, 'e route_error, 'a) eff" where
  "from_rails r =
     (case r of
        Inl (ApiRefusal n msg) \<Rightarrow> throw (Rail n msg)
      | Inl (UnexpectedRole x) \<Rightarrow> throw (CrashedRole x)
      | Inl (DbError e) \<Rightarrow> throw (Crashed e)
      | Inr a \<Rightarrow> ret a)"

definition attempt_of :: "run_request \<Rightarrow> script \<Rightarrow> audit_event" where
  "attempt_of body sc = QueryAttempted (rq_sql body) (role_name (rq_role body)) (rq_read_only body)
     (length (sc_statements sc)) (sc_danger sc) (rq_confirm body)"

definition before_attempt :: "console_env \<Rightarrow> auth_error + string option \<Rightarrow> string \<Rightarrow> run_request option
    \<Rightarrow> ('s console, 'e route_error, run_request \<times> console_context) eff" where
  \<comment> \<open>up to the audit row; \<open>None\<close> for a body of the wrong shape\<close>
  "before_attempt env caller ref parsed =
     and_then (from_api (require_person caller)) (\<lambda>user.
     case parsed of
       None \<Rightarrow> throw (Refused validation)
     | Some body \<Rightarrow>
         and_then (refuse_if (\<not> body_ok body) validation) (\<lambda>_.
         and_then (refuse_if (rq_claims body \<noteq> None \<and> rq_role body \<noteq> Some AuthenticatedRole) validation) (\<lambda>_.
         and_then (from_api (console_context env ref)) (\<lambda>cx.
         and_then (from_api (require_member_role env user (cc_org cx))) (\<lambda>_.
         and_then (limit_step env user) (\<lambda>_.
         and_then (from_rails (check_request (classify (rq_sql body)) body)) (\<lambda>_.
         ret (body, cx))))))))"

definition query_route :: "console_env \<Rightarrow> ('s \<Rightarrow> 'e option) \<Rightarrow> (audit_event \<Rightarrow> 'e option) \<Rightarrow> ('e \<Rightarrow> string option)
    \<Rightarrow> ('s, 'e, 'row) client \<Rightarrow> ('s \<Rightarrow> nat) \<Rightarrow> auth_error + string option \<Rightarrow> string \<Rightarrow> run_request option
    \<Rightarrow> ('s console, 'e route_error, 'row statement_result list) eff" where
  "query_route env connect audit code_of db now caller ref parsed =
     and_then (before_attempt env caller ref parsed) (\<lambda>(body, cx) st.
       case write_audit audit (attempt_of body (classify (rq_sql body))) st of
         (Inl e, st') \<Rightarrow> from_rails (Inl e) st'
       | (Inr _, st') \<Rightarrow>
           (case run_and_record connect audit db now cx body st' of
              (Inr rs, st'') \<Rightarrow> (Inr rs, st'')
            | (Inl err, st'') \<Rightarrow> explain_failure audit code_of err st''))"

subsection \<open>Facts\<close>

definition only_db :: "('st, 'e run_error, 'a) eff \<Rightarrow> bool" where
  \<comment> \<open>every error comes from the database\<close>
  "only_db m = (\<forall>s e. fst (m s) = Inl e \<longrightarrow> (\<exists>x. e = DbError x))"

lemma only_db_ret [intro!]: "only_db (ret a)"
  by (simp add: only_db_def ret_def)

lemma only_db_send [intro!]: "only_db (send db q vs)"
  by (auto simp: only_db_def split: prod.splits sum.splits)

lemma only_db_and_then [intro!]: "only_db m \<Longrightarrow> (\<And>a. only_db (f a)) \<Longrightarrow> only_db (and_then m f)"
  unfolding only_db_def and_then_def by (auto split: prod.splits sum.splits) (metis fst_conv)+

lemma only_db_on_error [intro!]: "only_db m \<Longrightarrow> only_db (on_error m c)"
  unfolding only_db_def on_error_def by (auto split: prod.splits sum.splits) (metis fst_conv)+

lemma only_db_send_all [intro!]: "only_db (send_all db qs)"
  by (induction db qs rule: send_all.induct) auto

lemma only_db_settings [intro!]: "only_db (apply_settings db rq)"
  by (auto simp: apply_settings_def)

lemma only_db_statement [intro!]: "only_db (run_statement db now sc rq c)"
  unfolding only_db_def run_statement_def by (auto split: prod.splits sum.splits)

lemma only_db_statements [intro!]: "only_db (run_statements db now sc rq cs)"
  by (induction cs) auto

lemma only_db_script:
  assumes "admitted (classify (rq_sql rq)) rq"
  shows "only_db (run_script db now rq)"
proof -
  have "(check_request (classify (rq_sql rq)) rq :: 'b run_error + unit) = Inr ()"
    using assms by (simp add: check_request_admitted)
  then show ?thesis by (auto simp: run_script_def Let_def run_body_def)
qed

lemma emit_trace [simp]: "cn_trace (emit es st) = cn_trace st @ es" "cn_db (emit es st) = cn_db st"
  by (simp_all add: emit_def)

lemma before_attemptE:
  fixes r :: "'e route_error + run_request \<times> console_context" and st :: "'s console"
  assumes "before_attempt env caller ref parsed st = (r, st')"
  obtains e where "r = Inl e" "cn_trace st' = cn_trace st"
  | u body cx role where "r = Inr (body, cx)" "cn_trace st' = cn_trace st" "cn_db st' = cn_db st"
      "caller = Inr (Some u)" "parsed = Some body" "console_context env ref = Inr cx"
      "ce_role_of env u (cc_org cx) = Some role" "can role DbQuery"
      "admitted (classify (rq_sql body)) body"
proof -
  have err: thesis if "isl r \<and> cn_trace st' = cn_trace st"
    using that \<open>\<And>e. r = Inl e \<Longrightarrow> cn_trace st' = cn_trace st \<Longrightarrow> thesis\<close> by (cases r) auto
  note run = assms[unfolded before_attempt_def]
  show thesis
  proof (cases "require_person caller")
    case (Inl e)
    with run have "isl r \<and> cn_trace st' = cn_trace st" by (auto simp: from_api_def throw_def)
    then show ?thesis by (rule err)
  next
    case u: (Inr u)
    note run = run[unfolded from_api_def u sum.case and_then_ret]
    from u have c: "caller = Inr (Some u)"
      by (auto simp: require_person_def split: sum.splits auth_error.splits option.splits)
    show ?thesis
    proof (cases parsed)
      case None
      with run have "isl r \<and> cn_trace st' = cn_trace st" by (auto simp: throw_def)
      then show ?thesis by (rule err)
    next
      case body: (Some body)
      note run = run[unfolded body option.case refuse_if_def guard_def]
      show ?thesis
      proof (cases "body_ok body \<and> \<not> (rq_claims body \<noteq> None \<and> rq_role body \<noteq> Some AuthenticatedRole)")
        case False
        with run have "isl r \<and> cn_trace st' = cn_trace st" by (auto simp: throw_def split: if_splits)
        then show ?thesis by (rule err)
      next
        case True
        then have b: "body_ok body" "\<not> (rq_claims body \<noteq> None \<and> rq_role body \<noteq> Some AuthenticatedRole)" by blast+
        note run = run[unfolded if_P[OF b(2)] not_not if_P[OF b(1)] and_then_ret]
        show ?thesis
        proof (cases "console_context env ref")
          case (Inl e)
          with run have "isl r \<and> cn_trace st' = cn_trace st" by (auto simp: throw_def)
          then show ?thesis by (rule err)
        next
          case cx: (Inr cx)
          note run = run[unfolded cx sum.case and_then_ret]
          show ?thesis
          proof (cases "require_member_role env u (cc_org cx)")
            case (Inl e)
            with run have "isl r \<and> cn_trace st' = cn_trace st" by (auto simp: throw_def)
            then show ?thesis by (rule err)
          next
            case m: (Inr role)
            note run = run[unfolded m sum.case and_then_ret]
            from m have role: "ce_role_of env u (cc_org cx) = Some role" "can role DbQuery"
              by (auto simp: require_member_role_def require_cap_def split: option.splits if_splits)
            obtain l st1 where l: "(limit_step env u :: ('s console, 'e route_error, unit) eff) st = (l, st1)" by fastforce
            then have t: "cn_trace st1 = cn_trace st" "cn_db st1 = cn_db st"
              by (auto simp: limit_step_def split: option.splits prod.splits)
            show ?thesis
            proof (cases l)
              case (Inl e)
              with run l t have "isl r \<and> cn_trace st' = cn_trace st" by (auto simp: and_then_def)
              then show ?thesis by (rule err)
            next
              case (Inr x)
              note run = run[unfolded and_then_def[of "limit_step env u"] l Inr prod.case sum.case]
              show ?thesis
              proof (cases "check_request (classify (rq_sql body)) body :: 'e run_error + unit")
                case (Inl e)
                with run t have "isl r \<and> cn_trace st' = cn_trace st"
                  by (cases e) (auto simp: from_rails_def throw_def)
                then show ?thesis by (rule err)
              next
                case ok: (Inr y)
                with run have "r = Inr (body, cx)" "st' = st1" by (auto simp: from_rails_def ret_def)
                then show ?thesis using that(2)[OF _ _ _ c body cx role] t ok by (simp add: check_request_admitted)
              qed
            qed
          qed
        qed
      qed
    qed
  qed
qed

subsection \<open>Properties\<close>

definition succeeded :: "audit_event \<Rightarrow> bool" where
  "succeeded a = (case a of QuerySucceeded _ _ \<Rightarrow> True | _ \<Rightarrow> False)"

lemma explain_failureE:
  assumes "\<And>a. audit a = None" "explain_failure audit code_of (DbError e) st = (r, st')"
  obtains a where "isl r" "cn_trace st' = cn_trace st @ [Audited a]" "\<not> succeeded a"
proof (cases "code_of e")
  case None
  with assms that show ?thesis by (auto simp: explain_failure_def succeeded_def)
next
  case (Some c)
  with assms that show ?thesis
    by (cases "c \<in> set NET_CODES") (auto simp: explain_failure_def succeeded_def)
qed

lemma query_route_refused:
  fixes code_of :: "'e \<Rightarrow> string option" and st :: "'s console"
  assumes "(before_attempt env caller ref parsed :: ('s console, 'e route_error, run_request \<times> console_context) eff) st = (Inl e, st1)"
  shows "query_route env connect audit code_of db now caller ref parsed st = (Inl e, st1)"
  by (simp add: query_route_def and_then_def assms)

lemma query_route_admitted:
  fixes code_of :: "'e \<Rightarrow> string option" and st :: "'s console"
  assumes "(before_attempt env caller ref parsed :: ('s console, 'e route_error, run_request \<times> console_context) eff) st
      = (Inr (body, cx), st1)" "audit (attempt_of body (classify (rq_sql body))) = None"
  shows "query_route env connect audit code_of db now caller ref parsed st =
    (case run_and_record connect audit db now cx body (emit [Audited (attempt_of body (classify (rq_sql body)))] st1) of
       (Inr rs, st2) \<Rightarrow> (Inr rs, st2) | (Inl err, st2) \<Rightarrow> explain_failure audit code_of err st2)"
  by (simp add: query_route_def and_then_def assms write_audit_def)

text \<open>
  C2. Nothing reaches a customer's database unrecorded. While audit rows can be written, a request
  either ends in an error with no event at all, or was made by a person who is a member of the
  project's organization with the right to query, for a ready project and a script the rails admit;
  then the first event is the row of the attempt, the connection and the queries follow, and the last
  is the row of the outcome, a success exactly if the response is one.
\<close>

theorem every_run_is_audited_first:
  fixes code_of :: "'e \<Rightarrow> string option" and st :: "'s console"
  assumes "\<And>a. audit a = None" "query_route env connect audit code_of db now caller ref parsed st = (res, st')"
  shows "isl res \<and> cn_trace st' = cn_trace st \<or>
    (\<exists>u body cx role mid outcome. caller = Inr (Some u) \<and> parsed = Some body
       \<and> console_context env ref = Inr cx \<and> ce_role_of env u (cc_org cx) = Some role \<and> can role DbQuery
       \<and> admitted (classify (rq_sql body)) body
       \<and> cn_trace st' = cn_trace st @ Audited (attempt_of body (classify (rq_sql body)))
           # Dialled (cc_host cx) (cc_port cx) # mid @ [Audited outcome]
       \<and> (mid = [] \<or> (\<exists>log. mid = map Sent log @ [Closed]))
       \<and> (succeeded outcome = (\<exists>rs. res = Inr rs)))"
proof -
  obtain b st1 where b: "(before_attempt env caller ref parsed :: ('s console, 'e route_error, run_request \<times> console_context) eff) st
      = (b, st1)" by fastforce
  from b show ?thesis
  proof (cases rule: before_attemptE)
    case (1 e)
    with assms(2) query_route_refused[OF b[unfolded 1(1)], of connect audit code_of db now] have "res = Inl e" "st' = st1" by simp_all
    with 1(2) show ?thesis by simp
  next
    case (2 u body cx role)
    let ?sc = "classify (rq_sql body)"
    let ?st2 = "emit [Audited (attempt_of body ?sc)] st1"
    have w: "write_audit audit a s = (Inr (), emit [Audited a] s)" for a and s :: "'s console"
      by (simp add: write_audit_def assms(1))
    obtain rr st3 where rr: "run_and_record connect audit db now cx body ?st2 = (rr, st3)" by fastforce
    from assms(2) query_route_admitted[OF b[unfolded 2(1)], of audit connect code_of db now] assms(1) rr have run': "(res, st') = (case rr of Inr rs \<Rightarrow> (Inr rs, st3)
        | Inl err \<Rightarrow> explain_failure audit code_of err st3)"
      by (auto split: sum.splits)
    have shape: "\<exists>mid. (mid = [] \<or> (\<exists>log. mid = map Sent log @ [Closed])) \<and>
       (case rr of Inl err \<Rightarrow> (\<exists>x. err = DbError x) \<and> cn_trace st3 = cn_trace ?st2 @ Dialled (cc_host cx) (cc_port cx) # mid
         | Inr rs \<Rightarrow> \<exists>n k. cn_trace st3 = cn_trace ?st2 @ Dialled (cc_host cx) (cc_port cx) # mid @ [Audited (QuerySucceeded n k)])"
    proof (cases "connect (cn_db ?st2)")
      case (Some e)
      then show ?thesis using rr by (auto simp: run_and_record_def with_console_db_def and_then_def)
    next
      case None
      obtain r s' log where r: "run_script db now body (cn_db ?st2, []) = (r, s', log)" by (metis prod_cases3)
      show ?thesis
      proof (cases r)
        case (Inl e)
        then have "\<exists>x. e = DbError x" using only_db_script[OF 2(9), of db now] r unfolding only_db_def by (metis fst_conv)
        with rr None r Inl show ?thesis by (auto simp: run_and_record_def with_console_db_def and_then_def)
      next
        case (Inr a)
        with rr None r w show ?thesis
          by (cases a) (auto simp: run_and_record_def with_console_db_def and_then_def ret_def)
      qed
    qed
    then obtain mid where mid: "mid = [] \<or> (\<exists>log. mid = map Sent log @ [Closed])" and
      s: "case rr of Inl err \<Rightarrow> (\<exists>x. err = DbError x) \<and> cn_trace st3 = cn_trace ?st2 @ Dialled (cc_host cx) (cc_port cx) # mid
         | Inr rs \<Rightarrow> \<exists>n k. cn_trace st3 = cn_trace ?st2 @ Dialled (cc_host cx) (cc_port cx) # mid @ [Audited (QuerySucceeded n k)]"
      by blast
    have "\<exists>outcome. cn_trace st' = cn_trace st @ Audited (attempt_of body ?sc) # Dialled (cc_host cx) (cc_port cx) # mid @ [Audited outcome]
        \<and> succeeded outcome = (\<exists>rs. res = Inr rs)"
    proof (cases rr)
      case (Inr rs)
      with s run' 2(2) show ?thesis by (auto simp: succeeded_def)
    next
      case (Inl err)
      with s obtain x where x: "err = DbError x" by auto
      from run' Inl x have "explain_failure audit code_of (DbError x) st3 = (res, st')" by simp
      from explain_failureE[OF assms(1) this] show ?thesis
        using s Inl 2(2) by (auto simp: isl_def)
    qed
    with mid 2 show ?thesis by blast
  qed
qed

text \<open>
  A run that committed can be answered as a failure. The row of the success is written inside the
  \<open>try\<close>: when that write fails with an SQLSTATE of the platform's own database, the \<open>catch\<close> block
  takes it for the customer's, records the run as failed and answers 400, although every query of
  the run, \<open>COMMIT\<close> included, was executed.
\<close>

theorem committed_run_reported_as_failed:
  fixes code_of :: "'e \<Rightarrow> string option" and st :: "'s console"
  assumes before: "(before_attempt env caller ref parsed :: ('s console, 'e route_error, run_request \<times> console_context) eff) st
      = (Inr (body, cx), st1)"
    and audit: "audit (attempt_of body (classify (rq_sql body))) = None"
    and run: "connect (cn_db st1) = None" "run_script db now body (cn_db st1, []) = (Inr (rs, sc), s', log)"
    and lost: "audit (QuerySucceeded (length rs) (total_rows rs)) = Some e" "code_of e = Some c"
      "sqlstate_of (Some c) = Some c" "c \<notin> set NET_CODES" "audit (QueryFailed (Some c)) = None"
  shows "\<exists>st'. query_route env connect audit code_of db now caller ref parsed st
      = (Inl (Refused (ApiError 400 SQL_ERROR)), st') \<and> cn_db st' = s'
    \<and> cn_trace st' = cn_trace st1 @ Audited (attempt_of body (classify (rq_sql body)))
        # Dialled (cc_host cx) (cc_port cx) # map Sent log @ [Closed, Audited (QueryFailed (Some c))]"
proof -
  let ?a = "attempt_of body (classify (rq_sql body))"
  let ?st3 = "emit (Dialled (cc_host cx) (cc_port cx) # map Sent log @ [Closed]) (emit [Audited ?a] st1)\<lparr>cn_db := s'\<rparr>"
  have "run_and_record connect audit db now cx body (emit [Audited ?a] st1) = (Inl (DbError e), ?st3)"
    using run lost(1) by (simp add: run_and_record_def with_console_db_def and_then_def write_audit_def)
  then show ?thesis
    using query_route_admitted[OF before, of audit connect code_of db now] audit lost by (simp add: explain_failure_def)
qed


subsection \<open>A concrete query\<close>

definition sample_env :: console_env where
  "sample_env = \<lparr>ce_projects = [\<lparr>cp_id = ''p'', cp_ref = ''abc'', cp_org = ''o'', cp_status = ''ready'',
     cp_host = Some ''h'', cp_port = Some 5433\<rparr>], ce_role_of = (\<lambda>u o'. Some Member),
     ce_secret = (\<lambda>p. Some ''pw''), ce_limiter = None\<rparr>"

definition sample_query :: run_request where
  "sample_query = \<lparr>rq_sql = ''SELECT 1'', rq_params = [], rq_role = None, rq_claims = None,
     rq_read_only = False, rq_confirm = False, rq_names = [], rq_timeout = None\<rparr>"

definition sample_client :: "(unit, string, nat) client" where
  "sample_client = (\<lambda>s q vs. (Inr \<lparr>qr_rows = Some [7], qr_count = Some 1, qr_fields = []\<rparr>, s))"

definition sample_console :: "unit console" where
  "sample_console = \<lparr>cn_db = (), cn_counters = \<lparr>co_keys = Map.empty, co_now = 0\<rparr>, cn_trace = []\<rparr>"

definition sample_context :: console_context where
  "sample_context = \<lparr>cc_project = ''p'', cc_ref = ''abc'', cc_org = ''o'', cc_host = ''h'', cc_port = 5433, cc_password = ''pw''\<rparr>"

lemma sample_admitted: "admitted (classify ''SELECT 1'') sample_query"
  by code_simp

lemma sample_context: "console_context sample_env ''abc'' = Inr sample_context"
  by (simp add: console_context_def sample_env_def sample_context_def)

lemma sample_before: "(before_attempt sample_env (Inr (Some ''u'')) ''abc'' (Some sample_query)
    :: (unit console, string route_error, run_request \<times> console_context) eff) sample_console
  = (Inr (sample_query, sample_context), sample_console)"
proof -
  have p: "require_person (Inr (Some ''u'')) = Inr ''u''" by (simp add: require_person_def)
  have b: "body_ok sample_query" "rq_claims sample_query = None" "rq_sql sample_query = ''SELECT 1''"
    by (simp_all add: body_ok_def sample_query_def)
  have m: "require_member_role sample_env ''u'' (cc_org sample_context) = Inr Member"
    by (simp add: require_member_role_def sample_env_def require_cap_def MEMBER_def)
  have l: "(limit_step sample_env ''u'' :: (unit console, string route_error, unit) eff) s = (Inr (), s)" for s
    by (simp add: limit_step_def sample_env_def)
  have c: "(check_request (classify ''SELECT 1'') sample_query :: string run_error + unit) = Inr ()"
    using sample_admitted by (simp add: check_request_admitted)
  show ?thesis
    using b m l c by (simp add: before_attempt_def p from_api_def refuse_if_def guard_def sample_context and_then_def ret_def from_rails_def)
qed

definition never_fails :: "('st, 'e, 'a) eff \<Rightarrow> bool" where
  "never_fails m = (\<forall>s. \<not> isl (fst (m s)))"

lemma never_failsD: "never_fails m \<Longrightarrow> m s \<noteq> (Inl e, s')"
  unfolding never_fails_def by (metis fst_conv isl_def)

lemma never_fails_intros [intro!]:
  "never_fails (ret a)"
  "never_fails m \<Longrightarrow> (\<And>a. never_fails (f a)) \<Longrightarrow> never_fails (and_then m f)"
  "never_fails m \<Longrightarrow> never_fails (on_error m c)"
  "never_fails (send sample_client q vs)"
proof -
  show "never_fails (ret a)" by (simp add: never_fails_def ret_def)
  show "never_fails (send sample_client q vs)"
    unfolding never_fails_def sample_client_def by (auto split: prod.splits)
  show "never_fails (and_then m f)" if "never_fails m" "\<And>a. never_fails (f a)"
    unfolding never_fails_def and_then_def
    using never_failsD[OF that(1)] that(2)[unfolded never_fails_def] by (auto split: prod.splits sum.splits)
  show "never_fails (on_error m c)" if "never_fails m"
    unfolding never_fails_def on_error_def using never_failsD[OF that] by (auto split: prod.splits sum.splits)
qed

lemma never_fails_send_all [intro!]: "never_fails (send_all sample_client qs)"
  by (induction sample_client qs rule: send_all.induct) auto

lemma never_fails_run [intro!]: "never_fails (run_statements sample_client now sc rq cs)"
proof (induction cs)
  case (Cons c cs)
  have "never_fails (run_statement sample_client now sc rq c)"
    unfolding never_fails_def run_statement_def sample_client_def by (auto split: prod.splits)
  with Cons show ?case by auto
qed auto

lemma sample_run: "\<exists>rs sc log. run_script sample_client (\<lambda>_. 0) sample_query ((), []) = (Inr (rs, sc), (), log)
    \<and> (''COMMIT'', []) \<in> set log"
proof -
  have sql: "rq_sql sample_query = ''SELECT 1''" by (simp add: sample_query_def)
  have c: "(check_request (classify ''SELECT 1'') sample_query :: string run_error + unit) = Inr ()"
    using sample_admitted by (simp add: check_request_admitted)
  have tx: "\<not> sc_owns_tx (classify ''SELECT 1'')" by code_simp
  have "never_fails (run_script sample_client (\<lambda>_. 0) sample_query)"
    unfolding run_script_def Let_def sql c by (auto simp: run_body_def apply_settings_def)
  note ok = never_failsD[OF this]
  obtain x u log where x: "run_script sample_client (\<lambda>_. 0) sample_query ((), []) = (x, u, log)" by (rule prod_cases3)
  with ok obtain y where "x = Inr y" by (cases x) auto
  then obtain rs sc where "x = Inr (rs, sc)" by (cases y) auto
  with x have run: "run_script sample_client (\<lambda>_. 0) sample_query ((), []) = (Inr (rs, sc), (), log)" by simp
  have "log = [] @ (''BEGIN'', []) # rails (classify ''SELECT 1'') sample_query"
    using rails_in_order_aux[of sample_query sample_client "\<lambda>_. 0" "()" "[]", unfolded Let_def sql run prod.case]
    by (simp only: sample_admitted tx not_True_eq_False if_False if_True sum.disc simp_thms)
  then have "log = [] @ (''BEGIN'', []) # (rails_before (classify ''SELECT 1'') sample_query
      @ statements_sent (classify ''SELECT 1'') sample_query (sc_statements (classify ''SELECT 1'')) @ [(''COMMIT'', [])])"
    by (simp only: rails_def tx if_False)
  then have "(''COMMIT'', []) \<in> set log" by (simp only: set_append list.set Un_iff insert_iff simp_thms)
  with run show ?thesis by blast
qed

theorem every_run_is_audited_first_witness:
  "\<exists>a mid outcome. cn_trace (snd (query_route sample_env (\<lambda>_. None) (\<lambda>_. None) (\<lambda>_. None) sample_client (\<lambda>_. 0)
       (Inr (Some ''u'')) ''abc'' (Some sample_query) sample_console))
     = Audited a # Dialled ''h'' 5433 # mid @ [Audited outcome]"
proof -
  obtain rs sc log where run: "run_script sample_client (\<lambda>_. 0) sample_query ((), []) = (Inr (rs, sc), (), log)"
    using sample_run by blast
  let ?q = "query_route sample_env (\<lambda>_. None) (\<lambda>_. None) (\<lambda>_. None) sample_client (\<lambda>_. 0)
       (Inr (Some ''u'')) ''abc'' (Some sample_query) sample_console"
  have "\<not> isl (fst ?q)"
    by (subst query_route_admitted[OF sample_before])
       (simp_all add: run_and_record_def with_console_db_def run and_then_def write_audit_def ret_def sample_console_def)
  then show ?thesis
    using every_run_is_audited_first[of "\<lambda>_. None" sample_env "\<lambda>_. None" "\<lambda>_. None" sample_client "\<lambda>_. 0"
        "Inr (Some ''u'')" "''abc''" "Some sample_query" sample_console "fst ?q" "snd ?q"] sample_context
    by (auto simp: sample_console_def sample_context_def)
qed

theorem committed_run_reported_as_failed_witness:
  "\<exists>st'. query_route sample_env (\<lambda>_. None) (\<lambda>a. if succeeded a then Some ''pool'' else None) (\<lambda>_. Some ''53300'')
       sample_client (\<lambda>_. 0) (Inr (Some ''u'')) ''abc'' (Some sample_query) sample_console
     = (Inl (Refused (ApiError 400 SQL_ERROR)), st') \<and> Sent (''COMMIT'', []) \<in> set (cn_trace st')"
proof -
  obtain rs sc log where run: "run_script sample_client (\<lambda>_. 0) sample_query ((), []) = (Inr (rs, sc), (), log)"
    and "(''COMMIT'', []) \<in> set log" using sample_run by blast
  have "sqlstate_of (Some ''53300'') = Some ''53300''" "''53300'' \<notin> set NET_CODES" by code_simp+
  with committed_run_reported_as_failed[OF sample_before, of "\<lambda>a. if succeeded a then Some ''pool'' else None" "\<lambda>_. None"
      sample_client "\<lambda>_. 0" rs sc "()" log "''pool''" "\<lambda>_. Some ''53300''" "''53300''"] run \<open>_ \<in> set log\<close>
  show ?thesis by (auto simp: succeeded_def attempt_of_def)
qed

end
