(* ===== verification/Ids.thy ===== *)
theory Ids
  imports Prelude
begin

text \<open>
  \<open>packages/types/src/ids.ts\<close>: prefixed identifiers on the wire, bare uuids at rest. An
  \<open>InvalidIdError\<close> is the reason it is thrown for.

  Proved: decoding undoes encoding, in whatever case the uuid was written, an identifier of one
  kind never decodes as another, and whatever decodes is a lower-case uuid.
\<close>

datatype id_kind = UserId | OrganizationId | ProjectId | JobId

fun ID_PREFIX :: "id_kind \<Rightarrow> string" where
  "ID_PREFIX UserId = ''usr''"
| "ID_PREFIX OrganizationId = ''org''"
| "ID_PREFIX ProjectId = ''prj''"
| "ID_PREFIX JobId = ''job''"

datatype id_error = CannotEncode | NotAnId | WrongKind | NoUuid

definition is_hex :: "char \<Rightarrow> bool" where
  \<comment> \<open>\<open>[0-9a-f]\<close> under the flag \<open>i\<close>\<close>
  "is_hex c = (is_digit c \<or> (let n = unit_of (lower_char c) in 97 \<le> n \<and> n \<le> 102))"

fun uuid_shape :: "nat list \<Rightarrow> string \<Rightarrow> bool" where
  \<comment> \<open>groups of hex digits of the given sizes, joined by hyphens\<close>
  "uuid_shape [] s = (s = [])"
| "uuid_shape [n] s = (length s = n \<and> list_all is_hex s)"
| "uuid_shape (n # m # ns) s =
     (length s > n \<and> list_all is_hex (take n s) \<and> s ! n = CHR ''-'' \<and> uuid_shape (m # ns) (drop (Suc n) s))"

definition is_uuid :: "string \<Rightarrow> bool" where
  "is_uuid s = uuid_shape [8, 4, 4, 4, 12] s"

definition encodeId :: "id_kind \<Rightarrow> string \<Rightarrow> id_error + string" where
  "encodeId kind uuid =
     (if \<not> is_uuid uuid then Inl CannotEncode
      else Inr (ID_PREFIX kind @ ''_'' @ js_lower uuid))"

definition prefixed_id :: "string \<Rightarrow> (string \<times> string) option" where
  \<comment> \<open>the groups of \<open>/^([a-z]+)_(.+)$/\<close>\<close>
  "prefixed_id s =
     (let p = takeWhile is_lower s in
      case dropWhile is_lower s of
        c # rest \<Rightarrow>
          if p \<noteq> [] \<and> c = CHR ''_'' \<and> rest \<noteq> [] \<and> list_all (\<lambda>d. unit_of d \<noteq> 10 \<and> unit_of d \<noteq> 13) rest
          then Some (p, rest) else None
      | [] \<Rightarrow> None)"

definition decodeId :: "id_kind \<Rightarrow> string \<Rightarrow> id_error + string" where
  "decodeId kind s =
     (if is_uuid s then Inr (js_lower s)
      else case prefixed_id s of
        None \<Rightarrow> Inl NotAnId
      | Some (prefix, rest) \<Rightarrow>
          if prefix \<noteq> ID_PREFIX kind then Inl WrongKind
          else if \<not> is_uuid rest then Inl NoUuid
          else Inr (js_lower rest))"

definition encodeIdMaybe :: "id_kind \<Rightarrow> string option \<Rightarrow> id_error + string option" where
  "encodeIdMaybe kind uuid =
     (case uuid of
        None \<Rightarrow> Inr None
      | Some u \<Rightarrow> if u = [] then Inr None else map_sum id Some (encodeId kind u))"

lemma lower_char_idem [simp]: "lower_char (lower_char c) = lower_char c"
proof -
  have "unit_of (char_of n) = n" if "n < 256" for n :: nat using that by (simp add: unit_of_def)
  then show ?thesis by (auto simp: lower_char_def Let_def)
qed

lemma is_hex_lower [simp]: "is_hex (lower_char c) = is_hex c"
proof -
  have "unit_of (char_of n) = n" if "n < 256" for n :: nat using that by (simp add: unit_of_def)
  then show ?thesis by (auto simp: is_hex_def is_digit_def lower_char_def Let_def)
qed

lemma lower_hyphen [simp]: "lower_char c = CHR ''-'' \<longleftrightarrow> c = CHR ''-''"
proof -
  have "unit_of (char_of n) = n" if "n < 256" for n :: nat using that by (simp add: unit_of_def)
  then have "unit_of (lower_char c) = 45 \<longleftrightarrow> unit_of c = 45" by (auto simp: lower_char_def Let_def)
  moreover have "unit_of x = unit_of CHR ''-'' \<longleftrightarrow> x = CHR ''-''" for x
    unfolding unit_of_def of_char_eq_iff ..
  moreover have "unit_of CHR ''-'' = 45" by (simp add: unit_of_def)
  ultimately show ?thesis by metis
qed

lemma uuid_shape_lower [simp]: "uuid_shape ns (js_lower s) = uuid_shape ns s"
  by (induction ns s rule: uuid_shape.induct)
     (auto simp: js_lower_def list_all_iff take_map drop_map nth_map)

lemma is_uuid_lower [simp]: "is_uuid (js_lower s) = is_uuid s"
  by (simp add: is_uuid_def)

lemma js_lower_idem [simp]: "js_lower (js_lower s) = js_lower s"
  by (simp add: js_lower_def)

lemma uuid_shape_chars: "uuid_shape ns s \<Longrightarrow> c \<in> set s \<Longrightarrow> is_hex c \<or> c = CHR ''-''"
proof (induction ns s rule: uuid_shape.induct)
  case (3 n m ns s)
  then have "set s = set (take n s) \<union> {s ! n} \<union> set (drop (Suc n) s)"
    by (metis Un_insert_right append_take_drop_id id_take_nth_drop list.simps(15) set_append sup_bot.right_neutral uuid_shape.simps(3) sup_assoc insert_is_Un)
  then show ?case using 3 by (auto simp: list_all_iff)
qed (auto simp: list_all_iff)

lemma is_uuid_not_Nil [simp]: "\<not> is_uuid []"
  by (simp add: is_uuid_def)

lemma is_hex_plain: "is_hex c \<Longrightarrow> c \<noteq> CHR ''_'' \<and> unit_of c \<noteq> 10 \<and> unit_of c \<noteq> 13"
  by (auto simp: is_hex_def lower_char_def char_class_defs Let_def split: if_splits)

lemma uuid_chars: "is_uuid s \<Longrightarrow> c \<in> set s \<Longrightarrow> c \<noteq> CHR ''_'' \<and> unit_of c \<noteq> 10 \<and> unit_of c \<noteq> 13"
  unfolding is_uuid_def by (drule (1) uuid_shape_chars) (auto dest: is_hex_plain simp: unit_of_def)

lemma prefix_chars: "takeWhile is_lower (ID_PREFIX k @ CHR ''_'' # s) = ID_PREFIX k"
  "dropWhile is_lower (ID_PREFIX k @ CHR ''_'' # s) = CHR ''_'' # s" "ID_PREFIX k \<noteq> []"
  by (cases k; simp add: char_class_defs)+

lemma ID_PREFIX_inject [simp]: "ID_PREFIX j = ID_PREFIX k \<longleftrightarrow> j = k"
  by (cases j; cases k) auto

lemma prefixed_id_prefix:
  "is_uuid u \<Longrightarrow> prefixed_id (ID_PREFIX k @ ''_'' @ u) = Some (ID_PREFIX k, u)"
  using uuid_chars[of u] is_uuid_not_Nil
  by (auto simp: prefixed_id_def Let_def prefix_chars list_all_iff)

lemma prefixed_not_uuid: "\<not> is_uuid (ID_PREFIX k @ ''_'' @ u)"
  using uuid_chars[of "ID_PREFIX k @ ''_'' @ u" "CHR ''_''"] by auto

lemma decode_encoded:
  "is_uuid u \<Longrightarrow> decodeId j (ID_PREFIX k @ ''_'' @ u) = (if j = k then Inr (js_lower u) else Inl WrongKind)"
  by (auto simp: decodeId_def prefixed_id_prefix prefixed_not_uuid simp del: append_Cons)

lemma decodeId_uuid: "decodeId k s = Inr u \<Longrightarrow> is_uuid u \<and> js_lower u = u"
  by (auto simp: decodeId_def split: if_splits option.splits)

subsection \<open>Properties\<close>

text \<open>
  Identifiers survive the wire: what encodes as an identifier of one kind decodes to the
  same uuid in lower case for that kind, and to a wrong-kind error for every other; a bare uuid
  decodes for every kind, and what is no uuid does not encode.
\<close>

theorem id_roundtrip:
  "(case encodeId k u of
      Inl e \<Rightarrow> \<not> is_uuid u \<and> e = CannotEncode
    | Inr wire \<Rightarrow> is_uuid u \<and> decodeId k u = Inr (js_lower u) \<and>
        decodeId j wire = (if j = k then Inr (js_lower u) else Inl WrongKind))"
  using decode_encoded[of "js_lower u" j k] by (simp add: encodeId_def decodeId_def)

end
