(* ===== verification/Orgs.thy ===== *)
theory Orgs
  imports Authz Ids
begin

text \<open>
  Organizations, membership and invites: \<open>services/api/src/modules/orgs/store.ts\<close> (the
  transactions) and \<open>orgs/routes.ts\<close> (the handlers over them).

  The control-plane database is the record \<open>org_db\<close> of the tables the store reads and writes,
  with the constraints of the migrations: primary keys, the unique slug, the unique
  (organization, email) of an invite, the foreign keys and their \<open>ON DELETE\<close> rules. A query is one
  step of a transaction, a transaction commits all of it or nothing. Random uuids and tokens are
  arguments, the SHA-256 of a token is the parameter \<open>hash\<close>, \<open>now()\<close> is \<open>db_now\<close>, in seconds.
  \<open>citext\<close> columns compare in lower case. Listings keep the table's order; the code sorts them by
  the database's collation.
\<close>

datatype store_error =
    SlugTaken string | OrgNotEmpty nat | LastOwner string | AlreadyMember string
  | UniqueViolation | ForeignKeyViolation

record user_row =
  us_id :: string
  us_email :: string

record org_row =
  og_id :: string
  og_name :: string
  og_slug :: string

record member_row =
  mb_org :: string
  mb_user :: string
  mb_role :: role

record invite_row =
  iv_id :: string
  iv_org :: string
  iv_email :: string
  iv_role :: role
  iv_by :: string
  iv_hash :: string
  iv_expires :: nat
  iv_accepted :: "nat option"
  iv_created :: nat

record project_row =
  pr_id :: string
  pr_org :: string
  pr_status :: string

record audit_row =
  au_user :: string
  au_action :: string
  au_id :: string
  au_org :: string
  au_meta :: "(string \<times> string) list"

record org_db =
  db_users :: "user_row list"
  db_orgs :: "org_row list"
  db_members :: "member_row list"
  db_invites :: "invite_row list"
  db_projects :: "project_row list"
  db_audit :: "audit_row list"
  db_now :: nat

type_synonym 'a store = "(org_db, store_error, 'a) eff"

fun role_text :: "role \<Rightarrow> string" where
  "role_text Owner = ''owner''" | "role_text Admin = ''admin''" | "role_text Member = ''member''"

subsection \<open>Queries\<close>

definition is_member :: "string \<Rightarrow> string \<Rightarrow> member_row \<Rightarrow> bool" where
  "is_member org user m = (mb_org m = org \<and> mb_user m = user)"

definition org_exists :: "org_db \<Rightarrow> string \<Rightarrow> bool" where
  "org_exists db i = list_ex (\<lambda>r. og_id r = i) (db_orgs db)"

definition user_exists :: "org_db \<Rightarrow> string \<Rightarrow> bool" where
  "user_exists db i = list_ex (\<lambda>r. us_id r = i) (db_users db)"

definition find_org :: "string \<Rightarrow> org_db \<Rightarrow> org_row option" where
  "find_org i db = List.find (\<lambda>r. og_id r = i) (db_orgs db)"

definition find_user :: "string \<Rightarrow> org_db \<Rightarrow> user_row option" where
  "find_user i db = List.find (\<lambda>r. us_id r = i) (db_users db)"

definition role_of :: "string \<Rightarrow> string \<Rightarrow> org_db \<Rightarrow> role option" where
  "role_of user org db = map_option mb_role (List.find (is_member org user) (db_members db))"

definition owners :: "string \<Rightarrow> org_db \<Rightarrow> member_row list" where
  "owners org db = filter (\<lambda>m. mb_org m = org \<and> mb_role m = Owner) (db_members db)"

definition project_count :: "string \<Rightarrow> org_db \<Rightarrow> nat" where
  "project_count org db =
     length (filter (\<lambda>p. pr_org p = org \<and> pr_status p \<noteq> ''deleted'') (db_projects db))"

definition record_action :: "string \<Rightarrow> string \<Rightarrow> string \<Rightarrow> string \<Rightarrow> (string \<times> string) list \<Rightarrow> unit store" where
  "record_action actor action i org meta =
     modifies (\<lambda>db. db\<lparr>db_audit := db_audit db @
       [\<lparr>au_user = actor, au_action = action, au_id = i, au_org = org, au_meta = meta\<rparr>]\<rparr>)"

definition insert_org :: "string \<Rightarrow> string \<Rightarrow> string \<Rightarrow> org_row store" where
  "insert_org i name slug db =
     (if org_exists db i \<or> list_ex (\<lambda>r. ci_eq (og_slug r) slug) (db_orgs db)
      then (Inl (SlugTaken slug), db)
      else (let org = \<lparr>og_id = i, og_name = name, og_slug = slug\<rparr>
            in (Inr org, db\<lparr>db_orgs := db_orgs db @ [org]\<rparr>)))"

definition insert_member :: "string \<Rightarrow> string \<Rightarrow> role \<Rightarrow> unit store" where
  "insert_member org user role db =
     (if list_ex (is_member org user) (db_members db) then (Inl UniqueViolation, db)
      else if \<not> org_exists db org \<or> \<not> user_exists db user then (Inl ForeignKeyViolation, db)
      else (Inr (), db\<lparr>db_members := db_members db @
        [\<lparr>mb_org = org, mb_user = user, mb_role = role\<rparr>]\<rparr>))"

definition delete_org :: "string \<Rightarrow> unit store" where
  \<comment> \<open>projects restrict, members and invites cascade\<close>
  "delete_org org db =
     (if list_ex (\<lambda>p. pr_org p = org) (db_projects db) \<and> org_exists db org
      then (Inl ForeignKeyViolation, db)
      else (Inr (), db\<lparr>db_orgs := filter (\<lambda>r. og_id r \<noteq> org) (db_orgs db),
        db_members := filter (\<lambda>m. mb_org m \<noteq> org) (db_members db),
        db_invites := filter (\<lambda>v. iv_org v \<noteq> org) (db_invites db)\<rparr>))"

definition update_member :: "string \<Rightarrow> string \<Rightarrow> role \<Rightarrow> org_db \<Rightarrow> org_db" where
  "update_member org user role db =
     db\<lparr>db_members := map (\<lambda>m. if is_member org user m then m\<lparr>mb_role := role\<rparr> else m) (db_members db)\<rparr>"

definition delete_member :: "string \<Rightarrow> string \<Rightarrow> org_db \<Rightarrow> org_db" where
  "delete_member org user db =
     db\<lparr>db_members := filter (\<lambda>m. \<not> is_member org user m) (db_members db)\<rparr>"

definition assert_not_last_owner :: "string \<Rightarrow> unit store" where
  "assert_not_last_owner org db =
     (if length (owners org db) \<le> 1 then (Inl (LastOwner org), db) else (Inr (), db))"

definition INVITE_TTL :: nat where
  \<comment> \<open>seven days\<close>
  "INVITE_TTL = 7 * 24 * 60 * 60"

definition same_invite :: "string \<Rightarrow> string \<Rightarrow> invite_row \<Rightarrow> bool" where
  "same_invite org email v = (iv_org v = org \<and> ci_eq (iv_email v) email)"

definition upsert_invite :: "string \<Rightarrow> string \<Rightarrow> string \<Rightarrow> role \<Rightarrow> string \<Rightarrow> string \<Rightarrow> invite_row store" where
  "upsert_invite i org email role by hashed db =
     (if \<not> org_exists db org \<or> \<not> user_exists db by then (Inl ForeignKeyViolation, db)
      else case List.find (same_invite org email) (db_invites db) of
        Some v \<Rightarrow>
          (let v' = v\<lparr>iv_role := role, iv_by := by, iv_hash := hashed,
                 iv_expires := db_now db + INVITE_TTL, iv_accepted := None, iv_created := db_now db\<rparr>
           in (Inr v', db\<lparr>db_invites := map (\<lambda>w. if same_invite org email w then v' else w) (db_invites db)\<rparr>))
      | None \<Rightarrow>
          if list_ex (\<lambda>v. iv_id v = i) (db_invites db) then (Inl UniqueViolation, db)
          else (let v = \<lparr>iv_id = i, iv_org = org, iv_email = email, iv_role = role, iv_by = by,
                  iv_hash = hashed, iv_expires = db_now db + INVITE_TTL, iv_accepted = None,
                  iv_created = db_now db\<rparr>
                in (Inr v, db\<lparr>db_invites := db_invites db @ [v]\<rparr>)))"

definition live_invite :: "nat \<Rightarrow> invite_row \<Rightarrow> bool" where
  "live_invite now v = (iv_accepted v = None \<and> iv_expires v > now)"

subsection \<open>The store\<close>

definition store_create :: "string \<Rightarrow> string \<Rightarrow> string \<Rightarrow> string \<Rightarrow> org_row store" where
  "store_create i name slug user = transaction
     (and_then (insert_org i name slug) (\<lambda>org.
      and_then (insert_member i user Owner) (\<lambda>_.
      and_then (record_action user ''org.created'' i i [(''name'', name), (''slug'', slug)]) (\<lambda>_.
      ret org))))"

definition store_rename :: "string \<Rightarrow> string \<Rightarrow> string \<Rightarrow> org_row option store" where
  "store_rename org name actor = transaction
     (and_then (modifies (\<lambda>db. db\<lparr>db_orgs :=
         map (\<lambda>r. if og_id r = org then r\<lparr>og_name := name\<rparr> else r) (db_orgs db)\<rparr>)) (\<lambda>_.
      and_then (gets (find_org org)) (\<lambda>found.
      case found of
        None \<Rightarrow> ret None
      | Some r \<Rightarrow> and_then (record_action actor ''org.updated'' org org [(''name'', name)]) (\<lambda>_. ret (Some r)))))"

definition store_remove :: "string \<Rightarrow> string \<Rightarrow> unit store" where
  "store_remove org actor = transaction
     (and_then (gets (project_count org)) (\<lambda>n.
      and_then (guard (n = 0) (OrgNotEmpty n)) (\<lambda>_.
      and_then (record_action actor ''org.deleted'' org org []) (\<lambda>_.
      delete_org org))))"

definition store_set_role :: "string \<Rightarrow> string \<Rightarrow> role \<Rightarrow> string \<Rightarrow> role option store" where
  "store_set_role org user role actor = transaction
     (and_then (gets (role_of user org)) (\<lambda>current.
      case current of
        None \<Rightarrow> ret None
      | Some previous \<Rightarrow>
          and_then (if previous = Owner \<and> role \<noteq> Owner then assert_not_last_owner org else ret ()) (\<lambda>_.
          and_then (modifies (update_member org user role)) (\<lambda>_.
          and_then (record_action actor ''member.role_changed'' user org
              [(''from'', role_text previous), (''to'', role_text role)]) (\<lambda>_.
          ret (Some previous))))))"

definition store_remove_member :: "string \<Rightarrow> string \<Rightarrow> string \<Rightarrow> role option store" where
  "store_remove_member org user actor = transaction
     (and_then (gets (role_of user org)) (\<lambda>current.
      case current of
        None \<Rightarrow> ret None
      | Some role \<Rightarrow>
          and_then (if role = Owner then assert_not_last_owner org else ret ()) (\<lambda>_.
          and_then (modifies (delete_member org user)) (\<lambda>_.
          and_then (record_action actor ''member.removed'' user org [(''role'', role_text role)]) (\<lambda>_.
          ret (Some role))))))"

definition member_with_email :: "string \<Rightarrow> string \<Rightarrow> org_db \<Rightarrow> bool" where
  "member_with_email org email db =
     list_ex (\<lambda>m. mb_org m = org \<and> list_ex (\<lambda>u. us_id u = mb_user m \<and> ci_eq (us_email u) email) (db_users db))
       (db_members db)"

definition store_invite :: "(string \<Rightarrow> string) \<Rightarrow> string \<Rightarrow> string \<Rightarrow> string \<Rightarrow> string \<Rightarrow> role \<Rightarrow> string
    \<Rightarrow> (invite_row \<times> string) store" where
  "store_invite hash i token org email role by = transaction
     (and_then (gets (member_with_email org email)) (\<lambda>existing.
      and_then (guard (\<not> existing) (AlreadyMember email)) (\<lambda>_.
      and_then (upsert_invite i org email role by (hash token)) (\<lambda>v.
      and_then (record_action by ''member.invited'' (iv_id v) org
          [(''email'', email), (''role'', role_text role)]) (\<lambda>_.
      ret (v, token))))))"

definition store_list_invites :: "string \<Rightarrow> org_db \<Rightarrow> invite_row list" where
  "store_list_invites org db = filter (\<lambda>v. iv_org v = org \<and> live_invite (db_now db) v) (db_invites db)"

definition store_revoke_invite :: "string \<Rightarrow> string \<Rightarrow> string \<Rightarrow> bool store" where
  "store_revoke_invite org i actor = transaction
     (and_then (gets (\<lambda>db. list_ex (\<lambda>v. iv_id v = i \<and> iv_org v = org) (db_invites db))) (\<lambda>found.
      and_then (modifies (\<lambda>db. db\<lparr>db_invites :=
          filter (\<lambda>v. \<not> (iv_id v = i \<and> iv_org v = org)) (db_invites db)\<rparr>)) (\<lambda>_.
      if \<not> found then ret False
      else and_then (record_action actor ''member.invite_revoked'' i org []) (\<lambda>_. ret True))))"

definition join_member :: "string \<Rightarrow> string \<Rightarrow> role \<Rightarrow> unit store" where
  \<comment> \<open>\<open>INSERT ... ON CONFLICT DO NOTHING\<close>\<close>
  "join_member org user role db =
     (if list_ex (is_member org user) (db_members db) then (Inr (), db) else insert_member org user role db)"

definition store_accept_invite :: "(string \<Rightarrow> string) \<Rightarrow> string \<Rightarrow> string \<Rightarrow> string
    \<Rightarrow> (string \<times> role) option store" where
  "store_accept_invite hash token user email = transaction
     (and_then (gets (\<lambda>db. List.find (\<lambda>v. iv_hash v = hash token \<and> live_invite (db_now db) v) (db_invites db))) (\<lambda>found.
      case found of
        None \<Rightarrow> ret None
      | Some v \<Rightarrow>
          if js_lower (iv_email v) \<noteq> js_lower email then ret None
          else
            and_then (join_member (iv_org v) user (iv_role v)) (\<lambda>_.
            and_then (modifies (\<lambda>db. db\<lparr>db_invites :=
                map (\<lambda>w. if iv_id w = iv_id v then w\<lparr>iv_accepted := Some (db_now db)\<rparr> else w) (db_invites db)\<rparr>)) (\<lambda>_.
            and_then (record_action user ''member.joined'' user (iv_org v)
                [(''role'', role_text (iv_role v)), (''via'', ''invite'')]) (\<lambda>_.
            ret (Some (iv_org v, iv_role v)))))))"

subsection \<open>The routes\<close>

text \<open>
  A handler gets the caller as \<open>resolvePrincipal\<close> answers it: \<open>None\<close> is the static token, which is
  no user. Path parameters arrive as text and are decoded by \<open>Ids\<close>, but that the id of an invite
  to revoke goes to the database as it is (PostgreSQL refuses one that is no uuid, which is not
  modelled); responses carry the rows rather than their JSON.
\<close>

datatype org_request =
    CreateOrg string string string
  | ListOrgs
  | GetOrg string
  | RenameOrg string string
  | DeleteOrg string
  | ListMembers string
  | SetRole string string role
  | RemoveMember string string
  | CreateInvite string string role string string
  | ListInvites string
  | RevokeInvite string string
  | AcceptInvite string

datatype org_response =
    OrgIs org_row role
  | OrgsAre "(org_row \<times> role \<times> nat \<times> nat) list"
  | NoContent
  | MembersAre "(member_row \<times> user_row) list"
  | RoleIs string role role
  | InviteIs invite_row string
  | InvitesAre "invite_row list"
  | JoinedAs string role

type_synonym 'a handler = "(org_db, api_error, 'a) eff"

definition require_user :: "string option \<Rightarrow> string handler" where
  "require_user p = (case p of None \<Rightarrow> throw (ApiError 403 UNAUTHORIZED) | Some u \<Rightarrow> ret u)"

definition decode_param :: "id_kind \<Rightarrow> string \<Rightarrow> string handler" where
  "decode_param kind raw = (case decodeId kind raw of Inl _ \<Rightarrow> throw validation | Inr i \<Rightarrow> ret i)"

definition require_membership :: "string option \<Rightarrow> string \<Rightarrow> (string \<times> string \<times> role) handler" where
  "require_membership p raw =
     and_then (require_user p) (\<lambda>user.
     and_then (decode_param OrganizationId raw) (\<lambda>org.
     and_then (gets (role_of user org)) (\<lambda>r.
     case r of
       None \<Rightarrow> throw (ApiError 404 PROJECT_NOT_FOUND)
     | Some role \<Rightarrow> ret (user, org, role))))"

definition require_role :: "role \<Rightarrow> capability \<Rightarrow> unit handler" where
  "require_role role c = (case require_cap (Some role) c of Inl e \<Rightarrow> throw e | Inr _ \<Rightarrow> ret ())"

definition name_ok :: "string \<Rightarrow> bool" where
  "name_ok s = (1 \<le> length s \<and> length s \<le> 120)"

definition slug_char :: "char \<Rightarrow> bool" where
  "slug_char c = (is_lower c \<or> is_digit c \<or> c = CHR ''-'')"

definition slug_ok :: "string \<Rightarrow> bool" where
  \<comment> \<open>\<open>/^[a-z0-9][a-z0-9-]{1,38}[a-z0-9]$/\<close>\<close>
  "slug_ok s = (3 \<le> length s \<and> length s \<le> 40 \<and> list_all slug_char s \<and>
     hd s \<noteq> CHR ''-'' \<and> last s \<noteq> CHR ''-'')"

fun store_status :: "store_error \<Rightarrow> api_error" where
  "store_status (SlugTaken _) = ApiError 409 VALIDATION_FAILED"
| "store_status (OrgNotEmpty _) = ApiError 409 VALIDATION_FAILED"
| "store_status (AlreadyMember _) = ApiError 409 VALIDATION_FAILED"
| "store_status (LastOwner _) = ApiError 409 LAST_OWNER"
| "store_status UniqueViolation = ApiError 500 INTERNAL"
| "store_status ForeignKeyViolation = ApiError 500 INTERNAL"

definition create_org :: "string option \<Rightarrow> string \<Rightarrow> string \<Rightarrow> string \<Rightarrow> org_response handler" where
  "create_org p new_id name slug =
     and_then (require_user p) (\<lambda>user.
     and_then (guard (name_ok name \<and> slug_ok slug) validation) (\<lambda>_.
     and_then (lift_error store_status (store_create new_id name slug user)) (\<lambda>org.
     ret (OrgIs org Owner))))"

definition list_for_user :: "string \<Rightarrow> org_db \<Rightarrow> (org_row \<times> role \<times> nat \<times> nat) list" where
  "list_for_user user db =
     concat (map (\<lambda>m. map (\<lambda>og. (og, mb_role m,
         length (filter (\<lambda>x. mb_org x = og_id og) (db_members db)), project_count (og_id og) db))
       (filter (\<lambda>og. og_id og = mb_org m) (db_orgs db)))
     (filter (\<lambda>m. mb_user m = user) (db_members db)))"

definition list_orgs :: "string option \<Rightarrow> org_response handler" where
  "list_orgs p = and_then (require_user p) (\<lambda>user.
     and_then (gets (list_for_user user)) (\<lambda>orgs. ret (OrgsAre orgs)))"

definition get_org :: "string option \<Rightarrow> string \<Rightarrow> org_response handler" where
  "get_org p raw =
     and_then (require_membership p raw) (\<lambda>(user, org, role).
     and_then (require_role role OrgRead) (\<lambda>_.
     and_then (gets (find_org org)) (\<lambda>r.
     case r of None \<Rightarrow> throw not_found | Some row \<Rightarrow> ret (OrgIs row role))))"

definition rename_org :: "string option \<Rightarrow> string \<Rightarrow> string \<Rightarrow> org_response handler" where
  "rename_org p raw name =
     and_then (require_membership p raw) (\<lambda>(user, org, role).
     and_then (require_role role OrgUpdate) (\<lambda>_.
     and_then (guard (name_ok name) validation) (\<lambda>_.
     and_then (lift_error store_status (store_rename org name user)) (\<lambda>r.
     case r of None \<Rightarrow> throw not_found | Some row \<Rightarrow> ret (OrgIs row role)))))"

definition delete_org_route :: "string option \<Rightarrow> string \<Rightarrow> org_response handler" where
  "delete_org_route p raw =
     and_then (require_membership p raw) (\<lambda>(user, org, role).
     and_then (require_role role OrgDelete) (\<lambda>_.
     and_then (lift_error store_status (store_remove org user)) (\<lambda>_. ret NoContent)))"

definition store_members :: "string \<Rightarrow> org_db \<Rightarrow> (member_row \<times> user_row) list" where
  "store_members org db =
     concat (map (\<lambda>m. map (\<lambda>u. (m, u)) (filter (\<lambda>u. us_id u = mb_user m) (db_users db)))
       (filter (\<lambda>m. mb_org m = org) (db_members db)))"

definition list_members :: "string option \<Rightarrow> string \<Rightarrow> org_response handler" where
  "list_members p raw =
     and_then (require_membership p raw) (\<lambda>(user, org, role).
     and_then (require_role role MemberRead) (\<lambda>_.
     and_then (gets (store_members org)) (\<lambda>ms. ret (MembersAre ms))))"

definition check_target :: "string \<Rightarrow> role \<Rightarrow> string \<Rightarrow> unit handler" where
  \<comment> \<open>\<open>members.find(...)\<close> and \<open>canActOn\<close>, as both member routes have it\<close>
  "check_target org role target =
     and_then (gets (store_members org)) (\<lambda>ms.
     case List.find (\<lambda>(m, u). mb_user m = target) ms of
       None \<Rightarrow> throw not_found
     | Some (m, u) \<Rightarrow> guard (canActOn role (mb_role m)) (ApiError 403 UNAUTHORIZED))"

definition set_role_check :: "string option \<Rightarrow> string \<Rightarrow> string \<Rightarrow> role \<Rightarrow> (string \<times> string \<times> string) handler" where
  \<comment> \<open>everything the route does before the transaction\<close>
  "set_role_check p raw raw_user new_role =
     and_then (require_membership p raw) (\<lambda>(user, org, role).
     and_then (require_role role MemberRoleChange) (\<lambda>_.
     and_then (decode_param UserId raw_user) (\<lambda>target.
     and_then (guard (canAssignRole role new_role) (ApiError 403 UNAUTHORIZED)) (\<lambda>_.
     and_then (check_target org role target) (\<lambda>_. ret (user, org, target))))))"

definition set_role_write :: "role \<Rightarrow> string \<times> string \<times> string \<Rightarrow> org_response handler" where
  "set_role_write new_role = (\<lambda>(user, org, target).
     and_then (lift_error store_status (store_set_role org target new_role user)) (\<lambda>r.
     case r of None \<Rightarrow> throw not_found | Some previous \<Rightarrow> ret (RoleIs target new_role previous)))"

definition set_role :: "string option \<Rightarrow> string \<Rightarrow> string \<Rightarrow> role \<Rightarrow> org_response handler" where
  "set_role p raw raw_user new_role =
     and_then (set_role_check p raw raw_user new_role) (set_role_write new_role)"

definition remove_member :: "string option \<Rightarrow> string \<Rightarrow> string \<Rightarrow> org_response handler" where
  "remove_member p raw raw_user =
     and_then (require_membership p raw) (\<lambda>(user, org, role).
     and_then (decode_param UserId raw_user) (\<lambda>target.
     and_then (if target \<noteq> user
         then and_then (require_role role MemberRemove) (\<lambda>_. check_target org role target)
         else ret ()) (\<lambda>_.
     and_then (lift_error store_status (store_remove_member org target user)) (\<lambda>r.
     case r of None \<Rightarrow> throw not_found | Some _ \<Rightarrow> ret NoContent))))"

definition create_invite :: "(string \<Rightarrow> string) \<Rightarrow> (string \<Rightarrow> bool) \<Rightarrow> string option \<Rightarrow> string \<Rightarrow> string \<Rightarrow> role
    \<Rightarrow> string \<Rightarrow> string \<Rightarrow> org_response handler" where
  "create_invite hash email_ok p raw email new_role new_id token =
     and_then (require_membership p raw) (\<lambda>(user, org, role).
     and_then (require_role role MemberInvite) (\<lambda>_.
     and_then (guard (email_ok email \<and> length email \<le> 320) validation) (\<lambda>_.
     and_then (guard (canAssignRole role new_role) (ApiError 403 UNAUTHORIZED)) (\<lambda>_.
     and_then (lift_error store_status
       (store_invite hash new_id token org (js_lower (js_trim email)) new_role user)) (\<lambda>(v, t).
     ret (InviteIs v t))))))"

definition list_invites :: "string option \<Rightarrow> string \<Rightarrow> org_response handler" where
  "list_invites p raw =
     and_then (require_membership p raw) (\<lambda>(user, org, role).
     and_then (require_role role MemberRead) (\<lambda>_.
     and_then (gets (store_list_invites org)) (\<lambda>vs. ret (InvitesAre vs))))"

definition revoke_invite :: "string option \<Rightarrow> string \<Rightarrow> string \<Rightarrow> org_response handler" where
  "revoke_invite p raw i =
     and_then (require_membership p raw) (\<lambda>(user, org, role).
     and_then (require_role role MemberInvite) (\<lambda>_.
     and_then (lift_error store_status (store_revoke_invite org i user)) (\<lambda>revoked.
     if revoked then ret NoContent else throw not_found)))"

definition accept_invite :: "(string \<Rightarrow> string) \<Rightarrow> string option \<Rightarrow> string \<Rightarrow> org_response handler" where
  "accept_invite hash p token =
     and_then (require_user p) (\<lambda>user.
     and_then (guard (8 \<le> length token \<and> length token \<le> 200) validation) (\<lambda>_.
     and_then (gets (find_user user)) (\<lambda>u.
     case u of
       None \<Rightarrow> throw unauthorized
     | Some row \<Rightarrow>
         and_then (lift_error store_status (store_accept_invite hash token user (us_email row))) (\<lambda>r.
         case r of
           None \<Rightarrow> throw (ApiError 404 PROJECT_NOT_FOUND)
         | Some (org, role) \<Rightarrow> ret (JoinedAs org role)))))"

definition handle :: "(string \<Rightarrow> string) \<Rightarrow> (string \<Rightarrow> bool) \<Rightarrow> string option \<Rightarrow> org_request \<Rightarrow> org_response handler" where
  "handle hash email_ok p req =
     (case req of
        CreateOrg i name slug \<Rightarrow> create_org p i name slug
      | ListOrgs \<Rightarrow> list_orgs p
      | GetOrg raw \<Rightarrow> get_org p raw
      | RenameOrg raw name \<Rightarrow> rename_org p raw name
      | DeleteOrg raw \<Rightarrow> delete_org_route p raw
      | ListMembers raw \<Rightarrow> list_members p raw
      | SetRole raw user role \<Rightarrow> set_role p raw user role
      | RemoveMember raw user \<Rightarrow> remove_member p raw user
      | CreateInvite raw email role i token \<Rightarrow> create_invite hash email_ok p raw email role i token
      | ListInvites raw \<Rightarrow> list_invites p raw
      | RevokeInvite raw i \<Rightarrow> revoke_invite p raw i
      | AcceptInvite token \<Rightarrow> accept_invite hash p token)"

subsection \<open>The invariant\<close>

definition member_key :: "member_row \<Rightarrow> string \<times> string" where
  "member_key m = (mb_org m, mb_user m)"

definition invite_key :: "invite_row \<Rightarrow> string \<times> string" where
  "invite_key v = (iv_org v, js_lower (iv_email v))"

definition rows_ok :: "org_db \<Rightarrow> bool" where
  \<comment> \<open>the constraints of the schema\<close>
  "rows_ok db =
     (distinct (map member_key (db_members db)) \<and> distinct (map invite_key (db_invites db)) \<and>
      distinct (map iv_id (db_invites db)) \<and>
      list_all (\<lambda>m. org_exists db (mb_org m) \<and> user_exists db (mb_user m)) (db_members db) \<and>
      list_all (\<lambda>v. org_exists db (iv_org v)) (db_invites db) \<and>
      list_all (\<lambda>p. org_exists db (pr_org p)) (db_projects db))"

definition owned :: "org_db \<Rightarrow> bool" where
  "owned db = list_all (\<lambda>r. owners (og_id r) db \<noteq> []) (db_orgs db)"

definition org_inv :: "org_db \<Rightarrow> bool" where
  "org_inv db = (rows_ok db \<and> owned db)"

inductive org_step :: "(string \<Rightarrow> string) \<Rightarrow> org_db \<Rightarrow> org_db \<Rightarrow> bool" for hash where
  created: "store_create i name slug user db = (r, db') \<Longrightarrow> org_step hash db db'"
| renamed: "store_rename org name actor db = (r, db') \<Longrightarrow> org_step hash db db'"
| removed: "store_remove org actor db = (r, db') \<Longrightarrow> org_step hash db db'"
| role_set: "store_set_role org user role actor db = (r, db') \<Longrightarrow> org_step hash db db'"
| member_removed: "store_remove_member org user actor db = (r, db') \<Longrightarrow> org_step hash db db'"
| invited: "store_invite hash i token org email role by db = (r, db') \<Longrightarrow> org_step hash db db'"
| revoked: "store_revoke_invite org i actor db = (r, db') \<Longrightarrow> org_step hash db db'"
| accepted: "store_accept_invite hash token user email db = (r, db') \<Longrightarrow> org_step hash db db'"
| registered: "org_step hash db (db\<lparr>db_users := db_users db @ [u]\<rparr>)"
| project_created: "org_exists db (pr_org p) \<Longrightarrow> org_step hash db (db\<lparr>db_projects := db_projects db @ [p]\<rparr>)"
| project_moved: "org_step hash db (db\<lparr>db_projects :=
    map (\<lambda>p. if pr_id p = i then p\<lparr>pr_status := status\<rparr> else p) (db_projects db)\<rparr>)"
| clock: "org_step hash db (db\<lparr>db_now := db_now db + n\<rparr>)"

inductive_cases org_stepE: "org_step hash db db'"

lemma store_create_effect:
  assumes "store_create i name slug user db = (r, db')"
  obtains "isl r" "db' = db"
  | "r = Inr \<lparr>og_id = i, og_name = name, og_slug = slug\<rparr>" "\<not> org_exists db i" "user_exists db user"
    "db' = db\<lparr>db_orgs := db_orgs db @ [\<lparr>og_id = i, og_name = name, og_slug = slug\<rparr>],
       db_members := db_members db @ [\<lparr>mb_org = i, mb_user = user, mb_role = Owner\<rparr>],
       db_audit := db_audit db @ [\<lparr>au_user = user, au_action = ''org.created'', au_id = i, au_org = i,
         au_meta = [(''name'', name), (''slug'', slug)]\<rparr>]\<rparr>"
proof -
  consider "org_exists db i \<or> list_ex (\<lambda>r. ci_eq (og_slug r) slug) (db_orgs db)"
    | "\<not> (org_exists db i \<or> list_ex (\<lambda>r. ci_eq (og_slug r) slug) (db_orgs db))"
      "list_ex (is_member i user) (db_members db) \<or> \<not> user_exists db user"
    | "\<not> (org_exists db i \<or> list_ex (\<lambda>r. ci_eq (og_slug r) slug) (db_orgs db))"
      "\<not> list_ex (is_member i user) (db_members db)" "user_exists db user"
    by blast
  then show thesis
  proof cases
    case 1
    then have "(r, db') = (Inl (SlugTaken slug), db)"
      using assms by (simp add: store_create_def eff_defs insert_org_def)
    then show thesis using that(1) by simp
  next
    case 2
    then have "isl r \<and> db' = db"
      using assms by (auto simp: store_create_def eff_defs insert_org_def insert_member_def user_exists_def Let_def split: if_splits)
    then show thesis using that(1) by blast
  next
    case 3
    then show thesis
      using assms that(2) by (simp add: store_create_def eff_defs insert_org_def insert_member_def
          record_action_def org_exists_def user_exists_def Let_def)
  qed
qed

lemma store_rename_effect:
  assumes "store_rename org name actor db = (r, db')"
  shows "db_orgs db' = map (\<lambda>r. if og_id r = org then r\<lparr>og_name := name\<rparr> else r) (db_orgs db)"
    "db_members db' = db_members db" "db_users db' = db_users db" "db_invites db' = db_invites db"
    "db_projects db' = db_projects db"
  using assms
  by (auto simp: store_rename_def eff_defs record_action_def split: option.splits)

lemma store_remove_effect:
  assumes "store_remove org actor db = (r, db')"
  obtains "isl r" "db' = db"
  | "r = Inr ()" "project_count org db = 0" "\<not> (list_ex (\<lambda>p. pr_org p = org) (db_projects db) \<and> org_exists db org)"
    "db' = db\<lparr>db_orgs := filter (\<lambda>r. og_id r \<noteq> org) (db_orgs db),
        db_members := filter (\<lambda>m. mb_org m \<noteq> org) (db_members db),
        db_invites := filter (\<lambda>v. iv_org v \<noteq> org) (db_invites db),
        db_audit := db_audit db @ [\<lparr>au_user = actor, au_action = ''org.deleted'', au_id = org, au_org = org, au_meta = []\<rparr>]\<rparr>"
  using assms
  by (auto simp: store_remove_def eff_defs record_action_def delete_org_def org_exists_def split: if_splits)

lemma store_set_role_effect:
  assumes "store_set_role org user role actor db = (r, db')"
  obtains "isl r \<or> r = Inr None" "db' = db"
  | previous where "r = Inr (Some previous)" "role_of user org db = Some previous"
    "previous = Owner \<and> role \<noteq> Owner \<longrightarrow> 1 < length (owners org db)"
    "db' = (update_member org user role db)\<lparr>db_audit := db_audit db @
       [\<lparr>au_user = actor, au_action = ''member.role_changed'', au_id = user, au_org = org,
         au_meta = [(''from'', role_text previous), (''to'', role_text role)]\<rparr>]\<rparr>"
  using assms
  by (auto simp: store_set_role_def eff_defs record_action_def assert_not_last_owner_def update_member_def
      split: if_splits option.splits)

lemma store_remove_member_effect:
  assumes "store_remove_member org user actor db = (r, db')"
  obtains "isl r \<or> r = Inr None" "db' = db"
  | previous where "r = Inr (Some previous)" "role_of user org db = Some previous"
    "previous = Owner \<longrightarrow> 1 < length (owners org db)"
    "db' = (delete_member org user db)\<lparr>db_audit := db_audit db @
       [\<lparr>au_user = actor, au_action = ''member.removed'', au_id = user, au_org = org,
         au_meta = [(''role'', role_text previous)]\<rparr>]\<rparr>"
  using assms
  by (auto simp: store_remove_member_def eff_defs record_action_def assert_not_last_owner_def delete_member_def
      split: if_splits option.splits)

lemma store_invite_effect:
  assumes "store_invite hash i token org email role by db = (r, db')"
  obtains "isl r" "db' = db"
  | v db1 a where "r = Inr (v, token)" "\<not> member_with_email org email db"
     "upsert_invite i org email role by (hash token) db = (Inr v, db1)" "db' = db1\<lparr>db_audit := a\<rparr>"
  using assms
  by (auto simp: store_invite_def eff_defs record_action_def split: if_splits sum.splits prod.splits)

lemma store_revoke_effect:
  assumes "store_revoke_invite org i actor db = (r, db')"
  shows "db_invites db' = filter (\<lambda>v. \<not> (iv_id v = i \<and> iv_org v = org)) (db_invites db)"
    "db_members db' = db_members db" "db_users db' = db_users db" "db_orgs db' = db_orgs db"
    "db_projects db' = db_projects db"
  using assms
  by (auto simp: store_revoke_invite_def eff_defs record_action_def split: if_splits)

lemma store_accept_effect:
  assumes "store_accept_invite hash token user email db = (r, db')"
  obtains "isl r \<or> r = Inr None" "db' = db"
  | v db1 where "r = Inr (Some (iv_org v, iv_role v))"
    "List.find (\<lambda>v. iv_hash v = hash token \<and> live_invite (db_now db) v) (db_invites db) = Some v"
    "js_lower (iv_email v) = js_lower email"
    "join_member (iv_org v) user (iv_role v) db = (Inr (), db1)"
    "db' = db1\<lparr>db_invites := map (\<lambda>w. if iv_id w = iv_id v then w\<lparr>iv_accepted := Some (db_now db1)\<rparr> else w) (db_invites db1),
       db_audit := db_audit db1 @ [\<lparr>au_user = user, au_action = ''member.joined'', au_id = user, au_org = iv_org v,
         au_meta = [(''role'', role_text (iv_role v)), (''via'', ''invite'')]\<rparr>]\<rparr>"
  using assms
  by (auto simp: store_accept_invite_def eff_defs record_action_def split: if_splits sum.splits prod.splits option.splits)

lemmas store_effects = store_create_effect store_rename_effect store_remove_effect store_set_role_effect
  store_remove_member_effect store_invite_effect store_revoke_effect store_accept_effect

lemma org_exists_iff: "org_exists db i \<longleftrightarrow> i \<in> og_id ` set (db_orgs db)"
  by (auto simp: org_exists_def list_ex_iff)

lemma user_exists_iff: "user_exists db i \<longleftrightarrow> i \<in> us_id ` set (db_users db)"
  by (auto simp: user_exists_def list_ex_iff)

definition owner_orgs :: "member_row list \<Rightarrow> string set" where
  "owner_orgs ms = mb_org ` {m \<in> set ms. mb_role m = Owner}"

lemma owners_nonempty: "owners org db \<noteq> [] \<longleftrightarrow> org \<in> owner_orgs (db_members db)"
  by (auto simp: owners_def owner_orgs_def filter_empty_conv)

lemma org_inv_sets:
  "org_inv db \<longleftrightarrow>
     distinct (map member_key (db_members db)) \<and> distinct (map invite_key (db_invites db)) \<and>
     distinct (map iv_id (db_invites db)) \<and>
     mb_org ` set (db_members db) \<subseteq> og_id ` set (db_orgs db) \<and>
     mb_user ` set (db_members db) \<subseteq> us_id ` set (db_users db) \<and>
     iv_org ` set (db_invites db) \<subseteq> og_id ` set (db_orgs db) \<and>
     pr_org ` set (db_projects db) \<subseteq> og_id ` set (db_orgs db) \<and>
     og_id ` set (db_orgs db) \<subseteq> owner_orgs (db_members db)"
  unfolding org_inv_def rows_ok_def owned_def owners_nonempty list_all_iff org_exists_iff user_exists_iff
    image_subset_iff ball_conj_distrib
  by (simp only: conj_assoc)

lemma member_key_fst: "mb_org m = fst (member_key m)" "mb_user m = snd (member_key m)"
  by (simp_all add: member_key_def)

lemma invite_key_fst: "iv_org v = fst (invite_key v)"
  by (simp add: invite_key_def)

lemma org_inv_mono:
  assumes "org_inv db" "map member_key (db_members db') = map member_key (db_members db)"
    "map invite_key (db_invites db') = map invite_key (db_invites db)"
    "map iv_id (db_invites db') = map iv_id (db_invites db)"
    "map og_id (db_orgs db') = map og_id (db_orgs db)" "set (db_users db) \<subseteq> set (db_users db')"
    "map pr_org (db_projects db') = map pr_org (db_projects db)"
    "owner_orgs (db_members db) \<subseteq> owner_orgs (db_members db')"
  shows "org_inv db'"
proof -
  have "map mb_org (db_members db') = map mb_org (db_members db)" "map mb_user (db_members db') = map mb_user (db_members db)"
    "map iv_org (db_invites db') = map iv_org (db_invites db)"
    using arg_cong[OF assms(2), of "map fst"] arg_cong[OF assms(2), of "map snd"] arg_cong[OF assms(3), of "map fst"]
    by (simp_all add: member_key_def invite_key_def comp_def)
  then have e: "set (map mb_org (db_members db')) = set (map mb_org (db_members db))"
    "set (map mb_user (db_members db')) = set (map mb_user (db_members db))"
    "set (map iv_org (db_invites db')) = set (map iv_org (db_invites db))"
    "set (map og_id (db_orgs db')) = set (map og_id (db_orgs db))"
    "set (map pr_org (db_projects db')) = set (map pr_org (db_projects db))"
    using assms(5,7) by argo+
  have "us_id ` set (db_users db) \<subseteq> us_id ` set (db_users db')" using assms(6) by (rule image_mono)
  then show ?thesis
    using assms(1,8) unfolding org_inv_sets assms(2-4) e[unfolded set_map]
    by (elim conjE, intro conjI) (assumption | erule (1) subset_trans)+
qed

lemma image_filter_not: "f ` {x \<in> A. f x \<noteq> k} = f ` A - {k}" by auto

lemma owner_orgs_simps [simp]:
  "owner_orgs (ms @ ns) = owner_orgs ms \<union> owner_orgs ns"
  "owner_orgs [m] = (if mb_role m = Owner then {mb_org m} else {})"
  "owner_orgs (filter (\<lambda>m. mb_org m \<noteq> org) ms) = owner_orgs ms - {org}"
  by (auto simp: owner_orgs_def)

lemma org_inv_create:
  assumes "org_inv db" "store_create i name slug user db = (r, db')"
  shows "org_inv db'"
  using assms(2)
proof (cases rule: store_create_effect)
  case 2
  have inv: "distinct (map member_key (db_members db))" "mb_org ` set (db_members db) \<subseteq> og_id ` set (db_orgs db)"
    using assms(1) by (simp_all add: org_inv_sets)
  have "(i, user) \<notin> member_key ` set (db_members db)"
    using inv(2) 2(2) by (auto simp: member_key_def org_exists_iff image_subset_iff)
  then show ?thesis
    using assms(1) 2(3) unfolding 2(4) org_inv_sets user_exists_iff
    by (simp add: member_key_def subset_insertI2 insert_mono del: image_subset_iff)
qed (use assms(1) in simp)

lemma org_inv_rename:
  assumes "org_inv db" "store_rename org name actor db = (r, db')"
  shows "org_inv db'"
proof -
  show ?thesis
    by (rule org_inv_mono[OF assms(1)]) (auto simp: store_rename_effect[OF assms(2)])
qed

lemma org_inv_remove:
  assumes "org_inv db" "store_remove org actor db = (r, db')"
  shows "org_inv db'"
  using assms(2)
proof (cases rule: store_remove_effect)
  case 2
  then have "org \<notin> pr_org ` set (db_projects db)"
    using assms(1) by (auto simp: org_inv_sets org_exists_iff list_ex_iff)
  then show ?thesis
    using assms(1) 2(4) unfolding org_inv_sets
    by (auto simp: distinct_map_filter image_filter_not)
qed (use assms(1) in simp)

lemma member_key_update [simp]: "member_key (m\<lparr>mb_role := r\<rparr>) = member_key m" "mb_org (m\<lparr>mb_role := r\<rparr>) = mb_org m"
  by (simp_all add: member_key_def)

lemma other_owner:
  assumes "distinct (map member_key ms)" "1 < length (filter (\<lambda>m. mb_org m = org \<and> mb_role m = Owner) ms)"
  shows "\<exists>m \<in> set ms. mb_org m = org \<and> mb_role m = Owner \<and> \<not> is_member org user m"
proof (rule ccontr)
  assume "\<not> ?thesis"
  then have "filter (\<lambda>m. mb_org m = org \<and> mb_role m = Owner) ms
    = filter (\<lambda>m. mb_org m = org \<and> mb_role m = Owner) (filter (\<lambda>m. member_key m = (org, user)) ms)"
    by (auto simp: member_key_def is_member_def intro!: filter_cong)
  then show False
    using assms(2) distinct_key_filter[OF assms(1), of "(org, user)"]
      length_filter_le[of "\<lambda>m. mb_org m = org \<and> mb_role m = Owner" "filter (\<lambda>m. member_key m = (org, user)) ms"]
    by simp
qed

lemma owner_elsewhere: "o' \<in> owner_orgs ms \<Longrightarrow> o' \<noteq> org \<Longrightarrow>
   \<exists>m \<in> set ms. mb_org m = o' \<and> mb_role m = Owner \<and> \<not> is_member org user m"
  by (auto simp: owner_orgs_def is_member_def)

lemma owner_orgs_keep:
  assumes "distinct (map member_key ms)" "o' \<in> owner_orgs ms"
    and "o' = org \<Longrightarrow> (\<exists>m \<in> set ms. is_member org user m \<and> mb_role m = Owner) \<Longrightarrow>
      1 < length (filter (\<lambda>m. mb_org m = org \<and> mb_role m = Owner) ms)"
  shows "\<exists>m \<in> set ms. mb_org m = o' \<and> mb_role m = Owner \<and> \<not> is_member org user m"
proof (cases "o' = org \<and> (\<exists>m \<in> set ms. is_member org user m \<and> mb_role m = Owner)")
  case True
  then show ?thesis using other_owner[OF assms(1), of org user] assms(3) by auto
next
  case False
  then show ?thesis using assms(2) owner_elsewhere[of o' ms org user] by (auto simp: owner_orgs_def)
qed

lemma role_of_SomeD:
  assumes "distinct (map member_key (db_members db))" "role_of user org db = Some r"
    "m \<in> set (db_members db)" "is_member org user m"
  shows "mb_role m = r"
proof -
  obtain n where n: "List.find (is_member org user) (db_members db) = Some n" "mb_role n = r"
    using assms(2) by (auto simp: role_of_def)
  then have "n \<in> set (db_members db)" "is_member org user n" by (auto simp: find_Some_iff)
  then have "n = m"
    using assms(1,3,4) by (auto simp: member_key_def is_member_def distinct_map inj_on_def)
  then show ?thesis using n by simp
qed

lemma org_inv_set_role:
  assumes "org_inv db" "store_set_role org user role actor db = (r, db')"
  shows "org_inv db'"
  using assms(2)
proof (cases rule: store_set_role_effect)
  case (2 previous)
  let ?f = "\<lambda>m. if is_member org user m then m\<lparr>mb_role := role\<rparr> else m"
  have d: "distinct (map member_key (db_members db))" using assms(1) by (simp add: org_inv_sets)
  have k: "map member_key (map ?f (db_members db)) = map member_key (db_members db)" by auto
  have "owner_orgs (db_members db) \<subseteq> owner_orgs (map ?f (db_members db))"
  proof
    fix org' assume o': "org' \<in> owner_orgs (db_members db)"
    show "org' \<in> owner_orgs (map ?f (db_members db))"
    proof (cases "role = Owner")
      case True
      then show ?thesis using o' by (force simp: owner_orgs_def)
    next
      case False
      then have "\<exists>m \<in> set (db_members db). mb_org m = org' \<and> mb_role m = Owner \<and> \<not> is_member org user m"
        using 2(3) role_of_SomeD[OF d 2(2)] by (intro owner_orgs_keep[OF d o']) (auto simp: owners_def)
      then show ?thesis by (force simp: owner_orgs_def)
    qed
  qed
  then show ?thesis
    by (intro org_inv_mono[OF assms(1)]) (simp_all add: 2(4) update_member_def k del: map_map)
qed (use assms(1) in simp)

lemma org_inv_remove_member:
  assumes "org_inv db" "store_remove_member org user actor db = (r, db')"
  shows "org_inv db'"
  using assms(2)
proof (cases rule: store_remove_member_effect)
  case (2 previous)
  have d: "distinct (map member_key (db_members db))" using assms(1) by (simp add: org_inv_sets)
  have "owner_orgs (db_members db) \<subseteq> owner_orgs (filter (\<lambda>m. \<not> is_member org user m) (db_members db))"
  proof
    fix org' assume o': "org' \<in> owner_orgs (db_members db)"
    have "\<exists>m \<in> set (db_members db). mb_org m = org' \<and> mb_role m = Owner \<and> \<not> is_member org user m"
      using 2(3) role_of_SomeD[OF d 2(2)] by (intro owner_orgs_keep[OF d o']) (auto simp: owners_def)
    then show "org' \<in> owner_orgs (filter (\<lambda>m. \<not> is_member org user m) (db_members db))"
      by (auto simp: owner_orgs_def)
  qed
  then show ?thesis
    using assms(1) unfolding 2(4) org_inv_sets delete_member_def by (auto simp: distinct_map_filter)
qed (use assms(1) in simp)

lemma invite_key_update [simp]:
  "invite_key (v\<lparr>iv_accepted := a\<rparr>) = invite_key v"
  "same_invite org email v \<longleftrightarrow> invite_key v = (org, js_lower email)"
  by (auto simp: invite_key_def same_invite_def ci_eq_def)

lemma org_inv_invite:
  assumes "org_inv db" "store_invite hash i token org email role by db = (r, db')"
  shows "org_inv db'"
  using assms(2)
proof (cases rule: store_invite_effect)
  case (2 v db1 a)
  let ?same = "\<lambda>w. invite_key w = (org, js_lower email)"
  have ex: "org_exists db org" using 2(3) by (auto simp: upsert_invite_def split: if_splits)
  show ?thesis
  proof (cases "List.find (same_invite org email) (db_invites db)")
    case None
    then have fresh: "(org, js_lower email) \<notin> invite_key ` set (db_invites db)"
      by (auto simp: find_None_iff)
    have "i \<notin> iv_id ` set (db_invites db)" "db_invites db1 = db_invites db @ [v]" "iv_id v = i"
      "invite_key v = (org, js_lower email)" "iv_org v = org"
      "db_members db1 = db_members db" "db_orgs db1 = db_orgs db" "db_users db1 = db_users db" "db_projects db1 = db_projects db"
      using 2(3) None by (auto simp: upsert_invite_def Let_def list_ex_iff invite_key_def split: if_splits)
    then show ?thesis
      using assms(1) fresh ex unfolding 2(4) org_inv_sets org_exists_iff by auto
  next
    case (Some w)
    then have w: "w \<in> set (db_invites db)" "?same w" by (auto simp: find_Some_iff)
    have v: "v = w\<lparr>iv_role := role, iv_by := by, iv_hash := hash token,
                 iv_expires := db_now db + INVITE_TTL, iv_accepted := None, iv_created := db_now db\<rparr>"
      "db_invites db1 = map (\<lambda>x. if ?same x then v else x) (db_invites db)"
      "db_members db1 = db_members db" "db_orgs db1 = db_orgs db" "db_users db1 = db_users db" "db_projects db1 = db_projects db"
      using 2(3) Some by (auto simp: upsert_invite_def Let_def split: if_splits)
    then have kv: "invite_key v = (org, js_lower email)" "iv_id v = iv_id w" "iv_org v = org"
      using w by (auto simp: invite_key_def)
    have "x = w" if "x \<in> set (db_invites db)" "?same x" for x
      using that w assms(1) by (auto simp: org_inv_sets distinct_map inj_on_def)
    then have "map iv_id (db_invites db1) = map iv_id (db_invites db)"
      "map invite_key (db_invites db1) = map invite_key (db_invites db)"
      using kv v(2) by auto
    then show ?thesis
      by (intro org_inv_mono[OF assms(1)]) (simp_all add: 2(4) v(3-))
  qed
qed (use assms(1) in simp)

lemma org_inv_revoke:
  assumes "org_inv db" "store_revoke_invite org i actor db = (r, db')"
  shows "org_inv db'"
  using assms(1) unfolding org_inv_sets store_revoke_effect[OF assms(2)]
  by (auto simp: distinct_map_filter)

lemma org_inv_accept:
  assumes "org_inv db" "store_accept_invite hash token user email db = (r, db')"
  shows "org_inv db'"
  using assms(2)
proof (cases rule: store_accept_effect)
  case (2 v db1)
  have "org_inv db1"
  proof (cases "db1 = db")
    case False
    then have m: "db1 = db\<lparr>db_members := db_members db @ [\<lparr>mb_org = iv_org v, mb_user = user, mb_role = iv_role v\<rparr>]\<rparr>"
      "iv_org v \<in> og_id ` set (db_orgs db)" "user \<in> us_id ` set (db_users db)"
      "(iv_org v, user) \<notin> member_key ` set (db_members db)"
      using 2(4) by (auto simp: join_member_def insert_member_def org_exists_iff user_exists_iff list_ex_iff
        is_member_def member_key_def split: if_splits)
    then show ?thesis
      using assms(1) unfolding m(1) org_inv_sets by (simp add: member_key_def) blast
  qed (use assms(1) in simp)
  then show ?thesis
    by (rule org_inv_mono) (auto simp: 2(5))
qed (use assms(1) in simp)

lemma org_inv_step: "org_step hash db db' \<Longrightarrow> org_inv db \<Longrightarrow> org_inv db'"
proof (induction rule: org_step.induct)
  case (project_created db p)
  then show ?case by (simp add: org_inv_sets org_exists_iff)
next
  case (project_moved db i status)
  show ?case by (rule org_inv_mono[OF project_moved]) auto
next
  case (registered db u)
  show ?case by (rule org_inv_mono[OF registered]) auto
next
  case (clock db n)
  show ?case by (rule org_inv_mono[OF clock]) auto
qed (blast intro: org_inv_create org_inv_rename org_inv_remove org_inv_set_role org_inv_remove_member org_inv_invite
    org_inv_revoke org_inv_accept)+

subsection \<open>Handlers are sequences of transactions\<close>

definition stepwise :: "(string \<Rightarrow> string) \<Rightarrow> (org_db, 'e, 'a) eff \<Rightarrow> bool" where
  "stepwise hash m = (\<forall>db. (org_step hash)\<^sup>*\<^sup>* db (snd (m db)))"

lemma stepwise_basic [intro!]:
  "stepwise hash (ret a)" "stepwise hash (throw e)" "stepwise hash (gets f)" "stepwise hash (guard b e)"
  by (simp_all add: stepwise_def eff_defs)

lemma stepwise_and_then [intro!]:
  assumes "stepwise hash m" "\<And>a. stepwise hash (f a)"
  shows "stepwise hash (and_then m f)"
  unfolding stepwise_def
proof
  fix db
  obtain r db1 where m: "m db = (r, db1)" by force
  have "(org_step hash)\<^sup>*\<^sup>* db db1" using assms(1) m by (metis stepwise_def snd_conv)
  moreover have "(org_step hash)\<^sup>*\<^sup>* db1 (snd (f a db1))" for a using assms(2) by (simp add: stepwise_def)
  ultimately show "(org_step hash)\<^sup>*\<^sup>* db (snd (and_then m f db))"
    by (cases r) (auto simp: and_then_def m intro: rtranclp_trans)
qed

lemma stepwise_lift: "(\<And>db. org_step hash db (snd (m db))) \<Longrightarrow> stepwise hash (lift_error f m)"
  by (auto simp: stepwise_def lift_error_def split: prod.splits sum.splits intro!: r_into_rtranclp) (metis snd_conv)+

lemma stepwise_store [intro!]:
  "stepwise hash (lift_error g (store_create i name slug user))"
  "stepwise hash (lift_error g (store_rename org name actor))"
  "stepwise hash (lift_error g (store_remove org actor))"
  "stepwise hash (lift_error g (store_set_role org user role actor))"
  "stepwise hash (lift_error g (store_remove_member org user actor))"
  "stepwise hash (lift_error g (store_invite hash i token org email role by))"
  "stepwise hash (lift_error g (store_revoke_invite org i actor))"
  "stepwise hash (lift_error g (store_accept_invite hash token user email))"
  by (rule stepwise_lift, rule org_step.intros, rule prod.collapse[symmetric])+

lemma stepwise_checks [intro!]:
  "stepwise hash (require_user p)" "stepwise hash (decode_param k raw)" "stepwise hash (require_role role c)"
  by (auto simp: require_user_def decode_param_def require_role_def split: option.splits sum.splits)

lemma stepwise_membership [intro!]: "stepwise hash (require_membership p raw)"
  unfolding require_membership_def by (intro stepwise_and_then) (auto split: option.splits)

lemma stepwise_target [intro!]: "stepwise hash (check_target org role target)"
  unfolding check_target_def by (auto split: option.splits)

lemma stepwise_handle: "stepwise hash (handle hash email_ok p req)"
  unfolding handle_def create_org_def list_orgs_def get_org_def rename_org_def delete_org_route_def
    list_members_def set_role_def set_role_check_def set_role_write_def remove_member_def create_invite_def
    list_invites_def revoke_invite_def accept_invite_def
  by (cases req; auto split: option.splits)

definition empty_db :: org_db where
  "empty_db = \<lparr>db_users = [], db_orgs = [], db_members = [], db_invites = [], db_projects = [],
     db_audit = [], db_now = 0\<rparr>"

lemma org_inv_empty: "org_inv empty_db"
  by (simp add: empty_db_def org_inv_sets)

lemma org_inv_reachable: "(org_step hash)\<^sup>*\<^sup>* db db' \<Longrightarrow> org_inv db \<Longrightarrow> org_inv db'"
  by (induction rule: rtranclp_induct) (auto intro: org_inv_step)

lemma org_inv_handle: "org_inv db \<Longrightarrow> org_inv (snd (handle hash email_ok p req db))"
  using stepwise_handle org_inv_reachable unfolding stepwise_def by blast

text \<open>
  C3. Whatever transactions of the store run, in whatever order and with whatever arguments,
  every organization has an owner, no user is twice a member of one, and the rows satisfy the
  schema's keys; and every handler of the API is a sequence of such transactions, so requests may
  interleave between them.
\<close>

theorem every_organization_keeps_an_owner:
  "{db. (org_step hash)\<^sup>*\<^sup>* empty_db db}
     \<subseteq> {db. list_all (\<lambda>og. list_ex (\<lambda>m. mb_org m = og_id og \<and> mb_role m = Owner) (db_members db)) (db_orgs db) \<and>
           rows_ok db} \<and>
   (org_step hash)\<^sup>*\<^sup>* db0 (snd (handle hash email_ok p req db0))"
proof
  have "owned db \<Longrightarrow> list_all (\<lambda>og. list_ex (\<lambda>m. mb_org m = og_id og \<and> mb_role m = Owner) (db_members db)) (db_orgs db)"
    for db
    by (auto simp: owned_def owners_def list_all_iff list_ex_iff filter_empty_conv)
  moreover have "org_inv db" if "(org_step hash)\<^sup>*\<^sup>* empty_db db" for db
    using org_inv_reachable[OF that org_inv_empty] .
  ultimately show "{db. (org_step hash)\<^sup>*\<^sup>* empty_db db}
     \<subseteq> {db. list_all (\<lambda>og. list_ex (\<lambda>m. mb_org m = og_id og \<and> mb_role m = Owner) (db_members db)) (db_orgs db) \<and> rows_ok db}"
    unfolding org_inv_def by blast
qed (use stepwise_handle[of hash email_ok p req] in \<open>simp add: stepwise_def\<close>)

text \<open>
  Deleting an organization. It is refused with a 409 while a project is not deleted; it
  succeeds when there never was a project; but a project that was purged keeps its row with the
  status deleted, is not counted and still restricts the delete, so the request ends in a 500.
\<close>

theorem purged_project_blocks_deletion:
  "fst (lift_error store_status (store_remove org actor) db) =
    (if list_ex (\<lambda>p. pr_org p = org \<and> pr_status p \<noteq> ''deleted'') (db_projects db) then Inl (ApiError 409 VALIDATION_FAILED)
     else if org_exists db org \<and> list_ex (\<lambda>p. pr_org p = org \<and> pr_status p = ''deleted'') (db_projects db)
     then Inl (ApiError 500 INTERNAL)
     else Inr ())"
proof -
  have c: "project_count org db = 0 \<longleftrightarrow> \<not> list_ex (\<lambda>p. pr_org p = org \<and> pr_status p \<noteq> ''deleted'') (db_projects db)"
    by (auto simp: project_count_def filter_empty_conv list_ex_iff)
  show ?thesis
  proof (cases "project_count org db = 0")
    case True
    then have "list_ex (\<lambda>p. pr_org p = org) (db_projects db) =
      list_ex (\<lambda>p. pr_org p = org \<and> pr_status p = ''deleted'') (db_projects db)"
      using c by (auto simp: list_ex_iff)
    then show ?thesis
      using True c by (simp add: store_remove_def eff_defs record_action_def delete_org_def org_exists_def)
  next
    case False
    then show ?thesis using c by (simp add: store_remove_def eff_defs)
  qed
qed

lemma role_of_join_absent:
  "join_member org user role db = (Inr (), db1) \<Longrightarrow> db_invites db1 = db_invites db \<and> db_now db1 = db_now db"
  by (auto simp: join_member_def insert_member_def split: if_splits)

text \<open>
  An invite is accepted only while it is live and by the address it names, and only once:
  after one acceptance the same token is refused for everybody.
\<close>

theorem invite_is_single_use:
  assumes "distinct (map iv_hash (db_invites db))"
    and "store_accept_invite hash token user email db = (Inr (Some (org, role)), db')"
  shows "list_ex (\<lambda>v. iv_hash v = hash token \<and> live_invite (db_now db) v \<and> iv_org v = org \<and> iv_role v = role \<and>
      js_lower (iv_email v) = js_lower email) (db_invites db) \<and>
    fst (store_accept_invite hash token user2 email2 db') = Inr None"
  using assms(2)
proof (cases rule: store_accept_effect)
  case (2 v db1)
  have v: "v \<in> set (db_invites db)" "iv_hash v = hash token" "live_invite (db_now db) v"
    using 2(2) by (auto simp: find_Some_iff)
  have i: "db_invites db1 = db_invites db" "db_now db1 = db_now db" using role_of_join_absent[OF 2(4)] by auto
  have "w = v" if "w \<in> set (db_invites db)" "iv_hash w = hash token" for w
    using that v assms(1) by (auto simp: distinct_map inj_on_def)
  then have "List.find (\<lambda>v. iv_hash v = hash token \<and> live_invite (db_now db') v) (db_invites db') = None"
    unfolding 2(5) find_None_iff by (auto simp: live_invite_def i)
  then have "fst (store_accept_invite hash token user2 email2 db') = Inr None"
    by (simp add: store_accept_invite_def eff_defs)
  then show ?thesis using 2(1,3) v by (auto simp: list_ex_iff)
qed simp


subsection \<open>Who may change whose role\<close>

lemma read_only_checks [intro!]:
  "read_only (require_user p)" "read_only (decode_param k raw)" "read_only (require_role role c)"
  by (auto simp: require_user_def decode_param_def require_role_def split: option.splits sum.splits)

lemma read_only_membership [intro!]: "read_only (require_membership p raw)"
  unfolding require_membership_def by (intro read_only_and_then) (auto split: option.splits)

lemma read_only_target [intro!]: "read_only (check_target org role target)"
  unfolding check_target_def by (intro read_only_and_then) (auto split: option.splits)

lemma membership_result:
  "fst (require_membership p raw db) = Inr (u, org, role) \<Longrightarrow> p = Some u \<and> role_of u org db = Some role"
  unfolding require_membership_def require_user_def decode_param_def
  by (auto simp: eff_defs split: option.splits sum.splits)

lemma role_result: "fst (require_role role c db) = Inr x \<Longrightarrow> can role c"
  by (auto simp: require_role_def require_cap_def eff_defs split: if_splits)

lemma role_of_member:
  assumes "org_inv db" "m \<in> set (db_members db)" "is_member org user m"
  shows "role_of user org db = Some (mb_role m)"
proof -
  obtain n where "List.find (is_member org user) (db_members db) = Some n"
    using assms(2,3) by (cases "List.find (is_member org user) (db_members db)") (auto simp: find_None_iff)
  then have "role_of user org db = Some (mb_role n)" by (simp add: role_of_def)
  then show ?thesis
    using role_of_SomeD[of db user org "mb_role n" m] assms by (simp add: org_inv_sets)
qed

lemma target_result:
  assumes "org_inv db" "fst (check_target org role target db) = Inr x"
  shows "\<exists>r. role_of target org db = Some r \<and> r \<le> role"
proof -
  obtain m us where f: "List.find (\<lambda>(m, u). mb_user m = target) (store_members org db) = Some (m, us)" "mb_role m \<le> role"
    using assms(2) by (auto simp: check_target_def eff_defs split: option.splits if_splits)
  then have "(m, us) \<in> set (store_members org db)" "mb_user m = target" by (auto simp: find_Some_iff in_set_conv_nth)
  then have "m \<in> set (db_members db)" "is_member org target m" by (auto simp: store_members_def is_member_def)
  then show ?thesis using role_of_member[OF assms(1)] f(2) by auto
qed

definition at_most :: "role \<Rightarrow> role option \<Rightarrow> bool" where
  "at_most a r = (case r of None \<Rightarrow> True | Some r \<Rightarrow> r \<le> a)"

definition authorized :: "string \<Rightarrow> org_db \<Rightarrow> org_db \<Rightarrow> bool" where
  \<comment> \<open>every role that differs between the two states was changed by \<open>u\<close> within their own rank, or is
    the role \<open>u\<close> starts with in an organization they were not in\<close>
  "authorized u db db' = (\<forall>w org.
     role_of w org db' = role_of w org db \<or>
     (w = u \<and> role_of u org db = None) \<or>
     (\<exists>a. role_of u org db = Some a \<and> (a \<noteq> Member \<or> w = u) \<and>
       at_most a (role_of w org db) \<and> at_most a (role_of w org db')))"

lemma authorized_refl [simp]: "authorized u db db"
  by (simp add: authorized_def)

lemma authorized_members: "db_members db' = db_members db \<Longrightarrow> authorized u db db'"
  by (simp add: authorized_def role_of_def)

lemma authorized_audit [simp]: "authorized u db (db'\<lparr>db_audit := a\<rparr>) = authorized u db db'"
  "authorized u db (db'\<lparr>db_invites := vs\<rparr>) = authorized u db db'"
  "authorized u db (db'\<lparr>db_orgs := og\<rparr>) = authorized u db db'"
  by (simp_all add: authorized_def role_of_def)

lemma role_of_update: "role_of w org (update_member org' user role db) =
   (if org = org' \<and> w = user then map_option (\<lambda>_. role) (role_of w org db) else role_of w org db)"
proof -
  have "List.find (is_member org w) (map (\<lambda>m. if is_member org' user m then m\<lparr>mb_role := role\<rparr> else m) (db_members db))
    = map_option (\<lambda>m. if is_member org' user m then m\<lparr>mb_role := role\<rparr> else m) (List.find (is_member org w) (db_members db))"
    by (rule find_update) (auto simp: is_member_def)
  then show ?thesis
    by (auto simp: role_of_def update_member_def find_Some_iff is_member_def option.map_comp comp_def
        intro!: option.map_cong)
qed

lemma role_of_delete: "role_of w org (delete_member org' user db) =
   (if org = org' \<and> w = user then None else role_of w org db)"
proof -
  have "(\<lambda>x. is_member org w x \<and> \<not> is_member org' user x) = (if org = org' \<and> w = user then (\<lambda>x. False) else is_member org w)"
    by (auto simp: is_member_def fun_eq_iff)
  then show ?thesis by (simp add: role_of_def delete_member_def find_filter find_none)
qed

lemma authorized_join:
  assumes "role_of u i db = None"
  shows "authorized u db (db\<lparr>db_members := db_members db @ [\<lparr>mb_org = i, mb_user = u, mb_role = role\<rparr>]\<rparr>)"
  using assms
  by (auto simp: authorized_def role_of_def find_append is_member_def split: option.splits)

lemma authorized_create:
  assumes "org_inv db" "store_create i name slug u db = (r, db')"
  shows "authorized u db db'"
  using assms(2)
proof (cases rule: store_create_effect)
  case 2
  then have "i \<notin> mb_org ` set (db_members db)"
    using assms(1) by (auto simp: org_inv_sets org_exists_iff)
  then have "role_of u i db = None" by (auto simp: role_of_def find_None_iff is_member_def)
  then have "authorized u db (db\<lparr>db_members := db_members db @ [\<lparr>mb_org = i, mb_user = u, mb_role = Owner\<rparr>]\<rparr>)"
    by (rule authorized_join)
  then show ?thesis
    unfolding 2(4) by (simp add: authorized_def role_of_def)
qed simp

lemma authorized_accept:
  assumes "store_accept_invite hash token u email db = (r, db')"
  shows "authorized u db db'"
  using assms
proof (cases rule: store_accept_effect)
  case (2 v db1)
  have "db1 = db \<or> (role_of u (iv_org v) db = None \<and>
      db1 = db\<lparr>db_members := db_members db @ [\<lparr>mb_org = iv_org v, mb_user = u, mb_role = iv_role v\<rparr>]\<rparr>)"
    using 2(4) by (auto simp: join_member_def insert_member_def role_of_def find_None_iff list_ex_iff split: if_splits)
  then have "authorized u db db1" using authorized_join by auto
  then show ?thesis by (simp add: 2(5))
qed simp

lemma authorized_set_role:
  assumes "role_of u org db = Some a" "a \<noteq> Member" "role_of target org db = Some b" "b \<le> a" "role \<le> a"
    "store_set_role org target role u db = (r, db')"
  shows "authorized u db db'"
  using assms(6)
proof (cases rule: store_set_role_effect)
  case (2 previous)
  have "authorized u db (update_member org target role db)"
    using assms(1-5) by (auto simp: authorized_def role_of_update at_most_def)
  then show ?thesis by (simp add: 2(4))
qed simp

lemma authorized_remove_member:
  assumes "role_of u org db = Some a" "a \<noteq> Member \<or> target = u" "at_most a (role_of target org db)"
    "store_remove_member org target u db = (r, db')"
  shows "authorized u db db'"
  using assms(4)
proof (cases rule: store_remove_member_effect)
  case (2 previous)
  have "authorized u db (delete_member org target db)"
    using assms(1-3) by (auto simp: authorized_def role_of_delete at_most_def)
  then show ?thesis by (simp add: 2(4))
qed simp

lemma authorized_remove:
  assumes "role_of u org db = Some Owner" "store_remove org u db = (r, db')"
  shows "authorized u db db'"
  using assms(2)
proof (cases rule: store_remove_effect)
  case 2
  have e: "List.find (is_member org' w) (filter (\<lambda>m. mb_org m \<noteq> org) ms) = (if org' = org then None else List.find (is_member org' w) ms)"
    for org' w ms
  proof -
    have "(\<lambda>x. is_member org' w x \<and> mb_org x \<noteq> org) = (if org' = org then (\<lambda>x. False) else is_member org' w)"
      by (auto simp: is_member_def fun_eq_iff)
    then show ?thesis by (simp add: find_filter find_none)
  qed
  show ?thesis
    using assms(1) unfolding 2(4)
    by (auto simp: authorized_def role_of_def e at_most_def split: option.splits)
qed simp


lemma authorized_after_checks:
  assumes "read_only m" "\<And>a. fst (m db) = Inr a \<Longrightarrow> authorized u db (snd (f a db))"
  shows "authorized u db (snd (and_then m f db))"
  using assms(2) by (auto simp: and_then_read_only[OF assms(1)] split: sum.splits)

lemma authorized_membership:
  assumes "\<And>org role. role_of u org db = Some role \<Longrightarrow> authorized u db (snd (f (u, org, role) db))"
  shows "authorized u db (snd (and_then (require_membership (Some u) raw) f db))"
  by (rule authorized_after_checks) (use assms in \<open>auto dest: membership_result\<close>)

lemma authorized_role:
  assumes "can role c \<Longrightarrow> authorized u db (snd (f () db))"
  shows "authorized u db (snd (and_then (require_role role c) f db))"
  by (rule authorized_after_checks) (use assms in \<open>auto dest: role_result\<close>)

lemma authorized_guard:
  assumes "b \<Longrightarrow> authorized u db (snd (f () db))"
  shows "authorized u db (snd (and_then (guard b e) f db))"
  by (rule authorized_after_checks) (use assms in \<open>auto simp: guard_def eff_defs split: if_splits\<close>)

lemma authorized_lift:
  assumes "\<And>a. read_only (f a)" "\<And>r db'. m db = (r, db') \<Longrightarrow> authorized u db db'"
  shows "authorized u db (snd (and_then (lift_error g m) f db))"
  by (simp add: snd_and_then_ret assms(1)) (metis assms(2) prod.collapse)

lemma authorized_read_only: "read_only m \<Longrightarrow> authorized u db (snd (m db))"
  by (simp add: read_only_def)

lemma set_role_check_result:
  assumes "fst (set_role_check (Some u) raw raw_user role db) = Inr x"
  obtains org target a where "x = (u, org, target)" "role_of u org db = Some a" "canAssignRole a role"
    "fst (check_target org a target db) = Inr ()"
  using assms unfolding set_role_check_def
  by (auto elim!: and_then_InrE dest!: membership_result simp: guard_def ret_def throw_def split: if_splits)

lemma can_delete: "can r OrgDelete \<longleftrightarrow> r = Owner"
  by (cases r) auto

lemma owner_orgs_Cons [simp]:
  "owner_orgs (m # ms) = (if mb_role m = Owner then insert (mb_org m) (owner_orgs ms) else owner_orgs ms)"
  "owner_orgs [] = {}"
  by (auto simp: owner_orgs_def)

lemma store_upsert_members: "upsert_invite i org email role by hashed db = (r, db') \<Longrightarrow> db_members db' = db_members db"
  by (auto simp: upsert_invite_def Let_def split: if_splits option.splits)

lemma authorized_invites:
  "store_invite hash i token org email role by db = (r, db') \<Longrightarrow> authorized u db db'"
  by (cases rule: store_invite_effect, assumption) (auto intro!: authorized_members dest: store_upsert_members)

lemma authorized_handle:
  assumes "org_inv db"
  shows "authorized u db (snd (handle hash email_ok (Some u) req db))"
proof (cases req)
  case (SetRole raw raw_user role)
  have "authorized u db (snd (and_then (set_role_check (Some u) raw raw_user role) (set_role_write role) db))"
  proof (rule authorized_after_checks)
    fix x assume x: "fst (set_role_check (Some u) raw raw_user role db) = Inr x"
    obtain org target a where a: "x = (u, org, target)" "role_of u org db = Some a" "canAssignRole a role"
      "fst (check_target org a target db) = Inr ()"
      using set_role_check_result[OF x] .
    show "authorized u db (snd (set_role_write role x db))"
      using target_result[OF assms a(4)] a(2,3) unfolding a(1) set_role_write_def split_beta fst_conv snd_conv
      by (intro authorized_lift) (auto simp: canAssignRole_le intro: authorized_set_role split: option.splits)
  qed (auto simp: set_role_check_def)
  then show ?thesis by (simp add: SetRole handle_def set_role_def)
next
  case (RemoveMember raw raw_user)
  have "authorized u db (snd (remove_member (Some u) raw raw_user db))"
    unfolding remove_member_def
  proof (rule authorized_membership, simp only: split_conv, rule authorized_after_checks, blast, rule authorized_after_checks)
    fix org a target x
    assume a: "role_of u org db = Some a"
      and x: "fst ((if target \<noteq> u then and_then (require_role a MemberRemove) (\<lambda>_. check_target org a target) else ret ()) db) = Inr x"
    have "(a \<noteq> Member \<or> target = u) \<and> at_most a (role_of target org db)"
    proof (cases "target = u")
      case False
      then have "can a MemberRemove" "fst (check_target org a target db) = Inr ()"
        using x by (auto simp: and_then_read_only read_only_checks split: sum.splits dest: role_result)
      then show ?thesis using target_result[OF assms, of org a target] by (auto simp: at_most_def)
    qed (use a in \<open>simp add: at_most_def\<close>)
    then show "authorized u db (snd (and_then (lift_error store_status (store_remove_member org target u))
        (\<lambda>r. case r of None \<Rightarrow> throw not_found | Some _ \<Rightarrow> ret NoContent) db))"
      using a by (intro authorized_lift) (auto intro: authorized_remove_member split: option.splits)
  qed auto
  then show ?thesis by (simp add: RemoveMember handle_def)
next
  case (DeleteOrg raw)
  have "authorized u db (snd (delete_org_route (Some u) raw db))"
    unfolding delete_org_route_def
    by (rule authorized_membership, simp only: split_conv, rule authorized_role, rule authorized_lift)
       (auto intro!: authorized_remove simp: can_delete)
  then show ?thesis by (simp add: DeleteOrg handle_def)
next
  case (CreateOrg i name slug)
  have "authorized u db (snd (create_org (Some u) i name slug db))"
    unfolding create_org_def require_user_def option.case and_then_ret
    by (rule authorized_guard, rule authorized_lift) (auto intro: authorized_create[OF assms])
  then show ?thesis by (simp add: CreateOrg handle_def)
next
  case (AcceptInvite token)
  have "authorized u db (snd (accept_invite hash (Some u) token db))"
    unfolding accept_invite_def require_user_def option.case and_then_ret
    by (rule authorized_guard, rule authorized_after_checks)
       (auto split: option.splits intro!: authorized_lift intro: authorized_accept authorized_read_only)
  then show ?thesis by (simp add: AcceptInvite handle_def)
next
  case (RenameOrg raw name)
  have "authorized u db (snd (rename_org (Some u) raw name db))"
    unfolding rename_org_def
    by (rule authorized_membership, simp only: split_conv, rule authorized_role, rule authorized_guard, rule authorized_lift)
       (auto split: option.splits intro!: authorized_members store_rename_effect)
  then show ?thesis by (simp add: RenameOrg handle_def)
next
  case (CreateInvite raw email role i token)
  have "authorized u db (snd (create_invite hash email_ok (Some u) raw email role i token db))"
    unfolding create_invite_def
    by (rule authorized_membership, simp only: split_conv, rule authorized_role, rule authorized_guard, rule authorized_guard,
        rule authorized_lift) (auto intro: authorized_invites)
  then show ?thesis by (simp add: CreateInvite handle_def)
next
  case (RevokeInvite raw i)
  have "authorized u db (snd (revoke_invite (Some u) raw i db))"
    unfolding revoke_invite_def
    by (rule authorized_membership, simp only: split_conv, rule authorized_role, rule authorized_lift)
       (auto intro!: authorized_members store_revoke_effect)
  then show ?thesis by (simp add: RevokeInvite handle_def)
qed (auto simp: handle_def list_orgs_def get_org_def list_members_def list_invites_def
      intro!: authorized_read_only read_only_and_then split: option.splits)


text \<open>
  No request changes a role above the caller's own: every role that differs after a request
  belonged to somebody at or below the caller, stays at or below the caller, and unless the caller
  is above member it is the caller's own; the exception is the role of a caller who was no member,
  who creates an organization or joins by invite.
\<close>

theorem nobody_acts_above_their_role:
  assumes "org_inv db" "db' = snd (handle hash email_ok (Some u) req db)"
  shows "role_of w org db' = role_of w org db \<or>
    w = u \<and> role_of u org db = None \<or>
    (\<exists>a. role_of u org db = Some a \<and> (a \<noteq> Member \<or> w = u) \<and>
      at_most a (role_of w org db) \<and> at_most a (role_of w org db'))"
  using authorized_handle[OF assms(1), of u hash email_ok req] assms(2) unfolding authorized_def by blast

text \<open>
  The role of the target is read before the transaction that writes: when the target is
  promoted to owner in between, the write an admin was allowed for a member still goes through and
  demotes an owner.
\<close>

theorem stale_role_check_demotes_an_owner:
  assumes "fst (set_role_check (Some u) raw raw_user Member db1) = Inr (u, org, target)"
    and "role_of target org db2 = Some Owner" "1 < length (owners org db2)"
  shows "role_of target org (snd (set_role_write Member (u, org, target) db2)) = Some Member"
proof -
  obtain r db' where r: "store_set_role org target Member u db2 = (r, db')" by force
  then have "role_of target org db' = Some Member"
    using assms(2,3)
    by (auto simp: store_set_role_def eff_defs assert_not_last_owner_def record_action_def) 
       (use role_of_update[of target org org target Member db2] in \<open>auto simp: role_of_def\<close>)
  moreover have "snd (set_role_write Member (u, org, target) db2) = db'"
    by (simp add: set_role_write_def r snd_and_then_ret read_only_basic split: option.splits)
  ultimately show ?thesis by simp
qed

definition sample_org :: string where "sample_org = ''11111111-1111-1111-1111-111111111111''"
definition sample_owner :: string where "sample_owner = ''22222222-2222-2222-2222-222222222222''"
definition sample_admin :: string where "sample_admin = ''33333333-3333-3333-3333-333333333333''"
definition sample_user :: string where "sample_user = ''44444444-4444-4444-4444-444444444444''"

lemma sample_uuid: "decodeId k sample_org = Inr sample_org" "decodeId k sample_user = Inr sample_user"
  by (simp_all add: sample_org_def sample_user_def decodeId_def is_uuid_def is_hex_def lower_char_def js_lower_def
      is_digit_def unit_of_def Let_def eval_nat_numeral)

lemma sample_distinct: "distinct [sample_org, sample_owner, sample_admin, sample_user]"
  by (simp add: sample_org_def sample_owner_def sample_admin_def sample_user_def)

definition sample_db :: org_db where
  "sample_db = empty_db\<lparr>
     db_users := [\<lparr>us_id = sample_owner, us_email = ''o@x.io''\<rparr>, \<lparr>us_id = sample_admin, us_email = ''a@x.io''\<rparr>,
       \<lparr>us_id = sample_user, us_email = ''u@x.io''\<rparr>],
     db_orgs := [\<lparr>og_id = sample_org, og_name = ''Acme'', og_slug = ''acme''\<rparr>],
     db_members := [\<lparr>mb_org = sample_org, mb_user = sample_owner, mb_role = Owner\<rparr>,
       \<lparr>mb_org = sample_org, mb_user = sample_admin, mb_role = Admin\<rparr>,
       \<lparr>mb_org = sample_org, mb_user = sample_user, mb_role = Member\<rparr>]\<rparr>"

theorem nobody_acts_above_their_role_witness:
  "role_of sample_owner sample_org
     (snd (handle id (\<lambda>_. True) (Some sample_admin) (RemoveMember sample_org sample_owner) sample_db)) = Some Owner"
proof -
  have "org_inv sample_db"
    using sample_distinct
    by (auto simp: org_inv_sets sample_db_def empty_db_def member_key_def)
  moreover have "role_of sample_owner sample_org sample_db = Some Owner" "role_of sample_admin sample_org sample_db = Some Admin"
    using sample_distinct by (auto simp: role_of_def sample_db_def empty_db_def is_member_def)
  ultimately show ?thesis
    using nobody_acts_above_their_role[of sample_db _ id "\<lambda>_. True" sample_admin "RemoveMember sample_org sample_owner" sample_owner sample_org]
    by (auto simp: at_most_def)
qed

theorem stale_role_check_demotes_an_owner_witness:
  "role_of sample_admin sample_org sample_db = Some Admin \<and>
   role_of sample_user sample_org
     (snd (set_role_write Member (sample_admin, sample_org, sample_user)
       (snd (store_set_role sample_org sample_user Owner sample_owner sample_db)))) = Some Member"
proof
  let ?db2 = "snd (store_set_role sample_org sample_user Owner sample_owner sample_db)"
  show a: "role_of sample_admin sample_org sample_db = Some Admin"
    using sample_distinct by (auto simp: role_of_def sample_db_def empty_db_def is_member_def)
  have m: "require_membership (Some sample_admin) sample_org sample_db = (Inr (sample_admin, sample_org, Admin), sample_db)"
    by (simp add: require_membership_def require_user_def decode_param_def sample_uuid eff_defs a)
  have t: "check_target sample_org Admin sample_user sample_db = (Inr (), sample_db)"
    using sample_distinct by (auto simp add: check_target_def guard_def store_members_def eff_defs sample_db_def empty_db_def)
  have "fst (set_role_check (Some sample_admin) sample_org sample_user Member sample_db) = Inr (sample_admin, sample_org, sample_user)"
    by (simp add: set_role_check_def and_then_def m t require_role_def require_cap_def decode_param_def sample_uuid
        canAssignRole_le guard_def ret_def)
  moreover have "role_of sample_user sample_org ?db2 = Some Owner" "1 < length (owners sample_org ?db2)"
    using sample_distinct
    by (auto simp: store_set_role_def eff_defs sample_db_def empty_db_def role_of_def is_member_def owners_def
        update_member_def record_action_def)
  ultimately show "role_of sample_user sample_org
     (snd (set_role_write Member (sample_admin, sample_org, sample_user) ?db2)) = Some Member"
    by (rule stale_role_check_demotes_an_owner)
qed

theorem invite_is_single_use_witness:
  "fst (store_accept_invite id ''shi_tok'' sample_user ''u@x.io''
     (snd (store_accept_invite id ''shi_tok'' sample_user ''u@x.io''
       (sample_db\<lparr>db_invites := [\<lparr>iv_id = ''i'', iv_org = sample_org, iv_email = ''u@x.io'', iv_role = Admin,
          iv_by = sample_owner, iv_hash = ''shi_tok'', iv_expires = 10, iv_accepted = None, iv_created = 0\<rparr>]\<rparr>)))) = Inr None"
proof -
  let ?db = "sample_db\<lparr>db_invites := [\<lparr>iv_id = ''i'', iv_org = sample_org, iv_email = ''u@x.io'', iv_role = Admin,
          iv_by = sample_owner, iv_hash = ''shi_tok'', iv_expires = 10, iv_accepted = None, iv_created = 0\<rparr>]\<rparr>"
  have "fst (store_accept_invite id ''shi_tok'' sample_user ''u@x.io'' ?db) = Inr (Some (sample_org, Admin))"
    using sample_distinct
    by (simp add: store_accept_invite_def eff_defs live_invite_def sample_db_def empty_db_def js_lower_def lower_char_def
        unit_of_def join_member_def is_member_def insert_member_def org_exists_def record_action_def)
  then have "store_accept_invite id ''shi_tok'' sample_user ''u@x.io'' ?db =
      (Inr (Some (sample_org, Admin)), snd (store_accept_invite id ''shi_tok'' sample_user ''u@x.io'' ?db))"
    by (metis prod.collapse)
  from invite_is_single_use[OF _ this] show ?thesis by simp
qed

end
