(* ===== verification/Placement.thy ===== *)
theory Placement
  imports Complex_Main Prelude "HOL-Library.Product_Lexorder"
begin

text \<open>
  Node registry and placement, \<open>services/worker/src/placement.ts\<close>, over the tables \<open>nodes\<close> and
  \<open>project_databases\<close> with the constraints their migrations put on them.

  A state is the two tables and the clock, in seconds. A transaction of the code is one operation
  of the model, with the reads that the code makes before it holds a lock as arguments of their
  own: \<open>allocate_node\<close> takes the database as its first statements saw it and what each candidate
  row held when its lock was granted, \<open>book_ram\<close> takes the database its joined row was read from,
  of which only the node row is locked. An operation alone is the case where these are the
  current state.

  Ratios are exact rationals where the code has doubles; \<open>floor(total * 0.85)\<close> and
  \<open>ceil(cap * 1.2)\<close> are the same integer in both. Host names are ordered by a collation key, a
  parameter, as \<open>localeCompare\<close> is the host's collation. Error messages are reduced to what they
  name. The foreign key to \<open>projects\<close> is not modelled.
\<close>

subsection \<open>Plans\<close>

definition by_plan :: "(string \<times> nat) list \<Rightarrow> string \<Rightarrow> nat" where
  \<comment> \<open>\<open>T[plan] ?? T['free']!\<close>\<close>
  "by_plan t plan = (case map_of t plan of Some v \<Rightarrow> v | None \<Rightarrow> the (map_of t ''free''))"

definition PLAN_RAM_MB :: "(string \<times> nat) list" where
  "PLAN_RAM_MB = [(''free'', 350), (''pro'', 1024), (''team'', 1024), (''enterprise'', 2048)]"

definition PLAN_DISK_CAP_MB :: "(string \<times> nat) list" where
  "PLAN_DISK_CAP_MB = [(''free'', 500), (''pro'', 8192), (''team'', 8192), (''enterprise'', 32768)]"

definition PLAN_CONTAINER_LIMIT_MB :: "(string \<times> nat) list" where
  "PLAN_CONTAINER_LIMIT_MB = [(''free'', 512), (''pro'', 1536), (''team'', 1536), (''enterprise'', 3072)]"

definition ceil_div :: "nat \<Rightarrow> nat \<Rightarrow> nat" where
  "ceil_div a b = (a + b - 1) div b"

definition quota_of_cap :: "nat \<Rightarrow> nat" where
  \<comment> \<open>\<open>Math.ceil(cap * QUOTA_HEADROOM)\<close>\<close>
  "quota_of_cap cap = ceil_div (cap * 12) 10"

definition quota_mb_for :: "string \<Rightarrow> nat" where
  "quota_mb_for plan = quota_of_cap (by_plan PLAN_DISK_CAP_MB plan)"

definition disk_booking_gb_for :: "string \<Rightarrow> nat" where
  "disk_booking_gb_for plan = max 1 (ceil_div (quota_mb_for plan) 1024)"

subsection \<open>Bin packing\<close>

datatype place_error =
    NoActiveNode string
  | EveryNodeStale string string "nat option"
  | NoneFits string string
  | LostRace string
  | NoPorts "nat \<times> nat"
  | BadBooking
  | NoPlacementRow
  | NodeFull string nat
  | UniqueViolation
  | CheckViolation

record candidate =
  nc_id :: string
  nc_host :: string
  nc_ram_total :: nat
  nc_ram_reserved :: nat
  nc_disk_total :: nat
  nc_disk_reserved :: nat

record booking =
  bk_ram :: nat
  bk_disk :: nat

definition ceiling_of :: "nat \<Rightarrow> nat" where
  \<comment> \<open>\<open>Math.floor(total * FILL_CEILING)\<close>\<close>
  "ceiling_of tot = tot * 85 div 100"

definition can_fit :: "nat \<Rightarrow> nat \<Rightarrow> nat \<Rightarrow> place_error + bool" where
  "can_fit tot reserved b =
     (if b = 0 then Inl BadBooking else Inr (int (ceiling_of tot) - int reserved \<ge> int b))"

definition axis_ratio :: "nat \<Rightarrow> nat \<Rightarrow> bool \<times> rat" where
  \<comment> \<open>\<open>(True, _)\<close> is \<open>Infinity\<close>\<close>
  "axis_ratio tot reserved =
     (if tot = 0 then (True, 0) else (False, of_nat reserved / (of_nat tot * (85 / 100))))"

definition fill_ratio :: "candidate \<Rightarrow> bool \<times> rat" where
  "fill_ratio n = max (axis_ratio (nc_ram_total n) (nc_ram_reserved n))
                      (axis_ratio (nc_disk_total n) (nc_disk_reserved n))"

definition fits :: "candidate \<Rightarrow> booking \<Rightarrow> place_error + bool" where
  "fits n b =
     (if bk_ram b = 0 \<or> bk_disk b = 0 then Inl BadBooking
      else Inr (int (ceiling_of (nc_ram_total n)) - int (nc_ram_reserved n) \<ge> int (bk_ram b)
              \<and> int (ceiling_of (nc_disk_total n)) - int (nc_disk_reserved n) \<ge> int (bk_disk b)))"

fun fitting :: "booking \<Rightarrow> candidate list \<Rightarrow> place_error + candidate list" where
  \<comment> \<open>\<open>nodes.filter((n) => fits(n, b))\<close>, where \<open>fits\<close> may throw\<close>
  "fitting b [] = Inr []"
| "fitting b (n # ns) =
     (case fits n b of
        Inl e \<Rightarrow> Inl e
      | Inr ok \<Rightarrow> map_sum id (\<lambda>rest. if ok then n # rest else rest) (fitting b ns))"

definition rank_nodes :: "(string \<Rightarrow> 'k::linorder) \<Rightarrow> candidate list \<Rightarrow> booking \<Rightarrow> place_error + candidate list" where
  "rank_nodes collate nodes b =
     map_sum id (sort_key (\<lambda>n. (fill_ratio n, collate (nc_host n)))) (fitting b nodes)"

subsection \<open>Ports\<close>

function port_from :: "nat list \<Rightarrow> nat \<Rightarrow> nat \<Rightarrow> nat option" where
  "port_from used p hi =
     (if p \<le> hi then if p \<notin> set used then Some p else port_from used (p + 1) hi else None)"
  by pat_completeness auto
termination
  by (relation "measure (\<lambda>(_, p, hi). hi + 1 - p)") auto

definition pick_port :: "nat list \<Rightarrow> nat \<times> nat \<Rightarrow> place_error + nat" where
  "pick_port used bounds =
     (case port_from used (fst bounds) (snd bounds) of Some p \<Rightarrow> Inr p | None \<Rightarrow> Inl (NoPorts bounds))"

function pair_from :: "nat list \<Rightarrow> nat \<Rightarrow> nat \<Rightarrow> nat option" where
  "pair_from used p hi =
     (if p + 1 \<le> hi then
        if p \<notin> set used \<and> p + 1 \<notin> set used then Some p else pair_from used (p + 2) hi
      else None)"
  by pat_completeness auto
termination
  by (relation "measure (\<lambda>(_, p, hi). hi + 1 - p)") auto

definition pick_port_pair :: "nat list \<Rightarrow> nat \<times> nat \<Rightarrow> place_error + nat" where
  "pick_port_pair used bounds =
     (case pair_from used (fst bounds) (snd bounds) of Some p \<Rightarrow> Inr p | None \<Rightarrow> Inl (NoPorts bounds))"

definition volume_name_for :: "string \<Rightarrow> string" where
  "volume_name_for ref = ''sh-'' @ ref @ ''-pgdata''"

record place_cfg =
  pc_stale_seconds :: nat
  pc_pg_range :: "nat \<times> nat"
  pc_pooler_range :: "nat \<times> nat"
  pc_pgrst_range :: "nat \<times> nat"

definition default_place_cfg :: place_cfg where
  "default_place_cfg = \<lparr>pc_stale_seconds = 900, pc_pg_range = (5433, 6432),
     pc_pooler_range = (6433, 7432), pc_pgrst_range = (7433, 7492)\<rparr>"

declare port_from.simps [simp del] pair_from.simps [simp del]


subsection \<open>The tables\<close>

record node_row =
  nd_id :: string
  nd_host :: string
  nd_region :: string
  nd_status :: string
  nd_ram_total :: nat
  nd_ram_reserved :: nat
  nd_disk_total :: nat
  nd_disk_reserved :: nat
  nd_labels :: string
  nd_address :: "string option"
  nd_seen :: "nat option"

record placement_row =
  pd_project :: string
  pd_node :: string
  pd_volume :: string
  pd_port :: nat
  pd_pooler :: nat
  pd_pgrst :: "nat option"
  pd_pgrst_admin :: "nat option"
  pd_ram_limit :: nat
  pd_ram_booked :: nat
  pd_disk_limit :: nat
  pd_status :: string

record place_db =
  pn_nodes :: "node_row list"
  pn_rows :: "placement_row list"
  pn_now :: nat

definition node_by_id :: "string \<Rightarrow> place_db \<Rightarrow> node_row option" where
  "node_by_id i db = List.find (\<lambda>n. nd_id n = i) (pn_nodes db)"

definition row_of :: "string \<Rightarrow> place_db \<Rightarrow> placement_row option" where
  "row_of project db = List.find (\<lambda>d. pd_project d = project) (pn_rows db)"

definition rows_on :: "string \<Rightarrow> place_db \<Rightarrow> placement_row list" where
  "rows_on node db = filter (\<lambda>d. pd_node d = node) (pn_rows db)"

definition update_node :: "string \<Rightarrow> (node_row \<Rightarrow> node_row) \<Rightarrow> place_db \<Rightarrow> place_db" where
  "update_node i f db = db\<lparr>pn_nodes := map (\<lambda>n. if nd_id n = i then f n else n) (pn_nodes db)\<rparr>"

definition node_ok :: "node_row \<Rightarrow> bool" where
  \<comment> \<open>the \<open>CHECK\<close> constraints of \<open>nodes\<close>\<close>
  "node_ok n = (0 < nd_ram_total n \<and> nd_ram_reserved n \<le> nd_ram_total n
     \<and> 0 < nd_disk_total n \<and> nd_disk_reserved n \<le> nd_disk_total n)"

definition clashes :: "placement_row \<Rightarrow> placement_row \<Rightarrow> bool" where
  \<comment> \<open>the \<open>UNIQUE\<close> constraints of \<open>project_databases\<close>\<close>
  "clashes d e = (pd_project d = pd_project e \<or> (pd_node d = pd_node e \<and>
     (pd_port d = pd_port e \<or> pd_pooler d = pd_pooler e
      \<or> (pd_pgrst d \<noteq> None \<and> pd_pgrst d = pd_pgrst e)
      \<or> (pd_pgrst_admin d \<noteq> None \<and> pd_pgrst_admin d = pd_pgrst_admin e))))"

definition port_ok :: "nat \<Rightarrow> bool" where
  "port_ok p = (1024 \<le> p \<and> p \<le> 65535)"

definition row_ok :: "placement_row \<Rightarrow> bool" where
  "row_ok d = (port_ok (pd_port d) \<and> pred_option port_ok (pd_pgrst d)
     \<and> pred_option port_ok (pd_pgrst_admin d) \<and> 0 < pd_disk_limit d)"

definition write_node :: "string \<Rightarrow> (node_row \<Rightarrow> node_row) \<Rightarrow> (place_db, place_error, unit) eff" where
  \<comment> \<open>\<open>UPDATE nodes SET ... WHERE id = i\<close>, refused by the \<open>CHECK\<close> constraints\<close>
  "write_node i f db =
     (if list_all (\<lambda>n. nd_id n = i \<longrightarrow> node_ok (f n)) (pn_nodes db) then (Inr (), update_node i f db)
      else (Inl CheckViolation, db))"

definition insert_row :: "placement_row \<Rightarrow> (place_db, place_error, unit) eff" where
  "insert_row d db =
     (if \<not> row_ok d then (Inl CheckViolation, db)
      else if list_ex (clashes d) (pn_rows db) then (Inl UniqueViolation, db)
      else (Inr (), db\<lparr>pn_rows := pn_rows db @ [d]\<rparr>))"

definition set_booked :: "string \<Rightarrow> nat \<Rightarrow> place_db \<Rightarrow> place_db" where
  "set_booked project b db =
     db\<lparr>pn_rows := map (\<lambda>d. if pd_project d = project then d\<lparr>pd_ram_booked := b\<rparr> else d) (pn_rows db)\<rparr>"

subsection \<open>Registering a node\<close>

record registration =
  rg_host :: string
  rg_region :: "string option"
  rg_ram_total :: nat
  rg_disk_total :: nat
  rg_labels :: string
  rg_address :: "string option"

definition reregistered :: "registration \<Rightarrow> nat \<Rightarrow> node_row \<Rightarrow> node_row" where
  "reregistered r now n = n\<lparr>nd_seen := Some now, nd_ram_total := rg_ram_total r,
     nd_disk_total := rg_disk_total r, nd_labels := rg_labels r,
     nd_address := (case rg_address r of Some a \<Rightarrow> Some a | None \<Rightarrow> nd_address n)\<rparr>"

definition fresh_node :: "string \<Rightarrow> registration \<Rightarrow> nat \<Rightarrow> node_row" where
  "fresh_node i r now = \<lparr>nd_id = i, nd_host = rg_host r,
     nd_region = (case rg_region r of Some x \<Rightarrow> x | None \<Rightarrow> ''eu-central''), nd_status = ''active'',
     nd_ram_total = rg_ram_total r, nd_ram_reserved = 0, nd_disk_total = rg_disk_total r,
     nd_disk_reserved = 0, nd_labels = rg_labels r, nd_address = rg_address r, nd_seen = Some now\<rparr>"

definition register_node :: "string \<Rightarrow> registration \<Rightarrow> (place_db, place_error, string) eff" where
  \<comment> \<open>\<open>i\<close> is the id the table would give a new row\<close>
  "register_node i r db =
     (case List.find (\<lambda>n. nd_host n = rg_host r) (pn_nodes db) of
        Some n \<Rightarrow>
          and_then (write_node (nd_id n) (reregistered r (pn_now db))) (\<lambda>_. ret (nd_id n)) db
      | None \<Rightarrow>
          if list_ex (\<lambda>n. nd_id n = i) (pn_nodes db) then (Inl UniqueViolation, db)
          else if \<not> node_ok (fresh_node i r (pn_now db)) then (Inl CheckViolation, db)
          else (Inr i, db\<lparr>pn_nodes := pn_nodes db @ [fresh_node i r (pn_now db)]\<rparr>))"

subsection \<open>Choosing a node\<close>

definition candidate_of :: "node_row \<Rightarrow> candidate" where
  "candidate_of n = \<lparr>nc_id = nd_id n, nc_host = nd_host n, nc_ram_total = nd_ram_total n,
     nc_ram_reserved = nd_ram_reserved n, nc_disk_total = nd_disk_total n,
     nc_disk_reserved = nd_disk_reserved n\<rparr>"

definition stale_node :: "nat \<Rightarrow> nat \<Rightarrow> node_row \<Rightarrow> bool" where
  "stale_node limit now n = (case nd_seen n of None \<Rightarrow> True | Some t \<Rightarrow> t + limit < now)"

definition age_of :: "nat \<Rightarrow> node_row \<Rightarrow> nat option" where
  "age_of now n = map_option (\<lambda>t. now - t) (nd_seen n)"

definition age_or :: "nat \<Rightarrow> node_row \<Rightarrow> nat" where
  "age_or now n = (case age_of now n of Some a \<Rightarrow> a | None \<Rightarrow> 1000000000)"

definition freshest :: "nat \<Rightarrow> node_row list \<Rightarrow> node_row" where
  "freshest now rows = foldl (\<lambda>a b. if age_or now a \<le> age_or now b then a else b) (hd rows) (tl rows)"

fun take_first :: "(string \<Rightarrow> node_row option) \<Rightarrow> booking \<Rightarrow> candidate list \<Rightarrow> place_error + candidate option" where
  \<comment> \<open>\<open>locked i\<close> is the row of node \<open>i\<close> when its lock is granted\<close>
  "take_first locked want [] = Inr None"
| "take_first locked want (c # cs) =
     (case locked (nc_id c) of
        None \<Rightarrow> take_first locked want cs
      | Some r \<Rightarrow>
          if nd_status r \<noteq> ''active'' then take_first locked want cs
          else (case fits (candidate_of r) want of
                  Inl e \<Rightarrow> Inl e
                | Inr ok \<Rightarrow> if ok then Inr (Some (candidate_of r)) else take_first locked want cs))"

definition pick_node :: "nat \<Rightarrow> (string \<Rightarrow> 'k::linorder) \<Rightarrow> place_db \<Rightarrow> (string \<Rightarrow> node_row option)
    \<Rightarrow> string \<Rightarrow> booking \<Rightarrow> place_error + candidate" where
  "pick_node limit collate seen locked region want =
     (let rows = filter (\<lambda>n. nd_status n = ''active'' \<and> nd_region n = region) (pn_nodes seen);
          live = filter (\<lambda>n. \<not> stale_node limit (pn_now seen) n) rows in
      if rows = [] then Inl (NoActiveNode region)
      else if live = [] then
        (let f = freshest (pn_now seen) rows in
         Inl (EveryNodeStale region (nd_host f) (age_of (pn_now seen) f)))
      else
        (case rank_nodes collate (map candidate_of live) want of
           Inl e \<Rightarrow> Inl e
         | Inr ranked \<Rightarrow>
             if ranked = [] then
               Inl (NoneFits region (nc_host (hd (sort_key fill_ratio (map candidate_of live)))))
             else
               (case take_first locked want ranked of
                  Inl e \<Rightarrow> Inl e
                | Inr None \<Rightarrow> Inl (LostRace region)
                | Inr (Some n) \<Rightarrow> Inr n)))"


subsection \<open>Allocate, release, pause, resume\<close>

record placed =
  pl_node :: string
  pl_host :: string
  pl_port :: nat
  pl_pooler :: nat
  pl_pgrst :: "nat option"
  pl_pgrst_admin :: "nat option"
  pl_volume :: string
  pl_ram_limit :: nat
  pl_booked :: nat
  pl_replayed :: bool

record place_args =
  pa_project :: string
  pa_ref :: string
  pa_plan :: string
  pa_region :: "string option"

definition from_result :: "'e + 'a \<Rightarrow> ('s, 'e, 'a) eff" where
  "from_result r = (case r of Inl e \<Rightarrow> throw e | Inr a \<Rightarrow> ret a)"

definition joined :: "string \<Rightarrow> place_db \<Rightarrow> (placement_row \<times> node_row) option" where
  \<comment> \<open>\<open>project_databases d JOIN nodes n ON n.id = d.node_id WHERE d.project_id = $1\<close>\<close>
  "joined project db =
     (case row_of project db of
        None \<Rightarrow> None
      | Some d \<Rightarrow> map_option (Pair d) (node_by_id (pd_node d) db))"

definition want_of :: "string \<Rightarrow> booking" where
  "want_of plan = \<lparr>bk_ram = by_plan PLAN_RAM_MB plan, bk_disk = disk_booking_gb_for plan\<rparr>"

definition pgrst_ports :: "placement_row list \<Rightarrow> nat list" where
  "pgrst_ports ds = concat (map (\<lambda>d. List.map_filter id [pd_pgrst d, pd_pgrst_admin d]) ds)"

definition new_row :: "place_args \<Rightarrow> string \<Rightarrow> nat \<Rightarrow> nat \<Rightarrow> nat \<Rightarrow> placement_row" where
  "new_row a node port pooler pgrst = \<lparr>pd_project = pa_project a, pd_node = node,
     pd_volume = volume_name_for (pa_ref a), pd_port = port, pd_pooler = pooler,
     pd_pgrst = Some pgrst, pd_pgrst_admin = Some (pgrst + 1),
     pd_ram_limit = by_plan PLAN_CONTAINER_LIMIT_MB (pa_plan a),
     pd_ram_booked = by_plan PLAN_RAM_MB (pa_plan a),
     pd_disk_limit = by_plan PLAN_DISK_CAP_MB (pa_plan a), pd_status = ''provisioning''\<rparr>"

definition placed_of :: "placement_row \<Rightarrow> string \<Rightarrow> nat \<Rightarrow> bool \<Rightarrow> placed" where
  "placed_of d host booked replay = \<lparr>pl_node = pd_node d, pl_host = host, pl_port = pd_port d,
     pl_pooler = pd_pooler d, pl_pgrst = pd_pgrst d, pl_pgrst_admin = pd_pgrst_admin d,
     pl_volume = pd_volume d, pl_ram_limit = pd_ram_limit d, pl_booked = booked, pl_replayed = replay\<rparr>"

definition allocate_node :: "place_cfg \<Rightarrow> (string \<Rightarrow> 'k::linorder) \<Rightarrow> place_db
    \<Rightarrow> (string \<Rightarrow> node_row option) \<Rightarrow> place_args \<Rightarrow> (place_db, place_error, placed) eff" where
  "allocate_node cfg collate seen locked a =
     transaction
       (let want = want_of (pa_plan a) in
        case joined (pa_project a) seen of
          Some (d, n) \<Rightarrow> ret (placed_of d (nd_host n) (bk_ram want) True)
        | None \<Rightarrow>
            and_then (from_result (pick_node (pc_stale_seconds cfg) collate seen locked
                (case pa_region a of Some r \<Rightarrow> r | None \<Rightarrow> ''eu-central'') want)) (\<lambda>n.
            and_then (gets (rows_on (nc_id n))) (\<lambda>rows.
            and_then (from_result (pick_port (map pd_port rows) (pc_pg_range cfg))) (\<lambda>port.
            and_then (from_result (pick_port (map pd_pooler rows) (pc_pooler_range cfg))) (\<lambda>pooler.
            and_then (from_result (pick_port_pair (pgrst_ports rows) (pc_pgrst_range cfg))) (\<lambda>pgrst.
            let d = new_row a (nc_id n) port pooler pgrst in
            and_then (insert_row d) (\<lambda>_.
            and_then (write_node (nc_id n) (\<lambda>r. r\<lparr>nd_ram_reserved := nd_ram_reserved r + bk_ram want,
                nd_disk_reserved := nd_disk_reserved r + bk_disk want\<rparr>)) (\<lambda>_.
            ret (placed_of d (nc_host n) (bk_ram want) False)))))))))"

definition disk_of_cap :: "nat \<Rightarrow> nat" where
  "disk_of_cap cap = max 1 (ceil_div (quota_of_cap cap) 1024)"

definition release_node :: "string \<Rightarrow> (place_db, place_error, bool \<times> nat) eff" where
  "release_node project =
     transaction
       (and_then (gets (row_of project)) (\<lambda>del.
        case del of
          None \<Rightarrow> ret (False, 0)
        | Some d \<Rightarrow>
            and_then (modifies (\<lambda>db. db\<lparr>pn_rows := filter (\<lambda>e. pd_project e \<noteq> project) (pn_rows db)\<rparr>)) (\<lambda>_.
            and_then (if pd_ram_booked d > 0
                then write_node (pd_node d) (\<lambda>r. r\<lparr>nd_ram_reserved := nd_ram_reserved r - pd_ram_booked d\<rparr>)
                else ret ()) (\<lambda>_.
            and_then (write_node (pd_node d)
                (\<lambda>r. r\<lparr>nd_disk_reserved := nd_disk_reserved r - disk_of_cap (pd_disk_limit d)\<rparr>)) (\<lambda>_.
            ret (True, pd_ram_booked d))))))"

definition release_ram :: "string \<Rightarrow> (place_db, place_error, bool \<times> nat) eff" where
  "release_ram project =
     transaction
       (and_then (gets (\<lambda>db. List.find (\<lambda>d. pd_project d = project \<and> pd_ram_booked d > 0) (pn_rows db))) (\<lambda>cur.
        case cur of
          None \<Rightarrow> ret (False, 0)
        | Some d \<Rightarrow>
            and_then (modifies (set_booked project 0)) (\<lambda>_.
            and_then (write_node (pd_node d) (\<lambda>r. r\<lparr>nd_ram_reserved := nd_ram_reserved r - pd_ram_booked d\<rparr>)) (\<lambda>_.
            ret (True, pd_ram_booked d)))))"

definition book_ram :: "place_db \<Rightarrow> string \<Rightarrow> string \<Rightarrow> (place_db, place_error, bool \<times> nat) eff" where
  \<comment> \<open>\<open>FOR UPDATE OF n\<close>: the placement row is the one of the statement's snapshot \<open>seen\<close>,
      the node row the one under the lock\<close>
  "book_ram seen project plan =
     transaction
       (let b = by_plan PLAN_RAM_MB plan in
        case joined project seen of
          None \<Rightarrow> throw NoPlacementRow
        | Some (d, _) \<Rightarrow>
            and_then (gets (node_by_id (pd_node d))) (\<lambda>locked.
            case locked of
              None \<Rightarrow> throw NoPlacementRow
            | Some n \<Rightarrow>
                if pd_ram_booked d > 0 then ret (False, pd_ram_booked d)
                else
                  and_then (from_result (can_fit (nd_ram_total n) (nd_ram_reserved n) b)) (\<lambda>ok.
                  if \<not> ok then throw (NodeFull (nd_host n) b)
                  else
                    and_then (modifies (set_booked project b)) (\<lambda>_.
                    and_then (write_node (nd_id n) (\<lambda>r. r\<lparr>nd_ram_reserved := nd_ram_reserved r + b\<rparr>)) (\<lambda>_.
                    ret (True, b))))))"


subsection \<open>What each operation does\<close>

definition locks_current :: "(string \<Rightarrow> node_row option) \<Rightarrow> booking \<Rightarrow> place_db \<Rightarrow> bool" where
  \<comment> \<open>a row that is passed over is released again and may have changed since; the row that is
      taken stays locked, so it is the row the rest of the transaction works on\<close>
  "locks_current locked want db =
     (\<forall>i r. locked i = Some r \<longrightarrow> nd_id r = i \<and>
        (nd_status r = ''active'' \<and> fits (candidate_of r) want = Inr True \<longrightarrow> node_by_id i db = Some r))"

lemma from_result_simps [simp]: "from_result (Inl e) = throw e" "from_result (Inr a) = ret a"
  by (simp_all add: from_result_def)

lemma take_first_SomeD:
  "take_first locked want cs = Inr (Some c) \<Longrightarrow>
     \<exists>i r. locked i = Some r \<and> c = candidate_of r \<and> nd_status r = ''active'' \<and> fits (candidate_of r) want = Inr True"
  by (induction locked want cs rule: take_first.induct) (auto split: option.splits sum.splits if_splits)

lemma pick_node_InrD:
  "pick_node limit collate seen locked region want = Inr c \<Longrightarrow>
     \<exists>i r. locked i = Some r \<and> c = candidate_of r \<and> nd_status r = ''active'' \<and> fits (candidate_of r) want = Inr True"
  unfolding pick_node_def Let_def
  by (auto split: if_splits sum.splits option.splits dest: take_first_SomeD)

lemma picked_row:
  assumes "pick_node limit collate seen locked region want = Inr c" "locks_current locked want db"
  obtains r where "node_by_id (nc_id c) db = Some r" "c = candidate_of r" "nd_status r = ''active''"
    "fits (candidate_of r) want = Inr True"
  using pick_node_InrD[OF assms(1)] assms(2) unfolding locks_current_def
  by (metis candidate.select_convs(1) candidate_of_def)

lemma port_from_SomeD: "port_from used p hi = Some q \<Longrightarrow> p \<le> q \<and> q \<le> hi \<and> q \<notin> set used"
  by (induction used p hi rule: port_from.induct) (subst (asm) (2) port_from.simps, force split: if_splits)

lemma pair_from_SomeD:
  "pair_from used p hi = Some q \<Longrightarrow> p \<le> q \<and> q + 1 \<le> hi \<and> q \<notin> set used \<and> q + 1 \<notin> set used \<and> even (q - p)"
proof (induction used p hi rule: pair_from.induct)
  case (1 used p hi)
  show ?case
  proof (cases "p \<notin> set used \<and> p + 1 \<notin> set used")
    case True
    with 1(2) show ?thesis by (subst (asm) pair_from.simps) (auto split: if_splits)
  next
    case False
    with 1(2) have "p + 1 \<le> hi" "pair_from used (p + 2) hi = Some q"
      by (subst (asm) pair_from.simps; auto split: if_splits)+
    with 1(1) False have "p + 2 \<le> q \<and> q + 1 \<le> hi \<and> q \<notin> set used \<and> q + 1 \<notin> set used \<and> even (q - (p + 2))" by blast
    then show ?thesis by auto
  qed
qed

lemma pick_port_InrD: "pick_port used bounds = Inr q \<Longrightarrow> fst bounds \<le> q \<and> q \<le> snd bounds \<and> q \<notin> set used"
  unfolding pick_port_def by (auto split: option.splits dest: port_from_SomeD)

lemma pick_port_pair_InrD: "pick_port_pair used bounds = Inr q \<Longrightarrow>
    fst bounds \<le> q \<and> q + 1 \<le> snd bounds \<and> q \<notin> set used \<and> q + 1 \<notin> set used"
  unfolding pick_port_pair_def by (auto split: option.splits dest: pair_from_SomeD)

lemma and_then_gets [simp]: "and_then (gets g) f s = f (g s) s"
  by (simp add: and_then_def gets_def)

lemma write_nodeE:
  assumes "write_node i f db = (r, db')"
  obtains "r = Inl CheckViolation" "db' = db"
  | "r = Inr ()" "db' = update_node i f db" "\<And>n. n \<in> set (pn_nodes db) \<Longrightarrow> nd_id n = i \<Longrightarrow> node_ok (f n)"
  using assms by (auto simp: write_node_def list_all_iff split: if_splits)

lemma insert_rowE:
  assumes "insert_row d db = (r, db')"
  obtains e where "r = Inl e" "db' = db"
  | "r = Inr ()" "db' = db\<lparr>pn_rows := pn_rows db @ [d]\<rparr>" "\<not> list_ex (clashes d) (pn_rows db)" "row_ok d"
  using assms by (auto simp: insert_row_def split: if_splits)

definition book_on :: "nat \<Rightarrow> nat \<Rightarrow> node_row \<Rightarrow> node_row" where
  "book_on ram disk n = n\<lparr>nd_ram_reserved := nd_ram_reserved n + ram, nd_disk_reserved := nd_disk_reserved n + disk\<rparr>"

lemma allocate_nodeE:
  assumes "allocate_node cfg collate seen locked a db = (r, db')"
  obtains e where "r = Inl e" "db' = db"
  | d n where "joined (pa_project a) seen = Some (d, n)" "db' = db"
      "r = Inr (placed_of d (nd_host n) (by_plan PLAN_RAM_MB (pa_plan a)) True)"
  | c port pooler pgrst where
      "joined (pa_project a) seen = None"
      "pick_node (pc_stale_seconds cfg) collate seen locked
         (case pa_region a of Some r \<Rightarrow> r | None \<Rightarrow> ''eu-central'') (want_of (pa_plan a)) = Inr c"
      "pick_port (map pd_port (rows_on (nc_id c) db)) (pc_pg_range cfg) = Inr port"
      "pick_port (map pd_pooler (rows_on (nc_id c) db)) (pc_pooler_range cfg) = Inr pooler"
      "pick_port_pair (pgrst_ports (rows_on (nc_id c) db)) (pc_pgrst_range cfg) = Inr pgrst"
      "\<not> list_ex (clashes (new_row a (nc_id c) port pooler pgrst)) (pn_rows db)"
      "row_ok (new_row a (nc_id c) port pooler pgrst)"
      "\<And>n. n \<in> set (pn_nodes db) \<Longrightarrow> nd_id n = nc_id c \<Longrightarrow>
         node_ok (book_on (bk_ram (want_of (pa_plan a))) (bk_disk (want_of (pa_plan a))) n)"
      "r = Inr (placed_of (new_row a (nc_id c) port pooler pgrst) (nc_host c) (by_plan PLAN_RAM_MB (pa_plan a)) False)"
      "db' = update_node (nc_id c) (book_on (bk_ram (want_of (pa_plan a))) (bk_disk (want_of (pa_plan a))))
         (db\<lparr>pn_rows := pn_rows db @ [new_row a (nc_id c) port pooler pgrst]\<rparr>)"
proof (cases "joined (pa_project a) seen")
  case (Some dn)
  then show ?thesis using assms that(2)
    by (cases dn) (simp add: allocate_node_def transaction_def ret_def want_of_def)
next
  case None
  note assm = assms[unfolded allocate_node_def Let_def None option.case]
  have err: thesis if "isl r \<and> db' = db" using that \<open>\<And>e. r = Inl e \<Longrightarrow> db' = db \<Longrightarrow> thesis\<close> by (cases r) auto
  let ?w = "want_of (pa_plan a)"
  show ?thesis
  proof (cases "pick_node (pc_stale_seconds cfg) collate seen locked
       (case pa_region a of Some r \<Rightarrow> r | None \<Rightarrow> ''eu-central'') ?w")
    case (Inl e)
    with assm have "isl r \<and> db' = db" by (auto simp: transaction_def throw_def)
      then show ?thesis by (rule err)
  next
    case c: (Inr c)
    note assm = assm[unfolded c from_result_simps and_then_ret]
    show ?thesis
    proof (cases "pick_port (map pd_port (rows_on (nc_id c) db)) (pc_pg_range cfg)")
      case (Inl e)
      with assm have "isl r \<and> db' = db" by (auto simp: transaction_def throw_def)
      then show ?thesis by (rule err)
    next
      case port: (Inr port)
      show ?thesis
      proof (cases "pick_port (map pd_pooler (rows_on (nc_id c) db)) (pc_pooler_range cfg)")
        case (Inl e)
        with assm port have "isl r \<and> db' = db" by (auto simp: transaction_def throw_def)
      then show ?thesis by (rule err)
      next
        case pooler: (Inr pooler)
        show ?thesis
        proof (cases "pick_port_pair (pgrst_ports (rows_on (nc_id c) db)) (pc_pgrst_range cfg)")
          case (Inl e)
          with assm port pooler have "isl r \<and> db' = db" by (auto simp: transaction_def throw_def)
      then show ?thesis by (rule err)
        next
          case pgrst: (Inr pgrst)
          let ?d = "new_row a (nc_id c) port pooler pgrst"
          note assm = assm[unfolded transaction_def and_then_gets port pooler pgrst from_result_simps and_then_ret]
          obtain ri db1 where i: "insert_row ?d db = (ri, db1)" by fastforce
          then show ?thesis
          proof (cases rule: insert_rowE)
            case (1 e)
            with i assm have "isl r \<and> db' = db" by (auto simp: and_then_def)
            then show ?thesis by (rule err)
          next
            case 2
            note ins = this
            obtain rw db2 where w: "write_node (nc_id c) (book_on (bk_ram ?w) (bk_disk ?w)) db1 = (rw, db2)" by fastforce
            note w' = w[unfolded book_on_def]
            from w show ?thesis
            proof (cases rule: write_nodeE)
              case 1
              with i ins w' assm have "isl r \<and> db' = db" by (auto simp: and_then_def)
            then show ?thesis by (rule err)
            next
              case 2
              have "r = Inr (placed_of ?d (nc_host c) (by_plan PLAN_RAM_MB (pa_plan a)) False)" "db' = db2"
                using i ins 2(1) w' assm by (auto simp: and_then_def ret_def want_of_def)
              then show ?thesis
                using that(3)[OF None c port pooler pgrst ins(3,4)] 2 ins(2) by simp
            qed
          qed
        qed
      qed
    qed
  qed
qed


definition unbook :: "nat \<Rightarrow> nat \<Rightarrow> node_row \<Rightarrow> node_row" where
  "unbook ram disk n = n\<lparr>nd_ram_reserved := nd_ram_reserved n - ram, nd_disk_reserved := nd_disk_reserved n - disk\<rparr>"

lemma update_node_update_node: "(\<And>n. nd_id (f n) = nd_id n) \<Longrightarrow> update_node i g (update_node i f db) = update_node i (g \<circ> f) db"
  by (simp add: update_node_def)

definition write_ok :: "string \<Rightarrow> (node_row \<Rightarrow> node_row) \<Rightarrow> place_db \<Rightarrow> bool" where
  "write_ok i f db = (\<forall>n\<in>set (pn_nodes db). nd_id n = i \<longrightarrow> node_ok (f n))"

lemma and_then_write_node: "and_then (write_node i f) g db =
    (if write_ok i f db then g () (update_node i f db) else (Inl CheckViolation, db))"
  by (cases "write_ok i f db") (auto simp: and_then_def write_node_def list_all_iff write_ok_def)

lemma and_then_modifies [simp]: "and_then (modifies f) g db = g () (f db)"
  by (simp add: and_then_def modifies_def)

lemma transaction_simps:
  "m db = (Inl e, db1) \<Longrightarrow> transaction m db = (Inl e, db)"
  "m db = (Inr a, db1) \<Longrightarrow> transaction m db = (Inr a, db1)"
  by (simp_all add: transaction_def)

lemma transaction_ret [simp]: "transaction (ret a) db = (Inr a, db)"
  by (simp add: transaction_def ret_def)

lemma release_nodeE:
  assumes "release_node project db = (r, db')"
  obtains "isl r \<and> db' = db"
  | "row_of project db = None" "r = Inr (False, 0)" "db' = db"
  | d where "row_of project db = Some d" "r = Inr (True, pd_ram_booked d)"
      "db' = update_node (pd_node d) (unbook (pd_ram_booked d) (disk_of_cap (pd_disk_limit d)))
         (db\<lparr>pn_rows := filter (\<lambda>e. pd_project e \<noteq> project) (pn_rows db)\<rparr>)"
      "\<And>n. n \<in> set (pn_nodes db) \<Longrightarrow> nd_id n = pd_node d \<Longrightarrow>
         node_ok (unbook (pd_ram_booked d) (disk_of_cap (pd_disk_limit d)) n)"
proof (cases "row_of project db")
  case None
  have "r = Inr (False, 0) \<and> db' = db"
    using assms unfolding release_node_def transaction_def and_then_gets None option.case ret_def by simp
  with None that(2) show ?thesis by blast
next
  case (Some d)
  let ?b = "pd_ram_booked d" and ?k = "disk_of_cap (pd_disk_limit d)"
  let ?ram = "\<lambda>r. r\<lparr>nd_ram_reserved := nd_ram_reserved r - ?b\<rparr>"
  let ?disk = "\<lambda>r. r\<lparr>nd_disk_reserved := nd_disk_reserved r - ?k\<rparr>"
  have comp: "?disk \<circ> ?ram = unbook ?b ?k" "?b = 0 \<Longrightarrow> ?disk = unbook ?b ?k"
    by (simp_all add: fun_eq_iff unbook_def)
  let ?db1 = "db\<lparr>pn_rows := filter (\<lambda>e. pd_project e \<noteq> project) (pn_rows db)\<rparr>"
  let ?w = "if ?b > 0 then write_node (pd_node d) ?ram else ret ()"
  let ?m = "and_then ?w (\<lambda>_. and_then (write_node (pd_node d) ?disk) (\<lambda>_. ret (True, ?b)))"
  have run: "(r, db') = (case ?m ?db1 of (Inl e, _) \<Rightarrow> (Inl e, db) | (Inr a, s') \<Rightarrow> (Inr a, s'))"
    using assms[symmetric] by (simp add: release_node_def transaction_def Some)
  let ?db2 = "if ?b > 0 then update_node (pd_node d) ?ram ?db1 else ?db1"
  show ?thesis
  proof (cases "(?b > 0 \<longrightarrow> write_ok (pd_node d) ?ram ?db1) \<and> write_ok (pd_node d) ?disk ?db2")
    case ok: True
    have m: "?m ?db1 = (Inr (True, ?b), update_node (pd_node d) ?disk ?db2)"
    proof (cases "?b > 0")
      case True
      then show ?thesis using ok by (simp only: if_True and_then_write_node ret_def simp_thms)
    next
      case False
      then show ?thesis using ok by (simp only: if_False and_then_ret and_then_write_node ret_def) simp
    qed
    have "update_node (pd_node d) ?disk ?db2 = update_node (pd_node d) (unbook ?b ?k) ?db1"
      by (cases "?b > 0") (simp_all add: update_node_update_node comp)
    with run m have eqs: "r = Inr (True, ?b)" "db' = update_node (pd_node d) (unbook ?b ?k) ?db1" by simp_all
    have "node_ok (unbook ?b ?k n)" if n: "n \<in> set (pn_nodes db)" "nd_id n = pd_node d" for n
    proof (cases "?b > 0")
      case True
      then have "?ram n \<in> set (pn_nodes ?db2)" using n by (force simp: update_node_def)
      then have "node_ok (?disk (?ram n))" using ok n by (auto simp: write_ok_def)
      then show ?thesis by (simp only: comp(1)[THEN fun_cong, unfolded comp_apply])
    next
      case False
      then show ?thesis using ok n comp(2) by (auto simp: write_ok_def)
    qed
    then show ?thesis using that(3)[OF Some eqs] by blast
  next
    case False
    have "\<exists>e db2. ?m ?db1 = (Inl e, db2)"
    proof (cases "?b > 0")
      case True
      then show ?thesis using False by (simp only: if_True and_then_write_node simp_thms split: if_split) auto
    next
      case b0: False
      then show ?thesis using False by (simp only: if_False and_then_ret and_then_write_node simp_thms split: if_split) auto
    qed
    with run have "isl r \<and> db' = db" by auto
    then show ?thesis by (rule that(1))
  qed
qed

lemma release_ramE:
  assumes "release_ram project db = (r, db')"
  obtains "isl r \<and> db' = db"
  | "List.find (\<lambda>d. pd_project d = project \<and> pd_ram_booked d > 0) (pn_rows db) = None" "r = Inr (False, 0)" "db' = db"
  | d where "List.find (\<lambda>d. pd_project d = project \<and> pd_ram_booked d > 0) (pn_rows db) = Some d"
      "r = Inr (True, pd_ram_booked d)"
      "db' = update_node (pd_node d) (unbook (pd_ram_booked d) 0) (set_booked project 0 db)"
      "\<And>n. n \<in> set (pn_nodes db) \<Longrightarrow> nd_id n = pd_node d \<Longrightarrow> node_ok (unbook (pd_ram_booked d) 0 n)"
proof (cases "List.find (\<lambda>d. pd_project d = project \<and> pd_ram_booked d > 0) (pn_rows db)")
  case None
  have "r = Inr (False, 0) \<and> db' = db"
    using assms unfolding release_ram_def transaction_def and_then_gets None option.case ret_def by simp
  with None that(2) show ?thesis by blast
next
  case (Some d)
  let ?b = "pd_ram_booked d"
  let ?ram = "\<lambda>r. r\<lparr>nd_ram_reserved := nd_ram_reserved r - ?b\<rparr>"
  have eq: "?ram = unbook ?b 0" by (simp add: fun_eq_iff unbook_def)
  have nodes: "pn_nodes (set_booked project 0 db) = pn_nodes db" by (simp add: set_booked_def)
  note run = assms[unfolded release_ram_def transaction_def and_then_gets Some option.case eq
    and_then_modifies and_then_write_node]
  show ?thesis
  proof (cases "write_ok (pd_node d) (unbook ?b 0) (set_booked project 0 db)")
    case True
    then have "r = Inr (True, ?b)" "db' = update_node (pd_node d) (unbook ?b 0) (set_booked project 0 db)"
      using run by (simp_all only: if_True, simp_all add: ret_def)
    then show ?thesis using that(3)[OF Some] True by (simp add: write_ok_def nodes)
  next
    case False
    then have "isl r \<and> db' = db" using run by (simp only: if_False) auto
    then show ?thesis by (rule that(1))
  qed
qed

lemma book_ramE:
  assumes "book_ram seen project plan db = (r, db')"
  obtains "isl r \<and> db' = db"
  | d m where "joined project seen = Some (d, m)" "pd_ram_booked d > 0" "r = Inr (False, pd_ram_booked d)" "db' = db"
  | d m n where "joined project seen = Some (d, m)" "pd_ram_booked d = 0" "node_by_id (pd_node d) db = Some n"
      "can_fit (nd_ram_total n) (nd_ram_reserved n) (by_plan PLAN_RAM_MB plan) = Inr True"
      "r = Inr (True, by_plan PLAN_RAM_MB plan)"
      "db' = update_node (pd_node d) (book_on (by_plan PLAN_RAM_MB plan) 0)
         (set_booked project (by_plan PLAN_RAM_MB plan) db)"
      "\<And>m. m \<in> set (pn_nodes db) \<Longrightarrow> nd_id m = pd_node d \<Longrightarrow> node_ok (book_on (by_plan PLAN_RAM_MB plan) 0 m)"
proof (cases "joined project seen")
  case None
  then have "isl r \<and> db' = db" using assms by (auto simp: book_ram_def transaction_def throw_def)
  then show ?thesis by (rule that(1))
next
  case (Some dm)
  then obtain d m where j: "joined project seen = Some (d, m)" by (cases dm) simp
  let ?b = "by_plan PLAN_RAM_MB plan"
  have eq: "(\<lambda>r. r\<lparr>nd_ram_reserved := nd_ram_reserved r + ?b\<rparr>) = book_on ?b 0" by (simp add: fun_eq_iff book_on_def)
  have nodes: "pn_nodes (set_booked project ?b db) = pn_nodes db" by (simp add: set_booked_def)
  note run = assms[unfolded book_ram_def Let_def transaction_def j option.case prod.case and_then_gets eq]
  show ?thesis
  proof (cases "node_by_id (pd_node d) db")
    case None
    then have "isl r \<and> db' = db" using run by (auto simp: throw_def)
    then show ?thesis by (rule that(1))
  next
    case n: (Some n)
    then have nid: "nd_id n = pd_node d" by (auto simp: node_by_id_def find_Some_iff)
    show ?thesis
    proof (cases "pd_ram_booked d > 0")
      case True
      then show ?thesis using that(2)[OF j] run n by (simp add: ret_def)
    next
      case b0: False
      show ?thesis
      proof (cases "can_fit (nd_ram_total n) (nd_ram_reserved n) ?b")
        case (Inl e)
        then have "isl r \<and> db' = db" using run n b0 by (auto simp: throw_def)
        then show ?thesis by (rule that(1))
      next
        case ok: (Inr ok)
        show ?thesis
        proof (cases "ok \<and> write_ok (pd_node d) (book_on ?b 0) (set_booked project ?b db)")
          case True
          then have "r = Inr (True, ?b)" "db' = update_node (pd_node d) (book_on ?b 0) (set_booked project ?b db)"
            using run n b0 ok nid
            by (simp_all only: option.case if_False from_result_simps and_then_ret and_then_modifies
                  and_then_write_node simp_thms if_True, simp_all add: ret_def)
          then show ?thesis using that(3)[OF j _ n] b0 ok True by (simp add: write_ok_def nodes)
        next
          case False
          then have "isl r \<and> db' = db"
            using run n b0 ok nid
            by (cases ok) (simp_all only: option.case if_False from_result_simps and_then_ret and_then_modifies
                  and_then_write_node simp_thms if_True, auto simp: throw_def)
          then show ?thesis by (rule that(1))
        qed
      qed
    qed
  qed
qed


subsection \<open>The accounts of a node\<close>

definition ram_sum :: "string \<Rightarrow> place_db \<Rightarrow> nat" where
  "ram_sum i db = sum_list (map pd_ram_booked (rows_on i db))"

definition disk_sum :: "string \<Rightarrow> place_db \<Rightarrow> nat" where
  "disk_sum i db = sum_list (map (\<lambda>d. disk_of_cap (pd_disk_limit d)) (rows_on i db))"

definition accounts :: "place_db \<Rightarrow> bool" where
  "accounts db =
     (distinct (map nd_id (pn_nodes db)) \<and> distinct (map pd_project (pn_rows db)) \<and>
      (\<forall>n\<in>set (pn_nodes db). node_ok n \<and> nd_ram_reserved n = ram_sum (nd_id n) db
         \<and> nd_disk_reserved n = disk_sum (nd_id n) db) \<and>
      (\<forall>d\<in>set (pn_rows db). pd_node d \<in> nd_id ` set (pn_nodes db)))"

lemma accountsI:
  assumes "distinct (map nd_id (pn_nodes db))" "distinct (map pd_project (pn_rows db))"
    "\<And>n. n \<in> set (pn_nodes db) \<Longrightarrow> node_ok n \<and> nd_ram_reserved n = ram_sum (nd_id n) db
         \<and> nd_disk_reserved n = disk_sum (nd_id n) db"
    "\<And>d. d \<in> set (pn_rows db) \<Longrightarrow> pd_node d \<in> nd_id ` set (pn_nodes db)"
  shows "accounts db"
  using assms by (simp add: accounts_def)

lemma map_update_node_id:
  assumes "\<And>n. nd_id (f n) = nd_id n"
  shows "map nd_id (pn_nodes (update_node i f db)) = map nd_id (pn_nodes db)"
    "nd_id ` set (pn_nodes (update_node i f db)) = nd_id ` set (pn_nodes db)"
proof -
  show "map nd_id (pn_nodes (update_node i f db)) = map nd_id (pn_nodes db)"
    using assms by (simp add: update_node_def)
  then show "nd_id ` set (pn_nodes (update_node i f db)) = nd_id ` set (pn_nodes db)"
    by (metis list.set_map)
qed

lemma update_node_simps [simp]:
  "pn_rows (update_node i f db) = pn_rows db" "pn_now (update_node i f db) = pn_now db"
  "rows_on j (update_node i f db) = rows_on j db"
  "ram_sum j (update_node i f db) = ram_sum j db" "disk_sum j (update_node i f db) = disk_sum j db"
  by (simp_all add: update_node_def rows_on_def ram_sum_def disk_sum_def)

lemma book_id [simp]: "nd_id (book_on r k n) = nd_id n" "nd_id (unbook r k n) = nd_id n"
  by (simp_all add: book_on_def unbook_def)

text \<open>
  The shape every operation on a placement has: the rows change, one node is adjusted, and the
  two changes agree.
\<close>

lemma accounts_move:
  assumes acc: "accounts db" and nodes: "pn_nodes db1 = pn_nodes db"
    and proj: "distinct (map pd_project (pn_rows db1))"
    and rows: "\<And>d. d \<in> set (pn_rows db1) \<Longrightarrow> pd_node d \<in> nd_id ` set (pn_nodes db)"
    and idf: "\<And>n. nd_id (f n) = nd_id n"
    and ok: "\<And>n. n \<in> set (pn_nodes db) \<Longrightarrow> nd_id n = i \<Longrightarrow> node_ok (f n)"
    and here: "\<And>n. n \<in> set (pn_nodes db) \<Longrightarrow> nd_id n = i \<Longrightarrow>
      nd_ram_reserved (f n) = ram_sum i db1 \<and> nd_disk_reserved (f n) = disk_sum i db1"
    and there: "\<And>j. j \<noteq> i \<Longrightarrow> ram_sum j db1 = ram_sum j db \<and> disk_sum j db1 = disk_sum j db"
  shows "accounts (update_node i f db1)"
proof (rule accountsI)
  show "distinct (map nd_id (pn_nodes (update_node i f db1)))"
    using acc by (simp add: map_update_node_id(1)[OF idf] nodes accounts_def)
  show "distinct (map pd_project (pn_rows (update_node i f db1)))" using proj by simp
next
  fix m assume "m \<in> set (pn_nodes (update_node i f db1))"
  then obtain n where n: "n \<in> set (pn_nodes db)" "m = (if nd_id n = i then f n else n)"
    by (auto simp: update_node_def nodes)
  then show "node_ok m \<and> nd_ram_reserved m = ram_sum (nd_id m) (update_node i f db1)
      \<and> nd_disk_reserved m = disk_sum (nd_id m) (update_node i f db1)"
    using ok[OF n(1)] here[OF n(1)] there[of "nd_id n"] acc idf by (auto simp: accounts_def)
next
  fix d assume "d \<in> set (pn_rows (update_node i f db1))"
  then show "pd_node d \<in> nd_id ` set (pn_nodes (update_node i f db1))"
    using rows by (simp add: map_update_node_id(2)[OF idf] nodes)
qed

lemma sums_append: "ram_sum i (db\<lparr>pn_rows := pn_rows db @ [d]\<rparr>) = ram_sum i db + (if pd_node d = i then pd_ram_booked d else 0)"
  "disk_sum i (db\<lparr>pn_rows := pn_rows db @ [d]\<rparr>) =
     disk_sum i db + (if pd_node d = i then disk_of_cap (pd_disk_limit d) else 0)"
  by (simp_all add: ram_sum_def disk_sum_def rows_on_def)

lemma find_split: "List.find P xs = Some x \<Longrightarrow> \<exists>as bs. xs = as @ x # bs \<and> P x \<and> (\<forall>a\<in>set as. \<not> P a)"
proof (induction xs)
  case (Cons y ys)
  show ?case
  proof (cases "P y")
    case True
    with Cons show ?thesis by (intro exI[of _ "[]"] exI[of _ ys]) simp
  next
    case False
    with Cons obtain as bs where "ys = as @ x # bs" "P x" "\<forall>a\<in>set as. \<not> P a" by auto
    with False show ?thesis by (intro exI[of _ "y # as"] exI[of _ bs]) simp
  qed
qed simp

lemma row_of_split:
  assumes "row_of project db = Some d" "distinct (map pd_project (pn_rows db))"
  obtains as bs where "pn_rows db = as @ d # bs" "pd_project d = project"
    "\<forall>e\<in>set as \<union> set bs. pd_project e \<noteq> project"
proof -
  from find_split[OF assms(1)[unfolded row_of_def]] obtain as bs where
    s: "pn_rows db = as @ d # bs" "pd_project d = project" by blast
  with assms(2) have "\<forall>e\<in>set as \<union> set bs. pd_project e \<noteq> project" by (auto simp: image_iff)
  with s that show thesis by blast
qed

lemma filter_others: "\<forall>e\<in>set as. pd_project e \<noteq> p \<Longrightarrow> filter (\<lambda>e. pd_project e \<noteq> p) as = as"
  by (simp add: filter_id_conv)

lemma map_others: "\<forall>e\<in>set as. pd_project e \<noteq> p \<Longrightarrow> map (\<lambda>d. if pd_project d = p then f d else d) as = as"
  by (simp add: map_idI)

lemma disk_of_plan: "disk_of_cap (by_plan PLAN_DISK_CAP_MB plan) = disk_booking_gb_for plan"
  by (simp add: disk_of_cap_def disk_booking_gb_for_def quota_mb_for_def)

lemma accounts_allocate:
  assumes "accounts db" "locks_current locked (want_of (pa_plan a)) db"
    "allocate_node cfg collate seen locked a db = (r, db')"
  shows "accounts db'"
  using assms(3)
proof (cases rule: allocate_nodeE)
  case (3 c port pooler pgrst)
  let ?w = "want_of (pa_plan a)" and ?d = "new_row a (nc_id c) port pooler pgrst"
  from picked_row[OF 3(2) assms(2)] obtain n where n: "node_by_id (nc_id c) db = Some n" by blast
  then have nin: "n \<in> set (pn_nodes db)" "nd_id n = nc_id c" by (auto simp: node_by_id_def find_Some_iff)
  have d: "pd_node ?d = nc_id c" "pd_project ?d = pa_project a" "pd_ram_booked ?d = bk_ram ?w"
    "disk_of_cap (pd_disk_limit ?d) = bk_disk ?w"
    by (simp_all add: new_row_def want_of_def disk_of_plan)
  have fresh: "pa_project a \<notin> pd_project ` set (pn_rows db)"
    using 3(6) d by (force simp: list_ex_iff clashes_def)
  show ?thesis unfolding 3(10)
  proof (rule accounts_move[OF assms(1)])
    show "distinct (map pd_project (pn_rows (db\<lparr>pn_rows := pn_rows db @ [?d]\<rparr>)))"
      using assms(1) fresh by (simp add: accounts_def d)
    show "pd_node e \<in> nd_id ` set (pn_nodes db)"
      if "e \<in> set (pn_rows (db\<lparr>pn_rows := pn_rows db @ [?d]\<rparr>))" for e
      using that assms(1) d(1) nin(1) imageI[OF nin(1), of nd_id] by (auto simp: accounts_def nin(2))
  qed (use 3(8) assms(1) in \<open>auto simp: sums_append d accounts_def book_on_def\<close>)
qed (use assms(1) in simp_all)

lemma accounts_release:
  assumes "accounts db" "release_node project db = (r, db')"
  shows "accounts db'"
  using assms(2)
proof (cases rule: release_nodeE)
  case (3 d)
  have dist: "distinct (map pd_project (pn_rows db))" using assms(1) by (simp add: accounts_def)
  from row_of_split[OF 3(1) dist] obtain as bs where s: "pn_rows db = as @ d # bs" "pd_project d = project"
    "\<forall>e\<in>set as \<union> set bs. pd_project e \<noteq> project" .
  then have rows: "filter (\<lambda>e. pd_project e \<noteq> project) (pn_rows db) = as @ bs"
    by (simp add: filter_others)
  let ?db1 = "db\<lparr>pn_rows := as @ bs\<rparr>"
  have sums: "ram_sum j db = ram_sum j ?db1 + (if pd_node d = j then pd_ram_booked d else 0)"
    "disk_sum j db = disk_sum j ?db1 + (if pd_node d = j then disk_of_cap (pd_disk_limit d) else 0)" for j
    by (simp_all add: ram_sum_def disk_sum_def rows_on_def s(1))
  show ?thesis unfolding 3(3) rows
  proof (rule accounts_move[OF assms(1)])
    show "distinct (map pd_project (pn_rows ?db1))" using dist s(1) by auto
    show "pd_node e \<in> nd_id ` set (pn_nodes db)" if "e \<in> set (pn_rows ?db1)" for e
      using that assms(1) s(1) by (auto simp: accounts_def)
  qed (use 3(4) assms(1) sums in \<open>auto simp: accounts_def unbook_def\<close>)
qed (use assms(1) in simp_all)


lemma split_row:
  assumes "d \<in> set (pn_rows db)" "pd_project d = project" "distinct (map pd_project (pn_rows db))"
  obtains as bs where "pn_rows db = as @ d # bs" "\<forall>e\<in>set as \<union> set bs. pd_project e \<noteq> project"
proof -
  from assms(1) obtain as bs where s: "pn_rows db = as @ d # bs" by (meson split_list)
  with assms(2,3) have "\<forall>e\<in>set as \<union> set bs. pd_project e \<noteq> project" by (auto simp: image_iff)
  with s show thesis by (rule that)
qed

lemma set_booked_split:
  assumes "pn_rows db = as @ d # bs" "\<forall>e\<in>set as \<union> set bs. pd_project e \<noteq> project" "pd_project d = project"
  shows "pn_rows (set_booked project b db) = as @ d\<lparr>pd_ram_booked := b\<rparr> # bs"
  using assms by (simp add: set_booked_def map_others)

lemma set_booked_sums:
  assumes "pn_rows db = as @ d # bs" "\<forall>e\<in>set as \<union> set bs. pd_project e \<noteq> project" "pd_project d = project"
  shows "ram_sum j (set_booked project b db) + (if pd_node d = j then pd_ram_booked d else 0)
      = ram_sum j db + (if pd_node d = j then b else 0)"
    "disk_sum j (set_booked project b db) = disk_sum j db"
  by (simp_all add: ram_sum_def disk_sum_def rows_on_def set_booked_split[OF assms] assms(1))

lemma set_booked_keys [simp]:
  "pn_nodes (set_booked project b db) = pn_nodes db"
  "map pd_project (pn_rows (set_booked project b db)) = map pd_project (pn_rows db)"
  by (simp_all add: set_booked_def if_distrib cong: if_cong)

lemma accounts_set_booked:
  assumes acc: "accounts db" and d: "d \<in> set (pn_rows db)" "pd_project d = project"
    and f: "\<And>n. nd_id (f n) = nd_id n" "\<And>n. nd_disk_reserved (f n) = nd_disk_reserved n"
    and ok: "\<And>n. n \<in> set (pn_nodes db) \<Longrightarrow> nd_id n = pd_node d \<Longrightarrow> node_ok (f n)"
    and bal: "\<And>n. n \<in> set (pn_nodes db) \<Longrightarrow> nd_id n = pd_node d \<Longrightarrow> pd_ram_booked d \<le> nd_ram_reserved n \<Longrightarrow>
       nd_ram_reserved (f n) + pd_ram_booked d = nd_ram_reserved n + b"
  shows "accounts (update_node (pd_node d) f (set_booked project b db))"
proof -
  have dist: "distinct (map pd_project (pn_rows db))" using acc by (simp add: accounts_def)
  from split_row[OF d dist] obtain as bs where s: "pn_rows db = as @ d # bs"
    "\<forall>e\<in>set as \<union> set bs. pd_project e \<noteq> project" .
  note sums = set_booked_sums[OF s d(2)]
  have le: "pd_ram_booked d \<le> ram_sum (pd_node d) db" by (simp add: ram_sum_def rows_on_def s(1))
  show ?thesis
  proof (rule accounts_move[OF acc])
    show "distinct (map pd_project (pn_rows (set_booked project b db)))" using dist by simp
    show "pd_node e \<in> nd_id ` set (pn_nodes db)" if "e \<in> set (pn_rows (set_booked project b db))" for e
      using that acc s(1) unfolding set_booked_split[OF s d(2)] by (auto simp: accounts_def)
  next
    fix n assume n: "n \<in> set (pn_nodes db)" "nd_id n = pd_node d"
    then have r: "nd_ram_reserved n = ram_sum (pd_node d) db" "nd_disk_reserved n = disk_sum (pd_node d) db"
      using acc by (auto simp: accounts_def)
    with bal[OF n] sums[of "pd_node d" b] le f(2)[of n]
    show "nd_ram_reserved (f n) = ram_sum (pd_node d) (set_booked project b db) \<and>
        nd_disk_reserved (f n) = disk_sum (pd_node d) (set_booked project b db)" by simp
  next
    fix j assume "j \<noteq> pd_node d"
    with sums[of j b] show "ram_sum j (set_booked project b db) = ram_sum j db \<and>
        disk_sum j (set_booked project b db) = disk_sum j db" by simp
  qed (use f(1) ok in simp_all)
qed

lemma accounts_release_ram:
  assumes "accounts db" "release_ram project db = (r, db')"
  shows "accounts db'"
  using assms(2)
proof (cases rule: release_ramE)
  case (3 d)
  from find_split[OF 3(1)] have "d \<in> set (pn_rows db)" "pd_project d = project" by auto
  from accounts_set_booked[OF assms(1) this, of "unbook (pd_ram_booked d) 0" 0] 3(4)
  show ?thesis unfolding 3(3) by (simp add: unbook_def)
qed (use assms(1) in simp_all)

lemma joinedD: "joined project db = Some (d, n) \<Longrightarrow>
    d \<in> set (pn_rows db) \<and> pd_project d = project \<and> row_of project db = Some d \<and> n \<in> set (pn_nodes db) \<and> nd_id n = pd_node d
    \<and> node_by_id (pd_node d) db = Some n"
  by (auto simp: joined_def row_of_def node_by_id_def find_Some_iff split: option.splits)

lemma accounts_book_ram:
  assumes "accounts db" "book_ram db project plan db = (r, db')"
  shows "accounts db'"
  using assms(2)
proof (cases rule: book_ramE)
  case (3 d m n)
  from joinedD[OF 3(1)] have "d \<in> set (pn_rows db)" "pd_project d = project" by auto
  from accounts_set_booked[OF assms(1) this, of "book_on (by_plan PLAN_RAM_MB plan) 0" "by_plan PLAN_RAM_MB plan"] 3(2,7)
  show ?thesis unfolding 3(6) by (simp add: book_on_def)
qed (use assms(1) in simp_all)

lemma accounts_register:
  assumes acc: "accounts db" and run: "register_node i g db = (r, db')"
  shows "accounts db'"
proof (cases "List.find (\<lambda>n. nd_host n = rg_host g) (pn_nodes db)")
  case (Some m)
  have idf: "nd_id (reregistered g (pn_now db) n) = nd_id n"
    "nd_ram_reserved (reregistered g (pn_now db) n) = nd_ram_reserved n"
    "nd_disk_reserved (reregistered g (pn_now db) n) = nd_disk_reserved n" for n
    by (simp_all add: reregistered_def)
  show ?thesis
  proof (cases "write_ok (nd_id m) (reregistered g (pn_now db)) db")
    case True
    with run Some have "db' = update_node (nd_id m) (reregistered g (pn_now db)) db"
      by (simp add: register_node_def and_then_write_node ret_def)
    moreover have "accounts (update_node (nd_id m) (reregistered g (pn_now db)) db)"
      by (rule accounts_move[OF acc]) (use acc True idf in \<open>auto simp: accounts_def write_ok_def\<close>)
    ultimately show ?thesis by simp
  next
    case False
    with run Some acc show ?thesis by (simp add: register_node_def and_then_write_node)
  qed
next
  case None
  show ?thesis
  proof (cases "list_ex (\<lambda>n. nd_id n = i) (pn_nodes db) \<or> \<not> node_ok (fresh_node i g (pn_now db))")
    case True
    with run None acc show ?thesis by (simp add: register_node_def split: if_splits)
  next
    case False
    then have db': "db' = db\<lparr>pn_nodes := pn_nodes db @ [fresh_node i g (pn_now db)]\<rparr>"
      and fresh: "i \<notin> nd_id ` set (pn_nodes db)" and ok: "node_ok (fresh_node i g (pn_now db))"
      using run None by (auto simp: register_node_def list_ex_iff)
    have sums: "ram_sum j (db\<lparr>pn_nodes := ns\<rparr>) = ram_sum j db" "disk_sum j (db\<lparr>pn_nodes := ns\<rparr>) = disk_sum j db" for j ns
      by (simp_all add: ram_sum_def disk_sum_def rows_on_def)
    have none: "rows_on i db = []"
      using acc fresh by (auto simp: accounts_def rows_on_def filter_empty_conv)
    have "ram_sum i db = 0" "disk_sum i db = 0" by (simp_all add: ram_sum_def disk_sum_def none)
    moreover have new: "nd_id (fresh_node i g (pn_now db)) = i" "nd_ram_reserved (fresh_node i g (pn_now db)) = 0"
      "nd_disk_reserved (fresh_node i g (pn_now db)) = 0" by (simp_all add: fresh_node_def)
    ultimately show ?thesis
      using acc fresh ok by (intro accountsI) (auto simp: sums accounts_def db')
  qed
qed


subsection \<open>Ports\<close>

definition ports_apart :: "place_db \<Rightarrow> bool" where
  "ports_apart db = (\<forall>i. distinct (map pd_port (rows_on i db)) \<and> distinct (map pd_pooler (rows_on i db))
     \<and> distinct (pgrst_ports (rows_on i db)))"

lemma pgrst_ports_simps [simp]:
  "pgrst_ports [] = []"
  "pgrst_ports (d # ds) = (case pd_pgrst d of None \<Rightarrow> [] | Some p \<Rightarrow> [p])
     @ (case pd_pgrst_admin d of None \<Rightarrow> [] | Some p \<Rightarrow> [p]) @ pgrst_ports ds"
  "pgrst_ports (ds @ es) = pgrst_ports ds @ pgrst_ports es"
  by (simp_all add: pgrst_ports_def map_filter_def split: option.splits)

lemma pgrst_ports_filter: "set (pgrst_ports (filter P ds)) \<subseteq> set (pgrst_ports ds)"
  by (induction ds) (auto split: option.splits)

lemma distinct_pgrst_filter: "distinct (pgrst_ports ds) \<Longrightarrow> distinct (pgrst_ports (filter P ds))"
proof (induction ds)
  case (Cons d ds)
  with pgrst_ports_filter[of P ds] show ?case by (auto split: option.splits)
qed simp

lemma ports_apart_filter:
  assumes "ports_apart db"
  shows "ports_apart (db\<lparr>pn_rows := filter P (pn_rows db)\<rparr>)"
proof -
  have "rows_on i (db\<lparr>pn_rows := filter P (pn_rows db)\<rparr>) = filter P (rows_on i db)" for i
    by (simp add: rows_on_def conj_commute)
  then show ?thesis using assms
    by (simp add: ports_apart_def distinct_map_filter distinct_pgrst_filter)
qed

lemma rows_on_set_booked:
  "rows_on i (set_booked p b db) = map (\<lambda>d. if pd_project d = p then d\<lparr>pd_ram_booked := b\<rparr> else d) (rows_on i db)"
  unfolding rows_on_def set_booked_def by (simp add: filter_map o_def if_distrib cong: if_cong)

lemma pgrst_ports_map:
  "(\<And>d. pd_pgrst (g d) = pd_pgrst d \<and> pd_pgrst_admin (g d) = pd_pgrst_admin d) \<Longrightarrow> pgrst_ports (map g ds) = pgrst_ports ds"
  by (induction ds) auto

lemma ports_set_booked [simp]:
  "map pd_port (rows_on i (set_booked p b db)) = map pd_port (rows_on i db)"
  "map pd_pooler (rows_on i (set_booked p b db)) = map pd_pooler (rows_on i db)"
  "pgrst_ports (rows_on i (set_booked p b db)) = pgrst_ports (rows_on i db)"
  unfolding rows_on_set_booked by (simp_all add: o_def if_distrib pgrst_ports_map cong: if_cong)

lemma ports_apart_set_booked [simp]: "ports_apart (set_booked p b db) = ports_apart db"
  unfolding ports_apart_def by simp

lemma ports_apart_update [simp]: "ports_apart (update_node i f db) = ports_apart db"
  unfolding ports_apart_def by simp

lemma ports_apart_nodes [simp]: "ports_apart (db\<lparr>pn_nodes := ns\<rparr>) = ports_apart db"
  unfolding ports_apart_def rows_on_def by simp

lemma ports_apart_allocate:
  assumes "ports_apart db" "allocate_node cfg collate seen locked a db = (r, db')"
  shows "ports_apart db'"
  using assms(2)
proof (cases rule: allocate_nodeE)
  case (3 c port pooler pgrst)
  let ?d = "new_row a (nc_id c) port pooler pgrst"
  have d: "pd_node ?d = nc_id c" "pd_port ?d = port" "pd_pooler ?d = pooler"
    "pd_pgrst ?d = Some pgrst" "pd_pgrst_admin ?d = Some (pgrst + 1)" by (simp_all add: new_row_def)
  have rows: "rows_on i (db\<lparr>pn_rows := pn_rows db @ [?d]\<rparr>) = rows_on i db @ (if nc_id c = i then [?d] else [])" for i
    by (simp add: rows_on_def d)
  show ?thesis unfolding 3(10) ports_apart_update
    using assms(1) pick_port_InrD[OF 3(3)] pick_port_InrD[OF 3(4)] pick_port_pair_InrD[OF 3(5)]
    by (auto simp: ports_apart_def rows d)
qed (use assms(1) in simp_all)

subsection \<open>The life of a fleet\<close>

inductive place_step :: "place_cfg \<Rightarrow> (string \<Rightarrow> 'k::linorder) \<Rightarrow> place_db \<Rightarrow> place_db \<Rightarrow> bool" for cfg collate where
  registered: "register_node i g db = (r, db') \<Longrightarrow> place_step cfg collate db db'"
| allocated: "locks_current locked (want_of (pa_plan a)) db \<Longrightarrow>
    allocate_node cfg collate seen locked a db = (rp, db') \<Longrightarrow> place_step cfg collate db db'"
| released: "release_node project db = (rr, db') \<Longrightarrow> place_step cfg collate db db'"
| paused: "release_ram project db = (rr, db') \<Longrightarrow> place_step cfg collate db db'"
| resumed: "book_ram db project plan db = (rr, db') \<Longrightarrow> place_step cfg collate db db'"
| cordoned: "place_step cfg collate db (update_node i (\<lambda>n. n\<lparr>nd_status := status\<rparr>) db)"
| ticked: "place_step cfg collate db (db\<lparr>pn_now := pn_now db + k\<rparr>)"

definition empty_fleet :: place_db where
  "empty_fleet = \<lparr>pn_nodes = [], pn_rows = [], pn_now = 0\<rparr>"

lemma accounts_step: "place_step cfg collate db db' \<Longrightarrow> accounts db \<Longrightarrow> accounts db'"
proof (induction rule: place_step.induct)
  case (cordoned db i status)
  let ?f = "\<lambda>n. n\<lparr>nd_status := status\<rparr>"
  have "node_ok (?f n) = node_ok n" for n by (simp add: node_ok_def)
  then show ?case
    by (intro accounts_move[OF cordoned]) (use cordoned in \<open>auto simp: accounts_def\<close>)
next
  case (ticked db k)
  then show ?case by (auto simp: accounts_def ram_sum_def disk_sum_def rows_on_def)
qed (blast intro: accounts_register accounts_allocate accounts_release accounts_release_ram accounts_book_ram)+

lemma ports_apart_step: "place_step cfg collate db db' \<Longrightarrow> ports_apart db \<Longrightarrow> ports_apart db'"
proof (induction rule: place_step.induct)
  case (registered i g db r db')
  then show ?case
    by (auto simp: register_node_def and_then_write_node ret_def split: option.splits if_splits)
next
  case (allocated locked a db seen rp db')
  then show ?case by (blast intro: ports_apart_allocate)
next
  case (released project db rr db')
  from released(1) show ?case
    by (cases rule: release_nodeE) (use released(2) in \<open>auto intro: ports_apart_filter\<close>)
next
  case (paused project db rr db')
  from paused(1) show ?case by (cases rule: release_ramE) (use paused(2) in auto)
next
  case (resumed db project plan rr db')
  from resumed(1) show ?case by (cases rule: book_ramE) (use resumed(2) in auto)
next
  case (ticked db k)
  then show ?case by (simp add: ports_apart_def rows_on_def)
qed simp_all

lemma fleet_invariant: "(place_step cfg collate)\<^sup>*\<^sup>* empty_fleet db \<Longrightarrow> accounts db \<and> ports_apart db"
proof (induction rule: rtranclp_induct)
  case base
  show ?case by (simp add: empty_fleet_def accounts_def ports_apart_def rows_on_def)
next
  case (step db db')
  then show ?case by (blast intro: accounts_step ports_apart_step)
qed


subsection \<open>Properties\<close>

lemma node_by_id_update:
  assumes "node_by_id i db = Some n" "\<And>n. nd_id (f n) = nd_id n"
  shows "node_by_id i (update_node i f db) = Some (f n)"
proof -
  have "List.find (\<lambda>n. nd_id n = i) (map (\<lambda>n. if nd_id n = i then f n else n) ns)
      = map_option f (List.find (\<lambda>n. nd_id n = i) ns)" for ns
    using assms(2) by (induction ns) auto
  then show ?thesis using assms(1) by (simp add: node_by_id_def update_node_def)
qed

lemma update_node_others: "m \<in> set (pn_nodes db) \<Longrightarrow> nd_id m \<noteq> i \<Longrightarrow> m \<in> set (pn_nodes (update_node i f db))"
  by (force simp: update_node_def)

lemma fits_le:
  "fits (candidate_of n) w = Inr True \<Longrightarrow> nd_ram_reserved n + bk_ram w \<le> ceiling_of (nd_ram_total n)
     \<and> nd_disk_reserved n + bk_disk w \<le> ceiling_of (nd_disk_total n)"
  by (auto simp: fits_def candidate_of_def split: if_splits)


text \<open>
  C30. An allocation never takes a node past the 85% stop. Whatever the ranking was computed from,
  however stale, a new placement is on a node that is active when its row is locked and that has
  room for the booking under the ceiling on both axes at that moment; the node is charged exactly
  the plan's booking, one row is added, for a project that had none, and no other node changes.
\<close>

theorem allocation_respects_the_ceiling:
  assumes run: "allocate_node cfg collate seen locked a db = (Inr p, db')" and new: "\<not> pl_replayed p"
    and locks: "locks_current locked (want_of (pa_plan a)) db"
  shows "\<exists>n d. node_by_id (pl_node p) db = Some n \<and> nd_status n = ''active''
    \<and> nd_ram_reserved n + by_plan PLAN_RAM_MB (pa_plan a) \<le> ceiling_of (nd_ram_total n)
    \<and> nd_disk_reserved n + disk_booking_gb_for (pa_plan a) \<le> ceiling_of (nd_disk_total n)
    \<and> node_by_id (pl_node p) db' = Some (n\<lparr>
        nd_ram_reserved := nd_ram_reserved n + by_plan PLAN_RAM_MB (pa_plan a),
        nd_disk_reserved := nd_disk_reserved n + disk_booking_gb_for (pa_plan a)\<rparr>)
    \<and> (\<forall>m\<in>set (pn_nodes db). nd_id m \<noteq> pl_node p \<longrightarrow> m \<in> set (pn_nodes db'))
    \<and> pn_rows db' = pn_rows db @ [d] \<and> pd_project d = pa_project a \<and> pd_node d = pl_node p
    \<and> pd_ram_booked d = pl_booked p \<and> row_of (pa_project a) db = None"
  using run
proof (cases rule: allocate_nodeE)
  case (2 d n)
  then show ?thesis using new by (simp add: placed_of_def)
next
  case (3 c port pooler pgrst)
  let ?w = "want_of (pa_plan a)" and ?d = "new_row a (nc_id c) port pooler pgrst"
  from picked_row[OF 3(2) locks] obtain n where n: "node_by_id (nc_id c) db = Some n" "nd_status n = ''active''"
    "fits (candidate_of n) ?w = Inr True" "c = candidate_of n" by blast
  have p: "pl_node p = nc_id c" "pl_booked p = pd_ram_booked ?d" "pd_project ?d = pa_project a" "pd_node ?d = nc_id c"
    using 3(9) by (auto simp: placed_of_def new_row_def)
  have w: "bk_ram ?w = by_plan PLAN_RAM_MB (pa_plan a)" "bk_disk ?w = disk_booking_gb_for (pa_plan a)"
    by (simp_all add: want_of_def)
  have upd: "node_by_id (nc_id c) db' = Some (book_on (bk_ram ?w) (bk_disk ?w) n)"
    unfolding 3(10) using n(1) by (intro node_by_id_update) (simp_all add: node_by_id_def)
  have others: "\<forall>m\<in>set (pn_nodes db). nd_id m \<noteq> nc_id c \<longrightarrow> m \<in> set (pn_nodes db')"
    unfolding 3(10) by (auto intro: update_node_others)
  have "row_of (pa_project a) db = None"
    using 3(6) p(3) by (auto simp: row_of_def find_None_iff list_ex_iff clashes_def)
  moreover have "pn_rows db' = pn_rows db @ [?d]" using 3(10) by simp
  ultimately show ?thesis
    using n(1,2) fits_le[OF n(3)] upd others p unfolding w book_on_def
    by (intro exI[of _ n] exI[of _ ?d]) simp
qed simp_all


lemma ceiling_le: "ceiling_of t \<le> t"
  by (simp add: ceiling_of_def)

lemma node_by_id_unique:
  assumes "accounts db" "node_by_id i db = Some n" "m \<in> set (pn_nodes db)" "nd_id m = i"
  shows "m = n"
proof -
  from assms(2) have "n \<in> set (pn_nodes db)" "nd_id n = i" by (auto simp: node_by_id_def find_Some_iff)
  with assms(1,3,4) show ?thesis by (auto simp: accounts_def distinct_map inj_on_def)
qed

lemma find_booked:
  assumes "pn_rows db = as @ d # bs" "pd_project d = project" "\<forall>e\<in>set as \<union> set bs. pd_project e \<noteq> project"
  shows "row_of project db = Some d"
    "List.find (\<lambda>d. pd_project d = project \<and> pd_ram_booked d > 0) (pn_rows db) =
       (if pd_ram_booked d > 0 then Some d else None)"
proof -
  have none: "List.find (\<lambda>d. pd_project d = project) as = None"
    "List.find (\<lambda>d. pd_project d = project \<and> pd_ram_booked d > 0) as = None"
    "List.find (\<lambda>d. pd_project d = project \<and> pd_ram_booked d > 0) bs = None"
    using assms(3) by (auto simp: find_None_iff)
  show "row_of project db = Some d" using none assms(2) by (simp add: row_of_def assms(1) find_append)
  show "List.find (\<lambda>d. pd_project d = project \<and> pd_ram_booked d > 0) (pn_rows db) =
       (if pd_ram_booked d > 0 then Some d else None)"
    using none assms(2) by (simp add: assms(1) find_append)
qed

lemma release_ram_run:
  assumes "List.find (\<lambda>d. pd_project d = project \<and> pd_ram_booked d > 0) (pn_rows db) = Some d"
    "write_ok (pd_node d) (unbook (pd_ram_booked d) 0) db"
  shows "release_ram project db =
     (Inr (True, pd_ram_booked d), update_node (pd_node d) (unbook (pd_ram_booked d) 0) (set_booked project 0 db))"
proof -
  have eq: "(\<lambda>r. r\<lparr>nd_ram_reserved := nd_ram_reserved r - pd_ram_booked d\<rparr>) = unbook (pd_ram_booked d) 0"
    by (simp add: fun_eq_iff unbook_def)
  have ok: "write_ok (pd_node d) (unbook (pd_ram_booked d) 0) (set_booked project 0 db)"
    using assms(2) by (simp add: write_ok_def)
  show ?thesis
    unfolding release_ram_def transaction_def and_then_gets assms(1) option.case eq and_then_modifies
      and_then_write_node if_P[OF ok] ret_def by simp
qed

lemma book_ram_run:
  assumes "joined project seen = Some (d, m)" "pd_ram_booked d = 0" "node_by_id (pd_node d) db = Some n"
    "can_fit (nd_ram_total n) (nd_ram_reserved n) b = Inr True" "b = by_plan PLAN_RAM_MB plan"
    "write_ok (pd_node d) (book_on b 0) db"
  shows "book_ram seen project plan db =
     (Inr (True, b), update_node (pd_node d) (book_on b 0) (set_booked project b db))"
proof -
  have eq: "(\<lambda>r. r\<lparr>nd_ram_reserved := nd_ram_reserved r + b\<rparr>) = book_on b 0"
    by (simp add: fun_eq_iff book_on_def)
  have nid: "nd_id n = pd_node d" using assms(3) by (auto simp: node_by_id_def find_Some_iff)
  have ok: "write_ok (pd_node d) (book_on b 0) (set_booked project b db)"
    using assms(6) by (simp add: write_ok_def)
  have no: "\<not> 0 < pd_ram_booked d" using assms(2) by simp
  have fit: "can_fit (nd_ram_total n) (nd_ram_reserved n) (by_plan PLAN_RAM_MB plan) = Inr True" using assms(4,5) by simp
  show ?thesis
    unfolding book_ram_def Let_def transaction_def assms(1) option.case prod.case and_then_gets assms(3) if_not_P[OF no]
      fit from_result_simps and_then_ret not_True_eq_False if_False and_then_modifies
      nid and_then_write_node unfolding assms(5)[symmetric] eq if_P[OF ok] ret_def by simp
qed

lemma book_ram_booked:
  assumes "joined project seen = Some (d, m)" "pd_ram_booked d > 0" "node_by_id (pd_node d) db = Some n"
  shows "book_ram seen project plan db = (Inr (False, pd_ram_booked d), db)"
  unfolding book_ram_def Let_def transaction_def assms(1) option.case prod.case and_then_gets assms(3)
    if_P[OF assms(2)] ret_def by simp

lemma plan_ram_positive [simp]: "0 < by_plan PLAN_RAM_MB plan"
  by (auto simp: by_plan_def PLAN_RAM_MB_def split: option.splits if_splits)

lemma set_booked_twice [simp]: "set_booked p b (update_node i f (set_booked p c db)) = update_node i f (set_booked p b db)"
  by (simp add: set_booked_def update_node_def)

text \<open>
  C31. A pause gives back the memory and a resume takes it again: releasing frees what is booked and
  zeroes it, a second release finds nothing, booking restores the very state before the pause,
  and booking a booked project changes nothing.
\<close>

theorem pause_then_resume_restores:
  assumes acc: "accounts db" and row: "row_of project db = Some d" "pd_ram_booked d = by_plan PLAN_RAM_MB plan"
    and node: "node_by_id (pd_node d) db = Some n" "nd_ram_reserved n \<le> ceiling_of (nd_ram_total n)"
  shows "\<exists>paused. release_ram project db = (Inr (True, by_plan PLAN_RAM_MB plan), paused)
     \<and> node_by_id (pd_node d) paused = Some (n\<lparr>nd_ram_reserved := nd_ram_reserved n - by_plan PLAN_RAM_MB plan\<rparr>)
     \<and> row_of project paused = Some (d\<lparr>pd_ram_booked := 0\<rparr>)
     \<and> release_ram project paused = (Inr (False, 0), paused)
     \<and> book_ram paused project plan paused = (Inr (True, by_plan PLAN_RAM_MB plan), db)
     \<and> book_ram db project plan db = (Inr (False, by_plan PLAN_RAM_MB plan), db)"
proof -
  define b where "b = by_plan PLAN_RAM_MB plan"
  have dist: "distinct (map pd_project (pn_rows db))" using acc by (simp add: accounts_def)
  obtain as bs where s: "pn_rows db = as @ d # bs" "pd_project d = project"
    "\<forall>e\<in>set as \<union> set bs. pd_project e \<noteq> project" using row_of_split[OF row(1) dist] .
  have bd: "pd_ram_booked d = b" "0 < b" using row(2) by (simp_all add: b_def)
  let ?p = "update_node (pd_node d) (unbook b 0) (set_booked project 0 db)"
  let ?d = "d\<lparr>pd_ram_booked := 0\<rparr>"
  have nin: "n \<in> set (pn_nodes db)" "nd_id n = pd_node d" using node(1) by (auto simp: node_by_id_def find_Some_iff)
  then have nok: "node_ok n" "b \<le> nd_ram_reserved n"
    using acc bd by (auto simp: accounts_def ram_sum_def rows_on_def s(1))
  have only: "m = n" if "m \<in> set (pn_nodes db)" "nd_id m = pd_node d" for m
    using node_by_id_unique[OF acc node(1) that] .
  have w1: "write_ok (pd_node d) (unbook b 0) db"
    using only nok by (auto simp: write_ok_def node_ok_def unbook_def)
  have r1: "release_ram project db = (Inr (True, b), ?p)"
    using release_ram_run[of project db d] find_booked(2)[OF s] bd w1 by simp
  have prow: "pn_rows ?p = as @ ?d # bs" using set_booked_split[OF s(1,3,2)] by simp
  have dp: "pd_project ?d = project" using s(2) by simp
  have r2: "release_ram project ?p = (Inr (False, 0), ?p)"
    using find_booked(2)[OF prow dp s(3)] unfolding release_ram_def transaction_def and_then_gets ret_def by simp
  have pnode: "node_by_id (pd_node d) ?p = Some (unbook b 0 n)"
    by (rule node_by_id_update) (use node(1) in \<open>simp_all add: node_by_id_def\<close>)
  have j: "joined project ?p = Some (?d, unbook b 0 n)"
    using find_booked(1)[OF prow dp s(3)] pnode by (simp add: joined_def)
  have undo: "book_on b 0 (unbook b 0 n) = n" using nok(2) by (simp add: book_on_def unbook_def)
  have w2: "write_ok (pd_node d) (book_on b 0) ?p"
    using only undo nok by (auto simp: write_ok_def update_node_def)
  have fit: "can_fit (nd_ram_total (unbook b 0 n)) (nd_ram_reserved (unbook b 0 n)) b = Inr True"
    using node(2) nok(2) bd(2) by (simp add: can_fit_def unbook_def)
  have "book_ram ?p project plan ?p = (Inr (True, b), update_node (pd_node d) (book_on b 0) (set_booked project b ?p))"
    using book_ram_run[OF j _ _ fit b_def] w2 pnode by simp
  also have "update_node (pd_node d) (book_on b 0) (set_booked project b ?p) = db"
  proof -
    have "map (\<lambda>n. if nd_id n = pd_node d then (book_on b 0 \<circ> unbook b 0) n else n) (pn_nodes db) = pn_nodes db"
      using only undo by (intro map_idI) auto
    moreover have "pn_rows (set_booked project b db) = pn_rows db"
      using set_booked_split[OF s(1,3,2)] s(1) bd by simp
    then have "set_booked project b db = db" by (simp add: set_booked_def)
    ultimately show ?thesis by (simp add: update_node_update_node) (simp add: update_node_def)
  qed
  finally have r3: "book_ram ?p project plan ?p = (Inr (True, b), db)" .
  have jd: "joined project db = Some (d, n)" using row(1) node(1) by (simp add: joined_def)
  have r4: "book_ram db project plan db = (Inr (False, b), db)"
    using book_ram_booked[OF jd _ node(1)] bd by simp
  show ?thesis
    using r1 r2 r3 r4 pnode find_booked(1)[OF prow dp s(3)]
    by (intro exI[of _ ?p]) (simp add: unbook_def b_def[symmetric])
qed

text \<open>
  Two resumes of one project that overlap both book. The statement of \<open>bookRam\<close> locks the node
  row only; a second one that waited for the lock goes on with the placement row of its own
  snapshot, where nothing is booked. The node is charged twice for a row that books once.
\<close>

theorem stale_resume_books_twice:
  assumes acc: "accounts db" and j: "joined project db = Some (d, n)" "pd_ram_booked d = 0"
    and room: "nd_ram_reserved n + 2 * by_plan PLAN_RAM_MB plan \<le> ceiling_of (nd_ram_total n)"
  shows "\<exists>db1 db2. book_ram db project plan db = (Inr (True, by_plan PLAN_RAM_MB plan), db1)
     \<and> book_ram db project plan db1 = (Inr (True, by_plan PLAN_RAM_MB plan), db2)
     \<and> row_of project db2 = Some (d\<lparr>pd_ram_booked := by_plan PLAN_RAM_MB plan\<rparr>)
     \<and> node_by_id (nd_id n) db2 = Some (n\<lparr>nd_ram_reserved := nd_ram_reserved n + 2 * by_plan PLAN_RAM_MB plan\<rparr>)
     \<and> \<not> accounts db2"
proof -
  define b where "b = by_plan PLAN_RAM_MB plan"
  note jd = joinedD[OF j(1)]
  then have nn: "node_by_id (pd_node d) db = Some n" and nin: "n \<in> set (pn_nodes db)" "nd_id n = pd_node d" by auto
  have dist: "distinct (map pd_project (pn_rows db))" using acc by (simp add: accounts_def)
  obtain as bs where s: "pn_rows db = as @ d # bs" "\<forall>e\<in>set as \<union> set bs. pd_project e \<noteq> project"
    using split_row[of d db project] jd dist by blast
  have dp: "pd_project d = project" using jd by simp
  have b: "0 < b" by (simp add: b_def)
  have only: "m = n" if "m \<in> set (pn_nodes db)" "nd_id m = pd_node d" for m
    using node_by_id_unique[OF acc nn that] .
  have nok: "node_ok n" using acc nin(1) by (simp add: accounts_def)
  have fit: "can_fit (nd_ram_total n) (nd_ram_reserved n) b = Inr True"
    "can_fit (nd_ram_total (book_on b 0 n)) (nd_ram_reserved (book_on b 0 n)) b = Inr True"
    using room b by (simp_all add: can_fit_def b_def book_on_def)
  let ?f = "book_on b 0"
  let ?db1 = "update_node (pd_node d) ?f (set_booked project b db)"
  let ?db2 = "update_node (pd_node d) ?f (set_booked project b ?db1)"
  have oks: "node_ok (?f n)" "node_ok (?f (?f n))"
    using room nok ceiling_le[of "nd_ram_total n"] by (auto simp: node_ok_def book_on_def b_def)
  have w: "write_ok (pd_node d) ?f db" "write_ok (pd_node d) ?f ?db1"
    using only oks by (auto simp: write_ok_def update_node_def)
  have n1: "node_by_id (pd_node d) ?db1 = Some (?f n)"
    by (rule node_by_id_update) (use nn in \<open>simp_all add: node_by_id_def\<close>)
  have n2: "node_by_id (pd_node d) ?db2 = Some (?f (?f n))"
    by (rule node_by_id_update) (use n1 in \<open>simp_all add: node_by_id_def update_node_def\<close>)
  have r1: "book_ram db project plan db = (Inr (True, b), ?db1)"
    by (rule book_ram_run[OF j nn fit(1) _ w(1)]) (simp add: b_def)
  have r2: "book_ram db project plan ?db1 = (Inr (True, b), ?db2)"
    by (rule book_ram_run[OF j n1 fit(2) _ w(2)]) (simp add: b_def)
  have rows: "pn_rows ?db2 = as @ d\<lparr>pd_ram_booked := b\<rparr> # bs"
    using set_booked_split[OF s dp] by simp
  have row: "row_of project ?db2 = Some (d\<lparr>pd_ram_booked := b\<rparr>)"
    using find_booked(1)[OF rows _ s(2)] dp by simp
  have "ram_sum (pd_node d) ?db2 = ram_sum (pd_node d) db + b"
    using set_booked_sums(1)[OF s dp, of "pd_node d" b] j(2) by simp
  moreover have "nd_ram_reserved n = ram_sum (pd_node d) db" using acc nin by (auto simp: accounts_def)
  ultimately have "nd_ram_reserved (?f (?f n)) \<noteq> ram_sum (pd_node d) ?db2" using b by (simp add: book_on_def)
  moreover have "?f (?f n) \<in> set (pn_nodes ?db2)" "nd_id (?f (?f n)) = pd_node d"
    using n2 by (auto simp: node_by_id_def find_Some_iff nin(2))
  ultimately have "\<not> accounts ?db2" by (auto simp: accounts_def)
  moreover have "?f (?f n) = n\<lparr>nd_ram_reserved := nd_ram_reserved n + 2 * b\<rparr>" by (simp add: book_on_def)
  ultimately show ?thesis using r1 r2 row n2 nin(2)
    by (intro exI[of _ ?db1] exI[of _ ?db2]) (simp add: b_def[symmetric])
qed

subsection \<open>A concrete fleet\<close>

definition sample_registration :: registration where
  "sample_registration = \<lparr>rg_host = ''node-1'', rg_region = None, rg_ram_total = 2048, rg_disk_total = 40,
     rg_labels = ''{}'', rg_address = None\<rparr>"

definition sample_node :: node_row where
  "sample_node = fresh_node ''n1'' sample_registration 0"

definition sample_args :: place_args where
  "sample_args = \<lparr>pa_project = ''p1'', pa_ref = ''abc'', pa_plan = ''free'', pa_region = None\<rparr>"

definition sample_rows :: "placement_row list" where
  "sample_rows = [new_row sample_args ''n1'' 5433 6433 7433]"

definition fleet_one :: place_db where
  "fleet_one = \<lparr>pn_nodes = [sample_node], pn_rows = [], pn_now = 0\<rparr>"

definition fleet_two :: place_db where
  "fleet_two = \<lparr>pn_nodes = [book_on 350 1 sample_node], pn_rows = sample_rows, pn_now = 0\<rparr>"

definition sample_placed :: placed where
  "sample_placed = placed_of (new_row sample_args ''n1'' 5433 6433 7433) ''node-1'' 350 False"

abbreviation sample_locked :: "string \<Rightarrow> node_row option" where
  "sample_locked i \<equiv> (if i = ''n1'' then Some sample_node else None)"

lemma sample_node_simps [simp]:
  "nd_id sample_node = ''n1''" "nd_status sample_node = ''active''" "nd_region sample_node = ''eu-central''"
  "nd_host sample_node = ''node-1''" "nd_ram_total sample_node = 2048" "nd_disk_total sample_node = 40"
  "nd_ram_reserved sample_node = 0" "nd_disk_reserved sample_node = 0" "nd_seen sample_node = Some 0"
  by (simp_all add: sample_node_def fresh_node_def sample_registration_def)

lemma sample_node_ok: "node_ok sample_node" "node_ok (book_on 350 1 sample_node)"
  by (simp_all add: node_ok_def book_on_def)

lemma sample_register: "register_node ''n1'' sample_registration empty_fleet = (Inr ''n1'', fleet_one)"
  using sample_node_ok(1) by (simp add: register_node_def empty_fleet_def fleet_one_def sample_node_def)

lemma sample_fits: "fits (candidate_of sample_node) \<lparr>bk_ram = 350, bk_disk = Suc 0\<rparr> = Inr True"
  by (simp add: fits_def candidate_of_def ceiling_of_def)

lemma sample_candidate: "nc_id (candidate_of sample_node) = ''n1''" "nc_host (candidate_of sample_node) = ''node-1''"
  by (simp_all add: candidate_of_def)

lemma sample_pick: "pick_node 900 (\<lambda>_. 0::nat) fleet_one sample_locked ''eu-central''
    \<lparr>bk_ram = 350, bk_disk = 1\<rparr> = Inr (candidate_of sample_node)"
  unfolding pick_node_def rank_nodes_def
  by (simp add: Let_def fleet_one_def stale_node_def sample_fits sample_candidate)

lemma sample_want: "want_of ''free'' = \<lparr>bk_ram = 350, bk_disk = 1\<rparr>" "by_plan PLAN_RAM_MB ''free'' = 350"
  by (simp_all add: want_of_def by_plan_def PLAN_RAM_MB_def disk_booking_gb_for_def quota_mb_for_def
      quota_of_cap_def ceil_div_def PLAN_DISK_CAP_MB_def)

lemma sample_ports: "pick_port [] (5433, 6432) = Inr 5433" "pick_port [] (6433, 7432) = Inr 6433"
    "pick_port_pair [] (7433, 7492) = Inr 7433"
  by (simp_all add: pick_port_def pick_port_pair_def port_from.simps pair_from.simps)

lemma sample_allocate: "allocate_node default_place_cfg (\<lambda>_. 0::nat) fleet_one sample_locked sample_args fleet_one
    = (Inr sample_placed, fleet_two)"
proof -
  have j: "joined (pa_project sample_args) fleet_one = None" by (simp add: joined_def row_of_def fleet_one_def)
  have pl: "pa_plan sample_args = ''free''" "pa_region sample_args = None" by (simp_all add: sample_args_def)
  have cfg: "pc_stale_seconds default_place_cfg = 900" "pc_pg_range default_place_cfg = (5433, 6432)"
    "pc_pooler_range default_place_cfg = (6433, 7432)" "pc_pgrst_range default_place_cfg = (7433, 7492)"
    by (simp_all add: default_place_cfg_def)
  have n: "nc_id (candidate_of sample_node) = ''n1''" "rows_on ''n1'' fleet_one = []"
    by (simp_all add: sample_candidate rows_on_def fleet_one_def)
  have i: "insert_row (new_row sample_args ''n1'' 5433 6433 7433) fleet_one =
     (Inr (), \<lparr>pn_nodes = [sample_node], pn_rows = sample_rows, pn_now = 0\<rparr>)"
    by (simp add: insert_row_def row_ok_def new_row_def port_ok_def fleet_one_def sample_rows_def by_plan_def
        sample_args_def PLAN_DISK_CAP_MB_def)
  have w: "write_node ''n1'' (book_on 350 1) \<lparr>pn_nodes = [sample_node], pn_rows = sample_rows, pn_now = 0\<rparr> = (Inr (), fleet_two)"
    using sample_node_ok(2) by (simp add: write_node_def update_node_def fleet_two_def)
  have h: "nc_host (candidate_of sample_node) = ''node-1''" by (simp add: sample_candidate)
  show ?thesis
    unfolding allocate_node_def Let_def j option.case transaction_def pl cfg sample_want sample_pick
      from_result_simps and_then_ret and_then_gets n list.map sample_ports pgrst_ports_simps(1)
      and_then_def[of "insert_row _"] i booking.simps prod.case sum.case
      book_on_def[symmetric, abs_def] and_then_def[of "write_node _ _"] w h sample_placed_def ret_def ..
qed

lemma sample_locks: "locks_current sample_locked (want_of (pa_plan sample_args)) fleet_one"
  by (auto simp: locks_current_def node_by_id_def fleet_one_def)

lemma fleet_two_reached: "(place_step default_place_cfg (\<lambda>_. 0::nat))\<^sup>*\<^sup>* empty_fleet fleet_two"
  using registered[OF sample_register] allocated[OF sample_locks sample_allocate]
  by (meson rtranclp.rtrancl_into_rtrancl rtranclp.rtrancl_refl)

lemma sample_row: "row_of ''p1'' fleet_two = Some (new_row sample_args ''n1'' 5433 6433 7433)"
    "pd_node (new_row sample_args ''n1'' 5433 6433 7433) = ''n1''"
    "pd_ram_booked (new_row sample_args ''n1'' 5433 6433 7433) = by_plan PLAN_RAM_MB ''free''"
    "node_by_id ''n1'' fleet_two = Some (book_on 350 1 sample_node)"
  by (simp_all add: row_of_def fleet_two_def sample_rows_def new_row_def sample_args_def node_by_id_def)

definition fleet_three :: place_db where
  "fleet_three = snd (release_ram ''p1'' fleet_two)"

lemma fleet_three_reached: "(place_step default_place_cfg (\<lambda>_. 0::nat))\<^sup>*\<^sup>* empty_fleet fleet_three"
  using fleet_two_reached paused[of "''p1''" fleet_two "fst (release_ram ''p1'' fleet_two)" fleet_three]
  by (auto simp: fleet_three_def intro: rtranclp.rtrancl_into_rtrancl)

lemma fleet_three_joined:
  "joined ''p1'' fleet_three = Some (new_row sample_args ''n1'' 5433 6433 7433\<lparr>pd_ram_booked := 0\<rparr>, unbook 350 0 (book_on 350 1 sample_node))"
proof -
  have find: "List.find (\<lambda>d. pd_project d = ''p1'' \<and> pd_ram_booked d > 0) (pn_rows fleet_two)
      = Some (new_row sample_args ''n1'' 5433 6433 7433)"
    by (simp add: fleet_two_def sample_rows_def new_row_def sample_args_def)
  have "write_ok ''n1'' (unbook 350 0) fleet_two"
    by (simp add: write_ok_def fleet_two_def node_ok_def unbook_def book_on_def)
  then have eq: "fleet_three = update_node ''n1'' (unbook 350 0) (set_booked ''p1'' 0 fleet_two)"
    using release_ram_run[OF find] by (simp add: fleet_three_def sample_row sample_want)
  show ?thesis unfolding eq
    by (simp add: joined_def row_of_def node_by_id_def update_node_def set_booked_def fleet_two_def sample_rows_def
        new_row_def sample_args_def)
qed


theorem allocation_respects_the_ceiling_witness:
  "(\<exists>d. pn_rows fleet_two = pn_rows fleet_one @ [d] \<and> pd_project d = ''p1'' \<and> pd_node d = ''n1'')
   \<and> 0 + 350 \<le> ceiling_of 2048"
proof -
  have p: "pl_node sample_placed = ''n1''" "\<not> pl_replayed sample_placed" "pa_project sample_args = ''p1''"
    "pa_plan sample_args = ''free''"
    by (simp_all add: sample_placed_def placed_of_def sample_row(2)) (simp_all add: sample_args_def)
  have n: "node_by_id ''n1'' fleet_one = Some sample_node" by (simp add: node_by_id_def fleet_one_def)
  show ?thesis
    using allocation_respects_the_ceiling[OF sample_allocate p(2) sample_locks]
    unfolding p n sample_want by auto
qed

theorem pause_then_resume_restores_witness:
  "\<exists>paused. release_ram ''p1'' fleet_two = (Inr (True, by_plan PLAN_RAM_MB ''free''), paused)
     \<and> book_ram paused ''p1'' ''free'' paused = (Inr (True, by_plan PLAN_RAM_MB ''free''), fleet_two)"
proof -
  have "accounts fleet_two" using fleet_invariant[OF fleet_two_reached] by simp
  from pause_then_resume_restores[OF this sample_row(1,3), unfolded sample_row(2), OF sample_row(4)]
  show ?thesis by (fastforce simp: book_on_def ceiling_of_def)
qed

theorem stale_resume_books_twice_witness:
  "\<exists>db1 db2. book_ram fleet_three ''p1'' ''free'' fleet_three = (Inr (True, by_plan PLAN_RAM_MB ''free''), db1)
     \<and> book_ram fleet_three ''p1'' ''free'' db1 = (Inr (True, by_plan PLAN_RAM_MB ''free''), db2)
     \<and> \<not> accounts db2"
proof -
  have "accounts fleet_three" using fleet_invariant[OF fleet_three_reached] by simp
  from stale_resume_books_twice[OF this fleet_three_joined, of "''free''"]
  show ?thesis unfolding sample_want by (fastforce simp: book_on_def unbook_def ceiling_of_def)
qed

end
