(* ===== verification/Pages.thy ===== *)
theory Pages
  imports Prelude "HOL-Library.Product_Lexorder"
begin

text \<open>
  Keyset pages: \<open>toPage\<close> of \<open>services/api/src/kernel/pagination.ts\<close>, and the two queries it serves with
  the routes around them, \<open>listProjectsPage\<close> of \<open>modules/control-plane/store.pg.ts\<close> and \<open>listUsers\<close> of
  \<open>modules/project-auth/store.ts\<close>.

  A page row has the microsecond its row was created at and an id, a UUID as its number. The text
  of a cursor (JSON in base64url) is a parameter: a pair of functions.
\<close>

subsection \<open>Pages\<close>

record page_row =
  pg_created :: nat \<comment> \<open>microseconds\<close>
  pg_id :: nat

record page_cursor =
  pc_created :: nat
  pc_id :: nat

definition iso_ms :: "nat \<Rightarrow> nat" where
  \<comment> \<open>a timestamp through \<open>toISOString()\<close> or \<open>to_char(..., 'MS')\<close>: milliseconds\<close>
  "iso_ms us = us div 1000 * 1000"

record 'c page_request =
  rp_limit :: nat
  rp_cursor :: "'c option"

record ('r, 'c) page =
  pa_items :: "'r list"
  pa_next :: "'c option"
  pa_more :: bool

definition to_page :: "(page_cursor \<Rightarrow> 'c) \<Rightarrow> 'r list \<Rightarrow> nat \<Rightarrow> ('r \<Rightarrow> page_cursor) \<Rightarrow> ('r, 'c) page" where
  "to_page encode rows limit cursor_of =
     (let has_more = length rows > limit;
          items = (if has_more then take limit rows else rows) in
      \<lparr>pa_items = items,
       pa_next = (if has_more \<and> items \<noteq> [] then Some (encode (cursor_of (last items))) else None),
       pa_more = has_more\<rparr>)"

definition row_key :: "'a page_row_scheme \<Rightarrow> nat \<times> nat" where
  "row_key r = (pg_created r, pg_id r)"

definition after_cursor :: "page_cursor option \<Rightarrow> 'a page_row_scheme \<Rightarrow> bool" where
  \<comment> \<open>\<open>(created_at, id) < ($2::timestamptz, $3::uuid)\<close>\<close>
  "after_cursor c r = (case c of None \<Rightarrow> True | Some c \<Rightarrow> row_key r < (pc_created c, pc_id c))"

definition newest_first :: "'a page_row_scheme list \<Rightarrow> 'a page_row_scheme list" where
  "newest_first rows = rev (sort_key row_key rows)"

record user_row = page_row +
  us_deleted :: bool

record project_row = page_row +
  pj_org :: string
  pj_status :: string

definition list_users :: "user_row list \<Rightarrow> nat \<Rightarrow> page_cursor option \<Rightarrow> user_row list" where
  "list_users users limit cursor =
     take (limit + 1) (newest_first (filter (after_cursor cursor) (filter (\<lambda>u. \<not> us_deleted u) users)))"

definition list_projects_page :: "project_row list \<Rightarrow> nat \<Rightarrow> page_cursor option \<Rightarrow> string option \<Rightarrow> project_row list" where
  "list_projects_page projects limit cursor org =
     take (limit + 1) (newest_first (filter (after_cursor cursor)
       (filter (\<lambda>p. pj_status p \<noteq> ''deleted'' \<and> (case org of None \<Rightarrow> True | Some o' \<Rightarrow> pj_org p = o')) projects)))"

definition cursor_of_row :: "'a page_row_scheme \<Rightarrow> page_cursor" where
  "cursor_of_row r = \<lparr>pc_created = iso_ms (pg_created r), pc_id = pg_id r\<rparr>"

definition users_page :: "(page_cursor \<Rightarrow> 'c) \<Rightarrow> ('c \<Rightarrow> page_cursor) \<Rightarrow> user_row list \<Rightarrow> 'c page_request \<Rightarrow> (user_row, 'c) page" where
  \<comment> \<open>the body of \<open>GET /auth/v1/admin/users\<close>\<close>
  "users_page encode decode users q =
     to_page encode (list_users users (rp_limit q) (map_option decode (rp_cursor q))) (rp_limit q) cursor_of_row"

definition projects_page :: "(page_cursor \<Rightarrow> 'c) \<Rightarrow> ('c \<Rightarrow> page_cursor) \<Rightarrow> project_row list \<Rightarrow> string option
    \<Rightarrow> 'c page_request \<Rightarrow> (project_row, 'c) page" where
  \<comment> \<open>the body of \<open>GET /v1/projects\<close>\<close>
  "projects_page encode decode projects org q =
     to_page encode (list_projects_page projects (rp_limit q) (map_option decode (rp_cursor q)) org) (rp_limit q) cursor_of_row"

fun walk_pages :: "('c page_request \<Rightarrow> ('r, 'c) page) \<Rightarrow> nat \<Rightarrow> nat \<Rightarrow> 'c option \<Rightarrow> 'r list" where
  \<comment> \<open>a client that follows \<open>next_cursor\<close>, at most \<open>n\<close> times\<close>
  "walk_pages fetch limit 0 cursor = []"
| "walk_pages fetch limit (Suc n) cursor =
     (let p = fetch \<lparr>rp_limit = limit, rp_cursor = cursor\<rparr> in
      pa_items p @ (case pa_next p of None \<Rightarrow> [] | Some c \<Rightarrow> walk_pages fetch limit n (Some c)))"

subsection \<open>Walking the pages\<close>

lemma row_key_inj: "distinct (map pg_id xs) \<Longrightarrow> distinct (map row_key xs)"
  by (induction xs) (auto simp: row_key_def image_iff)

lemma newest_first_filter: "newest_first (filter P xs) = filter P (newest_first xs)"
  by (simp add: newest_first_def filter_sort rev_filter[symmetric])

lemma set_newest_first [simp]: "set (newest_first xs) = set xs"
  by (simp add: newest_first_def)

lemma newest_first_sorted: "sorted_wrt (\<lambda>x y. row_key y \<le> row_key x) (newest_first xs)"
  unfolding newest_first_def sorted_wrt_rev
  by (metis sorted_map sorted_sort_key)

lemma newest_first_distinct: "distinct (map row_key xs) \<Longrightarrow> distinct (map row_key (newest_first xs))"
  by (simp add: newest_first_def rev_map[symmetric] distinct_map)

lemma after_row:
  assumes "newest_first xs = A @ r # B" "distinct (map row_key xs)" "iso_ms (pg_created r) = pg_created r"
  shows "filter (after_cursor (Some (cursor_of_row r))) (newest_first xs) = B"
proof -
  have s: "sorted_wrt (\<lambda>x y. row_key y \<le> row_key x) (A @ r # B)" using newest_first_sorted[of xs] assms(1) by simp
  have d: "distinct (map row_key (A @ r # B))" using newest_first_distinct[OF assms(2)] assms(1) by simp
  have a: "after_cursor (Some (cursor_of_row r)) x = (row_key x < row_key r)" for x
    using assms(3) by (simp add: after_cursor_def cursor_of_row_def row_key_def)
  have "\<not> row_key x < row_key r" if "x \<in> set A" for x using s that by (auto simp: sorted_wrt_append)
  moreover have "row_key x < row_key r" if "x \<in> set B" for x
  proof -
    have "row_key x \<le> row_key r" using s that by (auto simp: sorted_wrt_append)
    moreover have "row_key x \<noteq> row_key r" using d that by (auto simp: image_iff)
    ultimately show ?thesis by simp
  qed
  ultimately show ?thesis unfolding assms(1) by (simp add: a filter_empty_conv)
qed

lemma walk_suffix:
  fixes rows :: "'a page_row_scheme list"
  assumes rows: "distinct (map row_key rows)" "\<forall>r\<in>set rows. iso_ms (pg_created r) = pg_created r"
    and codec: "\<And>c. decode (encode c) = c" and limit: "0 < limit"
    and fetch: "\<And>q. fetch q = to_page encode
      (take (rp_limit q + 1) (newest_first (filter (after_cursor (map_option decode (rp_cursor q))) rows))) (rp_limit q) cursor_of_row"
    and suffix: "filter (after_cursor (map_option decode cursor)) (newest_first rows) = B" "newest_first rows = A @ B"
    and fuel: "length B < n"
  shows "walk_pages fetch limit n cursor = B"
  using suffix fuel
proof (induction n arbitrary: A B cursor)
  case (Suc n)
  have p: "fetch \<lparr>rp_limit = limit, rp_cursor = cursor\<rparr> = to_page encode (take (limit + 1) B) limit cursor_of_row"
    using Suc.prems(1) by (simp add: fetch newest_first_filter)
  show ?case
  proof (cases "length B > limit")
    case False
    then show ?thesis by (simp add: p to_page_def Let_def)
  next
    case True
    let ?r = "last (take limit B)"
    have nonempty: "take limit B \<noteq> []" using True limit by auto
    have split: "newest_first rows = (A @ butlast (take limit B)) @ ?r # drop limit B"
      using Suc.prems(2) append_butlast_last_id[OF nonempty] append_take_drop_id[of limit B]
      by (metis append.assoc append_Cons append_Nil)
    then have "?r \<in> set rows" by (metis in_set_conv_decomp set_newest_first)
    with rows(2) have "iso_ms (pg_created ?r) = pg_created ?r" by blast
    from after_row[OF split rows(1) this]
    have next_page: "filter (after_cursor (map_option decode (Some (encode (cursor_of_row ?r))))) (newest_first rows) = drop limit B"
      by (simp add: codec)
    have "walk_pages fetch limit n (Some (encode (cursor_of_row ?r))) = drop limit B"
      by (rule Suc.IH[OF next_page, of "A @ take limit B"]) (use Suc.prems True limit in auto)
    moreover have "take limit (take (limit + 1) B) = take limit B" by simp
    ultimately show ?thesis using True nonempty by (simp add: p to_page_def Let_def)
  qed
qed simp

text \<open>
  A client that follows \<open>next_cursor\<close> reads every user exactly once, newest first, and then
  stops, for any page size, when creation times are whole milliseconds; the text of a cursor only has
  to decode to what was encoded.
\<close>

theorem pages_cover_every_user:
  assumes "\<And>c. decode (encode c) = c" "0 < limit" "distinct (map pg_id users)"
    "\<forall>u\<in>set users. iso_ms (pg_created u) = pg_created u" "length users < n"
  shows "walk_pages (users_page encode decode users) limit n None = newest_first (filter (\<lambda>u. \<not> us_deleted u) users)"
proof (rule walk_suffix[where rows = "filter (\<lambda>u. \<not> us_deleted u) users" and A = "[]"])
  show "distinct (map row_key (filter (\<lambda>u. \<not> us_deleted u) users))"
    using row_key_inj[OF assms(3)] by (rule distinct_map_filter)
  have "length (newest_first (filter (\<lambda>u. \<not> us_deleted u) users)) \<le> length users"
    by (simp add: newest_first_def length_filter_le)
  with assms(5) show "length (newest_first (filter (\<lambda>u. \<not> us_deleted u) users)) < n" by simp
qed (use assms in \<open>simp_all add: users_page_def list_users_def after_cursor_def\<close>)

lemma iso_ms_le: "iso_ms t \<le> t"
  by (simp add: iso_ms_def)

lemma walk_below:
  assumes "\<And>c. decode (encode c) = c" "r \<in> set (walk_pages (users_page encode decode users) limit n (Some c))"
  shows "pg_created r \<le> pc_created (decode c)"
  using assms(2)
proof (induction n arbitrary: c)
  case (Suc n)
  let ?q = "\<lparr>rp_limit = limit, rp_cursor = Some c\<rparr>"
  let ?p = "users_page encode decode users ?q"
  have items: "pg_created x \<le> pc_created (decode c)" if "x \<in> set (pa_items ?p)" for x
  proof -
    have "x \<in> set (list_users users limit (Some (decode c)))"
      using that by (auto simp: users_page_def to_page_def Let_def split: if_splits dest: in_set_takeD)
    then have "after_cursor (Some (decode c)) x" by (auto simp: list_users_def dest: in_set_takeD)
    then show ?thesis by (auto simp: after_cursor_def row_key_def)
  qed
  show ?case
  proof (cases "r \<in> set (pa_items ?p)")
    case True
    then show ?thesis by (rule items)
  next
    case False
    with Suc.prems obtain c' where c': "pa_next ?p = Some c'" "r \<in> set (walk_pages (users_page encode decode users) limit n (Some c'))"
      by (cases "pa_next ?p") (auto simp: Let_def)
    from c'(1) have "pa_items ?p \<noteq> []" "c' = encode (cursor_of_row (last (pa_items ?p)))"
      by (auto simp: users_page_def to_page_def Let_def split: if_splits)
    with items[of "last (pa_items ?p)"] iso_ms_le[of "pg_created (last (pa_items ?p))"] Suc.IH[OF c'(2)]
    show ?thesis by (simp add: assms(1) cursor_of_row_def)
  qed
qed simp

text \<open>
  A cursor carries milliseconds and the table microseconds. A user created after the truncated
  time of a page's last row and not on that page, such as the next of several created by one
  statement, is on no later page, however long the client follows the cursors.
\<close>

theorem millisecond_cursor_skips_users:
  assumes "\<And>c. decode (encode c) = c" "pa_next (users_page encode decode users q) = Some c"
    "iso_ms (pg_created (last (pa_items (users_page encode decode users q)))) < pg_created x"
  shows "x \<notin> set (walk_pages (users_page encode decode users) limit n (Some c))"
proof
  assume "x \<in> set (walk_pages (users_page encode decode users) limit n (Some c))"
  from walk_below[OF assms(1) this] have "pg_created x \<le> pc_created (decode c)" .
  moreover have "c = encode (cursor_of_row (last (pa_items (users_page encode decode users q))))"
    using assms(2) by (auto simp: users_page_def to_page_def Let_def split: if_splits)
  ultimately show False using assms(3) by (simp add: assms(1) cursor_of_row_def)
qed

subsection \<open>Concrete pages\<close>

definition sample_users :: "nat list \<Rightarrow> user_row list" where
  "sample_users ts = map (\<lambda>(i, t). \<lparr>pg_created = t, pg_id = i, us_deleted = False\<rparr>) (enumerate 1 ts)"

theorem pages_cover_every_user_witness:
  "walk_pages (users_page id id (sample_users [5000, 7000, 7000])) 2 4 None = newest_first (sample_users [5000, 7000, 7000])"
proof -
  have "distinct (map pg_id (sample_users [5000, 7000, 7000]))"
    "\<forall>u\<in>set (sample_users [5000, 7000, 7000]). iso_ms (pg_created u) = pg_created u"
    "filter (\<lambda>u. \<not> us_deleted u) (sample_users [5000, 7000, 7000]) = sample_users [5000, 7000, 7000]"
    "length (sample_users [5000, 7000, 7000]) < 4"
    by (simp_all add: sample_users_def iso_ms_def enumerate_eq_zip upt_rec)
  with pages_cover_every_user[of id id 2 "sample_users [5000, 7000, 7000]" 4] show ?thesis by simp
qed

lemma sample_page: "users_page id id (sample_users [1500, 1500, 1500]) \<lparr>rp_limit = 2, rp_cursor = None\<rparr> =
   \<lparr>pa_items = [\<lparr>pg_created = 1500, pg_id = 3, us_deleted = False\<rparr>, \<lparr>pg_created = 1500, pg_id = 2, us_deleted = False\<rparr>],
    pa_next = Some \<lparr>pc_created = 1000, pc_id = 2\<rparr>, pa_more = True\<rparr>"
  by (simp add: users_page_def to_page_def list_users_def newest_first_def sample_users_def enumerate_eq_zip upt_rec
      after_cursor_def cursor_of_row_def iso_ms_def row_key_def Let_def)

theorem millisecond_cursor_skips_users_witness:
  "\<lparr>pg_created = 1500, pg_id = 1, us_deleted = False\<rparr> \<in> set (sample_users [1500, 1500, 1500])
   \<and> \<lparr>pg_created = 1500, pg_id = 1, us_deleted = False\<rparr> \<notin>
       set (walk_pages (users_page id id (sample_users [1500, 1500, 1500])) 2 9 (Some \<lparr>pc_created = 1000, pc_id = 2\<rparr>))"
proof
  show "\<lparr>pg_created = 1500, pg_id = 1, us_deleted = False\<rparr> \<in> set (sample_users [1500, 1500, 1500])"
    by (simp add: sample_users_def enumerate_eq_zip upt_rec)
  show "\<lparr>pg_created = 1500, pg_id = 1, us_deleted = False\<rparr> \<notin>
       set (walk_pages (users_page id id (sample_users [1500, 1500, 1500])) 2 9 (Some \<lparr>pc_created = 1000, pc_id = 2\<rparr>))"
    by (rule millisecond_cursor_skips_users[where q = "\<lparr>rp_limit = 2, rp_cursor = None\<rparr>"])
       (simp_all add: sample_page iso_ms_def)
qed

end
