(* ===== verification/EndUsers.thy ===== *)
theory EndUsers
  imports Prelude
begin

text \<open>
  The \<open>auth\<close> schema of a project's own database and the queries of
  \<open>services/api/src/modules/project-auth/store.ts\<close> over it: a project's end users, their
  sessions, the refresh tokens of a session with their lineage, and the one-time links. The tables
  are lists of rows in insertion order; the unique indexes of
  \<open>infra/docker/postgres/init/25-auth-schema.sql\<close> (live email, token hash, one link per user and
  type) are checked where a statement can hit them. One clock in milliseconds serves \<open>now()\<close> and
  \<open>Date.now()\<close>. Row ids the database draws at random are arguments; token ids count up.

  \<open>auth_step\<close> is the schema under any number of concurrent requests: every transaction of the store,
  in any order, with the arguments the routes read at some earlier time.
\<close>

subsection \<open>Rows\<close>

type_synonym metadata = "(string \<times> string) list"

record end_user =
  eu_id :: string
  eu_email :: "string option"
  eu_hash :: "string option"
  eu_confirmed :: "nat option"
  eu_banned :: "nat option"
  eu_meta :: metadata
  eu_app_meta :: metadata
  eu_created :: nat
  eu_signed_in :: "nat option"
  eu_deleted :: "nat option"

record auth_session =
  as_id :: string
  as_user :: string
  as_created :: nat
  as_refreshed :: "nat option"
  as_agent :: "string option"
  as_ip :: "string option"
  as_revoked :: "nat option"

record refresh_token =
  rt_id :: nat
  rt_hash :: string
  rt_user :: string
  rt_session :: string
  rt_parent :: "nat option"
  rt_used :: "nat option"
  rt_revoked :: bool

datatype token_type = Confirmation | Recovery | EmailChangeCurrent | EmailChangeNew | MagicLink

record one_time =
  ot_id :: string
  ot_user :: string
  ot_type :: token_type
  ot_hash :: string
  ot_relates :: "string option"
  ot_created :: nat
  ot_expires :: nat
  ot_used :: "nat option"

record auth_db =
  ad_users :: "end_user list"
  ad_sessions :: "auth_session list"
  ad_tokens :: "refresh_token list"
  ad_links :: "one_time list"
  ad_audit :: "(string option \<times> string) list"
  ad_audit_up :: bool
  ad_next :: nat
  ad_now :: nat

datatype auth_code =
    A_VALIDATION_FAILED | A_INVALID_CREDENTIALS | A_EMAIL_NOT_CONFIRMED | A_WEAK_PASSWORD
  | A_OVER_RATE_LIMIT | A_INVALID_TOKEN | A_INVALID_GRANT | A_UNAUTHORIZED | A_UNAVAILABLE | A_INTERNAL

datatype auth_error = AuthError nat auth_code

type_synonym 'a auth_eff = "(auth_db, auth_error, 'a) eff"

definition unique_violation :: auth_error where
  \<comment> \<open>a constraint the caller does not catch surfaces as a 500\<close>
  "unique_violation = AuthError 500 A_INTERNAL"

subsection \<open>Users\<close>

definition live_user :: "end_user \<Rightarrow> bool" where
  "live_user u = (eu_deleted u = None)"

definition has_email :: "string \<Rightarrow> end_user \<Rightarrow> bool" where
  "has_email email u = (map_option js_lower (eu_email u) = Some (js_lower email))"

definition find_user_by_email :: "string \<Rightarrow> auth_db \<Rightarrow> end_user option" where
  "find_user_by_email email db = List.find (\<lambda>u. has_email email u \<and> live_user u) (ad_users db)"

definition find_user_by_id :: "string \<Rightarrow> auth_db \<Rightarrow> end_user option" where
  "find_user_by_id i db = List.find (\<lambda>u. eu_id u = i \<and> live_user u) (ad_users db)"

definition email_taken :: "string \<Rightarrow> string \<Rightarrow> auth_db \<Rightarrow> bool" where
  \<comment> \<open>the partial unique index on \<open>lower(email)\<close>, for a row other than \<open>i\<close>\<close>
  "email_taken i email db = (\<exists>u \<in> set (ad_users db). has_email email u \<and> live_user u \<and> eu_id u \<noteq> i)"

definition merge_meta :: "metadata \<Rightarrow> metadata \<Rightarrow> metadata" where
  \<comment> \<open>\<open>a || b\<close> on objects\<close>
  "merge_meta a b = filter (\<lambda>(k, _). k \<notin> fst ` set b) a @ b"

record create_user_args =
  cu_email :: string
  cu_hash :: "string option"
  cu_confirmed :: bool
  cu_meta :: metadata

definition create_user :: "string \<Rightarrow> create_user_args \<Rightarrow> auth_db \<Rightarrow> end_user option \<times> auth_db" where
  "create_user i a db =
     (if \<exists>u \<in> set (ad_users db). has_email (cu_email a) u \<and> live_user u then (None, db)
      else (let u = \<lparr>eu_id = i, eu_email = Some (cu_email a), eu_hash = cu_hash a,
                     eu_confirmed = (if cu_confirmed a then Some (ad_now db) else None),
                     eu_banned = None, eu_meta = cu_meta a, eu_app_meta = [],
                     eu_created = ad_now db, eu_signed_in = None, eu_deleted = None\<rparr>
            in (Some u, db\<lparr>ad_users := ad_users db @ [u]\<rparr>)))"

definition set_user :: "string \<Rightarrow> (end_user \<Rightarrow> end_user) \<Rightarrow> auth_db \<Rightarrow> auth_db" where
  "set_user i f db = db\<lparr>ad_users := upd_where (\<lambda>u. eu_id u = i) f (ad_users db)\<rparr>"

definition update_password_hash :: "string \<Rightarrow> string \<Rightarrow> auth_db \<Rightarrow> auth_db" where
  "update_password_hash i h = set_user i (eu_hash_update (\<lambda>_. Some h))"

definition mark_signed_in :: "string \<Rightarrow> auth_db \<Rightarrow> auth_db" where
  "mark_signed_in i db = set_user i (eu_signed_in_update (\<lambda>_. Some (ad_now db))) db"

definition mark_email_confirmed :: "string \<Rightarrow> auth_db \<Rightarrow> auth_db" where
  "mark_email_confirmed i db =
     set_user i (eu_confirmed_update (\<lambda>c. case c of None \<Rightarrow> Some (ad_now db) | Some t \<Rightarrow> Some t)) db"

definition update_user_metadata :: "string \<Rightarrow> metadata \<Rightarrow> auth_db \<Rightarrow> auth_db" where
  "update_user_metadata i patch = set_user i (eu_meta_update (\<lambda>m. merge_meta m patch))"

definition apply_email_change :: "string \<Rightarrow> string \<Rightarrow> auth_db \<Rightarrow> bool \<times> auth_db" where
  "apply_email_change i email db =
     (case find_user_by_id i db of
        None \<Rightarrow> (False, db)
      | Some _ \<Rightarrow>
          if email_taken i email db then (False, db)
          else (True, db\<lparr>ad_users := upd_where (\<lambda>u. eu_id u = i \<and> live_user u)
                  (\<lambda>u. u\<lparr>eu_email := Some email, eu_confirmed := Some (ad_now db)\<rparr>) (ad_users db)\<rparr>))"

definition write_auth_audit :: "string \<Rightarrow> string option \<Rightarrow> auth_db \<Rightarrow> auth_db" where
  \<comment> \<open>a failed insert is swallowed\<close>
  "write_auth_audit action user db =
     (if ad_audit_up db then db\<lparr>ad_audit := ad_audit db @ [(user, action)]\<rparr> else db)"

record public_user =
  pu_id :: string
  pu_email :: "string option"
  pu_confirmed :: "nat option"
  pu_meta :: metadata
  pu_app_meta :: metadata
  pu_created :: nat
  pu_signed_in :: "nat option"

definition publicUser :: "end_user \<Rightarrow> public_user" where
  "publicUser u =
     \<lparr>pu_id = eu_id u, pu_email = eu_email u, pu_confirmed = eu_confirmed u, pu_meta = eu_meta u,
      pu_app_meta = eu_app_meta u, pu_created = eu_created u, pu_signed_in = eu_signed_in u\<rparr>"

subsection \<open>One-time links\<close>

fun TOKEN_TTL_SECONDS :: "token_type \<Rightarrow> nat" where
  "TOKEN_TTL_SECONDS Confirmation = 24 * 3600"
| "TOKEN_TTL_SECONDS Recovery = 3600"
| "TOKEN_TTL_SECONDS EmailChangeCurrent = 24 * 3600"
| "TOKEN_TTL_SECONDS EmailChangeNew = 24 * 3600"
| "TOKEN_TTL_SECONDS MagicLink = 900"

definition link_of :: "string \<Rightarrow> token_type \<Rightarrow> one_time \<Rightarrow> bool" where
  "link_of user t k = (ot_user k = user \<and> ot_type k = t)"

definition issue_one_time :: "string \<Rightarrow> string \<Rightarrow> token_type \<Rightarrow> string \<Rightarrow> string option \<Rightarrow> auth_db
    \<Rightarrow> nat \<times> auth_db" where
  \<comment> \<open>the result is \<open>expires_at\<close>\<close>
  "issue_one_time i user t hash relates db =
     (let e = ad_now db + 1000 * TOKEN_TTL_SECONDS t in
      (e, if \<exists>k \<in> set (ad_links db). link_of user t k
          then db\<lparr>ad_links := upd_where (link_of user t)
                 (\<lambda>k. k\<lparr>ot_hash := hash, ot_relates := relates, ot_created := ad_now db,
                        ot_expires := e, ot_used := None\<rparr>) (ad_links db)\<rparr>
          else db\<lparr>ad_links := ad_links db @
                 [\<lparr>ot_id = i, ot_user = user, ot_type = t, ot_hash = hash, ot_relates = relates,
                   ot_created = ad_now db, ot_expires = e, ot_used = None\<rparr>]\<rparr>))"

definition spendable :: "token_type list \<Rightarrow> string \<Rightarrow> auth_db \<Rightarrow> one_time \<Rightarrow> bool" where
  "spendable types hash db k =
     (ot_type k \<in> set types \<and> ot_hash k = hash \<and> ot_used k = None \<and> ad_now db < ot_expires k \<and>
      (\<exists>u \<in> set (ad_users db). eu_id u = ot_user k \<and> live_user u))"

definition consume_either :: "token_type list \<Rightarrow> string \<Rightarrow> auth_db \<Rightarrow> one_time option \<times> auth_db" where
  \<comment> \<open>one \<open>UPDATE ... RETURNING\<close>, of which the code reads the first row\<close>
  "consume_either types hash db =
     (List.find (spendable types hash db) (ad_links db),
      db\<lparr>ad_links := upd_where (spendable types hash db) (ot_used_update (\<lambda>_. Some (ad_now db)))
            (ad_links db)\<rparr>)"

definition consume_one_time :: "token_type \<Rightarrow> string \<Rightarrow> auth_db \<Rightarrow> one_time option \<times> auth_db" where
  "consume_one_time t = consume_either [t]"

definition sibling_consumed :: "string \<Rightarrow> token_type \<Rightarrow> auth_db \<Rightarrow> bool" where
  "sibling_consumed user t db =
     (case List.find (link_of user t) (ad_links db) of None \<Rightarrow> False | Some k \<Rightarrow> ot_used k \<noteq> None)"

definition email_change_link :: "string \<Rightarrow> one_time \<Rightarrow> bool" where
  "email_change_link user k = (ot_user k = user \<and> ot_type k \<in> {EmailChangeCurrent, EmailChangeNew})"

definition pending_email_change :: "string \<Rightarrow> auth_db \<Rightarrow> string option" where
  \<comment> \<open>the newest, the first of them in table order\<close>
  "pending_email_change user db =
     (case filter (\<lambda>k. email_change_link user k \<and> ot_relates k \<noteq> None) (ad_links db) of
        [] \<Rightarrow> None
      | k # ks \<Rightarrow> ot_relates (fold (\<lambda>x b. if ot_created b < ot_created x then x else b) ks k))"

definition clear_email_change_tokens :: "string \<Rightarrow> auth_db \<Rightarrow> auth_db" where
  "clear_email_change_tokens user db =
     db\<lparr>ad_links := filter (\<lambda>k. \<not> email_change_link user k) (ad_links db)\<rparr>"

subsection \<open>Sessions and refresh tokens\<close>

definition live_token :: "refresh_token \<Rightarrow> bool" where
  "live_token r = (rt_used r = None \<and> \<not> rt_revoked r)"

definition insert_token :: "string \<Rightarrow> string \<Rightarrow> string \<Rightarrow> nat option \<Rightarrow> nat auth_eff" where
  "insert_token hash user sid parent db =
     (if \<exists>r \<in> set (ad_tokens db). rt_hash r = hash then (Inl unique_violation, db)
      else (Inr (ad_next db),
            db\<lparr>ad_tokens := ad_tokens db @
                 [\<lparr>rt_id = ad_next db, rt_hash = hash, rt_user = user, rt_session = sid,
                   rt_parent = parent, rt_used = None, rt_revoked = False\<rparr>],
               ad_next := ad_next db + 1\<rparr>))"

definition insert_session :: "string \<Rightarrow> string \<Rightarrow> string option \<Rightarrow> string option \<Rightarrow> auth_db \<Rightarrow> auth_db" where
  "insert_session sid user agent ip db =
     db\<lparr>ad_sessions := ad_sessions db @
          [\<lparr>as_id = sid, as_user = user, as_created = ad_now db, as_refreshed = Some (ad_now db),
            as_agent = agent, as_ip = ip, as_revoked = None\<rparr>]\<rparr>"

definition open_session :: "string \<Rightarrow> string \<Rightarrow> string \<Rightarrow> string option \<Rightarrow> string option
    \<Rightarrow> (string \<times> nat) auth_eff" where
  "open_session sid user hash agent ip =
     transaction (and_then (modifies (insert_session sid user agent ip)) (\<lambda>_.
       and_then (insert_token hash user sid None) (\<lambda>t. ret (sid, t))))"

record refresh_row =
  rr_id :: nat
  rr_user :: string
  rr_session :: string
  rr_used :: "nat option"
  rr_revoked :: bool
  rr_session_revoked :: "nat option"
  rr_refreshed :: "nat option"
  rr_created :: nat

definition session_by_id :: "string \<Rightarrow> auth_db \<Rightarrow> auth_session option" where
  "session_by_id sid db = List.find (\<lambda>s. as_id s = sid) (ad_sessions db)"

definition find_refresh_token :: "string \<Rightarrow> auth_db \<Rightarrow> refresh_row option" where
  "find_refresh_token hash db =
     (case List.find (\<lambda>r. rt_hash r = hash) (ad_tokens db) of
        None \<Rightarrow> None
      | Some r \<Rightarrow>
          (case session_by_id (rt_session r) db of
             None \<Rightarrow> None
           | Some s \<Rightarrow> Some \<lparr>rr_id = rt_id r, rr_user = rt_user r, rr_session = rt_session r,
                            rr_used = rt_used r, rr_revoked = rt_revoked r,
                            rr_session_revoked = as_revoked s, rr_refreshed = as_refreshed s,
                            rr_created = as_created s\<rparr>))"

definition set_token :: "nat \<Rightarrow> (refresh_token \<Rightarrow> refresh_token) \<Rightarrow> auth_db \<Rightarrow> auth_db" where
  \<comment> \<open>\<open>WHERE id = $1 AND used_at IS NULL AND revoked = false\<close>\<close>
  "set_token i f db = db\<lparr>ad_tokens := upd_where (\<lambda>r. rt_id r = i \<and> live_token r) f (ad_tokens db)\<rparr>"

definition has_live_token :: "nat \<Rightarrow> auth_db \<Rightarrow> bool" where
  "has_live_token i db = (\<exists>r \<in> set (ad_tokens db). rt_id r = i \<and> live_token r)"

definition bump_session :: "string \<Rightarrow> auth_db \<Rightarrow> auth_db" where
  "bump_session sid db =
     db\<lparr>ad_sessions := upd_where (\<lambda>s. as_id s = sid) (as_refreshed_update (\<lambda>_. Some (ad_now db)))
           (ad_sessions db)\<rparr>"

definition rotate_refresh_token :: "nat \<Rightarrow> string \<Rightarrow> string \<Rightarrow> string \<Rightarrow> nat option auth_eff" where
  "rotate_refresh_token tid sid user child db =
     (if \<not> has_live_token tid db then (Inr None, db)
      else transaction (and_then (modifies (set_token tid (rt_used_update (\<lambda>_. Some (ad_now db))))) (\<lambda>_.
             and_then (insert_token child user sid (Some tid)) (\<lambda>c.
             and_then (modifies (bump_session sid)) (\<lambda>_. ret (Some c))))) db)"

definition find_child_token :: "nat \<Rightarrow> auth_db \<Rightarrow> refresh_token option" where
  \<comment> \<open>\<open>ORDER BY id LIMIT 1\<close>: the table is in id order\<close>
  "find_child_token parent db = List.find (\<lambda>r. rt_parent r = Some parent) (ad_tokens db)"

definition grace_rotate :: "nat \<Rightarrow> nat \<Rightarrow> string \<Rightarrow> string \<Rightarrow> string \<Rightarrow> nat option auth_eff" where
  "grace_rotate parent old sid user child db =
     (if \<not> has_live_token old db then (Inr None, db)
      else transaction (and_then (modifies (set_token old (rt_revoked_update (\<lambda>_. True)))) (\<lambda>_.
             and_then (insert_token child user sid (Some parent)) (\<lambda>c.
             and_then (modifies (bump_session sid)) (\<lambda>_. ret (Some c))))) db)"

definition revoke_tokens :: "(refresh_token \<Rightarrow> bool) \<Rightarrow> auth_db \<Rightarrow> auth_db" where
  "revoke_tokens p db = db\<lparr>ad_tokens := upd_where p (rt_revoked_update (\<lambda>_. True)) (ad_tokens db)\<rparr>"

definition revoke_sessions :: "(auth_session \<Rightarrow> bool) \<Rightarrow> auth_db \<Rightarrow> auth_db" where
  \<comment> \<open>\<open>SET revoked_at = now() WHERE ... AND revoked_at IS NULL\<close>\<close>
  "revoke_sessions p db =
     db\<lparr>ad_sessions := upd_where (\<lambda>s. p s \<and> as_revoked s = None) (as_revoked_update (\<lambda>_. Some (ad_now db)))
           (ad_sessions db)\<rparr>"

definition revoke_session_family :: "string \<Rightarrow> auth_db \<Rightarrow> auth_db" where
  "revoke_session_family sid db =
     revoke_tokens (\<lambda>r. rt_session r = sid \<and> \<not> rt_revoked r)
       (revoke_sessions (\<lambda>s. as_id s = sid) db)"

datatype revoke_scope = ScopeLocal | ScopeGlobal | ScopeOthers

fun in_scope :: "revoke_scope \<Rightarrow> string \<Rightarrow> auth_session \<Rightarrow> bool" where
  "in_scope ScopeLocal cur s = (as_id s = cur)"
| "in_scope ScopeOthers cur s = (as_id s \<noteq> cur)"
| "in_scope ScopeGlobal cur s = True"

definition revoked_by :: "string \<Rightarrow> revoke_scope \<Rightarrow> string \<Rightarrow> auth_session \<Rightarrow> bool" where
  "revoked_by user scope cur s = (as_user s = user \<and> in_scope scope cur s)"

definition revoke_user_sessions :: "string \<Rightarrow> revoke_scope \<Rightarrow> string \<Rightarrow> auth_db \<Rightarrow> nat \<times> auth_db" where
  "revoke_user_sessions user scope cur db =
     (let hit = map as_id (filter (\<lambda>s. revoked_by user scope cur s \<and> as_revoked s = None) (ad_sessions db));
          db1 = revoke_sessions (revoked_by user scope cur) db
      in (length hit,
          if hit = [] then db1
          else revoke_tokens (\<lambda>r. rt_session r \<in> set hit \<and> \<not> rt_revoked r) db1))"

definition list_sessions :: "string \<Rightarrow> auth_db \<Rightarrow> auth_session list" where
  "list_sessions user db =
     rev (sort_key (\<lambda>s. case as_refreshed s of None \<Rightarrow> as_created s | Some t \<Rightarrow> t)
       (filter (\<lambda>s. as_user s = user \<and> as_revoked s = None) (ad_sessions db)))"

definition live_session :: "string \<Rightarrow> string \<Rightarrow> auth_db \<Rightarrow> bool" where
  "live_session sid user db =
     ((\<exists>s \<in> set (ad_sessions db). as_id s = sid \<and> as_user s = user \<and> as_revoked s = None) \<and>
      (\<exists>u \<in> set (ad_users db). eu_id u = user \<and> live_user u))"

definition revoke_own_mark :: "string \<Rightarrow> string \<Rightarrow> auth_db \<Rightarrow> bool \<times> auth_db" where
  "revoke_own_mark sid user db =
     (\<exists>s \<in> set (ad_sessions db). as_id s = sid \<and> as_user s = user \<and> as_revoked s = None,
      revoke_sessions (\<lambda>s. as_id s = sid \<and> as_user s = user) db)"

definition revoke_own_tokens :: "string \<Rightarrow> auth_db \<Rightarrow> auth_db" where
  "revoke_own_tokens sid = revoke_tokens (\<lambda>r. rt_session r = sid)"

definition revoke_own_session :: "string \<Rightarrow> string \<Rightarrow> auth_db \<Rightarrow> bool \<times> auth_db" where
  \<comment> \<open>two statements outside a transaction\<close>
  "revoke_own_session sid user db =
     (let (done, db1) = revoke_own_mark sid user db in
      if \<not> done then (False, db1) else (True, revoke_own_tokens sid db1))"

subsection \<open>The developer's side\<close>

record admin_update =
  au_banned :: "nat option option"
  au_confirm :: "bool option"
  au_hash :: "string option"
  au_app_meta :: "metadata option"
  au_meta :: "metadata option"
  au_email :: "string option"

definition set_if :: "'a option \<Rightarrow> ('a \<Rightarrow> 'b \<Rightarrow> 'b) \<Rightarrow> 'b \<Rightarrow> 'b" where
  "set_if v f = (case v of None \<Rightarrow> id | Some x \<Rightarrow> f x)"

definition admin_sets :: "admin_update \<Rightarrow> nat \<Rightarrow> end_user \<Rightarrow> end_user" where
  "admin_sets a now u =
     (set_if (au_email a) (\<lambda>e. eu_email_update (\<lambda>_. Some e)) \<circ>
      set_if (au_meta a) (\<lambda>p. eu_meta_update (\<lambda>m. merge_meta m p)) \<circ>
      set_if (au_app_meta a) (\<lambda>p. eu_app_meta_update (\<lambda>m. merge_meta m p)) \<circ>
      set_if (au_hash a) (\<lambda>h. eu_hash_update (\<lambda>_. Some h)) \<circ>
      set_if (au_confirm a) (\<lambda>b. eu_confirmed_update (\<lambda>c. if b
          then (case c of None \<Rightarrow> Some now | Some t \<Rightarrow> Some t) else None)) \<circ>
      set_if (au_banned a) (\<lambda>b. eu_banned_update (\<lambda>_. b))) u"

definition no_sets :: "admin_update \<Rightarrow> bool" where
  "no_sets a = (au_banned a = None \<and> au_confirm a = None \<and> au_hash a = None \<and>
     au_app_meta a = None \<and> au_meta a = None \<and> au_email a = None)"

definition admin_update_user :: "string \<Rightarrow> admin_update \<Rightarrow> end_user option auth_eff" where
  "admin_update_user i a db =
     (if no_sets a then (Inr (find_user_by_id i db), db)
      else (case find_user_by_id i db of
              None \<Rightarrow> (Inr None, db)
            | Some u \<Rightarrow>
                if (case au_email a of None \<Rightarrow> False | Some e \<Rightarrow> email_taken i e db)
                then (Inl unique_violation, db)
                else (Inr (Some (admin_sets a (ad_now db) u)),
                      db\<lparr>ad_users := upd_where (\<lambda>u. eu_id u = i \<and> live_user u)
                            (admin_sets a (ad_now db)) (ad_users db)\<rparr>)))"

definition tombstone :: "nat \<Rightarrow> end_user \<Rightarrow> end_user" where
  "tombstone now u =
     u\<lparr>eu_deleted := Some now, eu_email := Some (''deleted+'' @ eu_id u @ ''@invalid''), eu_hash := None,
       eu_meta := [], eu_app_meta := [], eu_confirmed := None\<rparr>"

definition soft_delete_user :: "string \<Rightarrow> auth_db \<Rightarrow> string option option \<times> auth_db" where
  \<comment> \<open>the result is the address the row had\<close>
  "soft_delete_user i db =
     (case find_user_by_id i db of
        None \<Rightarrow> (None, db)
      | Some u \<Rightarrow>
          (let db1 = set_user i (tombstone (ad_now db)) db;
               db2 = revoke_sessions (\<lambda>s. as_user s = i) db1;
               db3 = revoke_tokens (\<lambda>r. rt_user r = i \<and> \<not> rt_revoked r) db2
           in (Some (eu_email u), db3\<lparr>ad_links := filter (\<lambda>k. ot_user k \<noteq> i) (ad_links db3)\<rparr>)))"

definition admin_sign_out_user :: "string \<Rightarrow> auth_db \<Rightarrow> nat \<times> auth_db" where
  "admin_sign_out_user i =
     revoke_user_sessions i ScopeGlobal ''00000000-0000-0000-0000-000000000000''"

subsection \<open>Concurrent requests\<close>

inductive auth_step :: "auth_db \<Rightarrow> auth_db \<Rightarrow> bool" where
  step_clock: "ad_now db \<le> t \<Longrightarrow> auth_step db (db\<lparr>ad_now := t\<rparr>)"
| step_create: "i \<notin> eu_id ` set (ad_users db) \<Longrightarrow> auth_step db (snd (create_user i a db))"
| step_password: "auth_step db (update_password_hash i h db)"
| step_signed_in: "auth_step db (mark_signed_in i db)"
| step_confirm: "auth_step db (mark_email_confirmed i db)"
| step_metadata: "auth_step db (update_user_metadata i p db)"
| step_email: "auth_step db (snd (apply_email_change i e db))"
| step_admin: "auth_step db (snd (admin_update_user i au db))"
| step_audit: "auth_step db (write_auth_audit action user db)"
| step_issue: "user \<in> eu_id ` set (ad_users db) \<Longrightarrow> auth_step db (snd (issue_one_time i user t h relates db))"
| step_consume: "auth_step db (snd (consume_either types h db))"
| step_clear: "auth_step db (clear_email_change_tokens i db)"
| step_open: "sid \<notin> as_id ` set (ad_sessions db) \<Longrightarrow> user \<in> eu_id ` set (ad_users db) \<Longrightarrow>
    auth_step db (snd (open_session sid user h agent ip db))"
| step_rotate: "r \<in> set (ad_tokens db) \<Longrightarrow>
    auth_step db (snd (rotate_refresh_token (rt_id r) (rt_session r) (rt_user r) child db))"
| step_grace: "r \<in> set (ad_tokens db) \<Longrightarrow> c \<in> set (ad_tokens db) \<Longrightarrow> rt_parent c = Some (rt_id r) \<Longrightarrow>
    auth_step db (snd (grace_rotate (rt_id r) (rt_id c) (rt_session r) (rt_user r) child db))"
| step_family: "auth_step db (revoke_session_family sid db)"
| step_sessions: "auth_step db (snd (revoke_user_sessions user scope cur db))"
| step_own_mark: "auth_step db (snd (revoke_own_mark sid user db))"
| step_own_tokens: "s \<in> set (ad_sessions db) \<Longrightarrow> as_revoked s \<noteq> None \<Longrightarrow>
    auth_step db (revoke_own_tokens (as_id s) db)"
| step_delete: "auth_step db (snd (soft_delete_user i db))"

definition auth_reach :: "auth_db \<Rightarrow> auth_db \<Rightarrow> bool" where
  "auth_reach = auth_step\<^sup>*\<^sup>*"

definition empty_auth :: "bool \<Rightarrow> nat \<Rightarrow> auth_db" where
  "empty_auth up now = \<lparr>ad_users = [], ad_sessions = [], ad_tokens = [], ad_links = [], ad_audit = [],
     ad_audit_up = up, ad_next = 1, ad_now = now\<rparr>"

subsection \<open>What the schema promises\<close>

definition users_ok :: "end_user list \<Rightarrow> bool" where
  "users_ok us = (distinct (map eu_id us) \<and>
     (\<forall>u \<in> set us. \<forall>v \<in> set us. \<forall>e. live_user u \<and> live_user v \<and> has_email e u \<and> has_email e v
        \<longrightarrow> eu_id u = eu_id v))"

definition sessions_ok :: "end_user list \<Rightarrow> auth_session list \<Rightarrow> bool" where
  "sessions_ok us ss = (distinct (map as_id ss) \<and> as_user ` set ss \<subseteq> eu_id ` set us)"

definition session_keys :: "auth_session list \<Rightarrow> (string \<times> string) set" where
  "session_keys ss = (\<lambda>s. (as_id s, as_user s)) ` set ss"

definition tokens_ok :: "nat \<Rightarrow> auth_session list \<Rightarrow> refresh_token list \<Rightarrow> bool" where
  "tokens_ok n ss ts = (sorted_wrt (<) (map rt_id ts) \<and> rt_id ` set ts \<subseteq> {..<n} \<and>
     distinct (map rt_hash ts) \<and> (\<lambda>r. (rt_session r, rt_user r)) ` set ts \<subseteq> session_keys ss)"

definition links_ok :: "end_user list \<Rightarrow> one_time list \<Rightarrow> bool" where
  "links_ok us ks = (distinct (map (\<lambda>k. (ot_user k, ot_type k)) ks) \<and> ot_user ` set ks \<subseteq> eu_id ` set us)"

definition lineage_ok :: "refresh_token list \<Rightarrow> bool" where
  "lineage_ok ts =
     ((\<forall>r \<in> set ts. \<forall>p. rt_parent r = Some p \<longrightarrow>
         (\<exists>q \<in> set ts. rt_id q = p \<and> rt_session q = rt_session r \<and> rt_used q \<noteq> None)) \<and>
      (\<forall>r \<in> set ts. \<forall>q \<in> set ts. live_token r \<and> live_token q \<and> rt_session r = rt_session q
         \<longrightarrow> rt_id r = rt_id q))"

definition auth_ok :: "auth_db \<Rightarrow> bool" where
  "auth_ok db = (users_ok (ad_users db) \<and> sessions_ok (ad_users db) (ad_sessions db) \<and>
     tokens_ok (ad_next db) (ad_sessions db) (ad_tokens db) \<and> links_ok (ad_users db) (ad_links db) \<and>
     lineage_ok (ad_tokens db))"

named_theorems auth_frame \<open>parts of the schema an update leaves alone\<close>

lemma upd_where_image: "(\<And>x. k (f x) = k x) \<Longrightarrow> k ` set (upd_where p f xs) = k ` set xs"
  by (metis set_map upd_where_key)

lemma users_upd [auth_frame]:
  "(\<And>u. eu_id (f u) = eu_id u) \<Longrightarrow> eu_id ` set (upd_where p f us) = eu_id ` set us"
  by (rule upd_where_image)

lemma users_ok_upd:
  assumes "\<And>u. eu_id (f u) = eu_id u" "\<And>u. eu_email (f u) = eu_email u" "\<And>u. live_user (f u) \<Longrightarrow> live_user u"
    "users_ok us"
  shows "users_ok (upd_where p f us)"
proof -
  have h: "has_email e (f u) = has_email e u" for e u by (simp add: has_email_def assms(2))
  show ?thesis
    using assms(3,4) unfolding users_ok_def
    by (auto simp: upd_where_key[of eu_id, OF assms(1)] row_facts h assms(1) split: if_splits; blast)
qed

lemma sessions_upd [auth_frame]:
  assumes "\<And>s. as_id (f s) = as_id s" "\<And>s. as_user (f s) = as_user s"
  shows "sessions_ok us (upd_where p f ss) = sessions_ok us ss" "session_keys (upd_where p f ss) = session_keys ss"
proof -
  have k: "map (\<lambda>s. (as_id s, as_user s)) (upd_where p f ss) = map (\<lambda>s. (as_id s, as_user s)) ss"
    by (rule upd_where_key) (simp add: assms)
  then show "session_keys (upd_where p f ss) = session_keys ss"
    unfolding session_keys_def by (metis set_map)
  have "map as_id (upd_where p f ss) = map as_id ss" "map as_user (upd_where p f ss) = map as_user ss"
    by (auto intro: upd_where_key simp: assms)
  then show "sessions_ok us (upd_where p f ss) = sessions_ok us ss"
    unfolding sessions_ok_def by (metis set_map)
qed

lemma sessions_ok_ids: "eu_id ` set us = eu_id ` set vs \<Longrightarrow> sessions_ok us ss = sessions_ok vs ss"
  by (simp add: sessions_ok_def)

lemma links_ok_ids: "eu_id ` set us = eu_id ` set vs \<Longrightarrow> links_ok us ks = links_ok vs ks"
  by (simp add: links_ok_def)

lemma tokens_ok_keys: "session_keys ss = session_keys st \<Longrightarrow> tokens_ok n ss ts = tokens_ok n st ts"
  by (simp add: tokens_ok_def)

lemma tokens_ok_upd:
  assumes "\<And>r. rt_id (f r) = rt_id r" "\<And>r. rt_hash (f r) = rt_hash r" "\<And>r. rt_session (f r) = rt_session r"
    "\<And>r. rt_user (f r) = rt_user r"
  shows "tokens_ok n ss (upd_where p f ts) = tokens_ok n ss ts"
  unfolding tokens_ok_def
  by (simp add: upd_where_key[of rt_id] upd_where_key[of rt_hash] upd_where_image[of rt_id]
      upd_where_image[of "\<lambda>r. (rt_session r, rt_user r)"] assms)

lemma links_ok_upd:
  assumes "\<And>k. ot_user (f k) = ot_user k" "\<And>k. ot_type (f k) = ot_type k"
  shows "links_ok us (upd_where p f ks) = links_ok us ks"
  unfolding links_ok_def
  by (simp add: upd_where_key[of "\<lambda>k. (ot_user k, ot_type k)"] upd_where_image[of ot_user] assms)

lemma lineage_ok_upd:
  assumes f: "\<And>r. rt_id (f r) = rt_id r" "\<And>r. rt_session (f r) = rt_session r" "\<And>r. rt_parent (f r) = rt_parent r"
    "\<And>r. live_token (f r) \<Longrightarrow> live_token r" "\<And>r. rt_used r \<noteq> None \<Longrightarrow> rt_used (f r) \<noteq> None"
    and ok: "lineage_ok ts"
  shows "lineage_ok (upd_where p f ts)"
  unfolding lineage_ok_def
proof (intro conjI ballI allI impI)
  fix r q assume "r \<in> set (upd_where p f ts)" "rt_parent r = Some q"
  then obtain r0 where r0: "r0 \<in> set ts" "rt_parent r0 = Some q" "rt_session r0 = rt_session r"
    by (auto simp: row_facts f split: if_splits)
  then obtain q0 where q0: "q0 \<in> set ts" "rt_id q0 = q" "rt_session q0 = rt_session r" "rt_used q0 \<noteq> None"
    using ok unfolding lineage_ok_def by metis
  show "\<exists>x \<in> set (upd_where p f ts). rt_id x = q \<and> rt_session x = rt_session r \<and> rt_used x \<noteq> None"
    by (rule bexI[of _ "if p q0 then f q0 else q0"]) (use q0 f in \<open>auto simp: row_facts\<close>)
next
  fix r q assume a: "r \<in> set (upd_where p f ts)" "q \<in> set (upd_where p f ts)"
    "live_token r \<and> live_token q \<and> rt_session r = rt_session q"
  obtain r0 where r0: "r0 \<in> set ts" "live_token r0" "rt_session r0 = rt_session r" "rt_id r0 = rt_id r"
    using a by (auto simp: row_facts f split: if_splits)
  obtain q0 where q0: "q0 \<in> set ts" "live_token q0" "rt_session q0 = rt_session q" "rt_id q0 = rt_id q"
    using a by (auto simp: row_facts f split: if_splits)
  show "rt_id r = rt_id q"
    using ok r0 q0 a(3) unfolding lineage_ok_def by metis
qed


subsection \<open>Every statement keeps it\<close>

lemma live_token_simps [simp]:
  "live_token (r\<lparr>rt_used := Some t\<rparr>) = False" "live_token (r\<lparr>rt_revoked := True\<rparr>) = False"
  by (simp_all add: live_token_def)

lemma set_user_ok:
  assumes "auth_ok db" "\<And>u. eu_id (f u) = eu_id u" "\<And>u. eu_email (f u) = eu_email u"
    "\<And>u. live_user (f u) \<Longrightarrow> live_user u"
  shows "auth_ok (set_user i f db)"
proof -
  have "eu_id ` set (upd_where p f us) = eu_id ` set us" for p us by (rule users_upd) (rule assms)
  then show ?thesis
    using assms(1) users_ok_upd[OF assms(2-4)]
    by (auto simp: auth_ok_def set_user_def sessions_ok_def links_ok_def)
qed

lemma revoke_tokens_ok: "auth_ok db \<Longrightarrow> auth_ok (revoke_tokens p db)"
  unfolding auth_ok_def revoke_tokens_def
  by (auto simp: tokens_ok_upd intro!: lineage_ok_upd)

lemma revoke_sessions_ok: "auth_ok db \<Longrightarrow> auth_ok (revoke_sessions p db)"
  unfolding auth_ok_def revoke_sessions_def
  by (simp add: sessions_upd tokens_ok_keys[OF sessions_upd(2)])

lemma insert_token_ok:
  assumes ok: "auth_ok db" and k: "(sid, user) \<in> session_keys (ad_sessions db)"
    and none: "\<And>r. r \<in> set (ad_tokens db) \<Longrightarrow> rt_session r = sid \<Longrightarrow> \<not> live_token r"
    and par: "\<And>p. parent = Some p \<Longrightarrow> \<exists>q \<in> set (ad_tokens db). rt_id q = p \<and> rt_session q = sid \<and> rt_used q \<noteq> None"
  shows "auth_ok (snd (insert_token h user sid parent db))"
proof (cases "\<exists>r \<in> set (ad_tokens db). rt_hash r = h")
  case True
  then show ?thesis using ok by (simp add: insert_token_def)
next
  case False
  let ?n = "\<lparr>rt_id = ad_next db, rt_hash = h, rt_user = user, rt_session = sid, rt_parent = parent,
             rt_used = None, rt_revoked = False\<rparr>"
  have t: "tokens_ok (ad_next db) (ad_sessions db) (ad_tokens db)" and l: "lineage_ok (ad_tokens db)"
    using ok by (simp_all add: auth_ok_def)
  have "tokens_ok (ad_next db + 1) (ad_sessions db) (ad_tokens db @ [?n])"
    using t k False by (auto simp: tokens_ok_def sorted_wrt_append)
  moreover have "lineage_ok (ad_tokens db @ [?n])"
    unfolding lineage_ok_def
  proof (intro conjI ballI allI impI)
    fix r p assume "r \<in> set (ad_tokens db @ [?n])" "rt_parent r = Some p"
    then show "\<exists>q \<in> set (ad_tokens db @ [?n]). rt_id q = p \<and> rt_session q = rt_session r \<and> rt_used q \<noteq> None"
      using l par[of p] unfolding lineage_ok_def by (auto; metis)
  next
    fix r q assume a: "r \<in> set (ad_tokens db @ [?n])" "q \<in> set (ad_tokens db @ [?n])"
      "live_token r \<and> live_token q \<and> rt_session r = rt_session q"
    have n: "rt_session ?n = sid" by simp
    consider "r = ?n" "q = ?n" | "r = ?n" "q \<in> set (ad_tokens db)" | "q = ?n" "r \<in> set (ad_tokens db)"
      | "r \<in> set (ad_tokens db)" "q \<in> set (ad_tokens db)"
      using a by auto
    then show "rt_id r = rt_id q"
    proof cases
      case 2
      then show ?thesis using a(3) none[of q] n by metis
    next
      case 3
      then show ?thesis using a(3) none[of r] n by metis
    next
      case 4
      then show ?thesis using a(3) l unfolding lineage_ok_def by blast
    qed simp
  qed
  ultimately show ?thesis
    using False ok by (simp add: insert_token_def auth_ok_def)
qed


lemma insert_token_cases:
  "(\<exists>r \<in> set (ad_tokens db). rt_hash r = h) \<and> insert_token h user sid par db = (Inl unique_violation, db) \<or>
   h \<notin> rt_hash ` set (ad_tokens db) \<and>
   insert_token h user sid par db =
     (Inr (ad_next db), db\<lparr>ad_tokens := ad_tokens db @
        [\<lparr>rt_id = ad_next db, rt_hash = h, rt_user = user, rt_session = sid, rt_parent = par,
          rt_used = None, rt_revoked = False\<rparr>], ad_next := ad_next db + 1\<rparr>)"
  by (auto simp: insert_token_def image_iff)

lemma rotate_unfold:
  "rotate_refresh_token tid sid user child db =
     (if \<not> has_live_token tid db then (Inr None, db)
      else (case insert_token child user sid (Some tid) (set_token tid (rt_used_update (\<lambda>_. Some (ad_now db))) db) of
              (Inl e, _) \<Rightarrow> (Inl e, db)
            | (Inr c, db') \<Rightarrow> (Inr (Some c), bump_session sid db')))"
  by (auto simp: rotate_refresh_token_def eff_defs split: prod.splits sum.splits)

lemma grace_unfold:
  "grace_rotate parent old sid user child db =
     (if \<not> has_live_token old db then (Inr None, db)
      else (case insert_token child user sid (Some parent) (set_token old (rt_revoked_update (\<lambda>_. True)) db) of
              (Inl e, _) \<Rightarrow> (Inl e, db)
            | (Inr c, db') \<Rightarrow> (Inr (Some c), bump_session sid db')))"
  by (auto simp: grace_rotate_def eff_defs split: prod.splits sum.splits)

lemma open_unfold:
  "open_session sid user h agent ip db =
     (case insert_token h user sid None (insert_session sid user agent ip db) of
        (Inl e, _) \<Rightarrow> (Inl e, db) | (Inr t, db') \<Rightarrow> (Inr (sid, t), db'))"
  by (auto simp: open_session_def eff_defs split: prod.splits sum.splits)

lemma bump_ok: "auth_ok db \<Longrightarrow> auth_ok (bump_session sid db)"
  unfolding auth_ok_def bump_session_def
  by (simp add: sessions_upd tokens_ok_keys[OF sessions_upd(2)])

lemma token_of_session:
  assumes "auth_ok db" "r \<in> set (ad_tokens db)" "q \<in> set (ad_tokens db)"
    "live_token r" "live_token q" "rt_session r = rt_session q"
  shows "rt_id r = rt_id q"
  using assms unfolding auth_ok_def lineage_ok_def by blast

lemma token_ids: "auth_ok db \<Longrightarrow> distinct (map rt_id (ad_tokens db))"
  by (auto simp: auth_ok_def tokens_ok_def strict_sorted_iff)

lemma same_token: "auth_ok db \<Longrightarrow> r \<in> set (ad_tokens db) \<Longrightarrow> q \<in> set (ad_tokens db) \<Longrightarrow> rt_id r = rt_id q \<Longrightarrow> r = q"
  by (metis token_ids unique_key)

lemma token_session_key: "auth_ok db \<Longrightarrow> r \<in> set (ad_tokens db) \<Longrightarrow>
    (rt_session r, rt_user r) \<in> session_keys (ad_sessions db)"
  by (auto simp: auth_ok_def tokens_ok_def)

lemma set_token_ok:
  assumes "auth_ok db" "f = rt_used_update (\<lambda>_. Some t) \<or> f = rt_revoked_update (\<lambda>_. True)"
  shows "auth_ok (set_token i f db)"
  using assms unfolding auth_ok_def set_token_def
  by (auto simp: tokens_ok_upd live_token_def intro!: lineage_ok_upd)

lemma set_token_session_dead:
  assumes ok: "auth_ok db" and r: "r \<in> set (ad_tokens db)" "live_token r"
    and f: "f = rt_used_update (\<lambda>_. Some t) \<or> f = rt_revoked_update (\<lambda>_. True)"
    and q: "q \<in> set (ad_tokens (set_token (rt_id r) f db))" "rt_session q = rt_session r"
  shows "\<not> live_token q"
proof
  assume l: "live_token q"
  from q f l obtain q0 where q0: "q0 \<in> set (ad_tokens db)" "q = q0" "\<not> (rt_id q0 = rt_id r \<and> live_token q0)"
    by (auto simp: set_token_def row_facts split: if_splits)
  then show False using token_of_session[OF ok q0(1) r(1)] l r(2) q(2) by blast
qed

lemma rotate_ok:
  assumes ok: "auth_ok db" and r: "r \<in> set (ad_tokens db)"
  shows "auth_ok (snd (rotate_refresh_token (rt_id r) (rt_session r) (rt_user r) child db))"
proof (cases "has_live_token (rt_id r) db")
  case True
  then have l: "live_token r" using same_token[OF ok _ r] by (auto simp: has_live_token_def)
  let ?f = "rt_used_update (\<lambda>_. Some (ad_now db))"
  let ?d = "set_token (rt_id r) ?f db"
  have ok1: "auth_ok ?d" using ok by (rule set_token_ok[where t = "ad_now db"]) simp
  have "auth_ok (snd (insert_token child (rt_user r) (rt_session r) (Some (rt_id r)) ?d))"
  proof (rule insert_token_ok[OF ok1])
    show "(rt_session r, rt_user r) \<in> session_keys (ad_sessions ?d)"
      using token_session_key[OF ok r] by (simp add: set_token_def)
    show "\<not> live_token q" if "q \<in> set (ad_tokens ?d)" "rt_session q = rt_session r" for q
      using set_token_session_dead[OF ok r l _ that] by blast
    show "\<exists>q \<in> set (ad_tokens ?d). rt_id q = p \<and> rt_session q = rt_session r \<and> rt_used q \<noteq> None"
      if "Some (rt_id r) = Some p" for p
      by (rule bexI[of _ "?f r"]) (use that r l in \<open>auto simp: set_token_def row_facts\<close>)
  qed
  then show ?thesis using True ok
    by (auto simp: rotate_unfold split: prod.splits sum.splits intro!: bump_ok)
qed (simp add: rotate_unfold ok)

lemma grace_ok:
  assumes ok: "auth_ok db" and r: "r \<in> set (ad_tokens db)" and c: "c \<in> set (ad_tokens db)" "rt_parent c = Some (rt_id r)"
  shows "auth_ok (snd (grace_rotate (rt_id r) (rt_id c) (rt_session r) (rt_user r) child db))"
proof (cases "has_live_token (rt_id c) db")
  case True
  then have l: "live_token c" using same_token[OF ok _ c(1)] by (auto simp: has_live_token_def)
  have s: "rt_session c = rt_session r" and u: "rt_used r \<noteq> None"
    using ok c same_token[OF ok _ r] unfolding auth_ok_def lineage_ok_def by (metis)+
  let ?f = "rt_revoked_update (\<lambda>_. True)"
  let ?d = "set_token (rt_id c) ?f db"
  have ok1: "auth_ok ?d" using ok by (rule set_token_ok) simp
  have "auth_ok (snd (insert_token child (rt_user r) (rt_session r) (Some (rt_id r)) ?d))"
  proof (rule insert_token_ok[OF ok1])
    show "(rt_session r, rt_user r) \<in> session_keys (ad_sessions ?d)"
      using token_session_key[OF ok r] by (simp add: set_token_def)
    show "\<not> live_token q" if "q \<in> set (ad_tokens ?d)" "rt_session q = rt_session r" for q
      using set_token_session_dead[OF ok c(1) l _ that(1)] that(2) s by metis
    show "\<exists>q \<in> set (ad_tokens ?d). rt_id q = p \<and> rt_session q = rt_session r \<and> rt_used q \<noteq> None"
      if "Some (rt_id r) = Some p" for p
      by (rule bexI[of _ r]) (use that r u in \<open>auto simp: set_token_def row_facts live_token_def\<close>)
  qed
  then show ?thesis using True ok
    by (auto simp: grace_unfold split: prod.splits sum.splits intro!: bump_ok)
qed (simp add: grace_unfold ok)

lemma open_ok:
  assumes ok: "auth_ok db" and sid: "sid \<notin> as_id ` set (ad_sessions db)" and user: "user \<in> eu_id ` set (ad_users db)"
  shows "auth_ok (snd (open_session sid user h agent ip db))"
proof -
  let ?d = "insert_session sid user agent ip db"
  have keys: "session_keys (ad_sessions db) \<subseteq> session_keys (ad_sessions ?d)"
    by (auto simp: insert_session_def session_keys_def)
  have ok1: "auth_ok ?d"
    using ok sid user keys unfolding auth_ok_def
    by (auto simp: insert_session_def sessions_ok_def tokens_ok_def)
  have "auth_ok (snd (insert_token h user sid None ?d))"
  proof (rule insert_token_ok[OF ok1])
    show "(sid, user) \<in> session_keys (ad_sessions ?d)" by (simp add: insert_session_def session_keys_def)
    show "\<not> live_token r" if "r \<in> set (ad_tokens ?d)" "rt_session r = sid" for r
      using token_session_key[OF ok, of r] that sid by (auto simp: insert_session_def session_keys_def)
  qed simp
  then show ?thesis using ok by (auto simp: open_unfold split: prod.splits sum.splits)
qed


lemma users_change_ok:
  assumes ok: "auth_ok db" and users: "users_ok us" and i: "eu_id ` set us = eu_id ` set (ad_users db)"
  shows "auth_ok (db\<lparr>ad_users := us\<rparr>)"
  using ok users i by (simp add: auth_ok_def sessions_ok_def links_ok_def)

lemma users_ok_snoc:
  assumes "users_ok us" "eu_id u \<notin> eu_id ` set us"
    "\<And>v e. v \<in> set us \<Longrightarrow> live_user v \<Longrightarrow> has_email e v \<Longrightarrow> \<not> has_email e u"
  shows "users_ok (us @ [u])"
  using assms unfolding users_ok_def by auto

lemma create_ok:
  assumes ok: "auth_ok db" and i: "i \<notin> eu_id ` set (ad_users db)"
  shows "auth_ok (snd (create_user i a db))"
proof (cases "\<exists>u \<in> set (ad_users db). has_email (cu_email a) u \<and> live_user u")
  case True
  then show ?thesis using ok by (simp add: create_user_def)
next
  case False
  have *: "users_ok (ad_users db @ [u])" if "eu_id u = i" "eu_email u = Some (cu_email a)" for u
  proof (rule users_ok_snoc)
    show "users_ok (ad_users db)" using ok by (simp add: auth_ok_def)
    show "\<not> has_email e u" if "v \<in> set (ad_users db)" "live_user v" "has_email e v" for v e
      using False that \<open>eu_email u = Some (cu_email a)\<close> by (auto simp: has_email_def)
  qed (use that i in simp)
  show ?thesis
    unfolding create_user_def Let_def
    using ok False by (auto simp: auth_ok_def sessions_ok_def links_ok_def intro!: *)
qed

lemma email_set_ok:
  assumes ok: "users_ok us" and i: "\<And>u. eu_id (f u) = eu_id u" and d: "\<And>u. eu_deleted (f u) = eu_deleted u"
    and e: "(\<forall>u. eu_email (f u) = eu_email u) \<or>
      ((\<forall>u. eu_email (f u) = Some e) \<and> (\<forall>u \<in> set us. has_email e u \<and> live_user u \<longrightarrow> eu_id u = x))"
  shows "users_ok (upd_where (\<lambda>u. eu_id u = x \<and> live_user u) f us)"
  using e
proof
  assume "\<forall>u. eu_email (f u) = eu_email u"
  then show ?thesis using users_ok_upd[OF i _ _ ok] d by (simp add: live_user_def)
next
  assume a: "(\<forall>u. eu_email (f u) = Some e) \<and> (\<forall>u \<in> set us. has_email e u \<and> live_user u \<longrightarrow> eu_id u = x)"
  let ?g = "\<lambda>u. if eu_id u = x \<and> live_user u then f u else u"
  have clash: "eu_id (?g u) = eu_id (?g v)"
    if "u \<in> set us" "v \<in> set us" "live_user (?g u)" "live_user (?g v)" "has_email k (?g u)" "has_email k (?g v)" for u v k
  proof -
    have lu: "live_user u" "live_user v" using that d by (auto simp: live_user_def split: if_splits)
    have same: "eu_id w = x" if "w \<in> set us" "live_user w" "has_email k w" "js_lower k = js_lower e" for w
      using a that by (auto simp: has_email_def)
    show ?thesis
    proof (cases "eu_id u = x"; cases "eu_id v = x")
      assume "eu_id u = x" "eu_id v = x" then show ?thesis by (simp add: i)
    next
      assume uv: "eu_id u = x" "eu_id v \<noteq> x"
      then have "js_lower k = js_lower e" using that lu a by (simp add: has_email_def)
      then show ?thesis using same[of v] that uv lu by simp
    next
      assume uv: "eu_id u \<noteq> x" "eu_id v = x"
      then have "js_lower k = js_lower e" using that lu a by (simp add: has_email_def)
      then show ?thesis using same[of u] that uv lu by simp
    next
      assume uv: "eu_id u \<noteq> x" "eu_id v \<noteq> x"
      then show ?thesis using that lu ok unfolding users_ok_def by auto
    qed
  qed
  show ?thesis
    using ok clash unfolding users_ok_def
    by (simp only: upd_where_key[of eu_id, OF i] upd_where_set) blast
qed

lemma apply_email_ok: "auth_ok db \<Longrightarrow> auth_ok (snd (apply_email_change i e db))"
  by (auto simp: apply_email_change_def email_taken_def split: option.splits
      intro!: users_change_ok email_set_ok[where e = e] users_upd) (auto simp: auth_ok_def)

lemma admin_sets_frame: "eu_id (admin_sets a now u) = eu_id u" "eu_deleted (admin_sets a now u) = eu_deleted u"
    "eu_email (admin_sets a now u) = (case au_email a of None \<Rightarrow> eu_email u | Some e \<Rightarrow> Some e)"
  by (simp_all add: admin_sets_def set_if_def split: option.splits)

lemma admin_update_ok: "auth_ok db \<Longrightarrow> auth_ok (snd (admin_update_user i a db))"
proof -
  assume ok: "auth_ok db"
  have u: "users_ok (upd_where (\<lambda>u. eu_id u = i \<and> live_user u) (admin_sets a (ad_now db)) (ad_users db))"
    if "\<not> (case au_email a of None \<Rightarrow> False | Some e \<Rightarrow> email_taken i e db)"
    by (rule email_set_ok[where e = "the (au_email a)"])
       (use ok that in \<open>auto simp: auth_ok_def admin_sets_frame email_taken_def split: option.splits\<close>)
  have "auth_ok (db\<lparr>ad_users := upd_where (\<lambda>u. eu_id u = i \<and> live_user u) (admin_sets a (ad_now db)) (ad_users db)\<rparr>)"
    if "\<not> (case au_email a of None \<Rightarrow> False | Some e \<Rightarrow> email_taken i e db)"
    by (rule users_change_ok[OF ok u[OF that] users_upd]) (rule admin_sets_frame)
  then show ?thesis using ok by (simp add: admin_update_user_def split: option.splits)
qed

lemma links_change_ok:
  assumes ok: "auth_ok db" and k: "links_ok (ad_users db) ks"
  shows "auth_ok (db\<lparr>ad_links := ks\<rparr>)"
  using assms by (simp add: auth_ok_def)

lemma links_filter_ok: "links_ok us ks \<Longrightarrow> links_ok us (filter p ks)"
  by (auto simp: links_ok_def distinct_map_filter)

lemma issue_ok:
  assumes ok: "auth_ok db" and user: "user \<in> eu_id ` set (ad_users db)"
  shows "auth_ok (snd (issue_one_time i user t h relates db))"
proof -
  have l: "links_ok (ad_users db) (ad_links db)" using ok by (simp add: auth_ok_def)
  have "auth_ok (snd (issue_one_time i user t h relates db))" if "\<exists>k \<in> set (ad_links db). link_of user t k"
    using l that by (auto simp: issue_one_time_def Let_def links_ok_upd intro!: links_change_ok[OF ok])
  moreover have "auth_ok (snd (issue_one_time i user t h relates db))" if "\<not> (\<exists>k \<in> set (ad_links db). link_of user t k)"
    using l user that by (auto simp: issue_one_time_def Let_def links_ok_def link_of_def intro!: links_change_ok[OF ok], blast)
  ultimately show ?thesis by blast
qed

lemma soft_delete_ok: "auth_ok db \<Longrightarrow> auth_ok (snd (soft_delete_user i db))"
proof -
  assume ok: "auth_ok db"
  let ?f = "tombstone (ad_now db)"
  have "users_ok (upd_where (\<lambda>u. eu_id u = i) ?f us)" if "users_ok us" for us
  proof -
    have d: "\<not> live_user (?f u)" for u by (simp add: tombstone_def live_user_def)
    have "\<And>u. eu_id (?f u) = eu_id u" by (simp add: tombstone_def)
    from upd_where_key[of eu_id, OF this] this show ?thesis
      using that d unfolding users_ok_def by (simp only: upd_where_set) (clarsimp, blast)
  qed
  then have "auth_ok (set_user i ?f db)"
    unfolding set_user_def using ok
    by (intro users_change_ok[OF ok]) (auto simp: auth_ok_def tombstone_def intro!: users_upd)
  then have "auth_ok (revoke_tokens p (revoke_sessions q (set_user i ?f db)))" for p q
    by (intro revoke_tokens_ok revoke_sessions_ok)
  then show ?thesis using ok
    by (auto simp: soft_delete_user_def Let_def split: option.splits
        intro!: links_change_ok links_filter_ok) (auto simp: auth_ok_def)
qed

lemma auth_step_ok: "auth_step db db' \<Longrightarrow> auth_ok db \<Longrightarrow> auth_ok db'"
proof (induction rule: auth_step.induct)
  case (step_clock db t)
  then show ?case by (simp add: auth_ok_def)
next
  case (step_audit db action user)
  then show ?case by (simp add: auth_ok_def write_auth_audit_def)
next
  case (step_consume db types h)
  then show ?case
    by (auto simp: consume_either_def links_ok_upd intro!: links_change_ok) (simp add: auth_ok_def)
next
  case (step_password db i h)
  then show ?case unfolding update_password_hash_def by (rule set_user_ok) (simp_all add: live_user_def)
next
  case (step_signed_in db i)
  then show ?case unfolding mark_signed_in_def by (rule set_user_ok) (simp_all add: live_user_def)
next
  case (step_confirm db i)
  then show ?case unfolding mark_email_confirmed_def by (rule set_user_ok) (simp_all add: live_user_def)
next
  case (step_metadata db i p)
  then show ?case unfolding update_user_metadata_def by (rule set_user_ok) (simp_all add: live_user_def)
next
  case (step_clear db i)
  then show ?case
    unfolding clear_email_change_tokens_def
    by (auto intro!: links_change_ok links_filter_ok) (simp add: auth_ok_def)
qed (simp_all add: create_ok apply_email_ok admin_update_ok issue_ok open_ok rotate_ok grace_ok soft_delete_ok
      revoke_session_family_def revoke_tokens_ok revoke_sessions_ok
      revoke_user_sessions_def Let_def revoke_own_mark_def revoke_own_tokens_def)

lemma auth_reach_ok: "auth_reach db db' \<Longrightarrow> auth_ok db \<Longrightarrow> auth_ok db'"
  unfolding auth_reach_def by (induction rule: rtranclp_induct) (auto intro: auth_step_ok)

lemma empty_auth_ok: "auth_ok (empty_auth up now)"
  by (simp add: auth_ok_def empty_auth_def users_ok_def sessions_ok_def tokens_ok_def links_ok_def lineage_ok_def)

lemma at_most_one:
  assumes "distinct (map k xs)" "\<And>x y. x \<in> set xs \<Longrightarrow> y \<in> set xs \<Longrightarrow> p x \<Longrightarrow> p y \<Longrightarrow> k x = k y"
  shows "length (filter p xs) \<le> 1"
  using assms
proof (induction xs)
  case (Cons x xs)
  have "filter p xs = []" if "p x"
  proof -
    have "\<not> p y" if "y \<in> set xs" for y
      using Cons.prems(2)[of x y] Cons.prems(1) that \<open>p x\<close> by auto
    then show ?thesis by simp
  qed
  then show ?case using Cons by auto
qed simp

text \<open>
  C8. The typing of the database: in every state concurrent requests can produce, a session has at most
  one token that can be exchanged, an address at most one live account whatever its letter case, a user at most one link of each
  type, and every token belongs to a session of its own user, every session to a user.
\<close>

theorem every_request_keeps_the_schema:
  assumes "auth_reach (empty_auth up t0) db"
  shows "(\<forall>sid. length (filter (\<lambda>r. rt_session r = sid \<and> live_token r) (ad_tokens db)) \<le> 1) \<and>
    (\<forall>email. length (filter (\<lambda>u. has_email email u \<and> live_user u) (ad_users db)) \<le> 1) \<and>
    (\<forall>user t. length (filter (link_of user t) (ad_links db)) \<le> 1) \<and>
    (\<forall>r \<in> set (ad_tokens db). \<exists>s \<in> set (ad_sessions db). as_id s = rt_session r \<and> as_user s = rt_user r) \<and>
    (\<forall>s \<in> set (ad_sessions db). \<exists>u \<in> set (ad_users db). eu_id u = as_user s)"
proof -
  have ok: "auth_ok db" using assms empty_auth_ok by (rule auth_reach_ok)
  then have u: "users_ok (ad_users db)" and s: "sessions_ok (ad_users db) (ad_sessions db)"
    and t: "tokens_ok (ad_next db) (ad_sessions db) (ad_tokens db)" and k: "links_ok (ad_users db) (ad_links db)"
    by (simp_all add: auth_ok_def)
  have "length (filter (\<lambda>r. rt_session r = sid \<and> live_token r) (ad_tokens db)) \<le> 1" for sid
  proof (rule at_most_one[OF token_ids[OF ok]])
    show "rt_id x = rt_id y" if "x \<in> set (ad_tokens db)" "y \<in> set (ad_tokens db)" "rt_session x = sid \<and> live_token x"
      "rt_session y = sid \<and> live_token y" for x y
      using token_of_session[OF ok that(1,2)] that(3,4) by simp
  qed
  moreover have "length (filter (\<lambda>u. has_email email u \<and> live_user u) (ad_users db)) \<le> 1" for email
  proof (rule at_most_one[where k = eu_id])
    show "distinct (map eu_id (ad_users db))" using u by (simp add: users_ok_def)
    show "eu_id x = eu_id y" if "x \<in> set (ad_users db)" "y \<in> set (ad_users db)" "has_email email x \<and> live_user x"
      "has_email email y \<and> live_user y" for x y
      using u that unfolding users_ok_def by blast
  qed
  moreover have "length (filter (link_of user ty) (ad_links db)) \<le> 1" for user ty
    by (rule at_most_one[where k = "\<lambda>k. (ot_user k, ot_type k)"]) (use k in \<open>auto simp: links_ok_def link_of_def\<close>)
  moreover have "\<exists>s \<in> set (ad_sessions db). as_id s = rt_session r \<and> as_user s = rt_user r" if "r \<in> set (ad_tokens db)" for r
    using token_session_key[OF ok that] by (auto simp: session_keys_def)
  moreover have "\<exists>u \<in> set (ad_users db). eu_id u = as_user s" if "s \<in> set (ad_sessions db)" for s
    using s that by (fastforce simp: sessions_ok_def)
  ultimately show ?thesis by blast
qed

definition one_account :: auth_db where
  "one_account = snd (create_user ''u1'' \<lparr>cu_email = ''a@b.c'', cu_hash = None, cu_confirmed = True, cu_meta = []\<rparr>
     (empty_auth True 0))"

theorem every_request_keeps_the_schema_witness:
  "length (filter (\<lambda>u. has_email ''A@b.c'' u \<and> live_user u) (ad_users one_account)) \<le> 1"
proof -
  have "auth_step (empty_auth True 0) one_account"
    unfolding one_account_def by (rule step_create) (simp add: empty_auth_def)
  then have "auth_reach (empty_auth True 0) one_account" by (simp add: auth_reach_def)
  from every_request_keeps_the_schema[OF this] show ?thesis by blast
qed

end
