(* ===== verification/Jobs.thy ===== *)
theory Jobs
  imports Prelude
begin

text \<open>
  The provisioning jobs: \<open>packages/queue/src/index.ts\<close> (delivery ids and the enqueue rules),
  \<open>services/worker/src/jobs/repo.ts\<close> (the transitions of a row of \<open>provisioning_jobs\<close>) and
  \<open>jobs/runner.ts\<close> (the saga runner).

  The table is a list of rows and a clock in milliseconds, one repository operation is one update
  of it, as one SQL statement is. A saga step is a parameter, a function on a world of its own:
  what the runner promises does not depend on what a step does. The runner uses the repository
  through its interface, the record \<open>job_repo\<close>, as \<open>RunnerOptions.repo\<close> is; the locale
  \<open>job_repo_laws\<close> states what it relies on and is interpreted on the PostgreSQL operations.
  BullMQ is a parameter: which job ids Redis holds, and how adding one changes that.
\<close>

subsection \<open>Delivery ids\<close>

definition delivery_char :: "char \<Rightarrow> bool" where
  "delivery_char c = (is_alnum c \<or> c \<in> set ''_.=#@-'')"

definition valid_delivery_id :: "string \<Rightarrow> bool" where
  \<comment> \<open>\<open>DELIVERY_ID_PATTERN\<close>\<close>
  "valid_delivery_id k = (8 \<le> length k \<and> length k \<le> 255 \<and> list_all delivery_char k)"

definition recovery_job_id :: "string \<Rightarrow> nat \<Rightarrow> string" where
  "recovery_job_id key attempt = key @ ''#recover-'' @ string_of_nat attempt"

record 'q queue_ops =
  q_has :: "'q \<Rightarrow> string \<Rightarrow> bool"
  q_add :: "string \<Rightarrow> 'q \<Rightarrow> 'q"

datatype queue_error = InvalidDeliveryId string

definition enqueue_provisioning :: "'q queue_ops \<Rightarrow> string \<Rightarrow> ('q, queue_error, bool) eff" where
  "enqueue_provisioning ops key q =
     (if \<not> valid_delivery_id key then (Inl (InvalidDeliveryId key), q)
      else if q_has ops q key then (Inr False, q)
      else (Inr True, q_add ops key q))"

definition enqueue_recovery :: "'q queue_ops \<Rightarrow> string \<Rightarrow> nat \<Rightarrow> ('q, queue_error, bool \<times> string) eff" where
  "enqueue_recovery ops key attempt q =
     (if \<not> valid_delivery_id key then (Inl (InvalidDeliveryId key), q)
      else if \<not> q_has ops q key then (Inr (True, key), q_add ops key q)
      else (let i = recovery_job_id key attempt in
            if q_has ops q i then (Inr (False, i), q) else (Inr (True, i), q_add ops i q)))"

definition AUTH_EMAIL_BACKOFF_MS :: "nat list" where
  "AUTH_EMAIL_BACKOFF_MS = [30000, 300000, 1800000]"

definition auth_email_backoff :: "nat \<Rightarrow> nat" where
  \<comment> \<open>an index of -1 is out of range, and the first delay is used\<close>
  "auth_email_backoff attempts_made =
     (case min attempts_made (length AUTH_EMAIL_BACKOFF_MS) of
        0 \<Rightarrow> hd AUTH_EMAIL_BACKOFF_MS
      | Suc i \<Rightarrow> AUTH_EMAIL_BACKOFF_MS ! i)"

subsection \<open>Rows and their transitions\<close>

datatype job_state = Pending | Enqueued | Running | Succeeded | Failed | DeadLetter

record job_row =
  jb_id :: string
  jb_project :: "string option"
  jb_type :: string
  jb_key :: string
  jb_state :: job_state
  jb_attempts :: nat
  jb_max :: nat
  jb_checkpoint :: "string list option"
  jb_error :: "string option"
  jb_heartbeat :: "nat option"
  jb_scheduled :: nat
  jb_started :: "nat option"
  jb_finished :: "nat option"
  jb_created :: nat

record job_db =
  jd_rows :: "job_row list"
  jd_now :: nat

definition job_by_id :: "string \<Rightarrow> job_db \<Rightarrow> job_row option" where
  "job_by_id i db = List.find (\<lambda>r. jb_id r = i) (jd_rows db)"

definition update_job :: "string \<Rightarrow> (job_row \<Rightarrow> job_row) \<Rightarrow> job_db \<Rightarrow> job_db" where
  \<comment> \<open>\<open>UPDATE ... WHERE id = $1\<close>\<close>
  "update_job i f db = db\<lparr>jd_rows := map (\<lambda>r. if jb_id r = i then f r else r) (jd_rows db)\<rparr>"

definition by_idempotency_key :: "string \<Rightarrow> job_db \<Rightarrow> job_row option" where
  "by_idempotency_key k db = List.find (\<lambda>r. jb_key r = k) (jd_rows db)"

definition mark_enqueued :: "string \<Rightarrow> job_db \<Rightarrow> job_db" where
  "mark_enqueued i = update_job i (\<lambda>r. if jb_state r = Pending then r\<lparr>jb_state := Enqueued\<rparr> else r)"

definition heartbeat_stale :: "nat \<Rightarrow> nat \<Rightarrow> job_row \<Rightarrow> bool" where
  \<comment> \<open>\<open>heartbeat_at < now() - staleAfterMs\<close>: a null heartbeat is not stale\<close>
  "heartbeat_stale now stale r = (case jb_heartbeat r of None \<Rightarrow> False | Some h \<Rightarrow> h + stale < now)"

definition claimable :: "nat \<Rightarrow> nat \<Rightarrow> job_row \<Rightarrow> bool" where
  "claimable now stale r =
     (jb_state r = Pending \<or> jb_state r = Enqueued \<or> (jb_state r = Running \<and> heartbeat_stale now stale r))"

definition claimed_row :: "nat \<Rightarrow> job_row \<Rightarrow> job_row" where
  "claimed_row now r = r\<lparr>jb_state := Running, jb_attempts := jb_attempts r + 1,
     jb_started := Some (case jb_started r of None \<Rightarrow> now | Some t \<Rightarrow> t), jb_heartbeat := Some now\<rparr>"

definition claim :: "string \<Rightarrow> nat \<Rightarrow> job_db \<Rightarrow> job_row option \<times> job_db" where
  "claim i stale db =
     (case job_by_id i db of
        None \<Rightarrow> (None, db)
      | Some r \<Rightarrow>
          if claimable (jd_now db) stale r
          then (Some (claimed_row (jd_now db) r), update_job i (\<lambda>_. claimed_row (jd_now db) r) db)
          else (None, db))"

definition heartbeat :: "string \<Rightarrow> job_db \<Rightarrow> job_db" where
  "heartbeat i db = update_job i (\<lambda>r. r\<lparr>jb_heartbeat := Some (jd_now db)\<rparr>) db"

definition save_checkpoint :: "string \<Rightarrow> string list \<Rightarrow> job_db \<Rightarrow> job_db" where
  "save_checkpoint i completed = update_job i (\<lambda>r. r\<lparr>jb_checkpoint := Some completed\<rparr>)"

definition succeed :: "string \<Rightarrow> job_db \<Rightarrow> job_db" where
  "succeed i db = update_job i (\<lambda>r. r\<lparr>jb_state := Succeeded, jb_finished := Some (jd_now db), jb_error := None\<rparr>) db"

definition failed_row :: "nat \<Rightarrow> string \<Rightarrow> job_row \<Rightarrow> job_row" where
  "failed_row now err r =
     (if jb_attempts r \<ge> jb_max r
      then r\<lparr>jb_error := Some (take 2000 err), jb_state := DeadLetter, jb_finished := Some now\<rparr>
      else r\<lparr>jb_error := Some (take 2000 err), jb_state := Pending, jb_finished := None\<rparr>)"

definition fail :: "string \<Rightarrow> string \<Rightarrow> job_db \<Rightarrow> bool \<times> job_db" where
  \<comment> \<open>the result is \<open>terminal\<close>\<close>
  "fail i err db =
     (let db' = update_job i (failed_row (jd_now db) err) db in
      (case job_by_id i db' of None \<Rightarrow> False | Some r \<Rightarrow> jb_state r = DeadLetter, db'))"

definition orphaned :: "nat \<Rightarrow> nat \<Rightarrow> job_row \<Rightarrow> bool" where
  "orphaned now stale r =
     (jb_state r = Pending \<and> jb_scheduled r \<le> now \<or>
      jb_state r = Enqueued \<and> jb_created r + stale < now \<or>
      jb_state r = Running \<and> heartbeat_stale now stale r)"

definition find_orphans :: "nat \<Rightarrow> nat \<Rightarrow> job_db \<Rightarrow> job_row list" where
  "find_orphans stale limit db =
     take limit (sort_key jb_created (filter (orphaned (jd_now db) stale) (jd_rows db)))"

subsection \<open>The runner\<close>

record 't job_repo =
  jr_by_key :: "string \<Rightarrow> 't \<Rightarrow> job_row option"
  jr_claim :: "string \<Rightarrow> nat \<Rightarrow> 't \<Rightarrow> job_row option \<times> 't"
  jr_save :: "string \<Rightarrow> string list \<Rightarrow> 't \<Rightarrow> 't"
  jr_succeed :: "string \<Rightarrow> 't \<Rightarrow> 't"
  jr_fail :: "string \<Rightarrow> string \<Rightarrow> 't \<Rightarrow> bool \<times> 't"

record 'w saga_step =
  sg_name :: string
  sg_run :: "job_row \<Rightarrow> 'w \<Rightarrow> (string + unit) \<times> 'w"

datatype outcome = JobSucceeded | Skipped | JobDeadLetter

datatype runner_error = UnknownJobType string | StepFailed string

definition STALE_HEARTBEAT_MULTIPLE :: nat where "STALE_HEARTBEAT_MULTIPLE = 3"

definition create_runner :: "nat option \<Rightarrow> nat option \<Rightarrow> (nat \<times> nat) option" where
  \<comment> \<open>the intervals of a runner, heartbeat first, or \<open>None\<close> when it refuses to start\<close>
  "create_runner heartbeat_ms stale_after_ms =
     (let beat = (case heartbeat_ms of None \<Rightarrow> 10000 | Some b \<Rightarrow> b);
          stale = (case stale_after_ms of None \<Rightarrow> beat * STALE_HEARTBEAT_MULTIPLE | Some s \<Rightarrow> s)
      in if stale \<le> beat * 2 then None else Some (beat, stale))"

definition completed_steps :: "job_row \<Rightarrow> string list" where
  "completed_steps r = (case jb_checkpoint r of None \<Rightarrow> [] | Some names \<Rightarrow> uniq names)"

fun run_steps :: "'t job_repo \<Rightarrow> job_row \<Rightarrow> string list \<Rightarrow> 'w saga_step list \<Rightarrow> 't \<times> 'w
    \<Rightarrow> string option \<times> string list \<times> 't \<times> 'w" where
  \<comment> \<open>the error of the step that failed, if one did, and \<open>stepsRun\<close>\<close>
  "run_steps repo job finished [] (t, w) = (None, [], t, w)"
| "run_steps repo job finished (s # ss) (t, w) =
     (if sg_name s \<in> set finished then run_steps repo job finished ss (t, w)
      else case sg_run s job w of
        (Inl e, w') \<Rightarrow> (Some e, [], t, w')
      | (Inr _, w') \<Rightarrow>
          (let t' = jr_save repo (jb_id job) (finished @ [sg_name s]) t in
           case run_steps repo job (finished @ [sg_name s]) ss (t', w') of
             (err, names, st) \<Rightarrow> (err, sg_name s # names, st)))"

definition execute :: "'t job_repo \<Rightarrow> (string \<Rightarrow> 'w saga_step list option) \<Rightarrow> (job_row \<Rightarrow> 'w \<Rightarrow> 'w) \<Rightarrow> nat
    \<Rightarrow> string \<Rightarrow> ('t \<times> 'w, runner_error, outcome \<times> string list) eff" where
  \<comment> \<open>\<open>execute({ idempotency_key })\<close>; the last parameter but two is \<open>onDeadLetter\<close>, whose own errors are swallowed\<close>
  "execute repo sagas on_dead_letter stale key = (\<lambda>(t, w).
     case jr_by_key repo key t of
       None \<Rightarrow> (Inr (Skipped, []), t, w)
     | Some row \<Rightarrow>
         if jb_state row = Succeeded then (Inr (Skipped, []), t, w)
         else case jr_claim repo (jb_id row) stale t of
           (None, t1) \<Rightarrow> (Inr (Skipped, []), t1, w)
         | (Some claimed, t1) \<Rightarrow>
             (case sagas (jb_type claimed) of
                None \<Rightarrow>
                  (Inl (UnknownJobType (jb_type claimed)),
                   snd (jr_fail repo (jb_id claimed)
                     (''no saga registered for job_type '' @ [CHR 0x22] @ jb_type claimed @ [CHR 0x22]) t1), w)
              | Some steps \<Rightarrow>
                  (case run_steps repo claimed (completed_steps claimed) steps (t1, w) of
                     (None, names, t2, w2) \<Rightarrow>
                       (Inr (JobSucceeded, names), jr_succeed repo (jb_id claimed) t2, w2)
                   | (Some err, names, t2, w2) \<Rightarrow>
                       (case jr_fail repo (jb_id claimed) err t2 of
                          (terminal, t3) \<Rightarrow>
                            if terminal then (Inr (JobDeadLetter, names), t3, on_dead_letter claimed w2)
                            else (Inl (StepFailed err), t3, w2)))))"

subsection \<open>What the runner relies on\<close>

definition pending_steps :: "string list \<Rightarrow> 'w saga_step list \<Rightarrow> string list" where
  "pending_steps finished ss = filter (\<lambda>n. n \<notin> set finished) (uniq (map sg_name ss))"

lemma pending_steps_simps [simp]:
  "pending_steps finished [] = []"
  "pending_steps finished (s # ss) =
     (if sg_name s \<in> set finished then pending_steps finished ss
      else sg_name s # pending_steps (finished @ [sg_name s]) ss)"
  by (auto simp: pending_steps_def intro!: filter_cong)

lemma pending_steps_fresh: "set (pending_steps finished ss) \<inter> set finished = {}" "distinct (pending_steps finished ss)"
  by (auto simp: pending_steps_def)

definition with_checkpoint :: "string list \<Rightarrow> string list \<Rightarrow> job_row \<Rightarrow> job_row" where
  "with_checkpoint finished names r =
     (if names = [] then r else r\<lparr>jb_checkpoint := Some (finished @ names)\<rparr>)"

locale job_repo_laws =
  fixes repo :: "'t job_repo" and row :: "'t \<Rightarrow> string \<Rightarrow> job_row option" and valid :: "'t \<Rightarrow> bool"
  assumes by_key_row: "valid t \<Longrightarrow> jr_by_key repo k t = Some r \<Longrightarrow> row t (jb_id r) = Some r"
    and claim_none: "jr_claim repo i stale t = (None, t') \<Longrightarrow> t' = t"
    and claim_some: "valid t \<Longrightarrow> jr_claim repo i stale t = (Some r, t') \<Longrightarrow> valid t' \<and>
      row t' i = Some r \<and> jb_id r = i \<and> (\<exists>r0. row t i = Some r0 \<and> jb_attempts r = jb_attempts r0 + 1 \<and>
        jb_max r = jb_max r0 \<and> jb_checkpoint r = jb_checkpoint r0 \<and> jb_type r = jb_type r0)"
    and save_row: "valid t \<Longrightarrow> row t i = Some r \<Longrightarrow>
      valid (jr_save repo i cs t) \<and> row (jr_save repo i cs t) i = Some (r\<lparr>jb_checkpoint := Some cs\<rparr>)"
    and succeed_row: "valid t \<Longrightarrow> row t i = Some r \<Longrightarrow> \<exists>r'. row (jr_succeed repo i t) i = Some r' \<and>
      jb_state r' = Succeeded \<and> jb_checkpoint r' = jb_checkpoint r \<and> jb_attempts r' = jb_attempts r"
    and fail_row: "valid t \<Longrightarrow> row t i = Some r \<Longrightarrow> jr_fail repo i e t = (terminal, t') \<Longrightarrow> \<exists>r'. row t' i = Some r' \<and>
      jb_state r' = (if jb_attempts r \<ge> jb_max r then DeadLetter else Pending) \<and>
      terminal = (jb_attempts r \<ge> jb_max r) \<and> jb_checkpoint r' = jb_checkpoint r \<and> jb_attempts r' = jb_attempts r"
begin

lemma run_steps_spec:
  assumes "valid t" "row t (jb_id job) = Some r" "run_steps repo job finished ss (t, w) = (err, names, t', w')"
  shows "valid t' \<and> row t' (jb_id job) = Some (with_checkpoint finished names r) \<and>
    (\<exists>k \<le> length (pending_steps finished ss). names = take k (pending_steps finished ss) \<and>
      (if err = None then k = length (pending_steps finished ss) else k < length (pending_steps finished ss)))"
  using assms
proof (induction ss arbitrary: finished t w r names)
  case Nil
  then show ?case by (auto simp: with_checkpoint_def)
next
  case (Cons s ss)
  let ?id = "jb_id job"
  show ?case
  proof (cases "sg_name s \<in> set finished")
    case True
    then have "run_steps repo job finished ss (t, w) = (err, names, t', w')" using Cons.prems(3) by simp
    note ih = Cons.IH[OF Cons.prems(1,2) this]
    have p: "pending_steps finished (s # ss) = pending_steps finished ss" using True by simp
    show ?thesis unfolding p using ih by blast
  next
    case False
    obtain res w1 where s: "sg_run s job w = (res, w1)" by force
    let ?fin = "finished @ [sg_name s]"
    have p: "pending_steps finished (s # ss) = sg_name s # pending_steps ?fin ss" using False by simp
    show ?thesis
    proof (cases res)
      case (Inl e)
      then have "err = Some e" "names = []" "t' = t" using False s Cons.prems(3) by auto
      then show ?thesis unfolding p using Cons.prems(1,2)
        by (intro conjI exI[of _ 0]) (auto simp: with_checkpoint_def)
    next
      case (Inr u)
      obtain names1 where n: "names = sg_name s # names1"
        "run_steps repo job ?fin ss (jr_save repo ?id ?fin t, w1) = (err, names1, t', w')"
        using False s Inr Cons.prems(3) by (auto simp: Let_def split: prod.splits)
      have r1: "valid (jr_save repo ?id ?fin t)"
        "row (jr_save repo ?id ?fin t) ?id = Some (r\<lparr>jb_checkpoint := Some ?fin\<rparr>)"
        using save_row[OF Cons.prems(1,2)] by auto
      note ih = Cons.IH[OF r1 n(2)]
      then obtain k where k: "k \<le> length (pending_steps ?fin ss)" "names1 = take k (pending_steps ?fin ss)"
        "if err = None then k = length (pending_steps ?fin ss) else k < length (pending_steps ?fin ss)" by blast
      have "with_checkpoint ?fin names1 (r\<lparr>jb_checkpoint := Some ?fin\<rparr>) = with_checkpoint finished names r"
        by (simp add: n(1) with_checkpoint_def)
      then show ?thesis using ih k unfolding p n(1)
        by (intro conjI exI[of _ "Suc k"]) (auto split: if_splits)
    qed
  qed
qed

lemma completed_with_checkpoint:
  assumes "k \<le> length (pending_steps (completed_steps r) ss)"
  shows "completed_steps (with_checkpoint (completed_steps r) (take k (pending_steps (completed_steps r) ss)) r)
    = completed_steps r @ take k (pending_steps (completed_steps r) ss)"
proof -
  have "distinct (completed_steps r)" by (simp add: completed_steps_def split: option.splits)
  then have "distinct (completed_steps r @ take k (pending_steps (completed_steps r) ss))"
    using pending_steps_fresh[of "completed_steps r" ss] by (auto dest: in_set_takeD)
  then show ?thesis
    by (auto simp: with_checkpoint_def completed_steps_def uniq_distinct split: option.splits if_splits)
qed

lemma execute_accounts:
  assumes "valid t" "jr_by_key repo key t = Some r0" "jb_state r0 \<noteq> Succeeded"
    and "jr_claim repo (jb_id r0) stale t = (Some r, t1)" "sagas (jb_type r0) = Some steps"
    and "execute repo sagas hook stale key (t, w) = (res, t', w')"
  shows "\<exists>r' k. row t' (jb_id r0) = Some r' \<and> jb_attempts r' = jb_attempts r0 + 1 \<and>
    k \<le> length (pending_steps (completed_steps r0) steps) \<and>
    completed_steps r' = completed_steps r0 @ take k (pending_steps (completed_steps r0) steps) \<and>
    (if k = length (pending_steps (completed_steps r0) steps)
     then res = Inr (JobSucceeded, pending_steps (completed_steps r0) steps) \<and> jb_state r' = Succeeded
     else if jb_attempts r0 + 1 \<ge> jb_max r0
     then res = Inr (JobDeadLetter, take k (pending_steps (completed_steps r0) steps)) \<and> jb_state r' = DeadLetter
     else (\<exists>e. res = Inl (StepFailed e)) \<and> jb_state r' = Pending)"
proof -
  let ?todo = "pending_steps (completed_steps r0) steps"
  have r0: "row t (jb_id r0) = Some r0" using by_key_row[OF assms(1,2)] by simp
  have r: "valid t1" "row t1 (jb_id r0) = Some r" "jb_id r = jb_id r0" "jb_attempts r = jb_attempts r0 + 1" "jb_max r = jb_max r0"
    "completed_steps r = completed_steps r0" "jb_type r = jb_type r0"
    using claim_some[OF assms(1,4)] r0 by (auto simp: completed_steps_def)
  obtain err names t2 w2 where run: "run_steps repo r (completed_steps r0) steps (t1, w) = (err, names, t2, w2)"
    by (metis prod_cases4)
  note spec = run_steps_spec[OF r(1) r(2)[folded r(3)] run]
  then have row2: "valid t2" "row t2 (jb_id r0) = Some (with_checkpoint (completed_steps r0) names r)"
    using r(3) by auto
  obtain k where k: "k \<le> length ?todo" "names = take k ?todo" "if err = None then k = length ?todo else k < length ?todo"
    using spec by blast
  have c: "completed_steps (with_checkpoint (completed_steps r0) names r) = completed_steps r0 @ names"
    using completed_with_checkpoint[of k r steps] k r(6) by simp
  have keep: "jb_attempts (with_checkpoint (completed_steps r0) names r) = jb_attempts r0 + 1"
    "jb_max (with_checkpoint (completed_steps r0) names r) = jb_max r0"
    using r by (simp_all add: with_checkpoint_def)
  have same: "completed_steps a = completed_steps b" if "jb_checkpoint a = jb_checkpoint b" for a b
    using that by (simp add: completed_steps_def)
  show ?thesis
  proof (cases err)
    case None
    then have "res = Inr (JobSucceeded, names)" "t' = jr_succeed repo (jb_id r0) t2"
      using assms run r by (simp_all add: execute_def)
    moreover obtain r' where "row (jr_succeed repo (jb_id r0) t2) (jb_id r0) = Some r'" "jb_state r' = Succeeded"
      "completed_steps r' = completed_steps r0 @ names" "jb_attempts r' = jb_attempts r0 + 1"
      using succeed_row[OF row2] same c keep by metis
    ultimately show ?thesis using k None by (intro exI[of _ r'] exI[of _ k]) auto
  next
    case (Some e)
    obtain terminal t3 where f: "jr_fail repo (jb_id r0) e t2 = (terminal, t3)" by force
    have "t' = t3" "res = (if terminal then Inr (JobDeadLetter, names) else Inl (StepFailed e))"
      using assms run r Some f by (auto simp: execute_def split: if_splits)
    moreover obtain r' where "row t3 (jb_id r0) = Some r'" "completed_steps r' = completed_steps r0 @ names"
      "jb_attempts r' = jb_attempts r0 + 1" "terminal = (jb_attempts r0 + 1 \<ge> jb_max r0)"
      "jb_state r' = (if jb_attempts r0 + 1 \<ge> jb_max r0 then DeadLetter else Pending)"
      using fail_row[OF row2 f] same c keep by metis
    ultimately show ?thesis using k Some by (intro exI[of _ r'] exI[of _ k]) auto
  qed
qed

end


definition pg_repo :: "job_db job_repo" where
  "pg_repo = \<lparr>jr_by_key = by_idempotency_key, jr_claim = claim, jr_save = save_checkpoint,
     jr_succeed = succeed, jr_fail = fail\<rparr>"

definition jobs_ok :: "job_db \<Rightarrow> bool" where
  \<comment> \<open>the primary key of the table\<close>
  "jobs_ok db = distinct (map jb_id (jd_rows db))"

lemma job_by_id_update:
  assumes "\<And>r. jb_id (f r) = jb_id r"
  shows "job_by_id j (update_job i f db) = (if j = i then map_option f (job_by_id j db) else job_by_id j db)"
proof -
  have "List.find (\<lambda>r. jb_id r = j) (map (\<lambda>r. if jb_id r = i then f r else r) rs) =
    (if j = i then map_option f (List.find (\<lambda>r. jb_id r = j) rs) else List.find (\<lambda>r. jb_id r = j) rs)" for rs
    using assms by (induction rs) auto
  then show ?thesis by (simp add: job_by_id_def update_job_def)
qed

lemma claimed_row_simps [simp]: "jb_id (claimed_row now r) = jb_id r" "jb_state (claimed_row now r) = Running"
  "jb_attempts (claimed_row now r) = jb_attempts r + 1" "jb_max (claimed_row now r) = jb_max r"
  "jb_checkpoint (claimed_row now r) = jb_checkpoint r" "jb_type (claimed_row now r) = jb_type r"
  "jb_heartbeat (claimed_row now r) = Some now" "jb_key (claimed_row now r) = jb_key r"
  by (simp_all add: claimed_row_def)

lemma failed_row_simps [simp]: "jb_id (failed_row now e r) = jb_id r"
  "jb_state (failed_row now e r) = (if jb_attempts r \<ge> jb_max r then DeadLetter else Pending)"
  "jb_attempts (failed_row now e r) = jb_attempts r" "jb_max (failed_row now e r) = jb_max r"
  "jb_checkpoint (failed_row now e r) = jb_checkpoint r"
  by (simp_all add: failed_row_def)

lemma job_by_id_id: "job_by_id i db = Some r \<Longrightarrow> jb_id r = i"
  by (auto simp: job_by_id_def find_Some_iff)

lemma update_job_ids:
  assumes "\<And>r. jb_id r = i \<Longrightarrow> jb_id (f r) = jb_id r"
  shows "map jb_id (jd_rows (update_job i f db)) = map jb_id (jd_rows db)"
  using assms by (auto simp: update_job_def)

lemma update_job_now [simp]: "jd_now (update_job i f db) = jd_now db"
  by (simp add: update_job_def)

lemma update_job_const:
  assumes "job_by_id i db = Some r" "jb_id r' = i"
  shows "job_by_id j (update_job i (\<lambda>_. r') db) = (if j = i then Some r' else job_by_id j db)"
proof -
  have "List.find (\<lambda>r. jb_id r = j) (map (\<lambda>r. if jb_id r = i then r' else r) rs) =
    (if j = i then map_option (\<lambda>_. r') (List.find (\<lambda>r. jb_id r = j) rs) else List.find (\<lambda>r. jb_id r = j) rs)" for rs
    using assms(2) by (induction rs) auto
  then show ?thesis using assms(1) by (simp add: job_by_id_def update_job_def)
qed

lemma job_by_id_claim:
  assumes "job_by_id i db = Some r" "claimable (jd_now db) stale r"
  shows "job_by_id j (snd (claim i stale db)) = (if j = i then Some (claimed_row (jd_now db) r) else job_by_id j db)"
  using assms job_by_id_id[OF assms(1)] by (simp add: claim_def update_job_const)

lemma claim_keeps [simp]:
  "jobs_ok (snd (claim i stale db)) = jobs_ok db" "jd_now (snd (claim i stale db)) = jd_now db"
  by (auto simp: claim_def jobs_ok_def update_job_ids job_by_id_id split: option.splits)

lemma by_key_id: "jobs_ok db \<Longrightarrow> by_idempotency_key k db = Some r \<Longrightarrow> job_by_id (jb_id r) db = Some r \<and> jb_key r = k"
  by (auto simp: by_idempotency_key_def job_by_id_def find_Some_iff nth_eq_iff_index_eq distinct_conv_nth jobs_ok_def)

interpretation pg: job_repo_laws pg_repo "\<lambda>t i. job_by_id i t" jobs_ok
proof
  show "jobs_ok t \<Longrightarrow> jr_by_key pg_repo k t = Some r \<Longrightarrow> job_by_id (jb_id r) t = Some r" for t k r
    using by_key_id by (simp add: pg_repo_def)
  show "jr_claim pg_repo i stale t = (None, t') \<Longrightarrow> t' = t" for i stale t t'
    by (auto simp: pg_repo_def claim_def split: option.splits if_splits)
  show "jobs_ok t' \<and> job_by_id i t' = Some r \<and> jb_id r = i \<and> (\<exists>r0. job_by_id i t = Some r0 \<and>
      jb_attempts r = jb_attempts r0 + 1 \<and> jb_max r = jb_max r0 \<and> jb_checkpoint r = jb_checkpoint r0 \<and> jb_type r = jb_type r0)"
    if "jobs_ok t" "jr_claim pg_repo i stale t = (Some r, t')" for t i stale r t'
  proof -
    have c: "claim i stale t = (Some r, t')" using that(2) by (simp add: pg_repo_def)
    then obtain r0 where r0: "job_by_id i t = Some r0" "claimable (jd_now t) stale r0" "r = claimed_row (jd_now t) r0"
      by (auto simp: claim_def split: option.splits if_splits)
    then show ?thesis
      using job_by_id_claim[OF r0(1,2), of i] claim_keeps(1)[of i stale t] that(1) c job_by_id_id[OF r0(1)] by simp
  qed
  show "jobs_ok (jr_save pg_repo i cs t) \<and> job_by_id i (jr_save pg_repo i cs t) = Some (r\<lparr>jb_checkpoint := Some cs\<rparr>)"
    if "jobs_ok t" "job_by_id i t = Some r" for t i r cs
    using that by (simp add: pg_repo_def save_checkpoint_def job_by_id_update jobs_ok_def update_job_ids)
  show "\<exists>r'. job_by_id i (jr_succeed pg_repo i t) = Some r' \<and> jb_state r' = Succeeded \<and>
      jb_checkpoint r' = jb_checkpoint r \<and> jb_attempts r' = jb_attempts r"
    if "job_by_id i t = Some r" for t i r
    using that by (simp add: pg_repo_def succeed_def job_by_id_update)
  show "\<exists>r'. job_by_id i t' = Some r' \<and> jb_state r' = (if jb_attempts r \<ge> jb_max r then DeadLetter else Pending) \<and>
      terminal = (jb_attempts r \<ge> jb_max r) \<and> jb_checkpoint r' = jb_checkpoint r \<and> jb_attempts r' = jb_attempts r"
    if "job_by_id i t = Some r" "jr_fail pg_repo i e t = (terminal, t')" for t i r e terminal t'
    using that by (auto simp: pg_repo_def fail_def job_by_id_update Let_def)
qed

subsection \<open>Several workers\<close>

inductive busy_step :: "nat \<Rightarrow> string \<Rightarrow> job_db \<Rightarrow> job_db \<Rightarrow> bool" for stale i where
  \<comment> \<open>what may happen while the holder of job \<open>i\<close> has not finished it: time, any worker's claims,
    heartbeats and checkpoints, the sweeper's marks, and the ends of other jobs\<close>
  time: "busy_step stale i db (db\<lparr>jd_now := jd_now db + n\<rparr>)"
| beat: "busy_step stale i db (heartbeat j db)"
| saved: "busy_step stale i db (save_checkpoint j cs db)"
| marked: "busy_step stale i db (mark_enqueued j db)"
| claimed: "busy_step stale i db (snd (claim j stale db))"
| succeeded: "j \<noteq> i \<Longrightarrow> busy_step stale i db (succeed j db)"
| failed: "j \<noteq> i \<Longrightarrow> busy_step stale i db (snd (fail j e db))"

inductive_cases busy_stepE: "busy_step stale i db db'"

definition held :: "nat \<Rightarrow> string \<Rightarrow> job_db \<Rightarrow> bool" where
  \<comment> \<open>job \<open>i\<close> runs and its last heartbeat is not older than \<open>since\<close>\<close>
  "held since i db = (\<exists>r h. job_by_id i db = Some r \<and> jb_state r = Running \<and> jb_heartbeat r = Some h \<and> since \<le> h)"

lemma held_not_claimable: "held since i db \<Longrightarrow> jd_now db \<le> since + stale \<Longrightarrow> claim i stale db = (None, db)"
  by (auto simp: held_def claim_def claimable_def heartbeat_stale_def)

lemma held_update:
  assumes "held since i db" "\<And>r. jb_id (f r) = jb_id r"
    "j = i \<Longrightarrow> (\<And>r h. jb_state r = Running \<Longrightarrow> jb_heartbeat r = Some h \<Longrightarrow> since \<le> h \<Longrightarrow>
       jb_state (f r) = Running \<and> (\<exists>h'. jb_heartbeat (f r) = Some h' \<and> since \<le> h'))"
  shows "held since i (update_job j f db)"
  using assms by (auto simp: held_def job_by_id_update)

lemma held_claim:
  assumes "held since i db" "jd_now db \<le> since + stale"
  shows "held since i (snd (claim j stale db))"
proof (cases "j = i")
  case True
  then show ?thesis using assms held_not_claimable by simp
next
  case False
  then show ?thesis
    using assms(1) unfolding held_def
    by (auto simp: claim_def update_job_const job_by_id_id split: option.splits)
qed

lemma busy_keeps_held:
  assumes "busy_step stale i db db'" "since \<le> jd_now db" "jd_now db' \<le> since + stale" "held since i db"
  shows "held since i db'"
  using assms
proof (cases rule: busy_step.cases)
  case (beat j)
  then show ?thesis using assms unfolding beat heartbeat_def by (intro held_update) auto
next
  case (saved j cs)
  then show ?thesis using assms unfolding saved save_checkpoint_def by (intro held_update) auto
next
  case (marked j)
  then show ?thesis using assms unfolding marked mark_enqueued_def by (intro held_update) auto
next
  case (claimed j)
  then show ?thesis using assms held_claim by simp
next
  case (succeeded j)
  then show ?thesis using assms unfolding succeeded succeed_def by (intro held_update) auto
next
  case (failed j e)
  then show ?thesis using assms unfolding failed fail_def Let_def snd_conv by (intro held_update) auto
qed (simp add: held_def job_by_id_def)

lemma busy_time: "busy_step stale i db db' \<Longrightarrow> jd_now db \<le> jd_now db'"
  by (induction rule: busy_step.induct)
     (simp_all add: heartbeat_def save_checkpoint_def mark_enqueued_def succeed_def fail_def Let_def)

lemma busy_run:
  assumes "(busy_step stale i)\<^sup>*\<^sup>* db db'" "held (jd_now db) i db"
  shows "jd_now db \<le> jd_now db' \<and> (jd_now db' \<le> jd_now db + stale \<longrightarrow> held (jd_now db) i db')"
  using assms(1)
proof (induction rule: rtranclp_induct)
  case base
  then show ?case using assms(2) by simp
next
  case (step mid db')
  then show ?case using busy_time[OF step(2)] busy_keeps_held[OF step(2)] by auto
qed


text \<open>
  One execution of a job. Without a claim it is skipped and nothing changes. With one, an
  attempt is counted, the steps of the saga that the checkpoint does not hold run in order, each
  once, up to the first failure, and are added to the checkpoint; the job succeeds when all ran, and
  otherwise goes back to pending, or to the dead letters exactly when the attempts are spent. A
  retry therefore never repeats a completed step.
\<close>

theorem execute_accounts_for_every_step:
  assumes "jobs_ok db" "by_idempotency_key key db = Some r" "sagas (jb_type r) = Some steps"
    and "execute pg_repo sagas hook stale key (db, w) = (res, db', w')"
  shows "if \<not> claimable (jd_now db) stale r then res = Inr (Skipped, []) \<and> db' = db \<and> w' = w
    else let todo = filter (\<lambda>n. n \<notin> set (completed_steps r)) (uniq (map sg_name steps)) in
      \<exists>r' k. job_by_id (jb_id r) db' = Some r' \<and> jb_attempts r' = jb_attempts r + 1 \<and> k \<le> length todo \<and>
        completed_steps r' = completed_steps r @ take k todo \<and>
        (if k = length todo then res = Inr (JobSucceeded, todo) \<and> jb_state r' = Succeeded
         else if jb_attempts r + 1 \<ge> jb_max r then res = Inr (JobDeadLetter, take k todo) \<and> jb_state r' = DeadLetter
         else (\<exists>e. res = Inl (StepFailed e)) \<and> jb_state r' = Pending)"
proof (cases "claimable (jd_now db) stale r")
  case False
  have "job_by_id (jb_id r) db = Some r" using by_key_id[OF assms(1,2)] by simp
  then have "claim (jb_id r) stale db = (None, db)" using False by (simp add: claim_def)
  then show ?thesis using False assms(2,4) by (auto simp: execute_def pg_repo_def split: if_splits)
next
  case True
  have j: "job_by_id (jb_id r) db = Some r" using by_key_id[OF assms(1,2)] by simp
  then obtain db1 where c: "jr_claim pg_repo (jb_id r) stale db = (Some (claimed_row (jd_now db) r), db1)"
    using True by (simp add: claim_def pg_repo_def)
  have "jr_by_key pg_repo key db = Some r" "jb_state r \<noteq> Succeeded"
    using assms(2) True by (auto simp: pg_repo_def claimable_def)
  from pg.execute_accounts[OF assms(1) this c assms(3,4)] show ?thesis
    by (simp only: True not_True_eq_False if_False Let_def pending_steps_def)
qed

text \<open>
  The transitions of the repository are not fenced by the attempt: a worker that lost its
  claim and fails late puts a job another worker has finished back to pending, where it is claimed
  and run again.
\<close>

theorem late_failure_reopens_a_finished_job:
  assumes "job_by_id i db = Some r" "claimable (jd_now db) stale r" "jb_attempts r + 2 < jb_max r"
  shows "let first = snd (claim i stale db); later = first\<lparr>jd_now := jd_now first + stale + 1\<rparr>;
             second = snd (claim i stale later); finished = succeed i second; reopened = snd (fail i e finished)
         in (\<exists>r'. job_by_id i finished = Some r' \<and> jb_state r' = Succeeded) \<and>
            (\<exists>r'. job_by_id i reopened = Some r' \<and> jb_state r' = Pending) \<and>
            fst (claim i stale reopened) \<noteq> None"
proof -
  let ?first = "snd (claim i stale db)" let ?later = "?first\<lparr>jd_now := jd_now ?first + stale + 1\<rparr>"
  let ?second = "snd (claim i stale ?later)" let ?finished = "succeed i ?second"
  have l: "job_by_id i ?later = Some (claimed_row (jd_now db) r)"
    using job_by_id_claim[OF assms(1,2), of i] by (simp add: job_by_id_def)
  have "claimable (jd_now ?later) stale (claimed_row (jd_now db) r)"
    by (simp add: claimable_def heartbeat_stale_def)
  then have s: "job_by_id i ?second = Some (claimed_row (jd_now ?later) (claimed_row (jd_now db) r))"
    using job_by_id_claim[OF l] by simp
  then obtain f where f: "job_by_id i ?finished = Some f" "jb_state f = Succeeded" "jb_attempts f = jb_attempts r + 2" "jb_max f = jb_max r"
    by (simp add: succeed_def job_by_id_update)
  then have "job_by_id i (snd (fail i e ?finished)) = Some (failed_row (jd_now ?finished) e f)"
    by (simp add: fail_def Let_def job_by_id_update)
  then show ?thesis using f assms(3) by (auto simp: Let_def claim_def claimable_def)
qed

primrec crash_loop :: "string \<Rightarrow> nat \<Rightarrow> nat \<Rightarrow> job_db \<Rightarrow> job_db" where
  \<comment> \<open>a worker that claims the job and dies, \<open>n\<close> times\<close>
  "crash_loop i stale 0 db = db"
| "crash_loop i stale (Suc n) db =
     (let d = snd (claim i stale (crash_loop i stale n db)) in d\<lparr>jd_now := jd_now d + stale + 1\<rparr>)"

text \<open>
  Attempts are compared with their maximum only when a step fails: a job whose worker dies
  every time is claimed again without bound and never reaches the dead letters.
\<close>

theorem crashes_never_dead_letter:
  assumes "job_by_id i db = Some r" "claimable (jd_now db) stale r"
  shows "\<exists>r'. job_by_id i (crash_loop i stale n db) = Some r' \<and> jb_attempts r' = jb_attempts r + n \<and>
    jb_max r' = jb_max r \<and> claimable (jd_now (crash_loop i stale n db)) stale r'"
proof (induction n)
  case (Suc n)
  then obtain r' where r': "job_by_id i (crash_loop i stale n db) = Some r'" "jb_attempts r' = jb_attempts r + n"
    "jb_max r' = jb_max r" "claimable (jd_now (crash_loop i stale n db)) stale r'" by blast
  show ?case
    using job_by_id_claim[OF r'(1,4), of i] r'(2,3)
    by (simp add: Let_def job_by_id_def claimable_def heartbeat_stale_def)
qed (use assms in simp)


definition sample_job :: job_row where
  "sample_job = \<lparr>jb_id = ''j1'', jb_project = None, jb_type = ''pause'', jb_key = ''pause_p1'', jb_state = Pending,
     jb_attempts = 0, jb_max = 5, jb_checkpoint = Some [''stop''], jb_error = None, jb_heartbeat = None,
     jb_scheduled = 0, jb_started = None, jb_finished = None, jb_created = 0\<rparr>"

definition sample_jobs :: job_db where
  "sample_jobs = \<lparr>jd_rows = [sample_job], jd_now = 1000\<rparr>"

lemma sample_jobs_row: "job_by_id ''j1'' sample_jobs = Some sample_job" "claimable (jd_now sample_jobs) stale sample_job"
  "jobs_ok sample_jobs" "by_idempotency_key ''pause_p1'' sample_jobs = Some sample_job"
  by (simp_all add: job_by_id_def sample_jobs_def sample_job_def claimable_def jobs_ok_def by_idempotency_key_def)


theorem execute_accounts_for_every_step_witness:
  "\<exists>r'. job_by_id ''j1'' (fst (snd (execute pg_repo
       (\<lambda>_. Some [\<lparr>sg_name = ''stop'', sg_run = \<lambda>_ w. (Inr (), w)\<rparr>, \<lparr>sg_name = ''mark'', sg_run = \<lambda>_ w. (Inl ''no'', w)\<rparr>])
       (\<lambda>_ w. w) 30000 ''pause_p1'' (sample_jobs, ())))) = Some r' \<and> jb_attempts r' = 1"
proof -
  let ?sagas = "(\<lambda>_. Some [\<lparr>sg_name = ''stop'', sg_run = \<lambda>_ w. (Inr (), w)\<rparr>, \<lparr>sg_name = ''mark'', sg_run = \<lambda>_ w. (Inl ''no'', w)\<rparr>])
    :: string \<Rightarrow> unit saga_step list option"
  obtain res db' w' where e: "execute pg_repo ?sagas (\<lambda>_ w. w) 30000 ''pause_p1'' (sample_jobs, ()) = (res, db', w')"
    by (metis prod_cases3)
  then show ?thesis
    using execute_accounts_for_every_step[OF sample_jobs_row(3,4) refl e] sample_jobs_row(2)
    by (auto simp: Let_def sample_job_def)
qed

theorem late_failure_reopens_a_finished_job_witness:
  "let first = snd (claim ''j1'' 30000 sample_jobs); later = first\<lparr>jd_now := jd_now first + 30000 + 1\<rparr>;
       finished = succeed ''j1'' (snd (claim ''j1'' 30000 later))
   in fst (claim ''j1'' 30000 (snd (fail ''j1'' ''timeout'' finished))) \<noteq> None"
  using late_failure_reopens_a_finished_job[OF sample_jobs_row(1,2), of 30000 "''timeout''"]
  by (simp add: Let_def sample_job_def)

theorem crashes_never_dead_letter_witness:
  "\<exists>r'. job_by_id ''j1'' (crash_loop ''j1'' 30000 100 sample_jobs) = Some r' \<and> jb_attempts r' = 100 \<and> jb_max r' = 5"
  using crashes_never_dead_letter[OF sample_jobs_row(1,2), of 30000 100] by (auto simp: sample_job_def)

end
