(* ===== verification/MailGate.thy ===== *)
theory MailGate
  imports Jobs "HOL-Library.AList"
begin

text \<open>
  What stands between an owed mail and the queue: the caps of \<open>packages/email/src/caps.ts\<close>, the gate
  of \<open>packages/email/src/gate.ts\<close>, \<open>createMailer\<close> of
  \<open>services/api/src/modules/project-auth/mailer.ts\<close> and \<open>enqueueAuthEmail\<close> of
  \<open>packages/queue/src/index.ts\<close>.

  Redis is a map of counters with an expiry and a map of sets; a HyperLogLog is the set it estimates.
  A counter's key text is a constructor with its parts; hours and days are whole hours and days of
  the clock, which is in milliseconds. SHA-256 is the parameter \<open>sha\<close>, BullMQ the parameter \<open>ops\<close>.
\<close>

subsection \<open>Caps\<close>

record email_caps =
  ec_hour :: nat
  ec_day :: nat
  ec_distinct :: nat
  ec_rcpt_hour :: nat
  ec_rcpt_day :: nat

definition CAPS :: "string \<Rightarrow> email_caps option" where
  "CAPS plan =
     (if plan = ''free'' then Some \<lparr>ec_hour = 30, ec_day = 200, ec_distinct = 100, ec_rcpt_hour = 4, ec_rcpt_day = 10\<rparr>
      else if plan = ''pro'' then Some \<lparr>ec_hour = 200, ec_day = 2000, ec_distinct = 1000, ec_rcpt_hour = 8, ec_rcpt_day = 40\<rparr>
      else if plan = ''team'' then Some \<lparr>ec_hour = 500, ec_day = 10000, ec_distinct = 5000, ec_rcpt_hour = 8, ec_rcpt_day = 40\<rparr>
      else None)"

definition caps_for :: "string \<Rightarrow> nat option \<Rightarrow> email_caps" where
  "caps_for plan age =
     (let base = (case CAPS plan of Some c \<Rightarrow> c | None \<Rightarrow> the (CAPS ''free''));
          young = (plan = ''free'' \<and> (case age of None \<Rightarrow> False | Some a \<Rightarrow> a < 24 * 3600 * 1000))
      in if \<not> young then base
         else base\<lparr>ec_hour := (ec_hour base + 1) div 2, ec_day := (ec_day base + 1) div 2,
                   ec_distinct := (ec_distinct base + 1) div 2\<rparr>)"

subsection \<open>The counters\<close>

datatype mail_key =
    RcptHour string string nat
  | RcptDay string string nat
  | ProjectHour string nat
  | ProjectDay string nat

record mail_redis =
  mr_counts :: "mail_key \<Rightarrow> (int \<times> nat option) option"
  mr_sets :: "string \<times> nat \<Rightarrow> (string list \<times> nat option) option"
  mr_now :: nat

definition alive :: "nat \<Rightarrow> nat option \<Rightarrow> bool" where
  "alive now e = (case e of None \<Rightarrow> True | Some t \<Rightarrow> now < t)"

definition count_of :: "mail_key \<Rightarrow> mail_redis \<Rightarrow> (int \<times> nat option) option" where
  "count_of k st =
     (case mr_counts st k of None \<Rightarrow> None | Some (n, e) \<Rightarrow> if alive (mr_now st) e then Some (n, e) else None)"

definition redis_add :: "int \<Rightarrow> mail_key \<Rightarrow> mail_redis \<Rightarrow> int \<times> mail_redis" where
  \<comment> \<open>\<open>INCR\<close> and \<open>DECR\<close>: a missing key counts from 0, an expiry is kept\<close>
  "redis_add d k st =
     (let (n, e) = (case count_of k st of None \<Rightarrow> (0, None) | Some v \<Rightarrow> v) in
      (n + d, st\<lparr>mr_counts := (mr_counts st)(k := Some (n + d, e))\<rparr>))"

definition redis_expire :: "mail_key \<Rightarrow> nat \<Rightarrow> mail_redis \<Rightarrow> mail_redis" where
  "redis_expire k secs st =
     (case count_of k st of
        None \<Rightarrow> st
      | Some (n, _) \<Rightarrow> st\<lparr>mr_counts := (mr_counts st)(k := Some (n, Some (mr_now st + secs * 1000)))\<rparr>)"

definition set_of :: "string \<times> nat \<Rightarrow> mail_redis \<Rightarrow> string list \<times> nat option" where
  "set_of k st =
     (case mr_sets st k of None \<Rightarrow> ([], None)
      | Some (xs, e) \<Rightarrow> if alive (mr_now st) e then (xs, e) else ([], None))"

definition pf_add :: "string \<times> nat \<Rightarrow> string \<Rightarrow> mail_redis \<Rightarrow> bool \<times> mail_redis" where
  \<comment> \<open>whether the set grew\<close>
  "pf_add k x st =
     (let (xs, e) = set_of k st in
      (x \<notin> set xs, st\<lparr>mr_sets := (mr_sets st)(k := Some (if x \<in> set xs then xs else x # xs, e))\<rparr>))"

definition pf_expire :: "string \<times> nat \<Rightarrow> nat \<Rightarrow> mail_redis \<Rightarrow> mail_redis" where
  "pf_expire k secs st =
     st\<lparr>mr_sets := (mr_sets st)(k := Some (fst (set_of k st), Some (mr_now st + secs * 1000)))\<rparr>"

definition pf_count :: "string \<times> nat \<Rightarrow> mail_redis \<Rightarrow> nat" where
  "pf_count k st = length (fst (set_of k st))"

subsection \<open>The gate\<close>

datatype cap_name = PerRecipientPerHour | PerRecipientPerDay | PerHour | PerDay | DistinctRecipientsPerDay

datatype suppression = Suppressed_global | Suppressed_project

datatype gate_verdict = Allowed | Suppressed suppression | RateLimited cap_name

definition rcpt :: "(string \<Rightarrow> string) \<Rightarrow> string \<Rightarrow> string" where
  "rcpt sha email = take 22 (sha (js_lower (js_trim email)))"

definition hour_of :: "nat \<Rightarrow> nat" where "hour_of now = now div 3600000"
definition day_of :: "nat \<Rightarrow> nat" where "day_of now = now div 86400000"

definition DAY_TTL :: nat where "DAY_TTL = 2 * 86400"

definition bump :: "mail_key \<Rightarrow> nat \<Rightarrow> mail_redis \<Rightarrow> int \<times> mail_redis" where
  "bump k ttl st = (let (n, st1) = redis_add 1 k st in (n, if n = 1 then redis_expire k ttl st1 else st1))"

fun bump_all :: "(mail_key \<times> nat \<times> nat \<times> cap_name) list \<Rightarrow> mail_key list \<Rightarrow> mail_redis
    \<Rightarrow> cap_name option \<times> mail_key list \<times> mail_redis" where
  "bump_all [] spent st = (None, spent, st)"
| "bump_all ((k, ttl, limit, cap) # rest) spent st =
     (case bump k ttl st of
        (n, st1) \<Rightarrow> if n > int limit then (Some cap, spent @ [k], st1)
                   else bump_all rest (spent @ [k]) st1)"

definition roll_back :: "mail_key list \<Rightarrow> mail_redis \<Rightarrow> mail_redis" where
  "roll_back spent st = fold (\<lambda>k s. snd (redis_add (-1) k s)) spent st"

definition checks :: "string \<Rightarrow> string \<Rightarrow> email_caps \<Rightarrow> nat \<Rightarrow> (mail_key \<times> nat \<times> nat \<times> cap_name) list" where
  "checks p r caps now =
     [(RcptHour p r (hour_of now), 3600, ec_rcpt_hour caps, PerRecipientPerHour),
      (RcptDay p r (day_of now), DAY_TTL, ec_rcpt_day caps, PerRecipientPerDay),
      (ProjectHour p (hour_of now), 3600, ec_hour caps, PerHour),
      (ProjectDay p (day_of now), DAY_TTL, ec_day caps, PerDay)]"

definition distinct_check :: "string \<Rightarrow> string \<Rightarrow> email_caps \<Rightarrow> mail_key list \<Rightarrow> mail_redis
    \<Rightarrow> gate_verdict \<times> mail_redis" where
  "distinct_check p r caps spent st =
     (let hll = (p, day_of (mr_now st)); (added, st1) = pf_add hll r st in
      if added then
        (let st2 = pf_expire hll DAY_TTL st1 in
         if pf_count hll st2 > ec_distinct caps
         then (RateLimited DistinctRecipientsPerDay, roll_back spent st2)
         else (Allowed, st2))
      else (Allowed, st1))"

definition check_and_consume :: "(string \<Rightarrow> string) \<Rightarrow> string \<Rightarrow> string \<Rightarrow> email_caps \<Rightarrow> bool \<Rightarrow> bool
    \<Rightarrow> mail_redis \<Rightarrow> gate_verdict \<times> mail_redis" where
  "check_and_consume sha p recipient caps sup_global sup_project st =
     (if sup_global then (Suppressed Suppressed_global, st)
      else if sup_project then (Suppressed Suppressed_project, st)
      else (let r = rcpt sha recipient in
            case bump_all (checks p r caps (mr_now st)) [] st of
              (Some cap, spent, st1) \<Rightarrow> (RateLimited cap, roll_back spent st1)
            | (None, spent, st1) \<Rightarrow> distinct_check p r caps spent st1))"

subsection \<open>The mailer\<close>

datatype auth_email =
    Mail_confirmation | Mail_recovery | Mail_account_exists_notice | Mail_password_changed_notice
  | Mail_email_change_current | Mail_email_change_new

record mail_job =
  mj_delivery :: string
  mj_project :: string
  mj_email :: auth_email
  mj_to :: string
  mj_link :: "string option" \<comment> \<open>the token of \<open>action_url\<close>\<close>

datatype send_status = Send_queued | Send_suppressed suppression | Send_rate_limited (limit_of: cap_name)

record 'q mail_world =
  mw_redis :: mail_redis
  mw_suppressed :: "(string option \<times> string) list" \<comment> \<open>project or everywhere, and an address\<close>
  mw_projects :: "(string \<times> string \<times> nat) list"
  mw_sends :: "((string \<times> string) \<times> send_status \<times> string) list"
  mw_queue :: 'q
  mw_handed :: "mail_job list" \<comment> \<open>what \<open>queue.add\<close> was given, oldest first\<close>

definition record_send :: "string \<Rightarrow> string \<Rightarrow> send_status \<Rightarrow> string \<Rightarrow> 'q mail_world \<Rightarrow> 'q mail_world" where
  "record_send p d status recipient w =
     w\<lparr>mw_sends := AList.update (p, d) (status, recipient) (mw_sends w)\<rparr>"

definition enqueue_auth_email :: "'q queue_ops \<Rightarrow> mail_job \<Rightarrow> 'q mail_world \<Rightarrow> 'q mail_world" where
  "enqueue_auth_email ops j w =
     (if \<not> valid_delivery_id (mj_delivery j) then w
      else if q_has ops (mw_queue w) (mj_delivery j) then w
      else w\<lparr>mw_queue := q_add ops (mj_delivery j) (mw_queue w), mw_handed := mw_handed w @ [j]\<rparr>)"

definition suppressed_in :: "string \<Rightarrow> string \<Rightarrow> 'q mail_world \<Rightarrow> suppression option" where
  "suppressed_in p recipient w =
     (let hits = filter (\<lambda>(s, e). js_lower e = recipient \<and> (s = None \<or> s = Some p)) (mw_suppressed w) in
      if hits = [] then None
      else if list_ex (\<lambda>(s, _). s = None) hits then Some Suppressed_global else Some Suppressed_project)"

definition project_caps :: "string \<Rightarrow> 'q mail_world \<Rightarrow> email_caps" where
  "project_caps p w =
     (case map_of (mw_projects w) p of
        None \<Rightarrow> caps_for ''free'' None
      | Some (plan, created) \<Rightarrow> caps_for plan (Some (mr_now (mw_redis w) - created)))"

definition mailer_enqueue :: "(string \<Rightarrow> string) \<Rightarrow> 'q queue_ops \<Rightarrow> mail_job \<Rightarrow> 'q mail_world \<Rightarrow> 'q mail_world" where
  \<comment> \<open>nothing here throws to the caller\<close>
  "mailer_enqueue sha ops job w =
     (let recipient = js_lower (js_trim (mj_to job)); p = mj_project job; d = mj_delivery job in
      if recipient = [] then w
      else (case suppressed_in p recipient w of
              Some s \<Rightarrow> record_send p d (Send_suppressed s) recipient w
            | None \<Rightarrow>
                (case check_and_consume sha p recipient (project_caps p w) False False (mw_redis w) of
                   (Allowed, r1) \<Rightarrow>
                     enqueue_auth_email ops (job\<lparr>mj_to := recipient\<rparr>)
                       (record_send p d Send_queued recipient (w\<lparr>mw_redis := r1\<rparr>))
                 | (RateLimited cap, r1) \<Rightarrow>
                     record_send p d (Send_rate_limited cap) recipient (w\<lparr>mw_redis := r1\<rparr>)
                 | (Suppressed s, r1) \<Rightarrow>
                     record_send p d (Send_suppressed s) recipient (w\<lparr>mw_redis := r1\<rparr>))))"

subsection \<open>Counting\<close>

definition value_of :: "mail_key \<Rightarrow> mail_redis \<Rightarrow> int" where
  "value_of k st = (case count_of k st of None \<Rightarrow> 0 | Some (n, _) \<Rightarrow> n)"

named_theorems redis_facts \<open>what a Redis command changes\<close>

lemma redis_add_value [redis_facts]:
  "value_of k (snd (redis_add d j st)) = value_of k st + (if k = j then d else 0)"
  "fst (redis_add d j st) = value_of j st + d"
  by (auto simp: value_of_def redis_add_def count_of_def Let_def alive_def split: option.splits prod.splits if_splits)

lemma redis_frame [redis_facts]:
  "mr_now (snd (redis_add d k st)) = mr_now st" "mr_sets (snd (redis_add d k st)) = mr_sets st"
  "mr_now (redis_expire k s st) = mr_now st" "mr_sets (redis_expire k s st) = mr_sets st"
  by (simp_all add: redis_add_def redis_expire_def Let_def split: option.splits prod.splits)

lemma redis_expire_value [redis_facts]: "0 < s \<Longrightarrow> value_of k (redis_expire j s st) = value_of k st"
  by (auto simp: value_of_def redis_expire_def count_of_def alive_def split: option.splits if_splits)

lemma bump_facts [redis_facts]:
  assumes "0 < ttl"
  shows "fst (bump j ttl st) = value_of j st + 1"
    "value_of k (snd (bump j ttl st)) = value_of k st + (if k = j then 1 else 0)"
    "mr_now (snd (bump j ttl st)) = mr_now st" "mr_sets (snd (bump j ttl st)) = mr_sets st"
  using assms by (auto simp: bump_def Let_def case_prod_beta redis_facts)

lemma bump_all_effect:
  assumes "bump_all cs spent st = (res, spent', st')" "distinct (map fst cs)" "\<forall>c \<in> set cs. 0 < fst (snd c)"
  shows "\<exists>ks. spent' = spent @ ks \<and> distinct ks \<and> set ks \<subseteq> fst ` set cs \<and> mr_now st' = mr_now st \<and>
    mr_sets st' = mr_sets st \<and> (\<forall>k. value_of k st' = value_of k st + (if k \<in> set ks then 1 else 0))"
  using assms
proof (induction cs arbitrary: spent st)
  case Nil
  then show ?case by auto
next
  case (Cons c cs)
  obtain k ttl limit cap where c: "c = (k, ttl, limit, cap)" by (cases c)
  obtain n st1 where b: "bump k ttl st = (n, st1)" by fastforce
  have ttl: "0 < ttl" using Cons.prems(3) c by simp
  have f: "n = value_of k st + 1" "\<And>j. value_of j st1 = value_of j st + (if j = k then 1 else 0)"
    "mr_now st1 = mr_now st" "mr_sets st1 = mr_sets st"
    using bump_facts[OF ttl, where j = k and st = st] b by auto
  show ?case
  proof (cases "n > int limit")
    case True
    then have "spent' = spent @ [k]" "st' = st1" using Cons.prems(1) c b by auto
    with f show ?thesis by (intro exI[of _ "[k]"]) (simp add: c)
  next
    case False
    then have r: "bump_all cs (spent @ [k]) st1 = (res, spent', st')" using Cons.prems(1) c b by simp
    obtain ks where ks: "spent' = (spent @ [k]) @ ks" "distinct ks" "set ks \<subseteq> fst ` set cs" "mr_now st' = mr_now st1"
      "mr_sets st' = mr_sets st1" "\<forall>j. value_of j st' = value_of j st1 + (if j \<in> set ks then 1 else 0)"
      using Cons.IH[OF r] Cons.prems(2,3) by auto
    have "k \<notin> set ks" using ks(3) Cons.prems(2) c by auto
    with ks f show ?thesis by (intro exI[of _ "k # ks"]) (auto simp: c)
  qed
qed

lemma bump_all_verdict:
  assumes "\<forall>c \<in> set cs. 0 < fst (snd c)" "\<forall>k. value_of k st = value_of k su"
  shows "fst (bump_all cs spent st) = fst (bump_all cs spent2 su)"
  using assms(2,1)
proof (induction cs arbitrary: spent spent2 st su)
  case (Cons c cs)
  obtain k ttl limit cap where c: "c = (k, ttl, limit, cap)" by (cases c)
  obtain n st1 where b: "bump k ttl st = (n, st1)" by fastforce
  obtain m su1 where d: "bump k ttl su = (m, su1)" by fastforce
  have ttl: "0 < ttl" using Cons.prems c by simp
  have "n = m" "\<forall>j. value_of j st1 = value_of j su1"
    using bump_facts(1,2)[OF ttl, where j = k and st = st] bump_facts(1,2)[OF ttl, where j = k and st = su] b d Cons.prems(1) by auto
  then show ?case using Cons.IH Cons.prems(2) b d c by auto
qed simp

lemma roll_back_effect:
  assumes "distinct ks"
  shows "value_of k (roll_back ks st) = value_of k st - (if k \<in> set ks then 1 else 0) \<and>
    mr_now (roll_back ks st) = mr_now st \<and> mr_sets (roll_back ks st) = mr_sets st"
  using assms
proof (induction ks arbitrary: st)
  case (Cons j ks)
  let ?s = "snd (redis_add (-1) j st)"
  have e: "roll_back (j # ks) st = roll_back ks ?s" by (simp add: roll_back_def)
  have "value_of k ?s = value_of k st - (if k = j then 1 else 0)" "mr_now ?s = mr_now st" "mr_sets ?s = mr_sets st"
    using redis_add_value(1)[of k "-1" j st] by (auto simp: redis_frame)
  then show ?case using Cons unfolding e by auto
qed (simp add: roll_back_def)

lemma checks_wf: "distinct (map fst (checks p r caps now))" "\<forall>c \<in> set (checks p r caps now). 0 < fst (snd c)"
  by (simp_all add: checks_def DAY_TTL_def)

lemma value_sets: "mr_counts st = mr_counts su \<Longrightarrow> mr_now st = mr_now su \<Longrightarrow> value_of k st = value_of k su"
  by (simp add: value_of_def count_of_def split: option.splits prod.splits)

lemma set_of_cong: "mr_sets st = mr_sets su \<Longrightarrow> mr_now st = mr_now su \<Longrightarrow> set_of k st = set_of k su"
  by (simp add: set_of_def split: option.splits prod.splits)

lemma pf_frame [redis_facts]:
  "mr_counts (snd (pf_add h x st)) = mr_counts st" "mr_now (snd (pf_add h x st)) = mr_now st"
  "mr_counts (pf_expire h s st) = mr_counts st" "mr_now (pf_expire h s st) = mr_now st"
  by (simp_all add: pf_add_def pf_expire_def Let_def split: prod.splits)

lemma gate_refusal:
  assumes g: "check_and_consume sha p recipient caps False False st = (RateLimited cap, st')"
  shows "(\<forall>k. value_of k st' = value_of k st) \<and> mr_now st' = mr_now st \<and>
    (cap = DistinctRecipientsPerDay \<longrightarrow>
       fst (bump_all (checks p (rcpt sha recipient) caps (mr_now st)) [] st) = None \<and>
       rcpt sha recipient \<in> set (fst (set_of (p, day_of (mr_now st)) st')))"
proof -
  let ?r = "rcpt sha recipient"
  let ?cs = "checks p ?r caps (mr_now st)"
  obtain res spent st1 where b: "bump_all ?cs [] st = (res, spent, st1)" by (metis prod_cases3)
  obtain ks where ks: "spent = ks" "distinct ks" "mr_now st1 = mr_now st"
    "mr_sets st1 = mr_sets st" "\<forall>k. value_of k st1 = value_of k st + (if k \<in> set ks then 1 else 0)"
    using bump_all_effect[OF b checks_wf] by auto
  show ?thesis
  proof (cases res)
    case (Some c)
    then have e: "st' = roll_back ks st1" "cap = c" using g b ks(1) by (auto simp: check_and_consume_def Let_def)
    have "c \<noteq> DistinctRecipientsPerDay"
    proof -
      have "fst (bump_all cs sp s) = Some c \<Longrightarrow> c \<in> (\<lambda>c. snd (snd (snd c))) ` set cs" for cs sp s
        by (induction cs sp s rule: bump_all.induct) (auto split: prod.splits if_splits)
      from this[of ?cs "[]" st] b Some show ?thesis by (auto simp: checks_def)
    qed
    then show ?thesis using e ks roll_back_effect[OF ks(2)] by auto
  next
    case None
    let ?h = "(p, day_of (mr_now st1))"
    have d: "distinct_check p ?r caps ks st1 = (RateLimited cap, st')"
      using g b None ks(1) by (simp add: check_and_consume_def Let_def)
    obtain added st2 where a: "pf_add ?h ?r st1 = (added, st2)" by fastforce
    have st': "st' = roll_back ks (pf_expire ?h DAY_TTL st2)" and cap: "cap = DistinctRecipientsPerDay"
      using d a by (auto simp: distinct_check_def Let_def split: if_splits)
    have v: "value_of k (pf_expire ?h DAY_TTL st2) = value_of k st1" for k
      using a pf_frame(1,2)[of ?h ?r st1] by (intro value_sets) (simp_all add: pf_frame)
    have n: "mr_now (pf_expire ?h DAY_TTL st2) = mr_now st1" using a pf_frame by (metis snd_conv)
    have "?r \<in> set (fst (set_of ?h (pf_expire ?h DAY_TTL st2)))"
    proof -
      have "?r \<in> set (fst (set_of ?h st2))"
        using a by (auto simp: pf_add_def set_of_def Let_def alive_def split: prod.splits option.splits if_splits)
      then show ?thesis by (simp add: pf_expire_def set_of_def alive_def DAY_TTL_def)
    qed
    then have "?r \<in> set (fst (set_of ?h st'))"
      using set_of_cong roll_back_effect[OF ks(2)] unfolding st' by metis
    then show ?thesis using ks v n roll_back_effect[OF ks(2)] b None cap unfolding st' by auto
  qed
qed

subsection \<open>Interleaved requests\<close>

datatype cap_event = Incr nat | Expire nat | Decr nat \<comment> \<open>by the request of that number\<close>

fun cap_run :: "mail_key \<Rightarrow> (nat \<times> cap_event) list \<Rightarrow> mail_redis \<Rightarrow> (nat \<times> int) list" where
  \<comment> \<open>commands on one key in the order Redis serves them, each with its time; the result is what
      each \<open>INCR\<close> returned\<close>
  "cap_run k [] st = []"
| "cap_run k ((t, Incr i) # es) st =
     (case redis_add 1 k (st\<lparr>mr_now := t\<rparr>) of (n, st') \<Rightarrow> (i, n) # cap_run k es st')"
| "cap_run k ((t, Expire i) # es) st = cap_run k es (redis_expire k 3600 (st\<lparr>mr_now := t\<rparr>))"
| "cap_run k ((t, Decr i) # es) st = cap_run k es (snd (redis_add (-1) k (st\<lparr>mr_now := t\<rparr>)))"

fun counts_from :: "int \<Rightarrow> cap_event list \<Rightarrow> (nat \<times> int) list" where
  "counts_from v [] = []"
| "counts_from v (Incr i # es) = (i, v + 1) # counts_from (v + 1) es"
| "counts_from v (Expire i # es) = counts_from v es"
| "counts_from v (Decr i # es) = counts_from (v - 1) es"

definition outlives_hour :: "mail_key \<Rightarrow> nat \<Rightarrow> int \<Rightarrow> mail_redis \<Rightarrow> bool" where
  "outlives_hour k h v st =
     (case mr_counts st k of None \<Rightarrow> v = 0
      | Some (n, e) \<Rightarrow> n = v \<and> (case e of None \<Rightarrow> True | Some t \<Rightarrow> (h + 1) * 3600000 \<le> t))"

lemma cap_run_counts:
  assumes "outlives_hour k h v st" "\<forall>e \<in> set es. hour_of (fst e) = h"
  shows "cap_run k es st = counts_from v (map snd es)"
  using assms
proof (induction k es st arbitrary: v rule: cap_run.induct)
  case (2 k t i es st)
  have t: "t < (h + 1) * 3600000" using 2 by (auto simp: hour_of_def)
  obtain n st' where r: "redis_add 1 k (st\<lparr>mr_now := t\<rparr>) = (n, st')" by fastforce
  have "n = v + 1 \<and> outlives_hour k h (v + 1) st'"
    using 2(2) r t by (auto simp: outlives_hour_def redis_add_def count_of_def alive_def Let_def split: option.splits if_splits)
  then show ?case using 2 r by simp
next
  case (3 k t i es st)
  have t: "t < (h + 1) * 3600000" "h * 3600000 \<le> t" using 3 by (auto simp: hour_of_def)
  have "outlives_hour k h v (redis_expire k 3600 (st\<lparr>mr_now := t\<rparr>))"
    using 3(2) t by (auto simp: outlives_hour_def redis_expire_def count_of_def alive_def split: option.splits if_splits)
  then show ?case using 3 by simp
next
  case (4 k t i es st)
  have t: "t < (h + 1) * 3600000" using 4 by (auto simp: hour_of_def)
  have "outlives_hour k h (v - 1) (snd (redis_add (-1) k (st\<lparr>mr_now := t\<rparr>)))"
    using 4(2) t by (auto simp: outlives_hour_def redis_add_def count_of_def alive_def Let_def split: option.splits if_splits)
  then show ?case using 4 by simp
qed simp

fun well_ordered :: "nat set \<Rightarrow> nat set \<Rightarrow> cap_event list \<Rightarrow> bool" where
  \<comment> \<open>a request increments once and takes back, at most once, what it added\<close>
  "well_ordered inc dec [] = True"
| "well_ordered inc dec (Incr i # es) = (i \<notin> inc \<and> well_ordered (insert i inc) dec es)"
| "well_ordered inc dec (Expire i # es) = well_ordered inc dec es"
| "well_ordered inc dec (Decr i # es) = (i \<in> inc \<and> i \<notin> dec \<and> well_ordered inc (insert i dec) es)"

definition accepted :: "nat \<Rightarrow> (nat \<times> int) list \<Rightarrow> cap_event list \<Rightarrow> nat set" where
  "accepted limit res es = {i. \<exists>n. (i, n) \<in> set res \<and> n \<le> int limit \<and> Decr i \<notin> set es}"

lemma counts_from_ids: "(i, n) \<in> set (counts_from v es) \<Longrightarrow> well_ordered inc dec es \<Longrightarrow> i \<notin> inc"
  by (induction inc dec es arbitrary: v rule: well_ordered.induct) auto

lemma counts_from_finite: "finite (accepted l (counts_from v es) fs)"
proof -
  have "accepted l (counts_from v es) fs \<subseteq> fst ` set (counts_from v es)" by (force simp: accepted_def)
  then show ?thesis by (meson finite_imageI finite_set finite_subset)
qed

lemma accepted_bound:
  assumes "well_ordered inc dec es" "finite inc" "dec \<subseteq> inc" "v = int (card inc) - int (card dec)"
    "W = accepted limit (counts_from v es) es" "P = {i \<in> inc - dec. Decr i \<notin> set es}"
  shows "W = {} \<or> card P + card W \<le> limit"
  using assms
proof (induction inc dec es arbitrary: v W P rule: well_ordered.induct)
  case (1 inc dec)
  then show ?case by (simp add: accepted_def)
next
  case (2 inc dec i es)
  have wo: "well_ordered (insert i inc) dec es" and i: "i \<notin> inc" using "2.prems"(1) by auto
  let ?W = "accepted limit (counts_from (v + 1) es) es"
  let ?P = "{j \<in> insert i inc - dec. Decr j \<notin> set es}"
  have v: "v + 1 = int (card (insert i inc)) - int (card dec)" using 2 i by simp
  have sub: "dec \<subseteq> insert i inc" using "2.prems"(3) by blast
  have IH: "?W = {} \<or> card ?P + card ?W \<le> limit"
    using "2.IH"[OF wo _ sub v refl refl] "2.prems"(2) by simp
  have inW: "i \<notin> ?W" using counts_from_ids[OF _ wo] by (auto simp: accepted_def)
  have id: "i \<notin> dec" using "2.prems"(3) i by blast
  have fin: "finite ?P" "finite ?W" using "2.prems"(2) counts_from_finite by auto
  show ?case
  proof (cases "v + 1 \<le> int limit \<and> Decr i \<notin> set es")
    case True
    then have W: "W = insert i ?W" and P: "?P = insert i P"
      using "2.prems"(5,6) id by (auto simp: accepted_def)
    have iP: "i \<notin> P" using "2.prems"(6) i by blast
    have cW: "card W = card ?W + 1" unfolding W using fin inW by simp
    have cP: "card ?P = card P + 1" unfolding P using iP fin P by simp
    show ?thesis
    proof (cases "?W = {}")
      case True2: True
      have "card P \<le> card (inc - dec)" using "2.prems"(2,6) by (intro card_mono) auto
      also have "\<dots> = card inc - card dec" using "2.prems"(2,3) by (meson card_Diff_subset finite_subset)
      finally have "int (card P) \<le> v"
        using "2.prems"(2,3,4) card_mono[of inc dec] by linarith
      then show ?thesis using True True2 cW by simp
    next
      case False
      then show ?thesis using IH cW cP by simp
    qed
  next
    case False
    then have "W = ?W" using "2.prems"(5) counts_from_ids[OF _ wo] by (auto simp: accepted_def)
    moreover have "card P \<le> card ?P" using fin "2.prems"(6) by (intro card_mono) auto
    ultimately show ?thesis using IH by auto
  qed
next
  case (3 inc dec i es)
  then show ?case by (simp add: accepted_def)
next
  case (4 inc dec i es)
  have wo: "well_ordered inc (insert i dec) es" and i: "i \<in> inc" "i \<notin> dec" using "4.prems"(1) by auto
  have fd: "finite dec" using "4.prems"(2,3) finite_subset by blast
  have v: "v - 1 = int (card inc) - int (card (insert i dec))" using "4.prems"(4) i fd by simp
  have W: "W = accepted limit (counts_from (v - 1) es) es"
    using "4.prems"(5) counts_from_ids[OF _ wo] i by (auto simp: accepted_def)
  have P: "P = {j \<in> inc - insert i dec. Decr j \<notin> set es}" using "4.prems"(6) by auto
  show ?case using "4.IH"[OF wo "4.prems"(2) _ v W P] "4.prems"(3) i by blast
qed

text \<open>
  However the commands of concurrent requests on an hourly mail counter interleave within the hour,
  the requests that were counted at or below the limit and did not take their count back number at
  most the limit: incrementing first and comparing after never sells a send twice.
\<close>

theorem budget_is_never_oversold:
  assumes "mr_counts st k = None" "\<forall>e \<in> set es. hour_of (fst e) = h" "well_ordered {} {} (map snd es)"
  shows "card (accepted limit (cap_run k es st) (map snd es)) \<le> limit"
proof -
  have r: "cap_run k es st = counts_from 0 (map snd es)"
    by (rule cap_run_counts[OF _ assms(2)]) (simp add: outlives_hour_def assms(1))
  from accepted_bound[OF assms(3), of 0 "accepted limit (counts_from 0 (map snd es)) (map snd es)" limit "{}"]
  show ?thesis by (auto simp: r)
qed

text \<open>
  A recipient refused because the project has reached its daily number of distinct recipients is let
  through by the very next attempt: the refused address stays in the set, a second \<open>PFADD\<close> does not
  grow it, and the count is only compared when it grows.
\<close>

theorem distinct_cap_yields_to_a_retry:
  assumes "check_and_consume sha p recipient caps False False st = (RateLimited DistinctRecipientsPerDay, st')"
  shows "fst (check_and_consume sha p recipient caps False False st') = Allowed"
proof -
  from gate_refusal[OF assms] have v: "\<forall>k. value_of k st' = value_of k st" and n: "mr_now st' = mr_now st"
    and b: "fst (bump_all (checks p (rcpt sha recipient) caps (mr_now st)) [] st) = None"
    and m: "rcpt sha recipient \<in> set (fst (set_of (p, day_of (mr_now st)) st'))" by auto
  let ?cs = "checks p (rcpt sha recipient) caps (mr_now st)"
  have "fst (bump_all ?cs [] st') = None" using bump_all_verdict[OF checks_wf(2) v, of p _ caps "mr_now st" "[]" "[]"] b by simp
  then obtain spent st1 where b1: "bump_all ?cs [] st' = (None, spent, st1)" by (metis fst_conv prod.collapse)
  from bump_all_effect[OF b1 checks_wf] have "mr_sets st1 = mr_sets st'" "mr_now st1 = mr_now st'" by auto
  then have m1: "rcpt sha recipient \<in> set (fst (set_of (p, day_of (mr_now st1)) st1))"
    using m n set_of_cong[of st1 st'] by simp
  have a: "fst (pf_add (p, day_of (mr_now st1)) (rcpt sha recipient) st1) = False"
    using m1 by (auto simp: pf_add_def Let_def split: prod.splits)
  then obtain st2 where "pf_add (p, day_of (mr_now st1)) (rcpt sha recipient) st1 = (False, st2)"
    by (metis prod.collapse)
  then have "fst (distinct_check p (rcpt sha recipient) caps spent st1) = Allowed"
    by (simp add: distinct_check_def Let_def)
  then show ?thesis using b1 n by (simp add: check_and_consume_def Let_def)
qed


lemma refused_send_costs_nothing:
  assumes "check_and_consume sha p recipient caps sup_global sup_project st = (verdict, st')" "verdict \<noteq> Allowed"
  shows "value_of k st' = value_of k st"
proof (cases "sup_global \<or> sup_project")
  case True
  then show ?thesis using assms by (auto simp: check_and_consume_def split: if_splits)
next
  case False
  then have f: "check_and_consume sha p recipient caps False False st = (verdict, st')" using assms by simp
  have "\<exists>cap. verdict = RateLimited cap"
    using f assms(2)
    by (auto simp: check_and_consume_def distinct_check_def Let_def split: prod.splits option.splits if_splits)
  then show ?thesis using gate_refusal f by blast
qed

definition quiet_redis :: mail_redis where
  "quiet_redis = \<lparr>mr_counts = \<lambda>_. None, mr_sets = \<lambda>_. None, mr_now = 7200000\<rparr>"

definition three_sends :: "(nat \<times> cap_event) list" where
  "three_sends = [(7200000, Incr 1), (7200001, Incr 2), (7200001, Expire 1), (7200002, Incr 3), (7200003, Decr 3)]"

theorem budget_is_never_oversold_witness:
  "card (accepted 2 (cap_run (ProjectHour ''p1'' 2) three_sends quiet_redis) (map snd three_sends)) \<le> 2"
  by (rule budget_is_never_oversold[where h = 2])
     (simp_all add: quiet_redis_def three_sends_def hour_of_def)

definition no_new_faces :: email_caps where
  "no_new_faces = \<lparr>ec_hour = 30, ec_day = 200, ec_distinct = 0, ec_rcpt_hour = 4, ec_rcpt_day = 10\<rparr>"

definition after_refusal :: mail_redis where
  "after_refusal = snd (check_and_consume (\<lambda>x. x) ''p1'' ''a@b.c'' no_new_faces False False quiet_redis)"

lemma one_refusal:
  "check_and_consume (\<lambda>x. x) ''p1'' ''a@b.c'' no_new_faces False False quiet_redis
     = (RateLimited DistinctRecipientsPerDay, after_refusal)"
proof -
  have "fst (check_and_consume (\<lambda>x. x) ''p1'' ''a@b.c'' no_new_faces False False quiet_redis)
      = RateLimited DistinctRecipientsPerDay"
    by (simp add: check_and_consume_def no_new_faces_def quiet_redis_def checks_def bump_def redis_add_def
        count_of_def redis_expire_def alive_def distinct_check_def pf_add_def set_of_def pf_expire_def
        pf_count_def Let_def DAY_TTL_def)
  then show ?thesis by (metis after_refusal_def prod.collapse)
qed

theorem distinct_cap_yields_to_a_retry_witness:
  "fst (check_and_consume (\<lambda>x. x) ''p1'' ''a@b.c'' no_new_faces False False after_refusal) = Allowed"
  by (rule distinct_cap_yields_to_a_retry[OF one_refusal])

end
