(* ===== verification/EndAuth.thy ===== *)
theory EndAuth
  imports EndUsers MailGate
begin

text \<open>
  The auth API a project serves to its own users: \<open>services/api/src/modules/project-auth/routes.ts\<close>
  with \<open>tokens.ts\<close>, \<open>bearer.ts\<close> and \<open>redirect.ts\<close>, over the schema of \<open>EndUsers\<close> and the mailer of
  \<open>MailGate\<close>. A handler is a function from the two stores to a result or an error and the stores.

  Parameters: SHA-256 (\<open>sha\<close>), scrypt (\<open>passwords\<close>), JWT verification and the URL parser of the
  runtime. Random values are arguments: \<open>sid\<close> a session id, \<open>rnd\<close> the bytes of a token in
  base64url, \<open>salt\<close> the salt of a hash. The verdict of a rate limiter is the argument \<open>over\<close>, the
  seconds to wait when it refuses. A request body is taken as the schema validation leaves it.
  An access token is its claims; signing is the runtime's.
\<close>

subsection \<open>Redirects\<close>

record url_parts =
  ur_protocol :: string
  ur_origin :: string
  ur_path :: string

record redirect_policy =
  rp_site :: "string option"
  rp_additional :: "string list"

definition strip_slashes :: "string \<Rightarrow> string" where
  "strip_slashes p = rev (dropWhile (\<lambda>c. c = CHR ''/'') (rev p))"

definition redirect_allowed :: "(string \<Rightarrow> url_parts option) \<Rightarrow> url_parts \<Rightarrow> string \<Rightarrow> bool" where
  "redirect_allowed parse candidate entry =
     (case parse entry of
        None \<Rightarrow> False
      | Some base \<Rightarrow>
          if ur_origin candidate \<noteq> ur_origin base then False
          else (let base_path = strip_slashes (ur_path base) in
                if base_path = [] then True
                else (let path = strip_slashes (ur_path candidate) in
                      path = base_path \<or> starts_with (base_path @ ''/'') path)))"

definition resolve_redirect :: "(string \<Rightarrow> url_parts option) \<Rightarrow> redirect_policy \<Rightarrow> string option
    \<Rightarrow> string option \<times> bool" where
  "resolve_redirect parse policy requested =
     (case requested of
        None \<Rightarrow> (rp_site policy, False)
      | Some r \<Rightarrow>
          if r = [] then (rp_site policy, False)
          else (case parse r of
                  None \<Rightarrow> (rp_site policy, True)
                | Some c \<Rightarrow>
                    if ur_protocol c \<noteq> ''https:'' \<and> ur_protocol c \<noteq> ''http:'' then (rp_site policy, True)
                    else (case rp_site policy of
                            None \<Rightarrow> (None, True)
                          | Some site \<Rightarrow>
                              if list_ex (redirect_allowed parse c) (site # rp_additional policy)
                              then (Some r, False) else (Some site, True))))"

subsection \<open>Tokens\<close>

datatype key_role = Key_anon | Key_service_role

record auth_config =
  ac_autoconfirm :: bool
  ac_disable_signup :: bool
  ac_access_ttl :: nat
  ac_password_min :: nat
  ac_idle_seconds :: nat
  ac_double :: bool
  ac_redirects :: redirect_policy

record project_ctx =
  pc_id :: string
  pc_ref :: string
  pc_role :: key_role
  pc_issuer :: string
  pc_config :: auth_config

definition AUTH_CONFIG_DEFAULTS :: auth_config where
  "AUTH_CONFIG_DEFAULTS =
     \<lparr>ac_autoconfirm = False, ac_disable_signup = False, ac_access_ttl = 3600, ac_password_min = 8,
      ac_idle_seconds = 30 * 24 * 3600, ac_double = True,
      ac_redirects = \<lparr>rp_site = None, rp_additional = []\<rparr>\<rparr>"

definition ACCESS_TTL_MIN :: nat where "ACCESS_TTL_MIN = 300"
definition ACCESS_TTL_MAX :: nat where "ACCESS_TTL_MAX = 86400"
definition REFRESH_GRACE_MS :: nat where "REFRESH_GRACE_MS = 10000"
definition REFRESH_PREFIX :: string where "REFRESH_PREFIX = ''sh_rt_''"

record access_claims =
  at_iss :: string
  at_ref :: string
  at_sub :: string
  at_role :: string
  at_email :: "string option"
  at_session :: string
  at_amr :: "string list"
  at_iat :: nat
  at_exp :: nat

definition mint_access_token :: "project_ctx \<Rightarrow> string \<Rightarrow> string option \<Rightarrow> string \<Rightarrow> string list \<Rightarrow> nat
    \<Rightarrow> access_claims \<times> nat" where
  \<comment> \<open>at \<open>now\<close> in milliseconds\<close>
  "mint_access_token ctx user email sid amr now =
     (let iat = now div 1000;
          ttl = min ACCESS_TTL_MAX (max ACCESS_TTL_MIN (ac_access_ttl (pc_config ctx))) in
      (\<lparr>at_iss = pc_issuer ctx, at_ref = pc_ref ctx, at_sub = user, at_role = ''authenticated'',
        at_email = (if email = Some [] then None else email), at_session = sid, at_amr = amr, at_iat = iat,
        at_exp = iat + ttl\<rparr>, ttl))"

definition new_refresh_token :: "string \<Rightarrow> string" where
  "new_refresh_token rnd = REFRESH_PREFIX @ rnd"

definition looks_like_refresh_token :: "string \<Rightarrow> bool" where
  "looks_like_refresh_token v =
     (starts_with REFRESH_PREFIX v \<and> length v > length REFRESH_PREFIX + 20)"

record issued =
  is_access :: access_claims
  is_expires_in :: nat
  is_refresh :: string

record client_meta =
  cm_agent :: "string option"
  cm_ip :: "string option"

definition issue_session :: "project_ctx \<Rightarrow> (string \<Rightarrow> string) \<Rightarrow> string \<Rightarrow> string \<Rightarrow> string \<Rightarrow> string option
    \<Rightarrow> client_meta \<Rightarrow> string list \<Rightarrow> issued auth_eff" where
  "issue_session ctx sha sid rnd user email meta amr =
     and_then (open_session sid user (sha (new_refresh_token rnd)) (cm_agent meta) (cm_ip meta)) (\<lambda>(s, _).
     and_then (gets ad_now) (\<lambda>now.
       (let (access, ttl) = mint_access_token ctx user email s amr now in
        ret \<lparr>is_access = access, is_expires_in = ttl, is_refresh = new_refresh_token rnd\<rparr>)))"

subsection \<open>Bearers\<close>

record bearer =
  be_user :: string
  be_session :: string
  be_email :: "string option"
  be_amr :: "string list"

record jwt_claims =
  jc_sub :: "string option"
  jc_session :: "string option"
  jc_role :: "string option"
  jc_email :: "string option"
  jc_amr :: "string list"

definition auth_unauthorized :: auth_error where "auth_unauthorized = AuthError 401 A_UNAUTHORIZED"

definition bearer_text :: "string \<Rightarrow> string option" where
  \<comment> \<open>the header without \<open>/^Bearer\\s+/i\<close>, trimmed\<close>
  "bearer_text h =
     (let rest = drop 6 h in
      if js_lower (take 6 h) = ''bearer'' \<and> rest \<noteq> [] \<and> is_ws (hd rest)
      then Some (js_trim (dropWhile is_ws rest)) else None)"

definition verify_bearer :: "(string \<Rightarrow> 'k \<Rightarrow> jwt_claims option) \<Rightarrow> 'k list \<Rightarrow> string option
    \<Rightarrow> auth_error + bearer" where
  \<comment> \<open>\<open>verify t k\<close>: the claims of \<open>t\<close> if \<open>k\<close> signed it for the project's issuer and it has not expired\<close>
  "verify_bearer verify keys header =
     (case Option.bind header bearer_text of
        None \<Rightarrow> Inl auth_unauthorized
      | Some t \<Rightarrow>
          (case List.find (\<lambda>c. c \<noteq> None) (map (verify t) keys) of
             Some (Some c) \<Rightarrow>
               (case (jc_sub c, jc_session c) of
                  (Some sub, Some sid) \<Rightarrow>
                    if jc_role c \<noteq> Some ''authenticated'' \<or> sub = [] \<or> sid = [] then Inl auth_unauthorized
                    else Inr \<lparr>be_user = sub, be_session = sid, be_email = jc_email c, be_amr = jc_amr c\<rparr>
                | _ \<Rightarrow> Inl auth_unauthorized)
           | _ \<Rightarrow> Inl auth_unauthorized))"

definition require_live_session :: "bearer \<Rightarrow> unit auth_eff" where
  "require_live_session b =
     and_then (gets (live_session (be_session b) (be_user b))) (\<lambda>live. guard live auth_unauthorized)"

subsection \<open>Answers\<close>

definition too_many :: auth_error where "too_many = AuthError 429 A_OVER_RATE_LIMIT"
definition bad_grant :: auth_error where "bad_grant = AuthError 401 A_INVALID_GRANT"
definition bad_credentials :: auth_error where "bad_credentials = AuthError 400 A_INVALID_CREDENTIALS"
definition auth_validation :: "nat \<Rightarrow> auth_error" where "auth_validation n = AuthError n A_VALIDATION_FAILED"

definition audited :: "string \<Rightarrow> string option \<Rightarrow> unit auth_eff" where
  "audited action user = modifies (write_auth_audit action user)"

definition refuse :: "string \<Rightarrow> string option \<Rightarrow> auth_error \<Rightarrow> 'a auth_eff" where
  "refuse action user e = and_then (audited action user) (\<lambda>_. throw e)"

record passwords =
  pw_hash :: "string \<Rightarrow> string \<Rightarrow> string" \<comment> \<open>salt, password\<close>
  pw_verify :: "string \<Rightarrow> string \<Rightarrow> (bool \<times> bool) option" \<comment> \<open>\<open>None\<close>: the stored hash does not parse\<close>

definition MIN_END_USER_PASSWORD_LENGTH :: nat where "MIN_END_USER_PASSWORD_LENGTH = 8"
definition MAX_PASSWORD_LENGTH :: nat where "MAX_PASSWORD_LENGTH = 1024"

definition valid_password :: "nat \<Rightarrow> string \<Rightarrow> bool" where
  "valid_password m pw = (m \<le> length pw \<and> length pw \<le> MAX_PASSWORD_LENGTH)"

definition hash_password :: "passwords \<Rightarrow> string \<Rightarrow> nat \<Rightarrow> string \<Rightarrow> string auth_eff" where
  "hash_password P salt m pw =
     (if valid_password m pw then ret (pw_hash P salt pw) else throw (AuthError 422 A_WEAK_PASSWORD))"

definition password_min :: "project_ctx \<Rightarrow> nat" where
  "password_min ctx = max MIN_END_USER_PASSWORD_LENGTH (ac_password_min (pc_config ctx))"

definition verify_password :: "passwords \<Rightarrow> string \<Rightarrow> string \<Rightarrow> (bool \<times> bool) auth_eff" where
  \<comment> \<open>whether it matches and whether it wants rehashing\<close>
  "verify_password P pw stored =
     (case pw_verify P pw stored of Some v \<Rightarrow> ret v | None \<Rightarrow> throw (AuthError 500 A_INTERNAL))"

subsection \<open>Refreshing\<close>

definition refreshed :: "project_ctx \<Rightarrow> refresh_row \<Rightarrow> end_user \<Rightarrow> string \<Rightarrow> string
    \<Rightarrow> (issued \<times> public_user) auth_eff" where
  \<comment> \<open>mint, audit, answer\<close>
  "refreshed ctx row user rnd action =
     and_then (gets ad_now) (\<lambda>now.
       (let (access, ttl) = mint_access_token ctx (eu_id user) (eu_email user) (rr_session row) [] now in
        and_then (audited action (Some (eu_id user))) (\<lambda>_.
          ret (\<lparr>is_access = access, is_expires_in = ttl, is_refresh = new_refresh_token rnd\<rparr>, publicUser user))))"

definition end_family :: "refresh_row \<Rightarrow> string \<Rightarrow> 'a auth_eff" where
  "end_family row action =
     and_then (modifies (revoke_session_family (rr_session row))) (\<lambda>_.
       refuse action (Some (rr_user row)) bad_grant)"

definition replay_child :: "(string \<Rightarrow> string) \<Rightarrow> refresh_row \<Rightarrow> string \<Rightarrow> nat \<Rightarrow> nat option auth_eff" where
  \<comment> \<open>inside the grace window: replace the unspent child\<close>
  "replay_child sha row rnd used =
     and_then (gets ad_now) (\<lambda>now.
       if now - used \<le> REFRESH_GRACE_MS
       then and_then (gets (find_child_token (rr_id row))) (\<lambda>child.
              (case child of
                 None \<Rightarrow> ret None
               | Some c \<Rightarrow>
                   if rt_used c = None \<and> \<not> rt_revoked c
                   then grace_rotate (rr_id row) (rt_id c) (rr_session row) (rr_user row)
                          (sha (new_refresh_token rnd))
                   else ret None))
       else ret None)"

definition already_spent :: "project_ctx \<Rightarrow> (string \<Rightarrow> string) \<Rightarrow> refresh_row \<Rightarrow> end_user \<Rightarrow> string \<Rightarrow> nat
    \<Rightarrow> (issued \<times> public_user) auth_eff" where
  "already_spent ctx sha row user rnd used =
     and_then (replay_child sha row rnd used) (\<lambda>replaced.
       (case replaced of
          Some _ \<Rightarrow> refreshed ctx row user rnd ''token_refresh_replayed''
        | None \<Rightarrow> end_family row ''token_reuse_detected''))"

definition refresh_judged :: "project_ctx \<Rightarrow> (string \<Rightarrow> string) \<Rightarrow> string \<Rightarrow> refresh_row \<Rightarrow> end_user \<Rightarrow> string
    \<Rightarrow> (issued \<times> public_user) auth_eff" where
  "refresh_judged ctx sha presented row user rnd =
     (case rr_used row of
        Some used \<Rightarrow> already_spent ctx sha row user rnd used
      | None \<Rightarrow>
          and_then (rotate_refresh_token (rr_id row) (rr_session row) (rr_user row) (sha (new_refresh_token rnd)))
            (\<lambda>rotated. (case rotated of
               Some _ \<Rightarrow> refreshed ctx row user rnd ''token_refreshed''
             | None \<Rightarrow>
                 and_then (gets (find_refresh_token (sha presented))) (\<lambda>again.
                   (case Option.bind again rr_used of
                      None \<Rightarrow> throw bad_grant
                    | Some used \<Rightarrow> already_spent ctx sha row user rnd used)))))"

definition idle_from :: "refresh_row \<Rightarrow> nat" where
  "idle_from row = (case rr_refreshed row of Some t \<Rightarrow> t | None \<Rightarrow> rr_created row)"

definition banned_at :: "nat \<Rightarrow> end_user \<Rightarrow> bool" where
  "banned_at now u = (case eu_banned u of None \<Rightarrow> False | Some t \<Rightarrow> now < t)"

definition refresh_row_read :: "project_ctx \<Rightarrow> (string \<Rightarrow> string) \<Rightarrow> string \<Rightarrow> refresh_row \<Rightarrow> string
    \<Rightarrow> (issued \<times> public_user) auth_eff" where
  "refresh_row_read ctx sha presented row rnd =
     and_then (gets ad_now) (\<lambda>now.
       if now - idle_from row > ac_idle_seconds (pc_config ctx) * 1000 then end_family row ''refresh_failed''
       else and_then (gets (find_user_by_id (rr_user row))) (\<lambda>u.
              (case u of
                 None \<Rightarrow> end_family row ''refresh_failed''
               | Some user \<Rightarrow>
                   if banned_at now user then end_family row ''refresh_failed_banned''
                   else refresh_judged ctx sha presented row user rnd)))"

definition refresh_grant :: "project_ctx \<Rightarrow> (string \<Rightarrow> string) \<Rightarrow> bool \<Rightarrow> string \<Rightarrow> string
    \<Rightarrow> (issued \<times> public_user) auth_eff" where
  "refresh_grant ctx sha over presented rnd =
     (if over then throw too_many
      else if \<not> looks_like_refresh_token presented then throw bad_grant
      else and_then (gets (find_refresh_token (sha presented))) (\<lambda>row.
             (case row of
                None \<Rightarrow> refuse ''refresh_failed'' None bad_grant
              | Some r \<Rightarrow>
                  if rr_revoked r \<or> rr_session_revoked r \<noteq> None
                  then refuse ''refresh_failed'' (Some (rr_user r)) bad_grant
                  else refresh_row_read ctx sha presented r rnd)))"

subsection \<open>Signing in and out\<close>

definition password_checked :: "project_ctx \<Rightarrow> passwords \<Rightarrow> string \<Rightarrow> string \<Rightarrow> end_user \<Rightarrow> bool auth_eff" where
  \<comment> \<open>the hash and the gates after it; whether the hash wants upgrading\<close>
  "password_checked ctx P password stored user =
     and_then (verify_password P password stored) (\<lambda>(ok, rehash).
       if \<not> ok then refuse ''login_failed_bad_password'' (Some (eu_id user)) bad_credentials
       else and_then (gets ad_now) (\<lambda>now.
         if banned_at now user then refuse ''login_failed_banned'' (Some (eu_id user)) bad_credentials
         else if eu_confirmed user = None \<and> \<not> ac_autoconfirm (pc_config ctx)
         then refuse ''login_failed_unconfirmed'' (Some (eu_id user)) (AuthError 400 A_EMAIL_NOT_CONFIRMED)
         else ret rehash))"

definition upgrade_hash :: "passwords \<Rightarrow> string \<Rightarrow> string \<Rightarrow> string \<Rightarrow> unit auth_eff" where
  "upgrade_hash P salt user password =
     and_then (lift_error (\<lambda>_. AuthError 500 A_INTERNAL) (hash_password P salt 1 password)) (\<lambda>h.
     and_then (modifies (update_password_hash user h)) (\<lambda>_.
       audited ''password_hash_upgraded'' (Some user)))"

definition password_grant :: "project_ctx \<Rightarrow> passwords \<Rightarrow> (string \<Rightarrow> string) \<Rightarrow> bool \<Rightarrow> string \<Rightarrow> string
    \<Rightarrow> client_meta \<Rightarrow> string \<Rightarrow> string \<Rightarrow> string \<Rightarrow> (issued \<times> public_user) auth_eff" where
  "password_grant ctx P sha over email password meta sid rnd salt =
     (if over then throw too_many
      else and_then (gets (find_user_by_email email)) (\<lambda>u.
        (case u of
           None \<Rightarrow> refuse ''login_failed_no_user'' None bad_credentials
         | Some user \<Rightarrow>
             (case eu_hash user of
                None \<Rightarrow> refuse ''login_failed_no_user'' None bad_credentials
              | Some stored \<Rightarrow>
                  if stored = [] then refuse ''login_failed_no_user'' None bad_credentials
                  else and_then (password_checked ctx P password stored user) (\<lambda>rehash.
                       and_then (if rehash then upgrade_hash P salt (eu_id user) password else ret ()) (\<lambda>_.
                       and_then (issue_session ctx sha sid rnd (eu_id user) (eu_email user) meta []) (\<lambda>s.
                       and_then (modifies (mark_signed_in (eu_id user))) (\<lambda>_.
                       and_then (audited ''login'' (Some (eu_id user))) (\<lambda>_.
                         ret (s, publicUser user))))))))))"

definition logout :: "bearer \<Rightarrow> string option \<Rightarrow> nat auth_eff" where
  \<comment> \<open>the number of sessions revoked, which the audit row carries\<close>
  "logout b scope_param =
     (let scope = (if scope_param = Some ''global'' then ScopeGlobal
                   else if scope_param = Some ''others'' then ScopeOthers else ScopeLocal) in
      and_then (\<lambda>db. (case revoke_user_sessions (be_user b) scope (be_session b) db of (n, db') \<Rightarrow> (Inr n, db')))
        (\<lambda>n. and_then (audited ''logout'' (Some (be_user b))) (\<lambda>_. ret n)))"

definition get_sessions :: "bearer \<Rightarrow> (auth_session \<times> bool) list auth_eff" where
  "get_sessions b =
     and_then (require_live_session b) (\<lambda>_.
     and_then (gets (list_sessions (be_user b))) (\<lambda>rows.
       ret (map (\<lambda>s. (s, as_id s = be_session b)) rows)))"

definition session_id_shape :: "string \<Rightarrow> bool" where
  "session_id_shape i =
     (length i = 36 \<and> list_all (\<lambda>c. is_digit c \<or> c = CHR ''-'' \<or> lower_char c \<in> set ''abcdef'') i)"

definition delete_session :: "bearer \<Rightarrow> string \<Rightarrow> unit auth_eff" where
  "delete_session b i =
     (if \<not> session_id_shape i then throw (auth_validation 400)
      else and_then (require_live_session b) (\<lambda>_.
           and_then (\<lambda>db. (case revoke_own_session i (be_user b) db of (ok, db') \<Rightarrow> (Inr ok, db'))) (\<lambda>ok.
             if \<not> ok then throw (auth_validation 404)
             else audited ''session_revoked'' (Some (be_user b)))))"

definition get_user :: "bearer \<Rightarrow> (public_user \<times> string option) auth_eff" where
  "get_user b =
     and_then (require_live_session b) (\<lambda>_.
     and_then (gets (find_user_by_id (be_user b))) (\<lambda>u.
       (case u of
          None \<Rightarrow> throw auth_unauthorized
        | Some user \<Rightarrow> and_then (gets (pending_email_change (eu_id user))) (\<lambda>p. ret (publicUser user, p)))))"

subsection \<open>A session is one token\<close>

definition current_token :: "auth_db \<Rightarrow> string \<Rightarrow> string option" where
  \<comment> \<open>what a session is to its client: the digest of the one refresh token that can be exchanged\<close>
  "current_token db sid =
     (case session_by_id sid db of
        None \<Rightarrow> None
      | Some s \<Rightarrow>
          if as_revoked s \<noteq> None then None
          else map_option rt_hash (List.find (\<lambda>r. rt_session r = sid \<and> live_token r) (ad_tokens db)))"

lemma find_upd_out: "(\<And>x. p x \<Longrightarrow> \<not> q (f x)) \<Longrightarrow> List.find q (upd_where p f xs) = List.find (\<lambda>x. q x \<and> \<not> p x) xs"
  by (induction xs) auto

lemma find_cong_set: "(\<And>x. x \<in> set xs \<Longrightarrow> q x = q' x) \<Longrightarrow> List.find q xs = List.find q' xs"
  by (rule find_cong) auto

lemma session_bump [simp]: "session_by_id sid (bump_session x db) =
    map_option (\<lambda>s. if as_id s = x then s\<lparr>as_refreshed := Some (ad_now db)\<rparr> else s) (session_by_id sid db)"
  by (simp add: session_by_id_def bump_session_def find_upd_where)

lemma current_bump [simp]: "current_token (bump_session x db) = current_token db"
proof -
  have t: "ad_tokens (bump_session x db) = ad_tokens db" by (simp add: bump_session_def)
  show ?thesis by (rule ext) (auto simp: current_token_def t split: option.splits if_splits)
qed

lemma current_after_insert:
  assumes ok: "auth_ok db" and r: "r \<in> set (ad_tokens db)" "live_token r" and sid: "sid = rt_session r"
    and f: "f = rt_used_update (\<lambda>_. Some t) \<or> f = rt_revoked_update (\<lambda>_. True)"
    and i: "insert_token child user sid par (set_token (rt_id r) f db) = (Inr c, db')"
    and live: "session_by_id sid db = Some s" "as_revoked s = None"
  shows "current_token db' = (current_token db)(sid \<mapsto> child) \<and> current_token db sid = Some (rt_hash r)"
proof -
  let ?q = "\<lambda>x r. rt_session r = x \<and> live_token r" and ?p = "\<lambda>x. rt_id x = rt_id r \<and> live_token x"
  let ?n = "\<lparr>rt_id = ad_next db, rt_hash = child, rt_user = user, rt_session = sid, rt_parent = par,
             rt_used = None, rt_revoked = False\<rparr>"
  have t: "ad_tokens db' = upd_where ?p f (ad_tokens db) @ [?n]" and s: "ad_sessions db' = ad_sessions db"
    using i insert_token_cases[of "set_token (rt_id r) f db" child user sid par]
    by (auto simp: set_token_def)
  have p_session: "rt_session x = sid" if "x \<in> set (ad_tokens db)" "?p x" for x
    using same_token[OF ok that(1) r(1)] that sid by simp
  have out: "\<not> ?q x (f y)" for x y using f by auto
  have find: "List.find (?q x) (upd_where ?p f (ad_tokens db)) = List.find (\<lambda>y. ?q x y \<and> \<not> ?p y) (ad_tokens db)" for x
    by (rule find_upd_out) (rule out)
  have other: "List.find (?q x) (upd_where ?p f (ad_tokens db)) = List.find (?q x) (ad_tokens db)" if "x \<noteq> sid" for x
    unfolding find by (rule find_cong_set) (use p_session that in blast)
  have same: "List.find (?q sid) (upd_where ?p f (ad_tokens db)) = None"
    unfolding find using token_of_session[OF ok _ r(1) _ r(2)] sid by (fastforce simp: find_None_iff)
  have cur: "List.find (?q sid) (ad_tokens db) = Some r"
  proof -
    obtain z where z: "List.find (?q sid) (ad_tokens db) = Some z"
      using r sid by (cases "List.find (?q sid) (ad_tokens db)") (auto simp: find_None_iff)
    from find_SomeD[OF z] have "z = r"
      using token_of_session[OF ok _ r(1) _ r(2)] same_token[OF ok _ r(1)] sid by blast
    with z show ?thesis by simp
  qed
  have sb: "session_by_id x db' = session_by_id x db" for x by (simp add: session_by_id_def s)
  have "current_token db' x = ((current_token db)(sid \<mapsto> child)) x" for x
    using live same other[of x] unfolding current_token_def sb t
    by (auto simp: find_append live_token_def split: option.splits)
  then show ?thesis using live cur by (auto simp: current_token_def)
qed

lemma rotate_current:
  assumes ok: "auth_ok db" and r: "r \<in> set (ad_tokens db)"
    and rot: "rotate_refresh_token (rt_id r) (rt_session r) (rt_user r) child db = (Inr (Some c), db')"
    and live: "session_by_id (rt_session r) db = Some s" "as_revoked s = None"
  shows "live_token r \<and> current_token db' = (current_token db)(rt_session r \<mapsto> child) \<and>
    current_token db (rt_session r) = Some (rt_hash r)"
proof -
  have l: "live_token r"
    using rot same_token[OF ok _ r] by (auto simp: rotate_unfold has_live_token_def split: if_splits)
  let ?f = "rt_used_update (\<lambda>_. Some (ad_now db))"
  obtain db1 where i: "insert_token child (rt_user r) (rt_session r) (Some (rt_id r)) (set_token (rt_id r) ?f db) = (Inr c, db1)"
    and d: "db' = bump_session (rt_session r) db1"
    using rot by (auto simp: rotate_unfold split: if_splits prod.splits sum.splits)
  from current_after_insert[OF ok r l refl _ i live] show ?thesis using l d by auto
qed

lemma grace_current:
  assumes ok: "auth_ok db" and r: "r \<in> set (ad_tokens db)"
    and c: "c \<in> set (ad_tokens db)" "rt_parent c = Some (rt_id r)"
    and rot: "grace_rotate (rt_id r) (rt_id c) (rt_session r) (rt_user r) child db = (Inr (Some n), db')"
    and live: "session_by_id (rt_session r) db = Some s" "as_revoked s = None"
  shows "current_token db' = (current_token db)(rt_session r \<mapsto> child) \<and>
    current_token db (rt_session r) = Some (rt_hash c)"
proof -
  have s: "rt_session r = rt_session c"
    using ok c same_token[OF ok _ r] unfolding auth_ok_def lineage_ok_def by metis
  have l: "live_token c"
    using rot same_token[OF ok _ c(1)] by (auto simp: grace_unfold has_live_token_def split: if_splits)
  let ?f = "rt_revoked_update (\<lambda>_. True)"
  obtain db1 where i: "insert_token child (rt_user r) (rt_session r) (Some (rt_id r)) (set_token (rt_id c) ?f db) = (Inr n, db1)"
    and d: "db' = bump_session (rt_session r) db1"
    using rot by (auto simp: grace_unfold split: if_splits prod.splits sum.splits)
  from current_after_insert[OF ok c(1) l s _ i live] show ?thesis using d by auto
qed

lemma current_revoke_sessions:
  "current_token (revoke_tokens p (revoke_sessions q db)) sid =
     (case session_by_id sid db of
        None \<Rightarrow> None
      | Some s \<Rightarrow> if as_revoked s \<noteq> None \<or> q s then None
                 else map_option rt_hash (List.find (\<lambda>r. rt_session r = sid \<and> live_token r \<and> \<not> p r) (ad_tokens db)))"
proof -
  have f: "List.find (\<lambda>r. rt_session r = sid \<and> live_token r) (upd_where p (rt_revoked_update (\<lambda>_. True)) ts) =
      List.find (\<lambda>r. rt_session r = sid \<and> live_token r \<and> \<not> p r) ts" for ts
    by (subst find_upd_out) (auto intro: arg_cong[of _ _ "\<lambda>g. List.find g ts"])
  show ?thesis
    by (auto simp: current_token_def session_by_id_def revoke_tokens_def revoke_sessions_def find_upd_where f
        split: option.splits)
qed

lemma family_current: "current_token (revoke_session_family sid db) = (current_token db)(sid := None)"
proof
  fix x
  have "List.find (\<lambda>r. rt_session r = x \<and> live_token r \<and> \<not> (rt_session r = sid \<and> \<not> rt_revoked r)) (ad_tokens db) =
      List.find (\<lambda>r. rt_session r = x \<and> live_token r) (ad_tokens db)" if "x \<noteq> sid"
    by (rule find_cong_set) (use that in auto)
  then show "current_token (revoke_session_family sid db) x = ((current_token db)(sid := None)) x"
    unfolding revoke_session_family_def current_revoke_sessions
    by (auto simp: current_token_def session_by_id_def split: option.splits dest: find_SomeD)
qed

lemma audit_frame [simp]:
  "ad_tokens (write_auth_audit a u db) = ad_tokens db" "ad_sessions (write_auth_audit a u db) = ad_sessions db"
  "ad_users (write_auth_audit a u db) = ad_users db" "ad_links (write_auth_audit a u db) = ad_links db"
  "ad_now (write_auth_audit a u db) = ad_now db" "ad_next (write_auth_audit a u db) = ad_next db"
  by (simp_all add: write_auth_audit_def)

lemma current_audit [simp]: "current_token (write_auth_audit a u db) = current_token db"
  by (rule ext) (simp add: current_token_def session_by_id_def split: option.split)


definition issued_for :: "project_ctx \<Rightarrow> refresh_row \<Rightarrow> end_user \<Rightarrow> string \<Rightarrow> nat \<Rightarrow> issued \<times> public_user" where
  "issued_for ctx row user rnd now =
     (case mint_access_token ctx (eu_id user) (eu_email user) (rr_session row) [] now of
        (access, ttl) \<Rightarrow> (\<lparr>is_access = access, is_expires_in = ttl, is_refresh = new_refresh_token rnd\<rparr>, publicUser user))"

lemma refreshed_eq: "refreshed ctx row user rnd action db =
    (Inr (issued_for ctx row user rnd (ad_now db)), write_auth_audit action (Some (eu_id user)) db)"
  by (simp add: refreshed_def issued_for_def eff_defs audited_def Let_def split: prod.splits)

lemma end_family_eq: "end_family row action db =
    (Inl bad_grant, write_auth_audit action (Some (rr_user row)) (revoke_session_family (rr_session row) db))"
  by (simp add: end_family_def refuse_def audited_def eff_defs)

lemma refuse_eq: "refuse action u e db = (Inl e, write_auth_audit action u db)"
  by (simp add: refuse_def audited_def eff_defs)

lemma rotate_outcomes:
  "(\<exists>n db1. rotate_refresh_token tid sid user child db = (Inr (Some n), db1)) \<or>
   rotate_refresh_token tid sid user child db = (Inr None, db) \<or>
   rotate_refresh_token tid sid user child db = (Inl unique_violation, db)"
  by (auto simp: rotate_unfold insert_token_def split: prod.splits sum.splits if_splits)

lemma grace_outcomes:
  "(\<exists>n db1. grace_rotate par old sid user child db = (Inr (Some n), db1)) \<or>
   grace_rotate par old sid user child db = (Inr None, db) \<or>
   grace_rotate par old sid user child db = (Inl unique_violation, db)"
  by (auto simp: grace_unfold insert_token_def split: prod.splits sum.splits if_splits)

definition replay_ok :: "(string \<Rightarrow> string) \<Rightarrow> refresh_row \<Rightarrow> string \<Rightarrow> nat \<Rightarrow> auth_db \<Rightarrow> nat \<Rightarrow> auth_db \<Rightarrow> bool" where
  "replay_ok sha row rnd used db n db1 =
     (\<exists>c. ad_now db - used \<le> REFRESH_GRACE_MS \<and> find_child_token (rr_id row) db = Some c \<and> live_token c \<and>
        grace_rotate (rr_id row) (rt_id c) (rr_session row) (rr_user row) (sha (new_refresh_token rnd)) db
          = (Inr (Some n), db1))"

lemma replay_child_cases:
  "(\<exists>n db1. replay_child sha row rnd used db = (Inr (Some n), db1) \<and> replay_ok sha row rnd used db n db1) \<or>
   replay_child sha row rnd used db = (Inr None, db) \<or>
   replay_child sha row rnd used db = (Inl unique_violation, db)"
proof (cases "ad_now db - used \<le> REFRESH_GRACE_MS")
  case True
  show ?thesis
  proof (cases "find_child_token (rr_id row) db")
    case None
    then show ?thesis by (simp add: replay_child_def eff_defs)
  next
    case (Some c)
    have e: "replay_child sha row rnd used db =
        (if live_token c then grace_rotate (rr_id row) (rt_id c) (rr_session row) (rr_user row) (sha (new_refresh_token rnd)) db
         else (Inr None, db))"
      using True Some by (simp add: replay_child_def eff_defs live_token_def)
    show ?thesis
      using grace_outcomes[of "rr_id row" "rt_id c" "rr_session row" "rr_user row" "sha (new_refresh_token rnd)" db] True Some
      unfolding e by (auto simp: replay_ok_def)
  qed
qed (simp add: replay_child_def eff_defs)

lemma already_spent_cases:
  assumes "already_spent ctx sha row user rnd used db = (res, db')"
  obtains (replayed) n db1 where "replay_ok sha row rnd used db n db1"
      "res = Inr (issued_for ctx row user rnd (ad_now db1))"
      "db' = write_auth_audit ''token_refresh_replayed'' (Some (eu_id user)) db1"
  | (theft) "res = Inl bad_grant"
      "db' = write_auth_audit ''token_reuse_detected'' (Some (rr_user row)) (revoke_session_family (rr_session row) db)"
  | (clash) "res = Inl unique_violation" "db' = db"
  using replay_child_cases[of sha row rnd used db] assms
  by (auto simp: already_spent_def and_then_def refreshed_eq end_family_eq)

definition fit_to_refresh :: "project_ctx \<Rightarrow> (string \<Rightarrow> string) \<Rightarrow> string \<Rightarrow> refresh_row \<Rightarrow> end_user \<Rightarrow> auth_db \<Rightarrow> bool" where
  "fit_to_refresh ctx sha presented row user db =
     (find_refresh_token (sha presented) db = Some row \<and> \<not> rr_revoked row \<and> rr_session_revoked row = None \<and>
      ad_now db - idle_from row \<le> ac_idle_seconds (pc_config ctx) * 1000 \<and>
      find_user_by_id (rr_user row) db = Some user \<and> \<not> banned_at (ad_now db) user)"

lemma refresh_cases:
  assumes g: "refresh_grant ctx sha over presented rnd db = (res, db')"
  obtains (refused) e where "res = Inl e" "db' = db \<or> (\<exists>a u. db' = write_auth_audit a u db)"
  | (ended) row a where "res = Inl bad_grant" "find_refresh_token (sha presented) db = Some row"
      "db' = write_auth_audit a (Some (rr_user row)) (revoke_session_family (rr_session row) db)"
  | (rotated) row user n db1 where "fit_to_refresh ctx sha presented row user db" "rr_used row = None"
      "rotate_refresh_token (rr_id row) (rr_session row) (rr_user row) (sha (new_refresh_token rnd)) db = (Inr (Some n), db1)"
      "res = Inr (issued_for ctx row user rnd (ad_now db1))"
      "db' = write_auth_audit ''token_refreshed'' (Some (eu_id user)) db1"
  | (replayed) row user used n db1 where "fit_to_refresh ctx sha presented row user db" "rr_used row = Some used"
      "replay_ok sha row rnd used db n db1" "res = Inr (issued_for ctx row user rnd (ad_now db1))"
      "db' = write_auth_audit ''token_refresh_replayed'' (Some (eu_id user)) db1"
proof -
  consider "over \<or> \<not> looks_like_refresh_token presented" | "\<not> over" "looks_like_refresh_token presented" by blast
  then show thesis
  proof cases
    case 1
    then show thesis using g refused by (auto simp: refresh_grant_def throw_def split: if_splits)
  next
    case 2
    show thesis
    proof (cases "find_refresh_token (sha presented) db")
      case None
      then show thesis using g 2 refused by (auto simp: refresh_grant_def and_then_def gets_def refuse_eq)
    next
      case (Some row)
      show thesis
      proof (cases "rr_revoked row \<or> rr_session_revoked row \<noteq> None")
        case True
        then show thesis using g 2 Some refused by (auto simp: refresh_grant_def and_then_def gets_def refuse_eq)
      next
        case ok: False
        then have g1: "refresh_row_read ctx sha presented row rnd db = (res, db')"
          using g 2 Some by (simp add: refresh_grant_def and_then_def gets_def)
        show thesis
        proof (cases "ad_now db - idle_from row > ac_idle_seconds (pc_config ctx) * 1000")
          case True
          then show thesis using g1 Some ended by (auto simp: refresh_row_read_def and_then_def gets_def end_family_eq)
        next
          case idle: False
          show thesis
          proof (cases "find_user_by_id (rr_user row) db")
            case None
            then show thesis using g1 idle Some ended by (auto simp: refresh_row_read_def and_then_def gets_def end_family_eq)
          next
            case (Some user)
            show thesis
            proof (cases "banned_at (ad_now db) user")
              case True
              then show thesis using g1 idle Some \<open>find_refresh_token (sha presented) db = Some row\<close> ended
                by (auto simp: refresh_row_read_def and_then_def gets_def end_family_eq)
            next
              case False
              have fit: "fit_to_refresh ctx sha presented row user db"
                using Some False idle ok \<open>find_refresh_token (sha presented) db = Some row\<close> by (simp add: fit_to_refresh_def)
              have g2: "refresh_judged ctx sha presented row user rnd db = (res, db')"
                using g1 idle Some False by (simp add: refresh_row_read_def and_then_def gets_def)
              show thesis
              proof (cases "rr_used row")
                case (Some used)
                then have "already_spent ctx sha row user rnd used db = (res, db')" using g2 by (simp add: refresh_judged_def)
                then show thesis
                  using fit Some replayed ended refused \<open>find_refresh_token (sha presented) db = Some row\<close>
                  by (elim already_spent_cases) blast+
              next
                case None
                let ?rot = "rotate_refresh_token (rr_id row) (rr_session row) (rr_user row) (sha (new_refresh_token rnd)) db"
                consider n db1 where "?rot = (Inr (Some n), db1)" | "?rot = (Inr None, db)" | "?rot = (Inl unique_violation, db)"
                  using rotate_outcomes by blast
                then show thesis
                proof cases
                  case 1
                  then show thesis using g2 None fit rotated
                    by (auto simp: refresh_judged_def and_then_def refreshed_eq)
                next
                  case 2
                  then have "res = Inl bad_grant \<and> db' = db"
                    using g2 None \<open>find_refresh_token (sha presented) db = Some row\<close>
                    by (auto simp: refresh_judged_def and_then_def gets_def throw_def)
                  then show thesis using refused by blast
                next
                  case 3
                  then show thesis using g2 None refused by (auto simp: refresh_judged_def and_then_def)
                qed
              qed
            qed
          qed
        qed
      qed
    qed
  qed
qed

lemma refresh_row_token:
  assumes "find_refresh_token h db = Some row"
  obtains r s where "r \<in> set (ad_tokens db)" "rt_hash r = h" "session_by_id (rt_session r) db = Some s"
    "row = \<lparr>rr_id = rt_id r, rr_user = rt_user r, rr_session = rt_session r, rr_used = rt_used r,
            rr_revoked = rt_revoked r, rr_session_revoked = as_revoked s, rr_refreshed = as_refreshed s,
            rr_created = as_created s\<rparr>"
  using assms by (auto simp: find_refresh_token_def dest!: find_SomeD split: option.splits)

text \<open>
  C6. Refreshing refines the simplest session there is: a session is the digest of one token
  (\<open>current_token\<close>) or over. In every database that concurrent requests can produce, a refresh that
  answers replaces that digest by the one it hands out, for the session its access token names and
  for no other; a refresh that refuses changes nothing or ends one session.
\<close>

theorem refresh_moves_the_one_token:
  assumes reach: "auth_reach (empty_auth up t0) db" and g: "refresh_grant ctx sha over presented rnd db = (res, db')"
  shows "case res of
     Inr (tok, _) \<Rightarrow>
       (\<exists>old. current_token db (at_session (is_access tok)) = Some old \<and>
          current_token db' = (current_token db)(at_session (is_access tok) \<mapsto> sha (is_refresh tok)))
   | Inl _ \<Rightarrow> current_token db' = current_token db \<or> (\<exists>sid. current_token db' = (current_token db)(sid := None))"
proof -
  have ok: "auth_ok db" using reach empty_auth_ok by (rule auth_reach_ok)
  from g show ?thesis
proof (cases rule: refresh_cases)
  case (refused e)
  then show ?thesis by auto
next
  case (ended row a)
  then show ?thesis by (auto simp: family_current)
next
  case (rotated row user n db1)
  obtain r s where r: "r \<in> set (ad_tokens db)" "session_by_id (rt_session r) db = Some s"
    and row: "rr_id row = rt_id r" "rr_session row = rt_session r" "rr_user row = rt_user r" "as_revoked s = None"
    using rotated(1) by (auto simp: fit_to_refresh_def elim!: refresh_row_token)
  from rotate_current[OF ok r(1) rotated(3)[unfolded row] r(2) row(4)]
  show ?thesis by (auto simp: rotated issued_for_def mint_access_token_def Let_def row)
next
  case (replayed row user used n db1)
  obtain r s where r: "r \<in> set (ad_tokens db)" "session_by_id (rt_session r) db = Some s"
    and row: "rr_id row = rt_id r" "rr_session row = rt_session r" "rr_user row = rt_user r" "as_revoked s = None"
    using replayed(1) by (auto simp: fit_to_refresh_def elim!: refresh_row_token)
  obtain c where c: "find_child_token (rr_id row) db = Some c"
    "grace_rotate (rr_id row) (rt_id c) (rr_session row) (rr_user row) (sha (new_refresh_token rnd)) db = (Inr (Some n), db1)"
    using replayed(3) by (auto simp: replay_ok_def)
  have "c \<in> set (ad_tokens db)" "rt_parent c = Some (rt_id r)"
    using find_SomeD[OF c(1)[unfolded find_child_token_def]] row by auto
  from grace_current[OF ok r(1) this c(2)[unfolded row] r(2) row(4)]
  show ?thesis by (auto simp: replayed issued_for_def mint_access_token_def Let_def row)
qed
qed

definition session_over :: "string \<Rightarrow> auth_db \<Rightarrow> bool" where
  "session_over sid db = (\<exists>s \<in> set (ad_sessions db). as_id s = sid \<and> as_revoked s \<noteq> None)"

definition in_session :: "string \<Rightarrow> string \<Rightarrow> auth_db \<Rightarrow> bool" where
  "in_session h sid db = (\<exists>r \<in> set (ad_tokens db). rt_hash r = h \<and> rt_session r = sid)"

definition keeps_sessions :: "auth_db \<Rightarrow> auth_db \<Rightarrow> bool" where
  \<comment> \<open>no session comes back to life, no token changes its digest or session\<close>
  "keeps_sessions db db' =
     ((\<forall>sid. session_over sid db \<longrightarrow> session_over sid db') \<and>
      (\<forall>h sid. in_session h sid db \<longrightarrow> in_session h sid db'))"

lemma keeps_refl: "keeps_sessions db db" and keeps_trans: "keeps_sessions a b \<Longrightarrow> keeps_sessions b c \<Longrightarrow> keeps_sessions a c"
  by (auto simp: keeps_sessions_def)

lemma keeps_same: "ad_sessions db' = ad_sessions db \<Longrightarrow> ad_tokens db' = ad_tokens db \<Longrightarrow> keeps_sessions db db'"
  by (simp add: keeps_sessions_def session_over_def in_session_def)

lemma keeps_revoke: "keeps_sessions db (revoke_sessions p db)" "keeps_sessions db (revoke_tokens q db)"
  "keeps_sessions db (bump_session sid db)"
  unfolding keeps_sessions_def session_over_def in_session_def revoke_sessions_def revoke_tokens_def bump_session_def
  by (auto intro: bex_upd_where)

lemma keeps_set_token: "f = rt_used_update (\<lambda>_. Some t) \<or> f = rt_revoked_update (\<lambda>_. True) \<Longrightarrow>
    keeps_sessions db (set_token i f db)"
  unfolding keeps_sessions_def session_over_def in_session_def set_token_def by (auto intro: bex_upd_where)

lemma keeps_insert: "keeps_sessions db (snd (insert_token h user sid par db))" "keeps_sessions db (insert_session sid user a ip db)"
  by (auto simp: keeps_sessions_def session_over_def in_session_def insert_token_def insert_session_def)

lemma keeps_rotate: "keeps_sessions db (snd (rotate_refresh_token tid sid user child db))"
proof -
  let ?d = "set_token tid (rt_used_update (\<lambda>_. Some (ad_now db))) db"
  have "keeps_sessions db (snd (insert_token child user sid (Some tid) ?d))"
    by (rule keeps_trans[OF keeps_set_token keeps_insert(1)]) blast
  then show ?thesis
    by (auto simp: rotate_unfold keeps_refl split: prod.splits sum.splits intro: keeps_trans[OF _ keeps_revoke(3)])
qed

lemma keeps_grace: "keeps_sessions db (snd (grace_rotate par old sid user child db))"
proof -
  let ?d = "set_token old (rt_revoked_update (\<lambda>_. True)) db"
  have "keeps_sessions db (snd (insert_token child user sid (Some par) ?d))"
    by (rule keeps_trans[OF keeps_set_token keeps_insert(1)]) blast
  then show ?thesis
    by (auto simp: grace_unfold keeps_refl split: prod.splits sum.splits intro: keeps_trans[OF _ keeps_revoke(3)])
qed

lemma keeps_open: "keeps_sessions db (snd (open_session sid user h a ip db))"
  using keeps_trans[OF keeps_insert(2) keeps_insert(1), of db h user sid None sid user a ip]
  by (auto simp: open_unfold keeps_refl split: prod.splits sum.splits)

lemma keeps_revoke_both: "keeps_sessions db (revoke_tokens q (revoke_sessions p db))"
  by (rule keeps_trans[OF keeps_revoke(1) keeps_revoke(2)])

lemma auth_step_keeps: "auth_step db db' \<Longrightarrow> keeps_sessions db db'"
proof (induction rule: auth_step.induct)
  case (step_delete db i)
  have "keeps_sessions db (revoke_tokens q (revoke_sessions p (set_user i f db)))" for p q f
    by (rule keeps_trans[OF keeps_same keeps_revoke_both]) (simp_all add: set_user_def)
  from keeps_trans[OF this keeps_same]
  have "keeps_sessions db ((revoke_tokens q (revoke_sessions p (set_user i f db)))\<lparr>ad_links := l\<rparr>)" for p q f l
    by simp
  then show ?case by (simp add: soft_delete_user_def Let_def keeps_refl split: option.splits)
qed (simp_all add: keeps_rotate keeps_grace keeps_open keeps_revoke keeps_revoke_both keeps_same set_user_def
     create_user_def Let_def update_password_hash_def mark_signed_in_def mark_email_confirmed_def
     update_user_metadata_def apply_email_change_def admin_update_user_def write_auth_audit_def issue_one_time_def
     consume_either_def clear_email_change_tokens_def revoke_session_family_def revoke_user_sessions_def
     revoke_own_mark_def revoke_own_tokens_def split: option.splits)

lemma auth_reach_keeps: "auth_reach db db' \<Longrightarrow> keeps_sessions db db'"
  unfolding auth_reach_def
  by (induction rule: rtranclp_induct) (auto intro: keeps_refl keeps_trans auth_step_keeps)

lemma find_by_hash:
  assumes "auth_ok db" "r \<in> set (ad_tokens db)"
  shows "List.find (\<lambda>x. rt_hash x = rt_hash r) (ad_tokens db) = Some r"
  using assms by (intro find_key) (auto simp: auth_ok_def tokens_ok_def)

lemma over_refuses:
  assumes ok: "auth_ok db" and h: "in_session (sha presented) sid db" and o: "session_over sid db"
    and g: "refresh_grant ctx sha over presented rnd db = (res, db')"
  shows "(\<exists>e. res = Inl e) \<and> current_token db' = current_token db"
proof -
  obtain r where r: "r \<in> set (ad_tokens db)" "rt_hash r = sha presented" "rt_session r = sid"
    using h by (auto simp: in_session_def)
  obtain s where s: "s \<in> set (ad_sessions db)" "as_id s = sid" "as_revoked s \<noteq> None"
    using o by (auto simp: session_over_def)
  have sb: "session_by_id sid db = Some s"
    unfolding session_by_id_def using find_key[of as_id "ad_sessions db" s] ok s by (simp add: auth_ok_def sessions_ok_def)
  have f: "find_refresh_token (sha presented) db = Some \<lparr>rr_id = rt_id r, rr_user = rt_user r, rr_session = rt_session r,
      rr_used = rt_used r, rr_revoked = rt_revoked r, rr_session_revoked = as_revoked s, rr_refreshed = as_refreshed s,
      rr_created = as_created s\<rparr>"
    using find_by_hash[OF ok r(1)] r sb by (simp add: find_refresh_token_def)
  show ?thesis
    using g s(3) by (auto simp: refresh_grant_def and_then_def gets_def f refuse_eq throw_def split: if_splits)
qed

text \<open>
  A session that is over (sign-out, theft, ban, deletion) stays over whatever requests follow: every
  token ever issued in it is refused, refusing changes no session, no token of it is current, and it is not live
  for a bearer.
\<close>

theorem ended_session_stays_ended:
  assumes "auth_reach (empty_auth up t0) db" "session_over sid db" "auth_reach db db1"
    "in_session (sha presented) sid db1"
  shows "(\<exists>e. fst (refresh_grant ctx sha over presented rnd db1) = Inl e) \<and>
    current_token (snd (refresh_grant ctx sha over presented rnd db1)) = current_token db1 \<and>
    current_token db1 sid = None \<and> \<not> live_session sid user db1"
proof -
  have ok: "auth_ok db1" using assms(1,3) empty_auth_ok auth_reach_ok by blast
  have o: "session_over sid db1" using auth_reach_keeps[OF assms(3)] assms(2) by (simp add: keeps_sessions_def)
  obtain s where s: "s \<in> set (ad_sessions db1)" "as_id s = sid" "as_revoked s \<noteq> None"
    using o by (auto simp: session_over_def)
  have d: "distinct (map as_id (ad_sessions db1))" using ok by (simp add: auth_ok_def sessions_ok_def)
  have sb: "session_by_id sid db1 = Some s"
    unfolding session_by_id_def using find_key[OF d s(1)] s(2) by simp
  have "\<not> live_session sid user db1"
  proof
    assume "live_session sid user db1"
    then obtain x where x: "x \<in> set (ad_sessions db1)" "as_id x = sid" "as_revoked x = None"
      by (auto simp: live_session_def)
    then have "s = x" using unique_key[OF d s(1) x(1)] s(2) by simp
    then show False using s(3) x(3) by simp
  qed
  moreover have "current_token db1 sid = None" using sb s(3) by (simp add: current_token_def)
  moreover obtain res db2 where "refresh_grant ctx sha over presented rnd db1 = (res, db2)" by fastforce
  ultimately show ?thesis using over_refuses[of db1 sha presented sid ctx over rnd] ok assms(4) o by simp
qed

text \<open>
  Theft detection: a token presented more than the grace window after it was spent is refused, its
  session is over, and every token of the session is revoked.
\<close>

theorem late_replay_ends_the_session:
  assumes reach: "auth_reach (empty_auth up t0) db"
    and f: "find_refresh_token (sha presented) db = Some row" "\<not> rr_revoked row" "rr_session_revoked row = None"
      "rr_used row = Some used"
    and late: "ad_now db - used > REFRESH_GRACE_MS" and shape: "looks_like_refresh_token presented"
  shows "fst (refresh_grant ctx sha False presented rnd db) = Inl bad_grant \<and>
    session_over (rr_session row) (snd (refresh_grant ctx sha False presented rnd db)) \<and>
    (\<forall>r \<in> set (ad_tokens (snd (refresh_grant ctx sha False presented rnd db))).
       rt_session r = rr_session row \<longrightarrow> rt_revoked r)"
proof -
  obtain res db' where g: "refresh_grant ctx sha False presented rnd db = (res, db')" by fastforce
  obtain r s where r: "r \<in> set (ad_tokens db)" "session_by_id (rt_session r) db = Some s" "rr_session row = rt_session r"
    using f(1) by (auto elim!: refresh_row_token)
  have s: "s \<in> set (ad_sessions db)" "as_id s = rr_session row"
    using find_SomeD[OF r(2)[unfolded session_by_id_def]] r(3) by auto
  have dead: "session_over (rr_session row) (revoke_session_family (rr_session row) db)"
    unfolding session_over_def revoke_session_family_def revoke_tokens_def revoke_sessions_def
    by (auto simp: s(2) intro!: bex_upd_where[OF s(1)])
  have toks: "\<forall>x \<in> set (ad_tokens (revoke_session_family (rr_session row) db)). rt_session x = rr_session row \<longrightarrow> rt_revoked x"
    by (auto simp: revoke_session_family_def revoke_tokens_def revoke_sessions_def upd_where_set)
  have spent: "already_spent ctx sha row user rnd used db =
      (Inl bad_grant, write_auth_audit ''token_reuse_detected'' (Some (rr_user row)) (revoke_session_family (rr_session row) db))" for user
    using late by (simp add: already_spent_def replay_child_def and_then_def gets_def ret_def end_family_eq)
  have "\<exists>a. (res, db') = (Inl bad_grant, write_auth_audit a (Some (rr_user row)) (revoke_session_family (rr_session row) db))"
    using g f shape
    by (auto simp: refresh_grant_def refresh_row_read_def refresh_judged_def and_then_def gets_def end_family_eq spent
        split: if_splits option.splits)
  then show ?thesis using g dead toks by (auto simp: session_over_def)
qed

lemma replayed_row:
  assumes ok: "auth_ok db" and f: "find_refresh_token (sha presented) db = Some row" "rr_used row = Some used"
    and rep: "replay_ok sha row rnd used db n db1"
  shows "\<exists>row1. find_refresh_token (sha presented) db1 = Some row1 \<and> rr_used row1 = Some used \<and>
    rr_revoked row1 = rr_revoked row \<and> rr_session_revoked row1 = rr_session_revoked row \<and> rr_id row1 = rr_id row \<and>
    rr_session row1 = rr_session row \<and> (\<exists>c. find_child_token (rr_id row) db1 = Some c \<and> rt_revoked c)"
proof -
  obtain r s where r: "r \<in> set (ad_tokens db)" "rt_hash r = sha presented" "session_by_id (rt_session r) db = Some s"
    and row: "row = \<lparr>rr_id = rt_id r, rr_user = rt_user r, rr_session = rt_session r, rr_used = rt_used r,
            rr_revoked = rt_revoked r, rr_session_revoked = as_revoked s, rr_refreshed = as_refreshed s,
            rr_created = as_created s\<rparr>"
    using f(1) by (elim refresh_row_token)
  obtain c where c: "find_child_token (rt_id r) db = Some c" "live_token c"
    and g: "grace_rotate (rt_id r) (rt_id c) (rt_session r) (rt_user r) (sha (new_refresh_token rnd)) db = (Inr (Some n), db1)"
    using rep row by (auto simp: replay_ok_def)
  let ?f = "rt_revoked_update (\<lambda>_. True)"
  let ?p = "\<lambda>x. rt_id x = rt_id c \<and> live_token x"
  obtain new where t: "ad_tokens db1 = upd_where ?p ?f (ad_tokens db) @ [new]"
    and s1: "ad_sessions db1 = ad_sessions (bump_session (rt_session r) db)" and nh: "sha (new_refresh_token rnd) \<notin> rt_hash ` set (upd_where ?p ?f (ad_tokens db))"
    using g insert_token_cases[of "set_token (rt_id c) ?f db" "sha (new_refresh_token rnd)" "rt_user r" "rt_session r" "Some (rt_id r)"]
    by (auto simp: grace_unfold set_token_def bump_session_def split: if_splits prod.splits sum.splits)
  have not_c: "\<not> ?p r" using same_token[OF ok r(1)] f(2) row by (auto simp: live_token_def)
  have "List.find (\<lambda>x. rt_hash x = sha presented) (ad_tokens db1) = Some (if ?p r then ?f r else r)"
    using find_by_hash[OF ok r(1)] r(2) by (simp add: t find_append find_upd_where del: if_split)
  then have "List.find (\<lambda>x. rt_hash x = sha presented) (ad_tokens db1) = Some r"
    by (simp only: if_not_P[OF not_c])
  moreover have "session_by_id (rt_session r) db1 = map_option (\<lambda>s. if as_id s = rt_session r then s\<lparr>as_refreshed := Some (ad_now db)\<rparr> else s) (Some s)"
    using r(3) session_bump[of "rt_session r" "rt_session r" db] by (simp add: session_by_id_def s1)
  moreover have "find_child_token (rt_id r) db1 = Some (?f c)"
    using c find_SomeD[OF c(1)[unfolded find_child_token_def]]
    by (simp add: find_child_token_def t find_append find_upd_where)
  ultimately show ?thesis using f(2) by (auto simp: find_refresh_token_def row)
qed

lemma replayed_refresh:
  assumes f: "find_refresh_token (sha presented) db = Some row" "rr_used row = Some used"
    and g: "refresh_grant ctx sha over presented rnd db = (Inr answer, db')"
  obtains user n db0 where "replay_ok sha row rnd used db n db0" "fit_to_refresh ctx sha presented row user db"
    "ad_tokens db' = ad_tokens db0" "ad_sessions db' = ad_sessions db0"
  using g
proof (cases rule: refresh_cases)
  case (rotated row' user n db1)
  from rotated(1,2) f have False by (simp add: fit_to_refresh_def)
  then show thesis ..
next
  case (replayed row' user used' n db1)
  from replayed(1,2) f have "row' = row" "used' = used" by (simp_all add: fit_to_refresh_def)
  with replayed show thesis using that[of n db1 user] by simp
qed simp_all

text \<open>
  A client whose retry inside the grace window was answered, and which retries once more, is treated
  as a thief at any later time, one millisecond included: the child looked up is the first one, which the
  first retry revoked, so the family dies.
\<close>

theorem second_retry_is_called_theft:
  assumes reach: "auth_reach (empty_auth up t0) db"
    and f: "find_refresh_token (sha presented) db = Some row" "rr_used row = Some used"
    and once: "refresh_grant ctx sha False presented rnd db = (Inr answer, db1)"
  shows "fst (refresh_grant ctx sha False presented rnd2 (db1\<lparr>ad_now := t\<rparr>)) = Inl bad_grant \<and>
    current_token (snd (refresh_grant ctx sha False presented rnd2 (db1\<lparr>ad_now := t\<rparr>))) (rr_session row) = None"
proof -
  have ok: "auth_ok db" using reach empty_auth_ok by (rule auth_reach_ok)
  let ?d = "db1\<lparr>ad_now := t\<rparr>"
  obtain row1 c where row1: "find_refresh_token (sha presented) ?d = Some row1" "rr_used row1 = Some used" "\<not> rr_revoked row1"
    "rr_session_revoked row1 = None" "rr_id row1 = rr_id row" "rr_session row1 = rr_session row"
    and c: "find_child_token (rr_id row) ?d = Some c" "rt_revoked c" and shape: "looks_like_refresh_token presented"
  proof -
    from once obtain user n db0 where rep: "replay_ok sha row rnd used db n db0"
      and fit: "fit_to_refresh ctx sha presented row user db" and d: "ad_tokens db1 = ad_tokens db0" "ad_sessions db1 = ad_sessions db0"
      by (rule replayed_refresh[where sha = sha and presented = presented, OF f])
    have sh: "looks_like_refresh_token presented" using once by (auto simp: refresh_grant_def throw_def split: if_splits)
    have same: "find_refresh_token h ?d = find_refresh_token h db0" "find_child_token i ?d = find_child_token i db0" for h i
    proof -
      have sb: "session_by_id x ?d = session_by_id x db0" for x by (simp add: session_by_id_def d)
      show "find_refresh_token h ?d = find_refresh_token h db0" "find_child_token i ?d = find_child_token i db0"
        by (simp_all add: find_refresh_token_def find_child_token_def sb d split: option.split)
    qed
    from replayed_row[where sha = sha and presented = presented, OF ok f rep] fit show thesis using that sh unfolding same by (auto simp: fit_to_refresh_def)
  qed
  have spent: "already_spent ctx sha row1 user rnd2 used ?d =
      (Inl bad_grant, write_auth_audit ''token_reuse_detected'' (Some (rr_user row1)) (revoke_session_family (rr_session row) ?d))" for user
    using c row1 by (auto simp: already_spent_def replay_child_def and_then_def gets_def ret_def end_family_eq)
  have "\<exists>a. refresh_grant ctx sha False presented rnd2 ?d =
      (Inl bad_grant, write_auth_audit a (Some (rr_user row1)) (revoke_session_family (rr_session row) ?d))"
    using row1 shape
    by (auto simp: refresh_grant_def refresh_row_read_def refresh_judged_def and_then_def gets_def end_family_eq spent
        split: if_splits option.splits)
  then show ?thesis by (auto simp: family_current)
qed


subsection \<open>A session, step by step\<close>

definition sample_user :: create_user_args where
  "sample_user = \<lparr>cu_email = ''a@b.c'', cu_hash = Some ''h'', cu_confirmed = True, cu_meta = []\<rparr>"

definition sample_ctx :: project_ctx where
  "sample_ctx = \<lparr>pc_id = ''p1'', pc_ref = ''ref'', pc_role = Key_anon, pc_issuer = ''iss'', pc_config = AUTH_CONFIG_DEFAULTS\<rparr>"

definition rnd_of :: "char \<Rightarrow> string" where
  "rnd_of c = replicate 43 c"

definition signed_in :: auth_db where
  "signed_in = snd (open_session ''s1'' ''u1'' (new_refresh_token (rnd_of CHR ''1'')) None None
     (snd (create_user ''u1'' sample_user (empty_auth True 1000))))"

definition refreshed_once :: auth_db where
  "refreshed_once = snd (rotate_refresh_token 1 ''s1'' ''u1'' (new_refresh_token (rnd_of CHR ''2'')) (signed_in\<lparr>ad_now := 5000\<rparr>))"

definition sample_row :: "nat \<Rightarrow> char \<Rightarrow> nat option \<Rightarrow> nat option \<Rightarrow> bool \<Rightarrow> refresh_token" where
  "sample_row i c parent used revoked =
     \<lparr>rt_id = i, rt_hash = new_refresh_token (rnd_of c), rt_user = ''u1'', rt_session = ''s1'', rt_parent = parent,
      rt_used = used, rt_revoked = revoked\<rparr>"

lemma rnd_of_simps [simp]: "new_refresh_token (rnd_of c) = new_refresh_token (rnd_of d) \<longleftrightarrow> c = d"
  "looks_like_refresh_token (new_refresh_token (rnd_of c))"
  by (simp_all add: new_refresh_token_def rnd_of_def looks_like_refresh_token_def REFRESH_PREFIX_def)

definition sample_end_user :: end_user where
  "sample_end_user = \<lparr>eu_id = ''u1'', eu_email = Some ''a@b.c'', eu_hash = Some ''h'', eu_confirmed = Some 1000,
     eu_banned = None, eu_meta = [], eu_app_meta = [], eu_created = 1000, eu_signed_in = None, eu_deleted = None\<rparr>"

definition sample_session :: "nat \<Rightarrow> nat option \<Rightarrow> auth_session" where
  "sample_session t revoked = \<lparr>as_id = ''s1'', as_user = ''u1'', as_created = 1000, as_refreshed = Some t,
     as_agent = None, as_ip = None, as_revoked = revoked\<rparr>"

lemmas sample_rows = sample_row_def sample_end_user_def sample_session_def

lemma signed_in_eq:
  "signed_in = \<lparr>ad_users = [sample_end_user], ad_sessions = [sample_session 1000 None],
     ad_tokens = [sample_row 1 CHR ''1'' None None False], ad_links = [], ad_audit = [], ad_audit_up = True,
     ad_next = 2, ad_now = 1000\<rparr>"
  by (simp add: signed_in_def open_unfold create_user_def Let_def empty_auth_def insert_token_def insert_session_def
      sample_rows sample_user_def has_email_def)

lemma refreshed_once_eq:
  "refreshed_once = \<lparr>ad_users = [sample_end_user], ad_sessions = [sample_session 5000 None],
     ad_tokens = [sample_row 1 CHR ''1'' None (Some 5000) False, sample_row 2 CHR ''2'' (Some 1) None False],
     ad_links = [], ad_audit = [], ad_audit_up = True, ad_next = 3, ad_now = 5000\<rparr>"
  by (simp add: refreshed_once_def signed_in_eq rotate_unfold has_live_token_def live_token_def insert_token_def
      set_token_def bump_session_def sample_rows)

lemma signed_in_reach: "auth_reach (empty_auth True 1000) signed_in"
proof -
  let ?d = "snd (create_user ''u1'' sample_user (empty_auth True 1000))"
  have "auth_step (empty_auth True 1000) ?d" by (rule step_create) (simp add: empty_auth_def)
  moreover have "auth_step ?d signed_in"
    unfolding signed_in_def by (rule step_open) (simp_all add: create_user_def empty_auth_def Let_def sample_user_def)
  ultimately show ?thesis unfolding auth_reach_def by (meson r_into_rtranclp rtranclp.rtrancl_into_rtrancl)
qed

lemma clock_reach: "auth_reach a db \<Longrightarrow> ad_now db \<le> t \<Longrightarrow> auth_reach a (db\<lparr>ad_now := t\<rparr>)"
  unfolding auth_reach_def by (rule rtranclp.rtrancl_into_rtrancl, assumption, rule step_clock)

lemma refreshed_once_reach: "auth_reach (empty_auth True 1000) refreshed_once"
proof -
  let ?d = "signed_in\<lparr>ad_now := 5000\<rparr>"
  have "auth_reach (empty_auth True 1000) ?d" by (rule clock_reach[OF signed_in_reach]) (simp add: signed_in_eq)
  moreover have "auth_step ?d refreshed_once"
    using step_rotate[of "sample_row 1 CHR ''1'' None None False" ?d "new_refresh_token (rnd_of CHR ''2'')"]
    by (simp add: refreshed_once_def signed_in_eq sample_row_def)
  ultimately show ?thesis unfolding auth_reach_def by (rule rtranclp.rtrancl_into_rtrancl)
qed

lemma sample_refresh:
  "refresh_grant sample_ctx (\<lambda>x. x) False (new_refresh_token (rnd_of CHR ''1'')) (rnd_of CHR ''3'') refreshed_once =
     (Inr (issued_for sample_ctx (the (find_refresh_token (new_refresh_token (rnd_of CHR ''1'')) refreshed_once))
        sample_end_user (rnd_of CHR ''3'') 5000),
      refreshed_once\<lparr>ad_tokens := [sample_row 1 CHR ''1'' None (Some 5000) False, sample_row 2 CHR ''2'' (Some 1) None True,
         sample_row 3 CHR ''3'' (Some 1) None False], ad_next := 4,
         ad_audit := [(Some ''u1'', ''token_refresh_replayed'')]\<rparr>)"
  by (simp add: refresh_grant_def refresh_row_read_def refresh_judged_def already_spent_def replay_child_def and_then_def
      gets_def find_refresh_token_def session_by_id_def refreshed_once_eq sample_rows idle_from_def sample_ctx_def
      AUTH_CONFIG_DEFAULTS_def find_user_by_id_def live_user_def banned_at_def REFRESH_GRACE_MS_def find_child_token_def
      grace_unfold has_live_token_def live_token_def insert_token_def set_token_def bump_session_def refreshed_eq
      write_auth_audit_def)

theorem refresh_moves_the_one_token_witness:
  "\<exists>old. current_token refreshed_once ''s1'' = Some old"
proof -
  from refresh_moves_the_one_token[OF refreshed_once_reach sample_refresh]
  show ?thesis by (simp add: issued_for_def mint_access_token_def Let_def find_refresh_token_def session_by_id_def
        refreshed_once_eq sample_rows)
qed


theorem second_retry_is_called_theft_witness:
  "\<exists>db1 answer. refresh_grant sample_ctx (\<lambda>x. x) False (new_refresh_token (rnd_of CHR ''1'')) (rnd_of CHR ''3'') refreshed_once
       = (Inr answer, db1) \<and>
     fst (refresh_grant sample_ctx (\<lambda>x. x) False (new_refresh_token (rnd_of CHR ''1'')) (rnd_of CHR ''4'') (db1\<lparr>ad_now := 5001\<rparr>))
       = Inl bad_grant"
proof -
  have f: "find_refresh_token (new_refresh_token (rnd_of CHR ''1'')) refreshed_once =
      Some \<lparr>rr_id = 1, rr_user = ''u1'', rr_session = ''s1'', rr_used = Some 5000, rr_revoked = False,
            rr_session_revoked = None, rr_refreshed = Some 5000, rr_created = 1000\<rparr>"
    by (simp add: find_refresh_token_def session_by_id_def refreshed_once_eq sample_rows)
  from second_retry_is_called_theft[where sha = "\<lambda>x. x", OF refreshed_once_reach f _ sample_refresh, of 5000 "rnd_of CHR ''4''" 5001]
  show ?thesis using sample_refresh by auto
qed

definition late_replay :: auth_db where
  "late_replay = refreshed_once\<lparr>ad_now := 15001\<rparr>"

lemma late_replay_reach: "auth_reach (empty_auth True 1000) late_replay"
  unfolding late_replay_def by (rule clock_reach[OF refreshed_once_reach]) (simp add: refreshed_once_eq)

theorem late_replay_ends_the_session_witness:
  "session_over ''s1'' (snd (refresh_grant sample_ctx (\<lambda>x. x) False (new_refresh_token (rnd_of CHR ''1'')) (rnd_of CHR ''3'') late_replay))"
proof -
  have f: "find_refresh_token (new_refresh_token (rnd_of CHR ''1'')) late_replay =
      Some \<lparr>rr_id = 1, rr_user = ''u1'', rr_session = ''s1'', rr_used = Some 5000, rr_revoked = False,
            rr_session_revoked = None, rr_refreshed = Some 5000, rr_created = 1000\<rparr>"
    by (simp add: find_refresh_token_def session_by_id_def refreshed_once_eq late_replay_def sample_rows)
  from late_replay_ends_the_session[where sha = "\<lambda>x. x", OF late_replay_reach f, of 5000 sample_ctx "rnd_of CHR ''3''"]
  show ?thesis by (simp add: REFRESH_GRACE_MS_def late_replay_def refreshed_once_eq)
qed

theorem ended_session_stays_ended_witness:
  "\<not> live_session ''s1'' ''u1'' (revoke_session_family ''s1'' late_replay)"
proof -
  let ?d = "revoke_session_family ''s1'' late_replay"
  have "auth_reach (empty_auth True 1000) ?d"
    using late_replay_reach unfolding auth_reach_def by (rule rtranclp.rtrancl_into_rtrancl) (rule step_family)
  moreover have "session_over ''s1'' ?d"
    by (simp add: session_over_def revoke_session_family_def revoke_tokens_def revoke_sessions_def late_replay_def
        refreshed_once_eq sample_rows)
  moreover have "in_session (new_refresh_token (rnd_of CHR ''2'')) ''s1'' ?d"
    by (simp add: in_session_def revoke_session_family_def revoke_tokens_def revoke_sessions_def late_replay_def
        refreshed_once_eq sample_rows)
  moreover have "auth_reach ?d ?d" by (simp add: auth_reach_def)
  ultimately show ?thesis using ended_session_stays_ended[where sha = "\<lambda>x. x"] by blast
qed

end
