(* ===== verification/EndFlows.thy ===== *)
theory EndFlows
  imports EndAuth Ids
begin

text \<open>
  The flows of \<open>services/api/src/modules/project-auth/routes.ts\<close> that touch one-time links, mail and
  the account itself: sign-up, verification, recovery, the email change, \<open>PUT /user\<close> and the
  developer's \<open>/admin/users\<close>. A handler runs over \<open>auth_world\<close>, the project's database beside the
  mail pipeline. What every handler takes from its surroundings is \<open>auth_env\<close>. A link in a mail is
  the token it carries; templates are not modelled.
\<close>

record 'q auth_env =
  en_ctx :: project_ctx
  en_sha :: "string \<Rightarrow> string"
  en_passwords :: passwords
  en_parse :: "string \<Rightarrow> url_parts option"
  en_queue :: "'q queue_ops"

record 'q auth_world =
  aw_db :: auth_db
  aw_mail :: "'q mail_world"

type_synonym ('q, 'a) flow = "('q auth_world, auth_error, 'a) eff"

definition on_db :: "'a auth_eff \<Rightarrow> ('q, 'a) flow" where
  "on_db m w = (case m (aw_db w) of (r, db) \<Rightarrow> (r, w\<lparr>aw_db := db\<rparr>))"

definition send_mail :: "'q auth_env \<Rightarrow> mail_job \<Rightarrow> ('q, unit) flow" where
  "send_mail E job = modifies (\<lambda>w. w\<lparr>aw_mail := mailer_enqueue (en_sha E) (en_queue E) job (aw_mail w)\<rparr>)"

definition config_of :: "'q auth_env \<Rightarrow> auth_config" where
  "config_of E = pc_config (en_ctx E)"

definition redirect_of :: "'q auth_env \<Rightarrow> string option \<Rightarrow> string option \<times> bool" where
  "redirect_of E = resolve_redirect (en_parse E) (ac_redirects (config_of E))"

definition audit_substituted :: "'q auth_env \<Rightarrow> string option \<Rightarrow> string option \<Rightarrow> unit auth_eff" where
  "audit_substituted E redirect_to user =
     (if snd (redirect_of E redirect_to) then audited ''redirect_not_allowlisted'' user else ret ())"

definition state_op :: "(auth_db \<Rightarrow> 'a \<times> auth_db) \<Rightarrow> 'a auth_eff" where
  "state_op f db = (case f db of (a, db') \<Rightarrow> (Inr a, db'))"

subsection \<open>Verification\<close>

fun verify_type :: "string \<Rightarrow> token_type option" where
  "verify_type t =
     (if t = ''signup'' \<or> t = ''confirmation'' then Some Confirmation
      else if t = ''recovery'' then Some Recovery
      else if t = ''magiclink'' \<or> t = ''magic_link'' then Some MagicLink
      else None)"

fun type_name :: "token_type \<Rightarrow> string" where
  "type_name Confirmation = ''confirmation''"
| "type_name Recovery = ''recovery''"
| "type_name EmailChangeCurrent = ''email_change_current''"
| "type_name EmailChangeNew = ''email_change_new''"
| "type_name MagicLink = ''magic_link''"

definition verified :: "'q auth_env \<Rightarrow> token_type \<Rightarrow> end_user \<Rightarrow> client_meta \<Rightarrow> string \<Rightarrow> string
    \<Rightarrow> (issued \<times> public_user) auth_eff" where
  "verified E t user meta sid rnd =
     and_then (modifies (mark_email_confirmed (eu_id user))) (\<lambda>_.
     and_then (issue_session (en_ctx E) (en_sha E) sid rnd (eu_id user) (eu_email user) meta
         (if t = Recovery then [''recovery''] else [])) (\<lambda>s.
     and_then (modifies (mark_signed_in (eu_id user))) (\<lambda>_.
     and_then (audited (''verify_'' @ type_name t) (Some (eu_id user))) (\<lambda>_.
     and_then (gets (find_user_by_id (eu_id user))) (\<lambda>fresh.
       ret (s, publicUser (case fresh of Some u \<Rightarrow> u | None \<Rightarrow> user)))))))"

definition do_verify :: "'q auth_env \<Rightarrow> bool \<Rightarrow> string \<Rightarrow> string \<Rightarrow> string option \<Rightarrow> client_meta \<Rightarrow> string \<Rightarrow> string
    \<Rightarrow> ((issued \<times> public_user) option \<times> string option) auth_eff" where
  \<comment> \<open>nothing issued, or a session, and where to send the browser\<close>
  "do_verify E over token type_param redirect_to meta sid rnd =
     (if over then throw too_many
      else (let redirect = fst (redirect_of E redirect_to) in
        case verify_type type_param of
          None \<Rightarrow> ret (None, redirect)
        | Some t \<Rightarrow>
            and_then (audit_substituted E redirect_to None) (\<lambda>_.
            and_then (state_op (consume_one_time t (en_sha E token))) (\<lambda>consumed.
              (case consumed of
                 None \<Rightarrow> and_then (audited (''verify_failed_'' @ type_name t) None) (\<lambda>_. ret (None, redirect))
               | Some k \<Rightarrow>
                   and_then (gets (find_user_by_id (ot_user k))) (\<lambda>u.
                     (case u of
                        None \<Rightarrow> and_then (audited (''verify_failed_'' @ type_name t) None) (\<lambda>_. ret (None, redirect))
                      | Some user \<Rightarrow>
                          and_then (verified E t user meta sid rnd) (\<lambda>s. ret (Some s, redirect)))))))))"

definition verify_post :: "'q auth_env \<Rightarrow> bool \<Rightarrow> string \<Rightarrow> string \<Rightarrow> client_meta \<Rightarrow> string \<Rightarrow> string
    \<Rightarrow> (issued \<times> public_user) auth_eff" where
  "verify_post E over token type_param meta sid rnd =
     and_then (do_verify E over token type_param None meta sid rnd) (\<lambda>(out, _).
       (case out of None \<Rightarrow> throw (AuthError 401 A_INVALID_TOKEN) | Some s \<Rightarrow> ret s))"

datatype change_state = Change_applied | Change_pending | Change_conflict | Change_invalid

definition other_side :: "token_type \<Rightarrow> token_type" where
  "other_side t = (if t = EmailChangeNew then EmailChangeCurrent else EmailChangeNew)"

definition change_email :: "string \<Rightarrow> string \<Rightarrow> change_state auth_eff" where
  \<comment> \<open>apply, or report the conflict; the links go either way\<close>
  "change_email user email =
     and_then (state_op (apply_email_change user email)) (\<lambda>applied.
     and_then (modifies (clear_email_change_tokens user)) (\<lambda>_.
       if \<not> applied
       then and_then (audited ''email_change_conflict'' (Some user)) (\<lambda>_. ret Change_conflict)
       else and_then (state_op (revoke_user_sessions user ScopeGlobal ''00000000-0000-0000-0000-000000000000'')) (\<lambda>_.
            and_then (audited ''email_changed'' (Some user)) (\<lambda>_. ret Change_applied))))"

definition verify_email_change :: "'q auth_env \<Rightarrow> bool \<Rightarrow> string \<Rightarrow> change_state auth_eff" where
  "verify_email_change E over token =
     (if over then throw too_many
      else and_then (state_op (consume_either [EmailChangeCurrent, EmailChangeNew] (en_sha E token))) (\<lambda>consumed.
        (case consumed of
           None \<Rightarrow> and_then (audited ''verify_failed_email_change'' None) (\<lambda>_. ret Change_invalid)
         | Some k \<Rightarrow>
             (case ot_relates k of
                None \<Rightarrow> and_then (audited ''verify_failed_email_change'' None) (\<lambda>_. ret Change_invalid)
              | Some email \<Rightarrow>
                  if email = [] then and_then (audited ''verify_failed_email_change'' None) (\<lambda>_. ret Change_invalid)
                  else and_then (gets (sibling_consumed (ot_user k) (other_side (ot_type k)))) (\<lambda>sibling.
                       if ac_double (config_of E) \<and> \<not> sibling
                       then and_then (audited ''email_change_half_confirmed'' (Some (ot_user k))) (\<lambda>_.
                              ret Change_pending)
                       else change_email (ot_user k) email)))))"

subsection \<open>Mail flows\<close>

definition mail_of :: "'q auth_env \<Rightarrow> string \<Rightarrow> auth_email \<Rightarrow> string \<Rightarrow> string option \<Rightarrow> mail_job" where
  "mail_of E delivery kind recipient link =
     \<lparr>mj_delivery = delivery, mj_project = pc_id (en_ctx E), mj_email = kind, mj_to = recipient, mj_link = link\<rparr>"

definition issue_link :: "'q auth_env \<Rightarrow> string \<Rightarrow> string \<Rightarrow> token_type \<Rightarrow> string \<Rightarrow> string option \<Rightarrow> nat auth_eff" where
  "issue_link E i user t token relates = state_op (issue_one_time i user t (en_sha E token) relates)"

definition recover :: "'q auth_env \<Rightarrow> bool \<Rightarrow> string \<Rightarrow> string option \<Rightarrow> string \<Rightarrow> string \<Rightarrow> ('q, unit) flow" where
  "recover E over email redirect_to i token =
     (if over then throw too_many
      else and_then (gets (\<lambda>w. find_user_by_email email (aw_db w))) (\<lambda>u.
        (case u of
           None \<Rightarrow> on_db (audited ''recover_unknown_email'' None)
         | Some user \<Rightarrow>
             and_then (on_db (issue_link E i (eu_id user) Recovery token None)) (\<lambda>_.
             and_then (on_db (audit_substituted E redirect_to (Some (eu_id user)))) (\<lambda>_.
             and_then (send_mail E (mail_of E (''recovery_'' @ eu_id user) Mail_recovery email (Some token))) (\<lambda>_.
               on_db (audited ''recover_requested'' (Some (eu_id user)))))))))"

definition send_confirmation :: "'q auth_env \<Rightarrow> end_user \<Rightarrow> string option \<Rightarrow> string \<Rightarrow> string \<Rightarrow> ('q, unit) flow" where
  "send_confirmation E user redirect_to i token =
     and_then (on_db (issue_link E i (eu_id user) Confirmation token None)) (\<lambda>_.
     and_then (on_db (audit_substituted E redirect_to (Some (eu_id user)))) (\<lambda>_.
       send_mail E (mail_of E (''confirmation_'' @ eu_id user) Mail_confirmation
         (case eu_email user of Some e \<Rightarrow> e | None \<Rightarrow> []) (Some token))))"

definition resend :: "'q auth_env \<Rightarrow> bool \<Rightarrow> string \<Rightarrow> string option \<Rightarrow> string \<Rightarrow> string \<Rightarrow> ('q, unit) flow" where
  "resend E over email redirect_to i token =
     (if over then throw too_many
      else and_then (gets (\<lambda>w. find_user_by_email email (aw_db w))) (\<lambda>u.
        (case u of
           None \<Rightarrow> on_db (audited ''resend_unknown_email'' None)
         | Some user \<Rightarrow>
             if eu_confirmed user \<noteq> None
             then on_db (audited ''resend_already_confirmed'' (Some (eu_id user)))
             else and_then (send_confirmation E user redirect_to i token) (\<lambda>_.
                    on_db (audited ''resend_confirmation'' (Some (eu_id user)))))))"

datatype signup_answer =
    Signup_decoy
  | Signup_confirm public_user
  | Signup_session issued public_user

record signup_body =
  sb_email :: string
  sb_password :: string
  sb_data :: metadata
  sb_redirect :: "string option"

record signup_random =
  sr_user_id :: string
  sr_salt :: string
  sr_link_id :: string
  sr_token :: string
  sr_session :: string
  sr_rnd :: string
  sr_notice :: string

definition signup_taken :: "'q auth_env \<Rightarrow> signup_body \<Rightarrow> signup_random \<Rightarrow> ('q, signup_answer) flow" where
  "signup_taken E b r =
     and_then (on_db (audited ''signup_duplicate_email'' None)) (\<lambda>_.
     and_then (gets (\<lambda>w. find_user_by_email (sb_email b) (aw_db w))) (\<lambda>existing.
     and_then (case existing of
         None \<Rightarrow> ret ()
       | Some u \<Rightarrow>
           if eu_confirmed u = None then send_confirmation E u (sb_redirect b) (sr_link_id r) (sr_token r)
           else send_mail E (mail_of E (''notice_'' @ sr_notice r) Mail_account_exists_notice (sb_email b) None)) (\<lambda>_.
       ret Signup_decoy)))"

definition signup_created :: "'q auth_env \<Rightarrow> signup_body \<Rightarrow> signup_random \<Rightarrow> client_meta \<Rightarrow> end_user
    \<Rightarrow> ('q, signup_answer) flow" where
  "signup_created E b r meta user =
     and_then (on_db (audited ''signup'' (Some (eu_id user)))) (\<lambda>_.
       if \<not> ac_autoconfirm (config_of E)
       then and_then (send_confirmation E user (sb_redirect b) (sr_link_id r) (sr_token r)) (\<lambda>_.
              ret (Signup_confirm (publicUser user)))
       else and_then (on_db (issue_session (en_ctx E) (en_sha E) (sr_session r) (sr_rnd r) (eu_id user)
                (eu_email user) meta [])) (\<lambda>s. ret (Signup_session s (publicUser user))))"

definition signup :: "'q auth_env \<Rightarrow> bool \<Rightarrow> signup_body \<Rightarrow> signup_random \<Rightarrow> client_meta
    \<Rightarrow> ('q, signup_answer) flow" where
  "signup E over b r meta =
     (if ac_disable_signup (config_of E) then throw (auth_validation 422)
      else if over then throw too_many
      else and_then (on_db (hash_password (en_passwords E) (sr_salt r) (password_min (en_ctx E)) (sb_password b))) (\<lambda>h.
           and_then (on_db (state_op (create_user (sr_user_id r)
               \<lparr>cu_email = sb_email b, cu_hash = Some h, cu_confirmed = ac_autoconfirm (config_of E),
                cu_meta = sb_data b\<rparr>))) (\<lambda>created.
             (case created of
                None \<Rightarrow> signup_taken E b r
              | Some user \<Rightarrow> signup_created E b r meta user))))"

subsection \<open>The account\<close>

record change_random =
  cr_new_id :: string
  cr_new_token :: string
  cr_old_id :: string
  cr_old_token :: string

definition drop_link :: "string \<Rightarrow> token_type \<Rightarrow> auth_db \<Rightarrow> auth_db" where
  "drop_link user t db = db\<lparr>ad_links := filter (\<lambda>k. \<not> link_of user t k) (ad_links db)\<rparr>"

definition truthy :: "string option \<Rightarrow> string option" where
  \<comment> \<open>what passes \<open>if (s)\<close>\<close>
  "truthy s = (if s = Some [] then None else s)"

definition propose_email_change :: "'q auth_env \<Rightarrow> end_user \<Rightarrow> string \<Rightarrow> change_random \<Rightarrow> ('q, unit) flow" where
  "propose_email_change E user email r =
     and_then (on_db (issue_link E (cr_new_id r) (eu_id user) EmailChangeNew (cr_new_token r) (Some email))) (\<lambda>_.
     and_then (send_mail E (mail_of E (''emailchange_new_'' @ eu_id user) Mail_email_change_new email
         (Some (cr_new_token r)))) (\<lambda>_.
     and_then (case truthy (eu_email user) of
         Some old \<Rightarrow>
           if ac_double (config_of E)
           then and_then (on_db (issue_link E (cr_old_id r) (eu_id user) EmailChangeCurrent (cr_old_token r) (Some email)))
                  (\<lambda>_. send_mail E (mail_of E (''emailchange_current_'' @ eu_id user) Mail_email_change_current old
                         (Some (cr_old_token r))))
           else on_db (modifies (drop_link (eu_id user) EmailChangeCurrent))
       | None \<Rightarrow> on_db (modifies (drop_link (eu_id user) EmailChangeCurrent))) (\<lambda>_.
       on_db (audited ''email_change_requested'' (Some (eu_id user))))))"

record user_body =
  ub_password :: "string option"
  ub_current :: "string option"
  ub_email :: "string option"
  ub_data :: "metadata option"

definition current_proved :: "'q auth_env \<Rightarrow> bearer \<Rightarrow> user_body \<Rightarrow> end_user \<Rightarrow> unit auth_eff" where
  \<comment> \<open>the \<open>current_password\<close> rule\<close>
  "current_proved E b body user =
     (if ''recovery'' \<in> set (be_amr b) then ret ()
      else (case truthy (ub_current body) of
              None \<Rightarrow> throw (auth_validation 400)
            | Some pw \<Rightarrow>
                and_then (case truthy (eu_hash user) of
                    Some stored \<Rightarrow> and_then (verify_password (en_passwords E) pw stored) (\<lambda>(ok, _). ret ok)
                  | None \<Rightarrow> ret False) (\<lambda>ok.
                  if ok then ret () else refuse ''password_change_failed'' (Some (eu_id user)) bad_credentials)))"

definition change_password :: "'q auth_env \<Rightarrow> bearer \<Rightarrow> user_body \<Rightarrow> end_user \<Rightarrow> string \<Rightarrow> string
    \<Rightarrow> ('q, unit) flow" where
  "change_password E b body user salt pw =
     and_then (on_db (current_proved E b body user)) (\<lambda>_.
     and_then (on_db (hash_password (en_passwords E) salt (password_min (en_ctx E)) pw)) (\<lambda>h.
     and_then (on_db (modifies (update_password_hash (eu_id user) h))) (\<lambda>_.
     and_then (on_db (state_op (revoke_user_sessions (eu_id user) ScopeOthers (be_session b)))) (\<lambda>_.
     and_then (on_db (audited (if ''recovery'' \<in> set (be_amr b) then ''password_reset'' else ''password_changed'')
         (Some (eu_id user)))) (\<lambda>_.
     and_then (gets (\<lambda>w. ad_now (aw_db w))) (\<lambda>now.
       (case truthy (eu_email user) of
          Some e \<Rightarrow> send_mail E (mail_of E (''pwchanged_'' @ eu_id user @ ''_'' @ string_of_nat now)
                      Mail_password_changed_notice e None)
        | None \<Rightarrow> ret ())))))))"

definition put_user :: "'q auth_env \<Rightarrow> bearer \<Rightarrow> user_body \<Rightarrow> string \<Rightarrow> change_random
    \<Rightarrow> ('q, public_user \<times> string option) flow" where
  "put_user E b body salt r =
     (if truthy (ub_password body) = None \<and> truthy (ub_email body) = None \<and> ub_data body = None
      then throw (auth_validation 400)
      else and_then (on_db (require_live_session b)) (\<lambda>_.
        and_then (gets (\<lambda>w. find_user_by_id (be_user b) (aw_db w))) (\<lambda>u.
          (case u of
             None \<Rightarrow> throw auth_unauthorized
           | Some user \<Rightarrow>
               and_then (case truthy (ub_password body) of
                   None \<Rightarrow> ret () | Some pw \<Rightarrow> change_password E b body user salt pw) (\<lambda>_.
               and_then (case truthy (ub_email body) of
                   None \<Rightarrow> ret ()
                 | Some email \<Rightarrow>
                     (case truthy (eu_email user) of
                        Some old \<Rightarrow> if js_lower email = js_lower old then throw (auth_validation 422)
                                    else propose_email_change E user email r
                      | None \<Rightarrow> propose_email_change E user email r)) (\<lambda>_.
               and_then (case ub_data body of
                   None \<Rightarrow> ret ()
                 | Some d \<Rightarrow> and_then (on_db (modifies (update_user_metadata (eu_id user) d))) (\<lambda>_.
                              on_db (audited ''user_metadata_updated'' (Some (eu_id user))))) (\<lambda>_.
               and_then (gets (\<lambda>w. find_user_by_id (eu_id user) (aw_db w))) (\<lambda>fresh.
               and_then (gets (\<lambda>w. pending_email_change (eu_id user) (aw_db w))) (\<lambda>pending.
                 ret (publicUser (case fresh of Some x \<Rightarrow> x | None \<Rightarrow> user), pending)))))))))) "

subsection \<open>\<open>/admin/users\<close>\<close>

definition require_service_role :: "'q auth_env \<Rightarrow> unit auth_eff" where
  "require_service_role E = guard (pc_role (en_ctx E) = Key_service_role) (AuthError 403 A_UNAUTHORIZED)"

definition no_such_user :: auth_error where "no_such_user = auth_validation 404"

definition admin_user_id :: "string \<Rightarrow> unit auth_eff" where
  "admin_user_id i = guard (is_uuid i) (auth_validation 400)"

definition admin_get_user :: "'q auth_env \<Rightarrow> string \<Rightarrow> end_user auth_eff" where
  "admin_get_user E i =
     and_then (require_service_role E) (\<lambda>_. and_then (admin_user_id i) (\<lambda>_.
     and_then (gets (find_user_by_id i)) (\<lambda>u.
       (case u of None \<Rightarrow> throw no_such_user | Some user \<Rightarrow> ret user))))"

definition optional_hash :: "'q auth_env \<Rightarrow> string \<Rightarrow> string option \<Rightarrow> string option auth_eff" where
  "optional_hash E salt pw =
     (case pw of
        None \<Rightarrow> ret None
      | Some p \<Rightarrow> and_then (hash_password (en_passwords E) salt (password_min (en_ctx E)) p) (\<lambda>h. ret (Some h)))"

record admin_body =
  ab_email :: "string option"
  ab_password :: "string option"
  ab_confirm :: "bool option"
  ab_ban :: "nat option option"
  ab_user_meta :: "metadata option"
  ab_app_meta :: "metadata option"
  ab_sign_out :: "bool option"

definition no_update :: admin_update where
  "no_update = \<lparr>au_banned = None, au_confirm = None, au_hash = None, au_app_meta = None, au_meta = None, au_email = None\<rparr>"

definition admin_create_user :: "'q auth_env \<Rightarrow> string \<Rightarrow> admin_body \<Rightarrow> string \<Rightarrow> string \<Rightarrow> end_user auth_eff" where
  "admin_create_user E email b i salt =
     and_then (require_service_role E) (\<lambda>_.
     and_then (optional_hash E salt (ab_password b)) (\<lambda>h.
     and_then (state_op (create_user i
         \<lparr>cu_email = email, cu_hash = h, cu_confirmed = (ab_confirm b = Some True),
          cu_meta = (case ab_user_meta b of None \<Rightarrow> [] | Some m \<Rightarrow> m)\<rparr>)) (\<lambda>created.
       (case created of
          None \<Rightarrow> refuse ''admin_create_user_duplicate'' None (auth_validation 422)
        | Some user \<Rightarrow>
            and_then (case ab_app_meta b of
                None \<Rightarrow> ret (Some user)
              | Some m \<Rightarrow> admin_update_user (eu_id user) (no_update\<lparr>au_app_meta := Some m\<rparr>)) (\<lambda>with_app.
            and_then (audited ''admin_create_user'' (Some (eu_id user))) (\<lambda>_.
              ret (case with_app of Some x \<Rightarrow> x | None \<Rightarrow> user)))))))"

definition empty_admin_body :: "admin_body \<Rightarrow> bool" where
  "empty_admin_body b = (ab_email b = None \<and> ab_password b = None \<and> ab_confirm b = None \<and> ab_ban b = None \<and>
     ab_user_meta b = None \<and> ab_app_meta b = None \<and> ab_sign_out b = None)"

definition ends_sessions :: "admin_body \<Rightarrow> nat \<Rightarrow> bool" where
  "ends_sessions b now =
     (ab_sign_out b = Some True \<or> ab_password b \<noteq> None \<or>
      (case ab_ban b of Some (Some t) \<Rightarrow> now < t | _ \<Rightarrow> False))"

definition admin_put_user :: "'q auth_env \<Rightarrow> string \<Rightarrow> admin_body \<Rightarrow> string \<Rightarrow> end_user auth_eff" where
  "admin_put_user E i b salt =
     and_then (require_service_role E) (\<lambda>_. and_then (admin_user_id i) (\<lambda>_.
       if empty_admin_body b then throw (auth_validation 400)
       else and_then (optional_hash E salt (ab_password b)) (\<lambda>h.
            and_then (admin_update_user i
                \<lparr>au_banned = ab_ban b, au_confirm = ab_confirm b, au_hash = h, au_app_meta = ab_app_meta b,
                 au_meta = ab_user_meta b, au_email = ab_email b\<rparr>) (\<lambda>updated.
              (case updated of
                 None \<Rightarrow> throw no_such_user
               | Some user \<Rightarrow>
                   and_then (gets ad_now) (\<lambda>now.
                   and_then (if ends_sessions b now then state_op (admin_sign_out_user i) else ret 0) (\<lambda>_.
                   and_then (audited ''admin_update_user'' (Some i)) (\<lambda>_.
                   and_then (gets (find_user_by_id i)) (\<lambda>fresh.
                     ret (case fresh of Some x \<Rightarrow> x | None \<Rightarrow> user))))))))))"

definition admin_delete_user :: "'q auth_env \<Rightarrow> string \<Rightarrow> unit auth_eff" where
  "admin_delete_user E i =
     and_then (require_service_role E) (\<lambda>_. and_then (admin_user_id i) (\<lambda>_.
     and_then (state_op (soft_delete_user i)) (\<lambda>gone.
       (case gone of
          None \<Rightarrow> throw no_such_user
        | Some _ \<Rightarrow> audited ''user_deleted'' (Some i)))))"


end
