(* ===== verification/EndSafety.thy ===== *)
theory EndSafety
  imports EndFlows
begin

text \<open>
  What the end-user auth API keeps. Every handler that changes sessions is a run of the steps of
  \<open>EndUsers\<close>, so the invariants hold of it; deletion is final; a one-time link is spent once; sign-in
  passes only through its gates and the mail flows answer alike for every address. And where the code
  falls short: a second mail request that leaves no working link in any mailbox, recovery
  links that outlive a ban and an email change, and an interrupted proposal that inherits consent.
\<close>

subsection \<open>Requests are steps\<close>

definition steps :: "'a auth_eff \<Rightarrow> bool" where
  \<comment> \<open>whatever a handler does to the database is a run of the store's transactions\<close>
  "steps m = (\<forall>db. auth_reach db (snd (m db)))"

lemma stepsD: "steps m \<Longrightarrow> auth_reach db (snd (m db))"
  by (simp add: steps_def)

lemma reach_refl: "auth_reach db db" by (simp add: auth_reach_def)
lemma reach_step: "auth_step db db' \<Longrightarrow> auth_reach db db'" by (simp add: auth_reach_def)
lemma reach_trans: "auth_reach a b \<Longrightarrow> auth_reach b c \<Longrightarrow> auth_reach a c" unfolding auth_reach_def by (rule rtranclp_trans)

lemma steps_and_then [intro!]:
  assumes "steps m" "\<And>a. steps (f a)"
  shows "steps (and_then m f)"
  unfolding steps_def
proof
  fix db
  obtain r db1 where m: "m db = (r, db1)" by fastforce
  then have r1: "auth_reach db db1" using assms(1) by (metis steps_def snd_conv)
  show "auth_reach db (snd (and_then m f db))"
  proof (cases r)
    case (Inl e)
    then show ?thesis using m r1 by (simp add: and_then_def)
  next
    case (Inr a)
    have "auth_reach db1 (snd (f a db1))" using assms(2) by (simp add: steps_def)
    then show ?thesis using m Inr r1 reach_trans by (simp add: and_then_def)
  qed
qed

lemma steps_basic [intro!]:
  "steps (ret a)" "steps (throw e)" "steps (gets g)" "steps (audited x u)" "steps (refuse x u e)" "steps (guard c e)"
proof -
  have a: "auth_reach db (write_auth_audit x u db)" for db by (rule reach_step, rule step_audit)
  show "steps (ret a)" "steps (throw e)" "steps (gets g)" "steps (audited x u)" "steps (refuse x u e)" "steps (guard c e)"
    by (simp_all add: steps_def eff_defs reach_refl audited_def refuse_def a)
qed

lemma steps_modifies: "(\<And>db. auth_step db (f db)) \<Longrightarrow> steps (modifies f)"
  by (simp add: steps_def modifies_def reach_step)

lemma steps_state_op: "(\<And>db. auth_step db (snd (f db))) \<Longrightarrow> steps (state_op f)"
  by (simp add: steps_def state_op_def case_prod_beta reach_step)

lemma steps_live [intro]: "steps (require_live_session b)" by (auto simp: require_live_session_def)

lemma steps_family: "steps (end_family row action)"
  unfolding end_family_def by (intro steps_and_then steps_basic steps_modifies step_family)

lemma refresh_steps: "steps (refresh_grant ctx sha over presented rnd)"
  unfolding steps_def
proof
  fix db
  obtain res db' where g: "refresh_grant ctx sha over presented rnd db = (res, db')" by fastforce
  have audit: "auth_reach a (write_auth_audit x u a)" for a x u by (rule reach_step, rule step_audit)
  from g have "auth_reach db db'"
  proof (cases rule: refresh_cases)
    case (refused e)
    then show ?thesis using audit reach_refl by metis
  next
    case (ended row a)
    have "auth_reach db (revoke_session_family (rr_session row) db)" by (rule reach_step, rule step_family)
    from reach_trans[OF this audit] show ?thesis by (simp add: ended)
  next
    case (rotated row user n db1)
    obtain r where r: "r \<in> set (ad_tokens db)" "rr_id row = rt_id r" "rr_session row = rt_session r" "rr_user row = rt_user r"
      using rotated(1) by (auto simp: fit_to_refresh_def elim!: refresh_row_token)
    have "auth_reach db (snd (rotate_refresh_token (rt_id r) (rt_session r) (rt_user r) (sha (new_refresh_token rnd)) db))"
      by (rule reach_step, rule step_rotate[OF r(1)])
    then have "auth_reach db db1" using rotated(3) r by simp
    from reach_trans[OF this audit] show ?thesis by (simp add: rotated)
  next
    case (replayed row user used n db1)
    obtain r where r: "r \<in> set (ad_tokens db)" "rr_id row = rt_id r" "rr_session row = rt_session r" "rr_user row = rt_user r"
      using replayed(1) by (auto simp: fit_to_refresh_def elim!: refresh_row_token)
    obtain c where c: "find_child_token (rt_id r) db = Some c"
      "grace_rotate (rt_id r) (rt_id c) (rt_session r) (rt_user r) (sha (new_refresh_token rnd)) db = (Inr (Some n), db1)"
      using replayed(3) r by (auto simp: replay_ok_def)
    have p: "c \<in> set (ad_tokens db)" "rt_parent c = Some (rt_id r)"
      using find_SomeD[OF c(1)[unfolded find_child_token_def]] by auto
    have "auth_reach db (snd (grace_rotate (rt_id r) (rt_id c) (rt_session r) (rt_user r) (sha (new_refresh_token rnd)) db))"
      by (rule reach_step, rule step_grace[OF r(1) p])
    then have "auth_reach db db1" using c(2) by simp
    from reach_trans[OF this audit] show ?thesis by (simp add: replayed)
  qed
  then show "auth_reach db (snd (refresh_grant ctx sha over presented rnd db))" using g by simp
qed

lemma logout_steps: "steps (logout b scope)"
proof -
  have e: "logout b scope = and_then (state_op (revoke_user_sessions (be_user b)
      (if scope = Some ''global'' then ScopeGlobal else if scope = Some ''others'' then ScopeOthers else ScopeLocal) (be_session b)))
      (\<lambda>n. and_then (audited ''logout'' (Some (be_user b))) (\<lambda>_. ret n))"
    by (auto simp: logout_def state_op_def Let_def fun_eq_iff and_then_def split: prod.splits)
  show ?thesis unfolding e by (intro steps_and_then steps_basic steps_state_op step_sessions)
qed

lemma own_session_steps: "auth_reach db (snd (revoke_own_session i user db))"
proof (cases "fst (revoke_own_mark i user db)")
  case False
  obtain db1 where m: "revoke_own_mark i user db = (False, db1)" using False by (metis prod.collapse)
  have "auth_reach db db1" using reach_step[OF step_own_mark[of db i user]] m by simp
  then show ?thesis by (simp add: revoke_own_session_def m)
next
  case True
  obtain db1 where m: "revoke_own_mark i user db = (True, db1)" using True by (metis prod.collapse)
  have "auth_reach db db1" using reach_step[OF step_own_mark[of db i user]] m by simp
  moreover obtain s where s: "s \<in> set (ad_sessions db)" "as_id s = i" "as_user s = user" "as_revoked s = None"
    using m by (auto simp: revoke_own_mark_def)
  have "\<exists>x \<in> set (ad_sessions db1). as_id x = i \<and> as_revoked x \<noteq> None"
    using m s by (auto simp: revoke_own_mark_def revoke_sessions_def intro!: bex_upd_where[OF s(1)])
  then have "auth_reach db1 (revoke_own_tokens i db1)" using reach_step[OF step_own_tokens] by blast
  ultimately show ?thesis using reach_trans by (simp add: revoke_own_session_def m)
qed

lemma delete_session_steps: "steps (delete_session b i)"
proof -
  have o: "steps (state_op (revoke_own_session i (be_user b)))"
    using own_session_steps by (simp add: steps_def state_op_def case_prod_beta)
  have e: "delete_session b i = (if \<not> session_id_shape i then throw (auth_validation 400)
      else and_then (require_live_session b) (\<lambda>_. and_then (state_op (revoke_own_session i (be_user b))) (\<lambda>ok.
        if \<not> ok then throw (auth_validation 404) else audited ''session_revoked'' (Some (be_user b)))))"
    by (simp add: delete_session_def state_op_def[abs_def])
  show ?thesis unfolding e using o by (auto intro!: steps_and_then)
qed

lemma change_email_steps: "steps (change_email user email)"
  unfolding change_email_def
  by (auto intro!: steps_state_op steps_modifies step_email step_clear step_sessions)

lemma verify_change_steps: "steps (verify_email_change E over token)"
proof -
  have c: "steps (state_op (consume_either types h))" for types h by (intro steps_state_op step_consume)
  show ?thesis
    unfolding verify_email_change_def
    by (auto intro!: steps_and_then c change_email_steps split: option.split)
qed

lemma admin_put_steps: "steps (admin_put_user E i b salt)"
proof -
  have h: "steps (optional_hash E salt pw)" for pw
    by (auto simp: optional_hash_def hash_password_def split: option.split)
  have u: "steps (admin_update_user i a)" for a
    by (simp add: steps_def reach_step[OF step_admin])
  have o: "steps (state_op (admin_sign_out_user i))"
    unfolding admin_sign_out_user_def by (intro steps_state_op step_sessions)
  show ?thesis
    unfolding admin_put_user_def require_service_role_def admin_user_id_def
    by (auto intro!: steps_and_then h u o split: option.split)
qed

lemma admin_delete_steps: "steps (admin_delete_user E i)"
proof -
  have d: "steps (state_op (soft_delete_user i))" by (intro steps_state_op step_delete)
  show ?thesis
    unfolding admin_delete_user_def require_service_role_def admin_user_id_def
    by (auto intro!: steps_and_then d split: option.split)
qed



subsection \<open>Deletion\<close>

definition gone_in :: "string \<Rightarrow> end_user list \<Rightarrow> bool" where
  "gone_in i us = (\<exists>u \<in> set us. eu_id u = i \<and> eu_deleted u \<noteq> None)"

definition gone :: "string \<Rightarrow> auth_db \<Rightarrow> bool" where
  "gone i db = gone_in i (ad_users db)"

lemma gone_upd:
  assumes "gone i db" "\<And>u. eu_id (f u) = eu_id u" "\<And>u. eu_deleted u \<noteq> None \<Longrightarrow> eu_deleted (f u) \<noteq> None"
  shows "gone_in i (upd_where p f (ad_users db))"
proof -
  obtain u where u: "u \<in> set (ad_users db)" "eu_id u = i" "eu_deleted u \<noteq> None" using assms(1) by (auto simp: gone_def gone_in_def)
  show ?thesis unfolding gone_in_def by (rule bex_upd_where[OF u(1)]) (use u assms(2,3) in auto)
qed

lemma gone_set_user:
  "gone i db \<Longrightarrow> (\<And>u. eu_id (f u) = eu_id u) \<Longrightarrow> (\<And>u. eu_deleted u \<noteq> None \<Longrightarrow> eu_deleted (f u) \<noteq> None) \<Longrightarrow>
    gone i (set_user j f db)"
  using gone_upd[of i db f "\<lambda>u. eu_id u = j"] by (simp add: set_user_def gone_def[of _ "db\<lparr>ad_users := _\<rparr>"])

lemma users_frame:
  "ad_users (bump_session sid db) = ad_users db" "ad_users (set_token t f db) = ad_users db"
  "ad_users (revoke_tokens p db) = ad_users db" "ad_users (revoke_sessions q db) = ad_users db"
  "ad_users (insert_session sid user ag ip db) = ad_users db" "ad_users (snd (insert_token h user sid par db)) = ad_users db"
  by (simp_all add: bump_session_def set_token_def revoke_tokens_def revoke_sessions_def insert_session_def insert_token_def)

lemma users_ops:
  "ad_users (snd (rotate_refresh_token tid sid user child db)) = ad_users db"
  "ad_users (snd (grace_rotate par old sid user child db)) = ad_users db"
  "ad_users (snd (open_session sid user h ag ip db)) = ad_users db"
  by (auto simp: rotate_unfold grace_unfold open_unfold insert_token_def set_token_def bump_session_def
      insert_session_def split: if_splits prod.splits sum.splits)

lemma gone_step: "auth_step db db' \<Longrightarrow> gone i db \<Longrightarrow> gone i db'"
proof (induction rule: auth_step.induct)
  case (step_create j db a)
  then show ?case by (auto simp: create_user_def Let_def gone_def gone_in_def)
next
  case (step_password db j h)
  then show ?case unfolding update_password_hash_def by (intro gone_set_user) auto
next
  case (step_signed_in db j)
  then show ?case unfolding mark_signed_in_def by (intro gone_set_user) auto
next
  case (step_confirm db j)
  then show ?case unfolding mark_email_confirmed_def by (intro gone_set_user) auto
next
  case (step_metadata db j p)
  then show ?case unfolding update_user_metadata_def by (intro gone_set_user) auto
next
  case (step_email db j e)
  have "gone i (db\<lparr>ad_users := upd_where p (\<lambda>u. u\<lparr>eu_email := Some e, eu_confirmed := Some (ad_now db)\<rparr>) (ad_users db)\<rparr>)" for p
    using gone_upd[OF step_email] by (simp add: gone_def[of _ "db\<lparr>ad_users := _\<rparr>"])
  then show ?case using step_email by (simp add: apply_email_change_def split: option.split)
next
  case (step_admin db j a)
  have "gone i (db\<lparr>ad_users := upd_where p (admin_sets a (ad_now db)) (ad_users db)\<rparr>)" for p
    using gone_upd[OF step_admin] by (simp add: gone_def[of _ "db\<lparr>ad_users := _\<rparr>"] admin_sets_frame)
  then show ?case using step_admin by (simp add: admin_update_user_def split: option.split)
next
  case (step_delete db j)
  have "gone i (set_user j (tombstone (ad_now db)) db)"
    by (rule gone_set_user[OF step_delete]) (auto simp: tombstone_def)
  then show ?case using step_delete
    by (simp add: soft_delete_user_def Let_def gone_def users_frame split: option.split)
qed (simp_all add: gone_def users_ops users_frame write_auth_audit_def issue_one_time_def Let_def consume_either_def
     clear_email_change_tokens_def revoke_session_family_def revoke_user_sessions_def revoke_own_mark_def revoke_own_tokens_def)

lemma gone_reach: "auth_reach db db' \<Longrightarrow> gone i db \<Longrightarrow> gone i db'"
  unfolding auth_reach_def by (induction rule: rtranclp_induct) (auto intro: gone_step)

lemma gone_not_live:
  assumes "auth_ok db" "gone i db" "u \<in> set (ad_users db)" "eu_id u = i"
  shows "\<not> live_user u"
proof -
  obtain v where v: "v \<in> set (ad_users db)" "eu_id v = i" "eu_deleted v \<noteq> None" using assms(2) by (auto simp: gone_def gone_in_def)
  have "distinct (map eu_id (ad_users db))" using assms(1) by (simp add: auth_ok_def users_ok_def)
  from unique_key[OF this assms(3) v(1)] assms(4) v(2,3) show ?thesis by (simp add: live_user_def)
qed

text \<open>
  C39. After an account is deleted, whatever follows: it is found neither by id nor by any address, none of
  its sessions is live for a bearer, no one-time link of it can be spent, and every refresh token of
  it is refused.
\<close>

theorem deletion_is_final:
  assumes reach: "auth_reach (empty_auth up t0) db" and del: "soft_delete_user i db = (Some address, db1)"
    and later: "auth_reach db1 db2"
  shows "find_user_by_id i db2 = None \<and> \<not> live_session sid i db2 \<and>
    (\<forall>email u. find_user_by_email email db2 = Some u \<longrightarrow> eu_id u \<noteq> i) \<and>
    (\<forall>types h k. fst (consume_either types h db2) = Some k \<longrightarrow> ot_user k \<noteq> i) \<and>
    (\<forall>row. find_refresh_token (sha presented) db2 = Some row \<and> rr_user row = i \<longrightarrow>
       (\<exists>e. fst (refresh_grant ctx sha over presented rnd db2) = Inl e))"
proof -
  have g1: "gone i db1"
    using del by (auto simp: soft_delete_user_def Let_def gone_def gone_in_def users_frame set_user_def find_user_by_id_def tombstone_def
        dest!: find_SomeD split: option.splits intro!: bex_upd_where)
  have r1: "auth_reach db db1" using reach_step[OF step_delete[of db i]] del by simp
  have ok: "auth_ok db2" using auth_reach_ok[OF reach_trans[OF reach_trans[OF reach r1] later]] empty_auth_ok by blast
  note dead = gone_not_live[OF ok gone_reach[OF later g1]]
  have none: "find_user_by_id i db2 = None"
    using dead by (auto simp: find_user_by_id_def find_None_iff)
  have "\<exists>e. fst (refresh_grant ctx sha over presented rnd db2) = Inl e"
    if "find_refresh_token (sha presented) db2 = Some row" "rr_user row = i" for row
    using that none
    by (auto simp: refresh_grant_def refresh_row_read_def and_then_def gets_def end_family_eq refuse_eq throw_def)
  then show ?thesis
    using none dead
    by (auto simp: live_session_def find_user_by_email_def consume_either_def spendable_def dest!: find_SomeD)
qed


subsection \<open>Links and mail\<close>

lemma mailer_queued:
  assumes "q_has ops (mw_queue m) (mj_delivery job)"
  shows "mw_handed (mailer_enqueue sha ops job m) = mw_handed m" "mw_queue (mailer_enqueue sha ops job m) = mw_queue m"
  using assms
  by (auto simp: mailer_enqueue_def enqueue_auth_email_def record_send_def Let_def
      split: option.splits prod.splits gate_verdict.splits)

lemma issue_effect:
  "issue_link E i user t token relates db =
     (Inr (fst (issue_one_time i user t (en_sha E token) relates db)), snd (issue_one_time i user t (en_sha E token) relates db))"
  by (simp add: issue_link_def state_op_def case_prod_beta)

lemma audit_substituted_frame:
  "\<exists>x. audit_substituted E r u db = (Inr (), x) \<and> ad_links x = ad_links db \<and> ad_users x = ad_users db \<and> ad_now x = ad_now db"
  by (simp add: audit_substituted_def audited_def eff_defs)

lemma recover_effect:
  assumes u: "find_user_by_email email (aw_db w) = Some user"
    and r: "recover E False email red i token w = (res, w')"
  shows "res = Inr () \<and> aw_mail w' = mailer_enqueue (en_sha E) (en_queue E)
      (mail_of E (''recovery_'' @ eu_id user) Mail_recovery email (Some token)) (aw_mail w) \<and>
    ad_links (aw_db w') = ad_links (snd (issue_one_time i (eu_id user) Recovery (en_sha E token) None (aw_db w))) \<and>
    ad_users (aw_db w') = ad_users (aw_db w) \<and> ad_now (aw_db w') = ad_now (aw_db w)"
proof -
  have f: "ad_users (snd (issue_one_time i (eu_id user) Recovery (en_sha E token) None (aw_db w))) = ad_users (aw_db w)"
    "ad_now (snd (issue_one_time i (eu_id user) Recovery (en_sha E token) None (aw_db w))) = ad_now (aw_db w)"
    by (simp_all add: issue_one_time_def Let_def)
  obtain x where x: "audit_substituted E red (Some (eu_id user))
      (snd (issue_one_time i (eu_id user) Recovery (en_sha E token) None (aw_db w))) = (Inr (), x)"
    "ad_links x = ad_links (snd (issue_one_time i (eu_id user) Recovery (en_sha E token) None (aw_db w)))"
    "ad_users x = ad_users (aw_db w)" "ad_now x = ad_now (aw_db w)"
    using audit_substituted_frame f by metis
  show ?thesis
    using r u x by (auto simp: recover_def and_then_def gets_def on_db_def issue_effect send_mail_def modifies_def audited_def)
qed

definition only_link :: "string \<Rightarrow> one_time list \<Rightarrow> bool" where
  "only_link h ks = (\<forall>k \<in> set ks. ot_hash k \<noteq> h)"

lemma find_user_email_live:
  "find_user_by_email email db = Some user \<Longrightarrow> user \<in> set (ad_users db) \<and> live_user user"
  by (auto simp: find_user_by_email_def dest!: find_SomeD)

lemma issued_link_spendable:
  assumes "ad_links db = ad_links (snd (issue_one_time i (eu_id user) t h relates d))" "ad_now db = ad_now d"
    "user \<in> set (ad_users db)" "live_user user"
  shows "\<exists>k. fst (consume_one_time t h db) = Some k"
proof -
  let ?n = "\<lambda>k. k\<lparr>ot_hash := h, ot_relates := relates, ot_created := ad_now d, ot_expires := ad_now d + 1000 * TOKEN_TTL_SECONDS t, ot_used := None\<rparr>"
  have ttl: "0 < TOKEN_TTL_SECONDS t" by (cases t) auto
  have "\<exists>k \<in> set (ad_links db). spendable [t] h db k"
  proof (cases "\<exists>k \<in> set (ad_links d). link_of (eu_id user) t k")
    case True
    then obtain k where k: "k \<in> set (ad_links d)" "link_of (eu_id user) t k" by blast
    have "spendable [t] h db (?n k)"
      using k(2) assms ttl by (auto simp: spendable_def link_of_def)
    then show ?thesis
      unfolding assms(1) using True k
      by (auto simp: issue_one_time_def Let_def intro!: bex_upd_where[OF k(1)])
  next
    case False
    then show ?thesis using assms ttl by (auto simp: issue_one_time_def Let_def spendable_def)
  qed
  then show ?thesis
    unfolding consume_one_time_def consume_either_def
    by (cases "List.find (spendable [t] h db) (ad_links db)") (auto simp: find_None_iff)
qed

lemma issued_links:
  "k \<in> set (ad_links (snd (issue_one_time i user t h r db))) \<Longrightarrow>
    (link_of user t k \<and> ot_hash k = h \<and> ot_used k = None) \<or> (k \<in> set (ad_links db) \<and> \<not> link_of user t k)"
  by (auto simp: issue_one_time_def Let_def upd_where_set link_of_def split: if_splits)

lemma replaced_link_dead:
  assumes "only_link h1 (ad_links db)" "ad_links d = ad_links (snd (issue_one_time i user t h1 r db))" "h1 \<noteq> h2"
  shows "only_link h1 (ad_links (snd (issue_one_time i2 user t h2 r2 d)))"
  unfolding only_link_def
proof
  fix k assume k: "k \<in> set (ad_links (snd (issue_one_time i2 user t h2 r2 d)))"
  show "ot_hash k \<noteq> h1"
  proof
    assume h: "ot_hash k = h1"
    then have "k \<in> set (ad_links d)" "\<not> link_of user t k" using issued_links[OF k] assms(3) by auto
    then show False using issued_links[of k i user t h1 r db] assms(1,2) h by (auto simp: only_link_def)
  qed
qed

text \<open>
  A second recovery request, made while the queue still knows the delivery of the first (waiting or
  among the completed jobs it keeps), answers as always and replaces the link, but no mail is handed over:
  the link in the user's mailbox is dead, and the working one is in no mail.
\<close>

theorem second_request_kills_the_only_link:
  assumes user: "find_user_by_email email (aw_db w) = Some user"
    and fresh: "only_link (en_sha E t1) (ad_links (aw_db w))" "en_sha E t1 \<noteq> en_sha E t2"
    and first: "recover E False email red1 i1 t1 w = (r1, w1)"
    and kept: "q_has (en_queue E) (mw_queue (aw_mail w1)) (''recovery_'' @ eu_id user)"
    and second: "recover E False email red2 i2 t2 w1 = (r2, w2)"
  shows "r2 = Inr () \<and>
    mw_handed (aw_mail w2) = mw_handed (aw_mail w1) \<and>
    fst (consume_one_time Recovery (en_sha E t1) (aw_db w2)) = None \<and>
    (\<exists>k. fst (consume_one_time Recovery (en_sha E t2) (aw_db w2)) = Some k)"
proof -
  from recover_effect[OF user first] have e1:
    "ad_links (aw_db w1) = ad_links (snd (issue_one_time i1 (eu_id user) Recovery (en_sha E t1) None (aw_db w)))"
    "ad_users (aw_db w1) = ad_users (aw_db w)" "ad_now (aw_db w1) = ad_now (aw_db w)" by auto
  have user1: "find_user_by_email email (aw_db w1) = Some user" using user e1(2) by (simp add: find_user_by_email_def)
  from recover_effect[OF user1 second] have e2: "r2 = Inr ()"
    "aw_mail w2 = mailer_enqueue (en_sha E) (en_queue E)
      (mail_of E (''recovery_'' @ eu_id user) Mail_recovery email (Some t2)) (aw_mail w1)"
    "ad_links (aw_db w2) = ad_links (snd (issue_one_time i2 (eu_id user) Recovery (en_sha E t2) None (aw_db w1)))"
    "ad_users (aw_db w2) = ad_users (aw_db w1)" "ad_now (aw_db w2) = ad_now (aw_db w1)" by auto
  have "only_link (en_sha E t1) (ad_links (aw_db w2))"
    unfolding e2(3)
    by (rule replaced_link_dead[OF fresh(1) e1(1) fresh(2)])
  then have "fst (consume_one_time Recovery (en_sha E t1) (aw_db w2)) = None"
    by (auto simp: consume_one_time_def consume_either_def find_None_iff spendable_def only_link_def)
  moreover have "\<exists>k. fst (consume_one_time Recovery (en_sha E t2) (aw_db w2)) = Some k"
    by (rule issued_link_spendable[OF e2(3)]) (use find_user_email_live[OF user] e1 e2 in auto)
  moreover have "mw_handed (aw_mail w2) = mw_handed (aw_mail w1)"
    unfolding e2(2) by (rule mailer_queued(1)) (use kept in \<open>simp add: mail_of_def\<close>)
  ultimately show ?thesis using e2(1) by blast
qed

subsection \<open>Bans, mailboxes and the email change\<close>


lemma find_user_set:
  assumes "\<And>u. eu_id (f u) = eu_id u" "\<And>u. eu_deleted (f u) = eu_deleted u"
  shows "find_user_by_id i (set_user j f db) = map_option (\<lambda>u. if eu_id u = j then f u else u) (find_user_by_id i db)"
  using assms by (simp add: find_user_by_id_def set_user_def find_upd_where live_user_def)

lemma open_fresh:
  assumes "h \<notin> rt_hash ` set (ad_tokens db)"
  shows "\<exists>n db'. open_session sid user h ag ip db = (Inr (sid, n), db') \<and> ad_users db' = ad_users db \<and>
    (\<exists>s \<in> set (ad_sessions db'). as_id s = sid \<and> as_user s = user \<and> as_revoked s = None)"
proof -
  have "\<not> (\<exists>r \<in> set (ad_tokens (insert_session sid user ag ip db)). rt_hash r = h)"
    using assms by (auto simp: insert_session_def)
  then show ?thesis by (simp add: open_unfold insert_token_def) (simp add: insert_session_def)
qed

lemma verified_issues:
  assumes u: "find_user_by_id (eu_id user) db = Some user"
    and h: "en_sha E (new_refresh_token rnd) \<notin> rt_hash ` set (ad_tokens db)"
  shows "\<exists>s x db'. verified E t user meta sid rnd db = (Inr (s, x), db') \<and> at_session (is_access s) = sid \<and>
    at_sub (is_access s) = eu_id user \<and> (t = Recovery \<longrightarrow> ''recovery'' \<in> set (at_amr (is_access s))) \<and>
    live_session sid (eu_id user) db'"
proof -
  let ?d1 = "mark_email_confirmed (eu_id user) db"
  have t1: "ad_tokens ?d1 = ad_tokens db" by (simp add: mark_email_confirmed_def set_user_def)
  obtain n d2 where o: "open_session sid (eu_id user) (en_sha E (new_refresh_token rnd)) (cm_agent meta) (cm_ip meta) ?d1
      = (Inr (sid, n), d2)" "ad_users d2 = ad_users ?d1"
    "\<exists>s \<in> set (ad_sessions d2). as_id s = sid \<and> as_user s = eu_id user \<and> as_revoked s = None"
    using open_fresh[of _ ?d1] h t1 by metis
  let ?d3 = "mark_signed_in (eu_id user) d2"
  let ?d4 = "write_auth_audit (''verify_'' @ type_name t) (Some (eu_id user)) ?d3"
  have "find_user_by_id (eu_id user) ?d1 \<noteq> None"
    unfolding mark_email_confirmed_def by (subst find_user_set) (auto simp: u)
  then have "find_user_by_id (eu_id user) d2 \<noteq> None" using o(2) by (simp add: find_user_by_id_def)
  then have "find_user_by_id (eu_id user) ?d3 \<noteq> None"
    unfolding mark_signed_in_def by (subst find_user_set) auto
  then have f: "find_user_by_id (eu_id user) ?d4 \<noteq> None" by (simp add: find_user_by_id_def)
  have "\<exists>s \<in> set (ad_sessions ?d4). as_id s = sid \<and> as_user s = eu_id user \<and> as_revoked s = None"
    using o(3) by (simp add: mark_signed_in_def set_user_def)
  moreover have "\<exists>u \<in> set (ad_users ?d4). eu_id u = eu_id user \<and> live_user u"
    using f by (auto simp: find_user_by_id_def find_None_iff simp del: audit_frame)
  ultimately have l: "live_session sid (eu_id user) ?d4" unfolding live_session_def by blast
  show ?thesis
    using o(1) f l
    by (auto simp: verified_def and_then_def modifies_def issue_session_def gets_def ret_def audited_def
        mint_access_token_def Let_def)
qed

lemma verify_post_issues:
  assumes k: "List.find (spendable [Recovery] (en_sha E token) db) (ad_links db) = Some k"
    and u: "find_user_by_id (ot_user k) db = Some user"
    and h: "en_sha E (new_refresh_token rnd) \<notin> rt_hash ` set (ad_tokens db)"
  shows "\<exists>s db'. verify_post E False token ''recovery'' meta sid rnd db = (Inr s, db') \<and>
    at_session (is_access (fst s)) = sid \<and> at_sub (is_access (fst s)) = ot_user k \<and>
    ''recovery'' \<in> set (at_amr (is_access (fst s))) \<and> live_session sid (ot_user k) db'"
proof -
  have uk: "eu_id user = ot_user k" using u by (auto simp: find_user_by_id_def dest!: find_SomeD)
  obtain d1 where a: "audit_substituted E None None db = (Inr (), d1)" "ad_links d1 = ad_links db"
    "ad_users d1 = ad_users db" "ad_now d1 = ad_now db" "ad_tokens d1 = ad_tokens db"
    by (cases "snd (redirect_of E None)") (simp_all add: audit_substituted_def audited_def eff_defs)
  let ?d2 = "snd (consume_one_time Recovery (en_sha E token) d1)"
  have sp: "spendable [Recovery] (en_sha E token) d1 = spendable [Recovery] (en_sha E token) db"
    by (rule ext) (simp add: spendable_def a)
  have c: "state_op (consume_one_time Recovery (en_sha E token)) d1 = (Inr (Some k), ?d2)"
    using k by (simp add: state_op_def consume_one_time_def consume_either_def sp a)
  have f2: "find_user_by_id (ot_user k) ?d2 = Some user" "ad_tokens ?d2 = ad_tokens db"
    using u a by (simp_all add: consume_one_time_def consume_either_def find_user_by_id_def)
  obtain s x db' where v: "verified E Recovery user meta sid rnd ?d2 = (Inr (s, x), db')" "at_session (is_access s) = sid"
    "at_sub (is_access s) = eu_id user" "''recovery'' \<in> set (at_amr (is_access s))" "live_session sid (eu_id user) db'"
    using verified_issues[of user ?d2 E rnd Recovery meta sid] f2 h uk by auto
  show ?thesis
    using a(1) c f2(1) v uk
    by (auto simp: verify_post_def do_verify_def and_then_def gets_def ret_def Let_def)
qed

text \<open>
  A banned user, refused by the password grant whatever the password, follows a recovery link and gets a
  live session whose token may set a new password.
\<close>

theorem ban_does_not_stop_a_recovery_link:
  assumes u: "find_user_by_id (ot_user k) db = Some user" and ban: "banned_at (ad_now db) user"
    and k: "List.find (spendable [Recovery] (en_sha E token) db) (ad_links db) = Some k"
    and h: "en_sha E (new_refresh_token rnd) \<notin> rt_hash ` set (ad_tokens db)"
  shows "(\<exists>s db'. verify_post E False token ''recovery'' meta sid rnd db = (Inr s, db') \<and>
      ''recovery'' \<in> set (at_amr (is_access (fst s))) \<and> live_session sid (ot_user k) db') \<and>
    (\<exists>e. fst (password_checked (en_ctx E) (en_passwords E) password stored user db) = Inl e)"
proof -
  have "\<exists>e. fst (password_checked (en_ctx E) (en_passwords E) password stored user db) = Inl e"
    using ban
    by (auto simp: password_checked_def verify_password_def and_then_def ret_def throw_def gets_def refuse_eq
        split: option.splits)
  then show ?thesis using verify_post_issues[OF k u h, of meta sid] by auto
qed

lemma change_email_keeps_recovery:
  assumes c: "change_email i email db = (Inr Change_applied, db1)"
    and k: "List.find (spendable [Recovery] h db) (ad_links db) = Some k"
  shows "List.find (spendable [Recovery] h db1) (ad_links db1) = Some k \<and> ad_now db1 = ad_now db \<and>
    set (map rt_hash (ad_tokens db1)) = set (map rt_hash (ad_tokens db)) \<and>
    (\<forall>j. find_user_by_id j db \<noteq> None \<longrightarrow> find_user_by_id j db1 \<noteq> None)"
proof -
  obtain d1 where d1: "apply_email_change i email db = (True, d1)"
    using c by (auto simp: change_email_def and_then_def state_op_def modifies_def audited_def ret_def split: prod.splits if_splits)
  let ?f = "\<lambda>u. u\<lparr>eu_email := Some email, eu_confirmed := Some (ad_now db)\<rparr>"
  have a: "ad_links d1 = ad_links db" "ad_now d1 = ad_now db" "ad_tokens d1 = ad_tokens db"
    "ad_users d1 = upd_where (\<lambda>u. eu_id u = i \<and> live_user u) ?f (ad_users db)"
    using d1 by (auto simp: apply_email_change_def split: option.splits if_splits)
  have r: "ad_links (snd (revoke_user_sessions i ScopeGlobal x d)) = ad_links d"
    "ad_now (snd (revoke_user_sessions i ScopeGlobal x d)) = ad_now d"
    "ad_users (snd (revoke_user_sessions i ScopeGlobal x d)) = ad_users d"
    "set (map rt_hash (ad_tokens (snd (revoke_user_sessions i ScopeGlobal x d)))) = set (map rt_hash (ad_tokens d))" for x d
    by (simp_all add: revoke_user_sessions_def Let_def revoke_sessions_def revoke_tokens_def upd_where_image)
  have db1: "db1 = write_auth_audit ''email_changed'' (Some i)
      (snd (revoke_user_sessions i ScopeGlobal ''00000000-0000-0000-0000-000000000000'' (clear_email_change_tokens i d1)))"
    using c d1 by (auto simp: change_email_def and_then_def state_op_def modifies_def audited_def ret_def case_prod_beta)
  have d: "ad_links db1 = filter (\<lambda>k. \<not> email_change_link i k) (ad_links db)" "ad_now db1 = ad_now db"
    "ad_users db1 = ad_users d1" "set (map rt_hash (ad_tokens db1)) = set (map rt_hash (ad_tokens db))"
    using r(4)[of "''00000000-0000-0000-0000-000000000000''" "clear_email_change_tokens i d1"]
    by (simp_all add: db1 r(1-3) clear_email_change_tokens_def a)
  have lv: "(\<exists>u \<in> set (ad_users db1). eu_id u = j \<and> live_user u) = (\<exists>u \<in> set (ad_users db). eu_id u = j \<and> live_user u)" for j
  proof -
    have "(\<exists>u \<in> set us. eu_id u = j \<and> live_user u) = ((j, None) \<in> (\<lambda>u. (eu_id u, eu_deleted u)) ` set us)" for us
      by (auto simp: live_user_def image_iff)
    moreover have "(\<lambda>u. (eu_id u, eu_deleted u)) ` set (ad_users db1) = (\<lambda>u. (eu_id u, eu_deleted u)) ` set (ad_users db)"
      unfolding d(3) a(4) by (rule upd_where_image) simp
    ultimately show ?thesis by simp
  qed
  have sp: "spendable [Recovery] h db1 = spendable [Recovery] h db"
    by (rule ext) (simp add: spendable_def d(2) lv)
  have "List.find (spendable [Recovery] h db1) (ad_links db1) = List.find (spendable [Recovery] h db) (ad_links db)"
    unfolding sp d(1) find_filter by (rule find_cong_set) (auto simp: spendable_def email_change_link_def)
  moreover have "find_user_by_id j db1 \<noteq> None" if "find_user_by_id j db \<noteq> None" for j
  proof -
    have "(find_user_by_id j d \<noteq> None) = (\<exists>u \<in> set (ad_users d). eu_id u = j \<and> live_user u)" for d
      by (cases "find_user_by_id j d") (auto simp: find_user_by_id_def find_None_iff dest: find_SomeD)
    then show ?thesis using that lv[of j] by simp
  qed
  ultimately show ?thesis using k d(2,4) by simp
qed

text \<open>
  A recovery link mailed to the old address before an email change was applied still signs its holder in
  to the account afterwards, with the right to set a new password.
\<close>

theorem old_mailbox_keeps_a_way_in:
  assumes change: "change_email i email db = (Inr Change_applied, db1)"
    and k: "List.find (spendable [Recovery] (en_sha E token) db) (ad_links db) = Some k" "ot_user k = i"
    and h: "en_sha E (new_refresh_token rnd) \<notin> rt_hash ` set (ad_tokens db)"
  shows "\<exists>s db'. verify_post E False token ''recovery'' meta sid rnd db1 = (Inr s, db') \<and>
    at_sub (is_access (fst s)) = i \<and> ''recovery'' \<in> set (at_amr (is_access (fst s))) \<and> live_session sid i db'"
proof -
  from change_email_keeps_recovery[OF change k(1)]
  have k1: "List.find (spendable [Recovery] (en_sha E token) db1) (ad_links db1) = Some k"
    and t1: "rt_hash ` set (ad_tokens db1) = rt_hash ` set (ad_tokens db)"
    and f: "find_user_by_id j db \<noteq> None \<Longrightarrow> find_user_by_id j db1 \<noteq> None" for j by auto
  have "find_user_by_id i db \<noteq> None"
    using find_SomeD[OF k(1)] k(2) by (auto simp: spendable_def find_user_by_id_def find_None_iff)
  then obtain user where "find_user_by_id (ot_user k) db1 = Some user" using f k(2) by fastforce
  from verify_post_issues[OF k1 this, of rnd meta sid] h t1 k(2) show ?thesis by auto
qed

text \<open>
  With double confirmation: if the old address confirmed one proposal and a new one stops after its first
  link is issued, one click at the newly proposed address changes the account's email, which the
  old address never agreed to.
\<close>

theorem half_a_proposal_inherits_the_old_consent:
  assumes double: "ac_double (config_of E)"
    and user: "find_user_by_id i db = Some user" and free: "\<not> email_taken i email db" "email \<noteq> []"
    and consent: "List.find (link_of i EmailChangeCurrent) (ad_links db) = Some c" "ot_used c \<noteq> None" "ot_relates c = Some other"
    and fresh: "only_link (en_sha E token) (ad_links db)"
    and issue: "issue_link E j i EmailChangeNew token (Some email) db = (r, db1)"
  shows "fst (verify_email_change E False token db1) = Inr Change_applied"
proof -
  have d: "db1 = snd (issue_one_time j i EmailChangeNew (en_sha E token) (Some email) db)" using issue by (auto simp: issue_effect)
  have fr: "ad_users db1 = ad_users db" "ad_now db1 = ad_now db" unfolding d by (simp_all add: issue_one_time_def Let_def)
  have ui: "user \<in> set (ad_users db)" "eu_id user = i" "live_user user"
    using user by (auto simp: find_user_by_id_def dest!: find_SomeD)
  obtain k where k: "fst (consume_one_time EmailChangeNew (en_sha E token) db1) = Some k"
    using issued_link_spendable[of db1 j user EmailChangeNew "en_sha E token" "Some email" db] ui fr d by auto
  let ?sp = "spendable [EmailChangeCurrent, EmailChangeNew] (en_sha E token) db1"
  have new: "link_of i EmailChangeNew x \<and> ot_relates x = Some email" if "x \<in> set (ad_links db1)" "ot_hash x = en_sha E token" for x
    using that fresh unfolding d
    by (auto simp: issue_one_time_def Let_def upd_where_set link_of_def only_link_def split: if_splits)
  have "\<exists>x. List.find ?sp (ad_links db1) = Some x"
  proof -
    have "k \<in> set (ad_links db1)" "?sp k"
      using k by (auto simp: consume_one_time_def consume_either_def spendable_def dest!: find_SomeD)
    then show ?thesis by (cases "List.find ?sp (ad_links db1)") (auto simp: find_None_iff)
  qed
  then obtain x where x: "List.find ?sp (ad_links db1) = Some x" by blast
  then have xi: "link_of i EmailChangeNew x" "ot_relates x = Some email"
    using new find_SomeD[OF x] by (auto simp: spendable_def)
  let ?d2 = "snd (consume_either [EmailChangeCurrent, EmailChangeNew] (en_sha E token) db1)"
  have cu: "List.find (link_of i EmailChangeCurrent) (ad_links db1) = Some c"
    unfolding d using consent(1)
    by (auto simp: issue_one_time_def Let_def find_upd_where link_of_def find_append dest!: find_SomeD)
  have "List.find (link_of i EmailChangeCurrent) (ad_links ?d2) =
      map_option (\<lambda>x. if ?sp x then x\<lparr>ot_used := Some (ad_now db1)\<rparr> else x) (Some c)"
    unfolding cu[symmetric] by (simp add: consume_either_def find_upd_where link_of_def)
  then have sib: "sibling_consumed i EmailChangeCurrent ?d2" using consent(2) by (simp add: sibling_consumed_def)
  have f2: "find_user_by_id i ?d2 = Some user" "\<not> email_taken i email ?d2"
    using user free(1) fr by (simp_all add: find_user_by_id_def email_taken_def consume_either_def)
  obtain d3 where ap: "apply_email_change i email ?d2 = (True, d3)" using f2 by (simp add: apply_email_change_def)
  have "fst (change_email i email ?d2) = Inr Change_applied"
    by (simp add: change_email_def and_then_def state_op_def ap modifies_def audited_def ret_def case_prod_beta)
  moreover have "state_op (consume_either [EmailChangeCurrent, EmailChangeNew] (en_sha E token)) db1 = (Inr (Some x), ?d2)"
    using x by (simp add: state_op_def consume_either_def)
  ultimately show ?thesis
    using xi sib double free(2)
    by (auto simp: verify_email_change_def and_then_def gets_def link_of_def other_side_def)
qed


subsection \<open>Signing in\<close>

lemma password_checked_outcome:
  "password_checked ctx P pw stored user db =
    (case pw_verify P pw stored of
       None \<Rightarrow> (Inl (AuthError 500 A_INTERNAL), db)
     | Some (ok, rehash) \<Rightarrow>
         if \<not> ok then (Inl bad_credentials, write_auth_audit ''login_failed_bad_password'' (Some (eu_id user)) db)
         else if banned_at (ad_now db) user
         then (Inl bad_credentials, write_auth_audit ''login_failed_banned'' (Some (eu_id user)) db)
         else if eu_confirmed user = None \<and> \<not> ac_autoconfirm (pc_config ctx)
         then (Inl (AuthError 400 A_EMAIL_NOT_CONFIRMED), write_auth_audit ''login_failed_unconfirmed'' (Some (eu_id user)) db)
         else (Inr rehash, db))"
  by (auto simp: password_checked_def verify_password_def and_then_def ret_def throw_def gets_def refuse_eq
      split: option.splits prod.splits)

definition may_sign_in :: "project_ctx \<Rightarrow> passwords \<Rightarrow> string \<Rightarrow> string \<Rightarrow> auth_db \<Rightarrow> bool" where
  "may_sign_in ctx P email password db =
     (\<exists>user stored rehash. find_user_by_email email db = Some user \<and> eu_hash user = Some stored \<and> stored \<noteq> [] \<and>
        pw_verify P password stored = Some (True, rehash) \<and> \<not> banned_at (ad_now db) user \<and>
        (eu_confirmed user \<noteq> None \<or> ac_autoconfirm (pc_config ctx)))"

definition only_unconfirmed :: "passwords \<Rightarrow> string \<Rightarrow> string \<Rightarrow> auth_db \<Rightarrow> bool" where
  "only_unconfirmed P email password db =
     (\<exists>user stored rehash. find_user_by_email email db = Some user \<and> eu_hash user = Some stored \<and>
        pw_verify P password stored = Some (True, rehash) \<and> \<not> banned_at (ad_now db) user \<and> eu_confirmed user = None)"

lemma sign_in_tail_error:
  assumes "fst (and_then (if rehash then upgrade_hash P salt u pw else ret ()) (\<lambda>_.
      and_then (issue_session ctx sha sid rnd u e meta []) (\<lambda>s.
      and_then (modifies (mark_signed_in u)) (\<lambda>_.
      and_then (audited ''login'' (Some u)) (\<lambda>_. ret (s, x))))) db) = Inl err"
  shows "err = AuthError 500 A_INTERNAL"
proof -
  have i: "issue_session ctx sha sid rnd u e meta [] d = (Inl z, d') \<Longrightarrow> z = AuthError 500 A_INTERNAL" for d z d'
    by (auto simp: issue_session_def and_then_def open_unfold insert_token_def unique_violation_def gets_def ret_def Let_def
        split: prod.splits sum.splits if_splits)
  have "fst (and_then (issue_session ctx sha sid rnd u e meta []) (\<lambda>s.
      and_then (modifies (mark_signed_in u)) (\<lambda>_. and_then (audited ''login'' (Some u)) (\<lambda>_. ret (s, x)))) d) = Inl z \<Longrightarrow>
      z = AuthError 500 A_INTERNAL" for d z
    using i[of d] by (auto simp: and_then_def modifies_def audited_def ret_def split: prod.splits sum.splits)
  then show ?thesis using assms
    by (auto simp: upgrade_hash_def hash_password_def lift_error_def and_then_def[of "lift_error _ _"] and_then_def[of "modifies _"]
        and_then_def[of "if rehash then _ else _"] and_then_def[of "and_then _ _"] modifies_def audited_def ret_def throw_def
        split: if_splits prod.splits sum.splits)
qed

text \<open>
  C40. The password grant answers a session only to a live, unbanned, confirmed (or autoconfirmed) user whose
  password verifies, below the rate limit; every refusal is one of four answers, and the one that names the unconfirmed
  address is given only to a caller with the correct password.
\<close>

theorem sign_in_is_gated:
  "case fst (password_grant ctx P sha over email password meta sid rnd salt db) of
     Inr _ \<Rightarrow> \<not> over \<and> may_sign_in ctx P email password db
   | Inl e \<Rightarrow> e \<in> {too_many, bad_credentials, AuthError 500 A_INTERNAL} \<union>
       (if only_unconfirmed P email password db then {AuthError 400 A_EMAIL_NOT_CONFIRMED} else {})"
proof (cases over)
  case True
  then show ?thesis by (simp add: password_grant_def throw_def too_many_def)
next
  case over: False
  show ?thesis
  proof (cases "find_user_by_email email db")
    case None
    then show ?thesis using over by (simp add: password_grant_def and_then_def gets_def refuse_eq bad_credentials_def)
  next
    case (Some user)
    show ?thesis
    proof (cases "\<exists>stored. eu_hash user = Some stored \<and> stored \<noteq> []")
      case False
      then show ?thesis using over Some
        by (auto simp: password_grant_def and_then_def gets_def refuse_eq bad_credentials_def split: option.splits)
    next
      case True
      then obtain stored where st: "eu_hash user = Some stored" "stored \<noteq> []" by blast
      let ?tail = "\<lambda>rehash. and_then (if rehash then upgrade_hash P salt (eu_id user) password else ret ()) (\<lambda>_.
        and_then (issue_session ctx sha sid rnd (eu_id user) (eu_email user) meta []) (\<lambda>s.
        and_then (modifies (mark_signed_in (eu_id user))) (\<lambda>_.
        and_then (audited ''login'' (Some (eu_id user))) (\<lambda>_. ret (s, publicUser user)))))"
      have e: "password_grant ctx P sha over email password meta sid rnd salt db =
          and_then (password_checked ctx P password stored user) ?tail db"
        using over Some st by (simp add: password_grant_def and_then_def gets_def)
      obtain c db1 where c: "password_checked ctx P password stored user db = (c, db1)" by fastforce
      show ?thesis
      proof (cases c)
        case (Inl err)
        then have "fst (password_grant ctx P sha over email password meta sid rnd salt db) = Inl err"
          using e c by (simp add: and_then_def)
        then show ?thesis using c Inl Some st
          by (auto simp: password_checked_outcome only_unconfirmed_def bad_credentials_def split: option.splits if_splits)
      next
        case (Inr rehash)
        then have r: "fst (password_grant ctx P sha over email password meta sid rnd salt db) = fst (?tail rehash db1)"
          using e c by (simp add: and_then_def)
        have m: "may_sign_in ctx P email password db"
          using c Inr Some st
          by (auto simp: password_checked_outcome may_sign_in_def split: option.splits if_splits)
        show ?thesis
        proof (cases "fst (?tail rehash db1)")
          case (Inl err)
          then show ?thesis using r sign_in_tail_error[OF Inl] by simp
        next
          case (Inr x)
          then show ?thesis using r m over by simp
        qed
      qed
    qed
  qed
qed

text \<open>
  What \<open>/recover\<close> and \<open>/resend\<close> answer depends on the rate limit alone, never on whether the address has an
  account, is confirmed, or could be mailed.
\<close>

theorem recovery_tells_nothing:
  "fst (recover E over email redirect_to i token w) = (if over then Inl too_many else Inr ()) \<and>
   fst (resend E over email redirect_to i token w) = (if over then Inl too_many else Inr ())"
proof -
  have a: "fst (on_db (audited x u) v) = Inr ()" for x u and v :: "'a auth_world"
    by (simp add: on_db_def audited_def modifies_def)
  have s: "fst (send_confirmation E u redirect_to i token v) = Inr ()" for u v
    using audit_substituted_frame[of E redirect_to "Some (eu_id u)"]
    by (simp add: send_confirmation_def and_then_def on_db_def issue_effect send_mail_def modifies_def
        audit_substituted_def audited_def ret_def)
  have "fst (resend E over email redirect_to i token w) = (if over then Inl too_many else Inr ())"
  proof (cases "over \<or> find_user_by_email email (aw_db w) = None")
    case True
    then show ?thesis using a by (auto simp: resend_def throw_def and_then_def gets_def)
  next
    case False
    then obtain u where u: "\<not> over" "find_user_by_email email (aw_db w) = Some u" by auto
    obtain v where v: "send_confirmation E u redirect_to i token w = (Inr (), v)" using s by (metis prod.collapse)
    show ?thesis using u v a by (simp add: resend_def and_then_def gets_def)
  qed
  moreover have "fst (recover E over email redirect_to i token w) = (if over then Inl too_many else Inr ())"
  proof (cases "over \<or> find_user_by_email email (aw_db w) = None")
    case True
    then show ?thesis using a by (auto simp: recover_def throw_def and_then_def gets_def)
  next
    case False
    then obtain user where u: "\<not> over" "find_user_by_email email (aw_db w) = Some user" by auto
    obtain res w' where r: "recover E False email redirect_to i token w = (res, w')" by fastforce
    from recover_effect[OF u(2) r] have "res = Inr ()" by blast
    with r u(1) show ?thesis by simp
  qed
  ultimately show ?thesis by simp
qed


subsection \<open>A link works once\<close>

definition quiet_step :: "string \<Rightarrow> auth_db \<Rightarrow> auth_db \<Rightarrow> bool" where
  \<comment> \<open>any request but one that issues a link with this digest\<close>
  "quiet_step h db db' = (auth_step db db' \<and> (\<forall>i user t r. db' \<noteq> snd (issue_one_time i user t h r db)))"

definition no_unspent :: "string \<Rightarrow> auth_db \<Rightarrow> bool" where
  "no_unspent h db = (\<forall>k \<in> set (ad_links db). ot_hash k = h \<longrightarrow> ot_used k \<noteq> None)"

lemma links_frame:
  "ad_links (bump_session sid db) = ad_links db" "ad_links (set_token t f db) = ad_links db"
  "ad_links (revoke_tokens p db) = ad_links db" "ad_links (revoke_sessions q db) = ad_links db"
  "ad_links (set_user i g db) = ad_links db"
  by (simp_all add: bump_session_def set_token_def revoke_tokens_def revoke_sessions_def set_user_def)

lemma links_ops:
  "ad_links (snd (rotate_refresh_token tid sid user child db)) = ad_links db"
  "ad_links (snd (grace_rotate par old sid user child db)) = ad_links db"
  "ad_links (snd (open_session sid user h ag ip db)) = ad_links db"
  "ad_links (snd (create_user i a db)) = ad_links db"
  "ad_links (snd (apply_email_change i e db)) = ad_links db"
  "ad_links (snd (admin_update_user i u db)) = ad_links db"
  "ad_links (snd (revoke_user_sessions i sc cur db)) = ad_links db"
  by (auto simp: rotate_unfold grace_unfold open_unfold insert_token_def set_token_def bump_session_def
      insert_session_def create_user_def apply_email_change_def admin_update_user_def revoke_user_sessions_def
      links_frame Let_def split: if_splits prod.splits sum.splits option.splits)

lemma quiet_step_unspent: "quiet_step h db db' \<Longrightarrow> no_unspent h db \<Longrightarrow> no_unspent h db'"
proof -
  assume q: "quiet_step h db db'" and n: "no_unspent h db"
  from q have "auth_step db db'" by (simp add: quiet_step_def)
  then show ?thesis
  proof cases
    case (step_issue user i t h2 relates)
    then have "h2 \<noteq> h" using q by (auto simp: quiet_step_def)
    then show ?thesis using n issued_links unfolding step_issue no_unspent_def by blast
  next
    case (step_consume types h2)
    then show ?thesis using n by (auto simp: no_unspent_def consume_either_def upd_where_set)
  next
    case (step_clear i)
    then show ?thesis using n by (auto simp: no_unspent_def clear_email_change_tokens_def)
  next
    case (step_delete i)
    then show ?thesis using n by (auto simp: no_unspent_def soft_delete_user_def Let_def links_frame split: option.splits)
  qed (use n in \<open>simp_all add: no_unspent_def links_ops links_frame revoke_session_family_def revoke_own_mark_def
      revoke_own_tokens_def update_password_hash_def mark_signed_in_def mark_email_confirmed_def update_user_metadata_def\<close>)
qed

text \<open>
  Once a one-time link has been spent, no request spends it again, whatever happens in between, until a
  link with the same digest is issued.
\<close>

theorem link_is_spent_once:
  assumes alone: "\<forall>x \<in> set (ad_links db). ot_hash x = h \<longrightarrow> x = k"
    and spent: "consume_either types h db = (Some k, db1)" and later: "(quiet_step h)\<^sup>*\<^sup>* db1 db2"
  shows "fst (consume_either any_types h db2) = None"
proof -
  have "no_unspent h db1"
    using alone spent
    by (auto simp: no_unspent_def consume_either_def upd_where_set dest!: find_SomeD)
  with later have "no_unspent h db2" by (induction rule: rtranclp_induct) (auto intro: quiet_step_unspent)
  then show ?thesis by (auto simp: consume_either_def find_None_iff no_unspent_def spendable_def)
qed

subsection \<open>One account, its mail and its links\<close>

definition plain_queue :: "string set queue_ops" where
  "plain_queue = \<lparr>q_has = (\<lambda>q k. k \<in> q), q_add = insert\<rparr>"

definition sample_env :: "string set auth_env" where
  "sample_env = \<lparr>en_ctx = sample_ctx, en_sha = (\<lambda>x. x),
     en_passwords = \<lparr>pw_hash = (\<lambda>salt pw. pw), pw_verify = (\<lambda>pw st. Some (pw = st, False))\<rparr>,
     en_parse = (\<lambda>_. None), en_queue = plain_queue\<rparr>"

definition sample_world :: "string set auth_world" where
  "sample_world = \<lparr>aw_db = signed_in,
     aw_mail = \<lparr>mw_redis = quiet_redis, mw_suppressed = [], mw_projects = [], mw_sends = [], mw_queue = {}, mw_handed = []\<rparr>\<rparr>"

lemma sample_user_found: "find_user_by_email ''a@b.c'' signed_in = Some sample_end_user"
  "find_user_by_id ''u1'' signed_in = Some sample_end_user" "eu_id sample_end_user = ''u1''"
  by (simp_all add: find_user_by_email_def find_user_by_id_def signed_in_eq sample_end_user_def has_email_def live_user_def)

definition first_mail :: "string set mail_world" where
  "first_mail = mailer_enqueue (\<lambda>x. x) plain_queue
     (mail_of sample_env ''recovery_u1'' Mail_recovery ''a@b.c'' (Some ''t1'')) (aw_mail sample_world)"

lemma first_mail_queued: "''recovery_u1'' \<in> mw_queue first_mail"
proof -
  have lower: "js_lower (js_trim ''a@b.c'') = ''a@b.c''" by code_simp
  have valid: "valid_delivery_id ''recovery_u1''" by code_simp
  have caps: "caps_for ''free'' None = \<lparr>ec_hour = 30, ec_day = 200, ec_distinct = 100, ec_rcpt_hour = 4, ec_rcpt_day = 10\<rparr>"
    by (simp add: caps_for_def CAPS_def)
  have "fst (check_and_consume (\<lambda>x. x) ''p1'' ''a@b.c'' (caps_for ''free'' None) False False quiet_redis) = Allowed"
    by (simp add: caps check_and_consume_def quiet_redis_def checks_def bump_def redis_add_def count_of_def redis_expire_def
        alive_def distinct_check_def pf_add_def set_of_def pf_expire_def pf_count_def Let_def DAY_TTL_def)
  then obtain r1 where "check_and_consume (\<lambda>x. x) ''p1'' ''a@b.c'' (caps_for ''free'' None) False False quiet_redis = (Allowed, r1)"
    by (metis prod.collapse)
  then show ?thesis
    using lower valid
    by (simp add: first_mail_def mailer_enqueue_def mail_of_def sample_env_def sample_ctx_def suppressed_in_def project_caps_def
        sample_world_def enqueue_auth_email_def plain_queue_def record_send_def Let_def)
qed

theorem second_request_kills_the_only_link_witness:
  "\<exists>w1 w2. recover sample_env False ''a@b.c'' None ''l1'' ''t1'' sample_world = (Inr (), w1) \<and>
     recover sample_env False ''a@b.c'' None ''l2'' ''t2'' w1 = (Inr (), w2) \<and>
     mw_handed (aw_mail w2) = mw_handed (aw_mail w1) \<and>
     fst (consume_one_time Recovery ''t1'' (aw_db w2)) = None"
proof -
  let ?w = sample_world
  obtain r1 w1 where first: "recover sample_env False ''a@b.c'' None ''l1'' ''t1'' ?w = (r1, w1)" by fastforce
  obtain r2 w2 where second: "recover sample_env False ''a@b.c'' None ''l2'' ''t2'' w1 = (r2, w2)" by fastforce
  have u: "find_user_by_email ''a@b.c'' (aw_db ?w) = Some sample_end_user"
    using sample_user_found by (simp add: sample_world_def)
  from recover_effect[OF u first] have r1: "r1 = Inr ()"
    and m: "aw_mail w1 = first_mail" by (simp_all add: first_mail_def sample_env_def sample_user_found)
  have sha: "en_sha sample_env = (\<lambda>x. x)" "en_queue sample_env = plain_queue" by (simp_all add: sample_env_def)
  have links: "only_link (en_sha sample_env ''t1'') (ad_links (aw_db ?w))"
    by (simp add: only_link_def sample_world_def signed_in_eq)
  have kept: "q_has (en_queue sample_env) (mw_queue (aw_mail w1)) (''recovery_'' @ eu_id sample_end_user)"
    using first_mail_queued m by (simp add: sha plain_queue_def sample_user_found)
  from second_request_kills_the_only_link[OF u links _ first kept second]
  show ?thesis using first second r1 by (auto simp: sha)
qed

definition recovering :: auth_db where
  "recovering = snd (issue_one_time ''l1'' ''u1'' Recovery ''t1'' None signed_in)"

lemma recovering_eq: "recovering = signed_in\<lparr>ad_links := [\<lparr>ot_id = ''l1'', ot_user = ''u1'', ot_type = Recovery,
    ot_hash = ''t1'', ot_relates = None, ot_created = 1000, ot_expires = 3601000, ot_used = None\<rparr>]\<rparr>"
  by (simp add: recovering_def issue_one_time_def Let_def signed_in_eq)

definition sample_link :: one_time where
  "sample_link = \<lparr>ot_id = ''l1'', ot_user = ''u1'', ot_type = Recovery, ot_hash = ''t1'', ot_relates = None,
     ot_created = 1000, ot_expires = 3601000, ot_used = None\<rparr>"

lemma recovering_link:
  "List.find (spendable [Recovery] ''t1'' recovering) (ad_links recovering) = Some sample_link"
  by (simp add: recovering_eq sample_link_def spendable_def signed_in_eq sample_end_user_def live_user_def)

definition ban_update :: admin_update where
  "ban_update = no_update\<lparr>au_banned := Some (Some 99999)\<rparr>"

definition banned_db :: auth_db where
  "banned_db = snd (admin_update_user ''u1'' ban_update recovering)"

lemma banned_db_eq: "banned_db = recovering\<lparr>ad_users := [sample_end_user\<lparr>eu_banned := Some 99999\<rparr>]\<rparr>"
  by (simp add: banned_db_def admin_update_user_def no_sets_def ban_update_def no_update_def find_user_by_id_def recovering_eq
      signed_in_eq sample_end_user_def live_user_def admin_sets_def set_if_def)

theorem ban_does_not_stop_a_recovery_link_witness:
  "\<exists>s db'. verify_post sample_env False ''t1'' ''recovery'' \<lparr>cm_agent = None, cm_ip = None\<rparr> ''s2'' (rnd_of CHR ''9'') banned_db
     = (Inr s, db') \<and> live_session ''s2'' ''u1'' db'"
proof -
  have u: "find_user_by_id (ot_user sample_link) banned_db = Some (sample_end_user\<lparr>eu_banned := Some 99999\<rparr>)"
    by (simp add: banned_db_eq sample_link_def find_user_by_id_def sample_end_user_def live_user_def)
  have ban: "banned_at (ad_now banned_db) (sample_end_user\<lparr>eu_banned := Some 99999\<rparr>)"
    by (simp add: banned_at_def banned_db_eq recovering_eq signed_in_eq)
  have k: "List.find (spendable [Recovery] (en_sha sample_env ''t1'') banned_db) (ad_links banned_db) = Some sample_link"
    by (simp add: banned_db_eq recovering_eq sample_env_def sample_link_def spendable_def signed_in_eq sample_end_user_def live_user_def)
  have h: "en_sha sample_env (new_refresh_token (rnd_of CHR ''9'')) \<notin> rt_hash ` set (ad_tokens banned_db)"
    by (simp add: banned_db_eq recovering_eq signed_in_eq sample_env_def sample_row_def)
  from ban_does_not_stop_a_recovery_link[OF u ban k h, of "\<lparr>cm_agent = None, cm_ip = None\<rparr>" "''s2''" "''pw''" "''h''"]
  show ?thesis by (auto simp: sample_link_def)
qed

theorem old_mailbox_keeps_a_way_in_witness:
  "\<exists>db1 s db'. change_email ''u1'' ''new@b.c'' recovering = (Inr Change_applied, db1) \<and>
     verify_post sample_env False ''t1'' ''recovery'' \<lparr>cm_agent = None, cm_ip = None\<rparr> ''s2'' (rnd_of CHR ''9'') db1 = (Inr s, db') \<and>
     live_session ''s2'' ''u1'' db'"
proof -
  have "fst (change_email ''u1'' ''new@b.c'' recovering) = Inr Change_applied"
    by (simp add: change_email_def and_then_def state_op_def apply_email_change_def find_user_by_id_def recovering_eq signed_in_eq
        sample_end_user_def live_user_def email_taken_def modifies_def audited_def ret_def case_prod_beta)
  then obtain db1 where c: "change_email ''u1'' ''new@b.c'' recovering = (Inr Change_applied, db1)" by (metis prod.collapse)
  have k: "List.find (spendable [Recovery] (en_sha sample_env ''t1'') recovering) (ad_links recovering) = Some sample_link"
    using recovering_link by (simp add: sample_env_def)
  have h: "en_sha sample_env (new_refresh_token (rnd_of CHR ''9'')) \<notin> rt_hash ` set (ad_tokens recovering)"
    by (simp add: recovering_eq signed_in_eq sample_env_def sample_row_def)
  from old_mailbox_keeps_a_way_in[OF c k _ h, of "\<lparr>cm_agent = None, cm_ip = None\<rparr>" "''s2''"]
  show ?thesis using c by (auto simp: sample_link_def)
qed

theorem deletion_is_final_witness:
  "find_user_by_id ''u1'' (snd (soft_delete_user ''u1'' signed_in)) = None"
proof -
  have "fst (soft_delete_user ''u1'' signed_in) = Some (Some ''a@b.c'')"
    using sample_user_found by (simp add: soft_delete_user_def Let_def sample_end_user_def)
  then have d: "soft_delete_user ''u1'' signed_in = (Some (Some ''a@b.c''), snd (soft_delete_user ''u1'' signed_in))"
    by (metis prod.collapse)
  from deletion_is_final[OF signed_in_reach d reach_refl] show ?thesis by blast
qed

theorem link_is_spent_once_witness:
  "fst (consume_either [Recovery] ''t1'' (snd (consume_either [Recovery] ''t1'' recovering))) = None"
proof (rule link_is_spent_once)
  show "\<forall>x \<in> set (ad_links recovering). ot_hash x = ''t1'' \<longrightarrow> x = sample_link"
    by (simp add: recovering_eq sample_link_def)
  show "consume_either [Recovery] ''t1'' recovering = (Some sample_link, snd (consume_either [Recovery] ''t1'' recovering))"
    using recovering_link by (simp add: consume_either_def)
qed simp

definition half_proposed :: auth_db where
  "half_proposed = signed_in\<lparr>ad_links := [\<lparr>ot_id = ''l1'', ot_user = ''u1'', ot_type = EmailChangeCurrent, ot_hash = ''t1'',
     ot_relates = Some ''first@b.c'', ot_created = 1000, ot_expires = 86401000, ot_used = Some 1500\<rparr>]\<rparr>"

theorem half_a_proposal_inherits_the_old_consent_witness:
  "fst (verify_email_change sample_env False ''t2''
     (snd (issue_link sample_env ''l2'' ''u1'' EmailChangeNew ''t2'' (Some ''second@b.c'') half_proposed))) = Inr Change_applied"
proof -
  have u: "find_user_by_id ''u1'' half_proposed = Some sample_end_user"
    using sample_user_found by (simp add: half_proposed_def find_user_by_id_def)
  obtain r db1 where i: "issue_link sample_env ''l2'' ''u1'' EmailChangeNew ''t2'' (Some ''second@b.c'') half_proposed = (r, db1)"
    by fastforce
  have "fst (verify_email_change sample_env False ''t2'' db1) = Inr Change_applied"
  proof (rule half_a_proposal_inherits_the_old_consent[OF _ u _ _ _ _ _ _ i])
    show "ac_double (config_of sample_env)" by (simp add: config_of_def sample_env_def sample_ctx_def AUTH_CONFIG_DEFAULTS_def)
    show "\<not> email_taken ''u1'' ''second@b.c'' half_proposed"
      by (simp add: email_taken_def half_proposed_def signed_in_eq sample_end_user_def)
    show "List.find (link_of ''u1'' EmailChangeCurrent) (ad_links half_proposed) = Some \<lparr>ot_id = ''l1'', ot_user = ''u1'',
        ot_type = EmailChangeCurrent, ot_hash = ''t1'', ot_relates = Some ''first@b.c'', ot_created = 1000,
        ot_expires = 86401000, ot_used = Some 1500\<rparr>"
      by (simp add: half_proposed_def link_of_def)
  qed (simp_all add: only_link_def half_proposed_def sample_env_def)
  then show ?thesis using i by simp
qed

end
