(* ===== verification/SqlText.thy ===== *)
theory SqlText
  imports SqlGuard
begin

text \<open>
  What the dashboard's SQL builders and the guard have in common: SQL text as a list of pieces
  (keywords, quoted identifiers, symbols, numbers, bound holes, spaces). \<open>lex_text_of\<close> gives the
  tokens the lexer of \<open>SqlLex\<close> reads in such a text whatever the identifiers contain, up to the
  positions (\<open>bare\<close>); \<open>split_one\<close> and \<open>split_two\<close> the statements the splitter makes of it, and
  \<open>quiet_scans\<close> passes over lists of columns of any length. No program code is modelled here.
\<close>


declare lex_from.simps(2) [simp del]

lemma lex_from_token:
  assumes "lex_step c s = (k, Some kd)"
  shows "lex_from i (c # s) = mk_token kd i k (c # s) # lex_from (i + k) (drop k (c # s))"
  using assms by (simp add: lex_from.simps(2))

subsection \<open>Pieces of generated SQL\<close>

datatype piece = Kw string | Idn string | Sym char | Num nat | Hole nat | Gap string

fun piece_text :: "piece \<Rightarrow> string" where
  "piece_text (Kw w) = w"
| "piece_text (Idn s) = quote_with dquote s"
| "piece_text (Sym c) = [c]"
| "piece_text (Num n) = string_of_nat n"
| "piece_text (Hole n) = CHR ''$'' # string_of_nat n"
| "piece_text (Gap w) = w"

definition text_of :: "piece list \<Rightarrow> string" where
  "text_of ps = concat (map piece_text ps)"

definition tok :: "token_kind \<Rightarrow> string \<Rightarrow> token" where
  "tok k v = \<lparr>tk_kind = k, tk_value = v, tk_start = 0, tk_end = 0\<rparr>"

fun piece_tokens :: "piece \<Rightarrow> token list" where
  "piece_tokens (Kw w) = [tok Word (js_upper w)]"
| "piece_tokens (Idn s) = [tok Ident (quote_with dquote s)]"
| "piece_tokens (Sym c) = [tok Punct [c]]"
| "piece_tokens (Num n) = [tok Number (string_of_nat n)]"
| "piece_tokens (Hole n) = [tok Punct ''$'', tok Number (string_of_nat n)]"
| "piece_tokens (Gap w) = []"

definition tokens_of :: "piece list \<Rightarrow> token list" where
  "tokens_of ps = concat (map piece_tokens ps)"

definition bare :: "token \<Rightarrow> token" where
  "bare t = t\<lparr>tk_start := 0, tk_end := 0\<rparr>"

definition letter :: "char \<Rightarrow> bool" where
  "letter c = (is_alnum c \<or> c = CHR ''_'')"

fun well_formed :: "piece \<Rightarrow> bool" where
  "well_formed (Kw w) = (w \<noteq> [] \<and> is_alpha (hd w) \<and> list_all letter w)"
| "well_formed (Sym c) = (c \<in> set ''(),;.=:*'')"
| "well_formed (Gap w) = list_all is_ws w"
| "well_formed _ = True"

fun may_precede :: "piece \<Rightarrow> string \<Rightarrow> bool" where
  "may_precede (Kw w) s = not_next (\<lambda>c. is_word_char c \<or> c = squote) s"
| "may_precede (Idn _) s = not_next (\<lambda>c. c = dquote) s"
| "may_precede (Num _) s = not_next is_number_char s"
| "may_precede (Hole _) s = not_next is_number_char s"
| "may_precede _ s = True"

fun fits_before :: "piece list \<Rightarrow> string \<Rightarrow> bool" where
  "fits_before [] rest = True"
| "fits_before (p # ps) rest = (well_formed p \<and> may_precede p (text_of ps @ rest) \<and> fits_before ps rest)"

lemma text_of_simps [simp]: "text_of [] = []" "text_of (p # ps) = piece_text p @ text_of ps"
  "text_of (ps @ qs) = text_of ps @ text_of qs"
  by (simp_all add: text_of_def)

lemma tokens_of_simps [simp]: "tokens_of [] = []" "tokens_of (p # ps) = piece_tokens p @ tokens_of ps"
  "tokens_of (ps @ qs) = tokens_of ps @ tokens_of qs"
  by (simp_all add: tokens_of_def)

lemma fits_append [simp]: "fits_before (ps @ qs) rest = (fits_before ps (text_of qs @ rest) \<and> fits_before qs rest)"
  by (induction ps) auto

lemma bare_mk_token: "k \<le> length s \<Longrightarrow> bare (mk_token kd i k (s @ rest)) = tok kd ((if kd = Word then js_upper else id) (take k s))"
  by (simp add: bare_def mk_token_def tok_def)

lemma bare_mk_whole: "bare (mk_token kd i (length s) (s @ rest)) = tok kd ((if kd = Word then js_upper else id) s)"
  by (simp add: bare_mk_token)

lemma string_of_nat_digits: "list_all is_digit (string_of_nat n) \<and> string_of_nat n \<noteq> []"
proof (induction n rule: string_of_nat.induct)
  case (1 n)
  have d: "is_digit (char_of (48 + m))" if "m < 10" for m :: nat
    using that by (simp add: is_digit_def unit_of_def)
  show ?case
  proof (cases "n < 10")
    case True
    then have "string_of_nat n = [char_of (48 + n)]" by (subst string_of_nat.simps) simp
    then show ?thesis using d[of n] True by simp
  next
    case False
    then have "string_of_nat n = string_of_nat (n div 10) @ [char_of (48 + n mod 10)]"
      by (subst string_of_nat.simps) simp
    then show ?thesis using "1.IH"[OF False] d[of "n mod 10"] by simp
  qed
qed

lemma lex_from_gap: "list_all is_ws w \<Longrightarrow> lex_from i (w @ rest) = lex_from (i + length w) rest"
proof (induction w arbitrary: i)
  case (Cons c w)
  then have "lex_from i (c # w @ rest) = lex_from (i + 1) (w @ rest)" by (intro lex_from_space) simp
  also have "\<dots> = lex_from (i + 1 + length w) rest" using Cons by simp
  finally show ?case by simp
qed simp

lemma lex_from_sym:
  assumes "c \<in> set ''(),;.=:*''"
  shows "lex_from i (c # rest) = mk_token Punct i 1 (c # rest) # lex_from (i + 1) rest"
proof -
  have "\<not> is_ws c" "\<not> is_digit c" "\<not> is_word_start c"
    using assms by (auto simp: char_class_defs is_word_start_def)
  moreover have "c \<notin> {CHR ''-'', CHR ''/'', CHR ''$'', CHR ''E'', CHR ''e'', squote, dquote}"
    using assms by auto
  ultimately have "lex_step c rest = (1, Some Punct)" by (simp add: lex_step_def)
  then show ?thesis using lex_from_token[of c rest 1 Punct i] by simp
qed

lemma lex_from_digits:
  assumes "list_all is_digit ds" "ds \<noteq> []" "not_next is_number_char rest"
  shows "lex_from i (ds @ rest) = mk_token Number i (length ds) (ds @ rest) # lex_from (i + length ds) rest"
proof -
  obtain c cs where ds: "ds = c # cs" using assms(2) by (cases ds) auto
  have cs: "\<forall>x \<in> set cs. is_number_char x" using assms(1) ds by (auto simp: list_all_iff is_number_char_def)
  then have tw: "takeWhile is_number_char (cs @ rest) = cs"
    using assms(3) by (cases rest) (auto simp: takeWhile_append2 not_next_def)
  have c: "is_digit c" using assms(1) ds by simp
  then have "\<not> is_ws c" "c \<noteq> CHR ''-''" "c \<noteq> CHR ''/''" "c \<noteq> CHR ''$''" "c \<noteq> CHR ''E''" "c \<noteq> CHR ''e''"
    "c \<noteq> squote" "c \<noteq> dquote" by (auto simp: char_class_defs)
  then have "lex_step c (cs @ rest) = (length ds, Some Number)"
    using c tw ds by (simp add: lex_step_def)
  then show ?thesis using lex_from_token[of c "cs @ rest" "length ds" Number i] ds by simp
qed

lemma lex_from_dollar:
  assumes "list_all is_digit ds" "ds \<noteq> []"
  shows "lex_from i (CHR ''$'' # ds @ rest) = mk_token Punct i 1 (CHR ''$'' # ds @ rest) # lex_from (i + 1) (ds @ rest)"
proof -
  obtain c cs where ds: "ds = c # cs" using assms(2) by (cases ds) auto
  then have c: "c \<noteq> CHR ''$''" "\<not> tag_start c" using assms(1) by (auto simp: char_class_defs tag_start_def)
  then have "dollar_tag (CHR ''$'' # ds @ rest) = None"
    by (simp add: dollar_tag_def ds)
  then have "lex_step CHR ''$'' (ds @ rest) = (1, Some Punct)"
    by (simp add: lex_step_def is_word_start_def char_class_defs)
  then show ?thesis using lex_from_token[of "CHR ''$''" "ds @ rest" 1 Punct i] by simp
qed

lemma letter_word: "letter c \<Longrightarrow> is_word_char c"
  by (auto simp: letter_def is_word_char_def)

lemma lex_from_keyword:
  assumes "well_formed (Kw w)" "may_precede (Kw w) rest"
  shows "lex_from i (w @ rest) = mk_token Word i (length w) (w @ rest) # lex_from (i + length w) rest"
proof -
  obtain c cs where w: "w = c # cs" using assms(1) by (cases w) auto
  have n: "not_next is_word_char rest" "not_next (\<lambda>d. d = squote) rest"
    using assms(2) by (auto simp: not_next_def split: list.splits)
  have "is_word_start c" "\<not> is_ws c" "list_all is_word_char (c # cs)"
    using assms(1) by (auto simp: w is_word_start_def char_class_defs letter_def is_word_char_def list_all_iff)
  then show ?thesis using lex_from_word[of c cs rest i] n w by simp
qed

lemma lex_pieces:
  "fits_before ps rest \<Longrightarrow> \<exists>ts. lex_from i (text_of ps @ rest) = ts @ lex_from (i + length (text_of ps)) rest \<and>
     map bare ts = tokens_of ps"
proof (induction ps arbitrary: i)
  case (Cons p ps)
  let ?tail = "text_of ps @ rest" and ?t = "piece_text p"
  obtain ts where ts: "lex_from (i + length ?t) ?tail = ts @ lex_from (i + length ?t + length (text_of ps)) rest"
    "map bare ts = tokens_of ps"
    using Cons.IH[of "i + length ?t"] Cons.prems by auto
  have "\<exists>us. lex_from i (?t @ ?tail) = us @ lex_from (i + length ?t) ?tail \<and> map bare us = piece_tokens p"
  proof (cases p)
    case (Kw w)
    then show ?thesis using lex_from_keyword[of w ?tail i] Cons.prems bare_mk_whole[of Word i w ?tail] by auto
  next
    case (Idn s)
    then show ?thesis using lex_from_quoted_ident[of ?tail i s] Cons.prems
        bare_mk_whole[of Ident i "quote_with dquote s" ?tail] by auto
  next
    case (Sym c)
    then show ?thesis using lex_from_sym[of c i ?tail] Cons.prems bare_mk_whole[of Punct i "[c]" ?tail] by auto
  next
    case (Num n)
    then show ?thesis using lex_from_digits[of "string_of_nat n" ?tail i] string_of_nat_digits[of n] Cons.prems
        bare_mk_whole[of Number i "string_of_nat n" ?tail] by auto
  next
    case (Hole n)
    then show ?thesis
      using lex_from_dollar[of "string_of_nat n" i ?tail] lex_from_digits[of "string_of_nat n" ?tail "i + 1"]
        string_of_nat_digits[of n] Cons.prems
        bare_mk_whole[of Number "i + 1" "string_of_nat n" ?tail] bare_mk_whole[of Punct i "''$''" "string_of_nat n @ ?tail"]
      by (auto)
  next
    case (Gap w)
    then show ?thesis using lex_from_gap[of w i ?tail] Cons.prems by auto
  qed
  then obtain us where "lex_from i (?t @ ?tail) = us @ lex_from (i + length ?t) ?tail" "map bare us = piece_tokens p"
    by blast
  then show ?case using ts by (intro exI[of _ "us @ ts"]) (simp add: add.assoc)
qed simp

lemma lex_text_of: "fits_before ps [] \<Longrightarrow> map bare (lex (text_of ps)) = tokens_of ps"
  using lex_pieces[of ps "[]" 0] by (auto simp: lex_def)

subsection \<open>What the guard reads\<close>

lemma bare_simps [simp]:
  "tk_kind (bare t) = tk_kind t" "tk_value (bare t) = tk_value t" "is_punct c (bare t) = is_punct c t"
  "is_word w (bare t) = is_word w t" "is_name (bare t) = is_name t" "next_depth (bare t) d = next_depth t d"
  "bare (tok k v) = tok k v"
  by (simp_all add: bare_def is_punct_def is_word_def is_name_def next_depth_def tok_def)

lemma tok_simps [simp]:
  "tk_kind (tok k v) = k" "tk_value (tok k v) = v" "is_punct c (tok k v) = (k = Punct \<and> v = [c])"
  "is_word w (tok k v) = (k = token_kind.Word \<and> v = w)" "is_name (tok k v) = (k = token_kind.Word \<or> k = Ident)"
  by (simp_all add: tok_def is_punct_def is_word_def is_name_def)

lemma next_depth_tok [simp]:
  "next_depth (tok k v) d = (if k = Punct \<and> v = ''('' then d + 1 else if k = Punct \<and> v = '')'' then d - 1 else d)"
  by (simp add: next_depth_def)

lemma where_scan_bare: "where_scan d (map bare ts) = where_scan d ts"
  by (induction d ts rule: where_scan.induct) auto

lemma limit_scan_bare: "limit_scan d (map bare ts) = limit_scan d ts"
  by (induction d ts rule: limit_scan.induct) auto

lemma action_starts_bare: "action_starts d j (map bare ts) = action_starts d j ts"
  by (induction d j ts rule: action_starts.induct) auto

lemma drop_separators_bare: "drop_separators d (map bare ts) = map bare (drop_separators d ts)"
  by (induction d ts rule: drop_separators.induct) auto

lemma depth_after_bare: "depth_after d (map bare ts) = depth_after d ts"
  by (induction d ts rule: depth_after.induct) auto

lemma on_schema_bare: "on_schema (map bare ts) = on_schema ts"
  by (induction ts rule: on_schema.induct) auto

lemma grantee_scan_bare: "grantee_scan d a (map bare ts) = grantee_scan d a ts"
  by (induction d a ts rule: grantee_scan.induct) auto

lemma takeWhile_bare: "(\<And>t. P (bare t) = P t) \<Longrightarrow> takeWhile P (map bare ts) = map bare (takeWhile P ts)"
  by (induction ts) auto

lemma length_drop_separators_eq: "length (drop_separators d ts) = length ts \<longleftrightarrow> drop_separators d ts = ts"
proof (induction d ts rule: drop_separators.induct)
  case (2 d t ts)
  then show ?case using drop_separators_length[of d ts] by auto
qed simp

lemma drop_separators_shape: "map bare ts = us \<Longrightarrow> drop_separators d us = us \<Longrightarrow> drop_separators d ts = ts"
  using drop_separators_bare[of d ts] length_drop_separators_eq[of d ts]
  by (metis length_map)

lemma lead_shape: "lead st = (case map bare (st_tokens st) of [] \<Rightarrow> [] | t # _ \<Rightarrow> if tk_kind t = token_kind.Word then tk_value t else [])"
  by (cases "st_tokens st") (auto simp: lead_def)

subsection \<open>Splitting a generated script\<close>

lemma split_loop_step:
  assumes "drop_separators d ts = ts" "depth_after d ts = 0" "is_punct CHR '';'' semi"
  shows "split_loop sql cur d (ts @ semi # us) = push_statement sql (cur @ ts) (tk_start semi) @ split_loop sql [] 0 us"
  using assms
proof (induction ts arbitrary: cur d)
  case (Cons t ts)
  have n: "\<not> (is_punct CHR '';'' t \<and> d = 0)"
    using Cons.prems(1) drop_separators_length[of d ts] by (auto split: if_splits)
  then have "drop_separators (next_depth t d) ts = ts" using Cons.prems(1) by (auto split: if_splits)
  then show ?case using Cons.IH[of "next_depth t d" "cur @ [t]"] Cons.prems n by auto
qed simp

lemma pushed:
  assumes "lex sql = pre @ ts @ semi # us" "ts \<noteq> []"
  obtains st where "push_statement sql ts (tk_start semi) = [st]" "st_tokens st = ts"
proof -
  have c: "list_all (token_covers sql) ts" and o: "sorted_wrt token_before (ts @ semi # us)"
    using lex_tokens_follow_aux[of sql] assms(1) by (auto simp: sorted_wrt_append)
  have "tk_start (hd ts) < tk_start semi"
    using c o assms(2) by (cases ts) (auto simp: token_covers_def token_before_def)
  then show ?thesis using push_statement_tokens[OF c assms(2)] that by blast
qed

lemma map_append_ConsE:
  assumes "map f xs = ys @ z # zs"
  obtains us v ws where "xs = us @ v # ws" "map f us = ys" "f v = z" "map f ws = zs"
  using assms by (auto simp: map_eq_append_conv map_eq_Cons_conv Cons_eq_map_conv)

definition statement_of :: "token list \<Rightarrow> bool" where
  "statement_of ts = (ts \<noteq> [] \<and> drop_separators 0 ts = ts \<and> depth_after 0 ts = 0)"

lemma split_one:
  assumes "map bare (lex sql) = ts @ [tok Punct '';'']" "statement_of ts"
  obtains st where "split_sql sql = [st]" "map bare (st_tokens st) = ts"
proof -
  obtain us semi where l: "lex sql = us @ semi # []" "map bare us = ts" "bare semi = tok Punct '';''"
    using assms(1) by (elim map_append_ConsE) auto
  have semi: "is_punct CHR '';'' semi" using l(3) bare_simps(3)[of "CHR '';''" semi] by simp
  have us: "us \<noteq> []" "drop_separators 0 us = us" "depth_after 0 us = 0"
    using assms(2) l(2) drop_separators_shape[OF l(2), of 0] depth_after_bare[of 0 us] by (auto simp: statement_of_def)
  obtain st where st: "push_statement sql us (tk_start semi) = [st]" "st_tokens st = us"
    using pushed[of sql "[]" us semi "[]"] l(1) us(1) by auto
  have "split_sql sql = [st]"
    using split_loop_step[OF us(2,3) semi, of sql "[]" "[]"] st(1) l(1) by (simp add: split_sql_def)
  then show ?thesis using that st(2) l(2) by blast
qed

lemma split_two:
  assumes "map bare (lex sql) = ts @ tok Punct '';'' # rs @ [tok Punct '';'']" "statement_of ts" "statement_of rs"
  obtains st su where "split_sql sql = [st, su]" "map bare (st_tokens st) = ts" "map bare (st_tokens su) = rs"
proof -
  obtain us semi ws where l: "lex sql = us @ semi # ws" "map bare us = ts" "bare semi = tok Punct '';''"
    "map bare ws = rs @ [tok Punct '';'']"
    using assms(1) by (elim map_append_ConsE) auto
  then obtain vs semi2 where r: "ws = vs @ semi2 # []" "map bare vs = rs" "bare semi2 = tok Punct '';''"
    by (elim map_append_ConsE) auto
  have semi: "is_punct CHR '';'' semi" "is_punct CHR '';'' semi2"
    using l(3) r(3) bare_simps(3)[of "CHR '';''" semi] bare_simps(3)[of "CHR '';''" semi2] by simp_all
  have us: "us \<noteq> []" "drop_separators 0 us = us" "depth_after 0 us = 0"
    using assms(2) l(2) drop_separators_shape[OF l(2), of 0] depth_after_bare[of 0 us] by (auto simp: statement_of_def)
  have vs: "vs \<noteq> []" "drop_separators 0 vs = vs" "depth_after 0 vs = 0"
    using assms(3) r(2) drop_separators_shape[OF r(2), of 0] depth_after_bare[of 0 vs] by (auto simp: statement_of_def)
  obtain st where st: "push_statement sql us (tk_start semi) = [st]" "st_tokens st = us"
    using pushed[of sql "[]" us semi ws] l(1) us(1) by auto
  obtain su where su: "push_statement sql vs (tk_start semi2) = [su]" "st_tokens su = vs"
    using pushed[of sql "us @ [semi]" vs semi2 "[]"] l(1) r(1) vs(1) by auto
  have "split_sql sql = [st, su]"
    using split_loop_step[OF us(2,3) semi(1), of sql "[]" ws] split_loop_step[OF vs(2,3) semi(2), of sql "[]" "[]"]
      st(1) su(1) l(1) r(1) by (simp add: split_sql_def)
  then show ?thesis using that st(2) l(2) su(2) r(2) by blast
qed

lemma split_bare:
  assumes "map bare (lex sql) = ts" "ts \<noteq> []" "drop_separators 0 ts = ts"
  obtains st where "split_sql sql = [st]" "map bare (st_tokens st) = ts"
proof -
  have "lex sql \<noteq> []" using assms(1,2) by auto
  then obtain st where "split_sql sql = [st]" "st_tokens st = lex sql"
    using split_sql_single[OF refl _ drop_separators_shape[OF assms(1,3)]] by metis
  then show ?thesis using that assms(1) by simp
qed

subsection \<open>Quiet tokens\<close>

definition quiet :: "token \<Rightarrow> bool" where
  "quiet t = (tk_kind t \<noteq> token_kind.Word \<and> \<not> is_punct CHR ''('' t \<and> \<not> is_punct CHR '')'' t \<and> \<not> is_punct CHR '';'' t)"

lemma quiet_tok [simp]: "quiet (tok k v) = (k \<noteq> token_kind.Word \<and> \<not> (k = Punct \<and> v \<in> {''('', '')'', '';''}))"
  by (auto simp: quiet_def)

lemma quiet_scans:
  assumes "list_all quiet ts"
  shows "drop_separators d (ts @ us) = ts @ drop_separators d us" "depth_after d (ts @ us) = depth_after d us"
    "where_scan d (ts @ us) = where_scan d us" "limit_scan d (ts @ us) = limit_scan d us"
    "d > 0 \<Longrightarrow> action_starts d j (ts @ us) = action_starts d (j + length ts) us"
  using assms
  by (induction ts arbitrary: j) (auto simp: quiet_def next_depth_def is_word_def)

fun sep_by :: "piece list \<Rightarrow> piece list list \<Rightarrow> piece list" where
  "sep_by sep [] = []"
| "sep_by sep [x] = x"
| "sep_by sep (x # y # xs) = x @ sep @ sep_by sep (y # xs)"

definition soft :: "string \<Rightarrow> bool" where
  \<comment> \<open>what any piece may precede\<close>
  "soft s = not_next (\<lambda>c. is_word_char c \<or> c = squote \<or> c = dquote \<or> is_number_char c) s"

lemma soft_simps [simp]: "soft []"
  "soft (c # s) = (\<not> (is_word_char c \<or> c = squote \<or> c = dquote \<or> is_number_char c))"
  by (simp_all add: soft_def not_next_def)

lemma soft_precede: "soft s \<Longrightarrow> may_precede p s"
  by (cases p) (auto simp: soft_def not_next_def split: list.splits)

lemma text_of_sep_by: "text_of (sep_by sep xs) = js_join (text_of sep) (map text_of xs)"
  by (induction sep xs rule: sep_by.induct) auto

lemma fits_sep_by:
  assumes "\<And>x r. x \<in> set xs \<Longrightarrow> soft r \<Longrightarrow> fits_before x r" "\<And>r. fits_before sep r \<and> soft (text_of sep @ r)" "soft rest"
  shows "fits_before (sep_by sep xs) rest"
  using assms by (induction sep xs rule: sep_by.induct) auto

lemma quiet_sep_by:
  "list_all quiet (tokens_of sep) \<Longrightarrow> (\<And>x. x \<in> set xs \<Longrightarrow> list_all quiet (tokens_of x)) \<Longrightarrow>
    list_all quiet (tokens_of (sep_by sep xs))"
  by (induction sep xs rule: sep_by.induct) auto

lemma tokens_sep_by_Nil: "(\<And>x. x \<in> set xs \<Longrightarrow> tokens_of x \<noteq> []) \<Longrightarrow> tokens_of (sep_by sep xs) = [] \<longleftrightarrow> xs = []"
  by (cases "(sep, xs)" rule: sep_by.cases) auto

end
