(* ===== verification/GridSql.thy ===== *)
theory GridSql
  imports SqlText SqlRun
begin

text \<open>
  The statements the dashboard's grid runs: \<open>apps/dashboard/src/lib/grid-sql.ts\<close> (quoting, a page of
  rows, the exact count) and \<open>dml.ts\<close> (row edits as bound statements).

  A row's values are \<open>'v js_value\<close>, with JavaScript's two absent values told apart; how a value
  prints is the parameter \<open>show_value\<close>. The bodies of the messages are the source's, with the em
  dash and the typographic apostrophe, which are no Latin-1 characters, written as units 0x97 and 0x92.

  Proved: the server's guard of \<open>SqlGuard\<close> and \<open>SqlRun\<close> reads every row edit as one safe statement,
  admits it unconfirmed and runs exactly the previewed text, whatever the table, its columns and the
  values are called; its holes are numbered from 1 to the number of parameters; and the row limit is
  never appended to a page of the grid.
\<close>


definition quote :: "string \<Rightarrow> string" where
  "quote identifier =
     [dquote] @ concat (map (\<lambda>c. if c = dquote then [dquote, dquote] else [c]) identifier) @ [dquote]"

definition qualified_name :: "string \<Rightarrow> string \<Rightarrow> string" where
  "qualified_name schema table = quote schema @ ''.'' @ quote table"

datatype sort_direction = Asc | Desc

record grid_request =
  pr_schema :: string
  pr_table :: string
  pr_columns :: "string list"
  pr_page :: nat
  pr_size :: nat
  pr_sort :: "(string \<times> sort_direction) option"
  pr_key :: "string list"

abbreviation nl :: string where "nl \<equiv> [newline]"

definition page_order :: "grid_request \<Rightarrow> string" where
  "page_order req =
     (case pr_sort req of
        Some (c, d) \<Rightarrow> nl @ ''order by '' @ quote c @ '' '' @ (case d of Desc \<Rightarrow> ''desc'' | Asc \<Rightarrow> ''asc'')
      | None \<Rightarrow> if pr_key req \<noteq> [] then nl @ ''order by '' @ js_join '', '' (map quote (pr_key req)) else [])"

definition page_sql :: "grid_request \<Rightarrow> string" where
  \<comment> \<open>\<open>params\<close> is empty\<close>
  "page_sql req =
     ''select '' @ (if pr_columns req \<noteq> [] then js_join '', '' (map quote (pr_columns req)) else ''*'')
       @ nl @ ''  from '' @ qualified_name (pr_schema req) (pr_table req) @ page_order req
       @ nl @ '' limit '' @ string_of_nat (pr_size req) @ '' offset '' @ string_of_nat (pr_page req * pr_size req)"

definition count_sql :: "string \<Rightarrow> string \<Rightarrow> string" where
  "count_sql schema table = ''select count(*) as exact from '' @ qualified_name schema table"

subsection \<open>Row edits\<close>

datatype 'v js_value = Undefined | Null | Value 'v

datatype cell_value = CellText string | CellNull | CellDefault

datatype 'v bound = BoundNull | BoundText string | BoundKey 'v

datatype notice_kind = LockNotice | ScanNotice | ApiNotice | RlsNotice | DataNotice

record notice =
  no_kind :: notice_kind
  no_text :: string

record binding =
  bi_placeholder :: string
  bi_column :: string
  bi_value :: string

record 'v row_plan =
  rp_sql :: string
  rp_params :: "'v bound list"
  rp_done :: string
  rp_notices :: "notice list"
  rp_bindings :: "binding list"

definition data_notice :: "string \<Rightarrow> notice" where
  "data_notice s = \<lparr>no_kind = DataNotice, no_text = s\<rparr>"

definition hole :: "nat \<Rightarrow> string" where
  "hole n = CHR ''$'' # string_of_nat n"

definition bind_cell :: "cell_value \<Rightarrow> 'v bound" where
  \<comment> \<open>\<open>bind\<close>; a defaulted cell is filtered out before\<close>
  "bind_cell v = (case v of CellNull \<Rightarrow> BoundNull | CellText s \<Rightarrow> BoundText s | CellDefault \<Rightarrow> BoundNull)"

definition shown :: "cell_value \<Rightarrow> string" where
  "shown v = (case v of CellText s \<Rightarrow> if s = [] then ''(empty string)'' else s | _ \<Rightarrow> ''null'')"

definition key_of :: "'v js_value \<Rightarrow> 'v bound" where
  \<comment> \<open>\<open>row[c] ?? null\<close>\<close>
  "key_of x = (case x of Value v \<Rightarrow> BoundKey v | _ \<Rightarrow> BoundNull)"

definition js_string :: "('v \<Rightarrow> string) \<Rightarrow> 'v js_value \<Rightarrow> string" where
  "js_string show_value x = (case x of Value v \<Rightarrow> show_value v | Null \<Rightarrow> ''null'' | Undefined \<Rightarrow> ''undefined'')"

definition given :: "(string \<times> cell_value) list \<Rightarrow> (string \<times> cell_value) list" where
  "given = filter (\<lambda>(_, v). v \<noteq> CellDefault)"

definition pk_where :: "string list \<Rightarrow> (string \<Rightarrow> 'v js_value) \<Rightarrow> nat \<Rightarrow> string + string \<times> 'v bound list" where
  "pk_where key row from =
     (if key = []
      then Inl (''This table has no primary key, so there is no way to name one row. ''
        @ ''Editing rows needs one '' @ em_dash @ '' the grid says so above.'')
      else let params = map (\<lambda>c. key_of (row c)) key in
        if BoundNull \<in> set params then Inl ''This row has no key value, so it cannot be targeted.''
        else
          (let cols = map quote key; holes = map (\<lambda>i. hole (from + i)) [0..<length key] in
            Inr (if length key = 1 then hd cols @ '' = '' @ hd holes
                 else ''('' @ js_join '', '' cols @ '') = ('' @ js_join '', '' holes @ '')'',
                 params)))"

definition numbered :: "'a list \<Rightarrow> (nat \<times> 'a) list" where
  \<comment> \<open>\<open>(x, i)\<close> of a \<open>map\<close>\<close>
  "numbered xs = zip [0..<length xs] xs"

definition update_row :: "('v \<Rightarrow> string) \<Rightarrow> string \<Rightarrow> string \<Rightarrow> (string \<Rightarrow> 'v js_value) \<Rightarrow> string list
    \<Rightarrow> (string \<times> cell_value) list \<Rightarrow> string + 'v row_plan" where
  "update_row show_value schema table row key edits =
     (let changes = given edits in
      if changes = [] then Inl ''Nothing has changed in this row.''
      else
        let sets = map (\<lambda>(i, c, _). quote c @ '' = '' @ hole (i + 1)) (numbered changes) in
        case pk_where key row (length changes + 1) of
          Inl e \<Rightarrow> Inl e
        | Inr (where_sql, where_params) \<Rightarrow>
            Inr \<lparr>rp_sql = ''update '' @ qualified_name schema table @ nl @ ''   set ''
                  @ js_join ('','' @ nl @ ''       '') sets @ nl @ '' where '' @ where_sql @ '';'',
                rp_params = map (\<lambda>(_, v). bind_cell v) changes @ where_params,
                rp_done = (if length changes = 1 then fst (hd changes) @ '' updated''
                  else string_of_nat (length changes) @ '' columns updated''),
                rp_notices = [data_notice (''This targets one row by its primary key, so it cannot touch another ''
                  @ ''one. There is no undo '' @ em_dash @ '' the previous values are not kept anywhere.'')],
                rp_bindings =
                  map (\<lambda>(i, c, v). \<lparr>bi_placeholder = hole (i + 1), bi_column = c, bi_value = shown v\<rparr>) (numbered changes)
                  @ map (\<lambda>(i, c). \<lparr>bi_placeholder = hole (length changes + 1 + i), bi_column = c,
                       bi_value = js_string show_value (row c)\<rparr>) (numbered key)\<rparr>)"

definition insert_row_sql :: "string \<Rightarrow> string \<Rightarrow> (string \<times> cell_value) list \<Rightarrow> string + 'v row_plan" where
  "insert_row_sql schema table cells =
     (let vs = given cells in
      if vs = [] then Inl ''Fill in at least one column.''
      else
        Inr \<lparr>rp_sql = ''insert into '' @ qualified_name schema table @ nl
              @ ''       ('' @ js_join '', '' (map (\<lambda>(c, _). quote c) vs) @ '')'' @ nl
              @ ''values ('' @ js_join '', '' (map (\<lambda>(i, _). hole (i + 1)) (numbered vs)) @ '')'' @ nl
              @ ''returning *;'',
            rp_params = map (\<lambda>(_, v). bind_cell v) vs,
            rp_done = ''Row inserted'',
            rp_notices =
              [data_notice (if length cells > length vs
                 then string_of_nat (length cells - length vs) @ '' column(s) are left out of the ''
                   @ ''statement, so their defaults apply. That is different from setting ''
                   @ ''them to null.''
                 else ''Every column is given a value.''),
               \<lparr>no_kind = RlsNotice,
                no_text = ''You are inserting as the table'' @ [CHR 0x92] @ ''s owner, so its policies do not ''
                  @ ''apply to this statement. A client using your API is checked against ''
                  @ ''the INSERT policies instead.''\<rparr>],
            rp_bindings = map (\<lambda>(i, c, v). \<lparr>bi_placeholder = hole (i + 1), bi_column = c, bi_value = shown v\<rparr>)
              (numbered vs)\<rparr>)"

definition row_tuple :: "nat \<Rightarrow> nat \<Rightarrow> string" where
  \<comment> \<open>the tuple of row \<open>r\<close> for a key of \<open>k\<close> columns; \<open>params.length\<close> grows by one per column\<close>
  "row_tuple k r =
     (let holes = map (\<lambda>i. hole (r * k + i + 1)) [0..<k] in
      if k = 1 then hd holes else ''('' @ js_join '', '' holes @ '')'')"

definition delete_rows :: "('v \<Rightarrow> string) \<Rightarrow> string \<Rightarrow> string \<Rightarrow> (string \<Rightarrow> 'v js_value) list \<Rightarrow> string list
    \<Rightarrow> string + 'v row_plan" where
  "delete_rows show_value schema table rows key =
     (if rows = [] then Inl ''Select at least one row.''
      else if key = []
      then Inl (''This table has no primary key, so there is no way to name the rows to ''
        @ ''delete without risking others.'')
      else
        let cols = map quote key;
            tuples = map (row_tuple (length key)) [0..<length rows];
            lhs = (if length key = 1 then hd cols else ''('' @ js_join '', '' cols @ '')'') in
          Inr \<lparr>rp_sql = ''delete from '' @ qualified_name schema table @ nl
                @ '' where '' @ lhs @ '' in ('' @ js_join '', '' tuples @ '');'',
              rp_params = concat (map (\<lambda>row. map (\<lambda>c. key_of (row c)) key) rows),
              rp_done = (if length rows = 1 then ''Row deleted'' else string_of_nat (length rows) @ '' rows deleted''),
              rp_notices = [data_notice (''This deletes ''
                @ (if length rows = 1 then ''the row'' else string_of_nat (length rows) @ '' rows'')
                @ '' you selected and no others '' @ em_dash @ '' each one is named by its primary key. ''
                @ ''There is no undo, and a backup restore is the only way back.'')],
              rp_bindings = concat (map (\<lambda>(r, row).
                  map (\<lambda>(i, c). \<lparr>bi_placeholder = hole (r * length key + i + 1), bi_column = c,
                     bi_value = js_string show_value (row c)\<rparr>) (numbered key)) (numbered rows))\<rparr>)"

subsection \<open>Row edits as pieces\<close>

lemma quote_eq: "quote i = quote_with dquote i"
proof -
  have "concat (map (\<lambda>c. if c = dquote then [dquote, dquote] else [c]) i) = double dquote i"
    by (induction i) auto
  then show ?thesis by (simp add: quote_def quote_with_def)
qed

lemma js_trim_id: "s \<noteq> [] \<Longrightarrow> \<not> is_ws (hd s) \<Longrightarrow> \<not> is_ws (last s) \<Longrightarrow> js_trim s = s"
proof -
  assume s: "s \<noteq> []" "\<not> is_ws (hd s)" "\<not> is_ws (last s)"
  then have "dropWhile is_ws s = s" by (cases s) auto
  moreover have "dropWhile is_ws (rev s) = rev s" using s by (cases s rule: rev_cases) auto
  ultimately show ?thesis by (simp add: js_trim_def)
qed

lemma generated_statement:
  assumes ps: "ps = Kw w # qs" and f: "fits_before ps '';''" and s: "statement_of (tokens_of ps)"
    and l: "\<not> is_ws (last (text_of ps))"
  obtains st where "split_sql (text_of ps @ '';'') = [st]" "map bare (st_tokens st) = tokens_of ps"
    "st_sql st = text_of ps"
proof -
  let ?sql = "text_of ps @ '';''"
  have kw: "well_formed (Kw w)" "may_precede (Kw w) (text_of qs @ '';'')" using f ps by auto
  obtain ts where ts: "lex_from 0 ?sql = ts @ lex_from (length (text_of ps)) '';''" "map bare ts = tokens_of ps"
    using lex_pieces[OF f, of 0] by auto
  let ?semi = "mk_token Punct (length (text_of ps)) 1 '';''"
  have l0: "lex ?sql = ts @ [?semi]"
    using ts(1) lex_from_sym[of "CHR '';''" "length (text_of ps)" "[]"] by (simp add: lex_def)
  have first: "lex ?sql = mk_token Word 0 (length w) (w @ text_of qs @ '';'') # lex_from (length w) (text_of qs @ '';'')"
    using lex_from_keyword[OF kw, of 0] ps by (simp add: lex_def)
  have ne: "ts \<noteq> []" using s ts(2) by (auto simp: statement_of_def)
  then have start: "tk_start (hd ts) = 0" using l0 first by (cases ts) (auto simp: mk_token_def)
  have d: "drop_separators 0 ts = ts" "depth_after 0 ts = 0"
    using s ts(2) drop_separators_shape[OF ts(2), of 0] depth_after_bare[of 0 ts] by (auto simp: statement_of_def)
  have semi: "is_punct CHR '';'' ?semi" by (simp add: is_punct_def mk_token_def)
  obtain st where st: "push_statement ?sql ts (tk_start ?semi) = [st]" "st_tokens st = ts"
    using pushed[of ?sql "[]" ts ?semi "[]"] l0 ne by auto
  have "split_sql ?sql = [st]"
    using split_loop_step[OF d semi, of ?sql "[]" "[]"] st(1) l0 by (simp add: split_sql_def)
  moreover have "st_sql st = text_of ps"
  proof -
    have "js_slice ?sql 0 (length (text_of ps)) = text_of ps" by (simp add: js_slice_def)
    moreover have "w \<noteq> []" "\<not> is_ws (hd w)" using kw(1) by (auto simp: char_class_defs)
    then have "js_trim (text_of ps) = text_of ps" using l ps by (intro js_trim_id) auto
    moreover have "st_sql st = js_trim (js_slice ?sql (tk_start (hd ts)) (tk_start ?semi))"
      using st(1) by (cases ts) (auto simp: push_statement_def Let_def split: if_splits)
    ultimately show ?thesis using start by (simp add: mk_token_def)
  qed
  ultimately show ?thesis using that st(2) ts(2) by blast
qed

definition numbers :: "token list \<Rightarrow> string list" where
  "numbers ts = map tk_value (filter (\<lambda>t. tk_kind t = Number) ts)"

lemma numbers_simps [simp]: "numbers [] = []"
  "numbers (tok k v # ts) = (if k = Number then v # numbers ts else numbers ts)"
  "numbers (ts @ us) = numbers ts @ numbers us" "numbers (map bare ts) = numbers ts"
  by (simp_all add: numbers_def filter_map o_def)

lemma numbers_sep_by: "numbers (tokens_of sep) = [] \<Longrightarrow>
    numbers (tokens_of (sep_by sep xs)) = concat (map (\<lambda>x. numbers (tokens_of x)) xs)"
  by (induction sep xs rule: sep_by.induct) auto

lemma not_next_simps [simp]: "not_next P []" "not_next P (c # s) = (\<not> P c)"
  by (simp_all add: not_next_def)

lemmas piece_eval = is_word_char_def is_number_char_def letter_def char_class_defs

definition commas :: "piece list" where "commas = [Sym CHR '','', Gap '' '']"

definition names_piece :: "string list \<Rightarrow> piece list" where
  "names_piece cs = sep_by commas (map (\<lambda>c. [Idn c]) cs)"

definition holes_piece :: "nat \<Rightarrow> nat \<Rightarrow> piece list" where
  "holes_piece from n = sep_by commas (map (\<lambda>i. [Hole (from + i)]) [0..<n])"

lemma commas_text [simp]: "text_of commas = '', ''" "tokens_of commas = [tok Punct '','']" "fits_before commas r"
  by (simp_all add: commas_def piece_eval)

lemma names_piece_text: "text_of (names_piece cs) = js_join '', '' (map quote cs)"
  by (simp add: names_piece_def text_of_sep_by o_def quote_eq[abs_def])

lemma holes_piece_text: "text_of (holes_piece from n) = js_join '', '' (map (\<lambda>i. hole (from + i)) [0..<n])"
  by (simp add: holes_piece_def text_of_sep_by o_def hole_def)

lemma soft_last: "soft r \<Longrightarrow> not_next (\<lambda>c. c = dquote) r" "soft r \<Longrightarrow> not_next is_number_char r"
  by (auto simp: soft_def not_next_def split: list.splits)

lemma soft_commas: "fits_before commas r \<and> soft (text_of commas @ r)"
  by (simp add: piece_eval)

lemma list_pieces_fit [simp]: "soft r \<Longrightarrow> fits_before (names_piece cs) r" "soft r \<Longrightarrow> fits_before (holes_piece from n) r"
  unfolding names_piece_def holes_piece_def
  by (rule fits_sep_by[OF _ soft_commas]; auto simp: soft_last)+

lemma list_pieces_quiet [simp]: "list_all quiet (tokens_of (names_piece cs))" "list_all quiet (tokens_of (holes_piece from n))"
  unfolding names_piece_def holes_piece_def
  by (rule quiet_sep_by; auto)+

lemma numbers_names [simp]: "numbers (tokens_of (names_piece cs)) = []"
  by (simp add: names_piece_def numbers_sep_by o_def)

lemma numbers_holes [simp]: "numbers (tokens_of (holes_piece from n)) = map string_of_nat [from..<from + n]"
proof -
  have "map (\<lambda>i. from + i) [0..<n] = [from..<from + n]"
    using map_add_upt[of "from" n] by (simp add: add.commute)
  from arg_cong[OF this, of "map string_of_nat"]
  have "map (\<lambda>i. string_of_nat (from + i)) [0..<n] = map string_of_nat [from..<from + n]"
    by (simp only: map_map o_def)
  then show ?thesis by (simp add: holes_piece_def numbers_sep_by o_def)
qed

lemma text_starts: "soft (CHR '' '' # s)" "soft (newline # s)" "soft (CHR '';'' # s)" "soft (CHR '')'' # s)" "soft (CHR '','' # s)"
  by (simp_all add: piece_eval)

definition target :: "string \<Rightarrow> string \<Rightarrow> piece list" where
  "target schema table = [Idn schema, Sym CHR ''.'', Idn table]"

lemma target_facts [simp]: "text_of (target s t) = qualified_name s t"
  "tokens_of (target s t) = [tok Ident (quote_with dquote s), tok Punct ''.'', tok Ident (quote_with dquote t)]"
  "not_next (\<lambda>c. c = dquote) r \<Longrightarrow> fits_before (target s t) r"
  by (simp_all add: target_def qualified_name_def quote_eq)

definition parens :: "piece list \<Rightarrow> piece list" where
  "parens ps = [Sym CHR ''(''] @ ps @ [Sym CHR '')'']"

lemma parens_facts [simp]: "text_of (parens ps) = ''('' @ text_of ps @ '')''"
  "tokens_of (parens ps) = tok Punct ''('' # tokens_of ps @ [tok Punct '')'']"
  "fits_before (parens ps) r = fits_before ps (CHR '')'' # r)"
  by (simp_all add: parens_def)

definition key_piece :: "string list \<Rightarrow> piece list" where
  "key_piece key = (if length key = 1 then [Idn (hd key)] else parens (names_piece key))"

definition tuple_piece :: "nat \<Rightarrow> nat \<Rightarrow> piece list" where
  "tuple_piece k from = (if k = 1 then [Hole from] else parens (holes_piece from k))"

lemma key_facts [simp]:
  "text_of (key_piece key) = (if length key = 1 then quote (hd key) else ''('' @ js_join '', '' (map quote key) @ '')'')"
  "soft r \<Longrightarrow> fits_before (key_piece key) r"
  "numbers (tokens_of (key_piece key)) = []"
  by (auto simp: key_piece_def quote_eq names_piece_text soft_last text_starts simp del: soft_simps)

lemma tuple_facts [simp]:
  "text_of (tuple_piece k from) = (if k = 1 then hole from else ''('' @ js_join '', '' (map (\<lambda>i. hole (from + i)) [0..<k]) @ '')'')"
  "soft r \<Longrightarrow> fits_before (tuple_piece k from) r"
  "numbers (tokens_of (tuple_piece k from)) = map string_of_nat [from..<from + k]"
  by (auto simp: tuple_piece_def hole_def holes_piece_text soft_last text_starts simp del: soft_simps)

definition balanced :: "token list \<Rightarrow> bool" where
  \<comment> \<open>what a scan passes over: no keyword and no semicolon, and every parenthesis is closed\<close>
  "balanced ts = (\<forall>d us. drop_separators d (ts @ us) = ts @ drop_separators d us \<and> depth_after d (ts @ us) = depth_after d us \<and>
      where_scan d (ts @ us) = where_scan d us \<and> limit_scan d (ts @ us) = limit_scan d us)"

lemma balanced_quiet: "list_all quiet ts \<Longrightarrow> balanced ts"
  by (simp add: balanced_def quiet_scans)

lemma balanced_append: "balanced ts \<Longrightarrow> balanced us \<Longrightarrow> balanced (ts @ us)"
  by (simp add: balanced_def)

lemma balanced_parens: "list_all quiet ts \<Longrightarrow> balanced (tok Punct ''('' # ts @ [tok Punct '')''])"
  by (simp add: balanced_def quiet_scans)

lemma balanced_key: "balanced (tokens_of (key_piece key))"
  by (auto simp: key_piece_def intro!: balanced_quiet balanced_parens)

lemma balanced_tuple: "balanced (tokens_of (tuple_piece k from))"
  by (auto simp: tuple_piece_def intro!: balanced_quiet balanced_parens)

lemma balanced_sep_by:
  "balanced (tokens_of sep) \<Longrightarrow> (\<And>x. x \<in> set xs \<Longrightarrow> balanced (tokens_of x)) \<Longrightarrow> balanced (tokens_of (sep_by sep xs))"
  by (induction sep xs rule: sep_by.induct) (auto intro!: balanced_append simp: balanced_quiet)

lemma balanced_nested:
  assumes "balanced ts"
  shows "balanced (tok Punct ''('' # ts @ [tok Punct '')''])"
  using assms unfolding balanced_def by simp

lemma balanced_scans [simp]:
  assumes "balanced ts"
  shows "drop_separators d (ts @ us) = ts @ drop_separators d us" "depth_after d (ts @ us) = depth_after d us"
    "where_scan d (ts @ us) = where_scan d us" "limit_scan d (ts @ us) = limit_scan d us"
    "drop_separators d ts = ts" "depth_after d ts = d" "where_scan d ts = False" "limit_scan d ts = True"
  using assms[unfolded balanced_def, rule_format, of d us] assms[unfolded balanced_def, rule_format, of d "[]"] by simp_all

lemma map2_fst: "length is = length xs \<Longrightarrow> map (\<lambda>(i, x). f i) (zip is xs) = map f is"
  by (induction "is" xs rule: list_induct2) auto

lemma map_numbered: "map (\<lambda>(i, x). f i) (numbered xs) = map f [0..<length xs]" "length (numbered xs) = length xs"
  by (simp_all add: numbered_def map2_fst)

definition sets_piece :: "(string \<times> cell_value) list \<Rightarrow> piece list" where
  "sets_piece changes = sep_by [Sym CHR '','', Gap (nl @ ''       '')]
     (map (\<lambda>(i, c, _). [Idn c, Gap '' '', Sym CHR ''='', Gap '' '', Hole (i + 1)]) (numbered changes))"

lemma sets_facts [simp]:
  "text_of (sets_piece changes) =
     js_join ('','' @ nl @ ''       '') (map (\<lambda>(i, c, _). quote c @ '' = '' @ hole (i + 1)) (numbered changes))"
  "soft r \<Longrightarrow> fits_before (sets_piece changes) r"
  "numbers (tokens_of (sets_piece changes)) = map string_of_nat [1..<Suc (length changes)]"
  "balanced (tokens_of (sets_piece changes))"
proof -
  show "text_of (sets_piece changes) =
     js_join ('','' @ nl @ ''       '') (map (\<lambda>(i, c, _). quote c @ '' = '' @ hole (i + 1)) (numbered changes))"
    by (auto simp: sets_piece_def text_of_sep_by quote_eq hole_def intro!: arg_cong[of _ _ "js_join _"])
  show "fits_before (sets_piece changes) r" if "soft r"
    unfolding sets_piece_def by (rule fits_sep_by) (use that in \<open>auto simp: soft_last piece_eval\<close>)
  have "map (\<lambda>(i, x). string_of_nat (Suc i)) (numbered changes) = map string_of_nat [1..<Suc (length changes)]"
    unfolding map_numbered using arg_cong[OF map_Suc_upt[of 0 "length changes"], of "map string_of_nat"]
    by (simp only: map_map o_def One_nat_def)
  then show "numbers (tokens_of (sets_piece changes)) = map string_of_nat [1..<Suc (length changes)]"
    by (simp add: sets_piece_def numbers_sep_by o_def case_prod_beta')
  show "balanced (tokens_of (sets_piece changes))"
    unfolding sets_piece_def by (rule balanced_quiet, rule quiet_sep_by) auto
qed

lemma upper_words:
  "js_upper ''update'' = ''UPDATE''" "js_upper ''set'' = ''SET''" "js_upper ''where'' = ''WHERE''"
  "js_upper ''insert'' = ''INSERT''" "js_upper ''into'' = ''INTO''" "js_upper ''values'' = ''VALUES''"
  "js_upper ''returning'' = ''RETURNING''" "js_upper ''delete'' = ''DELETE''" "js_upper ''from'' = ''FROM''"
  "js_upper ''in'' = ''IN''" "js_upper ''select'' = ''SELECT''" "js_upper ''order'' = ''ORDER''"
  "js_upper ''by'' = ''BY''" "js_upper ''limit'' = ''LIMIT''" "js_upper ''offset'' = ''OFFSET''"
  "js_upper ''asc'' = ''ASC''" "js_upper ''desc'' = ''DESC''"
  by code_simp+

lemma last_digit: "string_of_nat n \<noteq> [] \<and> \<not> is_ws (last (string_of_nat n))"
proof -
  have "is_digit (last (string_of_nat n))" using string_of_nat_digits[of n] by (auto simp: list_all_iff)
  then show ?thesis using string_of_nat_digits[of n] by (auto simp: char_class_defs)
qed

lemma last_tuple: "text_of (tuple_piece k from) \<noteq> [] \<and> \<not> is_ws (last (text_of (tuple_piece k from)))"
proof -
  show ?thesis using last_digit by (auto simp: hole_def char_class_defs)
qed

lemma balanced_parts [simp]: "balanced (tokens_of (key_piece key))" "balanced (tokens_of (tuple_piece k from))"
  "balanced (tokens_of (names_piece cs))" "balanced (tokens_of (holes_piece n m))"
  by (simp_all add: balanced_key balanced_tuple balanced_quiet)

definition update_piece :: "string \<Rightarrow> string \<Rightarrow> (string \<times> cell_value) list \<Rightarrow> string list \<Rightarrow> piece list" where
  "update_piece s t changes key =
     Kw ''update'' # Gap '' '' # target s t @ Gap (nl @ ''   '') # Kw ''set'' # Gap '' '' # sets_piece changes
       @ Gap (nl @ '' '') # Kw ''where'' # Gap '' '' # key_piece key
       @ Gap '' '' # Sym CHR ''='' # Gap '' '' # tuple_piece (length key) (length changes + 1)"

definition insert_piece :: "string \<Rightarrow> string \<Rightarrow> (string \<times> cell_value) list \<Rightarrow> piece list" where
  "insert_piece s t vs =
     Kw ''insert'' # Gap '' '' # Kw ''into'' # Gap '' '' # target s t @ Gap (nl @ ''       '') # parens (names_piece (map fst vs))
       @ Gap nl # Kw ''values'' # Gap '' '' # parens (holes_piece 1 (length vs)) @ Gap nl # Kw ''returning'' # Gap '' ''
       # [Sym CHR ''*'']"

definition tuples_piece :: "nat \<Rightarrow> nat \<Rightarrow> piece list" where
  "tuples_piece k n = sep_by commas (map (\<lambda>r. tuple_piece k (r * k + 1)) [0..<n])"

definition delete_piece :: "string \<Rightarrow> string \<Rightarrow> nat \<Rightarrow> string list \<Rightarrow> piece list" where
  "delete_piece s t n key =
     Kw ''delete'' # Gap '' '' # Kw ''from'' # Gap '' '' # target s t @ Gap (nl @ '' '') # Kw ''where'' # Gap '' ''
       # key_piece key @ Gap '' '' # Kw ''in'' # Gap '' '' # parens (tuples_piece (length key) n)"

lemma rows_of_numbers:
  "concat (map (\<lambda>r. map f [Suc (r * k)..<Suc (r * k) + k]) [0..<n]) = map f [1..<Suc (n * k)]"
proof (induction n)
  case (Suc n)
  have "[1..<Suc (n * k)] @ [Suc (n * k)..<Suc (n * k) + k] = [1..<Suc (n * k) + k]"
    by (rule upt_add_eq_append[symmetric]) simp
  from arg_cong[OF this, of "map f"]
  have "map f [1..<Suc (n * k)] @ map f [Suc (n * k)..<Suc (n * k) + k] = map f [1..<Suc (n * k) + k]"
    by (simp only: map_append)
  then show ?case unfolding upt_Suc_append[OF zero_le, of n] using Suc
    by (simp add: add.commute del: upt_Suc)
qed simp

lemma map_from: "map (\<lambda>i. f (from + i)) [0..<n] = map f [from..<from + n]"
proof -
  have "map (\<lambda>i. from + i) [0..<n] = [from..<from + n]"
    using map_add_upt[of "from" n] by (simp add: add.commute)
  from arg_cong[OF this, of "map f"] show ?thesis by (simp only: map_map o_def)
qed

lemma tuples_facts [simp]:
  "text_of (tuples_piece k n) = js_join '', '' (map (row_tuple k) [0..<n])"
  "soft r \<Longrightarrow> fits_before (tuples_piece k n) r"
  "numbers (tokens_of (tuples_piece k n)) = map string_of_nat [1..<Suc (n * k)]"
  "balanced (tokens_of (tuples_piece k n))"
proof -
  have row: "text_of (tuple_piece k (Suc (r * k))) = row_tuple k r" for r
    by (auto simp: row_tuple_def Let_def add.commute intro!: arg_cong[of _ _ "js_join _"])
  show "text_of (tuples_piece k n) = js_join '', '' (map (row_tuple k) [0..<n])"
    by (simp add: tuples_piece_def text_of_sep_by o_def row del: tuple_facts)
  show "fits_before (tuples_piece k n) r" if "soft r"
    unfolding tuples_piece_def by (rule fits_sep_by[OF _ soft_commas]) (use that in auto)
  note rows_of_numbers[of string_of_nat k n]
  then show "numbers (tokens_of (tuples_piece k n)) = map string_of_nat [1..<Suc (n * k)]"
    by (simp add: tuples_piece_def numbers_sep_by o_def)
  show "balanced (tokens_of (tuples_piece k n))"
    unfolding tuples_piece_def by (rule balanced_sep_by) (auto intro: balanced_quiet)
qed

lemma edit_texts:
  "text_of (update_piece s t changes key) @ '';'' =
     ''update '' @ qualified_name s t @ nl @ ''   set ''
       @ js_join ('','' @ nl @ ''       '') (map (\<lambda>(i, c, _). quote c @ '' = '' @ hole (i + 1)) (numbered changes))
       @ nl @ '' where '' @ text_of (key_piece key) @ '' = '' @ text_of (tuple_piece (length key) (length changes + 1)) @ '';''"
  "text_of (insert_piece s t vs) @ '';'' =
     ''insert into '' @ qualified_name s t @ nl @ ''       ('' @ js_join '', '' (map (\<lambda>(c, _). quote c) vs) @ '')'' @ nl
       @ ''values ('' @ js_join '', '' (map (\<lambda>(i, _). hole (i + 1)) (numbered vs)) @ '')'' @ nl @ ''returning *;''"
  "text_of (delete_piece s t n key) @ '';'' =
     ''delete from '' @ qualified_name s t @ nl @ '' where '' @ text_of (key_piece key)
       @ '' in ('' @ js_join '', '' (map (row_tuple (length key)) [0..<n]) @ '');''"
proof -
  have m: "map (\<lambda>(i, _). hole (i + 1)) (numbered vs) = map (\<lambda>i. hole (i + 1)) [0..<length vs]"
    by (rule map_numbered)
  show "text_of (insert_piece s t vs) @ '';'' =
     ''insert into '' @ qualified_name s t @ nl @ ''       ('' @ js_join '', '' (map (\<lambda>(c, _). quote c) vs) @ '')'' @ nl
       @ ''values ('' @ js_join '', '' (map (\<lambda>(i, _). hole (i + 1)) (numbered vs)) @ '')'' @ nl @ ''returning *;''"
    unfolding m by (simp add: insert_piece_def names_piece_text holes_piece_text o_def case_prod_beta')
qed (simp_all add: update_piece_def delete_piece_def del: key_facts(1) tuple_facts(1))

lemma edit_fits:
  "fits_before (update_piece s t changes key) '';''" "fits_before (insert_piece s t vs) '';''" "fits_before (delete_piece s t n key) '';''"
  by (simp_all add: update_piece_def insert_piece_def delete_piece_def piece_eval soft_last text_starts
      del: key_facts(1) tuple_facts(1))

lemma edit_scans:
  "statement_of (tokens_of (update_piece s t changes key))" "where_scan 0 (tokens_of (update_piece s t changes key))"
  "statement_of (tokens_of (insert_piece s t vs))"
  "statement_of (tokens_of (delete_piece s t n key))" "where_scan 0 (tokens_of (delete_piece s t n key))"
  by (simp_all add: statement_of_def update_piece_def insert_piece_def delete_piece_def upper_words)

lemma edit_numbers:
  "numbers (tokens_of (update_piece s t changes key)) = map string_of_nat [1..<Suc (length changes + length key)]"
  "numbers (tokens_of (insert_piece s t vs)) = map string_of_nat [1..<Suc (length vs)]"
  "numbers (tokens_of (delete_piece s t n key)) = map string_of_nat [1..<Suc (n * length key)]"
proof -
  have "[1..<Suc a] @ [Suc a..<Suc (a + b)] = [1..<Suc (a + b)]" for a b
    using upt_add_eq_append[of 1 "Suc a" b] by simp
  then show "numbers (tokens_of (update_piece s t changes key)) = map string_of_nat [1..<Suc (length changes + length key)]"
    by (simp add: update_piece_def del: upt_Suc flip: map_append)
qed (simp_all add: insert_piece_def delete_piece_def)

lemma edit_last:
  "\<not> is_ws (last (text_of (update_piece s t changes key)))"
  "\<not> is_ws (last (text_of (insert_piece s t vs)))"
  "\<not> is_ws (last (text_of (delete_piece s t n key)))"
  using last_tuple[of "length key" "length changes + 1"]
  by (simp_all add: update_piece_def insert_piece_def delete_piece_def char_class_defs del: tuple_facts(1))

subsection \<open>The guard and the editor\<close>

lemma edit_classified:
  assumes ps: "ps = Kw w # qs" and f: "fits_before ps '';''" and s: "statement_of (tokens_of ps)"
    and l: "\<not> is_ws (last (text_of ps))"
    and safe: "js_upper w = ''INSERT'' \<or> js_upper w \<in> {''UPDATE'', ''DELETE''} \<and> where_scan 0 (tokens_of ps)"
    and n: "numbers (tokens_of ps) = ns"
  shows "sc_danger (classify (text_of ps @ '';'')) = Safe \<and> check_request (classify (text_of ps @ '';'')) rq = Inr () \<and>
    map (executed_sql (classify (text_of ps @ '';''))) (sc_statements (classify (text_of ps @ '';''))) = [text_of ps] \<and>
    numbers (lex (text_of ps @ '';'')) = ns"
proof -
  obtain st where st: "split_sql (text_of ps @ '';'') = [st]" "map bare (st_tokens st) = tokens_of ps"
    "st_sql st = text_of ps" by (rule generated_statement[OF ps f s l])
  have lead: "lead st = js_upper w" using st(2) ps by (simp add: lead_shape)
  have wh: "has_top_level_where st = where_scan 0 (tokens_of ps)"
    unfolding has_top_level_where_def st(2)[symmetric] by (simp add: where_scan_bare)
  have d: "vd_danger (danger_of st) = Safe" using safe lead wh by (auto simp: danger_of_def safe_verdict_def)
  have lim: "\<not> is_limitable st" using safe lead by (auto simp: is_limitable_def)
  note c = classify_single[OF st(1)]
  have "numbers (lex (text_of ps @ '';'')) = ns"
  proof -
    obtain ts where ts: "lex (text_of ps @ '';'') = ts @ lex_from (length (text_of ps)) '';''" "map bare ts = tokens_of ps"
      using lex_pieces[OF f, of 0] by (auto simp: lex_def)
    have "numbers ts = ns" using n ts(2) numbers_simps(4)[of ts] by simp
    then show ?thesis
      using ts(1) lex_from_sym[of "CHR '';''" "length (text_of ps)" "[]"] by (simp add: numbers_def mk_token_def)
  qed
  then show ?thesis using d lim by (simp add: c check_request_def executed_sql_def limits_def classify_one_def Let_def st(3))
qed

lemma quoted_key: "key \<noteq> [] \<Longrightarrow> text_of (key_piece key) =
    (if length key = 1 then hd (map quote key) else ''('' @ js_join '', '' (map quote key) @ '')'')"
  by (simp add: hd_map)

lemma pk_whereE:
  assumes "pk_where key row from = Inr (w, params)"
  shows "w = text_of (key_piece key) @ '' = '' @ text_of (tuple_piece (length key) from)" "length params = length key"
  using assms by (auto simp: pk_where_def Let_def hd_map split: if_splits)

lemma update_placeholders:
  "map (\<lambda>(i, x). hole (i + 1)) (numbered xs) @ map (\<lambda>(i, x). hole (length xs + 1 + i)) (numbered ys)
     = map hole [1..<Suc (length xs + length ys)]"
proof -
  have "map (\<lambda>(i, x). hole (i + 1)) (numbered xs) = map hole [1..<1 + length xs]"
    unfolding map_numbered using map_from[of hole 1 "length xs"] by (simp add: add.commute)
  moreover have "map (\<lambda>(i, x). hole (length xs + 1 + i)) (numbered ys) = map hole [1 + length xs..<1 + length xs + length ys]"
    unfolding map_numbered using map_from[of hole "length xs + 1" "length ys"] by (simp add: add.commute)
  ultimately show ?thesis
    using upt_add_eq_append[of 1 "1 + length xs" "length ys"] by (simp add: add.assoc del: upt_Suc flip: map_append)
qed

lemma delete_placeholders:
  "concat (map (\<lambda>(r, row). map (\<lambda>(i, c). hole (r * length key + i + 1)) (numbered key)) (numbered rows))
     = map hole [1..<Suc (length rows * length key)]"
proof -
  have "map (\<lambda>(i, c). hole (r * length key + i + 1)) (numbered key)
      = map hole [Suc (r * length key)..<Suc (r * length key) + length key]" for r
    unfolding map_numbered using map_from[of hole "Suc (r * length key)" "length key"] by simp
  then show ?thesis
    using map_numbered(1)[of "\<lambda>r. map hole [Suc (r * length key)..<Suc (r * length key) + length key]" rows]
      rows_of_numbers[of hole "length key" "length rows"] by (simp del: upt_Suc)
qed

lemma update_row_plan:
  assumes "update_row sv schema table row key edits = Inr p"
  shows "rp_sql p = text_of (update_piece schema table (given edits) key) @ '';''"
    "length (rp_params p) = length (given edits) + length key"
    "map bi_placeholder (rp_bindings p) = map hole [1..<Suc (length (given edits) + length key)]"
proof -
  let ?ch = "given edits"
  obtain w params where w: "pk_where key row (length ?ch + 1) = Inr (w, params)"
    using assms by (auto simp: update_row_def Let_def split: if_splits sum.splits)
  note k = pk_whereE[OF w]
  show "rp_sql p = text_of (update_piece schema table (given edits) key) @ '';''"
    unfolding edit_texts using assms w k(1) by (auto simp: update_row_def Let_def split: if_splits)
  show "length (rp_params p) = length (given edits) + length key"
    using assms w k(2) by (auto simp: update_row_def Let_def split: if_splits)
  have "rp_bindings p =
      map (\<lambda>(i, c, v). \<lparr>bi_placeholder = hole (i + 1), bi_column = c, bi_value = shown v\<rparr>) (numbered ?ch)
      @ map (\<lambda>(i, c). \<lparr>bi_placeholder = hole (length ?ch + 1 + i), bi_column = c,
           bi_value = js_string sv (row c)\<rparr>) (numbered key)"
    using assms w by (auto simp: update_row_def Let_def split: if_splits)
  then show "map bi_placeholder (rp_bindings p) = map hole [1..<Suc (length (given edits) + length key)]"
    using update_placeholders[of ?ch key] by (simp add: o_def case_prod_beta' del: upt_Suc)
qed

lemma insert_row_plan:
  assumes "insert_row_sql schema table edits = Inr p"
  shows "rp_sql p = text_of (insert_piece schema table (given edits)) @ '';''"
    "length (rp_params p) = length (given edits)"
    "map bi_placeholder (rp_bindings p) = map hole [1..<Suc (length (given edits))]"
proof -
  show "rp_sql p = text_of (insert_piece schema table (given edits)) @ '';''"
    "length (rp_params p) = length (given edits)"
    unfolding edit_texts using assms by (auto simp: insert_row_sql_def Let_def split: if_splits)
  have "rp_bindings p = map (\<lambda>(i, c, v). \<lparr>bi_placeholder = hole (i + 1), bi_column = c, bi_value = shown v\<rparr>)
      (numbered (given edits))"
    using assms by (auto simp: insert_row_sql_def Let_def split: if_splits)
  then show "map bi_placeholder (rp_bindings p) = map hole [1..<Suc (length (given edits))]"
    using update_placeholders[of "given edits" "[]"] by (simp add: o_def case_prod_beta' numbered_def[of "[]"] del: upt_Suc)
qed

lemma delete_rows_plan:
  assumes "delete_rows sv schema table rows key = Inr p"
  shows "rp_sql p = text_of (delete_piece schema table (length rows) key) @ '';''"
    "length (rp_params p) = length rows * length key"
    "map bi_placeholder (rp_bindings p) = map hole [1..<Suc (length rows * length key)]"
proof -
  have key: "key \<noteq> []" using assms by (auto simp: delete_rows_def split: if_splits)
  show "rp_sql p = text_of (delete_piece schema table (length rows) key) @ '';''"
    unfolding edit_texts quoted_key[OF key] using assms by (auto simp: delete_rows_def Let_def split: if_splits)
  show "length (rp_params p) = length rows * length key"
    using assms by (auto simp: delete_rows_def Let_def length_concat o_def sum_list_triv split: if_splits)
  have "rp_bindings p = concat (map (\<lambda>(r, row).
                  map (\<lambda>(i, c). \<lparr>bi_placeholder = hole (r * length key + i + 1), bi_column = c,
                     bi_value = js_string sv (row c)\<rparr>) (numbered key)) (numbered rows))"
    using assms by (auto simp: delete_rows_def Let_def split: if_splits)
  then show "map bi_placeholder (rp_bindings p) = map hole [1..<Suc (length rows * length key)]"
    using delete_placeholders[of key rows] by (simp add: o_def map_concat case_prod_beta' del: upt_Suc)
qed

text \<open>
  C20. Whatever the table and its columns are called and whatever the values are, a row edit is one
  statement to the server's guard, a safe one: it is admitted without confirmation, and what runs is
  the previewed text but for its closing semicolon. The holes in the text are numbered 1, 2, ... up to
  the number of bound parameters, and the preview lists the same placeholders in the same order.
\<close>

theorem row_edits_never_trip_the_guard:
  assumes "update_row sv schema table row key edits = Inr p \<or> insert_row_sql schema table edits = Inr p
     \<or> delete_rows sv schema table rows key = Inr p"
  shows "sc_danger (classify (rp_sql p)) = Safe \<and> check_request (classify (rp_sql p)) rq = Inr () \<and>
    map (executed_sql (classify (rp_sql p))) (sc_statements (classify (rp_sql p))) = [butlast (rp_sql p)] \<and>
    numbers (lex (rp_sql p)) = map string_of_nat [1..<Suc (length (rp_params p))] \<and>
    map bi_placeholder (rp_bindings p) = map hole [1..<Suc (length (rp_params p))]"
  using assms
proof (elim disjE)
  assume "update_row sv schema table row key edits = Inr p"
  note u = update_row_plan[OF this]
  show ?thesis unfolding u
    using edit_classified[OF update_piece_def edit_fits(1) edit_scans(1) edit_last(1) _ edit_numbers(1),
        of schema table "given edits" key rq] edit_scans(2)[of schema table "given edits" key]
    by (simp add: upper_words del: upt_Suc)
next
  assume "insert_row_sql schema table edits = Inr p"
  note u = insert_row_plan[OF this]
  show ?thesis unfolding u
    using edit_classified[OF insert_piece_def edit_fits(2) edit_scans(3) edit_last(2) _ edit_numbers(2),
        of schema table "given edits" rq] by (simp add: upper_words del: upt_Suc)
next
  assume "delete_rows sv schema table rows key = Inr p"
  note u = delete_rows_plan[OF this]
  show ?thesis unfolding u
    using edit_classified[OF delete_piece_def edit_fits(3) edit_scans(4) edit_last(3) _ edit_numbers(3),
        of schema table "length rows" key rq] edit_scans(5)[of schema table "length rows" key]
    by (simp add: upper_words del: upt_Suc)
qed

theorem row_edits_never_trip_the_guard_witness:
  "\<exists>p :: nat row_plan. insert_row_sql ''public'' ''posts'' [(''title'', CellText ''x''), (''id'', CellDefault)] = Inr p \<and>
     length (rp_params p) = 1 \<and> sc_danger (classify (rp_sql p)) = Safe \<and>
     numbers (lex (rp_sql p)) = map string_of_nat [1..<Suc (length (rp_params p))]"
proof -
  obtain p :: "nat row_plan" where
    p: "insert_row_sql ''public'' ''posts'' [(''title'', CellText ''x''), (''id'', CellDefault)] = Inr p" "length (rp_params p) = 1"
    by (simp add: insert_row_sql_def given_def Let_def)
  from row_edits_never_trip_the_guard[OF disjI2[OF disjI1[OF p(1)]]] p show ?thesis by blast
qed

subsection \<open>A page of rows\<close>

lemma generated_query:
  assumes ps: "ps = Kw w # qs" and f: "fits_before ps []" and s: "drop_separators 0 (tokens_of ps) = tokens_of ps"
    and l: "\<not> is_ws (last (text_of ps))"
  obtains st where "split_sql (text_of ps) = [st]" "map bare (st_tokens st) = tokens_of ps" "st_sql st = text_of ps"
proof -
  have kw: "well_formed (Kw w)" "may_precede (Kw w) (text_of qs)" using f ps by auto
  have l0: "map bare (lex (text_of ps)) = tokens_of ps" using lex_text_of[OF f] .
  have ne: "tokens_of ps \<noteq> []" using ps by simp
  obtain st where st: "split_sql (text_of ps) = [st]" "map bare (st_tokens st) = tokens_of ps"
    by (rule split_bare[OF l0 ne s])
  have "tk_start (hd (lex (text_of ps))) = 0"
    using lex_from_keyword[OF kw, of 0] ps by (simp add: lex_def mk_token_def)
  moreover have "split_sql (text_of ps) = push_statement (text_of ps) (lex (text_of ps)) (length (text_of ps))"
  proof -
    have aux: "split_loop sql cur d us = push_statement sql (cur @ us) (length sql)"
      if "drop_separators d us = us" "cur @ us \<noteq> []" for sql cur d us
      using that
    proof (induction us arbitrary: cur d)
      case (Cons t us)
      have n: "\<not> (is_punct CHR '';'' t \<and> d = 0)"
        using Cons.prems(1) drop_separators_length[of d us] by (auto split: if_splits)
      then have "drop_separators (next_depth t d) us = us" using Cons.prems(1) by (auto split: if_splits)
      then show ?case using Cons.IH[of "next_depth t d" "cur @ [t]"] n by auto
    qed simp
    have "lex (text_of ps) \<noteq> []" using l0 ne by auto
    then show ?thesis unfolding split_sql_def
      using aux[of 0 "lex (text_of ps)" "[]"] drop_separators_shape[OF l0 s] by simp
  qed
  moreover have "js_trim (text_of ps) = text_of ps"
    using kw(1) l ps by (intro js_trim_id) (auto simp: char_class_defs)
  ultimately have "st_sql st = text_of ps"
    using st(1) by (cases "lex (text_of ps)") (auto simp: push_statement_def Let_def js_slice_def split: if_splits)
  then show ?thesis using that st by blast
qed

definition order_piece :: "grid_request \<Rightarrow> piece list" where
  "order_piece req =
     (case pr_sort req of
        Some (c, d) \<Rightarrow> [Gap nl, Kw ''order'', Gap '' '', Kw ''by'', Gap '' '', Idn c, Gap '' '',
          Kw (case d of Desc \<Rightarrow> ''desc'' | Asc \<Rightarrow> ''asc'')]
      | None \<Rightarrow> if pr_key req \<noteq> [] then [Gap nl, Kw ''order'', Gap '' '', Kw ''by'', Gap '' ''] @ names_piece (pr_key req) else [])"

definition page_piece :: "grid_request \<Rightarrow> piece list" where
  "page_piece req =
     Kw ''select'' # Gap '' '' # (if pr_columns req \<noteq> [] then names_piece (pr_columns req) else [Sym CHR ''*''])
       @ Gap (nl @ ''  '') # Kw ''from'' # Gap '' '' # target (pr_schema req) (pr_table req) @ order_piece req
       @ Gap (nl @ '' '') # Kw ''limit'' # Gap '' '' # Num (pr_size req) # Gap '' '' # Kw ''offset'' # Gap '' ''
       # [Num (pr_page req * pr_size req)]"

lemma order_facts: "text_of (order_piece req) = page_order req"
  "fits_before (order_piece req) (CHR 0x0A # r)"
  "drop_separators 0 (tokens_of (order_piece req) @ us) = tokens_of (order_piece req) @ drop_separators 0 us"
  "limit_scan 0 (tokens_of (order_piece req) @ us) = limit_scan 0 us"
  "not_next (\<lambda>c. c = dquote) (page_order req @ newline # r)"
  by (auto simp: order_piece_def page_order_def names_piece_text quote_eq piece_eval text_starts upper_words
      split: option.split sort_direction.split)

lemma page_facts: "text_of (page_piece req) = page_sql req" "fits_before (page_piece req) []"
  "drop_separators 0 (tokens_of (page_piece req)) = tokens_of (page_piece req)"
  "\<not> limit_scan 0 (tokens_of (page_piece req))"
  by (auto simp: page_piece_def page_sql_def order_facts names_piece_text piece_eval text_starts upper_words)

text \<open>
  A page of the grid is one safe statement that the server does not limit a second time: the text
  that runs is the text the grid shows, for any columns, order and page.
\<close>

theorem grid_pages_keep_their_own_limit:
  "sc_danger (classify (page_sql req)) = Safe \<and> sc_limitable (classify (page_sql req)) = None \<and>
   map (executed_sql (classify (page_sql req))) (sc_statements (classify (page_sql req))) = [page_sql req]"
proof -
  have l: "\<not> is_ws (last (text_of (page_piece req)))"
    using last_digit[of "pr_page req * pr_size req"] by (simp add: page_piece_def)
  obtain st where st: "split_sql (page_sql req) = [st]" "map bare (st_tokens st) = tokens_of (page_piece req)"
    "st_sql st = page_sql req"
    using generated_query[OF page_piece_def page_facts(2,3) l] unfolding page_facts(1) by blast
  have lead: "lead st = ''SELECT''" using st(2) by (simp add: lead_shape page_piece_def upper_words)
  have "\<not> is_limitable st"
    using page_facts(4)[of req] unfolding is_limitable_def st(2)[symmetric] limit_scan_bare by simp
  moreover have "vd_danger (danger_of st) = Safe" using lead by (simp add: danger_of_def safe_verdict_def)
  ultimately show ?thesis
    by (simp add: classify_single[OF st(1)] executed_sql_def limits_def classify_one_def Let_def st(3))
qed

end
