(* ===== verification/Ddl.thy ===== *)
theory Ddl
  imports GridSql
begin

text \<open>
  The table editor's schema operations, \<open>apps/dashboard/src/lib/ddl.ts\<close>, and the field that confirms
  the destructive ones, \<open>lib/confirm.ts\<close>.

  Every operation is a function to a \<open>plan\<close> or to the reason there is none. The clock of a migration's
  file name and the locale's rendering of a number are the parameters \<open>de_now\<close> and \<open>de_locale\<close>;
  the planner's row estimate is an \<open>int\<close>. Messages are the source's, in the encoding of \<open>GridSql\<close>.

  Proved: the rung on which the server's guard puts the statement of every operation, for all names of
  tables, columns, constraints and indexes; that the names a drop asks for can be typed when they need
  no quotes, and that they cannot be typed at all when a table's name does.
\<close>

datatype ddl_error = Incomplete string | Impossible string

record local_time =
  lt_year :: nat
  lt_month :: nat \<comment> \<open>from 0, as \<open>getMonth\<close>\<close>
  lt_day :: nat
  lt_hour :: nat
  lt_minute :: nat
  lt_second :: nat

record ddl_env =
  de_now :: local_time
  de_locale :: "int \<Rightarrow> string"

record plan =
  pl_sql :: string
  pl_done :: string
  pl_notices :: "notice list"
  pl_filename :: string

record new_column =
  nc_name :: string
  nc_type :: string
  nc_nullable :: bool
  nc_default :: "string option"

record table_facts =
  tf_schema :: string
  tf_table :: string
  tf_rows :: int

definition describe_failure :: "ddl_error \<Rightarrow> string + string" where
  \<comment> \<open>\<open>Inl\<close> what is left to do, \<open>Inr\<close> a refusal\<close>
  "describe_failure e = (case e of Incomplete m \<Rightarrow> Inl m | Impossible m \<Rightarrow> Inr m)"

definition rows_phrase :: "ddl_env \<Rightarrow> int \<Rightarrow> string" where
  "rows_phrase env n =
     (if n < 0 then (''an unknown number of rows '' @ em_dash @ '' this table has never been analysed'')
      else if n = 0 then ''no rows, as far as the planner knows''
      else (''about '' @ de_locale env n @ '' rows''))"

definition lock_notice :: "ddl_env \<Rightarrow> string \<Rightarrow> int \<Rightarrow> notice" where
  "lock_notice env what rows = \<lparr>no_kind = LockNotice, no_text =
     (what @ '' takes an ACCESS EXCLUSIVE lock on the table for the duration, so ''
       @ ''every read and write waits. It rewrites '' @ rows_phrase env rows @ ''.'')\<rparr>"

definition scan_notice :: "ddl_env \<Rightarrow> string \<Rightarrow> int \<Rightarrow> notice" where
  "scan_notice env what rows = \<lparr>no_kind = ScanNotice, no_text =
     (what @ '' checks every existing row before it is accepted, which reads '' @ rows_phrase env rows
       @ ''. If any row fails, nothing is applied and Postgres names the first '' @ ''row that failed.'')\<rparr>"

datatype renamed = RenamedTable | RenamedColumn

definition api_break :: "string \<Rightarrow> string \<Rightarrow> renamed \<Rightarrow> notice" where
  "api_break old_name new_name what = \<lparr>no_kind = ApiNotice, no_text =
     (case what of
        RenamedTable \<Rightarrow> (''Your REST endpoint /rest/v1/'' @ old_name @ '' becomes /rest/v1/'' @ new_name
       @ ''. Clients still asking for the old path get a 404 '' @ em_dash @ '' nothing redirects.'')
      | RenamedColumn \<Rightarrow> (''The field named '' @ [dquote] @ old_name @ [dquote]
       @ '' in every API response and filter becomes '' @ [dquote] @ new_name @ [dquote]
       @ ''. Clients reading the old name get nothing back for it.''))\<rparr>"

definition alter_prefix :: "table_facts \<Rightarrow> string" where
  "alter_prefix f = ''alter table '' @ qualified_name (tf_schema f) (tf_table f)"

definition named_table :: "table_facts \<Rightarrow> string" where
  "named_table f = tf_schema f @ ''.'' @ tf_table f"

subsection \<open>Names made of other names\<close>

fun squeeze :: "(char \<Rightarrow> bool) \<Rightarrow> bool \<Rightarrow> string \<Rightarrow> string" where
  \<comment> \<open>\<open>s.replace(/[^...]+/g, '_')\<close>; the flag says that the last character was replaced\<close>
  "squeeze ok inside [] = []"
| "squeeze ok inside (c # s) =
     (if ok c then c # squeeze ok False s
      else if inside then squeeze ok True s else CHR ''_'' # squeeze ok True s)"

definition slug_letter :: "char \<Rightarrow> bool" where
  "slug_letter c = (is_lower c \<or> is_digit c)"

definition name_char :: "char \<Rightarrow> bool" where
  "name_char c = (is_lower c \<or> is_digit c \<or> c = CHR ''_'')"

definition strip_underscores :: "string \<Rightarrow> string" where
  \<comment> \<open>\<open>replace(/^_|_$/g, '')\<close>: at most one at each end\<close>
  "strip_underscores s =
     (let s = (case s of c # r \<Rightarrow> if c = CHR ''_'' then r else s | [] \<Rightarrow> [])
      in if s \<noteq> [] \<and> last s = CHR ''_'' then butlast s else s)"

definition pad2 :: "nat \<Rightarrow> string" where
  "pad2 n = (let d = string_of_nat n in replicate (2 - length d) CHR ''0'' @ d)"

definition migration_name :: "ddl_env \<Rightarrow> string \<Rightarrow> string" where
  "migration_name env slug =
     (let t = de_now env;
          stamp = string_of_nat (lt_year t) @ pad2 (lt_month t + 1) @ pad2 (lt_day t)
            @ pad2 (lt_hour t) @ pad2 (lt_minute t) @ pad2 (lt_second t);
          safe = strip_underscores (squeeze slug_letter False (js_lower slug))
      in stamp @ ''_'' @ (if safe = [] then ''change'' else safe) @ ''.sql'')"

definition index_name :: "string \<Rightarrow> string list \<Rightarrow> string" where
  "index_name table columns =
     take 63 (squeeze name_char False (js_lower (''idx_'' @ table @ ''_'' @ js_join ''_'' columns)))"

definition given_name :: "string option \<Rightarrow> string \<Rightarrow> string" where
  \<comment> \<open>\<open>(name && name.trim()) || fallback\<close>\<close>
  "given_name name fallback =
     (case name of None \<Rightarrow> fallback | Some n \<Rightarrow> if js_trim n = [] then fallback else js_trim n)"

definition column_definition :: "new_column \<Rightarrow> ddl_error + string" where
  "column_definition c =
     (if js_trim (nc_name c) = [] then Inl (Incomplete ''Name the column.'')
      else if js_trim (nc_type c) = [] then Inl (Incomplete (''Give '' @ [dquote] @ nc_name c @ [dquote] @ '' a type.''))
      else Inr (quote (nc_name c) @ '' '' @ js_trim (nc_type c) @ (if nc_nullable c then [] else '' not null'')
        @ (case nc_default c of None \<Rightarrow> []
           | Some d \<Rightarrow> if js_trim d = [] then [] else '' default '' @ js_trim d)))"

fun column_definitions :: "new_column list \<Rightarrow> ddl_error + string list" where
  "column_definitions [] = Inr []"
| "column_definitions (c # cs) =
     (case column_definition c of
        Inl e \<Rightarrow> Inl e
      | Inr d \<Rightarrow> map_sum id (\<lambda>ds. d # ds) (column_definitions cs))"

subsection \<open>Tables\<close>

definition create_table :: "ddl_env \<Rightarrow> string \<Rightarrow> string \<Rightarrow> new_column list \<Rightarrow> ddl_error + plan" where
  "create_table env schema name columns =
     (if js_trim name = [] then Inl (Incomplete ''Name the table.'')
      else
        case column_definitions columns of
          Inl e \<Rightarrow> Inl e
        | Inr ds \<Rightarrow>
            (let target = qualified_name schema name;
                 lines = [quote ''id'' @ '' uuid primary key default gen_random_uuid()'',
                          quote ''created_at'' @ '' timestamptz not null default now()''] @ ds
             in Inr
              \<lparr>pl_sql = js_join nl
                 [''create table '' @ target @ '' ('' @ nl @ ''  '' @ js_join ('','' @ nl @ ''  '') lines @ nl @ '');'',
                  [], ''alter table '' @ target @ '' enable row level security;''],
               pl_done = ''Table '' @ name @ '' created'',
               pl_notices = [\<lparr>no_kind = RlsNotice, no_text =
                 (''Row Level Security is on, which is the safe default '' @ em_dash
       @ '' a new table is private rather than public by accident. Signed-in ''
       @ ''callers get an empty list until you add a policy; anonymous callers ''
       @ ''are refused outright, because a new table gives them no access at ''
       @ ''all. You still see and write every row here and through your ''
       @ ''connection string, because you own it.'')\<rparr>],
               pl_filename = migration_name env (''create_'' @ name)\<rparr>))"

definition rename_table :: "ddl_env \<Rightarrow> table_facts \<Rightarrow> string \<Rightarrow> ddl_error + plan" where
  "rename_table env f to =
     (if js_trim to = [] then Inl (Incomplete ''Type the new name.'')
      else if to = tf_table f then Inl (Incomplete ''Type a different name.'')
      else Inr
        \<lparr>pl_sql = alter_prefix f @ '' rename to '' @ quote to @ '';'',
         pl_done = ''Table renamed to '' @ to,
         pl_notices = [api_break (tf_table f) to RenamedTable],
         pl_filename = migration_name env (''rename_'' @ tf_table f @ ''_to_'' @ to)\<rparr>)"

definition drop_table :: "ddl_env \<Rightarrow> table_facts \<Rightarrow> bool \<Rightarrow> plan" where
  "drop_table env f cascade =
     \<lparr>pl_sql = ''drop table '' @ qualified_name (tf_schema f) (tf_table f)
        @ (if cascade then '' cascade'' else '' restrict'') @ '';'',
      pl_done = ''Table '' @ tf_table f @ '' dropped'',
      pl_notices = [data_notice (if cascade
        then (''CASCADE also drops everything that depends on this table '' @ em_dash
       @ '' views built on it, foreign keys pointing at it, and the policies and ''
       @ ''triggers attached to those. Postgres lists what it dropped ''
       @ ''afterwards, which is the only record you will get.'')
        else (''RESTRICT means Postgres refuses if anything depends on this table, ''
       @ ''and names what does. That refusal is the useful outcome '' @ em_dash
       @ '' it is how you find out what would have broken.''))],
      pl_filename = migration_name env (''drop_'' @ tf_table f)\<rparr>"

definition enable_rls :: "ddl_env \<Rightarrow> table_facts \<Rightarrow> plan" where
  "enable_rls env f =
     \<lparr>pl_sql = alter_prefix f @ '' enable row level security;'',
      pl_done = ''Row Level Security enabled'',
      pl_notices = [\<lparr>no_kind = RlsNotice, no_text =
        (''With RLS on and no policies, signed-in callers get an empty list from '' @ ''your API ''
       @ em_dash @ '' which is the safe state, not a broken one. You keep seeing every row ''
       @ ''here and through your connection string, because you own the table. A ''
       @ ''policy is what opens it up.'')\<rparr>],
      pl_filename = migration_name env (''enable_rls_on_'' @ tf_table f)\<rparr>"

definition grant_anon_read :: "ddl_env \<Rightarrow> table_facts \<Rightarrow> plan" where
  "grant_anon_read env f =
     \<lparr>pl_sql = ''grant select on '' @ qualified_name (tf_schema f) (tf_table f) @ '' to anon;'',
      pl_done = ''Anonymous read enabled'',
      pl_notices = [\<lparr>no_kind = RlsNotice, no_text =
        (''Anyone holding your project'' @ [CHR 0x92] @ ''s anon key can now read this table '' @ em_dash
       @ '' filtered by its policies, and by nothing else. With RLS on and no ''
       @ ''policy for anon they still get nothing; with a permissive policy they ''
       @ ''get those rows, publicly. This is the grant that makes a policy for ''
       @ ''anon take effect at all.'')\<rparr>],
      pl_filename = migration_name env (''grant_anon_read_on_'' @ tf_table f)\<rparr>"

definition revoke_anon_access :: "ddl_env \<Rightarrow> table_facts \<Rightarrow> plan" where
  "revoke_anon_access env f =
     \<lparr>pl_sql = ''revoke all on '' @ qualified_name (tf_schema f) (tf_table f) @ '' from anon;'',
      pl_done = ''Anonymous access removed'',
      pl_notices = [\<lparr>no_kind = ApiNotice, no_text =
        (''Anonymous callers go back to being refused outright, whatever the '' @ ''policies say ''
       @ em_dash @ '' a grant sits above RLS, so removing it is the coarse switch. ''
       @ ''Signed-in callers are unaffected.'')\<rparr>],
      pl_filename = migration_name env (''revoke_anon_on_'' @ tf_table f)\<rparr>"

subsection \<open>Columns\<close>

definition volatile_names :: "string list" where
  "volatile_names = [''gen_random_uuid'', ''random'', ''uuid_generate_v4'', ''clock_timestamp'']"

definition regex_word :: "char \<Rightarrow> bool" where
  "regex_word c = (is_alnum c \<or> c = CHR ''_'')"

definition calls_here :: "string \<Rightarrow> bool" where
  \<comment> \<open>one of the names, spaces and a parenthesis at the start of the text\<close>
  "calls_here s = list_ex (\<lambda>v. starts_with v (js_lower s)
     \<and> starts_with ''('' (dropWhile is_ws (drop (length v) s))) volatile_names"

fun volatile_from :: "bool \<Rightarrow> string \<Rightarrow> bool" where
  \<comment> \<open>the flag: the character before is no word character\<close>
  "volatile_from boundary [] = False"
| "volatile_from boundary (c # s) =
     (boundary \<and> calls_here (c # s) \<or> volatile_from (\<not> regex_word c) s)"

definition volatile_default :: "string \<Rightarrow> bool" where
  "volatile_default s = volatile_from True s"

definition add_column :: "ddl_env \<Rightarrow> table_facts \<Rightarrow> new_column \<Rightarrow> ddl_error + plan" where
  "add_column env f c =
     (let has_default = (case nc_default c of None \<Rightarrow> False | Some d \<Rightarrow> js_trim d \<noteq> []) in
      if \<not> nc_nullable c \<and> \<not> has_default \<and> tf_rows f \<noteq> 0
      then Inl (Impossible (named_table f @ '' holds '' @ rows_phrase env (tf_rows f)
       @ '', and a NOT NULL column with no default has no value to put in them. ''
       @ ''Give it a default, or add it nullable and fill it in before setting '' @ ''NOT NULL.''))
      else
        case column_definition c of
          Inl e \<Rightarrow> Inl e
        | Inr d \<Rightarrow> Inr
            \<lparr>pl_sql = alter_prefix f @ '' add column '' @ d @ '';'',
             pl_done = ''Column '' @ nc_name c @ '' added'',
             pl_notices = (if has_default \<and> volatile_default (the (nc_default c))
               then [lock_notice env ''A default that computes a different value per row'' (tf_rows f)] else []),
             pl_filename = migration_name env (''add_'' @ nc_name c @ ''_to_'' @ tf_table f)\<rparr>)"

definition rename_column :: "ddl_env \<Rightarrow> table_facts \<Rightarrow> string \<Rightarrow> string \<Rightarrow> ddl_error + plan" where
  "rename_column env f column to =
     (if js_trim to = [] then Inl (Incomplete ''Type the new name.'')
      else if to = column then Inl (Incomplete ''Type a different name.'')
      else Inr
        \<lparr>pl_sql = alter_prefix f @ '' rename column '' @ quote column @ '' to '' @ quote to @ '';'',
         pl_done = ''Column renamed to '' @ to,
         pl_notices = [api_break column to RenamedColumn],
         pl_filename = migration_name env (''rename_'' @ column @ ''_to_'' @ to)\<rparr>)"

definition change_type :: "ddl_env \<Rightarrow> table_facts \<Rightarrow> string \<Rightarrow> string \<Rightarrow> string option \<Rightarrow> ddl_error + plan" where
  "change_type env f column ty using_expr =
     (if js_trim ty = [] then Inl (Incomplete ''Give it a type.'')
      else let cast = given_name using_expr (quote column @ ''::'' @ js_trim ty) in Inr
        \<lparr>pl_sql = alter_prefix f @ '' alter column '' @ quote column @ '' type '' @ js_trim ty @ nl @ ''  using '' @ cast @ '';'',
         pl_done = ''Column '' @ column @ '' is now '' @ js_trim ty,
         pl_notices = [lock_notice env ''Changing a column type'' (tf_rows f),
           data_notice (''Every value is passed through '' @ cast
       @ ''. A row that cannot be converted stops the whole statement, and '' @ ''nothing is applied ''
       @ em_dash @ '' so this either succeeds completely or changes nothing.'')],
         pl_filename = migration_name env (''alter_'' @ tf_table f @ ''_'' @ column @ ''_type'')\<rparr>)"

definition drop_column :: "ddl_env \<Rightarrow> table_facts \<Rightarrow> string \<Rightarrow> plan" where
  "drop_column env f column =
     \<lparr>pl_sql = alter_prefix f @ '' drop column '' @ quote column @ '';'',
      pl_done = ''Column '' @ column @ '' dropped'',
      pl_notices = [data_notice (''The values in this column are deleted. Postgres does not reclaim the ''
       @ ''space immediately, but the data is not readable afterwards and only a ''
       @ ''backup restore brings it back.'')],
      pl_filename = migration_name env (''drop_'' @ column @ ''_from_'' @ tf_table f)\<rparr>"

definition set_not_null :: "ddl_env \<Rightarrow> table_facts \<Rightarrow> string \<Rightarrow> plan" where
  "set_not_null env f column =
     \<lparr>pl_sql = alter_prefix f @ '' alter column '' @ quote column @ '' set not null;'',
      pl_done = ''Column '' @ column @ '' is now NOT NULL'',
      pl_notices = [scan_notice env ''Adding NOT NULL'' (tf_rows f)],
      pl_filename = migration_name env (tf_table f @ ''_'' @ column @ ''_not_null'')\<rparr>"

definition drop_not_null :: "ddl_env \<Rightarrow> table_facts \<Rightarrow> string \<Rightarrow> plan" where
  "drop_not_null env f column =
     \<lparr>pl_sql = alter_prefix f @ '' alter column '' @ quote column @ '' drop not null;'',
      pl_done = ''Column '' @ column @ '' now allows null'',
      pl_notices = [\<lparr>no_kind = ApiNotice, no_text =
        (''Clients that assume this field is always present can now receive null ''
       @ ''in it, including anything generated from your schema types.'')\<rparr>],
      pl_filename = migration_name env (tf_table f @ ''_'' @ column @ ''_nullable'')\<rparr>"

definition set_default :: "ddl_env \<Rightarrow> table_facts \<Rightarrow> string \<Rightarrow> string \<Rightarrow> ddl_error + plan" where
  "set_default env f column expression =
     (if js_trim expression = [] then Inl (Incomplete ''Type the default expression.'')
      else Inr
        \<lparr>pl_sql = alter_prefix f @ '' alter column '' @ quote column @ '' set default '' @ js_trim expression @ '';'',
         pl_done = ''Default set on '' @ column,
         pl_notices = [data_notice (''This applies to rows inserted from now on. Existing rows are not '' @ ''changed '' @ em_dash
       @ '' an UPDATE is what fills those in.'')],
         pl_filename = migration_name env (tf_table f @ ''_'' @ column @ ''_default'')\<rparr>)"

definition drop_default :: "ddl_env \<Rightarrow> table_facts \<Rightarrow> string \<Rightarrow> plan" where
  "drop_default env f column =
     \<lparr>pl_sql = alter_prefix f @ '' alter column '' @ quote column @ '' drop default;'',
      pl_done = ''Default removed from '' @ column,
      pl_notices = [],
      pl_filename = migration_name env (tf_table f @ ''_'' @ column @ ''_drop_default'')\<rparr>"

subsection \<open>Keys, indexes and constraints\<close>

definition quoted_names :: "string list \<Rightarrow> string" where
  "quoted_names columns = js_join '', '' (map quote columns)"

definition add_primary_key :: "ddl_env \<Rightarrow> table_facts \<Rightarrow> string list \<Rightarrow> ddl_error + plan" where
  "add_primary_key env f columns =
     (if columns = [] then Inl (Incomplete ''Choose at least one column.'')
      else Inr
        \<lparr>pl_sql = alter_prefix f @ '' add primary key ('' @ quoted_names columns @ '');'',
         pl_done = ''Primary key added on '' @ js_join '', '' columns,
         pl_notices = [
           data_notice (''Postgres also makes '' @ (if length columns > 1 then ''these columns'' else ''this column'')
       @ '' NOT NULL, which it does not say in the statement. Clients that send ''
       @ ''null here will start being rejected.''),
           scan_notice env (''Building the key'' @ [CHR 0x92] @ ''s unique index'') (tf_rows f),
           \<lparr>no_kind = LockNotice, no_text =
             (''If any two rows share a value this fails and names one of them, which ''
       @ ''is the useful outcome '' @ em_dash @ '' it is how you find the duplicates.'')\<rparr>],
         pl_filename = migration_name env (tf_table f @ ''_primary_key'')\<rparr>)"

definition create_index :: "ddl_env \<Rightarrow> table_facts \<Rightarrow> string list \<Rightarrow> bool \<Rightarrow> string option \<Rightarrow> ddl_error + plan" where
  "create_index env f columns is_unique name =
     (if columns = [] then Inl (Incomplete ''Choose at least one column.'')
      else let n = given_name name (index_name (tf_table f) columns) in Inr
        \<lparr>pl_sql = ''create '' @ (if is_unique then ''unique '' else []) @ ''index '' @ quote n @ nl
           @ ''  on '' @ qualified_name (tf_schema f) (tf_table f) @ '' ('' @ quoted_names columns @ '');'',
         pl_done = ''Index '' @ n @ '' created'',
         pl_notices =
           [\<lparr>no_kind = LockNotice, no_text =
              (''Building the index blocks writes to '' @ named_table f @ '' until it finishes '' @ em_dash
       @ '' reads keep working. It reads '' @ rows_phrase env (tf_rows f)
       @ ''. Building it without the write lock needs CREATE INDEX CONCURRENTLY, ''
       @ ''which cannot run inside a transaction and so cannot run from this '' @ ''console yet.'')\<rparr>]
           @ (if is_unique then [\<lparr>no_kind = ScanNotice, no_text =
              (''A unique index also fails if any two rows already share these values, ''
       @ ''and names one of them '' @ em_dash @ '' which is the useful outcome.'')\<rparr>] else [])
           @ [\<lparr>no_kind = ApiNotice, no_text =
              (''Every index makes writes to this table a little slower and takes ''
       @ ''disk. Worth having for a column you filter or join on; worth removing '' @ ''if you stop.'')\<rparr>],
         pl_filename = migration_name env (''create_'' @ n)\<rparr>)"

record foreign_key =
  fk_column :: string
  fk_schema :: string
  fk_table :: string
  fk_target :: string
  fk_on_delete :: "string option"
  fk_also_index :: bool
  fk_name :: "string option"
  fk_indexed :: "bool option"

definition add_foreign_key :: "ddl_env \<Rightarrow> table_facts \<Rightarrow> foreign_key \<Rightarrow> ddl_error + plan" where
  "add_foreign_key env f fk =
     (if fk_column fk = [] then Inl (Incomplete ''Choose the column that points at the other table.'')
      else if fk_table fk = [] then Inl (Incomplete ''Choose the table it points at.'')
      else if fk_target fk = [] then Inl (Incomplete ''Choose the column it points at.'')
      else
        let name = given_name (fk_name fk)
              (squeeze name_char False (js_lower (tf_table f @ ''_'' @ fk_column fk @ ''_fkey'')));
            constraint = alter_prefix f @ '' add constraint '' @ quote name @ nl
              @ ''  foreign key ('' @ quote (fk_column fk) @ '')'' @ nl
              @ ''  references '' @ qualified_name (fk_schema fk) (fk_table fk) @ '' ('' @ quote (fk_target fk) @ '')''
              @ (case fk_on_delete fk of None \<Rightarrow> []
                 | Some d \<Rightarrow> if js_trim d = [] then [] else nl @ ''  on delete '' @ js_trim d) @ '';'';
            index = (case create_index env f [fk_column fk] False None of Inr p \<Rightarrow> pl_sql p | Inl _ \<Rightarrow> [])
        in Inr
          \<lparr>pl_sql = js_join nl (if fk_also_index fk then [constraint, [], index] else [constraint]),
           pl_done = ''Foreign key '' @ name @ '' added'',
           pl_notices =
             [scan_notice env ''Adding a foreign key'' (tf_rows f),
              data_notice (''Any row whose '' @ fk_column fk @ '' does not match a row in '' @ fk_schema fk @ ''.''
       @ fk_table fk @ '' stops the whole statement, and Postgres names it. Nothing is applied ''
       @ ''unless every row matches.'')]
             @ (if fk_also_index fk \<or> fk_indexed fk = Some True then [] else [\<lparr>no_kind = ApiNotice, no_text =
                 (if fk_indexed fk = Some False
                  then (fk_column fk @ '' has no index leading with it, so every delete or update of a '' @ fk_table fk
       @ '' row will scan '' @ named_table f
       @ '' to check this constraint. Tick the box below to add one in the same '' @ ''statement.'')
                  else (''Unless '' @ fk_column fk @ '' is indexed, every delete or update of a '' @ fk_table fk
       @ '' row has to scan '' @ named_table f @ '' to check this constraint '' @ em_dash
       @ '' and this caller has no index list, so it cannot tell you whether it '' @ ''is.''))\<rparr>]),
           pl_filename = migration_name env (''add_'' @ name)\<rparr>)"

definition add_check :: "ddl_env \<Rightarrow> table_facts \<Rightarrow> string \<Rightarrow> string option \<Rightarrow> ddl_error + plan" where
  "add_check env f expression name =
     (if js_trim expression = [] then Inl (Incomplete ''Type the condition every row must satisfy.'')
      else
        let constraint = given_name name (squeeze name_char False (js_lower (tf_table f @ ''_check''))) in Inr
        \<lparr>pl_sql = alter_prefix f @ '' add constraint '' @ quote constraint @ nl @ ''  check ('' @ js_trim expression @ '');'',
         pl_done = ''Check '' @ constraint @ '' added'',
         pl_notices = [scan_notice env ''Adding a CHECK constraint'' (tf_rows f),
           data_notice (''A row that already fails the condition stops the statement and ''
       @ ''Postgres names the constraint '' @ em_dash
       @ '' which is how you find out the data does not match the rule you '' @ ''thought it followed.'')],
         pl_filename = migration_name env (''add_'' @ constraint)\<rparr>)"

definition add_unique :: "ddl_env \<Rightarrow> table_facts \<Rightarrow> string list \<Rightarrow> string option \<Rightarrow> ddl_error + plan" where
  "add_unique env f columns name =
     (if columns = [] then Inl (Incomplete ''Choose at least one column.'')
      else
        let constraint = given_name name
              (squeeze name_char False (js_lower (tf_table f @ ''_'' @ js_join ''_'' columns @ ''_key''))) in Inr
        \<lparr>pl_sql = alter_prefix f @ '' add constraint '' @ quote constraint @ nl @ ''  unique ('' @ quoted_names columns @ '');'',
         pl_done = ''Unique constraint '' @ constraint @ '' added'',
         pl_notices = [
           \<lparr>no_kind = LockNotice, no_text =
             (''This builds a unique index, which blocks writes to '' @ named_table f
       @ '' until it finishes and reads '' @ rows_phrase env (tf_rows f) @ ''.'')\<rparr>,
           data_notice (if length columns > 1
             then (''Uniqueness is across the combination, not each column '' @ em_dash
       @ '' two rows may share one value as long as the whole set differs. If ''
       @ ''any two rows already match, the statement fails and names one of them.'')
             else (''If any two rows already share a value the statement fails and names ''
       @ ''one of them, which is the useful outcome.''))],
         pl_filename = migration_name env (''add_'' @ constraint)\<rparr>)"

definition drop_index :: "ddl_env \<Rightarrow> string \<Rightarrow> string \<Rightarrow> bool \<Rightarrow> plan" where
  "drop_index env schema name invalid =
     \<lparr>pl_sql = ''drop index '' @ qualified_name schema name @ '';'',
      pl_done = ''Index '' @ name @ '' dropped'',
      pl_notices = [if invalid
        then data_notice (''This index is invalid '' @ em_dash
       @ '' Postgres will not use it for any query, and it still costs write ''
       @ ''time and disk on every insert. Dropping it is the only way to be rid ''
       @ ''of it; rebuild it afterwards if you wanted it.'')
        else \<lparr>no_kind = ApiNotice, no_text =
          (''Queries relying on this index fall back to whatever else is ''
       @ ''available, usually a sequential scan. Nothing breaks and some things '' @ ''get slower ''
       @ em_dash @ '' and rebuilding it later takes the write lock again.'')\<rparr>],
      pl_filename = migration_name env (''drop_'' @ name)\<rparr>"

definition drop_constraint :: "ddl_env \<Rightarrow> table_facts \<Rightarrow> string \<Rightarrow> string \<Rightarrow> plan" where
  "drop_constraint env f name kind =
     \<lparr>pl_sql = alter_prefix f @ '' drop constraint '' @ quote name @ '';'',
      pl_done = ''Constraint '' @ name @ '' dropped'',
      pl_notices =
        (if kind = ''primary_key'' then [data_notice
           (''This is the table'' @ [CHR 0x92] @ ''s primary key. Without one the grid becomes read-only ''
       @ em_dash @ '' row editing needs a key to target exactly one row '' @ em_dash
       @ '' and paging stops being stable, so a row can appear twice or not at ''
       @ ''all. The index behind it goes too.'')]
         else if kind = ''unique'' then [data_notice
           (''The index behind this constraint is dropped with it, so queries that ''
       @ ''were using it get slower as well.'')]
         else [])
        @ [\<lparr>no_kind = ApiNotice, no_text =
            (if kind = ''foreign_key''
             then (''Rows in '' @ named_table f
       @ '' may then point at rows that do not exist, and nothing will stop new '' @ ''ones doing so. '')
             else (''Rows that would have been rejected can be written to '' @ named_table f @ '' from now on. ''))
            @ ''What is already stored is not checked or changed.''\<rparr>],
      pl_filename = migration_name env (''drop_'' @ name)\<rparr>"

subsection \<open>The confirmation field\<close>

definition field_separator :: "char \<Rightarrow> bool" where
  "field_separator c = (is_ws c \<or> c = CHR '','')"

fun quoted_run :: "string \<Rightarrow> (string \<times> string) option" where
  \<comment> \<open>the match of \<open>/"(?:[^"]|"")*"/\<close> after its opening quote, and the rest; the longest run first,
      and the shorter one when the text ends before a closing quote\<close>
  "quoted_run [] = None"
| "quoted_run [c] = (if c = dquote then Some ([c], []) else None)"
| "quoted_run (c # d # s) =
     (if c \<noteq> dquote then map_option (\<lambda>(m, r). (c # m, r)) (quoted_run (d # s))
      else if d = dquote
      then (case quoted_run s of Some (m, r) \<Rightarrow> Some (c # d # m, r) | None \<Rightarrow> Some ([c], d # s))
      else Some ([c], d # s))"

lemma quoted_run_shorter: "quoted_run s = Some (m, r) \<Longrightarrow> length r < length s"
  by (induction s arbitrary: m r rule: quoted_run.induct) (fastforce split: if_splits option.splits)+

function lift_quoted :: "string \<Rightarrow> string list \<times> string" where
  \<comment> \<open>\<open>typed.replace(..., (m) => { tokens.push(m); return ' '; })\<close>\<close>
  "lift_quoted [] = ([], [])"
| "lift_quoted (c # s) =
     (if c = dquote
      then (case quoted_run s of
              Some (m, r) \<Rightarrow> (case lift_quoted r of (ts, rest) \<Rightarrow> ((c # m) # ts, CHR '' '' # rest))
            | None \<Rightarrow> (case lift_quoted s of (ts, rest) \<Rightarrow> (ts, c # rest)))
      else (case lift_quoted s of (ts, rest) \<Rightarrow> (ts, c # rest)))"
  by pat_completeness auto
termination by (relation "measure length") (auto dest: quoted_run_shorter)

fun field_words :: "string \<Rightarrow> string list" where
  \<comment> \<open>\<open>rest.split(/[\\s,]+/).filter(Boolean)\<close>\<close>
  "field_words [] = []"
| "field_words (c # s) =
     (if field_separator c then field_words s
      else (case s of
              [] \<Rightarrow> [[c]]
            | d # _ \<Rightarrow> if field_separator d then [c] # field_words s
                else (case field_words s of w # ws \<Rightarrow> (c # w) # ws | [] \<Rightarrow> [[c]])))"

definition typed_tokens :: "string \<Rightarrow> string list" where
  "typed_tokens typed = (case lift_quoted typed of (ts, rest) \<Rightarrow> ts @ field_words rest)"

definition names_satisfied :: "string list \<Rightarrow> string \<Rightarrow> bool" where
  "names_satisfied required typed =
     (required = [] \<or> list_all (\<lambda>n. n \<in> set (typed_tokens typed)) required)"

subsection \<open>What the guard reads in a plan\<close>

definition rated :: "string \<Rightarrow> danger \<Rightarrow> string list \<Rightarrow> bool" where
  "rated sql d ns = (sc_danger (classify sql) = d \<and> sc_names (classify sql) = ns
     \<and> length (sc_statements (classify sql)) = 1)"

definition plan_rated :: "ddl_error + plan \<Rightarrow> danger \<Rightarrow> bool" where
  "plan_rated r d = (case r of Inl _ \<Rightarrow> True | Inr p \<Rightarrow> rated (pl_sql p) d [])"

lemma tok_at_shape: "map bare (st_tokens st) = ts \<Longrightarrow> map_option bare (tok_at st i) = (if i < length ts then Some (ts ! i) else None)"
  by (auto simp: tok_at_def)

lemma tok_is_shape:
  "map bare (st_tokens st) = ts \<Longrightarrow> tok_is st i (is_word w) = (i < length ts \<and> is_word w (ts ! i))"
  "map bare (st_tokens st) = ts \<Longrightarrow> tok_is st i (is_punct c) = (i < length ts \<and> is_punct c (ts ! i))"
  by (auto simp: tok_is_def tok_at_def)

lemma token_text_bare: "bare t = tok Ident (quote_with dquote n) \<Longrightarrow> token_text st t = typed_name n"
proof -
  assume "bare t = tok Ident (quote_with dquote n)"
  then have "tk_kind t = Ident" "tk_value t = quote_with dquote n"
    using bare_simps(1,2)[of t] by (metis tok_simps(1), metis tok_simps(2))
  then show ?thesis by (simp add: token_text_def typed_name_def split: option.split)
qed

lemma nth_shape: "map bare (st_tokens st) = ts \<Longrightarrow> i < length ts \<Longrightarrow> bare (st_tokens st ! i) = ts ! i"
  by auto

lemma not_dotted:
  assumes ts: "map bare (st_tokens st) = ts" and "length ts \<le> i \<or> \<not> is_punct CHR ''.'' (ts ! i)"
  shows "dotted_parts st i = ([], i)"
proof -
  have len: "length (st_tokens st) = length ts" using ts by (metis length_map)
  have "\<not> (i < length (st_tokens st) \<and> is_punct CHR ''.'' (st_tokens st ! i))"
    using assms(2) len nth_shape[OF ts, of i] bare_simps(3)[of "CHR ''.''" "st_tokens st ! i"]
    by (metis not_le)
  then show ?thesis by (subst dotted_parts.simps) auto
qed

lemma dotted_name_one:
  assumes ts: "map bare (st_tokens st) = ts" and i: "i < length ts" "ts ! i = tok Ident (quote_with dquote n)"
    and e: "length ts \<le> i + 1 \<or> \<not> is_punct CHR ''.'' (ts ! (i + 1))"
  shows "dotted_name st i = Some (typed_name n, i + 1)"
proof -
  have len: "length (st_tokens st) = length ts" using ts by (metis length_map)
  have b: "bare (st_tokens st ! i) = tok Ident (quote_with dquote n)" using nth_shape[OF ts i(1)] i(2) by simp
  then have "is_name (st_tokens st ! i)" using bare_simps(5)[of "st_tokens st ! i"] by simp
  then show ?thesis using i(1) len not_dotted[OF ts e] token_text_bare[OF b]
    by (simp add: dotted_name_def tok_at_def)
qed

lemma dotted_name_two:
  assumes ts: "map bare (st_tokens st) = ts" and i: "i + 2 < length ts" "ts ! i = tok Ident (quote_with dquote s)"
    "ts ! (i + 1) = tok Punct ''.''" "ts ! (i + 2) = tok Ident (quote_with dquote t)"
    and e: "length ts \<le> i + 3 \<or> \<not> is_punct CHR ''.'' (ts ! (i + 3))"
  shows "dotted_name st i = Some (typed_name s @ ''.'' @ typed_name t, i + 3)"
proof -
  have len: "length (st_tokens st) = length ts" using ts by (metis length_map)
  have b: "bare (st_tokens st ! i) = tok Ident (quote_with dquote s)" "bare (st_tokens st ! (i + 1)) = tok Punct ''.''"
    "bare (st_tokens st ! (i + 2)) = tok Ident (quote_with dquote t)"
    using nth_shape[OF ts] i by auto
  have n: "is_name (st_tokens st ! i)" "is_name (st_tokens st ! (i + 2))" "is_punct CHR ''.'' (st_tokens st ! (i + 1))"
    using b bare_simps(5)[of "st_tokens st ! i"] bare_simps(5)[of "st_tokens st ! (i + 2)"]
      bare_simps(3)[of "CHR ''.''" "st_tokens st ! (i + 1)"] by auto
  have "dotted_parts st (i + 1) = ([typed_name t], i + 3)"
    using not_dotted[OF ts e] n i(1) len token_text_bare[OF b(3)]
    by (subst dotted_parts.simps) (simp add: add.assoc numeral_3_eq_3 numeral_2_eq_2)
  then show ?thesis using n i(1) len token_text_bare[OF b(1)]
    by (simp add: dotted_name_def tok_at_def)
qed

lemma name_list_start_shape: "map bare (st_tokens st) = ts \<Longrightarrow>
    name_list_start st = 1 + length (takeWhile (\<lambda>t. tk_kind t = token_kind.Word \<and> tk_value t \<in> set SKIP) (drop 1 ts))"
  unfolding name_list_start_def drop_map[symmetric]
  by (metis (no_types, lifting) bare_simps(1,2) drop_map length_map takeWhile_bare)

lemma rated_pieces:
  assumes "ps = Kw w # qs" "fits_before ps '';''" "statement_of (tokens_of ps)" "\<not> is_ws (last (text_of ps))"
    "\<And>st. map bare (st_tokens st) = tokens_of ps \<Longrightarrow> vd_danger (danger_of st) = d \<and> vd_names (danger_of st) = ns"
    "length ns \<le> 1"
  shows "rated (text_of ps @ '';'') d ns"
proof -
  obtain st where st: "split_sql (text_of ps @ '';'') = [st]" "map bare (st_tokens st) = tokens_of ps"
    using generated_statement[OF assms(1-4)] by metis
  have "uniq ns = ns" using assms(6) by (cases ns) auto
  then show ?thesis using assms(5)[OF st(2)] by (simp add: rated_def classify_single[OF st(1)])
qed

lemma alter_shape:
  assumes ts: "map bare (st_tokens st) = tok token_kind.Word ''ALTER'' # tok token_kind.Word ''TABLE''
      # tok Ident (quote_with dquote s) # tok Punct ''.'' # tok Ident (quote_with dquote t) # u # us"
    and u: "\<not> is_punct CHR ''.'' u" and a: "action_starts 0 5 (u # us) = []"
  shows "vd_danger (danger_of st) = vd_danger (danger_alter st)" "vd_names (danger_of st) = vd_names (danger_alter st)"
    "alter_actions st = [5]"
proof -
  have "lead st = ''ALTER''" by (simp add: lead_shape ts)
  then show "vd_danger (danger_of st) = vd_danger (danger_alter st)" "vd_names (danger_of st) = vd_names (danger_alter st)"
    by (simp_all add: danger_of_def)
  have n: "name_list_start st = 2" by (simp add: name_list_start_shape[OF ts] SKIP_def)
  have d: "dotted_name st 2 = Some (typed_name s @ ''.'' @ typed_name t, 5)"
    using dotted_name_two[OF ts, of 2 s t] u by simp
  have "map bare (drop 5 (st_tokens st)) = u # us" by (simp add: drop_map[symmetric] ts)
  then have "action_starts 0 5 (drop 5 (st_tokens st)) = []" using a action_starts_bare[of 0 5 "drop 5 (st_tokens st)"] by simp
  then show "alter_actions st = [5]" by (simp add: alter_actions_def n d)
qed

lemma alter_safe:
  assumes ts: "map bare (st_tokens st) = tok token_kind.Word ''ALTER'' # tok token_kind.Word ''TABLE''
      # tok Ident (quote_with dquote s) # tok Punct ''.'' # tok Ident (quote_with dquote t) # tok token_kind.Word w # us"
    and "action_starts 0 5 (tok token_kind.Word w # us) = []" "w \<noteq> ''DROP''"
  shows "vd_danger (danger_of st) = Safe \<and> vd_names (danger_of st) = []"
proof -
  note a = alter_shape[OF ts _ assms(2)]
  have "\<not> tok_is st 5 (is_word ''DROP'')" using assms(3) by (simp add: tok_is_shape[OF ts])
  then show ?thesis using a by (simp add: danger_alter_def alter_drops_def alter_collect_def safe_verdict_def)
qed

lemma alter_drop_column:
  assumes ts: "map bare (st_tokens st) = tok token_kind.Word ''ALTER'' # tok token_kind.Word ''TABLE''
      # tok Ident (quote_with dquote s) # tok Punct ''.'' # tok Ident (quote_with dquote t)
      # [tok token_kind.Word ''DROP'', tok token_kind.Word k, tok Ident (quote_with dquote c)]"
    and k: "k = ''COLUMN'' \<or> k = ''CONSTRAINT''"
  shows "vd_danger (danger_of st) = (if k = ''COLUMN'' then TypeName else Confirm) \<and>
    vd_names (danger_of st) = (if k = ''COLUMN'' then [typed_name c] else [])"
proof -
  have d: "dotted_name st 7 = Some (typed_name c, 8)"
    using dotted_name_one[OF ts, of 7 c] by (simp add: numeral_eq_Suc)
  have i: "tok_is st 5 (is_word ''DROP'')" "tok_is st 6 (is_word x) = (x = k)"
    "\<not> tok_is st 7 (is_word x)" for x
    by (auto simp: tok_is_shape[OF ts])
  have o: "\<not> tok_is st 6 (\<lambda>t. tk_kind t = token_kind.Word \<and> tk_value t \<noteq> ''COLUMN''
                    \<and> tk_value t \<noteq> ''CONSTRAINT'' \<and> tk_value t \<in> set DROP_NOT_COLUMN)"
    using i(2)[of k] k by (auto simp: tok_is_def is_word_def split: option.splits)
  have a: "alter_actions st = [5]" by (rule alter_shape(3)[OF ts]) simp_all
  have "alter_drop st 5 = (if k = ''COLUMN'' then DropColumn (Some (typed_name c)) else DropConstraint (Some (typed_name c)))"
    using k o by (auto simp: alter_drop_def Let_def i d)
  then have "alter_drops st = (if k = ''COLUMN'' then ([typed_name c], [], False) else ([], [typed_name c], False))"
    by (simp add: alter_drops_def a alter_collect_def i)
  then show ?thesis using alter_shape(1,2)[OF ts] by (simp add: danger_alter_def Let_def)
qed

lemma ddl_words:
  "js_upper ''alter'' = ''ALTER''"
  "js_upper ''table'' = ''TABLE''"
  "js_upper ''rename'' = ''RENAME''"
  "js_upper ''to'' = ''TO''"
  "js_upper ''column'' = ''COLUMN''"
  "js_upper ''drop'' = ''DROP''"
  "js_upper ''index'' = ''INDEX''"
  "js_upper ''constraint'' = ''CONSTRAINT''"
  "js_upper ''grant'' = ''GRANT''"
  "js_upper ''on'' = ''ON''"
  "js_upper ''anon'' = ''ANON''"
  "js_upper ''revoke'' = ''REVOKE''"
  "js_upper ''all'' = ''ALL''"
  "js_upper ''enable'' = ''ENABLE''"
  "js_upper ''row'' = ''ROW''"
  "js_upper ''level'' = ''LEVEL''"
  "js_upper ''security'' = ''SECURITY''"
  "js_upper ''not'' = ''NOT''"
  "js_upper ''null'' = ''NULL''"
  "js_upper ''default'' = ''DEFAULT''"
  "js_upper ''add'' = ''ADD''"
  "js_upper ''primary'' = ''PRIMARY''"
  "js_upper ''key'' = ''KEY''"
  "js_upper ''unique'' = ''UNIQUE''"
  "js_upper ''create'' = ''CREATE''"
  "js_upper ''restrict'' = ''RESTRICT''"
  "js_upper ''cascade'' = ''CASCADE''"
  by code_simp+

lemmas plan_words = upper_words ddl_words

definition alter_piece :: "table_facts \<Rightarrow> piece list \<Rightarrow> piece list" where
  "alter_piece f ps = Kw ''alter'' # Gap '' '' # Kw ''table'' # Gap '' '' # target (tf_schema f) (tf_table f) @ Gap '' '' # ps"

lemma alter_text: "text_of (alter_piece f ps) = alter_prefix f @ '' '' @ text_of ps"
  "fits_before (alter_piece f ps) r = fits_before ps r"
  "tokens_of (alter_piece f ps) = tok token_kind.Word ''ALTER'' # tok token_kind.Word ''TABLE''
      # tok Ident (quote_with dquote (tf_schema f)) # tok Punct ''.'' # tok Ident (quote_with dquote (tf_table f)) # tokens_of ps"
  by (simp_all add: alter_piece_def alter_prefix_def piece_eval plan_words)

lemma alter_rated:
  assumes "fits_before ps '';''" "drop_separators 0 (tokens_of ps) = tokens_of ps" "depth_after 0 (tokens_of ps) = 0"
    "text_of ps \<noteq> []" "\<not> is_ws (last (text_of ps))"
    "tokens_of ps = tok token_kind.Word w # us" "action_starts 0 5 (tokens_of ps) = []" "w \<noteq> ''DROP''"
  shows "rated (alter_prefix f @ '' '' @ text_of ps @ '';'') Safe []"
proof -
  have "rated (text_of (alter_piece f ps) @ '';'') Safe []"
    using assms alter_safe
    by (intro rated_pieces[OF alter_piece_def]) (auto simp: alter_text statement_of_def simp flip: alter_piece_def)
  then show ?thesis by (simp add: alter_text)
qed

lemma alter_drop_rated:
  assumes "ps = [Kw ''drop'', Gap '' '', Kw k, Gap '' '', Idn c]" "k = ''column'' \<or> k = ''constraint''"
  shows "rated (alter_prefix f @ '' '' @ text_of ps @ '';'') (if k = ''column'' then TypeName else Confirm)
    (if k = ''column'' then [typed_name c] else [])"
proof -
  have t: "tokens_of (alter_piece f ps) = tok token_kind.Word ''ALTER'' # tok token_kind.Word ''TABLE''
      # tok Ident (quote_with dquote (tf_schema f)) # tok Punct ''.'' # tok Ident (quote_with dquote (tf_table f))
      # [tok token_kind.Word ''DROP'', tok token_kind.Word (js_upper k), tok Ident (quote_with dquote c)]"
    by (simp add: alter_text assms(1) plan_words)
  have "rated (text_of (alter_piece f ps) @ '';'') (if k = ''column'' then TypeName else Confirm)
    (if k = ''column'' then [typed_name c] else [])"
  proof (rule rated_pieces[OF alter_piece_def], goal_cases)
    case 1
    show ?case using assms by (auto simp: alter_text piece_eval simp flip: alter_piece_def)
  next
    case 2
    show ?case by (simp add: t statement_of_def flip: alter_piece_def)
  next
    case 3
    show ?case by (simp add: alter_text assms(1) quote_with_def piece_eval flip: alter_piece_def)
  next
    case (4 st)
    then show ?case using alter_drop_column[OF 4[folded alter_piece_def, unfolded t]] assms(2) by (auto simp: plan_words)
  next
    case 5
    show ?case by simp
  qed
  then show ?thesis by (simp add: alter_text)
qed

lemma quoted_end: "text_of [Idn c] \<noteq> [] \<and> \<not> is_ws (last (text_of [Idn c]))"
  by (simp add: quote_with_def piece_eval)

lemma last_quoted [simp]: "last (quote_with dquote c) = dquote" "quote_with dquote c \<noteq> []"
  by (simp_all add: quote_with_def)

lemma rename_rated: "plan_rated (rename_table env f to) Safe" "plan_rated (rename_column env f column to) Safe"
proof -
  have "rated (alter_prefix f @ '' '' @ text_of [Kw ''rename'', Gap '' '', Kw ''to'', Gap '' '', Idn to] @ '';'') Safe []"
    by (rule alter_rated) (simp add: piece_eval plan_words)+
  then show "plan_rated (rename_table env f to) Safe"
    by (simp add: plan_rated_def rename_table_def quote_eq)
  have "rated (alter_prefix f @ '' '' @ text_of [Kw ''rename'', Gap '' '', Kw ''column'', Gap '' '', Idn column, Gap '' '',
      Kw ''to'', Gap '' '', Idn to] @ '';'') Safe []"
    by (rule alter_rated) (simp add: piece_eval plan_words)+
  then show "plan_rated (rename_column env f column to) Safe"
    by (simp add: plan_rated_def rename_column_def quote_eq)
qed

lemma column_rated: "rated (pl_sql (set_not_null env f column)) Safe []" "rated (pl_sql (drop_not_null env f column)) Safe []"
  "rated (pl_sql (drop_default env f column)) Safe []"
proof -
  have "rated (alter_prefix f @ '' '' @ text_of ([Kw ''alter'', Gap '' '', Kw ''column'', Gap '' '', Idn column, Gap '' '']
      @ [Kw ''set'', Gap '' '', Kw ''not'', Gap '' '', Kw ''null'']) @ '';'') Safe []"
    by (rule alter_rated) (simp add: piece_eval plan_words)+
  then show "rated (pl_sql (set_not_null env f column)) Safe []" by (simp add: set_not_null_def quote_eq)
  have "rated (alter_prefix f @ '' '' @ text_of ([Kw ''alter'', Gap '' '', Kw ''column'', Gap '' '', Idn column, Gap '' '']
      @ [Kw ''drop'', Gap '' '', Kw ''not'', Gap '' '', Kw ''null'']) @ '';'') Safe []"
    by (rule alter_rated) (simp add: piece_eval plan_words)+
  then show "rated (pl_sql (drop_not_null env f column)) Safe []" by (simp add: drop_not_null_def quote_eq)
  have "rated (alter_prefix f @ '' '' @ text_of ([Kw ''alter'', Gap '' '', Kw ''column'', Gap '' '', Idn column, Gap '' '']
      @ [Kw ''drop'', Gap '' '', Kw ''default'']) @ '';'') Safe []"
    by (rule alter_rated) (simp add: piece_eval plan_words)+
  then show "rated (pl_sql (drop_default env f column)) Safe []" by (simp add: drop_default_def quote_eq)
qed

lemma rls_rated: "rated (pl_sql (enable_rls env f)) Safe []"
proof -
  have "rated (alter_prefix f @ '' '' @ text_of [Kw ''enable'', Gap '' '', Kw ''row'', Gap '' '', Kw ''level'', Gap '' '',
      Kw ''security''] @ '';'') Safe []"
    by (rule alter_rated) (simp add: piece_eval plan_words)+
  then show ?thesis by (simp add: enable_rls_def)
qed

lemma actions_in_names: "action_starts (Suc 0) j (tokens_of (names_piece cs) @ [tok Punct '')'']) = []"
  using quiet_scans(5)[OF list_pieces_quiet(1), of "Suc 0" j cs "[tok Punct '')'']"] by simp

lemma key_rated: "plan_rated (add_primary_key env f columns) Safe" "plan_rated (add_unique env f columns name) Safe"
proof -
  have "rated (alter_prefix f @ '' '' @ text_of ([Kw ''add'', Gap '' '', Kw ''primary'', Gap '' '', Kw ''key'', Gap '' '']
      @ parens (names_piece columns)) @ '';'') Safe []"
    by (rule alter_rated) (simp add: piece_eval plan_words actions_in_names)+
  then show "plan_rated (add_primary_key env f columns) Safe"
    by (simp add: plan_rated_def add_primary_key_def quoted_names_def names_piece_text)
  let ?c = "given_name name (squeeze name_char False (js_lower (tf_table f @ ''_'' @ js_join ''_'' columns @ ''_key'')))"
  have "rated (alter_prefix f @ '' '' @ text_of ([Kw ''add'', Gap '' '', Kw ''constraint'', Gap '' '', Idn ?c, Gap (nl @ ''  ''),
      Kw ''unique'', Gap '' ''] @ parens (names_piece columns)) @ '';'') Safe []"
    by (rule alter_rated) (simp add: piece_eval plan_words actions_in_names)+
  then show "plan_rated (add_unique env f columns name) Safe"
    by (simp add: plan_rated_def add_unique_def quoted_names_def names_piece_text quote_eq Let_def)
qed

lemma drop_rated:
  "rated (pl_sql (drop_column env f column)) TypeName [typed_name column]"
  "rated (pl_sql (drop_constraint env f name kind)) Confirm []"
  using alter_drop_rated[OF refl, of "''column''" f column] alter_drop_rated[OF refl, of "''constraint''" f name]
  by (simp_all add: drop_column_def drop_constraint_def quote_eq)

lemma index_rated: "plan_rated (create_index env f columns is_unique name) Safe"
proof -
  let ?n = "given_name name (index_name (tf_table f) columns)"
  let ?u = "if is_unique then [Kw ''unique'', Gap '' ''] else []"
  have "rated (text_of (Kw ''create'' # Gap '' '' # ?u @ [Kw ''index'', Gap '' '', Idn ?n, Gap (nl @ ''  ''), Kw ''on'', Gap '' '']
      @ target (tf_schema f) (tf_table f) @ Gap '' '' # parens (names_piece columns)) @ '';'') Safe []"
    by (rule rated_pieces[OF refl])
      (auto simp: piece_eval plan_words statement_of_def lead_shape danger_of_def safe_verdict_def)
  then show ?thesis
    by (auto simp: plan_rated_def create_index_def quoted_names_def names_piece_text quote_eq Let_def)
qed

lemma grant_rated: "rated (pl_sql (grant_anon_read env f)) Confirm []" "rated (pl_sql (revoke_anon_access env f)) Safe []"
proof -
  let ?t = "target (tf_schema f) (tf_table f)"
  let ?g = "Kw ''grant'' # Gap '' '' # Kw ''select'' # Gap '' '' # Kw ''on'' # Gap '' '' # ?t @ [Gap '' '', Kw ''to'', Gap '' '', Kw ''anon'']"
  have "vd_danger (danger_of st) = Confirm \<and> vd_names (danger_of st) = []" if st: "map bare (st_tokens st) = tokens_of ?g" for st
  proof -
    have "lead st = ''GRANT''" by (simp add: lead_shape st plan_words)
    moreover have "\<not> on_schema (st_tokens st)" "grantee_scan 0 False (st_tokens st) = Some Anon"
      unfolding on_schema_bare[of "st_tokens st", symmetric] grantee_scan_bare[of 0 False "st_tokens st", symmetric] st
      by (simp_all add: plan_words)
    ultimately show ?thesis by (simp add: danger_of_def danger_grant_def grantee_def)
  qed
  then have "rated (text_of ?g @ '';'') Confirm []"
    by (intro rated_pieces[OF refl]) (auto simp: piece_eval plan_words statement_of_def)
  then show "rated (pl_sql (grant_anon_read env f)) Confirm []" by (simp add: grant_anon_read_def)
  have "rated (text_of (Kw ''revoke'' # Gap '' '' # Kw ''all'' # Gap '' '' # Kw ''on'' # Gap '' '' # ?t
      @ [Gap '' '', Kw ''from'', Gap '' '', Kw ''anon'']) @ '';'') Safe []"
    by (rule rated_pieces[OF refl])
      (auto simp: piece_eval plan_words statement_of_def lead_shape danger_of_def safe_verdict_def)
  then show "rated (pl_sql (revoke_anon_access env f)) Safe []" by (simp add: revoke_anon_access_def)
qed

lemma drop_object_shape:
  assumes ts: "map bare (st_tokens st) = tok token_kind.Word ''DROP'' # tok token_kind.Word k
      # tok Ident (quote_with dquote s) # tok Punct ''.'' # tok Ident (quote_with dquote t) # us"
    and us: "us = [] \<or> (\<exists>w. us = [tok token_kind.Word w])" and k: "k \<in> set SKIP" "k \<noteq> ''SCHEMA''"
  shows "vd_danger (danger_of st) = (if k = ''TABLE'' then TypeName else Confirm)"
    "vd_names (danger_of st) = (if k = ''TABLE'' then [typed_name s @ ''.'' @ typed_name t] else [])"
proof -
  have l: "lead st = ''DROP''" by (simp add: lead_shape ts)
  have n: "name_list_start st = 2" using k by (simp add: name_list_start_shape[OF ts])
  have d: "dotted_name st 2 = Some (typed_name s @ ''.'' @ typed_name t, 5)"
    using dotted_name_two[OF ts, of 2 s t] us by auto
  have "\<not> tok_is st 5 (is_punct CHR '','')" using us by (auto simp: tok_is_shape[OF ts])
  then have o: "object_names st = [typed_name s @ ''.'' @ typed_name t]"
    unfolding object_names_def n by (subst names_from.simps) (simp add: d)
  have "tok_is st 1 (is_word x) = (x = k)" for x by (auto simp: tok_is_shape[OF ts])
  then show "vd_danger (danger_of st) = (if k = ''TABLE'' then TypeName else Confirm)"
    "vd_names (danger_of st) = (if k = ''TABLE'' then [typed_name s @ ''.'' @ typed_name t] else [])"
    using l o k(2) by (auto simp: danger_of_def danger_drop_def Let_def)
qed

lemma drop_object_rated:
  "rated (pl_sql (drop_table env f cascade)) TypeName [typed_name (tf_schema f) @ ''.'' @ typed_name (tf_table f)]"
  "rated (pl_sql (drop_index env schema name invalid)) Confirm []"
proof -
  let ?c = "if cascade then ''cascade'' else ''restrict''"
  let ?p = "Kw ''drop'' # Gap '' '' # Kw ''table'' # Gap '' '' # target (tf_schema f) (tf_table f) @ [Gap '' '', Kw ?c]"
  have "vd_danger (danger_of st) = TypeName \<and> vd_names (danger_of st) = [typed_name (tf_schema f) @ ''.'' @ typed_name (tf_table f)]"
    if "map bare (st_tokens st) = tokens_of ?p" for st
    using drop_object_shape[of st "''TABLE''" "tf_schema f" "tf_table f" "[tok token_kind.Word (js_upper ?c)]"] that
    by (auto simp: plan_words SKIP_def)
  then have "rated (text_of ?p @ '';'') TypeName [typed_name (tf_schema f) @ ''.'' @ typed_name (tf_table f)]"
    by (intro rated_pieces[OF refl]) (auto simp: piece_eval plan_words statement_of_def)
  then show "rated (pl_sql (drop_table env f cascade)) TypeName [typed_name (tf_schema f) @ ''.'' @ typed_name (tf_table f)]"
    by (auto simp: drop_table_def split: if_splits)
  let ?q = "Kw ''drop'' # Gap '' '' # Kw ''index'' # Gap '' '' # target schema name"
  have "vd_danger (danger_of st) = Confirm \<and> vd_names (danger_of st) = []"
    if "map bare (st_tokens st) = tokens_of ?q" for st
    using drop_object_shape[of st "''INDEX''" schema name "[]"] that by (simp add: plan_words SKIP_def)
  then have "rated (text_of ?q @ '';'') Confirm []"
    by (intro rated_pieces[OF refl]) (auto simp: piece_eval plan_words statement_of_def quote_eq qualified_name_def)
  then show "rated (pl_sql (drop_index env schema name invalid)) Confirm []"
    by (simp add: drop_index_def)
qed

subsection \<open>Typing a name\<close>

lemma typed_name_cases:
  obtains "typed_name n = n" "bare_start (hd n)" "n \<noteq> []" "list_all bare_char n"
  | "typed_name n = quote_with dquote n"
proof (cases "redundantly_quoted (quote_with dquote n)")
  case None
  then show ?thesis using that(2) by (simp add: typed_name_def)
next
  case (Some v)
  obtain d r where n: "quote_with dquote n = dquote # d # r" "bare_start d" "list_all bare_char (butlast r)" "v = d # butlast r"
    "r \<noteq> []" "last r = dquote"
    using Some by (auto simp: redundantly_quoted_def split: list.splits if_splits)
  have q: "double dquote n @ [dquote] = d # r" using n(1) by (simp add: quote_with_def)
  then have v: "double dquote n = v" using n(4,5)
    by (metis butlast.simps(2) butlast_snoc)
  have nd: "dquote \<notin> set v"
    using n(2,3,4) by (auto simp: list_all_iff bare_start_def bare_char_def char_class_defs)
  have "dquote \<notin> set (double dquote m) \<Longrightarrow> double dquote m = m" for m
    by (induction m) (auto split: if_splits)
  then have "n = v" using v nd by metis
  moreover have "bare_char d" using n(2) by (auto simp: bare_start_def bare_char_def)
  ultimately show ?thesis using that(1) Some n(2,3,4) by (simp add: typed_name_def)
qed

lemma quoted_run_None: "quoted_run s = None \<longleftrightarrow> dquote \<notin> set s"
  by (induction s rule: quoted_run.induct) (auto split: option.splits)

lemma lift_plain: "dquote \<notin> set s \<Longrightarrow> lift_quoted (s @ r) = (fst (lift_quoted r), s @ snd (lift_quoted r))"
  by (induction s) (auto split: prod.splits)

lemma lift_plain': "dquote \<notin> set s \<Longrightarrow> lift_quoted s = ([], s)"
  using lift_plain[of s "[]"] by simp

lemma quoted_run_double:
  "not_next (\<lambda>c. c = dquote) r \<Longrightarrow> quoted_run (double dquote n @ dquote # r) = Some (double dquote n @ [dquote], r)"
proof (induction n)
  case Nil
  then show ?case by (cases r) auto
next
  case (Cons c n)
  show ?case
  proof (cases "c = dquote")
    case True
    then show ?thesis using Cons by simp
  next
    case False
    obtain d ds where d: "double dquote n @ dquote # r = d # ds" by (cases "double dquote n @ dquote # r") auto
    then have "quoted_run (c # double dquote n @ dquote # r)
        = map_option (\<lambda>(m, r). (c # m, r)) (quoted_run (double dquote n @ dquote # r))"
      using False by simp
    then show ?thesis using Cons False by simp
  qed
qed

lemma lift_quote:
  "not_next (\<lambda>c. c = dquote) r \<Longrightarrow>
    lift_quoted (quote_with dquote n @ r) = (quote_with dquote n # fst (lift_quoted r), CHR '' '' # snd (lift_quoted r))"
  using quoted_run_double[of r n] by (simp add: quote_with_def split: prod.split)

lemma field_words_word:
  "w \<noteq> [] \<Longrightarrow> list_all (\<lambda>c. \<not> field_separator c) w \<Longrightarrow> not_next (\<lambda>c. \<not> field_separator c) r \<Longrightarrow>
    field_words (w @ r) = w # field_words r"
proof (induction w)
  case (Cons c w)
  show ?case
  proof (cases w)
    case Nil
    then show ?thesis using Cons.prems by (cases r) auto
  next
    case (Cons d ds)
    then have "field_words (w @ r) = w # field_words r" using Cons.IH Cons.prems by simp
    then show ?thesis using Cons Cons.prems by simp
  qed
qed simp

lemma bare_not_separator: "bare_char c \<Longrightarrow> \<not> field_separator c \<and> c \<noteq> dquote"
  by (auto simp: bare_char_def field_separator_def char_class_defs)

definition field_tokens :: "string list \<times> string \<Rightarrow> string set" where
  "field_tokens p = set (fst p) \<union> set (field_words (snd p))"

lemma field_tokens_typed: "set (typed_tokens s) = field_tokens (lift_quoted s)"
  by (cases "lift_quoted s") (simp add: typed_tokens_def field_tokens_def)

lemma typed_name_tokens:
  assumes "r = [] \<or> (\<exists>t. r = CHR '','' # t)"
  shows "field_tokens (lift_quoted (typed_name n @ r)) = insert (typed_name n) (field_tokens (lift_quoted r))"
proof (cases n rule: typed_name_cases)
  case 1
  then have "dquote \<notin> set n" "list_all (\<lambda>c. \<not> field_separator c) n"
    by (auto simp: list_all_iff dest: bare_not_separator)
  moreover have "snd (lift_quoted r) = [] \<or> (\<exists>t. snd (lift_quoted r) = CHR '','' # t)"
    using assms by (auto split: prod.splits)
  ultimately show ?thesis using 1 field_words_word[of n "snd (lift_quoted r)"]
    by (auto simp: lift_plain field_tokens_def field_separator_def)
next
  case 2
  have "not_next (\<lambda>c. c = dquote) r" using assms by auto
  then show ?thesis using 2 by (simp add: lift_quote field_tokens_def field_separator_def char_class_defs)
qed

lemma comma_tokens: "field_tokens (lift_quoted (CHR '','' # CHR '' '' # s)) = field_tokens (lift_quoted s)"
  by (auto simp: field_tokens_def field_separator_def char_class_defs split: prod.split)

lemma joined_tokens: "set (map typed_name ns) \<subseteq> field_tokens (lift_quoted (js_join '', '' (map typed_name ns)))"
proof (induction ns rule: induct_list012)
  case (2 n)
  then show ?case using typed_name_tokens[of "[]" n] by simp
next
  case (3 n m ns)
  then show ?case
    using typed_name_tokens[of "'', '' @ js_join '', '' (map typed_name (m # ns))" n]
      comma_tokens[of "js_join '', '' (map typed_name (m # ns))"] by auto
qed simp

lemma count_rest: "length (filter (\<lambda>c. c = dquote) (snd (lift_quoted s))) \<le> 1"
proof (induction s rule: lift_quoted.induct)
  case (2 c s)
  show ?case
  proof (cases "c = dquote \<and> quoted_run s = None")
    case True
    then have "dquote \<notin> set s" by (simp add: quoted_run_None)
    then have "filter (\<lambda>c. c = dquote) s = []" by (auto simp: filter_empty_conv)
    then show ?thesis using True \<open>dquote \<notin> set s\<close> by (simp add: lift_plain')
  next
    case False
    then show ?thesis using 2 by (auto split: prod.splits option.splits)
  qed
qed simp

lemma lifted_start: "t \<in> set (fst (lift_quoted s)) \<Longrightarrow> hd t = dquote"
  by (induction s arbitrary: t rule: lift_quoted.induct) (auto split: prod.splits option.splits if_splits)

lemma field_words_sub: "w \<in> set (field_words s) \<Longrightarrow> length (filter P w) \<le> length (filter P s)"
proof (induction s arbitrary: w)
  case (Cons c s)
  have le: "length (filter P s) \<le> length (filter P (c # s))" by simp
  show ?case
  proof (cases "field_separator c")
    case True
    then have "w \<in> set (field_words s)" using Cons.prems by simp
    then show ?thesis using Cons.IH[of w] le by linarith
  next
    case sep: False
    show ?thesis
    proof (cases s)
      case Nil
      then show ?thesis using Cons.prems sep by simp
    next
      case s: (Cons d t)
      show ?thesis
      proof (cases "field_separator d")
        case True
        then have "w = [c] \<or> w \<in> set (field_words s)" using Cons.prems sep s by simp
        then show ?thesis using Cons.IH[of w] le by (elim disjE) auto
      next
        case False
        show ?thesis
        proof (cases "field_words s")
          case Nil
          then show ?thesis using Cons.prems sep False s by simp
        next
          case fw: (Cons v vs)
          then have "w = c # v \<or> w \<in> set vs" using Cons.prems sep False s by simp
          then show ?thesis using Cons.IH[of v] Cons.IH[of w] fw le by (elim disjE) auto
        qed
      qed
    qed
  qed
qed simp

lemma mixed_name_untypable:
  assumes "s \<noteq> []" "hd s \<noteq> dquote" "x = s @ ''.'' @ quote_with dquote t"
  shows "x \<notin> set (typed_tokens typed)"
proof
  assume x: "x \<in> set (typed_tokens typed)"
  have "hd x \<noteq> dquote" using assms by simp
  then have "x \<in> set (field_words (snd (lift_quoted typed)))"
    using x lifted_start[of x typed] by (auto simp: field_tokens_typed field_tokens_def)
  then have "length (filter (\<lambda>c. c = dquote) x) \<le> 1"
    using field_words_sub[of x _ "\<lambda>c. c = dquote"] count_rest[of typed] by (meson le_trans)
  then show False using assms(3) by (simp add: quote_with_def)
qed


text \<open>
  The confirmation field accepts what it asks for: typing the names the guard wants for any list of identifiers, separated by a comma, satisfies it, quotes, spaces and commas inside the names included; so a column drop can always be confirmed.
\<close>

theorem asked_names_can_be_typed:
  "names_satisfied (map typed_name ns) (js_join '', '' (map typed_name ns)) \<and>
   set (sc_names (classify (pl_sql (drop_column env f column)))) \<subseteq> set (typed_tokens (typed_name column))"
  using joined_tokens[of ns] joined_tokens[of "[column]"] drop_rated(1)[of env f column]
  by (auto simp: names_satisfied_def list_all_iff field_tokens_typed rated_def)

text \<open>
  A table whose name needs its quotes (\<open>"Posts"\<close>) cannot be dropped from the table editor: the guard asks for \<open>public."Posts"\<close>, and no typed text at all satisfies the confirmation field, which takes a quoted run out of the text before it splits the rest.
\<close>

theorem mixed_case_table_cannot_be_dropped:
  assumes "typed_name (tf_schema f) = tf_schema f" "typed_name (tf_table f) \<noteq> tf_table f"
  shows "sc_danger (classify (pl_sql (drop_table env f cascade))) = TypeName \<and>
    \<not> names_satisfied (sc_names (classify (pl_sql (drop_table env f cascade)))) typed"
proof -
  have t: "typed_name (tf_table f) = quote_with dquote (tf_table f)"
    using assms(2) typed_name_cases[of "tf_table f"] by metis
  have "tf_schema f \<noteq> quote_with dquote (tf_schema f)"
  proof -
    have "length (double dquote s) \<ge> length s" for s by (induction s) auto
    from this[of "tf_schema f"] show ?thesis by (auto simp: quote_with_def dest: arg_cong[of _ _ length])
  qed
  then have "typed_name (tf_schema f) \<noteq> quote_with dquote (tf_schema f)" using assms(1) by metis
  then have b: "tf_schema f \<noteq> []" "bare_start (hd (tf_schema f))"
    using typed_name_cases[of "tf_schema f"] by metis+
  have "\<not> bare_start dquote" by (simp add: bare_start_def char_class_defs)
  then have s: "tf_schema f \<noteq> []" "hd (tf_schema f) \<noteq> dquote" using b by metis+
  show ?thesis
    using drop_object_rated(1)[of env f cascade] mixed_name_untypable[OF s refl, of "tf_table f" typed] assms(1) t
    by (auto simp: rated_def names_satisfied_def)
qed

theorem mixed_case_table_cannot_be_dropped_witness:
  "\<forall>env. \<not> names_satisfied (sc_names (classify (pl_sql (drop_table env \<lparr>tf_schema = ''public'', tf_table = ''Posts'', tf_rows = 0\<rparr> False))))
     ([dquote] @ ''Posts'' @ [dquote] @ '' public.Posts'')"
proof -
  let ?f = "\<lparr>tf_schema = ''public'', tf_table = ''Posts'', tf_rows = 0\<rparr>"
  have "typed_name (tf_schema ?f) = tf_schema ?f" "typed_name (tf_table ?f) \<noteq> tf_table ?f"
    by (simp_all add: typed_name_def redundantly_quoted_def quote_with_def bare_start_def bare_char_def char_class_defs)
  from mixed_case_table_cannot_be_dropped[OF this] show ?thesis by blast
qed

end
