(* ===== verification/Sweeper.thy ===== *)
theory Sweeper
  imports Jobs Ids
begin

text \<open>
  The two scans of the worker that create deliveries: \<open>services/worker/src/sweeper.ts\<close>, which
  rebuilds lost ones from the job table, and \<open>purge-scan.ts\<close>, which schedules the purge of a
  project whose recovery window has closed.

  A state is the job table and the queue. What is relied on of BullMQ is \<open>queue_law\<close>: after
  \<open>add\<close> with a job id, \<open>getJob\<close> finds that id and otherwise what it found before.
\<close>

definition queue_law :: "'q queue_ops \<Rightarrow> bool" where
  "queue_law ops = (\<forall>q k j. q_has ops (q_add ops k q) j = (j = k \<or> q_has ops q j))"

subsection \<open>The sweeper\<close>

fun sweep_rows :: "'q queue_ops \<Rightarrow> job_row list \<Rightarrow> nat \<Rightarrow> (job_db \<times> 'q, queue_error, nat) eff" where
  "sweep_rows ops [] n st = (Inr n, st)"
| "sweep_rows ops (r # rs) n (db, q) =
     (case enqueue_recovery ops (jb_key r) (jb_attempts r) q of
        (Inl e, q') \<Rightarrow> (Inl e, db, q')
      | (Inr (enqueued, i), q') \<Rightarrow>
          if enqueued then sweep_rows ops rs (n + 1) (mark_enqueued (jb_id r) db, q')
          else sweep_rows ops rs n (db, q'))"

definition sweep_once :: "'q queue_ops \<Rightarrow> nat \<Rightarrow> nat \<Rightarrow> (job_db \<times> 'q, queue_error, nat \<times> nat) eff" where
  \<comment> \<open>\<open>found\<close> and \<open>reEnqueued\<close>\<close>
  "sweep_once ops stale batch = (\<lambda>(db, q).
     let orphans = find_orphans stale batch db in
     and_then (sweep_rows ops orphans 0) (\<lambda>n. ret (length orphans, n)) (db, q))"

subsection \<open>The purge scan\<close>

record purge_row =
  pp_id :: string
  pp_ref :: string
  pp_status :: string
  pp_purge_after :: "nat option"

definition purge_due :: "nat \<Rightarrow> purge_row \<Rightarrow> bool" where
  "purge_due now p =
     (pp_status p = ''soft_deleted'' \<and> (case pp_purge_after p of None \<Rightarrow> False | Some t \<Rightarrow> t \<le> now))"

definition due_projects :: "nat \<Rightarrow> nat \<Rightarrow> purge_row list \<Rightarrow> purge_row list" where
  "due_projects now batch ps = take batch (sort_key (the \<circ> pp_purge_after) (filter (purge_due now) ps))"

definition purge_key :: "string \<Rightarrow> string" where
  "purge_key project = ''purge_'' @ project"

definition insert_job :: "string \<Rightarrow> string \<Rightarrow> string \<Rightarrow> string \<Rightarrow> job_db \<Rightarrow> string option \<times> job_db" where
  \<comment> \<open>\<open>INSERT ... ON CONFLICT (idempotency_key) DO NOTHING RETURNING id\<close>, with the column defaults\<close>
  "insert_job i project job_type key db =
     (if list_ex (\<lambda>r. jb_key r = key) (jd_rows db) then (None, db)
      else (Some i, db\<lparr>jd_rows := jd_rows db @
        [\<lparr>jb_id = i, jb_project = Some project, jb_type = job_type, jb_key = key, jb_state = Pending,
          jb_attempts = 0, jb_max = 5, jb_checkpoint = None, jb_error = None, jb_heartbeat = None,
          jb_scheduled = jd_now db, jb_started = None, jb_finished = None, jb_created = jd_now db\<rparr>]\<rparr>))"

fun purge_rows :: "(string \<Rightarrow> string) \<Rightarrow> 'q queue_ops \<Rightarrow> purge_row list \<Rightarrow> nat \<times> nat
    \<Rightarrow> (job_db \<times> 'q, queue_error, nat \<times> nat) eff" where
  \<comment> \<open>\<open>new_id\<close> is the random id of the row inserted for a project\<close>
  "purge_rows new_id ops [] counts st = (Inr counts, st)"
| "purge_rows new_id ops (p # ps) (created, enqueued) (db, q) =
     (case insert_job (new_id (pp_id p)) (pp_id p) ''purge_project'' (purge_key (pp_id p)) db of
        (None, db') \<Rightarrow> purge_rows new_id ops ps (created, enqueued) (db', q)
      | (Some i, db') \<Rightarrow>
          (case enqueue_provisioning ops (purge_key (pp_id p)) q of
             (Inl e, q') \<Rightarrow> (Inl e, db', q')
           | (Inr ok, q') \<Rightarrow>
               purge_rows new_id ops ps (created + 1, if ok then enqueued + 1 else enqueued) (db', q')))"

definition purge_scan_once :: "(string \<Rightarrow> string) \<Rightarrow> 'q queue_ops \<Rightarrow> nat \<Rightarrow> purge_row list
    \<Rightarrow> (job_db \<times> 'q, queue_error, nat \<times> nat \<times> nat) eff" where
  "purge_scan_once new_id ops batch projects = (\<lambda>(db, q).
     let due = due_projects (jd_now db) batch projects in
     if due = [] then (Inr (0, 0, 0), db, q)
     else and_then (purge_rows new_id ops due (0, 0)) (\<lambda>(created, enqueued). ret (length due, created, enqueued)) (db, q))"

subsection \<open>Facts about the sweep\<close>

lemma enqueue_recovery_result:
  assumes "queue_law ops" "valid_delivery_id key"
  shows "\<exists>b i q'. enqueue_recovery ops key n q = (Inr (b, i), q') \<and> q_has ops q' key \<and>
    (\<forall>j. q_has ops q j \<longrightarrow> q_has ops q' j)"
proof (cases "q_has ops q key")
  case False
  then show ?thesis using assms by (auto simp: enqueue_recovery_def queue_law_def)
next
  case True
  then show ?thesis using assms
    by (cases "q_has ops q (recovery_job_id key n)") (auto simp: enqueue_recovery_def queue_law_def Let_def)
qed

definition marks :: "job_db \<Rightarrow> job_db \<Rightarrow> bool" where
  \<comment> \<open>some pending rows became enqueued, nothing else changed\<close>
  "marks db db' = (jd_now db' = jd_now db \<and> list_all2 (\<lambda>r r'. r' = r \<or>
     jb_state r = Pending \<and> r' = r\<lparr>jb_state := Enqueued\<rparr>) (jd_rows db) (jd_rows db'))"

lemma marks_refl [simp]: "marks db db"
  by (simp add: marks_def list_all2_refl)

lemma marks_trans: "marks a b \<Longrightarrow> marks b c \<Longrightarrow> marks a c"
proof -
  let ?P = "\<lambda>r r'. r' = r \<or> jb_state r = Pending \<and> r' = r\<lparr>jb_state := Enqueued\<rparr>"
  assume m: "marks a b" "marks b c"
  have "list_all2 ?P (jd_rows a) (jd_rows c)"
    by (rule list_all2_trans[of ?P ?P ?P "jd_rows a" "jd_rows b"]) (use m in \<open>auto simp: marks_def\<close>)
  then show "marks a c" using m by (simp add: marks_def)
qed

lemma marks_mark: "marks db (mark_enqueued i db)"
  by (auto simp: marks_def mark_enqueued_def update_job_def list_all2_conv_all_nth)

lemma sweep_rows_spec:
  assumes "queue_law ops" "list_all (\<lambda>r. valid_delivery_id (jb_key r)) rs"
  shows "\<exists>m db' q'. sweep_rows ops rs n (db, q) = (Inr m, db', q') \<and> marks db db' \<and>
    list_all (\<lambda>r. q_has ops q' (jb_key r)) rs \<and> (\<forall>j. q_has ops q j \<longrightarrow> q_has ops q' j) \<and> m \<le> n + length rs"
  using assms(2)
proof (induction rs arbitrary: n db q)
  case (Cons r rs)
  obtain i b q1 where e: "enqueue_recovery ops (jb_key r) (jb_attempts r) q = (Inr (b, i), q1)" "q_has ops q1 (jb_key r)"
    "\<And>j. q_has ops q j \<Longrightarrow> q_has ops q1 j"
    using enqueue_recovery_result[OF assms(1), of "jb_key r" "jb_attempts r" q] Cons.prems by auto
  define db1 where "db1 = (if b then mark_enqueued (jb_id r) db else db)"
  have m1: "marks db db1" by (simp add: db1_def marks_mark)
  obtain m db' q' where ih: "sweep_rows ops rs (if b then n + 1 else n) (db1, q1) = (Inr m, db', q')" "marks db1 db'"
    "list_all (\<lambda>r. q_has ops q' (jb_key r)) rs" "\<And>j. q_has ops q1 j \<Longrightarrow> q_has ops q' j"
    "m \<le> (if b then n + 1 else n) + length rs"
    using Cons.IH[of "if b then n + 1 else n" db1 q1] Cons.prems by auto
  have "sweep_rows ops (r # rs) n (db, q) = (Inr m, db', q')"
    using e(1) ih(1) by (auto simp: db1_def)
  then show ?case using ih e m1 marks_trans[OF m1 ih(2)] by (auto split: if_splits)
qed simp

text \<open>
  After a sweep every orphaned job of the batch has a delivery in the queue under its key;
  all of them are reported, and the only rows that change are pending ones, which become enqueued.
\<close>

theorem sweep_rebuilds_every_delivery:
  assumes "queue_law ops" "list_all (\<lambda>r. valid_delivery_id (jb_key r)) (find_orphans stale batch db)"
    and "sweep_once ops stale batch (db, q) = (res, db', q')"
  shows "(\<exists>n \<le> length (find_orphans stale batch db). res = Inr (length (find_orphans stale batch db), n)) \<and>
    list_all (\<lambda>r. q_has ops q' (jb_key r)) (find_orphans stale batch db) \<and>
    list_all2 (\<lambda>r r'. r' = r \<or> jb_state r = Pending \<and> r' = r\<lparr>jb_state := Enqueued\<rparr>) (jd_rows db) (jd_rows db')"
proof -
  obtain m d1 q1 where s: "sweep_rows ops (find_orphans stale batch db) 0 (db, q) = (Inr m, d1, q1)" "marks db d1"
    "list_all (\<lambda>r. q_has ops q1 (jb_key r)) (find_orphans stale batch db)" "m \<le> 0 + length (find_orphans stale batch db)"
    using sweep_rows_spec[OF assms(1,2), of 0 db q] by blast
  then show ?thesis
    using assms(3) by (auto simp: sweep_once_def and_then_def ret_def marks_def)
qed

lemma sweep_rows_blocked:
  assumes "list_all (\<lambda>r. valid_delivery_id (jb_key r) \<and> q_has ops q (jb_key r) \<and>
      q_has ops q (recovery_job_id (jb_key r) (jb_attempts r))) rs"
  shows "sweep_rows ops rs n (db, q) = (Inr n, db, q)"
  using assms by (induction rs) (auto simp: enqueue_recovery_def Let_def)

text \<open>
  A recovery id is spent once Redis holds it, whatever became of the delivery: a job whose
  plain key and whose recovery id for the current attempt are both there is found by every sweep and
  delivered by none. A recovery delivery that was skipped because the heartbeat was fresh leaves its
  job in this state when the worker dies afterwards.
\<close>

theorem spent_recovery_is_never_redelivered:
  assumes "list_all (\<lambda>r. valid_delivery_id (jb_key r) \<and> q_has ops q (jb_key r) \<and>
      q_has ops q (recovery_job_id (jb_key r) (jb_attempts r))) (find_orphans stale batch db)"
  shows "sweep_once ops stale batch (db, q) = (Inr (length (find_orphans stale batch db), 0), db, q)"
  using sweep_rows_blocked[OF assms] by (simp add: sweep_once_def and_then_def ret_def)

subsection \<open>Facts about the purge scan\<close>

lemma purge_key_valid: "is_uuid p \<Longrightarrow> valid_delivery_id (purge_key p)"
proof -
  assume u: "is_uuid p"
  have len: "length p = 36"
    using u by (auto simp: is_uuid_def)
  have "delivery_char c" if "c \<in> set p" for c
    using u that uuid_shape_chars[of "[8, 4, 4, 4, 12]" p c]
    by (auto simp: is_uuid_def delivery_char_def is_hex_def lower_char_def char_class_defs Let_def split: if_splits)
  then show ?thesis
    using len by (auto simp: valid_delivery_id_def purge_key_def list_all_iff delivery_char_def char_class_defs)
qed

lemma purge_key_inject [simp]: "purge_key a = purge_key b \<longleftrightarrow> a = b"
  by (simp add: purge_key_def)

definition has_job :: "string \<Rightarrow> job_db \<Rightarrow> bool" where
  "has_job key db = list_ex (\<lambda>r. jb_key r = key) (jd_rows db)"

definition keys_ok :: "job_db \<Rightarrow> bool" where
  "keys_ok db = distinct (map jb_key (jd_rows db))"

lemma insert_job_keys:
  assumes "insert_job i p t key db = (r, db')"
  shows "keys_ok db \<Longrightarrow> keys_ok db'" "has_job key db'" "has_job k db \<Longrightarrow> has_job k db'" "jd_now db' = jd_now db"
    "has_job key db \<Longrightarrow> r = None \<and> db' = db"
  using assms by (auto simp: insert_job_def keys_ok_def has_job_def list_ex_iff split: if_splits)

lemma purge_rows_spec:
  assumes "list_all (\<lambda>p. is_uuid (pp_id p)) ps" "keys_ok db"
  shows "\<exists>c e db' q'. purge_rows new_id ops ps (c0, e0) (db, q) = (Inr (c, e), db', q') \<and> keys_ok db' \<and>
    jd_now db' = jd_now db \<and> list_all (\<lambda>p. has_job (purge_key (pp_id p)) db') ps \<and> (\<forall>k. has_job k db \<longrightarrow> has_job k db')"
  using assms
proof (induction ps arbitrary: c0 e0 db q)
  case (Cons p ps)
  obtain r db1 where i: "insert_job (new_id (pp_id p)) (pp_id p) ''purge_project'' (purge_key (pp_id p)) db = (r, db1)"
    by force
  note k = insert_job_keys[OF i]
  obtain c1 e1 q1 where step: "purge_rows new_id ops (p # ps) (c0, e0) (db, q) = purge_rows new_id ops ps (c1, e1) (db1, q1)"
    using i purge_key_valid[of "pp_id p"] Cons.prems(1)
    by (cases r; cases "q_has ops q (purge_key (pp_id p))") (auto simp: enqueue_provisioning_def)
  obtain c e db' q' where ih: "purge_rows new_id ops ps (c1, e1) (db1, q1) = (Inr (c, e), db', q')" "keys_ok db'"
    "jd_now db' = jd_now db1" "list_all (\<lambda>p. has_job (purge_key (pp_id p)) db') ps" "\<And>k. has_job k db1 \<Longrightarrow> has_job k db'"
    using Cons.IH[of db1 c1 e1 q1] Cons.prems k(1) by auto
  then show ?case using step k by auto
qed simp

lemma purge_rows_nothing:
  assumes "list_all (\<lambda>p. has_job (purge_key (pp_id p)) db) ps"
  shows "purge_rows new_id ops ps counts (db, q) = (Inr counts, db, q)"
  using assms
proof (induction ps arbitrary: counts)
  case (Cons p ps)
  then have "insert_job (new_id (pp_id p)) (pp_id p) ''purge_project'' (purge_key (pp_id p)) db = (None, db)"
    by (simp add: insert_job_def has_job_def)
  then show ?case using Cons by (cases counts) simp
qed simp

lemma one_job: "keys_ok db \<Longrightarrow> has_job k db \<Longrightarrow> length (filter (\<lambda>r. jb_key r = k) (jd_rows db)) = 1"
proof -
  assume k: "keys_ok db" "has_job k db"
  have "length (filter (\<lambda>r. jb_key r = k) (jd_rows db)) \<le> 1"
    using distinct_key_filter[of jb_key "jd_rows db" k] k(1) by (simp add: keys_ok_def)
  moreover have "filter (\<lambda>r. jb_key r = k) (jd_rows db) \<noteq> []"
    using k(2) by (auto simp: has_job_def list_ex_iff filter_empty_conv)
  ultimately show ?thesis by (simp add: le_Suc_eq)
qed

text \<open>
  The purge scan is idempotent: afterwards every due project of the batch has exactly one
  purge job, a key of one never fails the delivery check, and a second scan creates and delivers
  nothing.
\<close>

theorem purge_is_scheduled_once:
  assumes "list_all (\<lambda>p. is_uuid (pp_id p)) projects" "keys_ok db"
    and "purge_scan_once new_id ops batch projects (db, q) = (res, db', q')"
  shows "list_all (\<lambda>p. length (filter (\<lambda>r. jb_key r = purge_key (pp_id p)) (jd_rows db')) = 1)
      (due_projects (jd_now db) batch projects) \<and>
    purge_scan_once new_id2 ops batch projects (db', q') = (Inr (length (due_projects (jd_now db) batch projects), 0, 0), db', q')"
proof -
  let ?due = "due_projects (jd_now db) batch projects"
  have "list_all (\<lambda>p. is_uuid (pp_id p)) ?due"
    using assms(1) by (auto simp: due_projects_def list_all_iff dest: in_set_takeD)
  then obtain c e d1 q1 where s: "purge_rows new_id ops ?due (0, 0) (db, q) = (Inr (c, e), d1, q1)" "keys_ok d1"
    "jd_now d1 = jd_now db" "list_all (\<lambda>p. has_job (purge_key (pp_id p)) d1) ?due"
    using purge_rows_spec[OF _ assms(2), of ?due new_id ops 0 0 q] by blast
  have d: "db' = d1 \<and> q' = q1 \<or> ?due = [] \<and> db' = db \<and> q' = q"
    using assms(3) s(1) by (auto simp: purge_scan_once_def Let_def and_then_def ret_def split: if_splits)
  show ?thesis
  proof (cases "?due = []")
    case True
    then show ?thesis using assms(3) by (auto simp: purge_scan_once_def)
  next
    case False
    then have e: "db' = d1" "q' = q1" using d by auto
    have "purge_scan_once new_id2 ops batch projects (d1, q1) = (Inr (length ?due, 0, 0), d1, q1)"
      using False purge_rows_nothing[OF s(4), of new_id2 ops "(0, 0)" q1] s(3)
      by (simp add: purge_scan_once_def Let_def and_then_def ret_def)
    then show ?thesis using one_job[OF s(2)] s(4) e by (auto simp: list_all_iff)
  qed
qed


definition set_queue :: "string set queue_ops" where
  "set_queue = \<lparr>q_has = \<lambda>q k. k \<in> q, q_add = insert\<rparr>"

lemma set_queue_law: "queue_law set_queue"
  by (simp add: queue_law_def set_queue_def)

lemma sample_orphan: "find_orphans 30000 50 sample_jobs = [sample_job]" "valid_delivery_id (jb_key sample_job)"
  by (simp_all add: find_orphans_def sample_jobs_def orphaned_def sample_job_def valid_delivery_id_def delivery_char_def
      char_class_defs)

theorem sweep_rebuilds_every_delivery_witness:
  "''pause_p1'' \<in> snd (snd (sweep_once set_queue 30000 50 (sample_jobs, {})))"
proof -
  obtain res db' q' where e: "sweep_once set_queue 30000 50 (sample_jobs, {}) = (res, db', q')" by (metis prod_cases3)
  then show ?thesis
    using sweep_rebuilds_every_delivery[OF set_queue_law _ e] sample_orphan
    by (simp add: set_queue_def) (simp add: sample_job_def)
qed

definition dead_worker :: job_db where
  "dead_worker = (snd (claim ''j1'' 30000 sample_jobs))\<lparr>jd_now := 100000\<rparr>"

theorem spent_recovery_is_never_redelivered_witness:
  "sweep_once set_queue 30000 50 (dead_worker, {''pause_p1'', ''pause_p1#recover-1''})
    = (Inr (1, 0), dead_worker, {''pause_p1'', ''pause_p1#recover-1''})"
proof -
  have d: "dead_worker = \<lparr>jd_rows = [claimed_row 1000 sample_job], jd_now = 100000\<rparr>"
    using sample_jobs_row(1,2) by (simp add: dead_worker_def claim_def update_job_def)
      (simp add: sample_jobs_def sample_job_def)
  have orphans: "find_orphans 30000 50 dead_worker = [claimed_row 1000 sample_job]"
    by (simp add: d find_orphans_def orphaned_def heartbeat_stale_def)
  have "string_of_nat 1 = ''1''" by code_simp
  then have "recovery_job_id (jb_key sample_job) 1 = ''pause_p1#recover-1''" "jb_attempts sample_job = 0"
    by (simp_all add: recovery_job_id_def sample_job_def)
  then show ?thesis
    using spent_recovery_is_never_redelivered[of set_queue "{''pause_p1'', ''pause_p1#recover-1''}" 30000 50 dead_worker]
      sample_orphan(2) unfolding orphans by (simp add: set_queue_def) (simp add: sample_job_def)
qed

theorem purge_is_scheduled_once_witness:
  "purge_scan_once id set_queue 20
     [\<lparr>pp_id = ''11111111-1111-1111-1111-111111111111'', pp_ref = ''abc'', pp_status = ''soft_deleted'', pp_purge_after = Some 5\<rparr>]
     (snd (purge_scan_once id set_queue 20
       [\<lparr>pp_id = ''11111111-1111-1111-1111-111111111111'', pp_ref = ''abc'', pp_status = ''soft_deleted'', pp_purge_after = Some 5\<rparr>]
       (sample_jobs, {})))
   = (Inr (1, 0, 0), snd (purge_scan_once id set_queue 20
       [\<lparr>pp_id = ''11111111-1111-1111-1111-111111111111'', pp_ref = ''abc'', pp_status = ''soft_deleted'', pp_purge_after = Some 5\<rparr>]
       (sample_jobs, {})))"
proof -
  let ?ps = "[\<lparr>pp_id = ''11111111-1111-1111-1111-111111111111'', pp_ref = ''abc'', pp_status = ''soft_deleted'', pp_purge_after = Some 5\<rparr>]"
  obtain res db' q' where e: "purge_scan_once id set_queue 20 ?ps (sample_jobs, {}) = (res, db', q')" by (metis prod_cases3)
  have u: "is_uuid ''11111111-1111-1111-1111-111111111111''"
    by (simp add: is_uuid_def is_hex_def lower_char_def is_digit_def unit_of_def Let_def eval_nat_numeral)
  have "due_projects (jd_now sample_jobs) 20 ?ps = ?ps"
    by (simp add: due_projects_def purge_due_def sample_jobs_def)
  then show ?thesis
    using purge_is_scheduled_once[OF _ _ e, of id] u e
    by (simp add: keys_ok_def sample_jobs_def)
qed

end
