(* ===== verification/ProjectStore.thy ===== *)
theory ProjectStore
  imports Sweeper Orgs
begin

text \<open>
  The control-plane store: \<open>services/api/src/modules/control-plane/store.pg.ts\<close>, every operation
  the routes call, and the in-memory store of \<open>store.ts\<close> that stands in for it without a database.

  The PostgreSQL store is the tables its statements touch, each operation one transaction on them;
  the job table is the one of theory \<open>Jobs\<close>. Identifiers that the database draws at random are
  arguments. A column constraint is a branch that fails: the primary keys, the unique \<open>ref\<close> (of
  type \<open>citext\<close>) with its shape, the unique \<open>idempotency_key\<close>, and the check that ties
  \<open>deleted_at\<close> to the status. The foreign key to organizations has no branch.
\<close>

subsection \<open>Tables\<close>

datatype project_status =
    StCreating | StProvisioning | StConfiguring | StReady | StFailed | StPausing | StPaused
  | StResuming | StRestoring | StRestored | StDeleting | StSoftDeleted | StDeleted

fun status_text :: "project_status \<Rightarrow> string" where
  "status_text StCreating = ''creating''"
| "status_text StProvisioning = ''provisioning''"
| "status_text StConfiguring = ''configuring''"
| "status_text StReady = ''ready''"
| "status_text StFailed = ''failed''"
| "status_text StPausing = ''pausing''"
| "status_text StPaused = ''paused''"
| "status_text StResuming = ''resuming''"
| "status_text StRestoring = ''restoring''"
| "status_text StRestored = ''restored''"
| "status_text StDeleting = ''deleting''"
| "status_text StSoftDeleted = ''soft_deleted''"
| "status_text StDeleted = ''deleted''"

record project_entry =
  pe_id :: string
  pe_ref :: string
  pe_name :: string
  pe_org :: string
  pe_region :: string
  pe_plan :: string
  pe_environment :: string
  pe_status :: project_status
  pe_created :: nat
  pe_deleted_at :: "nat option"
  pe_purge_after :: "nat option"

record job_payload =
  jp_project :: string
  jp_ref :: string
  jp_extra :: "(string \<times> string) list"

record restore_entry =
  re_project :: string
  re_source :: string
  re_source_ref :: string
  re_target :: "nat option"
  re_expires :: "nat option"
  re_status :: string

record database_entry =
  de_project :: string
  de_host :: "string option"
  de_port :: nat
  de_pooler_port :: nat
  de_version :: string

datatype key_kind = AnonKey | ServiceRoleKey

record api_key_entry =
  ke_id :: string
  ke_project :: string
  ke_kind :: key_kind
  ke_prefix :: string
  ke_created :: nat
  ke_revoked :: "nat option"

record request_actor =
  ra_type :: string
  ra_user :: "string option"
  ra_ip :: "string option"
  ra_request :: "string option"

record audit_entry =
  ae_org :: string
  ae_project :: string
  ae_actor :: request_actor
  ae_action :: string
  ae_resource :: string
  ae_resource_id :: string
  ae_meta :: "(string \<times> string) list"
  ae_at :: nat

record cp_db =
  cd_projects :: "project_entry list"
  cd_jobs :: job_db
  cd_payloads :: "(string \<times> job_payload) list" \<comment> \<open>the column \<open>payload\<close>, by job id\<close>
  cd_restores :: "restore_entry list"
  cd_databases :: "database_entry list"
  cd_keys :: "api_key_entry list"
  cd_audit :: "audit_entry list"

datatype store_fault = UniqueKey string | CheckFailed string

type_synonym 'a cp = "(cp_db, store_fault, 'a) eff"

definition SYSTEM_ACTOR :: request_actor where
  "SYSTEM_ACTOR = \<lparr>ra_type = ''system'', ra_user = None, ra_ip = None, ra_request = None\<rparr>"

definition cp_now :: "cp_db \<Rightarrow> nat" where
  "cp_now db = jd_now (cd_jobs db)"

subsection \<open>Statements\<close>

definition ref_shape :: "string \<Rightarrow> bool" where
  \<comment> \<open>\<open>CHECK (ref ~ '^[a-z][a-z0-9]{15,19}$')\<close>\<close>
  "ref_shape r = (16 \<le> length r \<and> length r \<le> 20 \<and> is_lower (hd r) \<and> list_all (\<lambda>c. is_lower c \<or> is_digit c) r)"

definition deletion_check :: "project_entry \<Rightarrow> bool" where
  \<comment> \<open>\<open>CHECK ((status IN ('soft_deleted','deleted')) = (deleted_at IS NOT NULL) OR status = 'deleting')\<close>\<close>
  "deletion_check p =
     ((pe_status p = StSoftDeleted \<or> pe_status p = StDeleted) = (pe_deleted_at p \<noteq> None) \<or> pe_status p = StDeleting)"

definition live :: "string \<Rightarrow> project_entry \<Rightarrow> bool" where
  \<comment> \<open>\<open>ref = $1 AND status <> 'deleted'\<close>\<close>
  "live ref p = (ci_eq (pe_ref p) ref \<and> pe_status p \<noteq> StDeleted)"

definition insert_project :: "project_entry \<Rightarrow> project_entry cp" where
  "insert_project p db =
     (if list_ex (\<lambda>q. pe_id q = pe_id p) (cd_projects db) then (Inl (UniqueKey ''projects_pkey''), db)
      else if list_ex (\<lambda>q. ci_eq (pe_ref q) (pe_ref p)) (cd_projects db) then (Inl (UniqueKey ''projects_ref_key''), db)
      else if \<not> ref_shape (pe_ref p) then (Inl (CheckFailed ''projects_ref_check''), db)
      else if pe_plan p \<notin> {''free'', ''pro'', ''team'', ''enterprise''} then (Inl (CheckFailed ''project_plan''), db)
      else (Inr p, db\<lparr>cd_projects := cd_projects db @ [p]\<rparr>))"

definition update_projects :: "(project_entry \<Rightarrow> bool) \<Rightarrow> (project_entry \<Rightarrow> project_entry) \<Rightarrow> project_entry list cp" where
  \<comment> \<open>\<open>UPDATE projects SET f WHERE q RETURNING ...\<close>\<close>
  "update_projects q f db =
     (let hit = map f (filter q (cd_projects db)) in
      if list_all deletion_check hit then (Inr hit, db\<lparr>cd_projects := upd_where q f (cd_projects db)\<rparr>)
      else (Inl (CheckFailed ''projects_check''), db))"

definition set_status :: "project_status \<Rightarrow> project_entry \<Rightarrow> project_entry" where
  "set_status s p = p\<lparr>pe_status := s\<rparr>"

definition add_job :: "string \<Rightarrow> string \<Rightarrow> string \<Rightarrow> string \<Rightarrow> job_payload \<Rightarrow> job_row cp" where
  "add_job i project job_type key payload db =
     (if list_ex (\<lambda>r. jb_id r = i) (jd_rows (cd_jobs db)) then (Inl (UniqueKey ''provisioning_jobs_pkey''), db)
      else case insert_job i project job_type key (cd_jobs db) of
        (None, _) \<Rightarrow> (Inl (UniqueKey ''provisioning_jobs_idempotency_key_key''), db)
      | (Some _, jobs) \<Rightarrow>
          (Inr (last (jd_rows jobs)), db\<lparr>cd_jobs := jobs, cd_payloads := cd_payloads db @ [(i, payload)]\<rparr>))"

definition record_audit :: "request_actor \<Rightarrow> string \<Rightarrow> string \<Rightarrow> string \<Rightarrow> string \<Rightarrow> string
    \<Rightarrow> (string \<times> string) list \<Rightarrow> unit cp" where
  "record_audit actor action resource i org project meta =
     modifies (\<lambda>db. db\<lparr>cd_audit := cd_audit db @
       [\<lparr>ae_org = org, ae_project = project, ae_actor = actor, ae_action = action, ae_resource = resource,
         ae_resource_id = i, ae_meta = meta, ae_at = cp_now db\<rparr>]\<rparr>)"

definition the_actor :: "request_actor option \<Rightarrow> request_actor" where
  \<comment> \<open>\<open>actor ?? SYSTEM\<close>\<close>
  "the_actor a = (case a of None \<Rightarrow> SYSTEM_ACTOR | Some a \<Rightarrow> a)"

definition newest :: "job_row list \<Rightarrow> job_row option" where
  \<comment> \<open>\<open>ORDER BY created_at DESC LIMIT 1\<close>\<close>
  "newest rows = (if rows = [] then None else Some (last (sort_key jb_created rows)))"

definition jobs_of :: "string \<Rightarrow> string \<Rightarrow> cp_db \<Rightarrow> job_row list" where
  "jobs_of project job_type db =
     filter (\<lambda>r. jb_project r = Some project \<and> jb_type r = job_type) (jd_rows (cd_jobs db))"

definition unfinished :: "job_row \<Rightarrow> bool" where
  "unfinished r = (jb_state r \<notin> {Succeeded, Failed, DeadLetter})"

subsection \<open>What the store returns\<close>

datatype api_state = JobQueued | JobRunning | JobDone | JobFailed

record api_job =
  aj_id :: string
  aj_kind :: string
  aj_project :: string
  aj_key :: string
  aj_state :: api_state

fun api_state_of :: "job_state \<Rightarrow> api_state" where
  "api_state_of Pending = JobQueued"
| "api_state_of Enqueued = JobQueued"
| "api_state_of Running = JobRunning"
| "api_state_of Succeeded = JobDone"
| "api_state_of _ = JobFailed"

definition job_from_db :: "job_row \<Rightarrow> api_job" where
  "job_from_db r = \<lparr>aj_id = jb_id r, aj_kind = jb_type r,
     aj_project = (case jb_project r of None \<Rightarrow> [] | Some p \<Rightarrow> p),
     aj_key = jb_key r, aj_state = api_state_of (jb_state r)\<rparr>"

datatype request_outcome =
    NoProject
  | Conflict project_status project_entry
  | Refused string
  | Accepted project_entry api_job bool \<comment> \<open>\<open>alreadyRequested\<close>\<close>
  | Retrying project_entry api_job nat \<comment> \<open>\<open>retryCount\<close>\<close>
  | Copying project_entry api_job project_entry nat \<comment> \<open>the copy, its source and \<open>expiresAt\<close>\<close>

subsection \<open>Creating\<close>

record new_project =
  np_ref :: string
  np_name :: string
  np_region :: string
  np_plan :: string
  np_key :: string
  np_request :: "string option"
  np_actor :: "request_actor option"
  np_org :: "string option"

definition pg_create_project :: "string \<Rightarrow> string \<Rightarrow> string \<Rightarrow> new_project \<Rightarrow> (project_entry \<times> api_job \<times> bool) cp" where
  \<comment> \<open>the first parameter is the store's own organization, the next two are the drawn ids\<close>
  "pg_create_project own_org pid jid np = transaction (
     let org = (case np_org np of None \<Rightarrow> own_org | Some i \<Rightarrow> i) in
     and_then (gets cp_now) (\<lambda>now.
     and_then (insert_project \<lparr>pe_id = pid, pe_ref = np_ref np, pe_name = np_name np, pe_org = org,
       pe_region = np_region np, pe_plan = np_plan np, pe_environment = ''production'', pe_status = StCreating,
       pe_created = now, pe_deleted_at = None, pe_purge_after = None\<rparr>) (\<lambda>p.
     and_then (add_job jid pid ''provision_project'' (np_key np)
       \<lparr>jp_project = pid, jp_ref = np_ref np,
        jp_extra = (case np_request np of None \<Rightarrow> []
          | Some r \<Rightarrow> if r = [] then [] else [(''request_id'', r)])\<rparr>) (\<lambda>job.
     and_then (record_audit
       (case np_actor np of None \<Rightarrow> SYSTEM_ACTOR\<lparr>ra_request := np_request np\<rparr> | Some a \<Rightarrow> a)
       ''project.created'' ''project'' (np_ref np) org pid
       [(''name'', np_name np), (''region'', np_region np), (''plan'', np_plan np), (''idempotency_key'', np_key np)]) (\<lambda>_.
     ret (p, job_from_db job, False))))))"

subsection \<open>Queries\<close>

definition pg_find_by_key :: "string \<Rightarrow> cp_db \<Rightarrow> project_entry option" where
  "pg_find_by_key key db =
     (case by_idempotency_key key (cd_jobs db) of
        None \<Rightarrow> None
      | Some j \<Rightarrow> List.find (\<lambda>p. jb_project j = Some (pe_id p)) (cd_projects db))"

definition pg_get_project :: "string \<Rightarrow> cp_db \<Rightarrow> project_entry option" where
  "pg_get_project ref db = List.find (live ref) (cd_projects db)"

definition pg_list_projects :: "cp_db \<Rightarrow> project_entry list" where
  "pg_list_projects db = rev (sort_key pe_created (filter (\<lambda>p. pe_status p \<noteq> StDeleted) (cd_projects db)))"

definition pg_find_by_name :: "string \<Rightarrow> string option \<Rightarrow> cp_db \<Rightarrow> project_entry option" where
  "pg_find_by_name name org db =
     List.find (\<lambda>p. pe_name p = name \<and> pe_status p \<noteq> StDeleted \<and>
       (case org of None \<Rightarrow> True | Some i \<Rightarrow> pe_org p = i)) (cd_projects db)"

definition pg_count_in_org :: "string \<Rightarrow> cp_db \<Rightarrow> nat" where
  "pg_count_in_org org db =
     length (filter (\<lambda>p. pe_org p = org \<and> pe_status p \<noteq> StDeleted) (cd_projects db))"

definition pg_list_api_keys :: "string \<Rightarrow> cp_db \<Rightarrow> api_key_entry list" where
  "pg_list_api_keys project db =
     sort_key (\<lambda>k. ke_kind k = ServiceRoleKey)
       (filter (\<lambda>k. ke_project k = project \<and> ke_revoked k = None) (cd_keys db))"

definition pg_mark_status :: "string \<Rightarrow> project_status \<Rightarrow> project_entry option cp" where
  "pg_mark_status ref s =
     and_then (update_projects (live ref) (set_status s)) (\<lambda>rows.
       ret (case rows of [] \<Rightarrow> None | r # _ \<Rightarrow> Some r))"

definition pg_jobs :: "cp_db \<Rightarrow> api_job list" where
  "pg_jobs db = map job_from_db (sort_key jb_created (jd_rows (cd_jobs db)))"

subsection \<open>Requests on a project\<close>

definition delete_key :: "string \<Rightarrow> string" where
  "delete_key project = ''delete_'' @ project"

definition pg_request_delete :: "string \<Rightarrow> string \<Rightarrow> request_actor option \<Rightarrow> request_outcome cp" where
  "pg_request_delete jid ref actor = transaction (
     and_then (gets (pg_get_project ref)) (\<lambda>found. case found of
       None \<Rightarrow> ret NoProject
     | Some p \<Rightarrow>
         and_then (gets (\<lambda>db. by_idempotency_key (delete_key (pe_id p)) (cd_jobs db))) (\<lambda>existing. case existing of
           Some j \<Rightarrow> ret (Accepted p (job_from_db j) True)
         | None \<Rightarrow>
             and_then (update_projects (\<lambda>q. ci_eq (pe_ref q) ref) (set_status StDeleting)) (\<lambda>updated.
             and_then (add_job jid (pe_id p) ''delete_project'' (delete_key (pe_id p))
               \<lparr>jp_project = pe_id p, jp_ref = ref, jp_extra = []\<rparr>) (\<lambda>job.
             and_then (record_audit (the_actor actor) ''project.delete_requested'' ''project'' ref (pe_org p) (pe_id p)
               [(''previous_status'', status_text (pe_status p))]) (\<lambda>_.
             ret (Accepted (hd updated) (job_from_db job) False)))))))"

definition pg_request_rotation :: "string \<Rightarrow> string \<Rightarrow> bool \<Rightarrow> request_actor option \<Rightarrow> request_outcome cp" where
  "pg_request_rotation jid ref terminate actor = transaction (
     and_then (gets (pg_get_project ref)) (\<lambda>found. case found of
       None \<Rightarrow> ret NoProject
     | Some p \<Rightarrow>
         and_then (gets (\<lambda>db. newest (filter unfinished (jobs_of (pe_id p) ''rotate_credentials'' db)))) (\<lambda>inflight.
         case inflight of
           Some j \<Rightarrow> ret (Accepted p (job_from_db j) True)
         | None \<Rightarrow>
             if pe_status p \<noteq> StReady then ret (Conflict (pe_status p) p)
             else
             and_then (gets (\<lambda>db. length (jobs_of (pe_id p) ''rotate_credentials'' db))) (\<lambda>n.
             and_then (add_job jid (pe_id p) ''rotate_credentials''
               (''rotate_'' @ pe_id p @ ''_'' @ string_of_nat (n + 1))
               \<lparr>jp_project = pe_id p, jp_ref = ref,
                jp_extra = [(''terminate'', if terminate then ''true'' else ''false'')]\<rparr>) (\<lambda>job.
             and_then (record_audit (the_actor actor) ''project.credentials_rotation_requested'' ''project'' ref
               (pe_org p) (pe_id p) [(''terminate'', if terminate then ''true'' else ''false'')]) (\<lambda>_.
             ret (Accepted p (job_from_db job) False)))))))"

datatype lifecycle = Pause | Resume

fun lifecycle_text :: "lifecycle \<Rightarrow> string" where
  "lifecycle_text Pause = ''pause''" | "lifecycle_text Resume = ''resume''"

fun lifecycle_job :: "lifecycle \<Rightarrow> string" where
  "lifecycle_job Pause = ''pause_project''" | "lifecycle_job Resume = ''resume_project''"

fun lifecycle_from :: "lifecycle \<Rightarrow> project_status" where
  "lifecycle_from Pause = StReady" | "lifecycle_from Resume = StPaused"

fun lifecycle_to :: "lifecycle \<Rightarrow> project_status" where
  "lifecycle_to Pause = StPausing" | "lifecycle_to Resume = StResuming"

definition lifecycle_key :: "lifecycle \<Rightarrow> string \<Rightarrow> nat \<Rightarrow> string" where
  "lifecycle_key kind project n = lifecycle_text kind @ ''_'' @ project @ ''_'' @ string_of_nat n"

definition pg_request_lifecycle :: "string \<Rightarrow> string \<Rightarrow> lifecycle \<Rightarrow> request_actor option \<Rightarrow> request_outcome cp" where
  "pg_request_lifecycle jid ref kind actor = transaction (
     and_then (gets (pg_get_project ref)) (\<lambda>found. case found of
       None \<Rightarrow> ret NoProject
     | Some p \<Rightarrow>
         and_then (gets (\<lambda>db. newest (filter unfinished (jobs_of (pe_id p) (lifecycle_job kind) db)))) (\<lambda>inflight.
         case inflight of
           Some j \<Rightarrow> ret (Accepted p (job_from_db j) True)
         | None \<Rightarrow>
             if pe_status p \<noteq> lifecycle_from kind then ret (Conflict (pe_status p) p)
             else
             and_then (gets (\<lambda>db. length (jobs_of (pe_id p) (lifecycle_job kind) db))) (\<lambda>n.
             and_then (update_projects (\<lambda>q. ci_eq (pe_ref q) ref) (set_status (lifecycle_to kind))) (\<lambda>updated.
             and_then (add_job jid (pe_id p) (lifecycle_job kind) (lifecycle_key kind (pe_id p) (n + 1))
               \<lparr>jp_project = pe_id p, jp_ref = ref, jp_extra = []\<rparr>) (\<lambda>job.
             and_then (record_audit (the_actor actor)
               (case kind of Pause \<Rightarrow> ''project.pause_requested'' | Resume \<Rightarrow> ''project.resume_requested'')
               ''project'' ref (pe_org p) (pe_id p) [(''previous_status'', status_text (pe_status p))]) (\<lambda>_.
             ret (Accepted (hd updated) (job_from_db job) False))))))))"

definition BUILDING :: "string list" where
  "BUILDING = [''provision_project'', ''restore_project'']"

definition SUBSTRATE :: "string list" where
  "SUBSTRATE = [''create_volume'', ''create_network'', ''start_container'', ''wait_healthy'']"

definition reset_job :: "nat \<Rightarrow> job_row \<Rightarrow> job_row" where
  "reset_job now r = r\<lparr>jb_state := Pending, jb_attempts := 0, jb_error := None, jb_started := None,
     jb_finished := None, jb_heartbeat := None, jb_scheduled := now,
     jb_checkpoint := map_option (filter (\<lambda>s. s \<notin> set SUBSTRATE)) (jb_checkpoint r)\<rparr>"

definition dead_build :: "string \<Rightarrow> cp_db \<Rightarrow> job_row option" where
  "dead_build project db =
     newest (filter (\<lambda>r. jb_project r = Some project \<and> jb_type r \<in> set BUILDING \<and> jb_state r = DeadLetter)
       (jd_rows (cd_jobs db)))"

definition retries :: "string \<Rightarrow> cp_db \<Rightarrow> nat" where
  "retries project db =
     length (filter (\<lambda>a. ae_project a = project \<and> ae_action a = ''project.retry_requested'') (cd_audit db))"

definition pg_request_retry :: "string \<Rightarrow> request_actor option \<Rightarrow> request_outcome cp" where
  "pg_request_retry ref actor = transaction (
     and_then (gets (pg_get_project ref)) (\<lambda>found. case found of
       None \<Rightarrow> ret NoProject
     | Some p \<Rightarrow>
         if pe_status p \<noteq> StFailed then ret (Conflict (pe_status p) p)
         else and_then (gets (dead_build (pe_id p))) (\<lambda>dead. case dead of
           None \<Rightarrow> ret (Refused ''This project has no failed build to retry.'')
         | Some job \<Rightarrow>
             and_then (gets (retries (pe_id p))) (\<lambda>seen.
             and_then (modifies (\<lambda>db. db\<lparr>cd_jobs := update_job (jb_id job) (reset_job (cp_now db)) (cd_jobs db)\<rparr>)) (\<lambda>_.
             and_then (update_projects (\<lambda>q. ci_eq (pe_ref q) ref) (set_status StCreating)) (\<lambda>updated.
             and_then (record_audit (the_actor actor) ''project.retry_requested'' ''project'' ref (pe_org p) (pe_id p)
               [(''job_type'', jb_type job), (''retry'', string_of_nat (seen + 1))]) (\<lambda>_.
             ret (Retrying (hd updated) (job_from_db job) (seen + 1)))))))))"

definition restore_refusal :: "nat \<Rightarrow> nat \<Rightarrow> string" where
  "restore_refusal n limit =
     ''A restore creates a new project, and this organization already has '' @ string_of_nat n @ '' of its '' @
     string_of_nat limit @ ''. Delete and purge one, or promote a previous restore, to make room.''"

definition HOUR_MS :: nat where "HOUR_MS = 3600000"

definition restore_name :: "(nat \<Rightarrow> string) \<Rightarrow> project_entry \<Rightarrow> nat option \<Rightarrow> string" where
  \<comment> \<open>\<open>to_iso\<close> is \<open>Date.toISOString\<close>\<close>
  "restore_name to_iso source target = pe_name source @ '' '' @ em_dash @ '' restore '' @
     (case target of
        None \<Rightarrow> ''latest''
      | Some t \<Rightarrow> (let d = js_slice (to_iso t) 0 16 in
          (case index_of ''T'' d of None \<Rightarrow> d | Some k \<Rightarrow> take k d @ '' '' @ drop (k + 1) d)))"

definition restore_key :: "string \<Rightarrow> string" where
  "restore_key project = ''restore_'' @ project"

definition copy_project :: "(nat \<Rightarrow> string) \<Rightarrow> string \<Rightarrow> string \<Rightarrow> project_entry \<Rightarrow> nat option \<Rightarrow> string
    \<Rightarrow> request_actor option \<Rightarrow> nat \<Rightarrow> request_outcome cp" where
  "copy_project to_iso pid jid source target new_ref actor ttl_hours =
     and_then (gets cp_now) (\<lambda>now.
     and_then (insert_project \<lparr>pe_id = pid, pe_ref = new_ref, pe_name = restore_name to_iso source target,
       pe_org = pe_org source, pe_region = pe_region source, pe_plan = pe_plan source,
       pe_environment = ''production'', pe_status = StRestoring, pe_created = now, pe_deleted_at = None,
       pe_purge_after = None\<rparr>) (\<lambda>p.
     and_then (modifies (\<lambda>db. db\<lparr>cd_restores := cd_restores db @
       [\<lparr>re_project = pid, re_source = pe_id source, re_source_ref = pe_ref source, re_target = target,
         re_expires = Some (now + ttl_hours * HOUR_MS), re_status = ''running''\<rparr>]\<rparr>)) (\<lambda>_.
     and_then (add_job jid pid ''restore_project'' (restore_key pid)
       \<lparr>jp_project = pid, jp_ref = new_ref, jp_extra = [(''source_ref'', pe_ref source),
         (''target_time'', case target of None \<Rightarrow> ''null'' | Some t \<Rightarrow> to_iso t)]\<rparr>) (\<lambda>job.
     and_then (record_audit (the_actor actor) ''project.restore_requested'' ''project'' (pe_ref source)
       (pe_org source) (pe_id source)
       [(''target_time'', case target of None \<Rightarrow> ''latest'' | Some t \<Rightarrow> to_iso t),
        (''restore_ref'', new_ref), (''restore_project_id'', pid)]) (\<lambda>_.
     ret (Copying p (job_from_db job) source (now + ttl_hours * HOUR_MS)))))))"

definition pg_request_restore :: "(nat \<Rightarrow> string) \<Rightarrow> string \<Rightarrow> string \<Rightarrow> string \<Rightarrow> nat option \<Rightarrow> string
    \<Rightarrow> request_actor option \<Rightarrow> nat option \<Rightarrow> nat \<Rightarrow> request_outcome cp" where
  "pg_request_restore to_iso pid jid ref target new_ref actor limit ttl_hours = transaction (
     and_then (gets (pg_get_project ref)) (\<lambda>found. case found of
       None \<Rightarrow> ret NoProject
     | Some source \<Rightarrow>
         if pe_status source \<notin> {StReady, StPaused, StRestored} then ret (Conflict (pe_status source) source)
         else and_then (gets (pg_count_in_org (pe_org source))) (\<lambda>n.
           case limit of
             Some l \<Rightarrow> if l \<le> n then ret (Refused (restore_refusal n l)) else copy_project to_iso pid jid source target new_ref actor ttl_hours
           | None \<Rightarrow> copy_project to_iso pid jid source target new_ref actor ttl_hours)))"

subsection \<open>The in-memory store\<close>

text \<open>\<open>createMemoryStore\<close>: a JavaScript map from refs to projects keeps insertion order, and setting a
  key again replaces the value in place.\<close>

record mem_store =
  me_projects :: "project_entry list"
  me_jobs :: "api_job list"
  me_seen :: "(string \<times> string) list"

definition MEMORY_ORG_ID :: string where
  "MEMORY_ORG_ID = ''00000000-0000-4000-8000-000000000001''"

definition mem_get :: "string \<Rightarrow> mem_store \<Rightarrow> project_entry option" where
  "mem_get ref m = List.find (\<lambda>p. pe_ref p = ref) (me_projects m)"

definition mem_set :: "project_entry \<Rightarrow> project_entry list \<Rightarrow> project_entry list" where
  \<comment> \<open>\<open>projects.set(p.ref, p)\<close>\<close>
  "mem_set p ps = (if list_ex (\<lambda>q. pe_ref q = pe_ref p) ps then upd_where (\<lambda>q. pe_ref q = pe_ref p) (\<lambda>_. p) ps
     else ps @ [p])"

definition mem_create_project :: "nat \<Rightarrow> string \<Rightarrow> string \<Rightarrow> new_project \<Rightarrow> mem_store
    \<Rightarrow> (project_entry \<times> api_job \<times> bool) option \<times> mem_store" where
  \<comment> \<open>\<open>None\<close> is the \<open>TypeError\<close> of reading a project or a job that is not there\<close>
  "mem_create_project now pid jid np m =
     (case map_of (me_seen m) (np_key np) of
        Some ref \<Rightarrow>
          ((case mem_get ref m of
              None \<Rightarrow> None
            | Some p \<Rightarrow>
                (case List.find (\<lambda>j. aj_project j = pe_id p) (me_jobs m) of
                   None \<Rightarrow> None | Some j \<Rightarrow> Some (p, j, True))), m)
      | None \<Rightarrow>
          (let p = \<lparr>pe_id = pid, pe_ref = np_ref np, pe_name = np_name np, pe_org = MEMORY_ORG_ID,
                 pe_region = np_region np, pe_plan = np_plan np, pe_environment = ''production'',
                 pe_status = StCreating, pe_created = now, pe_deleted_at = None, pe_purge_after = None\<rparr>;
               j = \<lparr>aj_id = jid, aj_kind = ''provision_project'', aj_project = pid, aj_key = np_key np,
                 aj_state = JobQueued\<rparr>
           in (Some (p, j, False), \<lparr>me_projects = mem_set p (me_projects m), me_jobs = me_jobs m @ [j],
                 me_seen = (np_key np, np_ref np) # me_seen m\<rparr>)))"

definition mem_find_by_key :: "string \<Rightarrow> mem_store \<Rightarrow> project_entry option" where
  "mem_find_by_key key m = (case map_of (me_seen m) key of None \<Rightarrow> None | Some ref \<Rightarrow> mem_get ref m)"

definition mem_request_delete :: "string \<Rightarrow> string \<Rightarrow> mem_store \<Rightarrow> request_outcome \<times> mem_store" where
  "mem_request_delete jid ref m =
     (case mem_get ref m of
        None \<Rightarrow> (NoProject, m)
      | Some p \<Rightarrow>
          (case List.find (\<lambda>j. aj_key j = delete_key (pe_id p)) (me_jobs m) of
             Some j \<Rightarrow> (Accepted p j True, m)
           | None \<Rightarrow>
               (let p' = set_status StDeleting p;
                    j = \<lparr>aj_id = jid, aj_kind = ''delete_project'', aj_project = pe_id p,
                      aj_key = delete_key (pe_id p), aj_state = JobQueued\<rparr>
                in (Accepted p' j False,
                    m\<lparr>me_projects := mem_set p' (me_projects m), me_jobs := me_jobs m @ [j]\<rparr>))))"

definition mem_mark_status :: "string \<Rightarrow> project_status \<Rightarrow> mem_store \<Rightarrow> project_entry option \<times> mem_store" where
  "mem_mark_status ref s m =
     (case mem_get ref m of
        None \<Rightarrow> (None, m)
      | Some p \<Rightarrow> (Some (set_status s p), m\<lparr>me_projects := mem_set (set_status s p) (me_projects m)\<rparr>))"

definition mem_find_by_name :: "string \<Rightarrow> string option \<Rightarrow> mem_store \<Rightarrow> project_entry option" where
  "mem_find_by_name name org m =
     List.find (\<lambda>p. pe_name p = name \<and> (case org of None \<Rightarrow> True | Some i \<Rightarrow> pe_org p = i)) (me_projects m)"

subsection \<open>Facts on the statements\<close>

lemma insert_job_result:
  "insert_job i project t key db = (if list_ex (\<lambda>r. jb_key r = key) (jd_rows db) then (None, db)
     else (Some i, db\<lparr>jd_rows := jd_rows db @ [last (jd_rows (snd (insert_job i project t key db)))]\<rparr>))"
  by (simp add: insert_job_def)

definition new_job :: "nat \<Rightarrow> string \<Rightarrow> string \<Rightarrow> string \<Rightarrow> string \<Rightarrow> job_row" where
  \<comment> \<open>the row of an \<open>INSERT\<close>, with the column defaults\<close>
  "new_job now i project job_type key =
     \<lparr>jb_id = i, jb_project = Some project, jb_type = job_type, jb_key = key, jb_state = Pending,
      jb_attempts = 0, jb_max = 5, jb_checkpoint = None, jb_error = None, jb_heartbeat = None,
      jb_scheduled = now, jb_started = None, jb_finished = None, jb_created = now\<rparr>"

lemma new_job_simps [simp]:
  "jb_id (new_job n i p t k) = i" "jb_project (new_job n i p t k) = Some p" "jb_type (new_job n i p t k) = t"
  "jb_key (new_job n i p t k) = k" "jb_state (new_job n i p t k) = Pending" "unfinished (new_job n i p t k)"
  "jb_created (new_job n i p t k) = n" "jb_attempts (new_job n i p t k) = 0" "jb_checkpoint (new_job n i p t k) = None"
  by (simp_all add: new_job_def unfinished_def)

definition has_key :: "string \<Rightarrow> cp_db \<Rightarrow> bool" where
  "has_key key db = list_ex (\<lambda>r. jb_key r = key) (jd_rows (cd_jobs db))"

lemma add_job_eq:
  "add_job i project t key payload db =
     (if list_ex (\<lambda>r. jb_id r = i) (jd_rows (cd_jobs db)) then (Inl (UniqueKey ''provisioning_jobs_pkey''), db)
      else if has_key key db then (Inl (UniqueKey ''provisioning_jobs_idempotency_key_key''), db)
      else (Inr (new_job (cp_now db) i project t key),
        db\<lparr>cd_jobs := (cd_jobs db)\<lparr>jd_rows := jd_rows (cd_jobs db) @ [new_job (cp_now db) i project t key]\<rparr>,
           cd_payloads := cd_payloads db @ [(i, payload)]\<rparr>))"
  by (simp add: add_job_def insert_job_def has_key_def new_job_def cp_now_def)

lemma by_key_none: "by_idempotency_key key (cd_jobs db) = None \<longleftrightarrow> \<not> has_key key db"
  by (simp add: by_idempotency_key_def has_key_def find_None_iff list_ex_iff) blast

definition taken :: "string \<Rightarrow> cp_db \<Rightarrow> bool" where
  "taken jid db = list_ex (\<lambda>r. jb_id r = jid) (jd_rows (cd_jobs db))"

definition with_job :: "job_row \<Rightarrow> job_payload \<Rightarrow> cp_db \<Rightarrow> cp_db" where
  "with_job r payload db = db\<lparr>cd_jobs := (cd_jobs db)\<lparr>jd_rows := jd_rows (cd_jobs db) @ [r]\<rparr>,
     cd_payloads := cd_payloads db @ [(jb_id r, payload)]\<rparr>"

definition with_status :: "string \<Rightarrow> project_status \<Rightarrow> cp_db \<Rightarrow> cp_db" where
  "with_status ref s db = db\<lparr>cd_projects := upd_where (\<lambda>q. ci_eq (pe_ref q) ref) (set_status s) (cd_projects db)\<rparr>"

definition with_audit :: "request_actor option \<Rightarrow> string \<Rightarrow> string \<Rightarrow> project_entry \<Rightarrow> (string \<times> string) list \<Rightarrow> cp_db \<Rightarrow> cp_db" where
  "with_audit actor action ref p meta db = db\<lparr>cd_audit := cd_audit db @
     [\<lparr>ae_org = pe_org p, ae_project = pe_id p, ae_actor = the_actor actor, ae_action = action,
       ae_resource = ''project'', ae_resource_id = ref, ae_meta = meta, ae_at = cp_now db\<rparr>]\<rparr>"

definition hits :: "string \<Rightarrow> project_status \<Rightarrow> cp_db \<Rightarrow> project_entry list" where
  "hits ref s db = map (set_status s) (filter (\<lambda>q. ci_eq (pe_ref q) ref) (cd_projects db))"

lemmas op_defs = transaction_def and_then_def gets_def modifies_def ret_def throw_def update_projects_def
  record_audit_def add_job_eq Let_def

lemma request_delete_eq:
  "pg_request_delete jid ref actor db =
     (case pg_get_project ref db of
        None \<Rightarrow> (Inr NoProject, db)
      | Some p \<Rightarrow>
          (case by_idempotency_key (delete_key (pe_id p)) (cd_jobs db) of
             Some j \<Rightarrow> (Inr (Accepted p (job_from_db j) True), db)
           | None \<Rightarrow>
               if taken jid db then (Inl (UniqueKey ''provisioning_jobs_pkey''), db)
               else (let r = new_job (cp_now db) jid (pe_id p) ''delete_project'' (delete_key (pe_id p)) in
                 (Inr (Accepted (hd (hits ref StDeleting db)) (job_from_db r) False),
                  with_audit actor ''project.delete_requested'' ref p [(''previous_status'', status_text (pe_status p))]
                    (with_job r \<lparr>jp_project = pe_id p, jp_ref = ref, jp_extra = []\<rparr> (with_status ref StDeleting db))))))"
proof -
  have c: "list_all deletion_check (map (set_status StDeleting) ps)" for ps
    by (simp add: list_all_iff deletion_check_def set_status_def)
  show ?thesis
  proof (cases "pg_get_project ref db")
    case None
    then show ?thesis by (simp add: pg_request_delete_def op_defs)
  next
    case (Some p)
    show ?thesis
    proof (cases "by_idempotency_key (delete_key (pe_id p)) (cd_jobs db)")
      case None
      then have "\<not> has_key (delete_key (pe_id p)) db" by (rule by_key_none[THEN iffD1])
      then show ?thesis using Some None
        by (simp add: pg_request_delete_def op_defs c has_key_def cp_now_def with_audit_def with_job_def
            with_status_def hits_def taken_def)
    next
      case (Some j)
      then show ?thesis using \<open>pg_get_project ref db = Some p\<close> by (simp add: pg_request_delete_def op_defs)
    qed
  qed
qed

lemma request_rotation_eq:
  "pg_request_rotation jid ref terminate actor db =
     (case pg_get_project ref db of
        None \<Rightarrow> (Inr NoProject, db)
      | Some p \<Rightarrow>
          (case newest (filter unfinished (jobs_of (pe_id p) ''rotate_credentials'' db)) of
             Some j \<Rightarrow> (Inr (Accepted p (job_from_db j) True), db)
           | None \<Rightarrow>
               if pe_status p \<noteq> StReady then (Inr (Conflict (pe_status p) p), db)
               else if taken jid db then (Inl (UniqueKey ''provisioning_jobs_pkey''), db)
               else (let flag = (if terminate then ''true'' else ''false'');
                         key = ''rotate_'' @ pe_id p @ ''_'' @
                           string_of_nat (length (jobs_of (pe_id p) ''rotate_credentials'' db) + 1);
                         r = new_job (cp_now db) jid (pe_id p) ''rotate_credentials'' key in
                 if has_key key db then (Inl (UniqueKey ''provisioning_jobs_idempotency_key_key''), db)
                 else (Inr (Accepted p (job_from_db r) False),
                  with_audit actor ''project.credentials_rotation_requested'' ref p [(''terminate'', flag)]
                    (with_job r \<lparr>jp_project = pe_id p, jp_ref = ref, jp_extra = [(''terminate'', flag)]\<rparr> db)))))"
  by (cases "pg_get_project ref db")
     (auto simp: pg_request_rotation_def op_defs has_key_def cp_now_def with_audit_def with_job_def taken_def split: option.split)

lemma request_lifecycle_eq:
  "pg_request_lifecycle jid ref kind actor db =
     (case pg_get_project ref db of
        None \<Rightarrow> (Inr NoProject, db)
      | Some p \<Rightarrow>
          (case newest (filter unfinished (jobs_of (pe_id p) (lifecycle_job kind) db)) of
             Some j \<Rightarrow> (Inr (Accepted p (job_from_db j) True), db)
           | None \<Rightarrow>
               if pe_status p \<noteq> lifecycle_from kind then (Inr (Conflict (pe_status p) p), db)
               else if \<not> list_all deletion_check (hits ref (lifecycle_to kind) db) then (Inl (CheckFailed ''projects_check''), db)
               else if taken jid db then (Inl (UniqueKey ''provisioning_jobs_pkey''), db)
               else (let key = lifecycle_key kind (pe_id p) (length (jobs_of (pe_id p) (lifecycle_job kind) db) + 1);
                         r = new_job (cp_now db) jid (pe_id p) (lifecycle_job kind) key in
                 if has_key key db then (Inl (UniqueKey ''provisioning_jobs_idempotency_key_key''), db)
                 else (Inr (Accepted (hd (hits ref (lifecycle_to kind) db)) (job_from_db r) False),
                  with_audit actor (case kind of Pause \<Rightarrow> ''project.pause_requested'' | Resume \<Rightarrow> ''project.resume_requested'') ref p
                    [(''previous_status'', status_text (pe_status p))]
                    (with_job r \<lparr>jp_project = pe_id p, jp_ref = ref, jp_extra = []\<rparr> (with_status ref (lifecycle_to kind) db))))))"
  by (cases "pg_get_project ref db")
     (auto simp: pg_request_lifecycle_def op_defs has_key_def cp_now_def with_audit_def with_job_def with_status_def
      hits_def taken_def split: option.split)

lemma request_retry_eq:
  "pg_request_retry ref actor db =
     (case pg_get_project ref db of
        None \<Rightarrow> (Inr NoProject, db)
      | Some p \<Rightarrow>
          if pe_status p \<noteq> StFailed then (Inr (Conflict (pe_status p) p), db)
          else (case dead_build (pe_id p) db of
             None \<Rightarrow> (Inr (Refused ''This project has no failed build to retry.''), db)
           | Some j \<Rightarrow>
               if \<not> list_all deletion_check (hits ref StCreating db) then (Inl (CheckFailed ''projects_check''), db)
               else (let n = retries (pe_id p) db + 1 in
                 (Inr (Retrying (hd (hits ref StCreating db)) (job_from_db j) n),
                  with_audit actor ''project.retry_requested'' ref p [(''job_type'', jb_type j), (''retry'', string_of_nat n)]
                    (with_status ref StCreating
                      (db\<lparr>cd_jobs := update_job (jb_id j) (reset_job (cp_now db)) (cd_jobs db)\<rparr>))))))"
  by (cases "pg_get_project ref db")
     (auto simp: pg_request_retry_def op_defs cp_now_def with_audit_def with_status_def hits_def update_job_def
      split: option.split)

definition fresh_project :: "nat \<Rightarrow> string \<Rightarrow> string \<Rightarrow> string \<Rightarrow> string \<Rightarrow> string \<Rightarrow> string \<Rightarrow> project_status \<Rightarrow> project_entry" where
  "fresh_project now pid ref name org region plan s =
     \<lparr>pe_id = pid, pe_ref = ref, pe_name = name, pe_org = org, pe_region = region, pe_plan = plan,
      pe_environment = ''production'', pe_status = s, pe_created = now, pe_deleted_at = None, pe_purge_after = None\<rparr>"

lemma fresh_project_simps [simp]:
  "pe_id (fresh_project n i rf nm o' rg pl s) = i" "pe_ref (fresh_project n i rf nm o' rg pl s) = rf"
  "pe_status (fresh_project n i rf nm o' rg pl s) = s" "pe_org (fresh_project n i rf nm o' rg pl s) = o'"
  "pe_deleted_at (fresh_project n i rf nm o' rg pl s) = None" "pe_purge_after (fresh_project n i rf nm o' rg pl s) = None"
  "pe_name (fresh_project n i rf nm o' rg pl s) = nm" "pe_created (fresh_project n i rf nm o' rg pl s) = n"
  by (simp_all add: fresh_project_def)

definition insertable :: "project_entry \<Rightarrow> cp_db \<Rightarrow> bool" where
  "insertable p db =
     (list_all (\<lambda>q. pe_id q \<noteq> pe_id p \<and> \<not> ci_eq (pe_ref q) (pe_ref p)) (cd_projects db) \<and> ref_shape (pe_ref p) \<and>
      pe_plan p \<in> {''free'', ''pro'', ''team'', ''enterprise''})"

lemma insert_project_cases:
  obtains e where "insert_project p db = (Inl e, db)" "\<not> insertable p db"
  | "insert_project p db = (Inr p, db\<lparr>cd_projects := cd_projects db @ [p]\<rparr>)" "insertable p db"
proof (cases "insertable p db")
  case True
  then have "insert_project p db = (Inr p, db\<lparr>cd_projects := cd_projects db @ [p]\<rparr>)"
    by (auto simp: insert_project_def insertable_def list_all_iff list_ex_iff)
  then show ?thesis using True that(2) by blast
next
  case False
  have n: "\<not> list_all P xs \<longleftrightarrow> list_ex (\<lambda>x. \<not> P x) xs" for P and xs :: "project_entry list" by (simp add: list_all_iff list_ex_iff)
  have "\<exists>e. insert_project p db = (Inl e, db)"
    using False by (auto simp: insert_project_def insertable_def n list_ex_iff)
  then show ?thesis using False that(1) by blast
qed

definition with_project :: "project_entry \<Rightarrow> cp_db \<Rightarrow> cp_db" where
  "with_project p db = db\<lparr>cd_projects := cd_projects db @ [p]\<rparr>"

definition org_of :: "string \<Rightarrow> new_project \<Rightarrow> string" where
  "org_of own_org np = (case np_org np of None \<Rightarrow> own_org | Some i \<Rightarrow> i)"

definition created_project :: "string \<Rightarrow> string \<Rightarrow> new_project \<Rightarrow> cp_db \<Rightarrow> project_entry" where
  "created_project own_org pid np db =
     fresh_project (cp_now db) pid (np_ref np) (np_name np) (org_of own_org np) (np_region np) (np_plan np) StCreating"

lemma create_project_cases:
  obtains e where "pg_create_project own_org pid jid np db = (Inl e, db)"
      "\<not> insertable (created_project own_org pid np db) db \<or> taken jid db \<or> has_key (np_key np) db"
  | payload actor meta where "insertable (created_project own_org pid np db) db" "\<not> taken jid db" "\<not> has_key (np_key np) db"
      "pg_create_project own_org pid jid np db =
        (Inr (created_project own_org pid np db,
              job_from_db (new_job (cp_now db) jid pid ''provision_project'' (np_key np)), False),
         with_audit (Some actor) ''project.created'' (np_ref np) (created_project own_org pid np db) meta
           (with_job (new_job (cp_now db) jid pid ''provision_project'' (np_key np)) payload
             (with_project (created_project own_org pid np db) db)))"
proof -
  let ?p = "created_project own_org pid np db"
  have p: "\<lparr>pe_id = pid, pe_ref = np_ref np, pe_name = np_name np,
       pe_org = case np_org np of None \<Rightarrow> own_org | Some i \<Rightarrow> i,
       pe_region = np_region np, pe_plan = np_plan np, pe_environment = ''production'', pe_status = StCreating,
       pe_created = cp_now db, pe_deleted_at = None, pe_purge_after = None\<rparr> = ?p"
    by (simp add: created_project_def fresh_project_def org_of_def)
  have o: "(case np_org np of None \<Rightarrow> own_org | Some i \<Rightarrow> i) = pe_org ?p"
    by (simp add: created_project_def org_of_def)
  have i: "pid = pe_id ?p" by (simp add: created_project_def)
  show ?thesis
  proof (cases rule: insert_project_cases[of ?p db])
    case (1 e)
    then have "pg_create_project own_org pid jid np db = (Inl e, db)"
      by (simp add: pg_create_project_def transaction_def and_then_def gets_def Let_def p)
    then show ?thesis using 1 that(1) by blast
  next
    case 2
    consider "taken jid db" | "\<not> taken jid db" "has_key (np_key np) db" | "\<not> taken jid db" "\<not> has_key (np_key np) db" by blast
    then show ?thesis
    proof cases
      case 1
      then have "pg_create_project own_org pid jid np db = (Inl (UniqueKey ''provisioning_jobs_pkey''), db)"
        using 2 by (simp add: pg_create_project_def op_defs p taken_def)
      then show ?thesis using 1 that(1) by blast
    next
      case k: 2
      then have "pg_create_project own_org pid jid np db = (Inl (UniqueKey ''provisioning_jobs_idempotency_key_key''), db)"
        using 2 by (simp add: pg_create_project_def op_defs p taken_def has_key_def)
      then show ?thesis using k that(1) by blast
    next
      case 3
      then show ?thesis using 2
        by (intro that(2)[of
              "case np_actor np of None \<Rightarrow> SYSTEM_ACTOR\<lparr>ra_request := np_request np\<rparr> | Some a \<Rightarrow> a"
              "[(''name'', np_name np), (''region'', np_region np), (''plan'', np_plan np), (''idempotency_key'', np_key np)]"
              "\<lparr>jp_project = pid, jp_ref = np_ref np, jp_extra = (case np_request np of None \<Rightarrow> []
                | Some r \<Rightarrow> if r = [] then [] else [(''request_id'', r)])\<rparr>"])
           (auto simp: pg_create_project_def op_defs p[unfolded cp_now_def] o[symmetric] with_audit_def with_job_def with_project_def
            cp_now_def has_key_def taken_def the_actor_def i[symmetric] list_ex_iff)
    qed
  qed
qed

definition copied_project :: "(nat \<Rightarrow> string) \<Rightarrow> string \<Rightarrow> project_entry \<Rightarrow> nat option \<Rightarrow> string \<Rightarrow> cp_db \<Rightarrow> project_entry" where
  "copied_project to_iso pid source target new_ref db =
     fresh_project (cp_now db) pid new_ref (restore_name to_iso source target) (pe_org source) (pe_region source)
       (pe_plan source) StRestoring"

definition with_restore :: "restore_entry \<Rightarrow> cp_db \<Rightarrow> cp_db" where
  "with_restore r db = db\<lparr>cd_restores := cd_restores db @ [r]\<rparr>"

lemma copy_project_cases:
  obtains e db' where "copy_project to_iso pid jid source target new_ref actor ttl db = (Inl e, db')"
  | payload meta where "insertable (copied_project to_iso pid source target new_ref db) db" "\<not> taken jid db"
      "\<not> has_key (restore_key pid) db"
      "copy_project to_iso pid jid source target new_ref actor ttl db =
        (Inr (Copying (copied_project to_iso pid source target new_ref db)
              (job_from_db (new_job (cp_now db) jid pid ''restore_project'' (restore_key pid))) source (cp_now db + ttl * HOUR_MS)),
         with_audit actor ''project.restore_requested'' (pe_ref source) source meta
           (with_job (new_job (cp_now db) jid pid ''restore_project'' (restore_key pid)) payload
             (with_restore \<lparr>re_project = pid, re_source = pe_id source, re_source_ref = pe_ref source, re_target = target,
                re_expires = Some (cp_now db + ttl * HOUR_MS), re_status = ''running''\<rparr>
               (with_project (copied_project to_iso pid source target new_ref db) db))))"
proof -
  let ?p = "copied_project to_iso pid source target new_ref db"
  have p: "\<lparr>pe_id = pid, pe_ref = new_ref, pe_name = restore_name to_iso source target,
       pe_org = pe_org source, pe_region = pe_region source, pe_plan = pe_plan source,
       pe_environment = ''production'', pe_status = StRestoring, pe_created = cp_now db, pe_deleted_at = None,
       pe_purge_after = None\<rparr> = ?p"
    by (simp add: copied_project_def fresh_project_def)
  show ?thesis
  proof (cases rule: insert_project_cases[of ?p db])
    case (1 e)
    then have "copy_project to_iso pid jid source target new_ref actor ttl db = (Inl e, db)"
      by (simp add: copy_project_def and_then_def gets_def p)
    then show ?thesis by (rule that(1))
  next
    case 2
    let ?db = "with_restore \<lparr>re_project = pid, re_source = pe_id source, re_source_ref = pe_ref source, re_target = target,
                re_expires = Some (cp_now db + ttl * HOUR_MS), re_status = ''running''\<rparr> (with_project ?p db)"
    consider "taken jid db" | "\<not> taken jid db" "has_key (restore_key pid) db" | "\<not> taken jid db" "\<not> has_key (restore_key pid) db" by blast
    then show ?thesis
    proof cases
      case 1
      then have "copy_project to_iso pid jid source target new_ref actor ttl db = (Inl (UniqueKey ''provisioning_jobs_pkey''), ?db)"
        using 2 by (simp add: copy_project_def op_defs p taken_def with_restore_def with_project_def)
      then show ?thesis by (rule that(1))
    next
      case k: 2
      then have "copy_project to_iso pid jid source target new_ref actor ttl db =
          (Inl (UniqueKey ''provisioning_jobs_idempotency_key_key''), ?db)"
        using 2 by (simp add: copy_project_def op_defs p taken_def has_key_def with_restore_def with_project_def)
      then show ?thesis by (rule that(1))
    next
      case 3
      then show ?thesis using 2
        by (intro that(2)[of
              "[(''target_time'', case target of None \<Rightarrow> ''latest'' | Some t \<Rightarrow> to_iso t), (''restore_ref'', new_ref), (''restore_project_id'', pid)]"
              "\<lparr>jp_project = pid, jp_ref = new_ref, jp_extra = [(''source_ref'', pe_ref source),
                 (''target_time'', case target of None \<Rightarrow> ''null'' | Some t \<Rightarrow> to_iso t)]\<rparr>"])
           (auto simp: copy_project_def op_defs p[unfolded cp_now_def] with_audit_def with_job_def with_project_def
            with_restore_def cp_now_def has_key_def taken_def list_ex_iff)
    qed
  qed
qed

subsection \<open>The invariant of the tables\<close>

text \<open>What a state waits for: the jobs that can move a project on from it.\<close>

fun awaited :: "project_status \<Rightarrow> string list" where
  "awaited StCreating = [''provision_project'', ''restore_project'']"
| "awaited StRestoring = [''restore_project'']"
| "awaited StDeleting = [''delete_project'']"
| "awaited StPausing = [''pause_project'']"
| "awaited StResuming = [''resume_project'']"
| "awaited _ = []"

definition job_for :: "string \<Rightarrow> string list \<Rightarrow> cp_db \<Rightarrow> bool" where
  "job_for project types db = (\<exists>r \<in> set (jd_rows (cd_jobs db)). jb_project r = Some project \<and> jb_type r \<in> set types)"

definition backed :: "cp_db \<Rightarrow> project_entry \<Rightarrow> bool" where
  "backed db p = (awaited (pe_status p) = [] \<or> job_for (pe_id p) (awaited (pe_status p)) db)"

definition store_ok :: "cp_db \<Rightarrow> bool" where
  "store_ok db =
     (distinct (map pe_id (cd_projects db)) \<and> distinct (map (js_lower \<circ> pe_ref) (cd_projects db)) \<and>
      list_all deletion_check (cd_projects db) \<and> distinct (map jb_id (jd_rows (cd_jobs db))) \<and>
      keys_ok (cd_jobs db) \<and> list_all (backed db) (cd_projects db))"

lemma get_project_SomeD: "pg_get_project ref db = Some p \<Longrightarrow> p \<in> set (cd_projects db) \<and> ci_eq (pe_ref p) ref \<and> pe_status p \<noteq> StDeleted"
  by (auto simp: pg_get_project_def live_def dest: find_SomeD)

lemma one_ref:
  assumes "store_ok db" "p \<in> set (cd_projects db)" "q \<in> set (cd_projects db)" "ci_eq (pe_ref p) ref" "ci_eq (pe_ref q) ref"
  shows "p = q"
  using assms unique_key[of "js_lower \<circ> pe_ref" "cd_projects db" p q] by (simp add: store_ok_def ci_eq_def)

lemma filter_one: "distinct xs \<Longrightarrow> x \<in> set xs \<Longrightarrow> (\<And>y. y \<in> set xs \<Longrightarrow> P y \<longleftrightarrow> y = x) \<Longrightarrow> filter P xs = [x]"
  by (induction xs) (auto simp: filter_empty_conv)

lemma hits_one:
  assumes "store_ok db" "pg_get_project ref db = Some p"
  shows "hits ref s db = [set_status s p]"
proof -
  have "filter (\<lambda>q. ci_eq (pe_ref q) ref) (cd_projects db) = [p]"
    using assms get_project_SomeD[OF assms(2)] one_ref[OF assms(1), of _ p ref]
    by (intro filter_one) (auto simp: store_ok_def distinct_map)
  then show ?thesis by (simp add: hits_def)
qed

lemma set_status_simps [simp]:
  "pe_id (set_status s p) = pe_id p" "pe_ref (set_status s p) = pe_ref p" "pe_status (set_status s p) = s"
  "pe_deleted_at (set_status s p) = pe_deleted_at p" "pe_org (set_status s p) = pe_org p"
  "pe_purge_after (set_status s p) = pe_purge_after p" "pe_name (set_status s p) = pe_name p"
  by (simp_all add: set_status_def)

lemma with_simps [simp]:
  "cd_projects (with_job r pl db) = cd_projects db" "cd_projects (with_audit a ac rf p me db) = cd_projects db"
  "cd_projects (with_restore x db) = cd_projects db" "cd_projects (with_project p db) = cd_projects db @ [p]"
  "cd_projects (with_status ref s db) = upd_where (\<lambda>q. ci_eq (pe_ref q) ref) (set_status s) (cd_projects db)"
  "cd_jobs (with_audit a ac rf p me db) = cd_jobs db" "cd_jobs (with_restore x db) = cd_jobs db"
  "cd_jobs (with_project p db) = cd_jobs db" "cd_jobs (with_status ref s db) = cd_jobs db"
  "cd_jobs (with_job r pl db) = (cd_jobs db)\<lparr>jd_rows := jd_rows (cd_jobs db) @ [r]\<rparr>"
  "cp_now (with_job r pl db) = cp_now db" "cp_now (with_audit a ac rf p me db) = cp_now db"
  "cp_now (with_status ref s db) = cp_now db" "cp_now (with_project p db) = cp_now db"
  "cp_now (with_restore x db) = cp_now db"
  by (simp_all add: with_job_def with_audit_def with_restore_def with_project_def with_status_def cp_now_def)

lemma job_for_append: "job_for i ts db \<Longrightarrow> cd_jobs db' = (cd_jobs db)\<lparr>jd_rows := jd_rows (cd_jobs db) @ rs\<rparr> \<Longrightarrow> job_for i ts db'"
  by (auto simp: job_for_def)

lemma store_ok_with_audit [simp]: "store_ok (with_audit a ac rf p me db) = store_ok db"
  by (simp add: store_ok_def backed_def job_for_def list_all_iff)

lemma store_ok_with_restore [simp]: "store_ok (with_restore x db) = store_ok db"
  by (simp add: store_ok_def backed_def job_for_def list_all_iff)

lemma store_ok_job:
  assumes "store_ok db" "\<not> taken (jb_id r) db" "\<not> has_key (jb_key r) db"
  shows "store_ok (with_job r pl db)"
  using assms
  by (auto simp: store_ok_def taken_def has_key_def list_all_iff list_ex_iff keys_ok_def backed_def job_for_def image_iff)

lemma store_ok_move:
  assumes "store_ok db" "pg_get_project ref db = Some p"
    and "awaited s = [] \<or> job_for (pe_id p) (awaited s) db" "deletion_check (set_status s p)"
  shows "store_ok (with_status ref s db)"
proof -
  define g where "g q = (if q = p then set_status s p else q)" for q
  let ?db = "with_status ref s db"
  have one: "ci_eq (pe_ref q) ref \<longleftrightarrow> q = p" if "q \<in> set (cd_projects db)" for q
    using one_ref[OF assms(1), of q p ref] get_project_SomeD[OF assms(2)] that by auto
  have ps: "cd_projects ?db = map g (cd_projects db)"
    by (auto simp: upd_where_def g_def one)
  have keep: "pe_id (g q) = pe_id q" "pe_ref (g q) = pe_ref q" for q by (simp_all add: g_def)
  have "backed ?db (g q)" "deletion_check (g q)" if "q \<in> set (cd_projects db)" for q
    using assms(1,3,4) that by (auto simp: backed_def job_for_def g_def store_ok_def list_all_iff)
  then show ?thesis using assms(1) keep
    by (simp add: store_ok_def ps list_all_iff comp_def del: with_simps(5)) 
qed

lemma store_ok_request:
  assumes "store_ok db" "pg_get_project ref db = Some p" "\<not> taken (jb_id r) db" "\<not> has_key (jb_key r) db"
    and "jb_project r = Some (pe_id p)" "awaited s = [] \<or> jb_type r \<in> set (awaited s)" "deletion_check (set_status s p)"
  shows "store_ok (with_job r pl (with_status ref s db))"
proof -
  have "store_ok (with_status ref s (with_job r pl db))"
    using assms by (intro store_ok_move[of _ _ p] store_ok_job) (auto simp: pg_get_project_def job_for_def)
  moreover have "with_status ref s (with_job r pl db) = with_job r pl (with_status ref s db)"
    by (simp add: with_status_def with_job_def)
  ultimately show ?thesis by simp
qed

lemma live_check: "store_ok db \<Longrightarrow> pg_get_project ref db = Some p \<Longrightarrow> deletion_check p"
  by (auto simp: store_ok_def list_all_iff dest: get_project_SomeD)

lemma store_ok_delete: "store_ok db \<Longrightarrow> store_ok (snd (pg_request_delete jid ref actor db))"
  by (cases "pg_get_project ref db")
     (auto simp: request_delete_eq Let_def deletion_check_def by_key_none intro!: store_ok_request split: option.split)

lemma store_ok_rotation: "store_ok db \<Longrightarrow> store_ok (snd (pg_request_rotation jid ref terminate actor db))"
  by (cases "pg_get_project ref db") (auto simp: request_rotation_eq Let_def intro!: store_ok_job split: option.split)

lemma store_ok_lifecycle: "store_ok db \<Longrightarrow> store_ok (snd (pg_request_lifecycle jid ref kind actor db))"
  by (cases "pg_get_project ref db"; cases kind)
     (auto simp: request_lifecycle_eq Let_def hits_one intro!: store_ok_request split: option.split)

lemma newest_in: "newest rows = Some r \<Longrightarrow> r \<in> set rows"
  by (auto simp: newest_def split: if_splits) (metis last_in_set set_empty set_sort)

lemma reset_job_simps [simp]:
  "jb_id (reset_job n r) = jb_id r" "jb_key (reset_job n r) = jb_key r" "jb_project (reset_job n r) = jb_project r"
  "jb_type (reset_job n r) = jb_type r" "jb_state (reset_job n r) = Pending"
  by (simp_all add: reset_job_def)

lemma store_ok_jobs:
  assumes "store_ok db" "map (\<lambda>r. (jb_id r, jb_key r, jb_project r, jb_type r)) (jd_rows js) =
    map (\<lambda>r. (jb_id r, jb_key r, jb_project r, jb_type r)) (jd_rows (cd_jobs db))"
  shows "store_ok (db\<lparr>cd_jobs := js\<rparr>)" "job_for i ts (db\<lparr>cd_jobs := js\<rparr>) = job_for i ts db"
proof -
  have p: "map (\<lambda>r. h (jb_id r, jb_key r, jb_project r, jb_type r)) (jd_rows js) =
      map (\<lambda>r. h (jb_id r, jb_key r, jb_project r, jb_type r)) (jd_rows (cd_jobs db))" for h :: "_ \<Rightarrow> 'b"
    using arg_cong[OF assms(2), of "map h"] by (simp add: comp_def)
  show j: "job_for i ts (db\<lparr>cd_jobs := js\<rparr>) = job_for i ts db" for i ts
  proof -
    have e: "(\<exists>r \<in> set rows. P r) = (True \<in> set (map P rows))" for P and rows :: "job_row list" by auto
    show ?thesis unfolding job_for_def e using p[of "\<lambda>(a, b, c, d). c = Some i \<and> d \<in> set ts"] by simp
  qed
  show "store_ok (db\<lparr>cd_jobs := js\<rparr>)"
    using assms(1) p[of fst] p[of "\<lambda>(a, b, c, d). b"]
    by (simp add: store_ok_def backed_def j keys_ok_def list_all_iff)
qed

lemma update_job_keeps:
  assumes "\<And>r. (jb_id (f r), jb_key (f r), jb_project (f r), jb_type (f r)) = (jb_id r, jb_key r, jb_project r, jb_type r)"
  shows "map (\<lambda>r. (jb_id r, jb_key r, jb_project r, jb_type r)) (jd_rows (update_job i f js)) =
    map (\<lambda>r. (jb_id r, jb_key r, jb_project r, jb_type r)) (jd_rows js)"
  using assms by (auto simp: update_job_def)

lemma dead_buildD: "dead_build i db = Some r \<Longrightarrow> r \<in> set (jd_rows (cd_jobs db)) \<and> jb_project r = Some i \<and>
    jb_type r \<in> set BUILDING \<and> jb_state r = DeadLetter"
  by (auto simp: dead_build_def dest: newest_in)

lemma store_ok_retry: "store_ok db \<Longrightarrow> store_ok (snd (pg_request_retry ref actor db))"
proof (cases "pg_get_project ref db")
  case (Some p)
  assume ok: "store_ok db"
  show ?thesis
  proof (cases "pe_status p = StFailed \<and> list_all deletion_check (hits ref StCreating db)")
    case True
    show ?thesis
    proof (cases "dead_build (pe_id p) db")
      case j: (Some j)
      let ?db = "db\<lparr>cd_jobs := update_job (jb_id j) (reset_job (cp_now db)) (cd_jobs db)\<rparr>"
      have k: "store_ok ?db" "job_for i ts ?db = job_for i ts db" for i ts
        using store_ok_jobs[OF ok update_job_keeps[of "reset_job (cp_now db)"]] by simp_all
      have "job_for (pe_id p) (awaited StCreating) ?db"
        unfolding k(2) using dead_buildD[OF j] by (auto simp: job_for_def BUILDING_def)
      then have "store_ok (with_status ref StCreating ?db)"
        using True Some hits_one[OF ok Some] by (intro store_ok_move[OF k(1), of _ p]) (auto simp: pg_get_project_def)
      then show ?thesis using True Some j by (simp add: request_retry_eq Let_def)
    qed (use ok Some True in \<open>simp add: request_retry_eq\<close>)
  qed (use ok Some in \<open>auto simp: request_retry_eq split: option.split\<close>)
qed (simp add: request_retry_eq)

lemma store_ok_project:
  assumes "store_ok db" "insertable p db" "\<not> taken (jb_id r) db" "\<not> has_key (jb_key r) db" "pe_deleted_at p = None"
    "pe_status p \<noteq> StSoftDeleted" "pe_status p \<noteq> StDeleted"
    "jb_project r = Some (pe_id p)" "awaited (pe_status p) = [] \<or> jb_type r \<in> set (awaited (pe_status p))"
  shows "store_ok (with_job r pl (with_project p db))"
proof -
  let ?db = "with_job r pl (with_project p db)"
  have "backed ?db q" if "q \<in> set (cd_projects db)" for q
    using assms(1) that job_for_append[of "pe_id q" "awaited (pe_status q)" db ?db "[r]"]
    by (auto simp: backed_def store_ok_def list_all_iff)
  moreover have "backed ?db p" using assms(8,9) by (auto simp: backed_def job_for_def)
  ultimately show ?thesis using assms
    by (auto simp: store_ok_def insertable_def deletion_check_def taken_def has_key_def list_all_iff list_ex_iff keys_ok_def ci_eq_def)
qed

lemma store_ok_create: "store_ok db \<Longrightarrow> store_ok (snd (pg_create_project own_org pid jid np db))"
  by (cases rule: create_project_cases[of own_org pid jid np db])
     (auto intro!: store_ok_project simp: created_project_def)

lemma store_ok_copy:
  assumes "store_ok db" "copy_project to_iso pid jid source target new_ref actor ttl db = (Inr x, db')"
  shows "store_ok db'"
proof (cases rule: copy_project_cases[of to_iso pid jid source target new_ref actor ttl db])
  case (2 payload meta)
  let ?p = "copied_project to_iso pid source target new_ref db"
  let ?r = "new_job (cp_now db) jid pid ''restore_project'' (restore_key pid)"
  have "store_ok (with_job ?r payload (with_project ?p db))"
    using 2 assms(1) by (intro store_ok_project) (auto simp: copied_project_def)
  then have "store_ok (with_restore z (with_job ?r payload (with_project ?p db)))" for z by simp
  moreover have "with_restore z (with_job ?r payload (with_project ?p db)) = with_job ?r payload (with_restore z (with_project ?p db))" for z
    by (simp add: with_restore_def with_job_def with_project_def)
  ultimately have "store_ok (with_job ?r payload (with_restore z (with_project ?p db)))" for z by metis
  then show ?thesis using 2(4) assms(2) by auto
qed (use assms(2) in simp)

lemma store_ok_restore:
  assumes "store_ok db"
  shows "store_ok (snd (pg_request_restore to_iso pid jid ref target new_ref actor limit ttl db))"
  using assms
  by (auto simp: pg_request_restore_def transaction_def and_then_def gets_def ret_def
      dest: store_ok_copy[OF assms] split: option.splits sum.splits prod.splits)

lemma copy_result: "copy_project to_iso pid jid source target new_ref actor ttl db = (Inr x, db') \<Longrightarrow>
    \<exists>p j s t. x = Copying p j s t"
  by (cases rule: copy_project_cases[of to_iso pid jid source target new_ref actor ttl db]) auto

subsection \<open>Properties\<close>

text \<open>
  C27. Two-phase enqueue (D-067): creating a project either changes nothing at all, or adds the
  project, exactly one pending job that names it and is the one returned, and one audit row on it.
\<close>

theorem project_and_job_land_together:
  "case pg_create_project own_org pid jid np db of
     (Inl e, db') \<Rightarrow> db' = db
   | (Inr (p, j, replayed), db') \<Rightarrow>
       (\<exists>r a. \<not> replayed \<and> j = job_from_db r \<and> jb_project r = Some (pe_id p) \<and> jb_state r = Pending \<and>
         jb_key r = np_key np \<and> pe_status p = StCreating \<and> ae_project a = pe_id p \<and>
         cd_projects db' = cd_projects db @ [p] \<and> jd_rows (cd_jobs db') = jd_rows (cd_jobs db) @ [r] \<and>
         cd_audit db' = cd_audit db @ [a])"
proof (cases rule: create_project_cases[of own_org pid jid np db])
  case (2 actor meta payload)
  then show ?thesis
    by (auto simp: with_audit_def with_job_def with_project_def created_project_def intro!: exI)
qed simp

lemma uuid_key_valid:
  assumes "is_uuid p" "list_all delivery_char pre" "length pre \<le> 200"
  shows "valid_delivery_id (pre @ p)"
proof -
  have len: "length p = 36" using assms(1) by (auto simp: is_uuid_def)
  have "delivery_char c" if "c \<in> set p" for c
    using assms(1) that uuid_shape_chars[of "[8, 4, 4, 4, 12]" p c]
    by (auto simp: is_uuid_def delivery_char_def is_hex_def lower_char_def char_class_defs Let_def split: if_splits)
  then show ?thesis using len assms(2,3) by (auto simp: valid_delivery_id_def list_all_iff)
qed

text \<open>
  Two requests collapse onto one job: after a pause or a resume was accepted, a second one of
  the same kind for the same project returns the first one's job, and changes nothing.
\<close>

theorem second_request_joins_the_first:
  assumes "store_ok db"
    and "pg_request_lifecycle jid ref kind actor db = (Inr (Accepted p j False), db')"
    and "ci_eq ref' ref"
  shows "pg_request_lifecycle jid' ref' kind actor' db' = (Inr (Accepted p j True), db')"
proof -
  from assms(2) obtain q where q: "pg_get_project ref db = Some q"
    by (cases "pg_get_project ref db") (auto simp: request_lifecycle_eq)
  let ?t = "lifecycle_job kind" and ?s = "lifecycle_to kind"
  from assms(2) q have none: "filter unfinished (jobs_of (pe_id q) ?t db) = []"
    by (auto simp: request_lifecycle_eq newest_def split: option.splits if_splits)
  let ?key = "lifecycle_key kind (pe_id q) (length (jobs_of (pe_id q) ?t db) + 1)"
  let ?r = "new_job (cp_now db) jid (pe_id q) ?t ?key"
  from assms(2) q none hits_one[OF assms(1) q, of ?s] have j: "j = job_from_db ?r" "p = set_status ?s q"
    and db': "\<exists>actor action meta pl. db' = with_audit actor action ref q meta (with_job ?r pl (with_status ref ?s db))"
    by (auto simp: request_lifecycle_eq newest_def Let_def split: if_splits)
  from db' have ps: "cd_projects db' = upd_where (\<lambda>q. ci_eq (pe_ref q) ref) (set_status ?s) (cd_projects db)"
    and js: "jd_rows (cd_jobs db') = jd_rows (cd_jobs db) @ [?r]" by auto
  have f: "live ref' (set_status ?s x) = (ci_eq (pe_ref x) ref)" "\<not> ci_eq (pe_ref x) ref \<Longrightarrow> \<not> live ref' x" for x
    using assms(3) by (cases kind; auto simp: live_def ci_eq_def)+
  have find_map_status: "List.find (live ref') (map (\<lambda>x. if ci_eq (pe_ref x) ref then set_status ?s x else x) xs) =
      map_option (\<lambda>x. if ci_eq (pe_ref x) ref then set_status ?s x else x) (List.find (\<lambda>x. ci_eq (pe_ref x) ref) xs)" for xs
    by (induction xs) (auto simp: f)
  have "pg_get_project ref' db' = List.find (live ref') (map (\<lambda>x. if ci_eq (pe_ref x) ref then set_status ?s x else x) (cd_projects db))"
    by (simp add: pg_get_project_def ps upd_where_def)
  also have "\<dots> = map_option (\<lambda>x. if ci_eq (pe_ref x) ref then set_status ?s x else x)
      (List.find (\<lambda>x. ci_eq (pe_ref x) ref) (cd_projects db))"
    by (rule find_map_status)
  also have "List.find (\<lambda>x. ci_eq (pe_ref x) ref) (cd_projects db) = Some q"
    using hits_one[OF assms(1) q, of ?s] one_ref[OF assms(1)] get_project_SomeD[OF q]
    by (cases "List.find (\<lambda>x. ci_eq (pe_ref x) ref) (cd_projects db)")
       (auto simp: find_None_iff dest: find_SomeD)
  finally have g: "pg_get_project ref' db' = Some p" using get_project_SomeD[OF q] j(2) by simp
  have "filter unfinished (jobs_of (pe_id p) ?t db') = [?r]"
    using none j(2) by (simp add: jobs_of_def js)
  then show ?thesis using g by (simp add: request_lifecycle_eq newest_def j(1))
qed

text \<open>
  Where two requests do not collapse: a client chooses its own \<open>Idempotency-Key\<close>, which shares a
  namespace with the keys the store derives. A project created under the key
  \<open>delete_<id>\<close> makes every later deletion of the project with that id report the job of the other
  project as already requested, and do nothing; the key has the shape the create route accepts.
\<close>

theorem booked_key_blocks_deletion:
  assumes "pg_get_project ref db = Some victim"
    and "pg_create_project own_org pid jid np db = (Inr (p, j, False), db')"
    and "np_key np = delete_key (pe_id victim)" "is_uuid (pe_id victim)"
  shows "pg_request_delete jid' ref actor db' = (Inr (Accepted victim j True), db') \<and>
    aj_project j \<noteq> pe_id victim \<and> aj_kind j = ''provision_project'' \<and>
    valid_delivery_id (np_key np)"
proof (cases rule: create_project_cases[of own_org pid jid np db])
  case (2 actor' meta payload)
  let ?r = "new_job (cp_now db) jid pid ''provision_project'' (np_key np)"
  from 2(4) assms(2) have j: "j = job_from_db ?r" and
    db': "cd_projects db' = cd_projects db @ [created_project own_org pid np db]"
      "jd_rows (cd_jobs db') = jd_rows (cd_jobs db) @ [?r]" by auto
  have g: "pg_get_project ref db' = Some victim" using assms(1) by (simp add: pg_get_project_def db' find_append)
  have "by_idempotency_key (delete_key (pe_id victim)) (cd_jobs db) = None"
    using 2(3) assms(3) by (simp add: by_key_none)
  then have "by_idempotency_key (delete_key (pe_id victim)) (cd_jobs db') = Some ?r"
    using assms(3) by (simp add: by_idempotency_key_def db' find_append)
  moreover have "pid \<noteq> pe_id victim"
    using 2(1) get_project_SomeD[OF assms(1)] by (auto simp: insertable_def list_all_iff created_project_def)
  moreover have "valid_delivery_id (np_key np)"
    using uuid_key_valid[OF assms(4), of "''delete_''"] assms(3) by (simp add: delete_key_def delivery_char_def char_class_defs)
  ultimately show ?thesis using g by (simp add: request_delete_eq j job_from_db_def)
qed (use assms(2) in simp)

text \<open>
  A restore never overwrites: a request either changes nothing, or leaves every existing project
  as it was and appends one project of the same organization in state \<open>restoring\<close>, with a row that sets its
  deadline and a job of its own; and it never takes an organization past the ceiling it was given.
\<close>

theorem restore_is_a_copy_with_a_deadline:
  "case pg_request_restore to_iso pid jid ref target new_ref actor limit ttl db of (res, db') \<Rightarrow>
     db' = db \<and> (\<forall>p j s t. res \<noteq> Inr (Copying p j s t)) \<or>
     (\<exists>copy source r. res = Inr (Copying copy (job_from_db r) source (cp_now db + ttl * HOUR_MS)) \<and>
        pg_get_project ref db = Some source \<and> pe_status source \<in> {StReady, StPaused, StRestored} \<and>
        cd_projects db' = cd_projects db @ [copy] \<and> pe_status copy = StRestoring \<and> pe_org copy = pe_org source \<and>
        pe_id copy \<notin> pe_id ` set (cd_projects db) \<and> \<not> ci_eq (pe_ref copy) (pe_ref source) \<and>
        jd_rows (cd_jobs db') = jd_rows (cd_jobs db) @ [r] \<and> jb_project r = Some (pe_id copy) \<and>
        cd_restores db' = cd_restores db @ [\<lparr>re_project = pe_id copy, re_source = pe_id source,
          re_source_ref = pe_ref source, re_target = target, re_expires = Some (cp_now db + ttl * HOUR_MS),
          re_status = ''running''\<rparr>] \<and>
        (case limit of None \<Rightarrow> True | Some l \<Rightarrow> pg_count_in_org (pe_org source) db' \<le> l))"
proof -
  obtain res db' where e: "pg_request_restore to_iso pid jid ref target new_ref actor limit ttl db = (res, db')" by fastforce
  show ?thesis
  proof (cases "\<exists>p j s t. res = Inr (Copying p j s t)")
    case False
    then show ?thesis using e
      by (auto simp: pg_request_restore_def transaction_def and_then_def gets_def ret_def
          split: option.splits sum.splits prod.splits if_splits dest!: copy_result)
  next
    case True
    then obtain source where s: "pg_get_project ref db = Some source" "pe_status source \<in> {StReady, StPaused, StRestored}"
      "copy_project to_iso pid jid source target new_ref actor ttl db = (res, db')"
      "case limit of None \<Rightarrow> True | Some l \<Rightarrow> pg_count_in_org (pe_org source) db < l"
      using e by (auto simp: pg_request_restore_def transaction_def and_then_def gets_def ret_def
          split: option.splits sum.splits prod.splits if_splits)
    let ?p = "copied_project to_iso pid source target new_ref db"
    from True s(3) show ?thesis
    proof (cases rule: copy_project_cases[of to_iso pid jid source target new_ref actor ttl db])
      case (2 meta payload)
      have i: "pe_id ?p = pid" "pe_ref ?p = new_ref" "pe_org ?p = pe_org source" "pe_status ?p = StRestoring"
        by (simp_all add: copied_project_def)
      have src: "source \<in> set (cd_projects db)" using get_project_SomeD[OF s(1)] by simp
      have n: "pid \<notin> pe_id ` set (cd_projects db)" "\<not> ci_eq new_ref (pe_ref source)"
        using 2(1) src by (auto simp: insertable_def list_all_iff i ci_eq_def)
      have c: "pg_count_in_org (pe_org source) db' = pg_count_in_org (pe_org source) db + 1"
        using 2(4) s(3) by (auto simp: pg_count_in_org_def i)
      show ?thesis unfolding e prod.case
        by (rule disjI2, rule exI[of _ ?p], rule exI[of _ source],
            rule exI[of _ "new_job (cp_now db) jid pid ''restore_project'' (restore_key pid)"])
           (use 2(4) s n c i in \<open>auto simp: with_restore_def with_job_def with_audit_def with_project_def split: option.split\<close>)
    qed auto
  qed
qed

subsection \<open>The two stores\<close>

datatype store_call =
    CallCreate new_project string string \<comment> \<open>with the drawn ids of the project and the job\<close>
  | CallByKey string
  | CallGet string
  | CallDelete string string
  | CallMark string project_status
  | CallByName string "string option"

datatype store_answer =
    AnsCreated project_entry api_job bool
  | AnsProject "project_entry option"
  | AnsRequest request_outcome
  | AnsThrows

fun pg_call :: "store_call \<Rightarrow> cp_db \<Rightarrow> store_answer \<times> cp_db" where
  "pg_call (CallCreate np pid jid) db =
     (case pg_create_project MEMORY_ORG_ID pid jid np db of
        (Inl _, db') \<Rightarrow> (AnsThrows, db') | (Inr (p, j, b), db') \<Rightarrow> (AnsCreated p j b, db'))"
| "pg_call (CallByKey key) db = (AnsProject (pg_find_by_key key db), db)"
| "pg_call (CallGet ref) db = (AnsProject (pg_get_project ref db), db)"
| "pg_call (CallDelete jid ref) db =
     (case pg_request_delete jid ref None db of
        (Inl _, db') \<Rightarrow> (AnsThrows, db') | (Inr r, db') \<Rightarrow> (AnsRequest r, db'))"
| "pg_call (CallMark ref s) db =
     (case pg_mark_status ref s db of
        (Inl _, db') \<Rightarrow> (AnsThrows, db') | (Inr r, db') \<Rightarrow> (AnsProject r, db'))"
| "pg_call (CallByName name org) db = (AnsProject (pg_find_by_name name org db), db)"

fun mem_call :: "nat \<Rightarrow> store_call \<Rightarrow> mem_store \<Rightarrow> store_answer \<times> mem_store" where
  "mem_call now (CallCreate np pid jid) m =
     (case mem_create_project now pid jid np m of
        (None, m') \<Rightarrow> (AnsThrows, m') | (Some (p, j, b), m') \<Rightarrow> (AnsCreated p j b, m'))"
| "mem_call now (CallByKey key) m = (AnsProject (mem_find_by_key key m), m)"
| "mem_call now (CallGet ref) m = (AnsProject (mem_get ref m), m)"
| "mem_call now (CallDelete jid ref) m = (case mem_request_delete jid ref m of (r, m') \<Rightarrow> (AnsRequest r, m'))"
| "mem_call now (CallMark ref s) m = (case mem_mark_status ref s m of (r, m') \<Rightarrow> (AnsProject r, m'))"
| "mem_call now (CallByName name org) m = (AnsProject (mem_find_by_name name org m), m)"

fun pg_run :: "(nat \<times> store_call) list \<Rightarrow> cp_db \<Rightarrow> store_answer list" where
  \<comment> \<open>every call with the time it is made at\<close>
  "pg_run [] db = []"
| "pg_run ((now, c) # cs) db =
     (case pg_call c (db\<lparr>cd_jobs := (cd_jobs db)\<lparr>jd_now := now\<rparr>\<rparr>) of (a, db') \<Rightarrow> a # pg_run cs db')"

fun mem_run :: "(nat \<times> store_call) list \<Rightarrow> mem_store \<Rightarrow> store_answer list" where
  "mem_run [] m = []"
| "mem_run ((now, c) # cs) m = (case mem_call now c m of (a, m') \<Rightarrow> a # mem_run cs m')"

definition tame :: "store_call \<Rightarrow> cp_db \<Rightarrow> bool" where
  \<comment> \<open>fresh ids, refs and keys, the one organization, lower-case refs, no status that hides a project\<close>
  "tame c db = (case c of
     CallCreate np pid jid \<Rightarrow> insertable (created_project MEMORY_ORG_ID pid np db) db \<and> \<not> taken jid db \<and>
       \<not> has_key (np_key np) db \<and> (np_org np = None \<or> np_org np = Some MEMORY_ORG_ID) \<and>
       \<not> starts_with ''delete_'' (np_key np)
   | CallByKey key \<Rightarrow> \<not> starts_with ''delete_'' key
   | CallGet ref \<Rightarrow> js_lower ref = ref
   | CallDelete jid ref \<Rightarrow> js_lower ref = ref \<and> \<not> taken jid db
   | CallMark ref s \<Rightarrow> js_lower ref = ref \<and> s \<noteq> StSoftDeleted \<and> s \<noteq> StDeleted
   | CallByName name org \<Rightarrow> True)"

fun tame_run :: "(nat \<times> store_call) list \<Rightarrow> cp_db \<Rightarrow> bool" where
  "tame_run [] db = True"
| "tame_run ((now, c) # cs) db =
     (let db0 = db\<lparr>cd_jobs := (cd_jobs db)\<lparr>jd_now := now\<rparr>\<rparr> in tame c db0 \<and> tame_run cs (snd (pg_call c db0)))"

definition seen_ok :: "cp_db \<Rightarrow> mem_store \<Rightarrow> bool" where
  "seen_ok db m = (\<forall>k. \<not> starts_with ''delete_'' k \<longrightarrow>
     (case by_idempotency_key k (cd_jobs db) of
        None \<Rightarrow> map_of (me_seen m) k = None
      | Some j \<Rightarrow> (\<exists>p \<in> set (cd_projects db). jb_project j = Some (pe_id p) \<and> map_of (me_seen m) k = Some (pe_ref p))))"

definition plain :: "project_entry \<Rightarrow> bool" where
  "plain p = (js_lower (pe_ref p) = pe_ref p \<and> pe_deleted_at p = None \<and> pe_status p \<noteq> StSoftDeleted \<and> pe_status p \<noteq> StDeleted)"

definition similar :: "cp_db \<Rightarrow> mem_store \<Rightarrow> bool" where
  "similar db m = (me_projects m = cd_projects db \<and> me_jobs m = map job_from_db (jd_rows (cd_jobs db)) \<and>
     seen_ok db m \<and> list_all plain (cd_projects db) \<and>
     distinct (map pe_id (cd_projects db)) \<and> distinct (map pe_ref (cd_projects db)))"

lemma seen_none: "similar db m \<Longrightarrow> \<not> starts_with ''delete_'' k \<Longrightarrow> by_idempotency_key k (cd_jobs db) = None \<Longrightarrow>
    map_of (me_seen m) k = None"
  unfolding similar_def seen_ok_def by (elim conjE, drule spec[of _ k]) simp

lemma seen_some: "similar db m \<Longrightarrow> \<not> starts_with ''delete_'' k \<Longrightarrow> by_idempotency_key k (cd_jobs db) = Some j \<Longrightarrow>
    \<exists>p \<in> set (cd_projects db). jb_project j = Some (pe_id p) \<and> map_of (me_seen m) k = Some (pe_ref p)"
  unfolding similar_def seen_ok_def by (elim conjE, drule spec[of _ k]) simp

lemma seen_okI:
  assumes "\<And>k. \<not> starts_with ''delete_'' k \<Longrightarrow> by_idempotency_key k (cd_jobs db) = None \<Longrightarrow> map_of (me_seen m) k = None"
    and "\<And>k j. \<not> starts_with ''delete_'' k \<Longrightarrow> by_idempotency_key k (cd_jobs db) = Some j \<Longrightarrow>
      \<exists>p \<in> set (cd_projects db). jb_project j = Some (pe_id p) \<and> map_of (me_seen m) k = Some (pe_ref p)"
  shows "seen_ok db m"
  unfolding seen_ok_def using assms by (simp split: option.split)

lemma find_map: "List.find P (map f xs) = map_option f (List.find (\<lambda>x. P (f x)) xs)"
  by (induction xs) auto

lemma plain_live: "plain p \<Longrightarrow> js_lower ref = ref \<Longrightarrow> live ref p \<longleftrightarrow> pe_ref p = ref"
  by (auto simp: plain_def live_def ci_eq_def)

lemma find_cong: "(\<And>x. x \<in> set xs \<Longrightarrow> P x = Q x) \<Longrightarrow> List.find P xs = List.find Q xs"
  by (induction xs) auto

lemma similar_get: "similar db m \<Longrightarrow> js_lower ref = ref \<Longrightarrow> pg_get_project ref db = mem_get ref m"
  unfolding pg_get_project_def mem_get_def similar_def
  by (auto simp: list_all_iff plain_live intro!: find_cong)

lemma mem_set_status:
  assumes "similar db m" "mem_get ref m = Some p" "js_lower ref = ref"
  shows "mem_set (set_status s p) (me_projects m) = upd_where (\<lambda>q. ci_eq (pe_ref q) ref) (set_status s) (cd_projects db)"
    "upd_where (live ref) (set_status s) (cd_projects db) = upd_where (\<lambda>q. ci_eq (pe_ref q) ref) (set_status s) (cd_projects db)"
    "filter (\<lambda>q. ci_eq (pe_ref q) ref) (cd_projects db) = [p]" "filter (live ref) (cd_projects db) = [p]"
proof -
  have p: "p \<in> set (cd_projects db)" "pe_ref p = ref"
    using assms(1,2) by (auto simp: mem_get_def similar_def dest: find_SomeD)
  have pl: "plain q" if "q \<in> set (cd_projects db)" for q using assms(1) that by (auto simp: similar_def list_all_iff)
  have one: "ci_eq (pe_ref q) ref \<longleftrightarrow> q = p" "live ref q \<longleftrightarrow> q = p" "pe_ref q = ref \<longleftrightarrow> q = p" if "q \<in> set (cd_projects db)" for q
    using assms(1,3) p pl[OF that] that unique_key[of pe_ref "cd_projects db" q p]
    by (auto simp: similar_def plain_def ci_eq_def live_def)
  have d: "distinct (cd_projects db)" using assms(1) by (auto simp: similar_def distinct_map)
  show "filter (\<lambda>q. ci_eq (pe_ref q) ref) (cd_projects db) = [p]" "filter (live ref) (cd_projects db) = [p]"
    using one d p by (auto intro: filter_one)
  show "upd_where (live ref) (set_status s) (cd_projects db) = upd_where (\<lambda>q. ci_eq (pe_ref q) ref) (set_status s) (cd_projects db)"
    using one by (auto simp: upd_where_def)
  show "mem_set (set_status s p) (me_projects m) = upd_where (\<lambda>q. ci_eq (pe_ref q) ref) (set_status s) (cd_projects db)"
    using assms(1) one p(1) by (auto simp: mem_set_def upd_where_def similar_def list_ex_iff p(2))
qed

lemma similar_status:
  assumes "similar db m" "mem_get ref m = Some p" "js_lower ref = ref" "s \<noteq> StSoftDeleted" "s \<noteq> StDeleted"
  shows "similar (with_status ref s db) (m\<lparr>me_projects := mem_set (set_status s p) (me_projects m)\<rparr>)"
proof -
  define f where "f q = (if ci_eq (pe_ref q) ref then set_status s q else q)" for q
  have f: "pe_id (f q) = pe_id q" "pe_ref (f q) = pe_ref q" "plain q \<Longrightarrow> plain (f q)" for q
    using assms(4,5) by (auto simp: f_def plain_def)
  have ps: "cd_projects (with_status ref s db) = map f (cd_projects db)"
    by (simp add: upd_where_def f_def)
  have "seen_ok (with_status ref s db) (m\<lparr>me_projects := mem_set (set_status s p) (me_projects m)\<rparr>)"
    using seen_none[OF assms(1)] seen_some[OF assms(1)] unfolding ps
    by (intro seen_okI) (auto simp: ps f simp del: with_simps(5))
  moreover have "mem_set (set_status s p) (me_projects m) = map f (cd_projects db)"
    using mem_set_status(1)[OF assms(1-3), of s] by (simp add: upd_where_def f_def)
  ultimately show ?thesis using assms(1) f by (auto simp: similar_def ps list_all_iff comp_def simp del: with_simps(5))
qed

lemma ref_shape_lower: "ref_shape r \<Longrightarrow> js_lower r = r"
proof -
  assume "ref_shape r"
  then have "is_lower c \<or> is_digit c" if "c \<in> set r" for c using that by (auto simp: ref_shape_def list_all_iff)
  then have "lower_char c = c" if "c \<in> set r" for c using that by (fastforce simp: lower_char_def Let_def char_class_defs)
  then show ?thesis by (simp add: js_lower_def map_idI)
qed

lemma similar_call:
  assumes "similar db m" "tame c db" "pg_call c db = (a, db')" "mem_call (cp_now db) c m = (a', m')"
  shows "a = a' \<and> similar db' m'"
proof (cases c)
  case (CallByKey key)
  have "pg_find_by_key key db = mem_find_by_key key m"
  proof (cases "by_idempotency_key key (cd_jobs db)")
    case None
    then have "map_of (me_seen m) key = None"
      using seen_none[OF assms(1)] assms(2) CallByKey by (simp add: tame_def)
    then show ?thesis using None by (simp add: pg_find_by_key_def mem_find_by_key_def)
  next
    case (Some j)
    then obtain p where p: "p \<in> set (cd_projects db)" "jb_project j = Some (pe_id p)" "map_of (me_seen m) key = Some (pe_ref p)"
      using seen_some[OF assms(1) _ Some] assms(2) CallByKey by (auto simp: tame_def)
    have "List.find (\<lambda>q. pe_id q = pe_id p) (cd_projects db) = Some p" "List.find (\<lambda>q. pe_ref q = pe_ref p) (cd_projects db) = Some p"
      using assms(1) p(1) by (auto simp: similar_def intro: find_key)
    then show ?thesis using Some p assms(1)
      by (simp add: pg_find_by_key_def mem_find_by_key_def mem_get_def similar_def eq_commute[of "pe_id p"])
  qed
  then show ?thesis using assms CallByKey by auto
next
  case (CallGet ref)
  then show ?thesis using assms by (auto simp: similar_get tame_def)
next
  case (CallByName name org)
  have "pg_find_by_name name org db = mem_find_by_name name org m"
    using assms(1) unfolding pg_find_by_name_def mem_find_by_name_def
    by (auto simp: similar_def list_all_iff plain_def split: option.split intro!: find_cong)
  then show ?thesis using assms CallByName by auto
next
  case (CallMark ref s)
  have t: "js_lower ref = ref" "s \<noteq> StSoftDeleted" "s \<noteq> StDeleted" using assms(2) CallMark by (auto simp: tame_def)
  show ?thesis
  proof (cases "mem_get ref m")
    case None
    then have "filter (live ref) (cd_projects db) = []"
      using similar_get[OF assms(1) t(1)] by (auto simp: pg_get_project_def find_None_iff filter_empty_conv)
    then have "upd_where (live ref) (set_status s) (cd_projects db) = cd_projects db"
      by (intro upd_where_none) (auto simp: filter_empty_conv)
    then show ?thesis using assms CallMark None \<open>filter _ _ = []\<close>
      by (auto simp: pg_mark_status_def mem_mark_status_def update_projects_def and_then_def ret_def Let_def)
  next
    case (Some p)
    note m = mem_set_status(1,2)[OF assms(1) Some t(1), of s] mem_set_status(3,4)[OF assms(1) Some t(1)]
    have "plain p" using assms(1) Some by (auto simp: mem_get_def similar_def list_all_iff dest: find_SomeD)
    then have "deletion_check (set_status s p)" using t by (auto simp: deletion_check_def plain_def)
    then have "pg_mark_status ref s db = (Inr (Some (set_status s p)), with_status ref s db)"
      using m by (simp add: pg_mark_status_def update_projects_def and_then_def ret_def Let_def with_status_def)
    then show ?thesis using assms CallMark Some similar_status[OF assms(1) Some t]
      by (auto simp: mem_mark_status_def)
  qed
next
  case (CallDelete jid ref)
  have t: "js_lower ref = ref" "\<not> taken jid db" using assms(2) CallDelete by (auto simp: tame_def)
  have g: "pg_get_project ref db = mem_get ref m" by (rule similar_get[OF assms(1) t(1)])
  show ?thesis
  proof (cases "mem_get ref m")
    case None
    then show ?thesis using assms CallDelete g by (auto simp: request_delete_eq mem_request_delete_def)
  next
    case (Some p)
    let ?k = "delete_key (pe_id p)"
    have f: "List.find (\<lambda>j. aj_key j = ?k) (me_jobs m) = map_option job_from_db (by_idempotency_key ?k (cd_jobs db))"
      using assms(1) by (simp add: similar_def find_map by_idempotency_key_def job_from_db_def)
    show ?thesis
    proof (cases "by_idempotency_key ?k (cd_jobs db)")
      case j: (Some j)
      then show ?thesis using assms CallDelete g Some f by (auto simp: request_delete_eq mem_request_delete_def)
    next
      case None
      let ?r = "new_job (cp_now db) jid (pe_id p) ''delete_project'' ?k"
      have h: "hits ref StDeleting db = [set_status StDeleting p]"
        using mem_set_status(3)[OF assms(1) Some t(1)] by (simp add: hits_def)
      have s: "similar (with_status ref StDeleting db) (m\<lparr>me_projects := mem_set (set_status StDeleting p) (me_projects m)\<rparr>)"
        using similar_status[OF assms(1) Some t(1)] by simp
      have key: "by_idempotency_key k (cd_jobs (with_job ?r pl x)) = by_idempotency_key k (cd_jobs x)"
        if "\<not> starts_with ''delete_'' k" for k pl x
        using that by (auto simp: by_idempotency_key_def find_append delete_key_def split: option.split)
      have "similar (with_audit ac acn ref p me (with_job ?r pl (with_status ref StDeleting db)))
          (m\<lparr>me_projects := mem_set (set_status StDeleting p) (me_projects m), me_jobs := me_jobs m @ [job_from_db ?r]\<rparr>)"
        for ac acn me pl
      proof -
        have k: "by_idempotency_key k (cd_jobs (with_audit ac acn ref p me (with_job ?r pl (with_status ref StDeleting db)))) =
            by_idempotency_key k (cd_jobs (with_status ref StDeleting db))" if "\<not> starts_with ''delete_'' k" for k
          using key[OF that, of pl "with_status ref StDeleting db"] by simp
        have "seen_ok (with_audit ac acn ref p me (with_job ?r pl (with_status ref StDeleting db)))
            (m\<lparr>me_projects := mem_set (set_status StDeleting p) (me_projects m), me_jobs := me_jobs m @ [job_from_db ?r]\<rparr>)"
          using seen_none[OF s] seen_some[OF s] by (intro seen_okI) (simp_all add: k del: with_simps(6,9,10))
        then show ?thesis using s by (simp add: similar_def)
      qed
      moreover have "job_from_db ?r = \<lparr>aj_id = jid, aj_kind = ''delete_project'', aj_project = pe_id p, aj_key = ?k, aj_state = JobQueued\<rparr>"
        by (simp add: job_from_db_def)
      ultimately show ?thesis using assms(3,4) CallDelete g Some None f h t
        by (auto simp: request_delete_eq mem_request_delete_def Let_def)
    qed
  qed
next
  case (CallCreate np pid jid)
  let ?p = "created_project MEMORY_ORG_ID pid np db"
  let ?r = "new_job (cp_now db) jid pid ''provision_project'' (np_key np)"
  have t: "insertable ?p db" "\<not> taken jid db" "\<not> has_key (np_key np) db" "\<not> starts_with ''delete_'' (np_key np)"
    and o: "pe_org ?p = MEMORY_ORG_ID"
    using assms(2) CallCreate by (auto simp: tame_def created_project_def org_of_def)
  have p: "?p = \<lparr>pe_id = pid, pe_ref = np_ref np, pe_name = np_name np, pe_org = MEMORY_ORG_ID,
      pe_region = np_region np, pe_plan = np_plan np, pe_environment = ''production'',
      pe_status = StCreating, pe_created = cp_now db, pe_deleted_at = None, pe_purge_after = None\<rparr>"
    using o by (simp add: created_project_def fresh_project_def)
  have new: "pid \<notin> pe_id ` set (cd_projects db)" "np_ref np \<notin> pe_ref ` set (cd_projects db)"
    using t(1) by (auto simp: insertable_def list_all_iff p ci_eq_def)
  have low: "plain ?p" using t(1) ref_shape_lower by (simp add: plain_def insertable_def p)
  have none: "by_idempotency_key (np_key np) (cd_jobs db) = None" using t(3) by (simp add: by_key_none)
  then have unseen: "map_of (me_seen m) (np_key np) = None"
    using seen_none[OF assms(1) t(4)] by simp
  have key: "by_idempotency_key k (cd_jobs db\<lparr>jd_rows := jd_rows (cd_jobs db) @ [?r]\<rparr>) =
      (if k = np_key np then Some ?r else by_idempotency_key k (cd_jobs db))" for k
    using none by (auto simp: by_idempotency_key_def find_append split: option.split)
  have j: "job_from_db ?r = \<lparr>aj_id = jid, aj_kind = ''provision_project'', aj_project = pid, aj_key = np_key np, aj_state = JobQueued\<rparr>"
    by (simp add: job_from_db_def)
  let ?m = "\<lparr>me_projects = me_projects m @ [?p], me_jobs = me_jobs m @ [job_from_db ?r], me_seen = (np_key np, np_ref np) # me_seen m\<rparr>"
  have mem: "mem_create_project (cp_now db) pid jid np m = (Some (?p, job_from_db ?r, False), ?m)"
  proof -
    have "\<not> list_ex (\<lambda>q. pe_ref q = np_ref np) (cd_projects db)" using new(2) by (auto simp: list_ex_iff image_iff)
    then show ?thesis using unseen assms(1) by (simp add: mem_create_project_def j p Let_def mem_set_def similar_def)
  qed
  have "seen_ok (with_audit ac acn rf ?p me (with_job ?r pl (with_project ?p db))) ?m" for ac acn rf me pl
  proof (rule seen_okI)
    fix k assume "\<not> starts_with ''delete_'' k"
      "by_idempotency_key k (cd_jobs (with_audit ac acn rf ?p me (with_job ?r pl (with_project ?p db)))) = None"
    then show "map_of (me_seen ?m) k = None"
      using seen_none[OF assms(1), of k] by (auto simp: key split: if_splits)
  next
    fix k j assume "\<not> starts_with ''delete_'' k"
      "by_idempotency_key k (cd_jobs (with_audit ac acn rf ?p me (with_job ?r pl (with_project ?p db)))) = Some j"
    then show "\<exists>q \<in> set (cd_projects (with_audit ac acn rf ?p me (with_job ?r pl (with_project ?p db)))).
        jb_project j = Some (pe_id q) \<and> map_of (me_seen ?m) k = Some (pe_ref q)"
      using seen_some[OF assms(1), of k j] by (auto simp: key p split: if_splits)
  qed
  then have s: "similar (with_audit ac acn rf ?p me (with_job ?r pl (with_project ?p db))) ?m" for ac acn rf me pl
    using assms(1) low new by (auto simp: similar_def p)
  show ?thesis
  proof (cases rule: create_project_cases[of MEMORY_ORG_ID pid jid np db])
    case (1 e)
    then show ?thesis using t by simp
  next
    case (2 actor meta payload)
    then show ?thesis using assms(3,4) CallCreate mem s by auto
  qed
qed


subsection \<open>Concrete stores\<close>

definition empty_store :: cp_db where
  "empty_store = \<lparr>cd_projects = [], cd_jobs = \<lparr>jd_rows = [], jd_now = 0\<rparr>, cd_payloads = [], cd_restores = [],
     cd_databases = [], cd_keys = [], cd_audit = []\<rparr>"

definition empty_mem :: mem_store where
  "empty_mem = \<lparr>me_projects = [], me_jobs = [], me_seen = []\<rparr>"

definition sample_new :: new_project where
  "sample_new = \<lparr>np_ref = ''aaaaaaaaaaaaaaaaaaaa'', np_name = ''shop'', np_region = ''eu-central'', np_plan = ''free'',
     np_key = ''first-try'', np_request = None, np_actor = None, np_org = None\<rparr>"

definition sample_pid :: string where "sample_pid = ''55555555-5555-4555-8555-555555555555''"

definition sample_store :: cp_db where
  \<comment> \<open>one running project\<close>
  "sample_store = empty_store\<lparr>cd_projects :=
     [fresh_project 0 sample_pid ''aaaaaaaaaaaaaaaaaaaa'' ''shop'' MEMORY_ORG_ID ''eu-central'' ''free'' StReady]\<rparr>"

lemma sample_store_ok: "store_ok sample_store"
  by (simp add: store_ok_def sample_store_def empty_store_def deletion_check_def backed_def keys_ok_def)

lemma sample_pid_uuid: "is_uuid sample_pid"
  by (simp add: sample_pid_def is_uuid_def is_hex_def lower_char_def is_digit_def unit_of_def Let_def eval_nat_numeral)


theorem second_request_joins_the_first_witness:
  "\<exists>p j db'. pg_request_lifecycle ''job-1'' ''aaaaaaaaaaaaaaaaaaaa'' Pause None sample_store = (Inr (Accepted p j False), db') \<and>
     pg_request_lifecycle ''job-2'' ''AAAAAAAAAAAAAAAAAAAA'' Pause None db' = (Inr (Accepted p j True), db')"
proof -
  obtain r db' where e: "pg_request_lifecycle ''job-1'' ''aaaaaaaaaaaaaaaaaaaa'' Pause None sample_store = (r, db')" by fastforce
  have "case fst (pg_request_lifecycle ''job-1'' ''aaaaaaaaaaaaaaaaaaaa'' Pause None sample_store) of
      Inr (Accepted p j b) \<Rightarrow> \<not> b | _ \<Rightarrow> False" by code_simp
  then obtain p j where r: "r = Inr (Accepted p j False)" using e by (auto split: sum.splits request_outcome.splits)
  have c: "ci_eq ''AAAAAAAAAAAAAAAAAAAA'' ''aaaaaaaaaaaaaaaaaaaa''" by code_simp
  show ?thesis
    using e second_request_joins_the_first[OF sample_store_ok e[unfolded r] c, of "''job-2''" None] unfolding r by blast
qed

theorem booked_key_blocks_deletion_witness:
  "\<exists>victim p j db'. pg_create_project MEMORY_ORG_ID ''p2'' ''job-1''
       (sample_new\<lparr>np_ref := ''bbbbbbbbbbbbbbbbbbbb'', np_key := delete_key sample_pid\<rparr>) sample_store = (Inr (p, j, False), db') \<and>
     pg_request_delete ''job-2'' ''aaaaaaaaaaaaaaaaaaaa'' None db' = (Inr (Accepted victim j True), db') \<and>
     pe_id victim = sample_pid \<and> aj_project j \<noteq> sample_pid"
proof -
  let ?np = "sample_new\<lparr>np_ref := ''bbbbbbbbbbbbbbbbbbbb'', np_key := delete_key sample_pid\<rparr>"
  obtain r db' where e: "pg_create_project MEMORY_ORG_ID ''p2'' ''job-1'' ?np sample_store = (r, db')" by fastforce
  have "case fst (pg_create_project MEMORY_ORG_ID ''p2'' ''job-1'' ?np sample_store) of
      Inr (p, j, b) \<Rightarrow> \<not> b | _ \<Rightarrow> False" by code_simp
  then obtain p j where r: "r = Inr (p, j, False)" using e by (auto split: sum.splits)
  let ?v = "fresh_project 0 sample_pid ''aaaaaaaaaaaaaaaaaaaa'' ''shop'' MEMORY_ORG_ID ''eu-central'' ''free'' StReady"
  have v: "pg_get_project ''aaaaaaaaaaaaaaaaaaaa'' sample_store = Some ?v" by code_simp
  have "pg_request_delete ''job-2'' ''aaaaaaaaaaaaaaaaaaaa'' None db' = (Inr (Accepted ?v j True), db') \<and> aj_project j \<noteq> pe_id ?v"
    using booked_key_blocks_deletion[OF v e[unfolded r], of "''job-2''" None] sample_pid_uuid by simp
  then show ?thesis using e unfolding r by (intro exI[of _ ?v] exI) auto
qed

end
