(* ===== verification/ControlPlane.thy ===== *)
theory ControlPlane
  imports ProjectStore
begin

text \<open>
  The routes of \<open>services/api/src/modules/control-plane/routes.ts\<close> that create, reveal or change a
  project, with \<open>serialize.ts\<close>, \<open>kernel/ref.ts\<close> and the detail query of \<open>store.pg.ts\<close>, on the store of
  theory \<open>ProjectStore\<close>, the organizations of theory \<open>Orgs\<close> and the queue of theory \<open>Jobs\<close>.

  A request carries the result of \<open>resolvePrincipal\<close> (theory \<open>Sessions\<close>), its headers and its address. A refusal has
  its status and code, and its sentence where the source gives a fixed one, the empty string where
  it is composed from the request. The secret store is a parameter.
\<close>

subsection \<open>Refs\<close>

definition REF_LETTERS :: string where
  "REF_LETTERS = ''abcdefghijklmnopqrstuvwxyz''"

definition REF_ALPHABET :: string where
  "REF_ALPHABET = ''abcdefghijklmnopqrstuvwxyz234567''"

definition generate_project_ref :: "nat list \<Rightarrow> string" where
  \<comment> \<open>the parameter is \<open>randomBytes(20)\<close>\<close>
  "generate_project_ref bytes =
     (REF_LETTERS ! (bytes ! 0 mod length REF_LETTERS)) #
     map (\<lambda>i. REF_ALPHABET ! (bytes ! i mod length REF_ALPHABET)) [1..<20]"

definition project_ref_shape :: "string \<Rightarrow> bool" where
  \<comment> \<open>\<open>ProjectRef\<close>: \<open>/^[a-z][a-z2-7]{19}$/\<close>\<close>
  "project_ref_shape r = (length r = 20 \<and> is_lower (hd r) \<and>
     list_all (\<lambda>c. is_lower c \<or> 50 \<le> unit_of c \<and> unit_of c \<le> 55) (tl r))"

subsection \<open>The world of a request\<close>

datatype refusal = Refusal api_error string

record 'q cp_world =
  cw_orgs :: org_db
  cw_db :: cp_db
  cw_queue :: 'q

type_synonym ('q, 'a) route = "('q cp_world, refusal, 'a) eff"

record 'q cp_deps =
  dp_limit :: nat \<comment> \<open>\<open>projectsPerOrgLimit\<close>\<close>
  dp_static :: "string option"
  dp_actor :: "string option"
  dp_orgs :: bool
  dp_principals :: bool
  dp_enqueue :: bool
  dp_recovery :: bool
  dp_secrets :: "(string \<Rightarrow> string \<Rightarrow> string option) option"
  dp_pool :: bool
  dp_queue :: "'q queue_ops"
  dp_own_org :: string
  dp_iso :: "nat \<Rightarrow> string"

record cp_request =
  cq_principal :: "refusal + string option"
  cq_authorization :: "string option"
  cq_key :: "string option"
  cq_ip :: "string option"
  cq_id :: string

definition missing :: refusal where
  \<comment> \<open>\<open>ApiError.notFound('Project')\<close>\<close>
  "missing = Refusal not_found ''Project does not exist.''"

definition no_membership :: refusal where
  "no_membership = Refusal (ApiError 404 PROJECT_NOT_FOUND) ''No such organization, or you are not a member of it.''"

definition refused_credentials :: refusal where
  "refused_credentials = Refusal unauthorized ''Missing or invalid credentials.''"

definition broken :: refusal where
  \<comment> \<open>what the error handler makes of anything that is not an \<open>ApiError\<close>\<close>
  "broken = Refusal (ApiError 500 INTERNAL) []"

definition on_db :: "'a cp \<Rightarrow> ('q, 'a) route" where
  "on_db m w = (case m (cw_db w) of
     (Inl _, db) \<Rightarrow> (Inl broken, w\<lparr>cw_db := db\<rparr>)
   | (Inr a, db) \<Rightarrow> (Inr a, w\<lparr>cw_db := db\<rparr>))"

definition require_auth :: "'q cp_deps \<Rightarrow> cp_request \<Rightarrow> ('q, unit) route" where
  "require_auth deps rq =
     (if dp_principals deps then (case cq_principal rq of Inl e \<Rightarrow> throw e | Inr _ \<Rightarrow> ret ())
      else (case dp_static deps of
              None \<Rightarrow> throw refused_credentials
            | Some t \<Rightarrow> guard (t \<noteq> [] \<and> cq_authorization rq = Some (''Bearer '' @ t)) refused_credentials))"

definition scope :: "'q cp_deps \<Rightarrow> cp_request \<Rightarrow> string option \<Rightarrow> ('q, (string \<times> role \<times> string) option) route" where
  \<comment> \<open>the organization, the role in it and the user, or \<open>None\<close> where scoping is off\<close>
  "scope deps rq raw =
     (if \<not> dp_orgs deps \<or> \<not> dp_principals deps then ret None
      else case cq_principal rq of
        Inl e \<Rightarrow> throw e
      | Inr None \<Rightarrow> throw (Refusal (ApiError 403 UNAUTHORIZED)
          ''This endpoint acts within an organization and the static token is not a user.'')
      | Inr (Some user) \<Rightarrow>
          and_then
            (case raw of
               Some (c # r) \<Rightarrow>
                 (case decodeId OrganizationId (c # r) of
                    Inl _ \<Rightarrow> throw (Refusal validation []) | Inr i \<Rightarrow> ret i)
             | _ \<Rightarrow>
                 and_then (gets (list_for_user user \<circ> cw_orgs)) (\<lambda>orgs.
                   case orgs of
                     [] \<Rightarrow> throw (Refusal (ApiError 403 UNAUTHORIZED)
                       ''You do not belong to an organization yet. Create one with POST /v1/orgs.'')
                   | [(og, _)] \<Rightarrow> ret (og_id og)
                   | _ \<Rightarrow> throw (Refusal validation ''You belong to more than one organization; name it with org_id.'')))
          (\<lambda>org.
          and_then (gets (role_of user org \<circ> cw_orgs)) (\<lambda>r.
            case r of None \<Rightarrow> throw no_membership | Some role \<Rightarrow> ret (Some (org, role, user)))))"

definition require_capability :: "role \<Rightarrow> capability \<Rightarrow> ('q, unit) route" where
  "require_capability role c =
     (case require_cap (Some role) c of Inl e \<Rightarrow> throw (Refusal e []) | Inr _ \<Rightarrow> ret ())"

definition actor_for :: "'q cp_deps \<Rightarrow> cp_request \<Rightarrow> request_actor" where
  "actor_for deps rq =
     (case dp_actor deps of
        Some u \<Rightarrow> if u = [] then \<lparr>ra_type = ''system'', ra_user = None, ra_ip = cq_ip rq, ra_request = Some (cq_id rq)\<rparr>
          else \<lparr>ra_type = ''user'', ra_user = Some u, ra_ip = cq_ip rq, ra_request = Some (cq_id rq)\<rparr>
      | None \<Rightarrow> \<lparr>ra_type = ''system'', ra_user = None, ra_ip = cq_ip rq, ra_request = Some (cq_id rq)\<rparr>)"

definition user_actor :: "cp_request \<Rightarrow> string \<Rightarrow> request_actor" where
  "user_actor rq u = \<lparr>ra_type = ''user'', ra_user = Some u, ra_ip = cq_ip rq, ra_request = Some (cq_id rq)\<rparr>"

definition encoded :: "id_kind \<Rightarrow> string \<Rightarrow> ('q, string) route" where
  \<comment> \<open>an \<open>InvalidIdError\<close> of \<open>encodeId\<close> is not an \<open>ApiError\<close>\<close>
  "encoded kind i = (case encodeId kind i of Inl _ \<Rightarrow> throw broken | Inr s \<Rightarrow> ret s)"

definition authorize :: "'q cp_deps \<Rightarrow> cp_request \<Rightarrow> capability \<Rightarrow> string \<Rightarrow> ('q, request_actor) route" where
  \<comment> \<open>the block that every route on an existing project opens with: the actor to record\<close>
  "authorize deps rq c ref =
     (if dp_orgs deps \<and> dp_principals deps then
        and_then (gets (pg_get_project ref \<circ> cw_db)) (\<lambda>found. case found of
          None \<Rightarrow> throw missing
        | Some p \<Rightarrow>
            and_then (encoded OrganizationId (pe_org p)) (\<lambda>org.
            and_then (scope deps rq (Some org)) (\<lambda>s. case s of
              None \<Rightarrow> ret (actor_for deps rq)
            | Some (_, role, user) \<Rightarrow>
                and_then (require_capability role c) (\<lambda>_. ret (user_actor rq user)))))
      else ret (actor_for deps rq))"

definition deliver :: "'q cp_deps \<Rightarrow> string \<Rightarrow> ('q, unit) route" where
  \<comment> \<open>\<open>deps.enqueue\<close> inside its \<open>try\<close>: whatever it throws is logged and dropped\<close>
  "deliver deps key w =
     (Inr (), if dp_enqueue deps then w\<lparr>cw_queue := snd (enqueue_provisioning (dp_queue deps) key (cw_queue w))\<rparr> else w)"

definition deliver_again :: "'q cp_deps \<Rightarrow> string \<Rightarrow> nat \<Rightarrow> ('q, unit) route" where
  "deliver_again deps key attempt w =
     (Inr (), if dp_recovery deps then w\<lparr>cw_queue := snd (enqueue_recovery (dp_queue deps) key attempt (cw_queue w))\<rparr> else w)"

subsection \<open>Responses\<close>

record project_view =
  pv_id :: string
  pv_ref :: string
  pv_name :: string
  pv_org :: string
  pv_region :: string
  pv_plan :: string
  pv_environment :: string
  pv_status :: string
  pv_created :: nat
  pv_restorable_until :: "nat option"
  pv_deleted_at :: "nat option"

definition serialize_project :: "project_entry \<Rightarrow> ('q, project_view) route" where
  "serialize_project p =
     and_then (encoded ProjectId (pe_id p)) (\<lambda>i.
     and_then (encoded OrganizationId (pe_org p)) (\<lambda>org.
     ret \<lparr>pv_id = i, pv_ref = pe_ref p, pv_name = pe_name p, pv_org = org, pv_region = pe_region p,
       pv_plan = pe_plan p, pv_environment = pe_environment p, pv_status = status_text (pe_status p),
       pv_created = pe_created p, pv_restorable_until = pe_purge_after p, pv_deleted_at = pe_deleted_at p\<rparr>))"

fun api_state_text :: "api_state \<Rightarrow> string" where
  "api_state_text JobQueued = ''queued''"
| "api_state_text JobRunning = ''running''"
| "api_state_text JobDone = ''done''"
| "api_state_text JobFailed = ''failed''"

record job_view =
  jv_id :: string
  jv_type :: string
  jv_state :: string

definition job_response :: "api_job \<Rightarrow> string \<Rightarrow> ('q, job_view) route" where
  "job_response j st = and_then (encoded JobId (aj_id j)) (\<lambda>i. ret \<lparr>jv_id = i, jv_type = aj_kind j, jv_state = st\<rparr>)"

record database_info =
  di_host :: string
  di_port :: nat
  di_pooler_port :: nat
  di_version :: string
  di_strings :: "(string \<times> string) option" \<comment> \<open>direct and pooled\<close>

datatype key_view = KeyView key_kind string nat "string option"

datatype cp_response =
    ProjectIs project_view
  | JobAccepted nat project_view job_view
  | RotationAccepted project_view job_view bool
  | RetryAccepted project_view job_view nat
  | RestoreAccepted project_view job_view string "nat option" nat
  | DetailIs project_view "database_info option" "(string \<times> nat option \<times> nat option) option"
  | KeysAre "key_view list"

subsection \<open>Creating\<close>

record create_body =
  cb_name :: "string option"
  cb_region :: "string option"
  cb_plan :: "string option"
  cb_org :: "string option"

definition project_name_ok :: "string \<Rightarrow> bool" where
  \<comment> \<open>\<open>/^[a-z0-9][a-z0-9-]*[a-z0-9]$/\<close>, at most 63 characters\<close>
  "project_name_ok n = (2 \<le> length n \<and> length n \<le> 63 \<and> list_all slug_char n \<and> hd n \<noteq> CHR ''-'' \<and> last n \<noteq> CHR ''-'')"

definition parse_create :: "create_body \<Rightarrow> (string \<times> string \<times> string) option" where
  \<comment> \<open>\<open>CreateProjectRequest.safeParse\<close>: the name, the region and the plan\<close>
  "parse_create body =
     (case cb_name body of
        None \<Rightarrow> None
      | Some n \<Rightarrow>
          (let region = (case cb_region body of None \<Rightarrow> ''eu-central'' | Some r \<Rightarrow> r);
               plan = (case cb_plan body of None \<Rightarrow> ''free'' | Some p \<Rightarrow> p) in
           if project_name_ok n \<and> region = ''eu-central'' \<and> plan \<in> {''free'', ''pro'', ''team''}
           then Some (n, region, plan) else None))"

definition create_and_deliver :: "'q cp_deps \<Rightarrow> cp_request \<Rightarrow> string \<Rightarrow> string \<Rightarrow> nat list \<Rightarrow> string
    \<Rightarrow> string \<Rightarrow> string \<Rightarrow> string \<Rightarrow> (string \<times> role \<times> string) option \<Rightarrow> ('q, cp_response) route" where
  \<comment> \<open>the end of the handler below: the row, the delivery and the response\<close>
  "create_and_deliver deps rq pid jid bytes key name region plan s =
     and_then (on_db (pg_create_project (dp_own_org deps) pid jid
       \<lparr>np_ref = generate_project_ref bytes, np_name = name, np_region = region, np_plan = plan, np_key = key,
         np_request = Some (cq_id rq),
         np_actor = Some (case s of None \<Rightarrow> actor_for deps rq | Some (_, _, user) \<Rightarrow> user_actor rq user),
         np_org = map_option fst s\<rparr>)) (\<lambda>(p, j, replayed).
     and_then (deliver deps (aj_key j)) (\<lambda>_.
     and_then (serialize_project p) (\<lambda>v.
     and_then (job_response j (api_state_text (aj_state j))) (\<lambda>jv.
     ret (JobAccepted (if replayed then 200 else 202) v jv)))))"

definition create_project_route :: "'q cp_deps \<Rightarrow> cp_request \<Rightarrow> string \<Rightarrow> string \<Rightarrow> nat list \<Rightarrow> create_body
    \<Rightarrow> ('q, cp_response) route" where
  \<comment> \<open>\<open>POST /v1/projects\<close>; the drawn ids and bytes are the third to fifth parameters\<close>
  "create_project_route deps rq pid jid bytes body =
     and_then (require_auth deps rq) (\<lambda>_.
     let key = (case cq_key rq of None \<Rightarrow> [] | Some k \<Rightarrow> k) in
     and_then (guard (8 \<le> length key) (Refusal (ApiError 400 IDEMPOTENCY_KEY_REQUIRED)
       ''Provide an Idempotency-Key header (min 8 chars) so retries cannot create duplicate projects.'')) (\<lambda>_.
     and_then (guard (valid_delivery_id key) (Refusal (ApiError 400 IDEMPOTENCY_KEY_REQUIRED) [])) (\<lambda>_.
     and_then (gets (pg_find_by_key key \<circ> cw_db)) (\<lambda>replay. case replay of
       Some p \<Rightarrow> and_then (serialize_project p) (\<lambda>v. ret (ProjectIs v))
     | None \<Rightarrow>
         (case parse_create body of
            None \<Rightarrow> throw (Refusal validation [])
          | Some (name, region, plan) \<Rightarrow>
              and_then (scope deps rq (cb_org body)) (\<lambda>s.
              and_then (case s of
                  None \<Rightarrow> ret ()
                | Some (org, role, _) \<Rightarrow>
                    and_then (require_capability role ProjectCreate) (\<lambda>_.
                    and_then (gets (pg_count_in_org org \<circ> cw_db)) (\<lambda>n.
                    guard (n < dp_limit deps) (Refusal (ApiError 409 VALIDATION_FAILED) [])))) (\<lambda>_.
              and_then (gets (pg_find_by_name name (map_option fst s) \<circ> cw_db)) (\<lambda>existing.
              and_then (guard (existing = None) (Refusal (ApiError 409 PROJECT_NAME_TAKEN) [])) (\<lambda>_.
              create_and_deliver deps rq pid jid bytes key name region plan s)))))))))"

subsection \<open>Requests on a project\<close>

definition answer_accepted :: "'q cp_deps \<Rightarrow> request_outcome \<Rightarrow> ('q, project_view \<times> job_view) route" where
  \<comment> \<open>the end that pause, resume, rotate and delete share: refusals, delivery and response\<close>
  "answer_accepted deps r =
     (case r of
        Accepted p j already \<Rightarrow>
          and_then (if already then ret () else deliver deps (aj_key j)) (\<lambda>_.
          and_then (serialize_project p) (\<lambda>v.
          and_then (job_response j (api_state_text (aj_state j))) (\<lambda>jv. ret (v, jv))))
      | Conflict _ _ \<Rightarrow> throw (Refusal (ApiError 409 VALIDATION_FAILED) [])
      | Refused _ \<Rightarrow> throw (Refusal (ApiError 409 VALIDATION_FAILED) [])
      | _ \<Rightarrow> throw missing)"

definition lifecycle_route :: "'q cp_deps \<Rightarrow> cp_request \<Rightarrow> string \<Rightarrow> lifecycle \<Rightarrow> string \<Rightarrow> ('q, cp_response) route" where
  "lifecycle_route deps rq jid kind ref =
     and_then (require_auth deps rq) (\<lambda>_.
     and_then (authorize deps rq ProjectLifecycle ref) (\<lambda>actor.
     and_then (on_db (pg_request_lifecycle jid ref kind (Some actor))) (\<lambda>r.
     and_then (answer_accepted deps r) (\<lambda>(v, jv). ret (JobAccepted 202 v jv)))))"

definition rotate_route :: "'q cp_deps \<Rightarrow> cp_request \<Rightarrow> string \<Rightarrow> bool option \<Rightarrow> string \<Rightarrow> ('q, cp_response) route" where
  \<comment> \<open>\<open>terminate\<close> is absent or a boolean; \<open>effect\<close> says which\<close>
  "rotate_route deps rq jid terminate ref =
     and_then (require_auth deps rq) (\<lambda>_.
     and_then (authorize deps rq SecretManage ref) (\<lambda>actor.
     and_then (on_db (pg_request_rotation jid ref (terminate = Some True) (Some actor))) (\<lambda>r.
     and_then (answer_accepted deps r) (\<lambda>(v, jv). ret (RotationAccepted v jv (terminate = Some True))))))"

definition delete_project_route :: "'q cp_deps \<Rightarrow> cp_request \<Rightarrow> string \<Rightarrow> string \<Rightarrow> ('q, cp_response) route" where
  "delete_project_route deps rq jid ref =
     and_then (require_auth deps rq) (\<lambda>_.
     and_then (authorize deps rq ProjectDelete ref) (\<lambda>actor.
     and_then (on_db (pg_request_delete jid ref (Some actor))) (\<lambda>r.
     and_then (answer_accepted deps r) (\<lambda>(v, jv). ret (JobAccepted 202 v jv)))))"

definition retry_route :: "'q cp_deps \<Rightarrow> cp_request \<Rightarrow> string \<Rightarrow> ('q, cp_response) route" where
  "retry_route deps rq ref =
     and_then (require_auth deps rq) (\<lambda>_.
     and_then (authorize deps rq ProjectLifecycle ref) (\<lambda>actor.
     and_then (on_db (pg_request_retry ref (Some actor))) (\<lambda>r. case r of
       Retrying p j n \<Rightarrow>
         and_then (deliver_again deps (aj_key j) n) (\<lambda>_.
         and_then (serialize_project p) (\<lambda>v.
         and_then (job_response j ''pending'') (\<lambda>jv. ret (RetryAccepted v jv n))))
     | Conflict _ _ \<Rightarrow> throw (Refusal (ApiError 409 VALIDATION_FAILED) [])
     | Refused m \<Rightarrow> throw (Refusal (ApiError 409 VALIDATION_FAILED) m)
     | _ \<Rightarrow> throw missing)))"

definition PITR_WINDOW_DAYS :: "string \<Rightarrow> nat" where
  "PITR_WINDOW_DAYS plan =
     (if plan = ''pro'' then 30 else if plan = ''team'' \<or> plan = ''enterprise'' then 90 else 7)"

definition DAY_MS :: nat where "DAY_MS = 86400000"

definition restore_ttl_hours :: "int option \<Rightarrow> nat" where
  \<comment> \<open>\<open>RESTORE_TTL_HOURS\<close> of \<open>Math.floor(Number(SH_RESTORE_TTL_HOURS))\<close>; \<open>None\<close> is \<open>NaN\<close>\<close>
  "restore_ttl_hours v = nat (min 168 (max 1 (case v of None \<Rightarrow> 48 | Some n \<Rightarrow> if n = 0 then 48 else n)))"

datatype target_field =
    NoTarget \<comment> \<open>absent or null\<close>
  | BadTarget \<comment> \<open>not a string, or not a timestamp\<close>
  | TargetAt nat \<comment> \<open>milliseconds\<close>

definition read_target :: "string \<Rightarrow> target_field \<Rightarrow> ('q, nat option) route" where
  "read_target plan field =
     (case field of
        NoTarget \<Rightarrow> ret None
      | BadTarget \<Rightarrow> throw (Refusal validation [])
      | TargetAt t \<Rightarrow>
          and_then (gets (cp_now \<circ> cw_db)) (\<lambda>now.
          and_then (guard (t \<le> now + 60000) (Refusal validation
            ''target_time is in the future. Omit it to restore the latest data.'')) (\<lambda>_.
          and_then (guard (now \<le> t + PITR_WINDOW_DAYS plan * DAY_MS) (Refusal validation [])) (\<lambda>_.
          ret (Some t)))))"

definition restore_route :: "'q cp_deps \<Rightarrow> cp_request \<Rightarrow> nat \<Rightarrow> string \<Rightarrow> string \<Rightarrow> nat list \<Rightarrow> target_field \<Rightarrow> string
    \<Rightarrow> ('q, cp_response) route" where
  "restore_route deps rq ttl_hours pid jid bytes field ref =
     and_then (require_auth deps rq) (\<lambda>_.
     and_then (gets (pg_get_project ref \<circ> cw_db)) (\<lambda>found. case found of
       None \<Rightarrow> throw missing
     | Some project \<Rightarrow>
         and_then (authorize deps rq ProjectLifecycle ref) (\<lambda>actor.
         and_then (read_target (pe_plan project) field) (\<lambda>target.
         and_then (on_db (pg_request_restore (dp_iso deps) pid jid ref target (generate_project_ref bytes)
           (Some actor) (Some (dp_limit deps)) ttl_hours)) (\<lambda>r. case r of
           Copying copy j _ expires \<Rightarrow>
             and_then (deliver deps (aj_key j)) (\<lambda>_.
             and_then (serialize_project copy) (\<lambda>v.
             and_then (job_response j (api_state_text (aj_state j))) (\<lambda>jv.
             ret (RestoreAccepted v jv ref target expires))))
         | Conflict _ _ \<Rightarrow> throw (Refusal (ApiError 409 VALIDATION_FAILED) [])
         | Refused m \<Rightarrow> throw (Refusal (ApiError 409 VALIDATION_FAILED) m)
         | _ \<Rightarrow> throw missing)))))"

subsection \<open>Reading credentials\<close>

definition hex_digit :: "nat \<Rightarrow> char" where
  "hex_digit n = ''0123456789ABCDEF'' ! n"

definition percent_byte :: "nat \<Rightarrow> string" where
  "percent_byte n = [CHR ''%'', hex_digit (n div 16), hex_digit (n mod 16)]"

definition unreserved :: "char \<Rightarrow> bool" where
  "unreserved c = (is_alnum c \<or> c \<in> set ''-_.!~*()'' \<or> unit_of c = 39)"

definition encode_component :: "string \<Rightarrow> string" where
  \<comment> \<open>\<open>encodeURIComponent\<close>: UTF-8, percent-encoded\<close>
  "encode_component s = concat (map (\<lambda>c.
     if unreserved c then [c]
     else if unit_of c < 128 then percent_byte (unit_of c)
     else percent_byte (192 + unit_of c div 64) @ percent_byte (128 + unit_of c mod 64)) s)"

definition connection_strings :: "string \<Rightarrow> string \<Rightarrow> nat \<Rightarrow> nat \<Rightarrow> string \<times> string" where
  "connection_strings password host port pooler_port =
     (let start = ''postgres://developer:'' @ encode_component password @ ''@'' @ host @ '':'' in
      (start @ string_of_nat port @ ''/postgres'', start @ string_of_nat pooler_port @ ''/postgres''))"

definition pg_project_detail :: "(string \<Rightarrow> string \<Rightarrow> string option) option \<Rightarrow> string \<Rightarrow> cp_db
    \<Rightarrow> (project_entry \<times> database_info option \<times> (string \<times> nat option \<times> nat option) option) option" where
  \<comment> \<open>\<open>getProjectDetail\<close> of the PostgreSQL store\<close>
  "pg_project_detail secrets ref db =
     (case pg_get_project ref db of
        None \<Rightarrow> None
      | Some p \<Rightarrow>
          (let restore = (if pe_status p \<in> {StRestoring, StRestored}
                 then map_option (\<lambda>r. (re_source_ref r, re_target r, re_expires r))
                   (List.find (\<lambda>r. re_project r = pe_id p) (cd_restores db))
                 else None);
               database = (case List.find (\<lambda>d. de_project d = pe_id p) (cd_databases db) of
                   None \<Rightarrow> None
                 | Some d \<Rightarrow>
                     (case de_host d of
                        None \<Rightarrow> None
                      | Some host \<Rightarrow>
                          if host = [] then None
                          else Some \<lparr>di_host = host, di_port = de_port d, di_pooler_port = de_pooler_port d,
                            di_version = de_version d,
                            di_strings = (case secrets of
                              None \<Rightarrow> None
                            | Some get \<Rightarrow>
                                (case get (pe_id p) ''DEVELOPER_PASSWORD'' of
                                   None \<Rightarrow> None
                                 | Some pw \<Rightarrow> if pw = [] then None
                                     else Some (connection_strings pw host (de_port d) (de_pooler_port d))))\<rparr>))
           in Some (p, database, restore)))"

definition recently_revealed :: "string option \<Rightarrow> string \<Rightarrow> cp_db \<Rightarrow> bool" where
  "recently_revealed user project db =
     list_ex (\<lambda>a. ae_action a = ''project.credentials_revealed'' \<and> ae_project a = project \<and>
       ra_user (ae_actor a) = user \<and> cp_now db < ae_at a + HOUR_MS) (cd_audit db)"

definition record_credential_reveal :: "request_actor \<Rightarrow> string \<Rightarrow> string \<Rightarrow> string \<Rightarrow> unit cp" where
  "record_credential_reveal actor org project ref =
     and_then (gets (recently_revealed (ra_user actor) project)) (\<lambda>seen.
       if seen then ret ()
       else record_audit actor ''project.credentials_revealed'' ''project'' ref org project
         [(''deduplicated_window'', ''1 hour'')])"

definition detail_route :: "'q cp_deps \<Rightarrow> cp_request \<Rightarrow> bool \<Rightarrow> string \<Rightarrow> ('q, cp_response) route" where
  \<comment> \<open>\<open>GET /v1/projects/:ref\<close>\<close>
  "detail_route deps rq reveal ref =
     and_then (require_auth deps rq) (\<lambda>_.
     and_then (gets (pg_project_detail (dp_secrets deps) ref \<circ> cw_db)) (\<lambda>found. case found of
       None \<Rightarrow> throw missing
     | Some (p, database, restore) \<Rightarrow>
         and_then (authorize deps rq ProjectRead ref) (\<lambda>actor.
         and_then (case database of
             None \<Rightarrow> ret ()
           | Some d \<Rightarrow>
               if reveal \<and> di_strings d \<noteq> None \<and> dp_pool deps
               then on_db (record_credential_reveal actor (pe_org p) (pe_id p) ref) else ret ()) (\<lambda>_.
         and_then (serialize_project p) (\<lambda>v.
         ret (DetailIs v (map_option (\<lambda>d. if reveal then d else d\<lparr>di_strings := None\<rparr>) database) restore))))))"

definition key_secret :: "key_kind \<Rightarrow> string" where
  "key_secret k = (case k of AnonKey \<Rightarrow> ''ANON_KEY'' | ServiceRoleKey \<Rightarrow> ''SERVICE_ROLE_KEY'')"

fun key_entries :: "'q cp_deps \<Rightarrow> request_actor \<Rightarrow> role option \<Rightarrow> bool \<Rightarrow> project_entry \<Rightarrow> api_key_entry list
    \<Rightarrow> ('q, key_view list) route" where
  "key_entries deps actor role reveal p [] = ret []"
| "key_entries deps actor role reveal p (k # ks) =
     and_then
       (case dp_secrets deps of
          None \<Rightarrow> ret None
        | Some get \<Rightarrow>
            if ke_kind k = AnonKey then ret (get (pe_id p) (key_secret AnonKey))
            else if reveal then
              and_then (case role of None \<Rightarrow> ret () | Some r \<Rightarrow> require_capability r KeyManage) (\<lambda>_.
              and_then (if dp_pool deps
                then on_db (record_audit actor ''key.revealed'' ''project_api_key'' (ke_id k) (pe_org p) (pe_id p)
                  [(''kind'', ''service_role''), (''key_prefix'', ke_prefix k)])
                else ret ()) (\<lambda>_.
              ret (get (pe_id p) (key_secret ServiceRoleKey))))
            else ret None) (\<lambda>secret.
     and_then (key_entries deps actor role reveal p ks) (\<lambda>rest.
     ret (KeyView (ke_kind k) (ke_prefix k) (ke_created k) secret # rest)))"

definition principal_actor :: "'q cp_deps \<Rightarrow> cp_request \<Rightarrow> request_actor" where
  \<comment> \<open>\<open>actorOf\<close> of \<open>kernel/principal.ts\<close> where principals are configured\<close>
  "principal_actor deps rq =
     (if dp_principals deps then
        (case cq_principal rq of
           Inr (Some u) \<Rightarrow> user_actor rq u
         | _ \<Rightarrow> \<lparr>ra_type = ''system'', ra_user = None, ra_ip = cq_ip rq, ra_request = Some (cq_id rq)\<rparr>)
      else actor_for deps rq)"

definition keys_route :: "'q cp_deps \<Rightarrow> cp_request \<Rightarrow> bool \<Rightarrow> string \<Rightarrow> ('q, cp_response) route" where
  \<comment> \<open>\<open>GET /v1/projects/:ref/keys\<close>\<close>
  "keys_route deps rq reveal ref =
     and_then (require_auth deps rq) (\<lambda>_.
     and_then (gets (pg_get_project ref \<circ> cw_db)) (\<lambda>found. case found of
       None \<Rightarrow> throw missing
     | Some p \<Rightarrow>
         and_then (if dp_orgs deps \<and> dp_principals deps
           then and_then (encoded OrganizationId (pe_org p)) (\<lambda>org. scope deps rq (Some org)) else ret None) (\<lambda>s.
         and_then (case s of None \<Rightarrow> ret None
             | Some (_, role, _) \<Rightarrow> and_then (require_capability role ProjectRead) (\<lambda>_. ret (Some role))) (\<lambda>role.
         and_then (gets (pg_list_api_keys (pe_id p) \<circ> cw_db)) (\<lambda>rows.
         and_then (key_entries deps (principal_actor deps rq) role reveal p rows) (\<lambda>keys.
         ret (KeysAre keys)))))))"

subsection \<open>The routes together\<close>

datatype cp_call =
    CreateReq string string "nat list" create_body
  | LifecycleReq string lifecycle string
  | RotateReq string "bool option" string
  | DeleteReq string string
  | RetryReq string
  | RestoreReq nat string string "nat list" target_field string
  | DetailReq bool string
  | KeysReq bool string

fun cp_handle :: "'q cp_deps \<Rightarrow> cp_request \<Rightarrow> cp_call \<Rightarrow> ('q, cp_response) route" where
  "cp_handle deps rq (CreateReq pid jid bytes body) = create_project_route deps rq pid jid bytes body"
| "cp_handle deps rq (LifecycleReq jid kind ref) = lifecycle_route deps rq jid kind ref"
| "cp_handle deps rq (RotateReq jid terminate ref) = rotate_route deps rq jid terminate ref"
| "cp_handle deps rq (DeleteReq jid ref) = delete_project_route deps rq jid ref"
| "cp_handle deps rq (RetryReq ref) = retry_route deps rq ref"
| "cp_handle deps rq (RestoreReq ttl pid jid bytes field ref) = restore_route deps rq ttl pid jid bytes field ref"
| "cp_handle deps rq (DetailReq reveal ref) = detail_route deps rq reveal ref"
| "cp_handle deps rq (KeysReq reveal ref) = keys_route deps rq reveal ref"

fun needed :: "cp_call \<Rightarrow> capability" where
  "needed (CreateReq _ _ _ _) = ProjectCreate"
| "needed (LifecycleReq _ _ _) = ProjectLifecycle"
| "needed (RotateReq _ _ _) = SecretManage"
| "needed (DeleteReq _ _) = ProjectDelete"
| "needed (RetryReq _) = ProjectLifecycle"
| "needed (RestoreReq _ _ _ _ _ _) = ProjectLifecycle"
| "needed (DetailReq _ _) = ProjectRead"
| "needed (KeysReq _ _) = KeyManage"

fun target_ref :: "cp_call \<Rightarrow> string option" where
  "target_ref (CreateReq _ _ _ _) = None"
| "target_ref (LifecycleReq _ _ ref) = Some ref"
| "target_ref (RotateReq _ _ ref) = Some ref"
| "target_ref (DeleteReq _ ref) = Some ref"
| "target_ref (RetryReq ref) = Some ref"
| "target_ref (RestoreReq _ _ _ _ _ ref) = Some ref"
| "target_ref (DetailReq _ ref) = Some ref"
| "target_ref (KeysReq _ ref) = Some ref"

subsection \<open>Facts on the steps of a route\<close>

lemma and_then_eqE:
  assumes "and_then m f w = (r, w')"
  obtains e where "m w = (Inl e, w')" "r = Inl e" | a w1 where "m w = (Inr a, w1)" "f a w1 = (r, w')"
  using assms by (auto simp: and_then_def split: prod.splits sum.splits)

lemma basic_eqs [simp]:
  "ret a w = (r, w') \<longleftrightarrow> r = Inr a \<and> w' = w" "throw e w = (r', w') \<longleftrightarrow> r' = Inl e \<and> w' = w"
  "gets g w = (r'', w') \<longleftrightarrow> r'' = Inr (g w) \<and> w' = w"
  "guard c e w = (Inr u, w') \<longleftrightarrow> c \<and> w' = w" "guard c e w = (Inl e', w') \<longleftrightarrow> \<not> c \<and> e = e' \<and> w' = w"
  by (auto simp: eff_defs)

lemma read_only_scope [intro!]: "read_only (scope deps rq raw)"
  unfolding scope_def by (auto split: option.split sum.split list.split prod.split)

lemma read_only_capability [intro!]: "read_only (require_capability role c)"
  unfolding require_capability_def by (auto split: sum.split)

lemma read_only_encoded [intro!]: "read_only (encoded kind i)"
  unfolding encoded_def by (auto split: sum.split)

lemma read_only_authorize [intro!]: "read_only (authorize deps rq c ref)"
  unfolding authorize_def by (auto split: option.split prod.split)

lemma read_only_auth [intro!]: "read_only (require_auth deps rq)"
  unfolding require_auth_def by (auto split: option.split sum.split)

lemma read_only_views [intro!]: "read_only (serialize_project p)" "read_only (job_response j st)"
  unfolding serialize_project_def job_response_def by auto

lemma read_only_parse_target [intro!]: "read_only (read_target plan field)"
  unfolding read_target_def by (auto split: target_field.split)

lemma read_only_state: "read_only m \<Longrightarrow> m w = (r, w') \<Longrightarrow> w' = w"
  by (metis read_only_def snd_conv)

lemma read_only_eq: "read_only m \<Longrightarrow> m w = (r, w') \<longleftrightarrow> w' = w \<and> fst (m w) = r"
  by (cases "m w") (auto simp: read_only_def dest: spec[of _ w])

lemmas ro_eqs = read_only_eq[OF read_only_scope] read_only_eq[OF read_only_capability] read_only_eq[OF read_only_encoded]
  read_only_eq[OF read_only_authorize] read_only_eq[OF read_only_auth] read_only_eq[OF read_only_views(1)]
  read_only_eq[OF read_only_views(2)] read_only_eq[OF read_only_parse_target]

lemma scope_Some:
  assumes "scope deps rq raw w = (Inr (Some (org, role, user)), w')"
  shows "cq_principal rq = Inr (Some user) \<and> role_of user org (cw_orgs w) = Some role \<and>
    (\<forall>s. raw = Some s \<and> s \<noteq> [] \<longrightarrow> decodeId OrganizationId s = Inr org)"
  using assms
  by (auto simp: scope_def eff_defs split: if_splits sum.splits option.splits list.splits prod.splits)

lemma scope_None: "dp_orgs deps \<Longrightarrow> dp_principals deps \<Longrightarrow> scope deps rq raw w \<noteq> (Inr None, w')"
  by (auto simp: scope_def eff_defs split: if_splits sum.splits option.splits list.splits prod.splits)

lemma decode_encode: "encodeId kind i = Inr s \<Longrightarrow> decodeId kind s = Inr (js_lower i) \<and> s \<noteq> []"
  using decode_encoded[of "js_lower i" kind kind] by (auto simp: encodeId_def split: if_splits)

lemma require_capabilityD: "require_capability role c w = (Inr u, w') \<Longrightarrow> can role c"
  by (auto simp: require_capability_def require_cap_def split: sum.splits if_splits)

lemma require_capability_fst: "fst (require_capability role c w) = Inr u \<longleftrightarrow> can role c"
  by (simp add: require_capability_def require_cap_def eff_defs split: sum.splits)

definition member_of_project :: "cp_request \<Rightarrow> capability \<Rightarrow> string \<Rightarrow> 'q cp_world \<Rightarrow> string \<Rightarrow> bool" where
  "member_of_project rq c ref w user =
     (cq_principal rq = Inr (Some user) \<and>
      (\<exists>p role. pg_get_project ref (cw_db w) = Some p \<and> role_of user (js_lower (pe_org p)) (cw_orgs w) = Some role \<and> can role c))"

lemma authorizeD:
  assumes "authorize deps rq c ref w = (Inr actor, w')" "dp_orgs deps" "dp_principals deps"
  obtains user where "member_of_project rq c ref w user" "actor = user_actor rq user" "w' = w"
proof -
  have w: "w' = w" by (rule read_only_state[OF read_only_authorize assms(1)])
  from assms obtain p where p: "pg_get_project ref (cw_db w) = Some p"
    and rest: "and_then (encoded OrganizationId (pe_org p)) (\<lambda>org.
            and_then (scope deps rq (Some org)) (\<lambda>s. case s of
              None \<Rightarrow> ret (actor_for deps rq)
            | Some (_, role, user) \<Rightarrow>
                and_then (require_capability role c) (\<lambda>_. ret (user_actor rq user)))) w = (Inr actor, w')"
    by (auto simp: authorize_def elim!: and_then_eqE split: option.splits)
  from rest obtain org where o: "encodeId OrganizationId (pe_org p) = Inr org"
    and s: "and_then (scope deps rq (Some org)) (\<lambda>s. case s of
              None \<Rightarrow> ret (actor_for deps rq)
            | Some (_, role, user) \<Rightarrow>
                and_then (require_capability role c) (\<lambda>_. ret (user_actor rq user))) w = (Inr actor, w')"
    by (auto simp: encoded_def elim!: and_then_eqE split: sum.splits)
  from s obtain x w1 where x: "scope deps rq (Some org) w = (Inr x, w1)"
    "(case x of None \<Rightarrow> ret (actor_for deps rq)
            | Some (_, role, user) \<Rightarrow> and_then (require_capability role c) (\<lambda>_. ret (user_actor rq user))) w1 = (Inr actor, w')"
    by (auto elim!: and_then_eqE)
  obtain i role user where x3: "x = Some (i, role, user)"
    using scope_None[OF assms(2,3)] x(1) by (cases x) auto
  have c: "can role c" "actor = user_actor rq user"
    using x(2) unfolding x3 by (auto elim!: and_then_eqE dest: require_capabilityD)
  from scope_Some[OF x(1)[unfolded x3]] decode_encode[OF o] have "member_of_project rq c ref w user"
    using p c(1) by (auto simp: member_of_project_def)
  then show ?thesis using that c w by blast
qed

definition keeps_orgs :: "('q, 'a) route \<Rightarrow> bool" where
  "keeps_orgs m = (\<forall>w. cw_orgs (snd (m w)) = cw_orgs w)"

lemma keeps_orgs_read_only [intro]: "read_only m \<Longrightarrow> keeps_orgs m"
  by (simp add: keeps_orgs_def read_only_def)

lemma keeps_orgs_ro [intro!]:
  "keeps_orgs (ret a)" "keeps_orgs (throw e)" "keeps_orgs (gets g)" "keeps_orgs (guard b e)"
  "keeps_orgs (scope deps rq raw)" "keeps_orgs (require_capability role c)" "keeps_orgs (encoded kind i)"
  "keeps_orgs (authorize deps rq c ref)" "keeps_orgs (require_auth deps rq)" "keeps_orgs (serialize_project p)"
  "keeps_orgs (job_response j st)" "keeps_orgs (read_target plan field)"
  by (rule keeps_orgs_read_only, blast)+

lemma keeps_orgs_and_then [intro!]: "keeps_orgs m \<Longrightarrow> (\<And>a. keeps_orgs (f a)) \<Longrightarrow> keeps_orgs (and_then m f)"
  by (auto simp: keeps_orgs_def and_then_def split: prod.splits sum.splits) (metis snd_conv)+

lemma keeps_orgs_basic [intro!]:
  "keeps_orgs (on_db q)" "keeps_orgs (deliver deps key)" "keeps_orgs (deliver_again deps key n)"
  by (auto simp: keeps_orgs_def on_db_def deliver_def deliver_again_def split: prod.splits sum.splits)

lemma keeps_orgs_answer [intro!]: "keeps_orgs (answer_accepted deps r)"
  unfolding answer_accepted_def by (auto split: request_outcome.split)

lemma keeps_orgs_keys [intro!]: "keeps_orgs (key_entries deps actor role reveal p ks)"
  by (induction ks) (auto split: option.split)

lemma keeps_orgs_handle: "keeps_orgs (cp_handle deps rq c)"
  by (cases c)
     (auto simp: create_project_route_def create_and_deliver_def lifecycle_route_def rotate_route_def delete_project_route_def retry_route_def
      restore_route_def detail_route_def keys_route_def Let_def split: option.split prod.split request_outcome.split)

lemma authorized_change:
  assumes "and_then (authorize deps rq c ref) k w = (res, w')" "w' \<noteq> w" "dp_orgs deps" "dp_principals deps"
  shows "\<exists>user. member_of_project rq c ref w user"
  using assms(1)
proof (cases rule: and_then_eqE)
  case (1 e)
  then show ?thesis using read_only_state[OF read_only_authorize 1(1)] assms(2) by simp
next
  case (2 actor w1)
  then show ?thesis using authorizeD[OF 2(1) assms(3,4)] by metis
qed

lemma auth_then:
  assumes "and_then (require_auth deps rq) k w = (res, w')" "w' \<noteq> w"
  shows "k () w = (res, w')"
  using assms by (auto elim!: and_then_eqE dest: read_only_state[OF read_only_auth])

lemma gets_then: "and_then (gets g) k w = k (g w) w"
  by (simp add: and_then_def gets_def)

lemma key_entries_change:
  assumes "key_entries deps actor role reveal p ks w = (res, w')" "w' \<noteq> w"
  shows "role = None \<or> (\<exists>r. role = Some r \<and> can r KeyManage)"
  using assms
proof (induction ks arbitrary: res w w')
  case (Cons k ks)
  from Cons.prems(1)[unfolded key_entries.simps] show ?case
  proof (cases rule: and_then_eqE)
    case (1 e)
    then show ?thesis using Cons.prems(2)
      by (auto split: option.splits if_splits elim!: and_then_eqE dest: read_only_state[OF read_only_capability] require_capabilityD)
  next
    case (2 a w1)
    show ?thesis
    proof (cases "w1 = w")
      case True
      with 2(2) Cons.prems(2) obtain x w2 where "key_entries deps actor role reveal p ks w = (x, w2)" "w2 \<noteq> w"
        by (auto elim!: and_then_eqE)
      then show ?thesis using Cons.IH by blast
    next
      case False
      then show ?thesis using 2(1)
        by (auto split: option.splits if_splits elim!: and_then_eqE dest: read_only_state[OF read_only_capability] require_capabilityD)
    qed
  qed
qed simp

lemma on_db_error: "on_db (transaction m) w = (Inl e, w') \<Longrightarrow> w' = w"
  by (auto simp: on_db_def split: prod.splits sum.splits dest: transaction_Inl)

lemma create_change:
  assumes "create_project_route deps rq pid jid bytes body w = (res, w')" "w' \<noteq> w" "dp_orgs deps" "dp_principals deps"
  shows "\<exists>user org role. cq_principal rq = Inr (Some user) \<and> role_of user org (cw_orgs w) = Some role \<and> can role ProjectCreate \<and>
    (\<forall>p \<in> set (cd_projects (cw_db w')) - set (cd_projects (cw_db w)). pe_org p = org)"
proof -
  from auth_then[OF assms(1)[unfolded create_project_route_def] assms(2)] assms(2) obtain name region plan key s where
    s: "fst (scope deps rq (cb_org body) w) = Inr s" and
    h: "and_then (case s of
                  None \<Rightarrow> ret ()
                | Some (org, role, _) \<Rightarrow>
                    and_then (require_capability role ProjectCreate) (\<lambda>_.
                    and_then (gets (pg_count_in_org org \<circ> cw_db)) (\<lambda>n.
                    guard (n < dp_limit deps) (Refusal (ApiError 409 VALIDATION_FAILED) [])))) (\<lambda>_.
              and_then (gets (pg_find_by_name name (map_option fst s) \<circ> cw_db)) (\<lambda>existing.
              and_then (guard (existing = None) (Refusal (ApiError 409 PROJECT_NAME_TAKEN) [])) (\<lambda>_.
              create_and_deliver deps rq pid jid bytes key name region plan s))) w = (res, w')"
    by (auto simp: Let_def ro_eqs elim!: and_then_eqE[of "require_auth _ _"] and_then_eqE[of "guard _ _"] and_then_eqE[of "gets _"]
      and_then_eqE[of "serialize_project _"] and_then_eqE[of "scope _ _ _"] split: option.splits)
  have s': "scope deps rq (cb_org body) w = (Inr s, w)" using s by (simp add: ro_eqs)
  obtain org role user where s3: "s = Some (org, role, user)"
    using scope_None[OF assms(3,4)] s' by (cases s) auto
  from h assms(2) have c: "can role ProjectCreate" and
    m: "create_and_deliver deps rq pid jid bytes key name region plan s w = (res, w')"
    unfolding s3 by (auto simp: ro_eqs require_capability_fst elim!: and_then_eqE)
  let ?np = "\<lparr>np_ref = generate_project_ref bytes, np_name = name, np_region = region, np_plan = plan, np_key = key,
                  np_request = Some (cq_id rq), np_actor = Some (user_actor rq user), np_org = Some org\<rparr>"
  from m[unfolded create_and_deliver_def s3] assms(2) obtain p j b w2 where
    o: "on_db (pg_create_project (dp_own_org deps) pid jid ?np) w = (Inr (p, j, b), w2)" and d: "cw_db w' = cw_db w2"
    by (auto elim!: and_then_eqE dest: on_db_error[of _ w, folded pg_create_project_def] simp: pg_create_project_def on_db_error deliver_def ro_eqs)
  have "\<forall>q \<in> set (cd_projects (cw_db w2)) - set (cd_projects (cw_db w)). pe_org q = org"
    using o by (cases rule: create_project_cases[of "dp_own_org deps" pid jid ?np "cw_db w"])
      (auto simp: on_db_def created_project_def org_of_def)
  then show ?thesis using scope_Some[OF s'[unfolded s3]] c d by auto
qed

text \<open>
  C28. Where organizations are configured, nothing changes without the role: whatever the request, if the
  database or the queue is not as before, the caller is a user who is a member of the organization of
  the project named, or of the one every project created belongs to, with a role that has the capability of the
  route; creating needs \<open>project.create\<close>, pausing, resuming, retrying and restoring \<open>project.lifecycle\<close>,
  rotating \<open>secret.manage\<close>, deleting \<open>project.delete\<close>, taking connection strings \<open>project.read\<close> and
  taking the service key \<open>key.manage\<close>.
\<close>

theorem changes_need_the_role:
  assumes "cp_handle deps rq c w = (res, w')" "w' \<noteq> w" "dp_orgs deps" "dp_principals deps"
  shows "cw_orgs w' = cw_orgs w \<and>
    (\<exists>user. cq_principal rq = Inr (Some user) \<and>
      (case target_ref c of
         Some ref \<Rightarrow> member_of_project rq (needed c) ref w user
       | None \<Rightarrow> (\<exists>org role. role_of user org (cw_orgs w) = Some role \<and> can role ProjectCreate \<and>
           (\<forall>p \<in> set (cd_projects (cw_db w')) - set (cd_projects (cw_db w)). pe_org p = org))))"
proof
  show "cw_orgs w' = cw_orgs w" using keeps_orgs_handle[of deps rq c] assms(1) by (metis keeps_orgs_def snd_conv)
  have *: "\<exists>user. member_of_project rq (needed c) ref w user" if "target_ref c = Some ref" for ref
  proof (cases c)
    case (RestoreReq ttl pid jid bytes field ref')
    then show ?thesis
      using auth_then[OF assms(1)[unfolded RestoreReq cp_handle.simps restore_route_def] assms(2)] that assms(2-)
      by (auto simp: gets_then split: option.splits dest: authorized_change)
  next
    case (DetailReq reveal ref')
    then show ?thesis
      using auth_then[OF assms(1)[unfolded DetailReq cp_handle.simps detail_route_def] assms(2)] that assms(2-)
      by (auto simp: gets_then split: option.splits prod.splits dest: authorized_change)
  next
    case (KeysReq reveal ref')
    then have r: "ref' = ref" using that by simp
    from auth_then[OF assms(1)[unfolded KeysReq cp_handle.simps keys_route_def] assms(2)] assms(2-4)
    obtain p where p: "pg_get_project ref (cw_db w) = Some p" and
      h: "and_then (and_then (encoded OrganizationId (pe_org p)) (\<lambda>org. scope deps rq (Some org))) (\<lambda>s.
         and_then (case s of None \<Rightarrow> ret None
             | Some (_, role, _) \<Rightarrow> and_then (require_capability role ProjectRead) (\<lambda>_. ret (Some role))) (\<lambda>role.
         and_then (gets (pg_list_api_keys (pe_id p) \<circ> cw_db)) (\<lambda>rows.
         and_then (key_entries deps (principal_actor deps rq) role reveal p rows) (\<lambda>keys.
         ret (KeysAre keys))))) w = (res, w')"
      unfolding r by (auto simp: gets_then split: option.splits)
    from h assms(2) obtain org x w1 where x: "encodeId OrganizationId (pe_org p) = Inr org" "scope deps rq (Some org) w = (Inr x, w1)"
      by (auto simp: encoded_def ro_eqs elim!: and_then_eqE split: sum.splits)
    have w1: "w1 = w" by (rule read_only_state[OF read_only_scope x(2)])
    obtain i role user where x3: "x = Some (i, role, user)" using scope_None[OF assms(3,4)] x(2) by (cases x) auto
    from h x x3 w1 assms(2) obtain y w2 where
      "key_entries deps (principal_actor deps rq) (Some role) reveal p (pg_list_api_keys (pe_id p) (cw_db w)) w = (y, w2)" "w2 \<noteq> w"
      by (auto simp: encoded_def ro_eqs elim!: and_then_eqE)
    then have "can role KeyManage" using key_entries_change by blast
    then show ?thesis using scope_Some[OF x(2)[unfolded x3]] decode_encode[OF x(1)] p KeysReq
      by (auto simp: member_of_project_def)
  next
    case (LifecycleReq jid kind ref')
    then show ?thesis
      using auth_then[OF assms(1)[unfolded LifecycleReq cp_handle.simps lifecycle_route_def] assms(2)] that assms(2-)
      by (auto dest: authorized_change)
  next
    case (RotateReq jid t ref')
    then show ?thesis
      using auth_then[OF assms(1)[unfolded RotateReq cp_handle.simps rotate_route_def] assms(2)] that assms(2-)
      by (auto dest: authorized_change)
  next
    case (DeleteReq jid ref')
    then show ?thesis
      using auth_then[OF assms(1)[unfolded DeleteReq cp_handle.simps delete_project_route_def] assms(2)] that assms(2-)
      by (auto dest: authorized_change)
  next
    case (RetryReq ref')
    then show ?thesis
      using auth_then[OF assms(1)[unfolded RetryReq cp_handle.simps retry_route_def] assms(2)] that assms(2-)
      by (auto dest: authorized_change)
  qed (use that in simp)
  show "\<exists>user. cq_principal rq = Inr (Some user) \<and>
      (case target_ref c of
         Some ref \<Rightarrow> member_of_project rq (needed c) ref w user
       | None \<Rightarrow> (\<exists>org role. role_of user org (cw_orgs w) = Some role \<and> can role ProjectCreate \<and>
           (\<forall>p \<in> set (cd_projects (cw_db w')) - set (cd_projects (cw_db w)). pe_org p = org)))"
  proof (cases "target_ref c")
    case None
    then obtain pid jid bytes body where c: "c = CreateReq pid jid bytes body" by (cases c) auto
    show ?thesis using create_change[OF assms(1)[unfolded c cp_handle.simps] assms(2-)] None by auto
  next
    case (Some ref)
    then show ?thesis using *[OF Some] by (auto simp: member_of_project_def)
  qed
qed

lemma authorize_stranger:
  assumes "dp_orgs deps" "dp_principals deps" "cq_principal rq = Inr (Some user)"
    and "pg_get_project ref (cw_db w) = Some p" "is_uuid (pe_org p)" "role_of user (js_lower (pe_org p)) (cw_orgs w) = None"
  shows "authorize deps rq c ref w = (Inl no_membership, w)"
    "scope deps rq (Some (ID_PREFIX OrganizationId @ ''_'' @ js_lower (pe_org p))) w = (Inl no_membership, w)"
proof -
  have e: "encodeId OrganizationId (pe_org p) = Inr (ID_PREFIX OrganizationId @ ''_'' @ js_lower (pe_org p))"
    using assms(5) by (simp add: encodeId_def)
  note d = decode_encode[OF e]
  then show s: "scope deps rq (Some (ID_PREFIX OrganizationId @ ''_'' @ js_lower (pe_org p))) w = (Inl no_membership, w)"
    using assms(1-3,6) by (auto simp: scope_def and_then_def ret_def gets_def throw_def split: list.split)
  then show "authorize deps rq c ref w = (Inl no_membership, w)"
    using assms(1-4) e by (simp add: authorize_def encoded_def and_then_def ret_def gets_def)
qed

text \<open>
  A stranger leaves no trace and is refused with the status and the code of a project that does not
  exist, whatever the request on an existing project; but the sentences differ, so the answer still
  tells the two apart.
\<close>

theorem strangers_get_not_found:
  assumes "dp_orgs deps" "dp_principals deps" "cq_principal rq = Inr (Some user)" "target_ref c = Some ref"
  shows "(pg_get_project ref (cw_db w) = None \<longrightarrow> cp_handle deps rq c w = (Inl missing, w)) \<and>
    (\<forall>p. pg_get_project ref (cw_db w) = Some p \<and> is_uuid (pe_org p) \<and> role_of user (js_lower (pe_org p)) (cw_orgs w) = None \<longrightarrow>
       cp_handle deps rq c w = (Inl no_membership, w)) \<and>
    (\<exists>a s s'. missing = Refusal a s \<and> no_membership = Refusal a s' \<and> s \<noteq> s')"
proof (intro conjI allI impI)
  have auth: "require_auth deps rq w = (Inr (), w)" for w using assms(2,3) by (simp add: require_auth_def)
  have bind: "m w = (Inr a, w1) \<Longrightarrow> and_then m f w = f a w1" "m w = (Inl e, w1) \<Longrightarrow> and_then m f w = (Inl e, w1)"
    for m :: "('a, 'b) route" and f :: "'b \<Rightarrow> ('a, 'c) route" and a e w w1 by (simp_all add: and_then_def)
  {
    assume "pg_get_project ref (cw_db w) = None"
    then show "cp_handle deps rq c w = (Inl missing, w)" using assms
      by (cases c) (auto simp: lifecycle_route_def rotate_route_def delete_project_route_def retry_route_def restore_route_def
        detail_route_def keys_route_def and_then_def auth authorize_def gets_def throw_def pg_project_detail_def)
  next
    fix p assume p: "pg_get_project ref (cw_db w) = Some p \<and> is_uuid (pe_org p) \<and> role_of user (js_lower (pe_org p)) (cw_orgs w) = None"
    note a = authorize_stranger[OF assms(1-3), of ref w p]
    show "cp_handle deps rq c w = (Inl no_membership, w)" using assms(1,2,4) p a
      by (cases c) (auto simp: lifecycle_route_def rotate_route_def delete_project_route_def retry_route_def restore_route_def
        detail_route_def keys_route_def and_then_def auth gets_def pg_project_detail_def encoded_def encodeId_def ret_def)
  }
qed (simp add: missing_def no_membership_def not_found_def)

text \<open>
  The idempotency check comes before the caller is placed in an organization, and looks a key up across all
  of them: any user who sends a key that was used before is answered with the project it belongs
  to, even one who is a member of nothing, and even if the key is one the store derived itself.
\<close>

theorem replayed_key_shows_a_strangers_project:
  assumes "dp_orgs deps" "dp_principals deps" "cq_principal rq = Inr (Some user)"
    and "cq_key rq = Some key" "valid_delivery_id key" "pg_find_by_key key (cw_db w) = Some p"
    and "is_uuid (pe_id p)" "is_uuid (pe_org p)"
  shows "\<exists>v. create_project_route deps rq pid jid bytes body w = (Inr (ProjectIs v), w) \<and>
    pv_ref v = pe_ref p \<and> pv_name v = pe_name p \<and> pv_status v = status_text (pe_status p)"
  using assms
  by (auto simp: create_project_route_def require_auth_def and_then_def ret_def gets_def guard_def Let_def valid_delivery_id_def
    serialize_project_def encoded_def encodeId_def)

subsection \<open>Accepted work\<close>

fun promised :: "cp_response \<Rightarrow> job_view option" where
  "promised (JobAccepted _ _ j) = Some j"
| "promised (RotationAccepted _ j _) = Some j"
| "promised (RetryAccepted _ j _) = Some j"
| "promised (RestoreAccepted _ j _ _ _) = Some j"
| "promised _ = None"

definition row_behind :: "job_view \<Rightarrow> cp_db \<Rightarrow> bool" where
  "row_behind v db = (\<exists>r \<in> set (jd_rows (cd_jobs db)). encodeId JobId (jb_id r) = Inr (jv_id v) \<and> jb_type r = jv_type v)"

fun outcome_job :: "request_outcome \<Rightarrow> api_job option" where
  "outcome_job (Accepted _ j _) = Some j"
| "outcome_job (Retrying _ j _) = Some j"
| "outcome_job (Copying _ j _ _) = Some j"
| "outcome_job _ = None"

definition row_of :: "api_job \<Rightarrow> cp_db \<Rightarrow> bool" where
  "row_of j db = (\<exists>r \<in> set (jd_rows (cd_jobs db)). jb_id r = aj_id j \<and> jb_type r = aj_kind j)"

lemma row_of_from_db: "r \<in> set (jd_rows (cd_jobs db)) \<Longrightarrow> row_of (job_from_db r) db"
  by (auto simp: row_of_def job_from_db_def)

lemma outcome_rows:
  assumes "outcome_job x = Some j"
  shows "pg_request_lifecycle jid ref kind actor db = (Inr x, db') \<Longrightarrow> row_of j db'"
    "pg_request_rotation jid ref t actor db = (Inr x, db') \<Longrightarrow> row_of j db'"
    "pg_request_delete jid ref actor db = (Inr x, db') \<Longrightarrow> row_of j db'"
    "pg_request_retry ref actor db = (Inr x, db') \<Longrightarrow> row_of j db'"
    "pg_request_restore to_iso pid jid ref target new_ref actor limit ttl db = (Inr x, db') \<Longrightarrow> row_of j db'"
proof -
  show "pg_request_lifecycle jid ref kind actor db = (Inr x, db') \<Longrightarrow> row_of j db'"
    using assms by (auto simp: request_lifecycle_eq Let_def jobs_of_def intro!: row_of_from_db dest!: newest_in
      split: option.splits if_splits)
  show "pg_request_rotation jid ref t actor db = (Inr x, db') \<Longrightarrow> row_of j db'"
    using assms by (auto simp: request_rotation_eq Let_def jobs_of_def intro!: row_of_from_db dest!: newest_in
      split: option.splits if_splits)
  show "pg_request_delete jid ref actor db = (Inr x, db') \<Longrightarrow> row_of j db'"
    using assms by (auto simp: request_delete_eq Let_def by_idempotency_key_def intro!: row_of_from_db dest!: find_SomeD
      split: option.splits if_splits)
  show "pg_request_retry ref actor db = (Inr x, db') \<Longrightarrow> row_of j db'"
  proof -
    assume h: "pg_request_retry ref actor db = (Inr x, db')"
    obtain p where p: "pg_get_project ref db = Some p" using h assms by (cases "pg_get_project ref db") (auto simp: request_retry_eq)
    obtain r where r1: "dead_build (pe_id p) db = Some r"
      using h assms p by (cases "dead_build (pe_id p) db") (auto simp: request_retry_eq split: if_splits)
    have r: "dead_build (pe_id p) db = Some r" "j = job_from_db r"
      "jd_rows (cd_jobs db') = map (\<lambda>q. if jb_id q = jb_id r then reset_job (cp_now db) q else q) (jd_rows (cd_jobs db))"
      using h assms p r1 by (auto simp: request_retry_eq Let_def update_job_def split: if_splits)
    have "reset_job (cp_now db) r \<in> set (jd_rows (cd_jobs db'))" unfolding r(3) using dead_buildD[OF r(1)] by force
    then show ?thesis unfolding row_of_def r(2) by (intro bexI[of _ "reset_job (cp_now db) r"]) (simp_all add: job_from_db_def)
  qed
  show "pg_request_restore to_iso pid jid ref target new_ref actor limit ttl db = (Inr x, db') \<Longrightarrow> row_of j db'"
  proof -
    assume h: "pg_request_restore to_iso pid jid ref target new_ref actor limit ttl db = (Inr x, db')"
    have c: "row_of j db'" if "copy_project to_iso pid jid source target new_ref actor ttl db = (Inr x, db')" for source
      using that assms by (cases rule: copy_project_cases[of to_iso pid jid source target new_ref actor ttl db])
        (auto intro!: row_of_from_db)
    have "\<exists>source. copy_project to_iso pid jid source target new_ref actor ttl db = (Inr x, db')" using h assms
      by (auto simp: pg_request_restore_def transaction_def and_then_def gets_def ret_def
        split: option.splits sum.splits prod.splits if_splits)
    then show ?thesis using c by blast
  qed
qed

lemma answer_accepted_Inr:
  assumes "answer_accepted deps r w = (Inr (v, jv), w')"
  shows "\<exists>j. outcome_job r = Some j \<and> encodeId JobId (aj_id j) = Inr (jv_id jv) \<and> aj_kind j = jv_type jv \<and> cw_db w' = cw_db w"
  using assms
  by (auto simp: answer_accepted_def job_response_def encoded_def deliver_def ro_eqs ret_def throw_def and_then_def
    split: request_outcome.splits if_splits sum.splits prod.splits)

lemma deliver_result:
  "deliver deps key w = (r, w') \<Longrightarrow> r = Inr () \<and> cw_db w' = cw_db w"
  "deliver_again deps key n w = (r', w') \<Longrightarrow> r' = Inr () \<and> cw_db w' = cw_db w"
  by (auto simp: deliver_def deliver_again_def split: if_splits)

lemma on_db_Inr: "on_db m w = (Inr x, w') \<Longrightarrow> m (cw_db w) = (Inr x, cw_db w')"
  by (auto simp: on_db_def split: prod.splits sum.splits)

lemma row_behindI: "row_of j db \<Longrightarrow> encodeId JobId (aj_id j) = Inr (jv_id v) \<Longrightarrow> aj_kind j = jv_type v \<Longrightarrow> row_behind v db"
  unfolding row_of_def row_behind_def by metis

lemma answered:
  assumes "and_then (on_db m) (\<lambda>r. and_then (answer_accepted deps r) (\<lambda>(v, jv). ret (f v jv))) w = (Inr x, w')"
    and "\<And>r j db. m (cw_db w) = (Inr r, db) \<Longrightarrow> outcome_job r = Some j \<Longrightarrow> row_of j db"
  shows "\<exists>v jv. x = f v jv \<and> row_behind jv (cw_db w')"
proof -
  from assms(1) obtain r w1 v jv where r: "on_db m w = (Inr r, w1)" "answer_accepted deps r w1 = (Inr (v, jv), w')" "x = f v jv"
    by (auto elim!: and_then_eqE)
  from answer_accepted_Inr[OF r(2)] obtain j where j: "outcome_job r = Some j" "encodeId JobId (aj_id j) = Inr (jv_id jv)"
    "aj_kind j = jv_type jv" "cw_db w' = cw_db w1" by blast
  have "row_behind jv (cw_db w')"
    using assms(2)[OF on_db_Inr[OF r(1)] j(1)] j(2-) by (auto intro: row_behindI)
  then show ?thesis using r(3) by blast
qed

text \<open>
  An accepted request is a recorded one (D-067): whenever a response names a job, a row with that id and type
  is in the table by then, whatever the queue held and whatever became of the delivery.
\<close>

theorem accepted_means_recorded:
  assumes "cp_handle deps rq c w = (Inr x, w')" "promised x = Some v"
  shows "row_behind v (cw_db w')"
proof (cases c)
  case (CreateReq pid jid bytes body)
  from assms(1)[unfolded CreateReq cp_handle.simps create_project_route_def] assms(2)
  obtain key name region plan s w1 where "create_and_deliver deps rq pid jid bytes key name region plan s w1 = (Inr x, w')"
    by (auto simp: Let_def split: option.splits elim!: and_then_eqE)
  then obtain p j b np w2 where o: "on_db (pg_create_project (dp_own_org deps) pid jid np) w1 = (Inr (p, j, b), w2)"
    and v: "cw_db w' = cw_db w2" "encodeId JobId (aj_id j) = Inr (jv_id v)" "aj_kind j = jv_type v"
    using assms(2)
    by (auto simp: create_and_deliver_def ro_eqs deliver_def job_response_def encoded_def ret_def throw_def
      elim!: and_then_eqE split: sum.splits)
  have "row_of j (cw_db w2)"
    using on_db_Inr[OF o] by (cases rule: create_project_cases[of "dp_own_org deps" pid jid np "cw_db w1"])
      (auto intro!: row_of_from_db simp del: with_simps simp flip: append_assoc dest!: sym[of _ "cw_db w2"] simp add: with_simps)
  then show ?thesis using v row_behindI by metis
next
  case (LifecycleReq jid kind ref)
  then show ?thesis using assms
    by (auto simp: lifecycle_route_def elim!: and_then_eqE[of "require_auth _ _"] and_then_eqE[of "authorize _ _ _ _"]
      dest!: answered intro: outcome_rows)
next
  case (RotateReq jid t ref)
  then show ?thesis using assms
    by (auto simp: rotate_route_def elim!: and_then_eqE[of "require_auth _ _"] and_then_eqE[of "authorize _ _ _ _"]
      dest!: answered intro: outcome_rows)
next
  case (DeleteReq jid ref)
  then show ?thesis using assms
    by (auto simp: delete_project_route_def elim!: and_then_eqE[of "require_auth _ _"] and_then_eqE[of "authorize _ _ _ _"]
      dest!: answered intro: outcome_rows)
next
  case (RetryReq ref)
  from assms obtain actor p j n w2 where o: "on_db (pg_request_retry ref (Some actor)) w = (Inr (Retrying p j n), w2)"
    and v: "cw_db w' = cw_db w2" "encodeId JobId (aj_id j) = Inr (jv_id v)" "aj_kind j = jv_type v"
    unfolding RetryReq cp_handle.simps retry_route_def
    by (auto simp: job_response_def encoded_def ro_eqs ret_def throw_def elim!: and_then_eqE dest!: deliver_result
      split: request_outcome.splits sum.splits)
  show ?thesis using outcome_rows(4)[OF _ on_db_Inr[OF o]] row_behindI v by simp
next
  case (RestoreReq ttl pid jid bytes field ref)
  from assms obtain target new_ref actor p j src e w2 where
    o: "on_db (pg_request_restore (dp_iso deps) pid jid ref target new_ref (Some actor) (Some (dp_limit deps)) ttl) w =
      (Inr (Copying p j src e), w2)"
    and v: "cw_db w' = cw_db w2" "encodeId JobId (aj_id j) = Inr (jv_id v)" "aj_kind j = jv_type v"
    unfolding RestoreReq cp_handle.simps restore_route_def
    by (auto simp: job_response_def encoded_def ro_eqs ret_def throw_def elim!: and_then_eqE dest!: deliver_result
      split: request_outcome.splits sum.splits option.splits)
  show ?thesis using outcome_rows(5)[OF _ on_db_Inr[OF o]] row_behindI v by simp
next
  case (DetailReq reveal ref)
  then show ?thesis using assms
    by (auto simp: detail_route_def elim!: and_then_eqE split: option.splits)
next
  case (KeysReq reveal ref)
  then show ?thesis using assms
    by (auto simp: keys_route_def elim!: and_then_eqE split: option.splits)
qed

subsection \<open>Credentials\<close>

lemma reveal_recorded:
  assumes "on_db (record_credential_reveal actor org project ref) w = (r, w')"
  shows "r = Inr () \<and> recently_revealed (ra_user actor) project (cw_db w') \<and>
    (cw_db w' = cw_db w \<or> (\<exists>a. cd_audit (cw_db w') = cd_audit (cw_db w) @ [a]))"
  using assms
  by (auto simp: on_db_def record_credential_reveal_def recently_revealed_def record_audit_def and_then_def gets_def ret_def
    modifies_def cp_now_def HOUR_MS_def split: if_splits)

text \<open>
  Connection strings are never handed out unrecorded: a response that carries them was asked for
  with \<open>reveal\<close>, by a member of the project's organization, and the audit log then holds a row of the last hour that
  names this user and this project; asking again within the hour adds no second one.
\<close>

theorem revealed_strings_are_on_record:
  assumes "cp_handle deps rq (DetailReq reveal ref) w = (Inr (DetailIs v (Some d) r), w')"
    and "di_strings d \<noteq> None" "dp_orgs deps" "dp_principals deps" "dp_pool deps"
  shows "reveal \<and> (\<exists>user p. member_of_project rq ProjectRead ref w user \<and> pg_get_project ref (cw_db w) = Some p \<and>
    recently_revealed (Some user) (pe_id p) (cw_db w') \<and>
    (recently_revealed (Some user) (pe_id p) (cw_db w) \<longrightarrow> cw_db w' = cw_db w))"
proof -
  from assms(1) obtain p d0 restore actor w1 where
    p: "pg_project_detail (dp_secrets deps) ref (cw_db w) = Some (p, Some d0, restore)"
    and a: "authorize deps rq ProjectRead ref w = (Inr actor, w)"
    and d: "d = (if reveal then d0 else d0\<lparr>di_strings := None\<rparr>)"
    and m: "(if reveal \<and> di_strings d0 \<noteq> None \<and> dp_pool deps
             then on_db (record_credential_reveal actor (pe_org p) (pe_id p) ref) else ret ()) w = (Inr (), w1)" "w' = w1"
    by (auto simp: detail_route_def ro_eqs elim!: and_then_eqE split: option.splits if_splits)
  have r: "reveal" "di_strings d0 \<noteq> None" using d assms(2) by (auto split: if_splits)
  obtain user where u: "member_of_project rq ProjectRead ref w user" "actor = user_actor rq user"
    by (rule authorizeD[OF a assms(3,4)])
  have o: "on_db (record_credential_reveal actor (pe_org p) (pe_id p) ref) w = (Inr (), w')" using m r assms(5) by simp
  have "pg_get_project ref (cw_db w) = Some p"
    using p by (auto simp: pg_project_detail_def Let_def split: option.splits)
  moreover have "recently_revealed (Some user) (pe_id p) (cw_db w')"
    using reveal_recorded[OF o] u(2) by (simp add: user_actor_def)
  moreover have "cw_db w' = cw_db w" if "recently_revealed (Some user) (pe_id p) (cw_db w)"
    using o that u(2) by (auto simp: on_db_def record_credential_reveal_def and_then_def gets_def ret_def user_actor_def)
  ultimately show ?thesis using r u by blast
qed

definition key_secret_step :: "'q cp_deps \<Rightarrow> request_actor \<Rightarrow> role option \<Rightarrow> bool \<Rightarrow> project_entry \<Rightarrow> api_key_entry
    \<Rightarrow> ('q, string option) route" where
  "key_secret_step deps actor role reveal p k =
     (case dp_secrets deps of
          None \<Rightarrow> ret None
        | Some get \<Rightarrow>
            if ke_kind k = AnonKey then ret (get (pe_id p) (key_secret AnonKey))
            else if reveal then
              and_then (case role of None \<Rightarrow> ret () | Some r \<Rightarrow> require_capability r KeyManage) (\<lambda>_.
              and_then (if dp_pool deps
                then on_db (record_audit actor ''key.revealed'' ''project_api_key'' (ke_id k) (pe_org p) (pe_id p)
                  [(''kind'', ''service_role''), (''key_prefix'', ke_prefix k)])
                else ret ()) (\<lambda>_.
              ret (get (pe_id p) (key_secret ServiceRoleKey))))
            else ret None)"

lemma key_entries_Cons: "key_entries deps actor role reveal p (k # ks) =
     and_then (key_secret_step deps actor role reveal p k) (\<lambda>secret.
     and_then (key_entries deps actor role reveal p ks) (\<lambda>rest.
     ret (KeyView (ke_kind k) (ke_prefix k) (ke_created k) secret # rest)))"
  by (simp add: key_secret_step_def)

lemma key_step_audit:
  "key_secret_step deps actor role reveal p k w = (r, w') \<Longrightarrow> \<exists>rows. cd_audit (cw_db w') = cd_audit (cw_db w) @ rows"
  by (auto simp: key_secret_step_def ro_eqs on_db_def record_audit_def modifies_def ret_def elim!: and_then_eqE split: option.splits if_splits)

lemma key_entries_audit:
  "key_entries deps actor role reveal p ks w = (r, w') \<Longrightarrow> \<exists>rows. cd_audit (cw_db w') = cd_audit (cw_db w) @ rows"
proof (induction ks arbitrary: r w)
  case (Cons k ks)
  from Cons.prems[unfolded key_entries_Cons] show ?case
  proof (cases rule: and_then_eqE)
    case (1 e)
    then show ?thesis by (blast dest: key_step_audit)
  next
    case (2 a w1)
    from 2(2) obtain x where "key_entries deps actor role reveal p ks w1 = (x, w')" by (auto elim!: and_then_eqE)
    then show ?thesis using key_step_audit[OF 2(1)] Cons.IH by fastforce
  qed
qed simp

lemma key_step_service:
  assumes "key_secret_step deps actor (Some role) reveal p k w = (Inr (Some s), w')" "ke_kind k = ServiceRoleKey" "dp_pool deps"
  shows "reveal \<and> can role KeyManage \<and> (\<exists>a \<in> set (cd_audit (cw_db w')). ae_action a = ''key.revealed'' \<and>
    ae_project a = pe_id p \<and> ae_actor a = actor \<and> ae_resource_id a = ke_id k)"
  using assms
  by (auto simp: key_secret_step_def ro_eqs require_capability_fst on_db_def record_audit_def modifies_def
    elim!: and_then_eqE split: option.splits if_splits)

lemma key_entries_service:
  assumes "key_entries deps actor (Some role) reveal p ks w = (Inr vs, w')" "KeyView ServiceRoleKey pre t (Some s) \<in> set vs"
    "dp_pool deps"
  shows "reveal \<and> can role KeyManage \<and> (\<exists>a \<in> set (cd_audit (cw_db w')). ae_action a = ''key.revealed'' \<and>
    ae_project a = pe_id p \<and> ae_actor a = actor)"
  using assms
proof (induction ks arbitrary: w vs)
  case (Cons k ks)
  from Cons.prems(1)[unfolded key_entries_Cons] obtain sec w1 rest where
    h: "key_secret_step deps actor (Some role) reveal p k w = (Inr sec, w1)"
      "key_entries deps actor (Some role) reveal p ks w1 = (Inr rest, w')"
      "vs = KeyView (ke_kind k) (ke_prefix k) (ke_created k) sec # rest"
    by (auto elim!: and_then_eqE)
  show ?case
  proof (cases "KeyView ServiceRoleKey pre t (Some s) \<in> set rest")
    case True
    then show ?thesis using Cons.IH[OF h(2)] Cons.prems(3) by blast
  next
    case False
    then have "sec = Some s" "ke_kind k = ServiceRoleKey" using Cons.prems(2) h(3) by auto
    then show ?thesis using key_step_service[OF h(1)[unfolded \<open>sec = Some s\<close>]] key_entries_audit[OF h(2)] Cons.prems(3) by fastforce
  qed
qed simp

text \<open>
  The service key needs \<open>key.manage\<close> and leaves a row: a response of the key route that holds it was
  asked for with \<open>reveal\<close> by a member whose role has the capability, and the audit log names the user and the key.
\<close>

theorem service_key_is_managed_and_recorded:
  assumes "cp_handle deps rq (KeysReq reveal ref) w = (Inr (KeysAre vs), w')"
    and "KeyView ServiceRoleKey pre t (Some k) \<in> set vs" "dp_orgs deps" "dp_principals deps" "dp_pool deps"
  shows "reveal \<and> (\<exists>user p. member_of_project rq KeyManage ref w user \<and> pg_get_project ref (cw_db w) = Some p \<and>
    (\<exists>a \<in> set (cd_audit (cw_db w')). ae_action a = ''key.revealed'' \<and> ae_project a = pe_id p \<and>
      ra_user (ae_actor a) = Some user))"
proof -
  from assms(1) obtain p where p: "pg_get_project ref (cw_db w) = Some p" and
      h: "and_then (and_then (encoded OrganizationId (pe_org p)) (\<lambda>org. scope deps rq (Some org))) (\<lambda>s.
         and_then (case s of None \<Rightarrow> ret None
             | Some (_, role, _) \<Rightarrow> and_then (require_capability role ProjectRead) (\<lambda>_. ret (Some role))) (\<lambda>role.
         and_then (gets (pg_list_api_keys (pe_id p) \<circ> cw_db)) (\<lambda>rows.
         and_then (key_entries deps (principal_actor deps rq) role reveal p rows) (\<lambda>keys.
         ret (KeysAre keys))))) w = (Inr (KeysAre vs), w')"
    using assms(3,4) by (auto simp: keys_route_def ro_eqs elim!: and_then_eqE[of "require_auth _ _"] and_then_eqE[of "gets _"] split: option.splits)
  from h obtain org x where x: "encodeId OrganizationId (pe_org p) = Inr org" "scope deps rq (Some org) w = (Inr x, w)"
    by (auto simp: encoded_def ro_eqs elim!: and_then_eqE split: sum.splits)
  obtain i role user where x3: "x = Some (i, role, user)" using scope_None[OF assms(3,4)] x(2) by (cases x) auto
  from h x x3 have "key_entries deps (principal_actor deps rq) (Some role) reveal p (pg_list_api_keys (pe_id p) (cw_db w)) w = (Inr vs, w')"
    by (auto simp: encoded_def ro_eqs elim!: and_then_eqE)
  from key_entries_service[OF this assms(2,5)] scope_Some[OF x(2)[unfolded x3]] decode_encode[OF x(1)] p assms(4)
  show ?thesis by (auto simp: member_of_project_def principal_actor_def user_actor_def)
qed

text \<open>
  A project's ref is a legal host name for ever: whatever twenty bytes are drawn, it is a
  letter and nineteen characters of \<open>a-z2-7\<close>, as \<open>ProjectRef\<close> demands, and passes the check of the column.
\<close>

theorem ref_is_a_dns_label:
  "project_ref_shape (generate_project_ref bytes) \<and> ref_shape (generate_project_ref bytes)"
proof -
  have a: "is_lower c" if "c \<in> set REF_LETTERS" for c
    using that by (auto simp: REF_LETTERS_def is_lower_def unit_of_def)
  have b: "is_lower c \<or> 50 \<le> unit_of c \<and> unit_of c \<le> 55" if "c \<in> set REF_ALPHABET" for c
    using that by (auto simp: REF_ALPHABET_def is_lower_def unit_of_def)
  have n: "length REF_LETTERS = 26" "length REF_ALPHABET = 32" by (simp_all add: REF_LETTERS_def REF_ALPHABET_def)
  have h: "is_lower (REF_LETTERS ! (x mod 26))" for x :: nat by (rule a) (simp add: n)
  have t: "is_lower (REF_ALPHABET ! (x mod 32)) \<or> 50 \<le> unit_of (REF_ALPHABET ! (x mod 32)) \<and> unit_of (REF_ALPHABET ! (x mod 32)) \<le> 55" for x :: nat
    by (rule b) (simp add: n)
  have d: "is_lower (REF_ALPHABET ! (x mod 32)) \<or> is_digit (REF_ALPHABET ! (x mod 32))" for x :: nat
    using t[of x] by (auto simp: is_digit_def)
  show ?thesis using h t d by (simp add: generate_project_ref_def project_ref_shape_def ref_shape_def n list_all_iff)
qed

subsection \<open>A concrete world\<close>

definition sample_deps :: "string set cp_deps" where
  "sample_deps = \<lparr>dp_limit = 20, dp_static = None, dp_actor = None, dp_orgs = True, dp_principals = True, dp_enqueue = True,
     dp_recovery = True, dp_secrets = Some (\<lambda>_ _. Some ''s3cret''), dp_pool = True, dp_queue = set_queue,
     dp_own_org = sample_org, dp_iso = (\<lambda>_. [])\<rparr>"

definition sample_ref :: string where "sample_ref = ''aaaaaaaaaaaaaaaaaaaa''"

definition sample_job_id :: string where "sample_job_id = ''66666666-6666-4666-8666-666666666666''"

definition sample_project :: project_entry where
  "sample_project = fresh_project 0 sample_pid sample_ref ''shop'' sample_org ''eu-central'' ''free'' StReady"

definition sample_cp :: cp_db where
  "sample_cp = empty_store\<lparr>cd_projects := [sample_project],
     cd_databases := [\<lparr>de_project = sample_pid, de_host = Some ''db'', de_port = 54, de_pooler_port = 64, de_version = ''17''\<rparr>],
     cd_keys := [\<lparr>ke_id = ''k1'', ke_project = sample_pid, ke_kind = ServiceRoleKey, ke_prefix = ''shk_srv'', ke_created = 0, ke_revoked = None\<rparr>]\<rparr>"

definition sample_world :: "string set cp_world" where
  "sample_world = \<lparr>cw_orgs = sample_db, cw_db = sample_cp, cw_queue = {}\<rparr>"

definition asked_by :: "string \<Rightarrow> cp_request" where
  "asked_by user = \<lparr>cq_principal = Inr (Some user), cq_authorization = None, cq_key = Some ''first-try'', cq_ip = None, cq_id = ''r''\<rparr>"

lemma sample_deps_on [simp]: "dp_orgs sample_deps" "dp_principals sample_deps" "dp_pool sample_deps"
  by (simp_all add: sample_deps_def)

theorem changes_need_the_role_witness:
  "\<exists>user. member_of_project (asked_by sample_owner) ProjectDelete sample_ref sample_world user"
proof -
  let ?c = "DeleteReq sample_job_id sample_ref"
  obtain r w' where e: "cp_handle sample_deps (asked_by sample_owner) ?c sample_world = (r, w')" by fastforce
  have "length (cd_audit (cw_db (snd (cp_handle sample_deps (asked_by sample_owner) ?c sample_world)))) = 1" by code_simp
  then have "w' \<noteq> sample_world" using e by (auto simp: sample_world_def sample_cp_def empty_store_def)
  from changes_need_the_role[OF e this] show ?thesis by auto
qed

theorem strangers_get_not_found_witness:
  "cp_handle sample_deps (asked_by ''nobody'') (DetailReq True sample_ref) sample_world = (Inl no_membership, sample_world)"
proof -
  have p: "pg_get_project sample_ref (cw_db sample_world) = Some sample_project" by code_simp
  have o: "is_uuid (pe_org sample_project)" "role_of ''nobody'' (js_lower (pe_org sample_project)) (cw_orgs sample_world) = None"
    by code_simp+
  show ?thesis
    using strangers_get_not_found[of sample_deps "asked_by ''nobody''" "''nobody''" "DetailReq True sample_ref" sample_ref sample_world] p o
    by (simp add: asked_by_def)
qed

theorem replayed_key_shows_a_strangers_project_witness:
  "\<exists>v. create_project_route sample_deps ((asked_by ''nobody'')\<lparr>cq_key := Some (delete_key sample_pid)\<rparr>) ''p'' ''j'' []
      \<lparr>cb_name = None, cb_region = None, cb_plan = None, cb_org = None\<rparr>
      (snd (cp_handle sample_deps (asked_by sample_owner) (DeleteReq sample_job_id sample_ref) sample_world)) =
    (Inr (ProjectIs v), snd (cp_handle sample_deps (asked_by sample_owner) (DeleteReq sample_job_id sample_ref) sample_world)) \<and>
    pv_name v = ''shop''"
proof -
  let ?w = "snd (cp_handle sample_deps (asked_by sample_owner) (DeleteReq sample_job_id sample_ref) sample_world)"
  let ?p = "set_status StDeleting sample_project"
  have f: "pg_find_by_key (delete_key sample_pid) (cw_db ?w) = Some ?p" by code_simp
  have v: "valid_delivery_id (delete_key sample_pid)" by code_simp
  have u: "is_uuid (pe_id ?p)" "is_uuid (pe_org ?p)" by code_simp+
  have n: "pe_name ?p = ''shop''" by code_simp
  have c: "cq_principal ((asked_by ''nobody'')\<lparr>cq_key := Some (delete_key sample_pid)\<rparr>) = Inr (Some ''nobody'')"
    "cq_key ((asked_by ''nobody'')\<lparr>cq_key := Some (delete_key sample_pid)\<rparr>) = Some (delete_key sample_pid)"
    by (simp_all only: asked_by_def cp_request.simps)
  from replayed_key_shows_a_strangers_project[OF sample_deps_on(1,2) c v f u]
  show ?thesis unfolding n by blast
qed

theorem accepted_means_recorded_witness:
  "\<exists>x w' v. cp_handle sample_deps (asked_by sample_owner) (LifecycleReq sample_job_id Pause sample_ref) sample_world = (Inr x, w') \<and>
     promised x = Some v \<and> row_behind v (cw_db w')"
proof -
  let ?c = "LifecycleReq sample_job_id Pause sample_ref"
  obtain r w' where e: "cp_handle sample_deps (asked_by sample_owner) ?c sample_world = (r, w')" by fastforce
  have "case fst (cp_handle sample_deps (asked_by sample_owner) ?c sample_world) of
      Inr x \<Rightarrow> promised x \<noteq> None | Inl _ \<Rightarrow> False" by code_simp
  then obtain x v where r: "r = Inr x" "promised x = Some v" using e by (auto split: sum.splits)
  show ?thesis using accepted_means_recorded[OF e[unfolded r(1)] r(2)] e r by blast
qed

fun shows_strings :: "(refusal + cp_response) \<Rightarrow> bool" where
  "shows_strings (Inr (DetailIs _ (Some d) _)) = (di_strings d \<noteq> None)"
| "shows_strings _ = False"

lemma shows_stringsE:
  assumes "shows_strings x"
  obtains v d r where "x = Inr (DetailIs v (Some d) r)" "di_strings d \<noteq> None"
  using assms by (cases x rule: shows_strings.cases) auto

theorem revealed_strings_are_on_record_witness:
  "\<exists>v d r w'. cp_handle sample_deps (asked_by sample_owner) (DetailReq True sample_ref) sample_world = (Inr (DetailIs v (Some d) r), w') \<and>
     recently_revealed (Some sample_owner) sample_pid (cw_db w')"
proof -
  let ?c = "DetailReq True sample_ref"
  obtain x w' where e: "cp_handle sample_deps (asked_by sample_owner) ?c sample_world = (x, w')" by fastforce
  have "shows_strings (fst (cp_handle sample_deps (asked_by sample_owner) ?c sample_world))" by code_simp
  from shows_stringsE[OF this[unfolded e fst_conv]] obtain v d r where
    x: "x = Inr (DetailIs v (Some d) r)" "di_strings d \<noteq> None" by blast
  have p: "pg_get_project sample_ref (cw_db sample_world) = Some sample_project" by code_simp
  have i: "pe_id sample_project = sample_pid" by (simp add: sample_project_def)
  from revealed_strings_are_on_record[OF e[unfolded x(1)] x(2) sample_deps_on] obtain user q where
    m: "member_of_project (asked_by sample_owner) ProjectRead sample_ref sample_world user"
    and q: "pg_get_project sample_ref (cw_db sample_world) = Some q" "recently_revealed (Some user) (pe_id q) (cw_db w')"
    by blast
  have "user = sample_owner" using m by (simp add: member_of_project_def asked_by_def)
  moreover have "q = sample_project" using p q(1) by simp
  ultimately have "recently_revealed (Some sample_owner) sample_pid (cw_db w')" using q(2) i by simp
  then show ?thesis using e unfolding x(1) by blast
qed

theorem service_key_is_managed_and_recorded_witness:
  "\<exists>vs w'. cp_handle sample_deps (asked_by sample_owner) (KeysReq True sample_ref) sample_world = (Inr (KeysAre vs), w') \<and>
     (\<exists>a \<in> set (cd_audit (cw_db w')). ae_action a = ''key.revealed'' \<and> ra_user (ae_actor a) = Some sample_owner)"
proof -
  let ?c = "KeysReq True sample_ref"
  obtain x w' where e: "cp_handle sample_deps (asked_by sample_owner) ?c sample_world = (x, w')" by fastforce
  have "fst (cp_handle sample_deps (asked_by sample_owner) ?c sample_world) =
      Inr (KeysAre [KeyView ServiceRoleKey ''shk_srv'' 0 (Some ''s3cret'')])" by code_simp
  then have x: "x = Inr (KeysAre [KeyView ServiceRoleKey ''shk_srv'' 0 (Some ''s3cret'')])" using e by simp
  have m: "KeyView ServiceRoleKey ''shk_srv'' 0 (Some ''s3cret'') \<in> set [KeyView ServiceRoleKey ''shk_srv'' 0 (Some ''s3cret'')]" by simp
  from service_key_is_managed_and_recorded[OF e[unfolded x] m sample_deps_on] obtain user a where
    u: "member_of_project (asked_by sample_owner) KeyManage sample_ref sample_world user"
    and a: "a \<in> set (cd_audit (cw_db w'))" "ae_action a = ''key.revealed''" "ra_user (ae_actor a) = Some user"
    by blast
  have "user = sample_owner" using u by (simp add: member_of_project_def asked_by_def)
  then show ?thesis using e a unfolding x by blast
qed

end
