(* ===== verification/Secrets.thy ===== *)
theory Secrets
  imports Prelude
begin

text \<open>
  Stored credentials: the envelope of \<open>packages/crypto/src/envelope.ts\<close> and the table behind
  \<open>packages/secrets/src/index.ts\<close>.

  Buffers and strings are strings of bytes. The cipher (\<open>chacha20-poly1305\<close> of \<open>node:crypto\<close>) is a
  parameter, the record \<open>aead\<close>, with two documented facts as named hypotheses: \<open>aead_opens\<close> and
  \<open>aead_binds\<close>. Random bytes are arguments. The store takes an envelope as a record of two functions, as
  \<open>createSecretStore\<close> does, so that what it promises does not depend on the cipher.
\<close>

subsection \<open>The envelope\<close>

record aead =
  ac_seal :: "string \<Rightarrow> string \<Rightarrow> string \<Rightarrow> string \<Rightarrow> string \<times> string"
    \<comment> \<open>key, nonce, additional data and plaintext to the tag and the body\<close>
  ac_open :: "string \<Rightarrow> string \<Rightarrow> string \<Rightarrow> string \<Rightarrow> string \<Rightarrow> string option"
    \<comment> \<open>key, nonce, additional data, tag and body; \<open>None\<close> when \<open>final()\<close> throws\<close>

datatype secret_fault =
    KekDirUnreadable
  | NoKeyFiles
  | KekLength string nat
  | KekNotFound string
  | KekNotLoaded string
  | TooShort string
  | FailedAuthentication string
  | SecretVanished string
  | DuplicateSecret string \<comment> \<open>a unique index of the table\<close>

record sealed =
  sl_ciphertext :: string
  sl_wrapped :: string
  sl_kek :: string

record identity =
  id_project :: string
  id_name :: string
  id_version :: nat

definition KEY_BYTES :: nat where "KEY_BYTES = 32"
definition NONCE_BYTES :: nat where "NONCE_BYTES = 12"
definition TAG_BYTES :: nat where "TAG_BYTES = 16"

fun load_files :: "(string \<times> string) list \<Rightarrow> secret_fault + (string \<times> string) list" where
  "load_files [] = Inr []"
| "load_files ((f, key) # fs) =
     (if length key \<noteq> KEY_BYTES then Inl (KekLength f (length key))
      else map_sum id (\<lambda>ks. (take (length f - 4) f, key) # ks) (load_files fs))"

definition load_keks :: "(string \<times> string) list option \<Rightarrow> secret_fault + (string \<times> string) list" where
  \<comment> \<open>the files of the directory with their contents, \<open>None\<close> when it cannot be read\<close>
  "load_keks dir =
     (case dir of
        None \<Rightarrow> Inl KekDirUnreadable
      | Some entries \<Rightarrow>
          (let files = filter (\<lambda>(f, _). ends_with ''.key'' f) entries in
           if files = [] then Inl NoKeyFiles else load_files files))"

definition aad :: "identity \<Rightarrow> string" where
  "aad i = id_project i @ '' '' @ id_name i @ '' '' @ string_of_nat (id_version i)"

definition seal :: "aead \<Rightarrow> string \<Rightarrow> string \<Rightarrow> string \<Rightarrow> string \<Rightarrow> string" where
  \<comment> \<open>the nonce is \<open>randomBytes(12)\<close>\<close>
  "seal a nonce key plaintext additional =
     (case ac_seal a key nonce additional plaintext of (tag, body) \<Rightarrow> nonce @ tag @ body)"

definition unseal :: "aead \<Rightarrow> string \<Rightarrow> string \<Rightarrow> string \<Rightarrow> string \<Rightarrow> secret_fault + string" where
  \<comment> \<open>\<open>open\<close>\<close>
  "unseal a key s additional what =
     (if length s < NONCE_BYTES + TAG_BYTES then Inl (TooShort what)
      else (case ac_open a key (take NONCE_BYTES s) additional (take TAG_BYTES (drop NONCE_BYTES s))
                (drop (NONCE_BYTES + TAG_BYTES) s) of
              None \<Rightarrow> Inl (FailedAuthentication what)
            | Some p \<Rightarrow> Inr p))"

fun str_le :: "string \<Rightarrow> string \<Rightarrow> bool" where
  \<comment> \<open>the order of \<open>sort()\<close> on strings\<close>
  "str_le [] _ = True"
| "str_le (_ # _) [] = False"
| "str_le (a # s) (b # t) = (unit_of a < unit_of b \<or> (unit_of a = unit_of b \<and> str_le s t))"

definition greatest_id :: "string list \<Rightarrow> string" where
  \<comment> \<open>\<open>sort().at(-1)\<close>\<close>
  "greatest_id ids = foldl (\<lambda>a b. if str_le a b then b else a) (hd ids) (tl ids)"

record envelope =
  ev_keks :: "(string \<times> string) list"
  ev_current :: string

definition create_envelope :: "(string \<times> string) list option \<Rightarrow> string option \<Rightarrow> secret_fault + envelope" where
  "create_envelope dir kek_id =
     (case load_keks dir of
        Inl e \<Rightarrow> Inl e
      | Inr keks \<Rightarrow>
          (let current = (case kek_id of Some i \<Rightarrow> i | None \<Rightarrow> greatest_id (map fst keks)) in
           if map_of keks current = None then Inl (KekNotFound current)
           else Inr \<lparr>ev_keks = keks, ev_current = current\<rparr>))"

record random_bytes =
  rb_dek :: string
  rb_nonce :: string
  rb_wrap_nonce :: string

definition encrypt :: "aead \<Rightarrow> envelope \<Rightarrow> random_bytes \<Rightarrow> string \<Rightarrow> identity \<Rightarrow> sealed" where
  "encrypt a ev r plaintext i =
     \<lparr>sl_ciphertext = seal a (rb_nonce r) (rb_dek r) plaintext (aad i),
      sl_wrapped = seal a (rb_wrap_nonce r) (the (map_of (ev_keks ev) (ev_current ev))) (rb_dek r) (aad i),
      sl_kek = ev_current ev\<rparr>"

definition decrypt :: "aead \<Rightarrow> envelope \<Rightarrow> sealed \<Rightarrow> identity \<Rightarrow> secret_fault + string" where
  "decrypt a ev s i =
     (case map_of (ev_keks ev) (sl_kek s) of
        None \<Rightarrow> Inl (KekNotLoaded (sl_kek s))
      | Some kek \<Rightarrow>
          (case unseal a kek (sl_wrapped s) (aad i) ''wrapped data key'' of
             Inl e \<Rightarrow> Inl e
           | Inr dek \<Rightarrow> unseal a dek (sl_ciphertext s) (aad i) ''secret''))"

definition rewrap :: "aead \<Rightarrow> envelope \<Rightarrow> string \<Rightarrow> sealed \<Rightarrow> identity \<Rightarrow> secret_fault + sealed" where
  "rewrap a ev nonce s i =
     (case map_of (ev_keks ev) (sl_kek s) of
        None \<Rightarrow> Inl (KekNotLoaded (sl_kek s))
      | Some kek \<Rightarrow>
          if sl_kek s = ev_current ev then Inr s
          else (case unseal a kek (sl_wrapped s) (aad i) ''wrapped data key'' of
                  Inl e \<Rightarrow> Inl e
                | Inr dek \<Rightarrow>
                    Inr \<lparr>sl_ciphertext = sl_ciphertext s,
                      sl_wrapped = seal a nonce (the (map_of (ev_keks ev) (ev_current ev))) dek (aad i),
                      sl_kek = ev_current ev\<rparr>))"

subsection \<open>The table of secrets\<close>

record ('c, 'r) sealer =
  en_encrypt :: "'r \<Rightarrow> string \<Rightarrow> identity \<Rightarrow> 'c"
  en_decrypt :: "'c \<Rightarrow> identity \<Rightarrow> secret_fault + string"

record 'c secret_row =
  sr_project :: string
  sr_name :: string
  sr_version :: nat
  sr_sealed :: 'c
  sr_active :: bool \<comment> \<open>\<open>'active'\<close>, otherwise \<open>'retiring'\<close>\<close>
  sr_rotated :: "nat option"

record 'c secret_db =
  sd_rows :: "'c secret_row list"
  sd_now :: nat

type_synonym ('c, 'a) vault = "('c secret_db, secret_fault, 'a) eff"

definition secret_named :: "string \<Rightarrow> string \<Rightarrow> 'c secret_row \<Rightarrow> bool" where
  "secret_named p n r = (sr_project r = p \<and> sr_name r = n)"

definition row_identity :: "'c secret_row \<Rightarrow> identity" where
  "row_identity r = \<lparr>id_project = sr_project r, id_name = sr_name r, id_version = sr_version r\<rparr>"

definition read_secret :: "string \<Rightarrow> string \<Rightarrow> 'c secret_db \<Rightarrow> 'c secret_row option" where
  "read_secret p n db = List.find (\<lambda>r. secret_named p n r \<and> sr_active r) (sd_rows db)"

definition decrypt_row :: "('c, 'r) sealer \<Rightarrow> 'c secret_row \<Rightarrow> ('c, string) vault" where
  "decrypt_row en r = (case en_decrypt en (sr_sealed r) (row_identity r) of Inl e \<Rightarrow> throw e | Inr v \<Rightarrow> ret v)"

definition active_row :: "('c, 'r) sealer \<Rightarrow> 'r \<Rightarrow> string \<Rightarrow> string \<Rightarrow> nat \<Rightarrow> string \<Rightarrow> 'c secret_row" where
  "active_row en rnd p n version value = \<lparr>sr_project = p, sr_name = n, sr_version = version,
     sr_sealed = en_encrypt en rnd value \<lparr>id_project = p, id_name = n, id_version = version\<rparr>,
     sr_active = True, sr_rotated = None\<rparr>"

definition insert_secret :: "'c secret_row \<Rightarrow> ('c, unit) vault" where
  \<comment> \<open>an insert of an active row, refused by the two unique indexes\<close>
  "insert_secret r db =
     (if list_ex (\<lambda>q. secret_named (sr_project r) (sr_name r) q \<and> sr_version q = sr_version r) (sd_rows db)
      then (Inl (DuplicateSecret (sr_name r)), db)
      else if list_ex (\<lambda>q. secret_named (sr_project r) (sr_name r) q \<and> sr_active q) (sd_rows db)
      then (Inl (DuplicateSecret (sr_name r)), db)
      else (Inr (), db\<lparr>sd_rows := sd_rows db @ [r]\<rparr>))"

definition secret_get :: "('c, 'r) sealer \<Rightarrow> string \<Rightarrow> string \<Rightarrow> ('c, string option) vault" where
  "secret_get en p n =
     and_then (gets (read_secret p n)) (\<lambda>row. case row of
       None \<Rightarrow> ret None
     | Some r \<Rightarrow> and_then (decrypt_row en r) (\<lambda>v. ret (Some v)))"

definition secret_put :: "('c, 'r) sealer \<Rightarrow> 'r \<Rightarrow> string \<Rightarrow> string \<Rightarrow> string \<Rightarrow> ('c, unit) vault" where
  \<comment> \<open>\<open>ON CONFLICT (project_id, name, version) DO NOTHING\<close>\<close>
  "secret_put en rnd p n value =
     and_then (gets (list_ex (\<lambda>r. secret_named p n r \<and> sr_version r = 1) \<circ> sd_rows)) (\<lambda>there.
     if there then ret () else insert_secret (active_row en rnd p n 1 value))"

definition next_version :: "string \<Rightarrow> string \<Rightarrow> 'c secret_db \<Rightarrow> nat" where
  \<comment> \<open>\<open>COALESCE(max(version), 0) + 1\<close>\<close>
  "next_version p n db = foldl max 0 (map sr_version (filter (secret_named p n) (sd_rows db))) + 1"

definition retire_row :: "nat \<Rightarrow> 'c secret_row \<Rightarrow> 'c secret_row" where
  "retire_row now r = r\<lparr>sr_active := False, sr_rotated := Some now\<rparr>"

definition secret_replace :: "('c, 'r) sealer \<Rightarrow> 'r \<Rightarrow> string \<Rightarrow> string \<Rightarrow> string \<Rightarrow> ('c, string option \<times> nat) vault" where
  "secret_replace en rnd p n value =
     transaction
       (and_then (secret_get en p n) (\<lambda>previous.
        and_then (gets (next_version p n)) (\<lambda>version.
        and_then (modifies (\<lambda>db. db\<lparr>sd_rows := upd_where (\<lambda>r. secret_named p n r \<and> sr_active r)
                                (retire_row (sd_now db)) (sd_rows db)\<rparr>)) (\<lambda>_.
        and_then (insert_secret (active_row en rnd p n version value)) (\<lambda>_.
        ret (previous, version))))))"

definition secret_rotate :: "('c, 'r) sealer \<Rightarrow> 'r \<Rightarrow> string \<Rightarrow> string \<Rightarrow> string \<Rightarrow> ('c, string \<times> string option \<times> nat) vault" where
  \<comment> \<open>\<open>fresh\<close> is \<open>generateSecret()\<close>\<close>
  "secret_rotate en rnd fresh p n =
     and_then (secret_replace en rnd p n fresh) (\<lambda>(previous, version). ret (fresh, previous, version))"

definition purge_retired :: "string \<Rightarrow> nat \<Rightarrow> ('c, nat) vault" where
  "purge_retired p hours db =
     (let gone = (\<lambda>r. sr_project r = p \<and> \<not> sr_active r \<and>
            (case sr_rotated r of None \<Rightarrow> False | Some t \<Rightarrow> t + hours * 3600000 < sd_now db))
      in (Inr (length (filter gone (sd_rows db))), db\<lparr>sd_rows := filter (\<lambda>r. \<not> gone r) (sd_rows db)\<rparr>))"

definition secret_ensure :: "('c, 'r) sealer \<Rightarrow> 'r \<Rightarrow> string \<Rightarrow> string \<Rightarrow> string \<Rightarrow> ('c, string \<times> bool) vault" where
  \<comment> \<open>\<open>ON CONFLICT DO NOTHING\<close>: any unique index; the value and \<open>created\<close>\<close>
  "secret_ensure en rnd fresh p n =
     and_then (gets (read_secret p n)) (\<lambda>row. case row of
       Some r \<Rightarrow> and_then (decrypt_row en r) (\<lambda>v. ret (v, False))
     | None \<Rightarrow>
         and_then (\<lambda>db. case insert_secret (active_row en rnd p n 1 fresh) db of
             (Inl _, db') \<Rightarrow> (Inr False, db') | (Inr _, db') \<Rightarrow> (Inr True, db')) (\<lambda>inserted.
         if inserted then ret (fresh, True)
         else and_then (gets (read_secret p n)) (\<lambda>winner. case winner of
                None \<Rightarrow> throw (SecretVanished n)
              | Some r \<Rightarrow> and_then (decrypt_row en r) (\<lambda>v. ret (v, False)))))"

definition delete_secrets :: "string \<Rightarrow> ('c, nat) vault" where
  \<comment> \<open>\<open>DELETE FROM project_secrets WHERE project_id = $1\<close>\<close>
  "delete_secrets p db = (Inr (length (filter (\<lambda>r. sr_project r = p) (sd_rows db))),
     db\<lparr>sd_rows := filter (\<lambda>r. sr_project r \<noteq> p) (sd_rows db)\<rparr>)"

subsection \<open>Decimal numbers are told apart\<close>

definition value_of_digits :: "string \<Rightarrow> nat" where
  "value_of_digits s = foldl (\<lambda>n c. n * 10 + (unit_of c - 48)) 0 s"

lemma unit_of_digit: "n < 10 \<Longrightarrow> unit_of (char_of (48 + n)) = 48 + n"
  by (simp add: unit_of_def)

lemma value_of_string [simp]: "value_of_digits (string_of_nat n) = n"
proof (induction n rule: string_of_nat.induct)
  case (1 n)
  then show ?case
    by (subst string_of_nat.simps) (auto simp: value_of_digits_def unit_of_digit)
qed

lemma string_of_nat_inject [simp]: "string_of_nat m = string_of_nat n \<longleftrightarrow> m = n"
  by (metis value_of_string)

lemma append_sep_inject:
  "c \<notin> set a \<Longrightarrow> c \<notin> set b \<Longrightarrow> a @ c # s = b @ c # t \<longleftrightarrow> a = b \<and> s = t"
proof (induction a arbitrary: b)
  case Nil
  then show ?case by (cases b) auto
next
  case (Cons x a)
  then show ?case by (cases b) auto
qed

definition plain_identity :: "identity \<Rightarrow> bool" where
  \<comment> \<open>a uuid and a name of the column's \<open>CHECK\<close> hold no blank\<close>
  "plain_identity i = (CHR '' '' \<notin> set (id_project i) \<and> CHR '' '' \<notin> set (id_name i))"

lemma aad_inject: "plain_identity i \<Longrightarrow> plain_identity j \<Longrightarrow> aad i = aad j \<longleftrightarrow> i = j"
  by (cases i; cases j) (auto simp: aad_def plain_identity_def append_sep_inject)

subsection \<open>The envelope opens what it sealed\<close>

definition aead_opens :: "aead \<Rightarrow> bool" where
  "aead_opens a = (\<forall>key nonce ad p. case ac_seal a key nonce ad p of
     (tag, body) \<Rightarrow> length tag = TAG_BYTES \<and> ac_open a key nonce ad tag body = Some p)"

definition aead_binds :: "aead \<Rightarrow> bool" where
  "aead_binds a = (\<forall>key nonce ad ad' p. ad \<noteq> ad' \<longrightarrow> (case ac_seal a key nonce ad p of
     (tag, body) \<Rightarrow> ac_open a key nonce ad' tag body = None))"

definition random_ok :: "random_bytes \<Rightarrow> bool" where
  "random_ok r = (length (rb_nonce r) = NONCE_BYTES \<and> length (rb_wrap_nonce r) = NONCE_BYTES)"

lemma unseal_seal:
  assumes "aead_opens a" "length nonce = NONCE_BYTES"
  shows "unseal a key (seal a nonce key p ad) ad what = Inr p"
proof -
  obtain tag body where s: "ac_seal a key nonce ad p = (tag, body)" by fastforce
  with assms(1)[unfolded aead_opens_def, rule_format, of key nonce ad p]
  have "length tag = TAG_BYTES \<and> ac_open a key nonce ad tag body = Some p" by simp
  then show ?thesis using s assms(2) by (simp add: unseal_def seal_def)
qed

lemma unseal_other:
  assumes "aead_opens a" "aead_binds a" "length nonce = NONCE_BYTES" "ad \<noteq> ad'"
  shows "unseal a key (seal a nonce key p ad) ad' what = Inl (FailedAuthentication what)"
proof -
  obtain tag body where s: "ac_seal a key nonce ad p = (tag, body)" by fastforce
  with assms(1)[unfolded aead_opens_def, rule_format, of key nonce ad p] have "length tag = TAG_BYTES" by simp
  moreover from s assms(2)[unfolded aead_binds_def, rule_format, OF assms(4), of key nonce p]
  have "ac_open a key nonce ad' tag body = None" by simp
  ultimately show ?thesis using s assms(3) by (simp add: unseal_def seal_def)
qed

lemma create_envelopeD:
  assumes "create_envelope dir kek_id = Inr ev"
  obtains key where "map_of (ev_keks ev) (ev_current ev) = Some key"
  using assms by (auto simp: create_envelope_def Let_def split: sum.splits if_splits)

text \<open>
  A sealed secret belongs to its row: an envelope opens what it sealed for a project, name and version, and
  opens it for no other project, name or version, so a ciphertext copied into another row is refused. Wrapping
  it again under a newer master key, in an envelope that still holds the old one, keeps both.
\<close>

theorem sealed_secret_is_bound_to_its_row:
  assumes "create_envelope dir kek_id = Inr ev" "aead_opens a" "aead_binds a" "random_ok r"
    and "plain_identity i" "plain_identity j" "j \<noteq> i"
    and "create_envelope dir' kek_id' = Inr ev'" "length nonce = NONCE_BYTES"
    and "map_of (ev_keks ev') (ev_current ev) = map_of (ev_keks ev) (ev_current ev)"
  shows "decrypt a ev (encrypt a ev r v i) i = Inr v \<and>
    decrypt a ev (encrypt a ev r v i) j = Inl (FailedAuthentication ''wrapped data key'') \<and>
    (\<exists>s. rewrap a ev' nonce (encrypt a ev r v i) i = Inr s \<and> sl_kek s = ev_current ev' \<and>
      decrypt a ev' s i = Inr v \<and> decrypt a ev' s j = Inl (FailedAuthentication ''wrapped data key''))"
proof -
  obtain key where key: "map_of (ev_keks ev) (ev_current ev) = Some key"
    using create_envelopeD[OF assms(1)] .
  obtain key' where key': "map_of (ev_keks ev') (ev_current ev') = Some key'"
    using create_envelopeD[OF assms(8)] .
  have r: "length (rb_nonce r) = NONCE_BYTES" "length (rb_wrap_nonce r) = NONCE_BYTES"
    using assms(4) by (simp_all add: random_ok_def)
  have ij: "aad i \<noteq> aad j" using aad_inject[OF assms(5,6)] assms(7) by auto
  note opened = unseal_seal[OF assms(2) r(1)] unseal_seal[OF assms(2) r(2)] unseal_seal[OF assms(2,9)]
    unseal_other[OF assms(2,3) r(2) ij] unseal_other[OF assms(2,3,9) ij]
  show ?thesis using key key' assms(10)
    by (cases "ev_current ev' = ev_current ev") (auto simp: decrypt_def encrypt_def rewrap_def opened)
qed

subsection \<open>One active version\<close>

definition sealer_ok :: "('c, 'r) sealer \<Rightarrow> bool" where
  "sealer_ok en = (\<forall>r v i. en_decrypt en (en_encrypt en r v i) i = Inr v)"

definition secrets_ok :: "('c, 'r) sealer \<Rightarrow> 'c secret_db \<Rightarrow> bool" where
  "secrets_ok en db =
     (distinct (map (\<lambda>r. (sr_project r, sr_name r, sr_version r)) (sd_rows db)) \<and>
      (\<forall>r \<in> set (sd_rows db). 0 < sr_version r \<and> (\<exists>v. en_decrypt en (sr_sealed r) (row_identity r) = Inr v) \<and>
        (sr_active r \<longrightarrow> (\<forall>q \<in> set (sd_rows db). secret_named (sr_project r) (sr_name r) q \<longrightarrow> sr_version q \<le> sr_version r)) \<and>
        (\<exists>q \<in> set (sd_rows db). secret_named (sr_project r) (sr_name r) q \<and> sr_active q)))"

datatype 'r secret_op =
    Put 'r string string string
  | Replace 'r string string string
  | Rotate 'r string string string
  | Ensure 'r string string string
  | PurgeRetired string nat
  | DeleteAll string
  | Wait nat

fun secret_step :: "('c, 'r) sealer \<Rightarrow> 'r secret_op \<Rightarrow> 'c secret_db \<Rightarrow> 'c secret_db" where
  "secret_step en (Put r p n v) db = snd (secret_put en r p n v db)"
| "secret_step en (Replace r p n v) db = snd (secret_replace en r p n v db)"
| "secret_step en (Rotate r v p n) db = snd (secret_rotate en r v p n db)"
| "secret_step en (Ensure r v p n) db = snd (secret_ensure en r v p n db)"
| "secret_step en (PurgeRetired p h) db = snd (purge_retired p h db)"
| "secret_step en (DeleteAll p) db = snd (delete_secrets p db)"
| "secret_step en (Wait t) db = db\<lparr>sd_now := sd_now db + t\<rparr>"

lemma foldl_max_le: "x \<in> set xs \<or> x = b \<Longrightarrow> (x::nat) \<le> foldl max b xs"
proof (induction xs arbitrary: b x)
  case (Cons y ys)
  have "max b y \<le> foldl max (max b y) ys" by (rule Cons.IH) simp
  then show ?case using Cons.IH[of x "max b y"] Cons.prems by auto
qed simp

lemma next_version_above: "q \<in> set (sd_rows db) \<Longrightarrow> secret_named p n q \<Longrightarrow> sr_version q < next_version p n db"
  using foldl_max_le[of "sr_version q" "map sr_version (filter (secret_named p n) (sd_rows db))" 0]
  by (auto simp: next_version_def less_Suc_eq_le)

lemma secrets_okD:
  assumes "secrets_ok en db" "r \<in> set (sd_rows db)"
  shows "0 < sr_version r" "\<exists>v. en_decrypt en (sr_sealed r) (row_identity r) = Inr v"
    "sr_active r \<Longrightarrow> q \<in> set (sd_rows db) \<Longrightarrow> secret_named (sr_project r) (sr_name r) q \<Longrightarrow> sr_version q \<le> sr_version r"
    "\<exists>q \<in> set (sd_rows db). secret_named (sr_project r) (sr_name r) q \<and> sr_active q"
  using assms by (auto simp: secrets_ok_def)

lemma one_active:
  assumes "secrets_ok en db" "r \<in> set (sd_rows db)" "q \<in> set (sd_rows db)" "secret_named p n r" "secret_named p n q" "sr_active r" "sr_active q"
  shows "r = q"
proof -
  have "sr_version r = sr_version q"
    using secrets_okD(3)[OF assms(1,2,6,3)] secrets_okD(3)[OF assms(1,3,7,2)] assms(4,5) by (auto simp: secret_named_def)
  then show ?thesis using assms unique_key[of "\<lambda>r. (sr_project r, sr_name r, sr_version r)" "sd_rows db" r q]
    by (auto simp: secrets_ok_def secret_named_def)
qed

lemma read_secret_iff:
  assumes "secrets_ok en db"
  shows "read_secret p n db = Some r \<longleftrightarrow> r \<in> set (sd_rows db) \<and> secret_named p n r \<and> sr_active r"
proof
  assume "r \<in> set (sd_rows db) \<and> secret_named p n r \<and> sr_active r"
  moreover then obtain q where "read_secret p n db = Some q"
    unfolding read_secret_def by (cases "List.find (\<lambda>r. secret_named p n r \<and> sr_active r) (sd_rows db)") (auto simp: find_None_iff)
  ultimately show "read_secret p n db = Some r"
    using one_active[OF assms, of r q] by (auto simp: read_secret_def dest: find_SomeD)
qed (auto simp: read_secret_def dest: find_SomeD)

lemma read_secret_None:
  assumes "secrets_ok en db" "read_secret p n db = None" "r \<in> set (sd_rows db)"
  shows "\<not> secret_named p n r"
  using assms secrets_okD(4)[OF assms(1,3)] by (auto simp: read_secret_def find_None_iff secret_named_def)

lemma active_row_simps [simp]:
  "sr_project (active_row en rnd p n v x) = p" "sr_name (active_row en rnd p n v x) = n"
  "sr_version (active_row en rnd p n v x) = v" "sr_active (active_row en rnd p n v x)"
  "secret_named p' n' (active_row en rnd p n v x) \<longleftrightarrow> p = p' \<and> n = n'"
  "row_identity (active_row en rnd p n v x) = \<lparr>id_project = p, id_name = n, id_version = v\<rparr>"
  by (auto simp: active_row_def secret_named_def row_identity_def)

lemma retire_row_simps [simp]:
  "sr_project (retire_row t r) = sr_project r" "sr_name (retire_row t r) = sr_name r"
  "sr_version (retire_row t r) = sr_version r" "\<not> sr_active (retire_row t r)" "sr_sealed (retire_row t r) = sr_sealed r"
  "secret_named p n (retire_row t r) = secret_named p n r" "row_identity (retire_row t r) = row_identity r"
  by (auto simp: retire_row_def secret_named_def row_identity_def)

lemma decrypt_active [simp]:
  "sealer_ok en \<Longrightarrow> en_decrypt en (sr_sealed (active_row en rnd p n v x)) \<lparr>id_project = p, id_name = n, id_version = v\<rparr> = Inr x"
  by (simp add: sealer_ok_def active_row_def)

definition superseded :: "('c, 'r) sealer \<Rightarrow> 'r \<Rightarrow> string \<Rightarrow> string \<Rightarrow> string \<Rightarrow> 'c secret_db \<Rightarrow> 'c secret_db" where
  "superseded en rnd p n x db = db\<lparr>sd_rows := upd_where (\<lambda>r. secret_named p n r \<and> sr_active r) (retire_row (sd_now db)) (sd_rows db)
     @ [active_row en rnd p n (next_version p n db) x]\<rparr>"

lemma superseded_ok:
  assumes "secrets_ok en db" "sealer_ok en"
  shows "secrets_ok en (superseded en rnd p n x db)"
proof -
  let ?f = "\<lambda>r. if secret_named p n r \<and> sr_active r then retire_row (sd_now db) r else r"
  let ?key = "\<lambda>r. (sr_project r, sr_name r, sr_version r)"
  have keys: "map ?key (upd_where (\<lambda>r. secret_named p n r \<and> sr_active r) (retire_row (sd_now db)) (sd_rows db)) = map ?key (sd_rows db)"
    by (rule upd_where_key) simp
  have "distinct (map ?key (sd_rows db))" using assms(1) by (simp add: secrets_ok_def)
  moreover have "(p, n, next_version p n db) \<notin> ?key ` set (sd_rows db)"
    using next_version_above[of _ db p n] by (fastforce simp: secret_named_def)
  ultimately have d: "distinct (map ?key (sd_rows (superseded en rnd p n x db)))"
    unfolding superseded_def by (simp add: keys)
  have rows: "set (sd_rows (superseded en rnd p n x db)) = insert (active_row en rnd p n (next_version p n db) x) (?f ` set (sd_rows db))"
    by (auto simp: superseded_def upd_where_set)
  have "\<exists>q \<in> set (sd_rows (superseded en rnd p n x db)). secret_named (sr_project r) (sr_name r) q \<and> sr_active q" if "r \<in> set (sd_rows db)" for r
  proof (cases "secret_named p n r")
    case True then show ?thesis unfolding rows by (auto simp: secret_named_def)
  next
    case False
    from secrets_okD(4)[OF assms(1) that] obtain q where "q \<in> set (sd_rows db)" "secret_named (sr_project r) (sr_name r) q" "sr_active q" by blast
    moreover then have "q \<in> ?f ` set (sd_rows db)" using False by (intro image_eqI[of _ _ q]) (auto simp: secret_named_def)
    ultimately show ?thesis unfolding rows by blast
  qed
  note lives = this
  have top: "sr_version q \<le> next_version p n db" if "q \<in> set (sd_rows db)" "secret_named p n q" for q
    using next_version_above[OF that] by simp
  have kept: "0 < sr_version r" "\<exists>v. en_decrypt en (sr_sealed r) (row_identity r) = Inr v"
    "sr_active r \<Longrightarrow> q \<in> set (sd_rows (superseded en rnd p n x db)) \<Longrightarrow> secret_named (sr_project r) (sr_name r) q \<Longrightarrow> sr_version q \<le> sr_version r"
    if r: "r \<in> ?f ` set (sd_rows db)" for r q
  proof -
    obtain r' where r': "r = ?f r'" "r' \<in> set (sd_rows db)" using r by blast
    show "0 < sr_version r" "\<exists>v. en_decrypt en (sr_sealed r) (row_identity r) = Inr v"
      using secrets_okD(1,2)[OF assms(1) r'(2)] r'(1) by simp_all
    assume a: "sr_active r" and q: "q \<in> set (sd_rows (superseded en rnd p n x db))" "secret_named (sr_project r) (sr_name r) q"
    from a r'(1) have e: "r = r'" "\<not> secret_named p n r'" by (auto split: if_splits)
    then have "q \<noteq> active_row en rnd p n (next_version p n db) x" using q(2) by (auto simp: secret_named_def)
    with q(1) obtain q' where "q = ?f q'" "q' \<in> set (sd_rows db)" unfolding rows by blast
    moreover then have "secret_named (sr_project r') (sr_name r') q'" using q(2) e by (simp split: if_splits)
    ultimately show "sr_version q \<le> sr_version r"
      using secrets_okD(3)[OF assms(1) r'(2)] a e by simp
  qed
  have sibling: "\<exists>q \<in> set (sd_rows (superseded en rnd p n x db)). secret_named (sr_project r) (sr_name r) q \<and> sr_active q"
    if r: "r \<in> ?f ` set (sd_rows db)" for r
    using r lives by (auto split: if_splits)
  have new: "sr_version q \<le> next_version p n db" if "q \<in> set (sd_rows (superseded en rnd p n x db))" "secret_named p n q" for q
    using that top unfolding rows by (auto split: if_splits)
  have pos: "0 < next_version p n db" by (simp add: next_version_def)
  show ?thesis unfolding secrets_ok_def
  proof (intro conjI ballI d)
    fix r assume "r \<in> set (sd_rows (superseded en rnd p n x db))"
    then consider "r = active_row en rnd p n (next_version p n db) x" | "r \<in> ?f ` set (sd_rows db)" unfolding rows by blast
    note cases = this
    show "0 < sr_version r" by (cases rule: cases) (use pos kept(1) in auto)
    show "\<exists>v. en_decrypt en (sr_sealed r) (row_identity r) = Inr v" by (cases rule: cases) (use assms(2) kept(2) in auto)
    show "sr_active r \<longrightarrow> (\<forall>q \<in> set (sd_rows (superseded en rnd p n x db)). secret_named (sr_project r) (sr_name r) q \<longrightarrow> sr_version q \<le> sr_version r)"
      by (cases rule: cases) (use new kept(3) in auto)
    show "\<exists>q \<in> set (sd_rows (superseded en rnd p n x db)). secret_named (sr_project r) (sr_name r) q \<and> sr_active q"
      by (cases rule: cases) (use sibling rows in auto)
  qed
qed

definition first_row :: "('c, 'r) sealer \<Rightarrow> 'r \<Rightarrow> string \<Rightarrow> string \<Rightarrow> string \<Rightarrow> 'c secret_db \<Rightarrow> 'c secret_db" where
  "first_row en rnd p n x db = db\<lparr>sd_rows := sd_rows db @ [active_row en rnd p n 1 x]\<rparr>"

lemma first_row_ok:
  assumes "secrets_ok en db" "sealer_ok en" "\<And>r. r \<in> set (sd_rows db) \<Longrightarrow> \<not> secret_named p n r"
  shows "secrets_ok en (first_row en rnd p n x db)"
proof -
  have "superseded en rnd p n x db = first_row en rnd p n x db"
  proof -
    have "filter (secret_named p n) (sd_rows db) = []" using assms(3) by (auto simp: filter_empty_conv)
    then have "next_version p n db = 1" by (simp add: next_version_def)
    moreover have "upd_where (\<lambda>r. secret_named p n r \<and> sr_active r) (retire_row (sd_now db)) (sd_rows db) = sd_rows db"
      by (rule upd_where_none) (use assms(3) in auto)
    ultimately show ?thesis by (simp add: superseded_def first_row_def)
  qed
  then show ?thesis using superseded_ok[OF assms(1,2)] by metis
qed

lemma insert_first:
  assumes "secrets_ok en db"
  shows "insert_secret (active_row en rnd p n 1 x) db =
    (if \<exists>r \<in> set (sd_rows db). secret_named p n r then (Inl (DuplicateSecret n), db)
     else (Inr (), first_row en rnd p n x db))"
  using secrets_okD(4)[OF assms]
  by (auto simp: insert_secret_def first_row_def list_ex_iff secret_named_def)

lemma decrypt_row_ok:
  assumes "secrets_ok en db" "r \<in> set (sd_rows db)"
  obtains v where "en_decrypt en (sr_sealed r) (row_identity r) = Inr v" "\<And>s. decrypt_row en r s = (Inr v, s)"
  using secrets_okD(2)[OF assms] by (auto simp: decrypt_row_def ret_def)

definition stored_value :: "('c, 'r) sealer \<Rightarrow> string \<Rightarrow> string \<Rightarrow> 'c secret_db \<Rightarrow> string option" where
  "stored_value en p n db = (case read_secret p n db of None \<Rightarrow> None
     | Some r \<Rightarrow> (case en_decrypt en (sr_sealed r) (row_identity r) of Inl _ \<Rightarrow> None | Inr v \<Rightarrow> Some v))"

lemma secret_get_eq:
  assumes "secrets_ok en db"
  shows "secret_get en p n db = (Inr (stored_value en p n db), db)"
proof (cases "read_secret p n db")
  case None
  then show ?thesis by (simp add: secret_get_def stored_value_def and_then_def gets_def ret_def)
next
  case (Some r)
  then have "r \<in> set (sd_rows db)" using read_secret_iff[OF assms] by blast
  then obtain v where "en_decrypt en (sr_sealed r) (row_identity r) = Inr v" "\<And>s. decrypt_row en r s = (Inr v, s)"
    using decrypt_row_ok[OF assms] by metis
  with Some show ?thesis by (simp add: secret_get_def stored_value_def and_then_def gets_def ret_def)
qed

lemma secret_put_eq:
  assumes "secrets_ok en db"
  shows "secret_put en rnd p n x db =
    (if \<exists>r \<in> set (sd_rows db). secret_named p n r \<and> sr_version r = 1 then (Inr (), db)
     else if \<exists>r \<in> set (sd_rows db). secret_named p n r then (Inl (DuplicateSecret n), db)
     else (Inr (), first_row en rnd p n x db))"
  by (auto simp: secret_put_def and_then_def gets_def ret_def list_ex_iff insert_first[OF assms] simp del: One_nat_def)

lemma superseded_simps [simp]: "sd_now (superseded en rnd p n x db) = sd_now db" "sd_now (first_row en rnd p n x db) = sd_now db"
  by (simp_all add: superseded_def first_row_def)

lemma secret_replace_eq:
  assumes "secrets_ok en db"
  shows "secret_replace en rnd p n x db =
    (Inr (stored_value en p n db, next_version p n db), superseded en rnd p n x db)"
proof -
  let ?rows = "upd_where (\<lambda>r. secret_named p n r \<and> sr_active r) (retire_row (sd_now db)) (sd_rows db)"
  have "insert_secret (active_row en rnd p n (next_version p n db) x) (db\<lparr>sd_rows := ?rows\<rparr>) =
      (Inr (), superseded en rnd p n x db)"
  proof -
    have "\<not> (secret_named p n q \<and> sr_version q = next_version p n db)" "\<not> (secret_named p n q \<and> sr_active q)" if "q \<in> set ?rows" for q
      using that by (auto simp: upd_where_set split: if_splits dest!: next_version_above)
    then show ?thesis by (simp add: insert_secret_def superseded_def list_ex_iff)
  qed
  then show ?thesis
    by (simp add: secret_replace_def transaction_def and_then_def gets_def modifies_def ret_def secret_get_eq[OF assms])
qed

lemma secret_rotate_eq:
  "secrets_ok en db \<Longrightarrow> secret_rotate en rnd x p n db =
    (Inr (x, stored_value en p n db, next_version p n db), superseded en rnd p n x db)"
  by (simp add: secret_rotate_def and_then_def ret_def secret_replace_eq)

lemma stored_value_None:
  assumes "secrets_ok en db"
  shows "stored_value en p n db = None \<longleftrightarrow> read_secret p n db = None"
proof (cases "read_secret p n db")
  case (Some r)
  then have "r \<in> set (sd_rows db)" using read_secret_iff[OF assms] by blast
  from secrets_okD(2)[OF assms this] Some show ?thesis by (auto simp: stored_value_def)
qed (simp add: stored_value_def)

lemma secret_ensure_eq:
  assumes "secrets_ok en db"
  shows "secret_ensure en rnd x p n db =
    (case stored_value en p n db of Some v \<Rightarrow> (Inr (v, False), db)
     | None \<Rightarrow> (Inr (x, True), first_row en rnd p n x db))"
proof (cases "read_secret p n db")
  case None
  then show ?thesis using read_secret_None[OF assms None]
    by (auto simp: secret_ensure_def stored_value_def and_then_def gets_def ret_def insert_first[OF assms] simp del: One_nat_def)
next
  case (Some r)
  then have "r \<in> set (sd_rows db)" using read_secret_iff[OF assms] by blast
  then obtain v where "en_decrypt en (sr_sealed r) (row_identity r) = Inr v" "\<And>s. decrypt_row en r s = (Inr v, s)"
    using decrypt_row_ok[OF assms] by metis
  with Some show ?thesis by (simp add: secret_ensure_def stored_value_def and_then_def gets_def ret_def)
qed

lemma secrets_ok_filter:
  assumes "secrets_ok en db" "\<And>r q. secret_named (sr_project r) (sr_name r) q \<Longrightarrow> sr_active q \<Longrightarrow> P r \<Longrightarrow> P q"
  shows "secrets_ok en (db\<lparr>sd_rows := filter P (sd_rows db)\<rparr>)"
  using assms unfolding secrets_ok_def by (fastforce simp: distinct_map_filter)

lemma secrets_ok_time [simp]: "secrets_ok en (db\<lparr>sd_now := t\<rparr>) = secrets_ok en db"
  by (simp add: secrets_ok_def)

lemma secret_step_ok:
  assumes "secrets_ok en db" "sealer_ok en"
  shows "secrets_ok en (secret_step en op db)"
proof (cases op)
  case (Put r p n v)
  then show ?thesis using assms by (auto simp: secret_put_eq intro: first_row_ok)
next
  case (Replace r p n v)
  then show ?thesis using assms by (simp add: secret_replace_eq superseded_ok)
next
  case (Rotate r v p n)
  then show ?thesis using assms by (simp add: secret_rotate_eq superseded_ok)
next
  case (Ensure r v p n)
  then show ?thesis using assms stored_value_None[OF assms(1), of p n] read_secret_None[OF assms(1), of p n]
    by (auto simp: secret_ensure_eq split: option.splits intro!: first_row_ok)
next
  case (PurgeRetired p h)
  then show ?thesis using assms by (auto simp: purge_retired_def Let_def intro!: secrets_ok_filter)
next
  case (DeleteAll p)
  then show ?thesis using assms by (auto simp: delete_secrets_def secret_named_def intro!: secrets_ok_filter)
next
  case (Wait t)
  then show ?thesis using assms by simp
qed

lemma stored_valueI:
  assumes "secrets_ok en db" "r \<in> set (sd_rows db)" "secret_named p n r" "sr_active r" "en_decrypt en (sr_sealed r) (row_identity r) = Inr v"
  shows "stored_value en p n db = Some v"
  using assms read_secret_iff[OF assms(1), of p n r] by (simp add: stored_value_def)

lemma stored_value_cong:
  assumes "secrets_ok en db" "secrets_ok en db'"
    and "\<And>r. secret_named p n r \<Longrightarrow> sr_active r \<Longrightarrow> r \<in> set (sd_rows db) \<longleftrightarrow> r \<in> set (sd_rows db')"
  shows "stored_value en p n db = stored_value en p n db'"
proof -
  have "read_secret p n db = Some r \<longleftrightarrow> read_secret p n db' = Some r" for r
    using assms(3)[of r] by (auto simp: read_secret_iff[OF assms(1)] read_secret_iff[OF assms(2)])
  then have "read_secret p n db = read_secret p n db'" by (metis option.exhaust)
  then show ?thesis by (simp add: stored_value_def)
qed

lemma stored_value_superseded:
  assumes "secrets_ok en db" "sealer_ok en"
  shows "stored_value en p' n' (superseded en rnd p n x db) = (if p' = p \<and> n' = n then Some x else stored_value en p' n' db)"
proof (cases "p' = p \<and> n' = n")
  case True
  then show ?thesis using superseded_ok[OF assms] assms(2)
    by (auto intro!: stored_valueI[of _ _ "active_row en rnd p n (next_version p n db) x"] simp: superseded_def)
next
  case False
  then have "stored_value en p' n' (superseded en rnd p n x db) = stored_value en p' n' db"
    using superseded_ok[OF assms] assms(1)
    by (intro stored_value_cong) (auto simp: superseded_def upd_where_set secret_named_def split: if_splits)
  with False show ?thesis by auto
qed

lemma stored_value_first:
  assumes "secrets_ok en db" "sealer_ok en" "\<And>r. r \<in> set (sd_rows db) \<Longrightarrow> \<not> secret_named p n r"
  shows "stored_value en p' n' (first_row en rnd p n x db) = (if p' = p \<and> n' = n then Some x else stored_value en p' n' db)"
proof (cases "p' = p \<and> n' = n")
  case True
  then show ?thesis using first_row_ok[OF assms] assms(2)
    by (auto intro!: stored_valueI[of _ _ "active_row en rnd p n 1 x"] simp: first_row_def simp del: One_nat_def)
next
  case False
  then have "stored_value en p' n' (first_row en rnd p n x db) = stored_value en p' n' db"
    using first_row_ok[OF assms] assms(1)
    by (intro stored_value_cong) (auto simp: first_row_def simp del: One_nat_def)
  with False show ?thesis by auto
qed

lemma stored_value_has_row:
  assumes "secrets_ok en db"
  shows "stored_value en p n db \<noteq> None \<longleftrightarrow> (\<exists>r \<in> set (sd_rows db). secret_named p n r)"
proof
  assume "\<exists>r \<in> set (sd_rows db). secret_named p n r"
  then show "stored_value en p n db \<noteq> None"
    using read_secret_None[OF assms, of p n] stored_value_None[OF assms, of p n] by blast
next
  assume "stored_value en p n db \<noteq> None"
  then obtain r where "read_secret p n db = Some r"
    using stored_value_None[OF assms, of p n] by (cases "read_secret p n db") auto
  then show "\<exists>r \<in> set (sd_rows db). secret_named p n r" using read_secret_iff[OF assms] by blast
qed

type_synonym secret_map = "string \<Rightarrow> string \<Rightarrow> string option"

definition set_value :: "string \<Rightarrow> string \<Rightarrow> string \<Rightarrow> secret_map \<Rightarrow> secret_map" where
  "set_value p n v m = (\<lambda>p' n'. if p' = p \<and> n' = n then Some v else m p' n')"

fun map_step :: "'r secret_op \<Rightarrow> secret_map \<Rightarrow> secret_map" where
  "map_step (Put r p n v) m = (if m p n = None then set_value p n v m else m)"
| "map_step (Replace r p n v) m = set_value p n v m"
| "map_step (Rotate r v p n) m = set_value p n v m"
| "map_step (Ensure r v p n) m = (if m p n = None then set_value p n v m else m)"
| "map_step (PurgeRetired p h) m = m"
| "map_step (DeleteAll p) m = (\<lambda>p' n'. if p' = p then None else m p' n')"
| "map_step (Wait t) m = m"

definition abs_secrets :: "('c, 'r) sealer \<Rightarrow> 'c secret_db \<Rightarrow> secret_map" where
  "abs_secrets en db = (\<lambda>p n. stored_value en p n db)"

lemma abs_superseded:
  "secrets_ok en db \<Longrightarrow> sealer_ok en \<Longrightarrow> abs_secrets en (superseded en rnd p n x db) = set_value p n x (abs_secrets en db)"
  by (auto simp: abs_secrets_def set_value_def stored_value_superseded fun_eq_iff)

lemma abs_first:
  assumes "secrets_ok en db" "sealer_ok en" "stored_value en p n db = None"
  shows "abs_secrets en (first_row en rnd p n x db) = set_value p n x (abs_secrets en db)"
proof -
  have "\<not> secret_named p n r" if "r \<in> set (sd_rows db)" for r using assms(3) that stored_value_has_row[OF assms(1), of p n] by blast
  then show ?thesis by (auto simp: abs_secrets_def set_value_def stored_value_first[OF assms(1,2)] fun_eq_iff)
qed

lemma secret_step_refines:
  assumes "secrets_ok en db" "sealer_ok en"
  shows "abs_secrets en (secret_step en op db) = map_step op (abs_secrets en db)"
proof (cases op)
  case (Put r p n v)
  have m: "abs_secrets en db p n = None \<longleftrightarrow> \<not> (\<exists>r \<in> set (sd_rows db). secret_named p n r)"
    using stored_value_has_row[OF assms(1), of p n] by (auto simp: abs_secrets_def)
  show ?thesis
  proof (cases "\<exists>r \<in> set (sd_rows db). secret_named p n r")
    case True
    then show ?thesis using m by (auto simp: Put secret_put_eq[OF assms(1)])
  next
    case False
    then have "stored_value en p n db = None" using m by (simp add: abs_secrets_def)
    from abs_first[OF assms this] False m show ?thesis by (auto simp: Put secret_put_eq[OF assms(1)])
  qed
next
  case (Replace r p n v)
  then show ?thesis using assms by (simp add: secret_replace_eq abs_superseded)
next
  case (Rotate r v p n)
  then show ?thesis using assms by (simp add: secret_rotate_eq abs_superseded)
next
  case (Ensure r v p n)
  then show ?thesis using abs_first[OF assms, of p n]
    by (auto simp: secret_ensure_eq[OF assms(1)] abs_secrets_def split: option.splits)
next
  case (PurgeRetired p h)
  have ok: "secrets_ok en (secret_step en op db)" by (rule secret_step_ok[OF assms])
  have "stored_value en p' n' (secret_step en op db) = stored_value en p' n' db" for p' n'
    using ok assms(1) by (intro stored_value_cong) (auto simp: PurgeRetired purge_retired_def Let_def)
  then show ?thesis by (simp add: PurgeRetired abs_secrets_def)
next
  case (DeleteAll p)
  have ok: "secrets_ok en (secret_step en op db)" by (rule secret_step_ok[OF assms])
  have "stored_value en p' n' (secret_step en op db) = (if p' = p then None else stored_value en p' n' db)" for p' n'
  proof (cases "p' = p")
    case True
    then show ?thesis using stored_value_has_row[OF ok, of p' n'] by (auto simp: DeleteAll delete_secrets_def secret_named_def)
  next
    case False
    then have "stored_value en p' n' (secret_step en op db) = stored_value en p' n' db"
      using ok assms(1) by (intro stored_value_cong) (auto simp: DeleteAll delete_secrets_def secret_named_def)
    with False show ?thesis by simp
  qed
  then show ?thesis by (simp add: DeleteAll abs_secrets_def fun_eq_iff)
next
  case (Wait t)
  then show ?thesis by (simp add: abs_secrets_def stored_value_def read_secret_def)
qed

definition no_secrets :: "nat \<Rightarrow> 'c secret_db" where
  "no_secrets t = \<lparr>sd_rows = [], sd_now = t\<rparr>"

lemma secret_history:
  assumes "sealer_ok en"
  shows "secrets_ok en (fold (secret_step en) ops (no_secrets t)) \<and>
    abs_secrets en (fold (secret_step en) ops (no_secrets t)) = fold map_step ops (\<lambda>_ _. None)"
proof (induction ops rule: rev_induct)
  case Nil
  show ?case by (simp add: no_secrets_def secrets_ok_def abs_secrets_def stored_value_def read_secret_def fun_eq_iff)
next
  case (snoc op ops)
  let ?db = "fold (secret_step en) ops (no_secrets t)"
  have ok: "secrets_ok en ?db" and map: "abs_secrets en ?db = fold map_step ops (\<lambda>_ _. None)"
    using snoc.IH by blast+
  show ?case using secret_step_ok[OF ok assms, of op] secret_step_refines[OF ok assms, of op] by (simp add: map)
qed

lemma at_most_one_entry: "distinct xs \<Longrightarrow> (\<And>x y. x \<in> set xs \<Longrightarrow> y \<in> set xs \<Longrightarrow> x = y) \<Longrightarrow> length xs \<le> 1"
  by (metis One_nat_def Suc_leI card_le_Suc0_iff_eq distinct_card finite_set not_le)

text \<open>
  C22. For every history of the store it is a map from project and name to one value: \<open>put\<close> and \<open>ensure\<close>
  write a name once and never again, \<open>replace\<close> and \<open>rotate\<close> put their value in its place, the purge of
  retired versions takes no value away, and only deleting the project's rows does. Reading answers with
  that value and never fails, and no name ever has two active versions.
\<close>

theorem vault_is_a_map:
  fixes en :: "('c, 'r) sealer"
  assumes "sealer_ok en"
  shows "secret_get en p n (fold (secret_step en) ops (no_secrets t)) =
      (Inr (fold map_step ops (\<lambda>_ _. None) p n), fold (secret_step en) ops (no_secrets t)) \<and>
    length (filter (\<lambda>r. secret_named p n r \<and> sr_active r) (sd_rows (fold (secret_step en) ops (no_secrets t)))) \<le> 1"
proof -
  let ?db = "fold (secret_step en) ops (no_secrets t)"
  have ok: "secrets_ok en ?db" and map: "abs_secrets en ?db = fold map_step ops (\<lambda>_ _. None)"
    using secret_history[OF assms] by blast+
  have v: "stored_value en p n ?db = fold map_step ops (\<lambda>_ _. None) p n"
    using fun_cong[OF fun_cong[OF map, of p], of n] by (simp add: abs_secrets_def)
  have "distinct (sd_rows ?db)" using ok by (auto simp: secrets_ok_def distinct_map)
  then have "length (filter (\<lambda>r. secret_named p n r \<and> sr_active r) (sd_rows ?db)) \<le> 1"
    using one_active[OF ok, of _ _ p n] by (intro at_most_one_entry distinct_filter) auto
  then show ?thesis using secret_get_eq[OF ok, of p n] v by simp
qed

subsection \<open>Concrete instances\<close>

definition toy_aead :: aead where
  "toy_aead = \<lparr>ac_seal = (\<lambda>key nonce ad p. (replicate 16 CHR ''t'', replicate (length ad) CHR ''1'' @ CHR ''0'' # ad @ p)),
     ac_open = (\<lambda>key nonce ad tag body.
       let n = length (takeWhile (\<lambda>c. c = CHR ''1'') body); rest = drop (n + 1) body in
       if take n rest = ad then Some (drop n rest) else None)\<rparr>"

lemma toy_takeWhile: "takeWhile (\<lambda>c. c = CHR ''1'') (replicate n CHR ''1'' @ CHR ''0'' # s) = replicate n CHR ''1''"
  by (induction n) auto

lemma toy_aead_ok: "aead_opens toy_aead" "aead_binds toy_aead"
  by (simp_all add: aead_opens_def aead_binds_def toy_aead_def toy_takeWhile TAG_BYTES_def)

definition toy_sealer :: "(string, unit) sealer" where
  "toy_sealer = \<lparr>en_encrypt = (\<lambda>_ v _. v), en_decrypt = (\<lambda>c _. Inr c)\<rparr>"

theorem vault_is_a_map_witness:
  "secret_get toy_sealer ''p'' ''N'' (fold (secret_step toy_sealer)
      [Ensure () ''a'' ''p'' ''N'', Put () ''p'' ''N'' ''b'', Rotate () ''c'' ''p'' ''N'', Put () ''p'' ''N'' ''d''] (no_secrets 0)) =
    (Inr (Some ''c''), fold (secret_step toy_sealer)
      [Ensure () ''a'' ''p'' ''N'', Put () ''p'' ''N'' ''b'', Rotate () ''c'' ''p'' ''N'', Put () ''p'' ''N'' ''d''] (no_secrets 0))"
proof -
  have "sealer_ok toy_sealer" by (simp add: sealer_ok_def toy_sealer_def)
  from vault_is_a_map[OF this, of "''p''" "''N''"
      "[Ensure () ''a'' ''p'' ''N'', Put () ''p'' ''N'' ''b'', Rotate () ''c'' ''p'' ''N'', Put () ''p'' ''N'' ''d'']" 0]
  show ?thesis by (simp add: set_value_def)
qed

definition sample_random :: random_bytes where
  "sample_random = \<lparr>rb_dek = replicate 32 CHR ''d'', rb_nonce = replicate 12 CHR ''n'', rb_wrap_nonce = replicate 12 CHR ''m''\<rparr>"

definition sample_keys :: "(string \<times> string) list" where
  "sample_keys = [(''kek-1.key'', replicate 32 CHR ''k'')]"

theorem sealed_secret_is_bound_to_its_row_witness:
  "\<exists>ev. create_envelope (Some sample_keys) None = Inr ev \<and>
     decrypt toy_aead ev (encrypt toy_aead ev sample_random ''s3cret'' \<lparr>id_project = ''p'', id_name = ''N'', id_version = 1\<rparr>)
       \<lparr>id_project = ''p'', id_name = ''N'', id_version = 2\<rparr> = Inl (FailedAuthentication ''wrapped data key'')"
proof -
  obtain ev where ev: "create_envelope (Some sample_keys) None = Inr ev"
    by (simp add: create_envelope_def load_keks_def sample_keys_def ends_with_def KEY_BYTES_def greatest_id_def Let_def)
  have "decrypt toy_aead ev (encrypt toy_aead ev sample_random ''s3cret'' \<lparr>id_project = ''p'', id_name = ''N'', id_version = 1\<rparr>)
       \<lparr>id_project = ''p'', id_name = ''N'', id_version = 2\<rparr> = Inl (FailedAuthentication ''wrapped data key'')"
    using sealed_secret_is_bound_to_its_row[OF ev toy_aead_ok, of sample_random "\<lparr>id_project = ''p'', id_name = ''N'', id_version = 1\<rparr>"
        "\<lparr>id_project = ''p'', id_name = ''N'', id_version = 2\<rparr>", OF _ _ _ _ ev, of "replicate 12 CHR ''n''"]
    by (simp add: random_ok_def sample_random_def plain_identity_def NONCE_BYTES_def)
  with ev show ?thesis by blast
qed

end
