(* ===== verification/Jwt.thy ===== *)
theory Jwt
  imports Prelude
begin

text \<open>
  Signed tokens: \<open>packages/jwt/src/index.ts\<close>.

  What the file takes from Node (ES256 of \<open>node:crypto\<close>, \<open>base64url\<close>, JSON of a header and of claims) is a
  parameter, the record \<open>jwt_lib\<close>, with its documented facts as the predicate \<open>jwt_lib_ok\<close>. A key in PEM, a
  signature and a part of a token are strings. Claims the verifier does not look at are a list of pairs. A
  time in a claim is \<open>None\<close> when it is not a number.
\<close>

subsection \<open>What Node gives\<close>

record jwt_header =
  hd_alg :: string
  hd_typ :: "string option"
  hd_kid :: "string option"

datatype claim_value =
    Text string
  | Texts "string option list" \<comment> \<open>an array; \<open>None\<close> for an element that is no string\<close>
  | OtherValue

record token_claims =
  cl_iss :: string
  cl_ref :: string
  cl_role :: string
  cl_iat :: "int option"
  cl_exp :: "int option"
  cl_more :: "(string \<times> claim_value) list"

record jwt_lib =
  jl_b64 :: "string \<Rightarrow> string"
  jl_unb64 :: "string \<Rightarrow> string"
  jl_header :: "jwt_header \<Rightarrow> string" \<comment> \<open>\<open>JSON.stringify\<close>\<close>
  jl_claims :: "token_claims \<Rightarrow> string"
  jl_read_header :: "string \<Rightarrow> jwt_header option" \<comment> \<open>\<open>JSON.parse\<close>\<close>
  jl_read_claims :: "string \<Rightarrow> token_claims option"
  jl_pair :: "nat \<Rightarrow> string \<times> string" \<comment> \<open>\<open>generateKeyPairSync\<close>: private and public half\<close>
  jl_sign :: "string \<Rightarrow> string \<Rightarrow> nat \<Rightarrow> string" \<comment> \<open>ECDSA draws a number of its own\<close>
  jl_readable :: "string \<Rightarrow> bool" \<comment> \<open>\<open>createPublicKey\<close> does not throw\<close>
  jl_verify :: "string \<Rightarrow> string \<Rightarrow> string \<Rightarrow> bool"

definition jwt_lib_ok :: "jwt_lib \<Rightarrow> bool" where
  "jwt_lib_ok L =
     ((\<forall>s. jl_unb64 L (jl_b64 L s) = s \<and> CHR ''.'' \<notin> set (jl_b64 L s)) \<and>
      (\<forall>h. jl_read_header L (jl_header L h) = Some h) \<and>
      (\<forall>c. jl_read_claims L (jl_claims L c) = Some c) \<and>
      (\<forall>i m r. case jl_pair L i of (priv, pub) \<Rightarrow>
         jl_readable L pub \<and> length (jl_sign L priv m r) = 64 \<and> jl_verify L pub m (jl_sign L priv m r)))"

subsection \<open>Signing\<close>

definition ALG :: string where "ALG = ''ES256''"

definition signing_input :: "jwt_lib \<Rightarrow> token_claims \<Rightarrow> string \<Rightarrow> string" where
  "signing_input L c kid =
     jl_b64 L (jl_header L \<lparr>hd_alg = ALG, hd_typ = Some ''JWT'', hd_kid = Some kid\<rparr>) @ ''.'' @ jl_b64 L (jl_claims L c)"

definition jwt_sign :: "jwt_lib \<Rightarrow> nat \<Rightarrow> token_claims \<Rightarrow> string \<Rightarrow> string \<Rightarrow> string" where
  \<comment> \<open>\<open>sign(claims, { privateKeyPem, kid })\<close>\<close>
  "jwt_sign L rnd c priv kid =
     (let text = signing_input L c kid in text @ ''.'' @ jl_b64 L (jl_sign L priv text rnd))"

subsection \<open>Verifying\<close>

datatype jwt_fault =
    NotThreeParts
  | NotJson
  | UnsupportedAlg string
  | WrongKid "string option" string
  | BadSignatureLength
  | UnreadableKey
  | SignatureDoesNotVerify
  | TokenExpired
  | NotValidYet
  | WrongIssuer string string

record verify_options =
  vo_pem :: string
  vo_kid :: "string option"
  vo_issuer :: "string option"
  vo_skew :: "int option" \<comment> \<open>\<open>clockToleranceSeconds\<close>\<close>
  vo_now :: nat \<comment> \<open>milliseconds\<close>

definition decode_unverified :: "jwt_lib \<Rightarrow> string \<Rightarrow> jwt_fault + (jwt_header \<times> token_claims)" where
  "decode_unverified L token =
     (case js_split CHR ''.'' token of
        [h, p, _] \<Rightarrow>
          (case (jl_read_header L (jl_unb64 L h), jl_read_claims L (jl_unb64 L p)) of
             (Some header, Some claims) \<Rightarrow> Inr (header, claims)
           | _ \<Rightarrow> Inl NotJson)
      | _ \<Rightarrow> Inl NotThreeParts)"

definition asked_for :: "string option \<Rightarrow> string option" where
  \<comment> \<open>an option that is there and not the empty string\<close>
  "asked_for x = (case x of Some (c # s) \<Rightarrow> Some (c # s) | _ \<Rightarrow> None)"

definition jwt_verify :: "jwt_lib \<Rightarrow> string \<Rightarrow> verify_options \<Rightarrow> jwt_fault + token_claims" where
  "jwt_verify L token opts =
     (case js_split CHR ''.'' token of
        [h, p, s] \<Rightarrow>
          (case decode_unverified L token of
             Inl e \<Rightarrow> Inl e
           | Inr (header, claims) \<Rightarrow>
               if hd_alg header \<noteq> ALG then Inl (UnsupportedAlg (hd_alg header))
               else if asked_for (vo_kid opts) \<noteq> None \<and> hd_kid header \<noteq> asked_for (vo_kid opts)
               then Inl (WrongKid (hd_kid header) (the (vo_kid opts)))
               else (let signature = jl_unb64 L s in
                 if length signature \<noteq> 64 then Inl BadSignatureLength
                 else if \<not> jl_readable L (vo_pem opts) then Inl UnreadableKey
                 else if \<not> jl_verify L (vo_pem opts) (h @ ''.'' @ p) signature then Inl SignatureDoesNotVerify
                 else (let now = int (vo_now opts div 1000);
                           skew = (case vo_skew opts of None \<Rightarrow> 60 | Some t \<Rightarrow> t) in
                   if (case cl_exp claims of None \<Rightarrow> True | Some t \<Rightarrow> t + skew < now) then Inl TokenExpired
                   else if (case cl_iat claims of None \<Rightarrow> False | Some t \<Rightarrow> now < t - skew) then Inl NotValidYet
                   else if asked_for (vo_issuer opts) \<noteq> None \<and> Some (cl_iss claims) \<noteq> asked_for (vo_issuer opts)
                   then Inl (WrongIssuer (cl_iss claims) (the (vo_issuer opts)))
                   else Inr claims)))
      | _ \<Rightarrow> Inl NotThreeParts)"

subsection \<open>Project keys\<close>

definition PROJECT_KEY_TTL_SECONDS :: int where
  "PROJECT_KEY_TTL_SECONDS = 10 * 365 * 24 * 60 * 60"

definition project_key_claims :: "string \<Rightarrow> string \<Rightarrow> string \<Rightarrow> int \<Rightarrow> token_claims" where
  "project_key_claims ref role issuer iat = \<lparr>cl_iss = issuer, cl_ref = ref, cl_role = role, cl_iat = Some iat,
     cl_exp = Some (iat + PROJECT_KEY_TTL_SECONDS), cl_more = []\<rparr>"

record jwk =
  jw_pem :: string \<comment> \<open>stands for the coordinates of the point\<close>
  jw_kid :: string

definition to_jwk :: "jwt_lib \<Rightarrow> string \<Rightarrow> string \<Rightarrow> jwk option" where
  \<comment> \<open>\<open>None\<close> when \<open>createPublicKey\<close> throws\<close>
  "to_jwk L pem kid = (if jl_readable L pem then Some \<lparr>jw_pem = pem, jw_kid = kid\<rparr> else None)"

definition key_label :: "string \<Rightarrow> string \<Rightarrow> string" where
  "key_label role ref = ''shk_'' @ (if role = ''anon'' then ''anon'' else ''srv'') @ ''_'' @ take 4 ref"

subsection \<open>A token is split where it was joined\<close>

lemma js_split_append: "d \<notin> set a \<Longrightarrow> js_split d (a @ d # s) = a # js_split d s"
  by (induction a) auto

lemma js_split_whole: "d \<notin> set a \<Longrightarrow> js_split d a = [a]"
  by (induction a) auto

lemma jwt_lib_okD:
  assumes "jwt_lib_ok L"
  shows "jl_unb64 L (jl_b64 L s) = s" "CHR ''.'' \<notin> set (jl_b64 L s)"
    "jl_read_header L (jl_header L h) = Some h" "jl_read_claims L (jl_claims L c) = Some c"
    "jl_pair L i = (priv, pub) \<Longrightarrow> jl_readable L pub \<and> length (jl_sign L priv m r) = 64 \<and> jl_verify L pub m (jl_sign L priv m r)"
  using assms by (auto simp: jwt_lib_ok_def split: prod.splits)

lemma signed_parts:
  assumes "jwt_lib_ok L"
  shows "js_split CHR ''.'' (jwt_sign L r c priv kid) =
    [jl_b64 L (jl_header L \<lparr>hd_alg = ALG, hd_typ = Some ''JWT'', hd_kid = Some kid\<rparr>), jl_b64 L (jl_claims L c),
     jl_b64 L (jl_sign L priv (signing_input L c kid) r)]"
  using jwt_lib_okD(2)[OF assms]
  by (simp add: jwt_sign_def Let_def signing_input_def js_split_append js_split_whole)

lemma three_parts: "js_split d t = [a, b, s] \<Longrightarrow> t = a @ [d] @ b @ [d] @ s \<and> d \<notin> set a \<and> d \<notin> set b"
  using js_split_join[of d t] js_split_no_sep[of _ d t] by (auto simp: js_join.simps)

lemma decode_signed:
  assumes "jwt_lib_ok L"
  shows "decode_unverified L (jwt_sign L r c priv kid) = Inr (\<lparr>hd_alg = ALG, hd_typ = Some ''JWT'', hd_kid = Some kid\<rparr>, c)"
  by (simp add: decode_unverified_def signed_parts[OF assms] jwt_lib_okD(1,3,4)[OF assms])

definition in_its_time :: "token_claims \<Rightarrow> verify_options \<Rightarrow> bool" where
  \<comment> \<open>neither expired nor of the future, with the tolerance\<close>
  "in_its_time c opts =
     (let now = int (vo_now opts div 1000); skew = (case vo_skew opts of None \<Rightarrow> 60 | Some t \<Rightarrow> t) in
      (\<exists>t. cl_exp c = Some t \<and> now \<le> t + skew) \<and> (\<forall>t. cl_iat c = Some t \<longrightarrow> t - skew \<le> now))"

lemma verify_minted:
  assumes "jwt_lib_ok L" "jl_pair L i = (priv, vo_pem opts)"
    and "asked_for (vo_kid opts) \<in> {None, Some kid}" "asked_for (vo_issuer opts) \<in> {None, Some (cl_iss c)}"
    and "in_its_time c opts"
  shows "jwt_verify L (jwt_sign L r c priv kid) opts = Inr c"
proof -
  have s: "jl_readable L (vo_pem opts)" "length (jl_sign L priv (signing_input L c kid) r) = 64"
    "jl_verify L (vo_pem opts) (signing_input L c kid) (jl_sign L priv (signing_input L c kid) r)"
    using jwt_lib_okD(5)[OF assms(1,2)] by auto
  have input: "jl_b64 L (jl_header L \<lparr>hd_alg = ALG, hd_typ = Some ''JWT'', hd_kid = Some kid\<rparr>) @ ''.'' @ jl_b64 L (jl_claims L c) =
      signing_input L c kid"
    by (simp add: signing_input_def)
  have kid: "\<not> (asked_for (vo_kid opts) \<noteq> None \<and> Some kid \<noteq> asked_for (vo_kid opts))"
    and iss: "\<not> (asked_for (vo_issuer opts) \<noteq> None \<and> Some (cl_iss c) \<noteq> asked_for (vo_issuer opts))"
    using assms(3,4) by auto
  have alive: "\<not> (case cl_exp c of None \<Rightarrow> True | Some t \<Rightarrow> t + (case vo_skew opts of None \<Rightarrow> 60 | Some t \<Rightarrow> t) < int (vo_now opts div 1000))"
    "\<not> (case cl_iat c of None \<Rightarrow> False | Some t \<Rightarrow> int (vo_now opts div 1000) < t - (case vo_skew opts of None \<Rightarrow> 60 | Some t \<Rightarrow> t))"
    using assms(5) by (auto simp: in_its_time_def Let_def split: option.splits)
  show ?thesis
    unfolding jwt_verify_def signed_parts[OF assms(1)] decode_signed[OF assms(1)] list.case sum.case prod.case Let_def
      jwt_lib_okD(1)[OF assms(1)] input
    using s kid iss alive by simp
qed

definition unforgeable :: "jwt_lib \<Rightarrow> string \<Rightarrow> (token_claims \<times> string) set \<Rightarrow> bool" where
  \<comment> \<open>what verifies under a public key was signed by its owner: \<open>S\<close> is what the owner has signed\<close>
  "unforgeable L pub S = (\<forall>m s. jl_verify L pub m s \<longrightarrow> (\<exists>(c, kid) \<in> S. m = signing_input L c kid))"

lemma verify_accepted:
  assumes "jwt_verify L token opts = Inr c"
  obtains h p s header where "js_split CHR ''.'' token = [h, p, s]" "decode_unverified L token = Inr (header, c)"
    "hd_alg header = ALG" "asked_for (vo_kid opts) \<noteq> None \<Longrightarrow> hd_kid header = asked_for (vo_kid opts)"
    "jl_verify L (vo_pem opts) (h @ ''.'' @ p) (jl_unb64 L s)" "in_its_time c opts"
    "asked_for (vo_issuer opts) \<noteq> None \<Longrightarrow> Some (cl_iss c) = asked_for (vo_issuer opts)"
proof -
  obtain h p s where t: "js_split CHR ''.'' token = [h, p, s]"
    using assms unfolding jwt_verify_def by (auto split: list.splits)
  obtain header c' where d: "decode_unverified L token = Inr (header, c')"
    using assms unfolding jwt_verify_def t by (auto split: sum.splits)
  note v = assms[unfolded jwt_verify_def t d list.case sum.case prod.case Let_def]
  have alg: "hd_alg header = ALG"
    and kid: "\<not> (asked_for (vo_kid opts) \<noteq> None \<and> hd_kid header \<noteq> asked_for (vo_kid opts))"
    using v by (auto split: if_splits)
  note v = v[unfolded alg if_not_P[OF kid], simplified]
  show thesis
    by (rule that[OF t _ alg]) (use v d kid in \<open>auto simp: in_its_time_def Let_def split: if_splits option.splits\<close>)
qed

lemma verify_signed:
  assumes "jwt_verify L token opts = Inr c" "jwt_lib_ok L" "unforgeable L (vo_pem opts) S"
  obtains kid where "(c, kid) \<in> S" "in_its_time c opts"
    "decode_unverified L token = Inr (\<lparr>hd_alg = ALG, hd_typ = Some ''JWT'', hd_kid = Some kid\<rparr>, c)"
    "asked_for (vo_kid opts) \<noteq> None \<Longrightarrow> Some kid = asked_for (vo_kid opts)"
    "asked_for (vo_issuer opts) \<noteq> None \<Longrightarrow> Some (cl_iss c) = asked_for (vo_issuer opts)"
proof -
  from assms(1) obtain h p s header where t: "js_split CHR ''.'' token = [h, p, s]" "decode_unverified L token = Inr (header, c)"
    "asked_for (vo_kid opts) \<noteq> None \<Longrightarrow> hd_kid header = asked_for (vo_kid opts)"
    "jl_verify L (vo_pem opts) (h @ ''.'' @ p) (jl_unb64 L s)" "in_its_time c opts"
    "asked_for (vo_issuer opts) \<noteq> None \<Longrightarrow> Some (cl_iss c) = asked_for (vo_issuer opts)"
    by (rule verify_accepted) blast
  from assms(3) t(4) obtain c' kid where c': "(c', kid) \<in> S" "h @ ''.'' @ p = signing_input L c' kid"
    unfolding unforgeable_def by blast
  have "CHR ''.'' \<notin> set h" using three_parts[OF t(1)] by blast
  then have "h = jl_b64 L (jl_header L \<lparr>hd_alg = ALG, hd_typ = Some ''JWT'', hd_kid = Some kid\<rparr>)" "p = jl_b64 L (jl_claims L c')"
    using c'(2) js_split_append[of "CHR ''.''" h p] js_split_append[OF jwt_lib_okD(2)[OF assms(2)], of _ "jl_b64 L (jl_claims L c')"]
      three_parts[OF t(1)] by (auto simp: signing_input_def js_split_whole jwt_lib_okD(2)[OF assms(2)])
  then have d: "decode_unverified L token = Inr (\<lparr>hd_alg = ALG, hd_typ = Some ''JWT'', hd_kid = Some kid\<rparr>, c')"
    using t(1) by (simp add: decode_unverified_def jwt_lib_okD(1,3,4)[OF assms(2)])
  with t(2) have "c' = c" "header = \<lparr>hd_alg = ALG, hd_typ = Some ''JWT'', hd_kid = Some kid\<rparr>" by simp_all
  then show thesis using that[of kid] c'(1) t(3,5,6) d by simp
qed

end
