(* ===== verification/KeyRotation.thy ===== *)
theory KeyRotation
  imports Secrets Jwt
begin

text \<open>
  A project's signing keys: \<open>services/worker/src/key-rotation.ts\<close> and the step \<open>generate_api_keys\<close> of
  \<open>services/worker/src/jobs/sagas.ts\<close>, on the vault of theory \<open>Secrets\<close> and the tokens of theory \<open>Jwt\<close>.

  Neither runs in one transaction: each statement that writes commits on its own. A process may die between
  any two of them, so the state carries a budget of writes, \<open>None\<close> when the process lives: a write with no
  budget left is the error \<open>Died\<close> and changes nothing.
\<close>

subsection \<open>The tables\<close>

datatype key_status = KeyNext | KeyRetiring | KeyRetired

record signing_row =
  sk_project :: string
  sk_kid :: string
  sk_pem :: string
  sk_status :: key_status
  sk_published :: nat
  sk_retire_after :: "nat option"
  sk_retired_at :: "nat option"

record api_key_row =
  ak_project :: string
  ak_kind :: string
  ak_hash :: string
  ak_prefix :: string
  ak_revoked :: "nat option"

record 'c key_db =
  kb_secrets :: "'c secret_db"
  kb_keys :: "signing_row list"
  kb_api :: "api_key_row list"
  kb_refs :: "string \<Rightarrow> string option" \<comment> \<open>\<open>projects\<close>: id to ref\<close>
  kb_budget :: "nat option"

datatype rotation_fault =
    Died
  | VaultFault secret_fault
  | UniqueKeyRow string
  | BadKid string
  | NoNextKey
  | TooYoung nat nat
  | NoActiveKey
  | PrivateHalfMissing string
  | NoSuchProject

type_synonym ('c, 'a) keys = "('c key_db, rotation_fault, 'a) eff"

record ('c, 'r) key_env =
  ke_lib :: jwt_lib
  ke_sealer :: "('c, 'r) sealer"
  ke_hash :: "string \<Rightarrow> string" \<comment> \<open>SHA-256, in hex\<close>
  ke_pinned :: "string option" \<comment> \<open>\<open>SH_JWT_ISSUER\<close>\<close>
  ke_domain :: string
  ke_rnd :: "nat \<Rightarrow> 'r"
  ke_nonce :: "string \<Rightarrow> nat"

definition kb_now :: "'c key_db \<Rightarrow> nat" where
  "kb_now db = sd_now (kb_secrets db)"

definition in_vault :: "('c, 'a) vault \<Rightarrow> ('c, 'a) keys" where
  "in_vault m db = (case m (kb_secrets db) of
     (Inl e, s) \<Rightarrow> (Inl (VaultFault e), db\<lparr>kb_secrets := s\<rparr>) | (Inr a, s) \<Rightarrow> (Inr a, db\<lparr>kb_secrets := s\<rparr>))"

definition commit :: "('c, 'a) keys \<Rightarrow> ('c, 'a) keys" where
  "commit m db = (case kb_budget db of
     Some 0 \<Rightarrow> (Inl Died, db)
   | Some (Suc n) \<Rightarrow> m (db\<lparr>kb_budget := Some n\<rparr>)
   | None \<Rightarrow> m db)"

definition kept :: "('c, 'r) key_env \<Rightarrow> string \<Rightarrow> string \<Rightarrow> ('c, string option) keys" where
  \<comment> \<open>\<open>secrets.get\<close>\<close>
  "kept E p n = in_vault (secret_get (ke_sealer E) p n)"

definition put_secret :: "('c, 'r) key_env \<Rightarrow> string \<Rightarrow> string \<Rightarrow> string \<Rightarrow> ('c, unit) keys" where
  "put_secret E p n v = commit (in_vault (secret_put (ke_sealer E) (ke_rnd E 0) p n v))"

definition replace_secret :: "('c, 'r) key_env \<Rightarrow> string \<Rightarrow> string \<Rightarrow> string \<Rightarrow> ('c, unit) keys" where
  "replace_secret E p n v =
     and_then (commit (in_vault (secret_replace (ke_sealer E) (ke_rnd E 1) p n v))) (\<lambda>_. ret ())"

definition PRIVATE_KEY :: string where "PRIVATE_KEY = ''JWT_PRIVATE_KEY''"
definition PUBLIC_KEY :: string where "PUBLIC_KEY = ''JWT_PUBLIC_KEY''"
definition KEY_ID :: string where "KEY_ID = ''JWT_KID''"

definition SWAP_WINDOW_DAYS :: nat where "SWAP_WINDOW_DAYS = 30"

definition private_key_name :: "string \<Rightarrow> string" where
  "private_key_name kid = PRIVATE_KEY @ ''_'' @ js_upper kid"

definition key_name :: "string \<Rightarrow> string" where
  "key_name role = (if role = ''anon'' then ''ANON_KEY'' else ''SERVICE_ROLE_KEY'')"

definition key_issuer :: "('c, 'r) key_env \<Rightarrow> string \<Rightarrow> string" where
  "key_issuer E ref = (case ke_pinned E of Some i \<Rightarrow> i | None \<Rightarrow> ''https://'' @ ref @ ''.'' @ ke_domain E)"

subsection \<open>What a project publishes\<close>

definition filled :: "string option \<Rightarrow> string option" where
  \<comment> \<open>a string that is there and not empty\<close>
  "filled x = (case x of Some (c # s) \<Rightarrow> Some (c # s) | _ \<Rightarrow> None)"

definition published_rows :: "string \<Rightarrow> 'c key_db \<Rightarrow> signing_row list" where
  "published_rows p db =
     sort_key sk_published (filter (\<lambda>r. sk_project r = p \<and> sk_status r \<in> {KeyNext, KeyRetiring}) (kb_keys db))"

definition published_keys :: "('c, 'r) key_env \<Rightarrow> string \<Rightarrow> ('c, (string \<times> string) list) keys" where
  \<comment> \<open>each key id with its public half, the active key first\<close>
  "published_keys E p =
     and_then (kept E p PUBLIC_KEY) (\<lambda>pub.
     and_then (kept E p KEY_ID) (\<lambda>kid.
     and_then (gets (published_rows p)) (\<lambda>rows.
     ret ((case (filled pub, filled kid) of (Some u, Some k) \<Rightarrow> [(k, u)] | _ \<Rightarrow> []) @
          map (\<lambda>r. (sk_kid r, sk_pem r)) rows))))"

subsection \<open>Rotating\<close>

definition kid_ok :: "string \<Rightarrow> bool" where
  \<comment> \<open>\<open>CHECK (kid ~ '^[a-z0-9_]{4,64}$')\<close>\<close>
  "kid_ok kid = (4 \<le> length kid \<and> length kid \<le> 64 \<and> list_all (\<lambda>c. is_lower c \<or> is_digit c \<or> c = CHR ''_'') kid)"

definition key_row :: "string \<Rightarrow> string \<Rightarrow> signing_row \<Rightarrow> bool" where
  "key_row p kid r = (sk_project r = p \<and> sk_kid r = kid)"

definition insert_next :: "string \<Rightarrow> string \<Rightarrow> string \<Rightarrow> ('c, nat) keys" where
  "insert_next p kid pem db =
     (if \<not> kid_ok kid then (Inl (BadKid kid), db)
      else if list_ex (\<lambda>r. sk_project r = p \<and> (sk_kid r = kid \<or> sk_status r = KeyNext)) (kb_keys db)
      then (Inl (UniqueKeyRow kid), db)
      else (Inr (kb_now db), db\<lparr>kb_keys := kb_keys db @
        [\<lparr>sk_project = p, sk_kid = kid, sk_pem = pem, sk_status = KeyNext, sk_published = kb_now db,
          sk_retire_after = None, sk_retired_at = None\<rparr>]\<rparr>))"

definition incoming_key :: "string \<Rightarrow> 'c key_db \<Rightarrow> signing_row option" where
  "incoming_key p db = List.find (\<lambda>r. sk_project r = p \<and> sk_status r = KeyNext) (kb_keys db)"

definition begin_rotation :: "('c, 'r) key_env \<Rightarrow> nat \<Rightarrow> string \<Rightarrow> string \<Rightarrow> ('c, string \<times> bool \<times> nat) keys" where
  \<comment> \<open>\<open>i\<close> and \<open>kid\<close> are the draw and the name of \<open>generateKeypair()\<close>\<close>
  "begin_rotation E i kid p =
     and_then (gets (incoming_key p)) (\<lambda>there. case there of
       Some r \<Rightarrow> ret (sk_kid r, False, sk_published r)
     | None \<Rightarrow>
         (case jl_pair (ke_lib E) i of (priv, pub) \<Rightarrow>
            and_then (put_secret E p (private_key_name kid) priv) (\<lambda>_.
            and_then (commit (insert_next p kid pub)) (\<lambda>at.
            ret (kid, True, at)))))"

definition keep_published :: "string \<Rightarrow> string \<Rightarrow> string \<Rightarrow> nat \<Rightarrow> ('c, unit) keys" where
  \<comment> \<open>\<open>INSERT ... 'retiring' ON CONFLICT (project_id, kid) DO UPDATE SET status, retire_after\<close>\<close>
  "keep_published p kid pem until db =
     (if list_ex (key_row p kid) (kb_keys db)
      then (Inr (), db\<lparr>kb_keys := upd_where (key_row p kid)
             (\<lambda>r. r\<lparr>sk_status := KeyRetiring, sk_retire_after := Some until\<rparr>) (kb_keys db)\<rparr>)
      else if \<not> kid_ok kid then (Inl (BadKid kid), db)
      else (Inr (), db\<lparr>kb_keys := kb_keys db @
        [\<lparr>sk_project = p, sk_kid = kid, sk_pem = pem, sk_status = KeyRetiring, sk_published = kb_now db,
          sk_retire_after = Some until, sk_retired_at = None\<rparr>]\<rparr>))"

definition drop_key_row :: "string \<Rightarrow> string \<Rightarrow> ('c, unit) keys" where
  "drop_key_row p kid = modifies (\<lambda>db. db\<lparr>kb_keys := filter (\<lambda>r. \<not> key_row p kid r) (kb_keys db)\<rparr>)"

definition insert_api_key :: "string \<Rightarrow> string \<Rightarrow> string \<Rightarrow> string \<Rightarrow> ('c, unit) keys" where
  \<comment> \<open>\<open>ON CONFLICT (key_hash) DO NOTHING\<close>\<close>
  "insert_api_key p role hash prefix = modifies (\<lambda>db.
     if list_ex (\<lambda>k. ak_hash k = hash) (kb_api db) then db
     else db\<lparr>kb_api := kb_api db @ [\<lparr>ak_project = p, ak_kind = role, ak_hash = hash, ak_prefix = prefix, ak_revoked = None\<rparr>]\<rparr>)"

definition minted_key :: "('c, 'r) key_env \<Rightarrow> string \<Rightarrow> string \<Rightarrow> string \<Rightarrow> string \<Rightarrow> 'c key_db \<Rightarrow> string" where
  "minted_key E ref role priv kid db =
     jwt_sign (ke_lib E) (ke_nonce E role)
       (project_key_claims ref role (key_issuer E ref) (int (kb_now db div 1000))) priv kid"

definition remint_role :: "('c, 'r) key_env \<Rightarrow> string \<Rightarrow> string \<Rightarrow> string \<Rightarrow> string \<Rightarrow> string \<Rightarrow> ('c, unit) keys" where
  "remint_role E p ref priv kid role =
     and_then (gets (minted_key E ref role priv kid)) (\<lambda>token.
     and_then (replace_secret E p (key_name role) token) (\<lambda>_.
     commit (insert_api_key p role (ke_hash E token) (key_label role ref))))"

definition switch_signing :: "('c, 'r) key_env \<Rightarrow> string \<Rightarrow> signing_row \<Rightarrow> string option \<Rightarrow> string \<Rightarrow> string \<Rightarrow> string
    \<Rightarrow> string \<Rightarrow> nat \<Rightarrow> ('c, unit) keys" where
  \<comment> \<open>the writes of \<open>cutOver\<close>, in their order\<close>
  "switch_signing E p incoming opriv opub okid npriv ref until =
     and_then (commit (keep_published p okid opub until)) (\<lambda>_.
     and_then (case opriv of None \<Rightarrow> ret () | Some s \<Rightarrow> put_secret E p (private_key_name okid) s) (\<lambda>_.
     and_then (replace_secret E p PRIVATE_KEY npriv) (\<lambda>_.
     and_then (replace_secret E p PUBLIC_KEY (sk_pem incoming)) (\<lambda>_.
     and_then (replace_secret E p KEY_ID (sk_kid incoming)) (\<lambda>_.
     and_then (commit (drop_key_row p (sk_kid incoming))) (\<lambda>_.
     and_then (remint_role E p ref npriv (sk_kid incoming) ''anon'') (\<lambda>_.
     remint_role E p ref npriv (sk_kid incoming) ''service_role'')))))))"

definition cut_over :: "('c, 'r) key_env \<Rightarrow> string \<Rightarrow> nat option \<Rightarrow> bool \<Rightarrow> ('c, string \<times> string \<times> nat) keys" where
  "cut_over E p min_age force =
     and_then (gets (incoming_key p)) (\<lambda>found. case found of
       None \<Rightarrow> throw NoNextKey
     | Some incoming \<Rightarrow>
         and_then (gets kb_now) (\<lambda>now.
         let wait = (case min_age of None \<Rightarrow> 600000 | Some m \<Rightarrow> m) in
         and_then (guard (force \<or> sk_published incoming + wait \<le> now) (TooYoung (now - sk_published incoming) wait)) (\<lambda>_.
         and_then (kept E p PRIVATE_KEY) (\<lambda>old_priv.
         and_then (kept E p PUBLIC_KEY) (\<lambda>old_pub.
         and_then (kept E p KEY_ID) (\<lambda>old_kid. case (filled old_pub, filled old_kid) of
           (Some opub, Some okid) \<Rightarrow>
             and_then (kept E p (private_key_name (sk_kid incoming))) (\<lambda>new_priv. case filled new_priv of
               None \<Rightarrow> throw (PrivateHalfMissing (sk_kid incoming))
             | Some npriv \<Rightarrow>
                 and_then (gets (\<lambda>db. kb_refs db p)) (\<lambda>r. case filled r of
                   None \<Rightarrow> throw NoSuchProject
                 | Some ref \<Rightarrow>
                     let retire_after = now + SWAP_WINDOW_DAYS * 86400000 in
                     and_then (switch_signing E p incoming (filled old_priv) opub okid npriv ref retire_after) (\<lambda>_.
                     ret (okid, sk_kid incoming, retire_after))))
         | _ \<Rightarrow> throw NoActiveKey))))))"

datatype retire_answer = KeyIsRetired | NoSuchKey | AlreadyRetired | WindowOpen nat

definition mark_retired :: "string \<Rightarrow> string \<Rightarrow> ('c, unit) keys" where
  "mark_retired p kid = modifies (\<lambda>db. db\<lparr>kb_keys := upd_where (key_row p kid)
     (\<lambda>r. r\<lparr>sk_status := KeyRetired, sk_retired_at := Some (kb_now db)\<rparr>) (kb_keys db)\<rparr>)"

definition retire_key :: "string \<Rightarrow> string \<Rightarrow> bool \<Rightarrow> ('c, retire_answer) keys" where
  \<comment> \<open>\<open>retire\<close>\<close>
  "retire_key p kid force =
     and_then (gets (List.find (key_row p kid) \<circ> kb_keys)) (\<lambda>found. case found of
       None \<Rightarrow> ret NoSuchKey
     | Some r \<Rightarrow>
         (case sk_status r of
            KeyRetired \<Rightarrow> ret AlreadyRetired
          | KeyNext \<Rightarrow> and_then (commit (mark_retired p kid)) (\<lambda>_. ret KeyIsRetired)
          | KeyRetiring \<Rightarrow>
              and_then (gets kb_now) (\<lambda>now.
              if \<not> force \<and> (case sk_retire_after r of None \<Rightarrow> False | Some t \<Rightarrow> now < t)
              then ret (WindowOpen ((the (sk_retire_after r) - now + 86399999) div 86400000))
              else and_then (commit (mark_retired p kid)) (\<lambda>_. ret KeyIsRetired))))"

definition due_for_retirement :: "'c key_db \<Rightarrow> (string \<times> string) list" where
  "due_for_retirement db = map (\<lambda>r. (sk_project r, sk_kid r))
     (filter (\<lambda>r. sk_status r = KeyRetiring \<and> (case sk_retire_after r of None \<Rightarrow> False | Some t \<Rightarrow> t \<le> kb_now db)) (kb_keys db))"

subsection \<open>The first keys of a project\<close>

definition mint_role :: "('c, 'r) key_env \<Rightarrow> string \<Rightarrow> string \<Rightarrow> string \<Rightarrow> string \<Rightarrow> string \<Rightarrow> ('c, unit) keys" where
  "mint_role E p ref priv kid role =
     and_then (gets (minted_key E ref role priv kid)) (\<lambda>token.
     and_then (put_secret E p (key_name role) token) (\<lambda>_.
     commit (insert_api_key p role (ke_hash E token) (key_label role ref))))"

definition generate_api_keys :: "('c, 'r) key_env \<Rightarrow> nat \<Rightarrow> string \<Rightarrow> string \<Rightarrow> ('c, unit) keys" where
  \<comment> \<open>the step \<open>generate_api_keys\<close>\<close>
  "generate_api_keys E i kid p =
     and_then (gets (\<lambda>db. kb_refs db p)) (\<lambda>r. case r of
       None \<Rightarrow> throw NoSuchProject
     | Some ref \<Rightarrow>
         and_then (gets (\<lambda>db. map ak_kind (filter (\<lambda>k. ak_project k = p \<and> ak_revoked k = None) (kb_api db)))) (\<lambda>existing.
         if 2 \<le> length existing then ret ()
         else
           and_then (kept E p PRIVATE_KEY) (\<lambda>priv0.
           and_then (kept E p KEY_ID) (\<lambda>kid0.
           and_then (case (filled priv0, filled kid0) of
               (Some s, Some k) \<Rightarrow> ret (s, k)
             | _ \<Rightarrow>
                 (case jl_pair (ke_lib E) i of (priv, pub) \<Rightarrow>
                    and_then (put_secret E p PRIVATE_KEY priv) (\<lambda>_.
                    and_then (put_secret E p PUBLIC_KEY pub) (\<lambda>_.
                    and_then (put_secret E p KEY_ID kid) (\<lambda>_.
                    ret (priv, kid)))))) (\<lambda>(priv, k).
           and_then (if ''anon'' \<in> set existing then ret () else mint_role E p ref priv k ''anon'') (\<lambda>_.
           if ''service_role'' \<in> set existing then ret () else mint_role E p ref priv k ''service_role''))))))"

subsection \<open>One statement at a time\<close>

definition vault_ok :: "('c, 'r) key_env \<Rightarrow> 'c key_db \<Rightarrow> bool" where
  "vault_ok E db = (sealer_ok (ke_sealer E) \<and> secrets_ok (ke_sealer E) (kb_secrets db))"

definition vals :: "('c, 'r) key_env \<Rightarrow> 'c key_db \<Rightarrow> secret_map" where
  "vals E db = abs_secrets (ke_sealer E) (kb_secrets db)"

definition beside :: "'c key_db \<Rightarrow> 'c key_db \<Rightarrow> bool" where
  \<comment> \<open>the second state differs from the first in the vault at most, with the same clock\<close>
  "beside db db' = (kb_keys db' = kb_keys db \<and> kb_api db' = kb_api db \<and> kb_refs db' = kb_refs db \<and>
     kb_budget db' = kb_budget db \<and> kb_now db' = kb_now db)"

lemma commit_living [simp]: "kb_budget db = None \<Longrightarrow> commit m db = m db"
  by (simp add: commit_def)

lemma vault_ok_frame [simp]:
  "vault_ok E (db\<lparr>kb_keys := x\<rparr>) = vault_ok E db" "vault_ok E (db\<lparr>kb_api := y\<rparr>) = vault_ok E db"
  "vault_ok E (db\<lparr>kb_budget := b\<rparr>) = vault_ok E db"
  "vals E (db\<lparr>kb_keys := x\<rparr>) = vals E db" "vals E (db\<lparr>kb_api := y\<rparr>) = vals E db" "vals E (db\<lparr>kb_budget := b\<rparr>) = vals E db"
  "kb_now (db\<lparr>kb_keys := x\<rparr>) = kb_now db" "kb_now (db\<lparr>kb_api := y\<rparr>) = kb_now db" "kb_now (db\<lparr>kb_budget := b\<rparr>) = kb_now db"
  by (simp_all add: vault_ok_def vals_def kb_now_def)

lemma kept_eq: "vault_ok E db \<Longrightarrow> kept E p n db = (Inr (vals E db p n), db)"
  by (simp add: kept_def in_vault_def vault_ok_def secret_get_eq vals_def abs_secrets_def)

lemma replace_secret_result:
  assumes "vault_ok E db" "kb_budget db = None"
  obtains db' where "replace_secret E p n v db = (Inr (), db')" "vault_ok E db'" "beside db db'"
    "vals E db' = set_value p n v (vals E db)"
proof
  let ?s = "superseded (ke_sealer E) (ke_rnd E 1) p n v (kb_secrets db)"
  show "replace_secret E p n v db = (Inr (), db\<lparr>kb_secrets := ?s\<rparr>)"
    using assms by (simp add: replace_secret_def and_then_def in_vault_def vault_ok_def secret_replace_eq ret_def)
  show "vault_ok E (db\<lparr>kb_secrets := ?s\<rparr>)" using assms(1) by (simp add: vault_ok_def superseded_ok)
  show "beside db (db\<lparr>kb_secrets := ?s\<rparr>)" by (simp add: beside_def kb_now_def)
  show "vals E (db\<lparr>kb_secrets := ?s\<rparr>) = set_value p n v (vals E db)"
    using assms(1) by (simp add: vault_ok_def vals_def abs_superseded)
qed

lemma put_secret_result:
  assumes "vault_ok E db" "kb_budget db = None" "put_secret E p n v db = (r, db')"
  shows "vault_ok E db' \<and> beside db db' \<and>
    vals E db' = (if vals E db p n = None then set_value p n v (vals E db) else vals E db) \<and> (vals E db p n = None \<longrightarrow> r = Inr ())"
proof -
  have ok: "secrets_ok (ke_sealer E) (kb_secrets db)" "sealer_ok (ke_sealer E)" using assms(1) by (simp_all add: vault_ok_def)
  have none: "vals E db p n = None \<longleftrightarrow> \<not> (\<exists>r \<in> set (sd_rows (kb_secrets db)). secret_named p n r)"
    using stored_value_has_row[OF ok(1), of p n] by (auto simp: vals_def abs_secrets_def)
  show ?thesis
  proof (cases "vals E db p n = None")
    case True
    then have rows: "\<not> (\<exists>r \<in> set (sd_rows (kb_secrets db)). secret_named p n r)" using none by simp
    then have e: "secret_put (ke_sealer E) (ke_rnd E 0) p n v (kb_secrets db) =
        (Inr (), first_row (ke_sealer E) (ke_rnd E 0) p n v (kb_secrets db))"
      by (auto simp: secret_put_eq[OF ok(1)])
    have "stored_value (ke_sealer E) p n (kb_secrets db) = None" using True by (simp add: vals_def abs_secrets_def)
    note a = abs_first[OF ok this] first_row_ok[OF ok]
    show ?thesis using assms(2,3) e a rows True
      by (auto simp: put_secret_def in_vault_def vault_ok_def vals_def beside_def kb_now_def ok(2))
  next
    case False
    then have "snd (secret_put (ke_sealer E) (ke_rnd E 0) p n v (kb_secrets db)) = kb_secrets db"
      using none by (auto simp: secret_put_eq[OF ok(1)])
    then have "db' = db" using assms(2,3)
      by (cases "secret_put (ke_sealer E) (ke_rnd E 0) p n v (kb_secrets db)")
        (auto simp: put_secret_def in_vault_def split: sum.splits)
    then show ?thesis using False assms(1) by (auto simp: beside_def)
  qed
qed

lemma commit_last: "kb_budget db = Some (Suc n) \<Longrightarrow> commit m db = m (db\<lparr>kb_budget := Some n\<rparr>)"
  "kb_budget db = Some 0 \<Longrightarrow> commit m db = (Inl Died, db)"
  by (simp_all add: commit_def)

lemma insert_api_key_frame:
  "insert_api_key p role h pre db = (Inr (), snd (insert_api_key p role h pre db))"
  "vault_ok E (snd (insert_api_key p role h pre db)) = vault_ok E db" "vals E (snd (insert_api_key p role h pre db)) = vals E db"
  "kb_keys (snd (insert_api_key p role h pre db)) = kb_keys db" "kb_refs (snd (insert_api_key p role h pre db)) = kb_refs db"
  "kb_budget (snd (insert_api_key p role h pre db)) = kb_budget db" "kb_now (snd (insert_api_key p role h pre db)) = kb_now db"
  by (auto simp: insert_api_key_def modifies_def)

lemma key_names [simp]:
  "PRIVATE_KEY \<noteq> PUBLIC_KEY" "PRIVATE_KEY \<noteq> KEY_ID" "PUBLIC_KEY \<noteq> KEY_ID" "PUBLIC_KEY \<noteq> PRIVATE_KEY" "KEY_ID \<noteq> PRIVATE_KEY" "KEY_ID \<noteq> PUBLIC_KEY"
  "private_key_name k \<noteq> PRIVATE_KEY" "private_key_name k \<noteq> PUBLIC_KEY" "private_key_name k \<noteq> KEY_ID"
  "PRIVATE_KEY \<noteq> private_key_name k" "PUBLIC_KEY \<noteq> private_key_name k" "KEY_ID \<noteq> private_key_name k"
  "key_name role \<noteq> PRIVATE_KEY" "key_name role \<noteq> PUBLIC_KEY" "key_name role \<noteq> KEY_ID" "key_name role \<noteq> private_key_name k"
  "PRIVATE_KEY \<noteq> key_name role" "PUBLIC_KEY \<noteq> key_name role" "KEY_ID \<noteq> key_name role" "private_key_name k \<noteq> key_name role"
  by (auto simp: PRIVATE_KEY_def PUBLIC_KEY_def KEY_ID_def private_key_name_def key_name_def)

lemma key_name_roles [simp]: "key_name ''anon'' = ''ANON_KEY''" "key_name ''service_role'' = ''SERVICE_ROLE_KEY''"
  by (simp_all add: key_name_def)

lemma set_value_same [simp]: "set_value p n v m p n = Some v"
  by (simp add: set_value_def)

lemma set_value_other [simp]: "p' \<noteq> p \<or> n' \<noteq> n \<Longrightarrow> set_value p n v m p' n' = m p' n'"
  by (auto simp: set_value_def)

lemma remint_role_result:
  assumes "vault_ok E db" "kb_budget db = None"
  obtains db' where "remint_role E p ref priv kid role db = (Inr (), db')" "vault_ok E db'"
    "vals E db' = set_value p (key_name role) (minted_key E ref role priv kid db) (vals E db)"
    "kb_keys db' = kb_keys db" "kb_refs db' = kb_refs db" "kb_budget db' = None" "kb_now db' = kb_now db"
proof -
  obtain db1 where r: "replace_secret E p (key_name role) (minted_key E ref role priv kid db) db = (Inr (), db1)" "vault_ok E db1" "beside db db1"
    "vals E db1 = set_value p (key_name role) (minted_key E ref role priv kid db) (vals E db)"
    using replace_secret_result[OF assms] by metis
  let ?db2 = "snd (insert_api_key p role (ke_hash E (minted_key E ref role priv kid db)) (key_label role ref) db1)"
  have "remint_role E p ref priv kid role db = (Inr (), ?db2)"
  proof -
    have "insert_api_key p role (ke_hash E (minted_key E ref role priv kid db)) (key_label role ref) db1 = (Inr (), ?db2)"
      by (rule insert_api_key_frame(1))
    moreover have "kb_budget db1 = None" using r(3) assms(2) by (simp add: beside_def)
    ultimately show ?thesis using r(1) by (simp add: remint_role_def and_then_def gets_def)
  qed
  then show thesis using that[of ?db2] r assms(2) by (simp add: insert_api_key_frame(2-) beside_def)
qed

subsection \<open>The cut-over\<close>

lemma keep_published_result:
  assumes "keep_published p kid pem until db = (Inr u, db')" "list_ex (key_row p kid) (kb_keys db) = False"
  shows "db' = db\<lparr>kb_keys := kb_keys db @ [\<lparr>sk_project = p, sk_kid = kid, sk_pem = pem, sk_status = KeyRetiring,
     sk_published = kb_now db, sk_retire_after = Some until, sk_retired_at = None\<rparr>]\<rparr>"
  using assms by (auto simp: keep_published_def split: if_splits)

lemma and_then_Inr:
  assumes "and_then m f s = (Inr x, s')"
  obtains a s1 where "m s = (Inr a, s1)" "f a s1 = (Inr x, s')"
  using assms by (auto simp: and_then_def split: prod.splits sum.splits)

lemma switch_signing_result:
  assumes "switch_signing E p incoming opriv opub okid npriv ref until db = (Inr (), db')"
    and "vault_ok E db" "kb_budget db = None" "\<not> list_ex (key_row p okid) (kb_keys db)"
  shows "vault_ok E db' \<and> vals E db' p PRIVATE_KEY = Some npriv \<and> vals E db' p PUBLIC_KEY = Some (sk_pem incoming) \<and>
    vals E db' p KEY_ID = Some (sk_kid incoming) \<and>
    vals E db' p ''ANON_KEY'' = Some (minted_key E ref ''anon'' npriv (sk_kid incoming) db) \<and>
    vals E db' p ''SERVICE_ROLE_KEY'' = Some (minted_key E ref ''service_role'' npriv (sk_kid incoming) db) \<and>
    kb_keys db' = filter (\<lambda>r. \<not> key_row p (sk_kid incoming) r) (kb_keys db @ [\<lparr>sk_project = p, sk_kid = okid, sk_pem = opub,
      sk_status = KeyRetiring, sk_published = kb_now db, sk_retire_after = Some until, sk_retired_at = None\<rparr>]) \<and>
    kb_now db' = kb_now db \<and> kb_budget db' = None"
proof -
  define row where "row = \<lparr>sk_project = p, sk_kid = okid, sk_pem = opub,
      sk_status = KeyRetiring, sk_published = kb_now db, sk_retire_after = Some until, sk_retired_at = None\<rparr>"
  from assms(1)[unfolded switch_signing_def] obtain u1 db1 where
    k: "commit (keep_published p okid opub until) db = (Inr u1, db1)" and
    h: "and_then (case opriv of None \<Rightarrow> ret () | Some s \<Rightarrow> put_secret E p (private_key_name okid) s) (\<lambda>_.
     and_then (replace_secret E p PRIVATE_KEY npriv) (\<lambda>_.
     and_then (replace_secret E p PUBLIC_KEY (sk_pem incoming)) (\<lambda>_.
     and_then (replace_secret E p KEY_ID (sk_kid incoming)) (\<lambda>_.
     and_then (commit (drop_key_row p (sk_kid incoming))) (\<lambda>_.
     and_then (remint_role E p ref npriv (sk_kid incoming) ''anon'') (\<lambda>_.
     remint_role E p ref npriv (sk_kid incoming) ''service_role'')))))) db1 = (Inr (), db')"
    by (rule and_then_Inr)
  have db1: "db1 = db\<lparr>kb_keys := kb_keys db @ [row]\<rparr>"
    using keep_published_result[of p okid opub until db u1 db1] k assms(3,4) by (simp add: row_def)
  from h obtain u2 db2 where
    q: "(case opriv of None \<Rightarrow> ret () | Some s \<Rightarrow> put_secret E p (private_key_name okid) s) db1 = (Inr u2, db2)" and
    h2: "and_then (replace_secret E p PRIVATE_KEY npriv) (\<lambda>_.
     and_then (replace_secret E p PUBLIC_KEY (sk_pem incoming)) (\<lambda>_.
     and_then (replace_secret E p KEY_ID (sk_kid incoming)) (\<lambda>_.
     and_then (commit (drop_key_row p (sk_kid incoming))) (\<lambda>_.
     and_then (remint_role E p ref npriv (sk_kid incoming) ''anon'') (\<lambda>_.
     remint_role E p ref npriv (sk_kid incoming) ''service_role''))))) db2 = (Inr (), db')"
    by (rule and_then_Inr)
  have ok1: "vault_ok E db1" "kb_budget db1 = None" using assms(2,3) by (simp_all add: db1)
  have two: "vault_ok E db2" "beside db1 db2"
    using q ok1 put_secret_result[OF ok1, of p "private_key_name okid"]
    by (auto simp: ret_def beside_def split: option.splits)
  then have b2: "kb_budget db2 = None" using ok1(2) by (simp add: beside_def)
  obtain db3 where r3: "replace_secret E p PRIVATE_KEY npriv db2 = (Inr (), db3)" "vault_ok E db3" "beside db2 db3"
    "vals E db3 = set_value p PRIVATE_KEY npriv (vals E db2)" using replace_secret_result[OF two(1) b2] by metis
  then have b3: "kb_budget db3 = None" using b2 by (simp add: beside_def)
  obtain db4 where r4: "replace_secret E p PUBLIC_KEY (sk_pem incoming) db3 = (Inr (), db4)" "vault_ok E db4" "beside db3 db4"
    "vals E db4 = set_value p PUBLIC_KEY (sk_pem incoming) (vals E db3)" using replace_secret_result[OF r3(2) b3] by metis
  then have b4: "kb_budget db4 = None" using b3 by (simp add: beside_def)
  obtain db5 where r5: "replace_secret E p KEY_ID (sk_kid incoming) db4 = (Inr (), db5)" "vault_ok E db5" "beside db4 db5"
    "vals E db5 = set_value p KEY_ID (sk_kid incoming) (vals E db4)" using replace_secret_result[OF r4(2) b4] by metis
  then have b5: "kb_budget db5 = None" using b4 by (simp add: beside_def)
  define db6 where "db6 = db5\<lparr>kb_keys := filter (\<lambda>r. \<not> key_row p (sk_kid incoming) r) (kb_keys db5)\<rparr>"
  have r6: "commit (drop_key_row p (sk_kid incoming)) db5 = (Inr (), db6)"
    using b5 by (simp add: drop_key_row_def modifies_def db6_def)
  have ok6: "vault_ok E db6" "kb_budget db6 = None" using r5(2) b5 by (simp_all add: db6_def)
  obtain db7 where r7: "remint_role E p ref npriv (sk_kid incoming) ''anon'' db6 = (Inr (), db7)" "vault_ok E db7"
    "vals E db7 = set_value p (key_name ''anon'') (minted_key E ref ''anon'' npriv (sk_kid incoming) db6) (vals E db6)"
    "kb_keys db7 = kb_keys db6" "kb_budget db7 = None" "kb_now db7 = kb_now db6" using remint_role_result[OF ok6] by metis
  obtain db8 where r8: "remint_role E p ref npriv (sk_kid incoming) ''service_role'' db7 = (Inr (), db8)" "vault_ok E db8"
    "vals E db8 = set_value p (key_name ''service_role'') (minted_key E ref ''service_role'' npriv (sk_kid incoming) db7) (vals E db7)"
    "kb_keys db8 = kb_keys db7" "kb_budget db8 = None" "kb_now db8 = kb_now db7" using remint_role_result[OF r7(2,5)] by metis
  have "db' = db8" using h2 r3(1) r4(1) r5(1) r6 r7(1) r8(1) by (simp add: and_then_def)
  moreover have now: "kb_now db6 = kb_now db" "kb_now db7 = kb_now db" "kb_now db8 = kb_now db"
    using two(2) r3(3) r4(3) r5(3) r7(6) r8(6) by (simp_all add: beside_def db1 db6_def)
  moreover have "minted_key E ref role npriv (sk_kid incoming) db6 = minted_key E ref role npriv (sk_kid incoming) db"
      "minted_key E ref role npriv (sk_kid incoming) db7 = minted_key E ref role npriv (sk_kid incoming) db" for role
    using now by (simp_all add: minted_key_def)
  moreover have "vals E db6 = vals E db5" by (simp add: db6_def)
  moreover have "kb_keys db8 = filter (\<lambda>r. \<not> key_row p (sk_kid incoming) r) (kb_keys db @ [row])"
    using two(2) r3(3) r4(3) r5(3) r7(4) r8(4) by (simp add: beside_def db1 db6_def)
  ultimately show ?thesis using r3(4) r4(4) r5(4) r7(3) r8(2,3,5)
    by (simp add: row_def set_value_def PRIVATE_KEY_def PUBLIC_KEY_def KEY_ID_def)
qed

lemma cut_over_steps:
  assumes "cut_over E p min_age force db = (Inr (old, new, until), db')" "vault_ok E db" "incoming_key p db = Some r"
  obtains opub npriv ref where "filled (vals E db p PUBLIC_KEY) = Some opub" "filled (vals E db p KEY_ID) = Some old"
    "filled (vals E db p (private_key_name (sk_kid r))) = Some npriv" "filled (kb_refs db p) = Some ref"
    "new = sk_kid r" "until = kb_now db + SWAP_WINDOW_DAYS * 86400000"
    "switch_signing E p r (filled (vals E db p PRIVATE_KEY)) opub old npriv ref until db = (Inr (), db')"
proof -
  note h = assms(1)[unfolded cut_over_def Let_def]
  from h assms(3) have h: "and_then (guard (force \<or> sk_published r + (case min_age of None \<Rightarrow> 600000 | Some m \<Rightarrow> m) \<le> kb_now db)
        (TooYoung (kb_now db - sk_published r) (case min_age of None \<Rightarrow> 600000 | Some m \<Rightarrow> m))) (\<lambda>_.
      (case (filled (vals E db p PUBLIC_KEY), filled (vals E db p KEY_ID)) of
           (Some opub, Some okid) \<Rightarrow>
             and_then (kept E p (private_key_name (sk_kid r))) (\<lambda>new_priv. case filled new_priv of
               None \<Rightarrow> throw (PrivateHalfMissing (sk_kid r))
             | Some npriv \<Rightarrow>
                 and_then (gets (\<lambda>db. kb_refs db p)) (\<lambda>r'. case filled r' of
                   None \<Rightarrow> throw NoSuchProject
                 | Some ref \<Rightarrow>
                     and_then (switch_signing E p r (filled (vals E db p PRIVATE_KEY)) opub okid npriv ref (kb_now db + SWAP_WINDOW_DAYS * 86400000)) (\<lambda>_.
                     ret (okid, sk_kid r, kb_now db + SWAP_WINDOW_DAYS * 86400000))))
         | _ \<Rightarrow> throw NoActiveKey)) db = (Inr (old, new, until), db')"
    by (auto simp: and_then_def gets_def kept_eq[OF assms(2)] guard_def ret_def throw_def split: if_splits)
  obtain opub okid where o: "filled (vals E db p PUBLIC_KEY) = Some opub" "filled (vals E db p KEY_ID) = Some okid"
    using h by (auto simp: and_then_def guard_def ret_def throw_def split: if_splits option.splits)
  obtain npriv where n: "filled (vals E db p (private_key_name (sk_kid r))) = Some npriv"
    using h by (auto simp: o and_then_def guard_def ret_def throw_def kept_eq[OF assms(2)] split: if_splits option.splits)
  obtain ref where ref: "filled (kb_refs db p) = Some ref"
    using h by (auto simp: o n and_then_def guard_def gets_def ret_def throw_def kept_eq[OF assms(2)] split: if_splits option.splits)
  have sw: "and_then (switch_signing E p r (filled (vals E db p PRIVATE_KEY)) opub okid npriv ref (kb_now db + SWAP_WINDOW_DAYS * 86400000)) (\<lambda>_.
                     ret (okid, sk_kid r, kb_now db + SWAP_WINDOW_DAYS * 86400000)) db = (Inr (old, new, until), db')"
    using h unfolding o n option.case prod.case by (auto simp: ref n and_then_def[of "guard _ _"] and_then_def[of "kept _ _ _"]
        and_then_def[of "gets _"] guard_def gets_def ret_def throw_def kept_eq[OF assms(2)] split: if_splits)
  then obtain u d where "switch_signing E p r (filled (vals E db p PRIVATE_KEY)) opub okid npriv ref (kb_now db + SWAP_WINDOW_DAYS * 86400000) db = (Inr u, d)"
    "old = okid" "new = sk_kid r" "until = kb_now db + SWAP_WINDOW_DAYS * 86400000" "d = db'"
    by (elim and_then_Inr) (auto simp: ret_def)
  then show thesis using that[OF o(1) _ n ref] o(2) by simp
qed

definition goes_on :: "('c, 'r) key_env \<Rightarrow> ('c, 'a) keys \<Rightarrow> bool" where
  \<comment> \<open>in a process that lives, on a vault in order, it succeeds and leaves both so\<close>
  "goes_on E m = (\<forall>db. vault_ok E db \<and> kb_budget db = None \<longrightarrow>
     (\<exists>a db'. m db = (Inr a, db') \<and> vault_ok E db' \<and> kb_budget db' = None))"

lemma goes_on_then: "goes_on E m \<Longrightarrow> (\<And>a. goes_on E (f a)) \<Longrightarrow> goes_on E (and_then m f)"
  by (fastforce simp: goes_on_def and_then_def)

lemma goes_on_steps:
  "goes_on E (replace_secret E p n v)" "goes_on E (commit (drop_key_row p kid))" "goes_on E (remint_role E p ref priv kid role)"
proof -
  show "goes_on E (replace_secret E p n v)"
  proof (unfold goes_on_def, intro allI impI)
    fix db assume "vault_ok E db \<and> kb_budget db = None"
    then show "\<exists>a db'. replace_secret E p n v db = (Inr a, db') \<and> vault_ok E db' \<and> kb_budget db' = None"
      using replace_secret_result[of E db p n v] by (auto simp: beside_def)
  qed
  show "goes_on E (commit (drop_key_row p kid))" by (simp add: goes_on_def drop_key_row_def modifies_def)
  show "goes_on E (remint_role E p ref priv kid role)"
  proof (unfold goes_on_def, intro allI impI)
    fix db assume "vault_ok E db \<and> kb_budget db = None"
    then show "\<exists>a db'. remint_role E p ref priv kid role db = (Inr a, db') \<and> vault_ok E db' \<and> kb_budget db' = None"
      using remint_role_result[of E db p ref priv kid role] by auto
  qed
qed

lemma switch_signing_goes_through:
  assumes "vault_ok E db" "kb_budget db = None" "\<not> list_ex (key_row p okid) (kb_keys db)" "kid_ok okid"
    and "vals E db p (private_key_name okid) = None"
  shows "\<exists>db'. switch_signing E p incoming opriv opub okid npriv ref until db = (Inr (), db')"
proof -
  define rest where "rest = and_then (replace_secret E p PRIVATE_KEY npriv) (\<lambda>_.
     and_then (replace_secret E p PUBLIC_KEY (sk_pem incoming)) (\<lambda>_.
     and_then (replace_secret E p KEY_ID (sk_kid incoming)) (\<lambda>_.
     and_then (commit (drop_key_row p (sk_kid incoming))) (\<lambda>_.
     and_then (remint_role E p ref npriv (sk_kid incoming) ''anon'') (\<lambda>_.
     remint_role E p ref npriv (sk_kid incoming) ''service_role'')))))"
  have rest: "goes_on E rest" unfolding rest_def by (intro goes_on_then goes_on_steps)
  obtain db1 where db1: "commit (keep_published p okid opub until) db = (Inr (), db1)" "vault_ok E db1" "kb_budget db1 = None"
    "vals E db1 = vals E db"
    using assms by (simp add: keep_published_def)
  obtain db2 where "(case opriv of None \<Rightarrow> ret () | Some s \<Rightarrow> put_secret E p (private_key_name okid) s) db1 = (Inr (), db2)"
      "vault_ok E db2" "kb_budget db2 = None"
  proof (cases opriv)
    case None then show thesis using that db1 by (simp add: ret_def)
  next
    case (Some s)
    obtain r db2 where e: "put_secret E p (private_key_name okid) s db1 = (r, db2)" by fastforce
    from put_secret_result[OF db1(2,3) e] show thesis using that[of db2] Some e assms(5) db1(3,4) by (simp add: beside_def)
  qed
  moreover from this(2,3) rest obtain db' where "rest db2 = (Inr (), db')" unfolding goes_on_def by fastforce
  ultimately show ?thesis using db1(1) by (auto simp: switch_signing_def rest_def[symmetric] and_then_def)
qed

lemma cut_over_goes_through:
  assumes "vault_ok E db" "kb_budget db = None" "incoming_key p db = Some r" "force \<or> sk_published r + 600000 \<le> kb_now db"
    and "filled (vals E db p PUBLIC_KEY) = Some opub" "filled (vals E db p KEY_ID) = Some okid"
    and "filled (vals E db p (private_key_name (sk_kid r))) = Some npriv" "filled (kb_refs db p) = Some ref"
    and "\<not> list_ex (key_row p okid) (kb_keys db)" "kid_ok okid" "vals E db p (private_key_name okid) = None"
  shows "\<exists>db'. cut_over E p None force db = (Inr (okid, sk_kid r, kb_now db + SWAP_WINDOW_DAYS * 86400000), db')"
proof -
  obtain db' where "switch_signing E p r (filled (vals E db p PRIVATE_KEY)) opub okid npriv ref (kb_now db + SWAP_WINDOW_DAYS * 86400000) db = (Inr (), db')"
    using switch_signing_goes_through[OF assms(1,2,9,10,11)] by blast
  then show ?thesis using assms(3-8)
    by (auto simp: cut_over_def Let_def and_then_def gets_def kept_eq[OF assms(1)] guard_def ret_def throw_def)
qed

lemma filledD: "filled x = Some s \<Longrightarrow> x = Some s \<and> s \<noteq> []"
  by (auto simp: filled_def split: option.splits list.splits)

text \<open>
  C23. A finished cut-over breaks no key: the incoming key signs and is published first, the key it replaces
  stays published and cannot be retired for thirty days without force, and the anon and service keys
  stored for the project are signed by the new key and verify under it. The premises are what
  \<open>beginRotation\<close> leaves: an incoming row whose private half is stored, next to an active key.
\<close>

theorem cut_over_breaks_no_key:
  assumes "jwt_lib_ok (ke_lib E)" "vault_ok E db" "kb_budget db = None"
    and "cut_over E p min_age force db = (Inr (old, new, until), db')"
    and "incoming_key p db = Some r" "sk_pem r \<noteq> []" "sk_kid r \<noteq> []" "sk_kid r \<noteq> old" "\<not> list_ex (key_row p old) (kb_keys db)"
    and "vals E db p (private_key_name (sk_kid r)) = Some npriv" "jl_pair (ke_lib E) i = (npriv, sk_pem r)"
  shows "(\<exists>rest opub. published_keys E p db' = (Inr ((new, sk_pem r) # rest), db') \<and>
      vals E db p PUBLIC_KEY = Some opub \<and> (old, opub) \<in> set rest) \<and>
    vals E db' p PRIVATE_KEY = Some npriv \<and>
    fst (retire_key p old False db') = Inr (WindowOpen SWAP_WINDOW_DAYS) \<and>
    (\<exists>ref. kb_refs db p = Some ref \<and> (\<forall>role \<in> {''anon'', ''service_role''}. \<exists>token. vals E db' p (key_name role) = Some token \<and>
      jwt_verify (ke_lib E) token \<lparr>vo_pem = sk_pem r, vo_kid = Some new, vo_issuer = Some (key_issuer E ref), vo_skew = None,
        vo_now = kb_now db'\<rparr> = Inr (project_key_claims ref role (key_issuer E ref) (int (kb_now db' div 1000)))))"
proof -
  obtain opub np ref where c: "filled (vals E db p PUBLIC_KEY) = Some opub" "filled (vals E db p KEY_ID) = Some old"
    "filled (vals E db p (private_key_name (sk_kid r))) = Some np" "filled (kb_refs db p) = Some ref"
    "new = sk_kid r" "until = kb_now db + SWAP_WINDOW_DAYS * 86400000"
    and sw: "switch_signing E p r (filled (vals E db p PRIVATE_KEY)) opub old np ref until db = (Inr (), db')"
    by (rule cut_over_steps[OF assms(4,2,5)])
  have np: "np = npriv" using filledD[OF c(3)] assms(10) by simp
  note s = switch_signing_result[OF sw assms(2,3,9)]
  define row where "row = \<lparr>sk_project = p, sk_kid = old, sk_pem = opub, sk_status = KeyRetiring, sk_published = kb_now db,
      sk_retire_after = Some until, sk_retired_at = None\<rparr>"
  have keys: "kb_keys db' = filter (\<lambda>r'. \<not> key_row p (sk_kid r) r') (kb_keys db) @ [row]"
    using s assms(8) by (simp add: row_def key_row_def)
  have ok': "vault_ok E db'" using s by blast
  have act: "filled (vals E db' p PUBLIC_KEY) = Some (sk_pem r)" "filled (vals E db' p KEY_ID) = Some new"
    using s assms(6,7) c(5) by (auto simp: filled_def split: list.splits)
  have pub: "published_keys E p db' = (Inr ((new, sk_pem r) # map (\<lambda>r. (sk_kid r, sk_pem r)) (published_rows p db')), db')"
    by (simp add: published_keys_def and_then_def kept_eq[OF ok'] gets_def ret_def act)
  have "row \<in> set (published_rows p db')" by (simp add: published_rows_def keys row_def)
  then have "(old, opub) \<in> set (map (\<lambda>r. (sk_kid r, sk_pem r)) (published_rows p db'))"
    by (force simp: row_def)
  moreover have "List.find (key_row p old) (kb_keys db') = Some row"
  proof -
    have "List.find (key_row p old) (filter (\<lambda>r'. \<not> key_row p (sk_kid r) r') (kb_keys db)) = None"
      using assms(9) by (auto simp: find_None_iff list_ex_iff)
    then show ?thesis by (simp add: keys find_append row_def key_row_def)
  qed
  then have "fst (retire_key p old False db') = Inr (WindowOpen SWAP_WINDOW_DAYS)"
    using s by (simp add: retire_key_def and_then_def gets_def ret_def row_def c(6) SWAP_WINDOW_DAYS_def)
  moreover have "\<exists>token. vals E db' p (key_name role) = Some token \<and>
      jwt_verify (ke_lib E) token \<lparr>vo_pem = sk_pem r, vo_kid = Some new, vo_issuer = Some (key_issuer E ref), vo_skew = None,
        vo_now = kb_now db'\<rparr> = Inr (project_key_claims ref role (key_issuer E ref) (int (kb_now db' div 1000)))"
    if "role \<in> {''anon'', ''service_role''}" for role
  proof (intro exI conjI)
    show "vals E db' p (key_name role) = Some (minted_key E ref role npriv new db')"
      using s that c(5) np by (auto simp: minted_key_def)
    show "jwt_verify (ke_lib E) (minted_key E ref role npriv new db') \<lparr>vo_pem = sk_pem r, vo_kid = Some new,
        vo_issuer = Some (key_issuer E ref), vo_skew = None, vo_now = kb_now db'\<rparr> =
        Inr (project_key_claims ref role (key_issuer E ref) (int (kb_now db' div 1000)))"
      unfolding minted_key_def
      by (rule verify_minted[OF assms(1), of i])
        (use assms(11) in \<open>auto simp: asked_for_def project_key_claims_def in_its_time_def PROJECT_KEY_TTL_SECONDS_def split: list.splits\<close>)
  qed
  ultimately show ?thesis using pub s np filledD[OF c(1)] filledD[OF c(4)] by blast
qed

subsection \<open>A mint that is cut short\<close>

definition first_kept :: "string \<Rightarrow> string \<Rightarrow> 'c key_db \<Rightarrow> bool" where
  "first_kept p n db = (\<exists>r \<in> set (sd_rows (kb_secrets db)). secret_named p n r \<and> sr_version r = 1)"

definition spent :: "nat option \<Rightarrow> nat option" where
  "spent b = (case b of None \<Rightarrow> None | Some n \<Rightarrow> Some (n - 1))"

lemma commit_spend: "kb_budget db \<noteq> Some 0 \<Longrightarrow> commit m db = m (db\<lparr>kb_budget := spent (kb_budget db)\<rparr>)"
proof (cases "kb_budget db")
  case None
  then have "db\<lparr>kb_budget := spent (kb_budget db)\<rparr> = db" by (cases db) (simp add: spent_def)
  with None show ?thesis by (simp add: commit_def)
next
  case (Some n)
  assume "kb_budget db \<noteq> Some 0"
  with Some show ?thesis by (cases n) (auto simp: commit_def spent_def)
qed

lemma put_fresh:
  assumes "vault_ok E db" "vals E db p n = None" "kb_budget db \<noteq> Some 0"
  obtains db' where "put_secret E p n v db = (Inr (), db')" "vault_ok E db'" "vals E db' = set_value p n v (vals E db)"
    "kb_keys db' = kb_keys db" "kb_api db' = kb_api db" "kb_refs db' = kb_refs db" "kb_now db' = kb_now db"
    "kb_budget db' = spent (kb_budget db)" "first_kept p n db'" "\<And>q m. first_kept q m db \<Longrightarrow> first_kept q m db'"
proof
  have ok: "secrets_ok (ke_sealer E) (kb_secrets db)" "sealer_ok (ke_sealer E)" using assms(1) by (simp_all add: vault_ok_def)
  have none: "stored_value (ke_sealer E) p n (kb_secrets db) = None" using assms(2) by (simp add: vals_def abs_secrets_def)
  then have rows: "\<not> (\<exists>r \<in> set (sd_rows (kb_secrets db)). secret_named p n r)"
    using stored_value_has_row[OF ok(1), of p n] by simp
  let ?s = "first_row (ke_sealer E) (ke_rnd E 0) p n v (kb_secrets db)"
  let ?d = "db\<lparr>kb_budget := spent (kb_budget db), kb_secrets := ?s\<rparr>"
  have "secret_put (ke_sealer E) (ke_rnd E 0) p n v (kb_secrets db) = (Inr (), ?s)"
    using rows by (auto simp: secret_put_eq[OF ok(1)])
  then show "put_secret E p n v db = (Inr (), ?d)"
    by (simp add: put_secret_def commit_spend[OF assms(3)] in_vault_def)
  show "vault_ok E ?d" using first_row_ok[OF ok] rows ok(2) by (auto simp: vault_ok_def)
  show "vals E ?d = set_value p n v (vals E db)" using abs_first[OF ok none] by (simp add: vals_def)
  show "first_kept p n ?d" by (auto simp: first_kept_def first_row_def intro!: bexI[of _ "active_row (ke_sealer E) (ke_rnd E 0) p n 1 v"] simp del: One_nat_def)
  show "first_kept q m ?d" if "first_kept q m db" for q m
    using that by (auto simp: first_kept_def first_row_def)
qed (simp_all add: kb_now_def)

lemma put_again:
  assumes "vault_ok E db" "first_kept p n db" "kb_budget db = None"
  shows "put_secret E p n v db = (Inr (), db)"
proof -
  have ok: "secrets_ok (ke_sealer E) (kb_secrets db)" using assms(1) by (simp add: vault_ok_def)
  have "secret_put (ke_sealer E) (ke_rnd E 0) p n v (kb_secrets db) = (Inr (), kb_secrets db)"
    using assms(2) by (simp add: secret_put_eq[OF ok] first_kept_def)
  then show ?thesis using assms(3) by (simp add: put_secret_def in_vault_def)
qed

lemma mint_role_fresh:
  assumes "vault_ok E db" "vals E db p (key_name role) = None" "kb_budget db = None"
  obtains db' where "mint_role E p ref priv kid role db = (Inr (), db')" "vault_ok E db'"
    "vals E db' = set_value p (key_name role) (minted_key E ref role priv kid db) (vals E db)"
    "kb_keys db' = kb_keys db" "kb_budget db' = None" "kb_now db' = kb_now db"
proof -
  have b: "kb_budget db \<noteq> Some 0" using assms(3) by simp
  obtain db1 where r: "put_secret E p (key_name role) (minted_key E ref role priv kid db) db = (Inr (), db1)" "vault_ok E db1"
    "vals E db1 = set_value p (key_name role) (minted_key E ref role priv kid db) (vals E db)"
    "kb_keys db1 = kb_keys db" "kb_budget db1 = spent (kb_budget db)" "kb_now db1 = kb_now db"
    using put_fresh[OF assms(1,2) b] by metis
  let ?h = "insert_api_key p role (ke_hash E (minted_key E ref role priv kid db)) (key_label role ref)"
  have b1: "kb_budget db1 = None" using r(5) assms(3) by (simp add: spent_def)
  have "?h db1 = (Inr (), snd (?h db1))" by (rule insert_api_key_frame(1))
  then have "mint_role E p ref priv kid role db = (Inr (), snd (?h db1))"
    using r(1) b1 by (simp add: mint_role_def and_then_def gets_def)
  then show thesis using that[of "snd (?h db1)"] r(2,3,4,6) b1 by (simp add: insert_api_key_frame(2-))
qed

lemma wrong_half:
  assumes "jwt_lib_ok L" "\<And>m r. \<not> jl_verify L pub m (jl_sign L priv m r)" "vo_pem opts = pub"
  shows "jwt_verify L (jwt_sign L r c priv kid) opts \<noteq> Inr c'"
proof
  assume "jwt_verify L (jwt_sign L r c priv kid) opts = Inr c'"
  then obtain h p s where "js_split CHR ''.'' (jwt_sign L r c priv kid) = [h, p, s]" "jl_verify L (vo_pem opts) (h @ ''.'' @ p) (jl_unb64 L s)"
    by (rule verify_accepted) blast
  then have "jl_verify L pub (signing_input L c kid) (jl_sign L priv (signing_input L c kid) r)"
    using signed_parts[OF assms(1), of r c priv kid] assms(3) jwt_lib_okD(1)[OF assms(1)] by (auto simp: signing_input_def)
  then show False using assms(2) by blast
qed

text \<open>
  What a crash in the middle of the first mint does: \<open>put\<close> never overwrites, so a step that dies after
  storing its key pair and before its key id, and runs again, keeps the first public key, publishes it under
  the second key id, and signs both project keys with the second private key. The step succeeds, and no
  token it minted verifies under the only key the project publishes.
\<close>

theorem interrupted_mint_leaves_dead_keys:
  assumes "jwt_lib_ok (ke_lib E)" "vault_ok E db" "\<And>n. vals E db p n = None" "published_rows p db = []"
    and "\<not> list_ex (\<lambda>k. ak_project k = p) (kb_api db)" "kb_refs db p = Some ref" "kb_budget db = Some 2"
    and "jl_pair (ke_lib E) i = (priv1, pub1)" "jl_pair (ke_lib E) j = (priv2, pub2)" "pub1 \<noteq> []" "kid' \<noteq> []"
    and "\<And>m r. \<not> jl_verify (ke_lib E) pub1 m (jl_sign (ke_lib E) priv2 m r)"
  shows "\<exists>db1 db2. generate_api_keys E i kid p db = (Inl Died, db1) \<and>
    generate_api_keys E j kid' p (db1\<lparr>kb_budget := None\<rparr>) = (Inr (), db2) \<and>
    published_keys E p db2 = (Inr [(kid', pub1)], db2) \<and>
    (\<forall>role \<in> {''anon'', ''service_role''}. \<exists>token. vals E db2 p (key_name role) = Some token \<and>
      (\<forall>opts c. vo_pem opts = pub1 \<longrightarrow> jwt_verify (ke_lib E) token opts \<noteq> Inr c))"
proof -
  obtain d1 where d1: "put_secret E p PRIVATE_KEY priv1 db = (Inr (), d1)" "vault_ok E d1" "vals E d1 = set_value p PRIVATE_KEY priv1 (vals E db)"
    "kb_keys d1 = kb_keys db" "kb_api d1 = kb_api db" "kb_refs d1 = kb_refs db" "kb_budget d1 = spent (kb_budget db)" "first_kept p PRIVATE_KEY d1"
    using put_fresh[OF assms(2,3), of PRIVATE_KEY priv1] assms(7) by (metis numeral_eq_iff option.inject zero_neq_numeral)
  have b1: "kb_budget d1 = Some 1" using d1(7) assms(7) by (simp add: spent_def)
  have n1: "vals E d1 p PUBLIC_KEY = None" "kb_budget d1 \<noteq> Some 0" using d1(3) assms(3) b1 by simp_all
  obtain d2 where d2: "put_secret E p PUBLIC_KEY pub1 d1 = (Inr (), d2)" "vault_ok E d2" "vals E d2 = set_value p PUBLIC_KEY pub1 (vals E d1)"
    "kb_keys d2 = kb_keys d1" "kb_api d2 = kb_api d1" "kb_refs d2 = kb_refs d1" "kb_budget d2 = spent (kb_budget d1)" "first_kept p PUBLIC_KEY d2"
    "first_kept p PRIVATE_KEY d2"
    using put_fresh[OF d1(2) n1, of pub1] d1(8) by metis
  have b2: "kb_budget d2 = Some 0" using d2(7) b1 by (simp add: spent_def)
  have none: "filter (\<lambda>k. ak_project k = p \<and> ak_revoked k = None) (kb_api db) = []"
    using assms(5) by (auto simp: filter_empty_conv list_ex_iff)
  have "put_secret E p KEY_ID kid d2 = (Inl Died, d2)" using b2 by (simp add: put_secret_def commit_last(2))
  then have run1: "generate_api_keys E i kid p db = (Inl Died, d2)"
    using d1(1) d2(1) assms(6,8) none kept_eq[OF assms(2)] assms(3)
    by (simp add: generate_api_keys_def and_then_def gets_def filled_def)
  define e where "e = d2\<lparr>kb_budget := None\<rparr>"
  have e: "vault_ok E e" "kb_budget e = None" "first_kept p PRIVATE_KEY e" "first_kept p PUBLIC_KEY e" "kb_api e = kb_api db"
    "kb_refs e p = Some ref" "kb_keys e = kb_keys db" "vals E e = vals E d2"
    using d2 d1 assms(6) by (simp_all add: e_def first_kept_def)
  have v: "vals E e p KEY_ID = None" "vals E e p PRIVATE_KEY = Some priv1" "vals E e p PUBLIC_KEY = Some pub1"
    "\<And>role. vals E e p (key_name role) = None"
    using e(8) d2(3) d1(3) assms(3) by simp_all
  have be: "kb_budget e \<noteq> Some 0" using e(2) by simp
  obtain f where f: "put_secret E p KEY_ID kid' e = (Inr (), f)" "vault_ok E f" "vals E f = set_value p KEY_ID kid' (vals E e)"
    "kb_keys f = kb_keys e" "kb_budget f = spent (kb_budget e)"
    using put_fresh[OF e(1) v(1) be, of kid'] by metis
  have bf: "kb_budget f = None" using f(5) e(2) by (simp add: spent_def)
  have nf: "vals E f p (key_name ''anon'') = None" using f(3) v(4)[of "''anon''"] by (simp add: set_value_def KEY_ID_def key_name_def)
  obtain g where g: "mint_role E p ref priv2 kid' ''anon'' f = (Inr (), g)" "vault_ok E g"
    "vals E g = set_value p (key_name ''anon'') (minted_key E ref ''anon'' priv2 kid' f) (vals E f)" "kb_keys g = kb_keys f" "kb_budget g = None"
    using mint_role_fresh[OF f(2) nf bf, of ref priv2 kid'] by metis
  have ng: "vals E g p (key_name ''service_role'') = None"
    using g(3) f(3) v(4)[of "''service_role''"] by (simp add: set_value_def KEY_ID_def key_name_def)
  obtain h where h: "mint_role E p ref priv2 kid' ''service_role'' g = (Inr (), h)" "vault_ok E h"
    "vals E h = set_value p (key_name ''service_role'') (minted_key E ref ''service_role'' priv2 kid' g) (vals E g)" "kb_keys h = kb_keys g"
    using mint_role_fresh[OF g(2) ng g(5), of ref priv2 kid'] by metis
  have puts: "put_secret E p PRIVATE_KEY priv2 e = (Inr (), e)" "put_secret E p PUBLIC_KEY pub2 e = (Inr (), e)"
    by (rule put_again[OF e(1,3,2)], rule put_again[OF e(1,4,2)])
  have run2: "generate_api_keys E j kid' p e = (Inr (), h)"
    using puts f(1) g(1) h(1) assms(9) none e(5,6) v(1) kept_eq[OF e(1)]
    by (simp add: generate_api_keys_def and_then_def gets_def filled_def ret_def split: option.splits list.splits)
  have "kb_keys h = kb_keys db" using h(4) g(4) f(4) e(7) by simp
  then have pr: "published_rows p h = []" using assms(4) by (simp add: published_rows_def)
  have vh: "vals E h p PUBLIC_KEY = Some pub1" "vals E h p KEY_ID = Some kid'"
    using h(3) g(3) f(3) v(3) by (simp_all add: set_value_def PUBLIC_KEY_def KEY_ID_def key_name_def)
  have "published_keys E p h = (Inr [(kid', pub1)], h)"
    using vh pr assms(10,11) by (auto simp: published_keys_def and_then_def kept_eq[OF h(2)] gets_def ret_def filled_def split: list.splits)
  moreover have "vals E h p (key_name ''anon'') = Some (minted_key E ref ''anon'' priv2 kid' f)"
    "vals E h p (key_name ''service_role'') = Some (minted_key E ref ''service_role'' priv2 kid' g)"
    using h(3) g(3) by (simp_all add: set_value_def key_name_def)
  moreover have "jwt_verify (ke_lib E) (minted_key E ref role priv2 kid' d) opts \<noteq> Inr c" if "vo_pem opts = pub1" for role d opts c
    unfolding minted_key_def by (rule wrong_half[OF assms(1,12) that])
  ultimately show ?thesis using run1 run2 unfolding e_def by blast
qed

subsection \<open>Concrete instances\<close>

text \<open>A library with two key pairs, whose parts are plain text.\<close>

definition toy_b64 :: "string \<Rightarrow> string" where
  "toy_b64 s = concat (map (\<lambda>c. if c = CHR ''.'' then ''~1'' else if c = CHR ''~'' then ''~0'' else [c]) s)"

fun toy_unb64 :: "string \<Rightarrow> string" where
  "toy_unb64 [] = []"
| "toy_unb64 (c # s) =
     (if c = CHR ''~'' then (case s of [] \<Rightarrow> [] | d # s' \<Rightarrow> (if d = CHR ''1'' then CHR ''.'' else CHR ''~'') # toy_unb64 s')
      else c # toy_unb64 s)"

lemma toy_b64 [simp]: "toy_unb64 (toy_b64 s) = s" "CHR ''.'' \<notin> set (toy_b64 s)"
  by (induction s) (auto simp: toy_b64_def)

type_synonym 'a reader = "string \<Rightarrow> 'a \<times> string"

definition reads :: "('a \<Rightarrow> string) \<Rightarrow> 'a reader \<Rightarrow> bool" where
  "reads w g = (\<forall>x s. g (w x @ s) = (x, s))"

primrec put_list :: "('a \<Rightarrow> string) \<Rightarrow> 'a list \<Rightarrow> string" where
  "put_list w [] = ''0''"
| "put_list w (x # xs) = CHR ''1'' # w x @ put_list w xs"

primrec take_list :: "'a reader \<Rightarrow> nat \<Rightarrow> 'a list reader" where
  "take_list g 0 s = ([], s)"
| "take_list g (Suc n) s =
     (if take 1 s = ''1'' then (case g (drop 1 s) of (x, s1) \<Rightarrow> case take_list g n s1 of (xs, s2) \<Rightarrow> (x # xs, s2))
      else ([], drop 1 s))"

definition read_list :: "'a reader \<Rightarrow> 'a list reader" where
  "read_list g s = take_list g (length s) s"

lemma take_list: "reads w g \<Longrightarrow> length xs < n \<Longrightarrow> take_list g n (put_list w xs @ s) = (xs, s)"
proof (induction xs arbitrary: n)
  case Nil then show ?case by (cases n) auto
next
  case (Cons x xs) then show ?case by (cases n) (auto simp: reads_def)
qed

lemma put_list_length: "length xs < length (put_list w xs)"
  by (induction xs) auto

lemma reads_list: "reads w g \<Longrightarrow> reads (put_list w) (read_list g)"
  unfolding reads_def[of "put_list w"] read_list_def using put_list_length
  by (metis length_append take_list trans_less_add1)

definition put_pair :: "('a \<Rightarrow> string) \<Rightarrow> ('b \<Rightarrow> string) \<Rightarrow> 'a \<times> 'b \<Rightarrow> string" where
  "put_pair v w = (\<lambda>(x, y). v x @ w y)"

definition read_pair :: "'a reader \<Rightarrow> 'b reader \<Rightarrow> ('a \<times> 'b) reader" where
  "read_pair f g s = (case f s of (x, s1) \<Rightarrow> case g s1 of (y, s2) \<Rightarrow> ((x, y), s2))"

lemma reads_pair: "reads v f \<Longrightarrow> reads w g \<Longrightarrow> reads (put_pair v w) (read_pair f g)"
  by (auto simp: reads_def put_pair_def read_pair_def)

definition read_mapped :: "('a \<Rightarrow> 'b) \<Rightarrow> 'a reader \<Rightarrow> 'b reader" where
  "read_mapped h g s = (case g s of (x, s1) \<Rightarrow> (h x, s1))"

lemma reads_mapped: "reads w g \<Longrightarrow> (\<And>y. h (k y) = y) \<Longrightarrow> reads (\<lambda>y. w (k y)) (read_mapped h g)"
  by (auto simp: reads_def read_mapped_def)

definition text_put :: "string \<Rightarrow> string" where "text_put = put_list (\<lambda>c. [c])"
definition text_read :: "string reader" where "text_read = read_list (\<lambda>s. (hd s, tl s))"

lemma reads_text: "reads text_put text_read"
  unfolding text_put_def text_read_def by (rule reads_list) (simp add: reads_def)

definition opt_put :: "('a \<Rightarrow> string) \<Rightarrow> 'a option \<Rightarrow> string" where
  "opt_put w x = put_list w (case x of None \<Rightarrow> [] | Some y \<Rightarrow> [y])"

definition opt_read :: "'a reader \<Rightarrow> 'a option reader" where
  "opt_read g = read_mapped (\<lambda>l. if l = [] then None else Some (hd l)) (read_list g)"

lemma reads_opt: "reads w g \<Longrightarrow> reads (opt_put w) (opt_read g)"
  unfolding opt_put_def[abs_def] opt_read_def
  by (rule reads_mapped[OF reads_list]) (auto split: option.splits)

definition int_put :: "int \<Rightarrow> string" where
  "int_put i = put_pair text_put text_put (replicate (nat i) CHR ''x'', replicate (nat (- i)) CHR ''x'')"

definition int_read :: "int reader" where
  "int_read = read_mapped (\<lambda>(a, b). int (length a) - int (length b)) (read_pair text_read text_read)"

lemma reads_int: "reads int_put int_read"
  unfolding int_put_def[abs_def] int_read_def
  by (rule reads_mapped[OF reads_pair[OF reads_text reads_text]]) auto

definition value_key :: "claim_value \<Rightarrow> string option list \<times> string" where
  "value_key v = (case v of Text s \<Rightarrow> ([Some s], ''t'') | Texts l \<Rightarrow> (l, ''l'') | OtherValue \<Rightarrow> ([], ''o''))"

definition key_value :: "string option list \<times> string \<Rightarrow> claim_value" where
  "key_value p = (case p of (l, k) \<Rightarrow> if k = ''t'' then Text (the (hd l)) else if k = ''l'' then Texts l else OtherValue)"

definition value_put :: "claim_value \<Rightarrow> string" where
  "value_put v = put_pair (put_list (opt_put text_put)) text_put (value_key v)"

definition value_read :: "claim_value reader" where
  "value_read = read_mapped key_value (read_pair (read_list (opt_read text_read)) text_read)"

lemma reads_value: "reads value_put value_read"
  unfolding value_put_def[abs_def] value_read_def
  by (rule reads_mapped[OF reads_pair[OF reads_list[OF reads_opt[OF reads_text]] reads_text]])
    (simp add: value_key_def key_value_def split: claim_value.splits)

definition header_key :: "jwt_header \<Rightarrow> string \<times> string option \<times> string option" where
  "header_key h = (hd_alg h, hd_typ h, hd_kid h)"

definition header_put :: "jwt_header \<Rightarrow> string" where
  "header_put h = put_pair text_put (put_pair (opt_put text_put) (opt_put text_put)) (header_key h)"

definition header_read :: "jwt_header reader" where
  "header_read = read_mapped (\<lambda>(a, t, k). \<lparr>hd_alg = a, hd_typ = t, hd_kid = k\<rparr>)
     (read_pair text_read (read_pair (opt_read text_read) (opt_read text_read)))"

lemma reads_header: "reads header_put header_read"
  unfolding header_put_def[abs_def] header_read_def
  by (rule reads_mapped[OF reads_pair[OF reads_text reads_pair[OF reads_opt[OF reads_text] reads_opt[OF reads_text]]]])
    (simp add: header_key_def)

definition claims_key :: "token_claims \<Rightarrow> (string \<times> string \<times> string) \<times> (int option \<times> int option) \<times> (string \<times> claim_value) list" where
  "claims_key c = ((cl_iss c, cl_ref c, cl_role c), (cl_iat c, cl_exp c), cl_more c)"

definition claims_put :: "token_claims \<Rightarrow> string" where
  "claims_put c = put_pair (put_pair text_put (put_pair text_put text_put))
     (put_pair (put_pair (opt_put int_put) (opt_put int_put)) (put_list (put_pair text_put value_put))) (claims_key c)"

definition claims_read :: "token_claims reader" where
  "claims_read = read_mapped (\<lambda>((i, r, l), (a, e), m). \<lparr>cl_iss = i, cl_ref = r, cl_role = l, cl_iat = a, cl_exp = e, cl_more = m\<rparr>)
     (read_pair (read_pair text_read (read_pair text_read text_read))
       (read_pair (read_pair (opt_read int_read) (opt_read int_read)) (read_list (read_pair text_read value_read))))"

lemma reads_claims: "reads claims_put claims_read"
  unfolding claims_put_def[abs_def] claims_read_def
  by (rule reads_mapped[OF reads_pair[OF reads_pair[OF reads_text reads_pair[OF reads_text reads_text]]
        reads_pair[OF reads_pair[OF reads_opt[OF reads_int] reads_opt[OF reads_int]] reads_list[OF reads_pair[OF reads_text reads_value]]]]])
    (simp add: claims_key_def)

definition toy_jwt :: jwt_lib where
  "toy_jwt = \<lparr>jl_b64 = toy_b64, jl_unb64 = toy_unb64, jl_header = header_put, jl_claims = claims_put,
     jl_read_header = (\<lambda>s. Some (fst (header_read s))), jl_read_claims = (\<lambda>s. Some (fst (claims_read s))),
     jl_pair = (\<lambda>i. if i = 0 then (''ka'', ''pa'') else (''kb'', ''pb'')),
     jl_sign = (\<lambda>priv _ _. replicate 64 (last priv)), jl_readable = (\<lambda>_. True),
     jl_verify = (\<lambda>pub _ s. s = replicate 64 (last pub))\<rparr>"

lemma toy_jwt_ok: "jwt_lib_ok toy_jwt"
proof -
  have "header_read (header_put h) = (h, [])" for h using reads_header by (metis append_Nil2 reads_def)
  moreover have "claims_read (claims_put c) = (c, [])" for c using reads_claims by (metis append_Nil2 reads_def)
  ultimately show ?thesis by (simp add: jwt_lib_ok_def toy_jwt_def)
qed

definition sample_keys_env :: "(string, unit) key_env" where
  "sample_keys_env = \<lparr>ke_lib = toy_jwt, ke_sealer = toy_sealer, ke_hash = (\<lambda>_. ''hash''), ke_pinned = None, ke_domain = ''test'',
     ke_rnd = (\<lambda>_. ()), ke_nonce = (\<lambda>_. 0)\<rparr>"

definition keyless_project :: "nat option \<Rightarrow> string key_db" where
  "keyless_project budget = \<lparr>kb_secrets = no_secrets 0, kb_keys = [], kb_api = [],
     kb_refs = (\<lambda>p. if p = ''p'' then Some ''ref'' else None), kb_budget = budget\<rparr>"

lemma keyless_project: "vault_ok sample_keys_env (keyless_project b)" "vals sample_keys_env (keyless_project b) p n = None"
  by (simp_all add: vault_ok_def vals_def keyless_project_def sample_keys_env_def sealer_ok_def toy_sealer_def secrets_ok_def
      no_secrets_def abs_secrets_def stored_value_def read_secret_def)

theorem interrupted_mint_leaves_dead_keys_witness:
  "\<exists>db1 db2. generate_api_keys sample_keys_env 0 ''kid1'' ''p'' (keyless_project (Some 2)) = (Inl Died, db1) \<and>
    generate_api_keys sample_keys_env 1 ''kid2'' ''p'' (db1\<lparr>kb_budget := None\<rparr>) = (Inr (), db2) \<and>
    published_keys sample_keys_env ''p'' db2 = (Inr [(''kid2'', ''pa'')], db2)"
proof -
  have L: "ke_lib sample_keys_env = toy_jwt" by (simp add: sample_keys_env_def)
  have a: "published_rows ''p'' (keyless_project (Some 2)) = []" "\<not> list_ex (\<lambda>k. ak_project k = ''p'') (kb_api (keyless_project (Some 2)))"
    "kb_refs (keyless_project (Some 2)) ''p'' = Some ''ref''" "kb_budget (keyless_project (Some 2)) = Some 2"
    by (simp_all add: keyless_project_def published_rows_def)
  have b: "jl_pair (ke_lib sample_keys_env) 0 = (''ka'', ''pa'')" "jl_pair (ke_lib sample_keys_env) 1 = (''kb'', ''pb'')"
    "\<And>m r. \<not> jl_verify (ke_lib sample_keys_env) ''pa'' m (jl_sign (ke_lib sample_keys_env) ''kb'' m r)"
    by (simp_all add: L toy_jwt_def)
  show ?thesis
    using interrupted_mint_leaves_dead_keys[OF _ keyless_project(1) keyless_project(2) a b(1,2) _ _ b(3), of "''kid2''" "''kid1''"]
      toy_jwt_ok L by fastforce
qed

definition stored_first :: "string \<Rightarrow> string \<Rightarrow> string secret_row" where
  "stored_first n v = \<lparr>sr_project = ''p'', sr_name = n, sr_version = 1, sr_sealed = v, sr_active = True, sr_rotated = None\<rparr>"

definition fresh_row :: signing_row where
  "fresh_row = \<lparr>sk_project = ''p'', sk_kid = ''kid2'', sk_pem = ''pb'', sk_status = KeyNext, sk_published = 0,
     sk_retire_after = None, sk_retired_at = None\<rparr>"

definition mid_rotation :: "string key_db" where
  \<comment> \<open>one active key, and one published a second ago\<close>
  "mid_rotation = \<lparr>kb_secrets = \<lparr>sd_rows = [stored_first PRIVATE_KEY ''ka'', stored_first PUBLIC_KEY ''pa'', stored_first KEY_ID ''kid1'',
       stored_first (private_key_name ''kid2'') ''kb''], sd_now = 1000\<rparr>,
     kb_keys = [fresh_row],
     kb_api = [], kb_refs = (\<lambda>p. if p = ''p'' then Some ''ref'' else None), kb_budget = None\<rparr>"

lemma mid_rotation_ok: "vault_ok sample_keys_env mid_rotation"
  by (simp add: vault_ok_def mid_rotation_def sample_keys_env_def sealer_ok_def toy_sealer_def secrets_ok_def stored_first_def
      secret_named_def PRIVATE_KEY_def PUBLIC_KEY_def KEY_ID_def private_key_name_def row_identity_def)

lemma mid_rotation_vals: "vals sample_keys_env mid_rotation ''p'' (private_key_name ''kid2'') = Some ''kb''"
  by (simp add: vals_def abs_secrets_def stored_value_def read_secret_def mid_rotation_def sample_keys_env_def toy_sealer_def
      stored_first_def secret_named_def PRIVATE_KEY_def PUBLIC_KEY_def KEY_ID_def private_key_name_def row_identity_def)

lemma mid_rotation_old:
  "vals sample_keys_env mid_rotation ''p'' PUBLIC_KEY = Some ''pa''" "vals sample_keys_env mid_rotation ''p'' KEY_ID = Some ''kid1''"
  "vals sample_keys_env mid_rotation ''p'' (private_key_name ''kid1'') = None"
  by (simp_all add: vals_def abs_secrets_def stored_value_def read_secret_def mid_rotation_def sample_keys_env_def toy_sealer_def
      stored_first_def secret_named_def PRIVATE_KEY_def PUBLIC_KEY_def KEY_ID_def private_key_name_def row_identity_def js_upper_def upper_char_def is_lower_def unit_of_def)

theorem cut_over_breaks_no_key_witness:
  "\<exists>db'. cut_over sample_keys_env ''p'' None True mid_rotation = (Inr (''kid1'', ''kid2'', 1000 + SWAP_WINDOW_DAYS * 86400000), db') \<and>
    fst (retire_key ''p'' ''kid1'' False db') = Inr (WindowOpen 30)"
proof -
  have start: "kb_budget mid_rotation = None" "kb_now mid_rotation = 1000" "filled (kb_refs mid_rotation ''p'') = Some ''ref''"
    "\<not> list_ex (key_row ''p'' ''kid1'') (kb_keys mid_rotation)" "kid_ok ''kid1''"
    "incoming_key ''p'' mid_rotation = Some \<lparr>sk_project = ''p'', sk_kid = ''kid2'', sk_pem = ''pb'', sk_status = KeyNext,
       sk_published = 0, sk_retire_after = None, sk_retired_at = None\<rparr>"
    by (simp_all add: mid_rotation_def incoming_key_def filled_def key_row_def kid_ok_def is_lower_def is_digit_def kb_now_def unit_of_def fresh_row_def)
  obtain db' where c: "cut_over sample_keys_env ''p'' None True mid_rotation = (Inr (''kid1'', ''kid2'', 1000 + SWAP_WINDOW_DAYS * 86400000), db')"
    using cut_over_goes_through[OF mid_rotation_ok start(1,6), of True "''pa''" "''kid1''" "''kb''" "''ref''"] mid_rotation_vals mid_rotation_old start
    by (auto simp: filled_def fresh_row_def)
  have "fst (retire_key ''p'' ''kid1'' False db') = Inr (WindowOpen SWAP_WINDOW_DAYS)"
    using cut_over_breaks_no_key[OF _ mid_rotation_ok start(1) c start(6), of "''kb''" 1] mid_rotation_vals start(4) toy_jwt_ok
    by (simp add: fresh_row_def sample_keys_env_def toy_jwt_def)
  with c show ?thesis by (auto simp: SWAP_WINDOW_DAYS_def)
qed

end
