(* ===== verification/Engine.thy ===== *)
theory Engine
  imports Prelude
begin

text \<open>
  The Docker Engine as the worker drives it: \<open>services/worker/src/docker.ts\<close>.

  What lies outside the process is the parameter \<open>'o outside\<close>: what a request does to the outside and
  what comes back, the clock, and what sleeping does. A request is a \<open>deed\<close>; the Engine answers it with a
  payload, refuses it with a status and a message, or the transport breaks. Every deed is appended to
  a trace, so that what was asked of the node, and in which order, is a statement about lists. A payload
  of another shape than the request has is an error of its own.
\<close>

subsection \<open>The outside\<close>

record container_info =
  ct_id :: string
  ct_running :: bool
  ct_restarting :: bool
  ct_status :: string
  ct_exit :: int
  ct_error :: string

record container_spec =
  cs_image :: string
  cs_env :: "string list"
  cs_labels :: "(string \<times> string) list"
  cs_cmd :: "string list option"
  cs_memory :: nat \<comment> \<open>bytes; \<open>MemorySwap\<close> is the same\<close>
  cs_nano_cpus :: nat
  cs_pids :: nat
  cs_weight :: "nat option"
  cs_device_bps :: "(string \<times> nat) option" \<comment> \<open>for reads and for writes\<close>
  cs_init :: bool
  cs_restart :: string
  cs_mounts :: "(string \<times> string) list" \<comment> \<open>volume and target\<close>
  cs_ports :: "(nat \<times> nat) list" \<comment> \<open>container port and host port\<close>
  cs_exposed :: "nat list"
  cs_network :: "(string \<times> string) option" \<comment> \<open>network and alias\<close>

record container_summary =
  cm_id :: string
  cm_running :: bool \<comment> \<open>\<open>State === 'running'\<close>\<close>
  cm_labels :: "(string \<times> string) list"

datatype deed =
    ImageJson string
  | VolumeJson string
  | VolumeList
  | VolumeCreate string "(string \<times> string) list"
  | VolumeDelete string
  | NetworkJson string
  | NetworkList string
  | NetworkCreate string "(string \<times> string) list"
  | NetworkDelete string
  | ContainerJson string
  | ContainerCreate string container_spec
  | ContainerStart string
  | ContainerStop string
  | ContainerDelete string bool bool \<comment> \<open>\<open>force\<close> and \<open>v\<close>\<close>
  | ContainerUpdate string string \<comment> \<open>the restart policy\<close>
  | ContainerList string
  | ContainerLogs string
  | ExecCreate string "string list" bool \<comment> \<open>whether the output is attached\<close>
  | ExecStart string bool nat \<comment> \<open>\<open>Detach\<close> and the time allowed\<close>
  | ExecJson string
  | HttpGet string
  | PgConnect string nat string string \<comment> \<open>host, port, user and password\<close>
  | PgQuery string nat string "string list" \<comment> \<open>on the open connection to that host and port\<close>

datatype payload =
    GotNothing
  | GotId string
  | GotContainer container_info
  | GotExec bool "int option" \<comment> \<open>\<open>Running\<close> and \<open>ExitCode\<close>\<close>
  | GotBytes string
  | GotContainers "container_summary list"
  | GotLabelled "(string \<times> (string \<times> string) list) list" \<comment> \<open>names and labels\<close>
  | GotStatus nat
  | GotRows "string option list list"

datatype engine_error = Refused nat string | Broken string

record 'o outside =
  out_do :: "deed \<Rightarrow> 'o \<Rightarrow> (engine_error + payload) \<times> 'o"
  out_now :: "'o \<Rightarrow> nat"
  out_sleep :: "nat \<Rightarrow> 'o \<Rightarrow> 'o"

record 'o host =
  ho_out :: 'o
  ho_trace :: "deed list"

type_synonym ('o, 'z, 'a) act = "(('o, 'z) host_scheme, engine_error, 'a) eff"

definition perform :: "'o outside \<Rightarrow> deed \<Rightarrow> ('o, 'z, payload) act" where
  "perform D d w = (case out_do D d (ho_out w) of
     (r, out) \<Rightarrow> (r, w\<lparr>ho_out := out, ho_trace := ho_trace w @ [d]\<rparr>))"

definition slept :: "'o outside \<Rightarrow> nat \<Rightarrow> ('o, 'z) host_scheme \<Rightarrow> ('o, 'z) host_scheme" where
  "slept D ms w = w\<lparr>ho_out := out_sleep D ms (ho_out w)\<rparr>"

definition sleep :: "'o outside \<Rightarrow> nat \<Rightarrow> (('o, 'z) host_scheme, 'e, unit) eff" where
  "sleep D ms = modifies (slept D ms)"

definition clock :: "'o outside \<Rightarrow> ('o, 'z) host_scheme \<Rightarrow> nat" where
  "clock D w = out_now D (ho_out w)"

definition outside_ok :: "'o outside \<Rightarrow> bool" where
  \<comment> \<open>\<open>Date.now()\<close> does not go back, and a timer does not fire early\<close>
  "outside_ok D = ((\<forall>d out. out_now D out \<le> out_now D (snd (out_do D d out))) \<and>
     (\<forall>ms out. out_now D out + ms \<le> out_now D (out_sleep D ms out)))"

definition UNEXPECTED :: engine_error where
  "UNEXPECTED = Broken ''unexpected answer''"

definition caught :: "('s, 'e, 'a) eff \<Rightarrow> ('e \<Rightarrow> ('s, 'f, 'a) eff) \<Rightarrow> ('s, 'f, 'a) eff" where
  "caught m h s = (case m s of (Inl e, s') \<Rightarrow> h e s' | (Inr a, s') \<Rightarrow> (Inr a, s'))"

definition swallowed :: "('s, 'e, unit) eff \<Rightarrow> ('s, 'f, unit) eff" where
  \<comment> \<open>\<open>.catch(() => {})\<close>\<close>
  "swallowed m = caught m (\<lambda>_. ret ())"

definition asked :: "'o outside \<Rightarrow> deed \<Rightarrow> (payload \<Rightarrow> 'a option) \<Rightarrow> ('o, 'z, 'a) act" where
  "asked D d shape = and_then (perform D d) (\<lambda>p. case shape p of Some a \<Rightarrow> ret a | None \<Rightarrow> throw UNEXPECTED)"

definition told :: "'o outside \<Rightarrow> deed \<Rightarrow> ('o, 'z, unit) act" where
  "told D d = and_then (perform D d) (\<lambda>_. ret ())"

subsection \<open>Texts\<close>

fun mentions :: "string \<Rightarrow> string \<Rightarrow> bool" where
  "mentions t [] = (t = [])"
| "mentions t (c # s) = (take (length t) (c # s) = t \<or> mentions t s)"

definition mentions_ci :: "string \<Rightarrow> string \<Rightarrow> bool" where
  \<comment> \<open>a regular expression of letters and spaces under the flag \<open>i\<close>\<close>
  "mentions_ci t s = mentions (js_lower t) (js_lower s)"

definition message :: "engine_error \<Rightarrow> string" where
  "message e = (case e of Refused _ m \<Rightarrow> m | Broken m \<Rightarrow> m)"

definition not_execable :: "engine_error \<Rightarrow> bool" where
  "not_execable e = (case e of
     Refused s m \<Rightarrow> s = 404 \<or> s = 409 \<or> mentions_ci ''stopped state'' m \<or> mentions_ci ''not running'' m \<or>
       mentions_ci ''procready not received'' m \<or> mentions_ci ''is not running'' m
   | Broken _ \<Rightarrow> False)"

subsection \<open>The output of an exec\<close>

definition be32 :: "string \<Rightarrow> nat" where
  "be32 b = foldl (\<lambda>n c. n * 256 + of_char c) 0 b"

function demux_from :: "string \<Rightarrow> string \<times> string" where
  \<comment> \<open>the loop: \<open>i + 8 <= buf.length\<close>\<close>
  "demux_from buf =
     (if length buf < 8 then ([], [])
      else
        let len = be32 (take 4 (drop 4 buf)); chunk = take len (drop 8 buf); (out, err) = demux_from (drop len (drop 8 buf))
        in if buf ! 0 = CHR 0x02 then (out, chunk @ err) else (chunk @ out, err))"
  by pat_completeness auto
termination by (relation "measure length") auto

declare demux_from.simps [simp del]

definition demux :: "string \<Rightarrow> string \<times> string" where
  "demux buf =
     (if buf = [] then ([], [])
      else if buf ! 0 \<noteq> CHR 0x01 \<and> buf ! 0 \<noteq> CHR 0x02 then (buf, [])
      else demux_from buf)"

record exec_result =
  xr_exit :: "int option"
  xr_out :: string
  xr_err :: string

subsection \<open>The client\<close>

definition found :: "('o, 'z, unit) act \<Rightarrow> ('o, 'z, bool) act" where
  "found m = caught (and_then m (\<lambda>_. ret True)) (\<lambda>e. case e of
     Refused s _ \<Rightarrow> if s = 404 then ret False else throw e | Broken _ \<Rightarrow> throw e)"

definition forgiven :: "nat list \<Rightarrow> ('o, 'z, unit) act \<Rightarrow> ('o, 'z, unit) act" where
  \<comment> \<open>a refusal with one of these statuses is what was wanted\<close>
  "forgiven statuses m = caught m (\<lambda>e. case e of
     Refused s _ \<Rightarrow> if s \<in> set statuses then ret () else throw e | Broken _ \<Rightarrow> throw e)"

definition image_exists :: "'o outside \<Rightarrow> string \<Rightarrow> ('o, 'z, bool) act" where
  "image_exists D n = found (told D (ImageJson n))"

definition volume_exists :: "'o outside \<Rightarrow> string \<Rightarrow> ('o, 'z, bool) act" where
  "volume_exists D n = found (told D (VolumeJson n))"

definition create_volume :: "'o outside \<Rightarrow> string \<Rightarrow> (string \<times> string) list \<Rightarrow> ('o, 'z, unit) act" where
  "create_volume D n labels = told D (VolumeCreate n labels)"

definition remove_volume :: "'o outside \<Rightarrow> string \<Rightarrow> ('o, 'z, unit) act" where
  "remove_volume D n = forgiven [404] (told D (VolumeDelete n))"

definition network_exists :: "'o outside \<Rightarrow> string \<Rightarrow> ('o, 'z, bool) act" where
  "network_exists D n = found (told D (NetworkJson n))"

definition create_network :: "'o outside \<Rightarrow> string \<Rightarrow> (string \<times> string) list \<Rightarrow> ('o, 'z, unit) act" where
  "create_network D n labels = forgiven [409] (told D (NetworkCreate n labels))"

definition remove_network :: "'o outside \<Rightarrow> string \<Rightarrow> ('o, 'z, unit) act" where
  "remove_network D n = forgiven [404] (told D (NetworkDelete n))"

definition inspect_container :: "'o outside \<Rightarrow> string \<Rightarrow> ('o, 'z, container_info option) act" where
  "inspect_container D n = caught
     (and_then (asked D (ContainerJson n) (\<lambda>p. case p of GotContainer c \<Rightarrow> Some c | _ \<Rightarrow> None)) (\<lambda>c. ret (Some c)))
     (\<lambda>e. case e of Refused s _ \<Rightarrow> if s = 404 then ret None else throw e | Broken _ \<Rightarrow> throw e)"

definition create_container :: "'o outside \<Rightarrow> string \<Rightarrow> container_spec \<Rightarrow> ('o, 'z, string) act" where
  "create_container D n spec = asked D (ContainerCreate n spec) (\<lambda>p. case p of GotId i \<Rightarrow> Some i | _ \<Rightarrow> None)"

definition start_container :: "'o outside \<Rightarrow> string \<Rightarrow> ('o, 'z, unit) act" where
  "start_container D i = forgiven [304] (told D (ContainerStart i))"

definition stop_container :: "'o outside \<Rightarrow> string \<Rightarrow> ('o, 'z, unit) act" where
  "stop_container D i = forgiven [404, 304] (told D (ContainerStop i))"

definition remove_container :: "'o outside \<Rightarrow> string \<Rightarrow> bool \<Rightarrow> bool \<Rightarrow> ('o, 'z, unit) act" where
  "remove_container D i force anonymous = forgiven [404] (told D (ContainerDelete i force anonymous))"

definition set_restart_policy :: "'o outside \<Rightarrow> string \<Rightarrow> string \<Rightarrow> ('o, 'z, unit) act" where
  "set_restart_policy D i policy = told D (ContainerUpdate i policy)"

definition list_containers :: "'o outside \<Rightarrow> string \<Rightarrow> ('o, 'z, container_summary list) act" where
  "list_containers D label = asked D (ContainerList label) (\<lambda>p. case p of GotContainers l \<Rightarrow> Some l | _ \<Rightarrow> None)"

definition list_volumes :: "'o outside \<Rightarrow> ('o, 'z, (string \<times> (string \<times> string) list) list) act" where
  \<comment> \<open>without a filter\<close>
  "list_volumes D = asked D VolumeList (\<lambda>p. case p of GotLabelled l \<Rightarrow> Some l | _ \<Rightarrow> None)"

definition list_networks :: "'o outside \<Rightarrow> string \<Rightarrow> ('o, 'z, (string \<times> (string \<times> string) list) list) act" where
  "list_networks D label = asked D (NetworkList label) (\<lambda>p. case p of GotLabelled l \<Rightarrow> Some l | _ \<Rightarrow> None)"

definition container_logs :: "'o outside \<Rightarrow> string \<Rightarrow> ('o, 'z, string) act" where
  "container_logs D i = asked D (ContainerLogs i) (\<lambda>p. case p of GotBytes b \<Rightarrow> Some (fst (demux b) @ snd (demux b)) | _ \<Rightarrow> None)"

definition EXEC_TIMEOUT_MS :: nat where "EXEC_TIMEOUT_MS = 600000"

definition CALL_TIMEOUT_MS :: nat where "CALL_TIMEOUT_MS = 30000"

definition exec_id :: "payload \<Rightarrow> string option" where
  "exec_id p = (case p of GotId i \<Rightarrow> Some i | _ \<Rightarrow> None)"

definition exec_state :: "payload \<Rightarrow> (bool \<times> int option) option" where
  "exec_state p = (case p of GotExec r x \<Rightarrow> Some (r, x) | _ \<Rightarrow> None)"

primrec poll_exec :: "'o outside \<Rightarrow> string \<Rightarrow> nat \<Rightarrow> ('o, 'z, int) act" where
  "poll_exec D i 0 = throw (Broken ''exec did not finish in 10s'')"
| "poll_exec D i (Suc n) =
     and_then (asked D (ExecJson i) exec_state) (\<lambda>(running, code).
     if \<not> running then ret (case code of Some x \<Rightarrow> x | None \<Rightarrow> -1)
     else and_then (sleep D 100) (\<lambda>_. poll_exec D i n))"

definition exec_once :: "'o outside \<Rightarrow> string \<Rightarrow> string list \<Rightarrow> ('o, 'z, int) act" where
  "exec_once D c cmd =
     and_then (asked D (ExecCreate c cmd False) exec_id) (\<lambda>i.
     and_then (told D (ExecStart i True CALL_TIMEOUT_MS)) (\<lambda>_.
     poll_exec D i 100))"

definition docker_exec :: "'o outside \<Rightarrow> string \<Rightarrow> string list \<Rightarrow> ('o, 'z, int option) act" where
  \<comment> \<open>\<open>exec\<close>: the exit code, \<open>None\<close> when the container cannot exec\<close>
  "docker_exec D c cmd = caught (and_then (exec_once D c cmd) (\<lambda>x. ret (Some x)))
     (\<lambda>e. if not_execable e then ret None else throw e)"

definition exec_capture :: "'o outside \<Rightarrow> string \<Rightarrow> string list \<Rightarrow> nat option \<Rightarrow> ('o, 'z, exec_result) act" where
  "exec_capture D c cmd timeout = and_then
     (caught (and_then (asked D (ExecCreate c cmd True) exec_id) (\<lambda>i. ret (Some i)))
       (\<lambda>e. if not_execable e then ret None else throw e)) (\<lambda>created. case created of
       None \<Rightarrow> ret \<lparr>xr_exit = None, xr_out = [], xr_err = []\<rparr>
     | Some i \<Rightarrow>
         and_then (asked D (ExecStart i False (case timeout of Some t \<Rightarrow> t | None \<Rightarrow> EXEC_TIMEOUT_MS))
           (\<lambda>p. case p of GotBytes b \<Rightarrow> Some (demux b) | _ \<Rightarrow> None)) (\<lambda>(out, err).
         if take 23 out = ''OCI runtime exec failed'' \<or> take 23 err = ''OCI runtime exec failed''
         then throw (Refused 500 (if out = [] then err else out))
         else
           and_then (asked D (ExecJson i) exec_state) (\<lambda>(_, code).
           ret \<lparr>xr_exit = Some (case code of Some x \<Rightarrow> x | None \<Rightarrow> -1), xr_out = out, xr_err = err\<rparr>)))"

subsection \<open>What every run of a program keeps\<close>

definition always :: "('s \<Rightarrow> 's \<Rightarrow> bool) \<Rightarrow> ('s, 'e, 'a) eff \<Rightarrow> bool" where
  "always R m = (\<forall>s. R s (snd (m s)))"

locale effect_order =
  fixes R :: "'s \<Rightarrow> 's \<Rightarrow> bool"
  assumes same: "R s s"
    and chain: "R s t \<Longrightarrow> R t u \<Longrightarrow> R s u"
begin

lemma always_basic: "always R (ret a)" "always R (throw e)" "always R (gets f)" "always R (guard b e)"
  by (simp_all add: always_def same eff_defs)

lemma always_read_only: "read_only m \<Longrightarrow> always R m"
  by (simp add: always_def read_only_def same)

lemma always_and_then: "always R m \<Longrightarrow> (\<And>a. always R (f a)) \<Longrightarrow> always R (and_then m f)"
  unfolding always_def and_then_def by (auto split: prod.splits sum.splits) (metis chain snd_conv)+

lemma always_caught: "always R m \<Longrightarrow> (\<And>e. always R (h e)) \<Longrightarrow> always R (caught m h)"
  unfolding always_def caught_def by (auto split: prod.splits sum.splits) (metis chain snd_conv)+

lemma always_lift_error: "always R m \<Longrightarrow> always R (lift_error g m)"
  by (simp add: always_def)

lemma always_swallowed: "always R m \<Longrightarrow> always R (swallowed m)"
  unfolding swallowed_def by (intro always_caught always_basic)

lemmas always_intros = always_basic always_and_then always_caught always_lift_error always_swallowed

end

definition did :: "(deed \<Rightarrow> bool) \<Rightarrow> ('o, 'z) host_scheme \<Rightarrow> ('o, 'z) host_scheme \<Rightarrow> bool" where
  "did P w w' = (\<exists>t. ho_trace w' = ho_trace w @ t \<and> list_all P t)"

lemma did_order: "effect_order (did P)"
  by unfold_locales (fastforce simp: did_def)+

definition kept_as :: "('s \<Rightarrow> 'b) \<Rightarrow> 's \<Rightarrow> 's \<Rightarrow> bool" where
  "kept_as f s t = (f t = f s)"

interpretation keeps: effect_order "kept_as f" for f
  by unfold_locales (simp_all add: kept_as_def)

definition later :: "'o outside \<Rightarrow> ('o, 'z) host_scheme \<Rightarrow> ('o, 'z) host_scheme \<Rightarrow> bool" where
  "later D w w' = (clock D w \<le> clock D w')"

lemma later_order: "effect_order (later D)"
  by unfold_locales (auto simp: later_def)

lemma did_perform: "P d \<Longrightarrow> always (did P) (perform D d)"
  by (auto simp: always_def did_def perform_def split: prod.splits)

lemma did_slept: "did P w (slept D n w)"
  by (simp add: did_def slept_def)

lemma later_perform: "outside_ok D \<Longrightarrow> always (later D) (perform D d)"
  by (auto simp: always_def later_def perform_def clock_def outside_ok_def split: prod.splits) (metis snd_conv)

lemma later_slept: "outside_ok D \<Longrightarrow> later D w (slept D n w)"
proof -
  assume "outside_ok D"
  then have "out_now D (ho_out w) + n \<le> out_now D (out_sleep D n (ho_out w))" by (simp add: outside_ok_def)
  then show ?thesis by (simp add: later_def slept_def clock_def)
qed

lemmas client_defs = image_exists_def volume_exists_def create_volume_def remove_volume_def network_exists_def create_network_def
  remove_network_def inspect_container_def create_container_def start_container_def stop_container_def remove_container_def
  set_restart_policy_def list_containers_def list_volumes_def list_networks_def container_logs_def

locale host_order = effect_order R for R :: "('o, 'z) host_scheme \<Rightarrow> ('o, 'z) host_scheme \<Rightarrow> bool" +
  fixes D :: "'o outside" and Q :: "deed \<Rightarrow> bool"
  assumes performs: "Q d \<Longrightarrow> always R (perform D d)"
    and sleeps: "R w (slept D n w)"
begin

lemma always_sleep: "always R (sleep D n)"
  by (simp add: always_def sleep_def modifies_def sleeps)

lemma always_asked: "Q d \<Longrightarrow> always R (asked D d f)" "Q d \<Longrightarrow> always R (told D d)"
  unfolding asked_def told_def by (auto intro!: always_intros performs split: option.splits)

lemma always_found: "always R m \<Longrightarrow> always R (found m)" "always R m \<Longrightarrow> always R (forgiven ss m)"
  unfolding found_def forgiven_def by (auto intro!: always_intros split: engine_error.splits)

lemma always_client:
  "Q (ImageJson n) \<Longrightarrow> always R (image_exists D n)" "Q (VolumeJson n) \<Longrightarrow> always R (volume_exists D n)"
  "Q (VolumeCreate n l) \<Longrightarrow> always R (create_volume D n l)" "Q (VolumeDelete n) \<Longrightarrow> always R (remove_volume D n)"
  "Q (NetworkJson n) \<Longrightarrow> always R (network_exists D n)" "Q (NetworkCreate n l) \<Longrightarrow> always R (create_network D n l)"
  "Q (NetworkDelete n) \<Longrightarrow> always R (remove_network D n)" "Q (ContainerJson n) \<Longrightarrow> always R (inspect_container D n)"
  "Q (ContainerCreate n s) \<Longrightarrow> always R (create_container D n s)" "Q (ContainerStart n) \<Longrightarrow> always R (start_container D n)"
  "Q (ContainerStop n) \<Longrightarrow> always R (stop_container D n)" "Q (ContainerDelete n b c) \<Longrightarrow> always R (remove_container D n b c)"
  "Q (ContainerUpdate n p) \<Longrightarrow> always R (set_restart_policy D n p)" "Q (ContainerList n) \<Longrightarrow> always R (list_containers D n)"
  "Q VolumeList \<Longrightarrow> always R (list_volumes D)" "Q (NetworkList n) \<Longrightarrow> always R (list_networks D n)"
  "Q (ContainerLogs n) \<Longrightarrow> always R (container_logs D n)"
  unfolding client_defs by (auto intro!: always_found always_intros always_asked split: engine_error.splits)

definition execs :: "string \<Rightarrow> string list \<Rightarrow> bool" where
  "execs c cmd = (\<forall>b i t. Q (ExecCreate c cmd b) \<and> Q (ExecStart i b t) \<and> Q (ExecJson i))"

lemma always_poll: "execs c cmd \<Longrightarrow> always R (poll_exec D i n)"
  by (induction n) (auto simp: execs_def intro!: always_intros always_asked always_sleep split: prod.splits)

lemma always_exec: "execs c cmd \<Longrightarrow> always R (docker_exec D c cmd)" "execs c cmd \<Longrightarrow> always R (exec_capture D c cmd t)"
  unfolding docker_exec_def exec_once_def exec_capture_def
  by (auto simp: execs_def intro!: always_intros always_asked always_poll[of c cmd] split: prod.splits option.splits)

end

interpretation deeds: host_order "did P" D P for D P
  by (intro host_order.intro host_order_axioms.intro did_order did_perform did_slept)

lemma later_host: "outside_ok D \<Longrightarrow> host_order (later D) D (\<lambda>_. True)"
  by (intro host_order.intro host_order_axioms.intro later_order later_perform later_slept)

subsection \<open>Framing\<close>

definition put32 :: "nat \<Rightarrow> string" where
  "put32 n = [char_of (n div 16777216), char_of (n div 65536), char_of (n div 256), char_of n]"

definition frame :: "bool \<times> string \<Rightarrow> string" where
  \<comment> \<open>a chunk as the Engine sends it, of the second stream when the flag is set\<close>
  "frame c = (if fst c then CHR 0x02 else CHR 0x01) # [CHR 0x00, CHR 0x00, CHR 0x00] @ put32 (length (snd c)) @ snd c"

definition of_stream :: "bool \<Rightarrow> (bool \<times> string) list \<Rightarrow> string" where
  "of_stream e cs = concat (map snd (filter (\<lambda>c. fst c = e) cs))"

lemma be32_put32: "n < 4294967296 \<Longrightarrow> be32 (put32 n) = n"
proof -
  assume n: "n < 4294967296"
  define a b c where "a = n div 256" and "b = a div 256" and "c = b div 256"
  have d: "n div 65536 = b" "n div 16777216 = c"
    using div_mult2_eq[of n 256 256] div_mult2_eq[of n 65536 256] by (simp_all add: a_def b_def c_def)
  have "c < 256" using n d(2) by (simp add: less_mult_imp_div_less flip: d(2))
  then have "c mod 256 = c" by simp
  moreover have "n = a * 256 + n mod 256" "a = b * 256 + a mod 256" "b = c * 256 + b mod 256"
    unfolding a_def b_def c_def by (rule div_mult_mod_eq[symmetric])+
  ultimately show "be32 (put32 n) = n"
    by (simp add: be32_def put32_def d a_def[symmetric])
qed

lemma demux_from_frames:
  "\<forall>c \<in> set cs. length (snd c) < 4294967296 \<Longrightarrow> demux_from (concat (map frame cs)) = (of_stream False cs, of_stream True cs)"
proof (induction cs)
  case Nil show ?case by (simp add: demux_from.simps[of "[]"] of_stream_def)
next
  case (Cons c cs)
  obtain e b where c: "c = (e, b)" by fastforce
  let ?rest = "concat (map frame cs)"
  have len: "length (put32 (length b)) = 4" by (simp add: put32_def)
  have "take 4 (drop 4 (frame c @ ?rest)) = put32 (length b)" "drop 8 (frame c @ ?rest) = b @ ?rest"
    using len by (simp_all add: c frame_def numeral_eq_Suc)
  moreover have "be32 (put32 (length b)) = length b" using Cons.prems by (intro be32_put32) (simp add: c)
  moreover have "\<not> length (frame c @ ?rest) < 8" using len by (simp add: c frame_def)
  moreover have "(frame c @ ?rest) ! 0 = (if e then CHR 0x02 else CHR 0x01)" by (simp add: c frame_def)
  moreover have "demux_from ?rest = (of_stream False cs, of_stream True cs)" using Cons by simp
  ultimately have "demux_from (frame c @ ?rest) =
      (if e then (of_stream False cs, b @ of_stream True cs) else (b @ of_stream False cs, of_stream True cs))"
    by (subst demux_from.simps) (simp add: Let_def)
  then show ?case by (simp add: c of_stream_def)
qed

text \<open>
  C33. What the Engine frames, the client takes apart: whatever chunks a command wrote on its two streams, in
  whatever order, each stream comes back whole, in order, and free of the other's bytes.
\<close>

theorem exec_streams_come_back_whole:
  assumes "\<forall>c \<in> set cs. length (snd c) < 4294967296"
  shows "demux (concat (map frame cs)) = (of_stream False cs, of_stream True cs)"
proof (cases cs)
  case Nil then show ?thesis by (simp add: demux_def of_stream_def)
next
  case (Cons c cs')
  have "demux buf = demux_from buf" if "buf \<noteq> []" "buf ! 0 = CHR 0x01 \<or> buf ! 0 = CHR 0x02" for buf
    using that by (auto simp: demux_def)
  moreover have "concat (map frame cs) \<noteq> []" "concat (map frame cs) ! 0 = CHR 0x01 \<or> concat (map frame cs) ! 0 = CHR 0x02"
    by (auto simp: Cons frame_def)
  ultimately show ?thesis using demux_from_frames[OF assms] by metis
qed

theorem exec_streams_come_back_whole_witness:
  "demux (concat (map frame [(False, ''re''), (True, ''warn''), (False, ''ady'')])) = (''ready'', ''warn'')"
  using exec_streams_come_back_whole[of "[(False, ''re''), (True, ''warn''), (False, ''ady'')]"] by (simp add: of_stream_def)

end
