(* ===== verification/Backups.thy ===== *)
theory Backups
  imports Engine
begin

text \<open>
  Backups of a project: the pgBackRest commands of \<open>services/worker/src/backup.ts\<close>, run inside the
  project's container through theory \<open>Engine\<close>, and the schedule of \<open>backup-schedule.ts\<close>.

  The environment is a map from names to texts, with ports kept as their text; Base64, the reading of
  \<open>info --output=json\<close> and SHA-256 are parameters. Times are in milliseconds; the local time of day is UTC
  moved by a fixed number of minutes. The failure text of pgBackRest is passed on whole, where the code
  picks its telling lines.
\<close>

subsection \<open>Where a repo lives\<close>

record repo_target =
  rt_endpoint :: string
  rt_port :: string
  rt_bucket :: string
  rt_key :: string
  rt_secret :: string
  rt_region :: string
  rt_host_style :: bool
  rt_verify_tls :: bool

type_synonym environment = "string \<Rightarrow> string option"

definition nonempty_env :: "environment \<Rightarrow> string \<Rightarrow> string option" where
  \<comment> \<open>set, and not to the empty text\<close>
  "nonempty_env env n = (case env n of Some (c # s) \<Rightarrow> Some (c # s) | _ \<Rightarrow> None)"

definition or_else :: "'a option \<Rightarrow> 'a \<Rightarrow> 'a" where
  "or_else x d = (case x of Some a \<Rightarrow> a | None \<Rightarrow> d)"

definition repo_target_from_env :: "environment \<Rightarrow> repo_target option" where
  "repo_target_from_env env =
     (case (nonempty_env env ''SH_BACKUP_S3_ENDPOINT'', nonempty_env env ''SH_BACKUP_S3_BUCKET'', nonempty_env env ''SH_BACKUP_S3_KEY'',
            nonempty_env env ''SH_BACKUP_S3_SECRET'') of
        (Some endpoint, Some bucket, Some key, Some secret) \<Rightarrow>
          Some \<lparr>rt_endpoint = endpoint, rt_port = or_else (env ''SH_BACKUP_S3_PORT'') ''443'', rt_bucket = bucket,
            rt_key = key, rt_secret = secret, rt_region = or_else (env ''SH_BACKUP_S3_REGION'') ''auto'',
            rt_host_style = (env ''SH_BACKUP_S3_URI_STYLE'' = Some ''host''),
            rt_verify_tls = (env ''SH_BACKUP_S3_VERIFY_TLS'' \<noteq> Some ''n'')\<rparr>
      | _ \<Rightarrow> None)"

definition STANZA :: string where "STANZA = ''main''"

definition repo_path_for :: "string \<Rightarrow> string" where
  "repo_path_for p = ''/projects/'' @ p"

definition PLAN_RETENTION_FULL :: "string \<Rightarrow> nat" where
  "PLAN_RETENTION_FULL plan = (if plan = ''pro'' then 35 else if plan = ''team'' \<or> plan = ''enterprise'' then 98 else 7)"

definition schedule_for :: "string \<Rightarrow> nat \<times> nat" where
  \<comment> \<open>\<open>fullEveryDays\<close> and \<open>incrEveryDays\<close>\<close>
  "schedule_for plan = (if plan = ''pro'' \<or> plan = ''team'' \<or> plan = ''enterprise'' then (7, 1) else (1, 0))"

definition render_pgbackrest_conf :: "string \<Rightarrow> string \<Rightarrow> string \<Rightarrow> repo_target \<Rightarrow> string" where
  "render_pgbackrest_conf project plan cipher_pass r = js_join [CHR 0x0A]
     [''[global]'', ''repo1-type=s3'', ''repo1-s3-endpoint='' @ rt_endpoint r, ''repo1-s3-bucket='' @ rt_bucket r,
      ''repo1-s3-region='' @ rt_region r, ''repo1-s3-key='' @ rt_key r, ''repo1-s3-key-secret='' @ rt_secret r,
      ''repo1-s3-uri-style='' @ (if rt_host_style r then ''host'' else ''path''),
      ''repo1-storage-port='' @ rt_port r, ''repo1-storage-verify-tls='' @ (if rt_verify_tls r then ''y'' else ''n''),
      ''repo1-path='' @ repo_path_for project, ''repo1-cipher-type=aes-256-cbc'', ''repo1-cipher-pass='' @ cipher_pass,
      ''repo1-retention-full-type=time'', ''repo1-retention-full='' @ string_of_nat (PLAN_RETENTION_FULL plan),
      ''compress-type=zst'', ''compress-level=3'', ''process-max=2'', ''start-fast=y'', ''archive-async=y'',
      ''spool-path=/var/lib/postgresql/data/pgbackrest-spool'', ''log-level-console=info'', ''log-level-file=info'',
      ''log-path=/var/log/pgbackrest'', [], ''['' @ STANZA @ '']'', ''pg1-path=/var/lib/postgresql/data/pgdata'',
      ''pg1-port=5432'', ''pg1-socket-path=/var/run/postgresql'', []]"

subsection \<open>Commands\<close>

definition write_conf :: "'o outside \<Rightarrow> (string \<Rightarrow> string) \<Rightarrow> string \<Rightarrow> string \<Rightarrow> ('o, 'z, unit) act" where
  "write_conf D b64 c conf =
     (let cmd = js_join [CHR 0x0A] [''set -e'', ''umask 077'',
        ''printf '' @ [CHR 0x27] @ ''%s'' @ [CHR 0x27] @ '' '' @ [CHR 0x27] @ b64 conf @ [CHR 0x27] @
          '' | base64 -d > /etc/pgbackrest/pgbackrest.conf'',
        ''mkdir -p /var/lib/postgresql/data/pgbackrest-spool'', ''test -s /etc/pgbackrest/pgbackrest.conf'']
      in and_then (exec_capture D c [''sh'', ''-c'', cmd] None) (\<lambda>r.
         guard (xr_exit r = Some 0) (Broken (''could not write pgbackrest.conf: '' @
           (if xr_err r = [] then xr_out r else xr_err r)))))"

definition pgb_timeout :: "string \<Rightarrow> nat" where
  "pgb_timeout verb = (if verb = ''backup'' \<or> verb = ''restore'' then 600000
     else if verb = ''stanza-create'' \<or> verb = ''stanza-upgrade'' then 60000
     else if verb = ''check'' then 15000 else if verb = ''info'' then 30000 else 120000)"

definition pgbackrest :: "'o outside \<Rightarrow> string \<Rightarrow> string list \<Rightarrow> ('o, 'z, exec_result) act" where
  "pgbackrest D c args =
     exec_capture D c ([''pgbackrest'', ''--stanza='' @ STANZA] @ args)
       (Some (case List.find (\<lambda>a. take 1 a \<noteq> ''-'') args of None \<Rightarrow> 120000 | Some verb \<Rightarrow> pgb_timeout verb))"

definition is_lock_contention :: "string \<Rightarrow> bool" where
  "is_lock_contention out = (mentions_ci ''unable to acquire lock'' out \<and> mentions_ci ''Resource temporarily unavailable'' out)"

primrec with_lock_retry :: "'o outside \<Rightarrow> ('o, 'z, exec_result) act \<Rightarrow> nat \<Rightarrow> nat \<Rightarrow> exec_result option \<Rightarrow> ('o, 'z, exec_result) act" where
  \<comment> \<open>\<open>attempts\<close> left, \<open>delayMs\<close> and \<open>last\<close>; no caller asks for no attempt at all\<close>
  "with_lock_retry D run 0 delay before = (case before of Some r \<Rightarrow> ret r | None \<Rightarrow> throw UNEXPECTED)"
| "with_lock_retry D run (Suc n) delay before =
     and_then run (\<lambda>r.
     if xr_exit r = Some 0 then ret r
     else if \<not> is_lock_contention (xr_out r @ xr_err r) then ret r
     else and_then (sleep D delay) (\<lambda>_. with_lock_retry D run n delay (Some r)))"

definition output_of :: "exec_result \<Rightarrow> string" where
  "output_of r = js_trim (xr_out r @ xr_err r)"

definition stanza_create :: "'o outside \<Rightarrow> string \<Rightarrow> ('o, 'z, bool) act" where
  \<comment> \<open>whether this call created it\<close>
  "stanza_create D c =
     and_then (with_lock_retry D (pgbackrest D c [''stanza-create'']) 20 1500 None) (\<lambda>r.
     let there = mentions_ci ''already exists'' (output_of r) \<or> mentions_ci ''is already up to date'' (output_of r) in
     if xr_exit r = Some 0 then ret (\<not> there)
     else if there then ret False
     else throw (Broken (''pgbackrest stanza-create failed: '' @ output_of r)))"

definition backup_check :: "'o outside \<Rightarrow> string \<Rightarrow> ('o, 'z, bool \<times> string) act" where
  \<comment> \<open>\<open>check\<close>\<close>
  "backup_check D c = and_then (with_lock_retry D (pgbackrest D c [''check'']) 8 750 None)
     (\<lambda>r. ret (xr_exit r = Some 0, output_of r))"

record backup_entry =
  be_label :: string
  be_type :: string
  be_bytes :: nat
  be_wal_start :: "string option"
  be_wal_stop :: "string option"

definition backup_info :: "'o outside \<Rightarrow> (string \<Rightarrow> backup_entry list option) \<Rightarrow> string \<Rightarrow> ('o, 'z, backup_entry list) act" where
  \<comment> \<open>\<open>info\<close>: its field \<open>backups\<close>; \<open>None\<close> of the reader is \<open>JSON.parse\<close> throwing\<close>
  "backup_info D read c =
     and_then (pgbackrest D c [''info'', ''--output=json'']) (\<lambda>r.
     if xr_exit r \<noteq> Some 0 then throw (Broken (''pgbackrest info failed: '' @ xr_out r @ xr_err r))
     else case read (xr_out r) of Some l \<Rightarrow> ret l | None \<Rightarrow> throw (Broken ''unexpected token in JSON''))"

datatype backup_kind = Full | Incr

definition kind_text :: "backup_kind \<Rightarrow> string" where
  "kind_text k = (case k of Full \<Rightarrow> ''full'' | Incr \<Rightarrow> ''incr'')"

definition take_backup :: "'o outside \<Rightarrow> string \<Rightarrow> backup_kind \<Rightarrow> ('o, 'z, unit) act" where
  \<comment> \<open>\<open>backup\<close>\<close>
  "take_backup D c k =
     and_then (with_lock_retry D (pgbackrest D c [''--type='' @ kind_text k, ''backup'']) 20 1500 None) (\<lambda>r.
     guard (xr_exit r = Some 0) (Broken (''pgbackrest '' @ kind_text k @ '' backup failed: '' @ output_of r)))"

definition restore_repo :: "'o outside \<Rightarrow> (nat \<Rightarrow> string) \<Rightarrow> string \<Rightarrow> nat option \<Rightarrow> ('o, 'z, string) act" where
  \<comment> \<open>\<open>restore\<close>; the parameter prints an instant with its milliseconds and \<open>+00\<close>\<close>
  "restore_repo D show_time c target =
     and_then (with_lock_retry D (pgbackrest D c (''restore'' # (case target of None \<Rightarrow> []
         | Some t \<Rightarrow> [''--type=time'', ''--target='' @ show_time t, ''--target-action=pause'']))) 20 1500 None) (\<lambda>r.
     if xr_exit r = Some 0 then ret (output_of r)
     else throw (Broken (''pgbackrest restore failed: '' @ output_of r)))"

subsection \<open>The schedule\<close>

definition DAY :: nat where "DAY = 86400000"

definition slot_minute_for :: "(string \<Rightarrow> nat) \<Rightarrow> string \<Rightarrow> nat \<Rightarrow> nat" where
  \<comment> \<open>the parameter is the first two bytes of the digest as a number\<close>
  "slot_minute_for digest p minutes = digest p mod max 1 minutes"

definition minute_of_day :: "nat \<Rightarrow> nat \<Rightarrow> nat" where
  \<comment> \<open>the local clock, \<open>tz\<close> minutes ahead of UTC\<close>
  "minute_of_day tz now = (now div 60000 + tz) mod 1440"

definition in_slot :: "(string \<Rightarrow> nat) \<Rightarrow> nat \<Rightarrow> string \<Rightarrow> nat \<Rightarrow> nat \<times> nat \<Rightarrow> bool" where
  "in_slot digest tz p now w =
     (let hour = minute_of_day tz now div 60 in
      if w = (0, 24) then True
      else if hour < fst w \<or> snd w \<le> hour then False
      else
        let slot = slot_minute_for digest p ((snd w - fst w) * 60); m = minute_of_day tz now - fst w * 60
        in slot \<le> m \<and> m < slot + 30)"

definition WINDOW :: "nat \<times> nat" where "WINDOW = (3, 6)"

definition older_than :: "nat \<Rightarrow> nat \<Rightarrow> nat \<Rightarrow> bool" where
  \<comment> \<open>an age in days reaches a number of days\<close>
  "older_than n at now = (at + n * DAY \<le> now)"

definition decide_backup :: "(string \<Rightarrow> nat) \<Rightarrow> nat \<Rightarrow> string \<Rightarrow> string \<Rightarrow> nat \<Rightarrow> nat option \<Rightarrow> nat option \<Rightarrow> nat \<times> nat
    \<Rightarrow> backup_kind option" where
  \<comment> \<open>project, plan, now, last full and last backup of any kind that succeeded, window\<close>
  "decide_backup digest tz p plan now last_full last_any w =
     (case last_full of
        None \<Rightarrow> Some Full
      | Some f \<Rightarrow>
          let (full_days, incr_days) = schedule_for plan; a = or_else last_any f in
          if older_than (full_days * 2) f now then Some Full
          else if \<not> in_slot digest tz p now w then None
          else if older_than full_days f now then Some Full
          else if 0 < incr_days \<and> older_than incr_days a now then Some Incr
          else None)"

subsection \<open>What the commands do to the outside\<close>

context host_order
begin

definition repo_execs :: "string \<Rightarrow> bool" where
  \<comment> \<open>any command may run in that container\<close>
  "repo_execs c = (\<forall>cmd. execs c cmd)"

lemma always_retry: "always R run \<Longrightarrow> always R (with_lock_retry D run n delay before)"
  by (induction n arbitrary: before) (auto intro!: always_intros always_sleep split: option.splits)

lemma always_backups:
  assumes "repo_execs c"
  shows "always R (write_conf D b c conf)" "always R (stanza_create D c)" "always R (backup_check D c)"
    "always R (backup_info D read c)" "always R (take_backup D c k)" "always R (restore_repo D show c t)"
proof -
  have x: "always R (exec_capture D c cmd t)" "always R (pgbackrest D c args)" for cmd t args
    using assms by (auto simp: repo_execs_def pgbackrest_def intro!: always_exec)
  show "always R (write_conf D b c conf)" "always R (stanza_create D c)" "always R (backup_check D c)"
    "always R (backup_info D read c)" "always R (take_backup D c k)" "always R (restore_repo D show c t)"
    unfolding write_conf_def stanza_create_def backup_check_def backup_info_def take_backup_def restore_repo_def Let_def
    by (auto intro!: always_intros x always_retry split: option.splits)
qed

end

subsection \<open>A night without a backup\<close>

lemma overdue_is_due: "older_than (fst (schedule_for plan) * 2) f now \<Longrightarrow> decide_backup digest tz p plan now (Some f) a w = Some Full"
  by (auto simp: decide_backup_def Let_def split: prod.splits)

lemma free_decision:
  assumes "schedule_for plan = (1, 0)" "\<not> older_than 2 f now" "\<not> older_than 1 f now \<or> \<not> in_slot digest tz p now w"
  shows "decide_backup digest tz p plan now (Some f) a w = None"
  using assms by (auto simp: decide_backup_def Let_def)

text \<open>
  The nightly schedule misses a night. On a plan with a full backup every day, let a backup end after its
  project's slot of that night. Then nothing is due in the next night's slot either, because the backup is not
  yet a day old there, and nothing is due outside of it: the first moment the schedule asks for a backup is the slot
  of the night after, almost two days later.
\<close>

theorem late_backup_skips_a_night:
  assumes "schedule_for plan = (1, 0)" "tz < 1440"
    and "slot = 180 + slot_minute_for digest p 180"
    and "f = day * DAY + m * 60000" "slot + 30 \<le> (m + tz) mod 1440"
    and "f \<le> now" "now div 60000 < f div 60000 + 2880 - ((m + tz) mod 1440 - slot)"
  shows "decide_backup digest tz p plan now (Some f) a WINDOW = None"
proof (rule free_decision[OF assms(1)])
  define e where "e = (m + tz) mod 1440"
  define late where "late = e - slot"
  define k where "k = now div 60000 - f div 60000"
  have fm: "f div 60000 = day * 1440 + m" using assms(4) by (simp add: DAY_def)
  have le: "f div 60000 \<le> now div 60000" using assms(6) by (rule div_le_mono)
  have day: "e < 1440" by (simp add: e_def)
  have k: "now div 60000 = f div 60000 + k" "k < 2880 - late" "30 \<le> late"
    using le assms(5,7) day unfolding k_def late_def e_def[symmetric] by arith+
  show "\<not> older_than 2 f now"
  proof
    assume "older_than 2 f now"
    then have "(f + 172800000) div 60000 \<le> now div 60000" by (intro div_le_mono) (simp add: older_than_def DAY_def)
    then show False using k by simp
  qed
  show "\<not> older_than 1 f now \<or> \<not> in_slot digest tz p now WINDOW"
  proof (rule ccontr)
    assume c: "\<not> (\<not> older_than 1 f now \<or> \<not> in_slot digest tz p now WINDOW)"
    then have "(f + 86400000) div 60000 \<le> now div 60000" by (intro div_le_mono) (simp add: older_than_def DAY_def)
    then have k1: "1440 \<le> k" using k(1) by simp
    have mod: "minute_of_day tz now = (e + k) mod 1440"
    proof -
      have "f div 60000 + k + tz = (m + tz + k) + day * 1440" by (simp add: fm)
      then have "(f div 60000 + k + tz) mod 1440 = (m + tz + k) mod 1440" by (simp only: mod_mult_self1)
      then show ?thesis by (simp add: minute_of_day_def k(1) e_def mod_simps)
    qed
    define x where "x = minute_of_day tz now"
    have "\<not> x div 60 < 3" "slot_minute_for digest p 180 \<le> x - 180" "x - 180 < slot_minute_for digest p 180 + 30"
      using c by (simp_all add: in_slot_def WINDOW_def Let_def x_def split: if_splits)
    then have ins: "slot \<le> minute_of_day tz now" "minute_of_day tz now < slot + 30"
      using assms(3) unfolding x_def[symmetric] by arith+
    have "minute_of_day tz now = (slot + late + (k - 1440)) mod 1440"
    proof -
      have "e + k = (slot + late + (k - 1440)) + 1440"
        using k1 assms(5) by (simp add: late_def e_def[symmetric])
      then show ?thesis unfolding mod by simp
    qed
    moreover have "slot + late + (k - 1440) < 1440 + slot" using k(2) k1 by simp
    moreover have "z mod 1440 = (if z < 1440 then z else z - 1440)" if "z < 2880" for z :: nat
      using that by (simp add: mod_if)
    moreover have "slot < 1440" using assms(5) day by (simp add: e_def)
    ultimately show False using ins k(3) by (simp split: if_splits)
  qed
qed

theorem late_backup_skips_a_night_witness:
  "decide_backup (\<lambda>_. 0) 0 ''p'' ''free'' (26 * 3600000 + 1200000) (Some (3 * 3600000 + 2100000)) None WINDOW = None"
  using late_backup_skips_a_night[of "''free''" 0 180 "\<lambda>_. 0" "''p''" "3 * 3600000 + 2100000" 0 215 "26 * 3600000 + 1200000" None]
  by (simp add: schedule_for_def slot_minute_for_def DAY_def)

end
