(* ===== verification/Containers.thy ===== *)
theory Containers
  imports Backups
begin

text \<open>
  A project's three containers and its database as the worker reaches it: the specifications of
  \<open>services/worker/src/container-spec.ts\<close> and the admin connection of \<open>project-admin.ts\<close>.

  HMAC-SHA-256 in hex, \<open>encodeURIComponent\<close> and the printing of a key set are parameters. A query on the
  project's database is a deed with its text, a run of white space in it one space; its rows are lists of columns.
\<close>

subsection \<open>Names\<close>

definition IMAGE :: string where "IMAGE = ''steadhold/postgres:17.5''"
definition POOLER_IMAGE :: string where "POOLER_IMAGE = ''steadhold/pgbouncer:1.23''"
definition POSTGREST_IMAGE :: string where "POSTGREST_IMAGE = ''steadhold/postgrest:12.2''"
definition LABEL_REF :: string where "LABEL_REF = ''com.steadhold.project.ref''"
definition LABEL_MANAGED :: string where "LABEL_MANAGED = ''com.steadhold.managed''"
definition LABEL_ROLE :: string where "LABEL_ROLE = ''com.steadhold.role''"

definition container_name :: "string \<Rightarrow> string" where "container_name ref = ''sh-'' @ ref"
definition network_name :: "string \<Rightarrow> string" where "network_name ref = ''sh-'' @ ref @ ''-net''"
definition pooler_name :: "string \<Rightarrow> string" where "pooler_name ref = ''sh-'' @ ref @ ''-pooler''"
definition postgrest_name :: "string \<Rightarrow> string" where "postgrest_name ref = ''sh-'' @ ref @ ''-rest''"

definition PIDS_LIMIT :: nat where "PIDS_LIMIT = 256"
definition MIB :: nat where "MIB = 1048576"

definition PLAN_IO_WEIGHT :: "string \<Rightarrow> nat" where
  "PLAN_IO_WEIGHT plan = (if plan = ''pro'' \<or> plan = ''team'' then 500 else if plan = ''enterprise'' then 800 else 200)"

definition PLAN_POSTGREST_POOL :: "string \<Rightarrow> nat" where
  "PLAN_POSTGREST_POOL plan =
     (if plan = ''pro'' then 20 else if plan = ''team'' then 40 else if plan = ''enterprise'' then 60 else 7)"

definition io_device_limits :: "string option \<Rightarrow> string \<Rightarrow> (string \<times> nat) option" where
  \<comment> \<open>the first parameter is \<open>SH_IO_DEVICE\<close>; the rate is the same for reads and writes\<close>
  "io_device_limits device plan = (case device of
     Some (c # s) \<Rightarrow> if plan = ''free'' then Some (c # s, 50 * MIB) else None
   | _ \<Rightarrow> None)"

subsection \<open>Specifications\<close>

definition pooler_spec :: "string \<Rightarrow> string \<Rightarrow> nat \<Rightarrow> string \<Rightarrow> container_spec" where
  "pooler_spec ref network port password = \<lparr>
     cs_image = POOLER_IMAGE, cs_env = [''PGBOUNCER_AUTH_PASSWORD='' @ password],
     cs_labels = [(LABEL_REF, ref), (LABEL_MANAGED, ''true''), (LABEL_ROLE, ''pooler'')], cs_cmd = None,
     cs_memory = 64 * MIB, cs_nano_cpus = 250000000, cs_pids = 64, cs_weight = None, cs_device_bps = None, cs_init = True,
     cs_restart = ''no'', cs_mounts = [], cs_ports = [(6432, port)], cs_exposed = [6432], cs_network = Some (network, ''pooler'')\<rparr>"

definition postgrest_spec :: "(string \<Rightarrow> string) \<Rightarrow> string \<Rightarrow> string \<Rightarrow> nat \<Rightarrow> nat \<Rightarrow> string \<Rightarrow> string \<Rightarrow> string \<Rightarrow> container_spec" where
  \<comment> \<open>\<open>encodeURIComponent\<close>, ref, network, the two host ports, the password, the key set as text, the plan\<close>
  "postgrest_spec uri ref network port admin password jwks plan = \<lparr>
     cs_image = POSTGREST_IMAGE,
     cs_env = [''STEADHOLD_REF='' @ ref, ''STEADHOLD_PG_HOST=db'', ''STEADHOLD_DB_POOL='' @ string_of_nat (PLAN_POSTGREST_POOL plan),
       ''PGRST_DB_URI=postgres://authenticator:'' @ uri password @ ''@db:5432/postgres'', ''STEADHOLD_JWKS='' @ jwks],
     cs_labels = [(LABEL_MANAGED, ''true''), (LABEL_REF, ref), (LABEL_ROLE, ''postgrest'')], cs_cmd = None,
     cs_memory = 192 * MIB, cs_nano_cpus = 500000000, cs_pids = 256, cs_weight = None, cs_device_bps = None, cs_init = True,
     cs_restart = ''no'', cs_mounts = [], cs_ports = [(3000, port), (3001, admin)], cs_exposed = [3000, 3001],
     cs_network = Some (network, ''rest'')\<rparr>"

definition bootstrap_password :: "(string \<Rightarrow> string \<Rightarrow> string) \<Rightarrow> string \<Rightarrow> string \<Rightarrow> string option" where
  \<comment> \<open>\<open>None\<close> when the secret is too short\<close>
  "bootstrap_password hmac secret p = (if length secret < 16 then None else Some (take 32 (hmac secret (''pgboot:'' @ p))))"

definition database_spec :: "string option \<Rightarrow> string \<Rightarrow> string \<Rightarrow> string \<Rightarrow> nat \<Rightarrow> nat \<Rightarrow> string \<Rightarrow> bool \<Rightarrow> string option \<Rightarrow> container_spec" where
  \<comment> \<open>device, bootstrap password, ref, volume, host port, memory in MiB, plan, whether the kernel takes a weight, network\<close>
  "database_spec device password ref volume port ram plan weight network = \<lparr>
     cs_image = IMAGE,
     cs_env = [''POSTGRES_PASSWORD='' @ password, ''POSTGRES_DB=postgres'', ''PGDATA=/var/lib/postgresql/data/pgdata''],
     cs_labels = [(LABEL_REF, ref), (LABEL_MANAGED, ''true''), (LABEL_ROLE, ''database'')], cs_cmd = None,
     cs_memory = ram * MIB, cs_nano_cpus = 500000000, cs_pids = PIDS_LIMIT,
     cs_weight = (if weight then Some (PLAN_IO_WEIGHT plan) else None), cs_device_bps = io_device_limits device plan, cs_init = True,
     cs_restart = ''no'', cs_mounts = [(volume, ''/var/lib/postgresql/data'')], cs_ports = [(5432, port)], cs_exposed = [5432],
     cs_network = map_option (\<lambda>n. (n, ''db'')) network\<rparr>"

subsection \<open>The admin connection\<close>

type_synonym endpoint = "string \<times> nat"

definition asks_password :: "string \<Rightarrow> bool" where
  "asks_password m = (mentions_ci ''password authentication failed'' m \<or> mentions_ci ''no password supplied'' m)"

definition ADMIN_TIMEOUT_MS :: nat where "ADMIN_TIMEOUT_MS = 5000"

fun connect_as_superuser :: "'o outside \<Rightarrow> endpoint \<Rightarrow> string list \<Rightarrow> ('o, 'z, unit) act" where
  "connect_as_superuser D at [] = throw (Broken ''no candidate superuser password was accepted'')"
| "connect_as_superuser D at (p # ps) =
     caught (told D (PgConnect (fst at) (snd at) ''postgres'' p)) (\<lambda>e.
       if \<not> asks_password (message e) then throw (Broken (''cannot reach project database: '' @ message e))
       else connect_as_superuser D at ps)"

definition query :: "'o outside \<Rightarrow> endpoint \<Rightarrow> string \<Rightarrow> string list \<Rightarrow> ('o, 'z, string option list list) act" where
  "query D at sql params = asked D (PgQuery (fst at) (snd at) sql params) (\<lambda>p. case p of GotRows r \<Rightarrow> Some r | _ \<Rightarrow> None)"

definition run_sql :: "'o outside \<Rightarrow> endpoint \<Rightarrow> string \<Rightarrow> ('o, 'z, unit) act" where
  "run_sql D at sql = told D (PgQuery (fst at) (snd at) sql [])"

fun in_turn :: "('s, 'e, unit) eff list \<Rightarrow> ('s, 'e, unit) eff" where
  "in_turn [] = ret ()"
| "in_turn (m # ms) = and_then m (\<lambda>_. in_turn ms)"

definition secret_literal :: "string \<Rightarrow> string option" where
  \<comment> \<open>\<open>None\<close> when it throws\<close>
  "secret_literal v =
     (if v \<noteq> [] \<and> list_all (\<lambda>c. is_alpha c \<or> is_digit c \<or> c = CHR ''_'' \<or> c = CHR ''-'') v
      then Some ([CHR 0x27] @ v @ [CHR 0x27]) else None)"

definition safe_identifier :: "string \<Rightarrow> string option" where
  "safe_identifier n = (case n of [] \<Rightarrow> None
     | c # s \<Rightarrow> if (is_lower c \<or> c = CHR ''_'') \<and> list_all (\<lambda>d. is_lower d \<or> is_digit d \<or> d = CHR ''_'') s
               then Some ([CHR 0x22] @ n @ [CHR 0x22]) else None)"

definition DEVELOPER_ROLE :: string where "DEVELOPER_ROLE = ''developer''"
definition POOLER_AUTH_ROLE :: string where "POOLER_AUTH_ROLE = ''pgbouncer_auth''"
definition AUTH_ROLE :: string where "AUTH_ROLE = ''steadhold_auth''"
definition ADMIN_ROLE :: string where "ADMIN_ROLE = ''steadhold_admin''"

definition IMAGE_ROLES :: "string list" where
  "IMAGE_ROLES = [''anon'', ''authenticated'', ''service_role'', ''authenticator'', ''steadhold_admin'', ''pgbouncer_auth'', ''steadhold_auth'']"

definition first_columns :: "string option list list \<Rightarrow> string list" where
  "first_columns rows = concat (map (\<lambda>r. case r of Some x # _ \<Rightarrow> [x] | _ \<Rightarrow> []) rows)"

definition audit_image_roles :: "'o outside \<Rightarrow> endpoint \<Rightarrow> ('o, 'z, string list \<times> string list) act" where
  \<comment> \<open>present and missing\<close>
  "audit_image_roles D at =
     and_then (query D at ''SELECT rolname FROM pg_roles WHERE rolname = ANY($1)'' IMAGE_ROLES) (\<lambda>rows.
     ret (first_columns rows, filter (\<lambda>r. r \<notin> set (first_columns rows)) IMAGE_ROLES))"

definition set_role_password :: "'o outside \<Rightarrow> endpoint \<Rightarrow> string \<Rightarrow> string \<Rightarrow> ('o, 'z, unit) act" where
  "set_role_password D at role password =
     (case (safe_identifier role, secret_literal password) of
        (Some r, Some p) \<Rightarrow> run_sql D at (''ALTER ROLE '' @ r @ '' WITH LOGIN PASSWORD '' @ p)
      | _ \<Rightarrow> throw (Broken ''refusing to interpolate a value outside the generated-secret alphabet into SQL''))"

definition ensure_developer_role :: "'o outside \<Rightarrow> endpoint \<Rightarrow> ('o, 'z, bool) act" where
  "ensure_developer_role D at =
     and_then (query D at ''SELECT true AS ok FROM pg_roles WHERE rolname = $1'' [DEVELOPER_ROLE]) (\<lambda>rows.
     and_then (if rows = [] then run_sql D at (''CREATE ROLE \"developer\" LOGIN NOSUPERUSER NOCREATEDB NOCREATEROLE '' @
         ''NOREPLICATION NOBYPASSRLS'') else ret ()) (\<lambda>_.
     and_then (in_turn (map (run_sql D at)
        [''GRANT CREATE, USAGE ON SCHEMA public TO \"developer\"'',
         ''GRANT USAGE ON SCHEMA information_schema TO \"developer\"'',
         ''GRANT USAGE ON SCHEMA auth TO \"developer\"'',
         ''GRANT EXECUTE ON FUNCTION auth.jwt(), auth.uid(), auth.role() TO \"developer\"''])) (\<lambda>_.
     and_then (query D at ''SELECT current_database() AS db'' []) (\<lambda>db.
     case safe_identifier (hd (first_columns db @ [[]])) of
       None \<Rightarrow> throw (Broken ''unsafe SQL identifier'')
     | Some d \<Rightarrow>
         and_then (in_turn (map (run_sql D at)
           [''GRANT CREATE ON DATABASE '' @ d @ '' TO \"developer\"'',
            ''ALTER DEFAULT PRIVILEGES FOR ROLE \"developer\" IN SCHEMA public GRANT SELECT, INSERT, UPDATE, DELETE ON TABLES TO authenticated, service_role'',
            ''ALTER DEFAULT PRIVILEGES FOR ROLE \"developer\" IN SCHEMA public GRANT USAGE, SELECT ON SEQUENCES TO authenticated, service_role'']))
           (\<lambda>_. ret (rows = []))))))"

definition ensure_storage_ownership :: "'o outside \<Rightarrow> endpoint \<Rightarrow> ('o, 'z, unit) act" where
  "ensure_storage_ownership D at = in_turn (map (run_sql D at)
     [''GRANT USAGE ON SCHEMA storage TO \"developer\"'',
      ''ALTER TABLE storage.buckets OWNER TO \"developer\"'', ''ALTER TABLE storage.objects OWNER TO \"developer\"'',
      ''ALTER TABLE storage.upload_intents OWNER TO \"developer\"'',
      ''ALTER FUNCTION storage.prefix_owner(text) OWNER TO \"developer\"'',
      ''ALTER FUNCTION storage.bucket_id(text) OWNER TO \"developer\"'',
      ''ALTER FUNCTION storage.bucket_config(text) OWNER TO \"developer\"''])"

definition ensure_admin_role :: "'o outside \<Rightarrow> endpoint \<Rightarrow> ('o, 'z, unit) act" where
  "ensure_admin_role D at = in_turn (map (run_sql D at)
     [''ALTER ROLE \"steadhold_admin\" NOSUPERUSER NOCREATEDB NOCREATEROLE NOREPLICATION NOBYPASSRLS NOINHERIT LOGIN'',
      ''GRANT \"developer\" TO \"steadhold_admin\"'', ''GRANT \"anon\" TO \"steadhold_admin\"'',
      ''GRANT \"authenticated\" TO \"steadhold_admin\"'',
      ''GRANT USAGE ON SCHEMA information_schema TO \"steadhold_admin\"''])"

subsection \<open>What they do to the outside\<close>

context host_order
begin

definition sql_deeds :: "endpoint \<Rightarrow> bool" where
  "sql_deeds at = (\<forall>u p sql ps. Q (PgConnect (fst at) (snd at) u p) \<and> Q (PgQuery (fst at) (snd at) sql ps))"

lemma always_in_turn: "(\<And>m. m \<in> set ms \<Longrightarrow> always R m) \<Longrightarrow> always R (in_turn ms)"
  by (induction ms) (auto intro!: always_intros)

lemma always_sql:
  assumes "sql_deeds at"
  shows "always R (connect_as_superuser D at ps)" "always R (query D at sql params)" "always R (run_sql D at sql)"
    "always R (audit_image_roles D at)" "always R (set_role_password D at role pw)" "always R (ensure_developer_role D at)"
    "always R (ensure_storage_ownership D at)" "always R (ensure_admin_role D at)"
proof -
  have q: "always R (query D at sql params)" "always R (run_sql D at sql)" for sql params
    using assms by (auto simp: query_def run_sql_def sql_deeds_def intro!: always_asked)
  then show "always R (query D at sql params)" "always R (run_sql D at sql)" by blast+
  show "always R (connect_as_superuser D at ps)"
    using assms by (induction ps) (auto simp: sql_deeds_def intro!: always_intros always_asked)
  show "always R (audit_image_roles D at)" "always R (set_role_password D at role pw)" "always R (ensure_developer_role D at)"
    "always R (ensure_storage_ownership D at)" "always R (ensure_admin_role D at)"
    unfolding audit_image_roles_def set_role_password_def ensure_developer_role_def ensure_storage_ownership_def ensure_admin_role_def
    by (auto intro!: always_intros always_in_turn q split: option.splits)
qed

end

end
