(* ===== verification/Sagas.thy ===== *)
theory Sagas
  imports ProjectStore Placement KeyRotation Containers
begin

text \<open>
  The sagas: every step of \<open>services/worker/src/jobs/sagas.ts\<close>, over the control plane's tables and the node.

  The world is the outside of theory \<open>Engine\<close> beside the tables a step reads and writes: the projects of theory
  \<open>ProjectStore\<close>, the placements of theory \<open>Placement\<close>, the keys and secrets of theory \<open>KeyRotation\<close>, and the
  tables of backups, restores and repos. \<open>sw_ids\<close> holds the columns of \<open>project_databases\<close> that placement does not
  read; a row has them while it has its placement. One clock, the outside's, serves \<open>now()\<close> and \<open>Date.now()\<close>.

  A step is a function to an error text or a unit, and to the world it leaves; a statement that writes commits on
  its own. Logging, metrics and the columns \<open>updated_at\<close>, \<open>paused_at\<close> and \<open>last_active_at\<close> are left out; error
  texts keep their fixed part. What \<open>buildSagas\<close> is given is the record \<open>saga_deps\<close>; the capabilities of the
  node (\<open>node-caps.ts\<close>) are those it has cached. A loop that polls until a deadline has as many rounds as fit
  before it, \<open>rounds\<close>, and never runs out of them (theory \<open>SagaSafety\<close>).
\<close>

subsection \<open>The world\<close>

record instance_ids =
  in_database :: "string option"
  in_pooler :: "string option"
  in_postgrest :: "string option"
  in_host :: "string option"

datatype run_status = RunRunning | RunSucceeded | RunFailed

record backup_run =
  br_id :: nat
  br_project :: string
  br_job :: string
  br_kind :: backup_kind
  br_status :: run_status
  br_started :: nat
  br_finished :: "nat option"
  br_made :: "backup_entry option" \<comment> \<open>label, size and WAL range\<close>

record restore_run =
  rr_project :: string
  rr_source :: "string option"
  rr_source_ref :: string
  rr_target :: "nat option"
  rr_label :: "string option"
  rr_reached :: "string option"
  rr_lsn :: "string option"
  rr_succeeded :: bool

record repo_row =
  rp_project :: string
  rp_path :: string
  rp_bucket :: string
  rp_destroy_after :: "nat option"

record ('c, 'o) saga_world = "'o host" +
  sw_projects :: "project_entry list"
  sw_place :: place_db
  sw_ids :: "string \<Rightarrow> instance_ids"
  sw_keys :: "'c key_db"
  sw_backups :: "backup_run list"
  sw_restores :: "restore_run list"
  sw_repos :: "repo_row list"

record ('c, 'r, 'o) saga_deps =
  dp_out :: "'o outside"
  dp_docker :: bool
  dp_secrets :: bool
  dp_keys :: "('c, 'r) key_env"
  dp_bootstrap :: string
  dp_region :: "string option"
  dp_health_ms :: "nat option"
  dp_window_ms :: nat
  dp_final_backup :: bool
  dp_require_backups :: bool
  dp_repo :: "repo_target option"
  dp_place :: place_cfg
  dp_collate :: "string \<Rightarrow> int"
  dp_io_device :: "string option"
  dp_io_weight :: bool \<comment> \<open>\<open>nodeCaps\<close>\<close>
  dp_hmac :: "string \<Rightarrow> string \<Rightarrow> string"
  dp_b64 :: "string \<Rightarrow> string"
  dp_uri :: "string \<Rightarrow> string"
  dp_jwks_text :: "jwk list \<Rightarrow> string"
  dp_read_info :: "string \<Rightarrow> backup_entry list option"
  dp_show_time :: "nat \<Rightarrow> string"
  dp_drawn :: "string \<Rightarrow> string" \<comment> \<open>what \<open>generateSecret\<close> draws for a name\<close>
  dp_pair :: nat
  dp_kid :: string
  dp_terminate :: "job_row \<Rightarrow> bool" \<comment> \<open>\<open>payload.terminate\<close>\<close>

type_synonym ('c, 'o, 'a) saga = "(('c, 'o) saga_world, string, 'a) eff"

definition on_host :: "('o, 'z, 'a) act \<Rightarrow> (('o, 'z) host_scheme, string, 'a) eff" where
  "on_host = lift_error message"

definition now_of :: "('c, 'r, 'o) saga_deps \<Rightarrow> ('c, 'o) saga_world \<Rightarrow> nat" where
  "now_of E w = clock (dp_out E) w"

definition entry_of :: "string \<Rightarrow> ('c, 'o) saga_world \<Rightarrow> project_entry option" where
  "entry_of p w = List.find (\<lambda>e. pe_id e = p) (sw_projects w)"

subsection \<open>The tables\<close>

definition fault_text :: "rotation_fault \<Rightarrow> string" where
  "fault_text e = (case e of NoSuchProject \<Rightarrow> ''no such project'' | _ \<Rightarrow> ''the secret store failed'')"

definition place_text :: "place_error \<Rightarrow> string" where
  "place_text e = (case e of NoPlacementRow \<Rightarrow> ''no placement row'' | NodeFull _ _ \<Rightarrow> ''node is full'' | _ \<Rightarrow> ''placement failed'')"

definition in_keys :: "('c, 'r, 'o) saga_deps \<Rightarrow> ('c, 'a) keys \<Rightarrow> ('c, 'o, 'a) saga" where
  "in_keys E m w =
     (case m ((sw_keys w)\<lparr>kb_refs := (\<lambda>p. map_option pe_ref (entry_of p w)),
                          kb_secrets := (kb_secrets (sw_keys w))\<lparr>sd_now := now_of E w\<rparr>\<rparr>) of
        (Inl e, k) \<Rightarrow> (Inl (fault_text e), w\<lparr>sw_keys := k\<rparr>)
      | (Inr a, k) \<Rightarrow> (Inr a, w\<lparr>sw_keys := k\<rparr>))"

definition in_place :: "('c, 'r, 'o) saga_deps \<Rightarrow> (place_db, place_error, 'a) eff \<Rightarrow> ('c, 'o, 'a) saga" where
  "in_place E m w =
     (case m ((sw_place w)\<lparr>pn_now := now_of E w div 1000\<rparr>) of
        (Inl e, d) \<Rightarrow> (Inl (place_text e), w\<lparr>sw_place := d\<rparr>)
      | (Inr a, d) \<Rightarrow> (Inr a, w\<lparr>sw_place := d\<rparr>))"

definition write_project :: "(project_entry \<Rightarrow> bool) \<Rightarrow> (project_entry \<Rightarrow> project_entry) \<Rightarrow> ('c, 'o, bool) saga" where
  \<comment> \<open>an update, and whether it touched a row\<close>
  "write_project c f w =
     (let rows = upd_where c f (sw_projects w) in
      if list_ex (\<lambda>e. c e \<and> \<not> deletion_check (f e)) (sw_projects w) then (Inl ''violates check constraint'', w)
      else (Inr (list_ex c (sw_projects w)), w\<lparr>sw_projects := rows\<rparr>))"

definition placed_row :: "string \<Rightarrow> ('c, 'o) saga_world \<Rightarrow> placement_row option" where
  "placed_row p w = row_of p (sw_place w)"

definition blank_ids :: instance_ids where
  "blank_ids = \<lparr>in_database = None, in_pooler = None, in_postgrest = None, in_host = None\<rparr>"

definition update_ids :: "string \<Rightarrow> (instance_ids \<Rightarrow> instance_ids) \<Rightarrow> ('c, 'o, unit) saga" where
  "update_ids p f = modifies (\<lambda>w. if placed_row p w = None then w else w\<lparr>sw_ids := (sw_ids w)(p := f (sw_ids w p))\<rparr>)"

definition set_database_status :: "string \<Rightarrow> string \<Rightarrow> ('c, 'o, unit) saga" where
  "set_database_status p s = modifies (\<lambda>w. w\<lparr>sw_place := (sw_place w)\<lparr>pn_rows :=
     upd_where (\<lambda>d. pd_project d = p) (\<lambda>d. d\<lparr>pd_status := s\<rparr>) (pn_rows (sw_place w))\<rparr>\<rparr>)"

definition load_project :: "string \<Rightarrow> ('c, 'o, project_entry) saga" where
  "load_project p = and_then (gets (entry_of p)) (\<lambda>e. case e of
     None \<Rightarrow> throw (''project '' @ p @ '' no longer exists'') | Some e \<Rightarrow> ret e)"

record placement =
  pm_row :: placement_row
  pm_ids :: instance_ids
  pm_address :: "string option"
  pm_hostname :: string

definition placement_of :: "string \<Rightarrow> ('c, 'o) saga_world \<Rightarrow> placement option" where
  "placement_of p w = (case joined p (sw_place w) of None \<Rightarrow> None
     | Some (d, n) \<Rightarrow> Some \<lparr>pm_row = d, pm_ids = sw_ids w p, pm_address = nd_address n, pm_hostname = nd_host n\<rparr>)"

definition load_placement :: "string \<Rightarrow> ('c, 'o, placement) saga" where
  "load_placement p = and_then (gets (placement_of p)) (\<lambda>m. case m of
     None \<Rightarrow> throw ''no placement row: allocate_node must run first'' | Some m \<Rightarrow> ret m)"

definition require_docker :: "('c, 'r, 'o) saga_deps \<Rightarrow> ('c, 'o, unit) saga" where
  "require_docker E = guard (dp_docker E) ''no Docker client configured''"

definition require_secrets :: "('c, 'r, 'o) saga_deps \<Rightarrow> ('c, 'o, unit) saga" where
  "require_secrets E = guard (dp_secrets E) ''no secret store configured''"

definition admin_endpoint :: "placement \<Rightarrow> ('c, 'o, endpoint) saga" where
  "admin_endpoint m = (case pm_address m of None \<Rightarrow> throw ''node has no address recorded''
     | Some a \<Rightarrow> if a = [] then throw ''node has no address recorded'' else ret (a, pd_port (pm_row m)))"

definition pooler_endpoint :: "placement \<Rightarrow> ('c, 'o, endpoint) saga" where
  "pooler_endpoint m = (case pm_address m of None \<Rightarrow> throw ''node has no address recorded''
     | Some a \<Rightarrow> if a = [] then throw ''node has no address recorded'' else ret (a, pd_pooler (pm_row m)))"

definition stored :: "('c, 'r, 'o) saga_deps \<Rightarrow> string \<Rightarrow> string \<Rightarrow> ('c, 'o, string option) saga" where
  "stored E p n = in_keys E (kept (dp_keys E) p n)"

definition BACKUP_CIPHER_PASS :: string where "BACKUP_CIPHER_PASS = ''BACKUP_CIPHER_PASS''"
definition POSTGRES_PASSWORD :: string where "POSTGRES_PASSWORD = ''POSTGRES_PASSWORD''"
definition DEVELOPER_PASSWORD :: string where "DEVELOPER_PASSWORD = ''DEVELOPER_PASSWORD''"
definition AUTHENTICATOR_PASSWORD :: string where "AUTHENTICATOR_PASSWORD = ''AUTHENTICATOR_PASSWORD''"
definition POOLER_AUTH_PASSWORD :: string where "POOLER_AUTH_PASSWORD = ''PGBOUNCER_AUTH_PASSWORD''"
definition AUTH_ROLE_PASSWORD :: string where "AUTH_ROLE_PASSWORD = ''AUTH_ROLE_PASSWORD''"
definition ADMIN_ROLE_PASSWORD :: string where "ADMIN_ROLE_PASSWORD = ''STEADHOLD_ADMIN_PASSWORD''"

definition bootstrap :: "('c, 'r, 'o) saga_deps \<Rightarrow> string \<Rightarrow> ('c, 'o, string) saga" where
  "bootstrap E p = (case bootstrap_password (dp_hmac E) (dp_bootstrap E) p of
     None \<Rightarrow> throw ''SH_BOOTSTRAP_SECRET must be at least 16 characters'' | Some s \<Rightarrow> ret s)"

definition superuser_candidates :: "('c, 'r, 'o) saga_deps \<Rightarrow> string \<Rightarrow> ('c, 'o, string list) saga" where
  "superuser_candidates E p =
     and_then (if dp_secrets E then stored E p POSTGRES_PASSWORD else ret None) (\<lambda>s.
     and_then (if dp_bootstrap E = [] then ret [] else and_then (bootstrap E p) (\<lambda>b. ret [b])) (\<lambda>b.
     let out = (case filled s of None \<Rightarrow> [] | Some x \<Rightarrow> [x]) @ b in
     if out = [] then throw ''no candidate superuser password available'' else ret out))"

definition as_superuser :: "('c, 'r, 'o) saga_deps \<Rightarrow> placement \<Rightarrow> string \<Rightarrow> (endpoint \<Rightarrow> ('c, 'o, 'a) saga) \<Rightarrow> ('c, 'o, 'a) saga" where
  \<comment> \<open>the endpoint, the passwords of a project, the connection, and what is done on it\<close>
  "as_superuser E m p body =
     and_then (admin_endpoint m) (\<lambda>ep.
     and_then (superuser_candidates E p) (\<lambda>pws.
     and_then (on_host (connect_as_superuser (dp_out E) ep pws)) (\<lambda>_. body ep)))"

definition each :: "('a \<Rightarrow> ('s, 'e, unit) eff) \<Rightarrow> 'a list \<Rightarrow> ('s, 'e, unit) eff" where
  "each f xs = in_turn (map f xs)"

definition job_project :: "job_row \<Rightarrow> string" where
  "job_project j = (case jb_project j of Some p \<Rightarrow> p | None \<Rightarrow> [])"

subsection \<open>Provisioning\<close>

definition allocate_step :: "('c, 'r, 'o) saga_deps \<Rightarrow> job_row \<Rightarrow> ('c, 'o, unit) saga" where
  "allocate_step E j = (case jb_project j of
     None \<Rightarrow> throw ''provision_project job has no project_id''
   | Some p \<Rightarrow>
       and_then (load_project p) (\<lambda>e.
       and_then (\<lambda>w. in_place E (allocate_node (dp_place E) (dp_collate E) ((sw_place w)\<lparr>pn_now := now_of E w div 1000\<rparr>)
           (\<lambda>i. node_by_id i (sw_place w))
           \<lparr>pa_project = p, pa_ref = pe_ref e, pa_plan = pe_plan e, pa_region = dp_region E\<rparr>) w) (\<lambda>_. ret ())))"

definition release_step :: "('c, 'r, 'o) saga_deps \<Rightarrow> job_row \<Rightarrow> ('c, 'o, unit) saga" where
  "release_step E j = (case jb_project j of
     None \<Rightarrow> ret ()
   | Some p \<Rightarrow>
       and_then (load_project p) (\<lambda>_.
       and_then (in_place E (release_node p)) (\<lambda>_.
       modifies (\<lambda>w. w\<lparr>sw_ids := (sw_ids w)(p := blank_ids)\<rparr>))))"

definition project_labels :: "string \<Rightarrow> (string \<times> string) list" where
  "project_labels ref = [(LABEL_REF, ref), (LABEL_MANAGED, ''true'')]"

definition create_volume_step :: "('c, 'r, 'o) saga_deps \<Rightarrow> job_row \<Rightarrow> ('c, 'o, unit) saga" where
  "create_volume_step E j =
     and_then (require_docker E) (\<lambda>_.
     and_then (load_project (job_project j)) (\<lambda>e.
     and_then (load_placement (job_project j)) (\<lambda>m.
     and_then (on_host (volume_exists (dp_out E) (pd_volume (pm_row m)))) (\<lambda>there.
     if there then ret ()
     else on_host (create_volume (dp_out E) (pd_volume (pm_row m)) (project_labels (pe_ref e)))))))"

definition ensure_network :: "('c, 'r, 'o) saga_deps \<Rightarrow> string \<Rightarrow> ('c, 'o, string) saga" where
  "ensure_network E ref =
     and_then (require_docker E) (\<lambda>_.
     and_then (on_host (network_exists (dp_out E) (network_name ref))) (\<lambda>there.
     if there then ret (network_name ref)
     else and_then (on_host (create_network (dp_out E) (network_name ref) (project_labels ref))) (\<lambda>_.
       ret (network_name ref))))"

definition create_network_step :: "('c, 'r, 'o) saga_deps \<Rightarrow> job_row \<Rightarrow> ('c, 'o, unit) saga" where
  "create_network_step E j =
     and_then (load_project (job_project j)) (\<lambda>e. and_then (ensure_network E (pe_ref e)) (\<lambda>_. ret ()))"

definition found_again :: "('c, 'r, 'o) saga_deps \<Rightarrow> string \<Rightarrow> ('c, 'o, container_info) saga" where
  \<comment> \<open>inspecting a container the code takes to be there (\<open>inspect!\<close>)\<close>
  "found_again E n = and_then (on_host (inspect_container (dp_out E) n)) (\<lambda>i. case i of
     Some c \<Rightarrow> ret c | None \<Rightarrow> throw ''cannot read properties of undefined'')"

definition present_container :: "('c, 'r, 'o) saga_deps \<Rightarrow> string \<Rightarrow> ('c, 'o, container_spec) saga \<Rightarrow> ('c, 'o, container_info) saga" where
  \<comment> \<open>the container of that name, created by its specification if there is none\<close>
  "present_container E n spec =
     and_then (on_host (inspect_container (dp_out E) n)) (\<lambda>i. case i of
       Some c \<Rightarrow> ret c
     | None \<Rightarrow>
         and_then spec (\<lambda>s.
         and_then (on_host (create_container (dp_out E) n s)) (\<lambda>_. found_again E n)))"

definition running :: "('c, 'r, 'o) saga_deps \<Rightarrow> container_info \<Rightarrow> ('c, 'o, unit) saga" where
  "running E c = (if ct_running c then ret () else on_host (start_container (dp_out E) (ct_id c)))"

definition database_spec_for :: "('c, 'r, 'o) saga_deps \<Rightarrow> project_entry \<Rightarrow> placement \<Rightarrow> bool \<Rightarrow> string option \<Rightarrow> ('c, 'o, container_spec) saga" where
  "database_spec_for E e m weight network =
     and_then (bootstrap E (pe_id e)) (\<lambda>pw.
     ret (database_spec (dp_io_device E) pw (pe_ref e) (pd_volume (pm_row m)) (pd_port (pm_row m)) (pd_ram_limit (pm_row m))
       (pe_plan e) weight network))"

definition networked_spec :: "('c, 'r, 'o) saga_deps \<Rightarrow> project_entry \<Rightarrow> placement \<Rightarrow> ('c, 'o, container_spec) saga" where
  "networked_spec E e m =
     and_then (ensure_network E (pe_ref e)) (\<lambda>n. database_spec_for E e m (dp_io_weight E) (Some n))"

definition start_container_step :: "('c, 'r, 'o) saga_deps \<Rightarrow> job_row \<Rightarrow> ('c, 'o, unit) saga" where
  "start_container_step E j =
     and_then (require_docker E) (\<lambda>_.
     and_then (load_project (job_project j)) (\<lambda>e.
     and_then (load_placement (job_project j)) (\<lambda>m.
     and_then (on_host (image_exists (dp_out E) IMAGE)) (\<lambda>there.
     and_then (guard there ''project image is not present on the node'') (\<lambda>_.
     and_then (present_container E (container_name (pe_ref e)) (networked_spec E e m)) (\<lambda>c.
     and_then (running E c) (\<lambda>_.
     update_ids (job_project j) (\<lambda>i. i\<lparr>in_database := Some (ct_id c)\<rparr>))))))))"

definition health_ms :: "('c, 'r, 'o) saga_deps \<Rightarrow> nat \<Rightarrow> nat" where
  "health_ms E d = or_else (dp_health_ms E) d"

definition rounds :: "nat \<Rightarrow> nat" where
  \<comment> \<open>of half a second at least, within that time\<close>
  "rounds ms = ms div 500 + 2"

definition NEVER :: string where "NEVER = ''out of rounds''"

datatype 'a poll_verdict = Finished 'a | Again

primrec poll_until :: "'o outside \<Rightarrow> nat \<Rightarrow> (('o, 'z) host_scheme, string, 'a poll_verdict) eff \<Rightarrow> nat \<Rightarrow> nat \<Rightarrow> (('o, 'z) host_scheme, string, 'a option) eff" where
  \<comment> \<open>\<open>while (Date.now() < deadline) { body; sleep }\<close>: \<open>None\<close> when the time is over\<close>
  "poll_until D pause body deadline 0 = throw NEVER"
| "poll_until D pause body deadline (Suc n) =
     and_then (gets (clock D)) (\<lambda>now.
     if deadline \<le> now then ret None
     else and_then body (\<lambda>v. case v of
       Finished a \<Rightarrow> ret (Some a)
     | Again \<Rightarrow> and_then (sleep D pause) (\<lambda>_. poll_until D pause body deadline n)))"

definition PG_ISREADY :: "string list" where
  "PG_ISREADY = [''pg_isready'', ''-h'', ''127.0.0.1'', ''-p'', ''5432'', ''-U'', ''postgres'', ''-d'', ''postgres'', ''-q'']"

primrec healthy_loop :: "('c, 'r, 'o) saga_deps \<Rightarrow> string \<Rightarrow> string \<Rightarrow> nat \<Rightarrow> nat \<Rightarrow> ('c, 'o, unit) saga" where
  "healthy_loop E p i deadline 0 = throw NEVER"
| "healthy_loop E p i deadline (Suc n) =
     and_then (caught (on_host (docker_exec (dp_out E) i PG_ISREADY)) (\<lambda>_. ret None)) (\<lambda>code.
     if code = Some 0 then
       and_then (on_host (set_restart_policy (dp_out E) i ''unless-stopped'')) (\<lambda>_.
       set_database_status p ''running'')
     else
       and_then (on_host (inspect_container (dp_out E) i)) (\<lambda>s. case s of
         None \<Rightarrow> throw ''container disappeared while waiting for it to become healthy''
       | Some c \<Rightarrow>
           if ct_restarting c \<or> \<not> ct_running c \<and> ct_status c \<noteq> ''created''
           then throw (''container exited while starting'' @ ct_error c)
           else
             and_then (gets (now_of E)) (\<lambda>now.
             if deadline < now then throw ''database did not accept connections''
             else and_then (sleep (dp_out E) 500) (\<lambda>_. healthy_loop E p i deadline n))))"

definition wait_healthy_step :: "('c, 'r, 'o) saga_deps \<Rightarrow> job_row \<Rightarrow> ('c, 'o, unit) saga" where
  "wait_healthy_step E j =
     and_then (require_docker E) (\<lambda>_.
     and_then (load_placement (job_project j)) (\<lambda>m. case in_database (pm_ids m) of
       None \<Rightarrow> throw ''no container_id: start_container must run first''
     | Some i \<Rightarrow>
         if i = [] then throw ''no container_id: start_container must run first''
         else
           and_then (gets (now_of E)) (\<lambda>now.
           healthy_loop E (job_project j) i (now + health_ms E 60000) (rounds (health_ms E 60000)))))"

definition configure_backups_step :: "('c, 'r, 'o) saga_deps \<Rightarrow> job_row \<Rightarrow> ('c, 'o, unit) saga" where
  "configure_backups_step E j =
     (let p = job_project j in
      and_then (require_docker E) (\<lambda>_.
      and_then (load_project p) (\<lambda>e.
      and_then (load_placement p) (\<lambda>_. case dp_repo E of
        None \<Rightarrow> guard (\<not> dp_require_backups E) ''backups are required but no repo is configured''
      | Some repo \<Rightarrow>
          and_then (require_secrets E) (\<lambda>_.
          and_then (in_keys E (commit (in_vault (secret_ensure (ke_sealer (dp_keys E)) (ke_rnd (dp_keys E) 0)
              (dp_drawn E BACKUP_CIPHER_PASS) p BACKUP_CIPHER_PASS)))) (\<lambda>(pass, _).
          and_then (on_host (write_conf (dp_out E) (dp_b64 E) (container_name (pe_ref e))
              (render_pgbackrest_conf p (pe_plan e) pass repo))) (\<lambda>_.
          and_then (on_host (stanza_create (dp_out E) (container_name (pe_ref e)))) (\<lambda>_. ret ()))))))))"

definition verify_archiving_step :: "('c, 'r, 'o) saga_deps \<Rightarrow> job_row \<Rightarrow> ('c, 'o, unit) saga" where
  "verify_archiving_step E j =
     and_then (require_docker E) (\<lambda>_.
     and_then (load_project (job_project j)) (\<lambda>e. case dp_repo E of
       None \<Rightarrow> guard (\<not> dp_require_backups E) ''backups are required but no repo is configured''
     | Some _ \<Rightarrow>
         and_then (on_host (backup_check (dp_out E) (container_name (pe_ref e)))) (\<lambda>(good, out).
         guard good (''pgbackrest check failed: '' @ out))))"

definition create_base_roles_step :: "('c, 'r, 'o) saga_deps \<Rightarrow> job_row \<Rightarrow> ('c, 'o, unit) saga" where
  "create_base_roles_step E j =
     and_then (load_placement (job_project j)) (\<lambda>m.
     as_superuser E m (job_project j) (\<lambda>ep.
       and_then (on_host (audit_image_roles (dp_out E) ep)) (\<lambda>(_, missing).
       and_then (guard (missing = []) ''project image is missing roles'') (\<lambda>_.
       and_then (on_host (ensure_developer_role (dp_out E) ep)) (\<lambda>_.
       and_then (on_host (ensure_storage_ownership (dp_out E) ep)) (\<lambda>_.
       on_host (ensure_admin_role (dp_out E) ep)))))))"

definition CREDENTIALS :: "(string \<times> string) list" where
  \<comment> \<open>\<open>wanted\<close>: each secret and the role it is the password of\<close>
  "CREDENTIALS = [(POSTGRES_PASSWORD, ''postgres''), (DEVELOPER_PASSWORD, DEVELOPER_ROLE),
     (AUTHENTICATOR_PASSWORD, ''authenticator''), (POOLER_AUTH_PASSWORD, POOLER_AUTH_ROLE),
     (AUTH_ROLE_PASSWORD, AUTH_ROLE), (ADMIN_ROLE_PASSWORD, ADMIN_ROLE)]"

fun ensure_all :: "('c, 'r, 'o) saga_deps \<Rightarrow> string \<Rightarrow> (string \<times> string) list \<Rightarrow> ('c, 'o, (string \<times> string) list) saga" where
  \<comment> \<open>each role and its stored password\<close>
  "ensure_all E p [] = ret []"
| "ensure_all E p ((n, role) # ws) =
     and_then (in_keys E (commit (in_vault (secret_ensure (ke_sealer (dp_keys E)) (ke_rnd (dp_keys E) 0) (dp_drawn E n) p n)))) (\<lambda>(v, _).
     and_then (ensure_all E p ws) (\<lambda>rest. ret ((role, v) # rest)))"

definition apply_passwords :: "('c, 'r, 'o) saga_deps \<Rightarrow> endpoint \<Rightarrow> (string \<times> string) list \<Rightarrow> ('c, 'o, unit) saga" where
  "apply_passwords E ep pws = each (\<lambda>(role, v). on_host (set_role_password (dp_out E) ep role v)) pws"

definition store_credentials_step :: "('c, 'r, 'o) saga_deps \<Rightarrow> job_row \<Rightarrow> ('c, 'o, unit) saga" where
  "store_credentials_step E j =
     (let p = job_project j in
      and_then (require_secrets E) (\<lambda>_.
      and_then (load_placement p) (\<lambda>m.
      and_then (admin_endpoint m) (\<lambda>_.
      and_then (ensure_all E p CREDENTIALS) (\<lambda>pws.
      as_superuser E m p (\<lambda>ep. apply_passwords E ep pws))))))"

definition generate_api_keys_step :: "('c, 'r, 'o) saga_deps \<Rightarrow> job_row \<Rightarrow> ('c, 'o, unit) saga" where
  "generate_api_keys_step E j =
     and_then (require_secrets E) (\<lambda>_.
     and_then (load_project (job_project j)) (\<lambda>_.
     in_keys E (generate_api_keys (dp_keys E) (dp_pair E) (dp_kid E) (job_project j))))"

definition start_pooler_step :: "('c, 'r, 'o) saga_deps \<Rightarrow> job_row \<Rightarrow> ('c, 'o, unit) saga" where
  "start_pooler_step E j =
     (let p = job_project j in
      and_then (require_docker E) (\<lambda>_.
      and_then (load_project p) (\<lambda>e.
      and_then (load_placement p) (\<lambda>m.
      and_then (on_host (image_exists (dp_out E) POOLER_IMAGE)) (\<lambda>there.
      and_then (guard there ''pooler image is not present on the node'') (\<lambda>_.
      and_then (require_secrets E) (\<lambda>_.
      and_then (stored E p POOLER_AUTH_PASSWORD) (\<lambda>pw. case filled pw of
        None \<Rightarrow> throw ''the pooler credential is not stored yet''
      | Some pw \<Rightarrow>
          and_then (present_container E (pooler_name (pe_ref e)) (and_then (ensure_network E (pe_ref e)) (\<lambda>n.
              ret (pooler_spec (pe_ref e) n (pd_pooler (pm_row m)) pw)))) (\<lambda>c.
          and_then (running E c) (\<lambda>_.
          update_ids p (\<lambda>i. i\<lparr>in_pooler := Some (ct_id c)\<rparr>)))))))))))"

definition POOLED_QUERY :: string where
  "POOLED_QUERY = ''SELECT current_user || '' @ [CHR 0x27] @ ''@'' @ [CHR 0x27] @ '' || inet_server_port() AS ok''"

definition pooler_probe :: "('c, 'r, 'o) saga_deps \<Rightarrow> project_entry \<Rightarrow> placement \<Rightarrow> string \<Rightarrow> ('c, 'o, unit poll_verdict) saga" where
  "pooler_probe E e m pw =
     and_then (on_host (inspect_container (dp_out E) (pooler_name (pe_ref e)))) (\<lambda>i.
     and_then (guard (case i of None \<Rightarrow> True | Some c \<Rightarrow> ct_running c \<or> ct_restarting c) ''pooler exited before it answered'') (\<lambda>_.
     and_then (pooler_endpoint m) (\<lambda>ep.
     caught (on_host (and_then (told (dp_out E) (PgConnect (fst ep) (snd ep) DEVELOPER_ROLE pw)) (\<lambda>_.
         and_then (query (dp_out E) ep POOLED_QUERY []) (\<lambda>_. ret (Finished ()))))) (\<lambda>_. ret Again))))"

definition wait_pooler_healthy_step :: "('c, 'r, 'o) saga_deps \<Rightarrow> job_row \<Rightarrow> ('c, 'o, unit) saga" where
  "wait_pooler_healthy_step E j =
     (let p = job_project j in
      and_then (require_docker E) (\<lambda>_.
      and_then (load_project p) (\<lambda>e.
      and_then (load_placement p) (\<lambda>m.
      and_then (require_secrets E) (\<lambda>_.
      and_then (stored E p DEVELOPER_PASSWORD) (\<lambda>pw. case filled pw of
        None \<Rightarrow> throw ''the developer credential is not stored yet''
      | Some pw \<Rightarrow>
          and_then (gets (now_of E)) (\<lambda>now.
          and_then (poll_until (dp_out E) 500 (pooler_probe E e m pw) (now + health_ms E 60000) (rounds (health_ms E 60000))) (\<lambda>r.
          guard (r \<noteq> None) ''pooler never served a connection''))))))))"

definition project_jwks :: "('c, 'r, 'o) saga_deps \<Rightarrow> string \<Rightarrow> ('c, 'o, jwk list) saga" where
  "project_jwks E p =
     and_then (require_secrets E) (\<lambda>_.
     and_then (in_keys E (published_keys (dp_keys E) p)) (\<lambda>keys.
     let jwks = map (\<lambda>(kid, pem). to_jwk (ke_lib (dp_keys E)) pem kid) keys in
     if None \<in> set jwks then throw ''unreadable public key'' else ret (map the jwks)))"

definition start_postgrest_step :: "('c, 'r, 'o) saga_deps \<Rightarrow> job_row \<Rightarrow> ('c, 'o, unit) saga" where
  "start_postgrest_step E j =
     (let p = job_project j in
      and_then (require_docker E) (\<lambda>_.
      and_then (load_project p) (\<lambda>e.
      and_then (load_placement p) (\<lambda>m.
      and_then (on_host (image_exists (dp_out E) POSTGREST_IMAGE)) (\<lambda>there.
      and_then (guard there ''postgrest image is not present on the node'') (\<lambda>_.
      case (pd_pgrst (pm_row m), pd_pgrst_admin (pm_row m)) of
        (Some port, Some admin) \<Rightarrow>
          and_then (require_secrets E) (\<lambda>_.
          and_then (stored E p AUTHENTICATOR_PASSWORD) (\<lambda>pw. case filled pw of
            None \<Rightarrow> throw ''the authenticator credential is not stored yet''
          | Some pw \<Rightarrow>
              and_then (project_jwks E p) (\<lambda>jwks.
              and_then (guard (jwks \<noteq> []) ''this project publishes no verification keys'') (\<lambda>_.
              and_then (present_container E (postgrest_name (pe_ref e)) (and_then (ensure_network E (pe_ref e)) (\<lambda>n.
                  ret (postgrest_spec (dp_uri E) (pe_ref e) n port admin pw (dp_jwks_text E jwks) (pe_plan e))))) (\<lambda>c.
              and_then (running E c) (\<lambda>_.
              update_ids p (\<lambda>i. i\<lparr>in_postgrest := Some (ct_id c)\<rparr>)))))))
      | _ \<Rightarrow> throw ''this project was placed before the data API existed''))))))"

definition ready_url :: "string \<Rightarrow> placement \<Rightarrow> string" where
  "ready_url address m = ''http://'' @ address @ '':'' @
     (case pd_pgrst_admin (pm_row m) of Some n \<Rightarrow> string_of_nat n | None \<Rightarrow> ''null'') @ ''/ready''"

definition postgrest_probe :: "('c, 'r, 'o) saga_deps \<Rightarrow> string \<Rightarrow> string \<Rightarrow> ('c, 'o, unit poll_verdict) saga" where
  "postgrest_probe E n url =
     and_then (on_host (inspect_container (dp_out E) n)) (\<lambda>i.
     if (case i of None \<Rightarrow> False | Some c \<Rightarrow> \<not> ct_running c \<and> \<not> ct_restarting c)
     then and_then (caught (on_host (container_logs (dp_out E) n)) (\<lambda>_. ret [])) (\<lambda>logs.
       throw (''postgrest exited before it answered: '' @ logs))
     else
       caught (and_then (on_host (asked (dp_out E) (HttpGet url) (\<lambda>p. case p of GotStatus s \<Rightarrow> Some s | _ \<Rightarrow> None))) (\<lambda>s.
         if 200 \<le> s \<and> s < 300 then (case i of
             None \<Rightarrow> throw ''cannot read properties of undefined''
           | Some c \<Rightarrow> and_then (on_host (set_restart_policy (dp_out E) (ct_id c) ''unless-stopped'')) (\<lambda>_. ret (Finished ())))
         else ret Again)) (\<lambda>_. ret Again))"

definition wait_postgrest_healthy_step :: "('c, 'r, 'o) saga_deps \<Rightarrow> job_row \<Rightarrow> ('c, 'o, unit) saga" where
  "wait_postgrest_healthy_step E j =
     (let p = job_project j in
      and_then (require_docker E) (\<lambda>_.
      and_then (load_project p) (\<lambda>e.
      and_then (load_placement p) (\<lambda>m.
      and_then (gets (now_of E)) (\<lambda>now.
      and_then (admin_endpoint m) (\<lambda>ep.
      and_then (poll_until (dp_out E) 500 (postgrest_probe E (postgrest_name (pe_ref e)) (ready_url (fst ep) m))
          (now + health_ms E 60000) (rounds (health_ms E 60000))) (\<lambda>r. case r of
        Some _ \<Rightarrow> ret ()
      | None \<Rightarrow>
          and_then (caught (on_host (container_logs (dp_out E) (postgrest_name (pe_ref e)))) (\<lambda>_. ret [])) (\<lambda>logs.
          throw (''the data api did not become ready: '' @ logs)))))))))"

definition write_connection_step :: "('c, 'r, 'o) saga_deps \<Rightarrow> job_row \<Rightarrow> ('c, 'o, unit) saga" where
  "write_connection_step E j =
     and_then (load_project (job_project j)) (\<lambda>e.
     update_ids (job_project j) (\<lambda>i. i\<lparr>in_host :=
       Some (or_else (in_host i) (pe_ref e @ ''.'' @ ke_domain (dp_keys E)))\<rparr>))"

record readiness =
  rd_status :: string
  rd_ids :: instance_ids
  rd_secrets :: nat
  rd_keys :: nat

definition readiness_of :: "string \<Rightarrow> ('c, 'o) saga_world \<Rightarrow> readiness option" where
  "readiness_of p w = map_option (\<lambda>d. \<lparr>rd_status = pd_status d, rd_ids = sw_ids w p,
     rd_secrets = length (filter (\<lambda>r. sr_project r = p \<and> sr_active r) (sd_rows (kb_secrets (sw_keys w)))),
     rd_keys = length (filter (\<lambda>k. ak_project k = p \<and> ak_revoked k = None) (kb_api (sw_keys w)))\<rparr>) (placed_row p w)"

definition ready_problems :: "readiness \<Rightarrow> string list" where
  "ready_problems r =
     (if rd_status r \<noteq> ''running'' then [''database status is '' @ rd_status r] else []) @
     (if filled (in_database (rd_ids r)) = None then [''no container recorded''] else []) @
     (if filled (in_host (rd_ids r)) = None then [''no connection host''] else []) @
     (if rd_secrets r < 4 then [''only '' @ string_of_nat (rd_secrets r) @ '' credentials stored''] else []) @
     (if filled (in_pooler (rd_ids r)) = None then [''no pooler recorded''] else []) @
     (if rd_keys r < 2 then [''only '' @ string_of_nat (rd_keys r) @ '' api key(s) minted''] else [])"

definition mark_ready_step :: "('c, 'r, 'o) saga_deps \<Rightarrow> job_row \<Rightarrow> ('c, 'o, unit) saga" where
  "mark_ready_step E j =
     and_then (gets (readiness_of (job_project j))) (\<lambda>r. case r of
       None \<Rightarrow> throw ''no placement row: cannot mark a project ready''
     | Some r \<Rightarrow>
         and_then (guard (ready_problems r = []) (''refusing to mark ready: '' @ js_join ''; '' (ready_problems r))) (\<lambda>_.
         and_then (write_project (\<lambda>e. pe_id e = job_project j \<and> pe_status e \<noteq> StReady) (\<lambda>e. e\<lparr>pe_status := StReady\<rparr>)) (\<lambda>_.
         ret ())))"

subsection \<open>Backups\<close>

definition new_run :: "string \<Rightarrow> string \<Rightarrow> backup_kind \<Rightarrow> nat \<Rightarrow> backup_run list \<Rightarrow> backup_run" where
  "new_run p job k now runs = \<lparr>br_id = length runs, br_project = p, br_job = job, br_kind = k, br_status = RunRunning,
     br_started = now, br_finished = None, br_made = None\<rparr>"

definition open_run :: "('c, 'r, 'o) saga_deps \<Rightarrow> string \<Rightarrow> string \<Rightarrow> backup_kind \<Rightarrow> ('c, 'o, nat) saga" where
  "open_run E p job k w =
     (Inr (length (sw_backups w)), w\<lparr>sw_backups := sw_backups w @ [new_run p job k (now_of E w) (sw_backups w)]\<rparr>)"

definition close_run :: "('c, 'r, 'o) saga_deps \<Rightarrow> nat \<Rightarrow> run_status \<Rightarrow> backup_entry option \<Rightarrow> ('c, 'o, unit) saga" where
  "close_run E i s made = modifies (\<lambda>w. w\<lparr>sw_backups := upd_where (\<lambda>r. br_id r = i)
     (\<lambda>r. r\<lparr>br_status := s, br_finished := Some (now_of E w), br_made := (if s = RunSucceeded then made else br_made r)\<rparr>) (sw_backups w)\<rparr>)"

definition newest_run :: "(backup_run \<Rightarrow> nat) \<Rightarrow> backup_run list \<Rightarrow> backup_run option" where
  \<comment> \<open>\<open>ORDER BY ... DESC LIMIT 1\<close>\<close>
  "newest_run key runs = (case runs of [] \<Rightarrow> None
     | r # rs \<Rightarrow> Some (foldl (\<lambda>best r. if key best \<le> key r then r else best) r rs))"

definition latest_success :: "string \<Rightarrow> (backup_run \<Rightarrow> bool) \<Rightarrow> ('c, 'o) saga_world \<Rightarrow> nat option" where
  \<comment> \<open>\<open>max(finished_at)\<close> of the runs that succeeded\<close>
  "latest_success p c w =
     (let ts = concat (map (\<lambda>r. case br_finished r of None \<Rightarrow> [] | Some t \<Rightarrow> [t])
        (filter (\<lambda>r. br_project r = p \<and> br_status r = RunSucceeded \<and> c r) (sw_backups w)))
      in if ts = [] then None else Some (foldl max 0 ts))"

definition plan_backup_step :: "('c, 'r, 'o) saga_deps \<Rightarrow> job_row \<Rightarrow> ('c, 'o, unit) saga" where
  "plan_backup_step E j =
     (let p = job_project j in
      and_then (load_project p) (\<lambda>e.
      and_then (gets (\<lambda>w. list_ex (\<lambda>r. br_project r = p \<and> br_job r = jb_id j \<and> br_status r = RunRunning) (sw_backups w))) (\<lambda>there.
      if there then ret ()
      else
        and_then (gets (\<lambda>w. decide_backup (\<lambda>_. 0) 0 p (pe_plan e) (now_of E w) (latest_success p (\<lambda>r. br_kind r = Full) w)
          (latest_success p (\<lambda>_. True) w) (0, 24))) (\<lambda>d.
        and_then (open_run E p (jb_id j) (or_else d Incr)) (\<lambda>_. ret ())))))"

definition take_backup_step :: "('c, 'r, 'o) saga_deps \<Rightarrow> job_row \<Rightarrow> ('c, 'o, unit) saga" where
  "take_backup_step E j =
     (let p = job_project j in
      and_then (require_docker E) (\<lambda>_.
      and_then (load_project p) (\<lambda>e.
      and_then (gets (\<lambda>w. newest_run br_started (filter (\<lambda>r. br_project r = p \<and> br_job r = jb_id j) (sw_backups w)))) (\<lambda>found. case found of
        None \<Rightarrow> throw ''no backup_runs row: plan_backup did not run''
      | Some r \<Rightarrow>
          let c = container_name (pe_ref e) in
          and_then (on_host (backup_info (dp_out E) (dp_read_info E) c)) (\<lambda>before.
          and_then (caught (on_host (take_backup (dp_out E) c (br_kind r))) (\<lambda>err.
            and_then (close_run E (br_id r) RunFailed None) (\<lambda>_. throw err))) (\<lambda>_.
          and_then (on_host (backup_info (dp_out E) (dp_read_info E) c)) (\<lambda>after.
          close_run E (br_id r) RunSucceeded (List.find (\<lambda>b. be_label b \<notin> set (map be_label before)) after))))))))"

definition last_entry :: "'a list \<Rightarrow> 'a option" where
  "last_entry l = (if l = [] then None else Some (last l))"

definition final_backup_step :: "('c, 'r, 'o) saga_deps \<Rightarrow> job_row \<Rightarrow> ('c, 'o, unit) saga" where
  "final_backup_step E j =
     (let p = job_project j in
      and_then (load_project p) (\<lambda>e. case dp_repo E of
        None \<Rightarrow> guard (\<not> dp_final_backup E) ''a verified final backup is required before deletion (D-066)''
      | Some _ \<Rightarrow>
          let c = container_name (pe_ref e) in
          and_then (require_docker E) (\<lambda>_.
          and_then (on_host (inspect_container (dp_out E) c)) (\<lambda>i.
          if (case i of None \<Rightarrow> True | Some x \<Rightarrow> \<not> ct_running x)
          then
            and_then (gets (\<lambda>w. latest_success p (\<lambda>_. True) w \<noteq> None)) (\<lambda>prior.
            guard (prior \<or> \<not> dp_final_backup E) ''no running database and no successful backup on record (D-066)'')
          else
            and_then (open_run E p (jb_id j) Full) (\<lambda>run.
            and_then (caught (on_host (take_backup (dp_out E) c Full)) (\<lambda>err.
              and_then (close_run E run RunFailed None) (\<lambda>_.
              throw (''final backup failed, so this deletion stops here (D-066): '' @ err)))) (\<lambda>_.
            and_then (on_host (backup_info (dp_out E) (dp_read_info E) c)) (\<lambda>after.
            close_run E run RunSucceeded (last_entry after))))))))"

subsection \<open>Deleting\<close>

definition disable_api_step :: "('c, 'r, 'o) saga_deps \<Rightarrow> job_row \<Rightarrow> ('c, 'o, unit) saga" where
  "disable_api_step E j = ret ()"

definition disable_writes_step :: "('c, 'r, 'o) saga_deps \<Rightarrow> job_row \<Rightarrow> ('c, 'o, unit) saga" where
  "disable_writes_step E j =
     (let p = job_project j in
      and_then (load_placement p) (\<lambda>m. case filled (in_database (pm_ids m)) of
        None \<Rightarrow> ret ()
      | Some c \<Rightarrow>
          and_then (require_docker E) (\<lambda>_.
          and_then (on_host (inspect_container (dp_out E) c)) (\<lambda>i.
          if (case i of None \<Rightarrow> True | Some x \<Rightarrow> \<not> ct_running x) then ret ()
          else as_superuser E m p (\<lambda>ep.
            on_host (run_sql (dp_out E) ep ''ALTER DATABASE postgres SET default_transaction_read_only = on''))))))"

definition quiet_stop :: "('c, 'r, 'o) saga_deps \<Rightarrow> string \<Rightarrow> ('c, 'o, unit) saga" where
  \<comment> \<open>the restart policy goes first, or the container comes back\<close>
  "quiet_stop E i = and_then (on_host (set_restart_policy (dp_out E) i ''no'')) (\<lambda>_. on_host (stop_container (dp_out E) i))"

definition stop_container_step :: "('c, 'r, 'o) saga_deps \<Rightarrow> job_row \<Rightarrow> ('c, 'o, unit) saga" where
  "stop_container_step E j =
     and_then (load_placement (job_project j)) (\<lambda>m. case filled (in_database (pm_ids m)) of
       None \<Rightarrow> ret ()
     | Some c \<Rightarrow>
         and_then (require_docker E) (\<lambda>_.
         and_then (on_host (inspect_container (dp_out E) c)) (\<lambda>i.
         if (case i of None \<Rightarrow> True | Some x \<Rightarrow> \<not> ct_running x) then ret () else quiet_stop E c)))"

definition stop_sidecar :: "('c, 'r, 'o) saga_deps \<Rightarrow> (instance_ids \<Rightarrow> string option) \<Rightarrow> (string \<Rightarrow> string) \<Rightarrow> job_row \<Rightarrow> ('c, 'o, unit) saga" where
  \<comment> \<open>the shape of \<open>stop_pooler\<close> and \<open>stop_postgrest\<close>\<close>
  "stop_sidecar E col nm j =
     (let p = job_project j in
      and_then (load_project p) (\<lambda>e.
      and_then (gets (placement_of p)) (\<lambda>m.
      and_then (require_docker E) (\<lambda>_.
      and_then (on_host (inspect_container (dp_out E)
          (or_else (case m of None \<Rightarrow> None | Some m \<Rightarrow> col (pm_ids m)) (nm (pe_ref e))))) (\<lambda>i. case i of
        None \<Rightarrow> ret ()
      | Some c \<Rightarrow> if ct_running c then quiet_stop E (ct_id c) else ret ())))))"

definition stop_pooler_step :: "('c, 'r, 'o) saga_deps \<Rightarrow> job_row \<Rightarrow> ('c, 'o, unit) saga" where
  "stop_pooler_step E = stop_sidecar E in_pooler pooler_name"

definition stop_postgrest_step :: "('c, 'r, 'o) saga_deps \<Rightarrow> job_row \<Rightarrow> ('c, 'o, unit) saga" where
  "stop_postgrest_step E = stop_sidecar E in_postgrest postgrest_name"

definition remove_network_step :: "('c, 'r, 'o) saga_deps \<Rightarrow> job_row \<Rightarrow> ('c, 'o, unit) saga" where
  "remove_network_step E j =
     and_then (load_project (job_project j)) (\<lambda>e.
     and_then (require_docker E) (\<lambda>_. on_host (remove_network (dp_out E) (network_name (pe_ref e)))))"

definition mark_soft_deleted_step :: "('c, 'r, 'o) saga_deps \<Rightarrow> job_row \<Rightarrow> ('c, 'o, unit) saga" where
  "mark_soft_deleted_step E j =
     and_then (gets (now_of E)) (\<lambda>now.
     and_then (write_project (\<lambda>e. pe_id e = job_project j) (\<lambda>e. e\<lparr>pe_status := StSoftDeleted,
         pe_deleted_at := Some (or_else (pe_deleted_at e) now),
         pe_purge_after := Some (or_else (pe_purge_after e) (now + dp_window_ms E))\<rparr>)) (\<lambda>_.
     set_database_status (job_project j) ''deleting''))"

subsection \<open>Purging\<close>

definition verify_purgeable_step :: "('c, 'r, 'o) saga_deps \<Rightarrow> job_row \<Rightarrow> ('c, 'o, unit) saga" where
  "verify_purgeable_step E j =
     and_then (gets (entry_of (job_project j))) (\<lambda>e. case e of
       None \<Rightarrow> throw ''project no longer exists''
     | Some e \<Rightarrow>
         if pe_status e = StDeleted then ret ()
         else
           and_then (guard (pe_status e = StSoftDeleted) (''refusing to purge a project in status '' @ status_text (pe_status e))) (\<lambda>_.
           and_then (gets (now_of E)) (\<lambda>now.
           guard (case pe_purge_after e of None \<Rightarrow> False | Some t \<Rightarrow> t \<le> now)
             ''refusing to purge before the recovery window closes'')))"

definition targets :: "(instance_ids \<Rightarrow> string option) list \<Rightarrow> (string \<Rightarrow> string) list \<Rightarrow> instance_ids \<Rightarrow> string \<Rightarrow> string list" where
  \<comment> \<open>each recorded id, when there is one, before the name derived from the ref\<close>
  "targets cols nms i ref = concat (map2 (\<lambda>col nm. (case filled (col i) of None \<Rightarrow> [] | Some x \<Rightarrow> [x]) @ [nm ref]) cols nms)"

definition forget_containers :: "string \<Rightarrow> ('c, 'o, unit) saga" where
  "forget_containers p = update_ids p (\<lambda>i. i\<lparr>in_database := None, in_pooler := None, in_postgrest := None\<rparr>)"

definition recorded_ids :: "placement option \<Rightarrow> instance_ids" where
  "recorded_ids m = (case m of None \<Rightarrow> blank_ids | Some m \<Rightarrow> pm_ids m)"

definition remove_container_step :: "('c, 'r, 'o) saga_deps \<Rightarrow> job_row \<Rightarrow> ('c, 'o, unit) saga" where
  "remove_container_step E j =
     (let p = job_project j in
      and_then (load_project p) (\<lambda>e.
      and_then (gets (placement_of p)) (\<lambda>m.
      and_then (require_docker E) (\<lambda>_.
      and_then (each (\<lambda>t. on_host (remove_container (dp_out E) t True False))
        (targets [in_database, in_pooler, in_postgrest] [container_name, pooler_name, postgrest_name] (recorded_ids m) (pe_ref e))) (\<lambda>_.
      if m = None then ret () else forget_containers p)))))"

definition remove_volume_step :: "('c, 'r, 'o) saga_deps \<Rightarrow> job_row \<Rightarrow> ('c, 'o, unit) saga" where
  "remove_volume_step E j =
     and_then (load_project (job_project j)) (\<lambda>e.
     and_then (gets (placement_of (job_project j))) (\<lambda>m.
     and_then (require_docker E) (\<lambda>_.
     on_host (remove_volume (dp_out E) (case m of None \<Rightarrow> volume_name_for (pe_ref e) | Some m \<Rightarrow> pd_volume (pm_row m))))))"

definition REPO_RETENTION_DAYS :: nat where "REPO_RETENTION_DAYS = 30"

definition record_repo :: "string \<Rightarrow> string \<Rightarrow> nat option \<Rightarrow> bool \<Rightarrow> ('c, 'o, unit) saga" where
  \<comment> \<open>the insert, whose conflict does nothing or keeps the first deadline and takes the bucket\<close>
  "record_repo p bucket deadline update = modifies (\<lambda>w.
     if list_ex (\<lambda>r. rp_project r = p) (sw_repos w)
     then (if update then w\<lparr>sw_repos := upd_where (\<lambda>r. rp_project r = p) (\<lambda>r. r\<lparr>rp_bucket := bucket,
        rp_destroy_after := (case rp_destroy_after r of None \<Rightarrow> deadline | Some t \<Rightarrow> Some t)\<rparr>) (sw_repos w)\<rparr> else w)
     else w\<lparr>sw_repos := sw_repos w @ [\<lparr>rp_project = p, rp_path = repo_path_for p, rp_bucket = bucket, rp_destroy_after = deadline\<rparr>]\<rparr>)"

definition schedule_repo_step :: "('c, 'r, 'o) saga_deps \<Rightarrow> job_row \<Rightarrow> ('c, 'o, unit) saga" where
  "schedule_repo_step E j = (case dp_repo E of
     None \<Rightarrow> record_repo (job_project j) ''unconfigured'' None False
   | Some repo \<Rightarrow> and_then (gets (now_of E)) (\<lambda>now.
       record_repo (job_project j) (rt_bucket repo) (Some (now + REPO_RETENTION_DAYS * DAY)) True))"

definition delete_credentials_step :: "('c, 'r, 'o) saga_deps \<Rightarrow> job_row \<Rightarrow> ('c, 'o, unit) saga" where
  "delete_credentials_step E j = and_then (in_keys E (commit (in_vault (delete_secrets (job_project j))))) (\<lambda>_. ret ())"

definition verify_gone_step :: "('c, 'r, 'o) saga_deps \<Rightarrow> job_row \<Rightarrow> ('c, 'o, unit) saga" where
  "verify_gone_step E j =
     (let p = job_project j in
      and_then (load_project p) (\<lambda>e.
      and_then (require_docker E) (\<lambda>_.
      and_then (on_host (list_containers (dp_out E) (LABEL_REF @ ''='' @ pe_ref e))) (\<lambda>cs.
      and_then (on_host (volume_exists (dp_out E) (volume_name_for (pe_ref e)))) (\<lambda>vol.
      and_then (on_host (network_exists (dp_out E) (network_name (pe_ref e)))) (\<lambda>net.
      and_then (gets (\<lambda>w. list_ex (\<lambda>r. sr_project r = p) (sd_rows (kb_secrets (sw_keys w))))) (\<lambda>secrets.
      and_then (gets (\<lambda>w. placed_row p w \<noteq> None)) (\<lambda>placed.
      guard (cs = [] \<and> \<not> vol \<and> \<not> net \<and> \<not> secrets \<and> \<not> placed) ''purge incomplete'')))))))) "

definition mark_deleted_step :: "('c, 'r, 'o) saga_deps \<Rightarrow> job_row \<Rightarrow> ('c, 'o, unit) saga" where
  "mark_deleted_step E j =
     and_then (write_project (\<lambda>e. pe_id e = job_project j \<and> pe_status e \<noteq> StDeleted) (\<lambda>e. e\<lparr>pe_status := StDeleted\<rparr>)) (\<lambda>_. ret ())"

subsection \<open>Restoring to a new instance\<close>

definition restore_of :: "string \<Rightarrow> ('c, 'o) saga_world \<Rightarrow> restore_run option" where
  "restore_of p w = List.find (\<lambda>r. rr_project r = p) (sw_restores w)"

definition update_restore :: "string \<Rightarrow> (restore_run \<Rightarrow> restore_run) \<Rightarrow> ('c, 'o, unit) saga" where
  "update_restore p f = modifies (\<lambda>w. w\<lparr>sw_restores := upd_where (\<lambda>r. rr_project r = p) f (sw_restores w)\<rparr>)"

definition write_source_repo_conf :: "('c, 'r, 'o) saga_deps \<Rightarrow> string \<Rightarrow> string \<Rightarrow> ('c, 'o, unit) saga" where
  "write_source_repo_conf E c source =
     and_then (require_secrets E) (\<lambda>_. case dp_repo E of
       None \<Rightarrow> throw ''no backup repo configured: a restore has nothing to read''
     | Some repo \<Rightarrow>
         and_then (stored E source BACKUP_CIPHER_PASS) (\<lambda>pass. case filled pass of
           None \<Rightarrow> throw ''no repo cipher-pass stored for the source: its repo cannot be decrypted''
         | Some pass \<Rightarrow>
             and_then (load_project source) (\<lambda>e.
             on_host (write_conf (dp_out E) (dp_b64 E) c (render_pgbackrest_conf source (pe_plan e) pass repo)))))"

definition with_cleanup :: "('s, 'e, 'a) eff \<Rightarrow> ('s, 'e, unit) eff \<Rightarrow> ('s, 'e, 'a) eff" where
  \<comment> \<open>a cleanup that throws nothing\<close>
  "with_cleanup m cleanup s = (case m s of (r, s') \<Rightarrow> (r, snd (cleanup s')))"

definition restore_probe_name :: "string \<Rightarrow> string" where "restore_probe_name ref = ''sh-restore-'' @ ref"

definition PG_VERSION_PROBE :: "string list" where
  "PG_VERSION_PROBE = [''sh'', ''-c'', ''test -f /var/lib/postgresql/data/pgdata/PG_VERSION && echo yes || echo no'']"

definition SIGNAL_PROBE :: "string list" where
  "SIGNAL_PROBE = [''sh'', ''-c'', ''cd /var/lib/postgresql/data/pgdata && test -f recovery.signal && echo PRESENT; echo \"---\"; ls -a | head -30'']"

definition fill_volume :: "('c, 'r, 'o) saga_deps \<Rightarrow> string \<Rightarrow> restore_run \<Rightarrow> string \<Rightarrow> container_spec \<Rightarrow> string \<Rightarrow> ('c, 'o, unit) saga" where
  \<comment> \<open>the body of the \<open>try\<close> in \<open>restore_into_volume\<close>\<close>
  "fill_volume E p r source spec probe =
     and_then (on_host (create_container (dp_out E) probe (spec\<lparr>cs_cmd := Some [''sleep'', ''900''], cs_env := [], cs_ports := [], cs_exposed := []\<rparr>))) (\<lambda>i.
     and_then (on_host (start_container (dp_out E) i)) (\<lambda>_.
     and_then (on_host (exec_capture (dp_out E) probe PG_VERSION_PROBE None)) (\<lambda>already.
     if js_trim (xr_out already) = ''yes'' then ret ()
     else
       and_then (write_source_repo_conf E probe source) (\<lambda>_.
       and_then (on_host (restore_repo (dp_out E) (dp_show_time E) probe (rr_target r))) (\<lambda>out.
       and_then (on_host (exec_capture (dp_out E) probe SIGNAL_PROBE None)) (\<lambda>signal.
       and_then (guard (mentions ''PRESENT'' (xr_out signal)) ''pgbackrest restore wrote no recovery.signal'') (\<lambda>_.
       update_restore p (\<lambda>r. r\<lparr>rr_label := Some out\<rparr>))))))))"

definition restore_into_volume_step :: "('c, 'r, 'o) saga_deps \<Rightarrow> job_row \<Rightarrow> ('c, 'o, unit) saga" where
  \<comment> \<open>of the output of the restore, kept whole here, the code keeps the label it names\<close>
  "restore_into_volume_step E j =
     (let p = job_project j in
      and_then (require_docker E) (\<lambda>_.
      and_then (load_project p) (\<lambda>e.
      and_then (load_placement p) (\<lambda>m.
      and_then (gets (restore_of p)) (\<lambda>found. case found of
        None \<Rightarrow> throw ''no project_restores row: this project was not created by a restore''
      | Some r \<Rightarrow>
          (case filled (rr_source r) of
             None \<Rightarrow> throw ''the source project is gone, so its repo cannot be read''
           | Some source \<Rightarrow>
               let probe = restore_probe_name (pe_ref e) in
               and_then (swallowed (on_host (remove_container (dp_out E) probe True True))) (\<lambda>_.
               and_then (database_spec_for E e m False None) (\<lambda>spec.
               with_cleanup (fill_volume E p r source spec probe)
                 (swallowed (on_host (remove_container (dp_out E) probe True False)))))))))))"

record recovery =
  rc_in_recovery :: bool
  rc_pause :: "string option"
  rc_lsn :: "string option"
  rc_reached :: "string option"

definition RECOVERY_QUERY :: string where
  "RECOVERY_QUERY = ''SELECT pg_is_in_recovery() AS in_recovery, CASE WHEN pg_is_in_recovery() THEN pg_get_wal_replay_pause_state() ELSE NULL END AS pause_state, pg_last_wal_replay_lsn()::text AS lsn, pg_last_xact_replay_timestamp() AS reached''"

definition read_recovery :: "string option list list \<Rightarrow> recovery option" where
  "read_recovery rows = (case rows of
     [Some b, pause, lsn, reached] # _ \<Rightarrow> Some \<lparr>rc_in_recovery = (b = ''t''), rc_pause = pause, rc_lsn = lsn, rc_reached = reached\<rparr>
   | _ \<Rightarrow> None)"

definition recovery_state :: "('c, 'r, 'o) saga_deps \<Rightarrow> endpoint \<Rightarrow> string list \<Rightarrow> ('c, 'o, recovery) saga" where
  "recovery_state E ep pws =
     and_then (on_host (connect_as_superuser (dp_out E) ep pws)) (\<lambda>_.
     and_then (on_host (query (dp_out E) ep RECOVERY_QUERY [])) (\<lambda>rows. case read_recovery rows of
       None \<Rightarrow> throw ''cannot read properties of undefined'' | Some s \<Rightarrow> ret s))"

primrec recovery_loop :: "('c, 'r, 'o) saga_deps \<Rightarrow> endpoint \<Rightarrow> string list \<Rightarrow> nat \<Rightarrow> nat \<Rightarrow> recovery option \<Rightarrow> ('c, 'o, recovery option) saga" where
  \<comment> \<open>the last state that was read, settled or not, when the loop ends\<close>
  "recovery_loop E ep pws deadline 0 state = throw NEVER"
| "recovery_loop E ep pws deadline (Suc n) state =
     and_then (gets (now_of E)) (\<lambda>now.
     if deadline \<le> now then ret state
     else
       and_then (caught (and_then (recovery_state E ep pws) (\<lambda>s. ret (Some s))) (\<lambda>_. ret None)) (\<lambda>s.
       let state' = (case s of None \<Rightarrow> state | Some _ \<Rightarrow> s) in
       if (case s of None \<Rightarrow> False | Some s \<Rightarrow> \<not> rc_in_recovery s \<or> rc_pause s = Some ''paused'') then ret state'
       else and_then (sleep (dp_out E) 1000) (\<lambda>_. recovery_loop E ep pws deadline n state')))"

primrec promotion_loop :: "('c, 'r, 'o) saga_deps \<Rightarrow> endpoint \<Rightarrow> string list \<Rightarrow> nat \<Rightarrow> ('c, 'o, unit) saga" where
  \<comment> \<open>waits for the end of recovery, and goes on without it after the last round\<close>
  "promotion_loop E ep pws 0 = ret ()"
| "promotion_loop E ep pws (Suc n) =
     and_then (on_host (connect_as_superuser (dp_out E) ep pws)) (\<lambda>_.
     and_then (on_host (query (dp_out E) ep ''SELECT pg_is_in_recovery() AS r'' [])) (\<lambda>rows.
     if first_columns rows \<noteq> [''t''] then ret ()
     else and_then (sleep (dp_out E) 500) (\<lambda>_. promotion_loop E ep pws n)))"

definition promote_at_target :: "('c, 'r, 'o) saga_deps \<Rightarrow> endpoint \<Rightarrow> string list \<Rightarrow> recovery \<Rightarrow> ('c, 'o, unit) saga" where
  "promote_at_target E ep pws s =
     and_then (guard (rc_in_recovery s) ''the restored cluster left recovery without pausing at the target'') (\<lambda>_.
     and_then (guard (rc_pause s = Some ''paused'') ''recovery did not reach the target within the timeout'') (\<lambda>_.
     and_then (on_host (connect_as_superuser (dp_out E) ep pws)) (\<lambda>_.
     and_then (on_host (run_sql (dp_out E) ep ''SELECT pg_wal_replay_resume()'')) (\<lambda>_.
     promotion_loop E ep pws 60))))"

definition recover_to_target_step :: "('c, 'r, 'o) saga_deps \<Rightarrow> job_row \<Rightarrow> ('c, 'o, unit) saga" where
  "recover_to_target_step E j =
     (let p = job_project j in
      and_then (require_docker E) (\<lambda>_.
      and_then (load_project p) (\<lambda>e.
      and_then (load_placement p) (\<lambda>m.
      and_then (gets (restore_of p)) (\<lambda>found.
      let target = (case found of None \<Rightarrow> None | Some r \<Rightarrow> rr_target r);
          source = (case found of None \<Rightarrow> None | Some r \<Rightarrow> filled (rr_source r));
          c = container_name (pe_ref e) in
      and_then (present_container E c (networked_spec E e m)) (\<lambda>i.
      and_then (case source of
          Some s \<Rightarrow> and_then (on_host (start_container (dp_out E) (ct_id i))) (\<lambda>_. write_source_repo_conf E c s)
        | None \<Rightarrow> running E i) (\<lambda>_.
      and_then (superuser_candidates E (or_else source p)) (\<lambda>pws.
      and_then (admin_endpoint m) (\<lambda>ep.
      and_then (gets (now_of E)) (\<lambda>now.
      and_then (recovery_loop E ep pws (now + health_ms E 120000) (rounds (health_ms E 120000)) None) (\<lambda>state. case state of
        None \<Rightarrow> and_then (caught (on_host (container_logs (dp_out E) c)) (\<lambda>_. ret [])) (\<lambda>logs.
          throw (''restored cluster never answered: '' @ logs))
      | Some s \<Rightarrow>
          and_then (if target = None then ret () else promote_at_target E ep pws s) (\<lambda>_.
          update_restore p (\<lambda>r. r\<lparr>rr_reached := rc_reached s, rr_lsn := rc_lsn s\<rparr>)))))))))))))"

definition reset_restored_step :: "('c, 'r, 'o) saga_deps \<Rightarrow> job_row \<Rightarrow> ('c, 'o, unit) saga" where
  "reset_restored_step E j =
     (let p = job_project j in
      and_then (require_secrets E) (\<lambda>_.
      and_then (load_placement p) (\<lambda>m.
      and_then (gets (restore_of p)) (\<lambda>found.
      and_then (ensure_all E p CREDENTIALS) (\<lambda>pws.
      and_then (case (case found of None \<Rightarrow> None | Some r \<Rightarrow> filled (rr_source r)) of
          None \<Rightarrow> ret [] | Some s \<Rightarrow> superuser_candidates E s) (\<lambda>theirs.
      and_then (superuser_candidates E p) (\<lambda>ours.
      and_then (admin_endpoint m) (\<lambda>ep.
      and_then (on_host (connect_as_superuser (dp_out E) ep (theirs @ ours))) (\<lambda>_.
      apply_passwords E ep pws)))))))))"

definition mark_restored_step :: "('c, 'r, 'o) saga_deps \<Rightarrow> job_row \<Rightarrow> ('c, 'o, unit) saga" where
  "mark_restored_step E j =
     (let p = job_project j in
      and_then (update_restore p (\<lambda>r. r\<lparr>rr_succeeded := True\<rparr>)) (\<lambda>_.
      and_then (write_project (\<lambda>e. pe_id e = p) (\<lambda>e. e\<lparr>pe_status := StRestored\<rparr>)) (\<lambda>_.
      set_database_status p ''running'')))"

subsection \<open>Pausing and resuming\<close>

definition mark_pausing_step :: "('c, 'r, 'o) saga_deps \<Rightarrow> job_row \<Rightarrow> ('c, 'o, unit) saga" where
  "mark_pausing_step E j =
     (let p = job_project j in
      and_then (write_project (\<lambda>e. pe_id e = p \<and> pe_status e \<in> {StReady, StPausing}) (\<lambda>e. e\<lparr>pe_status := StPausing\<rparr>)) (\<lambda>touched.
      if touched then ret ()
      else and_then (load_project p) (\<lambda>e.
        guard (pe_status e = StPaused) (''refusing to pause a project that is '' @ status_text (pe_status e)))))"

definition interlocked_backup :: "('c, 'r, 'o) saga_deps \<Rightarrow> job_row \<Rightarrow> string \<Rightarrow> ('c, 'o, unit) saga" where
  \<comment> \<open>the backup and the check that a pause waits for (D-077)\<close>
  "interlocked_backup E j c =
     (let p = job_project j in
      and_then (gets (\<lambda>w. case latest_success p (\<lambda>r. br_kind r = Full) w of None \<Rightarrow> Full
         | Some t \<Rightarrow> if now_of E w < t + 7 * DAY then Incr else Full)) (\<lambda>k.
      and_then (open_run E p (jb_id j) k) (\<lambda>run.
      caught
        (and_then (on_host (take_backup (dp_out E) c k)) (\<lambda>_.
         and_then (on_host (backup_info (dp_out E) (dp_read_info E) c)) (\<lambda>after.
         and_then (close_run E run RunSucceeded (last_entry after)) (\<lambda>_.
         and_then (on_host (backup_check (dp_out E) c)) (\<lambda>(good, out).
         guard good (''pgbackrest check failed after the final backup: '' @ out))))))
        (\<lambda>err. and_then (close_run E run RunFailed None) (\<lambda>_. throw (''pause stopped: '' @ err))))))"

definition CHECKPOINT :: "string list" where
  "CHECKPOINT = [''psql'', ''-h'', ''127.0.0.1'', ''-U'', ''postgres'', ''-d'', ''postgres'', ''-c'', ''CHECKPOINT'']"

definition checkpoint_and_stop_step :: "('c, 'r, 'o) saga_deps \<Rightarrow> job_row \<Rightarrow> ('c, 'o, unit) saga" where
  "checkpoint_and_stop_step E j =
     (let p = job_project j in
      and_then (load_project p) (\<lambda>e.
      and_then (load_placement p) (\<lambda>m.
      and_then (require_docker E) (\<lambda>_.
      and_then (on_host (inspect_container (dp_out E) (or_else (in_pooler (pm_ids m)) (pooler_name (pe_ref e))))) (\<lambda>pooler.
      and_then (case pooler of None \<Rightarrow> ret () | Some c \<Rightarrow> if ct_running c then quiet_stop E (ct_id c) else ret ()) (\<lambda>_.
      and_then (on_host (inspect_container (dp_out E) (or_else (in_database (pm_ids m)) (container_name (pe_ref e))))) (\<lambda>db. case db of
        None \<Rightarrow> ret ()
      | Some c \<Rightarrow>
          if \<not> ct_running c then ret ()
          else
            and_then (on_host (docker_exec (dp_out E) (ct_id c) CHECKPOINT)) (\<lambda>_.
            and_then (case dp_repo E of
                Some _ \<Rightarrow> interlocked_backup E j (container_name (pe_ref e))
              | None \<Rightarrow> guard (\<not> dp_require_backups E) ''backups are required but no repo is configured (D-077)'') (\<lambda>_.
            quiet_stop E (ct_id c))))))))))"

definition remove_paused_step :: "('c, 'r, 'o) saga_deps \<Rightarrow> job_row \<Rightarrow> ('c, 'o, unit) saga" where
  "remove_paused_step E j =
     (let p = job_project j in
      and_then (load_project p) (\<lambda>e.
      and_then (gets (placement_of p)) (\<lambda>m.
      and_then (require_docker E) (\<lambda>_.
      and_then (each (\<lambda>t. on_host (remove_container (dp_out E) t True False))
        (targets [in_postgrest, in_pooler, in_database] [postgrest_name, pooler_name, container_name] (recorded_ids m) (pe_ref e))) (\<lambda>_.
      forget_containers p)))))"

definition mark_paused_step :: "('c, 'r, 'o) saga_deps \<Rightarrow> job_row \<Rightarrow> ('c, 'o, unit) saga" where
  "mark_paused_step E j =
     (let p = job_project j in
      and_then (load_project p) (\<lambda>_.
      and_then (in_place E (release_ram p)) (\<lambda>_.
      and_then (set_database_status p ''paused'') (\<lambda>_.
      and_then (write_project (\<lambda>e. pe_id e = p) (\<lambda>e. e\<lparr>pe_status := StPaused\<rparr>)) (\<lambda>_. ret ())))))"

definition mark_resuming_step :: "('c, 'r, 'o) saga_deps \<Rightarrow> job_row \<Rightarrow> ('c, 'o, unit) saga" where
  "mark_resuming_step E j =
     (let p = job_project j in
      and_then (load_project p) (\<lambda>e.
      and_then (write_project (\<lambda>x. pe_id x = p \<and> pe_status x \<in> {StPaused, StResuming, StPausing}) (\<lambda>x. x\<lparr>pe_status := StResuming\<rparr>)) (\<lambda>touched.
      if \<not> touched then and_then (load_project p) (\<lambda>x.
        guard (pe_status x = StReady) (''refusing to resume a project that is '' @ status_text (pe_status x)))
      else and_then (\<lambda>w. in_place E (book_ram (sw_place w) p (pe_plan e)) w) (\<lambda>_. ret ()))))"

definition mark_resumed_step :: "('c, 'r, 'o) saga_deps \<Rightarrow> job_row \<Rightarrow> ('c, 'o, unit) saga" where
  "mark_resumed_step E j =
     and_then (set_database_status (job_project j) ''running'') (\<lambda>_.
     and_then (write_project (\<lambda>e. pe_id e = job_project j) (\<lambda>e. e\<lparr>pe_status := StReady\<rparr>)) (\<lambda>_. ret ()))"

subsection \<open>Rotating the developer's password\<close>

definition rotate_developer_step :: "('c, 'r, 'o) saga_deps \<Rightarrow> job_row \<Rightarrow> ('c, 'o, unit) saga" where
  "rotate_developer_step E j =
     (let p = job_project j in
      and_then (require_secrets E) (\<lambda>_.
      and_then (load_placement p) (\<lambda>m.
      and_then (admin_endpoint m) (\<lambda>_.
      and_then (in_keys E (commit (in_vault (secret_rotate (ke_sealer (dp_keys E)) (ke_rnd (dp_keys E) 1)
          (dp_drawn E DEVELOPER_PASSWORD) p DEVELOPER_PASSWORD)))) (\<lambda>(v, _).
      as_superuser E m p (\<lambda>ep. on_host (set_role_password (dp_out E) ep DEVELOPER_ROLE v)))))))"

definition TERMINATE :: string where
  "TERMINATE = ''SELECT count(*)::int AS killed FROM ( SELECT pg_terminate_backend(pid) FROM pg_stat_activity WHERE usename = $1 AND pid <> pg_backend_pid() ) t''"

definition terminate_sessions_step :: "('c, 'r, 'o) saga_deps \<Rightarrow> job_row \<Rightarrow> ('c, 'o, unit) saga" where
  "terminate_sessions_step E j =
     (if \<not> dp_terminate E j then ret ()
      else and_then (load_placement (job_project j)) (\<lambda>m.
        as_superuser E m (job_project j) (\<lambda>ep.
        and_then (on_host (query (dp_out E) ep TERMINATE [DEVELOPER_ROLE])) (\<lambda>_. ret ()))))"

definition purge_retired_step :: "('c, 'r, 'o) saga_deps \<Rightarrow> job_row \<Rightarrow> ('c, 'o, unit) saga" where
  "purge_retired_step E j =
     and_then (require_secrets E) (\<lambda>_.
     and_then (in_keys E (commit (in_vault (purge_retired (job_project j) 24)))) (\<lambda>_. ret ()))"

subsection \<open>The sagas\<close>

definition saga_named :: "string \<Rightarrow> (job_row \<Rightarrow> ('c, 'o, unit) saga) \<Rightarrow> ('c, 'o) saga_world saga_step" where
  "saga_named n run = \<lparr>sg_name = n, sg_run = run\<rparr>"

definition provision_project :: "('c, 'r, 'o) saga_deps \<Rightarrow> ('c, 'o) saga_world saga_step list" where
  "provision_project E = [saga_named ''allocate_node'' (allocate_step E), saga_named ''create_volume'' (create_volume_step E),
     saga_named ''create_network'' (create_network_step E), saga_named ''start_container'' (start_container_step E),
     saga_named ''wait_healthy'' (wait_healthy_step E), saga_named ''configure_backups'' (configure_backups_step E),
     saga_named ''verify_archiving'' (verify_archiving_step E), saga_named ''create_base_roles'' (create_base_roles_step E),
     saga_named ''store_credentials'' (store_credentials_step E), saga_named ''generate_api_keys'' (generate_api_keys_step E),
     saga_named ''start_pooler'' (start_pooler_step E), saga_named ''wait_pooler_healthy'' (wait_pooler_healthy_step E),
     saga_named ''start_postgrest'' (start_postgrest_step E), saga_named ''wait_postgrest_healthy'' (wait_postgrest_healthy_step E),
     saga_named ''write_connection'' (write_connection_step E), saga_named ''mark_ready'' (mark_ready_step E)]"

definition delete_project :: "('c, 'r, 'o) saga_deps \<Rightarrow> ('c, 'o) saga_world saga_step list" where
  "delete_project E = [saga_named ''disable_api'' (disable_api_step E), saga_named ''disable_writes'' (disable_writes_step E),
     saga_named ''final_backup'' (final_backup_step E), saga_named ''stop_postgrest'' (stop_postgrest_step E),
     saga_named ''stop_pooler'' (stop_pooler_step E), saga_named ''stop_container'' (stop_container_step E),
     saga_named ''remove_network'' (remove_network_step E), saga_named ''mark_soft_deleted'' (mark_soft_deleted_step E)]"

definition restore_project :: "('c, 'r, 'o) saga_deps \<Rightarrow> ('c, 'o) saga_world saga_step list" where
  "restore_project E = [saga_named ''allocate_node'' (allocate_step E), saga_named ''create_volume'' (create_volume_step E),
     saga_named ''create_network'' (create_network_step E), saga_named ''restore_into_volume'' (restore_into_volume_step E),
     saga_named ''recover_to_target'' (recover_to_target_step E), saga_named ''reset_restored_credentials'' (reset_restored_step E),
     saga_named ''configure_backups'' (configure_backups_step E), saga_named ''verify_archiving'' (verify_archiving_step E),
     saga_named ''write_connection'' (write_connection_step E), saga_named ''mark_restored'' (mark_restored_step E)]"

definition backup_project :: "('c, 'r, 'o) saga_deps \<Rightarrow> ('c, 'o) saga_world saga_step list" where
  "backup_project E = [saga_named ''plan_backup'' (plan_backup_step E), saga_named ''take_backup'' (take_backup_step E)]"

definition pause_project :: "('c, 'r, 'o) saga_deps \<Rightarrow> ('c, 'o) saga_world saga_step list" where
  "pause_project E = [saga_named ''mark_pausing'' (mark_pausing_step E), saga_named ''final_backup'' (final_backup_step E),
     saga_named ''checkpoint_and_stop'' (checkpoint_and_stop_step E), saga_named ''remove_paused_containers'' (remove_paused_step E),
     saga_named ''mark_paused'' (mark_paused_step E)]"

definition resume_project :: "('c, 'r, 'o) saga_deps \<Rightarrow> ('c, 'o) saga_world saga_step list" where
  "resume_project E = [saga_named ''mark_resuming'' (mark_resuming_step E), saga_named ''create_network'' (create_network_step E),
     saga_named ''start_container'' (start_container_step E), saga_named ''wait_healthy'' (wait_healthy_step E),
     saga_named ''configure_backups'' (configure_backups_step E), saga_named ''verify_archiving'' (verify_archiving_step E),
     saga_named ''start_pooler'' (start_pooler_step E), saga_named ''wait_pooler_healthy'' (wait_pooler_healthy_step E),
     saga_named ''start_postgrest'' (start_postgrest_step E), saga_named ''wait_postgrest_healthy'' (wait_postgrest_healthy_step E),
     saga_named ''mark_resumed'' (mark_resumed_step E)]"

definition rotate_credentials :: "('c, 'r, 'o) saga_deps \<Rightarrow> ('c, 'o) saga_world saga_step list" where
  "rotate_credentials E = [saga_named ''rotate_developer_password'' (rotate_developer_step E),
     saga_named ''terminate_old_sessions'' (terminate_sessions_step E), saga_named ''purge_retired_credential'' (purge_retired_step E)]"

definition purge_project :: "('c, 'r, 'o) saga_deps \<Rightarrow> ('c, 'o) saga_world saga_step list" where
  "purge_project E = [saga_named ''verify_purgeable'' (verify_purgeable_step E), saga_named ''remove_container'' (remove_container_step E),
     saga_named ''remove_network'' (remove_network_step E), saga_named ''remove_volume'' (remove_volume_step E),
     saga_named ''schedule_repo_destruction'' (schedule_repo_step E), saga_named ''delete_credentials'' (delete_credentials_step E),
     saga_named ''release_capacity'' (release_step E), saga_named ''verify_gone'' (verify_gone_step E),
     saga_named ''mark_deleted'' (mark_deleted_step E)]"

definition build_sagas :: "('c, 'r, 'o) saga_deps \<Rightarrow> string \<Rightarrow> ('c, 'o) saga_world saga_step list option" where
  "build_sagas E = map_of
     [(''provision_project'', provision_project E), (''delete_project'', delete_project E), (''restore_project'', restore_project E),
      (''backup_project'', backup_project E), (''pause_project'', pause_project E), (''resume_project'', resume_project E),
      (''rotate_credentials'', rotate_credentials E), (''purge_project'', purge_project E)]"

end
