(* ===== verification/SagaSafety.thy ===== *)
theory SagaSafety
  imports Sagas
begin

text \<open>
  What the steps of theory \<open>Sagas\<close> ask of the node, and how long they wait.

  The first half shows, step by step, that only \<open>remove_volume\<close> asks for a volume to be deleted (\<open>harmless\<close>), and lifts that to
  runs of a saga. The second half shows that every polling loop is over within the rounds that theory \<open>Sagas\<close> gives it.
  The samples at the end are shared with theory \<open>SagaRuns\<close>.
\<close>

subsection \<open>Deeds of a step\<close>

named_theorems saga_did

lemma did_quiet: "(\<And>w. ho_trace (snd (m w)) = ho_trace w) \<Longrightarrow> always (did P) m"
  by (simp add: always_def did_def)

lemma did_tables [saga_did]:
  "always (did P) (in_keys E k)" "always (did P) (in_place E d)" "always (did P) (write_project c f)"
  "always (did P) (update_ids p g)" "always (did P) (set_database_status p s)" "always (did P) (open_run E p i kd)"
  "always (did P) (close_run E n st made)" "always (did P) (record_repo p b dl u)" "always (did P) (update_restore p h)"
  by (rule did_quiet, auto simp: in_keys_def in_place_def write_project_def update_ids_def set_database_status_def open_run_def
      close_run_def record_repo_def update_restore_def modifies_def Let_def split: prod.splits sum.splits)+

lemma did_now [saga_did]: "always (did P) (\<lambda>w. in_place E (m w) w)"
  by (rule did_quiet) (auto simp: in_place_def split: prod.splits sum.splits)

lemma did_modifies [saga_did]: "always (did P) (modifies (\<lambda>w. w\<lparr>sw_ids := i w\<rparr>))"
  by (rule did_quiet) (simp add: modifies_def)

lemma did_on_host [saga_did]: "always (did P) m \<Longrightarrow> always (did P) (on_host m)"
  unfolding on_host_def by (rule deeds.always_lift_error)

lemma did_reads [saga_did]:
  "always (did P) (load_project p)" "always (did P) (load_placement p)" "always (did P) (require_docker E)"
  "always (did P) (require_secrets E)" "always (did P) (admin_endpoint m)" "always (did P) (pooler_endpoint m)"
  "always (did P) (stored E p n)" "always (did P) (bootstrap E p)" "always (did P) (superuser_candidates E p)"
  unfolding load_project_def load_placement_def require_docker_def require_secrets_def admin_endpoint_def pooler_endpoint_def
    stored_def bootstrap_def superuser_candidates_def Let_def
  by (auto intro!: deeds.always_intros saga_did split: option.splits)

lemma did_ensure [saga_did]: "always (did P) (ensure_all E p ws)"
  by (induction E p ws rule: ensure_all.induct) (auto intro!: deeds.always_intros saga_did split: prod.splits)

lemma did_project_jwks [saga_did]: "always (did P) (project_jwks E p)"
  unfolding project_jwks_def Let_def by (auto intro!: deeds.always_intros saga_did)

lemma did_each: "(\<And>x. x \<in> set xs \<Longrightarrow> always (did P) (f x)) \<Longrightarrow> always (did P) (each f xs)"
  unfolding each_def by (rule deeds.always_in_turn) auto

definition harmless :: "deed \<Rightarrow> bool" where
  \<comment> \<open>it deletes no volume: none by name, and none together with a container\<close>
  "harmless d = (case d of VolumeDelete _ \<Rightarrow> False | ContainerDelete c _ v \<Rightarrow> \<not> v \<or> take 11 c = ''sh-restore-'' | _ \<Rightarrow> True)"

lemma harmless_calls [saga_did]:
  "always (did harmless) (image_exists D n)" "always (did harmless) (volume_exists D n)" "always (did harmless) (create_volume D n l)"
  "always (did harmless) (network_exists D n)" "always (did harmless) (create_network D n l)" "always (did harmless) (remove_network D n)"
  "always (did harmless) (inspect_container D n)" "always (did harmless) (create_container D n sp)" "always (did harmless) (start_container D n)"
  "always (did harmless) (stop_container D n)" "always (did harmless) (remove_container D n b False)"
  "always (did harmless) (remove_container D (restore_probe_name ref) b v)"
  "always (did harmless) (set_restart_policy D n pol)" "always (did harmless) (list_containers D n)" "always (did harmless) (container_logs D n)"
  by (auto intro!: deeds.always_client simp: harmless_def restore_probe_name_def)

lemma harmless_execs [simp]: "deeds.execs harmless c cmd" "deeds.repo_execs harmless c" "deeds.sql_deeds harmless ep"
  by (simp_all add: deeds.execs_def deeds.repo_execs_def deeds.sql_deeds_def harmless_def)

lemma harmless_runs [saga_did]:
  "always (did harmless) (docker_exec D c cmd)" "always (did harmless) (exec_capture D c cmd t)"
  "always (did harmless) (write_conf D b c conf)" "always (did harmless) (stanza_create D c)" "always (did harmless) (backup_check D c)"
  "always (did harmless) (backup_info D rd c)" "always (did harmless) (take_backup D c k)" "always (did harmless) (restore_repo D sh c tgt)"
  "always (did harmless) (connect_as_superuser D ep ps)" "always (did harmless) (query D ep sql params)" "always (did harmless) (run_sql D ep sql)"
  "always (did harmless) (audit_image_roles D ep)" "always (did harmless) (set_role_password D ep role pw)"
  "always (did harmless) (ensure_developer_role D ep)" "always (did harmless) (ensure_storage_ownership D ep)" "always (did harmless) (ensure_admin_role D ep)"
  by (rule deeds.always_exec deeds.always_backups deeds.always_sql, simp)+

lemma harmless_asked [saga_did]: "always (did harmless) (asked D (HttpGet u) f)" "always (did harmless) (told D (PgConnect a b u pw))"
  by (auto intro!: deeds.always_asked simp: harmless_def)

lemma harmless_sleep [saga_did]: "always (did P) (sleep D n)"
  by (rule deeds.always_sleep)

lemma harmless_superuser: "(\<And>ep. always (did harmless) (body ep)) \<Longrightarrow> always (did harmless) (as_superuser E m p body)"
  unfolding as_superuser_def by (auto intro!: deeds.always_intros saga_did)

lemma harmless_parts [saga_did]:
  "always (did harmless) (ensure_network E ref)" "always (did harmless) (found_again E n)" "always (did harmless) (running E c)"
  "always (did harmless) (database_spec_for E e m wt nw)" "always (did harmless) (networked_spec E e m)" "always (did harmless) (quiet_stop E i)"
  "always (did harmless) (apply_passwords E ep rs)" "always (did harmless) (write_source_repo_conf E cn src)"
  "always (did harmless) (recovery_state E ep pws)" "always (did harmless) (forget_containers p)"
  unfolding ensure_network_def found_again_def running_def database_spec_for_def networked_spec_def quiet_stop_def apply_passwords_def
    write_source_repo_conf_def recovery_state_def forget_containers_def
  by (auto intro!: deeds.always_intros saga_did did_each split: option.splits)

lemma harmless_present: "always (did harmless) spec \<Longrightarrow> always (did harmless) (present_container E n spec)"
  unfolding present_container_def by (auto intro!: deeds.always_intros saga_did split: option.splits)

lemma harmless_loops [saga_did]:
  "always (did harmless) (healthy_loop E p i dl n)" "always (did harmless) (recovery_loop E ep pws dl n st)"
  "always (did harmless) (promotion_loop E ep pws n)"
proof -
  show "always (did harmless) (healthy_loop E p i dl n)"
    by (induction n) (auto intro!: deeds.always_intros saga_did split: option.splits)
  show "always (did harmless) (recovery_loop E ep pws dl n st)"
    by (induction n arbitrary: st) (auto simp: Let_def intro!: deeds.always_intros saga_did split: option.splits)
  show "always (did harmless) (promotion_loop E ep pws n)"
    by (induction n) (auto intro!: deeds.always_intros saga_did)
qed

lemma did_poll: "always (did P) body \<Longrightarrow> always (did P) (poll_until D ms body dl n)"
  by (induction n) (auto intro!: deeds.always_intros saga_did split: poll_verdict.splits)

lemma harmless_probes [saga_did]: "always (did harmless) (pooler_probe E e m pw)" "always (did harmless) (postgrest_probe E n url)"
  unfolding pooler_probe_def postgrest_probe_def
  by (auto intro!: deeds.always_intros saga_did split: option.splits)

lemma harmless_cleanup: "always (did harmless) m \<Longrightarrow> always (did harmless) c \<Longrightarrow> always (did harmless) (with_cleanup m c)"
proof (unfold always_def, intro allI)
  fix w assume m: "\<forall>w. did harmless w (snd (m w))" and c: "\<forall>w. did harmless w (snd (c w))"
  have "snd (with_cleanup m c w) = snd (c (snd (m w)))" by (simp add: with_cleanup_def split: prod.splits)
  then show "did harmless w (snd (with_cleanup m c w))" using m c deeds.chain by metis
qed

lemmas harmless_intros = deeds.always_intros saga_did harmless_superuser harmless_present did_poll harmless_cleanup did_each

lemma harmless_provision [saga_did]:
  "always (did harmless) (allocate_step E j)" "always (did harmless) (create_volume_step E j)" "always (did harmless) (create_network_step E j)"
  "always (did harmless) (start_container_step E j)" "always (did harmless) (wait_healthy_step E j)" "always (did harmless) (configure_backups_step E j)"
  "always (did harmless) (verify_archiving_step E j)" "always (did harmless) (create_base_roles_step E j)"
  "always (did harmless) (store_credentials_step E j)" "always (did harmless) (generate_api_keys_step E j)"
  unfolding allocate_step_def create_volume_step_def create_network_step_def start_container_step_def wait_healthy_step_def
    configure_backups_step_def verify_archiving_step_def create_base_roles_step_def store_credentials_step_def generate_api_keys_step_def Let_def
  by (auto intro!: harmless_intros split: option.splits prod.splits)

lemma harmless_sidecars [saga_did]:
  "always (did harmless) (start_pooler_step E j)" "always (did harmless) (wait_pooler_healthy_step E j)"
  "always (did harmless) (start_postgrest_step E j)" "always (did harmless) (wait_postgrest_healthy_step E j)"
  "always (did harmless) (write_connection_step E j)" "always (did harmless) (mark_ready_step E j)"
  unfolding start_pooler_step_def wait_pooler_healthy_step_def start_postgrest_step_def wait_postgrest_healthy_step_def
    write_connection_step_def mark_ready_step_def Let_def
  by (auto intro!: harmless_intros split: option.splits prod.splits)

lemma harmless_deletion [saga_did]:
  "always (did harmless) (plan_backup_step E j)" "always (did harmless) (take_backup_step E j)" "always (did harmless) (final_backup_step E j)"
  "always (did harmless) (disable_api_step E j)" "always (did harmless) (disable_writes_step E j)" "always (did harmless) (stop_container_step E j)"
  "always (did harmless) (stop_pooler_step E j)" "always (did harmless) (stop_postgrest_step E j)" "always (did harmless) (remove_network_step E j)"
  "always (did harmless) (mark_soft_deleted_step E j)"
  unfolding plan_backup_step_def take_backup_step_def final_backup_step_def disable_api_step_def disable_writes_step_def
    stop_container_step_def stop_pooler_step_def stop_postgrest_step_def stop_sidecar_def remove_network_step_def mark_soft_deleted_step_def Let_def
  by (auto intro!: harmless_intros split: option.splits prod.splits)

lemma harmless_restore [saga_did]:
  "always (did harmless) (restore_into_volume_step E j)" "always (did harmless) (recover_to_target_step E j)"
  "always (did harmless) (reset_restored_step E j)" "always (did harmless) (mark_restored_step E j)"
  unfolding restore_into_volume_step_def fill_volume_def recover_to_target_step_def promote_at_target_def reset_restored_step_def
    mark_restored_step_def Let_def
  by (auto intro!: harmless_intros split: option.splits prod.splits)

lemma harmless_pause [saga_did]:
  "always (did harmless) (mark_pausing_step E j)" "always (did harmless) (checkpoint_and_stop_step E j)" "always (did harmless) (remove_paused_step E j)"
  "always (did harmless) (mark_paused_step E j)" "always (did harmless) (mark_resuming_step E j)" "always (did harmless) (mark_resumed_step E j)"
  "always (did harmless) (rotate_developer_step E j)" "always (did harmless) (terminate_sessions_step E j)" "always (did harmless) (purge_retired_step E j)"
  unfolding mark_pausing_step_def checkpoint_and_stop_step_def interlocked_backup_def remove_paused_step_def mark_paused_step_def mark_resuming_step_def
    mark_resumed_step_def rotate_developer_step_def terminate_sessions_step_def purge_retired_step_def Let_def
  by (auto intro!: harmless_intros split: option.splits prod.splits)

lemma other_sagas_are_harmless:
  assumes "build_sagas E n = Some steps" "n \<noteq> ''purge_project''" "s \<in> set steps"
  shows "always (did harmless) (sg_run s j)"
  using assms
  by (auto simp: build_sagas_def provision_project_def delete_project_def restore_project_def backup_project_def pause_project_def
      resume_project_def rotate_credentials_def saga_named_def intro!: saga_did split: if_splits)

subsection \<open>Runs of a saga\<close>

lemma run_steps_always:
  assumes "effect_order R" "\<And>s. s \<in> set ss \<Longrightarrow> sg_name s \<notin> set finished \<Longrightarrow> always R (sg_run s job)"
  shows "R w (snd (snd (snd (run_steps repo job finished ss (t, w)))))"
  using assms(2)
proof (induction ss arbitrary: finished t w)
  case Nil then show ?case using assms(1) by (simp add: effect_order_def)
next
  case (Cons s ss)
  show ?case
  proof (cases "sg_name s \<in> set finished")
    case True then show ?thesis using Cons by simp
  next
    case False
    obtain r w1 where r: "sg_run s job w = (r, w1)" by fastforce
    have one: "R w w1" using Cons.prems[of s] False r by (auto simp: always_def dest: spec[of _ w])
    then show ?thesis
    proof (cases r)
      case (Inl e) then show ?thesis using r False one by simp
    next
      case (Inr u)
      have "R w1 (snd (snd (snd (run_steps repo job (finished @ [sg_name s]) ss (jr_save repo (jb_id job) (finished @ [sg_name s]) t, w1)))))"
        by (rule Cons.IH) (use Cons.prems in auto)
      then have "R w (snd (snd (snd (run_steps repo job (finished @ [sg_name s]) ss (jr_save repo (jb_id job) (finished @ [sg_name s]) t, w1)))))"
        using one assms(1) unfolding effect_order_def by blast
      then show ?thesis using r Inr False by (auto split: prod.splits)
    qed
  qed
qed


lemma run_steps_app:
  "run_steps repo job finished (ss @ [s]) (t, w) = (None, names, t', w') \<Longrightarrow> sg_name s \<notin> set finished \<Longrightarrow>
    sg_name s \<notin> set (map sg_name ss) \<Longrightarrow>
    (\<exists>names1 t1 w1. run_steps repo job finished ss (t, w) = (None, names1, t1, w1) \<and> sg_run s job w1 = (Inr (), w'))"
proof (induction ss arbitrary: finished t w names)
  case Nil then show ?case by (auto split: sum.splits prod.splits)
next
  case (Cons x ss)
  show ?case
  proof (cases "sg_name x \<in> set finished")
    case True then show ?thesis using Cons by auto
  next
    case False
    obtain r w1 where r: "sg_run x job w = (r, w1)" by fastforce
    then obtain u where u: "r = Inr u" using Cons.prems(1) False by (cases r) auto
    obtain names1 where n: "run_steps repo job (finished @ [sg_name x]) (ss @ [s]) (jr_save repo (jb_id job) (finished @ [sg_name x]) t, w1) = (None, names1, t', w')"
      using Cons.prems(1) False r u by (auto split: prod.splits)
    from Cons.IH[OF n] Cons.prems(2,3) obtain names2 t2 w2 where
      "run_steps repo job (finished @ [sg_name x]) ss (jr_save repo (jb_id job) (finished @ [sg_name x]) t, w1) = (None, names2, t2, w2)"
      "sg_run s job w2 = (Inr (), w')" by auto
    then show ?thesis using False r u by auto
  qed
qed

subsection \<open>Polling ends\<close>

lemma later_run: "outside_ok D \<Longrightarrow> always (later D) (docker_exec D c cmd)"
  by (rule host_order.always_exec[OF later_host]) (simp_all add: host_order.execs_def[OF later_host])

lemmas later_call = host_order.always_client[OF later_host, OF _ TrueI]
  host_order.always_asked[OF later_host, OF _ TrueI]

lemma later_same:
  assumes "always (later D) m" "\<And>a w'. clock D w \<le> clock D w' \<Longrightarrow> f a w' = g a w'"
  shows "and_then m f w = and_then m g w"
  using assms unfolding always_def later_def and_then_def by (auto split: prod.splits sum.splits) (metis snd_conv)

lemma later_sleep: "outside_ok D \<Longrightarrow> clock D w + n \<le> clock D (slept D n w)"
  by (simp add: outside_ok_def clock_def slept_def)

lemma later_on_host: "always (later D) m \<Longrightarrow> always (later D) (on_host m)"
  by (simp add: always_def on_host_def) 

lemma later_caught: "always (later D) m \<Longrightarrow> always (later D) (caught m (\<lambda>_. ret a))"
  by (auto simp: always_def caught_def ret_def split: prod.splits sum.splits) (metis snd_conv)+

lemma if_same: "(b \<Longrightarrow> x w = x' w) \<Longrightarrow> (\<not> b \<Longrightarrow> y w = y' w) \<Longrightarrow> (if b then x else y) w = (if b then x' else y') w"
  by simp

lemma later_sql:
  assumes D: "outside_ok D"
  shows "always (later D) (connect_as_superuser D ep ps)" "always (later D) (query D ep sql params)"
  by (rule host_order.always_sql[OF later_host[OF D]], simp add: host_order.sql_deeds_def[OF later_host[OF D]])+

lemma later_recovery: "outside_ok (dp_out E) \<Longrightarrow>
    always (later (dp_out E)) (caught (and_then (recovery_state E ep pws) (\<lambda>s. ret (Some s))) (\<lambda>_. ret None))"
  unfolding recovery_state_def
  by (intro later_caught effect_order.always_intros[OF later_order]) (auto intro!: later_on_host later_sql effect_order.always_intros[OF later_order] split: option.splits)

lemma healthy_loop_rounds:
  assumes D: "outside_ok (dp_out E)"
  shows "deadline < clock (dp_out E) w + 500 * n \<Longrightarrow> healthy_loop E p i deadline (Suc n + k) w = healthy_loop E p i deadline (Suc n) w"
proof (induction n arbitrary: w)
  case 0
  show ?case unfolding add_Suc healthy_loop.simps
    by (intro later_same[OF later_caught[OF later_on_host[OF later_run[OF D]]]] if_same later_same[OF later_on_host[OF later_call(8)[OF D]]])
      (use 0 in \<open>auto simp: and_then_def gets_def now_of_def throw_def split: option.splits\<close>)
next
  case (Suc n)
  have "deadline < clock (dp_out E) (slept (dp_out E) 500 w2) + 500 * n" if "clock (dp_out E) w \<le> clock (dp_out E) w2" for w2
    using Suc.prems later_sleep[OF D, of w2 500] that by simp
  note IH = Suc.IH[OF this]
  show ?case unfolding add_Suc healthy_loop.simps(2)[of _ _ _ _ "Suc (n + k)"] healthy_loop.simps(2)[of _ _ _ _ "Suc n"]
    by (intro later_same[OF later_caught[OF later_on_host[OF later_run[OF D]]]] if_same later_same[OF later_on_host[OF later_call(8)[OF D]]])
      (use IH in \<open>auto simp: and_then_def gets_def now_of_def throw_def sleep_def modifies_def simp del: healthy_loop.simps(2) split: option.splits\<close>)
qed

lemma poll_until_rounds:
  assumes D: "outside_ok D" and body: "always (later D) body"
  shows "deadline < clock D w + pause * n + 1 \<Longrightarrow> poll_until D pause body deadline (Suc n + k) w = poll_until D pause body deadline (Suc n) w"
proof (induction n arbitrary: w)
  case 0 then show ?case by (simp add: and_then_def gets_def)
next
  case (Suc n)
  have "deadline < clock D (slept D pause w2) + pause * n + 1" if "clock D w \<le> clock D w2" for w2
    using Suc.prems later_sleep[OF D, of w2 pause] that by simp
  note IH = Suc.IH[OF this]
  have "and_then body (\<lambda>v. case v of Finished a \<Rightarrow> ret (Some a)
         | Again \<Rightarrow> and_then (sleep D pause) (\<lambda>_. poll_until D pause body deadline (Suc n + k))) w =
      and_then body (\<lambda>v. case v of Finished a \<Rightarrow> ret (Some a)
         | Again \<Rightarrow> and_then (sleep D pause) (\<lambda>_. poll_until D pause body deadline (Suc n))) w"
    by (intro later_same[OF body])
      (use IH in \<open>auto simp: and_then_def sleep_def modifies_def simp del: poll_until.simps(2) split: poll_verdict.splits\<close>)
  then show ?case unfolding add_Suc poll_until.simps(2)[of _ _ _ _ "Suc (n + k)"] poll_until.simps(2)[of _ _ _ _ "Suc n"]
    by (simp add: and_then_def gets_def del: poll_until.simps(2))
qed

lemma recovery_loop_rounds:
  assumes D: "outside_ok (dp_out E)"
  shows "deadline < clock (dp_out E) w + 1000 * n + 1 \<Longrightarrow>
    recovery_loop E ep pws deadline (Suc n + k) st w = recovery_loop E ep pws deadline (Suc n) st w"
proof (induction n arbitrary: w st)
  case 0 then show ?case by (simp add: and_then_def gets_def now_of_def)
next
  case (Suc n)
  have "deadline < clock (dp_out E) (slept (dp_out E) 1000 w2) + 1000 * n + 1" if "clock (dp_out E) w \<le> clock (dp_out E) w2" for w2
    using Suc.prems later_sleep[OF D, of w2 1000] that by simp
  note IH = Suc.IH[OF this]
  show ?case unfolding add_Suc recovery_loop.simps(2)[of _ _ _ _ "Suc (n + k)"] recovery_loop.simps(2)[of _ _ _ _ "Suc n"]
    unfolding and_then_def[of "gets (now_of E)"] gets_def
    apply (simp del: recovery_loop.simps(2))
    apply (intro impI later_same[OF later_recovery[OF D]])
    apply (use IH in \<open>auto simp: Let_def and_then_def sleep_def modifies_def simp del: recovery_loop.simps(2) split: option.splits\<close>)
    done
qed

lemma later_probes:
  assumes D: "outside_ok (dp_out E)"
  shows "always (later (dp_out E)) (pooler_probe E e m pw)" "always (later (dp_out E)) (postgrest_probe E n url)"
proof -
  note i = effect_order.always_intros[OF later_order] later_on_host later_call[OF D] later_sql[OF D]
  show "always (later (dp_out E)) (pooler_probe E e m pw)"
    unfolding pooler_probe_def pooler_endpoint_def by (auto intro!: i split: option.splits)
  show "always (later (dp_out E)) (postgrest_probe E n url)"
    unfolding postgrest_probe_def by (auto intro!: i split: option.splits)
qed

lemma rounds_enough: "rounds ms = Suc (ms div 500 + 1)" "ms < 500 * (ms div 500 + 1)" "ms < 1000 * (ms div 500 + 1)"
proof -
  have "ms < 500 * (ms div 500 + 1)" by (simp add: dividend_less_times_div)
  then show "ms < 500 * (ms div 500 + 1)" "ms < 1000 * (ms div 500 + 1)" by simp_all
qed (simp add: rounds_def)

text \<open>
  C11. Every wait of the sagas ends: when the clock does not go back and a timer does not fire early, the loops that
  wait for a database, for a pooler, for the data API and for a recovery are over within the rounds the model
  gives them. More rounds change nothing, whatever the node answers.
\<close>

theorem polling_ends:
  assumes "outside_ok (dp_out E)"
  shows "(let now = now_of E w; n = rounds ms in
    healthy_loop E p i (now + ms) (n + k) w = healthy_loop E p i (now + ms) n w \<and>
    poll_until (dp_out E) 500 (pooler_probe E e m pw) (now + ms) (n + k) w = poll_until (dp_out E) 500 (pooler_probe E e m pw) (now + ms) n w \<and>
    poll_until (dp_out E) 500 (postgrest_probe E nm url) (now + ms) (n + k) w = poll_until (dp_out E) 500 (postgrest_probe E nm url) (now + ms) n w \<and>
    recovery_loop E ep pws (now + ms) (n + k) st w = recovery_loop E ep pws (now + ms) n st w)"
proof -
  have now: "now_of E w = clock (dp_out E) w" by (simp add: now_of_def)
  have "ms < Suc (500 * Suc (ms div 500))" "ms < 500 * Suc (ms div 500)" "ms < Suc (1000 * Suc (ms div 500))"
    using rounds_enough[of ms] by simp_all
  then show ?thesis
    using healthy_loop_rounds[OF assms, of "now_of E w + ms" w "ms div 500 + 1" p i k]
      poll_until_rounds[OF assms later_probes(1)[OF assms], of "now_of E w + ms" w 500 "ms div 500 + 1" e m pw k]
      poll_until_rounds[OF assms later_probes(2)[OF assms], of "now_of E w + ms" w 500 "ms div 500 + 1" nm url k]
      recovery_loop_rounds[OF assms, of "now_of E w + ms" w "ms div 500 + 1" ep pws k st]
    unfolding Let_def rounds_enough(1) now by simp
qed

subsection \<open>Samples\<close>

definition bare_node :: "nat outside" where
  \<comment> \<open>nothing is on it, and it does what it is told; its state is the time\<close>
  "bare_node = \<lparr>out_do = (\<lambda>d t. (case d of ContainerList _ \<Rightarrow> Inr (GotContainers []) | VolumeJson n \<Rightarrow> Inl (Refused 404 ''no such volume'')
       | NetworkJson n \<Rightarrow> Inl (Refused 404 ''no such network'') | ContainerJson n \<Rightarrow> Inl (Refused 404 ''no such container'')
       | _ \<Rightarrow> Inr GotNothing, t)),
     out_now = (\<lambda>t. t), out_sleep = (\<lambda>n t. t + n)\<rparr>"

definition bare_deps :: "'o outside \<Rightarrow> (string, unit, 'o) saga_deps" where
  "bare_deps D = \<lparr>dp_out = D, dp_docker = True, dp_secrets = True, dp_keys = sample_keys_env, dp_bootstrap = [], dp_region = None,
     dp_health_ms = None, dp_window_ms = 7 * DAY, dp_final_backup = True, dp_require_backups = True,
     dp_repo = Some \<lparr>rt_endpoint = ''s3'', rt_port = ''9000'', rt_bucket = ''repos'', rt_key = ''k'', rt_secret = ''s'', rt_region = ''eu'',
       rt_host_style = False, rt_verify_tls = True\<rparr>,
     dp_place = default_place_cfg, dp_collate = (\<lambda>_. 0), dp_io_device = None, dp_io_weight = False, dp_hmac = (\<lambda>k s. s), dp_b64 = id,
     dp_uri = id, dp_jwks_text = (\<lambda>_. []), dp_read_info = (\<lambda>_. None), dp_show_time = (\<lambda>_. []), dp_drawn = (\<lambda>n. n), dp_pair = 0,
     dp_kid = ''kid1'', dp_terminate = (\<lambda>_. True)\<rparr>"

definition bare_entry :: "project_status \<Rightarrow> project_entry" where
  "bare_entry s = \<lparr>pe_id = ''p'', pe_ref = ''ref'', pe_name = ''shop'', pe_org = ''o'', pe_region = ''eu'', pe_plan = ''free'',
     pe_environment = ''production'', pe_status = s, pe_created = 0, pe_deleted_at = Some 0, pe_purge_after = Some 100\<rparr>"

definition bare_world :: "'o \<Rightarrow> project_status \<Rightarrow> (string, 'o) saga_world" where
  "bare_world out s = \<lparr>ho_out = out, ho_trace = [], sw_projects = [bare_entry s], sw_place = \<lparr>pn_nodes = [], pn_rows = [], pn_now = 0\<rparr>,
     sw_ids = (\<lambda>_. blank_ids), sw_keys = keyless_project None, sw_backups = [], sw_restores = [], sw_repos = []\<rparr>"

definition saga_job :: "string \<Rightarrow> job_row" where
  "saga_job type = \<lparr>jb_id = ''j'', jb_project = Some ''p'', jb_type = type, jb_key = ''k'', jb_state = Running, jb_attempts = 1, jb_max = 3,
     jb_checkpoint = None, jb_error = None, jb_heartbeat = None, jb_scheduled = 0, jb_started = None, jb_finished = None, jb_created = 0\<rparr>"

theorem polling_ends_witness:
  "healthy_loop (bare_deps bare_node) ''p'' ''c'' (5 + 1000) (rounds 1000 + 7) (bare_world 5 StReady) =
    healthy_loop (bare_deps bare_node) ''p'' ''c'' (5 + 1000) (rounds 1000) (bare_world 5 StReady)"
  using polling_ends[of "bare_deps bare_node" "bare_world 5 StReady" 1000 "''p''" "''c''" 7]
  by (simp add: Let_def now_of_def clock_def outside_ok_def bare_deps_def bare_node_def bare_world_def split: deed.splits)

end
