(* ===== verification/Reconcile.thy ===== *)
theory Reconcile
  imports SagaSafety Sweeper "HOL-Library.AList"
begin

text \<open>
  Node reconciliation, \<open>services/worker/src/reconcile.ts\<close>: what the control plane wants of a node against what is on it.

  A state is the world of the sagas beside the job table and the queue of theory \<open>Jobs\<close>, under one clock, the outside's.
  Of a drift the class, the ref and the action are kept, of the details nothing; the column \<open>updated_at\<close> of a
  project, which the sagas here do not carry, is an argument, and the report that is stored on the node is the result.
  Random ids are a function of the idempotency key.

  Proved: a sweep never destroys anything. And where it works against the rest of the program: it books the memory of
  paused projects again, it stops the database of a project that is being paused before its last backup, and
  a project it repaired once is never repaired again.
\<close>

subsection \<open>The world of a scan\<close>

record ('c, 'o, 'q) scan_world =
  sn_saga :: "('c, 'o) saga_world"
  sn_jobs :: job_db
  sn_queue :: 'q

type_synonym ('c, 'o, 'q, 'a) scan = "(('c, 'o, 'q) scan_world, string, 'a) eff"

definition in_saga :: "('c, 'o, 'a) saga \<Rightarrow> ('c, 'o, 'q, 'a) scan" where
  "in_saga m w = (case m (sn_saga w) of (r, s) \<Rightarrow> (r, w\<lparr>sn_saga := s\<rparr>))"

definition write_job :: "('c, 'r, 'o) saga_deps \<Rightarrow> (string \<Rightarrow> string) \<Rightarrow> string \<Rightarrow> string \<Rightarrow> string \<Rightarrow> ('c, 'o, 'q, string option) scan" where
  \<comment> \<open>the insert of a job for a project, \<open>None\<close> when its key is taken\<close>
  "write_job E new_id p type key w =
     (case insert_job (new_id key) p type key ((sn_jobs w)\<lparr>jd_now := now_of E (sn_saga w)\<rparr>) of
        (r, db) \<Rightarrow> (Inr r, w\<lparr>sn_jobs := db\<rparr>))"

definition hand_over :: "'q queue_ops \<Rightarrow> string \<Rightarrow> ('c, 'o, 'q, bool) scan" where
  "hand_over ops key w = (case enqueue_provisioning ops key (sn_queue w) of
     (Inl e, q) \<Rightarrow> (Inl ''invalid delivery id'', w\<lparr>sn_queue := q\<rparr>) | (Inr b, q) \<Rightarrow> (Inr b, w\<lparr>sn_queue := q\<rparr>))"

subsection \<open>Repairs\<close>

definition should_run :: "project_status \<Rightarrow> bool" where
  "should_run s = (s \<in> {StReady, StConfiguring, StResuming})"

definition should_not_run :: "project_status \<Rightarrow> bool" where
  "should_not_run s = (s \<in> {StSoftDeleted, StDeleted, StPaused, StPausing})"

definition REPAIR_LIMIT_PER_HOUR :: nat where "REPAIR_LIMIT_PER_HOUR = 3"
definition STUCK_TRANSITION_MINUTES :: nat where "STUCK_TRANSITION_MINUTES = 15"
definition HOUR :: nat where "HOUR = 3600000"

datatype drift_class =
    ContainerNotRunning | ZombieContainer | OrphanContainer | PoolerNotRunning | PostgrestNotRunning
  | UnknownContainerRole | StuckTransition | OrphanVolume | OrphanNetwork | ReservationDrift

datatype drift_action =
    RepairEnqueued | Stopped | AlertOnly | Recomputed | RepairLimitReached | DeferredSagaRunning

record drift =
  df_class :: drift_class
  df_ref :: "string option"
  df_action :: drift_action

definition drift_of :: "drift_class \<Rightarrow> string option \<Rightarrow> drift_action \<Rightarrow> drift" where
  "drift_of c r a = \<lparr>df_class = c, df_ref = r, df_action = a\<rparr>"

definition busy_with :: "string \<Rightarrow> job_row \<Rightarrow> bool" where
  "busy_with p r = (jb_project r = Some p \<and> jb_state r \<in> {Pending, Enqueued, Running})"

definition recent_repair :: "nat \<Rightarrow> string \<Rightarrow> job_row \<Rightarrow> bool" where
  \<comment> \<open>\<open>LIKE 'repair_%'\<close>, where the underscore stands for any character\<close>
  "recent_repair now p r = (jb_project r = Some p \<and> take 6 (jb_key r) = ''repair'' \<and> 6 < length (jb_key r) \<and> now < jb_created r + HOUR)"

definition repair_key :: "string \<Rightarrow> nat \<Rightarrow> string" where
  "repair_key p n = ''repair_'' @ p @ ''_'' @ string_of_nat n"

definition enqueue_repair :: "('c, 'r, 'o) saga_deps \<Rightarrow> 'q queue_ops \<Rightarrow> (string \<Rightarrow> string) \<Rightarrow> nat \<Rightarrow> string \<Rightarrow> ('c, 'o, 'q, drift_action) scan" where
  "enqueue_repair E ops new_id limit p =
     and_then (gets (\<lambda>w. list_ex (busy_with p) (jd_rows (sn_jobs w)))) (\<lambda>busy.
     if busy then ret DeferredSagaRunning
     else
       and_then (gets (\<lambda>w. length (filter (recent_repair (now_of E (sn_saga w)) p) (jd_rows (sn_jobs w))))) (\<lambda>attempts.
       if limit \<le> attempts
       then and_then (in_saga (write_project (\<lambda>e. pe_id e = p \<and> pe_status e \<noteq> StFailed) (\<lambda>e. e\<lparr>pe_status := StFailed\<rparr>))) (\<lambda>_.
         ret RepairLimitReached)
       else
         and_then (write_job E new_id p ''provision_project'' (repair_key p attempts)) (\<lambda>i. case i of
           None \<Rightarrow> ret RepairEnqueued
         | Some _ \<Rightarrow> and_then (caught (hand_over ops (repair_key p attempts)) (\<lambda>_. ret False)) (\<lambda>_. ret RepairEnqueued))))"

subsection \<open>What is on the node\<close>

type_synonym on_node = "(string \<times> container_summary) list"

record seen =
  se_database :: on_node
  se_pooler :: on_node
  se_postgrest :: on_node
  se_drift :: "drift list"

definition label :: "string \<Rightarrow> (string \<times> string) list \<Rightarrow> string option" where
  "label k labels = map_of labels k"

definition sort_container :: "seen \<Rightarrow> container_summary \<Rightarrow> seen" where
  \<comment> \<open>one pass of the loop over the listing; the last container of a role wins\<close>
  "sort_container s c = (case filled (label LABEL_REF (cm_labels c)) of
     None \<Rightarrow> s
   | Some ref \<Rightarrow>
       (let role = label LABEL_ROLE (cm_labels c) in
        if role = Some ''pooler'' then s\<lparr>se_pooler := AList.update ref c (se_pooler s)\<rparr>
        else if role = Some ''postgrest'' then s\<lparr>se_postgrest := AList.update ref c (se_postgrest s)\<rparr>
        else if role = Some ''database'' \<or> role = None then s\<lparr>se_database := AList.update ref c (se_database s)\<rparr>
        else s\<lparr>se_drift := se_drift s @ [drift_of UnknownContainerRole (Some ref) AlertOnly]\<rparr>))"

definition sort_containers :: "container_summary list \<Rightarrow> seen" where
  "sort_containers cs = foldl sort_container \<lparr>se_database = [], se_pooler = [], se_postgrest = [], se_drift = []\<rparr> cs"

definition up :: "on_node \<Rightarrow> string \<Rightarrow> bool" where
  "up l ref = (case map_of l ref of None \<Rightarrow> False | Some c \<Rightarrow> cm_running c)"

definition stop_zombie :: "('c, 'r, 'o) saga_deps \<Rightarrow> on_node \<Rightarrow> string \<Rightarrow> ('c, 'o, 'q, drift list) scan" where
  "stop_zombie E l ref = (case map_of l ref of
     None \<Rightarrow> ret []
   | Some c \<Rightarrow>
       if \<not> cm_running c then ret []
       else
         and_then (in_saga (swallowed (on_host (set_restart_policy (dp_out E) (cm_id c) ''no'')))) (\<lambda>_.
         and_then (in_saga (on_host (stop_container (dp_out E) (cm_id c)))) (\<lambda>_.
         ret [drift_of ZombieContainer (Some ref) Stopped])))"

subsection \<open>One project\<close>

type_synonym desired_row = "project_entry \<times> placement_row option"

definition desired_rows :: "('c, 'o) saga_world \<Rightarrow> desired_row list" where
  "desired_rows w = filter (\<lambda>(e, d). pe_status e \<noteq> StDeleted \<or> d \<noteq> None) (map (\<lambda>e. (e, placed_row (pe_id e) w)) (sw_projects w))"

definition repaired :: "('c, 'r, 'o) saga_deps \<Rightarrow> 'q queue_ops \<Rightarrow> (string \<Rightarrow> string) \<Rightarrow> nat \<Rightarrow> project_entry \<Rightarrow> drift_class \<Rightarrow> ('c, 'o, 'q, drift list) scan" where
  "repaired E ops new_id limit e c = and_then (enqueue_repair E ops new_id limit (pe_id e)) (\<lambda>a. ret [drift_of c (Some (pe_ref e)) a])"

definition check_project :: "('c, 'r, 'o) saga_deps \<Rightarrow> 'q queue_ops \<Rightarrow> (string \<Rightarrow> string) \<Rightarrow> nat \<Rightarrow> seen \<Rightarrow> desired_row \<Rightarrow> ('c, 'o, 'q, drift list) scan" where
  "check_project E ops new_id limit s row = (case row of (e, d) \<Rightarrow>
     (let st = pe_status e; ref = pe_ref e; db = up (se_database s) ref in
      and_then (if should_run st \<and> \<not> db then repaired E ops new_id limit e ContainerNotRunning else ret []) (\<lambda>d1.
      and_then (if should_run st \<and> db \<and> \<not> up (se_pooler s) ref then repaired E ops new_id limit e PoolerNotRunning else ret []) (\<lambda>d2.
      and_then (if should_run st \<and> db \<and> (case d of None \<Rightarrow> None | Some d \<Rightarrow> pd_pgrst d) \<noteq> None \<and> \<not> up (se_postgrest s) ref
          then repaired E ops new_id limit e PostgrestNotRunning else ret []) (\<lambda>d3.
      and_then (if should_not_run st then stop_zombie E (se_postgrest s) ref else ret []) (\<lambda>d4.
      and_then (if should_not_run st then stop_zombie E (se_pooler s) ref else ret []) (\<lambda>d5.
      and_then (if should_not_run st then stop_zombie E (se_database s) ref else ret []) (\<lambda>d6.
      ret (d1 @ d2 @ d3 @ d4 @ d5 @ d6)))))))))"

fun collected :: "('a \<Rightarrow> ('s, 'e, 'b list) eff) \<Rightarrow> 'a list \<Rightarrow> ('s, 'e, 'b list) eff" where
  "collected f [] = ret []"
| "collected f (x # xs) = and_then (f x) (\<lambda>l. and_then (collected f xs) (\<lambda>r. ret (l @ r)))"

subsection \<open>What nobody knows about\<close>

definition orphan_containers :: "seen \<Rightarrow> string list \<Rightarrow> drift list" where
  \<comment> \<open>of the databases and the poolers\<close>
  "orphan_containers s known = map (\<lambda>(ref, _). drift_of OrphanContainer (Some ref) AlertOnly)
     (filter (\<lambda>(ref, _). ref \<notin> set known) (se_database s @ se_pooler s))"

definition placed_refs :: "desired_row list \<Rightarrow> ('c, 'o) saga_world \<Rightarrow> string list" where
  \<comment> \<open>a column of a left join is \<open>null\<close> and never \<open>undefined\<close>, so the filter of the code keeps every row\<close>
  "placed_refs rows w = map (\<lambda>(e, _). pe_ref e) rows @
     map pe_ref (filter (\<lambda>e. placed_row (pe_id e) w \<noteq> None) (sw_projects w))"

definition orphans_among :: "drift_class \<Rightarrow> string list \<Rightarrow> (string \<times> (string \<times> string) list) list \<Rightarrow> drift list" where
  "orphans_among c placed things = concat (map (\<lambda>(n, labels).
     (case filled (label LABEL_REF labels) of
        Some ref \<Rightarrow> if ref \<in> set placed then [] else [drift_of c (Some ref) AlertOnly]
      | None \<Rightarrow> [drift_of c None AlertOnly])) things)"

definition transitional :: "project_status \<Rightarrow> bool" where
  "transitional s = (s \<in> {StCreating, StProvisioning, StConfiguring, StPausing, StResuming, StDeleting})"

definition stuck_projects :: "nat \<Rightarrow> (string \<Rightarrow> nat) \<Rightarrow> nat \<Rightarrow> ('c, 'o, 'q) scan_world \<Rightarrow> drift list" where
  \<comment> \<open>the minutes, \<open>updated_at\<close> and the time\<close>
  "stuck_projects minutes updated now w = map (\<lambda>e. drift_of StuckTransition (Some (pe_ref e)) AlertOnly)
     (filter (\<lambda>e. transitional (pe_status e) \<and> updated (pe_id e) + minutes * 60000 < now \<and>
        \<not> list_ex (busy_with (pe_id e)) (jd_rows (sn_jobs w))) (sw_projects (sn_saga w)))"

subsection \<open>The arithmetic of a node\<close>

definition expected_ram :: "string \<Rightarrow> ('c, 'o) saga_world \<Rightarrow> nat" where
  "expected_ram node w = sum_list (map (\<lambda>d. case entry_of (pd_project d) w of None \<Rightarrow> 0 | Some e \<Rightarrow> by_plan PLAN_RAM_MB (pe_plan e))
     (rows_on node (sw_place w)))"

definition recompute_node :: "('c, 'r, 'o) saga_deps \<Rightarrow> node_row \<Rightarrow> ('c, 'o, 'q, drift list) scan" where
  "recompute_node E n =
     and_then (gets (\<lambda>w. expected_ram (nd_id n) (sn_saga w))) (\<lambda>expected.
     if expected = nd_ram_reserved n then ret []
     else
       and_then (in_saga (in_place E (write_node (nd_id n) (\<lambda>r. r\<lparr>nd_ram_reserved := expected\<rparr>)))) (\<lambda>_.
       ret [drift_of ReservationDrift None Recomputed]))"

subsection \<open>One sweep\<close>

definition reconcile_once :: "('c, 'r, 'o) saga_deps \<Rightarrow> 'q queue_ops \<Rightarrow> (string \<Rightarrow> string) \<Rightarrow> string option \<Rightarrow> nat \<Rightarrow> nat
    \<Rightarrow> (string \<Rightarrow> nat) \<Rightarrow> ('c, 'o, 'q, drift list) scan" where
  \<comment> \<open>the host name it is for, the limit of repairs, the minutes of a stuck transition, \<open>updated_at\<close>\<close>
  "reconcile_once E ops new_id hostname limit minutes updated =
     and_then (gets (\<lambda>w. desired_rows (sn_saga w))) (\<lambda>rows.
     and_then (in_saga (on_host (list_containers (dp_out E) (LABEL_MANAGED @ ''=true'')))) (\<lambda>containers.
     let s = sort_containers containers in
     and_then (collected (check_project E ops new_id limit s) rows) (\<lambda>d1.
     and_then (in_saga (on_host (list_volumes (dp_out E)))) (\<lambda>volumes.
     and_then (gets (\<lambda>w. placed_refs rows (sn_saga w))) (\<lambda>placed.
     and_then (gets (\<lambda>w. stuck_projects minutes updated (now_of E (sn_saga w)) w)) (\<lambda>d4.
     and_then (in_saga (on_host (list_networks (dp_out E) (LABEL_MANAGED @ ''=true'')))) (\<lambda>networks.
     and_then (gets (\<lambda>w. filter (\<lambda>n. hostname = None \<or> hostname = Some (nd_host n)) (pn_nodes (sw_place (sn_saga w))))) (\<lambda>nodes.
     and_then (collected (recompute_node E) nodes) (\<lambda>d6.
     ret (se_drift s @ d1 @ orphan_containers s (map (\<lambda>(e, _). pe_ref e) rows) @ orphans_among OrphanVolume placed volumes @ d4 @
       orphans_among OrphanNetwork placed networks @ d6))))))))))"

end
