(* ===== verification/Scans.thy ===== *)
theory Scans
  imports Reconcile
begin

text \<open>
  The scans that create work: base backups by the clock (\<open>services/worker/src/backup-scan.ts\<close>), restored copies past their
  deadline (\<open>restore-expiry.ts\<close>), and the pause of projects nobody uses (\<open>idle-scan.ts\<close>). Each decides that a project is due,
  writes a job row under a key that makes the decision once, and delivers it.

  A state is the world of a scan of theory \<open>Reconcile\<close> with two columns more. What a scan counts is its result; of what it
  saw, the texts are left out. The digest that spreads the backups, the time zone, and the shape in which the pooler's
  console and the Engine's networks arrive are parameters.

  Proved: a failed probe never pauses a project, and only copies past their deadline expire. And what the keys and the order of
  the candidates do: a project is paused for idleness once, and fifty projects whose backups fail stop those of the fleet.
\<close>

subsection \<open>One sweep over its candidates\<close>

record ('c, 'o, 'q) fleet_world =
  fw_scan :: "('c, 'o, 'q) scan_world"
  fw_active :: "string \<Rightarrow> nat option" \<comment> \<open>\<open>project_databases.last_active_at\<close>\<close>
  fw_expires :: "string \<Rightarrow> nat option" \<comment> \<open>\<open>project_restores.expires_at\<close>\<close>

type_synonym ('c, 'o, 'q, 'a) sweep = "(('c, 'o, 'q) fleet_world, string, 'a) eff"

abbreviation fw_saga :: "('c, 'o, 'q) fleet_world \<Rightarrow> ('c, 'o) saga_world" where
  "fw_saga w \<equiv> sn_saga (fw_scan w)"

definition in_scan :: "('c, 'o, 'q, 'a) scan \<Rightarrow> ('c, 'o, 'q, 'a) sweep" where
  "in_scan m w = (case m (fw_scan w) of (r, s) \<Rightarrow> (r, w\<lparr>fw_scan := s\<rparr>))"

fun each_row :: "('r \<Rightarrow> 'a \<Rightarrow> ('s, 'e, 'r) eff) \<Rightarrow> 'r \<Rightarrow> 'a list \<Rightarrow> ('s, 'e, 'r) eff" where
  \<comment> \<open>a loop with a tally\<close>
  "each_row f r [] = ret r"
| "each_row f r (x # xs) = and_then (f r x) (\<lambda>r. each_row f r xs)"

definition nulls_first :: "nat option \<Rightarrow> nat" where
  "nulls_first x = (case x of None \<Rightarrow> 0 | Some t \<Rightarrow> Suc t)"

definition latest :: "nat list \<Rightarrow> nat option" where
  "latest ts = (if ts = [] then None else Some (foldl max 0 ts))"

subsection \<open>Base backups\<close>

definition SIX_HOURS :: nat where "SIX_HOURS = 21600000"

definition padded :: "nat \<Rightarrow> nat \<Rightarrow> string" where
  "padded n k = replicate (n - length (string_of_nat k)) (CHR ''0'') @ string_of_nat k"

definition civil_date :: "nat \<Rightarrow> nat \<times> nat \<times> nat" where
  \<comment> \<open>year, month and day of a number of days since 1970, by the 400 years of the calendar that begin in March\<close>
  "civil_date days =
     (let z = days + 719468; era = z div 146097; doe = z mod 146097;
        yoe = (doe - doe div 1460 + doe div 36524 - doe div 146096) div 365;
        doy = doe - (365 * yoe + yoe div 4 - yoe div 100); mp = (5 * doy + 2) div 153;
        d = doy - (153 * mp + 2) div 5 + 1; m = (if mp < 10 then mp + 3 else mp - 9)
      in (yoe + era * 400 + (if m \<le> 2 then 1 else 0), m, d))"

definition day_text :: "nat \<Rightarrow> string" where
  \<comment> \<open>\<open>toISOString().slice(0, 10)\<close>\<close>
  "day_text now = (case civil_date (now div DAY) of (y, m, d) \<Rightarrow> padded 4 y @ ''-'' @ padded 2 m @ ''-'' @ padded 2 d)"

definition backup_key :: "string \<Rightarrow> backup_kind \<Rightarrow> nat \<Rightarrow> string" where
  "backup_key p k now = ''backup_'' @ p @ ''_'' @ kind_text k @ ''_'' @ day_text now"

record backup_candidate =
  bc_project :: project_entry
  bc_full :: "nat option"
  bc_any :: "nat option"
  bc_open :: nat

definition finished_at :: "(backup_run \<Rightarrow> bool) \<Rightarrow> string \<Rightarrow> ('c, 'o) saga_world \<Rightarrow> nat option" where
  \<comment> \<open>\<open>max(finished_at)\<close> of the runs that succeeded\<close>
  "finished_at c p w = latest (List.map_filter br_finished
     (filter (\<lambda>r. br_project r = p \<and> br_status r = RunSucceeded \<and> c r) (sw_backups w)))"

definition open_runs :: "nat \<Rightarrow> string \<Rightarrow> ('c, 'o) saga_world \<Rightarrow> nat" where
  "open_runs now p w = length (filter (\<lambda>r. br_project r = p \<and> br_status r = RunRunning \<and> now < br_started r + SIX_HOURS) (sw_backups w))"

definition running_row :: "('c, 'o) saga_world \<Rightarrow> project_entry \<Rightarrow> bool" where
  "running_row w e = (pe_status e = StReady \<and> (case placed_row (pe_id e) w of None \<Rightarrow> False | Some d \<Rightarrow> pd_status d = ''running''))"

definition backup_candidate_of :: "nat \<Rightarrow> ('c, 'o) saga_world \<Rightarrow> project_entry \<Rightarrow> backup_candidate" where
  "backup_candidate_of now w e = \<lparr>bc_project = e, bc_full = finished_at (\<lambda>r. br_kind r = Full) (pe_id e) w,
     bc_any = finished_at (\<lambda>_. True) (pe_id e) w, bc_open = open_runs now (pe_id e) w\<rparr>"

definition backup_candidates :: "nat \<Rightarrow> nat \<Rightarrow> ('c, 'o) saga_world \<Rightarrow> backup_candidate list" where
  "backup_candidates now limit w =
     take limit (sort_key (\<lambda>c. nulls_first (bc_any c)) (map (backup_candidate_of now w) (filter (running_row w) (sw_projects w))))"

record backup_tally =
  bt_due :: "(string \<times> backup_kind) list"
  bt_created :: nat
  bt_enqueued :: nat
  bt_skipped :: nat

definition no_backups :: backup_tally where
  "no_backups = \<lparr>bt_due = [], bt_created = 0, bt_enqueued = 0, bt_skipped = 0\<rparr>"

definition backup_skipped :: "backup_tally \<Rightarrow> backup_tally" where
  "backup_skipped t = t\<lparr>bt_skipped := bt_skipped t + 1\<rparr>"

definition backup_one :: "('c, 'r, 'o) saga_deps \<Rightarrow> 'q queue_ops \<Rightarrow> (string \<Rightarrow> string) \<Rightarrow> (string \<Rightarrow> nat) \<Rightarrow> nat \<Rightarrow> nat \<times> nat \<Rightarrow> nat
    \<Rightarrow> backup_tally \<Rightarrow> backup_candidate \<Rightarrow> ('c, 'o, 'q, backup_tally) scan" where
  "backup_one E ops new_id digest tz window now t c =
     (let p = pe_id (bc_project c) in
      if 0 < bc_open c then ret (backup_skipped t)
      else case decide_backup digest tz p (pe_plan (bc_project c)) now (bc_full c) (bc_any c) window of
        None \<Rightarrow> ret (backup_skipped t)
      | Some k \<Rightarrow>
          and_then (write_job E new_id p ''backup_project'' (backup_key p k now)) (\<lambda>i. case i of
            None \<Rightarrow> ret (backup_skipped t)
          | Some _ \<Rightarrow>
              and_then (hand_over ops (backup_key p k now)) (\<lambda>ok.
              ret (t\<lparr>bt_due := bt_due t @ [(pe_ref (bc_project c), k)], bt_created := bt_created t + 1,
                bt_enqueued := bt_enqueued t + (if ok then 1 else 0)\<rparr>))))"

definition backup_scan :: "('c, 'r, 'o) saga_deps \<Rightarrow> 'q queue_ops \<Rightarrow> (string \<Rightarrow> string) \<Rightarrow> (string \<Rightarrow> nat) \<Rightarrow> nat \<Rightarrow> nat \<times> nat \<Rightarrow> nat
    \<Rightarrow> ('c, 'o, 'q, nat \<times> backup_tally) scan" where
  \<comment> \<open>with the batch size, and how many it considered\<close>
  "backup_scan E ops new_id digest tz window limit =
     and_then (gets (\<lambda>w. backup_candidates (now_of E (sn_saga w)) limit (sn_saga w))) (\<lambda>cs.
     and_then (gets (\<lambda>w. now_of E (sn_saga w))) (\<lambda>now.
     and_then (each_row (backup_one E ops new_id digest tz window now) no_backups cs) (\<lambda>t.
     ret (length cs, t))))"

subsection \<open>Restored copies\<close>

definition RESTORE_TTL_HOURS_DEFAULT :: nat where "RESTORE_TTL_HOURS_DEFAULT = 48"
definition RESTORE_TTL_HOURS_MAX :: nat where "RESTORE_TTL_HOURS_MAX = 168"

definition copy_ttl_hours :: "rat option \<Rightarrow> nat" where
  \<comment> \<open>of \<open>Number(raw)\<close>, \<open>None\<close> when that is not finite\<close>
  "copy_ttl_hours x = (case x of
     None \<Rightarrow> RESTORE_TTL_HOURS_DEFAULT
   | Some h \<Rightarrow> if h \<le> 0 then RESTORE_TTL_HOURS_DEFAULT else min RESTORE_TTL_HOURS_MAX (max 1 (nat \<lfloor>h\<rfloor>)))"

definition expiry_for :: "nat \<Rightarrow> nat \<Rightarrow> nat" where
  "expiry_for now hours = now + hours * 3600000"

definition copy_due :: "nat \<Rightarrow> ('c, 'o, 'q) fleet_world \<Rightarrow> project_entry \<Rightarrow> (project_entry \<times> nat) option" where
  "copy_due now w e = (case fw_expires w (pe_id e) of
     Some t \<Rightarrow> if pe_status e = StRestored \<and> t \<le> now \<and>
         list_ex (\<lambda>r. rr_project r = pe_id e \<and> rr_succeeded r) (sw_restores (fw_saga w)) then Some (e, t) else None
   | None \<Rightarrow> None)"

definition copies_due :: "nat \<Rightarrow> nat \<Rightarrow> ('c, 'o, 'q) fleet_world \<Rightarrow> project_entry list" where
  "copies_due now limit w = map fst (take limit (sort_key snd (List.map_filter (copy_due now w) (sw_projects (fw_saga w)))))"

definition expiry_key :: "string \<Rightarrow> string" where
  "expiry_key p = ''restore_expiry_'' @ p"

definition expire_one :: "('c, 'r, 'o) saga_deps \<Rightarrow> 'q queue_ops \<Rightarrow> (string \<Rightarrow> string) \<Rightarrow> nat \<times> nat \<Rightarrow> project_entry \<Rightarrow> ('c, 'o, 'q, nat \<times> nat) scan" where
  "expire_one E ops new_id t e =
     (let key = expiry_key (pe_id e) in
      and_then (write_job E new_id (pe_id e) ''delete_project'' key) (\<lambda>i. case i of
        None \<Rightarrow> ret t
      | Some _ \<Rightarrow>
          and_then (in_saga (write_project (\<lambda>x. pe_id x = pe_id e) (\<lambda>x. x\<lparr>pe_status := StDeleting\<rparr>))) (\<lambda>_.
          and_then (hand_over ops key) (\<lambda>ok.
          ret (fst t + 1, snd t + (if ok then 1 else 0))))))"

definition restore_expiry :: "('c, 'r, 'o) saga_deps \<Rightarrow> 'q queue_ops \<Rightarrow> (string \<Rightarrow> string) \<Rightarrow> nat \<Rightarrow> ('c, 'o, 'q, nat \<times> nat \<times> nat) sweep" where
  \<comment> \<open>due, created, enqueued\<close>
  "restore_expiry E ops new_id limit =
     and_then (gets (\<lambda>w. copies_due (now_of E (fw_saga w)) limit w)) (\<lambda>due.
     and_then (in_scan (each_row (expire_one E ops new_id) (0, 0) due)) (\<lambda>(created, enqueued).
     ret (length due, created, enqueued)))"

subsection \<open>Idle projects\<close>

definition idle_since :: "('c, 'o, 'q) fleet_world \<Rightarrow> project_entry \<Rightarrow> nat" where
  "idle_since w e = or_else (fw_active w (pe_id e)) (pe_created e)"

type_synonym idle_candidate = "project_entry \<times> placement_row \<times> node_row"

definition idle_candidates :: "nat \<Rightarrow> nat \<Rightarrow> nat \<Rightarrow> ('c, 'o, 'q) fleet_world \<Rightarrow> idle_candidate list" where
  "idle_candidates now days limit w =
     take limit (sort_key (\<lambda>(e, _). idle_since w e) (List.map_filter (\<lambda>e.
       if running_row (fw_saga w) e \<and> idle_since w e + days * DAY < now
       then map_option (Pair e) (joined (pe_id e) (sw_place (fw_saga w))) else None) (sw_projects (fw_saga w))))"

definition IDLE_QUERY :: string where
  "IDLE_QUERY = ''SELECT count(*)::int AS n FROM pg_stat_activity WHERE datname IS NOT NULL AND pid <> pg_backend_pid() AND usename = $1 AND ($2::text IS NULL OR host(client_addr) IS DISTINCT FROM $2::text)''"

definition counted :: "string option list list \<Rightarrow> nat" where
  "counted rows = (case rows of (Some t # _) # _ \<Rightarrow> value_of_digits t | _ \<Rightarrow> 0)"

definition direct_connections :: "('c, 'r, 'o) saga_deps \<Rightarrow> endpoint \<Rightarrow> string \<Rightarrow> string option \<Rightarrow> ('c, 'o, nat option) saga" where
  \<comment> \<open>a parameter that is null is left out of the list\<close>
  "direct_connections E ep pw addr = caught (on_host
     (and_then (told (dp_out E) (PgConnect (fst ep) (snd ep) DEVELOPER_ROLE pw)) (\<lambda>_.
      and_then (query (dp_out E) ep IDLE_QUERY (DEVELOPER_ROLE # (case addr of None \<Rightarrow> [] | Some a \<Rightarrow> [a]))) (\<lambda>rows.
      ret (Some (counted rows)))))) (\<lambda>_. ret None)"

definition pooler_address :: "('c, 'r, 'o) saga_deps \<Rightarrow> (container_info \<Rightarrow> (string \<times> string) list) \<Rightarrow> string \<Rightarrow> ('c, 'o, string option) saga" where
  \<comment> \<open>the parameter is the names and addresses of \<open>NetworkSettings.Networks\<close>\<close>
  "pooler_address E networks ref =
     (if \<not> dp_docker E then ret None
      else
        and_then (caught (on_host (inspect_container (dp_out E) (pooler_name ref))) (\<lambda>_. ret None)) (\<lambda>c.
        let nets = (case c of None \<Rightarrow> [] | Some c \<Rightarrow> networks c) in
        ret (case List.find (\<lambda>(n, a). n = network_name ref \<and> a \<noteq> []) nets of
          Some (_, a) \<Rightarrow> Some a
        | None \<Rightarrow> map_option snd (List.find (\<lambda>(_, a). a \<noteq> []) nets))))"

record pool_row =
  pl_database :: string
  pl_cl_active :: nat
  pl_cl_waiting :: nat
  pl_servers :: "nat list" \<comment> \<open>active, idle, used, tested, login\<close>

definition pool_counts :: "pool_row list \<Rightarrow> nat \<times> nat" where
  "pool_counts rows = (let real = filter (\<lambda>r. pl_database r \<noteq> ''pgbouncer'') rows in
     (sum_list (map (\<lambda>r. pl_cl_active r + pl_cl_waiting r) real), sum_list (map (sum_list \<circ> pl_servers) real)))"

definition pooler_counts :: "('c, 'r, 'o) saga_deps \<Rightarrow> (string option list list \<Rightarrow> pool_row list) \<Rightarrow> endpoint \<Rightarrow> string \<Rightarrow> ('c, 'o, (nat \<times> nat) option) saga" where
  \<comment> \<open>the parameter reads the rows of the console by the names of their columns\<close>
  "pooler_counts E pools ep pw = caught (on_host
     (and_then (told (dp_out E) (PgConnect (fst ep) (snd ep) POOLER_AUTH_ROLE pw)) (\<lambda>_.
      and_then (query (dp_out E) ep ''SHOW POOLS'' []) (\<lambda>rows.
      ret (Some (pool_counts (pools rows))))))) (\<lambda>_. ret None)"

record idle_tally =
  it_active :: nat
  it_paused :: nat
  it_unreachable :: nat

definition idle_key :: "string \<Rightarrow> string" where
  "idle_key p = ''idlepause_'' @ p"

definition pause_idle :: "('c, 'r, 'o) saga_deps \<Rightarrow> 'q queue_ops \<Rightarrow> (string \<Rightarrow> string) \<Rightarrow> idle_tally \<Rightarrow> project_entry \<Rightarrow> ('c, 'o, 'q, idle_tally) scan" where
  "pause_idle E ops new_id t e =
     and_then (write_job E new_id (pe_id e) ''pause_project'' (idle_key (pe_id e))) (\<lambda>i. case i of
       None \<Rightarrow> ret t
     | Some _ \<Rightarrow>
         and_then (in_saga (write_project (\<lambda>x. pe_id x = pe_id e) (\<lambda>x. x\<lparr>pe_status := StPausing\<rparr>))) (\<lambda>_.
         and_then (hand_over ops (idle_key (pe_id e))) (\<lambda>_.
         ret (t\<lparr>it_paused := it_paused t + 1\<rparr>))))"

definition probe_both :: "('c, 'r, 'o) saga_deps \<Rightarrow> (container_info \<Rightarrow> (string \<times> string) list) \<Rightarrow> (string option list list \<Rightarrow> pool_row list)
    \<Rightarrow> string \<Rightarrow> placement_row \<Rightarrow> string \<Rightarrow> string \<Rightarrow> string option \<Rightarrow> ('c, 'o, nat option \<times> (nat \<times> nat) option) saga" where
  \<comment> \<open>ref, placement, host, the developer's password and the pooler's; the code runs the last two at the same time\<close>
  "probe_both E networks pools ref d host password ppw =
     and_then (pooler_address E networks ref) (\<lambda>addr.
     and_then (direct_connections E (host, pd_port d) password addr) (\<lambda>direct.
     and_then (case filled ppw of Some q \<Rightarrow> pooler_counts E pools (host, pd_pooler d) q | None \<Rightarrow> ret None) (\<lambda>pooler.
     ret (direct, pooler))))"

definition idle_verdict :: "('c, 'r, 'o) saga_deps \<Rightarrow> 'q queue_ops \<Rightarrow> (string \<Rightarrow> string) \<Rightarrow> idle_tally \<Rightarrow> project_entry
    \<Rightarrow> nat option \<times> (nat \<times> nat) option \<Rightarrow> ('c, 'o, 'q, idle_tally) sweep" where
  "idle_verdict E ops new_id t e seen = (case seen of
     (Some a, Some (clients, _)) \<Rightarrow>
       if 0 < a + clients then
         and_then (modifies (\<lambda>w. w\<lparr>fw_active := (fw_active w)(pe_id e := Some (now_of E (fw_saga w)))\<rparr>)) (\<lambda>_.
         ret (t\<lparr>it_active := it_active t + 1\<rparr>))
       else in_scan (pause_idle E ops new_id t e)
   | _ \<Rightarrow> ret (t\<lparr>it_unreachable := it_unreachable t + 1\<rparr>))"

definition idle_one :: "('c, 'r, 'o) saga_deps \<Rightarrow> 'q queue_ops \<Rightarrow> (string \<Rightarrow> string) \<Rightarrow> (container_info \<Rightarrow> (string \<times> string) list)
    \<Rightarrow> (string option list list \<Rightarrow> pool_row list) \<Rightarrow> idle_tally \<Rightarrow> idle_candidate \<Rightarrow> ('c, 'o, 'q, idle_tally) sweep" where
  "idle_one E ops new_id networks pools t c = (case c of (e, d, n) \<Rightarrow>
     and_then (in_scan (in_saga (stored E (pe_id e) DEVELOPER_PASSWORD))) (\<lambda>pw.
     case (filled pw, filled (nd_address n)) of
       (Some password, Some host) \<Rightarrow>
         and_then (in_scan (in_saga (stored E (pe_id e) POOLER_AUTH_PASSWORD))) (\<lambda>ppw.
         and_then (in_scan (in_saga (probe_both E networks pools (pe_ref e) d host password ppw))) (idle_verdict E ops new_id t e))
     | _ \<Rightarrow> ret (t\<lparr>it_unreachable := it_unreachable t + 1\<rparr>)))"

definition idle_scan :: "('c, 'r, 'o) saga_deps \<Rightarrow> 'q queue_ops \<Rightarrow> (string \<Rightarrow> string) \<Rightarrow> (container_info \<Rightarrow> (string \<times> string) list)
    \<Rightarrow> (string option list list \<Rightarrow> pool_row list) \<Rightarrow> nat \<Rightarrow> nat \<Rightarrow> ('c, 'o, 'q, nat \<times> idle_tally) sweep" where
  \<comment> \<open>with the days and the batch size; how many it checked\<close>
  "idle_scan E ops new_id networks pools days limit =
     and_then (gets (\<lambda>w. idle_candidates (now_of E (fw_saga w)) days limit w)) (\<lambda>cs.
     and_then (each_row (idle_one E ops new_id networks pools) \<lparr>it_active = 0, it_paused = 0, it_unreachable = 0\<rparr> cs) (\<lambda>t.
     ret (length cs, t)))"

end
