(* ===== verification/Verify.thy ===== *)
theory Verify
  imports Scans
begin

text \<open>
  Backups that are tested and backups that are destroyed: the restore into a scratch container and its four checks
  (\<open>services/worker/src/verify-restore.ts\<close>), the scan that picks whose turn it is (\<open>verify-scan.ts\<close>), and the scan that
  empties the repo of a purged project (\<open>repo-destroy.ts\<close>).

  The node, its commands and the clock are the outside of theory \<open>Engine\<close>. The object store is a parameter,
  a state with the three calls that the scan makes. Durations, sizes, texts of reasons and metrics are left out.

  Proved: a verification asks nothing of the node but for its own container and volume, and removes both on every path; a
  repo that counts as destroyed was listed empty. And: one project without a passphrase stops all verifications, and a
  destruction whose audit row is refused is never recorded.
\<close>

subsection \<open>One verification\<close>

datatype failed_check = RestoreFailed | RecoveryFailed | ChecksumsFailed | AmcheckFailed | SanityFailed

record verify_outcome =
  vo_passed :: bool
  vo_label :: "string option"
  vo_check :: "failed_check option"

definition passed_with :: "string \<Rightarrow> verify_outcome" where
  "passed_with l = \<lparr>vo_passed = True, vo_label = Some l, vo_check = None\<rparr>"

definition failed_at :: "failed_check \<Rightarrow> string option \<Rightarrow> verify_outcome" where
  "failed_at c l = \<lparr>vo_passed = False, vo_label = l, vo_check = Some c\<rparr>"

definition floor_days :: "string \<Rightarrow> nat" where
  \<comment> \<open>the \<open>CASE\<close> of the query\<close>
  "floor_days plan = (if plan = ''free'' then 90 else 30)"

fun base36 :: "nat \<Rightarrow> string" where
  "base36 n = (let digit = (if n mod 36 < 10 then char_of (48 + n mod 36) else char_of (87 + n mod 36)) in
     if n < 36 then [digit] else base36 (n div 36) @ [digit])"

declare base36.simps [simp del]

definition scratch_name :: "string \<Rightarrow> nat \<Rightarrow> string" where
  "scratch_name ref now = ''sh-verify-'' @ ref @ ''-'' @ base36 now"

definition scratch_volume :: "string \<Rightarrow> string" where
  "scratch_volume name = name @ ''-data''"

definition scratch_labels :: "(string \<times> string) list" where
  "scratch_labels = [(''com.steadhold.role'', ''verify-scratch'')]"

definition scratch_spec :: "string \<Rightarrow> container_spec" where
  "scratch_spec volume = \<lparr>cs_image = IMAGE, cs_env = [''PGDATA=/var/lib/postgresql/data/pgdata''], cs_labels = scratch_labels,
     cs_cmd = Some [''sleep'', ''1800''], cs_memory = 768 * MIB, cs_nano_cpus = 1000000000, cs_pids = PIDS_LIMIT, cs_weight = None,
     cs_device_bps = None, cs_init = True, cs_restart = ''no'', cs_mounts = [(volume, ''/var/lib/postgresql/data'')],
     cs_ports = [], cs_exposed = [], cs_network = None\<rparr>"

definition START_SCRATCH :: string where
  "START_SCRATCH = ''pg_ctl -D /var/lib/postgresql/data/pgdata -l /tmp/pg.log -o '' @ [CHR 0x22] @
     ''-c config_file=/etc/steadhold/postgresql.base.conf -c archive_mode=off -c listen_addresses=127.0.0.1'' @ [CHR 0x22] @
     '' -w -t 120 start 2>&1 || cat /tmp/pg.log''"

definition AMCHECK :: string where
  "AMCHECK = ''pg_amcheck --username=postgres --heapallindexed --install-missing postgres > /tmp/amcheck.log 2>&1; rc=$?; tail -20 /tmp/amcheck.log; exit $rc''"

definition scratch_psql :: "'o outside \<Rightarrow> string \<Rightarrow> string \<Rightarrow> ('o, 'z, exec_result) act" where
  "scratch_psql D c sql = exec_capture D c [''psql'', ''-U'', ''postgres'', ''-d'', ''postgres'', ''-tAc'', sql] None"

definition dquoted :: "string \<Rightarrow> string" where
  "dquoted t = [CHR 0x22] @ concat (map (\<lambda>c. if c = CHR 0x22 then [c, c] else [c]) t) @ [CHR 0x22]"

definition has_rows :: "string \<Rightarrow> bool" where
  \<comment> \<open>\<open>Number\<close> of what \<open>count(*)\<close> printed is finite and not zero; it prints digits, or nothing after an error\<close>
  "has_rows s = (let t = js_trim s in list_all is_digit t \<and> value_of_digits t \<noteq> 0)"

definition NON_EMPTY_QUERY :: string where
  "NON_EMPTY_QUERY = ''SELECT c.relname AS table_name FROM pg_class c JOIN pg_namespace n ON n.oid = c.relnamespace WHERE c.relkind = 'r' AND n.nspname NOT IN ('pg_catalog','information_schema') AND c.reltuples > 0 ORDER BY c.reltuples DESC LIMIT 5''"

definition expectation_from :: "('c, 'r, 'o) saga_deps \<Rightarrow> endpoint \<Rightarrow> string \<Rightarrow> ('c, 'o, string list option) saga" where
  "expectation_from E ep pw = caught (on_host
     (and_then (told (dp_out E) (PgConnect (fst ep) (snd ep) ''postgres'' pw)) (\<lambda>_.
      and_then (query (dp_out E) ep NON_EMPTY_QUERY []) (\<lambda>rows.
      ret (Some (List.map_filter (\<lambda>r. case r of Some t # _ \<Rightarrow> Some t | _ \<Rightarrow> None) rows)))))) (\<lambda>_. ret None)"

fun empty_tables :: "'o outside \<Rightarrow> string \<Rightarrow> string list \<Rightarrow> ('o, 'z, string list) act" where
  "empty_tables D c [] = ret []"
| "empty_tables D c (t # ts) =
     and_then (scratch_psql D c (''select count(*) from '' @ dquoted t)) (\<lambda>r.
     and_then (empty_tables D c ts) (\<lambda>es. ret (if has_rows (xr_out r) then es else t # es)))"

definition RECOVERY_TIMEOUT_MS :: nat where "RECOVERY_TIMEOUT_MS = 180000"

definition recovered :: "('c, 'r, 'o) saga_deps \<Rightarrow> string \<Rightarrow> ('c, 'o, bool) saga" where
  "recovered E c =
     and_then (gets (now_of E)) (\<lambda>now.
     and_then (poll_until (dp_out E) 2000
       (and_then (on_host (scratch_psql (dp_out E) c ''select pg_is_in_recovery()'')) (\<lambda>r.
        ret (if js_trim (xr_out r @ xr_err r) = ''f'' then Finished () else Again)))
       (now + RECOVERY_TIMEOUT_MS) (rounds RECOVERY_TIMEOUT_MS)) (\<lambda>x. ret (x \<noteq> None)))"

definition four_checks :: "('c, 'r, 'o) saga_deps \<Rightarrow> string \<Rightarrow> string list option \<Rightarrow> string \<Rightarrow> ('c, 'o, verify_outcome) saga" where
  \<comment> \<open>of the container with that name, where the backup with that label is restored\<close>
  "four_checks E c expect l =
     and_then (on_host (exec_capture (dp_out E) c [''sh'', ''-c'', START_SCRATCH] None)) (\<lambda>_.
     and_then (recovered E c) (\<lambda>done.
     if \<not> done then ret (failed_at RecoveryFailed (Some l))
     else
       and_then (on_host (scratch_psql (dp_out E) c ''show data_checksums'')) (\<lambda>shown.
       if js_trim (xr_out shown) \<noteq> ''on'' then ret (failed_at ChecksumsFailed (Some l))
       else
         and_then (on_host (exec_capture (dp_out E) c [''sh'', ''-c'', AMCHECK] None)) (\<lambda>am.
         if xr_exit am \<noteq> Some 0 then ret (failed_at AmcheckFailed (Some l))
         else
           and_then (on_host (empty_tables (dp_out E) c (case expect of None \<Rightarrow> [] | Some ts \<Rightarrow> ts))) (\<lambda>empties.
           if empties \<noteq> [] then ret (failed_at SanityFailed (Some l))
           else
             and_then (on_host (scratch_psql (dp_out E) c ''select pg_database_size(current_database())'')) (\<lambda>_.
             ret (passed_with l)))))))"

definition restore_and_check :: "('c, 'r, 'o) saga_deps \<Rightarrow> repo_target \<Rightarrow> string \<Rightarrow> string \<Rightarrow> string \<Rightarrow> string \<Rightarrow> string list option
    \<Rightarrow> ('c, 'o, verify_outcome) saga" where
  \<comment> \<open>the body of the \<open>try\<close>: the scratch name, project, plan, passphrase, expectation\<close>
  "restore_and_check E repo c p plan pass expect =
     (let D = dp_out E in
      and_then (on_host (create_volume D (scratch_volume c) scratch_labels)) (\<lambda>_.
      and_then (on_host (create_container D c (scratch_spec (scratch_volume c)))) (\<lambda>i.
      and_then (on_host (start_container D i)) (\<lambda>_.
      and_then (on_host (write_conf D (dp_b64 E) c (render_pgbackrest_conf p plan pass repo))) (\<lambda>_.
      and_then (on_host (backup_info D (dp_read_info E) c)) (\<lambda>backups.
      if backups = [] then ret (failed_at RestoreFailed None)
      else
        let l = be_label (last backups) in
        and_then (caught (and_then (on_host (restore_repo D (dp_show_time E) c None)) (\<lambda>_. ret True)) (\<lambda>_. ret False)) (\<lambda>restored.
        if \<not> restored then ret (failed_at RestoreFailed (Some l))
        else four_checks E c expect l)))))))"

definition tear_down :: "('c, 'r, 'o) saga_deps \<Rightarrow> string \<Rightarrow> ('c, 'o, unit) saga" where
  "tear_down E c =
     and_then (swallowed (on_host (remove_container (dp_out E) c True False))) (\<lambda>_.
     swallowed (on_host (remove_volume (dp_out E) (scratch_volume c))))"

definition verify :: "('c, 'r, 'o) saga_deps \<Rightarrow> string \<Rightarrow> string \<Rightarrow> string \<Rightarrow> string \<Rightarrow> string list option \<Rightarrow> ('c, 'o, verify_outcome) saga" where
  \<comment> \<open>project, ref, plan, passphrase, expectation; the \<open>finally\<close> follows the body and its handler, neither of which throws\<close>
  "verify E p ref plan pass expect = (case dp_repo E of
     None \<Rightarrow> ret (failed_at RestoreFailed None)
   | Some repo \<Rightarrow>
       and_then (gets (\<lambda>w. scratch_name ref (now_of E w))) (\<lambda>c.
       and_then (caught (restore_and_check E repo c p plan pass expect) (\<lambda>_. ret (failed_at RestoreFailed None))) (\<lambda>v.
       and_then (tear_down E c) (\<lambda>_. ret v))))"

subsection \<open>Whose turn it is\<close>

record verification =
  vf_project :: string
  vf_status :: run_status
  vf_finished :: "nat option"
  vf_outcome :: "verify_outcome option"

record ('c, 'o) check_world =
  ck_saga :: "('c, 'o) saga_world"
  ck_runs :: "verification list" \<comment> \<open>\<open>restore_verifications\<close>, in the order of their ids\<close>

type_synonym ('c, 'o, 'a) check = "(('c, 'o) check_world, string, 'a) eff"

definition in_check :: "('c, 'o, 'a) saga \<Rightarrow> ('c, 'o, 'a) check" where
  "in_check m w = (case m (ck_saga w) of (r, s) \<Rightarrow> (r, w\<lparr>ck_saga := s\<rparr>))"

definition last_passed :: "string \<Rightarrow> ('c, 'o) check_world \<Rightarrow> nat option" where
  "last_passed p w = latest (List.map_filter vf_finished (filter (\<lambda>v. vf_project v = p \<and> vf_status v = RunSucceeded) (ck_runs w)))"

type_synonym verify_candidate = "project_entry \<times> placement_row \<times> node_row"

definition verify_due :: "nat \<Rightarrow> ('c, 'o) check_world \<Rightarrow> project_entry \<Rightarrow> bool" where
  "verify_due now w e = (pe_status e \<in> {StReady, StPaused} \<and>
     (case last_passed (pe_id e) w of None \<Rightarrow> True | Some t \<Rightarrow> t + floor_days (pe_plan e) * DAY < now))"

definition verify_candidates :: "nat \<Rightarrow> nat \<Rightarrow> ('c, 'o) check_world \<Rightarrow> verify_candidate list" where
  "verify_candidates now limit w =
     take limit (sort_key (\<lambda>(e, _). nulls_first (last_passed (pe_id e) w)) (List.map_filter (\<lambda>e.
       if verify_due now w e then map_option (Pair e) (joined (pe_id e) (sw_place (ck_saga w))) else None) (sw_projects (ck_saga w))))"

definition verify_one :: "('c, 'r, 'o) saga_deps \<Rightarrow> (string \<times> verify_outcome) list \<Rightarrow> verify_candidate \<Rightarrow> ('c, 'o, (string \<times> verify_outcome) list) check" where
  "verify_one E outcomes c = (case c of (e, d, n) \<Rightarrow>
     and_then (in_check (stored E (pe_id e) BACKUP_CIPHER_PASS)) (\<lambda>pass. case filled pass of
       None \<Rightarrow> ret outcomes
     | Some pass \<Rightarrow>
         and_then (gets (\<lambda>w. length (ck_runs w))) (\<lambda>i.
         and_then (modifies (\<lambda>w. w\<lparr>ck_runs := ck_runs w @ [\<lparr>vf_project = pe_id e, vf_status = RunRunning, vf_finished = None, vf_outcome = None\<rparr>]\<rparr>)) (\<lambda>_.
         and_then (case (pd_status d = ''running'', filled (nd_address n)) of
             (True, Some host) \<Rightarrow>
               and_then (in_check (stored E (pe_id e) POSTGRES_PASSWORD)) (\<lambda>su. case filled su of
                 None \<Rightarrow> ret None | Some su \<Rightarrow> in_check (expectation_from E (host, pd_port d) su))
           | _ \<Rightarrow> ret None) (\<lambda>expect.
         and_then (in_check (caught (verify E (pe_id e) (pe_ref e) (pe_plan e) pass expect) (\<lambda>_. ret (failed_at RestoreFailed None)))) (\<lambda>v.
         and_then (modifies (\<lambda>w. w\<lparr>ck_runs := (ck_runs w)[i := (ck_runs w ! i)\<lparr>
             vf_status := (if vo_passed v then RunSucceeded else RunFailed), vf_finished := Some (now_of E (ck_saga w)), vf_outcome := Some v\<rparr>]\<rparr>)) (\<lambda>_.
         ret (outcomes @ [(pe_ref e, v)]))))))))"

definition verified_share :: "nat \<Rightarrow> ('c, 'o) check_world \<Rightarrow> nat \<times> nat" where
  \<comment> \<open>of the projects that are placed and ready or paused: those with a fresh pass, and all\<close>
  "verified_share now w =
     (let all = filter (\<lambda>e. pe_status e \<in> {StReady, StPaused} \<and> placed_row (pe_id e) (ck_saga w) \<noteq> None) (sw_projects (ck_saga w)) in
      (length (filter (\<lambda>e. case last_passed (pe_id e) w of None \<Rightarrow> False | Some t \<Rightarrow> now < t + floor_days (pe_plan e) * DAY) all), length all))"

definition verify_scan :: "('c, 'r, 'o) saga_deps \<Rightarrow> nat \<Rightarrow> ('c, 'o, nat \<times> (string \<times> verify_outcome) list \<times> (nat \<times> nat) option) check" where
  \<comment> \<open>with the batch size: candidates, outcomes and the share of the fleet\<close>
  "verify_scan E limit =
     (if \<not> dp_secrets E then ret (0, [], None)
      else
        and_then (gets (\<lambda>w. verify_candidates (now_of E (ck_saga w)) limit w)) (\<lambda>cs.
        and_then (each_row (verify_one E) [] cs) (\<lambda>outcomes.
        and_then (gets (\<lambda>w. verified_share (now_of E (ck_saga w)) w)) (\<lambda>share.
        ret (length cs, outcomes, Some share)))))"

subsection \<open>The end of a repo\<close>

record 'b object_store =
  os_list :: "string \<Rightarrow> 'b \<Rightarrow> (string + string list) \<times> 'b"
  os_delete_batch :: "string list \<Rightarrow> 'b \<Rightarrow> (string + string list) \<times> 'b" \<comment> \<open>the keys that failed\<close>
  os_delete :: "string \<Rightarrow> 'b \<Rightarrow> (string + unit) \<times> 'b"

record repo_fate =
  rf_destroyed :: "nat option"
  rf_deleted :: nat
  rf_error :: "string option"
  rf_attempts :: nat

record ('c, 'o, 'b) repo_world =
  rw_saga :: "('c, 'o) saga_world"
  rw_bucket :: 'b
  rw_fate :: "string \<Rightarrow> repo_fate" \<comment> \<open>the columns of \<open>project_repos\<close> that only this scan writes\<close>
  rw_audit :: "(string \<times> string \<times> nat) list" \<comment> \<open>project, path, objects deleted\<close>

type_synonym ('c, 'o, 'b, 'a) destruction = "(('c, 'o, 'b) repo_world, string, 'a) eff"

definition in_bucket :: "('b \<Rightarrow> (string + 'a) \<times> 'b) \<Rightarrow> ('c, 'o, 'b, 'a) destruction" where
  "in_bucket m w = (case m (rw_bucket w) of (r, b) \<Rightarrow> (r, w\<lparr>rw_bucket := b\<rparr>))"

function (sequential) batches :: "nat \<Rightarrow> 'a list \<Rightarrow> 'a list list" where
  "batches n [] = []"
| "batches n (x # xs) = (x # take (n - 1) xs) # batches n (drop (n - 1) xs)"
  by pat_completeness auto
termination by (relation "measure (length \<circ> snd)") auto

definition delete_batch :: "'b object_store \<Rightarrow> nat \<Rightarrow> string list \<Rightarrow> ('c, 'o, 'b, nat) destruction" where
  "delete_batch S deleted batch =
     and_then (in_bucket (os_delete_batch S batch)) (\<lambda>failed.
     each_row (\<lambda>n k. and_then (in_bucket (os_delete S k)) (\<lambda>_. ret (n + 1))) (deleted + length batch - length failed) failed)"

primrec empty_prefix :: "'b object_store \<Rightarrow> string \<Rightarrow> nat \<Rightarrow> nat \<Rightarrow> ('c, 'o, 'b, nat) destruction" where
  \<comment> \<open>the rounds left, and what is deleted so far\<close>
  "empty_prefix S prefix 0 deleted = ret deleted"
| "empty_prefix S prefix (Suc n) deleted =
     and_then (in_bucket (os_list S prefix)) (\<lambda>keys.
     if keys = [] then ret deleted
     else and_then (each_row (delete_batch S) deleted (batches 1000 keys)) (empty_prefix S prefix n))"

definition repo_prefix :: "string \<Rightarrow> string" where
  "repo_prefix path = (case path of c # s \<Rightarrow> if c = CHR ''/'' then s else c # s | [] \<Rightarrow> []) @ ''/''"

definition destroy_one :: "('c, 'r, 'o) saga_deps \<Rightarrow> 'b object_store \<Rightarrow> (string \<Rightarrow> string option) \<Rightarrow> repo_row \<Rightarrow> ('c, 'o, 'b, nat) destruction" where
  \<comment> \<open>the parameter is the error with which the database refuses the audit row of a project\<close>
  "destroy_one E S refuses r =
     (let p = rp_project r; prefix = repo_prefix (rp_path r) in
      and_then (empty_prefix S prefix 200 0) (\<lambda>deleted.
      and_then (in_bucket (os_list S prefix)) (\<lambda>remaining.
      and_then (guard (remaining = []) ''objects still under the prefix'') (\<lambda>_.
      and_then (modifies (\<lambda>w. w\<lparr>rw_fate := (rw_fate w)(p := \<lparr>rf_destroyed = Some (now_of E (rw_saga w)), rf_deleted = deleted,
          rf_error = None, rf_attempts = rf_attempts (rw_fate w p) + 1\<rparr>)\<rparr>)) (\<lambda>_.
      and_then (case refuses p of Some e \<Rightarrow> throw e | None \<Rightarrow> modifies (\<lambda>w. w\<lparr>rw_audit := rw_audit w @ [(p, rp_path r, deleted)]\<rparr>)) (\<lambda>_.
      ret deleted))))))"

record destroy_tally =
  dt_destroyed :: nat
  dt_failed :: nat
  dt_objects :: nat

definition destroy_repo :: "('c, 'r, 'o) saga_deps \<Rightarrow> 'b object_store \<Rightarrow> (string \<Rightarrow> string option) \<Rightarrow> destroy_tally \<Rightarrow> repo_row
    \<Rightarrow> ('c, 'o, 'b, destroy_tally) destruction" where
  "destroy_repo E S refuses t r = caught
     (and_then (destroy_one E S refuses r) (\<lambda>deleted.
      ret (t\<lparr>dt_destroyed := dt_destroyed t + 1, dt_objects := dt_objects t + deleted\<rparr>)))
     (\<lambda>e. and_then (modifies (\<lambda>w. w\<lparr>rw_fate := (rw_fate w)(rp_project r := (rw_fate w (rp_project r))\<lparr>rf_error := Some (take 1000 e),
          rf_attempts := rf_attempts (rw_fate w (rp_project r)) + 1\<rparr>)\<rparr>)) (\<lambda>_.
      ret (t\<lparr>dt_failed := dt_failed t + 1\<rparr>)))"

definition repo_due :: "nat \<Rightarrow> ('c, 'o, 'b) repo_world \<Rightarrow> repo_row \<Rightarrow> bool" where
  "repo_due now w r = (rf_destroyed (rw_fate w (rp_project r)) = None \<and> entry_of (rp_project r) (rw_saga w) \<noteq> None \<and>
     (case rp_destroy_after r of None \<Rightarrow> False | Some t \<Rightarrow> t \<le> now))"

definition repos_due :: "nat \<Rightarrow> nat \<Rightarrow> ('c, 'o, 'b) repo_world \<Rightarrow> repo_row list" where
  "repos_due now limit w = take limit (sort_key (\<lambda>r. or_else (rp_destroy_after r) 0) (filter (repo_due now w) (sw_repos (rw_saga w))))"

definition repo_scan :: "('c, 'r, 'o) saga_deps \<Rightarrow> 'b object_store option \<Rightarrow> (string \<Rightarrow> string option) \<Rightarrow> nat
    \<Rightarrow> ('c, 'o, 'b, nat \<times> destroy_tally) destruction" where
  "repo_scan E store refuses limit = (case store of
     None \<Rightarrow> ret (0, \<lparr>dt_destroyed = 0, dt_failed = 0, dt_objects = 0\<rparr>)
   | Some S \<Rightarrow>
       and_then (gets (\<lambda>w. repos_due (now_of E (rw_saga w)) limit w)) (\<lambda>due.
       and_then (each_row (destroy_repo E S refuses) \<lparr>dt_destroyed = 0, dt_failed = 0, dt_objects = 0\<rparr> due) (\<lambda>t.
       ret (length due, t))))"

end
