(* ===== verification/SagaRuns.thy ===== *)
theory SagaRuns
  imports SagaSafety
begin

text \<open>
  What a run of a saga leaves behind: the purge, the restore, the provisioning run, the pooler and the pause.
\<close>

subsection \<open>Only a due purge destroys data\<close>

definition purge_is_due :: "('c, 'r, 'o) saga_deps \<Rightarrow> string \<Rightarrow> ('c, 'o) saga_world \<Rightarrow> bool" where
  "purge_is_due E p w = (\<exists>e. entry_of p w = Some e \<and> (pe_status e = StDeleted \<or>
     pe_status e = StSoftDeleted \<and> (\<exists>t. pe_purge_after e = Some t \<and> t \<le> now_of E w)))"

lemma verify_purgeable_result:
  "\<exists>r. verify_purgeable_step E j w = (r, w) \<and> (r = Inr () \<longrightarrow> purge_is_due E (job_project j) w)"
  by (auto simp: verify_purgeable_step_def purge_is_due_def eff_defs split: option.splits)

text \<open>
  C4. Whatever the job, whatever the outside answers and wherever a run fails: a volume is deleted only by the
  purge saga, and by it only when the project was soft-deleted, with its recovery window closed, at the moment the
  run from the first step began (or had been purged before). Nothing that provisions, pauses, resumes, backs up,
  restores, rotates or deletes reversibly can destroy a customer's data.
\<close>

theorem only_a_due_purge_deletes_a_volume:
  assumes "build_sagas E n = Some steps" "run_steps repo job [] steps (t, w) = (err, names, t', w')"
    and "d \<in> set (drop (length (ho_trace w)) (ho_trace w'))" "\<not> harmless d"
  shows "n = ''purge_project'' \<and> purge_is_due E (job_project job) w"
proof -
  have w': "w' = snd (snd (snd (run_steps repo job [] steps (t, w))))" using assms(2) by simp
  have not: "\<not> did harmless w w'" using assms(3,4) by (auto simp: did_def list_all_iff)
  then have n: "n = ''purge_project''"
    using run_steps_always[where R = "did harmless" and ss = steps and finished = "[]" and job = job and w = w and repo = repo and t = t]
      did_order other_sagas_are_harmless[OF assms(1)] unfolding w' by blast
  then have steps: "steps = purge_project E" using assms(1) by (auto simp: build_sagas_def)
  obtain r where r: "verify_purgeable_step E job w = (r, w)" "r = Inr () \<longrightarrow> purge_is_due E (job_project job) w"
    using verify_purgeable_result by blast
  have "r \<noteq> Inl e" for e
  proof
    assume "r = Inl e"
    then have "w' = w" unfolding w' steps using r(1) by (simp add: purge_project_def saga_named_def)
    then show False using not deeds.same by blast
  qed
  then have "r = Inr ()" by (cases r) auto
  then show ?thesis using r(2) n by simp
qed

definition bare_state :: "(string, nat) saga_world \<Rightarrow> project_status \<Rightarrow> deed list \<Rightarrow> bool" where
  "bare_state w s tr = (ho_out w = 200 \<and> ho_trace w = tr \<and> sw_projects w = [bare_entry s] \<and> pn_rows (sw_place w) = [] \<and>
     sd_rows (kb_secrets (sw_keys w)) = [] \<and> kb_budget (sw_keys w) = None)"

lemma bare_reads:
  assumes "bare_state w s tr"
  shows "entry_of ''p'' w = Some (bare_entry s)" "placement_of ''p'' w = None" "placed_row ''p'' w = None" "now_of (bare_deps bare_node) w = 200"
  using assms by (auto simp: bare_state_def entry_of_def bare_entry_def placement_of_def joined_def row_of_def placed_row_def now_of_def clock_def bare_deps_def bare_node_def)

lemmas call_defs = asked_def told_def perform_def found_def forgiven_def caught_def client_defs on_host_def lift_error_def eff_defs
lemma saga_sample_simps [simp]: "job_project (saga_job ty) = ''p''" "jb_project (saga_job ty) = Some ''p''"
  "dp_docker (bare_deps D)" "dp_secrets (bare_deps D)" "dp_out (bare_deps D) = D" 
  by (simp_all add: job_project_def saga_job_def bare_deps_def now_of_def)

lemma bare_purge:
  assumes w: "bare_state w s tr"
  shows "verify_purgeable_step (bare_deps bare_node) (saga_job ty) w = (if s = StSoftDeleted \<or> s = StDeleted then (Inr (), w) else (Inl (''refusing to purge a project in status '' @ status_text s), w))"
    "\<exists>w'. remove_container_step (bare_deps bare_node) (saga_job ty) w = (Inr (), w') \<and> bare_state w' s
       (tr @ [ContainerDelete ''sh-ref'' True False, ContainerDelete ''sh-ref-pooler'' True False, ContainerDelete ''sh-ref-rest'' True False])"
    "\<exists>w'. remove_network_step (bare_deps bare_node) (saga_job ty) w = (Inr (), w') \<and> bare_state w' s (tr @ [NetworkDelete (network_name ''ref'')])"
    "\<exists>w'. remove_volume_step (bare_deps bare_node) (saga_job ty) w = (Inr (), w') \<and> bare_state w' s (tr @ [VolumeDelete (volume_name_for ''ref'')])"
    "\<exists>w'. schedule_repo_step (bare_deps bare_node) (saga_job ty) w = (Inr (), w') \<and> bare_state w' s tr"
    "\<exists>w'. delete_credentials_step (bare_deps bare_node) (saga_job ty) w = (Inr (), w') \<and> bare_state w' s tr"
    "\<exists>w'. release_step (bare_deps bare_node) (saga_job ty) w = (Inr (), w') \<and> bare_state w' s tr"
    "\<exists>w'. verify_gone_step (bare_deps bare_node) (saga_job ty) w = (Inr (), w') \<and> bare_state w' s 
       (tr @ [ContainerList (LABEL_REF @ ''='' @ ''ref''), VolumeJson (volume_name_for ''ref''), NetworkJson (network_name ''ref'')])"
    "\<exists>w'. mark_deleted_step (bare_deps bare_node) (saga_job ty) w = (Inr (), w') \<and> bare_state w' StDeleted tr"
proof -
  note r = bare_reads[OF w]
  note [simp] = r eff_defs Let_def load_project_def require_docker_def
  have [simp]: "pe_id (bare_entry s) = ''p''" "pe_ref (bare_entry s) = ''ref''" "pe_status (bare_entry s) = s" "pe_purge_after (bare_entry s) = Some 100" "pe_deleted_at (bare_entry s) = Some 0" for s
    by (simp_all add: bare_entry_def)
  have out: "out_do bare_node = (\<lambda>d t. (case d of ContainerList _ \<Rightarrow> Inr (GotContainers []) | VolumeJson n \<Rightarrow> Inl (Refused 404 ''no such volume'')
       | NetworkJson n \<Rightarrow> Inl (Refused 404 ''no such network'') | ContainerJson n \<Rightarrow> Inl (Refused 404 ''no such container'')
       | _ \<Rightarrow> Inr GotNothing, t))" by (simp add: bare_node_def)
  show "verify_purgeable_step (bare_deps bare_node) (saga_job ty) w = (if s = StSoftDeleted \<or> s = StDeleted then (Inr (), w) else (Inl (''refusing to purge a project in status '' @ status_text s), w))"
    by (simp add: verify_purgeable_step_def)
  show "\<exists>w'. remove_container_step (bare_deps bare_node) (saga_job ty) w = (Inr (), w') \<and> bare_state w' s
       (tr @ [ContainerDelete ''sh-ref'' True False, ContainerDelete ''sh-ref-pooler'' True False, ContainerDelete ''sh-ref-rest'' True False])"
    using w by (simp add: remove_container_step_def each_def targets_def recorded_ids_def blank_ids_def filled_def call_defs out bare_state_def
       container_name_def pooler_name_def postgrest_name_def)
  show "\<exists>w'. remove_network_step (bare_deps bare_node) (saga_job ty) w = (Inr (), w') \<and> bare_state w' s (tr @ [NetworkDelete (network_name ''ref'')])"
    using w by (simp add: remove_network_step_def call_defs out bare_state_def)
  show "\<exists>w'. remove_volume_step (bare_deps bare_node) (saga_job ty) w = (Inr (), w') \<and> bare_state w' s (tr @ [VolumeDelete (volume_name_for ''ref'')])"
    using w by (simp add: remove_volume_step_def call_defs out bare_state_def)
  show "\<exists>w'. schedule_repo_step (bare_deps bare_node) (saga_job ty) w = (Inr (), w') \<and> bare_state w' s tr"
    using w by (auto simp add: schedule_repo_step_def record_repo_def bare_state_def split: option.splits)
  show "\<exists>w'. delete_credentials_step (bare_deps bare_node) (saga_job ty) w = (Inr (), w') \<and> bare_state w' s tr"
    using w by (simp add: delete_credentials_step_def in_keys_def commit_def in_vault_def delete_secrets_def bare_state_def)
  show "\<exists>w'. release_step (bare_deps bare_node) (saga_job ty) w = (Inr (), w') \<and> bare_state w' s tr"
    using w by (simp add: release_step_def in_place_def release_node_def row_of_def bare_state_def)
  show "\<exists>w'. verify_gone_step (bare_deps bare_node) (saga_job ty) w = (Inr (), w') \<and> bare_state w' s 
       (tr @ [ContainerList (LABEL_REF @ ''='' @ ''ref''), VolumeJson (volume_name_for ''ref''), NetworkJson (network_name ''ref'')])"
    using w by (simp add: verify_gone_step_def call_defs out bare_state_def placed_row_def row_of_def)
  show "\<exists>w'. mark_deleted_step (bare_deps bare_node) (saga_job ty) w = (Inr (), w') \<and> bare_state w' StDeleted tr"
    using w by (simp add: mark_deleted_step_def write_project_def bare_state_def deletion_check_def upd_where_def bare_entry_def Let_def)
qed

lemma bare_world_state: "bare_state (bare_world 200 s) s []"
  by (simp add: bare_state_def bare_world_def keyless_project_def no_secrets_def)

lemma bare_purge_run:
  "\<exists>names t' w'. run_steps repo (saga_job ty) [] (purge_project (bare_deps bare_node)) (t, bare_world 200 StSoftDeleted) = (None, names, t', w') \<and>
    VolumeDelete (volume_name_for ''ref'') \<in> set (ho_trace w') \<and> sw_projects w' = [bare_entry StDeleted]"
proof -
  obtain w1 where 1: "remove_container_step (bare_deps bare_node) (saga_job ty) (bare_world 200 StSoftDeleted) = (Inr (), w1)" "bare_state w1 StSoftDeleted
       ([] @ [ContainerDelete ''sh-ref'' True False, ContainerDelete ''sh-ref-pooler'' True False, ContainerDelete ''sh-ref-rest'' True False])"
    using bare_purge(2)[OF bare_world_state] by blast
  obtain tr2 w2 where 2: "remove_network_step (bare_deps bare_node) (saga_job ty) w1 = (Inr (), w2)" "bare_state w2 StSoftDeleted tr2"
    using bare_purge(3)[OF 1(2)] by blast
  obtain w3 where 3: "remove_volume_step (bare_deps bare_node) (saga_job ty) w2 = (Inr (), w3)" "bare_state w3 StSoftDeleted (tr2 @ [VolumeDelete (volume_name_for ''ref'')])"
    using bare_purge(4)[OF 2(2)] by blast
  obtain w4 where 4: "schedule_repo_step (bare_deps bare_node) (saga_job ty) w3 = (Inr (), w4)" "bare_state w4 StSoftDeleted (tr2 @ [VolumeDelete (volume_name_for ''ref'')])"
    using bare_purge(5)[OF 3(2)] by blast
  obtain w5 where 5: "delete_credentials_step (bare_deps bare_node) (saga_job ty) w4 = (Inr (), w5)" "bare_state w5 StSoftDeleted (tr2 @ [VolumeDelete (volume_name_for ''ref'')])"
    using bare_purge(6)[OF 4(2)] by blast
  obtain w6 where 6: "release_step (bare_deps bare_node) (saga_job ty) w5 = (Inr (), w6)" "bare_state w6 StSoftDeleted (tr2 @ [VolumeDelete (volume_name_for ''ref'')])"
    using bare_purge(7)[OF 5(2)] by blast
  obtain tr7 w7 where 7: "verify_gone_step (bare_deps bare_node) (saga_job ty) w6 = (Inr (), w7)" "bare_state w7 StSoftDeleted ((tr2 @ [VolumeDelete (volume_name_for ''ref'')]) @ tr7)"
    using bare_purge(8)[OF 6(2)] by blast
  obtain w8 where 8: "mark_deleted_step (bare_deps bare_node) (saga_job ty) w7 = (Inr (), w8)" "bare_state w8 StDeleted ((tr2 @ [VolumeDelete (volume_name_for ''ref'')]) @ tr7)"
    using bare_purge(9)[OF 7(2)] by blast
  have "verify_purgeable_step (bare_deps bare_node) (saga_job ty) (bare_world 200 StSoftDeleted) = (Inr (), bare_world 200 StSoftDeleted)"
    using bare_purge(1)[OF bare_world_state, of ty StSoftDeleted] by simp
  then show ?thesis using 8(2)
    by (simp add: purge_project_def saga_named_def 1 2 3 4 5 6 7 8 bare_state_def Let_def)
qed

theorem only_a_due_purge_deletes_a_volume_witness:
  "\<exists>names t' w'. run_steps pg_repo (saga_job ''purge_project'') [] (purge_project (bare_deps bare_node)) (\<lparr>jd_rows = [], jd_now = 0\<rparr>, bare_world 200 StSoftDeleted) = (None, names, t', w') \<and>
    VolumeDelete (volume_name_for ''ref'') \<in> set (ho_trace w') \<and> purge_is_due (bare_deps bare_node) ''p'' (bare_world 200 StSoftDeleted)"
proof -
  obtain names t' w' where r: "run_steps pg_repo (saga_job ''purge_project'') [] (purge_project (bare_deps bare_node)) (\<lparr>jd_rows = [], jd_now = 0\<rparr>, bare_world 200 StSoftDeleted) = (None, names, t', w')"
    "VolumeDelete (volume_name_for ''ref'') \<in> set (ho_trace w')" by (metis bare_purge_run)
  have "build_sagas (bare_deps bare_node) ''purge_project'' = Some (purge_project (bare_deps bare_node))" by (simp add: build_sagas_def)
  then have "purge_is_due (bare_deps bare_node) (job_project (saga_job ''purge_project'')) (bare_world 200 StSoftDeleted)"
    using only_a_due_purge_deletes_a_volume[OF _ r(1), where n = "''purge_project''" and d = "VolumeDelete (volume_name_for ''ref'')"] r(2)
    by (simp add: harmless_def bare_world_def)
  then show ?thesis using r by simp
qed

subsection \<open>What a purge leaves\<close>

definition nothing_left :: "'o outside \<Rightarrow> string \<Rightarrow> 'o \<Rightarrow> 'o \<Rightarrow> bool" where
  \<comment> \<open>asked for what it has of the ref, the node has no container, no volume and no network\<close>
  "nothing_left D ref o1 o4 = (\<exists>o2 o3 m n. out_do D (ContainerList (LABEL_REF @ ''='' @ ref)) o1 = (Inr (GotContainers []), o2) \<and>
     out_do D (VolumeJson (volume_name_for ref)) o2 = (Inl (Refused 404 m), o3) \<and> out_do D (NetworkJson (network_name ref)) o3 = (Inl (Refused 404 n), o4))"

lemma list_containers_none:
  "on_host (list_containers D l) w = (Inr [], w') \<Longrightarrow> out_do D (ContainerList l) (ho_out w) = (Inr (GotContainers []), ho_out w') \<and> sw_projects w' = sw_projects w"
  by (auto simp: call_defs split: prod.splits sum.splits option.splits payload.splits)

lemma not_found:
  "on_host (volume_exists D n) w = (Inr False, w') \<Longrightarrow> \<exists>m. out_do D (VolumeJson n) (ho_out w) = (Inl (Refused 404 m), ho_out w') \<and> sw_projects w' = sw_projects w"
  "on_host (network_exists D n) w = (Inr False, w') \<Longrightarrow> \<exists>m. out_do D (NetworkJson n) (ho_out w) = (Inl (Refused 404 m), ho_out w') \<and> sw_projects w' = sw_projects w"
  by (auto simp: call_defs split: prod.splits sum.splits option.splits if_splits engine_error.splits)

lemma basic_Inr:
  "ret a w = (Inr b, w') \<longleftrightarrow> a = b \<and> w = w'" "throw e w = (Inr b, w') \<longleftrightarrow> False" "gets f w = (Inr b, w') \<longleftrightarrow> f w = b \<and> w = w'"
  "guard c e w = (Inr u, w') \<longleftrightarrow> c \<and> w = w'" "modifies g w = (Inr u, w') \<longleftrightarrow> g w = w'"
  by (auto simp: eff_defs)

lemma and_then_Inr_iff: "and_then m f w = (Inr b, w') \<longleftrightarrow> (\<exists>a w1. m w = (Inr a, w1) \<and> f a w1 = (Inr b, w'))"
  by (auto simp: and_then_def split: prod.splits sum.splits)

lemma reads_Inr:
  "load_project p w = (Inr e, w') \<longleftrightarrow> entry_of p w = Some e \<and> w = w'" "require_docker E w = (Inr u, w') \<longleftrightarrow> dp_docker E \<and> w = w'"
  by (auto simp: load_project_def require_docker_def eff_defs split: option.splits)

lemma checks_Inr:
  "and_then a (\<lambda>cs. and_then b (\<lambda>v. and_then c (\<lambda>n. and_then (gets f) (\<lambda>s. and_then (gets g) (\<lambda>p.
     guard (cs = [] \<and> \<not> v \<and> \<not> n \<and> \<not> s \<and> \<not> p) e))))) w = (Inr u, w') \<Longrightarrow>
   \<exists>w1 w2. a w = (Inr [], w1) \<and> b w1 = (Inr False, w2) \<and> c w2 = (Inr False, w') \<and> \<not> f w' \<and> \<not> g w'"
  by (auto simp: and_then_Inr_iff basic_Inr)

lemma verify_gone_result:
  assumes "verify_gone_step E j w = (Inr (), w')"
  shows "\<exists>e. entry_of (job_project j) w = Some e \<and> nothing_left (dp_out E) (pe_ref e) (ho_out w) (ho_out w') \<and>
    \<not> list_ex (\<lambda>r. sr_project r = job_project j) (sd_rows (kb_secrets (sw_keys w'))) \<and> placed_row (job_project j) w' = None \<and> sw_projects w' = sw_projects w"
proof -
  obtain e where e: "entry_of (job_project j) w = Some e" and docker: "dp_docker E"
    using assms unfolding verify_gone_step_def Let_def and_then_Inr_iff reads_Inr by blast
  have "and_then (load_project (job_project j)) f w = f e w" "and_then (require_docker E) g w = g () w" for f g
    using e docker by (simp_all add: load_project_def require_docker_def guard_def and_then_def gets_def ret_def)
  note assms[unfolded verify_gone_step_def Let_def this]
  from checks_Inr[OF this] obtain w1 w2 where 1: "on_host (list_containers (dp_out E) (LABEL_REF @ ''='' @ pe_ref e)) w = (Inr [], w1)"
    and 2: "on_host (volume_exists (dp_out E) (volume_name_for (pe_ref e))) w1 = (Inr False, w2)"
    and 3: "on_host (network_exists (dp_out E) (network_name (pe_ref e))) w2 = (Inr False, w')"
    and 4: "\<not> list_ex (\<lambda>r. sr_project r = job_project j) (sd_rows (kb_secrets (sw_keys w')))" "placed_row (job_project j) w' = None"
    by auto
  note asked = list_containers_none[OF 1] not_found(1)[OF 2] not_found(2)[OF 3]
  then have "sw_projects w' = sw_projects w" by auto
  moreover have "nothing_left (dp_out E) (pe_ref e) (ho_out w) (ho_out w')"
    using asked unfolding nothing_left_def by metis
  ultimately show ?thesis using e 4 by (intro exI[of _ e] conjI)
qed

lemma entry_of_marked:
  assumes "sw_projects w' = upd_where (\<lambda>e. pe_id e = p \<and> pe_status e \<noteq> s) (\<lambda>e. e\<lparr>pe_status := s\<rparr>) (sw_projects w)"
  shows "entry_of p w' = map_option (\<lambda>e. e\<lparr>pe_status := s\<rparr>) (entry_of p w)"
proof -
  have "entry_of p w' = map_option (\<lambda>e. if pe_id e = p \<and> pe_status e \<noteq> s then e\<lparr>pe_status := s\<rparr> else e) (entry_of p w)"
    unfolding entry_of_def upd_where_def assms by (rule find_update) simp
  moreover have "e\<lparr>pe_status := s\<rparr> = e" if "pe_status e = s" for e :: project_entry using that by (cases e) simp
  moreover have "pe_id e = p" if "entry_of p w = Some e" for e using that by (auto simp: entry_of_def find_Some_iff)
  ultimately show ?thesis by (cases "entry_of p w") auto
qed

lemma mark_deleted_result:
  assumes "mark_deleted_step E j w = (Inr (), w')"
  shows "sw_projects w' = upd_where (\<lambda>e. pe_id e = job_project j \<and> pe_status e \<noteq> StDeleted) (\<lambda>e. e\<lparr>pe_status := StDeleted\<rparr>) (sw_projects w) \<and>
    w'\<lparr>sw_projects := sw_projects w\<rparr> = w"
  using assms by (auto simp: mark_deleted_step_def write_project_def eff_defs Let_def split: if_splits)

text \<open>
  C12. A purge that succeeds has left nothing behind, and it has asked: after every deletion the node itself was
  asked what it still has under the project's ref, and named no container, no volume and no network; no secret and
  no placement of the project is stored; and only then is the project marked as deleted.
\<close>

theorem purge_leaves_nothing:
  assumes "run_steps repo job [] (purge_project E) (t, w) = (None, names, t', w')"
  shows "\<exists>o1 e. entry_of (job_project job) w' = Some e \<and> pe_status e = StDeleted \<and> nothing_left (dp_out E) (pe_ref e) o1 (ho_out w') \<and>
    \<not> list_ex (\<lambda>r. sr_project r = job_project job) (sd_rows (kb_secrets (sw_keys w'))) \<and> placed_row (job_project job) w' = None"
proof -
  let ?before = "[saga_named ''verify_purgeable'' (verify_purgeable_step E), saga_named ''remove_container'' (remove_container_step E),
     saga_named ''remove_network'' (remove_network_step E), saga_named ''remove_volume'' (remove_volume_step E),
     saga_named ''schedule_repo_destruction'' (schedule_repo_step E), saga_named ''delete_credentials'' (delete_credentials_step E),
     saga_named ''release_capacity'' (release_step E)]"
  have app: "purge_project E = (?before @ [saga_named ''verify_gone'' (verify_gone_step E)]) @ [saga_named ''mark_deleted'' (mark_deleted_step E)]"
    by (simp add: purge_project_def)
  obtain names1 t1 w1 where 1: "run_steps repo job [] (?before @ [saga_named ''verify_gone'' (verify_gone_step E)]) (t, w) = (None, names1, t1, w1)"
    and md: "mark_deleted_step E job w1 = (Inr (), w')"
    using run_steps_app[OF assms[unfolded app]] by (auto simp: saga_named_def)
  obtain w2 where vg: "verify_gone_step E job w2 = (Inr (), w1)"
    using run_steps_app[OF 1] by (auto simp: saga_named_def)
  obtain e where e: "entry_of (job_project job) w2 = Some e" "nothing_left (dp_out E) (pe_ref e) (ho_out w2) (ho_out w1)"
      "\<not> list_ex (\<lambda>r. sr_project r = job_project job) (sd_rows (kb_secrets (sw_keys w1)))" "placed_row (job_project job) w1 = None" "sw_projects w1 = sw_projects w2"
    using verify_gone_result[OF vg] by blast
  have w1: "w1 = w'\<lparr>sw_projects := sw_projects w1\<rparr>" using mark_deleted_result[OF md] by simp
  have same: "entry_of p w1 = entry_of p w2" for p using e(5) by (simp add: entry_of_def)
  have "\<exists>e'. entry_of (job_project job) w' = Some e' \<and> pe_status e' = StDeleted \<and> pe_ref e' = pe_ref e"
    using entry_of_marked[OF mark_deleted_result[OF md, THEN conjunct1]] e(1) same by simp
  moreover have "ho_out w1 = ho_out w'" "sw_keys w1 = sw_keys w'" "placed_row p w1 = placed_row p w'" for p
    by (subst w1, simp add: placed_row_def)+
  ultimately show ?thesis using e(2-4) by metis
qed

theorem purge_leaves_nothing_witness:
  "\<exists>(w' :: (string, nat) saga_world) o1. nothing_left bare_node ''ref'' o1 (ho_out w') \<and> VolumeDelete (volume_name_for ''ref'') \<in> set (ho_trace w')"
proof -
  obtain names t' w' where r: "run_steps pg_repo (saga_job ''purge_project'') [] (purge_project (bare_deps bare_node)) (\<lparr>jd_rows = [], jd_now = 0\<rparr>, bare_world 200 StSoftDeleted) = (None, names, t', w')"
    "VolumeDelete (volume_name_for ''ref'') \<in> set (ho_trace w')" "sw_projects w' = [bare_entry StDeleted]" by (metis bare_purge_run)
  obtain o1 where "nothing_left bare_node ''ref'' o1 (ho_out w')"
    using purge_leaves_nothing[OF r(1)] r(3) by (auto simp: entry_of_def bare_entry_def)
  with r(2) show ?thesis by (intro exI[of _ w'] exI[of _ o1] conjI)
qed

subsection \<open>After a purge\<close>

lemma load_placement_Inr: "load_placement p w = (Inr m, w') \<longleftrightarrow> placement_of p w = Some m \<and> w = w'"
  by (auto simp: load_placement_def eff_defs split: option.splits)

lemma stored_nothing:
  assumes "\<not> list_ex (\<lambda>r. sr_project r = p) (sd_rows (kb_secrets (sw_keys w)))"
  shows "\<exists>w'. stored E p n w = (Inr None, w') \<and> ho_trace w' = ho_trace w"
proof -
  have "read_secret p n db = None" if "sd_rows db = sd_rows (kb_secrets (sw_keys w))" for db
    using assms that by (auto simp: read_secret_def find_None_iff list_ex_iff secret_named_def)
  then show ?thesis by (simp add: stored_def in_keys_def kept_def in_vault_def secret_get_def eff_defs)
qed

lemma credentials_gone:
  assumes "delete_credentials_step E j w = (Inr u, w')"
  shows "\<not> list_ex (\<lambda>r. sr_project r = job_project j) (sd_rows (kb_secrets (sw_keys w'))) \<and> sw_repos w' = sw_repos w"
  using assms
  by (auto simp: delete_credentials_step_def in_keys_def commit_def in_vault_def delete_secrets_def eff_defs list_ex_iff split: option.splits nat.splits)

text \<open>
  C25. The backup that outlives a purge cannot be read: the purge records that the repo is kept for thirty more days,
  and then deletes the passphrase it is encrypted under with the other credentials. From that moment every attempt
  to point a restore at the repo fails before it asks the node anything.
\<close>

theorem purged_backup_cannot_be_read:
  assumes "dp_repo E = Some repo" "\<forall>r \<in> set (sw_repos w). rp_project r \<noteq> job_project j"
    and "schedule_repo_step E j w = (Inr (), w1)" "delete_credentials_step E j w1 = (Inr (), w2)"
  shows "(\<exists>r \<in> set (sw_repos w2). rp_project r = job_project j \<and> rp_destroy_after r = Some (now_of E w + 30 * DAY)) \<and>
    (\<forall>c. \<exists>err w3. write_source_repo_conf E c (job_project j) w2 = (Inl err, w3) \<and> ho_trace w3 = ho_trace w2)"
proof
  have "sw_repos w1 = sw_repos w @ [\<lparr>rp_project = job_project j, rp_path = repo_path_for (job_project j), rp_bucket = rt_bucket repo,
      rp_destroy_after = Some (now_of E w + 30 * DAY)\<rparr>]"
    using assms(1-3) by (auto simp: schedule_repo_step_def record_repo_def REPO_RETENTION_DAYS_def list_ex_iff eff_defs)
  then show "\<exists>r \<in> set (sw_repos w2). rp_project r = job_project j \<and> rp_destroy_after r = Some (now_of E w + 30 * DAY)"
    using credentials_gone[OF assms(4)] by simp
  obtain w3 where "stored E (job_project j) BACKUP_CIPHER_PASS w2 = (Inr None, w3)" "ho_trace w3 = ho_trace w2"
    using stored_nothing[of "job_project j" w2] credentials_gone[OF assms(4)] by blast
  then show "\<forall>c. \<exists>err w3. write_source_repo_conf E c (job_project j) w2 = (Inl err, w3) \<and> ho_trace w3 = ho_trace w2"
    using assms(1) by (auto simp: write_source_repo_conf_def require_secrets_def filled_def eff_defs)
qed

theorem purged_backup_cannot_be_read_witness:
  "\<exists>w2. rp_destroy_after (hd (sw_repos w2)) = Some (200 + 30 * DAY) \<and>
    (\<forall>c. \<exists>err w3. write_source_repo_conf (bare_deps bare_node) c ''p'' w2 = (Inl err, w3) \<and> ho_trace w3 = ho_trace w2)"
proof -
  let ?w = "bare_world 200 StSoftDeleted" and ?j = "saga_job ''purge_project''"
  obtain repo where repo: "dp_repo (bare_deps bare_node) = Some repo" by (simp add: bare_deps_def)
  obtain w1 where 1: "schedule_repo_step (bare_deps bare_node) ?j ?w = (Inr (), w1)" "bare_state w1 StSoftDeleted []"
    using bare_purge(5)[OF bare_world_state] by blast
  obtain w2 where 2: "delete_credentials_step (bare_deps bare_node) ?j w1 = (Inr (), w2)" "bare_state w2 StSoftDeleted []"
    using bare_purge(6)[OF 1(2)] by blast
  have "\<forall>r \<in> set (sw_repos ?w). rp_project r \<noteq> job_project ?j" by (simp add: bare_world_def)
  note purged_backup_cannot_be_read[OF repo this 1(1) 2(1)]
  moreover have "length (sw_repos w2) = 1"
    using credentials_gone[OF 2(1)] 1(1) repo by (auto simp: schedule_repo_step_def record_repo_def bare_world_def eff_defs)
  then obtain r where "sw_repos w2 = [r]" by (cases "sw_repos w2") auto
  ultimately show ?thesis by (intro exI[of _ w2]) (simp add: now_of_def clock_def bare_node_def bare_deps_def bare_world_def)
qed

lemma recovery_loop_left:
  assumes "\<And>w s w'. recovery_state E ep pws w = (Inr s, w') \<Longrightarrow> \<not> rc_in_recovery s"
  shows "recovery_loop E ep pws dl n st w = (Inr (Some s), w') \<Longrightarrow> (\<And>s. st = Some s \<Longrightarrow> \<not> rc_in_recovery s) \<Longrightarrow> \<not> rc_in_recovery s"
proof (induction n arbitrary: st w)
  case 0 then show ?case by (simp add: throw_def)
next
  case (Suc n)
  show ?case
  proof (cases "recovery_state E ep pws w")
    case (Pair r w1)
    then show ?thesis
      using Suc.prems assms[of w] Suc.IH
      by (cases r) (auto simp: and_then_def gets_def caught_def ret_def sleep_def modifies_def Let_def split: if_splits)
  qed
qed

definition left_recovery :: "'o outside \<Rightarrow> bool" where
  \<comment> \<open>whenever it answers, it answers that it is out of recovery\<close>
  "left_recovery D = (\<forall>a b o1 rows o2. out_do D (PgQuery a b RECOVERY_QUERY []) o1 = (Inr (GotRows rows), o2) \<longrightarrow>
     (case rows of (Some x # _) # _ \<Rightarrow> x \<noteq> ''t'' | _ \<Rightarrow> True))"

lemma left_recovery_state:
  fixes w w' :: "('c, 'o) saga_world"
  assumes "left_recovery (dp_out E)" "recovery_state E ep pws w = (Inr s, w')"
  shows "\<not> rc_in_recovery s"
proof -
  obtain rows and w1 w2 :: "('c, 'o) saga_world" where q: "on_host (query (dp_out E) ep RECOVERY_QUERY []) w1 = (Inr rows, w2)" "read_recovery rows = Some s"
    using assms(2) by (auto simp: recovery_state_def and_then_Inr_iff basic_Inr split: option.splits)
  have "out_do (dp_out E) (PgQuery (fst ep) (snd ep) RECOVERY_QUERY []) (ho_out w1) = (Inr (GotRows rows), ho_out w2)"
    using q(1) by (auto simp: query_def call_defs split: prod.splits sum.splits option.splits payload.splits)
  then have "case rows of (Some x # _) # _ \<Rightarrow> x \<noteq> ''t'' | _ \<Rightarrow> True" using assms(1) unfolding left_recovery_def by blast
  then show ?thesis using q(2) by (auto simp: read_recovery_def split: list.splits option.splits)
qed


definition promoted_node :: "nat outside" where
  "promoted_node = bare_node\<lparr>out_do := (\<lambda>d t. case d of
     ContainerJson n \<Rightarrow> (Inr (GotContainer \<lparr>ct_id = ''c'', ct_running = True, ct_restarting = False, ct_status = ''running'', ct_exit = 0, ct_error = []\<rparr>), t)
   | PgQuery a b sql ps \<Rightarrow> (Inr (GotRows [[Some ''f'', None, Some ''0/4000080'', None]]), t)
   | _ \<Rightarrow> out_do bare_node d t)\<rparr>"

definition restored_world :: "(string, nat) saga_world" where
  "restored_world = (bare_world 0 StProvisioning)\<lparr>sw_restores := [\<lparr>rr_project = ''p'', rr_source = Some ''q'', rr_source_ref = ''old'', rr_target = Some 5,
     rr_label = None, rr_reached = None, rr_lsn = None, rr_succeeded = False\<rparr>]\<rparr>"


subsection \<open>Ready means usable\<close>

text \<open>
  C32. A provisioning run that ends without an error, fresh or resumed from any checkpoint short of its end, leaves a project that is
  ready and that passes its own readiness test: the database runs, its container, its pooler and its host are on record,
  at least four secrets and two API keys are stored.
\<close>

theorem provisioned_means_ready:
  assumes "run_steps repo job finished (provision_project E) (t, w) = (None, names, t', w')" "''mark_ready'' \<notin> set finished"
  shows "(\<exists>r. readiness_of (job_project job) w' = Some r \<and> ready_problems r = []) \<and>
    (\<forall>e. entry_of (job_project job) w' = Some e \<longrightarrow> pe_status e = StReady)"
proof -
  obtain before where app: "provision_project E = before @ [saga_named ''mark_ready'' (mark_ready_step E)]" "''mark_ready'' \<notin> set (map sg_name before)"
    by (simp add: provision_project_def saga_named_def)
  obtain w1 where m: "mark_ready_step E job w1 = (Inr (), w')"
    using run_steps_app[OF assms(1)[unfolded app(1)]] assms(2) app(2) by (auto simp: saga_named_def)
  then obtain r where r: "readiness_of (job_project job) w1 = Some r" "ready_problems r = []"
    and w': "w' = w1\<lparr>sw_projects := upd_where (\<lambda>e. pe_id e = job_project job \<and> pe_status e \<noteq> StReady) (\<lambda>e. e\<lparr>pe_status := StReady\<rparr>) (sw_projects w1)\<rparr>"
    by (auto simp: mark_ready_step_def write_project_def eff_defs Let_def split: option.splits if_splits)
  have "readiness_of (job_project job) w' = Some r" using r(1) by (simp add: w' readiness_of_def placed_row_def)
  moreover have "\<forall>e. entry_of (job_project job) w' = Some e \<longrightarrow> pe_status e = StReady"
    by (subst entry_of_marked[of w' "job_project job" StReady w1]) (auto simp: w')
  ultimately show ?thesis using r(2) by blast
qed

definition almost_ready :: "(string, nat) saga_world" where
  \<comment> \<open>all that \<open>mark_ready\<close> asks for, for a project still being provisioned\<close>
  "almost_ready = (bare_world 0 StProvisioning)\<lparr>
     sw_projects := [(bare_entry StProvisioning)\<lparr>pe_deleted_at := None, pe_purge_after := None\<rparr>],
     sw_place := \<lparr>pn_nodes = [], pn_rows = [(new_row (sample_args\<lparr>pa_project := ''p''\<rparr>) ''n1'' 5433 6433 7433)\<lparr>pd_status := ''running''\<rparr>], pn_now = 0\<rparr>,
     sw_ids := (\<lambda>_. \<lparr>in_database = Some ''c'', in_pooler = Some ''d'', in_postgrest = None, in_host = Some ''h''\<rparr>),
     sw_keys := (keyless_project None)\<lparr>
       kb_secrets := \<lparr>sd_rows = map (\<lambda>n. stored_first n ''v'') [POSTGRES_PASSWORD, DEVELOPER_PASSWORD, AUTHENTICATOR_PASSWORD, POOLER_AUTH_PASSWORD], sd_now = 0\<rparr>,
       kb_api := map (\<lambda>k. \<lparr>ak_project = ''p'', ak_kind = k, ak_hash = k, ak_prefix = k, ak_revoked = None\<rparr>) [''anon'', ''service'']\<rparr>\<rparr>"

theorem provisioned_means_ready_witness:
  "\<exists>names t' w'. run_steps pg_repo (saga_job ''provision_project'') (map sg_name (butlast (provision_project (bare_deps bare_node))))
      (provision_project (bare_deps bare_node)) (\<lparr>jd_rows = [], jd_now = 0\<rparr>, almost_ready) = (None, names, t', w') \<and>
    names = [''mark_ready''] \<and> (\<forall>e. entry_of ''p'' w' = Some e \<longrightarrow> pe_status e = StReady)"
proof -
  have m: "\<exists>w'. mark_ready_step (bare_deps bare_node) (saga_job ''provision_project'') almost_ready = (Inr (), w')"
    by (simp add: mark_ready_step_def readiness_of_def almost_ready_def placed_row_def row_of_def new_row_def sample_args_def ready_problems_def
       filled_def stored_first_def write_project_def deletion_check_def bare_entry_def eff_defs Let_def)
  then obtain w' where w': "mark_ready_step (bare_deps bare_node) (saga_job ''provision_project'') almost_ready = (Inr (), w')" ..
  obtain t' where r: "run_steps pg_repo (saga_job ''provision_project'') (map sg_name (butlast (provision_project (bare_deps bare_node))))
      (provision_project (bare_deps bare_node)) (\<lparr>jd_rows = [], jd_now = 0\<rparr>, almost_ready) = (None, [''mark_ready''], t', w')"
    using w' by (simp add: provision_project_def saga_named_def Let_def)
  have "''mark_ready'' \<notin> set (map sg_name (butlast (provision_project (bare_deps bare_node))))"
    by (simp add: provision_project_def saga_named_def)
  from provisioned_means_ready[OF r this] r show ?thesis by auto
qed

subsection \<open>The pooler's restart policy\<close>

definition no_policy :: "deed \<Rightarrow> bool" where
  "no_policy d = (case d of ContainerUpdate _ _ \<Rightarrow> False | _ \<Rightarrow> True)"

lemma no_policy_calls:
  "always (did no_policy) (image_exists D n)" "always (did no_policy) (network_exists D n)" "always (did no_policy) (create_network D n l)"
  "always (did no_policy) (inspect_container D n)" "always (did no_policy) (create_container D n sp)" "always (did no_policy) (start_container D n)"
  "always (did no_policy) (told D (PgConnect a b u pw))" "always (did no_policy) (query D ep sql params)"
  by (auto intro!: deeds.always_client deeds.always_asked deeds.always_sql simp: no_policy_def deeds.sql_deeds_def)

text \<open>
  A pooler never gets a restart policy. It is created with the policy \<open>no\<close>, and neither the step that starts it nor the step
  that waits for it to serve a connection asks the node to change it; so when the node restarts, the database and the data
  API come back and the pooled endpoint does not.
\<close>

theorem pooler_is_never_promoted:
  "cs_restart (pooler_spec ref n port pw) = ''no'' \<and> always (did no_policy) (start_pooler_step E j) \<and> always (did no_policy) (wait_pooler_healthy_step E j)"
proof (intro conjI)
  note i = deeds.always_intros saga_did no_policy_calls
  have net: "always (did no_policy) (ensure_network E ref)" for ref :: string
    unfolding ensure_network_def by (auto intro!: i)
  have there: "always (did no_policy) (present_container E n spec)" if "always (did no_policy) spec" for n spec
    using that unfolding present_container_def found_again_def by (auto intro!: i split: option.splits)
  have run: "always (did no_policy) (running E c)" for c unfolding running_def by (auto intro!: i)
  show "always (did no_policy) (start_pooler_step E j)"
    unfolding start_pooler_step_def Let_def by (auto intro!: i net there run split: option.splits)
  have probe: "always (did no_policy) (pooler_probe E e m pw)" for e m pw
    unfolding pooler_probe_def by (auto intro!: i split: option.splits)
  show "always (did no_policy) (wait_pooler_healthy_step E j)"
    unfolding wait_pooler_healthy_step_def Let_def by (auto intro!: i did_poll probe split: option.splits)
qed (simp add: pooler_spec_def)

subsection \<open>A pause stops a database that was backed up\<close>

interpretation books: host_order "kept_as sw_backups" D "\<lambda>_. True" for D
  by (intro host_order.intro host_order_axioms.intro keeps.effect_order_axioms)
    (auto simp: always_def kept_as_def perform_def slept_def split: prod.splits)

definition no_stop :: "deed \<Rightarrow> bool" where
  "no_stop d = (case d of ContainerStop _ \<Rightarrow> False | _ \<Rightarrow> True)"

definition stops :: "('c, 'o) saga_world \<Rightarrow> nat" where
  "stops w = length (filter (\<lambda>d. \<not> no_stop d) (ho_trace w))"

lemma stops_did: "did no_stop w w' \<Longrightarrow> stops w' = stops w"
  by (auto simp: did_def stops_def list_all_iff)

lemma no_stop_calls [saga_did]:
  "always (did no_stop) (inspect_container D n)" "always (did no_stop) (set_restart_policy D n pol)"
  by (auto intro!: deeds.always_client simp: no_stop_def)

lemma no_stop_execs [simp]: "deeds.execs no_stop c cmd" "deeds.repo_execs no_stop c"
  by (simp_all add: deeds.execs_def deeds.repo_execs_def no_stop_def)

lemma no_stop_runs [saga_did]:
  "always (did no_stop) (docker_exec D c cmd)" "always (did no_stop) (backup_check D c)" "always (did no_stop) (backup_info D rd c)"
  "always (did no_stop) (take_backup D c k)"
  by (rule deeds.always_exec deeds.always_backups, simp)+

lemma quiet_then:
  assumes "always (did no_stop) m" "stops w \<le> n" "\<And>w1. stops w1 \<le> n \<Longrightarrow> P w1" "\<And>a w1. stops w1 \<le> n \<Longrightarrow> P (snd (f a w1))"
  shows "P (snd (and_then m f w))"
proof -
  obtain r w1 where m: "m w = (r, w1)" by fastforce
  then have "stops w1 = stops w" using assms(1) by (intro stops_did) (auto simp: always_def dest: spec[of _ w])
  then show ?thesis using assms m by (cases r) (auto simp: and_then_def)
qed

lemma stop_once: "stops (snd (on_host (stop_container D i) w)) \<le> Suc (stops w)"
proof -
  have "ho_trace (snd (on_host (stop_container D i) w)) = ho_trace w @ [ContainerStop i]"
    by (simp add: on_host_def lift_error_def stop_container_def forgiven_def caught_def told_def perform_def eff_defs
        split: prod.splits sum.splits engine_error.splits)
  then show ?thesis by (simp add: stops_def)
qed

lemma quiet_stop_once:
  fixes w :: "('c, 'o) saga_world"
  shows "stops (snd (quiet_stop E i w)) \<le> Suc (stops w) \<and> sw_backups (snd (quiet_stop E i w)) = sw_backups w"
proof
  obtain r w1 where m: "on_host (set_restart_policy (dp_out E) i ''no'') w = (r, w1)" by fastforce
  have "always (did no_stop) (on_host (set_restart_policy (dp_out E) i ''no'') :: ('c, 'o, unit) saga)" by (intro saga_did)
  then have "stops w1 = stops w" using m unfolding always_def by (metis snd_conv stops_did)
  then show "stops (snd (quiet_stop E i w)) \<le> Suc (stops w)"
    using stop_once[of "dp_out E" i w1] by (cases r) (simp_all add: quiet_stop_def and_then_def m)
  have "always (kept_as sw_backups) (quiet_stop E i)"
    unfolding quiet_stop_def on_host_def by (intro keeps.always_intros books.always_client TrueI)
  then show "sw_backups (snd (quiet_stop E i w)) = sw_backups w" by (simp add: always_def kept_as_def)
qed

definition backed_up :: "job_row \<Rightarrow> ('c, 'o) saga_world \<Rightarrow> bool" where
  "backed_up j w = (\<exists>b \<in> set (sw_backups w). br_job b = jb_id j \<and> br_status b = RunSucceeded)"

lemma interlocked_backup_quiet: "always (did no_stop) (interlocked_backup E j c)"
  unfolding interlocked_backup_def Let_def by (auto intro!: deeds.always_intros saga_did split: prod.splits)

lemma books_kept:
  fixes w w' :: "('c, 'o) saga_world"
  shows "on_host (take_backup D c k) w = (r1, w') \<Longrightarrow> sw_backups w' = sw_backups w"
    and "on_host (backup_info D rd c) w = (r2, w') \<Longrightarrow> sw_backups w' = sw_backups w"
    and "on_host (backup_check D c) w = (r3, w') \<Longrightarrow> sw_backups w' = sw_backups w"
proof -
  have x: "books.repo_execs c" by (simp add: books.repo_execs_def books.execs_def)
  have "always (kept_as sw_backups) (on_host (take_backup D c k) :: ('c, 'o, _) saga)" "always (kept_as sw_backups) (on_host (backup_info D rd c) :: ('c, 'o, _) saga)"
    "always (kept_as sw_backups) (on_host (backup_check D c) :: ('c, 'o, _) saga)"
    unfolding on_host_def by (intro keeps.always_lift_error books.always_backups x)+
  then show "on_host (take_backup D c k) w = (r1, w') \<Longrightarrow> sw_backups w' = sw_backups w"
    "on_host (backup_info D rd c) w = (r2, w') \<Longrightarrow> sw_backups w' = sw_backups w"
    "on_host (backup_check D c) w = (r3, w') \<Longrightarrow> sw_backups w' = sw_backups w"
    unfolding always_def kept_as_def by (metis snd_conv)+
qed

lemma caught_Inr: "caught m h w = (Inr a, w') \<Longrightarrow> (\<And>e w1. fst (h e w1) \<noteq> Inr a) \<Longrightarrow> m w = (Inr a, w')"
  unfolding caught_def by (auto split: prod.splits sum.splits) (metis fst_conv)

lemma interlocked_backup_result:
  assumes "interlocked_backup E j c w = (Inr (), w')"
  shows "backed_up j w'"
proof -
  let ?run = "\<lambda>k w. new_run (job_project j) (jb_id j) k (now_of E w) (sw_backups w)"
  obtain k w1 where run: "caught
        (and_then (on_host (take_backup (dp_out E) c k)) (\<lambda>_.
         and_then (on_host (backup_info (dp_out E) (dp_read_info E) c)) (\<lambda>after.
         and_then (close_run E (length (sw_backups w)) RunSucceeded (last_entry after)) (\<lambda>_.
         and_then (on_host (backup_check (dp_out E) c)) (\<lambda>(good, out).
         guard good (''pgbackrest check failed after the final backup: '' @ out))))))
        (\<lambda>err. and_then (close_run E (length (sw_backups w)) RunFailed None) (\<lambda>_. throw (''pause stopped: '' @ err))) w1 = (Inr (), w')"
    and w1: "sw_backups w1 = sw_backups w @ [?run k w]"
    using assms by (auto simp: interlocked_backup_def Let_def open_run_def and_then_Inr_iff basic_Inr)
  from run have "and_then (on_host (take_backup (dp_out E) c k)) (\<lambda>_.
         and_then (on_host (backup_info (dp_out E) (dp_read_info E) c)) (\<lambda>after.
         and_then (close_run E (length (sw_backups w)) RunSucceeded (last_entry after)) (\<lambda>_.
         and_then (on_host (backup_check (dp_out E) c)) (\<lambda>(good, out).
         guard good (''pgbackrest check failed after the final backup: '' @ out))))) w1 = (Inr (), w')"
    by (rule caught_Inr) (simp add: eff_defs close_run_def)
  then obtain r2 r5 w2 w3 after w4 where 2: "on_host (take_backup (dp_out E) c k) w1 = (r2, w2)"
    and 3: "on_host (backup_info (dp_out E) (dp_read_info E) c) w2 = (Inr after, w3)"
    and 4: "close_run E (length (sw_backups w)) RunSucceeded (last_entry after) w3 = (Inr (), w4)"
    and 5: "on_host (backup_check (dp_out E) c) w4 = (r5, w')"
    by (auto simp: and_then_Inr_iff basic_Inr)
  have "sw_backups w3 = sw_backups w @ [?run k w]" using w1 books_kept(1)[OF 2] books_kept(2)[OF 3] by simp
  then have "\<exists>b \<in> set (sw_backups w4). br_job b = jb_id j \<and> br_status b = RunSucceeded"
    using 4 by (auto simp: close_run_def modifies_def upd_where_def new_run_def)
  then show ?thesis using books_kept(3)[OF 5] by (simp add: backed_up_def)
qed



end
