(* ===== verification/ReconcileSafety.thy ===== *)
theory ReconcileSafety
  imports Reconcile SagaRuns
begin

text \<open>
  What a sweep of the reconciler does, theory \<open>Reconcile\<close>, to the rest of the program: it destroys nothing, and where it works against the
  sagas: the books of paused projects, the key of a second repair, the last backup of a pause.
\<close>

subsection \<open>Nothing is destroyed\<close>

definition scan_did :: "(deed \<Rightarrow> bool) \<Rightarrow> ('c, 'o, 'q) scan_world \<Rightarrow> ('c, 'o, 'q) scan_world \<Rightarrow> bool" where
  "scan_did P w w' = did P (sn_saga w) (sn_saga w')"

interpretation scans: effect_order "scan_did P" for P
  by unfold_locales (auto simp: scan_did_def intro: deeds.same deeds.chain)

lemma scan_in_saga: "always (did P) m \<Longrightarrow> always (scan_did P) (in_saga m)"
  by (auto simp: always_def scan_did_def in_saga_def split: prod.splits) (metis snd_conv)

lemma scan_tables: "always (scan_did P) (write_job E f p ty k)" "always (scan_did P) (hand_over ops k)"
  by (auto simp: always_def scan_did_def write_job_def hand_over_def deeds.same split: prod.splits sum.splits)

lemma scan_collected: "(\<And>x. x \<in> set xs \<Longrightarrow> always (scan_did P) (f x)) \<Longrightarrow> always (scan_did P) (collected f xs)"
  by (induction xs) (auto intro!: scans.always_intros)

lemma scan_repair: "always (scan_did P) (enqueue_repair E ops f l p)" "always (scan_did P) (repaired E ops f l e c)"
proof -
  show r: "always (scan_did P) (enqueue_repair E ops f l p)" for p
    unfolding enqueue_repair_def by (auto intro!: scans.always_intros scan_tables scan_in_saga saga_did split: option.splits)
  show "always (scan_did P) (repaired E ops f l e c)" unfolding repaired_def by (intro scans.always_intros r)
qed

definition gentle :: "deed \<Rightarrow> bool" where
  \<comment> \<open>it looks, it stops a container, or it takes a restart policy away\<close>
  "gentle d = (case d of ContainerList _ \<Rightarrow> True | VolumeList \<Rightarrow> True | NetworkList _ \<Rightarrow> True | ContainerStop _ \<Rightarrow> True
     | ContainerUpdate _ p \<Rightarrow> p = ''no'' | _ \<Rightarrow> False)"

lemma gentle_calls:
  "always (did gentle) (list_containers D l)" "always (did gentle) (list_volumes D)" "always (did gentle) (list_networks D l)"
  "always (did gentle) (stop_container D i)" "always (did gentle) (set_restart_policy D i ''no'')"
  by (auto intro!: deeds.always_client simp: gentle_def)

lemma gentle_project: "always (scan_did gentle) (check_project E ops f l s row)"
proof -
  have "always (scan_did gentle) (stop_zombie E on ref)" for on ref
    unfolding stop_zombie_def
    by (auto intro!: scans.always_intros scan_in_saga deeds.always_swallowed did_on_host gentle_calls split: option.splits)
  then show ?thesis
    unfolding check_project_def Let_def by (cases row) (auto intro!: scans.always_intros scan_repair)
qed

text \<open>
  C14. A sweep destroys nothing and starts nothing: whatever it finds and whatever the node answers, all it asks of the node is to list
  things, to stop a container, and to take a restart policy away. No repair that loses data is automatic.
\<close>

theorem sweep_destroys_nothing:
  "always (scan_did gentle) (reconcile_once E ops new_id hostname limit minutes updated)"
proof -
  have "always (scan_did gentle) (recompute_node E n)" for n
    unfolding recompute_node_def by (auto intro!: scans.always_intros scan_in_saga saga_did)
  then show ?thesis
    unfolding reconcile_once_def Let_def
    by (intro scans.always_intros scan_in_saga did_on_host gentle_calls scan_collected gentle_project)
qed

subsection \<open>The memory of paused projects\<close>

lemma plan_ram_pos: "0 < by_plan PLAN_RAM_MB plan"
  by (auto simp: by_plan_def PLAN_RAM_MB_def)

lemma sum_list_less:
  "(\<And>x. x \<in> set xs \<Longrightarrow> f x \<le> g x) \<Longrightarrow> y \<in> set xs \<Longrightarrow> f y < g y \<Longrightarrow> sum_list (map f xs) < sum_list (map (g :: _ \<Rightarrow> nat) xs)"
proof (induction xs)
  case (Cons x xs)
  have "sum_list (map f xs) \<le> sum_list (map g xs)" using Cons.prems(1) by (intro sum_list_mono) auto
  then show ?case using Cons by (cases "y = x") (auto simp: add_le_less_mono add_less_le_mono)
qed simp

text \<open>
  C34. A sweep books the memory of paused projects again. Where the books of a node balance, so that a paused project's row
  has nothing booked, the sweep takes the balance for a drift: it adds up the plans of all
  rows on the node, paused or not, and afterwards the node has more reserved than its rows have booked.
\<close>

theorem sweep_rebooks_paused_projects:
  assumes "n \<in> set (pn_nodes (sw_place (sn_saga w)))" "d \<in> set (rows_on (nd_id n) (sw_place (sn_saga w)))" "pd_ram_booked d = 0"
    and "\<forall>d \<in> set (rows_on (nd_id n) (sw_place (sn_saga w))). \<exists>e. entry_of (pd_project d) (sn_saga w) = Some e \<and> pd_ram_booked d \<in> {0, by_plan PLAN_RAM_MB (pe_plan e)}"
    and "nd_ram_reserved n = sum_list (map pd_ram_booked (rows_on (nd_id n) (sw_place (sn_saga w))))"
    and "recompute_node E n w = (Inr ds, w')"
  shows "ds = [drift_of ReservationDrift None Recomputed] \<and>
    (\<exists>n' \<in> set (pn_nodes (sw_place (sn_saga w'))). nd_id n' = nd_id n \<and>
      sum_list (map pd_ram_booked (rows_on (nd_id n) (sw_place (sn_saga w')))) < nd_ram_reserved n')"
proof -
  let ?rows = "rows_on (nd_id n) (sw_place (sn_saga w))"
  let ?plan = "\<lambda>d. case entry_of (pd_project d) (sn_saga w) of None \<Rightarrow> 0 | Some e \<Rightarrow> by_plan PLAN_RAM_MB (pe_plan e)"
  have "sum_list (map pd_ram_booked ?rows) < sum_list (map ?plan ?rows)"
  proof (rule sum_list_less[of _ pd_ram_booked ?plan, OF _ assms(2)])
    show "pd_ram_booked x \<le> ?plan x" if "x \<in> set ?rows" for x using assms(4) that by fastforce
    obtain e where "entry_of (pd_project d) (sn_saga w) = Some e" using assms(2,4) by blast
    then show "pd_ram_booked d < ?plan d" using plan_ram_pos[of "pe_plan e"] assms(3) by simp
  qed
  then have lt: "sum_list (map pd_ram_booked ?rows) < expected_ram (nd_id n) (sn_saga w)" by (simp add: expected_ram_def)
  have w': "ds = [drift_of ReservationDrift None Recomputed]"
    "sw_place (sn_saga w') = update_node (nd_id n) (\<lambda>r. r\<lparr>nd_ram_reserved := expected_ram (nd_id n) (sn_saga w)\<rparr>)
       ((sw_place (sn_saga w))\<lparr>pn_now := now_of E (sn_saga w) div 1000\<rparr>)"
    using assms(6) lt assms(5)
    by (auto simp: recompute_node_def in_saga_def in_place_def write_node_def eff_defs split: if_splits)
  let ?n = "n\<lparr>nd_ram_reserved := expected_ram (nd_id n) (sn_saga w)\<rparr>"
  have "?n \<in> set (pn_nodes (sw_place (sn_saga w')))" using assms(1) by (force simp: w'(2) update_node_def)
  moreover have "rows_on (nd_id n) (sw_place (sn_saga w')) = ?rows" by (simp add: w'(2) update_node_def rows_on_def)
  ultimately show ?thesis using w'(1) lt by (intro conjI bexI[of _ ?n]) auto
qed

subsection \<open>The second repair\<close>

text \<open>
  C35. A project that was repaired once is never repaired again. Once an hour has passed since its last repair, the sweep
  counts no repairs, chooses the key of the first one again, finds it taken, and reports a repair as enqueued although no
  job is written and nothing is delivered.
\<close>

theorem repaired_once_repaired_never:
  assumes "r \<in> set (jd_rows (sn_jobs w))" "jb_key r = repair_key p 0" "0 < limit"
    and "\<forall>r \<in> set (jd_rows (sn_jobs w)). jb_project r = Some p \<longrightarrow>
      jb_state r \<notin> {Pending, Enqueued, Running} \<and> jb_created r + HOUR \<le> now_of E (sn_saga w)"
  shows "\<exists>w'. enqueue_repair E ops new_id limit p w = (Inr RepairEnqueued, w') \<and> jd_rows (sn_jobs w') = jd_rows (sn_jobs w) \<and>
    sn_queue w' = sn_queue w \<and> sn_saga w' = sn_saga w"
proof -
  have "\<not> list_ex (busy_with p) (jd_rows (sn_jobs w))" using assms(4) by (auto simp: list_ex_iff busy_with_def)
  moreover have "filter (recent_repair (now_of E (sn_saga w)) p) (jd_rows (sn_jobs w)) = []"
    using assms(4) by (fastforce simp: filter_empty_conv recent_repair_def)
  moreover have "list_ex (\<lambda>r. jb_key r = repair_key p 0) (jd_rows (sn_jobs w))" using assms(1,2) by (auto simp: list_ex_iff)
  ultimately show ?thesis using assms(3)
    by (simp add: enqueue_repair_def write_job_def insert_job_def eff_defs)
qed

subsection \<open>A project that is being paused\<close>

lemma stop_leaves_trace:
  "stop_container D i w = (r, w') \<Longrightarrow> ContainerStop i \<in> set (ho_trace w')"
  by (auto simp: stop_container_def forgiven_def told_def perform_def caught_def eff_defs
      split: prod.splits sum.splits engine_error.splits if_splits)

lemma zombie_stopped:
  assumes "map_of l ref = Some c" "cm_running c" "stop_zombie E l ref w = (Inr ds, w')"
  shows "ContainerStop (cm_id c) \<in> set (ho_trace (sn_saga w'))"
proof -
  obtain w1 where "in_saga (on_host (stop_container (dp_out E) (cm_id c))) w1 = (Inr (), w')"
    using assms by (auto simp: stop_zombie_def and_then_Inr_iff basic_Inr)
  then show ?thesis by (auto simp: in_saga_def on_host_def lift_error_def dest!: stop_leaves_trace split: prod.splits sum.splits)
qed

lemma looking_writes_no_backup:
  fixes w w' :: "('c, 'o) saga_world"
  shows "on_host (inspect_container D n) w = (r, w') \<Longrightarrow> sw_backups w' = sw_backups w"
proof -
  have "always (kept_as sw_backups) (on_host (inspect_container D n) :: ('c, 'o, _) saga)"
    unfolding on_host_def by (intro keeps.always_lift_error books.always_client TrueI)
  moreover assume "on_host (inspect_container D n) w = (r, w')"
  ultimately show ?thesis unfolding always_def kept_as_def by (metis snd_conv)
qed

text \<open>
  C19. A sweep can take the last backup from a pause. A project that is being paused counts as one whose containers must not
  run, and a sweep that sees its database running stops it, saga or no saga. The step that was to take the final backup and
  check it before stopping the database (D-077) then finds the database stopped, and succeeds without a backup.
\<close>

theorem sweep_defeats_the_pause_interlock:
  assumes "pe_status e = StPausing" "map_of (se_database s) (pe_ref e) = Some c" "cm_running c"
    and "check_project E ops new_id limit s (e, d) w = (Inr ds, w')"
    and "dp_docker E" "entry_of (job_project j) (sn_saga w') = Some e" "placement_of (job_project j) (sn_saga w') = Some m"
    and "on_host (inspect_container (dp_out E) (or_else (in_pooler (pm_ids m)) (pooler_name (pe_ref e)))) (sn_saga w') = (Inr None, w3)"
    and "on_host (inspect_container (dp_out E) (or_else (in_database (pm_ids m)) (container_name (pe_ref e)))) w3 = (Inr (Some stopped), w4)"
    and "\<not> ct_running stopped"
  shows "ContainerStop (cm_id c) \<in> set (ho_trace (sn_saga w')) \<and>
    checkpoint_and_stop_step E j (sn_saga w') = (Inr (), w4) \<and> sw_backups w4 = sw_backups (sn_saga w')"
proof (intro conjI)
  obtain w1 ds' w2 where "stop_zombie E (se_database s) (pe_ref e) w1 = (Inr ds', w2)" "w2 = w'"
    using assms(1,4) by (auto simp: check_project_def Let_def should_run_def should_not_run_def and_then_Inr_iff basic_Inr)
  then show "ContainerStop (cm_id c) \<in> set (ho_trace (sn_saga w'))" using zombie_stopped[OF assms(2,3)] by blast
  show "checkpoint_and_stop_step E j (sn_saga w') = (Inr (), w4)"
    using assms(5-10) by (simp add: checkpoint_and_stop_step_def load_project_def load_placement_def require_docker_def Let_def eff_defs)
  show "sw_backups w4 = sw_backups (sn_saga w')"
    using looking_writes_no_backup[OF assms(8)] looking_writes_no_backup[OF assms(9)] by simp
qed

subsection \<open>Samples\<close>

definition stopped_node :: "nat outside" where
  \<comment> \<open>it has the stopped database of one project, and no pooler\<close>
  "stopped_node = bare_node\<lparr>out_do := (\<lambda>d t. case d of
     ContainerJson n \<Rightarrow> if n = ''c'' then
         (Inr (GotContainer \<lparr>ct_id = ''c'', ct_running = False, ct_restarting = False, ct_status = ''exited'', ct_exit = 0, ct_error = []\<rparr>), t)
       else (Inl (Refused 404 ''no such container''), t)
   | _ \<Rightarrow> out_do bare_node d t)\<rparr>"

definition booked_world :: "project_status \<Rightarrow> nat \<Rightarrow> job_row list \<Rightarrow> (string, nat, string set) scan_world" where
  \<comment> \<open>one project on one node, with what is booked for it, and the node's books in balance\<close>
  "booked_world s booked jobs = \<lparr>sn_saga = (bare_world 4000000 s)\<lparr>
       sw_place := \<lparr>pn_nodes = [sample_node\<lparr>nd_ram_reserved := booked\<rparr>],
         pn_rows = [(new_row (sample_args\<lparr>pa_project := ''p''\<rparr>) ''n1'' 5433 6433 7433)\<lparr>pd_ram_booked := booked\<rparr>], pn_now = 0\<rparr>,
       sw_ids := (\<lambda>_. \<lparr>in_database = Some ''c'', in_pooler = None, in_postgrest = None, in_host = None\<rparr>)\<rparr>,
     sn_jobs = \<lparr>jd_rows = jobs, jd_now = 0\<rparr>, sn_queue = {}\<rparr>"

lemmas booked_defs = booked_world_def bare_world_def sample_node_def fresh_node_def sample_registration_def new_row_def sample_args_def bare_entry_def
  rows_on_def entry_of_def

theorem sweep_rebooks_paused_projects_witness:
  "\<exists>w'. recompute_node (bare_deps bare_node) (sample_node\<lparr>nd_ram_reserved := 0\<rparr>) (booked_world StPaused 0 []) = (Inr [drift_of ReservationDrift None Recomputed], w') \<and>
    (\<exists>n' \<in> set (pn_nodes (sw_place (sn_saga w'))). 0 < nd_ram_reserved n')"
proof -
  let ?n = "sample_node\<lparr>nd_ram_reserved := 0\<rparr>" and ?w = "booked_world StPaused 0 []"
  have "node_ok (?n\<lparr>nd_ram_reserved := by_plan PLAN_RAM_MB ''free''\<rparr>)"
    by (simp add: node_ok_def sample_node_def fresh_node_def sample_registration_def by_plan_def PLAN_RAM_MB_def)
  then have "\<exists>ds w'. recompute_node (bare_deps bare_node) ?n ?w = (Inr ds, w')"
    by (simp add: recompute_node_def expected_ram_def in_saga_def in_place_def write_node_def booked_defs eff_defs)
  then obtain ds w' where r: "recompute_node (bare_deps bare_node) ?n ?w = (Inr ds, w')" by blast
  obtain d where d: "rows_on (nd_id ?n) (sw_place (sn_saga ?w)) = [d]" "pd_ram_booked d = 0" "pd_project d = ''p''"
    by (simp add: booked_defs)
  have e: "entry_of ''p'' (sn_saga ?w) = Some (bare_entry StPaused)" "?n \<in> set (pn_nodes (sw_place (sn_saga ?w)))" by (simp_all add: booked_defs)
  have "ds = [drift_of ReservationDrift None Recomputed] \<and> (\<exists>n' \<in> set (pn_nodes (sw_place (sn_saga w'))). nd_id n' = nd_id ?n \<and>
      sum_list (map pd_ram_booked (rows_on (nd_id ?n) (sw_place (sn_saga w')))) < nd_ram_reserved n')"
    by (rule sweep_rebooks_paused_projects[OF e(2) _ d(2) _ _ r]) (use d e in simp_all)
  then have "ds = [drift_of ReservationDrift None Recomputed]" "\<exists>n' \<in> set (pn_nodes (sw_place (sn_saga w'))). 0 < nd_ram_reserved n'"
    by (auto dest: gr_implies_not0)
  then show ?thesis using r by blast
qed

definition old_repair :: job_row where
  "old_repair = (saga_job ''provision_project'')\<lparr>jb_key := repair_key ''p'' 0, jb_state := Succeeded\<rparr>"

theorem repaired_once_repaired_never_witness:
  "\<exists>w'. enqueue_repair (bare_deps bare_node) set_queue id 3 ''p'' (booked_world StReady 0 [old_repair]) = (Inr RepairEnqueued, w') \<and>
    jd_rows (sn_jobs w') = [old_repair] \<and> sn_queue w' = {}"
  using repaired_once_repaired_never[of old_repair "booked_world StReady 0 [old_repair]" "''p''" 3 "bare_deps bare_node" set_queue id]
  by (auto simp: booked_defs old_repair_def saga_job_def HOUR_def now_of_def clock_def bare_deps_def bare_node_def)

lemma stopped_node_obeys:
  "on_host (set_restart_policy stopped_node i pol) s = (Inr (), s\<lparr>ho_trace := ho_trace s @ [ContainerUpdate i pol]\<rparr>)"
  "on_host (stop_container stopped_node i) s = (Inr (), s\<lparr>ho_trace := ho_trace s @ [ContainerStop i]\<rparr>)"
  by (simp_all add: call_defs stopped_node_def bare_node_def)

lemma stopped_node_stops:
  "stop_zombie (bare_deps stopped_node) [] ref w = (Inr [], w)"
  "stop_zombie (bare_deps stopped_node) [(ref, \<lparr>cm_id = i, cm_running = True, cm_labels = []\<rparr>)] ref w =
    (Inr [drift_of ZombieContainer (Some ref) Stopped],
     w\<lparr>sn_saga := (sn_saga w)\<lparr>ho_trace := ho_trace (sn_saga w) @ [ContainerUpdate i ''no'', ContainerStop i]\<rparr>\<rparr>)"
proof -
  have "dp_out (bare_deps stopped_node) = stopped_node" by (simp add: bare_deps_def)
  then show "stop_zombie (bare_deps stopped_node) [(ref, \<lparr>cm_id = i, cm_running = True, cm_labels = []\<rparr>)] ref w =
    (Inr [drift_of ZombieContainer (Some ref) Stopped],
     w\<lparr>sn_saga := (sn_saga w)\<lparr>ho_trace := ho_trace (sn_saga w) @ [ContainerUpdate i ''no'', ContainerStop i]\<rparr>\<rparr>)"
    by (simp add: stop_zombie_def swallowed_def caught_def in_saga_def stopped_node_obeys eff_defs)
qed (simp add: stop_zombie_def eff_defs)

definition seen_running :: seen where
  "seen_running = \<lparr>se_database = [(''ref'', \<lparr>cm_id = ''c'', cm_running = True, cm_labels = []\<rparr>)], se_pooler = [], se_postgrest = [], se_drift = []\<rparr>"

theorem sweep_defeats_the_pause_interlock_witness:
  "\<exists>ds w' w4. check_project (bare_deps stopped_node) set_queue id 3 seen_running (bare_entry StPausing, None) (booked_world StPausing 0 []) = (Inr ds, w') \<and>
    ContainerStop ''c'' \<in> set (ho_trace (sn_saga w')) \<and>
    checkpoint_and_stop_step (bare_deps stopped_node) (saga_job ''pause_project'') (sn_saga w') = (Inr (), w4) \<and> sw_backups w4 = []"
proof -
  let ?E = "bare_deps stopped_node" and ?w = "booked_world StPausing 0 []"
  have e: "pe_status (bare_entry StPausing) = StPausing" "pe_ref (bare_entry StPausing) = ''ref''" by (simp_all add: bare_entry_def)
  have c: "map_of (se_database seen_running) (pe_ref (bare_entry StPausing)) = Some \<lparr>cm_id = ''c'', cm_running = True, cm_labels = []\<rparr>"
    by (simp add: seen_running_def e)
  obtain ds w' where r: "check_project ?E set_queue id 3 seen_running (bare_entry StPausing, None) ?w = (Inr ds, w')"
    and w': "w' = ?w\<lparr>sn_saga := (sn_saga ?w)\<lparr>ho_trace := ho_trace (sn_saga ?w) @ [ContainerUpdate ''c'' ''no'', ContainerStop ''c'']\<rparr>\<rparr>"
    by (simp add: check_project_def should_run_def should_not_run_def e seen_running_def stopped_node_stops Let_def eff_defs)
  have j: "job_project (saga_job ''pause_project'') = ''p''" "dp_docker ?E" "dp_out ?E = stopped_node" by (simp_all add: job_project_def saga_job_def bare_deps_def)
  have e': "entry_of ''p'' (sn_saga w') = Some (bare_entry StPausing)" unfolding w' by (simp add: booked_defs)
  obtain m where m: "placement_of ''p'' (sn_saga w') = Some m" "in_database (pm_ids m) = Some ''c''" "in_pooler (pm_ids m) = None"
    unfolding w' by (simp add: placement_of_def joined_def row_of_def node_by_id_def booked_defs)
  have b: "sw_backups (sn_saga w') = []" unfolding w' by (simp add: booked_defs)
  have n: "pooler_name ''ref'' \<noteq> ''c''" by (simp add: pooler_name_def)
  obtain w3 where 3: "on_host (inspect_container stopped_node (pooler_name ''ref'')) (sn_saga w') = (Inr None, w3)"
    using n by (simp add: call_defs stopped_node_def)
  obtain i w4 where 4: "on_host (inspect_container stopped_node ''c'') w3 = (Inr (Some i), w4)" "\<not> ct_running i"
    by (simp add: call_defs stopped_node_def)
  note sweep_defeats_the_pause_interlock[OF e(1) c _ r, of "saga_job ''pause_project''" m w3 i w4, unfolded j e(2) m or_else_def option.case]
  from this[OF _ _ e' refl 3 4] b r show ?thesis by auto
qed

end
