(* ===== verification/ScanSafety.thy ===== *)
theory ScanSafety
  imports Scans ReconcileSafety
begin

text \<open>
  What the scans of theory \<open>Scans\<close> promise and what they get wrong. The keys that a scan writes once and the order in which it takes
  its candidates are read as a relation between worlds that every part of a sweep keeps (\<open>effect_order\<close>).
\<close>

subsection \<open>Loops\<close>

lemma in_scan_run: "in_scan m w = (case m (fw_scan w) of (r, s) \<Rightarrow> (r, w\<lparr>fw_scan := s\<rparr>))"
  by (simp add: in_scan_def)

context effect_order
begin

lemma always_each_row: "(\<And>t x. x \<in> set xs \<Longrightarrow> always R (f t x)) \<Longrightarrow> always R (each_row f t xs)"
  by (induction xs arbitrary: t) (auto intro!: always_intros)

end

subsection \<open>Keys that are spent\<close>

definition key_taken :: "string \<Rightarrow> ('c, 'o, 'q) scan_world \<Rightarrow> bool" where
  "key_taken k w = list_ex (\<lambda>r. jb_key r = k) (jd_rows (sn_jobs w))"

definition nothing_new :: "('c, 'o, 'q) scan_world \<Rightarrow> ('c, 'o, 'q) scan_world \<Rightarrow> bool" where
  \<comment> \<open>no job, no delivery, no project changed\<close>
  "nothing_new w w' = (jd_rows (sn_jobs w') = jd_rows (sn_jobs w) \<and> sn_queue w' = sn_queue w \<and>
     sw_projects (sn_saga w') = sw_projects (sn_saga w))"

definition idle_while :: "string set \<Rightarrow> ('c, 'o, 'q) scan_world \<Rightarrow> ('c, 'o, 'q) scan_world \<Rightarrow> bool" where
  \<comment> \<open>nothing is new, as long as these keys are taken\<close>
  "idle_while K w w' = ((\<forall>k \<in> K. key_taken k w) \<longrightarrow> nothing_new w w')"

definition idle_fleet :: "string set \<Rightarrow> ('c, 'o, 'q) fleet_world \<Rightarrow> ('c, 'o, 'q) fleet_world \<Rightarrow> bool" where
  "idle_fleet K w w' = idle_while K (fw_scan w) (fw_scan w')"

interpretation spent: effect_order "idle_while K" for K
  by unfold_locales (auto simp: idle_while_def nothing_new_def key_taken_def)

interpretation spent_fleet: effect_order "idle_fleet K" for K
  by unfold_locales (auto simp: idle_fleet_def intro: spent.same spent.chain)

lemma spent_write_job:
  assumes "key \<in> K" "always (idle_while K) (f None)"
  shows "always (idle_while K) (and_then (write_job E new_id p ty key) f)"
proof -
  have "idle_while K w (snd (and_then (write_job E new_id p ty key) f w))" for w
  proof (cases "key_taken key w")
    case True
    then have e: "write_job E new_id p ty key w = (Inr None, w\<lparr>sn_jobs := (sn_jobs w)\<lparr>jd_now := now_of E (sn_saga w)\<rparr>\<rparr>)"
      by (simp add: write_job_def insert_job_def key_taken_def)
    have "idle_while K w (w\<lparr>sn_jobs := (sn_jobs w)\<lparr>jd_now := now_of E (sn_saga w)\<rparr>\<rparr>)" by (simp add: idle_while_def nothing_new_def)
    moreover have "idle_while K w1 (snd (f None w1))" for w1 using assms(2) by (simp add: always_def)
    ultimately show ?thesis by (auto simp: and_then_def e intro: spent.chain)
  next
    case False then show ?thesis using assms(1) by (auto simp: idle_while_def)
  qed
  then show ?thesis by (simp add: always_def)
qed

interpretation rolls: host_order "kept_as sw_projects" D "\<lambda>_. True" for D
  by (intro host_order.intro host_order_axioms.intro keeps.effect_order_axioms)
    (auto simp: always_def kept_as_def perform_def slept_def split: prod.splits)

lemma spent_in_saga: "always (kept_as sw_projects) m \<Longrightarrow> always (idle_while K) (in_saga m)"
  by (auto simp: always_def kept_as_def idle_while_def nothing_new_def in_saga_def split: prod.splits) (metis snd_conv)

lemma spent_in_scan: "always (idle_while K) m \<Longrightarrow> always (idle_fleet K) (in_scan m)"
  by (auto simp: always_def idle_fleet_def in_scan_def split: prod.splits) (metis snd_conv)

lemma roll_reads:
  "always (kept_as sw_projects) (stored E p n)" "always (kept_as sw_projects) (direct_connections E ep pw addr)"
  "always (kept_as sw_projects) (pooler_address E nets ref)" "always (kept_as sw_projects) (pooler_counts E pools ep pw)"
proof -
  show "always (kept_as sw_projects) (stored E p n)"
    by (auto simp: always_def kept_as_def stored_def in_keys_def split: prod.splits sum.splits)
  show "always (kept_as sw_projects) (direct_connections E ep pw addr)"
    unfolding direct_connections_def query_def on_host_def by (intro keeps.always_intros rolls.always_asked TrueI)
  show "always (kept_as sw_projects) (pooler_counts E pools ep pw)"
    unfolding pooler_counts_def query_def on_host_def by (intro keeps.always_intros rolls.always_asked TrueI)
  show "always (kept_as sw_projects) (pooler_address E nets ref)"
    unfolding pooler_address_def Let_def on_host_def by (auto intro!: keeps.always_intros rolls.always_client)
qed

lemma roll_probe: "always (kept_as sw_projects) (probe_both E nets pools ref d host pw ppw)"
  unfolding probe_both_def by (auto intro!: keeps.always_intros roll_reads split: option.splits)

lemma spent_active: "always (idle_fleet K) (modifies (\<lambda>w. w\<lparr>fw_active := f w\<rparr>))"
  by (simp add: always_def modifies_def idle_fleet_def spent.same)

subsection \<open>A second pause\<close>

lemma idle_one_spent:
  assumes "idle_key (pe_id (fst c)) \<in> K"
  shows "always (idle_fleet K) (idle_one E ops new_id nets pools t c)"
proof -
  obtain e d n where c: "c = (e, d, n)" by (cases c)
  have p: "always (idle_while K) (pause_idle E ops new_id t e)"
    unfolding pause_idle_def using assms by (intro spent_write_job) (auto simp: c intro: spent.always_intros)
  have "always (idle_fleet K) (idle_verdict E ops new_id t e s)" for s
    unfolding idle_verdict_def by (auto intro!: spent_fleet.always_intros spent_in_scan p spent_active split: prod.splits option.splits)
  then show ?thesis unfolding idle_one_def c
    by (auto intro!: spent_fleet.always_intros spent_in_scan spent_in_saga roll_reads roll_probe split: option.splits)
qed


subsection \<open>Only silence pauses\<close>

lemma in_scan_saga_Inr: "in_scan (in_saga m) w = (Inr a, w') \<Longrightarrow> \<exists>s s'. m s = (Inr a, s')"
  by (auto simp: in_scan_def in_saga_def split: prod.splits)

text \<open>
  C17. A failed probe never pauses a project. Where looking at a candidate put a pause on the tally, both its database and its
  pooler were asked and answered, and neither has a client.
\<close>

theorem only_silence_pauses:
  assumes "idle_one E ops new_id nets pools t (e, d, n) w = (Inr t', w')" "it_paused t < it_paused t'"
  shows "\<exists>pw ppw host addr w1 w2 s w3. nd_address n = Some host \<and>
    direct_connections E (host, pd_port d) pw addr w1 = (Inr (Some 0), w2) \<and>
    pooler_counts E pools (host, pd_pooler d) ppw w2 = (Inr (Some (0, s)), w3)"
proof -
  obtain pw ppw host seen w1 w2 w3 where h: "filled (nd_address n) = Some host"
    and p: "in_scan (in_saga (probe_both E nets pools (pe_ref e) d host pw ppw)) w1 = (Inr seen, w2)"
    and v: "idle_verdict E ops new_id t e seen w2 = (Inr t', w3)"
    using assms by (cases "filled (nd_address n)") (auto simp: idle_one_def and_then_Inr_iff basic_Inr split: option.split_asm)
  obtain s1 s2 where "probe_both E nets pools (pe_ref e) d host pw ppw s1 = (Inr seen, s2)" using in_scan_saga_Inr[OF p] by blast
  moreover obtain s where "seen = (Some 0, Some (0, s))"
    using v assms(2) by (auto simp: idle_verdict_def and_then_Inr_iff basic_Inr split: prod.splits option.splits if_splits)
  moreover have "nd_address n = Some host" using h by (auto simp: filled_def split: option.splits list.splits)
  ultimately show ?thesis
    by (auto simp: probe_both_def and_then_Inr_iff basic_Inr split: option.splits) blast
qed

subsection \<open>Fifty failing projects\<close>

lemma zeros_first: "sorted (map f ys) \<Longrightarrow> ys = filter (\<lambda>x. f x = (0::nat)) ys @ filter (\<lambda>x. f x \<noteq> 0) ys"
proof (induction ys)
  case (Cons y ys)
  show ?case
  proof (cases "f y = 0")
    case True then show ?thesis using Cons by simp
  next
    case False
    then have "\<forall>x \<in> set ys. f x \<noteq> 0" using Cons.prems by auto
    then show ?thesis using False by simp
  qed
qed simp

lemma first_are_zero:
  assumes "n \<le> length (filter (\<lambda>x. f x = (0::nat)) xs)" "x \<in> set (take n (sort_key f xs))"
  shows "x \<in> set xs \<and> f x = 0"
proof -
  have z: "sort_key f xs = filter (\<lambda>x. f x = 0) (sort_key f xs) @ filter (\<lambda>x. f x \<noteq> 0) (sort_key f xs)"
    by (rule zeros_first) simp
  have "length (filter (\<lambda>x. f x = 0) (sort_key f xs)) = length (filter (\<lambda>x. f x = 0) xs)"
    by (simp add: filter_sort)
  then have "take n (sort_key f xs) = take n (filter (\<lambda>x. f x = 0) (sort_key f xs))" using assms(1) by (subst z) simp
  then show ?thesis using assms(2) by (auto dest: in_set_takeD)
qed

lemma nulls_zero: "nulls_first x = 0 \<longleftrightarrow> x = None"
  by (simp add: nulls_first_def split: option.splits)

lemma set_map_filter_iff: "y \<in> set (List.map_filter f xs) \<longleftrightarrow> (\<exists>x \<in> set xs. f x = Some y)"
  by (force simp: List.map_filter_def)

lemma nothing_finished: "finished_at (\<lambda>_. True) p s = None \<Longrightarrow> finished_at c p s = None"
  by (auto simp: finished_at_def latest_def List.map_filter_def filter_empty_conv split: if_splits)

lemma backup_one_spent:
  assumes "bc_full c = None" "backup_key (pe_id (bc_project c)) Full now \<in> K"
  shows "always (idle_while K) (backup_one E ops new_id digest tz win now t c)"
proof -
  have "decide_backup digest tz p plan now None a win = Some Full" for p plan a by (simp add: decide_backup_def)
  moreover have "always (idle_while K) (and_then (write_job E new_id (pe_id (bc_project c)) ''backup_project'' (backup_key (pe_id (bc_project c)) Full now)) f)"
    if "f None = ret (backup_skipped t)" for f :: "_ \<Rightarrow> (('a, 'b, 'c) scan_world, _, _) eff"
    using assms(2) by (intro spent_write_job) (simp_all add: that spent.always_basic)
  ultimately show ?thesis unfolding backup_one_def Let_def assms(1) by (auto intro!: spent.always_intros)
qed

text \<open>
  C37. Projects whose backups fail stop the backups of everybody else. A project that has never had a backup comes first in the order, and the
  key of its job names the day: while as many such projects as the batch holds have had their try today, a sweep
  creates no job at all, for no project.
\<close>

theorem failing_backups_starve_the_fleet:
  assumes "limit \<le> length (filter (\<lambda>e. running_row (sn_saga w) e \<and> finished_at (\<lambda>_. True) (pe_id e) (sn_saga w) = None) (sw_projects (sn_saga w)))"
    and "\<forall>e \<in> set (sw_projects (sn_saga w)). running_row (sn_saga w) e \<longrightarrow> finished_at (\<lambda>_. True) (pe_id e) (sn_saga w) = None \<longrightarrow>
      key_taken (backup_key (pe_id e) Full (now_of E (sn_saga w))) w"
    and "backup_scan E ops new_id digest tz win limit w = (r, w')"
  shows "nothing_new w w'"
proof -
  let ?s = "sn_saga w" and ?now = "now_of E (sn_saga w)"
  let ?cs = "backup_candidates ?now limit ?s"
  let ?K = "(\<lambda>c. backup_key (pe_id (bc_project c)) Full ?now) ` set ?cs"
  have c: "bc_full c = None \<and> key_taken (backup_key (pe_id (bc_project c)) Full ?now) w" if "c \<in> set ?cs" for c
  proof -
    let ?xs = "map (backup_candidate_of ?now ?s) (filter (running_row ?s) (sw_projects ?s))"
    have "limit \<le> length (filter (\<lambda>c. nulls_first (bc_any c) = 0) ?xs)"
      using assms(1) by (simp add: filter_map o_def backup_candidate_of_def nulls_zero conj_commute cong: filter_cong)
    then have "c \<in> set ?xs \<and> nulls_first (bc_any c) = 0" using first_are_zero[of limit "\<lambda>c. nulls_first (bc_any c)" ?xs c] that by (simp add: backup_candidates_def)
    then show ?thesis using assms(2) nothing_finished[of _ ?s]
      by (auto simp: backup_candidate_of_def nulls_zero)
  qed
  have "always (idle_while ?K) (each_row (backup_one E ops new_id digest tz win ?now) no_backups ?cs)"
    using c by (intro spent.always_each_row backup_one_spent) auto
  then have "idle_while ?K w (snd (each_row (backup_one E ops new_id digest tz win ?now) no_backups ?cs w))" by (simp add: always_def)
  then have "idle_while ?K w w'"
    using assms(3) by (auto simp: backup_scan_def and_then_def gets_def ret_def split: prod.splits sum.splits)
  then show ?thesis using c by (auto simp: idle_while_def)
qed

subsection \<open>Copies that expire\<close>

definition marked :: "string set \<Rightarrow> project_entry list \<Rightarrow> project_entry list" where
  "marked X es = map (\<lambda>e. if pe_id e \<in> X then e\<lparr>pe_status := StDeleting\<rparr> else e) es"

definition marks_only :: "string set \<Rightarrow> ('c, 'o, 'q) scan_world \<Rightarrow> ('c, 'o, 'q) scan_world \<Rightarrow> bool" where
  "marks_only X w w' = (\<exists>Y \<subseteq> X. sw_projects (sn_saga w') = marked Y (sw_projects (sn_saga w)))"

lemma marked_twice: "marked Y (marked X es) = marked (X \<union> Y) es" "marked {} es = es"
  by (auto simp: marked_def)

lemma marks_nothing: "sw_projects (sn_saga w') = sw_projects (sn_saga w) \<Longrightarrow> marks_only X w w'"
  unfolding marks_only_def by (intro exI[of _ "{}"]) (simp add: marked_twice)

lemma marks_chain: "marks_only X s t \<Longrightarrow> marks_only X t u \<Longrightarrow> marks_only X s u"
proof -
  assume "marks_only X s t" "marks_only X t u"
  then obtain Y Z where "Y \<subseteq> X" "Z \<subseteq> X" "sw_projects (sn_saga u) = marked (Y \<union> Z) (sw_projects (sn_saga s))"
    by (auto simp: marks_only_def marked_twice)
  then show "marks_only X s u" unfolding marks_only_def by (intro exI[of _ "Y \<union> Z"]) auto
qed

interpretation marking: effect_order "marks_only X" for X
  by unfold_locales (auto intro: marks_nothing marks_chain)

lemma marks_one:
  "p \<in> X \<Longrightarrow> marks_only X w (w\<lparr>sn_saga := (sn_saga w)\<lparr>sw_projects := upd_where (\<lambda>x. pe_id x = p) (\<lambda>x. x\<lparr>pe_status := StDeleting\<rparr>) (sw_projects (sn_saga w))\<rparr>\<rparr>)"
  unfolding marks_only_def by (intro exI[of _ "{p}"]) (auto simp: marked_def upd_where_def)

lemma marking_steps:
  "always (marks_only X) (write_job E new_id p ty k)" "always (marks_only X) (hand_over ops k)"
  "p \<in> X \<Longrightarrow> always (marks_only X) (in_saga (write_project (\<lambda>x. pe_id x = p) (\<lambda>x. x\<lparr>pe_status := StDeleting\<rparr>)))"
  by (auto simp: always_def write_job_def hand_over_def in_saga_def write_project_def Let_def intro!: marks_nothing marks_one split: prod.splits sum.splits)

lemma expire_one_marks: "pe_id e \<in> X \<Longrightarrow> always (marks_only X) (expire_one E ops new_id t e)"
  unfolding expire_one_def Let_def by (intro marking.always_intros marking_steps) (auto intro!: marking.always_intros marking_steps split: option.splits)

lemma copy_due_Some: "copy_due now w x = Some (e, t) \<longleftrightarrow> e = x \<and> fw_expires w (pe_id x) = Some t \<and> pe_status x = StRestored \<and> t \<le> now \<and>
    (\<exists>r \<in> set (sw_restores (fw_saga w)). rr_project r = pe_id x \<and> rr_succeeded r)"
  by (auto simp: copy_due_def list_ex_iff split: option.splits)

lemma due_copy:
  assumes "e \<in> set (copies_due now limit w)"
  shows "e \<in> set (sw_projects (fw_saga w)) \<and> pe_status e = StRestored \<and> (\<exists>t \<le> now. fw_expires w (pe_id e) = Some t) \<and>
    (\<exists>r \<in> set (sw_restores (fw_saga w)). rr_project r = pe_id e \<and> rr_succeeded r)"
proof -
  obtain t where "(e, t) \<in> set (List.map_filter (copy_due now w) (sw_projects (fw_saga w)))"
    using assms by (auto simp: copies_due_def dest!: in_set_takeD)
  then show ?thesis unfolding set_map_filter_iff copy_due_Some by blast
qed

text \<open>
  Only a copy past its deadline expires. Whatever a sweep of the expiry does, delivery or not, error or not, a project whose row
  it changed was a restored copy whose restore had succeeded and whose deadline had passed, and the change
  is that it is being deleted.
\<close>

theorem only_due_copies_expire:
  assumes "restore_expiry E ops new_id limit w = (r, w')" "i < length (sw_projects (fw_saga w))"
    and "sw_projects (fw_saga w') ! i \<noteq> sw_projects (fw_saga w) ! i"
  shows "sw_projects (fw_saga w') ! i = (sw_projects (fw_saga w) ! i)\<lparr>pe_status := StDeleting\<rparr> \<and>
    (\<exists>e \<in> set (sw_projects (fw_saga w)). pe_id e = pe_id (sw_projects (fw_saga w) ! i) \<and> pe_status e = StRestored \<and>
      (\<exists>t \<le> now_of E (fw_saga w). fw_expires w (pe_id e) = Some t) \<and>
      (\<exists>r \<in> set (sw_restores (fw_saga w)). rr_project r = pe_id e \<and> rr_succeeded r))"
proof -
  let ?due = "copies_due (now_of E (fw_saga w)) limit w"
  have "always (marks_only (pe_id ` set ?due)) (each_row (expire_one E ops new_id) (0, 0) ?due)"
    by (intro marking.always_each_row expire_one_marks) simp
  then have "marks_only (pe_id ` set ?due) (fw_scan w) (snd (each_row (expire_one E ops new_id) (0, 0) ?due (fw_scan w)))" by (simp add: always_def)
  then have "marks_only (pe_id ` set ?due) (fw_scan w) (fw_scan w')"
    using assms(1) by (auto simp: restore_expiry_def and_then_def gets_def ret_def in_scan_def split: prod.splits sum.splits)
  then obtain Y where Y: "Y \<subseteq> pe_id ` set ?due" "sw_projects (fw_saga w') = marked Y (sw_projects (fw_saga w))"
    by (auto simp: marks_only_def)
  then have "pe_id (sw_projects (fw_saga w) ! i) \<in> Y" "sw_projects (fw_saga w') ! i = (sw_projects (fw_saga w) ! i)\<lparr>pe_status := StDeleting\<rparr>"
    using assms(2,3) by (auto simp: marked_def split: if_splits)
  moreover from this(1) Y(1) obtain e where "e \<in> set ?due" "pe_id e = pe_id (sw_projects (fw_saga w) ! i)" by auto
  ultimately show ?thesis using due_copy[of e "now_of E (fw_saga w)" limit w] by blast
qed

subsection \<open>Samples\<close>

definition live_entry :: "project_status \<Rightarrow> project_entry" where
  "live_entry s = (bare_entry s)\<lparr>pe_deleted_at := None, pe_purge_after := None\<rparr>"

definition fleet_of :: "project_status \<Rightarrow> job_row list \<Rightarrow> (string, nat, string set) fleet_world" where
  \<comment> \<open>one project with a running database, a restored copy whose deadline is the time 1\<close>
  "fleet_of s jobs = \<lparr>fw_scan = (booked_world s 350 jobs)\<lparr>sn_saga := (sn_saga (booked_world s 350 jobs))\<lparr>
       sw_projects := [live_entry s],
       sw_place := \<lparr>pn_nodes = [sample_node\<lparr>nd_address := Some ''10.0.0.1''\<rparr>],
         pn_rows = [(new_row (sample_args\<lparr>pa_project := ''p''\<rparr>) ''n1'' 5433 6433 7433)\<lparr>pd_status := ''running''\<rparr>], pn_now = 0\<rparr>,
       sw_restores := [\<lparr>rr_project = ''p'', rr_source = None, rr_source_ref = ''q'', rr_target = None, rr_label = None, rr_reached = None,
         rr_lsn = None, rr_succeeded = True\<rparr>],
       sw_keys := (keyless_project None)\<lparr>kb_secrets := \<lparr>sd_rows = map (\<lambda>n. stored_first n ''v'') [DEVELOPER_PASSWORD, POOLER_AUTH_PASSWORD], sd_now = 0\<rparr>\<rparr>\<rparr>\<rparr>,
     fw_active = (\<lambda>_. None), fw_expires = (\<lambda>_. Some 1)\<rparr>"

lemma fleet_rows:
  "sw_projects (fw_saga (fleet_of s jobs)) = [live_entry s]" "now_of (bare_deps bare_node) (fw_saga (fleet_of s jobs)) = 4000000"
  "jd_rows (sn_jobs (fw_scan (fleet_of s jobs))) = jobs" "running_row (fw_saga (fleet_of s jobs)) e = (pe_id e = ''p'' \<and> pe_status e = StReady)"
  "sw_backups (fw_saga (fleet_of s jobs)) = []" "fw_expires (fleet_of s jobs) p = Some 1" "fw_active (fleet_of s jobs) p = None"
  "sn_queue (fw_scan (fleet_of s jobs)) = {}"
  by (auto simp: fleet_of_def booked_defs now_of_def clock_def bare_node_def bare_deps_def running_row_def placed_row_def row_of_def)

definition spent_key :: "string \<Rightarrow> job_row" where
  "spent_key k = (saga_job ''any'')\<lparr>jb_key := k, jb_state := Succeeded\<rparr>"


theorem failing_backups_starve_the_fleet_witness:
  "nothing_new (fw_scan (fleet_of StReady [spent_key (backup_key ''p'' Full 4000000)]))
    (snd (backup_scan (bare_deps bare_node) set_queue id (\<lambda>_. 0) 0 WINDOW 1 (fw_scan (fleet_of StReady [spent_key (backup_key ''p'' Full 4000000)]))))"
proof -
  let ?w = "fw_scan (fleet_of StReady [spent_key (backup_key ''p'' Full 4000000)])"
  obtain r w' where r: "backup_scan (bare_deps bare_node) set_queue id (\<lambda>_. 0) 0 WINDOW 1 ?w = (r, w')" by (metis surj_pair)
  have t: "key_taken (backup_key ''p'' Full 4000000) ?w" by (simp add: key_taken_def fleet_rows spent_key_def)
  have e: "pe_id (live_entry StReady) = ''p''" "pe_status (live_entry StReady) = StReady" by (simp_all add: live_entry_def bare_entry_def)
  have "finished_at (\<lambda>_. True) ''p'' (sn_saga ?w) = None" by (simp add: finished_at_def fleet_rows latest_def List.map_filter_def)
  with failing_backups_starve_the_fleet[OF _ _ r] t r show ?thesis by (simp add: fleet_rows e)
qed

theorem only_due_copies_expire_witness:
  "sw_projects (fw_saga (snd (restore_expiry (bare_deps bare_node) set_queue id 20 (fleet_of StRestored [])))) = [(live_entry StRestored)\<lparr>pe_status := StDeleting\<rparr>]"
proof -
  let ?w = "fleet_of StRestored []"
  obtain r w' where r: "restore_expiry (bare_deps bare_node) set_queue id 20 ?w = (r, w')" by (metis surj_pair)
  have d: "copies_due 4000000 20 ?w = [live_entry StRestored]"
    by (simp add: copies_due_def List.map_filter_def copy_due_def fleet_rows live_entry_def bare_entry_def) (simp add: fleet_of_def)
  have "sw_projects (fw_saga w') = [(live_entry StRestored)\<lparr>pe_status := StDeleting\<rparr>]"
    using r by (auto simp: restore_expiry_def fleet_rows d expire_one_def write_job_def insert_job_def in_scan_def in_saga_def
      write_project_def upd_where_def deletion_check_def live_entry_def bare_entry_def Let_def eff_defs hand_over_def split: prod.splits sum.splits)
  with only_due_copies_expire[OF r, of 0] show ?thesis using r by (simp add: fleet_rows live_entry_def bare_entry_def)
qed

definition quiet_node :: "nat outside" where
  \<comment> \<open>where every query counts nothing\<close>
  "quiet_node = bare_node\<lparr>out_do := (\<lambda>d t. case d of PgQuery a b sql ps \<Rightarrow> (Inr (GotRows [[Some ''0'']]), t) | _ \<Rightarrow> out_do bare_node d t)\<rparr>"

lemma stored_v:
  fixes s :: "(string, nat) saga_world"
  assumes "sd_rows (kb_secrets (sw_keys s)) = map (\<lambda>n. stored_first n ''v'') [DEVELOPER_PASSWORD, POOLER_AUTH_PASSWORD]" "n \<in> {DEVELOPER_PASSWORD, POOLER_AUTH_PASSWORD}"
  shows "\<exists>s'. stored (bare_deps D) ''p'' n s = (Inr (Some ''v''), s') \<and>
    sd_rows (kb_secrets (sw_keys s')) = map (\<lambda>n. stored_first n ''v'') [DEVELOPER_PASSWORD, POOLER_AUTH_PASSWORD]"
  using assms by (auto simp: stored_def in_keys_def kept_def in_vault_def secret_get_def read_secret_def decrypt_row_def secret_named_def
      stored_first_def bare_deps_def sample_keys_env_def toy_sealer_def row_identity_def DEVELOPER_PASSWORD_def POOLER_AUTH_PASSWORD_def eff_defs)

lemma quiet_probe: "\<exists>s'. probe_both (bare_deps quiet_node) (\<lambda>_. []) (\<lambda>_. []) ref d h pw (Some ''v'') s = (Inr (Some 0, Some (0, 0)), s')"
  by (auto simp: probe_both_def pooler_address_def direct_connections_def pooler_counts_def query_def call_defs quiet_node_def bare_node_def bare_deps_def
      filled_def counted_def value_of_digits_def unit_of_def pool_counts_def Let_def)

lemma in_scan_saga_run: "m (fw_saga w) = (r, s) \<Longrightarrow> in_scan (in_saga m) w = (r, w\<lparr>fw_scan := (fw_scan w)\<lparr>sn_saga := s\<rparr>\<rparr>)"
  by (simp add: in_scan_def in_saga_def)

lemma quiet_pause: "\<exists>w'. pause_idle (bare_deps D) set_queue id t (live_entry s) \<lparr>sn_saga = g, sn_jobs = \<lparr>jd_rows = [], jd_now = k\<rparr>, sn_queue = {}\<rparr> =
    (if list_ex (\<lambda>e. pe_id e = ''p'' \<and> \<not> deletion_check (e\<lparr>pe_status := StPausing\<rparr>)) (sw_projects g) then (Inl ''violates check constraint'', w')
     else (Inr (t\<lparr>it_paused := it_paused t + 1\<rparr>), w'))"
  by (simp add: pause_idle_def write_job_def insert_job_def in_saga_def write_project_def live_entry_def bare_entry_def hand_over_def enqueue_provisioning_def
      valid_delivery_id_def delivery_char_def is_alnum_def is_alpha_def is_upper_def is_lower_def is_digit_def unit_of_def idle_key_def set_queue_def Let_def eff_defs)

theorem only_silence_pauses_witness:
  "\<exists>pw ppw addr w1 w2 s w3. direct_connections (bare_deps quiet_node) (''10.0.0.1'', 5433) pw addr w1 = (Inr (Some 0), w2) \<and>
    pooler_counts (bare_deps quiet_node) (\<lambda>_. []) (''10.0.0.1'', 6433) ppw w2 = (Inr (Some (0, s)), w3)"
proof -
  let ?E = "bare_deps quiet_node" and ?w = "fleet_of StReady []" and ?e = "live_entry StReady" and ?t = "\<lparr>it_active = 0, it_paused = 0, it_unreachable = 0\<rparr>"
  let ?d = "hd (pn_rows (sw_place (fw_saga ?w)))" and ?n = "hd (pn_nodes (sw_place (fw_saga ?w)))"
  have "sd_rows (kb_secrets (sw_keys (fw_saga ?w))) = map (\<lambda>n. stored_first n ''v'') [DEVELOPER_PASSWORD, POOLER_AUTH_PASSWORD]" by (simp add: fleet_of_def)
  from stored_v[OF this, of DEVELOPER_PASSWORD] obtain s1 where s1: "stored ?E ''p'' DEVELOPER_PASSWORD (fw_saga ?w) = (Inr (Some ''v''), s1)"
    "sd_rows (kb_secrets (sw_keys s1)) = map (\<lambda>n. stored_first n ''v'') [DEVELOPER_PASSWORD, POOLER_AUTH_PASSWORD]" by blast
  from stored_v[OF this(2), of POOLER_AUTH_PASSWORD] obtain s2 where s2: "stored ?E ''p'' POOLER_AUTH_PASSWORD s1 = (Inr (Some ''v''), s2)" by blast
  obtain s3 where s3: "probe_both ?E (\<lambda>_. []) (\<lambda>_. []) (pe_ref ?e) ?d ''10.0.0.1'' ''v'' (Some ''v'') s2 = (Inr (Some 0, Some (0, 0)), s3)"
    using quiet_probe by blast
  let ?w3 = "?w\<lparr>fw_scan := (fw_scan ?w)\<lparr>sn_saga := s3\<rparr>\<rparr>"
  have kept: "sw_projects s = sw_projects s'" if "always (kept_as sw_projects) m" "m s' = (r, s)" for m :: "(string, nat, 'x) saga" and s s' r
    using that by (metis always_def kept_as_def snd_conv)
  have "sw_projects s3 = [?e]"
    using kept[OF roll_reads(1) s1(1)] kept[OF roll_reads(1) s2] kept[OF roll_probe s3] by (simp add: fleet_rows)
  moreover have "fw_scan ?w3 = \<lparr>sn_saga = s3, sn_jobs = \<lparr>jd_rows = [], jd_now = 0\<rparr>, sn_queue = {}\<rparr>" by (simp add: fleet_of_def booked_world_def)
  ultimately obtain w' where w': "pause_idle ?E set_queue id ?t ?e (fw_scan ?w3) = (Inr (?t\<lparr>it_paused := 1\<rparr>), w')"
    using quiet_pause[of quiet_node ?t StReady s3 0] by (auto simp: live_entry_def bare_entry_def deletion_check_def)
  have "filled (nd_address ?n) = Some ''10.0.0.1''" "filled (Some ''v'') = Some ''v''" "pe_id ?e = ''p''" by (simp_all add: fleet_of_def live_entry_def bare_entry_def filled_def)
  then have "idle_one ?E set_queue id (\<lambda>_. []) (\<lambda>_. []) ?t (?e, ?d, ?n) ?w = (Inr (?t\<lparr>it_paused := 1\<rparr>), ?w3\<lparr>fw_scan := w'\<rparr>)"
    using s1(1) s2 s3 w' by (simp add: idle_one_def and_then_def in_scan_def in_saga_def idle_verdict_def)
  from only_silence_pauses[OF this] show ?thesis by (simp add: fleet_of_def new_row_def)
qed

end
