(* ===== verification/VerifySafety.thy ===== *)
theory VerifySafety
  imports Verify ScanSafety
begin

text \<open>
  What a verification asks of the node, on every path, and when a repo counts as destroyed, over theory \<open>Verify\<close>.
\<close>

subsection \<open>A verification and the node\<close>

definition only_scratch :: "string \<Rightarrow> deed \<Rightarrow> bool" where
  \<comment> \<open>it concerns the scratch container of that name, or its volume\<close>
  "only_scratch c d = (case d of
     VolumeCreate v _ \<Rightarrow> v = scratch_volume c | VolumeDelete v \<Rightarrow> v = scratch_volume c
   | ContainerCreate n s \<Rightarrow> n = c \<and> s = scratch_spec (scratch_volume c) | ContainerStart _ \<Rightarrow> True
   | ContainerDelete n _ anonymous \<Rightarrow> n = c \<and> \<not> anonymous
   | ExecCreate n _ _ \<Rightarrow> n = c | ExecStart _ _ _ \<Rightarrow> True | ExecJson _ \<Rightarrow> True | _ \<Rightarrow> False)"

lemma scratch_execs: "deeds.execs (only_scratch c) c cmd" "deeds.repo_execs (only_scratch c) c"
  by (simp_all add: deeds.execs_def deeds.repo_execs_def only_scratch_def)

lemma scratch_calls:
  "always (did (only_scratch c)) (exec_capture D c cmd t)" "always (did (only_scratch c)) (scratch_psql D c sql)"
  "always (did (only_scratch c)) (write_conf D g c conf)" "always (did (only_scratch c)) (backup_info D rd c)"
  "always (did (only_scratch c)) (restore_repo D sh c tgt)" "always (did (only_scratch c)) (create_volume D (scratch_volume c) l)"
  "always (did (only_scratch c)) (create_container D c (scratch_spec (scratch_volume c)))" "always (did (only_scratch c)) (start_container D i)"
  "always (did (only_scratch c)) (remove_container D c b False)" "always (did (only_scratch c)) (remove_volume D (scratch_volume c))"
  unfolding scratch_psql_def
  by (rule deeds.always_exec deeds.always_backups scratch_execs | (rule deeds.always_client, simp add: only_scratch_def))+

lemma scratch_tables: "always (did (only_scratch c)) (empty_tables D c ts)"
  by (induction ts) (auto intro!: deeds.always_intros scratch_calls)

lemma scratch_restore: "always (did (only_scratch c)) (restore_and_check E repo c p plan pass expect)"
  unfolding restore_and_check_def four_checks_def recovered_def Let_def
  by (auto intro!: deeds.always_intros did_on_host scratch_calls scratch_tables did_poll split: option.splits)

lemma scratch_tear_down: "always (did (only_scratch c)) (tear_down E c)"
  unfolding tear_down_def by (intro deeds.always_intros did_on_host scratch_calls)

text \<open>
  C15. A verification touches nothing but its own container and its own volume: whatever the backups and the node answer, everything it asks
  creates, fills, starts, reads or removes the scratch container, on the scratch volume alone, without a port or a network.
\<close>

theorem verification_stays_in_its_scratch:
  "did (only_scratch (scratch_name ref (now_of E w))) w (snd (verify E p ref plan pass expect w))"
proof (cases "dp_repo E")
  case None then show ?thesis by (simp add: verify_def ret_def deeds.same)
next
  case (Some repo)
  let ?c = "scratch_name ref (now_of E w)"
  have "always (did (only_scratch ?c)) (and_then (caught (restore_and_check E repo ?c p plan pass expect) (\<lambda>_. ret (failed_at RestoreFailed None)))
      (\<lambda>v. and_then (tear_down E ?c) (\<lambda>_. ret v)))"
    by (intro deeds.always_intros scratch_restore scratch_tear_down)
  then show ?thesis by (simp add: verify_def Some always_def and_then_def gets_def)
qed

lemma removal_traced:
  "\<exists>w'. swallowed (on_host (remove_container D n f a)) w = (Inr (), w') \<and> ho_trace w' = ho_trace w @ [ContainerDelete n f a]"
  "\<exists>w'. swallowed (on_host (remove_volume D v)) w = (Inr (), w') \<and> ho_trace w' = ho_trace w @ [VolumeDelete v]"
  by (auto simp: swallowed_def call_defs split: prod.splits sum.splits engine_error.splits)

text \<open>
  C16. A verification always cleans up and always has an answer: with a repo configured it throws on no path, and the last two things it asks of the
  node, whatever went before, remove the scratch container and then its volume.
\<close>

theorem verification_cleans_up:
  assumes "dp_repo E = Some repo" "verify E p ref plan pass expect w = (r, w')"
  shows "(\<exists>v. r = Inr v) \<and> (\<exists>t. ho_trace w' = t @
    [ContainerDelete (scratch_name ref (now_of E w)) True False, VolumeDelete (scratch_volume (scratch_name ref (now_of E w)))])"
proof -
  let ?c = "scratch_name ref (now_of E w)"
  obtain v w1 where 1: "caught (restore_and_check E repo ?c p plan pass expect) (\<lambda>_. ret (failed_at RestoreFailed None)) w = (Inr v :: string + _, w1)"
    by (cases "restore_and_check E repo ?c p plan pass expect w"; cases "fst (restore_and_check E repo ?c p plan pass expect w)")
      (auto simp: caught_def ret_def)
  obtain w2 where 2: "swallowed (on_host (remove_container (dp_out E) ?c True False)) w1 = (Inr () :: string + unit, w2)"
    "ho_trace w2 = ho_trace w1 @ [ContainerDelete ?c True False]" using removal_traced(1) by blast
  obtain w3 where 3: "swallowed (on_host (remove_volume (dp_out E) (scratch_volume ?c))) w2 = (Inr () :: string + unit, w3)"
    "ho_trace w3 = ho_trace w2 @ [VolumeDelete (scratch_volume ?c)]" using removal_traced(2) by blast
  have "r = Inr v" "w' = w3"
    using assms 1 2(1) 3(1) by (simp_all add: verify_def tear_down_def and_then_def gets_def ret_def)
  then show ?thesis using 2(2) 3(2) by simp
qed

subsection \<open>A project without a passphrase\<close>

lemma stored_none:
  assumes "\<forall>r \<in> set (sd_rows (kb_secrets (sw_keys s))). \<not> (secret_named p n r \<and> sr_active r)"
  shows "\<exists>k. stored E p n s = (Inr None, s\<lparr>sw_keys := k\<rparr>)"
proof -
  have "read_secret p n db = None" if "sd_rows db = sd_rows (kb_secrets (sw_keys s))" for db
    using assms that by (auto simp: read_secret_def find_None_iff)
  then show ?thesis by (simp add: stored_def in_keys_def kept_def in_vault_def secret_get_def eff_defs) (rule exI, rule refl)
qed

lemma same_queue: "verify_candidates now limit (w\<lparr>ck_saga := (ck_saga w)\<lparr>sw_keys := k\<rparr>\<rparr>) = verify_candidates now limit w"
  by (simp add: verify_candidates_def verify_due_def last_passed_def cong: if_cong)


subsection \<open>A repo that counts as destroyed\<close>

lemma bucket_keeps_fate: "always (kept_as rw_fate) (in_bucket m)"
  by (auto simp: always_def kept_as_def in_bucket_def split: prod.splits)

lemma empty_prefix_fate: "empty_prefix S prefix n k w = (r, w1) \<Longrightarrow> rw_fate w1 = rw_fate w"
proof -
  have d: "always (kept_as rw_fate) (delete_batch S m batch)" for m batch
    unfolding delete_batch_def by (intro keeps.always_intros keeps.always_each_row bucket_keeps_fate)
  have "always (kept_as rw_fate) (empty_prefix S prefix n k)" for n k
    by (induction n arbitrary: k) (auto intro!: keeps.always_intros keeps.always_each_row bucket_keeps_fate d)
  moreover assume "empty_prefix S prefix n k w = (r, w1)"
  ultimately show ?thesis by (metis always_def kept_as_def snd_conv)
qed

text \<open>
  C18. A repo that counts as destroyed was listed empty. Where a sweep marks it, the last answer of the store was a listing of exactly that
  repo's prefix, and it had no keys.
\<close>

theorem destroyed_means_listed_empty:
  assumes "destroy_repo E S refuses t r w = (res, w')" "rf_destroyed (rw_fate w (rp_project r)) = None"
    and "rf_destroyed (rw_fate w' (rp_project r)) \<noteq> None"
  shows "\<exists>b. os_list S (repo_prefix (rp_path r)) b = (Inr [], rw_bucket w')"
proof -
  obtain r1 w1 where 1: "empty_prefix S (repo_prefix (rp_path r)) 200 0 w = (r1, w1)" by (metis surj_pair)
  have n: "rf_destroyed (rw_fate w1 (rp_project r)) = None" using empty_prefix_fate[OF 1] assms(2) by simp
  obtain deleted where r1: "r1 = Inr deleted"
    using 1 n assms(1,3) by (cases r1) (auto simp: destroy_repo_def destroy_one_def caught_def and_then_def modifies_def ret_def Let_def)
  obtain r2 b where 2: "os_list S (repo_prefix (rp_path r)) (rw_bucket w1) = (r2, b)" by (metis surj_pair)
  have "r2 = Inr []"
    using 1 n assms(1,3) unfolding r1
    by (cases r2) (auto simp: destroy_repo_def destroy_one_def in_bucket_def 2 caught_def eff_defs Let_def split: if_splits)
  moreover have "rw_bucket w' = b"
    using 1 assms(1) unfolding r1
    by (auto simp: destroy_repo_def destroy_one_def in_bucket_def 2 calculation caught_def eff_defs Let_def split: option.splits)
  ultimately show ?thesis using 2 by auto
qed

text \<open>
  A destruction whose audit row is refused is never recorded. The row of the repo is marked before the audit row is written and nothing joins
  the two: the sweep counts a failure, but the repo is not due again, and its destruction is in no audit.
\<close>

theorem refused_audit_is_never_written:
  assumes "os_list S (repo_prefix (rp_path r)) (rw_bucket w) = (Inr [], b1)" "os_list S (repo_prefix (rp_path r)) b1 = (Inr [], b2)"
    and "refuses (rp_project r) = Some e"
  shows "\<exists>w'. destroy_repo E S refuses t r w = (Inr (t\<lparr>dt_failed := dt_failed t + 1\<rparr>), w') \<and> rw_audit w' = rw_audit w \<and>
    (\<forall>now limit. r \<notin> set (repos_due now limit w'))"
proof -
  have "empty_prefix S prefix (Suc n) k w = (Inr k, w\<lparr>rw_bucket := b1\<rparr>)" if "prefix = repo_prefix (rp_path r)" for n k prefix
    using assms(1) that by (simp add: in_bucket_def eff_defs)
  from this[of "repo_prefix (rp_path r)" 199 0] have 1: "empty_prefix S (repo_prefix (rp_path r)) 200 0 w = (Inr 0, w\<lparr>rw_bucket := b1\<rparr>)"
    by (simp add: eval_nat_numeral)
  show ?thesis
    using assms(2,3) by (auto simp: destroy_repo_def destroy_one_def 1 in_bucket_def caught_def eff_defs Let_def repos_due_def repo_due_def dest!: in_set_takeD)
qed

subsection \<open>Samples\<close>

theorem verification_cleans_up_witness:
  "\<exists>v t w'. verify (bare_deps bare_node) ''p'' ''ref'' ''free'' ''pass'' None (bare_world 72 StReady) = (Inr v, w') \<and>
    ho_trace w' = t @ [ContainerDelete ''sh-verify-ref-20'' True False, VolumeDelete ''sh-verify-ref-20-data'']"
proof -
  obtain r w' where r: "verify (bare_deps bare_node) ''p'' ''ref'' ''free'' ''pass'' None (bare_world 72 StReady) = (r, w')" by (metis surj_pair)
  obtain repo where "dp_repo (bare_deps bare_node) = Some repo" by (simp add: bare_deps_def)
  note verification_cleans_up[OF this r]
  moreover have "now_of (bare_deps bare_node) (bare_world 72 StReady) = 72" by (simp add: now_of_def clock_def bare_deps_def bare_node_def bare_world_def)
  moreover have "scratch_name ''ref'' 72 = ''sh-verify-ref-20''" by code_simp
  ultimately show ?thesis using r by (auto simp: scratch_volume_def)
qed

definition two_projects :: "(string, nat) check_world" where
  \<comment> \<open>neither has ever been verified, and only the second has a passphrase\<close>
  "two_projects = \<lparr>ck_saga = (fw_saga (fleet_of StReady []))\<lparr>
       sw_projects := [live_entry StReady, (live_entry StReady)\<lparr>pe_id := ''q''\<rparr>],
       sw_place := \<lparr>pn_nodes = [sample_node], pn_rows = map (\<lambda>p. new_row (sample_args\<lparr>pa_project := p\<rparr>) ''n1'' 5433 6433 7433) [''p'', ''q''], pn_now = 0\<rparr>,
       sw_keys := (keyless_project None)\<lparr>kb_secrets := \<lparr>sd_rows = [(stored_first BACKUP_CIPHER_PASS ''v'')\<lparr>sr_project := ''q''\<rparr>], sd_now = 0\<rparr>\<rparr>\<rparr>,
     ck_runs = []\<rparr>"


definition bare_store :: "string list object_store" where
  "bare_store = \<lparr>os_list = (\<lambda>p b. (Inr (filter (starts_with p) b), b)),
     os_delete_batch = (\<lambda>ks b. (Inr [], filter (\<lambda>k. k \<notin> set ks) b)), os_delete = (\<lambda>k b. (Inr (), removeAll k b))\<rparr>"

definition purged_repo :: repo_row where
  "purged_repo = \<lparr>rp_project = ''p'', rp_path = ''/projects/p'', rp_bucket = ''repos'', rp_destroy_after = Some 100\<rparr>"

definition repo_left :: "string list \<Rightarrow> (string, nat, string list) repo_world" where
  "repo_left keys = \<lparr>rw_saga = (bare_world 200 StDeleted)\<lparr>sw_repos := [purged_repo]\<rparr>, rw_bucket = keys,
     rw_fate = (\<lambda>_. \<lparr>rf_destroyed = None, rf_deleted = 0, rf_error = None, rf_attempts = 0\<rparr>), rw_audit = []\<rparr>"

definition no_tally :: destroy_tally where
  "no_tally = \<lparr>dt_destroyed = 0, dt_failed = 0, dt_objects = 0\<rparr>"

theorem destroyed_means_listed_empty_witness:
  "\<exists>w'. destroy_repo (bare_deps bare_node) bare_store (\<lambda>_. None) no_tally purged_repo (repo_left [''projects/p/a'', ''projects/q/b'']) =
      (Inr \<lparr>dt_destroyed = 1, dt_failed = 0, dt_objects = 1\<rparr>, w') \<and> rw_bucket w' = [''projects/q/b''] \<and>
    (\<exists>b. os_list bare_store (repo_prefix ''/projects/p'') b = (Inr [], rw_bucket w'))"
proof -
  let ?w = "repo_left [''projects/p/a'', ''projects/q/b'']"
  have p: "repo_prefix (rp_path purged_repo) = ''projects/p/''" by (simp add: repo_prefix_def purged_repo_def)
  have "empty_prefix bare_store ''projects/p/'' (Suc (Suc n)) 0 ?w = (Inr 1, ?w\<lparr>rw_bucket := [''projects/q/b'']\<rparr>)" for n
    by (simp add: in_bucket_def bare_store_def repo_left_def delete_batch_def eff_defs)
  from this[of 198] have 1: "empty_prefix bare_store ''projects/p/'' 200 0 ?w = (Inr 1, ?w\<lparr>rw_bucket := [''projects/q/b'']\<rparr>)"
    by (simp add: eval_nat_numeral)
  obtain w' where d: "destroy_repo (bare_deps bare_node) bare_store (\<lambda>_. None) no_tally purged_repo ?w = (Inr \<lparr>dt_destroyed = 1, dt_failed = 0, dt_objects = 1\<rparr>, w')"
    and w': "rw_bucket w' = [''projects/q/b'']" "rf_destroyed (rw_fate w' ''p'') \<noteq> None"
    by (simp add: destroy_repo_def destroy_one_def p 1 Let_def no_tally_def caught_def eff_defs)
      (simp add: in_bucket_def bare_store_def repo_left_def purged_repo_def ret_def)
  show ?thesis using destroyed_means_listed_empty[OF d] d w' by (simp add: repo_left_def purged_repo_def)
qed

theorem refused_audit_is_never_written_witness:
  "\<exists>w'. destroy_repo (bare_deps bare_node) bare_store (\<lambda>_. Some ''permission denied'') no_tally purged_repo (repo_left [''projects/q/b'']) =
      (Inr \<lparr>dt_destroyed = 0, dt_failed = 1, dt_objects = 0\<rparr>, w') \<and> rw_audit w' = [] \<and> (\<forall>now limit. purged_repo \<notin> set (repos_due now limit w'))"
proof -
  let ?w = "repo_left [''projects/q/b'']"
  have "os_list bare_store (repo_prefix (rp_path purged_repo)) (rw_bucket ?w) = (Inr [], rw_bucket ?w)"
    by (simp add: bare_store_def repo_prefix_def purged_repo_def repo_left_def)
  from refused_audit_is_never_written[OF this this, of "\<lambda>_. Some ''permission denied''" "''permission denied''" "bare_deps bare_node" no_tally]
  show ?thesis by (simp add: no_tally_def repo_left_def)
qed

end
