(* ===== verification/Spec2Isabelle.thy ===== *)
theory Spec2Isabelle
  imports Console Orgs Placement Pages EndSafety Ddl ControlPlane VerifySafety
begin

text \<open>
  A verification library for Corebase (Steadhold): a control plane that sells managed PostgreSQL projects.

  The program. An API server (\<open>services/api\<close>) keeps organizations, projects and sessions, runs SQL for the dashboard
  and serves each project's own sign-in. What takes long it writes as a row of \<open>provisioning_jobs\<close> and hands to a
  queue. A worker (\<open>services/worker\<close>) takes deliveries off the queue, runs the saga of the job step by step against
  the control plane's database, a Docker node and the project's database, and repairs what was lost by scans.
  The dashboard (\<open>apps/dashboard\<close>) composes the SQL of its table editor; \<open>packages\<close> holds what the three share.

  Which theory models which part:
  \<^item> \<open>Prelude\<close>: strings, tables as lists of rows, and programs as functions of a state to an error or a result and
    the state they leave (\<open>eff\<close>, \<open>and_then\<close>, \<open>transaction\<close>).
  \<^item> \<open>SqlLex\<close>, \<open>SqlGuard\<close>, \<open>SqlRun\<close>, \<open>Console\<close>: the destructive-statement guard of \<open>packages/sql-guard\<close>, the
    runner \<open>modules/db/run.ts\<close> and the route around it. Shown: quoted text is data, a script is as dangerous as its
    worst statement, the rails around a run come in order, every run is audited before it reaches the database.
  \<^item> \<open>SqlText\<close>, \<open>GridSql\<close>, \<open>Ddl\<close>: the SQL that the dashboard composes (\<open>grid-sql.ts\<close>, \<open>dml.ts\<close>, \<open>ddl.ts\<close>,
    \<open>confirm.ts\<close>), and how the server's guard reads every statement of it, for all names.
  \<^item> \<open>Authz\<close>, \<open>Ids\<close>, \<open>Orgs\<close>: the role matrix, wire identifiers, organizations with members and invites. Shown: an
    organization keeps an owner, an invite is used once, nobody acts above their role.
  \<^item> \<open>Sessions\<close>, \<open>Counters\<close>, \<open>Pages\<close>: who is calling, rate limits, keyset pages.
  \<^item> \<open>ProjectStore\<close>, \<open>ControlPlane\<close>: the store of projects, its in-memory double, and the routes over it. Shown: a
    project and its job land together, every accepted change was recorded, changes need the role.
  \<^item> \<open>Jobs\<close>, \<open>Sweeper\<close>: the job table, the saga runner and the scans that rebuild deliveries. Shown: a job has one
    worker at a time, a run accounts for every step, a lost delivery is rebuilt.
  \<^item> \<open>Placement\<close>: nodes, ports, memory and disk. Shown: the books balance in every reachable state of the fleet.
  \<^item> \<open>Secrets\<close>, \<open>Jwt\<close>, \<open>KeyRotation\<close>: the sealed store, tokens, and the rotation of a project's signing keys with a
    crash possible between any two writes.
  \<^item> \<open>Engine\<close>, \<open>Backups\<close>, \<open>Containers\<close>: the Docker client, pgBackRest and its schedule, container specifications and
    the admin connection.
  \<^item> \<open>Sagas\<close>, \<open>SagaSafety\<close>, \<open>SagaRuns\<close>: the eight sagas of \<open>jobs/sagas.ts\<close>, which join the store, the placement, the
    vault and the node. Shown: only a due purge deletes a volume, a purge leaves nothing, every wait ends, a pause
    waits for its backup; and what a restore and a purge get wrong.
  \<^item> \<open>Reconcile\<close>, \<open>ReconcileSafety\<close>: the sweep of \<open>reconcile.ts\<close> that compares what the control plane wants of a node with
    what is on it. Shown: it destroys nothing; and where it works against the sagas.
  \<^item> \<open>Scans\<close>, \<open>ScanSafety\<close>, \<open>Verify\<close>, \<open>VerifySafety\<close>: the scans that back up by the clock, expire restored copies, pause idle
    projects, restore backups to test them, and destroy repos. Shown: only silence pauses, a verification stays in its
    scratch and cleans up, destroyed means listed empty; and which candidates starve the rest.
  \<^item> \<open>MailGate\<close>, \<open>EndUsers\<close>, \<open>EndAuth\<close>, \<open>EndFlows\<close>, \<open>EndSafety\<close>: the sign-in that a project serves to its own users
    (\<open>modules/project-auth\<close>) and the mail it owes (\<open>packages/email\<close>). Shown: every handler is a run of the
    transactions of the store, refresh tokens and links are spent once, deletion is final.

  State and operations. A record has the columns of a table or the fields of a type of the source, an operation the
  name of the function it models, in the snake case. The error of an operation is a constructor for what the code
  throws, or the status and code of the refusal. One SQL statement is one step; a transaction commits all of its
  steps or none; where other requests can come between two statements, the reads made before are arguments of
  the operation, or the statements are operations of their own, and a step relation (\<open>auth_step\<close>, \<open>place_step\<close>,
  the worker relation of \<open>Jobs\<close>) runs them in any order. \<open>saga_world\<close> puts the tables of one saga beside the outside.

  Interfaces are locales: \<open>rate_limiter\<close> (interpreted on the Redis and the memory counter), \<open>job_repo_laws\<close> (on the
  SQL repository), \<open>effect_order\<close> and \<open>host_order\<close> (what every run of a program over the node keeps, interpreted
  on the trace of requests and on the table of backup runs), among others.

  What is a parameter. SHA-256 and HMAC, the ciphers and signatures of \<open>node:crypto\<close>, JSON and Base64, the collation, the time
  zone, random draws, BullMQ, the PostgreSQL client of a project, the Docker Engine with the clock and the timers
  (\<open>outside\<close>). What is relied on of them is a named predicate (\<open>aead_opens\<close>, \<open>jwt_lib_ok\<close>, \<open>queue_law\<close>, \<open>outside_ok\<close>),
  stated where it is used and shown to hold of a concrete instance in the witness of each property that assumes it.

  Bounds and fuel. A string is of UTF-16 units below 256, so of Latin-1 text. Times are whole milliseconds or seconds,
  naturals; no number of the model reaches the range where a double is no longer exact. Loops without a bound
  in the code have fuel: a loop that waits for a deadline \<open>ms\<close> away has \<open>ms div 500 + 2\<close> rounds, and more change nothing
  as long as the clock does not go back and a timer does not fire early. Loops with a bound keep it: 100 polls of
  an exec, 60 of a promotion, the retries of a held backup lock.

  Conventions. One clock serves \<open>now()\<close> and \<open>Date.now()\<close>. An address an administrator typed is lower-case text before it
  is compared. A JavaScript object used as a table has the keys the source gives it and no inherited ones. Audit
  metadata is compared before redaction. The API runs with a database, so that the routes that answer 501 without
  one have no such branch.

  Not modelled. The dashboard's pages and components, templates of mails, metrics, migrations, configuration and process
  start-up are input and output around the parts above. The gateway, object storage (\<open>modules/storage\<close>), the scans
  that watch disks and WAL, traffic metering and password hashing are
  listed with their reasons in the manifest's components. The foreign keys from projects and placements to
  the tables above them are not modelled, nor the order in which the database returns rows that the code does
  not sort.
\<close>

end
